(* ===== verification/VRE_Prelude.thy ===== *)
theory VRE_Prelude
  imports Main "HOL-Library.Word"
begin

text \<open>
  The vocabulary shared by every theory of this development of the outcome SDK (the TypeScript
  files under \<^verbatim>\<open>src/sdk\<close>).

  \<^item> \<open>byte\<close>, \<open>buffer\<close>: a Node \<^verbatim>\<open>Buffer\<close> is a list of 8-bit words.
  \<^item> \<open>jsstr\<close>: a JavaScript string is the list of its UTF-16 code units, so \<open>length\<close> is
    \<^verbatim>\<open>.length\<close>; \<open>js\<close> turns an ASCII literal into one.
  \<^item> \<open>js_error\<close>, \<open>result\<close>: a \<^verbatim>\<open>throw\<close> is a value \<open>Inl e\<close>, a normal return \<open>Inr v\<close>; \<open>bindE\<close>
    sequences two statements, \<open>throwIf\<close> is \<^verbatim>\<open>if (c) throw e\<close>, \<open>mapE\<close>, \<open>foldE\<close> and \<open>concatE\<close>
    are the loops that stop at the first error.
  \<^item> \<open>reader\<close>: a function of a buffer and the mutable \<^verbatim>\<open>offset.value\<close> the SDK threads through its
    \<^verbatim>\<open>readU16LE(buf, offset)\<close> helpers; \<open>bindR\<close> sequences two reads.

  \<open>runs p xs v\<close> says that the reader \<open>p\<close>, wherever it meets the bytes \<open>xs\<close>, consumes exactly
  them and returns \<open>v\<close>. The rules collected in \<open>runs_intros\<close> prove a parser against the bytes
  its encoder wrote, and the rules in \<open>result_simps\<close> take a successful run apart.
\<close>

section \<open>Types\<close>

type_synonym byte = "8 word"
type_synonym buffer = "byte list"
type_synonym jsstr = "16 word list"

datatype js_error =
    TypeError string
  | RangeError string
  | Error string
  | ReplayMismatch string
  | SnapshotUnavailable string
  | BlockhashExpired

type_synonym 'a result = "js_error + 'a"
type_synonym 'a reader = "buffer \<Rightarrow> nat \<Rightarrow> ('a \<times> nat) result"

definition js :: "string \<Rightarrow> jsstr" where
  "js s = map of_char s"

named_theorems result_simps \<open>inversion and evaluation of the error combinators\<close>
named_theorems result_elims \<open>taking a successful run apart, one statement at a time\<close>
named_theorems runs_intros \<open>a reader consumes exactly the bytes its writer produced\<close>

section \<open>Computations that may throw\<close>

fun bindE :: "'e + 'a \<Rightarrow> ('a \<Rightarrow> 'e + 'b) \<Rightarrow> 'e + 'b" where
  "bindE (Inl e) f = Inl e"
| "bindE (Inr x) f = f x"

definition throwIf :: "bool \<Rightarrow> 'e \<Rightarrow> 'e + 'a \<Rightarrow> 'e + 'a" where
  "throwIf c e k = (if c then Inl e else k)"

primrec mapE :: "('a \<Rightarrow> 'e + 'b) \<Rightarrow> 'a list \<Rightarrow> 'e + 'b list" where
  "mapE f [] = Inr []"
| "mapE f (x # xs) = bindE (f x) (\<lambda>y. bindE (mapE f xs) (\<lambda>ys. Inr (y # ys)))"

primrec foldE :: "('s \<Rightarrow> 'a \<Rightarrow> 'e + 's) \<Rightarrow> 's \<Rightarrow> 'a list \<Rightarrow> 'e + 's" where
  "foldE f s [] = Inr s"
| "foldE f s (x # xs) = bindE (f s x) (\<lambda>s'. foldE f s' xs)"

primrec concatE :: "buffer result list \<Rightarrow> buffer result" where
  "concatE [] = Inr []"
| "concatE (p # ps) = bindE p (\<lambda>b. bindE (concatE ps) (\<lambda>bs. Inr (b @ bs)))"

definition is_ok :: "'e + 'a \<Rightarrow> bool" where
  "is_ok r = (case r of Inl _ \<Rightarrow> False | Inr _ \<Rightarrow> True)"

lemma bindE_cong [fundef_cong]:
  "m = m' \<Longrightarrow> (\<And>x. m' = Inr x \<Longrightarrow> f x = g x) \<Longrightarrow> bindE m f = bindE m' g"
  by (cases m) auto

lemma bindE_Inr_iff [result_simps]:
  "bindE m f = Inr y \<longleftrightarrow> (\<exists>x. m = Inr x \<and> f x = Inr y)"
  by (cases m) auto

lemma bindE_Inl_iff:
  "bindE m f = Inl e \<longleftrightarrow> m = Inl e \<or> (\<exists>x. m = Inr x \<and> f x = Inl e)"
  by (cases m) auto

lemma bindE_assoc: "bindE (bindE m f) g = bindE m (\<lambda>x. bindE (f x) g)"
  by (cases m) auto

lemma bindE_Inr_right [simp]: "bindE m Inr = m"
  by (cases m) auto

lemma throwIf_Inr_iff [result_simps]: "throwIf c e k = Inr y \<longleftrightarrow> \<not> c \<and> k = Inr y"
  by (simp add: throwIf_def)

lemma throwIf_False [simp]: "throwIf False e k = k"
  by (simp add: throwIf_def)

lemma throwIf_True [simp]: "throwIf True e k = Inl e"
  by (simp add: throwIf_def)

lemma bindE_InrE [result_elims]:
  assumes "bindE m f = Inr y" obtains x where "m = Inr x" and "f x = Inr y"
  using assms by (auto simp: bindE_Inr_iff)

lemma throwIf_InrE [result_elims]:
  assumes "throwIf c e k = Inr y" obtains "\<not> c" and "k = Inr y"
  using assms by (auto simp: throwIf_Inr_iff)

lemma is_ok_simps [simp]: "is_ok (Inr x)" "\<not> is_ok (Inl e)"
  by (simp_all add: is_ok_def)

lemma is_ok_iff: "is_ok r \<longleftrightarrow> (\<exists>x. r = Inr x)"
  by (cases r) (auto simp: is_ok_def)

lemma mapE_Inr_iff: "mapE f xs = Inr ys \<longleftrightarrow> list_all2 (\<lambda>x y. f x = Inr y) xs ys"
  by (induction xs arbitrary: ys) (auto simp: result_simps list_all2_Cons1)

lemma mapE_Inr_length: "mapE f xs = Inr ys \<Longrightarrow> length ys = length xs"
  by (auto simp: mapE_Inr_iff dest: list_all2_lengthD)

lemma mapE_Inr_nth: "mapE f xs = Inr ys \<Longrightarrow> i < length xs \<Longrightarrow> f (xs ! i) = Inr (ys ! i)"
  by (auto simp: mapE_Inr_iff dest: list_all2_nthD)

lemma mapE_Inr_set: "mapE f xs = Inr ys \<Longrightarrow> y \<in> set ys \<Longrightarrow> \<exists>x \<in> set xs. f x = Inr y"
  by (induction xs arbitrary: ys) (auto simp: bindE_Inr_iff)

lemma mapE_ok: "(\<And>x. x \<in> set xs \<Longrightarrow> f x = Inr (g x)) \<Longrightarrow> mapE f xs = Inr (map g xs)"
  by (induction xs) auto

lemma mapE_append:
  "mapE f (xs @ ys) = bindE (mapE f xs) (\<lambda>us. bindE (mapE f ys) (\<lambda>vs. Inr (us @ vs)))"
  by (induction xs) (simp_all add: bindE_assoc)

lemma concatE_ok: "(\<And>x. x \<in> set xs \<Longrightarrow> f x = Inr (g x)) \<Longrightarrow> concatE (map f xs) = Inr (concat (map g xs))"
  by (induction xs) auto

lemma concatE_append:
  "concatE (ps @ qs) = bindE (concatE ps) (\<lambda>a. bindE (concatE qs) (\<lambda>b. Inr (a @ b)))"
  by (induction ps) (simp_all add: bindE_assoc)

lemma concatE_map_InrD:
  assumes "concatE (map f xs) = Inr b" and "\<And>x y. x \<in> set xs \<Longrightarrow> f x = Inr y \<Longrightarrow> y = g x \<and> P x"
  shows "b = concat (map g xs) \<and> (\<forall>x \<in> set xs. P x)"
  using assms by (induction xs arbitrary: b) (auto simp: bindE_Inr_iff)

lemma foldE_append: "foldE f s (xs @ ys) = bindE (foldE f s xs) (\<lambda>s'. foldE f s' ys)"
  by (induction xs arbitrary: s) (simp_all add: bindE_assoc)

text \<open>A loop over an index range whose states are known.\<close>

lemma foldE_upt:
  "(\<And>k. k < n \<Longrightarrow> f (S k) k = Inr (S (Suc k))) \<Longrightarrow> foldE f (S 0) [0..<n] = Inr (S n)"
  by (induction n) (simp_all add: foldE_append)

lemma foldE_invariant:
  assumes "P s" and "\<And>s x. x \<in> set xs \<Longrightarrow> P s \<Longrightarrow> \<exists>s'. f s x = Inr s' \<and> P s'"
  shows "\<exists>t. foldE f s xs = Inr t \<and> P t"
  using assms
proof (induction xs arbitrary: s)
  case Nil
  then show ?case by simp
next
  case (Cons x xs)
  from Cons.prems(2) [of x s] Cons.prems(1) obtain s' where "f s x = Inr s'" "P s'" by auto
  with Cons.IH [of s'] Cons.prems(2) show ?case by simp
qed

section \<open>Readers: a buffer and an offset\<close>

definition retR :: "'a \<Rightarrow> 'a reader" where
  "retR v = (\<lambda>buf off. Inr (v, off))"

definition bindR :: "'a reader \<Rightarrow> ('a \<Rightarrow> 'b reader) \<Rightarrow> 'b reader" where
  "bindR p f = (\<lambda>buf off. bindE (p buf off) (\<lambda>(v, off'). f v buf off'))"

definition throwIfR :: "bool \<Rightarrow> js_error \<Rightarrow> 'a reader \<Rightarrow> 'a reader" where
  "throwIfR c e p = (\<lambda>buf off. throwIf c e (p buf off))"

definition liftR :: "'a result \<Rightarrow> 'a reader" where
  "liftR r = (\<lambda>buf off. bindE r (\<lambda>v. Inr (v, off)))"

definition offsetR :: "nat reader" where
  "offsetR = (\<lambda>buf off. Inr (off, off))"

text \<open>\<^verbatim>\<open>for (let i = 0; i < n; i += 1) { s = body(i, s) }\<close> with the offset threaded through.\<close>

primrec forR :: "nat \<Rightarrow> nat \<Rightarrow> (nat \<Rightarrow> 's \<Rightarrow> 's reader) \<Rightarrow> 's \<Rightarrow> 's reader" where
  "forR 0 i body s = retR s"
| "forR (Suc n) i body s = bindR (body i s) (forR n (Suc i) body)"

text \<open>The same loop when each round only pushes one element.\<close>

primrec repeatR :: "nat \<Rightarrow> 'a reader \<Rightarrow> 'a list reader" where
  "repeatR 0 p = retR []"
| "repeatR (Suc n) p = bindR p (\<lambda>x. bindR (repeatR n p) (\<lambda>xs. retR (x # xs)))"

definition runR :: "'a reader \<Rightarrow> buffer \<Rightarrow> nat \<Rightarrow> 'a result" where
  "runR p buf off = bindE (p buf off) (\<lambda>(v, off'). Inr v)"

lemma retR_apply [result_simps]: "retR v buf off = Inr (v, off)"
  by (simp add: retR_def)

lemma offsetR_apply [result_simps]: "offsetR buf off = Inr (off, off)"
  by (simp add: offsetR_def)

lemma bindR_Inr_iff [result_simps]:
  "bindR p f buf off = Inr r \<longleftrightarrow> (\<exists>v off'. p buf off = Inr (v, off') \<and> f v buf off' = Inr r)"
  by (auto simp: bindR_def bindE_Inr_iff)

lemma bindR_step: "p buf off = Inr (v, off') \<Longrightarrow> bindR p f buf off = f v buf off'"
  by (simp add: bindR_def)

lemma bindR_error: "p buf off = Inl e \<Longrightarrow> bindR p f buf off = Inl e"
  by (simp add: bindR_def)

lemma bindR_retR [simp]: "bindR (retR x) f = f x"
  by (simp add: bindR_def retR_def fun_eq_iff)

lemma throwIfR_Inr_iff [result_simps]:
  "throwIfR c e p buf off = Inr r \<longleftrightarrow> \<not> c \<and> p buf off = Inr r"
  by (simp add: throwIfR_def throwIf_Inr_iff)

lemma throwIfR_False [simp]: "throwIfR False e p = p"
  by (simp add: throwIfR_def)

lemma throwIfR_True [simp]: "throwIfR True e p buf off = Inl e"
  by (simp add: throwIfR_def)

lemma liftR_Inr_iff [result_simps]: "liftR m buf off = Inr (v, off') \<longleftrightarrow> m = Inr v \<and> off' = off"
  by (auto simp: liftR_def bindE_Inr_iff)

lemma runR_Inr_iff [result_simps]: "runR p buf off = Inr v \<longleftrightarrow> (\<exists>off'. p buf off = Inr (v, off'))"
  by (auto simp: runR_def bindE_Inr_iff)

lemma bindR_InrE [result_elims]:
  assumes "bindR p f buf off = Inr r"
  obtains v off' where "p buf off = Inr (v, off')" and "f v buf off' = Inr r"
  using assms by (auto simp: bindR_Inr_iff)

lemma throwIfR_InrE [result_elims]:
  assumes "throwIfR c e p buf off = Inr r" obtains "\<not> c" and "p buf off = Inr r"
  using assms by (auto simp: throwIfR_Inr_iff)

lemma retR_InrE [result_elims]:
  assumes "retR v buf off = Inr (w, off')" obtains "w = v" and "off' = off"
  using assms by (simp add: retR_def)

lemma offsetR_InrE [result_elims]:
  assumes "offsetR buf off = Inr (w, off')" obtains "w = off" and "off' = off"
  using assms by (simp add: offsetR_def)

lemma liftR_InrE [result_elims]:
  assumes "liftR m buf off = Inr (w, off')" obtains "m = Inr w" and "off' = off"
  using assms by (simp add: liftR_Inr_iff)

lemma runR_InrE [result_elims]:
  assumes "runR p buf off = Inr v" obtains off' where "p buf off = Inr (v, off')"
  using assms by (auto simp: runR_Inr_iff)

lemma forR_Suc_Inr_iff:
  "forR (Suc n) i body s buf off = Inr r \<longleftrightarrow>
    (\<exists>s' off'. body i s buf off = Inr (s', off') \<and> forR n (Suc i) body s' buf off' = Inr r)"
  by (simp add: bindR_Inr_iff)

lemma repeatR_Inr_D:
  "repeatR n p buf off = Inr (xs, off') \<Longrightarrow>
    length xs = n \<and> (\<forall>x \<in> set xs. \<exists>o1 o2. p buf o1 = Inr (x, o2))"
proof (induction n arbitrary: off xs)
  case 0
  then show ?case by (simp add: retR_def)
next
  case (Suc n)
  then obtain x o1 ys where x: "p buf off = Inr (x, o1)" and r: "repeatR n p buf o1 = Inr (ys, off')"
    and xs: "xs = x # ys"
    by (auto simp: bindR_Inr_iff retR_def)
  from Suc.IH [OF r] x xs show ?case by auto
qed

text \<open>A loop invariant for \<open>forR\<close>: kept by every round, it holds of the final state.\<close>

lemma forR_invariant:
  assumes "forR n i body s buf off = Inr (t, off')" and "P i s off"
    and "\<And>k s o1 s' o2. i \<le> k \<Longrightarrow> k < i + n \<Longrightarrow> P k s o1 \<Longrightarrow> body k s buf o1 = Inr (s', o2) \<Longrightarrow> P (Suc k) s' o2"
  shows "P (i + n) t off'"
  using assms
proof (induction n arbitrary: i s off)
  case 0
  then show ?case by (simp add: retR_def)
next
  case (Suc n)
  from Suc.prems(1) obtain s1 o1 where b: "body i s buf off = Inr (s1, o1)"
    and r: "forR n (Suc i) body s1 buf o1 = Inr (t, off')"
    by (auto simp: bindR_Inr_iff)
  have "P (Suc i) s1 o1"
    using Suc.prems(3) [OF _ _ Suc.prems(2) b] by simp
  then have "P (Suc i + n) t off'"
    by (rule Suc.IH [OF r]) (rule Suc.prems(3), auto)
  then show ?case by simp
qed

section \<open>What a reader consumes\<close>

definition runs :: "nat \<Rightarrow> 'a reader \<Rightarrow> buffer \<Rightarrow> 'a \<Rightarrow> bool" where
  "runs off p xs v \<longleftrightarrow>
     (\<forall>buf s. drop off buf = xs @ s \<longrightarrow> off \<le> length buf \<longrightarrow> p buf off = Inr (v, off + length xs))"

lemma runsI:
  "(\<And>buf s. drop off buf = xs @ s \<Longrightarrow> off \<le> length buf \<Longrightarrow> p buf off = Inr (v, off + length xs))
    \<Longrightarrow> runs off p xs v"
  by (simp add: runs_def)

lemma runsD:
  "runs off p xs v \<Longrightarrow> drop off buf = xs @ s \<Longrightarrow> off \<le> length buf \<Longrightarrow> p buf off = Inr (v, off + length xs)"
  by (auto simp: runs_def)

lemma runs_at:
  "runs (length pre) p xs v \<Longrightarrow> p (pre @ xs @ s) (length pre) = Inr (v, length pre + length xs)"
  by (rule runsD) auto

lemma runs_run: "runs off p xs v \<Longrightarrow> length pre = off \<Longrightarrow> runR p (pre @ xs) off = Inr v"
  using runs_at [of pre p xs v "[]"] by (auto simp: runR_def)

lemma drop_append_cancel:
  assumes "drop off buf = xs @ ys" and "off \<le> length buf"
  shows "drop (off + length xs) buf = ys" and "off + length xs \<le> length buf"
proof -
  have "drop (length xs) (drop off buf) = ys" using assms(1) by simp
  then show "drop (off + length xs) buf = ys" by (simp add: add.commute)
  have "length (drop off buf) = length xs + length ys" using assms(1) by simp
  then show "off + length xs \<le> length buf" using assms(2) by simp
qed

text \<open>
  The rules apply in this order of goals: the bytes are written \<open>a @ b @ \<dots> @ []\<close>, each step of the
  reader takes the first block. A proof is \<open>(rule runs_intros | (simp; fail))+\<close>.
\<close>

lemma runs_retR [runs_intros]: "runs off (retR v) [] v"
  by (rule runsI) (simp add: retR_def)

lemma runs_retR_eq: "v = w \<Longrightarrow> runs off (retR v) [] w"
  by (simp add: runs_retR)

lemma runs_bind_liftR [runs_intros]:
  "m = Inr v \<Longrightarrow> runs off (f v) ys w \<Longrightarrow> runs off (bindR (liftR m) f) ys w"
  by (simp add: runs_def liftR_def bindR_def)

lemma runs_bind_offsetR [runs_intros]:
  "runs off (f off) ys w \<Longrightarrow> runs off (bindR offsetR f) ys w"
  by (simp add: runs_def offsetR_def bindR_def)

lemma runs_bindR [runs_intros]:
  assumes "runs off p xs v" and "runs (off + length xs) (f v) ys w"
  shows "runs off (bindR p f) (xs @ ys) w"
proof (rule runsI)
  fix buf s
  assume d: "drop off buf = (xs @ ys) @ s" and le: "off \<le> length buf"
  have p: "p buf off = Inr (v, off + length xs)"
    using runsD [OF assms(1), of buf "ys @ s"] d le by simp
  have "f v buf (off + length xs) = Inr (w, off + length xs + length ys)"
    using runsD [OF assms(2), of buf s]
      drop_append_cancel [of off buf xs "ys @ s"] d le by simp
  with p show "bindR p f buf off = Inr (w, off + length (xs @ ys))"
    by (simp add: bindR_def add.assoc)
qed

lemma runs_throwIfR [runs_intros]: "\<not> c \<Longrightarrow> runs off p xs v \<Longrightarrow> runs off (throwIfR c e p) xs v"
  by (simp add: runs_def throwIfR_def)

lemma runs_repeatR:
  "(\<And>x o'. x \<in> set xs \<Longrightarrow> runs o' p (enc x) x) \<Longrightarrow> runs off (repeatR (length xs) p) (concat (map enc xs)) xs"
proof (induction xs arbitrary: off)
  case Nil
  show ?case by (simp add: runs_retR)
next
  case (Cons x xs)
  have "runs o' (repeatR (length xs) p) (concat (map enc xs)) xs" for o'
    by (rule Cons.IH) (simp add: Cons.prems)
  then have "runs o' (bindR (repeatR (length xs) p) (\<lambda>ys. retR (x # ys))) (concat (map enc xs) @ []) (x # xs)" for o'
    by (rule runs_bindR) (rule runs_retR)
  moreover have "runs off p (enc x) x" by (rule Cons.prems) simp
  ultimately show ?case by (auto intro: runs_bindR)
qed

lemma runs_bind_repeatR:
  assumes "\<And>x o'. x \<in> set xs \<Longrightarrow> runs o' p (enc x) x" and "n = length xs"
    and "runs (off + length (concat (map enc xs))) (f xs) ys w"
  shows "runs off (bindR (repeatR n p) f) (concat (map enc xs) @ ys) w"
proof -
  have "runs off (repeatR (length xs) p) (concat (map enc xs)) xs"
    by (rule runs_repeatR) (rule assms(1))
  then show ?thesis unfolding assms(2) using assms(3) by (rule runs_bindR)
qed

text \<open>A loop whose \<open>k\<close>-th round consumes \<open>enc (xs ! k)\<close> and moves the state along \<open>st\<close>.\<close>

lemma runs_forR:
  assumes "\<And>k o'. k < length xs \<Longrightarrow> runs o' (body (i + k) (st k)) (enc (xs ! k)) (st (Suc k))"
  shows "runs off (forR (length xs) i body (st 0)) (concat (map enc xs)) (st (length xs))"
  using assms
proof (induction xs arbitrary: i st off)
  case Nil
  show ?case by (simp add: runs_retR)
next
  case (Cons x xs)
  have 1: "runs off (body i (st 0)) (enc x) (st (Suc 0))"
    using Cons.prems [of 0] by simp
  have "runs o' (forR (length xs) (Suc i) body (st (Suc 0))) (concat (map enc xs)) (st (Suc (length xs)))" for o'
    using Cons.IH [of "Suc i" "\<lambda>k. st (Suc k)" o'] Cons.prems [of "Suc k" for k] by simp
  with 1 show ?case by (auto intro: runs_bindR)
qed

text \<open>The counterpart for errors: wherever \<open>p\<close> meets the bytes \<open>xs\<close>, it throws \<open>e\<close>.\<close>

definition fails :: "nat \<Rightarrow> 'a reader \<Rightarrow> buffer \<Rightarrow> js_error \<Rightarrow> bool" where
  "fails off p xs e \<longleftrightarrow>
     (\<forall>buf s. drop off buf = xs @ s \<longrightarrow> off \<le> length buf \<longrightarrow> p buf off = Inl e)"

lemma fails_throwIfR: "c \<Longrightarrow> fails off (throwIfR c e p) xs e"
  by (simp add: fails_def)

lemma fails_throwIfR_skip: "\<not> c \<Longrightarrow> fails off p xs e \<Longrightarrow> fails off (throwIfR c e' p) xs e"
  by (simp add: fails_def)

lemma fails_bindR:
  assumes "runs off p xs v" and "fails (off + length xs) (f v) ys e"
  shows "fails off (bindR p f) (xs @ ys) e"
  unfolding fails_def
proof (intro allI impI)
  fix buf s
  assume d: "drop off buf = (xs @ ys) @ s" and le: "off \<le> length buf"
  have "p buf off = Inr (v, off + length xs)"
    using runsD [OF assms(1), of buf "ys @ s"] d le by simp
  moreover have "f v buf (off + length xs) = Inl e"
    using assms(2) drop_append_cancel [of off buf xs "ys @ s"] d le by (auto simp: fails_def)
  ultimately show "bindR p f buf off = Inl e"
    by (simp add: bindR_def)
qed

lemma fails_run: "fails off p xs e \<Longrightarrow> length pre = off \<Longrightarrow> runR p (pre @ xs) off = Inl e"
  by (auto simp: fails_def runR_def)

lemmas fails_intros = fails_throwIfR fails_throwIfR_skip fails_bindR

section \<open>Lists\<close>

lemma take_drop_nth_append [simp]: "drop (length xs) (xs @ ys) = ys"
  by simp

lemma nth_append_length_plus [simp]: "(xs @ ys) ! (length xs + i) = ys ! i"
  by (simp add: nth_append)

lemma list_all_set [simp]: "list_all P xs \<longleftrightarrow> (\<forall>x \<in> set xs. P x)"
  by (simp add: list_all_iff)

lemma length_concat_const:
  "(\<And>x. x \<in> set xs \<Longrightarrow> length (f x) = n) \<Longrightarrow> length (concat (map f xs)) = length xs * n"
  by (induction xs) auto

text \<open>Node's \<^verbatim>\<open>buf.subarray(from, to)\<close> clamps both ends.\<close>

definition subarray :: "'a list \<Rightarrow> nat \<Rightarrow> nat \<Rightarrow> 'a list" where
  "subarray xs a b = take (b - a) (drop a xs)"

lemma subarray_length: "length (subarray xs a b) = min (b - a) (length xs - a)"
  by (simp add: subarray_def min.commute)

lemma subarray_nth_mem:
  "i < n \<Longrightarrow> off + n \<le> length xs \<Longrightarrow> xs ! (off + i) \<in> set (subarray xs off (off + n))"
  unfolding subarray_def in_set_conv_nth by (auto intro!: exI [of _ i])

lemma subarray_ball_nth:
  "\<forall>x \<in> set (subarray xs off (off + n)). P x \<Longrightarrow> off + n + m = length xs \<Longrightarrow> \<forall>i < n. P (xs ! (off + i))"
  by (auto intro!: subarray_nth_mem dest!: bspec)

lemma set_subarray: "set (subarray xs a b) \<subseteq> set xs"
  unfolding subarray_def by (meson order_trans set_drop_subset set_take_subset)

lemma distinct_map_take_nth:
  assumes "distinct (map f xs)" and "k < length xs"
  shows "f (xs ! k) \<notin> set (map f (take k xs))"
proof
  assume "f (xs ! k) \<in> set (map f (take k xs))"
  then obtain j where "j < k" "map f xs ! j = map f xs ! k"
    using assms(2) by (auto simp: in_set_conv_nth)
  with assms show False by (simp add: nth_eq_iff_index_eq del: nth_map)
qed

end
