(* ===== verification/Bytes.thy ===== *)
theory Bytes
  imports VRE_Prelude
begin

text \<open>
  Node \<^verbatim>\<open>Buffer\<close> access as the SDK uses it: little-endian reads and writes of 8 to 64 bit
  unsigned and 64 bit signed integers (every SDK file repeats these helpers), byte comparison,
  ASCII text, hexadecimal. A write outside the integer's range and a read past the end throw
  \<open>RangeError\<close>, as Node does (\<^verbatim>\<open>ERR_OUT_OF_RANGE\<close>).
\<close>

section \<open>Little-endian integers\<close>

primrec le_bytes :: "nat \<Rightarrow> int \<Rightarrow> buffer" where
  "le_bytes 0 v = []"
| "le_bytes (Suc n) v = word_of_int v # le_bytes n (v div 256)"

primrec le_uint :: "buffer \<Rightarrow> int" where
  "le_uint [] = 0"
| "le_uint (b # bs) = uint b + 256 * le_uint bs"

definition to_signed :: "nat \<Rightarrow> int \<Rightarrow> int" where
  "to_signed n u = (if u < 2 ^ (8 * n - 1) then u else u - 2 ^ (8 * n))"

lemma length_le_bytes [simp]: "length (le_bytes n v) = n"
  by (induction n arbitrary: v) auto

lemma le_uint_nonneg [simp]: "0 \<le> le_uint bs"
  by (induction bs) auto

lemma uint_byte_bound: "uint (b :: byte) < 256"
  using uint_lt2p [of b] by simp

lemma le_uint_bound: "le_uint bs < 256 ^ length bs"
proof (induction bs)
  case Nil
  show ?case by simp
next
  case (Cons b bs)
  have "le_uint bs + 1 \<le> 256 ^ length bs" using Cons by simp
  then have "256 * le_uint bs + 256 \<le> 256 * 256 ^ length bs" by simp
  with uint_byte_bound [of b] show ?case by simp
qed

lemma le_uint_le_bytes_mod: "le_uint (le_bytes n v) = v mod 256 ^ n"
proof (induction n arbitrary: v)
  case 0
  show ?case by simp
next
  case (Suc n)
  have "le_uint (le_bytes (Suc n) v) = v mod 256 + 256 * (v div 256 mod 256 ^ n)"
    by (simp add: Suc uint_word_of_int)
  also have "\<dots> = v mod (256 * 256 ^ n)"
    by (simp add: zmod_zmult2_eq)
  finally show ?case by simp
qed

lemma le_uint_le_bytes [simp]: "0 \<le> v \<Longrightarrow> v < 256 ^ n \<Longrightarrow> le_uint (le_bytes n v) = v"
  by (simp add: le_uint_le_bytes_mod)

lemma le_bytes_le_uint [simp]: "le_bytes (length bs) (le_uint bs) = bs"
proof (induction bs)
  case Nil
  show ?case by simp
next
  case (Cons b bs)
  have "(word_of_int (uint b + 256 * le_uint bs) :: byte) = word_of_int (uint b)"
    unfolding word_of_int_eq_iff take_bit_eq_mod by simp
  then have "(word_of_int (uint b + 256 * le_uint bs) :: byte) = b"
    by (simp only: word_of_int_uint)
  moreover have "(uint b + 256 * le_uint bs) div 256 = le_uint bs"
    using uint_byte_bound [of b] by simp
  ultimately show ?case using Cons by simp
qed

lemma le_uint_inject: "length xs = length ys \<Longrightarrow> le_uint xs = le_uint ys \<Longrightarrow> xs = ys"
  by (metis le_bytes_le_uint)

lemma le_bytes_inject:
  "0 \<le> v \<Longrightarrow> v < 256 ^ n \<Longrightarrow> 0 \<le> w \<Longrightarrow> w < 256 ^ n \<Longrightarrow> le_bytes n v = le_bytes n w \<longleftrightarrow> v = w"
  by (metis le_uint_le_bytes)

lemma to_signed_le_bytes:
  assumes "- (2 ^ 63) \<le> v" and "v < 2 ^ 63"
  shows "to_signed 8 (le_uint (le_bytes 8 v)) = v"
proof (cases "0 \<le> v")
  case True
  then have "v mod 2 ^ 64 = v" using assms by (intro mod_pos_pos_trivial) auto
  then show ?thesis using True assms by (simp add: to_signed_def le_uint_le_bytes_mod)
next
  case False
  have "(v + 2 ^ 64) mod 2 ^ 64 = v + 2 ^ 64"
    using assms False by (intro mod_pos_pos_trivial) auto
  then have "v mod 2 ^ 64 = v + 2 ^ 64" by simp
  then show ?thesis using False assms by (simp add: to_signed_def le_uint_le_bytes_mod)
qed

lemma to_signed_bounds:
  assumes "0 \<le> u" and "u < 2 ^ 64"
  shows "- (2 ^ 63) \<le> to_signed 8 u" and "to_signed 8 u < 2 ^ 63"
  using assms by (simp_all add: to_signed_def)

section \<open>Writers\<close>

definition out_of_range :: js_error where
  "out_of_range = RangeError ''ERR_OUT_OF_RANGE''"

definition write_uint :: "nat \<Rightarrow> int \<Rightarrow> buffer result" where
  "write_uint n v = throwIf (v < 0 \<or> 256 ^ n \<le> v) out_of_range (Inr (le_bytes n v))"

definition u16le :: "int \<Rightarrow> buffer result" where
  "u16le v = write_uint 2 v"

definition u32le :: "int \<Rightarrow> buffer result" where
  "u32le v = write_uint 4 v"

definition u64le :: "int \<Rightarrow> buffer result" where
  "u64le v = write_uint 8 v"

definition i64le :: "int \<Rightarrow> buffer result" where
  "i64le v = throwIf (v < - (2 ^ 63) \<or> 2 ^ 63 \<le> v) out_of_range (Inr (le_bytes 8 v))"

text \<open>\<^verbatim>\<open>Buffer.from([v])\<close> keeps the low eight bits and never throws.\<close>

definition byte_of :: "int \<Rightarrow> buffer" where
  "byte_of v = [word_of_int v]"

definition zeros :: "nat \<Rightarrow> buffer" where
  "zeros n = replicate n 0"

lemma length_byte_of [simp]: "length (byte_of v) = 1"
  by (simp add: byte_of_def)

lemma length_zeros [simp]: "length (zeros n) = n"
  by (simp add: zeros_def)

lemma write_uint_ok [simp]: "0 \<le> v \<Longrightarrow> v < 256 ^ n \<Longrightarrow> write_uint n v = Inr (le_bytes n v)"
  by (simp add: write_uint_def)

lemma write_uint_Inr_iff [result_simps]:
  "write_uint n v = Inr b \<longleftrightarrow> 0 \<le> v \<and> v < 256 ^ n \<and> b = le_bytes n v"
  by (auto simp: write_uint_def throwIf_Inr_iff)

lemma u16le_Inr_iff [result_simps]: "u16le v = Inr b \<longleftrightarrow> 0 \<le> v \<and> v < 65536 \<and> b = le_bytes 2 v"
  by (simp add: u16le_def write_uint_Inr_iff)

lemma u32le_Inr_iff [result_simps]:
  "u32le v = Inr b \<longleftrightarrow> 0 \<le> v \<and> v < 4294967296 \<and> b = le_bytes 4 v"
  by (simp add: u32le_def write_uint_Inr_iff)

lemma u64le_Inr_iff [result_simps]:
  "u64le v = Inr b \<longleftrightarrow> 0 \<le> v \<and> v < 18446744073709551616 \<and> b = le_bytes 8 v"
  by (simp add: u64le_def write_uint_Inr_iff)

lemma i64le_Inr_iff [result_simps]:
  "i64le v = Inr b \<longleftrightarrow> - 9223372036854775808 \<le> v \<and> v < 9223372036854775808 \<and> b = le_bytes 8 v"
  by (auto simp: i64le_def throwIf_Inr_iff)

lemma u16le_ok [simp]: "0 \<le> v \<Longrightarrow> v < 65536 \<Longrightarrow> u16le v = Inr (le_bytes 2 v)"
  by (simp add: u16le_def)

lemma u32le_ok [simp]: "0 \<le> v \<Longrightarrow> v < 4294967296 \<Longrightarrow> u32le v = Inr (le_bytes 4 v)"
  by (simp add: u32le_def)

lemma u64le_ok [simp]: "0 \<le> v \<Longrightarrow> v < 18446744073709551616 \<Longrightarrow> u64le v = Inr (le_bytes 8 v)"
  by (simp add: u64le_def)

lemma i64le_ok [simp]:
  "- 9223372036854775808 \<le> v \<Longrightarrow> v < 9223372036854775808 \<Longrightarrow> i64le v = Inr (le_bytes 8 v)"
  by (simp add: i64le_def)

section \<open>Readers\<close>

definition read_uint :: "nat \<Rightarrow> int reader" where
  "read_uint n = (\<lambda>buf off.
     throwIf (length buf < off + n) out_of_range
       (Inr (le_uint (take n (drop off buf)), off + n)))"

definition readU8 :: "int reader" where
  "readU8 = read_uint 1"

definition readU16LE :: "int reader" where
  "readU16LE = read_uint 2"

definition readU32LE :: "int reader" where
  "readU32LE = read_uint 4"

definition readU64LE :: "int reader" where
  "readU64LE = read_uint 8"

definition readI64LE :: "int reader" where
  "readI64LE = bindR (read_uint 8) (\<lambda>u. retR (to_signed 8 u))"

text \<open>The \<^verbatim>\<open>readBytes\<close> of snapshot.ts and composite_rank_desc.ts checks the length and throws; the
  one of verify.ts clamps (\<^verbatim>\<open>subarray\<close>) and still advances the offset by \<open>len\<close>.\<close>

definition readBytes :: "js_error \<Rightarrow> nat \<Rightarrow> buffer reader" where
  "readBytes e len = (\<lambda>buf off.
     throwIf (length buf < off + len) e (Inr (subarray buf off (off + len), off + len)))"

definition readBytesClamped :: "nat \<Rightarrow> buffer reader" where
  "readBytesClamped len = (\<lambda>buf off. Inr (subarray buf off (off + len), off + len))"

text \<open>\<^verbatim>\<open>if (off + n > buf.length) throw e\<close> followed by the read.\<close>

definition read_uint_or :: "js_error \<Rightarrow> nat \<Rightarrow> int reader" where
  "read_uint_or e n = (\<lambda>buf off. throwIf (length buf < off + n) e (read_uint n buf off))"

text \<open>\<^verbatim>\<open>buf[i]\<close> is \<^verbatim>\<open>undefined\<close> past the end.\<close>

definition byte_at :: "buffer \<Rightarrow> nat \<Rightarrow> int option" where
  "byte_at buf i = (if i < length buf then Some (uint (buf ! i)) else None)"

lemma read_uint_Inr_iff [result_simps]:
  "read_uint n buf off = Inr (v, off') \<longleftrightarrow>
    off + n \<le> length buf \<and> v = le_uint (take n (drop off buf)) \<and> off' = off + n"
  by (auto simp: read_uint_def throwIf_Inr_iff)

lemmas read_defs = readU8_def readU16LE_def readU32LE_def readU64LE_def

lemma read_uint_bounds:
  assumes "read_uint n buf off = Inr (v, off')"
  shows "0 \<le> v" and "v < 256 ^ n" and "off' = off + n" and "off + n \<le> length buf"
proof -
  have le: "off + n \<le> length buf" and v: "v = le_uint (take n (drop off buf))" and o: "off' = off + n"
    using assms by (auto simp: read_uint_Inr_iff)
  have "length (take n (drop off buf)) = n" using le by simp
  with le_uint_bound [of "take n (drop off buf)"] v show "v < 256 ^ n" by simp
  show "0 \<le> v" "off' = off + n" "off + n \<le> length buf" using le v o by simp_all
qed

lemma readU8_bounds [dest]:
  "readU8 buf off = Inr (v, off') \<Longrightarrow> 0 \<le> v \<and> v < 256 \<and> off' = off + 1 \<and> off' \<le> length buf"
  using read_uint_bounds [of 1 buf off v off'] by (simp add: readU8_def)

lemma readU16LE_bounds [dest]:
  "readU16LE buf off = Inr (v, off') \<Longrightarrow> 0 \<le> v \<and> v < 65536 \<and> off' = off + 2 \<and> off' \<le> length buf"
  using read_uint_bounds [of 2 buf off v off'] by (simp add: readU16LE_def)

lemma readU32LE_bounds [dest]:
  "readU32LE buf off = Inr (v, off') \<Longrightarrow> 0 \<le> v \<and> v < 4294967296 \<and> off' = off + 4 \<and> off' \<le> length buf"
  using read_uint_bounds [of 4 buf off v off'] by (simp add: readU32LE_def)

lemma readU64LE_bounds [dest]:
  "readU64LE buf off = Inr (v, off') \<Longrightarrow>
    0 \<le> v \<and> v < 18446744073709551616 \<and> off' = off + 8 \<and> off' \<le> length buf"
  using read_uint_bounds [of 8 buf off v off'] by (simp add: readU64LE_def)

lemma readU8_range: "readU8 buf off = Inr (v, off') \<Longrightarrow> 0 \<le> v \<and> v < 256"
  and readU16LE_nonneg: "readU16LE buf off = Inr (v, off') \<Longrightarrow> 0 \<le> v"
  and readU32LE_nonneg: "readU32LE buf off = Inr (v, off') \<Longrightarrow> 0 \<le> v"
  and readU64LE_nonneg: "readU64LE buf off = Inr (v, off') \<Longrightarrow> 0 \<le> v"
  by auto

lemma readI64LE_bounds [dest]:
  assumes "readI64LE buf off = Inr (v, off')"
  shows "- 9223372036854775808 \<le> v \<and> v < 9223372036854775808 \<and> off' = off + 8 \<and> off' \<le> length buf"
proof -
  from assms obtain u where u: "read_uint 8 buf off = Inr (u, off')" and v: "v = to_signed 8 u"
    by (auto simp: readI64LE_def bindR_Inr_iff retR_def)
  from read_uint_bounds [OF u] have "0 \<le> u" "u < 2 ^ 64" "off' = off + 8" "off' \<le> length buf"
    by simp_all
  with to_signed_bounds [of u] v show ?thesis by simp
qed

lemma readBytes_Inr_iff [result_simps]:
  "readBytes e len buf off = Inr (b, off') \<longleftrightarrow>
    off + len \<le> length buf \<and> b = subarray buf off (off + len) \<and> off' = off + len"
  by (auto simp: readBytes_def throwIf_Inr_iff)

lemma readBytes_length: "readBytes e len buf off = Inr (b, off') \<Longrightarrow> length b = len"
  by (auto simp: readBytes_Inr_iff subarray_length)

lemma readBytesClamped_apply [result_simps]:
  "readBytesClamped len buf off = Inr (subarray buf off (off + len), off + len)"
  by (simp add: readBytesClamped_def)

lemma runs_read_uint:
  "0 \<le> v \<Longrightarrow> v < 256 ^ n \<Longrightarrow> runs off (read_uint n) (le_bytes n v) v"
proof (rule runsI)
  fix buf :: buffer and s
  assume v: "0 \<le> v" "v < 256 ^ n" and d: "drop off buf = le_bytes n v @ s" and le: "off \<le> length buf"
  have "off + n \<le> length buf"
    using drop_append_cancel(2) [OF d le] by simp
  with d v show "read_uint n buf off = Inr (v, off + length (le_bytes n v))"
    by (simp add: read_uint_def)
qed

lemma runs_read_uint_or [runs_intros]:
  assumes "0 \<le> v" and "v < 256 ^ n"
  shows "runs off (read_uint_or e n) (le_bytes n v) v"
proof (rule runsI)
  fix buf :: buffer and s
  assume d: "drop off buf = le_bytes n v @ s" and le: "off \<le> length buf"
  have "off + n \<le> length buf" using drop_append_cancel(2) [OF d le] by simp
  then show "read_uint_or e n buf off = Inr (v, off + length (le_bytes n v))"
    using runsD [OF runs_read_uint [OF assms] d le] by (simp add: read_uint_or_def)
qed

lemma read_uint_or_Inr_iff [result_simps]:
  "read_uint_or e n buf off = Inr r \<longleftrightarrow> read_uint n buf off = Inr r"
  by (auto simp: read_uint_or_def read_uint_def throwIf_def split: if_splits)

lemma runs_readU8 [runs_intros]: "0 \<le> v \<Longrightarrow> v < 256 \<Longrightarrow> runs off readU8 (byte_of v) v"
  using runs_read_uint [of v 1 off] by (simp add: readU8_def byte_of_def)

lemma runs_readU16LE [runs_intros]: "0 \<le> v \<Longrightarrow> v < 65536 \<Longrightarrow> runs off readU16LE (le_bytes 2 v) v"
  using runs_read_uint [of v 2 off] by (simp add: readU16LE_def)

lemma runs_readU32LE [runs_intros]: "0 \<le> v \<Longrightarrow> v < 4294967296 \<Longrightarrow> runs off readU32LE (le_bytes 4 v) v"
  using runs_read_uint [of v 4 off] by (simp add: readU32LE_def)

lemma runs_readU64LE [runs_intros]:
  "0 \<le> v \<Longrightarrow> v < 18446744073709551616 \<Longrightarrow> runs off readU64LE (le_bytes 8 v) v"
  using runs_read_uint [of v 8 off] by (simp add: readU64LE_def)

lemma runs_readI64LE [runs_intros]:
  assumes "- 9223372036854775808 \<le> v" and "v < 9223372036854775808"
  shows "runs off readI64LE (le_bytes 8 v) v"
proof -
  let ?u = "le_uint (le_bytes 8 v)"
  have "runs off (read_uint 8) (le_bytes 8 ?u) ?u"
    using le_uint_bound [of "le_bytes 8 v"] by (intro runs_read_uint) auto
  moreover have "le_bytes 8 ?u = le_bytes 8 v"
    using le_bytes_le_uint [of "le_bytes 8 v"] by simp
  ultimately have "runs off readI64LE (le_bytes 8 v) (to_signed 8 ?u)"
    unfolding readI64LE_def using runs_bindR [OF _ runs_retR] by fastforce
  with to_signed_le_bytes [of v] assms show ?thesis by simp
qed

lemma runs_readBytes: "length b = len \<Longrightarrow> runs off (readBytes e len) b b"
proof (rule runsI)
  fix buf :: buffer and s
  assume l: "length b = len" and d: "drop off buf = b @ s" and le: "off \<le> length buf"
  have "off + len \<le> length buf"
    using drop_append_cancel(2) [OF d le] l by simp
  with d l show "readBytes e len buf off = Inr (b, off + length b)"
    by (simp add: readBytes_def subarray_def)
qed

lemma runs_readBytesClamped: "length b = len \<Longrightarrow> runs off (readBytesClamped len) b b"
  by (auto intro!: runsI simp: readBytesClamped_def subarray_def)

declare runs_readBytes [runs_intros] runs_readBytesClamped [runs_intros]

section \<open>Comparison\<close>

text \<open>\<^verbatim>\<open>Buffer.compare(a, b)\<close>: lexicographic on unsigned bytes, a proper prefix first.\<close>

fun buffer_compare :: "buffer \<Rightarrow> buffer \<Rightarrow> int" where
  "buffer_compare [] [] = 0"
| "buffer_compare [] (_ # _) = -1"
| "buffer_compare (_ # _) [] = 1"
| "buffer_compare (a # as) (b # bs) = (if a < b then -1 else if b < a then 1 else buffer_compare as bs)"

lemma buffer_compare_cases: "buffer_compare a b = -1 \<or> buffer_compare a b = 0 \<or> buffer_compare a b = 1"
  by (induction a b rule: buffer_compare.induct) auto

lemma buffer_compare_refl [simp]: "buffer_compare a a = 0"
  by (induction a) auto

lemma buffer_compare_0_iff [simp]: "buffer_compare a b = 0 \<longleftrightarrow> a = b"
  by (induction a b rule: buffer_compare.induct) auto

lemma buffer_compare_antisym: "buffer_compare b a = - buffer_compare a b"
  by (induction a b rule: buffer_compare.induct) auto

lemma buffer_compare_trans:
  "buffer_compare a b < 0 \<Longrightarrow> buffer_compare b c < 0 \<Longrightarrow> buffer_compare a c < 0"
proof (induction a b arbitrary: c rule: buffer_compare.induct)
  case (4 a as b bs)
  then show ?case
    by (cases c) (auto split: if_splits)
next
  case (2 b bs)
  then show ?case by (cases c) auto
qed auto

section \<open>ASCII and hexadecimal text\<close>

text \<open>\<^verbatim>\<open>Buffer.from(s, "ascii")\<close> keeps the low byte of each code unit, \<^verbatim>\<open>toString("ascii")\<close> the low
  seven bits of each byte; \<^verbatim>\<open>Buffer.byteLength(s, "ascii")\<close> is \<^verbatim>\<open>s.length\<close>.\<close>

definition ascii_bytes :: "jsstr \<Rightarrow> buffer" where
  "ascii_bytes s = map ucast s"

definition ascii_string :: "buffer \<Rightarrow> jsstr" where
  "ascii_string b = map (\<lambda>x. ucast (and x 127)) b"

text \<open>\<^verbatim>\<open>/^[\x20-\x7E]+$/\<close>\<close>

definition printable_unit :: "16 word \<Rightarrow> bool" where
  "printable_unit c \<longleftrightarrow> 32 \<le> c \<and> c \<le> 126"

definition printable_ascii :: "jsstr \<Rightarrow> bool" where
  "printable_ascii s \<longleftrightarrow> s \<noteq> [] \<and> list_all printable_unit s"

definition printable_byte :: "byte \<Rightarrow> bool" where
  "printable_byte b \<longleftrightarrow> 32 \<le> b \<and> b \<le> 126"

lemma length_ascii_bytes [simp]: "length (ascii_bytes s) = length s"
  by (simp add: ascii_bytes_def)

lemma length_ascii_string [simp]: "length (ascii_string b) = length b"
  by (simp add: ascii_string_def)

lemma length_js [simp]: "length (js s) = length s"
  by (simp add: js_def)

end
