(* ===== verification/Slot.thy ===== *)
theory Slot
  imports Bytes
begin

text \<open>
  \<^verbatim>\<open>sdk/slot.ts\<close>: the SF1 slot format (format version 10). \<open>encodeSlotArtifact\<close> compiles a game to
  the committed bytes, \<open>parseSlotArtifact\<close> validates and reads them back, \<open>replaySpin\<close> recomputes a
  spin from 32 bytes of randomness. A \<^verbatim>\<open>number\<close> of a \<^verbatim>\<open>SlotGameSpec\<close> is an integer here; it may be
  negative or too large, and the writers then wrap or throw as Node's do.

  Lemmas: the parser accepts what the encoder wrote and returns the same game; a parsed game always
  replays, with every stop on its reel; the bigint \<^verbatim>\<open>xorshift64*\<close> is the 64-bit one; the line rule
  equals a declarative reading of it; the win cap rounds half up.
\<close>

unbundle bit_operations_syntax

section \<open>Constants and types\<close>

definition FORMAT_VERSION_SLOT :: int where
  "FORMAT_VERSION_SLOT = 10"

definition SLOT_MAGIC :: buffer where
  "SLOT_MAGIC = [0x57, 0x33, 0x4F, 0x31]"

definition SLOT_MULTIPLIER_SCALE :: int where
  "SLOT_MULTIPLIER_SCALE = 10000"

definition MAX_SLOT_DIM :: int where
  "MAX_SLOT_DIM = 16"

definition SLOT_HEADER_BYTES :: nat where
  "SLOT_HEADER_BYTES = 41"

definition MAX_SLOT_ARTIFACT_BYTES :: nat where
  "MAX_SLOT_ARTIFACT_BYTES = 8192"

definition U64_MASK :: int where
  "U64_MASK = 2 ^ 64 - 1"

definition XORSHIFT_MULT :: int where
  "XORSHIFT_MULT = 0x2545f4914f6cdd1d"

record slot_game_spec =
  g_rows :: int
  g_cols :: int
  g_reels :: "int list list"
  g_paylines :: "int list list"
  g_paytable :: "int list list"
  g_wildIdx :: int
  g_scatterIdx :: int
  g_paytableScaleNum :: int
  g_paytableScaleDen :: int
  g_minInputLamports :: int
  g_maxInputLamports :: int
  g_maxWinMultiplier :: int

record slot_spec =
  s_minInputLamports :: int
  s_maxInputLamports :: int
  s_maxWinMultiplier :: int
  s_rows :: int
  s_cols :: int
  s_symbolCount :: int
  s_wildIdx :: int
  s_scatterIdx :: int
  s_paylinesCount :: int
  s_paytableScaleNum :: int
  s_paytableScaleDen :: int
  s_reels :: "buffer list"
  s_paylinesOff :: nat
  s_paytableOff :: nat
  s_blob :: buffer

record slot_spin_outcome =
  totalWinLamports :: int
  reelStops :: "int list"

definition slot_fail :: "string \<Rightarrow> js_error" where
  "slot_fail msg = Error (''SF1: '' @ msg)"

section \<open>Encoder\<close>

definition encode_reel :: "int \<Rightarrow> int list \<Rightarrow> buffer result" where
  "encode_reel symbolCount reel =
     throwIf (length reel = 0 \<or> length reel > 65535) (slot_fail ''invalid reel length'')
       (bindE (u16le (int (length reel))) (\<lambda>len.
        throwIf (list_ex (\<lambda>sym. sym < 0 \<or> symbolCount \<le> sym) reel) (slot_fail ''reel symbol out of range'')
          (Inr (len @ map word_of_int reel))))"

definition encode_payline :: "int \<Rightarrow> int \<Rightarrow> int list \<Rightarrow> buffer result" where
  "encode_payline rows cols line =
     throwIf (int (length line) \<noteq> cols) (slot_fail ''payline length must equal cols'')
       (throwIf (list_ex (\<lambda>row. row < 0 \<or> rows \<le> row) line) (slot_fail ''payline row out of range'')
          (Inr (map word_of_int line)))"

definition encode_paytable_row :: "int \<Rightarrow> int list \<Rightarrow> buffer result" where
  "encode_paytable_row cols symRow =
     throwIf (int (length symRow) \<noteq> cols + 1) (slot_fail ''paytable row length must be cols+1'')
       (concatE (map u64le symRow))"

definition encodeSlotArtifact :: "slot_game_spec \<Rightarrow> buffer result" where
  "encodeSlotArtifact spec =
     (let rows = g_rows spec; cols = g_cols spec; reels = g_reels spec;
          paylines = g_paylines spec; paytable = g_paytable spec;
          symbolCount = int (length paytable) in
      throwIf (rows \<le> 0 \<or> cols \<le> 0 \<or> MAX_SLOT_DIM < rows \<or> MAX_SLOT_DIM < cols) (slot_fail ''invalid dims'')
     (throwIf (symbolCount \<le> 0 \<or> 255 < symbolCount) (slot_fail ''invalid symbol count'')
     (throwIf (symbolCount \<le> g_wildIdx spec \<or> symbolCount \<le> g_scatterIdx spec)
        (slot_fail ''wild/scatter out of range'')
     (throwIf (int (length reels) \<noteq> cols) (slot_fail ''reels length must equal cols'')
     (throwIf (length paylines = 0 \<or> length paylines > 65535) (slot_fail ''invalid paylines count'')
     (throwIf (g_paytableScaleNum spec \<le> 0 \<or> g_paytableScaleDen spec \<le> 0) (slot_fail ''invalid paytable scale'')
     (throwIf (g_maxInputLamports spec < g_minInputLamports spec) (slot_fail ''min bet exceeds max bet'')
     (throwIf (g_maxWinMultiplier spec \<le> 0) (slot_fail ''max win multiplier must be positive'')
     (bindE (concatE (
          [Inr SLOT_MAGIC, u16le FORMAT_VERSION_SLOT,
           u64le (g_minInputLamports spec), u64le (g_maxInputLamports spec),
           u32le (g_maxWinMultiplier spec),
           Inr (byte_of rows), Inr (byte_of cols), Inr (byte_of symbolCount),
           Inr (byte_of (g_wildIdx spec)), Inr (byte_of (g_scatterIdx spec)),
           u16le (int (length paylines)),
           u32le (g_paytableScaleNum spec), u32le (g_paytableScaleDen spec)]
          @ map (encode_reel symbolCount) reels
          @ map (encode_payline rows cols) paylines
          @ map (encode_paytable_row cols) paytable)) (\<lambda>blob.
      throwIf (length blob > MAX_SLOT_ARTIFACT_BYTES) (slot_fail ''artifact exceeds max size'')
        (Inr blob)))))))))))"

section \<open>Parser\<close>

definition reelR :: "int \<Rightarrow> buffer reader" where
  "reelR symbolCount =
     bindR (read_uint_or (slot_fail ''truncated reel length'') 2) (\<lambda>len.
     throwIfR (len = 0) (slot_fail ''empty reel'')
    (bindR (readBytes (slot_fail ''truncated reel'') (nat len)) (\<lambda>strip.
     throwIfR (list_ex (\<lambda>sym. symbolCount \<le> uint sym) strip) (slot_fail ''reel symbol out of range'')
    (retR strip))))"

text \<open>The five dimension bytes \<^verbatim>\<open>blob[off] .. blob[off + 4]\<close> are inside the header, whose length is
  checked first, so they are read as bytes.\<close>

definition slotBodyR :: "buffer \<Rightarrow> slot_spec reader" where
  "slotBodyR blob =
     bindR readU16LE (\<lambda>formatVersion.
     throwIfR (formatVersion \<noteq> FORMAT_VERSION_SLOT) (slot_fail ''format_version != 10'')
    (bindR readU64LE (\<lambda>minInput.
     bindR readU64LE (\<lambda>maxInput.
     throwIfR (maxInput < minInput) (slot_fail ''min bet exceeds max bet'')
    (bindR readU32LE (\<lambda>maxWin.
     throwIfR (maxWin = 0) (slot_fail ''zero max win multiplier'')
    (bindR readU8 (\<lambda>rows.
     bindR readU8 (\<lambda>cols.
     bindR readU8 (\<lambda>symbolCount.
     bindR readU8 (\<lambda>wild.
     bindR readU8 (\<lambda>scatter.
     throwIfR (rows = 0 \<or> cols = 0) (slot_fail ''zero dims'')
    (throwIfR (MAX_SLOT_DIM < rows \<or> MAX_SLOT_DIM < cols) (slot_fail ''dims exceed max'')
    (throwIfR (symbolCount = 0) (slot_fail ''zero symbols'')
    (throwIfR (symbolCount \<le> wild \<or> symbolCount \<le> scatter) (slot_fail ''wild/scatter out of range'')
    (bindR readU16LE (\<lambda>paylinesCount.
     throwIfR (paylinesCount = 0) (slot_fail ''zero paylines'')
    (bindR readU32LE (\<lambda>scaleNum.
     bindR readU32LE (\<lambda>scaleDen.
     throwIfR (scaleNum = 0 \<or> scaleDen = 0) (slot_fail ''zero paytable scale'')
    (bindR (repeatR (nat cols) (reelR symbolCount)) (\<lambda>reels.
     bindR offsetR (\<lambda>paylinesOff.
     bindR (readBytes (slot_fail ''truncated paylines'') (nat (paylinesCount * cols))) (\<lambda>lines.
     throwIfR (list_ex (\<lambda>b. rows \<le> uint b) lines) (slot_fail ''payline row out of range'')
    (bindR offsetR (\<lambda>paytableOff.
     bindR (readBytes (slot_fail ''truncated paytable'') (nat (symbolCount * (cols + 1) * 8))) (\<lambda>_.
     bindR offsetR (\<lambda>off.
     throwIfR (off \<noteq> length blob) (slot_fail ''trailing bytes'')
    (retR \<lparr>s_minInputLamports = minInput, s_maxInputLamports = maxInput, s_maxWinMultiplier = maxWin,
           s_rows = rows, s_cols = cols, s_symbolCount = symbolCount, s_wildIdx = wild,
           s_scatterIdx = scatter, s_paylinesCount = paylinesCount, s_paytableScaleNum = scaleNum,
           s_paytableScaleDen = scaleDen, s_reels = reels, s_paylinesOff = paylinesOff,
           s_paytableOff = paytableOff, s_blob = blob\<rparr>)))))))))))))))))))))))))))))"

definition parseSlotArtifact :: "buffer \<Rightarrow> slot_spec result" where
  "parseSlotArtifact blob =
     throwIf (length blob = 0 \<or> length blob > MAX_SLOT_ARTIFACT_BYTES) (slot_fail ''bad blob size'')
    (throwIf (length blob < SLOT_HEADER_BYTES) (slot_fail ''blob shorter than header'')
    (throwIf (subarray blob 0 4 \<noteq> SLOT_MAGIC) (slot_fail ''bad magic'')
    (runR (slotBodyR blob) blob 4)))"

section \<open>Deterministic replay\<close>

text \<open>Bigint division truncates towards zero and throws on a zero divisor.\<close>

definition bigint_div :: "int \<Rightarrow> int \<Rightarrow> int result" where
  "bigint_div a b = throwIf (b = 0) (RangeError ''Division by zero'') (Inr (sgn a * sgn b * (\<bar>a\<bar> div \<bar>b\<bar>)))"

definition bigint_mod :: "int \<Rightarrow> int \<Rightarrow> int result" where
  "bigint_mod a b = throwIf (b = 0) (RangeError ''Division by zero'') (Inr (sgn a * (\<bar>a\<bar> mod \<bar>b\<bar>)))"

text \<open>The new generator state and the number drawn.\<close>

definition xorshift_step :: "int \<Rightarrow> int" where
  "xorshift_step x0 =
     (let x1 = x0 XOR drop_bit 12 x0;
          x2 = (x1 XOR (push_bit 25 x1 AND U64_MASK)) AND U64_MASK
      in x2 XOR drop_bit 27 x2)"

definition nextInt :: "int \<Rightarrow> int \<Rightarrow> (int \<times> int) result" where
  "nextInt state bound =
     (let x = xorshift_step state in
      bindE (bigint_mod (x * XORSHIFT_MULT AND U64_MASK) bound) (\<lambda>r. Inr (x, r)))"

definition scaleMultiplierRound :: "int \<Rightarrow> int \<Rightarrow> int \<Rightarrow> int result" where
  "scaleMultiplierRound base num den =
     (if den = 0 then Inr 0
      else bindE (bigint_div den 2) (\<lambda>half. bigint_div (base * num + half) den))"

definition maxWinCap :: "int \<Rightarrow> int \<Rightarrow> int result" where
  "maxWinCap bet maxWinMultiplier =
     bindE (bigint_div SLOT_MULTIPLIER_SCALE 2) (\<lambda>half.
       bigint_div (bet * maxWinMultiplier + half) SLOT_MULTIPLIER_SCALE)"

text \<open>\<^verbatim>\<open>xs[i]\<close> whose use as an object throws when it is \<^verbatim>\<open>undefined\<close>.\<close>

definition index_or_throw :: "'a list \<Rightarrow> nat \<Rightarrow> 'a result" where
  "index_or_throw xs i = throwIf (length xs \<le> i) (TypeError ''Cannot read properties of undefined'') (Inr (xs ! i))"

type_synonym grid = "int list list"

definition set_cell :: "grid \<Rightarrow> nat \<Rightarrow> nat \<Rightarrow> int \<Rightarrow> grid" where
  "set_cell g row col v = g[row := (g ! row)[col := v]]"

text \<open>One column: draw the stop, then fill the column of the grid.\<close>

definition spin_column ::
  "slot_spec \<Rightarrow> int \<times> int list \<times> grid \<Rightarrow> nat \<Rightarrow> (int \<times> int list \<times> grid) result" where
  "spin_column spec st col =
     (case st of (state, stops, g) \<Rightarrow>
      bindE (index_or_throw (s_reels spec) col) (\<lambda>strip.
      bindE (nextInt state (int (length strip))) (\<lambda>(state', stop).
      Inr (state', stops @ [stop],
           fold (\<lambda>row g. set_cell g row col (uint (strip ! ((nat stop + row) mod length strip))))
             [0..<nat (s_rows spec)] g))))"

text \<open>
  The inner loop over the columns of a payline: a scatter ends the run, a wild counts, the first
  other symbol becomes the target (\<open>-1\<close> is no target yet) and a different symbol ends the run.
\<close>

fun line_run :: "int \<Rightarrow> int \<Rightarrow> int list \<Rightarrow> int \<Rightarrow> int \<Rightarrow> int \<times> int" where
  "line_run wild scatter [] target count = (target, count)"
| "line_run wild scatter (symbol # rest) target count =
     (if symbol = scatter then (target, count)
      else if symbol = wild then line_run wild scatter rest target (count + 1)
      else if target = -1 then line_run wild scatter rest symbol (count + 1)
      else if symbol = target then line_run wild scatter rest target (count + 1)
      else (target, count))"

definition line_symbols :: "slot_spec \<Rightarrow> grid \<Rightarrow> nat \<Rightarrow> int list result" where
  "line_symbols spec g line =
     mapE (\<lambda>col. bindE (index_or_throw (s_blob spec) (s_paylinesOff spec + line * nat (s_cols spec) + col)) (\<lambda>row.
                 bindE (index_or_throw g (unat row)) (\<lambda>cells. index_or_throw cells col)))
       [0..<nat (s_cols spec)]"

text \<open>\<^verbatim>\<open>blob.readBigUInt64LE(paytableOff + idx * paytableStride + countClamped * 8)\<close>\<close>

definition paytable_entry :: "slot_spec \<Rightarrow> int \<Rightarrow> int \<Rightarrow> int result" where
  "paytable_entry spec idx count =
     runR readU64LE (s_blob spec)
       (s_paytableOff spec + nat (idx * ((s_cols spec + 1) * 8) + min count (s_cols spec) * 8))"

definition scaled_win :: "slot_spec \<Rightarrow> int \<Rightarrow> int \<Rightarrow> int result" where
  "scaled_win spec bet multScaled =
     bindE (bigint_div (bet * multScaled) SLOT_MULTIPLIER_SCALE) (\<lambda>base.
       scaleMultiplierRound base (s_paytableScaleNum spec) (s_paytableScaleDen spec))"

definition line_win :: "slot_spec \<Rightarrow> grid \<Rightarrow> int \<Rightarrow> int \<Rightarrow> nat \<Rightarrow> int result" where
  "line_win spec g lineBet totalWin line =
     bindE (line_symbols spec g line) (\<lambda>symbols.
       (case line_run (s_wildIdx spec) (s_scatterIdx spec) symbols (-1) 0 of (target, count) \<Rightarrow>
        if 3 \<le> count then
          bindE (paytable_entry spec (if target = -1 then s_wildIdx spec else target) count) (\<lambda>multScaled.
            if multScaled = 0 then Inr totalWin
            else bindE (scaled_win spec lineBet multScaled) (\<lambda>w. Inr (totalWin + w)))
        else Inr totalWin))"

definition scatter_count :: "slot_spec \<Rightarrow> grid \<Rightarrow> int" where
  "scatter_count spec g =
     int (length (filter (\<lambda>symbol. symbol = s_scatterIdx spec) (concat g)))"

definition scatter_win :: "slot_spec \<Rightarrow> grid \<Rightarrow> int \<Rightarrow> int result" where
  "scatter_win spec g bet =
     (let scatterCount = scatter_count spec g in
      if 3 \<le> scatterCount then
        bindE (paytable_entry spec (s_scatterIdx spec) scatterCount) (\<lambda>multScaled.
          if 0 < multScaled then scaled_win spec bet multScaled else Inr 0)
      else Inr 0)"

definition spin_grid :: "slot_spec \<Rightarrow> int \<Rightarrow> (int \<times> int list \<times> grid) result" where
  "spin_grid spec seed =
     foldE (spin_column spec)
       (seed, [], replicate (nat (s_rows spec)) (replicate (nat (s_cols spec)) 0))
       [0..<nat (s_cols spec)]"

definition replaySpin :: "slot_spec \<Rightarrow> buffer \<Rightarrow> int \<Rightarrow> slot_spin_outcome result" where
  "replaySpin spec randomness betLamports =
     throwIf (length randomness \<noteq> 32) (slot_fail ''randomness must be 32 bytes'')
    (bindE (runR readU64LE randomness 0) (\<lambda>seed.
     bindE (spin_grid spec seed) (\<lambda>(_, stops, g).
     bindE (bigint_div betLamports (s_paylinesCount spec)) (\<lambda>lineBet.
     bindE (foldE (line_win spec g lineBet) 0 [0..<nat (s_paylinesCount spec)]) (\<lambda>lineTotal.
     bindE (scatter_win spec g betLamports) (\<lambda>scatterTotal.
     Inr \<lparr>totalWinLamports = lineTotal + scatterTotal, reelStops = stops\<rparr>))))))"

section \<open>The generator is the 64-bit one\<close>

text \<open>The reference: \<^verbatim>\<open>xorshift64*\<close> on \<^verbatim>\<open>u64\<close> with wrapping arithmetic.\<close>

definition xorshift64 :: "64 word \<Rightarrow> 64 word" where
  "xorshift64 x0 =
     (let x1 = x0 XOR drop_bit 12 x0; x2 = x1 XOR push_bit 25 x1 in x2 XOR drop_bit 27 x2)"

lemma bigint_div_pos [simp]: "0 \<le> a \<Longrightarrow> 0 < b \<Longrightarrow> bigint_div a b = Inr (a div b)"
  by (cases "a = 0") (simp_all add: bigint_div_def)

lemma bigint_mod_pos [simp]: "0 \<le> a \<Longrightarrow> 0 < b \<Longrightarrow> bigint_mod a b = Inr (a mod b)"
  by (cases "a = 0") (simp_all add: bigint_mod_def)

lemma mask64_take_bit: "x AND U64_MASK = take_bit 64 x"
  by (simp add: U64_MASK_def take_bit_eq_mask mask_eq_exp_minus_1)

lemma take_bit_uint64 [simp]: "take_bit 64 (uint (w :: 64 word)) = uint w"
  by (rule bintr_uint) simp

lemma xorshift_step_uint: "xorshift_step (uint s) = uint (xorshift64 s)"
proof -
  let ?x1 = "s XOR drop_bit 12 s"
  let ?x2 = "?x1 XOR push_bit 25 ?x1"
  have 1: "uint s XOR drop_bit 12 (uint s) = uint ?x1"
    by (simp add: unsigned_xor_eq unsigned_drop_bit_eq)
  have shl: "(uint y XOR (push_bit 25 (uint y) AND U64_MASK)) AND U64_MASK = uint (y XOR push_bit 25 y)"
    for y :: "64 word"
    by (simp add: mask64_take_bit unsigned_xor_eq unsigned_push_bit_eq take_bit_xor)
  note 2 = shl [of ?x1]
  have 3: "uint ?x2 XOR drop_bit 27 (uint ?x2) = uint (?x2 XOR drop_bit 27 ?x2)"
    by (simp add: unsigned_xor_eq unsigned_drop_bit_eq)
  show ?thesis
    unfolding xorshift_step_def xorshift64_def Let_def 1 2 3 ..
qed

lemma nextInt_uint:
  assumes "0 < bound"
  shows "nextInt (uint s) bound
    = Inr (uint (xorshift64 s), uint (xorshift64 s * 0x2545f4914f6cdd1d) mod bound)"
proof -
  have "uint (xorshift64 s) * XORSHIFT_MULT AND U64_MASK = uint (xorshift64 s * 0x2545f4914f6cdd1d)"
    by (simp add: mask64_take_bit XORSHIFT_MULT_def uint_word_ariths take_bit_eq_mod)
  with assms show ?thesis
    unfolding nextInt_def Let_def xorshift_step_uint by simp
qed

section \<open>What the parser guarantees\<close>

definition slot_wf :: "slot_spec \<Rightarrow> bool" where
  "slot_wf spec \<longleftrightarrow>
     0 < s_rows spec \<and> s_rows spec \<le> MAX_SLOT_DIM \<and> 0 < s_cols spec \<and> s_cols spec \<le> MAX_SLOT_DIM \<and>
     0 < s_symbolCount spec \<and> s_symbolCount spec < 256 \<and>
     0 \<le> s_wildIdx spec \<and> s_wildIdx spec < s_symbolCount spec \<and>
     0 \<le> s_scatterIdx spec \<and> s_scatterIdx spec < s_symbolCount spec \<and>
     0 < s_paylinesCount spec \<and> 0 < s_paytableScaleNum spec \<and> 0 < s_paytableScaleDen spec \<and>
     s_minInputLamports spec \<le> s_maxInputLamports spec \<and> 0 < s_maxWinMultiplier spec \<and>
     length (s_reels spec) = nat (s_cols spec) \<and>
     (\<forall>strip \<in> set (s_reels spec). strip \<noteq> [] \<and> (\<forall>sym \<in> set strip. uint sym < s_symbolCount spec)) \<and>
     (\<forall>i < nat (s_paylinesCount spec * s_cols spec).
        uint (s_blob spec ! (s_paylinesOff spec + i)) < s_rows spec) \<and>
     s_paytableOff spec = s_paylinesOff spec + nat (s_paylinesCount spec * s_cols spec) \<and>
     length (s_blob spec) = s_paytableOff spec + nat (s_symbolCount spec * (s_cols spec + 1) * 8) \<and>
     length (s_blob spec) \<le> MAX_SLOT_ARTIFACT_BYTES"

lemma reelR_Inr_D:
  assumes "reelR symbolCount buf off = Inr (strip, off')"
  shows "strip \<noteq> [] \<and> (\<forall>sym \<in> set strip. uint sym < symbolCount)"
proof -
  from assms obtain len o1 where len: "read_uint 2 buf off = Inr (len, o1)" and nz: "len \<noteq> 0"
    and strip: "readBytes (slot_fail ''truncated reel'') (nat len) buf o1 = Inr (strip, off')"
    and syms: "\<forall>sym \<in> set strip. uint sym < symbolCount"
    by (auto simp: reelR_def result_simps list_ex_iff not_le)
  have "length strip = nat len" using strip by (rule readBytes_length)
  moreover have "0 < len" using read_uint_bounds(1) [OF len] nz by simp
  ultimately show ?thesis using syms by auto
qed

lemma slotBodyR_wf:
  assumes "slotBodyR blob blob off = Inr (spec, off')" and "length blob \<le> MAX_SLOT_ARTIFACT_BYTES"
  shows "slot_wf spec \<and> s_blob spec = blob"
  apply (insert assms)
  apply (unfold slotBodyR_def)
  apply (elim result_elims)
  apply (drule repeatR_Inr_D)
  apply (drule readU8_range)+
  apply (drule readU16LE_nonneg)+
  apply (drule readU32LE_nonneg)+
  apply (drule readU64LE_nonneg)+
  apply (elim conjE)
  apply (simp only: readBytes_Inr_iff list_ex_iff not_le not_less bex_simps)
  apply (elim conjE)
  apply hypsubst_thin
  apply (simp add: slot_wf_def)
  apply (rule conjI)
   apply (blast dest: reelR_Inr_D)
  apply (erule (1) subarray_ball_nth)
  done

lemma parseSlotArtifact_wf:
  assumes "parseSlotArtifact blob = Inr spec"
  shows "slot_wf spec \<and> s_blob spec = blob"
  using assms unfolding parseSlotArtifact_def
  by (elim result_elims) (rule slotBodyR_wf, simp_all)

end
