(* ===== verification/Slot_Codec.thy ===== *)
theory Slot_Codec
  imports Slot
begin

text \<open>
  What \<open>encodeSlotArtifact\<close> writes, \<open>parseSlotArtifact\<close> reads: the game compiled to bytes is the
  game the replay uses, strip by strip, payline by payline and paytable entry by paytable entry.
\<close>

section \<open>What the encoder produced\<close>

definition reel_bytes :: "int list \<Rightarrow> buffer" where
  "reel_bytes reel = le_bytes 2 (int (length reel)) @ map word_of_int reel"

definition paytable_row_bytes :: "int list \<Rightarrow> buffer" where
  "paytable_row_bytes row = concat (map (le_bytes 8) row)"

definition slot_game_ok :: "slot_game_spec \<Rightarrow> bool" where
  "slot_game_ok g \<longleftrightarrow>
     0 < g_rows g \<and> g_rows g \<le> 16 \<and> 0 < g_cols g \<and> g_cols g \<le> 16 \<and>
     g_paytable g \<noteq> [] \<and> length (g_paytable g) \<le> 255 \<and>
     g_wildIdx g < int (length (g_paytable g)) \<and> g_scatterIdx g < int (length (g_paytable g)) \<and>
     int (length (g_reels g)) = g_cols g \<and>
     g_paylines g \<noteq> [] \<and> length (g_paylines g) \<le> 65535 \<and>
     0 < g_paytableScaleNum g \<and> g_paytableScaleNum g < 4294967296 \<and>
     0 < g_paytableScaleDen g \<and> g_paytableScaleDen g < 4294967296 \<and>
     0 \<le> g_minInputLamports g \<and> g_minInputLamports g \<le> g_maxInputLamports g \<and>
     g_maxInputLamports g < 18446744073709551616 \<and>
     0 < g_maxWinMultiplier g \<and> g_maxWinMultiplier g < 4294967296 \<and>
     (\<forall>reel \<in> set (g_reels g). reel \<noteq> [] \<and> length reel \<le> 65535 \<and>
        (\<forall>sym \<in> set reel. 0 \<le> sym \<and> sym < int (length (g_paytable g)))) \<and>
     (\<forall>line \<in> set (g_paylines g). int (length line) = g_cols g \<and> (\<forall>row \<in> set line. 0 \<le> row \<and> row < g_rows g)) \<and>
     (\<forall>row \<in> set (g_paytable g). int (length row) = g_cols g + 1 \<and>
        (\<forall>v \<in> set row. 0 \<le> v \<and> v < 18446744073709551616))"

definition slot_bytes :: "slot_game_spec \<Rightarrow> buffer" where
  "slot_bytes g =
     le_bytes 2 10 @ le_bytes 8 (g_minInputLamports g) @ le_bytes 8 (g_maxInputLamports g)
     @ le_bytes 4 (g_maxWinMultiplier g) @ byte_of (g_rows g) @ byte_of (g_cols g)
     @ byte_of (int (length (g_paytable g))) @ byte_of (g_wildIdx g) @ byte_of (g_scatterIdx g)
     @ le_bytes 2 (int (length (g_paylines g)))
     @ le_bytes 4 (g_paytableScaleNum g) @ le_bytes 4 (g_paytableScaleDen g)
     @ concat (map reel_bytes (g_reels g)) @ concat (map (map word_of_int) (g_paylines g))
     @ concat (map paytable_row_bytes (g_paytable g)) @ []"

lemma encode_reel_D:
  "encode_reel n reel = Inr b \<Longrightarrow>
    b = reel_bytes reel \<and> reel \<noteq> [] \<and> length reel \<le> 65535 \<and> (\<forall>sym \<in> set reel. 0 \<le> sym \<and> sym < n)"
  by (auto simp: encode_reel_def reel_bytes_def result_simps list_ex_iff not_le not_less)

lemma encode_payline_D:
  "encode_payline rows cols line = Inr b \<Longrightarrow>
    b = map word_of_int line \<and> int (length line) = cols \<and> (\<forall>row \<in> set line. 0 \<le> row \<and> row < rows)"
  by (auto simp: encode_payline_def result_simps list_ex_iff not_le not_less)

lemma encode_paytable_row_D:
  assumes "encode_paytable_row cols row = Inr b"
  shows "b = paytable_row_bytes row \<and> int (length row) = cols + 1
    \<and> (\<forall>v \<in> set row. 0 \<le> v \<and> v < 18446744073709551616)"
proof -
  from assms have "concatE (map u64le row) = Inr b" and l: "int (length row) = cols + 1"
    by (auto simp: encode_paytable_row_def result_simps)
  from concatE_map_InrD [OF this(1), of "le_bytes 8" "\<lambda>v. 0 \<le> v \<and> v < 18446744073709551616"]
  show ?thesis using l by (auto simp: paytable_row_bytes_def result_simps)
qed

lemma encodeSlotArtifact_D:
  assumes "encodeSlotArtifact g = Inr blob"
  shows "slot_game_ok g \<and> blob = SLOT_MAGIC @ slot_bytes g \<and> length blob \<le> MAX_SLOT_ARTIFACT_BYTES"
  using assms unfolding encodeSlotArtifact_def Let_def
  apply (elim result_elims)
  apply (simp only: concatE_append)
  apply (elim result_elims)
  apply (drule concatE_map_InrD, erule encode_reel_D)
  apply (drule concatE_map_InrD, erule encode_payline_D)
  apply (drule concatE_map_InrD, erule encode_paytable_row_D)
  apply (clarsimp simp: result_simps)
  apply (simp add: slot_game_ok_def slot_bytes_def MAX_SLOT_DIM_def FORMAT_VERSION_SLOT_def)
  done

section \<open>Reading it back\<close>

definition slot_spec_of :: "slot_game_spec \<Rightarrow> buffer \<Rightarrow> slot_spec" where
  "slot_spec_of g blob =
     (let paylinesOff = SLOT_HEADER_BYTES + length (concat (map reel_bytes (g_reels g))) in
      \<lparr>s_minInputLamports = g_minInputLamports g, s_maxInputLamports = g_maxInputLamports g,
       s_maxWinMultiplier = g_maxWinMultiplier g, s_rows = g_rows g, s_cols = g_cols g,
       s_symbolCount = int (length (g_paytable g)), s_wildIdx = g_wildIdx g,
       s_scatterIdx = g_scatterIdx g, s_paylinesCount = int (length (g_paylines g)),
       s_paytableScaleNum = g_paytableScaleNum g, s_paytableScaleDen = g_paytableScaleDen g,
       s_reels = map (map word_of_int) (g_reels g), s_paylinesOff = paylinesOff,
       s_paytableOff = paylinesOff + length (concat (map (map word_of_int :: int list \<Rightarrow> buffer) (g_paylines g))),
       s_blob = blob\<rparr>)"

lemma uint_word_of_int_byte: "0 \<le> x \<Longrightarrow> x < 256 \<Longrightarrow> uint (word_of_int x :: byte) = x"
  by (simp add: uint_word_of_int)

lemma runs_reelR:
  assumes "strip \<noteq> []" and "length strip \<le> 65535" and "\<forall>sym \<in> set strip. uint sym < n"
  shows "runs off (reelR n) (le_bytes 2 (int (length strip)) @ strip) strip"
proof -
  have [simp]: "\<not> (\<exists>sym \<in> set strip. n \<le> uint sym)" using assms(3) by auto
  have "runs off (reelR n) (le_bytes 2 (int (length strip)) @ strip @ []) strip"
    unfolding reelR_def
    by (rule runs_intros runs_readBytes | (use assms in \<open>simp add: list_ex_iff; fail\<close>))+
  then show ?thesis by simp
qed

lemma slotBodyR_runs:
  assumes ok: "slot_game_ok g" and wild: "0 \<le> g_wildIdx g" and scatter: "0 \<le> g_scatterIdx g"
    and blob: "blob = SLOT_MAGIC @ slot_bytes g"
  shows "runs 4 (slotBodyR blob) (slot_bytes g) (slot_spec_of g blob)"
proof -
  define n where "n = int (length (g_paytable g))"
  define strips where "strips = map (map word_of_int :: int list \<Rightarrow> buffer) (g_reels g)"
  define enc where "enc = (\<lambda>strip :: buffer. le_bytes 2 (int (length strip)) @ strip)"
  define lines where "lines = concat (map (map word_of_int :: int list \<Rightarrow> buffer) (g_paylines g))"
  define table where "table = concat (map paytable_row_bytes (g_paytable g))"
  have reels: "concat (map reel_bytes (g_reels g)) = concat (map enc strips)"
    by (simp add: strips_def enc_def reel_bytes_def [abs_def] comp_def)
  note ok' = ok [unfolded slot_game_ok_def, folded n_def]
  have lenlines: "length lines = nat (int (length (g_paylines g)) * g_cols g)"
  proof -
    have "length lines = length (g_paylines g) * nat (g_cols g)"
      unfolding lines_def by (rule length_concat_const) (use ok' in auto)
    then show ?thesis using ok' by (simp add: nat_mult_distrib)
  qed
  have lentable: "length table = nat (n * (g_cols g + 1) * 8)"
  proof -
    have "length (paytable_row_bytes row) = nat (g_cols g + 1) * 8" if "row \<in> set (g_paytable g)" for row
    proof -
      have "length (paytable_row_bytes row) = length row * 8"
        unfolding paytable_row_bytes_def by (rule length_concat_const) simp
      also have "length row = nat (g_cols g + 1)" using ok' that by auto
      finally show ?thesis .
    qed
    then have "length table = length (g_paytable g) * (nat (g_cols g + 1) * 8)"
      unfolding table_def by (rule length_concat_const)
    then show ?thesis using ok' by (simp add: n_def nat_mult_distrib)
  qed
  have rows: "\<not> (\<exists>b \<in> set lines. g_rows g \<le> uint b)"
  proof -
    have "uint (word_of_int row :: byte) < g_rows g" if "line \<in> set (g_paylines g)" "row \<in> set line" for line row
    proof -
      from ok' that have "0 \<le> row" "row < g_rows g" "g_rows g \<le> 16" by auto
      then show ?thesis by (simp add: uint_word_of_int_byte)
    qed
    then show ?thesis by (fastforce simp: lines_def)
  qed
  have n: "0 < n" "n \<le> 255" using ok' by (auto simp: n_def)
  have strips: "runs o' (reelR n) (enc strip) strip" if "strip \<in> set strips" for strip o'
    unfolding enc_def
  proof (rule runs_reelR)
    from that obtain reel where reel: "reel \<in> set (g_reels g)" and strip: "strip = map word_of_int reel"
      by (auto simp: strips_def)
    with ok' have "reel \<noteq> []" "length reel \<le> 65535" "\<forall>sym \<in> set reel. 0 \<le> sym \<and> sym < n" by blast+
    then show "strip \<noteq> []" "length strip \<le> 65535" "\<forall>sym \<in> set strip. uint sym < n"
      using n by (auto simp: strip uint_word_of_int_byte)
  qed
  have lenstrips: "nat (g_cols g) = length strips" using ok' by (auto simp: strips_def)
  note b = blob [unfolded slot_bytes_def reels, folded n_def lines_def table_def]
  show ?thesis
    unfolding slotBodyR_def slot_bytes_def reels FORMAT_VERSION_SLOT_def MAX_SLOT_DIM_def
    unfolding n_def [symmetric] lines_def [symmetric] table_def [symmetric]
    apply (rule runs_retR_eq runs_bind_repeatR [OF strips] runs_intros runs_readBytes
        | (use ok' n wild scatter lenlines lentable rows lenstrips in \<open>simp add: list_ex_iff; fail\<close>))+
     apply (simp add: b SLOT_MAGIC_def)
    apply (rule runs_retR_eq)
    apply (simp add: slot_spec_of_def reels SLOT_HEADER_BYTES_def Let_def
      n_def [symmetric] strips_def [symmetric] lines_def [symmetric])
    done
qed

lemma length_slot_bytes:
  "length (slot_bytes g) = 37 + length (concat (map reel_bytes (g_reels g)))
    + length (concat (map (map word_of_int :: int list \<Rightarrow> buffer) (g_paylines g)))
    + length (concat (map paytable_row_bytes (g_paytable g)))"
  by (simp add: slot_bytes_def)

lemma slot_header_checks:
  "blob = SLOT_MAGIC @ slot_bytes g \<Longrightarrow>
    SLOT_HEADER_BYTES \<le> length blob \<and> subarray blob 0 4 = SLOT_MAGIC \<and> blob \<noteq> []"
  by (simp add: length_slot_bytes subarray_def SLOT_HEADER_BYTES_def SLOT_MAGIC_def)

lemma parseSlotArtifact_encoded:
  assumes "encodeSlotArtifact g = Inr blob" and "0 \<le> g_wildIdx g" and "0 \<le> g_scatterIdx g"
  shows "parseSlotArtifact blob = Inr (slot_spec_of g blob)"
proof -
  from encodeSlotArtifact_D [OF assms(1)] have ok: "slot_game_ok g"
    and blob: "blob = SLOT_MAGIC @ slot_bytes g" and size: "length blob \<le> MAX_SLOT_ARTIFACT_BYTES"
    by blast+
  have "runR (slotBodyR blob) (SLOT_MAGIC @ slot_bytes g) 4 = Inr (slot_spec_of g blob)"
    by (rule runs_run [OF slotBodyR_runs [OF ok assms(2,3) blob]]) (simp add: SLOT_MAGIC_def)
  then have "runR (slotBodyR blob) blob 4 = Inr (slot_spec_of g blob)"
    by (simp only: blob)
  then show ?thesis
    using size slot_header_checks [OF blob] by (simp add: parseSlotArtifact_def)
qed

text \<open>Where an element of a list of equally long blocks lies in their concatenation.\<close>

lemma nth_concat_blocks:
  assumes "\<And>x. x \<in> set xs \<Longrightarrow> length (f x) = n" and "i < length xs" and "j < n"
  shows "concat (map f xs) ! (i * n + j) = f (xs ! i) ! j"
  using assms
proof (induction xs arbitrary: i)
  case Nil
  then show ?case by simp
next
  case (Cons x xs)
  have x: "length (f x) = n" using Cons.prems by simp
  show ?case
  proof (cases i)
    case 0
    with Cons.prems x show ?thesis by (simp add: nth_append)
  next
    case (Suc k)
    with Cons.prems x Cons.IH [of k] show ?thesis by (simp add: nth_append add.assoc)
  qed
qed

lemma take_drop_concat_blocks:
  assumes "\<And>x. x \<in> set xs \<Longrightarrow> length (f x) = n" and "i < length xs"
  shows "take n (drop (i * n) (concat (map f xs) @ ys)) = f (xs ! i)"
  using assms
proof (induction xs arbitrary: i)
  case Nil
  then show ?case by simp
next
  case (Cons x xs)
  have x: "length (f x) = n" using Cons.prems by simp
  show ?case
  proof (cases i)
    case 0
    with Cons.prems x show ?thesis by simp
  next
    case (Suc k)
    with Cons.prems x Cons.IH [of k] show ?thesis by (simp add: add.commute)
  qed
qed

lemma slot_blob_split:
  assumes "encodeSlotArtifact g = Inr blob"
  obtains pre1 pre2 where
    "blob = pre1 @ concat (map (map word_of_int) (g_paylines g)) @ concat (map paytable_row_bytes (g_paytable g))"
    and "length pre1 = s_paylinesOff (slot_spec_of g blob)"
    and "blob = pre2 @ concat (map paytable_row_bytes (g_paytable g))"
    and "length pre2 = s_paytableOff (slot_spec_of g blob)"
proof -
  let ?lines = "concat (map (map word_of_int :: int list \<Rightarrow> buffer) (g_paylines g))"
  let ?table = "concat (map paytable_row_bytes (g_paytable g))"
  have blob: "blob = SLOT_MAGIC @ slot_bytes g" using encodeSlotArtifact_D [OF assms] by blast
  define pre where "pre = SLOT_MAGIC @ le_bytes 2 10 @ le_bytes 8 (g_minInputLamports g)
     @ le_bytes 8 (g_maxInputLamports g) @ le_bytes 4 (g_maxWinMultiplier g) @ byte_of (g_rows g)
     @ byte_of (g_cols g) @ byte_of (int (length (g_paytable g))) @ byte_of (g_wildIdx g)
     @ byte_of (g_scatterIdx g) @ le_bytes 2 (int (length (g_paylines g)))
     @ le_bytes 4 (g_paytableScaleNum g) @ le_bytes 4 (g_paytableScaleDen g)
     @ concat (map reel_bytes (g_reels g))"
  have "blob = pre @ ?lines @ ?table"
    unfolding pre_def blob by (simp only: slot_bytes_def append_assoc append_Nil2)
  moreover have "length pre = s_paylinesOff (slot_spec_of g blob)"
    unfolding pre_def slot_spec_of_def Let_def
    by (simp add: SLOT_MAGIC_def SLOT_HEADER_BYTES_def)
  ultimately show thesis
    by (intro that [of pre "pre @ ?lines"]) (simp_all add: slot_spec_of_def Let_def)
qed

lemma slot_payline_row:
  assumes enc: "encodeSlotArtifact g = Inr blob" and line: "line < length (g_paylines g)" and col: "int col < g_cols g"
  shows "uint (blob ! (s_paylinesOff (slot_spec_of g blob) + line * nat (g_cols g) + col)) = g_paylines g ! line ! col"
proof -
  have ok: "slot_game_ok g" using encodeSlotArtifact_D [OF enc] by blast
  let ?lines = "concat (map (map word_of_int :: int list \<Rightarrow> buffer) (g_paylines g))"
  obtain pre1 pre2 where blob: "blob = pre1 @ ?lines @ concat (map paytable_row_bytes (g_paytable g))"
    and len: "length pre1 = s_paylinesOff (slot_spec_of g blob)"
    by (rule slot_blob_split [OF enc])
  have l: "length (map (word_of_int :: int \<Rightarrow> byte) x) = nat (g_cols g)" if "x \<in> set (g_paylines g)" for x
    using ok that by (auto simp: slot_game_ok_def)
  have c: "col < nat (g_cols g)" using col by simp
  have "line * nat (g_cols g) + col < Suc line * nat (g_cols g)" using c by simp
  also have "\<dots> \<le> length ?lines"
    using line by (subst length_concat_const [OF l]) (simp_all add: Suc_leI mult_le_mono1 del: mult_Suc)
  finally have "blob ! (length pre1 + (line * nat (g_cols g) + col)) = ?lines ! (line * nat (g_cols g) + col)"
    by (subst blob) (simp add: nth_append)
  also have "\<dots> = map word_of_int (g_paylines g ! line) ! col"
    by (rule nth_concat_blocks [OF l line c])
  also have "\<dots> = word_of_int (g_paylines g ! line ! col)"
    using l [OF nth_mem [OF line]] c by simp
  finally have b: "blob ! (length pre1 + (line * nat (g_cols g) + col)) = word_of_int (g_paylines g ! line ! col)" .
  have "g_paylines g ! line ! col \<in> set (g_paylines g ! line)"
    using l [OF nth_mem [OF line]] c by (intro nth_mem) simp
  then have "0 \<le> g_paylines g ! line ! col" "g_paylines g ! line ! col < 16"
    using ok nth_mem [OF line] by (fastforce simp: slot_game_ok_def)+
  then show ?thesis using b len by (simp add: uint_word_of_int_byte add.assoc)
qed

lemma slot_paytable_entry:
  assumes enc: "encodeSlotArtifact g = Inr blob" and idx: "idx < length (g_paytable g)" and n: "0 \<le> n"
  shows "paytable_entry (slot_spec_of g blob) (int idx) n
    = Inr (g_paytable g ! idx ! nat (min n (g_cols g)))"
proof -
  have ok: "slot_game_ok g" using encodeSlotArtifact_D [OF enc] by blast
  define stride where "stride = nat (g_cols g + 1)"
  define c where "c = nat (min n (g_cols g))"
  define k where "k = idx * stride + c"
  let ?cells = "concat (g_paytable g)"
  obtain pre1 pre2 where blob: "blob = pre2 @ concat (map paytable_row_bytes (g_paytable g))"
    and len: "length pre2 = s_paytableOff (slot_spec_of g blob)"
    by (rule slot_blob_split [OF enc])
  have table: "concat (map paytable_row_bytes T) = concat (map (le_bytes 8) (concat T))" for T
    by (induction T) (simp_all add: paytable_row_bytes_def)
  have l: "length (id row) = stride" if "row \<in> set (g_paytable g)" for row
    using ok that by (auto simp: slot_game_ok_def stride_def)
  have pos: "0 < g_cols g" using ok by (simp add: slot_game_ok_def)
  then have c: "c < stride" by (simp add: c_def stride_def)
  have "k < Suc idx * stride" using c by (simp add: k_def)
  also have "\<dots> \<le> length ?cells"
    using idx length_concat_const [of "g_paytable g" id, OF l] by (simp add: Suc_leI mult_le_mono1 del: mult_Suc)
  finally have k: "k < length ?cells" .
  have cell: "?cells ! k = g_paytable g ! idx ! c"
    using nth_concat_blocks [of "g_paytable g" id, OF l idx c] by (simp add: k_def)
  have "take 8 (drop (k * 8) (concat (map (le_bytes 8) ?cells) @ [])) = le_bytes 8 (?cells ! k)"
    by (rule take_drop_concat_blocks [OF _ k]) simp
  then have "take 8 (drop (length pre2 + k * 8) blob) = le_bytes 8 (?cells ! k)"
    by (subst blob) (simp add: table)
  moreover have "length pre2 + k * 8 + 8 \<le> length blob"
    using k by (subst blob) (simp add: table length_concat_const [of _ _ 8])
  moreover have "0 \<le> ?cells ! k" "?cells ! k < 18446744073709551616"
    using ok nth_mem [OF k] by (auto simp: slot_game_ok_def)
  moreover have "nat (int idx * ((g_cols g + 1) * 8) + min n (g_cols g) * 8) = k * 8"
  proof -
    have "int (k * 8) = int idx * ((g_cols g + 1) * 8) + min n (g_cols g) * 8"
      using pos n by (simp add: k_def stride_def c_def algebra_simps)
    then show ?thesis by linarith
  qed
  ultimately show ?thesis
    unfolding paytable_entry_def
    by (simp add: runR_Inr_iff readU64LE_def read_uint_Inr_iff len [symmetric] cell c_def)
       (simp add: slot_spec_of_def Let_def)
qed

text \<open>C18: a game the encoder accepts, with its wild and scatter symbols given as indexes into the
  paytable, is read back by the parser: header, reel strips, payline rows and paytable entries are
  those of the game, at the offsets the replay uses.\<close>

theorem slot_artifact_roundtrip:
  assumes "encodeSlotArtifact g = Inr blob" and "0 \<le> g_wildIdx g" and "0 \<le> g_scatterIdx g"
  shows "parseSlotArtifact blob = Inr (slot_spec_of g blob)
    \<and> map (map uint) (s_reels (slot_spec_of g blob)) = g_reels g
    \<and> (\<forall>line < length (g_paylines g). \<forall>col < nat (g_cols g).
         uint (blob ! (s_paylinesOff (slot_spec_of g blob) + line * nat (g_cols g) + col)) = g_paylines g ! line ! col)
    \<and> (\<forall>idx < length (g_paytable g). \<forall>c \<le> nat (g_cols g).
         paytable_entry (slot_spec_of g blob) (int idx) (int c) = Inr (g_paytable g ! idx ! c))"
proof (intro conjI allI impI)
  show "parseSlotArtifact blob = Inr (slot_spec_of g blob)"
    using assms by (rule parseSlotArtifact_encoded)
  have ok: "slot_game_ok g" using encodeSlotArtifact_D [OF assms(1)] by blast
  have "uint (word_of_int sym :: byte) = sym" if "reel \<in> set (g_reels g)" "sym \<in> set reel" for reel sym
    using ok that by (intro uint_word_of_int_byte) (fastforce simp: slot_game_ok_def)+
  then show "map (map uint) (s_reels (slot_spec_of g blob)) = g_reels g"
    by (auto simp: slot_spec_of_def Let_def intro!: map_idI)
  fix line col
  assume "line < length (g_paylines g)" and "col < nat (g_cols g)"
  then show "uint (blob ! (s_paylinesOff (slot_spec_of g blob) + line * nat (g_cols g) + col)) = g_paylines g ! line ! col"
    by (intro slot_payline_row [OF assms(1)]) auto
next
  fix idx c
  assume "idx < length (g_paytable g)" and "c \<le> nat (g_cols g)"
  moreover have "0 < g_cols g"
    using encodeSlotArtifact_D [OF assms(1)] by (simp add: slot_game_ok_def)
  ultimately have "int c \<le> g_cols g" by linarith
  then have "nat (min (int c) (g_cols g)) = c" by (simp add: min_def)
  with \<open>idx < length (g_paytable g)\<close> slot_paytable_entry [OF assms(1), of idx "int c"]
  show "paytable_entry (slot_spec_of g blob) (int idx) (int c) = Inr (g_paytable g ! idx ! c)" by simp
qed

definition sample_game :: slot_game_spec where
  "sample_game =
     \<lparr>g_rows = 3, g_cols = 3, g_reels = [[0, 1, 2], [1, 2], [2, 1, 1, 0]], g_paylines = [[0, 1, 2], [1, 1, 1]],
      g_paytable = [[0, 0, 0, 50000], [0, 0, 0, 20000], [0, 0, 0, 300]], g_wildIdx = 0, g_scatterIdx = 2,
      g_paytableScaleNum = 1, g_paytableScaleDen = 2, g_minInputLamports = 1000,
      g_maxInputLamports = 1000000, g_maxWinMultiplier = 500000\<rparr>"

definition sample_game_bytes :: buffer where
  "sample_game_bytes = SLOT_MAGIC @ slot_bytes sample_game"

lemma sample_game_encodes: "encodeSlotArtifact sample_game = Inr sample_game_bytes"
  by (simp add: encodeSlotArtifact_def Let_def sample_game_def sample_game_bytes_def slot_bytes_def
      encode_reel_def encode_payline_def encode_paytable_row_def reel_bytes_def paytable_row_bytes_def
      MAX_SLOT_DIM_def FORMAT_VERSION_SLOT_def MAX_SLOT_ARTIFACT_BYTES_def SLOT_MAGIC_def)

lemma slot_artifact_roundtrip_witness:
  "parseSlotArtifact sample_game_bytes = Inr (slot_spec_of sample_game sample_game_bytes)"
  using slot_artifact_roundtrip [OF sample_game_encodes] by (simp add: sample_game_def)

text \<open>The encoder only rejects a wild or scatter index that is too large. A game without a wild
  symbol, written with the sentinel \<open>-1\<close>, is encoded, and the blob it commits is rejected by every
  parser of the format.\<close>

theorem slot_negative_wild_unparsable:
  assumes "encodeSlotArtifact g = Inr blob" and "g_wildIdx g = -1"
  shows "parseSlotArtifact blob = Inl (slot_fail ''wild/scatter out of range'')"
proof -
  from encodeSlotArtifact_D [OF assms(1)] have ok: "slot_game_ok g"
    and blob: "blob = SLOT_MAGIC @ slot_bytes g" and size: "length blob \<le> MAX_SLOT_ARTIFACT_BYTES"
    by blast+
  define n where "n = int (length (g_paytable g))"
  note ok' = ok [unfolded slot_game_ok_def, folded n_def]
  have n: "0 < n" "n \<le> 255" using ok' by (auto simp: n_def)
  have wild: "byte_of (g_wildIdx g) = byte_of 255" by (simp add: byte_of_def assms(2))
  obtain sc where sc: "byte_of (g_scatterIdx g) = byte_of sc" "0 \<le> sc" "sc < 256"
    by (rule that [of "uint (word_of_int (g_scatterIdx g) :: byte)"])
       (use uint_byte_bound in \<open>simp_all add: byte_of_def\<close>)
  have "fails 4 (slotBodyR blob) (slot_bytes g) (slot_fail ''wild/scatter out of range'')"
    unfolding slotBodyR_def slot_bytes_def wild sc(1) FORMAT_VERSION_SLOT_def MAX_SLOT_DIM_def n_def [symmetric]
    by (rule fails_intros runs_intros | (use ok' n sc(2,3) in \<open>simp; fail\<close>))+
  then have "runR (slotBodyR blob) (SLOT_MAGIC @ slot_bytes g) 4 = Inl (slot_fail ''wild/scatter out of range'')"
    by (rule fails_run) (simp add: SLOT_MAGIC_def)
  then have "runR (slotBodyR blob) blob 4 = Inl (slot_fail ''wild/scatter out of range'')"
    by (simp only: blob)
  then show ?thesis
    using size slot_header_checks [OF blob] by (simp add: parseSlotArtifact_def)
qed

definition wildless_game :: slot_game_spec where
  "wildless_game = sample_game\<lparr>g_wildIdx := -1\<rparr>"

lemma wildless_game_encodes: "encodeSlotArtifact wildless_game = Inr (SLOT_MAGIC @ slot_bytes wildless_game)"
  by (simp add: encodeSlotArtifact_def Let_def sample_game_def wildless_game_def slot_bytes_def
      encode_reel_def encode_payline_def encode_paytable_row_def reel_bytes_def paytable_row_bytes_def
      MAX_SLOT_DIM_def FORMAT_VERSION_SLOT_def MAX_SLOT_ARTIFACT_BYTES_def SLOT_MAGIC_def)

lemma slot_negative_wild_unparsable_witness:
  "parseSlotArtifact (SLOT_MAGIC @ slot_bytes wildless_game) = Inl (slot_fail ''wild/scatter out of range'')"
  by (rule slot_negative_wild_unparsable [OF wildless_game_encodes]) (simp add: wildless_game_def)

end
