(* ===== verification/Slot_Replay.thy ===== *)
theory Slot_Replay
  imports Slot_Codec
begin

text \<open>
  The replay of \<^verbatim>\<open>sdk/slot.ts\<close>: a parsed game always replays, the stops and the grid are those of
  the 64-bit generator, the line rule is the declarative one, the win cap rounds half up.
\<close>

section \<open>The reference spin\<close>

definition gen_state :: "64 word \<Rightarrow> nat \<Rightarrow> 64 word" where
  "gen_state seed k = (xorshift64 ^^ k) seed"

definition ref_stop :: "slot_spec \<Rightarrow> 64 word \<Rightarrow> nat \<Rightarrow> int" where
  "ref_stop spec seed col =
     uint (gen_state seed (Suc col) * 0x2545f4914f6cdd1d) mod int (length (s_reels spec ! col))"

definition ref_cell :: "slot_spec \<Rightarrow> 64 word \<Rightarrow> nat \<Rightarrow> nat \<Rightarrow> int" where
  "ref_cell spec seed row col =
     (let strip = s_reels spec ! col in uint (strip ! ((nat (ref_stop spec seed col) + row) mod length strip)))"

definition ref_grid :: "slot_spec \<Rightarrow> 64 word \<Rightarrow> nat \<Rightarrow> grid" where
  "ref_grid spec seed k =
     map (\<lambda>row. map (\<lambda>col. if col < k then ref_cell spec seed row col else 0) [0..<nat (s_cols spec)])
       [0..<nat (s_rows spec)]"

lemma gen_state_Suc: "gen_state seed (Suc k) = xorshift64 (gen_state seed k)"
  by (simp add: gen_state_def)

lemma set_cell_map:
  assumes "row < n"
  shows "set_cell (map (\<lambda>r. map (h r) [0..<c]) [0..<n]) row col v
    = map (\<lambda>r. map (\<lambda>cl. if r = row \<and> cl = col then v else h r cl) [0..<c]) [0..<n]"
  using assms by (auto simp: set_cell_def list_eq_iff_nth_eq nth_list_update)

lemma fold_set_cell:
  assumes "m \<le> n"
  shows "fold (\<lambda>row g. set_cell g row col (f row)) [0..<m] (map (\<lambda>r. map (h r) [0..<c]) [0..<n])
    = map (\<lambda>r. map (\<lambda>cl. if r < m \<and> cl = col then f r else h r cl) [0..<c]) [0..<n]"
  using assms
proof (induction m)
  case 0
  show ?case by simp
next
  case (Suc m)
  then have "fold (\<lambda>row g. set_cell g row col (f row)) [0..<Suc m] (map (\<lambda>r. map (h r) [0..<c]) [0..<n])
      = set_cell (map (\<lambda>r. map (\<lambda>cl. if r < m \<and> cl = col then f r else h r cl) [0..<c]) [0..<n]) m col (f m)"
    by simp
  also have "\<dots> = map (\<lambda>r. map (\<lambda>cl. if r = m \<and> cl = col then f m
      else if r < m \<and> cl = col then f r else h r cl) [0..<c]) [0..<n]"
    by (rule set_cell_map) (use Suc.prems in simp)
  finally show ?case by (auto simp: less_Suc_eq)
qed

lemma spin_column_ref:
  assumes wf: "slot_wf spec" and k: "k < nat (s_cols spec)"
  shows "spin_column spec (uint (gen_state seed k), map (ref_stop spec seed) [0..<k], ref_grid spec seed k) k
    = Inr (uint (gen_state seed (Suc k)), map (ref_stop spec seed) [0..<Suc k], ref_grid spec seed (Suc k))"
proof -
  have len: "k < length (s_reels spec)" using wf k by (simp add: slot_wf_def)
  let ?strip = "s_reels spec ! k"
  have "?strip \<noteq> []" using wf nth_mem [OF len] by (auto simp: slot_wf_def)
  then have pos: "0 < int (length ?strip)" by simp
  have draw: "nextInt (uint (gen_state seed k)) (int (length ?strip))
      = Inr (uint (gen_state seed (Suc k)), ref_stop spec seed k)"
    using nextInt_uint [OF pos] by (simp add: ref_stop_def gen_state_Suc)
  have grid: "fold (\<lambda>row g. set_cell g row k (uint (?strip ! ((nat (ref_stop spec seed k) + row) mod length ?strip))))
      [0..<nat (s_rows spec)] (ref_grid spec seed k) = ref_grid spec seed (Suc k)"
    unfolding ref_grid_def by (subst fold_set_cell) (auto simp: ref_cell_def Let_def less_Suc_eq)
  show ?thesis
    using len by (simp add: spin_column_def index_or_throw_def draw grid)
qed

lemma replicate_map: "replicate n (replicate c 0) = map (\<lambda>_. map (\<lambda>_. 0) [0..<c]) [0..<n]"
  by (simp add: map_replicate_const)

lemma spin_grid_ref:
  assumes "slot_wf spec"
  shows "spin_grid spec (uint seed) =
    Inr (uint (gen_state seed (nat (s_cols spec))),
         map (ref_stop spec seed) [0..<nat (s_cols spec)],
         map (\<lambda>row. map (ref_cell spec seed row) [0..<nat (s_cols spec)]) [0..<nat (s_rows spec)])"
proof -
  let ?S = "\<lambda>k. (uint (gen_state seed k), map (ref_stop spec seed) [0..<k], ref_grid spec seed k)"
  have "foldE (spin_column spec) (?S 0) [0..<nat (s_cols spec)] = Inr (?S (nat (s_cols spec)))"
    by (rule foldE_upt) (rule spin_column_ref [OF assms])
  moreover have "?S 0 = (uint seed, [], replicate (nat (s_rows spec)) (replicate (nat (s_cols spec)) 0))"
    by (simp add: gen_state_def ref_grid_def replicate_map)
  moreover have "ref_grid spec seed (nat (s_cols spec))
      = map (\<lambda>row. map (ref_cell spec seed row) [0..<nat (s_cols spec)]) [0..<nat (s_rows spec)]"
    by (simp add: ref_grid_def)
  ultimately show ?thesis by (simp add: spin_grid_def)
qed

text \<open>C19: for a well-formed game, the bigint generator and the in-place grid of the replay compute the
  64-bit \<^verbatim>\<open>xorshift64*\<close> stops, one per reel in order, and the grid of the symbols visible below them.\<close>

theorem slot_spin_is_reference:
  assumes "slot_wf spec"
  shows "spin_grid spec (uint seed) =
    Inr (uint (gen_state seed (nat (s_cols spec))),
         map (ref_stop spec seed) [0..<nat (s_cols spec)],
         map (\<lambda>row. map (ref_cell spec seed row) [0..<nat (s_cols spec)]) [0..<nat (s_rows spec)])"
  using assms by (rule spin_grid_ref)

lemma sample_game_parses: "parseSlotArtifact sample_game_bytes = Inr (slot_spec_of sample_game sample_game_bytes)"
  by (rule parseSlotArtifact_encoded [OF sample_game_encodes]) (simp_all add: sample_game_def)

lemma sample_game_wf: "slot_wf (slot_spec_of sample_game sample_game_bytes)"
  using parseSlotArtifact_wf [OF sample_game_parses] by blast

lemma sample_game_stops:
  "map (ref_stop (slot_spec_of sample_game sample_game_bytes) 1) [0..<3] = [1, 1, 3]"
  by (simp add: ref_stop_def gen_state_def slot_spec_of_def sample_game_def Let_def xorshift64_def upt_rec)

lemma slot_spin_is_reference_witness:
  "\<exists>state g. spin_grid (slot_spec_of sample_game sample_game_bytes) (uint (1 :: 64 word)) = Inr (state, [1, 1, 3], g)"
  using slot_spin_is_reference [OF sample_game_wf, of 1] sample_game_stops
  by (simp add: slot_spec_of_def sample_game_def Let_def)

section \<open>The line rule\<close>

text \<open>The declarative reading: the run stops before the first scatter; the target is its first symbol
  that is not wild, if any; the count is the length of the longest prefix of wilds and targets.\<close>

definition line_target :: "int \<Rightarrow> int \<Rightarrow> int list \<Rightarrow> int" where
  "line_target wild scatter symbols =
     (case filter (\<lambda>x. x \<noteq> wild) (takeWhile (\<lambda>x. x \<noteq> scatter) symbols) of [] \<Rightarrow> -1 | t # _ \<Rightarrow> t)"

definition line_count :: "int \<Rightarrow> int \<Rightarrow> int list \<Rightarrow> int" where
  "line_count wild scatter symbols =
     int (length (takeWhile (\<lambda>x. x = wild \<or> x = line_target wild scatter symbols)
       (takeWhile (\<lambda>x. x \<noteq> scatter) symbols)))"

lemma line_run_target:
  "t \<noteq> -1 \<Longrightarrow> line_run wild scatter xs t n =
    (t, n + int (length (takeWhile (\<lambda>x. x = wild \<or> x = t) (takeWhile (\<lambda>x. x \<noteq> scatter) xs))))"
  by (induction xs arbitrary: n) auto

lemma line_run_no_target:
  assumes "\<forall>x \<in> set xs. x \<noteq> -1"
  shows "line_run wild scatter xs (-1) n = (line_target wild scatter xs, n + line_count wild scatter xs)"
  using assms
proof (induction xs arbitrary: n)
  case Nil
  show ?case by (simp add: line_target_def line_count_def)
next
  case (Cons x xs)
  then show ?case by (auto simp: line_target_def line_count_def line_run_target)
qed

text \<open>On the symbols of a payline, the loop with its running target computes the declarative
  rule.\<close>

theorem slot_line_rule:
  assumes "\<forall>x \<in> set symbols. 0 \<le> x"
  shows "line_run wild scatter symbols (-1) 0 = (line_target wild scatter symbols, line_count wild scatter symbols)"
  using line_run_no_target [of symbols wild scatter 0] assms by fastforce

lemma slot_line_rule_witness: "line_run 0 3 [0, 2, 0, 2, 1, 3] (-1) 0 = (2, 4)"
  using slot_line_rule [of "[0, 2, 0, 2, 1, 3]" 0 3] by (simp add: line_target_def line_count_def)

section \<open>The win cap\<close>

text \<open>The cap is \<^verbatim>\<open>bet * maxWinMultiplier / 10000\<close> rounded to the nearest integer, halves up, for
  every bet and multiplier: the bigint result is never reduced to 64 bits.\<close>

theorem slot_max_win_cap_rounds:
  assumes "0 \<le> bet" and "0 \<le> m"
  shows "\<exists>cap. maxWinCap bet m = Inr cap \<and> 0 \<le> cap
    \<and> 2 * bet * m - SLOT_MULTIPLIER_SCALE < 2 * SLOT_MULTIPLIER_SCALE * cap
    \<and> 2 * SLOT_MULTIPLIER_SCALE * cap \<le> 2 * bet * m + SLOT_MULTIPLIER_SCALE"
proof -
  define p where "p = bet * m"
  have p: "0 \<le> p" using assms by (simp add: p_def)
  have "maxWinCap bet m = Inr ((p + 5000) div 10000)"
    using p by (simp add: maxWinCap_def SLOT_MULTIPLIER_SCALE_def p_def)
  moreover have "0 \<le> (p + 5000) div 10000" using p by simp
  moreover have "2 * p - 10000 < 20000 * ((p + 5000) div 10000)" "20000 * ((p + 5000) div 10000) \<le> 2 * p + 10000"
    using mult_div_mod_eq [of 10000 "p + 5000"] pos_mod_bound [of 10000 "p + 5000"]
      pos_mod_sign [of 10000 "p + 5000"] by linarith+
  ultimately show ?thesis
    by (intro exI [of _ "(p + 5000) div 10000"]) (simp add: SLOT_MULTIPLIER_SCALE_def p_def mult.assoc)
qed

lemma slot_max_win_cap_rounds_witness: "maxWinCap 18446744073709551615 4294967295 = Inr 7922816249581759351553943"
  using slot_max_win_cap_rounds [of 18446744073709551615 4294967295]
  by (simp add: maxWinCap_def SLOT_MULTIPLIER_SCALE_def)

section \<open>Replay is total\<close>

lemma paytable_entry_total:
  assumes wf: "slot_wf spec" and idx: "0 \<le> idx" "idx < s_symbolCount spec" and n: "0 \<le> n"
  shows "\<exists>v. paytable_entry spec idx n = Inr v \<and> 0 \<le> v"
proof -
  let ?m = "min n (s_cols spec)"
  let ?stride = "(s_cols spec + 1) * 8"
  have cols: "0 < s_cols spec" and
    len: "length (s_blob spec) = s_paytableOff spec + nat (s_symbolCount spec * (s_cols spec + 1) * 8)"
    using wf by (auto simp: slot_wf_def)
  define A where "A = idx * ?stride"
  define B where "B = s_symbolCount spec * ?stride"
  have "(idx + 1) * ?stride \<le> B"
    unfolding B_def using idx cols by (intro mult_right_mono) auto
  then have "A + ?stride \<le> B" by (simp add: A_def distrib_right)
  moreover have "?m * 8 + 8 \<le> ?stride" by simp
  moreover have "0 \<le> A" "0 \<le> ?m" using idx n cols by (simp_all add: A_def)
  ultimately have "nat (A + ?m * 8) + 8 \<le> nat B" by linarith
  then have "s_paytableOff spec + nat (A + ?m * 8) + 8 \<le> length (s_blob spec)"
    using len by (simp add: A_def B_def mult.assoc)
  then show ?thesis
    by (simp add: A_def paytable_entry_def runR_Inr_iff readU64LE_def read_uint_Inr_iff)
qed

lemma bigint_div_total: "0 < b \<Longrightarrow> \<exists>q. bigint_div a b = Inr q \<and> (0 \<le> a \<longrightarrow> 0 \<le> q)"
  by (cases "0 \<le> a") (simp add: pos_imp_zdiv_nonneg_iff, simp add: bigint_div_def)

lemma scaled_win_total:
  assumes "slot_wf spec"
  shows "\<exists>w. scaled_win spec bet mult = Inr w \<and> (0 \<le> bet \<longrightarrow> 0 \<le> mult \<longrightarrow> 0 \<le> w)"
proof -
  have num: "0 < s_paytableScaleNum spec" and den: "0 < s_paytableScaleDen spec"
    using assms by (auto simp: slot_wf_def)
  obtain base where base: "bigint_div (bet * mult) SLOT_MULTIPLIER_SCALE = Inr base"
    and bpos: "0 \<le> bet * mult \<longrightarrow> 0 \<le> base"
    using bigint_div_total [of SLOT_MULTIPLIER_SCALE "bet * mult"] by (auto simp: SLOT_MULTIPLIER_SCALE_def)
  obtain half where half: "bigint_div (s_paytableScaleDen spec) 2 = Inr half" and hpos: "0 \<le> half"
    using bigint_div_total [of 2 "s_paytableScaleDen spec"] den by auto
  obtain w where w: "bigint_div (base * s_paytableScaleNum spec + half) (s_paytableScaleDen spec) = Inr w"
    and wpos: "0 \<le> base * s_paytableScaleNum spec + half \<longrightarrow> 0 \<le> w"
    using bigint_div_total [OF den] by blast
  have "0 \<le> w" if "0 \<le> bet" "0 \<le> mult"
    using wpos bpos hpos num that by simp
  then show ?thesis
    using base half w den by (simp add: scaled_win_def scaleMultiplierRound_def)
qed

definition valid_grid :: "slot_spec \<Rightarrow> grid \<Rightarrow> bool" where
  "valid_grid spec g \<longleftrightarrow> length g = nat (s_rows spec) \<and>
     (\<forall>cells \<in> set g. length cells = nat (s_cols spec) \<and> (\<forall>v \<in> set cells. 0 \<le> v \<and> v < s_symbolCount spec))"

lemma unat_less_nat: "uint (w :: byte) < n \<Longrightarrow> unat w < nat n"
  using nat_less_eq_zless [of "uint w" n] by simp

lemma valid_grid_cell:
  "valid_grid spec g \<Longrightarrow> cells \<in> set g \<Longrightarrow> col < nat (s_cols spec) \<Longrightarrow>
    length cells = nat (s_cols spec) \<and> 0 \<le> cells ! col \<and> cells ! col < s_symbolCount spec"
  by (simp add: valid_grid_def)

lemma line_symbols_total:
  assumes wf: "slot_wf spec" and g: "valid_grid spec g" and line: "line < nat (s_paylinesCount spec)"
  shows "\<exists>symbols. line_symbols spec g line = Inr symbols \<and> (\<forall>v \<in> set symbols. 0 \<le> v \<and> v < s_symbolCount spec)"
proof -
  let ?at = "\<lambda>col. s_paylinesOff spec + line * nat (s_cols spec) + col"
  have sym: "bindE (index_or_throw (s_blob spec) (?at col)) (\<lambda>row.
      bindE (index_or_throw g (unat row)) (\<lambda>cells. index_or_throw cells col))
      = Inr (g ! unat (s_blob spec ! ?at col) ! col) \<and>
      0 \<le> g ! unat (s_blob spec ! ?at col) ! col \<and> g ! unat (s_blob spec ! ?at col) ! col < s_symbolCount spec"
    if col: "col < nat (s_cols spec)" for col
  proof -
    have "line * nat (s_cols spec) + col < Suc line * nat (s_cols spec)" using col by simp
    also have "\<dots> \<le> nat (s_paylinesCount spec) * nat (s_cols spec)"
      using line by (intro mult_le_mono1) simp
    finally have i: "line * nat (s_cols spec) + col < nat (s_paylinesCount spec * s_cols spec)"
      using wf by (simp add: slot_wf_def nat_mult_distrib)
    then have "uint (s_blob spec ! ?at col) < s_rows spec" and "?at col < length (s_blob spec)"
      using wf by (auto simp: slot_wf_def add.assoc)
    moreover from this have "unat (s_blob spec ! ?at col) < length g"
      using g unat_less_nat by (auto simp: valid_grid_def)
    moreover from this have "g ! unat (s_blob spec ! ?at col) \<in> set g" by simp
    ultimately show ?thesis
      using valid_grid_cell [OF g _ col] col by (simp add: index_or_throw_def)
  qed
  then have "line_symbols spec g line = Inr (map (\<lambda>col. g ! unat (s_blob spec ! ?at col) ! col) [0..<nat (s_cols spec)])"
    unfolding line_symbols_def by (intro mapE_ok) auto
  with sym show ?thesis by auto
qed

lemma line_run_bounds:
  assumes "\<forall>v \<in> set symbols. 0 \<le> v \<and> v < n" and "t = -1 \<or> 0 \<le> t \<and> t < n" and "0 \<le> c"
  shows "0 \<le> snd (line_run wild scatter symbols t c) \<and>
    (fst (line_run wild scatter symbols t c) = -1 \<or>
     0 \<le> fst (line_run wild scatter symbols t c) \<and> fst (line_run wild scatter symbols t c) < n)"
  using assms by (induction wild scatter symbols t c rule: line_run.induct) auto

lemma line_win_total:
  assumes wf: "slot_wf spec" and g: "valid_grid spec g" and line: "line < nat (s_paylinesCount spec)"
    and won: "0 \<le> bet \<longrightarrow> 0 \<le> won"
  shows "\<exists>w. line_win spec g bet won line = Inr w \<and> (0 \<le> bet \<longrightarrow> 0 \<le> w)"
proof -
  obtain symbols where sym: "line_symbols spec g line = Inr symbols"
    and range: "\<forall>v \<in> set symbols. 0 \<le> v \<and> v < s_symbolCount spec"
    using line_symbols_total [OF wf g line] by blast
  obtain target count where run: "line_run (s_wildIdx spec) (s_scatterIdx spec) symbols (-1) 0 = (target, count)"
    by fastforce
  have t: "0 \<le> count" "target = -1 \<or> 0 \<le> target \<and> target < s_symbolCount spec"
    using line_run_bounds [OF range, of "-1" 0] run by (metis fst_conv snd_conv order_refl)+
  have wild: "0 \<le> s_wildIdx spec" "s_wildIdx spec < s_symbolCount spec" using wf by (auto simp: slot_wf_def)
  let ?idx = "if target = -1 then s_wildIdx spec else target"
  obtain mult where mult: "paytable_entry spec ?idx count = Inr mult" "0 \<le> mult"
    using paytable_entry_total [OF wf, of ?idx count] t wild by auto
  obtain w where "scaled_win spec bet mult = Inr w" "0 \<le> bet \<longrightarrow> 0 \<le> w"
    using scaled_win_total [OF wf, of bet mult] mult by blast
  then show ?thesis
    using sym run mult won by (auto simp: line_win_def)
qed

lemma scatter_win_total:
  assumes wf: "slot_wf spec"
  shows "\<exists>w. scatter_win spec g bet = Inr w \<and> (0 \<le> bet \<longrightarrow> 0 \<le> w)"
proof -
  have "0 \<le> s_scatterIdx spec" "s_scatterIdx spec < s_symbolCount spec" using wf by (auto simp: slot_wf_def)
  then obtain mult where mult: "paytable_entry spec (s_scatterIdx spec) (scatter_count spec g) = Inr mult" "0 \<le> mult"
    using paytable_entry_total [OF wf, of "s_scatterIdx spec" "scatter_count spec g"]
    by (auto simp: scatter_count_def)
  obtain w where "scaled_win spec bet mult = Inr w" "0 \<le> bet \<longrightarrow> 0 \<le> w"
    using scaled_win_total [OF wf, of bet mult] mult by blast
  then show ?thesis using mult by (auto simp: scatter_win_def Let_def)
qed

lemma ref_stop_range:
  assumes "slot_wf spec" and "col < nat (s_cols spec)"
  shows "0 \<le> ref_stop spec seed col \<and> ref_stop spec seed col < int (length (s_reels spec ! col))"
proof -
  have "col < length (s_reels spec)" using assms by (simp add: slot_wf_def)
  with assms have "s_reels spec ! col \<noteq> []" by (auto simp: slot_wf_def)
  then show ?thesis by (simp add: ref_stop_def)
qed

lemma ref_grid_valid:
  assumes wf: "slot_wf spec"
  shows "valid_grid spec (map (\<lambda>row. map (ref_cell spec seed row) [0..<nat (s_cols spec)]) [0..<nat (s_rows spec)])"
proof -
  have "0 \<le> ref_cell spec seed row col \<and> ref_cell spec seed row col < s_symbolCount spec"
    if "col < nat (s_cols spec)" for row col
  proof -
    have c: "col < length (s_reels spec)" using wf that by (simp add: slot_wf_def)
    have strip: "s_reels spec ! col \<noteq> []" "\<forall>sym \<in> set (s_reels spec ! col). uint sym < s_symbolCount spec"
      using wf nth_mem [OF c] by (auto simp: slot_wf_def)
    then show ?thesis by (simp add: ref_cell_def Let_def)
  qed
  then show ?thesis by (auto simp: valid_grid_def)
qed

lemma slot_replay_facts:
  assumes "parseSlotArtifact blob = Inr spec" and "length randomness = 32"
  shows "\<exists>outcome. replaySpin spec randomness bet = Inr outcome
    \<and> reelStops outcome = map (ref_stop spec (word_of_int (le_uint (take 8 randomness)))) [0..<nat (s_cols spec)]
    \<and> (\<forall>col < nat (s_cols spec). 0 \<le> reelStops outcome ! col
         \<and> reelStops outcome ! col < int (length (s_reels spec ! col)))
    \<and> (0 \<le> bet \<longrightarrow> 0 \<le> totalWinLamports outcome)"
proof -
  have wf: "slot_wf spec" using parseSlotArtifact_wf [OF assms(1)] by blast
  define u where "u = le_uint (take 8 randomness)"
  define seed where "seed = (word_of_int u :: 64 word)"
  have "u < 256 ^ length (take 8 randomness)" unfolding u_def by (rule le_uint_bound)
  then have seed: "uint seed = u" using assms(2) by (simp add: seed_def u_def uint_word_of_int)
  have read: "runR readU64LE randomness 0 = Inr (uint seed)"
    using assms(2) by (simp add: runR_Inr_iff readU64LE_def read_uint_Inr_iff seed u_def)
  let ?grid = "map (\<lambda>row. map (ref_cell spec seed row) [0..<nat (s_cols spec)]) [0..<nat (s_rows spec)]"
  obtain lineBet where lb: "bigint_div bet (s_paylinesCount spec) = Inr lineBet" "0 \<le> bet \<longrightarrow> 0 \<le> lineBet"
    using bigint_div_total [of "s_paylinesCount spec" bet] wf by (auto simp: slot_wf_def)
  obtain lineTotal where lt: "foldE (line_win spec ?grid lineBet) 0 [0..<nat (s_paylinesCount spec)] = Inr lineTotal"
    "0 \<le> lineBet \<longrightarrow> 0 \<le> lineTotal"
    using foldE_invariant [of "\<lambda>t. 0 \<le> lineBet \<longrightarrow> 0 \<le> t" 0 "[0..<nat (s_paylinesCount spec)]" "line_win spec ?grid lineBet"]
      line_win_total [OF wf ref_grid_valid [OF wf]] by auto
  obtain sc where sc: "scatter_win spec ?grid bet = Inr sc" "0 \<le> bet \<longrightarrow> 0 \<le> sc"
    using scatter_win_total [OF wf] by blast
  have "replaySpin spec randomness bet = Inr \<lparr>totalWinLamports = lineTotal + sc,
      reelStops = map (ref_stop spec seed) [0..<nat (s_cols spec)]\<rparr>"
    using assms(2) by (simp add: replaySpin_def read spin_grid_ref [OF wf] lb lt sc)
  then show ?thesis
    using ref_stop_range [OF wf, of _ seed] lb lt sc by (simp add: seed_def u_def)
qed

text \<open>A committed slot artifact that parses always replays: for every 32 bytes of randomness and
  every bet the replay returns, with one stop per reel, each on its strip, and a non-negative win.\<close>

theorem slot_replay_total:
  assumes "parseSlotArtifact blob = Inr spec" and "length randomness = 32"
  shows "\<exists>outcome. replaySpin spec randomness bet = Inr outcome
    \<and> reelStops outcome = map (ref_stop spec (word_of_int (le_uint (take 8 randomness)))) [0..<nat (s_cols spec)]
    \<and> (\<forall>col < nat (s_cols spec). 0 \<le> reelStops outcome ! col
         \<and> reelStops outcome ! col < int (length (s_reels spec ! col)))
    \<and> (0 \<le> bet \<longrightarrow> 0 \<le> totalWinLamports outcome)"
  using assms by (rule slot_replay_facts)

lemma slot_replay_total_witness:
  "\<exists>outcome. replaySpin (slot_spec_of sample_game sample_game_bytes) (1 # replicate 31 0) 1000 = Inr outcome
    \<and> length (reelStops outcome) = 3 \<and> 0 \<le> totalWinLamports outcome"
  using slot_replay_total [OF sample_game_parses, of "1 # replicate 31 0" 1000]
  by (auto simp: slot_spec_of_def sample_game_def Let_def)

end
