(* ===== verification/Codec.thy ===== *)
theory Codec
  imports Bytes
begin

text \<open>
  The contract between a writer and a reader of one kind of record: a valid record is written without
  an error, and the reader, wherever it meets those bytes, consumes exactly them and returns the
  record. The locale carries it from a record to the lists of records that the artifact formats
  repeat, with or without a \<^verbatim>\<open>u32\<close> count in front. The formats interpret it for each of their
  records.
\<close>

definition encodes :: "('a \<Rightarrow> buffer result) \<Rightarrow> 'a reader \<Rightarrow> 'a \<Rightarrow> bool" where
  "encodes enc dec x \<longleftrightarrow> (\<exists>b. enc x = Inr b \<and> (\<forall>off. runs off dec b x))"

lemma encodesI: "enc x = Inr b \<Longrightarrow> (\<And>off. runs off dec b x) \<Longrightarrow> encodes enc dec x"
  by (auto simp: encodes_def)

lemma encodesE:
  assumes "encodes enc dec x" obtains b where "enc x = Inr b" and "\<And>off. runs off dec b x"
  using assms by (auto simp: encodes_def)

locale codec =
  fixes enc :: "'a \<Rightarrow> buffer result" and dec :: "'a reader" and valid :: "'a \<Rightarrow> bool"
  assumes valid_encodes: "valid x \<Longrightarrow> encodes enc dec x"
begin

lemma list_bytes:
  assumes "\<forall>x \<in> set xs. valid x"
  obtains g where "\<And>x. x \<in> set xs \<Longrightarrow> enc x = Inr (g x)" and "\<And>x off. x \<in> set xs \<Longrightarrow> runs off dec (g x) x"
proof -
  define g where "g x = (SOME b. enc x = Inr b \<and> (\<forall>off. runs off dec b x))" for x
  have "enc x = Inr (g x) \<and> (\<forall>off. runs off dec (g x) x)" if "x \<in> set xs" for x
    unfolding g_def by (rule someI_ex) (use assms that valid_encodes in \<open>auto simp: encodes_def\<close>)
  then show thesis by (intro that [of g]) auto
qed

lemma list_encodes:
  assumes "\<forall>x \<in> set xs. valid x" and "n = length xs"
  shows "encodes (\<lambda>ys. concatE (map enc ys)) (repeatR n dec) xs"
proof -
  obtain g where "\<And>x. x \<in> set xs \<Longrightarrow> enc x = Inr (g x)" and "\<And>x off. x \<in> set xs \<Longrightarrow> runs off dec (g x) x"
    using list_bytes [OF assms(1)] by blast
  then show ?thesis
    unfolding assms(2) by (intro encodesI [where b = "concat (map g xs)"] concatE_ok runs_repeatR)
qed

text \<open>Two valid records with the same bytes are the same record.\<close>

lemma enc_inject:
  assumes "valid x" and "valid y" and "enc x = enc y"
  shows "x = y"
proof -
  obtain b where b: "enc x = Inr b" and x: "\<And>off. runs off dec b x"
    using valid_encodes [OF assms(1)] unfolding encodes_def by blast
  obtain c where c: "enc y = Inr c" and y: "\<And>off. runs off dec c y"
    using valid_encodes [OF assms(2)] unfolding encodes_def by blast
  have "b = c" using assms(3) b c by simp
  then show ?thesis using runsD [OF x, of 0 b "[]"] runsD [OF y, of 0 c "[]"] by simp
qed

end

end
