(* ===== verification/Js_Sort.thy ===== *)
theory Js_Sort
  imports VRE_Prelude "HOL-Library.Multiset" "HOL-Library.Sublist"
begin

text \<open>
  \<^verbatim>\<open>Array.prototype.sort(compare)\<close>: stable since ES2019, so for a comparator that orders
  consistently the result is one list, which insertion sort computes. The locale \<open>comparator\<close> is
  the contract between a sort and its comparison function; every comparison function of the SDK
  is interpreted in it by the theory that defines it. \<open>strict_comparator\<close> adds that equal means
  identical, and then the order of the input is irrelevant.
\<close>

section \<open>The sort\<close>

fun sort_insert :: "('a \<Rightarrow> 'a \<Rightarrow> int) \<Rightarrow> 'a \<Rightarrow> 'a list \<Rightarrow> 'a list" where
  "sort_insert cmp x [] = [x]"
| "sort_insert cmp x (y # ys) = (if cmp x y \<le> 0 then x # y # ys else y # sort_insert cmp x ys)"

primrec js_sort :: "('a \<Rightarrow> 'a \<Rightarrow> int) \<Rightarrow> 'a list \<Rightarrow> 'a list" where
  "js_sort cmp [] = []"
| "js_sort cmp (x # xs) = sort_insert cmp x (js_sort cmp xs)"

lemma mset_sort_insert [simp]: "mset (sort_insert cmp x ys) = add_mset x (mset ys)"
  by (induction ys) auto

lemma mset_js_sort [simp]: "mset (js_sort cmp xs) = mset xs"
  by (induction xs) auto

lemma set_sort_insert [simp]: "set (sort_insert cmp x ys) = insert x (set ys)"
  by (induction ys) auto

lemma set_js_sort [simp]: "set (js_sort cmp xs) = set xs"
  by (induction xs) auto

lemma length_sort_insert [simp]: "length (sort_insert cmp x ys) = Suc (length ys)"
  by (induction ys) auto

lemma length_js_sort [simp]: "length (js_sort cmp xs) = length xs"
  by (induction xs) auto

lemma distinct_map_js_sort [simp]: "distinct (map f (js_sort cmp xs)) = distinct (map f xs)"
proof -
  have "mset (map f (js_sort cmp xs)) = mset (map f xs)" by simp
  then show ?thesis by (metis mset_eq_imp_distinct_iff)
qed

lemma js_sort_map: "js_sort cmp (map f xs) = map f (js_sort (\<lambda>a b. cmp (f a) (f b)) xs)"
proof -
  have ins: "sort_insert cmp (f x) (map f ys) = map f (sort_insert (\<lambda>a b. cmp (f a) (f b)) x ys)" for x ys
    by (induction ys) auto
  show ?thesis by (induction xs) (simp_all add: ins)
qed

lemma sort_insert_cong:
  "(\<And>y. y \<in> set ys \<Longrightarrow> cmp x y = cmp' x y) \<Longrightarrow> sort_insert cmp x ys = sort_insert cmp' x ys"
  by (induction ys) auto

lemma js_sort_cong:
  "(\<And>x y. x \<in> set xs \<Longrightarrow> y \<in> set xs \<Longrightarrow> cmp x y = cmp' x y) \<Longrightarrow> js_sort cmp xs = js_sort cmp' xs"
proof (induction xs)
  case Nil
  show ?case by simp
next
  case (Cons x xs)
  have eq: "js_sort cmp xs = js_sort cmp' xs" by (rule Cons.IH) (simp add: Cons.prems)
  have "sort_insert cmp x (js_sort cmp' xs) = sort_insert cmp' x (js_sort cmp' xs)"
    by (rule sort_insert_cong) (simp add: Cons.prems)
  with eq show ?case by simp
qed

section \<open>The contract of a comparison function\<close>

locale comparator =
  fixes cmp :: "'a \<Rightarrow> 'a \<Rightarrow> int"
  assumes flip: "cmp b a < 0 \<longleftrightarrow> 0 < cmp a b"
    and le_trans: "cmp a b \<le> 0 \<Longrightarrow> cmp b c \<le> 0 \<Longrightarrow> cmp a c \<le> 0"
begin

definition le :: "'a \<Rightarrow> 'a \<Rightarrow> bool" where
  "le a b \<longleftrightarrow> cmp a b \<le> 0"

lemma cmp_refl [simp]: "cmp a a = 0"
  using flip [of a a] by linarith

lemma zero_sym: "cmp a b = 0 \<longleftrightarrow> cmp b a = 0"
  using flip [of a b] flip [of b a] by linarith

lemma total: "cmp a b \<le> 0 \<or> cmp b a \<le> 0"
  using flip [of a b] by linarith

lemma not_le: "\<not> cmp a b \<le> 0 \<longleftrightarrow> cmp b a < 0"
  using flip by auto

lemma less_le_trans: "cmp a b < 0 \<Longrightarrow> cmp b c \<le> 0 \<Longrightarrow> cmp a c < 0"
  using le_trans [of a b c] le_trans [of b c a] flip [of a b] flip [of a c] by (smt (verit) flip zero_sym)

lemma le_less_trans: "cmp a b \<le> 0 \<Longrightarrow> cmp b c < 0 \<Longrightarrow> cmp a c < 0"
  by (smt (verit) flip le_trans zero_sym)

lemma zero_left: "cmp a b = 0 \<Longrightarrow> cmp a c \<le> 0 \<longleftrightarrow> cmp b c \<le> 0"
  by (metis le_trans order_refl zero_sym)

lemma zero_right: "cmp a b = 0 \<Longrightarrow> cmp c a \<le> 0 \<longleftrightarrow> cmp c b \<le> 0"
  by (metis le_trans order_refl zero_sym)

lemma sorted_sort_insert:
  "sorted_wrt le ys \<Longrightarrow> sorted_wrt le (sort_insert cmp x ys)"
proof (induction ys)
  case Nil
  show ?case by simp
next
  case (Cons y ys)
  then show ?case
    using total [of x y] le_trans by (auto simp: le_def)
qed

lemma sorted_js_sort: "sorted_wrt le (js_sort cmp xs)"
  by (induction xs) (simp_all add: sorted_sort_insert)

lemma sort_insert_hd: "(\<And>y. y \<in> set ys \<Longrightarrow> cmp x y \<le> 0) \<Longrightarrow> sort_insert cmp x ys = x # ys"
  by (cases ys) auto

lemma js_sort_id: "sorted_wrt le xs \<Longrightarrow> js_sort cmp xs = xs"
  by (induction xs) (auto simp: sort_insert_hd le_def)

text \<open>Elements the comparison calls equal keep their order.\<close>

lemma filter_sort_insert:
  "filter (\<lambda>y. cmp y z = 0) (sort_insert cmp x ys) =
    (if cmp x z = 0 then x # filter (\<lambda>y. cmp y z = 0) ys else filter (\<lambda>y. cmp y z = 0) ys)"
proof (induction ys)
  case Nil
  show ?case by simp
next
  case (Cons y ys)
  show ?case
  proof (cases "cmp x y \<le> 0")
    case True
    then show ?thesis by simp
  next
    case False
    then have "cmp x z = 0 \<Longrightarrow> cmp y z \<noteq> 0"
      by (metis order_refl zero_left zero_sym)
    with False Cons show ?thesis by auto
  qed
qed

lemma stable: "filter (\<lambda>y. cmp y z = 0) (js_sort cmp xs) = filter (\<lambda>y. cmp y z = 0) xs"
  by (induction xs) (simp_all add: filter_sort_insert)

text \<open>The head of the sorted list precedes every element of the input.\<close>

lemma js_sort_hd_le: "js_sort cmp xs = y # ys \<Longrightarrow> x \<in> set xs \<Longrightarrow> cmp y x \<le> 0"
proof -
  assume e: "js_sort cmp xs = y # ys" and x: "x \<in> set xs"
  have "x \<in> set (y # ys)" using x e [symmetric] by simp
  moreover have "sorted_wrt le (y # ys)" using sorted_js_sort [of xs] e by simp
  ultimately show "cmp y x \<le> 0" by (auto simp: le_def)
qed

lemma sorted_nth_le:
  "i \<le> j \<Longrightarrow> j < length xs \<Longrightarrow> cmp (js_sort cmp xs ! i) (js_sort cmp xs ! j) \<le> 0"
  using sorted_js_sort [of xs] by (cases "i = j") (auto simp: sorted_wrt_iff_nth_less le_def)

text \<open>Inserting at the end of the sorted prefix: what sorting a list with one more element does.\<close>

fun insert_last :: "'a \<Rightarrow> 'a list \<Rightarrow> 'a list" where
  "insert_last x [] = [x]"
| "insert_last x (y # ys) = (if cmp x y < 0 then x # y # ys else y # insert_last x ys)"

lemma insert_last_sort_insert:
  "insert_last x (sort_insert cmp y ys) = sort_insert cmp y (insert_last x ys)"
proof (induction ys)
  case Nil
  then show ?case using flip [of x y] flip [of y x] by auto
next
  case (Cons z zs)
  consider (yz) "cmp y z \<le> 0" "cmp x z < 0" | (xyz) "cmp y z \<le> 0" "\<not> cmp x z < 0" "\<not> cmp x y < 0"
    | (zy) "\<not> cmp y z \<le> 0" "cmp x z < 0" "\<not> cmp y x \<le> 0" | (z) "\<not> cmp y z \<le> 0" "\<not> cmp x z < 0"
    using le_trans [of y x z] less_le_trans [of x y z] by linarith
  then show ?case
  proof cases
    case yz
    then show ?thesis using flip [of x y] flip [of y x] by auto
  next
    case xyz
    then show ?thesis by simp
  next
    case zy
    then show ?thesis by simp
  next
    case z
    with Cons show ?thesis by simp
  qed
qed

lemma js_sort_snoc: "js_sort cmp (xs @ [x]) = insert_last x (js_sort cmp xs)"
  by (induction xs) (simp_all add: insert_last_sort_insert)

lemma take_insert_last: "take k (insert_last x (take k ys)) = take k (insert_last x ys)"
proof (induction k arbitrary: ys)
  case 0
  show ?case by simp
next
  case (Suc k)
  then show ?case by (cases ys; cases k) auto
qed

lemma js_sort_snoc_sorted:
  "sorted_wrt le ys \<Longrightarrow> js_sort cmp (ys @ [x]) = insert_last x ys"
  using js_sort_snoc [of ys x] by (simp add: js_sort_id)

lemma sorted_take: "sorted_wrt le xs \<Longrightarrow> sorted_wrt le (take k xs)"
  by (metis append_take_drop_id sorted_wrt_append)

text \<open>Keeping only the best \<open>k\<close> after each push gives the first \<open>k\<close> of the whole sort.\<close>

lemma streaming_top_k:
  "foldl (\<lambda>best x. take k (js_sort cmp (best @ [x]))) [] xs = take k (js_sort cmp xs)"
proof (induction xs rule: rev_induct)
  case Nil
  show ?case by simp
next
  case (snoc x xs)
  have "foldl (\<lambda>best x. take k (js_sort cmp (best @ [x]))) [] (xs @ [x])
      = take k (js_sort cmp (take k (js_sort cmp xs) @ [x]))"
    by (simp add: snoc)
  also have "\<dots> = take k (insert_last x (take k (js_sort cmp xs)))"
    by (simp add: js_sort_snoc_sorted sorted_take sorted_js_sort)
  also have "\<dots> = take k (js_sort cmp (xs @ [x]))"
    by (simp add: take_insert_last js_sort_snoc)
  finally show ?case .
qed

text \<open>Where equal elements of the input are identical, only the multiset of the input matters.\<close>

lemma sorted_unique:
  assumes "sorted_wrt le xs" and "sorted_wrt le ys" and "mset xs = mset ys"
    and "\<And>a b. a \<in> set xs \<Longrightarrow> b \<in> set xs \<Longrightarrow> cmp a b = 0 \<Longrightarrow> a = b"
  shows "xs = ys"
  using assms
proof (induction xs arbitrary: ys)
  case Nil
  then show ?case by simp
next
  case (Cons x xs)
  obtain y ys' where ys: "ys = y # ys'"
    using Cons.prems(3) by (cases ys) auto
  have sets: "set (x # xs) = set (y # ys')"
    using Cons.prems(3) ys by (metis set_mset_mset)
  have "cmp x y \<le> 0" and "cmp y x \<le> 0"
    using Cons.prems(1,2) ys sets by (auto simp: le_def)
  then have "cmp x y = 0" using flip [of x y] flip [of y x] by linarith
  then have xy: "x = y" using Cons.prems(4) sets by auto
  have "xs = ys'"
    by (rule Cons.IH) (use Cons.prems ys xy in auto)
  with xy ys show ?case by simp
qed

lemma js_sort_mset_eq:
  assumes "mset xs = mset ys"
    and "\<And>a b. a \<in> set xs \<Longrightarrow> b \<in> set xs \<Longrightarrow> cmp a b = 0 \<Longrightarrow> a = b"
  shows "js_sort cmp xs = js_sort cmp ys"
  by (rule sorted_unique) (use assms in \<open>simp_all add: sorted_js_sort\<close>)

end

locale strict_comparator = comparator +
  assumes zero_eq: "cmp a b = 0 \<Longrightarrow> a = b"
begin

lemma js_sort_perm: "mset xs = mset ys \<Longrightarrow> js_sort cmp xs = js_sort cmp ys"
  by (rule js_sort_mset_eq) (auto dest: zero_eq)

lemma sorted_strict:
  "distinct xs \<Longrightarrow> sorted_wrt (\<lambda>a b. cmp a b < 0) (js_sort cmp xs)"
proof -
  assume d: "distinct xs"
  then have "distinct (js_sort cmp xs)"
    by (metis mset_eq_imp_distinct_iff mset_js_sort)
  then show ?thesis
    using sorted_js_sort [of xs]
    by (auto simp: sorted_wrt_iff_nth_less le_def distinct_conv_nth)
       (metis linorder_neqE_linordered_idom linorder_not_less nat_neq_iff order_less_trans zero_eq)
qed

end

section \<open>Building comparison functions\<close>

text \<open>JavaScript's \<^verbatim>\<open>a || b\<close> on numbers.\<close>

definition or_else :: "int \<Rightarrow> int \<Rightarrow> int" where
  "or_else a b = (if a \<noteq> 0 then a else b)"

text \<open>\<^verbatim>\<open>cmpBig\<close> and every \<^verbatim>\<open>a < b ? -1 : a > b ? 1 : 0\<close>.\<close>

definition cmp_int :: "int \<Rightarrow> int \<Rightarrow> int" where
  "cmp_int a b = (if a < b then -1 else if b < a then 1 else 0)"

lemma comparator_key_diff: "comparator (\<lambda>a b. f a - f b :: int)"
  by unfold_locales auto

lemma comparator_key_cmp: "comparator (\<lambda>a b. cmp_int (f a) (f b))"
  by unfold_locales (auto simp: cmp_int_def split: if_splits)

lemma comparator_rev: "comparator c \<Longrightarrow> comparator (\<lambda>a b. c b a)"
  unfolding comparator_def by blast

lemma comparator_map: "comparator c \<Longrightarrow> comparator (\<lambda>a b. c (f a) (f b))"
  unfolding comparator_def by blast

lemma comparator_or_else:
  assumes "comparator c" and "comparator d"
  shows "comparator (\<lambda>a b. or_else (c a b) (d a b))"
proof
  fix a b
  show "or_else (c b a) (d b a) < 0 \<longleftrightarrow> 0 < or_else (c a b) (d a b)"
    using comparator.flip [OF assms(1)] comparator.flip [OF assms(2)] comparator.zero_sym [OF assms(1)]
    by (auto simp: or_else_def)
next
  fix x y z
  assume 1: "or_else (c x y) (d x y) \<le> 0" and 2: "or_else (c y z) (d y z) \<le> 0"
  show "or_else (c x z) (d x z) \<le> 0"
  proof (cases "c x y = 0 \<and> c y z = 0")
    case True
    then have "c x z \<le> 0" "c z x \<le> 0"
      using comparator.le_trans [OF assms(1), of x y z] comparator.le_trans [OF assms(1), of z y x]
        comparator.zero_sym [OF assms(1), of x y] comparator.zero_sym [OF assms(1), of y z] by auto
    then have "c x z = 0"
      using comparator.flip [OF assms(1), of x z] comparator.flip [OF assms(1), of z x] by linarith
    with 1 2 True show ?thesis
      using comparator.le_trans [OF assms(2), of x y z] by (simp add: or_else_def)
  next
    case False
    then have "c x z < 0"
      using 1 2 comparator.less_le_trans [OF assms(1), of x y z] comparator.le_less_trans [OF assms(1), of x y z]
      by (auto simp: or_else_def split: if_splits)
    then show ?thesis by (simp add: or_else_def)
  qed
qed

end
