(* ===== verification/Js_Values.thy ===== *)
theory Js_Values
  imports Bytes Js_Sort
begin

text \<open>
  JavaScript values as the SDK meets them at its boundaries: \<open>jsval\<close> for configuration objects and
  parsed JSON, numbers and bigints, strings of UTF-16 code units, and the conversions of the standard
  library that the SDK calls: \<^verbatim>\<open>Number(bigint)\<close>, \<^verbatim>\<open>>>> 0\<close> and \<^verbatim>\<open>| 0\<close>, decimal printing, \<^verbatim>\<open>trim\<close>, hexadecimal
  and UTF-8.

  A \<^verbatim>\<open>number\<close> is \<open>NInt n\<close> when its value is the integer \<open>n\<close> and \<open>NFrac\<close> when it is a fraction, an
  infinity or NaN: the SDK's checks only ask whether a number is an integer and which.
\<close>

section \<open>Values\<close>

datatype js_number = NInt int | NFrac

datatype jsval =
    JUndefined
  | JNull
  | JBool bool
  | JNumber js_number
  | JBigInt int
  | JString jsstr
  | JArray "jsval list"
  | JObject "(jsstr \<times> jsval) list"

text \<open>\<^verbatim>\<open>obj.key\<close>, with the same result for \<^verbatim>\<open>"key" in obj ? obj.key : undefined\<close>.\<close>

definition prop_of :: "(jsstr \<times> jsval) list \<Rightarrow> string \<Rightarrow> jsval" where
  "prop_of fields key = (case map_of fields (js key) of None \<Rightarrow> JUndefined | Some v \<Rightarrow> v)"

text \<open>\<^verbatim>\<open>assertObject\<close>: truthy, of type object and not an array.\<close>

definition assertObject :: "jsval \<Rightarrow> (jsstr \<times> jsval) list result" where
  "assertObject v = (case v of JObject fields \<Rightarrow> Inr fields | _ \<Rightarrow> Inl (TypeError ''must be an object''))"

definition MAX_SAFE_INTEGER :: int where
  "MAX_SAFE_INTEGER = 9007199254740991"

section \<open>Conversions of numbers\<close>

function bit_length :: "int \<Rightarrow> nat" where
  "bit_length n = (if n \<le> 0 then 0 else Suc (bit_length (n div 2)))"
  by auto

termination
  by (relation "measure nat") auto

declare bit_length.simps [simp del]

text \<open>The double nearest to \<open>p / q\<close> for positive \<open>p\<close> and \<open>q\<close>, ties to even, as mantissa and exponent.\<close>

definition round_half_even :: "int \<Rightarrow> int \<Rightarrow> int" where
  "round_half_even p q =
     (let d = p div q; r = p mod q in if 2 * r > q \<or> 2 * r = q \<and> odd d then d + 1 else d)"

definition scaled_round :: "int \<Rightarrow> int \<Rightarrow> int \<Rightarrow> int" where
  "scaled_round p q e =
     (if 0 \<le> e then round_half_even p (q * 2 ^ nat e) else round_half_even (p * 2 ^ nat (- e)) q)"

definition double_exponent :: "int \<Rightarrow> int \<Rightarrow> int" where
  "double_exponent p q =
     (let e = int (bit_length p) - int (bit_length q) - 53;
          big = (if 0 \<le> e then 2 ^ 53 * q * 2 ^ nat e \<le> p else 2 ^ 53 * q \<le> p * 2 ^ nat (- e))
      in max (if big then e + 1 else e) (- 1074))"

definition nearest_double :: "int \<Rightarrow> int \<Rightarrow> js_number" where
  "nearest_double p q =
     (if p = 0 then NInt 0
      else let e = double_exponent p q; m = scaled_round p q e in
        if 0 \<le> e then (if 2 ^ 1024 \<le> m * 2 ^ nat e then NFrac else NInt (m * 2 ^ nat e))
        else if m mod 2 ^ nat (- e) = 0 then NInt (m div 2 ^ nat (- e)) else NFrac)"

text \<open>\<^verbatim>\<open>Number(n)\<close> of a bigint of at most 1024 bits.\<close>

definition bigint_to_number :: "int \<Rightarrow> int" where
  "bigint_to_number n =
     (if \<bar>n\<bar> \<le> 2 ^ 53 then n
      else case nearest_double \<bar>n\<bar> 1 of NInt m \<Rightarrow> sgn n * m | NFrac \<Rightarrow> n)"

lemma bit_length_le: "n < 2 ^ k \<Longrightarrow> bit_length n \<le> k"
proof (induction k arbitrary: n)
  case 0
  then show ?case by (simp add: bit_length.simps [of n])
next
  case (Suc k)
  then have "n div 2 < 2 ^ k" by simp
  from Suc.IH [OF this] show ?case by (simp add: bit_length.simps [of n])
qed

lemma bit_length_bound: "n < 2 ^ bit_length n"
proof (induction n rule: bit_length.induct)
  case (1 n)
  show ?case
  proof (cases "n \<le> 0")
    case True
    then show ?thesis by (simp add: bit_length.simps [of n])
  next
    case False
    with 1 have "n div 2 < 2 ^ bit_length (n div 2)" by simp
    with False show ?thesis by (simp add: bit_length.simps [of n])
  qed
qed

lemma round_half_even_int [simp]: "round_half_even p 1 = p"
  by (simp add: round_half_even_def)

text \<open>Integers of at most 53 bits are doubles.\<close>

lemma nearest_double_int:
  assumes "0 \<le> n" and "n < 2 ^ 53"
  shows "nearest_double n 1 = NInt n"
proof (cases "n = 0")
  case False
  define e where "e = double_exponent n 1"
  have one: "bit_length 1 = 1" by (simp add: bit_length.simps)
  have "int (bit_length n) \<le> 53" using bit_length_le [OF assms(2)] by simp
  then have "e \<le> 0" by (simp add: e_def double_exponent_def one Let_def)
  show ?thesis
  proof (cases "e = 0")
    case True
    have "(2::int) ^ 53 \<le> 2 ^ 1024" by (rule power_increasing) auto
    then have "n < 2 ^ 1024" using assms(2) by (rule less_le_trans [rotated])
    with True False show ?thesis
      by (simp add: nearest_double_def Let_def e_def [symmetric] scaled_round_def del: power_numeral)
  next
    case neg: False
    with \<open>e \<le> 0\<close> have "e < 0" by simp
    then show ?thesis
      using False by (simp add: nearest_double_def Let_def e_def [symmetric] scaled_round_def)
  qed
qed (simp add: nearest_double_def)

text \<open>A larger integer never rounds to a smaller number than \<open>2 ^ 53\<close>.\<close>

lemma bit_length_ge: "0 < n \<Longrightarrow> 2 ^ (bit_length n - 1) \<le> n \<and> 0 < bit_length n"
proof (induction n rule: bit_length.induct)
  case (1 n)
  show ?case
  proof (cases "n = 1")
    case True
    then show ?thesis by (simp add: bit_length.simps)
  next
    case False
    then have half: "2 ^ (bit_length (n div 2) - 1) \<le> n div 2 \<and> 0 < bit_length (n div 2)" using 1 by simp
    then obtain k where k: "bit_length (n div 2) = Suc k" by (auto simp: gr0_conv_Suc)
    with half have "2 ^ Suc k \<le> n" by simp
    with k "1.prems" show ?thesis by (simp add: bit_length.simps [of n])
  qed
qed

lemma nearest_double_large:
  assumes "2 ^ 53 < p" and "nearest_double p 1 = NInt m"
  shows "2 ^ 53 \<le> m"
proof -
  have p0: "0 < p" using assms(1) by simp
  define b where "b = bit_length p"
  have low: "2 ^ (b - 1) \<le> p" "0 < b" using bit_length_ge [OF p0] by (simp_all add: b_def)
  have b: "53 < b"
  proof (rule ccontr)
    assume "\<not> 53 < b"
    have "p < 2 ^ b" unfolding b_def by (rule bit_length_bound)
    also have "(2 :: int) ^ b \<le> 2 ^ 53" by (rule power_increasing) (use \<open>\<not> 53 < b\<close> in simp_all)
    finally show False using assms(1) by simp
  qed
  then obtain k where k: "b = 54 + k" using le_Suc_ex [of 54 b] by auto
  have one: "bit_length 1 = 1" by (simp add: bit_length.simps)
  have le: "2 ^ 53 * 2 ^ k \<le> p" using low(1) by (simp add: k power_add)
  then have e: "double_exponent p 1 = int k + 1"
    by (simp add: double_exponent_def one b_def [symmetric] k Let_def)
  have round: "p div 2 ^ (k + 1) \<le> round_half_even p (2 ^ (k + 1))" by (simp add: round_half_even_def Let_def)
  have "2 ^ 52 \<le> p div 2 ^ (k + 1)"
  proof -
    have "(2 :: int) ^ 53 * 2 ^ k = 2 ^ 52 * 2 ^ (k + 1)" by simp
    then have "2 ^ 52 * 2 ^ (k + 1) div 2 ^ (k + 1) \<le> p div 2 ^ (k + 1)" using le by (intro zdiv_mono1) simp_all
    then show ?thesis by simp
  qed
  with round have r: "2 ^ 52 \<le> round_half_even p (2 ^ (k + 1))" by linarith
  have "m = round_half_even p (2 ^ (k + 1)) * 2 ^ (k + 1)"
    using assms(2) p0 by (simp add: nearest_double_def e scaled_round_def nat_add_distrib Let_def split: if_splits)
  then have "2 ^ 52 * 2 ^ (k + 1) \<le> m" using r by (simp add: mult_right_mono)
  moreover have "(2 :: int) ^ 52 * 2 ^ (k + 1) = 2 ^ 53 * 2 ^ k" by simp
  moreover have "(2 :: int) ^ 53 * 1 \<le> 2 ^ 53 * 2 ^ k" by (rule mult_left_mono) simp_all
  ultimately show ?thesis by (simp only: mult_1_right)
qed

lemma bigint_to_number_large: "9007199254740992 < \<bar>n\<bar> \<Longrightarrow> 9007199254740992 \<le> \<bar>bigint_to_number n\<bar>"
  using nearest_double_large [of "\<bar>n\<bar>"]
  by (auto simp: bigint_to_number_def abs_mult split: js_number.splits)

definition to_uint32 :: "int \<Rightarrow> int" where
  "to_uint32 v = v mod 4294967296"

definition to_int32 :: "int \<Rightarrow> int" where
  "to_int32 v = to_signed 4 (v mod 4294967296)"

lemma bigint_to_number_exact [simp]: "\<bar>n\<bar> \<le> 9007199254740992 \<Longrightarrow> bigint_to_number n = n"
  by (simp add: bigint_to_number_def)

lemma to_uint32_id [simp]: "0 \<le> v \<Longrightarrow> v < 4294967296 \<Longrightarrow> to_uint32 v = v"
  by (simp add: to_uint32_def)

lemma to_uint32_range: "0 \<le> to_uint32 v \<and> to_uint32 v < 4294967296"
  by (simp add: to_uint32_def)

lemma to_int32_id [simp]:
  assumes "- 2147483648 \<le> v" and "v < 2147483648"
  shows "to_int32 v = v"
proof (cases "0 \<le> v")
  case True
  with assms show ?thesis by (simp add: to_int32_def to_signed_def)
next
  case False
  have "v mod 4294967296 = (v + 4294967296) mod 4294967296" by simp
  also have "\<dots> = v + 4294967296" by (rule mod_pos_pos_trivial) (use assms False in auto)
  finally show ?thesis using assms False by (simp add: to_int32_def to_signed_def)
qed

section \<open>Decimal text\<close>

fun dec_digits :: "nat \<Rightarrow> jsstr" where
  "dec_digits n = (if n < 10 then [word_of_nat (48 + n)]
                   else dec_digits (n div 10) @ [word_of_nat (48 + n mod 10)])"

declare dec_digits.simps [simp del]

text \<open>\<^verbatim>\<open>n.toString()\<close> of a bigint, and of a safe integer number.\<close>

definition dec_string :: "int \<Rightarrow> jsstr" where
  "dec_string n = (if n < 0 then 45 # dec_digits (nat (- n)) else dec_digits (nat n))"

definition is_digit :: "16 word \<Rightarrow> bool" where
  "is_digit c \<longleftrightarrow> 48 \<le> c \<and> c \<le> 57"

definition dec_value :: "jsstr \<Rightarrow> int" where
  "dec_value ds = foldl (\<lambda>v c. 10 * v + (uint c - 48)) 0 ds"

lemma unat_digit: "n < 10 \<Longrightarrow> unat (48 + word_of_nat n :: 16 word) = 48 + n"
  using unat_of_nat [of "48 + n", where ?'a = 16] by simp

lemma uint_digit: "n < 10 \<Longrightarrow> uint (48 + word_of_nat n :: 16 word) = 48 + int n"
  using unat_digit [of n] by (metis of_nat_add of_nat_numeral uint_nat)

lemma digit_is_digit: "n < 10 \<Longrightarrow> is_digit (48 + word_of_nat n)"
  using unat_digit [of n] by (simp add: is_digit_def word_le_nat_alt)

lemma dec_digits_digits: "\<forall>c \<in> set (dec_digits n). is_digit c"
proof (induction n rule: dec_digits.induct)
  case (1 n)
  then show ?case
    using digit_is_digit [of n] digit_is_digit [of "n mod 10"] dec_digits.simps [of n]
    by (cases "n < 10") auto
qed

lemma dec_value_digits: "dec_value (dec_digits n) = int n"
proof (induction n rule: dec_digits.induct)
  case (1 n)
  have "10 * int (n div 10) + int (n mod 10) = int n"
    by (metis mult_div_mod_eq of_nat_add of_nat_mult of_nat_numeral)
  with 1 show ?case
    using uint_digit [of n] uint_digit [of "n mod 10"] dec_digits.simps [of n]
    by (cases "n < 10") (simp_all add: dec_value_def)
qed

lemma dec_digits_not_Nil: "dec_digits n \<noteq> []"
  by (cases "n < 10") (simp_all add: dec_digits.simps [of n])

lemma dec_digits_inject [simp]: "dec_digits m = dec_digits n \<longleftrightarrow> m = n"
  using dec_value_digits [of m] dec_value_digits [of n] by (metis of_nat_eq_iff)

text \<open>No leading zero, except in the number zero.\<close>

lemma dec_digits_hd: "0 < n \<Longrightarrow> hd (dec_digits n) \<noteq> 48"
proof (induction n rule: dec_digits.induct)
  case (1 n)
  show ?case
  proof (cases "n < 10")
    case True
    have "unat (48 + word_of_nat n :: 16 word) \<noteq> unat (48 :: 16 word)"
      using unat_digit [OF True] 1 by simp
    with True show ?thesis by (auto simp: dec_digits.simps [of n])
  next
    case False
    then have "hd (dec_digits (n div 10)) \<noteq> 48" using 1 by simp
    with False show ?thesis
      using dec_digits_not_Nil [of "n div 10"] by (simp add: dec_digits.simps [of n])
  qed
qed

lemma dec_string_inject [simp]: "dec_string m = dec_string n \<longleftrightarrow> m = n"
proof
  have minus: "\<not> is_digit 45" by (simp add: is_digit_def)
  have no: "45 # dec_digits a \<noteq> dec_digits b" for a b
    using dec_digits_digits [of b] minus by (metis list.set_intros(1))
  assume "dec_string m = dec_string n"
  then show "m = n"
    using no no [symmetric] by (auto simp: dec_string_def split: if_splits)
qed simp

section \<open>Whitespace\<close>

text \<open>The code units \<^verbatim>\<open>trim\<close> removes: white space and line terminators of ECMAScript.\<close>

definition js_space :: "16 word \<Rightarrow> bool" where
  "js_space c \<longleftrightarrow> 9 \<le> c \<and> c \<le> 13 \<or> c = 32 \<or> c = 0xA0 \<or> c = 0x1680 \<or> 0x2000 \<le> c \<and> c \<le> 0x200A
     \<or> c = 0x2028 \<or> c = 0x2029 \<or> c = 0x202F \<or> c = 0x205F \<or> c = 0x3000 \<or> c = 0xFEFF"

definition js_trim :: "jsstr \<Rightarrow> jsstr" where
  "js_trim s = rev (dropWhile js_space (rev (dropWhile js_space s)))"

lemma js_trim_id: "s \<noteq> [] \<Longrightarrow> \<not> js_space (hd s) \<Longrightarrow> \<not> js_space (last s) \<Longrightarrow> js_trim s = s"
proof -
  assume a: "s \<noteq> []" "\<not> js_space (hd s)" "\<not> js_space (last s)"
  have "dropWhile js_space s = s" using a by (cases s) auto
  moreover have "dropWhile js_space (rev s) = rev s" using a by (cases "rev s") (auto simp: last_rev hd_rev [symmetric])
  ultimately show ?thesis by (simp add: js_trim_def)
qed

lemma dropWhile_hd: "dropWhile P xs \<noteq> [] \<Longrightarrow> \<not> P (hd (dropWhile P xs))"
  by (rule hd_dropWhile)

lemma js_trim_trim [simp]: "js_trim (js_trim s) = js_trim s"
proof (cases "js_trim s = []")
  case True
  then show ?thesis by (simp only: True) (simp add: js_trim_def)
next
  case False
  let ?r = "dropWhile js_space s"
  have t: "js_trim s = rev (dropWhile js_space (rev ?r))" by (simp add: js_trim_def)
  have ne: "dropWhile js_space (rev ?r) \<noteq> []" using False t by auto
  then have r: "?r \<noteq> []" by (metis dropWhile.simps(1) rev.simps(1))
  have "\<not> js_space (last (js_trim s))"
    using hd_dropWhile [OF ne] by (simp add: t last_rev)
  moreover have "\<not> js_space (hd (js_trim s))"
  proof -
    have "rev ?r = takeWhile js_space (rev ?r) @ dropWhile js_space (rev ?r)" by simp
    then have "?r = rev (dropWhile js_space (rev ?r)) @ rev (takeWhile js_space (rev ?r))"
      by (metis rev_append rev_rev_ident)
    then have "hd ?r = hd (js_trim s)" using False t by (metis hd_append2)
    then show ?thesis using hd_dropWhile [OF r] by simp
  qed
  ultimately show ?thesis using False by (intro js_trim_id)
qed

section \<open>Hexadecimal\<close>

definition hex_digit :: "nat \<Rightarrow> 16 word" where
  "hex_digit n = (if n < 10 then word_of_nat (48 + n) else word_of_nat (87 + n))"

definition hex_value :: "16 word \<Rightarrow> nat option" where
  "hex_value c =
     (let n = unat c in
      if 48 \<le> n \<and> n \<le> 57 then Some (n - 48)
      else if 97 \<le> n \<and> n \<le> 102 then Some (n - 87)
      else if 65 \<le> n \<and> n \<le> 70 then Some (n - 55) else None)"

text \<open>\<^verbatim>\<open>buf.toString("hex")\<close> and \<^verbatim>\<open>Buffer.from(s, "hex")\<close>, which stops at the first pair that is not
  hexadecimal.\<close>

definition hex_of_byte :: "byte \<Rightarrow> jsstr" where
  "hex_of_byte b = [hex_digit (unat b div 16), hex_digit (unat b mod 16)]"

definition to_hex :: "buffer \<Rightarrow> jsstr" where
  "to_hex buf = concat (map hex_of_byte buf)"

fun from_hex :: "jsstr \<Rightarrow> buffer" where
  "from_hex (a # b # rest) =
     (case (hex_value a, hex_value b) of
        (Some h, Some l) \<Rightarrow> word_of_nat (16 * h + l) # from_hex rest
      | _ \<Rightarrow> [])"
| "from_hex _ = []"

definition hex_lower :: "16 word \<Rightarrow> 16 word" where
  "hex_lower c = (if 65 \<le> c \<and> c \<le> 90 then c + 32 else c)"

text \<open>\<^verbatim>\<open>/^[0-9a-f]{64}$/i\<close>\<close>

definition is_hex64 :: "jsstr \<Rightarrow> bool" where
  "is_hex64 s \<longleftrightarrow> length s = 64 \<and> list_all (\<lambda>c. hex_value c \<noteq> None) s"

definition normalizeHex32 :: "jsval \<Rightarrow> jsstr result" where
  "normalizeHex32 v =
     (case v of JString s \<Rightarrow>
        throwIf (\<not> is_hex64 s) (RangeError ''must be a 32-byte hex string'') (Inr (map hex_lower s))
      | _ \<Rightarrow> Inl (RangeError ''must be a 32-byte hex string''))"

lemma hex_digits_table:
  "list_all (\<lambda>n. hex_value (hex_digit n) = Some n \<and> hex_lower (hex_digit n) = hex_digit n) [0..<16]"
  by code_simp

lemma hex_value_digit: "n < 16 \<Longrightarrow> hex_value (hex_digit n) = Some n"
  using hex_digits_table by (simp del: upt_rec_numeral)

lemma hex_digit_lower: "n < 16 \<Longrightarrow> hex_lower (hex_digit n) = hex_digit n"
  using hex_digits_table by (simp del: upt_rec_numeral)

lemma unat_byte_bound: "unat (b :: byte) < 256"
  using unsigned_less [of b] by simp

lemma from_hex_to_hex [simp]: "from_hex (to_hex b) = b"
proof (induction b)
  case Nil
  show ?case by (simp add: to_hex_def)
next
  case (Cons x b)
  have "unat x div 16 < 16" "unat x mod 16 < 16"
    using unat_byte_bound [of x] by auto
  then show ?case
    using Cons by (simp add: to_hex_def hex_of_byte_def hex_value_digit)
qed

lemma to_hex_inject [simp]: "to_hex a = to_hex b \<longleftrightarrow> a = b"
  by (metis from_hex_to_hex)

lemma length_to_hex [simp]: "length (to_hex b) = 2 * length b"
  by (induction b) (simp_all add: to_hex_def hex_of_byte_def)

lemma to_hex_chars:
  assumes "c \<in> set (to_hex b)"
  shows "hex_value c \<noteq> None \<and> hex_lower c = c"
proof -
  from assms obtain x where "c = hex_digit (unat x div 16) \<or> c = hex_digit (unat (x :: byte) mod 16)"
    by (auto simp: to_hex_def hex_of_byte_def)
  moreover have "unat x div 16 < 16" "unat x mod 16 < 16"
    using unat_byte_bound [of x] by auto
  ultimately show ?thesis by (auto simp: hex_value_digit hex_digit_lower)
qed

lemma normalizeHex32_to_hex [simp]: "length b = 32 \<Longrightarrow> normalizeHex32 (JString (to_hex b)) = Inr (to_hex b)"
  using to_hex_chars by (auto simp: normalizeHex32_def is_hex64_def intro: map_idI)

lemma is_hex64_to_hex [simp]: "length b = 32 \<Longrightarrow> is_hex64 (to_hex b)"
  using to_hex_chars by (auto simp: is_hex64_def)

lemma length_from_hex:
  "even (length s) \<Longrightarrow> list_all (\<lambda>c. hex_value c \<noteq> None) s \<Longrightarrow> length (from_hex s) = length s div 2"
  by (induction s rule: from_hex.induct) auto

lemma length_from_hex64 [simp]: "is_hex64 s \<Longrightarrow> length (from_hex s) = 32"
  using length_from_hex [of s] by (simp add: is_hex64_def)

section \<open>Byte strings as sort keys\<close>

interpretation bytes: strict_comparator buffer_compare
proof
  fix a b c :: buffer
  show "buffer_compare b a < 0 \<longleftrightarrow> 0 < buffer_compare a b"
    using buffer_compare_antisym [of b a] by auto
  show "buffer_compare a b \<le> 0 \<Longrightarrow> buffer_compare b c \<le> 0 \<Longrightarrow> buffer_compare a c \<le> 0"
    using buffer_compare_trans [of a b c] by (cases "a = b"; cases "b = c") (auto simp: le_less)
  show "buffer_compare a b = 0 \<Longrightarrow> a = b" by simp
qed

end
