(* ===== verification/Sha256.thy ===== *)
theory Sha256
  imports Bytes
begin

text \<open>
  \<^verbatim>\<open>crypto.createHash("sha256")\<close> of the Node standard library (FIPS 180-4), which every component
  hashes with. \<^verbatim>\<open>update\<close> called several times hashes the concatenation of the parts, so
  \<open>sha256 (concat parts)\<close> models it. The locale \<open>hash32\<close> is what the clients rely on: a digest of
  32 bytes. Nothing in the development assumes collision resistance; where a theorem needs it, it
  says on which inputs the hash is injective.
\<close>

unbundle bit_operations_syntax

type_synonym w32 = "32 word"

definition rotr :: "nat \<Rightarrow> w32 \<Rightarrow> w32" where
  "rotr n x = drop_bit n x OR push_bit (32 - n) x"

definition sha_k :: "w32 list" where
  "sha_k = [
    1116352408, 1899447441, 3049323471, 3921009573, 961987163, 1508970993, 2453635748,
    2870763221, 3624381080, 310598401, 607225278, 1426881987, 1925078388, 2162078206,
    2614888103, 3248222580, 3835390401, 4022224774, 264347078, 604807628, 770255983,
    1249150122, 1555081692, 1996064986, 2554220882, 2821834349, 2952996808, 3210313671,
    3336571891, 3584528711, 113926993, 338241895, 666307205, 773529912, 1294757372,
    1396182291, 1695183700, 1986661051, 2177026350, 2456956037, 2730485921, 2820302411,
    3259730800, 3345764771, 3516065817, 3600352804, 4094571909, 275423344, 430227734,
    506948616, 659060556, 883997877, 958139571, 1322822218, 1537002063, 1747873779,
    1955562222, 2024104815, 2227730452, 2361852424, 2428436474, 2756734187, 3204031479,
    3329325298]"

record sha_state =
  sa :: w32
  sb :: w32
  sc :: w32
  sd :: w32
  se :: w32
  sf :: w32
  sg :: w32
  sh :: w32

definition sha_init :: sha_state where
  "sha_init = \<lparr>sa = 0x6a09e667, sb = 0xbb67ae85, sc = 0x3c6ef372, sd = 0xa54ff53a,
               se = 0x510e527f, sf = 0x9b05688c, sg = 0x1f83d9ab, sh = 0x5be0cd19\<rparr>"

definition sha_round :: "w32 \<Rightarrow> w32 \<Rightarrow> sha_state \<Rightarrow> sha_state" where
  "sha_round k w s =
     (let e = se s; a = sa s;
          t1 = sh s + (rotr 6 e XOR rotr 11 e XOR rotr 25 e)
                 + ((e AND sf s) XOR (NOT e AND sg s)) + k + w;
          t2 = (rotr 2 a XOR rotr 13 a XOR rotr 22 a)
                 + ((a AND sb s) XOR (a AND sc s) XOR (sb s AND sc s))
      in \<lparr>sa = t1 + t2, sb = a, sc = sb s, sd = sc s, se = sd s + t1, sf = e, sg = sf s, sh = sg s\<rparr>)"

text \<open>The message schedule is kept as the window of the next sixteen words.\<close>

definition next_window :: "w32 list \<Rightarrow> w32 list" where
  "next_window ws =
     (let x = ws ! 1; y = ws ! 14
      in tl ws @ [(rotr 17 y XOR rotr 19 y XOR drop_bit 10 y) + ws ! 9
                   + (rotr 7 x XOR rotr 18 x XOR drop_bit 3 x) + hd ws])"

fun sha_rounds :: "w32 list \<Rightarrow> w32 list \<Rightarrow> sha_state \<Rightarrow> sha_state" where
  "sha_rounds [] ws s = s"
| "sha_rounds (k # ks) ws s = sha_rounds ks (next_window ws) (sha_round k (hd ws) s)"

definition sha_add :: "sha_state \<Rightarrow> sha_state \<Rightarrow> sha_state" where
  "sha_add s t = \<lparr>sa = sa s + sa t, sb = sb s + sb t, sc = sc s + sc t, sd = sd s + sd t,
                  se = se s + se t, sf = sf s + sf t, sg = sg s + sg t, sh = sh s + sh t\<rparr>"

fun be_words :: "buffer \<Rightarrow> w32 list" where
  "be_words (a # b # c # d # bs) =
     (push_bit 24 (ucast a) + push_bit 16 (ucast b) + push_bit 8 (ucast c) + ucast d) # be_words bs"
| "be_words _ = []"

definition be_bytes4 :: "w32 \<Rightarrow> buffer" where
  "be_bytes4 w = [ucast (drop_bit 24 w), ucast (drop_bit 16 w), ucast (drop_bit 8 w), ucast w]"

definition sha_pad :: "buffer \<Rightarrow> buffer" where
  "sha_pad m = m @ [0x80] @ zeros ((119 - length m mod 64) mod 64) @ rev (le_bytes 8 (int (8 * length m)))"

function sha_blocks :: "buffer \<Rightarrow> sha_state \<Rightarrow> sha_state" where
  "sha_blocks bs s =
     (if bs = [] then s
      else sha_blocks (drop 64 bs) (sha_add s (sha_rounds sha_k (be_words (take 64 bs)) s)))"
  by pat_completeness auto
termination
  by (relation "measure (\<lambda>(bs, s). length bs)") auto

declare sha_blocks.simps [simp del]

definition sha256 :: "buffer \<Rightarrow> buffer" where
  "sha256 m = (let s = sha_blocks (sha_pad m) sha_init
     in concat (map be_bytes4 [sa s, sb s, sc s, sd s, se s, sf s, sg s, sh s]))"

lemma length_sha256 [simp]: "length (sha256 m) = 32"
  by (simp add: sha256_def Let_def be_bytes4_def)

text \<open>What the clients of the hash use.\<close>

locale hash32 =
  fixes H :: "buffer \<Rightarrow> buffer"
  assumes length_H: "length (H m) = 32"
begin

lemma H_neq_Nil: "H m \<noteq> []"
  using length_H [of m] by auto

text \<open>Two digests in a row hash two different preimages alike only if the digests agree.\<close>

lemma H_pair_inject: "H a @ H b = H c @ H d \<longleftrightarrow> H a = H c \<and> H b = H d"
  using length_H by (metis append_eq_append_conv)

end

interpretation sha: hash32 sha256
  by unfold_locales simp

end
