(* ===== verification/Conditions.thy ===== *)
theory Conditions
  imports Codec Js_Values Js_Sort Sha256
begin

text \<open>
  \<^verbatim>\<open>sdk/conditions.ts\<close>: the conditions format (formula code 7, format version 9). The artifact
  builder and parser (borsh, little-endian), the canonical order of legs and the slip hash, the
  replay that scores every entrant from the committed facts and ranks them, the structural
  validation and the attestation digests. A \<^verbatim>\<open>number\<close> field is an integer.
\<close>

section \<open>Constants and types\<close>

definition FORMAT_VERSION_CONDITIONS :: int where "FORMAT_VERSION_CONDITIONS = 9"

definition FORMULA_CODE_CONDITIONS :: int where "FORMULA_CODE_CONDITIONS = 7"

definition MAGIC :: buffer where "MAGIC = [0x57, 0x33, 0x4F, 0x31]"

definition ODDS_SCALE :: int where "ODDS_SCALE = 1000"

definition FIXED_SCALE :: int where "FIXED_SCALE = 10000"

definition MAX_LEGS :: nat where "MAX_LEGS = 8"

definition MIN_ODDS_MILLI :: int where "MIN_ODDS_MILLI = 1001"

definition MAX_ODDS_MILLI :: int where "MAX_ODDS_MILLI = 1000000"

definition WINNERS_MODE_ALL_HIT_PRORATA :: int where "WINNERS_MODE_ALL_HIT_PRORATA = 0"

definition U128_MAX :: int where "U128_MAX = 2 ^ 128 - 1"

definition U64_MAX :: int where "U64_MAX = 2 ^ 64 - 1"

definition TERM_SINGLE :: int where "TERM_SINGLE = 0"

definition TERM_BINARY :: int where "TERM_BINARY = 1"

definition OP_NONE :: int where "OP_NONE = 0"

definition OP_ADD :: int where "OP_ADD = 1"

definition OP_SUBTRACT :: int where "OP_SUBTRACT = 2"

definition CMP_GT :: int where "CMP_GT = 0"

definition CMP_LT :: int where "CMP_LT = 1"

definition CMP_EQ :: int where "CMP_EQ = 2"

definition NO_LINE :: int where "NO_LINE = -2147483648"

lemmas tag_defs = TERM_SINGLE_def TERM_BINARY_def OP_NONE_def OP_ADD_def OP_SUBTRACT_def
  CMP_GT_def CMP_LT_def CMP_EQ_def NO_LINE_def

record leg_commit =
  termKind :: int
  statKeyA :: int
  statKeyB :: int
  legOp :: int
  comparison :: int
  threshold :: int
  lineX2 :: int
  oddsMilli :: int

record score_stat =
  statKey :: int
  statVal :: int

record conditions_fixture =
  fixtureId :: int
  eventStatRoot :: buffer
  fixtureStats :: "score_stat list"

record conditions_entrant =
  e_wallet :: buffer
  e_tier :: int
  e_enteredAt :: int
  e_legs :: "leg_commit list"
  e_fixtureIndex :: "int list"

record conditions_artifact =
  formatVersion :: int
  formulaCode :: int
  winnersMode :: int
  fixtures :: "conditions_fixture list"
  entrants :: "conditions_entrant list"

datatype leg_result = Hit | Miss | Void | Pending

record slip_score =
  settled :: bool
  allHit :: bool
  voidCount :: int
  scoreFixed :: int

record ranked_entrant =
  r_wallet :: buffer
  r_enteredAt :: int
  r_scoreFixed :: int
  r_allHit :: bool
  r_voidCount :: int
  r_settled :: bool

section \<open>Writers\<close>

definition u16 :: "int \<Rightarrow> buffer result" where
  "u16 v = write_uint 2 (to_uint32 v)"

definition u32 :: "int \<Rightarrow> buffer result" where
  "u32 v = write_uint 4 (to_uint32 v)"

definition i32 :: "int \<Rightarrow> buffer result" where
  "i32 v = Inr (le_bytes 4 (to_int32 v))"

definition fixed32 :: "buffer \<Rightarrow> buffer result" where
  "fixed32 b = throwIf (length b \<noteq> 32) (Error ''expected 32 bytes'') (Inr b)"

definition vec :: "('a \<Rightarrow> buffer result) \<Rightarrow> 'a list \<Rightarrow> buffer result" where
  "vec enc items = concatE (u32 (int (length items)) # map enc items)"

definition encodeLeg :: "leg_commit \<Rightarrow> buffer result" where
  "encodeLeg l = concatE
     [Inr (byte_of (termKind l)), u32 (statKeyA l), u32 (statKeyB l),
      Inr (byte_of (legOp l)), Inr (byte_of (comparison l)),
      i32 (threshold l), i32 (lineX2 l), u64le (oddsMilli l)]"

definition encodeStat :: "score_stat \<Rightarrow> buffer result" where
  "encodeStat s = concatE [u32 (statKey s), i32 (statVal s)]"

definition encodeFixture :: "conditions_fixture \<Rightarrow> buffer result" where
  "encodeFixture f = concatE [u32 (fixtureId f), fixed32 (eventStatRoot f), vec encodeStat (fixtureStats f)]"

definition encodeEntrant :: "conditions_entrant \<Rightarrow> buffer result" where
  "encodeEntrant e = concatE
     [fixed32 (e_wallet e), u64le (e_tier e), i64le (e_enteredAt e),
      vec encodeLeg (e_legs e), vec u16 (e_fixtureIndex e)]"

section \<open>Canonical legs and the slip hash\<close>

definition compare_legs :: "leg_commit \<Rightarrow> leg_commit \<Rightarrow> int" where
  "compare_legs a b =
     or_else (statKeyA a - statKeyA b)
    (or_else (statKeyB a - statKeyB b)
    (or_else (legOp a - legOp b)
    (or_else (comparison a - comparison b)
    (or_else (threshold a - threshold b)
    (or_else (lineX2 a - lineX2 b) (oddsMilli a - oddsMilli b))))))"

definition sortLegs :: "leg_commit list \<Rightarrow> leg_commit list" where
  "sortLegs legs = js_sort compare_legs legs"

definition slip_preimage :: "buffer \<Rightarrow> int \<Rightarrow> leg_commit list \<Rightarrow> buffer result" where
  "slip_preimage wallet tier legs =
     concatE [fixed32 wallet, u64le tier, vec encodeLeg (sortLegs legs)]"

definition slipHash :: "buffer \<Rightarrow> int \<Rightarrow> leg_commit list \<Rightarrow> buffer result" where
  "slipHash wallet tier legs = bindE (slip_preimage wallet tier legs) (\<lambda>preimage. Inr (sha256 preimage))"

section \<open>Artifact build and parse\<close>

definition buildConditionsArtifact :: "conditions_fixture list \<Rightarrow> conditions_entrant list \<Rightarrow> buffer result" where
  "buildConditionsArtifact fs es = concatE
     [Inr MAGIC, u16 FORMAT_VERSION_CONDITIONS,
      Inr (byte_of FORMULA_CODE_CONDITIONS), Inr (byte_of WINNERS_MODE_ALL_HIT_PRORATA),
      vec encodeFixture fs, vec encodeEntrant es]"

text \<open>
  The class \<^verbatim>\<open>Reader\<close>: \<^verbatim>\<open>take\<close> clamps at the end of the buffer and still advances. A numeric read of
  a short slice throws; \<^verbatim>\<open>u8\<close> of an empty slice is \<^verbatim>\<open>undefined\<close> (\<open>None\<close>).
\<close>

definition takeU8 :: "int option reader" where
  "takeU8 = bindR (readBytesClamped 1) (\<lambda>b. retR (byte_at b 0))"

definition takeUint :: "nat \<Rightarrow> int reader" where
  "takeUint n = bindR (readBytesClamped n) (\<lambda>b. liftR (runR (read_uint n) b 0))"

definition takeU16 :: "int reader" where "takeU16 = takeUint 2"

definition takeU32 :: "int reader" where "takeU32 = takeUint 4"

definition takeU64 :: "int reader" where "takeU64 = takeUint 8"

definition takeI32 :: "int reader" where
  "takeI32 = bindR (takeUint 4) (\<lambda>u. retR (to_signed 4 u))"

definition takeI64 :: "int reader" where
  "takeI64 = bindR (takeUint 8) (\<lambda>u. retR (to_signed 8 u))"

definition vecR :: "'a reader \<Rightarrow> 'a list reader" where
  "vecR dec = bindR takeU32 (\<lambda>n. repeatR (nat n) dec)"

text \<open>A tag byte that is \<^verbatim>\<open>undefined\<close> is followed by a \<^verbatim>\<open>u32\<close> or \<^verbatim>\<open>i32\<close> read, which then throws, so
  the value \<open>0\<close> given to it here is never part of a result.\<close>

definition tag_of :: "int option \<Rightarrow> int" where
  "tag_of b = (case b of None \<Rightarrow> 0 | Some v \<Rightarrow> v)"

definition statR :: "score_stat reader" where
  "statR = bindR takeU32 (\<lambda>key. bindR takeI32 (\<lambda>value. retR \<lparr>statKey = key, statVal = value\<rparr>))"

definition fixtureR :: "conditions_fixture reader" where
  "fixtureR =
     bindR takeU32 (\<lambda>fid. bindR (readBytesClamped 32) (\<lambda>root. bindR (vecR statR) (\<lambda>stats.
     retR \<lparr>fixtureId = fid, eventStatRoot = root, fixtureStats = stats\<rparr>)))"

definition legR :: "leg_commit reader" where
  "legR =
     bindR takeU8 (\<lambda>kind. bindR takeU32 (\<lambda>a. bindR takeU32 (\<lambda>b.
     bindR takeU8 (\<lambda>op. bindR takeU8 (\<lambda>cmp. bindR takeI32 (\<lambda>thr. bindR takeI32 (\<lambda>line.
     bindR takeU64 (\<lambda>odds.
     retR \<lparr>termKind = tag_of kind, statKeyA = a, statKeyB = b, legOp = tag_of op,
           comparison = tag_of cmp, threshold = thr, lineX2 = line,
           oddsMilli = bigint_to_number odds\<rparr>))))))))"

definition entrantR :: "conditions_entrant reader" where
  "entrantR =
     bindR (readBytesClamped 32) (\<lambda>wallet. bindR takeU64 (\<lambda>tier. bindR takeI64 (\<lambda>at.
     bindR (vecR legR) (\<lambda>legs. bindR (vecR takeU16) (\<lambda>idx.
     retR \<lparr>e_wallet = wallet, e_tier = tier, e_enteredAt = at, e_legs = legs, e_fixtureIndex = idx\<rparr>)))))"

definition conditionsR :: "conditions_artifact reader" where
  "conditionsR =
     bindR (readBytesClamped 4) (\<lambda>magic.
     throwIfR (magic \<noteq> MAGIC) (Error ''conditions artifact: bad magic'')
    (bindR takeU16 (\<lambda>version. bindR takeU8 (\<lambda>formula. bindR takeU8 (\<lambda>mode.
     throwIfR (version \<noteq> FORMAT_VERSION_CONDITIONS \<or> formula \<noteq> Some FORMULA_CODE_CONDITIONS)
       (Error ''conditions artifact: unexpected format/formula'')
    (bindR (vecR fixtureR) (\<lambda>fs. bindR (vecR entrantR) (\<lambda>es.
     retR \<lparr>formatVersion = version, formulaCode = tag_of formula, winnersMode = tag_of mode,
           fixtures = fs, entrants = es\<rparr>))))))))"

definition parseConditionsArtifact :: "buffer \<Rightarrow> conditions_artifact result" where
  "parseConditionsArtifact bytes = runR conditionsR bytes 0"

section \<open>Deterministic scoring\<close>

definition statValue :: "score_stat list \<Rightarrow> int \<Rightarrow> int option" where
  "statValue facts key = map_option statVal (find (\<lambda>x. statKey x = key) facts)"

text \<open>The value a leg reads: \<open>Inl\<close> is an early return.\<close>

definition legValue :: "leg_commit \<Rightarrow> score_stat list \<Rightarrow> leg_result + int" where
  "legValue leg facts =
     (if termKind leg = TERM_SINGLE then
        (case statValue facts (statKeyA leg) of None \<Rightarrow> Inl Pending | Some v \<Rightarrow> Inr v)
      else
        (case (statValue facts (statKeyA leg), statValue facts (statKeyB leg)) of
           (Some a, Some b) \<Rightarrow>
             if legOp leg = OP_ADD then Inr (a + b)
             else if legOp leg = OP_SUBTRACT then Inr (a - b) else Inl Miss
         | _ \<Rightarrow> Inl Pending))"

definition evalLeg :: "leg_commit \<Rightarrow> score_stat list \<Rightarrow> leg_result" where
  "evalLeg leg facts =
     (case legValue leg facts of Inl r \<Rightarrow> r | Inr value \<Rightarrow>
      if lineX2 leg = NO_LINE then
        (if (if comparison leg = CMP_GT then value > threshold leg
             else if comparison leg = CMP_LT then value < threshold leg
             else if comparison leg = CMP_EQ then value = threshold leg else False)
         then Hit else Miss)
      else
        (let total2 = value * 2 in
         if lineX2 leg mod 2 = 0 \<and> total2 = lineX2 leg then Void
         else if (if comparison leg = CMP_GT then total2 > lineX2 leg
                  else if comparison leg = CMP_LT then total2 < lineX2 leg else False)
         then Hit else Miss))"

fun coefficient_loop :: "int list \<Rightarrow> int \<Rightarrow> int \<Rightarrow> (int \<times> int) option" where
  "coefficient_loop [] product denom = Some (product, denom)"
| "coefficient_loop (odds # rest) product denom =
     (if odds < MIN_ODDS_MILLI \<or> MAX_ODDS_MILLI < odds then None
      else coefficient_loop rest (product * odds) (denom * ODDS_SCALE))"

definition coefficientFixed :: "int list \<Rightarrow> int option" where
  "coefficientFixed odds =
     (if length odds > MAX_LEGS then None
      else case coefficient_loop odds 1 1 of None \<Rightarrow> None | Some (product, denom) \<Rightarrow>
        if product > U128_MAX then None
        else let numerator = product * FIXED_SCALE + denom div 2 in
          if numerator > U128_MAX then None
          else let res = numerator div denom in if res > U64_MAX then None else Some res)"

text \<open>One round of \<^verbatim>\<open>legs.forEach\<close> in \<^verbatim>\<open>scoreSlip\<close>; the state is (settled, allHit, voidCount, effective).\<close>

definition score_step ::
  "bool \<times> bool \<times> int \<times> int list \<Rightarrow> leg_commit \<times> score_stat list \<Rightarrow> bool \<times> bool \<times> int \<times> int list" where
  "score_step st lf =
     (case st of (sett, hit, voids, effective) \<Rightarrow>
      case evalLeg (fst lf) (snd lf) of
        Pending \<Rightarrow> (False, hit, voids, effective)
      | Void \<Rightarrow> (sett, hit, voids + 1, effective)
      | Hit \<Rightarrow> (sett, hit, voids, effective @ [oddsMilli (fst lf)])
      | Miss \<Rightarrow> (sett, False, voids, effective @ [oddsMilli (fst lf)]))"

text \<open>\<^verbatim>\<open>factsByLeg[i] ?? []\<close>\<close>

definition facts_of_legs :: "leg_commit list \<Rightarrow> score_stat list list \<Rightarrow> (leg_commit \<times> score_stat list) list" where
  "facts_of_legs legs factsByLeg =
     map (\<lambda>i. (legs ! i, if i < length factsByLeg then factsByLeg ! i else [])) [0..<length legs]"

definition scoreSlip :: "leg_commit list \<Rightarrow> score_stat list list \<Rightarrow> slip_score" where
  "scoreSlip legs factsByLeg =
     (case foldl score_step (True, True, 0, []) (facts_of_legs legs factsByLeg) of
        (sett, hit, voids, effective) \<Rightarrow>
        let settledAllHit = sett \<and> hit;
            score = (if settledAllHit
                     then (case coefficientFixed effective of None \<Rightarrow> 0 | Some s \<Rightarrow> s) else 0)
        in \<lparr>settled = sett, allHit = settledAllHit, voidCount = voids, scoreFixed = score\<rparr>)"

section \<open>Ranking and resolution\<close>

definition bool_number :: "bool \<Rightarrow> int" where
  "bool_number b = (if b then 1 else 0)"

definition compare_ranked :: "ranked_entrant \<Rightarrow> ranked_entrant \<Rightarrow> int" where
  "compare_ranked a b =
     or_else (bool_number (r_allHit b) - bool_number (r_allHit a))
    (or_else (cmp_int (r_scoreFixed b) (r_scoreFixed a))
    (or_else (cmp_int (r_enteredAt a) (r_enteredAt b))
             (buffer_compare (r_wallet a) (r_wallet b))))"

definition rankRound :: "ranked_entrant list \<Rightarrow> ranked_entrant list" where
  "rankRound es = js_sort compare_ranked es"

text \<open>\<^verbatim>\<open>a.fixtures[fi]?.stats ?? []\<close>\<close>

definition stats_at :: "conditions_fixture list \<Rightarrow> int \<Rightarrow> score_stat list" where
  "stats_at fs i = (if 0 \<le> i \<and> nat i < length fs then fixtureStats (fs ! nat i) else [])"

definition resolveEntrant :: "conditions_fixture list \<Rightarrow> conditions_entrant \<Rightarrow> ranked_entrant" where
  "resolveEntrant fs e =
     (let s = scoreSlip (e_legs e) (map (stats_at fs) (e_fixtureIndex e)) in
      \<lparr>r_wallet = e_wallet e, r_enteredAt = e_enteredAt e, r_scoreFixed = scoreFixed s,
       r_allHit = allHit s, r_voidCount = voidCount s, r_settled = settled s\<rparr>)"

definition resolveConditionsArtifact :: "conditions_artifact \<Rightarrow> ranked_entrant list" where
  "resolveConditionsArtifact a = rankRound (map (resolveEntrant (fixtures a)) (entrants a))"

section \<open>Structural validation\<close>

definition validateLeg :: "leg_commit \<Rightarrow> bool" where
  "validateLeg l =
     ((termKind l = TERM_SINGLE \<or> termKind l = TERM_BINARY) \<and>
      (legOp l = OP_NONE \<or> legOp l = OP_ADD \<or> legOp l = OP_SUBTRACT) \<and>
      (comparison l = CMP_GT \<or> comparison l = CMP_LT \<or> comparison l = CMP_EQ) \<and>
      (termKind l \<noteq> TERM_SINGLE \<or> (legOp l = OP_NONE \<and> statKeyB l = 0)) \<and>
      (termKind l \<noteq> TERM_BINARY \<or> legOp l \<noteq> OP_NONE) \<and>
      MIN_ODDS_MILLI \<le> oddsMilli l \<and> oddsMilli l \<le> MAX_ODDS_MILLI)"

definition validateEntrant :: "nat \<Rightarrow> conditions_entrant \<Rightarrow> bool" where
  "validateEntrant nfix e =
     (length (e_legs e) = length (e_fixtureIndex e) \<and>
      length (e_legs e) \<le> MAX_LEGS \<and>
      list_all (\<lambda>i. i < int nfix) (e_fixtureIndex e) \<and>
      list_all validateLeg (e_legs e) \<and>
      coefficientFixed (map oddsMilli (e_legs e)) \<noteq> None)"

definition validateConditionsArtifact :: "conditions_artifact \<Rightarrow> bool" where
  "validateConditionsArtifact a = list_all (validateEntrant (length (fixtures a))) (entrants a)"

section \<open>Attestation digests\<close>

definition winningScoreSum :: "ranked_entrant list \<Rightarrow> int" where
  "winningScoreSum ranked = foldl (\<lambda>s r. s + r_scoreFixed r) 0 (filter r_allHit ranked)"

text \<open>The bytes fed to the hash by the updates of \<^verbatim>\<open>winnersDigest\<close> and \<^verbatim>\<open>factsRefRoot\<close>.\<close>

definition winnersDigest :: "ranked_entrant list \<Rightarrow> buffer result" where
  "winnersDigest ranked =
     bindE (foldE (\<lambda>h r. if \<not> r_allHit r then Inr h
                         else bindE (fixed32 (r_wallet r)) (\<lambda>w.
                              bindE (u64le (r_scoreFixed r)) (\<lambda>s. Inr (h @ w @ s)))) [] ranked)
       (\<lambda>h. Inr (sha256 h))"

definition factsRefRoot :: "conditions_artifact \<Rightarrow> buffer result" where
  "factsRefRoot a =
     bindE (foldE (\<lambda>h f. bindE (fixed32 (eventStatRoot f)) (\<lambda>r. Inr (h @ r))) [] (fixtures a))
       (\<lambda>h. Inr (sha256 h))"

end
