(* ===== verification/Conditions_Codec.thy ===== *)
theory Conditions_Codec
  imports Conditions
begin

text \<open>
  The byte format of \<^verbatim>\<open>sdk/conditions.ts\<close>. Each record of the format is an instance of the \<open>codec\<close>
  contract on the values its fields can hold on the wire, the artifact is read back as it was built,
  and bytes after it are ignored.
\<close>

section \<open>Values that fit their fields\<close>

definition leg_fits :: "leg_commit \<Rightarrow> bool" where
  "leg_fits l \<longleftrightarrow>
     0 \<le> termKind l \<and> termKind l < 256 \<and> 0 \<le> statKeyA l \<and> statKeyA l < 4294967296 \<and>
     0 \<le> statKeyB l \<and> statKeyB l < 4294967296 \<and> 0 \<le> legOp l \<and> legOp l < 256 \<and>
     0 \<le> comparison l \<and> comparison l < 256 \<and>
     - 2147483648 \<le> threshold l \<and> threshold l < 2147483648 \<and>
     - 2147483648 \<le> lineX2 l \<and> lineX2 l < 2147483648 \<and> 0 \<le> oddsMilli l \<and> oddsMilli l \<le> 9007199254740992"

definition stat_fits :: "score_stat \<Rightarrow> bool" where
  "stat_fits s \<longleftrightarrow> 0 \<le> statKey s \<and> statKey s < 4294967296 \<and> - 2147483648 \<le> statVal s \<and> statVal s < 2147483648"

definition index_fits :: "int \<Rightarrow> bool" where
  "index_fits i \<longleftrightarrow> 0 \<le> i \<and> i < 65536"

definition list_fits :: "('a \<Rightarrow> bool) \<Rightarrow> 'a list \<Rightarrow> bool" where
  "list_fits P xs \<longleftrightarrow> length xs < 4294967296 \<and> list_all P xs"

definition fixture_fits :: "conditions_fixture \<Rightarrow> bool" where
  "fixture_fits f \<longleftrightarrow>
     0 \<le> fixtureId f \<and> fixtureId f < 4294967296 \<and> length (eventStatRoot f) = 32 \<and>
     list_fits stat_fits (fixtureStats f)"

definition entrant_fits :: "conditions_entrant \<Rightarrow> bool" where
  "entrant_fits e \<longleftrightarrow>
     length (e_wallet e) = 32 \<and> 0 \<le> e_tier e \<and> e_tier e < 18446744073709551616 \<and>
     - 9223372036854775808 \<le> e_enteredAt e \<and> e_enteredAt e < 9223372036854775808 \<and>
     list_fits leg_fits (e_legs e) \<and> list_fits index_fits (e_fixtureIndex e)"

section \<open>The reader class\<close>

lemma runs_takeUint [runs_intros]:
  assumes "0 \<le> v" and "v < 256 ^ n"
  shows "runs off (takeUint n) (le_bytes n v) v"
proof (rule runsI)
  fix buf :: buffer and s
  assume d: "drop off buf = le_bytes n v @ s" and le: "off \<le> length buf"
  have "subarray buf off (off + n) = le_bytes n v"
    using d by (simp add: subarray_def)
  then show "takeUint n buf off = Inr (v, off + length (le_bytes n v))"
    using assms
    by (simp add: takeUint_def bindR_def readBytesClamped_def liftR_def runR_def read_uint_def)
qed

lemma runs_takeU16 [runs_intros]: "0 \<le> v \<Longrightarrow> v < 65536 \<Longrightarrow> runs off takeU16 (le_bytes 2 v) v"
  using runs_takeUint [of v 2 off] by (simp add: takeU16_def)

lemma runs_takeU32 [runs_intros]: "0 \<le> v \<Longrightarrow> v < 4294967296 \<Longrightarrow> runs off takeU32 (le_bytes 4 v) v"
  using runs_takeUint [of v 4 off] by (simp add: takeU32_def)

lemma runs_takeU64 [runs_intros]:
  "0 \<le> v \<Longrightarrow> v < 18446744073709551616 \<Longrightarrow> runs off takeU64 (le_bytes 8 v) v"
  using runs_takeUint [of v 8 off] by (simp add: takeU64_def)

lemma to_signed_4_le_bytes:
  assumes "- 2147483648 \<le> v" and "v < 2147483648"
  shows "to_signed 4 (le_uint (le_bytes 4 v)) = v"
  using to_int32_id [OF assms] by (simp add: to_int32_def le_uint_le_bytes_mod)

lemma runs_signed:
  assumes "to_signed n (le_uint (le_bytes n v)) = v"
  shows "runs off (bindR (takeUint n) (\<lambda>u. retR (to_signed n u))) (le_bytes n v) v"
proof -
  let ?u = "le_uint (le_bytes n v)"
  have "runs off (takeUint n) (le_bytes n ?u) ?u"
    using le_uint_bound [of "le_bytes n v"] by (intro runs_takeUint) auto
  moreover have "le_bytes n ?u = le_bytes n v"
    using le_bytes_le_uint [of "le_bytes n v"] by simp
  ultimately have "runs off (takeUint n) (le_bytes n v) ?u" by simp
  then have "runs off (bindR (takeUint n) (\<lambda>u. retR (to_signed n u))) (le_bytes n v @ []) (to_signed n ?u)"
    by (rule runs_bindR) (rule runs_retR)
  with assms show ?thesis by simp
qed

lemma runs_takeI32 [runs_intros]:
  "- 2147483648 \<le> v \<Longrightarrow> v < 2147483648 \<Longrightarrow> runs off takeI32 (le_bytes 4 v) v"
  unfolding takeI32_def by (rule runs_signed) (rule to_signed_4_le_bytes)

lemma runs_takeI64 [runs_intros]:
  "- 9223372036854775808 \<le> v \<Longrightarrow> v < 9223372036854775808 \<Longrightarrow> runs off takeI64 (le_bytes 8 v) v"
  unfolding takeI64_def by (rule runs_signed) (simp add: to_signed_le_bytes)

lemma runs_takeU8 [runs_intros]:
  assumes "0 \<le> v" and "v < 256"
  shows "runs off takeU8 (byte_of v) (Some v)"
proof -
  have "runs off (readBytesClamped 1) (byte_of v) (byte_of v)"
    by (rule runs_readBytesClamped) simp
  then have "runs off takeU8 (byte_of v @ []) (byte_at (byte_of v) 0)"
    unfolding takeU8_def by (rule runs_bindR) (rule runs_retR)
  with assms show ?thesis by (simp add: byte_at_def byte_of_def uint_word_of_int)
qed

lemma u16_ok [simp]: "0 \<le> v \<Longrightarrow> v < 65536 \<Longrightarrow> u16 v = Inr (le_bytes 2 v)"
  by (simp add: u16_def)

lemma u32_ok [simp]: "0 \<le> v \<Longrightarrow> v < 4294967296 \<Longrightarrow> u32 v = Inr (le_bytes 4 v)"
  by (simp add: u32_def)

lemma i32_ok [simp]: "- 2147483648 \<le> v \<Longrightarrow> v < 2147483648 \<Longrightarrow> i32 v = Inr (le_bytes 4 v)"
  by (simp add: i32_def)

lemma fixed32_ok [simp]: "length b = 32 \<Longrightarrow> fixed32 b = Inr b"
  by (simp add: fixed32_def)

section \<open>A counted list of records\<close>

context codec begin

lemma vec_encodes:
  assumes "list_fits valid xs"
  shows "encodes (vec enc) (vecR dec) xs"
proof -
  have l: "length xs < 4294967296" and v: "\<forall>x \<in> set xs. valid x"
    using assms by (auto simp: list_fits_def)
  obtain bs where bs: "concatE (map enc xs) = Inr bs" and run: "\<And>off. runs off (repeatR (length xs) dec) bs xs"
    using list_encodes [OF v refl] unfolding encodes_def by blast
  have "runs off (vecR dec) (le_bytes 4 (int (length xs)) @ bs) xs" for off
    unfolding vecR_def by (rule runs_intros | (use l run in \<open>simp; fail\<close>))+
  then show ?thesis
    by (intro encodesI [where b = "le_bytes 4 (int (length xs)) @ bs"]) (use l bs in \<open>simp_all add: vec_def\<close>)
qed

end

section \<open>The records of the format\<close>

interpretation stat: codec encodeStat statR stat_fits
proof
  fix s
  assume "stat_fits s"
  then show "encodes encodeStat statR s"
    by (intro encodesI [where b = "le_bytes 4 (statKey s) @ le_bytes 4 (statVal s) @ []"])
       (simp add: encodeStat_def stat_fits_def,
        unfold statR_def, (rule runs_retR_eq runs_intros | (simp add: stat_fits_def; fail))+)
qed

interpretation index: codec u16 takeU16 index_fits
proof
  fix i
  assume "index_fits i"
  then show "encodes u16 takeU16 i"
    by (intro encodesI [where b = "le_bytes 2 i"] runs_takeU16) (simp_all add: index_fits_def)
qed

interpretation leg: codec encodeLeg legR leg_fits
proof
  fix l
  assume l: "leg_fits l"
  show "encodes encodeLeg legR l"
  proof (rule encodesI)
    show "encodeLeg l = Inr (byte_of (termKind l) @ le_bytes 4 (statKeyA l) @ le_bytes 4 (statKeyB l)
        @ byte_of (legOp l) @ byte_of (comparison l) @ le_bytes 4 (threshold l) @ le_bytes 4 (lineX2 l)
        @ le_bytes 8 (oddsMilli l) @ [])"
      using l by (simp add: encodeLeg_def leg_fits_def)
    show "runs off legR (byte_of (termKind l) @ le_bytes 4 (statKeyA l) @ le_bytes 4 (statKeyB l)
        @ byte_of (legOp l) @ byte_of (comparison l) @ le_bytes 4 (threshold l) @ le_bytes 4 (lineX2 l)
        @ le_bytes 8 (oddsMilli l) @ []) l" for off
      unfolding legR_def
      by (rule runs_retR_eq runs_intros | (use l in \<open>simp add: leg_fits_def tag_of_def; fail\<close>))+
  qed
qed

interpretation fixture: codec encodeFixture fixtureR fixture_fits
proof
  fix f
  assume f: "fixture_fits f"
  then obtain bs where bs: "vec encodeStat (fixtureStats f) = Inr bs"
    and run: "\<And>off. runs off (vecR statR) bs (fixtureStats f)"
    using stat.vec_encodes [of "fixtureStats f"] unfolding encodes_def fixture_fits_def by blast
  show "encodes encodeFixture fixtureR f"
  proof (rule encodesI)
    show "encodeFixture f = Inr (le_bytes 4 (fixtureId f) @ eventStatRoot f @ bs @ [])"
      using f bs by (simp add: encodeFixture_def fixture_fits_def)
    show "runs off fixtureR (le_bytes 4 (fixtureId f) @ eventStatRoot f @ bs @ []) f" for off
      unfolding fixtureR_def
      by (rule run runs_retR_eq runs_intros | (use f in \<open>simp add: fixture_fits_def; fail\<close>))+
  qed
qed

interpretation entrant: codec encodeEntrant entrantR entrant_fits
proof
  fix e
  assume e: "entrant_fits e"
  then obtain ls where ls: "vec encodeLeg (e_legs e) = Inr ls"
    and run1: "\<And>off. runs off (vecR legR) ls (e_legs e)"
    using leg.vec_encodes [of "e_legs e"] unfolding encodes_def entrant_fits_def by blast
  from e obtain ix where ix: "vec u16 (e_fixtureIndex e) = Inr ix"
    and run2: "\<And>off. runs off (vecR takeU16) ix (e_fixtureIndex e)"
    using index.vec_encodes [of "e_fixtureIndex e"] unfolding encodes_def entrant_fits_def by blast
  show "encodes encodeEntrant entrantR e"
  proof (rule encodesI)
    show "encodeEntrant e = Inr (e_wallet e @ le_bytes 8 (e_tier e) @ le_bytes 8 (e_enteredAt e) @ ls @ ix @ [])"
      using e ls ix by (simp add: encodeEntrant_def entrant_fits_def)
    show "runs off entrantR (e_wallet e @ le_bytes 8 (e_tier e) @ le_bytes 8 (e_enteredAt e) @ ls @ ix @ []) e" for off
      unfolding entrantR_def
      by (rule run1 run2 runs_retR_eq runs_intros | (use e in \<open>simp add: entrant_fits_def; fail\<close>))+
  qed
qed

section \<open>The artifact\<close>

definition built_artifact :: "conditions_fixture list \<Rightarrow> conditions_entrant list \<Rightarrow> conditions_artifact" where
  "built_artifact fs es =
     \<lparr>formatVersion = FORMAT_VERSION_CONDITIONS, formulaCode = FORMULA_CODE_CONDITIONS,
      winnersMode = WINNERS_MODE_ALL_HIT_PRORATA, fixtures = fs, entrants = es\<rparr>"

lemma conditions_build_parse:
  assumes "list_fits fixture_fits fs" and "list_fits entrant_fits es"
  shows "\<exists>bytes. buildConditionsArtifact fs es = Inr bytes
    \<and> (\<forall>rest. parseConditionsArtifact (bytes @ rest) = Inr (built_artifact fs es))"
proof -
  obtain fb where fb: "vec encodeFixture fs = Inr fb" and run1: "\<And>off. runs off (vecR fixtureR) fb fs"
    using fixture.vec_encodes [OF assms(1)] unfolding encodes_def by blast
  obtain eb where eb: "vec encodeEntrant es = Inr eb" and run2: "\<And>off. runs off (vecR entrantR) eb es"
    using entrant.vec_encodes [OF assms(2)] unfolding encodes_def by blast
  let ?bytes = "MAGIC @ le_bytes 2 9 @ byte_of 7 @ byte_of 0 @ fb @ eb @ []"
  have "buildConditionsArtifact fs es = Inr ?bytes"
    using fb eb by (simp add: buildConditionsArtifact_def FORMAT_VERSION_CONDITIONS_def
      FORMULA_CODE_CONDITIONS_def WINNERS_MODE_ALL_HIT_PRORATA_def)
  moreover have "runs 0 conditionsR ?bytes (built_artifact fs es)"
    unfolding conditionsR_def
    by (rule run1 run2 runs_retR_eq runs_intros
        | (simp add: MAGIC_def FORMAT_VERSION_CONDITIONS_def FORMULA_CODE_CONDITIONS_def built_artifact_def
             WINNERS_MODE_ALL_HIT_PRORATA_def tag_of_def; fail))+
  then have "parseConditionsArtifact (?bytes @ rest) = Inr (built_artifact fs es)" for rest
    using runsD [of 0 conditionsR ?bytes _ "?bytes @ rest" rest]
    by (simp add: parseConditionsArtifact_def runR_def)
  ultimately show ?thesis by blast
qed

text \<open>Fixtures and entrants whose fields fit the wire format are built without an error, and the
  parser returns exactly them, whatever bytes follow the artifact.\<close>

theorem conditions_artifact_roundtrip:
  assumes "list_fits fixture_fits fs" and "list_fits entrant_fits es"
  shows "\<exists>bytes. buildConditionsArtifact fs es = Inr bytes
    \<and> (\<forall>rest. parseConditionsArtifact (bytes @ rest) = Inr (built_artifact fs es))"
  using assms by (rule conditions_build_parse)

definition sample_leg :: leg_commit where
  "sample_leg = \<lparr>termKind = 1, statKeyA = 1, statKeyB = 2, legOp = 1, comparison = 0, threshold = 0,
     lineX2 = 5, oddsMilli = 1900\<rparr>"

definition sample_fixture :: conditions_fixture where
  "sample_fixture = \<lparr>fixtureId = 7, eventStatRoot = replicate 32 5,
     fixtureStats = [\<lparr>statKey = 1, statVal = 2\<rparr>, \<lparr>statKey = 2, statVal = 1\<rparr>]\<rparr>"

definition sample_entrant :: conditions_entrant where
  "sample_entrant = \<lparr>e_wallet = replicate 32 9, e_tier = 100, e_enteredAt = -1, e_legs = [sample_leg],
     e_fixtureIndex = [0]\<rparr>"

lemmas sample_conditions = sample_leg_def sample_fixture_def sample_entrant_def

lemma sample_conditions_fits:
  "list_fits fixture_fits [sample_fixture]" "list_fits entrant_fits [sample_entrant]"
  by (simp_all add: list_fits_def fixture_fits_def entrant_fits_def stat_fits_def leg_fits_def index_fits_def
      sample_conditions)

lemma conditions_artifact_roundtrip_witness:
  "\<exists>bytes. buildConditionsArtifact [sample_fixture] [sample_entrant] = Inr bytes
    \<and> parseConditionsArtifact (bytes @ [1, 2, 3]) = Inr (built_artifact [sample_fixture] [sample_entrant])"
  using conditions_artifact_roundtrip [OF sample_conditions_fits] by blast

end
