(* ===== verification/Conditions_Score.thy ===== *)
theory Conditions_Score
  imports Conditions_Codec
begin

text \<open>
  What the scoring of \<^verbatim>\<open>sdk/conditions.ts\<close> promises: over and under legs complement each other and
  push together, the coefficient is the product of the odds rounded half up, a validated artifact
  never scores an all-hit slip at the overflow fallback, the ranking and the slip hash depend on the
  set of entries only.
\<close>

section \<open>Legs\<close>

text \<open>On one line and one reading of the facts, an over leg and an under leg are both pending, both
  refunded, or exactly one of them hits; on a half line (odd \<^verbatim>\<open>lineX2\<close>) they are never refunded.\<close>

theorem over_under_complementary:
  assumes line: "lineX2 leg \<noteq> NO_LINE"
    and op: "termKind leg = TERM_SINGLE \<or> legOp leg = OP_ADD \<or> legOp leg = OP_SUBTRACT"
  shows "(evalLeg (leg\<lparr>comparison := CMP_GT\<rparr>) facts, evalLeg (leg\<lparr>comparison := CMP_LT\<rparr>) facts)
      \<in> {(Pending, Pending), (Void, Void), (Hit, Miss), (Miss, Hit)}
    \<and> (odd (lineX2 leg) \<longrightarrow> evalLeg (leg\<lparr>comparison := CMP_GT\<rparr>) facts \<noteq> Void)"
proof -
  have reading: "legValue (leg\<lparr>comparison := c\<rparr>) facts = legValue leg facts" for c
    by (simp add: legValue_def split: option.splits)
  show ?thesis
  proof (cases "legValue leg facts")
    case (Inl r)
    with op have "r = Pending" by (auto simp: legValue_def tag_defs split: option.splits if_splits)
    with Inl show ?thesis by (simp add: evalLeg_def reading)
  next
    case (Inr v)
    have over: "evalLeg (leg\<lparr>comparison := CMP_GT\<rparr>) facts =
        (if lineX2 leg mod 2 = 0 \<and> v * 2 = lineX2 leg then Void else if v * 2 > lineX2 leg then Hit else Miss)"
      using line Inr by (simp add: evalLeg_def reading Let_def)
    have under: "evalLeg (leg\<lparr>comparison := CMP_LT\<rparr>) facts =
        (if lineX2 leg mod 2 = 0 \<and> v * 2 = lineX2 leg then Void else if v * 2 < lineX2 leg then Hit else Miss)"
      using line Inr by (simp add: evalLeg_def reading Let_def tag_defs)
    have "v * 2 = lineX2 leg \<Longrightarrow> lineX2 leg mod 2 = 0" by (metis mod_mult_self2_is_0)
    then show ?thesis
      unfolding over under by (auto simp: even_iff_mod_2_eq_zero)
  qed
qed

lemma over_under_complementary_witness:
  "evalLeg sample_leg (fixtureStats sample_fixture) = Hit
    \<and> evalLeg (sample_leg\<lparr>comparison := CMP_LT\<rparr>) (fixtureStats sample_fixture) = Miss"
  using over_under_complementary [of sample_leg "fixtureStats sample_fixture"]
  by (simp add: sample_conditions tag_defs evalLeg_def legValue_def statValue_def)

section \<open>The coefficient\<close>

definition odds_ok :: "int list \<Rightarrow> bool" where
  "odds_ok odds \<longleftrightarrow> (\<forall>o' \<in> set odds. MIN_ODDS_MILLI \<le> o' \<and> o' \<le> MAX_ODDS_MILLI)"

definition odds_numerator :: "int list \<Rightarrow> int" where
  "odds_numerator odds = prod_list odds * FIXED_SCALE + ODDS_SCALE ^ length odds div 2"

definition odds_score :: "int list \<Rightarrow> int" where
  "odds_score odds = odds_numerator odds div ODDS_SCALE ^ length odds"

lemma coefficient_loop_iff:
  "coefficient_loop odds p d =
    (if odds_ok odds then Some (p * prod_list odds, d * ODDS_SCALE ^ length odds) else None)"
  by (induction odds arbitrary: p d) (auto simp: odds_ok_def algebra_simps)

lemma prod_odds_pos: "odds_ok odds \<Longrightarrow> 1 \<le> prod_list odds"
proof (induction odds)
  case Nil
  show ?case by simp
next
  case (Cons o' os)
  then have "1 \<le> o'" "1 \<le> prod_list os" by (auto simp: odds_ok_def MIN_ODDS_MILLI_def)
  then show ?case using mult_mono [of 1 o' 1 "prod_list os"] by simp
qed

lemma coefficientFixed_Some_iff:
  "coefficientFixed odds = Some s \<longleftrightarrow>
    length odds \<le> MAX_LEGS \<and> odds_ok odds \<and> odds_numerator odds \<le> U128_MAX
    \<and> odds_score odds \<le> U64_MAX \<and> s = odds_score odds"
proof -
  have "odds_ok odds \<Longrightarrow> prod_list odds \<le> odds_numerator odds"
    using prod_odds_pos [of odds]
    by (simp add: odds_numerator_def FIXED_SCALE_def ODDS_SCALE_def)
  then show ?thesis
    by (auto simp: coefficientFixed_def coefficient_loop_iff odds_numerator_def odds_score_def Let_def)
qed

lemma odds_score_drop_one:
  assumes "odds_ok (o' # os)"
  shows "odds_numerator os \<le> odds_numerator (o' # os)" and "odds_score os \<le> odds_score (o' # os)"
proof -
  define D where "D = ODDS_SCALE ^ length os"
  define P where "P = prod_list os"
  have D: "0 < D" by (simp add: D_def ODDS_SCALE_def)
  have P: "1 \<le> P" using assms prod_odds_pos [of os] by (simp add: P_def odds_ok_def)
  have o': "1000 \<le> o'" using assms by (auto simp: odds_ok_def MIN_ODDS_MILLI_def)
  have half: "1000 * (D div 2) \<le> 1000 * D div 2" by simp
  have "1000 * P \<le> o' * P" using o' P by (intro mult_right_mono) auto
  then have le: "1000 * (P * 10000 + D div 2) \<le> o' * P * 10000 + 1000 * D div 2"
    using half by (simp add: algebra_simps)
  have num: "odds_numerator os = P * 10000 + D div 2"
      "odds_numerator (o' # os) = o' * P * 10000 + 1000 * D div 2"
    by (simp_all add: odds_numerator_def P_def D_def FIXED_SCALE_def ODDS_SCALE_def mult.commute)
  have nonneg: "0 \<le> P * 10000 + D div 2"
    using P D by (intro add_nonneg_nonneg) (simp_all add: pos_imp_zdiv_nonneg_iff)
  then show "odds_numerator os \<le> odds_numerator (o' # os)" using le num by simp
  have "(P * 10000 + D div 2) div D = 1000 * (P * 10000 + D div 2) div (1000 * D)"
    by (rule div_mult_mult1 [symmetric]) simp
  also have "\<dots> \<le> (o' * P * 10000 + 1000 * D div 2) div (1000 * D)"
    using le D by (intro zdiv_mono1) auto
  finally show "odds_score os \<le> odds_score (o' # os)"
    using num by (simp add: odds_score_def D_def ODDS_SCALE_def mult.commute)
qed

lemma odds_perm:
  assumes "odds_ok (xs @ o' # ys)"
  shows "odds_numerator (xs @ ys) \<le> odds_numerator (xs @ o' # ys) \<and> odds_score (xs @ ys) \<le> odds_score (xs @ o' # ys)"
proof -
  have "odds_ok (o' # xs @ ys)" using assms by (auto simp: odds_ok_def)
  from odds_score_drop_one [OF this] show ?thesis
    by (simp add: odds_numerator_def odds_score_def algebra_simps)
qed

lemma odds_subseq:
  assumes "subseq os odds" and ok: "odds_ok odds"
  shows "odds_numerator os \<le> odds_numerator odds \<and> odds_score os \<le> odds_score odds \<and> odds_ok os"
proof -
  have "odds_ok (pre @ odds) \<Longrightarrow> odds_numerator (pre @ os) \<le> odds_numerator (pre @ odds)
      \<and> odds_score (pre @ os) \<le> odds_score (pre @ odds) \<and> odds_ok (pre @ os)" for pre
    using assms(1)
  proof (induction arbitrary: pre rule: list_emb.induct)
    case (list_emb_Nil ys)
    show ?case
      using list_emb_Nil
    proof (induction ys arbitrary: pre)
      case Nil
      then show ?case by simp
    next
      case (Cons y ys)
      have "odds_ok (pre @ ys)" using Cons.prems by (auto simp: odds_ok_def)
      from Cons.IH [OF this] odds_perm [OF Cons.prems] show ?case by linarith
    qed
  next
    case (list_emb_Cons xs ys y)
    have "odds_ok (pre @ ys)" using list_emb_Cons.prems by (auto simp: odds_ok_def)
    from list_emb_Cons.IH [OF this] odds_perm [OF list_emb_Cons.prems] show ?case by linarith
  next
    case (list_emb_Cons2 x y xs ys)
    from list_emb_Cons2.IH [of "pre @ [x]"] list_emb_Cons2 show ?case by simp
  qed
  from this [of "[]"] ok show ?thesis by simp
qed

text \<open>The coefficient of a slip of at most eight legs with odds in the band is the product of the odds,
  rounded half up to a ten-thousandth, and is given exactly when the intermediate value fits in 128
  bits and the result in 64.\<close>

theorem coefficient_rounds_product:
  assumes "length odds \<le> MAX_LEGS" and "\<forall>x \<in> set odds. MIN_ODDS_MILLI \<le> x \<and> x \<le> MAX_ODDS_MILLI"
    and "prod_list odds * FIXED_SCALE + ODDS_SCALE ^ length odds div 2 \<le> U128_MAX"
    and "2 * prod_list odds * FIXED_SCALE + ODDS_SCALE ^ length odds < 2 * ODDS_SCALE ^ length odds * (U64_MAX + 1)"
  shows "\<exists>s. coefficientFixed odds = Some s \<and> 0 < s
    \<and> 2 * s * ODDS_SCALE ^ length odds \<le> 2 * prod_list odds * FIXED_SCALE + ODDS_SCALE ^ length odds
    \<and> 2 * prod_list odds * FIXED_SCALE - ODDS_SCALE ^ length odds < 2 * s * ODDS_SCALE ^ length odds"
proof -
  define D where "D = ODDS_SCALE ^ length odds"
  define N where "N = prod_list odds * FIXED_SCALE"
  define s where "s = odds_score odds"
  have ok: "odds_ok odds" using assms(2) by (simp add: odds_ok_def)
  have D: "0 < D" by (simp add: D_def ODDS_SCALE_def)
  have s: "s = (N + D div 2) div D" by (simp add: s_def odds_score_def odds_numerator_def N_def D_def)
  have "s * D + (N + D div 2) mod D = N + D div 2"
    unfolding s by (subst mult.commute) (rule mult_div_mod_eq)
  moreover have "0 \<le> (N + D div 2) mod D" "(N + D div 2) mod D < D"
    using D by simp_all
  moreover have "2 * (D div 2) \<le> D" "D \<le> 2 * (D div 2) + 1" by linarith+
  ultimately have bounds: "2 * (s * D) \<le> 2 * N + D" "2 * N - D < 2 * (s * D)" by linarith+
  have "2 * (s * D) < 2 * ((U64_MAX + 1) * D)"
    using bounds(1) assms(4) by (simp add: N_def D_def algebra_simps)
  then have "s < U64_MAX + 1" using D by simp
  moreover have "odds_score [] \<le> s"
    using odds_subseq [of "[]" odds] ok by (simp add: s_def)
  then have "0 < s" by (simp add: odds_score_def odds_numerator_def FIXED_SCALE_def ODDS_SCALE_def)
  moreover have "coefficientFixed odds = Some s"
    using assms ok \<open>s < U64_MAX + 1\<close> by (simp add: coefficientFixed_Some_iff odds_numerator_def s_def)
  ultimately show ?thesis using bounds by (auto simp: N_def D_def algebra_simps)
qed

lemma coefficient_rounds_product_witness: "coefficientFixed [1900, 2155, 1001] = Some 40986"
proof -
  obtain s where "coefficientFixed [1900, 2155, 1001] = Some s" "200 * s \<le> 8197289" "8197089 < 200 * s"
    using coefficient_rounds_product [of "[1900, 2155, 1001]"]
    by (auto simp: MAX_LEGS_def MIN_ODDS_MILLI_def MAX_ODDS_MILLI_def FIXED_SCALE_def ODDS_SCALE_def
        U128_MAX_def U64_MAX_def)
  moreover from this(2,3) have "s = 40986" by presburger
  ultimately show ?thesis by simp
qed

section \<open>Slips\<close>

definition effective_odds :: "(leg_commit \<times> score_stat list) list \<Rightarrow> int list" where
  "effective_odds lfs = map (\<lambda>lf. oddsMilli (fst lf))
     (filter (\<lambda>lf. evalLeg (fst lf) (snd lf) = Hit \<or> evalLeg (fst lf) (snd lf) = Miss) lfs)"

lemma score_step_apply:
  "score_step (sett, hit, voids, effective) lf =
     (case evalLeg (fst lf) (snd lf) of
        Pending \<Rightarrow> (False, hit, voids, effective)
      | Void \<Rightarrow> (sett, hit, voids + 1, effective)
      | Hit \<Rightarrow> (sett, hit, voids, effective @ [oddsMilli (fst lf)])
      | Miss \<Rightarrow> (sett, False, voids, effective @ [oddsMilli (fst lf)]))"
  by (simp add: score_step_def)

lemma score_step_fold:
  "foldl score_step (sett, hit, voids, eff) lfs =
    (sett \<and> (\<forall>lf \<in> set lfs. evalLeg (fst lf) (snd lf) \<noteq> Pending),
     hit \<and> (\<forall>lf \<in> set lfs. evalLeg (fst lf) (snd lf) \<noteq> Miss),
     voids + int (length (filter (\<lambda>lf. evalLeg (fst lf) (snd lf) = Void) lfs)),
     eff @ effective_odds lfs)"
proof (induction lfs arbitrary: sett hit voids eff)
  case Nil
  show ?case by (simp add: effective_odds_def)
next
  case (Cons lf lfs)
  show ?case
    by (cases "evalLeg (fst lf) (snd lf)") (simp_all add: score_step_apply Cons effective_odds_def)
qed

lemma map_fst_facts_of_legs: "map fst (facts_of_legs legs factsByLeg) = legs"
  by (simp add: facts_of_legs_def comp_def map_nth)

lemma effective_subseq: "subseq (effective_odds (facts_of_legs legs factsByLeg)) (map oddsMilli legs)"
proof -
  have m: "map (\<lambda>lf. oddsMilli (fst lf)) lfs = map oddsMilli (map fst lfs)"
    for lfs :: "(leg_commit \<times> score_stat list) list" by simp
  have "subseq (effective_odds lfs) (map (\<lambda>lf. oddsMilli (fst lf)) lfs)" for lfs
    unfolding effective_odds_def by (rule subseq_map) (rule subseq_filter_left)
  from this [of "facts_of_legs legs factsByLeg"] show ?thesis
    unfolding m map_fst_facts_of_legs .
qed

lemma coefficient_of_subslip:
  assumes "coefficientFixed odds \<noteq> None" and "subseq os odds"
  shows "coefficientFixed os = Some (odds_score os) \<and> 0 < odds_score os"
proof -
  have c: "length odds \<le> MAX_LEGS" "odds_ok odds" "odds_numerator odds \<le> U128_MAX" "odds_score odds \<le> U64_MAX"
    using assms(1) coefficientFixed_Some_iff by blast+
  note sub = odds_subseq [OF assms(2) c(2)]
  have "length os \<le> MAX_LEGS" using list_emb_length [OF assms(2)] c(1) by simp
  then have "coefficientFixed os = Some (odds_score os)"
    using sub c by (simp add: coefficientFixed_Some_iff)
  moreover have "odds_score [] \<le> odds_score os"
    using odds_subseq [of "[]" os] sub by simp
  then have "0 < odds_score os"
    by (simp add: odds_score_def odds_numerator_def FIXED_SCALE_def ODDS_SCALE_def)
  ultimately show ?thesis by simp
qed

lemma scoreSlip_all_hit:
  assumes "coefficientFixed (map oddsMilli legs) \<noteq> None"
  shows "scoreFixed (scoreSlip legs factsByLeg) =
      (if allHit (scoreSlip legs factsByLeg)
       then odds_score (effective_odds (facts_of_legs legs factsByLeg)) else 0)
    \<and> (allHit (scoreSlip legs factsByLeg) \<longrightarrow>
        coefficientFixed (effective_odds (facts_of_legs legs factsByLeg)) = Some (scoreFixed (scoreSlip legs factsByLeg))
        \<and> 0 < scoreFixed (scoreSlip legs factsByLeg))"
  using coefficient_of_subslip [OF assms effective_subseq [of legs factsByLeg]]
  by (simp add: scoreSlip_def score_step_fold Let_def)

text \<open>C20: in a validated artifact the overflow fallback of the score is never taken: every entrant whose
  slip is all-hit, refunded legs removed, has the exact positive coefficient of its remaining odds, and
  every other entrant scores zero.\<close>

theorem validated_scores_exact:
  assumes "validateConditionsArtifact a" and "e \<in> set (entrants a)"
  shows "let r = resolveEntrant (fixtures a) e;
             odds = effective_odds (facts_of_legs (e_legs e) (map (stats_at (fixtures a)) (e_fixtureIndex e)))
         in (r_allHit r \<longrightarrow> coefficientFixed odds = Some (r_scoreFixed r) \<and> 0 < r_scoreFixed r)
          \<and> (\<not> r_allHit r \<longrightarrow> r_scoreFixed r = 0)"
proof -
  have "coefficientFixed (map oddsMilli (e_legs e)) \<noteq> None"
    using assms by (auto simp: validateConditionsArtifact_def validateEntrant_def)
  from scoreSlip_all_hit [OF this, of "map (stats_at (fixtures a)) (e_fixtureIndex e)"] show ?thesis
    by (auto simp: resolveEntrant_def Let_def)
qed

lemma validated_scores_exact_witness:
  "r_allHit (resolveEntrant [sample_fixture] sample_entrant)
    \<and> 0 < r_scoreFixed (resolveEntrant [sample_fixture] sample_entrant)"
  using validated_scores_exact [of "built_artifact [sample_fixture] [sample_entrant]" sample_entrant]
  by (simp add: built_artifact_def sample_conditions validateConditionsArtifact_def validateEntrant_def
      validateLeg_def tag_defs MIN_ODDS_MILLI_def MAX_ODDS_MILLI_def MAX_LEGS_def coefficientFixed_def
      ODDS_SCALE_def FIXED_SCALE_def U128_MAX_def U64_MAX_def resolveEntrant_def scoreSlip_def facts_of_legs_def
      score_step_def evalLeg_def legValue_def statValue_def stats_at_def Let_def)

end
