(* ===== verification/Conditions_Rank.thy ===== *)
theory Conditions_Rank
  imports Conditions_Score
begin

text \<open>
  The orders of \<^verbatim>\<open>sdk/conditions.ts\<close>: the comparison functions of legs and of ranked entrants meet the
  contract of the sort, so the ranking is the sorted list of the entrants and the slip hash does not
  depend on the order in which the legs were given; and the digests of a parsed artifact never throw.
\<close>

section \<open>Ranking\<close>

interpretation ranked: comparator compare_ranked
proof -
  have "comparator (\<lambda>a b. bool_number (r_allHit b) - bool_number (r_allHit a))"
    by unfold_locales auto
  moreover have "comparator (\<lambda>a b. cmp_int (r_scoreFixed b) (r_scoreFixed a))"
    by (rule comparator_rev) (rule comparator_key_cmp)
  moreover have "comparator (\<lambda>a b. cmp_int (r_enteredAt a) (r_enteredAt b))"
    by (rule comparator_key_cmp)
  moreover have "comparator (\<lambda>a b. buffer_compare (r_wallet a) (r_wallet b))"
    by (rule comparator_map) (rule bytes.comparator_axioms)
  ultimately have "comparator (\<lambda>a b. or_else (bool_number (r_allHit b) - bool_number (r_allHit a))
    (or_else (cmp_int (r_scoreFixed b) (r_scoreFixed a)) (or_else (cmp_int (r_enteredAt a) (r_enteredAt b))
       (buffer_compare (r_wallet a) (r_wallet b)))))"
    by (intro comparator_or_else)
  then show "comparator compare_ranked"
    by (simp add: compare_ranked_def [abs_def])
qed

lemma compare_ranked_zero_wallet: "compare_ranked a b = 0 \<Longrightarrow> r_wallet a = r_wallet b"
  by (simp add: compare_ranked_def or_else_def split: if_splits)

lemma compare_ranked_le:
  "compare_ranked a b \<le> 0 \<Longrightarrow>
    (r_allHit b \<longrightarrow> r_allHit a) \<and>
    (r_allHit a = r_allHit b \<longrightarrow> r_scoreFixed b \<le> r_scoreFixed a) \<and>
    (r_allHit a = r_allHit b \<longrightarrow> r_scoreFixed a = r_scoreFixed b \<longrightarrow> r_enteredAt a \<le> r_enteredAt b)"
  by (auto simp: compare_ranked_def or_else_def bool_number_def cmp_int_def split: if_splits)

text \<open>The ranking of entrants with distinct wallets is the same for every order in which they are
  listed; it loses none of them, puts winners first, higher scores before lower ones, and earlier
  entries before later ones at the same score.\<close>

theorem rank_round_canonical:
  assumes "distinct (map r_wallet es)" and "mset es' = mset es"
  shows "rankRound es' = rankRound es \<and> mset (rankRound es) = mset es
    \<and> (\<forall>i j. i < j \<longrightarrow> j < length es \<longrightarrow>
        (let a = rankRound es ! i; b = rankRound es ! j in
          (r_allHit b \<longrightarrow> r_allHit a) \<and>
          (r_allHit a = r_allHit b \<longrightarrow> r_scoreFixed b \<le> r_scoreFixed a) \<and>
          (r_allHit a = r_allHit b \<longrightarrow> r_scoreFixed a = r_scoreFixed b \<longrightarrow> r_enteredAt a \<le> r_enteredAt b)))"
proof (intro conjI allI impI)
  have same: "a = b" if "a \<in> set es" "b \<in> set es" "compare_ranked a b = 0" for a b
    using that assms(1) compare_ranked_zero_wallet [of a b] by (auto simp: distinct_map dest: inj_onD)
  show "rankRound es' = rankRound es"
    unfolding rankRound_def by (rule ranked.js_sort_mset_eq [symmetric]) (use assms(2) same in auto)
  show "mset (rankRound es) = mset es" by (simp add: rankRound_def)
  fix i j
  assume ij: "i < j" "j < length es"
  then have "compare_ranked (rankRound es ! i) (rankRound es ! j) \<le> 0"
    unfolding rankRound_def by (intro ranked.sorted_nth_le) auto
  from compare_ranked_le [OF this]
  show "let a = rankRound es ! i; b = rankRound es ! j in
          (r_allHit b \<longrightarrow> r_allHit a) \<and>
          (r_allHit a = r_allHit b \<longrightarrow> r_scoreFixed b \<le> r_scoreFixed a) \<and>
          (r_allHit a = r_allHit b \<longrightarrow> r_scoreFixed a = r_scoreFixed b \<longrightarrow> r_enteredAt a \<le> r_enteredAt b)"
    unfolding Let_def .
qed

definition sample_ranked :: "byte \<Rightarrow> int \<Rightarrow> bool \<Rightarrow> ranked_entrant" where
  "sample_ranked w s hit = \<lparr>r_wallet = replicate 32 w, r_enteredAt = 5, r_scoreFixed = s, r_allHit = hit,
     r_voidCount = 0, r_settled = True\<rparr>"

lemma rank_round_canonical_witness:
  "rankRound [sample_ranked 1 0 False, sample_ranked 3 9 True, sample_ranked 2 9 True]
    = rankRound [sample_ranked 2 9 True, sample_ranked 1 0 False, sample_ranked 3 9 True]"
  using rank_round_canonical [of "[sample_ranked 2 9 True, sample_ranked 1 0 False, sample_ranked 3 9 True]"
      "[sample_ranked 1 0 False, sample_ranked 3 9 True, sample_ranked 2 9 True]"]
  by (simp add: sample_ranked_def add_mset_commute)

section \<open>Canonical legs\<close>

interpretation legs: comparator compare_legs
proof -
  have "comparator (\<lambda>a b. or_else (statKeyA a - statKeyA b)
    (or_else (statKeyB a - statKeyB b)
    (or_else (legOp a - legOp b)
    (or_else (comparison a - comparison b)
    (or_else (threshold a - threshold b)
    (or_else (lineX2 a - lineX2 b) (oddsMilli a - oddsMilli b)))))))"
    by (intro comparator_or_else comparator_key_diff)
  then show "comparator compare_legs"
    by (simp add: compare_legs_def [abs_def])
qed

text \<open>The comparison leaves out the term kind, which the operator determines in a valid leg.\<close>

lemma compare_legs_zero:
  assumes "validateLeg a" and "validateLeg b" and "compare_legs a b = 0"
  shows "a = b"
proof -
  have "statKeyA a = statKeyA b \<and> statKeyB a = statKeyB b \<and> legOp a = legOp b \<and> comparison a = comparison b
      \<and> threshold a = threshold b \<and> lineX2 a = lineX2 b \<and> oddsMilli a = oddsMilli b"
    using assms(3) by (simp add: compare_legs_def or_else_def split: if_splits)
  moreover from this have "termKind a = termKind b"
    using assms(1,2) by (auto simp: validateLeg_def tag_defs)
  ultimately show ?thesis by simp
qed

text \<open>The slip hash of valid legs does not depend on their order.\<close>

theorem slip_hash_order_independent:
  assumes "\<forall>l \<in> set legs. validateLeg l" and "mset legs' = mset legs"
  shows "slipHash wallet tier legs' = slipHash wallet tier legs"
proof -
  have "sortLegs legs' = sortLegs legs"
    unfolding sortLegs_def
    by (rule legs.js_sort_mset_eq [symmetric]) (use assms compare_legs_zero in auto)
  then show ?thesis by (simp add: slipHash_def slip_preimage_def)
qed

lemma slip_hash_order_independent_witness:
  "slipHash (replicate 32 1) 5 [sample_leg, sample_leg\<lparr>oddsMilli := 1500\<rparr>]
    = slipHash (replicate 32 1) 5 [sample_leg\<lparr>oddsMilli := 1500\<rparr>, sample_leg]"
  by (rule slip_hash_order_independent)
     (simp_all add: sample_leg_def validateLeg_def tag_defs MIN_ODDS_MILLI_def MAX_ODDS_MILLI_def)

section \<open>The digests of a parsed artifact\<close>

lemma takeUint_length: "takeUint n buf off = Inr (v, off') \<Longrightarrow> 0 < n \<Longrightarrow> off + n \<le> length buf"
  by (auto simp: takeUint_def readBytesClamped_def bindR_Inr_iff liftR_Inr_iff runR_Inr_iff read_uint_Inr_iff
      subarray_length)

lemma entrantR_wallet:
  assumes "entrantR buf off = Inr (e, off')"
  shows "length (e_wallet e) = 32"
proof -
  from assms obtain tier o1 where "takeUint 8 buf (off + 32) = Inr (tier, o1)"
    and w: "e_wallet e = subarray buf off (off + 32)"
    unfolding entrantR_def takeU64_def
    by (elim result_elims) (auto simp: readBytesClamped_def)
  then have "off + 32 + 8 \<le> length buf" using takeUint_length by fastforce
  then show ?thesis by (simp add: w subarray_length)
qed

lemma fixtureR_root:
  assumes "fixtureR buf off = Inr (f, off')"
  shows "length (eventStatRoot f) = 32"
proof -
  from assms obtain o1 n o2 where "takeUint 4 buf (o1 + 32) = Inr (n, o2)"
    and w: "eventStatRoot f = subarray buf o1 (o1 + 32)"
    unfolding fixtureR_def vecR_def takeU32_def
    by (elim result_elims) (auto simp: readBytesClamped_def)
  then have "o1 + 32 + 4 \<le> length buf" using takeUint_length by fastforce
  then show ?thesis by (simp add: w subarray_length)
qed

lemma vecR_Inr_D: "vecR p buf off = Inr (xs, off') \<Longrightarrow> \<forall>x \<in> set xs. \<exists>o1 o2. p buf o1 = Inr (x, o2)"
  unfolding vecR_def by (elim result_elims) (use repeatR_Inr_D in blast)

lemma parse_lengths:
  assumes "parseConditionsArtifact bytes = Inr a"
  shows "(\<forall>f \<in> set (fixtures a). length (eventStatRoot f) = 32) \<and> (\<forall>e \<in> set (entrants a). length (e_wallet e) = 32)"
  using assms unfolding parseConditionsArtifact_def conditionsR_def
  by (elim result_elims) (auto dest!: vecR_Inr_D dest: fixtureR_root entrantR_wallet)

lemma score_range:
  "0 \<le> scoreFixed (scoreSlip legs facts) \<and> scoreFixed (scoreSlip legs facts) < 18446744073709551616"
proof -
  let ?c = "coefficientFixed (effective_odds (facts_of_legs legs facts))"
  have "0 \<le> s \<and> s < 18446744073709551616" if "?c = Some s" for s
    using that coefficient_of_subslip [of "effective_odds (facts_of_legs legs facts)" "effective_odds (facts_of_legs legs facts)"]
      coefficientFixed_Some_iff [of "effective_odds (facts_of_legs legs facts)" s]
    by (auto simp: U64_MAX_def)
  then show ?thesis
    by (auto simp: scoreSlip_def score_step_fold Let_def split: option.splits)
qed

lemma winnersDigest_fold:
  assumes "\<forall>r \<in> set rs. length (r_wallet r) = 32 \<and> 0 \<le> r_scoreFixed r \<and> r_scoreFixed r < 18446744073709551616"
  shows "foldE (\<lambda>h r. if \<not> r_allHit r then Inr h
      else bindE (fixed32 (r_wallet r)) (\<lambda>w. bindE (u64le (r_scoreFixed r)) (\<lambda>s. Inr (h @ w @ s)))) acc rs
    = Inr (acc @ concat (map (\<lambda>r. r_wallet r @ le_bytes 8 (r_scoreFixed r)) (filter r_allHit rs)))"
  using assms by (induction rs arbitrary: acc) auto

lemma factsRefRoot_fold:
  "\<forall>f \<in> set fs. length (eventStatRoot f) = 32 \<Longrightarrow>
    foldE (\<lambda>h f. bindE (fixed32 (eventStatRoot f)) (\<lambda>r. Inr (h @ r))) acc fs
    = Inr (acc @ concat (map eventStatRoot fs))"
  by (induction fs arbitrary: acc) auto

text \<open>For every artifact that parses, both attestation digests are computed without an error: the
  winners digest hashes wallet and little-endian score of the winners in ranked order, the facts root
  the event roots in fixture order.\<close>

theorem conditions_digests_total:
  assumes "parseConditionsArtifact bytes = Inr a"
  shows "winnersDigest (resolveConditionsArtifact a) =
      Inr (sha256 (concat (map (\<lambda>r. r_wallet r @ le_bytes 8 (r_scoreFixed r))
        (filter r_allHit (resolveConditionsArtifact a)))))
    \<and> factsRefRoot a = Inr (sha256 (concat (map eventStatRoot (fixtures a))))"
proof
  have "length (r_wallet r) = 32 \<and> 0 \<le> r_scoreFixed r \<and> r_scoreFixed r < 18446744073709551616"
    if "r \<in> set (resolveConditionsArtifact a)" for r
  proof -
    from that obtain e where e: "e \<in> set (entrants a)" and r: "r = resolveEntrant (fixtures a) e"
      by (auto simp: resolveConditionsArtifact_def rankRound_def)
    show ?thesis
      using parse_lengths [OF assms] e score_range
      by (simp add: r resolveEntrant_def Let_def)
  qed
  then show "winnersDigest (resolveConditionsArtifact a) =
      Inr (sha256 (concat (map (\<lambda>r. r_wallet r @ le_bytes 8 (r_scoreFixed r))
        (filter r_allHit (resolveConditionsArtifact a)))))"
    using winnersDigest_fold [of "resolveConditionsArtifact a" "[]"] by (simp add: winnersDigest_def)
  show "factsRefRoot a = Inr (sha256 (concat (map eventStatRoot (fixtures a))))"
    using factsRefRoot_fold [of "fixtures a" "[]"] parse_lengths [OF assms] by (simp add: factsRefRoot_def)
qed

lemma conditions_digests_total_witness:
  "\<exists>bytes a d. parseConditionsArtifact bytes = Inr a \<and> entrants a = [sample_entrant]
    \<and> winnersDigest (resolveConditionsArtifact a) = Inr d
    \<and> factsRefRoot a = Inr (sha256 (replicate 32 5))"
proof -
  let ?a = "built_artifact [sample_fixture] [sample_entrant]"
  obtain bytes where parse: "parseConditionsArtifact (bytes @ []) = Inr ?a"
    using conditions_build_parse [OF sample_conditions_fits] by blast
  have "entrants ?a = [sample_entrant]" by (simp add: built_artifact_def)
  moreover have "concat (map eventStatRoot (fixtures ?a)) = replicate 32 5"
    by (simp add: built_artifact_def sample_fixture_def)
  moreover note digests = conditions_digests_total [OF parse]
  ultimately have "factsRefRoot ?a = Inr (sha256 (replicate 32 5))" by simp
  with parse \<open>entrants ?a = [sample_entrant]\<close> conjunct1 [OF digests] show ?thesis by blast
qed

end
