(* ===== verification/Utf8.thy ===== *)
theory Utf8
  imports Js_Values
begin

text \<open>
  \<^verbatim>\<open>Buffer.from(s, "utf8")\<close>, \<^verbatim>\<open>hash.update(s, "utf8")\<close> and \<^verbatim>\<open>buf.toString("utf8")\<close>. Encoding replaces a
  lone surrogate by U+FFFD; decoding is the state machine of the WHATWG encoding standard, which
  replaces each maximal invalid part. A string without lone surrogates survives the round trip.
\<close>

section \<open>UTF-16 and code points\<close>

definition high_surrogate :: "16 word \<Rightarrow> bool" where
  "high_surrogate c \<longleftrightarrow> 0xD800 \<le> unat c \<and> unat c < 0xDC00"

definition low_surrogate :: "16 word \<Rightarrow> bool" where
  "low_surrogate c \<longleftrightarrow> 0xDC00 \<le> unat c \<and> unat c < 0xE000"

fun code_points :: "jsstr \<Rightarrow> nat list" where
  "code_points [] = []"
| "code_points [a] = [if high_surrogate a \<or> low_surrogate a then 0xFFFD else unat a]"
| "code_points (a # b # rest) =
     (if high_surrogate a \<and> low_surrogate b
      then (0x10000 + (unat a - 0xD800) * 1024 + (unat b - 0xDC00)) # code_points rest
      else (if high_surrogate a \<or> low_surrogate a then 0xFFFD else unat a) # code_points (b # rest))"

definition utf16_of :: "nat \<Rightarrow> jsstr" where
  "utf16_of cp =
     (if cp < 0x10000 then [word_of_nat cp]
      else [word_of_nat (0xD800 + (cp - 0x10000) div 1024), word_of_nat (0xDC00 + (cp - 0x10000) mod 1024)])"

fun well_formed_utf16 :: "jsstr \<Rightarrow> bool" where
  "well_formed_utf16 [] = True"
| "well_formed_utf16 [a] = (\<not> high_surrogate a \<and> \<not> low_surrogate a)"
| "well_formed_utf16 (a # b # rest) =
     (if high_surrogate a \<and> low_surrogate b then well_formed_utf16 rest
      else \<not> high_surrogate a \<and> \<not> low_surrogate a \<and> well_formed_utf16 (b # rest))"

section \<open>UTF-8\<close>

definition utf8_of :: "nat \<Rightarrow> buffer" where
  "utf8_of cp =
     (if cp < 0x80 then [word_of_nat cp]
      else if cp < 0x800 then [word_of_nat (0xC0 + cp div 64), word_of_nat (0x80 + cp mod 64)]
      else if cp < 0x10000 then
        [word_of_nat (0xE0 + cp div 4096), word_of_nat (0x80 + cp div 64 mod 64), word_of_nat (0x80 + cp mod 64)]
      else [word_of_nat (0xF0 + cp div 262144), word_of_nat (0x80 + cp div 4096 mod 64),
            word_of_nat (0x80 + cp div 64 mod 64), word_of_nat (0x80 + cp mod 64)])"

definition utf8_encode :: "jsstr \<Rightarrow> buffer" where
  "utf8_encode s = concat (map utf8_of (code_points s))"

text \<open>The decoder: bytes still needed, the code point so far, the range of the next byte.\<close>

function (sequential) utf8_scan :: "nat list \<Rightarrow> nat \<Rightarrow> nat \<Rightarrow> nat \<Rightarrow> nat \<Rightarrow> nat list" where
  "utf8_scan [] 0 cp lo hi = []"
| "utf8_scan [] (Suc k) cp lo hi = [0xFFFD]"
| "utf8_scan (n # bs) 0 cp lo hi =
     (if n < 0x80 then n # utf8_scan bs 0 0 0x80 0xBF
      else if 0xC2 \<le> n \<and> n \<le> 0xDF then utf8_scan bs 1 (n - 0xC0) 0x80 0xBF
      else if 0xE0 \<le> n \<and> n \<le> 0xEF then
        utf8_scan bs 2 (n - 0xE0) (if n = 0xE0 then 0xA0 else 0x80) (if n = 0xED then 0x9F else 0xBF)
      else if 0xF0 \<le> n \<and> n \<le> 0xF4 then
        utf8_scan bs 3 (n - 0xF0) (if n = 0xF0 then 0x90 else 0x80) (if n = 0xF4 then 0x8F else 0xBF)
      else 0xFFFD # utf8_scan bs 0 0 0x80 0xBF)"
| "utf8_scan (n # bs) (Suc k) cp lo hi =
     (if lo \<le> n \<and> n \<le> hi then
        (if k = 0 then (cp * 64 + (n - 0x80)) # utf8_scan bs 0 0 0x80 0xBF
         else utf8_scan bs k (cp * 64 + (n - 0x80)) 0x80 0xBF)
      else 0xFFFD # utf8_scan (n # bs) 0 0 0x80 0xBF)"
  by pat_completeness auto

termination
  by (relation "measures [\<lambda>(bs, k, _). length bs, \<lambda>(bs, k, _). k]") auto

definition utf8_decode :: "buffer \<Rightarrow> jsstr" where
  "utf8_decode b = concat (map utf16_of (utf8_scan (map unat b) 0 0 0x80 0xBF))"

section \<open>The round trip\<close>

definition scalar_value :: "nat \<Rightarrow> bool" where
  "scalar_value cp \<longleftrightarrow> cp < 0x110000 \<and> \<not> (0xD800 \<le> cp \<and> cp < 0xE000)"

lemma unat_byte_of_nat: "n < 256 \<Longrightarrow> unat (word_of_nat n :: byte) = n"
  using unat_of_nat [of n, where ?'a = 8] by simp

lemma unat_unit_of_nat: "n < 65536 \<Longrightarrow> unat (word_of_nat n :: 16 word) = n"
  using unat_of_nat [of n, where ?'a = 16] by simp

lemma unat_unit_bound: "unat (c :: 16 word) < 65536"
  using unsigned_less [of c] by simp

lemma map_unat_utf8_of:
  assumes "cp < 0x110000"
  shows "map unat (utf8_of cp) =
    (if cp < 0x80 then [cp]
      else if cp < 0x800 then [0xC0 + cp div 64, 0x80 + cp mod 64]
      else if cp < 0x10000 then [0xE0 + cp div 4096, 0x80 + cp div 64 mod 64, 0x80 + cp mod 64]
      else [0xF0 + cp div 262144, 0x80 + cp div 4096 mod 64, 0x80 + cp div 64 mod 64, 0x80 + cp mod 64])"
proof -
  have m: "0x80 + x mod 64 < 256" for x :: nat
    using mod_less_divisor [of 64 x] by linarith
  have d: "cp < 0x800 \<Longrightarrow> 0xC0 + cp div 64 < 256" "cp < 0x10000 \<Longrightarrow> 0xE0 + cp div 4096 < 256"
      "0xF0 + cp div 262144 < 256"
    using assms by (simp_all add: div_less_iff_less_mult)
  show ?thesis
    unfolding utf8_of_def using m d
    by (simp add: unat_byte_of_nat del: of_nat_add)
qed

lemma utf8_scan_char:
  assumes "scalar_value cp"
  shows "utf8_scan (map unat (utf8_of cp) @ bs) 0 c lo hi = cp # utf8_scan bs 0 0 0x80 0xBF"
proof -
  have lt: "cp < 0x110000" using assms by (simp add: scalar_value_def)
  note bytes = map_unat_utf8_of [OF lt]
  define q r where "q = cp div 64" and "r = cp mod 64"
  define q2 r2 where "q2 = q div 64" and "r2 = q mod 64"
  define q3 r3 where "q3 = q2 div 64" and "r3 = q2 mod 64"
  have cp: "cp = q * 64 + r" "r < 64" by (simp_all add: q_def r_def)
  have q: "q = q2 * 64 + r2" "r2 < 64" by (simp_all add: q2_def r2_def)
  have q2: "q2 = q3 * 64 + r3" "r3 < 64" by (simp_all add: q3_def r3_def)
  have d: "cp div 4096 = q2" "cp div 262144 = q3"
    by (simp_all add: q_def q2_def q3_def div_mult2_eq [of cp 64, symmetric] div_mult2_eq [of "cp" 4096, symmetric])
  consider (one) "cp < 0x80" | (two) "0x80 \<le> cp" "cp < 0x800" | (three) "0x800 \<le> cp" "cp < 0x10000"
    | (four) "0x10000 \<le> cp" by linarith
  then show ?thesis
  proof cases
    case one
    then show ?thesis by (simp add: bytes)
  next
    case two
    have a: "2 \<le> q" "q < 32" using two cp by linarith+
    have e: "map unat (utf8_of cp) = [0xC0 + q, 0x80 + r]" using two by (simp add: bytes q_def r_def)
    have b: "q * 64 + r = cp" using cp(1) by (rule sym)
    show ?thesis
      unfolding e using a cp(2) by (simp add: b)
  next
    case three
    have a: "q2 < 16" "q2 = 0 \<Longrightarrow> 32 \<le> r2" "q2 = 13 \<Longrightarrow> r2 \<le> 31"
      using three cp q assms by (auto simp: scalar_value_def)
    have e: "map unat (utf8_of cp) = [0xE0 + q2, 0x80 + r2, 0x80 + r]"
      using three by (simp add: bytes d r2_def q_def r_def)
    have b: "(q2 * 64 + r2) * 64 + r = cp" using cp q by simp
    have "utf8_scan (map unat (utf8_of cp) @ bs) 0 c lo hi
        = utf8_scan ((0x80 + r2) # (0x80 + r) # bs) 2 q2 (if q2 = 0 then 0xA0 else 0x80) (if q2 = 13 then 0x9F else 0xBF)"
      unfolding e using a(1) by simp
    also have "\<dots> = utf8_scan ((0x80 + r) # bs) 1 (q2 * 64 + r2) 0x80 0xBF"
      unfolding numeral_2_eq_2 using a q(2) by simp
    also have "\<dots> = cp # utf8_scan bs 0 0 0x80 0xBF"
      using cp(2) b by (simp add: One_nat_def)
    finally show ?thesis .
  next
    case four
    have a: "q3 \<le> 4" "q3 = 0 \<Longrightarrow> 16 \<le> r3" "q3 = 4 \<Longrightarrow> r3 \<le> 15"
      using four cp q q2 lt by auto
    have e: "map unat (utf8_of cp) = [0xF0 + q3, 0x80 + r3, 0x80 + r2, 0x80 + r]"
      using four by (simp add: bytes d r3_def r2_def q_def r_def)
    have b: "((q3 * 64 + r3) * 64 + r2) * 64 + r = cp" using cp q q2 by simp
    have "utf8_scan (map unat (utf8_of cp) @ bs) 0 c lo hi
        = utf8_scan ((0x80 + r3) # (0x80 + r2) # (0x80 + r) # bs) 3 q3 (if q3 = 0 then 0x90 else 0x80)
            (if q3 = 4 then 0x8F else 0xBF)"
      unfolding e using a(1) by simp
    also have "\<dots> = utf8_scan ((0x80 + r2) # (0x80 + r) # bs) 2 (q3 * 64 + r3) 0x80 0xBF"
      unfolding numeral_3_eq_3 numeral_2_eq_2 using a q2(2) by simp
    also have "\<dots> = utf8_scan ((0x80 + r) # bs) 1 ((q3 * 64 + r3) * 64 + r2) 0x80 0xBF"
      unfolding numeral_2_eq_2 using q(2) by simp
    also have "\<dots> = cp # utf8_scan bs 0 0 0x80 0xBF"
      using cp(2) b by (simp add: One_nat_def)
    finally show ?thesis .
  qed
qed

lemma scalar_unit: "\<not> high_surrogate a \<Longrightarrow> \<not> low_surrogate a \<Longrightarrow> scalar_value (unat a)"
  using unat_unit_bound [of a] by (auto simp: scalar_value_def high_surrogate_def low_surrogate_def)

lemma scalar_pair:
  assumes "high_surrogate a" and "low_surrogate b"
  shows "scalar_value (0x10000 + (unat a - 0xD800) * 1024 + (unat b - 0xDC00))"
proof -
  have "unat a - 0xD800 \<le> 1023" "unat b - 0xDC00 \<le> 1023"
    using assms by (auto simp: high_surrogate_def low_surrogate_def)
  then show ?thesis by (simp add: scalar_value_def)
qed

lemma scalar_code_points: "well_formed_utf16 s \<Longrightarrow> \<forall>cp \<in> set (code_points s). scalar_value cp"
proof (induction s rule: code_points.induct)
  case (2 a)
  then show ?case by (simp add: scalar_unit)
next
  case (3 a b rest)
  then show ?case
    by (cases "high_surrogate a \<and> low_surrogate b") (simp_all add: scalar_unit scalar_pair)
qed simp

lemma utf8_scan_encoded:
  "\<forall>cp \<in> set cps. scalar_value cp \<Longrightarrow>
    utf8_scan (map unat (concat (map utf8_of cps)) @ bs) 0 0 0x80 0xBF = cps @ utf8_scan bs 0 0 0x80 0xBF"
  by (induction cps) (simp_all add: utf8_scan_char)

lemma utf16_code_points: "well_formed_utf16 s \<Longrightarrow> concat (map utf16_of (code_points s)) = s"
proof (induction s rule: code_points.induct)
  case (2 a)
  then show ?case using unat_unit_bound [of a] by (simp add: utf16_of_def)
next
  case (3 a b rest)
  show ?case
  proof (cases "high_surrogate a \<and> low_surrogate b")
    case True
    then have r: "0xD800 \<le> unat a" "0xDC00 \<le> unat b" "unat b - 0xDC00 < 1024"
      by (auto simp: high_surrogate_def low_surrogate_def)
    have "utf16_of (0x10000 + h * 1024 + l) = [word_of_nat (0xD800 + h), word_of_nat (0xDC00 + l)]"
      if "l < 1024" for h l
    proof -
      have n: "\<not> 0x10000 + h * 1024 + l < 0x10000" "0x10000 + h * 1024 + l - 0x10000 = h * 1024 + l" by simp_all
      have d: "(h * 1024 + l) div 1024 = h" "(h * 1024 + l) mod 1024 = l" using that by simp_all
      show ?thesis unfolding utf16_of_def n(2) d by (simp only: n(1) if_False)
    qed
    from this [OF r(3), of "unat a - 0xD800"] r(1,2)
    have "utf16_of (0x10000 + (unat a - 0xD800) * 1024 + (unat b - 0xDC00)) = [a, b]"
      by (simp del: of_nat_add)
    moreover have "well_formed_utf16 rest" using 3(3) True by simp
    ultimately show ?thesis using 3(1) [OF True] True by simp
  next
    case False
    with 3 show ?thesis using unat_unit_bound [of a] by (simp add: utf16_of_def)
  qed
qed simp

lemma utf8_decode_encode: "well_formed_utf16 s \<Longrightarrow> utf8_decode (utf8_encode s) = s"
  using utf8_scan_encoded [OF scalar_code_points, of s "[]"]
  by (simp add: utf8_decode_def utf8_encode_def utf16_code_points)

section \<open>ASCII\<close>

lemma ascii_code_points: "\<forall>c \<in> set s. unat c < 128 \<Longrightarrow> code_points s = map unat s"
proof (induction s rule: code_points.induct)
  case (2 a)
  then show ?case by (simp add: high_surrogate_def low_surrogate_def)
next
  case (3 a b rest)
  then show ?case by (simp add: high_surrogate_def low_surrogate_def)
qed simp

lemma word_of_nat_unat_byte: "word_of_nat (unat c) = (ucast c :: byte)"
  by (simp add: unsigned_ucast_eq)

lemma utf8_encode_ascii:
  assumes "\<forall>c \<in> set s. unat c < 128"
  shows "utf8_encode s = map ucast s"
proof -
  have "concat (map utf8_of (map unat s)) = map ucast s"
    using assms by (induction s) (simp_all add: utf8_of_def)
  then show ?thesis
    by (simp add: utf8_encode_def ascii_code_points [OF assms])
qed

end
