(* ===== verification/Json.thy ===== *)
theory Json
  imports Utf8
begin

text \<open>
  The part of \<^verbatim>\<open>JSON\<close> and \<^verbatim>\<open>BigInt\<close> that the snapshot files go through: \<^verbatim>\<open>JSON.stringify\<close> of an object
  of strings and integers, \<^verbatim>\<open>JSON.parse\<close> of any text (\<open>None\<close> where it throws) and \<^verbatim>\<open>BigInt(string)\<close>.
  The parser's recursion is bounded by fuel; the length of the text is enough, since every nested call
  consumes a character.

  Lemmas: the parser reads back what \<^verbatim>\<open>stringify\<close> wrote, for every string of code units and every safe
  integer.
\<close>

section \<open>Stringify\<close>

definition unicode_escape :: "16 word \<Rightarrow> jsstr" where
  "unicode_escape c =
     (let n = unat c in
      [92, 117, hex_digit (n div 4096), hex_digit (n div 256 mod 16), hex_digit (n div 16 mod 16), hex_digit (n mod 16)])"

text \<open>One code unit that is not part of a surrogate pair.\<close>

definition json_escape :: "16 word \<Rightarrow> jsstr" where
  "json_escape c =
     (if c = 34 then [92, 34] else if c = 92 then [92, 92]
      else if c = 8 then [92, 98] else if c = 9 then [92, 116] else if c = 10 then [92, 110]
      else if c = 12 then [92, 102] else if c = 13 then [92, 114]
      else if c < 32 \<or> high_surrogate c \<or> low_surrogate c then unicode_escape c
      else [c])"

fun json_body :: "jsstr \<Rightarrow> jsstr" where
  "json_body [] = []"
| "json_body [a] = json_escape a"
| "json_body (a # b # rest) =
     (if high_surrogate a \<and> low_surrogate b then a # b # json_body rest
      else json_escape a @ json_body (b # rest))"

definition json_quote :: "jsstr \<Rightarrow> jsstr" where
  "json_quote s = 34 # json_body s @ [34]"

datatype json_field = FString jsstr | FInt int

definition field_text :: "json_field \<Rightarrow> jsstr" where
  "field_text f = (case f of FString s \<Rightarrow> json_quote s | FInt n \<Rightarrow> dec_string n)"

fun members_text :: "(jsstr \<times> json_field) list \<Rightarrow> jsstr" where
  "members_text [] = []"
| "members_text [(k, v)] = json_quote k @ 58 # field_text v"
| "members_text ((k, v) # m # ms) = json_quote k @ 58 # field_text v @ 44 # members_text (m # ms)"

definition stringify_object :: "(jsstr \<times> json_field) list \<Rightarrow> jsstr" where
  "stringify_object fields = 123 # members_text fields @ [125]"

section \<open>Parse\<close>

definition json_ws :: "16 word \<Rightarrow> bool" where
  "json_ws c \<longleftrightarrow> c = 32 \<or> c = 9 \<or> c = 10 \<or> c = 13"

definition skip_ws :: "jsstr \<Rightarrow> jsstr" where
  "skip_ws s = dropWhile json_ws s"

definition unescape :: "16 word \<Rightarrow> 16 word option" where
  "unescape e =
     (if e = 34 \<or> e = 92 \<or> e = 47 then Some e
      else if e = 98 then Some 8 else if e = 116 then Some 9 else if e = 110 then Some 10
      else if e = 102 then Some 12 else if e = 114 then Some 13 else None)"

definition hex4 :: "16 word \<Rightarrow> 16 word \<Rightarrow> 16 word \<Rightarrow> 16 word \<Rightarrow> 16 word option" where
  "hex4 a b c d =
     (case (hex_value a, hex_value b, hex_value c, hex_value d) of
        (Some w, Some x, Some y, Some z) \<Rightarrow> Some (word_of_nat (4096 * w + 256 * x + 16 * y + z))
      | _ \<Rightarrow> None)"

text \<open>The rest of a string literal after its opening quote.\<close>

function json_chars :: "jsstr \<Rightarrow> (jsstr \<times> jsstr) option" where
  "json_chars s =
     (case s of [] \<Rightarrow> None
      | c # cs \<Rightarrow>
        if c = 34 then Some ([], cs)
        else if c < 32 then None
        else if c \<noteq> 92 then map_option (\<lambda>(t, rest). (c # t, rest)) (json_chars cs)
        else (case cs of [] \<Rightarrow> None
          | e # es \<Rightarrow>
            if e = 117 then
              (case es of h1 # h2 # h3 # h4 # hs \<Rightarrow>
                 (case hex4 h1 h2 h3 h4 of None \<Rightarrow> None
                  | Some u \<Rightarrow> map_option (\<lambda>(t, rest). (u # t, rest)) (json_chars hs))
               | _ \<Rightarrow> None)
            else (case unescape e of None \<Rightarrow> None
                  | Some u \<Rightarrow> map_option (\<lambda>(t, rest). (u # t, rest)) (json_chars es))))"
  by pat_completeness auto
termination
  by (relation "measure length") auto

declare json_chars.simps [simp del]

definition decimal_number :: "bool \<Rightarrow> int \<Rightarrow> int \<Rightarrow> js_number" where
  "decimal_number neg m e =
     (let v = (if 0 \<le> e then nearest_double (m * 10 ^ nat e) 1 else nearest_double m (10 ^ nat (- e)))
      in if neg then (case v of NInt n \<Rightarrow> NInt (- n) | NFrac \<Rightarrow> NFrac) else v)"

text \<open>The optional fraction and exponent.\<close>

definition json_fraction :: "jsstr \<Rightarrow> (jsstr \<times> jsstr) option" where
  "json_fraction s =
     (case s of c # cs \<Rightarrow>
        if c = 46 then
          (let ds = takeWhile is_digit cs in if ds = [] then None else Some (ds, dropWhile is_digit cs))
        else Some ([], s)
      | [] \<Rightarrow> Some ([], s))"

definition json_exponent :: "jsstr \<Rightarrow> (int \<times> jsstr) option" where
  "json_exponent s =
     (case s of c # cs \<Rightarrow>
        if c = 101 \<or> c = 69 then
          (let (neg, us) = (case cs of d # ds \<Rightarrow> if d = 45 then (True, ds) else if d = 43 then (False, ds) else (False, cs)
                            | [] \<Rightarrow> (False, cs));
               ds = takeWhile is_digit us
           in if ds = [] then None
              else Some (if neg then - dec_value ds else dec_value ds, dropWhile is_digit us))
        else Some (0, s)
      | [] \<Rightarrow> Some (0, s))"

definition json_unsigned :: "bool \<Rightarrow> jsstr \<Rightarrow> (jsval \<times> jsstr) option" where
  "json_unsigned neg s =
     (let ds = takeWhile is_digit s in
      if ds = [] \<or> (hd ds = 48 \<and> length ds > 1) then None
      else case json_fraction (dropWhile is_digit s) of None \<Rightarrow> None
        | Some (fs, s1) \<Rightarrow> (case json_exponent s1 of None \<Rightarrow> None
          | Some (e, s2) \<Rightarrow> Some (JNumber (decimal_number neg (dec_value (ds @ fs)) (e - int (length fs))), s2)))"

definition json_number :: "jsstr \<Rightarrow> (jsval \<times> jsstr) option" where
  "json_number s =
     (case s of c # cs \<Rightarrow> if c = 45 then json_unsigned True cs else json_unsigned False s | [] \<Rightarrow> None)"

definition strip_prefix :: "string \<Rightarrow> jsstr \<Rightarrow> jsstr option" where
  "strip_prefix w s = (if take (length w) s = js w then Some (drop (length w) s) else None)"

definition json_literal :: "jsstr \<Rightarrow> (jsval \<times> jsstr) option" where
  "json_literal s =
     (case strip_prefix ''true'' s of Some r \<Rightarrow> Some (JBool True, r) | None \<Rightarrow>
     (case strip_prefix ''false'' s of Some r \<Rightarrow> Some (JBool False, r) | None \<Rightarrow>
     (case strip_prefix ''null'' s of Some r \<Rightarrow> Some (JNull, r) | None \<Rightarrow> json_number s)))"

text \<open>Values, the members of an object after its brace and the elements of an array after its bracket;
  the collected members are kept latest first, so a repeated key has its last value.\<close>

fun json_value :: "nat \<Rightarrow> jsstr \<Rightarrow> (jsval \<times> jsstr) option"
  and json_members :: "nat \<Rightarrow> (jsstr \<times> jsval) list \<Rightarrow> jsstr \<Rightarrow> (jsval \<times> jsstr) option"
  and json_elements :: "nat \<Rightarrow> jsval list \<Rightarrow> jsstr \<Rightarrow> (jsval \<times> jsstr) option" where
  "json_value 0 s = None"
| "json_value (Suc k) s =
     (case skip_ws s of [] \<Rightarrow> None
      | c # cs \<Rightarrow>
        if c = 34 then map_option (\<lambda>(t, rest). (JString t, rest)) (json_chars cs)
        else if c = 123 then
          (case skip_ws cs of d # ds \<Rightarrow> if d = 125 then Some (JObject [], ds) else json_members k [] (d # ds) | [] \<Rightarrow> None)
        else if c = 91 then
          (case skip_ws cs of d # ds \<Rightarrow> if d = 93 then Some (JArray [], ds) else json_elements k [] (d # ds) | [] \<Rightarrow> None)
        else json_literal (c # cs))"
| "json_members 0 acc s = None"
| "json_members (Suc k) acc s =
     (case s of c # cs \<Rightarrow>
        if c \<noteq> 34 then None
        else (case json_chars cs of None \<Rightarrow> None
        | Some (key, s1) \<Rightarrow> (case skip_ws s1 of d # s2 \<Rightarrow>
            if d \<noteq> 58 then None
            else (case json_value k s2 of None \<Rightarrow> None
            | Some (v, s3) \<Rightarrow> (case skip_ws s3 of e # s4 \<Rightarrow>
                if e = 44 then json_members k ((key, v) # acc) (skip_ws s4)
                else if e = 125 then Some (JObject ((key, v) # acc), s4) else None
              | [] \<Rightarrow> None))
          | [] \<Rightarrow> None))
      | [] \<Rightarrow> None)"
| "json_elements 0 acc s = None"
| "json_elements (Suc k) acc s =
     (case json_value k s of None \<Rightarrow> None
      | Some (v, s1) \<Rightarrow> (case skip_ws s1 of e # s2 \<Rightarrow>
          if e = 44 then json_elements k (acc @ [v]) s2
          else if e = 93 then Some (JArray (acc @ [v]), s2) else None
        | [] \<Rightarrow> None))"

definition json_parse :: "jsstr \<Rightarrow> jsval option" where
  "json_parse s =
     (case json_value (Suc (length s)) s of None \<Rightarrow> None
      | Some (v, rest) \<Rightarrow> if skip_ws rest = [] then Some v else None)"

section \<open>BigInt of a string\<close>

definition radix_value :: "nat \<Rightarrow> jsstr \<Rightarrow> int option" where
  "radix_value r ds =
     (if ds = [] \<or> \<not> list_all (\<lambda>c. case hex_value c of None \<Rightarrow> False | Some v \<Rightarrow> v < r) ds then None
      else Some (foldl (\<lambda>v c. int r * v + (case hex_value c of None \<Rightarrow> 0 | Some d \<Rightarrow> int d)) 0 ds))"

definition bigint_of_string :: "jsstr \<Rightarrow> int option" where
  "bigint_of_string s =
     (case js_trim s of [] \<Rightarrow> Some 0
      | c # cs \<Rightarrow>
        if c = 48 \<and> cs \<noteq> [] \<and> (hd cs = 120 \<or> hd cs = 88) then radix_value 16 (tl cs)
        else if c = 48 \<and> cs \<noteq> [] \<and> (hd cs = 111 \<or> hd cs = 79) then radix_value 8 (tl cs)
        else if c = 48 \<and> cs \<noteq> [] \<and> (hd cs = 98 \<or> hd cs = 66) then radix_value 2 (tl cs)
        else if c = 45 then map_option uminus (radix_value 10 cs)
        else if c = 43 then radix_value 10 cs
        else radix_value 10 (c # cs))"

section \<open>Reading back what stringify wrote\<close>

lemma unit_ne:
  "high_surrogate c \<Longrightarrow> c \<noteq> 34 \<and> c \<noteq> 92 \<and> \<not> c < 32" "low_surrogate c \<Longrightarrow> c \<noteq> 34 \<and> c \<noteq> 92 \<and> \<not> c < 32"
  by (auto simp: high_surrogate_def low_surrogate_def word_less_nat_alt)

lemma json_chars_plain:
  "c \<noteq> 34 \<Longrightarrow> c \<noteq> 92 \<Longrightarrow> \<not> c < 32 \<Longrightarrow>
    json_chars (c # cs) = map_option (\<lambda>(t, rest). (c # t, rest)) (json_chars cs)"
  by (simp add: json_chars.simps [of "c # cs"])

lemma json_chars_short:
  "unescape e = Some u \<Longrightarrow> json_chars (92 # e # cs) = map_option (\<lambda>(t, rest). (u # t, rest)) (json_chars cs)"
  by (auto simp: json_chars.simps [of "92 # e # cs"] unescape_def split: if_splits)

lemma unicode_digits:
  assumes "n < 65536"
  shows "4096 * (n div 4096) + 256 * (n div 256 mod 16) + 16 * (n div 16 mod 16) + n mod 16 = (n :: nat)"
proof -
  have "n div 256 div 16 = n div 4096" "n div 16 div 16 = n div 256"
    by (simp_all add: div_mult2_eq [symmetric])
  moreover have "n = 16 * (n div 16) + n mod 16" "n div 16 = 16 * (n div 16 div 16) + n div 16 mod 16"
    "n div 256 = 16 * (n div 256 div 16) + n div 256 mod 16" by simp_all
  ultimately show ?thesis by linarith
qed

lemma json_chars_unicode:
  "json_chars (unicode_escape c @ cs) = map_option (\<lambda>(t, rest). (c # t, rest)) (json_chars cs)"
proof -
  let ?n = "unat c"
  have lt: "?n < 65536" by (rule unat_unit_bound)
  have "?n div 4096 < 16" using lt by (simp add: div_less_iff_less_mult)
  then have "hex4 (hex_digit (?n div 4096)) (hex_digit (?n div 256 mod 16)) (hex_digit (?n div 16 mod 16))
      (hex_digit (?n mod 16)) = Some (word_of_nat ?n)"
    using unicode_digits [OF lt] by (simp add: hex4_def hex_value_digit del: of_nat_add of_nat_mult)
  then show ?thesis
    by (simp add: unicode_escape_def Let_def json_chars.simps [of "92 # _"])
qed

lemma json_chars_escape:
  "json_chars (json_escape c @ cs) = map_option (\<lambda>(t, rest). (c # t, rest)) (json_chars cs)"
  unfolding json_escape_def
  by (auto simp: json_chars_unicode json_chars_plain json_chars_short unescape_def)

lemma json_chars_body: "json_chars (json_body s @ 34 # rest) = Some (s, rest)"
proof (induction s rule: json_body.induct)
  case 1
  show ?case by (simp add: json_chars.simps [of "34 # rest"])
next
  case (2 a)
  show ?case by (simp add: json_chars_escape json_chars.simps [of "34 # rest"])
next
  case (3 a b s)
  show ?case
  proof (cases "high_surrogate a \<and> low_surrogate b")
    case True
    with 3(1) [OF True] show ?thesis using unit_ne [of a] unit_ne [of b] by (simp add: json_chars_plain)
  next
    case False
    with 3(2) [OF False] show ?thesis by (auto simp: json_chars_escape)
  qed
qed

lemma is_digit_ne: "is_digit c \<Longrightarrow> c \<noteq> 34 \<and> c \<noteq> 123 \<and> c \<noteq> 91 \<and> \<not> json_ws c \<and> c \<noteq> 45 \<and> c \<noteq> 116 \<and> c \<noteq> 102 \<and> c \<noteq> 110"
  by (auto simp: is_digit_def json_ws_def)

definition ends_number :: "jsstr \<Rightarrow> bool" where
  "ends_number s \<longleftrightarrow> (\<exists>c cs. s = c # cs \<and> (c = 44 \<or> c = 125))"

lemma takeWhile_digits:
  assumes "ends_number rest"
  shows "takeWhile is_digit (dec_digits n @ rest) = dec_digits n" "dropWhile is_digit (dec_digits n @ rest) = rest"
proof -
  have "\<not> is_digit (hd rest)" "rest \<noteq> []" using assms by (auto simp: ends_number_def is_digit_def)
  then have "takeWhile is_digit rest = []" "dropWhile is_digit rest = rest" by (cases rest; simp)+
  then show "takeWhile is_digit (dec_digits n @ rest) = dec_digits n" "dropWhile is_digit (dec_digits n @ rest) = rest"
    using dec_digits_digits [of n] by (simp_all add: takeWhile_append dropWhile_append)
qed

lemma dec_digits_0: "dec_digits 0 = [48]"
  by (simp add: dec_digits.simps)

lemma json_unsigned_digits:
  assumes rest: "ends_number rest" and n: "int n < 2 ^ 53"
  shows "json_unsigned neg (dec_digits n @ rest) = Some (JNumber (NInt (if neg then - int n else int n)), rest)"
proof -
  have "\<not> (hd (dec_digits n) = 48 \<and> length (dec_digits n) > 1)"
    using dec_digits_hd [of n] by (cases "n = 0") (auto simp: dec_digits_0)
  moreover have "json_fraction rest = Some ([], rest)" "json_exponent rest = Some (0, rest)"
    using rest by (auto simp: ends_number_def json_fraction_def json_exponent_def)
  moreover have "decimal_number neg (int n) 0 = NInt (if neg then - int n else int n)"
    using nearest_double_int [of "int n"] n by (simp add: decimal_number_def Let_def)
  ultimately show ?thesis
    using takeWhile_digits [OF rest, of n] dec_digits_not_Nil [of n]
    by (simp add: json_unsigned_def Let_def dec_value_digits)
qed

lemma dec_digits_Cons: obtains c cs where "dec_digits n = c # cs" and "is_digit c"
  using dec_digits_digits [of n] dec_digits_not_Nil [of n] by (cases "dec_digits n") auto

lemma dec_string_Cons:
  obtains c cs where "dec_string n = c # cs" and "is_digit c \<or> c = 45"
proof (cases "n < 0")
  case True
  then show thesis by (intro that [of 45 "dec_digits (nat (- n))"]) (simp_all add: dec_string_def)
next
  case False
  obtain c cs where "dec_digits (nat n) = c # cs" "is_digit c" by (rule dec_digits_Cons)
  with False show thesis by (intro that [of c cs]) (simp_all add: dec_string_def)
qed

definition small_int :: "int \<Rightarrow> bool" where
  "small_int n \<longleftrightarrow> \<bar>n\<bar> \<le> MAX_SAFE_INTEGER"

lemma json_number_dec:
  assumes "ends_number rest" and "small_int n"
  shows "json_number (dec_string n @ rest) = Some (JNumber (NInt n), rest)"
proof (cases "n < 0")
  case True
  with assms json_unsigned_digits [OF assms(1), of "nat (- n)" True] show ?thesis
    by (simp add: json_number_def dec_string_def small_int_def MAX_SAFE_INTEGER_def)
next
  case False
  obtain c cs where c: "dec_digits (nat n) = c # cs" "is_digit c" by (rule dec_digits_Cons)
  with False assms json_unsigned_digits [OF assms(1), of "nat n" False] is_digit_ne [OF c(2)] show ?thesis
    by (simp add: json_number_def dec_string_def small_int_def MAX_SAFE_INTEGER_def)
qed

lemma json_literal_dec:
  assumes "ends_number rest" and "small_int n"
  shows "json_literal (dec_string n @ rest) = Some (JNumber (NInt n), rest)"
proof -
  obtain c cs where c: "dec_string n = c # cs" "is_digit c \<or> c = 45" by (rule dec_string_Cons)
  then have "c \<noteq> 116" "c \<noteq> 102" "c \<noteq> 110" using is_digit_ne by auto
  then have "strip_prefix ''true'' (dec_string n @ rest) = None" "strip_prefix ''false'' (dec_string n @ rest) = None"
      "strip_prefix ''null'' (dec_string n @ rest) = None"
    by (simp_all add: strip_prefix_def c(1) js_def)
  then show ?thesis using json_number_dec [OF assms] by (simp add: json_literal_def)
qed

definition field_value :: "json_field \<Rightarrow> jsval" where
  "field_value f = (case f of FString s \<Rightarrow> JString s | FInt n \<Rightarrow> JNumber (NInt n))"

definition field_ok :: "json_field \<Rightarrow> bool" where
  "field_ok f = (case f of FString s \<Rightarrow> True | FInt n \<Rightarrow> small_int n)"

lemma json_value_field:
  assumes "ends_number rest" and "field_ok f"
  shows "json_value (Suc k) (field_text f @ rest) = Some (field_value f, rest)"
proof (cases f)
  case (FString s)
  then show ?thesis
    by (simp add: field_text_def field_value_def json_quote_def skip_ws_def json_ws_def json_chars_body)
next
  case (FInt n)
  obtain c cs where c: "dec_string n = c # cs" "is_digit c \<or> c = 45" by (rule dec_string_Cons)
  then have "\<not> json_ws c" "c \<noteq> 34" "c \<noteq> 123" "c \<noteq> 91" using is_digit_ne by (auto simp: json_ws_def)
  then show ?thesis
    using json_literal_dec [OF assms(1), of n] assms(2) FInt
    by (simp add: field_text_def field_value_def field_ok_def skip_ws_def c(1))
qed

lemma skip_ws_punct [simp]: "skip_ws (44 # s) = 44 # s" "skip_ws (58 # s) = 58 # s" "skip_ws (125 # s) = 125 # s"
  "skip_ws (34 # s) = 34 # s" "skip_ws (123 # s) = 123 # s"
  by (simp_all add: skip_ws_def json_ws_def)

lemma skip_ws_quote: "skip_ws (json_quote s @ rest) = json_quote s @ rest"
  by (simp add: json_quote_def)

lemma members_text_quote: "fields \<noteq> [] \<Longrightarrow> skip_ws (members_text fields @ s) = members_text fields @ s"
  by (cases fields rule: members_text.cases) (simp_all add: json_quote_def)

lemma json_members_text:
  assumes "fields \<noteq> []" and "\<forall>f \<in> set fields. field_ok (snd f)" and "length fields < k"
  shows "json_members k acc (members_text fields @ 125 # rest)
    = Some (JObject (rev (map (\<lambda>(key, f). (key, field_value f)) fields) @ acc), rest)"
  using assms
proof (induction fields arbitrary: k acc rule: members_text.induct)
  case (2 key f)
  then obtain j where k: "k = Suc (Suc j)" by (cases k; cases "k - 1") auto
  have "json_value (Suc j) (field_text f @ 125 # rest) = Some (field_value f, 125 # rest)"
    by (rule json_value_field) (use 2 in \<open>auto simp: ends_number_def\<close>)
  then show ?case by (simp add: k json_quote_def json_chars_body)
next
  case (3 key f m ms)
  then obtain j where k: "k = Suc (Suc j)" by (cases k; cases "k - 1") auto
  have "json_value (Suc j) (field_text f @ 44 # members_text (m # ms) @ 125 # rest)
      = Some (field_value f, 44 # members_text (m # ms) @ 125 # rest)"
    by (rule json_value_field) (use 3 in \<open>auto simp: ends_number_def\<close>)
  moreover have "json_members (Suc j) ((key, field_value f) # acc) (members_text (m # ms) @ 125 # rest)
      = Some (JObject (rev (map (\<lambda>(key, f). (key, field_value f)) (m # ms)) @ (key, field_value f) # acc), rest)"
    by (rule 3(1)) (use 3 k in auto)
  ultimately show ?case
    by (simp add: k json_quote_def json_chars_body members_text_quote)
qed simp

lemma length_members_text: "2 * length fields \<le> length (members_text fields)"
  by (induction fields rule: members_text.induct) (auto simp: json_quote_def)

text \<open>The object written is the object read, its members latest first.\<close>

lemma json_parse_stringify:
  assumes "fields \<noteq> []" and "\<forall>f \<in> set fields. field_ok (snd f)"
  shows "json_parse (stringify_object fields) = Some (JObject (rev (map (\<lambda>(key, f). (key, field_value f)) fields)))"
proof -
  obtain t where t: "members_text fields = 34 # t"
    using assms(1) by (cases fields rule: members_text.cases) (auto simp: json_quote_def)
  have "json_members (Suc (Suc (length (members_text fields)))) [] (members_text fields @ 125 # [])
      = Some (JObject (rev (map (\<lambda>(key, f). (key, field_value f)) fields) @ []), [])"
    by (rule json_members_text) (use assms length_members_text [of fields] in auto)
  then show ?thesis
    by (simp add: json_parse_def stringify_object_def t skip_ws_def [of "[]"] del: json_members.simps)
qed

lemma stringify_inject:
  assumes "fields \<noteq> []" "\<forall>f \<in> set fields. field_ok (snd f)" "fields' \<noteq> []" "\<forall>f \<in> set fields'. field_ok (snd f)"
    and "stringify_object fields = stringify_object fields'"
  shows "fields = fields'"
proof -
  have "map (\<lambda>(key, f). (key, field_value f)) fields = map (\<lambda>(key, f). (key, field_value f)) fields'"
    using json_parse_stringify [OF assms(1,2)] json_parse_stringify [OF assms(3,4)] assms(5) by simp
  moreover have "inj (\<lambda>(key :: jsstr, f). (key, field_value f))"
    by (auto simp: inj_def field_value_def split: json_field.splits)
  ultimately show ?thesis by (metis inj_map_eq_map)
qed

end
