(* ===== verification/Merkle.thy ===== *)
theory Merkle
  imports Utf8 Sha256
begin

text \<open>
  The Merkle tree of \<^verbatim>\<open>sdk/snapshot.ts\<close>: leaves are double SHA-256 of the canonical lines, a node is the
  SHA-256 of its two children, a level with an odd number of nodes pairs the last one with itself.

  Lemmas: every proof the builder makes verifies; a proof that verifies, of whatever length, is for a
  line of the tree or exhibits a SHA-256 collision among the values hashed by the builder and by the
  verifier; the proof is as long as the tree is high, which is the binary logarithm of the size.
\<close>

section \<open>Building\<close>

definition hashSnapshotLeafLine :: "jsstr \<Rightarrow> buffer" where
  "hashSnapshotLeafLine line = sha256 (sha256 (utf8_encode line))"

fun buildNextMerkleLevel :: "buffer list \<Rightarrow> buffer list" where
  "buildNextMerkleLevel [] = []"
| "buildNextMerkleLevel [left] = [sha256 (left @ left)]"
| "buildNextMerkleLevel (left # right # level) = sha256 (left @ right) # buildNextMerkleLevel level"

lemma length_next_level: "length (buildNextMerkleLevel level) = (length level + 1) div 2"
  by (induction level rule: buildNextMerkleLevel.induct) auto

text \<open>\<^verbatim>\<open>while (levels[levels.length - 1].length > 1) levels.push(...)\<close>\<close>

function merkle_levels_from :: "buffer list \<Rightarrow> buffer list list" where
  "merkle_levels_from level =
     (if length level > 1 then level # merkle_levels_from (buildNextMerkleLevel level) else [level])"
  by auto

termination
  by (relation "measure length") (auto simp: length_next_level)

declare merkle_levels_from.simps [simp del]

definition buildMerkleLevels :: "buffer list \<Rightarrow> buffer list list result" where
  "buildMerkleLevels leafHashes =
     throwIf (leafHashes = []) (Error ''leafHashes must contain at least one entry'')
       (Inr (merkle_levels_from leafHashes))"

definition buildMerkleRoot :: "buffer list \<Rightarrow> buffer result" where
  "buildMerkleRoot leafHashes = bindE (buildMerkleLevels leafHashes) (\<lambda>levels. Inr (last levels ! 0))"

section \<open>Proofs\<close>

record proof_node =
  position :: jsstr
  sibling :: jsstr

text \<open>One round of the loop over the levels, from the leaf upward.\<close>

definition proof_step :: "buffer list \<Rightarrow> nat \<Rightarrow> proof_node" where
  "proof_step level i =
     (let isRightNode = i mod 2 = 1;
          siblingIndex = (if isRightNode then i - 1 else i + 1);
          node = (if siblingIndex < length level then level ! siblingIndex else level ! i)
      in \<lparr>position = (if isRightNode then js ''left'' else js ''right''), sibling = to_hex node\<rparr>)"

fun proof_loop :: "buffer list list \<Rightarrow> nat \<Rightarrow> proof_node list" where
  "proof_loop [] i = []"
| "proof_loop [level] i = []"
| "proof_loop (level # levels) i = proof_step level i # proof_loop levels (i div 2)"

definition buildMerkleProof :: "buffer list list \<Rightarrow> int \<Rightarrow> proof_node list result" where
  "buildMerkleProof levels leafIndex =
     throwIf (leafIndex < 0 \<or> int (length (levels ! 0)) \<le> leafIndex) (RangeError ''leafIndex is out of bounds'')
       (Inr (proof_loop levels (nat leafIndex)))"

definition proof_step_ok :: "proof_node \<Rightarrow> bool" where
  "proof_step_ok step =
     ((position step = js ''left'' \<or> position step = js ''right'') \<and> is_hex64 (sibling step))"

definition proof_pair :: "buffer \<Rightarrow> proof_node \<Rightarrow> buffer" where
  "proof_pair node step =
     (if position step = js ''left'' then from_hex (sibling step) @ node else node @ from_hex (sibling step))"

definition proof_up :: "buffer \<Rightarrow> proof_node \<Rightarrow> buffer result" where
  "proof_up node step =
     throwIf (\<not> proof_step_ok step) (TypeError ''proof step must be { position, sibling: 32-byte hex }'')
       (Inr (sha256 (proof_pair node step)))"

definition ends_with_newline :: "jsstr \<Rightarrow> bool" where
  "ends_with_newline line \<longleftrightarrow> line \<noteq> [] \<and> last line = 10"

definition computeSnapshotMerkleRootFromProof :: "jsstr \<Rightarrow> proof_node list \<Rightarrow> buffer result" where
  "computeSnapshotMerkleRootFromProof line proof' =
     throwIf (\<not> ends_with_newline line) (TypeError ''line must be a canonical snapshot line ending with a newline'')
       (foldE proof_up (hashSnapshotLeafLine line) proof')"

text \<open>The root is a buffer or a hex string; a malformed proof gives \<open>False\<close>.\<close>

definition verifySnapshotMerkleProof :: "jsstr \<Rightarrow> proof_node list \<Rightarrow> buffer + jsstr \<Rightarrow> bool result" where
  "verifySnapshotMerkleProof line proof' merkleRoot =
     (let root = (case merkleRoot of Inl b \<Rightarrow> b | Inr s \<Rightarrow> from_hex s) in
      throwIf (length root \<noteq> 32) (TypeError ''merkleRoot must be 32 bytes'')
        (Inr (case computeSnapshotMerkleRootFromProof line proof' of Inl _ \<Rightarrow> False | Inr r \<Rightarrow> r = root)))"

section \<open>The shape of the tree\<close>

fun level_pairs :: "buffer list \<Rightarrow> buffer list" where
  "level_pairs [] = []"
| "level_pairs [left] = [left @ left]"
| "level_pairs (left # right # level) = (left @ right) # level_pairs level"

lemma next_level_pairs: "buildNextMerkleLevel level = map sha256 (level_pairs level)"
  by (induction level rule: level_pairs.induct) auto

lemma level_pairs_mem: "p \<in> set (level_pairs level) \<Longrightarrow> \<exists>a \<in> set level. \<exists>b \<in> set level. p = a @ b"
  by (induction level rule: level_pairs.induct) auto

lemma next_level_nth:
  assumes "i < length level"
  shows "buildNextMerkleLevel level ! (i div 2) = sha256
    (if i mod 2 = 1 then level ! (i - 1) @ level ! i
     else level ! i @ (if i + 1 < length level then level ! (i + 1) else level ! i))"
  using assms
proof (induction level arbitrary: i rule: buildNextMerkleLevel.induct)
  case (3 left right level)
  show ?case
  proof (cases "i < 2")
    case True
    then have "i = 0 \<or> i = 1" by auto
    then show ?thesis by auto
  next
    case False
    then obtain k where k: "i = k + 2" by (metis add.commute le_Suc_ex not_less)
    with 3 show ?thesis by (cases "k mod 2 = 1") (auto simp: nth_Cons' )
  qed
qed auto

lemma merkle_levels_not_Nil [simp]: "merkle_levels_from level \<noteq> []"
  by (simp add: merkle_levels_from.simps [of level])

lemma merkle_levels_hd: "merkle_levels_from level ! 0 = level"
  by (simp add: merkle_levels_from.simps [of level])

lemma next_level_32: "\<forall>n \<in> set (buildNextMerkleLevel level). length n = 32"
  by (auto simp: next_level_pairs)

section \<open>Completeness\<close>

lemma left_right [simp]: "js ''left'' \<noteq> js ''right''" "js ''right'' \<noteq> js ''left''"
  by (simp_all add: js_def)

lemma proof_up_step:
  assumes "i < length level" and "\<forall>n \<in> set level. length n = 32"
  shows "proof_up (level ! i) (proof_step level i) = Inr (buildNextMerkleLevel level ! (i div 2))"
proof -
  have len: "length (level ! k) = 32" if "k < length level" for k
    using assms(2) nth_mem [OF that] by blast
  have "is_hex64 (to_hex (level ! k))" if "k < length level" for k
    using len [OF that] by simp
  then have "proof_step_ok (proof_step level i)"
    using assms(1) by (auto simp: proof_step_ok_def proof_step_def Let_def)
  then show ?thesis
    using next_level_nth [OF assms(1)] assms(1)
    by (auto simp: proof_up_def proof_pair_def proof_step_def Let_def)
qed

lemma proof_loop_correct:
  assumes "i < length level" and "\<forall>n \<in> set level. length n = 32"
  shows "foldE proof_up (level ! i) (proof_loop (merkle_levels_from level) i)
    = Inr (last (merkle_levels_from level) ! 0)"
  using assms
proof (induction level arbitrary: i rule: merkle_levels_from.induct)
  case (1 level)
  show ?case
  proof (cases "length level > 1")
    case True
    let ?next = "buildNextMerkleLevel level"
    have levels: "merkle_levels_from level = level # merkle_levels_from ?next"
      using True by (simp add: merkle_levels_from.simps [of level])
    obtain l ls where ls: "merkle_levels_from ?next = l # ls"
      by (cases "merkle_levels_from ?next") auto
    have "i div 2 < length ?next"
      using 1(2) by (simp add: length_next_level)
    from 1(1) [OF True this next_level_32]
    have "foldE proof_up (?next ! (i div 2)) (proof_loop (merkle_levels_from ?next) (i div 2))
        = Inr (last (merkle_levels_from ?next) ! 0)" .
    then show ?thesis
      using proof_up_step [OF 1(2,3)] by (simp add: levels ls)
  next
    case False
    with 1(2) have "i = 0" "merkle_levels_from level = [level]"
      by (simp_all add: merkle_levels_from.simps [of level])
    then show ?thesis by simp
  qed
qed

definition leaf_hashes :: "jsstr list \<Rightarrow> buffer list" where
  "leaf_hashes lines = map hashSnapshotLeafLine lines"

lemma leaf_hashes_32: "\<forall>n \<in> set (leaf_hashes lines). length n = 32"
  by (auto simp: leaf_hashes_def hashSnapshotLeafLine_def)

definition merkle_root :: "jsstr list \<Rightarrow> buffer" where
  "merkle_root lines = last (merkle_levels_from (leaf_hashes lines)) ! 0"

definition merkle_proof :: "jsstr list \<Rightarrow> nat \<Rightarrow> proof_node list" where
  "merkle_proof lines i = proof_loop (merkle_levels_from (leaf_hashes lines)) i"

lemma merkle_builders:
  assumes "i < length lines"
  shows "buildMerkleLevels (leaf_hashes lines) = Inr (merkle_levels_from (leaf_hashes lines))"
    and "buildMerkleRoot (leaf_hashes lines) = Inr (merkle_root lines)"
    and "buildMerkleProof (merkle_levels_from (leaf_hashes lines)) (int i) = Inr (merkle_proof lines i)"
proof -
  have "leaf_hashes lines \<noteq> []" using assms by (auto simp: leaf_hashes_def)
  then show "buildMerkleLevels (leaf_hashes lines) = Inr (merkle_levels_from (leaf_hashes lines))"
    by (simp add: buildMerkleLevels_def)
  then show "buildMerkleRoot (leaf_hashes lines) = Inr (merkle_root lines)"
    by (simp add: buildMerkleRoot_def merkle_root_def)
  show "buildMerkleProof (merkle_levels_from (leaf_hashes lines)) (int i) = Inr (merkle_proof lines i)"
    using assms by (simp add: buildMerkleProof_def merkle_levels_hd leaf_hashes_def merkle_proof_def)
qed

lemma length_last_level: "level \<noteq> [] \<Longrightarrow> length (last (merkle_levels_from level)) = 1"
proof (induction level rule: merkle_levels_from.induct)
  case (1 level)
  show ?case
  proof (cases "length level > 1")
    case True
    have "length (buildNextMerkleLevel level) \<noteq> 0" using True by (simp add: length_next_level)
    with True 1 show ?thesis by (simp add: merkle_levels_from.simps [of level])
  next
    case False
    with 1(2) have "length level = 1" by (cases level) auto
    then show ?thesis by (simp add: merkle_levels_from.simps [of level])
  qed
qed

lemma last_level_32:
  "level \<noteq> [] \<Longrightarrow> \<forall>n \<in> set level. length n = 32 \<Longrightarrow> length (last (merkle_levels_from level) ! 0) = 32"
proof (induction level rule: merkle_levels_from.induct)
  case (1 level)
  show ?case
  proof (cases "length level > 1")
    case True
    have "buildNextMerkleLevel level \<noteq> []"
      using True length_next_level [of level] by auto
    with True 1 next_level_32 show ?thesis by (simp add: merkle_levels_from.simps [of level])
  next
    case False
    with 1(2,3) show ?thesis by (simp add: merkle_levels_from.simps [of level])
  qed
qed

lemma honest_proof_verifies:
  assumes "i < length lines" and "ends_with_newline (lines ! i)"
  shows "verifySnapshotMerkleProof (lines ! i) (merkle_proof lines i) (Inl (merkle_root lines)) = Inr True"
proof -
  have "leaf_hashes lines \<noteq> []" using assms by (auto simp: leaf_hashes_def)
  then have "length (merkle_root lines) = 32"
    unfolding merkle_root_def using leaf_hashes_32 by (rule last_level_32)
  moreover have "hashSnapshotLeafLine (lines ! i) = leaf_hashes lines ! i"
    using assms(1) by (simp add: leaf_hashes_def)
  moreover have "foldE proof_up (leaf_hashes lines ! i) (merkle_proof lines i) = Inr (merkle_root lines)"
    unfolding merkle_proof_def merkle_root_def
    by (rule proof_loop_correct [OF _ leaf_hashes_32]) (use assms in \<open>simp add: leaf_hashes_def\<close>)
  ultimately show ?thesis
    using assms(2) by (simp add: verifySnapshotMerkleProof_def computeSnapshotMerkleRootFromProof_def)
qed

text \<open>C21: for every non-empty list of lines and every position in it, the tree, its root and the proof of
  that position are built without an error, and the proof verifies the line against the root.\<close>

theorem merkle_proof_complete:
  assumes "i < length lines" and "ends_with_newline (lines ! i)"
  shows "\<exists>levels root pf. buildMerkleLevels (map hashSnapshotLeafLine lines) = Inr levels
    \<and> buildMerkleRoot (map hashSnapshotLeafLine lines) = Inr root
    \<and> buildMerkleProof levels (int i) = Inr pf
    \<and> verifySnapshotMerkleProof (lines ! i) pf (Inl root) = Inr True"
  using merkle_builders [OF assms(1)] honest_proof_verifies [OF assms]
  unfolding leaf_hashes_def by blast

lemma merkle_proof_complete_witness:
  "\<exists>pf root. verifySnapshotMerkleProof (js ''c'' @ [10]) pf (Inl root) = Inr True"
  using merkle_proof_complete [of 2 "[js ''a'' @ [10], js ''b'' @ [10], js ''c'' @ [10]]"]
  by (auto simp: ends_with_newline_def)

section \<open>Soundness\<close>

text \<open>Everything hashed to build the tree, and everything hashed to check a proof.\<close>

definition tree_inputs :: "jsstr list \<Rightarrow> buffer list" where
  "tree_inputs lines =
     map utf8_encode lines @ map (\<lambda>l. sha256 (utf8_encode l)) lines
     @ concat (map level_pairs (merkle_levels_from (leaf_hashes lines)))"

fun path_inputs :: "buffer \<Rightarrow> proof_node list \<Rightarrow> buffer list" where
  "path_inputs node [] = []"
| "path_inputs node (step # steps) = proof_pair node step # path_inputs (sha256 (proof_pair node step)) steps"

definition proof_inputs :: "jsstr \<Rightarrow> proof_node list \<Rightarrow> buffer list" where
  "proof_inputs line steps =
     [utf8_encode line, sha256 (utf8_encode line)] @ path_inputs (hashSnapshotLeafLine line) steps"

definition hash_collision :: "buffer list \<Rightarrow> buffer list \<Rightarrow> bool" where
  "hash_collision xs ys = list_ex (\<lambda>x. list_ex (\<lambda>y. x \<noteq> y \<and> sha256 x = sha256 y) ys) xs"

lemma no_collisionD:
  "\<not> hash_collision xs ys \<Longrightarrow> x \<in> set xs \<Longrightarrow> y \<in> set ys \<Longrightarrow> sha256 x = sha256 y \<Longrightarrow> x = y"
  by (auto simp: hash_collision_def list_ex_iff)

lemma tree_node_cases:
  assumes "n \<in> set (concat (merkle_levels_from level))"
  shows "n \<in> set level \<or> (\<exists>a b. a \<in> set (concat (merkle_levels_from level)) \<and> b \<in> set (concat (merkle_levels_from level))
    \<and> a @ b \<in> set (concat (map level_pairs (merkle_levels_from level))) \<and> n = sha256 (a @ b))"
  using assms
proof (induction level rule: merkle_levels_from.induct)
  case (1 level)
  show ?case
  proof (cases "length level > 1")
    case True
    then have levels: "merkle_levels_from level = level # merkle_levels_from (buildNextMerkleLevel level)"
      by (simp add: merkle_levels_from.simps [of level])
    show ?thesis
    proof (cases "n \<in> set level")
      case False
      with 1(2) levels have n: "n \<in> set (concat (merkle_levels_from (buildNextMerkleLevel level)))" by auto
      from 1(1) [OF True n] show ?thesis
      proof
        assume "n \<in> set (buildNextMerkleLevel level)"
        then obtain p where p: "p \<in> set (level_pairs level)" "n = sha256 p"
          by (auto simp: next_level_pairs)
        then obtain a b where "a \<in> set level" "b \<in> set level" "p = a @ b"
          using level_pairs_mem by blast
        with p show ?thesis unfolding levels by auto
      next
        assume "\<exists>a b. a \<in> set (concat (merkle_levels_from (buildNextMerkleLevel level)))
          \<and> b \<in> set (concat (merkle_levels_from (buildNextMerkleLevel level)))
          \<and> a @ b \<in> set (concat (map level_pairs (merkle_levels_from (buildNextMerkleLevel level)))) \<and> n = sha256 (a @ b)"
        then show ?thesis unfolding levels by auto
      qed
    qed simp
  next
    case False
    with 1(2) show ?thesis by (simp add: merkle_levels_from.simps [of level])
  qed
qed

lemma tree_nodes_32:
  "\<forall>n \<in> set level. length n = 32 \<Longrightarrow> n \<in> set (concat (merkle_levels_from level)) \<Longrightarrow> length n = 32"
  using tree_node_cases [of n level] by auto

text \<open>What a node of the tree is the hash of.\<close>

lemma tree_node_preimage:
  assumes "n \<in> set (concat (merkle_levels_from (leaf_hashes lines)))"
  shows "(\<exists>l \<in> set lines. n = sha256 (sha256 (utf8_encode l)))
    \<or> (\<exists>a b. a \<in> set (concat (merkle_levels_from (leaf_hashes lines)))
        \<and> b \<in> set (concat (merkle_levels_from (leaf_hashes lines)))
        \<and> length a = 32 \<and> length b = 32 \<and> a @ b \<in> set (tree_inputs lines) \<and> n = sha256 (a @ b))"
proof -
  let ?levels = "merkle_levels_from (leaf_hashes lines)"
  from tree_node_cases [OF assms] show ?thesis
  proof
    assume "n \<in> set (leaf_hashes lines)"
    then show ?thesis by (auto simp: leaf_hashes_def hashSnapshotLeafLine_def)
  next
    assume "\<exists>a b. a \<in> set (concat ?levels) \<and> b \<in> set (concat ?levels)
      \<and> a @ b \<in> set (concat (map level_pairs ?levels)) \<and> n = sha256 (a @ b)"
    then obtain a b where ab: "a \<in> set (concat ?levels)" "b \<in> set (concat ?levels)"
      "a @ b \<in> set (concat (map level_pairs ?levels))" "n = sha256 (a @ b)" by blast
    moreover have "a @ b \<in> set (tree_inputs lines)" using ab(3) by (simp add: tree_inputs_def)
    moreover note tree_nodes_32 [OF leaf_hashes_32 ab(1)] tree_nodes_32 [OF leaf_hashes_32 ab(2)]
    ultimately show ?thesis by blast
  qed
qed

lemma proof_up_Inr_iff: "proof_up node step = Inr m \<longleftrightarrow> proof_step_ok step \<and> m = sha256 (proof_pair node step)"
  by (auto simp: proof_up_def throwIf_Inr_iff)

lemma path_sound:
  assumes "foldE proof_up node steps = Inr n" and "n \<in> set (concat (merkle_levels_from (leaf_hashes lines)))"
    and "length node = 32" and "\<not> hash_collision (tree_inputs lines) ys" and "set (path_inputs node steps) \<subseteq> set ys"
  shows "node \<in> set (concat (merkle_levels_from (leaf_hashes lines)))"
  using assms
proof (induction steps arbitrary: node)
  case Nil
  then show ?case by simp
next
  case (Cons step steps)
  let ?nodes = "set (concat (merkle_levels_from (leaf_hashes lines)))"
  let ?p = "proof_pair node step"
  have ok: "proof_step_ok step" and rest: "foldE proof_up (sha256 ?p) steps = Inr n"
    using Cons.prems(1) by (auto simp: bindE_Inr_iff proof_up_Inr_iff)
  have node: "sha256 ?p \<in> ?nodes"
    by (rule Cons.IH [OF rest Cons.prems(2) _ Cons.prems(4)]) (use Cons.prems(5) in auto)
  have py: "?p \<in> set ys" using Cons.prems(5) by simp
  have sib: "length (from_hex (sibling step)) = 32"
    using ok by (simp add: proof_step_ok_def)
  then have len: "length ?p = 64" using Cons.prems(3) by (simp add: proof_pair_def)
  from tree_node_preimage [OF node] show ?case
  proof
    assume "\<exists>l \<in> set lines. sha256 ?p = sha256 (sha256 (utf8_encode l))"
    then obtain l where l: "l \<in> set lines" "sha256 (sha256 (utf8_encode l)) = sha256 ?p" by auto
    have "sha256 (utf8_encode l) = ?p"
      by (rule no_collisionD [OF Cons.prems(4) _ py l(2)]) (use l(1) in \<open>simp add: tree_inputs_def\<close>)
    then have "length ?p = 32" by (metis length_sha256)
    with len show ?thesis by simp
  next
    assume "\<exists>a b. a \<in> ?nodes \<and> b \<in> ?nodes \<and> length a = 32 \<and> length b = 32
      \<and> a @ b \<in> set (tree_inputs lines) \<and> sha256 ?p = sha256 (a @ b)"
    then obtain a b where ab: "a \<in> ?nodes" "b \<in> ?nodes" "length a = 32" "length b = 32"
        "a @ b \<in> set (tree_inputs lines)" "sha256 (a @ b) = sha256 ?p" by metis
    have "a @ b = ?p" by (rule no_collisionD [OF Cons.prems(4) ab(5) py ab(6)])
    then have "node = a \<or> node = b"
      using ab(3,4) sib Cons.prems(3) by (auto simp: proof_pair_def split: if_splits)
    with ab(1,2) show ?thesis by blast
  qed
qed

lemma last_level_mem:
  "level \<noteq> [] \<Longrightarrow> last (merkle_levels_from level) ! 0 \<in> set (concat (merkle_levels_from level))"
  using length_last_level [of level] last_in_set [OF merkle_levels_not_Nil [of level]]
  by (metis UN_I nth_mem set_concat zero_less_one)

text \<open>C22: a proof of any length that verifies a line against the root of a snapshot is for a line with the
  bytes of one of the snapshot's lines, unless the values hashed by the builder and by the verifier
  contain two different ones with the same SHA-256.\<close>

theorem merkle_proof_sound:
  assumes "lines \<noteq> []" and "verifySnapshotMerkleProof line steps (Inl (merkle_root lines)) = Inr True"
  shows "(\<exists>l \<in> set lines. utf8_encode line = utf8_encode l)
    \<or> hash_collision (tree_inputs lines) (proof_inputs line steps)"
proof (cases "hash_collision (tree_inputs lines) (proof_inputs line steps)")
  case False
  let ?leaf = "hashSnapshotLeafLine line"
  have up: "foldE proof_up ?leaf steps = Inr (merkle_root lines)"
    using assms(2) by (auto simp: verifySnapshotMerkleProof_def computeSnapshotMerkleRootFromProof_def
      throwIf_def Let_def split: sum.splits if_splits)
  have "leaf_hashes lines \<noteq> []" using assms(1) by (simp add: leaf_hashes_def)
  from last_level_mem [OF this]
  have root: "merkle_root lines \<in> set (concat (merkle_levels_from (leaf_hashes lines)))"
    by (simp only: merkle_root_def)
  have leaf: "?leaf \<in> set (concat (merkle_levels_from (leaf_hashes lines)))"
    by (rule path_sound [OF up root _ False]) (auto simp: hashSnapshotLeafLine_def proof_inputs_def)
  have u: "utf8_encode line \<in> set (proof_inputs line steps)"
    and hu: "sha256 (utf8_encode line) \<in> set (proof_inputs line steps)"
    by (simp_all add: proof_inputs_def)
  from tree_node_preimage [OF leaf] show ?thesis
  proof
    assume "\<exists>l \<in> set lines. ?leaf = sha256 (sha256 (utf8_encode l))"
    then obtain l where l: "l \<in> set lines"
      and h2: "sha256 (sha256 (utf8_encode l)) = sha256 (sha256 (utf8_encode line))"
      by (auto simp: hashSnapshotLeafLine_def)
    have h1: "sha256 (utf8_encode l) = sha256 (utf8_encode line)"
      by (rule no_collisionD [OF False _ hu h2]) (use l in \<open>simp add: tree_inputs_def\<close>)
    have "utf8_encode l = utf8_encode line"
      by (rule no_collisionD [OF False _ u h1]) (use l in \<open>simp add: tree_inputs_def\<close>)
    with l show ?thesis by metis
  next
    assume "\<exists>a b. a \<in> set (concat (merkle_levels_from (leaf_hashes lines)))
        \<and> b \<in> set (concat (merkle_levels_from (leaf_hashes lines)))
        \<and> length a = 32 \<and> length b = 32 \<and> a @ b \<in> set (tree_inputs lines) \<and> ?leaf = sha256 (a @ b)"
    then obtain a b where ab: "length a = 32" "length b = 32" "a @ b \<in> set (tree_inputs lines)"
        "sha256 (a @ b) = sha256 (sha256 (utf8_encode line))"
      unfolding hashSnapshotLeafLine_def by metis
    have "a @ b = sha256 (utf8_encode line)" by (rule no_collisionD [OF False ab(3) hu ab(4)])
    then have "length (a @ b) = 32" by simp
    with ab(1,2) show ?thesis by simp
  qed
qed simp

lemma merkle_proof_sound_witness:
  "(\<exists>l \<in> {js ''a'' @ [10], js ''b'' @ [10]}. utf8_encode (js ''b'' @ [10]) = utf8_encode l)
    \<or> hash_collision (tree_inputs [js ''a'' @ [10], js ''b'' @ [10]])
        (proof_inputs (js ''b'' @ [10]) (merkle_proof [js ''a'' @ [10], js ''b'' @ [10]] 1))"
  using merkle_proof_sound [of "[js ''a'' @ [10], js ''b'' @ [10]]" "js ''b'' @ [10]"
      "merkle_proof [js ''a'' @ [10], js ''b'' @ [10]] 1"]
    honest_proof_verifies [of 1 "[js ''a'' @ [10], js ''b'' @ [10]]"]
  by (simp add: ends_with_newline_def)

section \<open>Size\<close>

lemma length_proof_loop: "levels \<noteq> [] \<Longrightarrow> length (proof_loop levels i) = length levels - 1"
proof (induction levels i rule: proof_loop.induct)
  case (3 level l ls i)
  then show ?case by simp
qed auto

lemma levels_height:
  "level \<noteq> [] \<Longrightarrow>
    length level \<le> 2 ^ (length (merkle_levels_from level) - 1)
    \<and> (length level = 1 \<and> length (merkle_levels_from level) = 1
       \<or> 1 < length (merkle_levels_from level) \<and> 2 ^ (length (merkle_levels_from level) - 2) < length level)"
proof (induction level rule: merkle_levels_from.induct)
  case (1 level)
  show ?case
  proof (cases "length level > 1")
    case True
    let ?next = "buildNextMerkleLevel level"
    define k where "k = length (merkle_levels_from ?next)"
    have len: "length (merkle_levels_from level) = Suc k"
      using True by (simp add: k_def merkle_levels_from.simps [of level])
    have n: "length ?next = (length level + 1) div 2" by (rule length_next_level)
    then have "?next \<noteq> []" using True by auto
    from 1(1) [OF True this]
    have IH: "(length level + 1) div 2 \<le> 2 ^ (k - 1)"
      "(length level + 1) div 2 = 1 \<and> k = 1 \<or> 1 < k \<and> 2 ^ (k - 2) < (length level + 1) div 2"
      by (simp_all add: k_def [symmetric] n)
    have k: "0 < k" by (simp add: k_def)
    then have p: "2 ^ k = 2 * 2 ^ (k - 1)" for b :: nat by (metis Suc_diff_1 power_Suc)
    have "length level \<le> 2 * ((length level + 1) div 2)" by simp
    then have "length level \<le> 2 ^ k" using IH(1) by (simp add: p)
    moreover have "2 ^ (k - 1) < length level"
    proof (cases "k = 1")
      case True
      then show ?thesis using \<open>length level > 1\<close> by simp
    next
      case False
      with IH(2) k have "2 ^ (k - 2) < (length level + 1) div 2" by auto
      moreover have "(2::nat) ^ (k - 1) = 2 * 2 ^ (k - 2)"
        using False k by (metis One_nat_def Suc_1 Suc_diff_Suc Suc_lessI diff_Suc_1 power_Suc)
      ultimately show ?thesis by linarith
    qed
    ultimately show ?thesis using k by (simp add: len)
  next
    case False
    with 1(2) have "length level = 1" by (cases level) auto
    then show ?thesis by (simp add: merkle_levels_from.simps [of level])
  qed
qed

text \<open>The proofs of a snapshot of \<open>n\<close> lines have the length of the binary logarithm of \<open>n\<close>, rounded up.\<close>

theorem merkle_proof_length:
  assumes "lines \<noteq> []"
  shows "length lines \<le> 2 ^ length (merkle_proof lines i)
    \<and> (length lines = 1 \<and> merkle_proof lines i = [] \<or> 2 ^ (length (merkle_proof lines i) - 1) < length lines)"
proof -
  have "leaf_hashes lines \<noteq> []" using assms by (simp add: leaf_hashes_def)
  note h = levels_height [OF this]
  let ?k = "length (merkle_levels_from (leaf_hashes lines))"
  have k: "length (merkle_proof lines i) = ?k - 1"
    by (simp add: merkle_proof_def length_proof_loop)
  have n: "length (leaf_hashes lines) = length lines" by (simp add: leaf_hashes_def)
  have two: "?k - 1 - 1 = ?k - 2" by simp
  show ?thesis
  proof (cases "?k = 1")
    case True
    then have "merkle_proof lines i = []" using k by simp
    with True h n k show ?thesis by simp
  next
    case False
    with h n show ?thesis unfolding k two by simp
  qed
qed

lemma merkle_proof_length_witness: "length (merkle_proof (replicate 5 (js ''x'' @ [10])) 3) = 3"
proof -
  have "replicate 5 (js ''x'' @ [10]) \<noteq> []" by simp
  from merkle_proof_length [OF this, of 3]
  have "(5::nat) \<le> 2 ^ length (merkle_proof (replicate 5 (js ''x'' @ [10])) 3)"
    "(2::nat) ^ (length (merkle_proof (replicate 5 (js ''x'' @ [10])) 3) - 1) < 5" by auto
  moreover have "k = 3" if "(5::nat) \<le> 2 ^ k" "(2::nat) ^ (k - 1) < 5" for k
  proof -
    have "k - 1 < 3" using that(2) power_increasing [of 3 "k - 1" "2::nat"] by (cases "3 \<le> k - 1") auto
    moreover have "2 < k" using that(1) power_increasing [of k 2 "2::nat"] by (cases "k \<le> 2") auto
    ultimately show ?thesis by simp
  qed
  ultimately show ?thesis by blast
qed

end
