(* ===== verification/Snapshot_Entries.thy ===== *)
theory Snapshot_Entries
  imports Json Merkle
begin

text \<open>
  The entries of \<^verbatim>\<open>sdk/snapshot.ts\<close>: the five formulas, the validation of identifiers, weights, orders,
  scores and lamports, the normalisation of participants, the canonical JSON line of an entry, the
  snapshot hash and the reader of a snapshot file. Configuration objects are \<open>jsval\<close>s, an entry that has
  been validated is a record.

  A snapshot file is its bytes. Where the source loops over an async generator of entries, the loop here
  goes over the lines of the file and parses each as it meets it, so errors come in the same order.
\<close>

section \<open>Constants, formulas and records\<close>

definition MAX_OUTCOME_ID_BYTES :: nat where "MAX_OUTCOME_ID_BYTES = 64"

definition MAX_WINNERS :: int where "MAX_WINNERS = 32"

definition MAX_U32 :: int where "MAX_U32 = 4294967295"

definition MAX_U64 :: int where "MAX_U64 = 18446744073709551615"

definition MIN_I64 :: int where "MIN_I64 = -9223372036854775808"

definition MAX_I64 :: int where "MAX_I64 = 9223372036854775807"

lemmas bound_defs = MAX_U32_def MAX_U64_def MIN_I64_def MAX_I64_def MAX_WINNERS_def MAX_OUTCOME_ID_BYTES_def
  MAX_SAFE_INTEGER_def

datatype formula = Weighted_random | Rank_desc | Rank_asc | First_n | Closest_to

fun formula_code :: "formula \<Rightarrow> int" where
  "formula_code Weighted_random = 1"
| "formula_code Rank_desc = 2"
| "formula_code Rank_asc = 3"
| "formula_code First_n = 4"
| "formula_code Closest_to = 5"

fun formula_name :: "formula \<Rightarrow> jsstr" where
  "formula_name Weighted_random = js ''weighted_random''"
| "formula_name Rank_desc = js ''rank_desc''"
| "formula_name Rank_asc = js ''rank_asc''"
| "formula_name First_n = js ''first_n''"
| "formula_name Closest_to = js ''closest_to''"

record participant =
  p_id :: jsstr
  p_order :: int
  p_weight :: int
  p_score :: int

section \<open>Validation\<close>

definition validateFormula :: "jsval \<Rightarrow> formula result" where
  "validateFormula value =
     (if value = JString (js ''weighted_random'') then Inr Weighted_random
      else if value = JString (js ''rank_desc'') then Inr Rank_desc
      else if value = JString (js ''rank_asc'') then Inr Rank_asc
      else if value = JString (js ''first_n'') then Inr First_n
      else if value = JString (js ''closest_to'') then Inr Closest_to
      else Inl (RangeError ''formula must be weighted_random, rank_desc, rank_asc, first_n, or closest_to''))"

definition outcome_id_ok :: "jsstr \<Rightarrow> bool" where
  "outcome_id_ok s \<longleftrightarrow> 0 < length s \<and> length s \<le> MAX_OUTCOME_ID_BYTES \<and> printable_ascii s"

definition validateOutcomeId :: "jsval \<Rightarrow> jsstr result" where
  "validateOutcomeId v =
     (case v of JString s \<Rightarrow>
        throwIf (\<not> outcome_id_ok s) (RangeError ''must be printable ASCII <= 64 bytes'') (Inr s)
      | _ \<Rightarrow> Inl (TypeError ''must be a string''))"

definition validateOutcomeIdLength :: "jsstr \<Rightarrow> unit result" where
  "validateOutcomeIdLength s =
     throwIf (\<not> outcome_id_ok s) (RangeError ''snapshot outcome id must be printable ASCII <= 64 bytes'') (Inr ())"

definition validateWeight :: "jsval \<Rightarrow> int result" where
  "validateWeight v =
     (case v of JNumber (NInt n) \<Rightarrow>
        throwIf (n \<le> 0 \<or> MAX_U32 < n) (RangeError ''must be an integer 1..MAX_U32'') (Inr n)
      | _ \<Rightarrow> Inl (RangeError ''must be an integer 1..MAX_U32''))"

definition validateOrder :: "jsval \<Rightarrow> int result" where
  "validateOrder v =
     (case v of JNumber (NInt n) \<Rightarrow>
        throwIf (n < 0 \<or> MAX_SAFE_INTEGER < n) (RangeError ''must be a non-negative safe integer'') (Inr n)
      | _ \<Rightarrow> Inl (RangeError ''must be a non-negative safe integer''))"

definition is_safe_integer :: "js_number \<Rightarrow> bool" where
  "is_safe_integer x = (case x of NInt n \<Rightarrow> \<bar>n\<bar> \<le> MAX_SAFE_INTEGER | NFrac \<Rightarrow> False)"

definition parseSignedInteger :: "jsval \<Rightarrow> int result" where
  "parseSignedInteger v =
     (case v of
        JBigInt n \<Rightarrow> throwIf (n < MIN_I64 \<or> MAX_I64 < n) (RangeError ''must fit in i64'') (Inr n)
      | JNumber x \<Rightarrow>
          throwIf (\<not> is_safe_integer x) (RangeError ''must be a signed safe integer'')
            (case x of NInt n \<Rightarrow> throwIf (n < MIN_I64 \<or> MAX_I64 < n) (RangeError ''must fit in i64'') (Inr n)
             | NFrac \<Rightarrow> Inr 0)
      | _ \<Rightarrow> Inl (TypeError ''must be a bigint or signed safe integer number''))"

definition parsePositiveLamports :: "jsval \<Rightarrow> int result" where
  "parsePositiveLamports v =
     (case v of
        JBigInt n \<Rightarrow> throwIf (n \<le> 0 \<or> MAX_U64 < n) (RangeError ''must be between 1 and u64::MAX'') (Inr n)
      | JNumber x \<Rightarrow>
          (case x of NInt n \<Rightarrow>
             throwIf (\<not> is_safe_integer x \<or> n \<le> 0) (RangeError ''must be a positive safe integer'')
               (throwIf (MAX_U64 < n) (RangeError ''must fit in u64'') (Inr n))
           | NFrac \<Rightarrow> Inl (RangeError ''must be a positive safe integer''))
      | _ \<Rightarrow> Inl (TypeError ''must be a bigint or safe integer number''))"

definition parseOptionalLamports :: "jsval \<Rightarrow> int \<Rightarrow> int result" where
  "parseOptionalLamports v fallback = (if v = JUndefined then Inr fallback else parsePositiveLamports v)"

definition parseNonNegativeLamports :: "jsval \<Rightarrow> int result" where
  "parseNonNegativeLamports v =
     (if v = JNumber (NInt 0) \<or> v = JBigInt 0 then Inr 0 else parsePositiveLamports v)"

definition parseOptionalNonNegativeLamports :: "jsval \<Rightarrow> int \<Rightarrow> int result" where
  "parseOptionalNonNegativeLamports v fallback =
     (if v = JUndefined then Inr fallback else parseNonNegativeLamports v)"

definition validateWinnersCount :: "jsval \<Rightarrow> int \<Rightarrow> int result" where
  "validateWinnersCount value participantCount =
     (case (if value = JUndefined then JNumber (NInt 1) else value) of
        JNumber (NInt n) \<Rightarrow>
          throwIf (n \<le> 0) (RangeError ''winners_count must be > 0'')
         (throwIf (participantCount < n) (RangeError ''winners_count must be <= participant count'')
         (throwIf (MAX_WINNERS < n) (RangeError ''winners_count must be <= 32'') (Inr n)))
      | _ \<Rightarrow> Inl (TypeError ''winners_count must be an integer''))"

section \<open>Normalisation\<close>

definition compareId :: "jsstr \<Rightarrow> jsstr \<Rightarrow> int" where
  "compareId left right = buffer_compare (ascii_bytes left) (ascii_bytes right)"

definition normalizeSnapshotParticipant :: "formula \<Rightarrow> nat \<times> jsval \<Rightarrow> participant result" where
  "normalizeSnapshotParticipant f ir =
     (case ir of (index, raw) \<Rightarrow>
      bindE (assertObject raw) (\<lambda>o'.
      bindE (validateOutcomeId (prop_of o' ''id'')) (\<lambda>id'.
      bindE (if prop_of o' ''order'' = JUndefined then Inr (int index) else validateOrder (prop_of o' ''order'')) (\<lambda>order.
      if f = Weighted_random then
        throwIf (prop_of o' ''score'' \<noteq> JUndefined) (TypeError ''score is not supported for weighted_random'')
       (bindE (if prop_of o' ''weight'' = JUndefined then Inr 1 else validateWeight (prop_of o' ''weight'')) (\<lambda>weight.
        Inr \<lparr>p_id = id', p_order = order, p_weight = weight, p_score = 0\<rparr>))
      else
        throwIf (prop_of o' ''weight'' \<noteq> JUndefined) (TypeError ''weight is only supported for weighted_random'')
       (if f = First_n then
          throwIf (prop_of o' ''score'' \<noteq> JUndefined) (TypeError ''score is not supported for first_n'')
            (Inr \<lparr>p_id = id', p_order = order, p_weight = 1, p_score = 0\<rparr>)
        else
          bindE (parseSignedInteger (prop_of o' ''score'')) (\<lambda>score.
            Inr \<lparr>p_id = id', p_order = order, p_weight = 1, p_score = score\<rparr>))))))"

text \<open>\<^verbatim>\<open>if (!Array.isArray(participants) || participants.length === 0) throw\<close>\<close>

definition participant_array :: "jsval \<Rightarrow> jsval list result" where
  "participant_array v =
     (case v of JArray xs \<Rightarrow> throwIf (xs = []) (RangeError ''participants must be a non-empty array'') (Inr xs)
      | _ \<Rightarrow> Inl (RangeError ''participants must be a non-empty array''))"

definition sort_by_id :: "participant list \<Rightarrow> participant list" where
  "sort_by_id es = js_sort (\<lambda>l r. compareId (p_id l) (p_id r)) es"

definition check_duplicate_ids :: "string \<Rightarrow> participant list \<Rightarrow> unit result" where
  "check_duplicate_ids message es =
     bindE (foldE (\<lambda>previous entry.
        throwIf (previous = Some (p_id entry)) (Error message) (Inr (Some (p_id entry)))) None es)
       (\<lambda>_. Inr ())"

definition normalizeSnapshotParticipants :: "jsval \<Rightarrow> jsval \<Rightarrow> participant list result" where
  "normalizeSnapshotParticipants participants formulaInput =
     bindE (validateFormula formulaInput) (\<lambda>f.
     bindE (participant_array participants) (\<lambda>raws.
     bindE (mapE (normalizeSnapshotParticipant f) (enumerate 0 raws)) (\<lambda>es.
     let out = sort_by_id es in
     bindE (check_duplicate_ids ''duplicate participant id'' out) (\<lambda>_. Inr out))))"

section \<open>Compact named entries\<close>

definition ensureV5FormulaFields :: "formula \<Rightarrow> nat \<times> jsval \<Rightarrow> participant result" where
  "ensureV5FormulaFields f ir =
     (case ir of (index, raw) \<Rightarrow>
      bindE (assertObject raw) (\<lambda>o'.
      bindE (validateOutcomeId (prop_of o' ''id'')) (\<lambda>id'.
      bindE (if prop_of o' ''order'' = JUndefined then Inr (int index) else validateOrder (prop_of o' ''order'')) (\<lambda>order.
      throwIf (65535 < order) (RangeError ''order must fit in u16'')
     (if f = Weighted_random then
        throwIf (prop_of o' ''score'' \<noteq> JUndefined) (TypeError ''score is not supported for weighted_random'')
       (bindE (if prop_of o' ''weight'' = JUndefined then Inr 1 else validateWeight (prop_of o' ''weight'')) (\<lambda>weight.
        Inr \<lparr>p_id = id', p_order = order, p_weight = weight, p_score = 0\<rparr>))
      else
        throwIf (prop_of o' ''weight'' \<noteq> JUndefined \<and> prop_of o' ''weight'' \<noteq> JNumber (NInt 1))
          (TypeError ''weight must be omitted or 1 outside weighted_random'')
       (if f = First_n then
          throwIf (prop_of o' ''score'' \<noteq> JUndefined) (TypeError ''score is not supported for first_n'')
            (Inr \<lparr>p_id = id', p_order = order, p_weight = 1, p_score = 0\<rparr>)
        else
          bindE (parseSignedInteger (prop_of o' ''score'')) (\<lambda>score.
            Inr \<lparr>p_id = id', p_order = order, p_weight = 1, p_score = score\<rparr>)))))))"

text \<open>The set of orders already seen, as a list.\<close>

definition check_orders :: "participant list \<Rightarrow> int list result" where
  "check_orders es =
     foldE (\<lambda>seenOrders entry.
       throwIf (int (length es) \<le> p_order entry) (RangeError ''v5 entry order must be in 0..entry_count-1'')
      (throwIf (p_order entry \<in> set seenOrders) (Error ''v5 entry order must be unique'')
         (Inr (p_order entry # seenOrders)))) [] es"

definition normalizeCompactNamedEntries :: "jsval \<Rightarrow> jsval \<Rightarrow> participant list result" where
  "normalizeCompactNamedEntries participants formulaInput =
     bindE (validateFormula formulaInput) (\<lambda>f.
     bindE (participant_array participants) (\<lambda>raws.
     throwIf (65535 < length raws) (RangeError ''v5 entry_count must fit in u16'')
    (bindE (mapE (ensureV5FormulaFields f) (enumerate 0 raws)) (\<lambda>es.
     bindE (check_orders es) (\<lambda>_.
     let out = sort_by_id es in
     bindE (check_duplicate_ids ''duplicate v5 entry id'' out) (\<lambda>_. Inr out))))))"

section \<open>Canonical lines and the snapshot hash\<close>

definition canonical_fields :: "participant \<Rightarrow> formula \<Rightarrow> (jsstr \<times> json_field) list" where
  "canonical_fields entry f =
     [(js ''id'', FString (p_id entry)), (js ''order'', FInt (p_order entry))]
     @ (if f = Weighted_random then [(js ''weight'', FInt (p_weight entry))]
        else if f = First_n then []
        else [(js ''score'', FString (dec_string (p_score entry)))])"

definition canonicalSnapshotLine :: "participant \<Rightarrow> formula \<Rightarrow> jsstr" where
  "canonicalSnapshotLine entry f = stringify_object (canonical_fields entry f) @ [10]"

definition hashSnapshotLeaf :: "participant \<Rightarrow> formula \<Rightarrow> buffer" where
  "hashSnapshotLeaf entry f = hashSnapshotLeafLine (canonicalSnapshotLine entry f)"

record snapshot_summary =
  snapshotHash :: buffer
  snapshotCount :: nat
  merkleRootOf :: buffer
  canonicalSnapshot :: jsstr

text \<open>\<^verbatim>\<open>hash.update(line, "utf8")\<close> for each line hashes the concatenated bytes. The digests are bytes here;
  the source returns them in hexadecimal.\<close>

definition buildSnapshotHash :: "jsval \<Rightarrow> jsval \<Rightarrow> snapshot_summary result" where
  "buildSnapshotHash formulaInput participants =
     bindE (validateFormula formulaInput) (\<lambda>f.
     bindE (normalizeSnapshotParticipants participants formulaInput) (\<lambda>normalized.
     let lines = map (\<lambda>entry. canonicalSnapshotLine entry f) normalized in
     bindE (buildMerkleRoot (map hashSnapshotLeafLine lines)) (\<lambda>root.
     Inr \<lparr>snapshotHash = sha256 (concat (map utf8_encode lines)), snapshotCount = length normalized,
          merkleRootOf = root, canonicalSnapshot = concat lines\<rparr>)))"

section \<open>Reading a snapshot file\<close>

text \<open>\<^verbatim>\<open>readline\<close> with \<^verbatim>\<open>crlfDelay: Infinity\<close> ends a line at LF, CR, CR LF, U+2028 and U+2029.\<close>

definition line_end :: "16 word \<Rightarrow> bool" where
  "line_end c \<longleftrightarrow> c = 10 \<or> c = 13 \<or> c = 0x2028 \<or> c = 0x2029"

fun split_lines :: "jsstr \<Rightarrow> jsstr \<Rightarrow> jsstr list" where
  "split_lines acc [] = [rev acc]"
| "split_lines acc [c] = (if line_end c then [rev acc, []] else [rev (c # acc)])"
| "split_lines acc (c # d # cs) =
     (if c = 13 \<and> d = 10 then rev acc # split_lines [] cs
      else if line_end c then rev acc # split_lines [] (d # cs)
      else split_lines (c # acc) (d # cs))"

definition file_lines :: "buffer \<Rightarrow> jsstr list" where
  "file_lines file = split_lines [] (utf8_decode file)"

text \<open>One line: a blank one is skipped, any other is parsed and validated.\<close>

definition snapshot_score :: "jsval \<Rightarrow> int result" where
  "snapshot_score v =
     (case v of JString s \<Rightarrow>
        (case bigint_of_string s of None \<Rightarrow> Inl (Error ''SyntaxError'') | Some n \<Rightarrow> parseSignedInteger (JBigInt n))
      | _ \<Rightarrow> parseSignedInteger v)"

definition snapshot_line :: "formula \<Rightarrow> jsstr \<Rightarrow> participant option result" where
  "snapshot_line f rawLine =
     (let line = js_trim rawLine in
      if line = [] then Inr None
      else case json_parse line of None \<Rightarrow> Inl (Error ''Invalid snapshot JSONL'')
      | Some parsed \<Rightarrow>
        bindE (assertObject parsed) (\<lambda>o'.
        bindE (validateOutcomeId (prop_of o' ''id'')) (\<lambda>id'.
        bindE (validateOrder (prop_of o' ''order'')) (\<lambda>order.
        if f = Weighted_random then
          bindE (validateWeight (prop_of o' ''weight'')) (\<lambda>weight.
            Inr (Some \<lparr>p_id = id', p_order = order, p_weight = weight, p_score = 0\<rparr>))
        else if f = First_n then Inr (Some \<lparr>p_id = id', p_order = order, p_weight = 1, p_score = 0\<rparr>)
        else
          bindE (snapshot_score (prop_of o' ''score'')) (\<lambda>score.
            Inr (Some \<lparr>p_id = id', p_order = order, p_weight = 1, p_score = score\<rparr>))))))"

text \<open>\<^verbatim>\<open>for await (const entry of readCanonicalSnapshotEntries(path, formula)) body\<close>\<close>

definition for_entries :: "formula \<Rightarrow> buffer \<Rightarrow> ('s \<Rightarrow> participant \<Rightarrow> 's result) \<Rightarrow> 's \<Rightarrow> 's result" where
  "for_entries f file body s =
     foldE (\<lambda>st raw. bindE (snapshot_line f raw) (\<lambda>e. case e of None \<Rightarrow> Inr st | Some entry \<Rightarrow> body st entry))
       s (file_lines file)"

text \<open>The loop shared by \<^verbatim>\<open>inspectSnapshotFile\<close> and \<^verbatim>\<open>buildSnapshotMerkleProofFromFile\<close>; the state is
  (previousId, entries read).\<close>

definition inspect_step ::
  "jsstr option \<times> participant list \<Rightarrow> participant \<Rightarrow> (jsstr option \<times> participant list) result" where
  "inspect_step st entry =
     (case st of (previousId, seen) \<Rightarrow>
      throwIf (\<exists>p. previousId = Some p \<and> 0 \<le> compareId p (p_id entry))
        (Error ''Snapshot entries must be strictly sorted by id'')
        (Inr (Some (p_id entry), seen @ [entry])))"

definition check_committed ::
  "snapshot_summary \<Rightarrow> jsstr option \<Rightarrow> int option \<Rightarrow> jsval \<Rightarrow> unit result" where
  "check_committed s expectedHash expectedCount expectedMerkleRoot =
     throwIf (\<exists>h. expectedHash = Some h \<and> h \<noteq> [] \<and> to_hex (snapshotHash s) \<noteq> map hex_lower h)
       (Error ''Snapshot hash does not match committed snapshot_hash'')
    (throwIf (\<exists>n. expectedCount = Some n \<and> int (snapshotCount s) \<noteq> n)
       (Error ''Snapshot count does not match committed snapshot_count'')
    (if expectedMerkleRoot = JUndefined \<or> expectedMerkleRoot = JString [] then Inr ()
     else bindE (normalizeHex32 expectedMerkleRoot) (\<lambda>r.
       throwIf (to_hex (merkleRootOf s) \<noteq> r)
         (Error ''Snapshot merkle root does not match committed merkle_root'') (Inr ()))))"

definition inspectSnapshotFile ::
  "buffer \<Rightarrow> jsval \<Rightarrow> jsstr option \<Rightarrow> int option \<Rightarrow> jsval \<Rightarrow> snapshot_summary result" where
  "inspectSnapshotFile file formulaInput expectedHash expectedCount expectedMerkleRoot =
     bindE (validateFormula formulaInput) (\<lambda>f.
     bindE (for_entries f file inspect_step (None, [])) (\<lambda>(_, entries).
     throwIf (entries = []) (Error ''Snapshot must not be empty'')
    (let lines = map (\<lambda>entry. canonicalSnapshotLine entry f) entries in
     bindE (buildMerkleRoot (map hashSnapshotLeafLine lines)) (\<lambda>root.
     let s = \<lparr>snapshotHash = sha256 (concat (map utf8_encode lines)), snapshotCount = length entries,
              merkleRootOf = root, canonicalSnapshot = concat lines\<rparr> in
     bindE (check_committed s expectedHash expectedCount expectedMerkleRoot) (\<lambda>_. Inr s)))))"

record file_proof =
  fp_summary :: snapshot_summary
  fp_participant :: "participant option"
  fp_proof :: "proof_node list"

text \<open>The last entry with the identifier; entries are strictly sorted, so it is the only one.\<close>

definition last_index :: "(participant \<Rightarrow> bool) \<Rightarrow> participant list \<Rightarrow> nat option" where
  "last_index P es = (case filter (\<lambda>i. P (es ! i)) [0..<length es] of [] \<Rightarrow> None | is \<Rightarrow> Some (last is))"

definition buildSnapshotMerkleProofFromFile ::
  "buffer \<Rightarrow> jsval \<Rightarrow> jsval \<Rightarrow> jsstr option \<Rightarrow> int option \<Rightarrow> jsval \<Rightarrow> file_proof result" where
  "buildSnapshotMerkleProofFromFile file formulaInput participantId expectedHash expectedCount expectedMerkleRoot =
     bindE (validateFormula formulaInput) (\<lambda>f.
     bindE (validateOutcomeId participantId) (\<lambda>id'.
     bindE (for_entries f file inspect_step (None, [])) (\<lambda>(_, entries).
     throwIf (entries = []) (Error ''Snapshot must not be empty'')
    (let lines = map (\<lambda>entry. canonicalSnapshotLine entry f) entries in
     bindE (buildMerkleLevels (map hashSnapshotLeafLine lines)) (\<lambda>levels.
     let s = \<lparr>snapshotHash = sha256 (concat (map utf8_encode lines)), snapshotCount = length entries,
              merkleRootOf = last levels ! 0, canonicalSnapshot = concat lines\<rparr> in
     bindE (check_committed s expectedHash expectedCount expectedMerkleRoot) (\<lambda>_.
     case last_index (\<lambda>e. p_id e = id') entries of
       None \<Rightarrow> Inr \<lparr>fp_summary = s, fp_participant = None, fp_proof = []\<rparr>
     | Some i \<Rightarrow> bindE (buildMerkleProof levels (int i)) (\<lambda>pf.
         Inr \<lparr>fp_summary = s, fp_participant = Some (entries ! i), fp_proof = pf\<rparr>)))))))"

end
