(* ===== verification/Snapshot_File.thy ===== *)
theory Snapshot_File
  imports Snapshot_Entries
begin

text \<open>
  What the snapshot functions promise together: normalisation sorts by identifier, rejects duplicates
  and does not depend on the order of the input; the canonical snapshot, written to a file, is read back
  as the same entries and passes the inspection against its own hash, count and root; the proof built
  from a file verifies; equal snapshot hashes mean equal entries, up to a SHA-256 collision.
\<close>

section \<open>Validated entries\<close>

definition participant_ok :: "formula \<Rightarrow> participant \<Rightarrow> bool" where
  "participant_ok f e \<longleftrightarrow>
     outcome_id_ok (p_id e) \<and> 0 \<le> p_order e \<and> p_order e \<le> MAX_SAFE_INTEGER \<and>
     (if f = Weighted_random then 0 < p_weight e \<and> p_weight e \<le> MAX_U32 \<and> p_score e = 0
      else p_weight e = 1 \<and> (if f = First_n then p_score e = 0 else MIN_I64 \<le> p_score e \<and> p_score e \<le> MAX_I64))"

lemma validateOutcomeId_Inr_iff [result_simps]:
  "validateOutcomeId v = Inr s \<longleftrightarrow> v = JString s \<and> outcome_id_ok s"
  by (auto simp: validateOutcomeId_def throwIf_Inr_iff split: jsval.splits)

lemma validateOrder_Inr_iff [result_simps]:
  "validateOrder v = Inr n \<longleftrightarrow> v = JNumber (NInt n) \<and> 0 \<le> n \<and> n \<le> MAX_SAFE_INTEGER"
  by (auto simp: validateOrder_def throwIf_Inr_iff split: jsval.splits js_number.splits)

lemma validateWeight_Inr_iff [result_simps]:
  "validateWeight v = Inr n \<longleftrightarrow> v = JNumber (NInt n) \<and> 0 < n \<and> n \<le> MAX_U32"
  by (auto simp: validateWeight_def throwIf_Inr_iff split: jsval.splits js_number.splits)

lemma parseSignedInteger_range: "parseSignedInteger v = Inr n \<Longrightarrow> MIN_I64 \<le> n \<and> n \<le> MAX_I64"
  by (auto simp: parseSignedInteger_def throwIf_Inr_iff is_safe_integer_def split: jsval.splits js_number.splits)

lemma parseSignedInteger_bigint: "MIN_I64 \<le> n \<Longrightarrow> n \<le> MAX_I64 \<Longrightarrow> parseSignedInteger (JBigInt n) = Inr n"
  by (simp add: parseSignedInteger_def)

lemma normalizeSnapshotParticipant_ok:
  assumes "normalizeSnapshotParticipant f (i, raw) = Inr e" and "int i \<le> MAX_SAFE_INTEGER"
  shows "participant_ok f e"
  using assms
  by (auto simp: normalizeSnapshotParticipant_def participant_ok_def result_simps bound_defs
      dest!: parseSignedInteger_range split: if_splits)

section \<open>Sorting by identifier\<close>

lemma ascii_bytes_inject:
  assumes "outcome_id_ok s" and "outcome_id_ok t" and "ascii_bytes s = ascii_bytes t"
  shows "s = t"
proof (rule map_inj_on [OF assms(3) [unfolded ascii_bytes_def]])
  have small: "unat c < 256" if "c \<in> set s \<union> set t" for c
  proof -
    have "c \<le> 126" using that assms by (auto simp: outcome_id_ok_def printable_ascii_def printable_unit_def)
    then show ?thesis by (simp add: word_le_nat_alt)
  qed
  show "inj_on (ucast :: 16 word \<Rightarrow> byte) (set s \<union> set t)"
  proof (rule inj_onI)
    fix c d :: "16 word"
    assume c: "c \<in> set s \<union> set t" and d: "d \<in> set s \<union> set t" and eq: "ucast c = (ucast d :: byte)"
    have "unat (ucast c :: byte) = unat c" "unat (ucast d :: byte) = unat d"
      using small [OF c] small [OF d] by (simp_all add: unsigned_ucast_eq take_bit_nat_eq_self)
    with eq show "c = d" by (metis word_unat_eq_iff)
  qed
qed

interpretation ids: comparator "\<lambda>l r. compareId (p_id l) (p_id r)"
  unfolding compareId_def by (rule comparator_map) (rule bytes.comparator_axioms)

lemma compareId_zero: "outcome_id_ok s \<Longrightarrow> outcome_id_ok t \<Longrightarrow> compareId s t = 0 \<longleftrightarrow> s = t"
  by (auto simp: compareId_def dest: ascii_bytes_inject)

lemma check_duplicates_loop:
  "is_ok (foldE (\<lambda>previous entry. throwIf (previous = Some (p_id entry)) e (Inr (Some (p_id entry)))) prev es)
    \<longleftrightarrow> (case es of [] \<Rightarrow> True | x # _ \<Rightarrow> prev \<noteq> Some (p_id x))
      \<and> (\<forall>i. Suc i < length es \<longrightarrow> p_id (es ! i) \<noteq> p_id (es ! Suc i))"
proof (induction es arbitrary: prev)
  case Nil
  show ?case by simp
next
  case (Cons x es)
  show ?case
  proof (cases "prev = Some (p_id x)")
    case False
    have "(\<forall>i. Suc i < length (x # es) \<longrightarrow> p_id ((x # es) ! i) \<noteq> p_id ((x # es) ! Suc i))
        \<longleftrightarrow> (case es of [] \<Rightarrow> True | y # _ \<Rightarrow> p_id x \<noteq> p_id y)
          \<and> (\<forall>i. Suc i < length es \<longrightarrow> p_id (es ! i) \<noteq> p_id (es ! Suc i))"
    proof (cases es)
      case (Cons y ys)
      then show ?thesis by (auto simp: nth_Cons' All_less_Suc2 split: nat.splits)
    qed simp
    then show ?thesis using False by (auto simp: Cons split: list.splits)
  qed simp
qed

lemma check_duplicate_ids_iff:
  "check_duplicate_ids m es = Inr () \<longleftrightarrow> (\<forall>i. Suc i < length es \<longrightarrow> p_id (es ! i) \<noteq> p_id (es ! Suc i))"
proof -
  have "check_duplicate_ids m es = Inr () \<longleftrightarrow>
      is_ok (foldE (\<lambda>previous entry. throwIf (previous = Some (p_id entry)) (Error m) (Inr (Some (p_id entry)))) None es)"
    by (auto simp: check_duplicate_ids_def is_ok_iff bindE_Inr_iff)
  then show ?thesis by (simp add: check_duplicates_loop split: list.splits)
qed

definition strictly_sorted_ids :: "participant list \<Rightarrow> bool" where
  "strictly_sorted_ids es \<longleftrightarrow> sorted_wrt (\<lambda>l r. compareId (p_id l) (p_id r) < 0) es"

lemma compareId_less_trans: "compareId a b < 0 \<Longrightarrow> compareId b c < 0 \<Longrightarrow> compareId a c < 0"
  unfolding compareId_def by (rule buffer_compare_trans)

lemma sorted_no_duplicates:
  assumes "check_duplicate_ids m (sort_by_id es) = Inr ()" and "\<forall>e \<in> set es. outcome_id_ok (p_id e)"
  shows "strictly_sorted_ids (sort_by_id es)"
proof -
  let ?s = "sort_by_id es"
  have ok: "outcome_id_ok (p_id (?s ! i))" if "i < length ?s" for i
    using nth_mem [OF that] assms(2) by (simp add: sort_by_id_def)
  have "compareId (p_id (?s ! i)) (p_id (?s ! Suc i)) < 0" if "Suc i < length ?s" for i
  proof -
    have "compareId (p_id (?s ! i)) (p_id (?s ! Suc i)) \<le> 0"
      using ids.sorted_nth_le [of i "Suc i" es] that by (simp add: sort_by_id_def)
    moreover have "compareId (p_id (?s ! i)) (p_id (?s ! Suc i)) \<noteq> 0"
      using assms(1) that ok compareId_zero by (simp add: check_duplicate_ids_iff)
    ultimately show ?thesis by simp
  qed
  then show ?thesis
    unfolding strictly_sorted_ids_def
    by (subst sorted_wrt_iff_nth_Suc_transp) (auto intro: transpI compareId_less_trans)
qed

lemma strictly_sorted_distinct: "strictly_sorted_ids es \<Longrightarrow> distinct (map p_id es)"
  by (induction es) (auto simp: strictly_sorted_ids_def compareId_def)

text \<open>No JavaScript array is longer than \<^verbatim>\<open>2 ** 32 - 1\<close>.\<close>

definition array_length :: "jsval \<Rightarrow> nat" where
  "array_length v = (case v of JArray xs \<Rightarrow> length xs | _ \<Rightarrow> 0)"

lemma normalizeSnapshotParticipants_D:
  assumes "normalizeSnapshotParticipants parts fv = Inr es" and "array_length parts < 4294967296"
  obtains f raws es0 where "validateFormula fv = Inr f" and "parts = JArray raws" and "raws \<noteq> []"
    and "mapE (normalizeSnapshotParticipant f) (enumerate 0 raws) = Inr es0" and "es = sort_by_id es0"
    and "check_duplicate_ids ''duplicate participant id'' es = Inr ()"
    and "\<forall>e \<in> set es. participant_ok f e" and "strictly_sorted_ids es"
proof -
  from assms(1) obtain f raws es0 where f: "validateFormula fv = Inr f" and raws: "participant_array parts = Inr raws"
    and es0: "mapE (normalizeSnapshotParticipant f) (enumerate 0 raws) = Inr es0" and es: "es = sort_by_id es0"
    and dup: "check_duplicate_ids ''duplicate participant id'' es = Inr ()"
    by (auto simp: normalizeSnapshotParticipants_def bindE_Inr_iff Let_def)
  from raws have parts: "parts = JArray raws" and ne: "raws \<noteq> []"
    by (auto simp: participant_array_def throwIf_Inr_iff split: jsval.splits)
  have "participant_ok f e" if "e \<in> set es0" for e
  proof -
    from mapE_Inr_set [OF es0 that] obtain i raw where ir: "(i, raw) \<in> set (enumerate 0 raws)"
      and n: "normalizeSnapshotParticipant f (i, raw) = Inr e" by auto
    from ir have "i < length raws" by (auto simp: in_set_enumerate_eq)
    with assms(2) parts have "int i \<le> MAX_SAFE_INTEGER" by (simp add: array_length_def MAX_SAFE_INTEGER_def)
    with n show ?thesis by (rule normalizeSnapshotParticipant_ok)
  qed
  then have ok: "\<forall>e \<in> set es. participant_ok f e" by (simp add: es sort_by_id_def)
  moreover have "strictly_sorted_ids es"
    using sorted_no_duplicates [of _ es0] dup ok by (auto simp: es sort_by_id_def participant_ok_def)
  ultimately show thesis using that f parts ne es0 es dup by blast
qed

section \<open>The order of the input\<close>

lemma mapE_perm:
  assumes "mapE f xs = Inr ys" and "mset xs' = mset xs"
  shows "\<exists>ys'. mapE f xs' = Inr ys' \<and> mset ys' = mset ys"
proof -
  have all: "\<forall>x \<in> set xs. \<exists>y. f x = Inr y"
    using assms(1) by (metis in_set_conv_nth mapE_Inr_nth)
  then have ok: "f x = Inr (projr (f x))" if "x \<in> set xs" for x using that by force
  have "mapE f xs = Inr (map (\<lambda>x. projr (f x)) xs)" by (rule mapE_ok) (rule ok)
  moreover have "mapE f xs' = Inr (map (\<lambda>x. projr (f x)) xs')"
    by (rule mapE_ok) (use ok assms(2) in \<open>metis set_mset_mset\<close>)
  ultimately show ?thesis using assms by (metis mset_map sum.inject(2))
qed

lemma mapE_enumerate:
  "\<forall>x \<in> set xs. \<forall>i j. f (i, x) = f (j, x) \<Longrightarrow> mapE f (enumerate n xs) = mapE (\<lambda>x. f (0, x)) xs"
proof (induction xs arbitrary: n)
  case (Cons x xs)
  have x: "f (n, x) = f (0, x)" using Cons.prems by auto
  have IH: "mapE f (enumerate (Suc n) xs) = mapE (\<lambda>x. f (0, x)) xs"
    by (rule Cons.IH) (use Cons.prems in simp)
  show ?case by (simp add: IH x)
qed simp

definition order_given :: "jsval \<Rightarrow> bool" where
  "order_given raw \<longleftrightarrow> (\<exists>o'. raw = JObject o' \<and> prop_of o' ''order'' \<noteq> JUndefined)"

lemma order_given_index:
  "order_given raw \<Longrightarrow> normalizeSnapshotParticipant f (i, raw) = normalizeSnapshotParticipant f (j, raw)"
  by (auto simp: order_given_def normalizeSnapshotParticipant_def assertObject_def)

lemma sort_by_id_perm:
  assumes "strictly_sorted_ids (sort_by_id es)" and "mset es' = mset es"
  shows "sort_by_id es' = sort_by_id es"
proof -
  have d: "distinct (map p_id es)"
    using strictly_sorted_distinct [OF assms(1)] by (simp add: sort_by_id_def)
  have "a = b" if "a \<in> set es" "b \<in> set es" "compareId (p_id a) (p_id b) = 0" for a b
  proof (rule ccontr)
    assume ne: "a \<noteq> b"
    have "a \<in> set (sort_by_id es)" "b \<in> set (sort_by_id es)" using that by (simp_all add: sort_by_id_def)
    then obtain i j where ij: "i < length (sort_by_id es)" "j < length (sort_by_id es)"
      "sort_by_id es ! i = a" "sort_by_id es ! j = b" by (metis in_set_conv_nth)
    then have "i < j \<or> j < i" using ne by (metis linorder_neqE_nat)
    then have "compareId (p_id a) (p_id b) < 0 \<or> compareId (p_id b) (p_id a) < 0"
      using assms(1) ij by (auto simp: strictly_sorted_ids_def sorted_wrt_iff_nth_less)
    with that(3) show False using ids.zero_sym [of a b] by auto
  qed
  then show ?thesis
    unfolding sort_by_id_def using assms(2)
    by (intro ids.js_sort_mset_eq) (auto dest: mset_eq_setD)
qed

lemma normalize_perm:
  assumes "normalizeSnapshotParticipants (JArray raws) fv = Inr es" and "mset raws' = mset raws"
    and "\<forall>raw \<in> set raws. order_given raw" and "length raws < 4294967296"
  shows "normalizeSnapshotParticipants (JArray raws') fv = Inr es"
proof -
  have len: "array_length (JArray raws) < 4294967296" using assms(4) by (simp add: array_length_def)
  obtain f es0 where f: "validateFormula fv = Inr f" and ne: "raws \<noteq> []"
    and es0: "mapE (normalizeSnapshotParticipant f) (enumerate 0 raws) = Inr es0" and es: "es = sort_by_id es0"
    and dup: "check_duplicate_ids ''duplicate participant id'' es = Inr ()" and srt: "strictly_sorted_ids es"
    by (rule normalizeSnapshotParticipants_D [OF assms(1) len]) auto
  have enum: "mapE (normalizeSnapshotParticipant f) (enumerate 0 rs) = mapE (\<lambda>r. normalizeSnapshotParticipant f (0, r)) rs"
    if "set rs = set raws" for rs
    by (rule mapE_enumerate) (use that assms(3) order_given_index in blast)
  from mapE_perm [OF es0 [unfolded enum [OF refl]] assms(2)]
  obtain es1 where es1: "mapE (\<lambda>r. normalizeSnapshotParticipant f (0, r)) raws' = Inr es1" and m: "mset es1 = mset es0"
    by blast
  have "set raws' = set raws" using assms(2) by (rule mset_eq_setD)
  with es1 have "mapE (normalizeSnapshotParticipant f) (enumerate 0 raws') = Inr es1" by (simp add: enum)
  moreover have "sort_by_id es1 = es" using sort_by_id_perm [of es0 es1] srt m by (simp add: es)
  moreover have "raws' \<noteq> []" using ne assms(2) by auto
  ultimately show ?thesis
    using f dup by (simp add: normalizeSnapshotParticipants_def participant_array_def)
qed

text \<open>For participants that state their order, the normalised snapshot is the same for every order in
  which they are listed: sorted strictly by identifier, without duplicates.\<close>

theorem normalize_order_independent:
  assumes "normalizeSnapshotParticipants (JArray raws) fv = Inr es" and "mset raws' = mset raws"
    and "\<forall>raw \<in> set raws. order_given raw" and "length raws < 4294967296"
  shows "normalizeSnapshotParticipants (JArray raws') fv = Inr es
    \<and> strictly_sorted_ids es \<and> distinct (map p_id es) \<and> length es = length raws"
proof (intro conjI)
  show "normalizeSnapshotParticipants (JArray raws') fv = Inr es"
    using assms by (rule normalize_perm)
  have len: "array_length (JArray raws) < 4294967296" using assms(4) by (simp add: array_length_def)
  obtain f es0 where es0: "mapE (normalizeSnapshotParticipant f) (enumerate 0 raws) = Inr es0"
    and es: "es = sort_by_id es0" and srt: "strictly_sorted_ids es"
    by (rule normalizeSnapshotParticipants_D [OF assms(1) len]) auto
  show "strictly_sorted_ids es" by (rule srt)
  then show "distinct (map p_id es)" by (rule strictly_sorted_distinct)
  show "length es = length raws" using mapE_Inr_length [OF es0] by (simp add: es sort_by_id_def)
qed

definition raw_entry :: "string \<Rightarrow> int \<Rightarrow> int \<Rightarrow> jsval" where
  "raw_entry i order weight = JObject [(js ''id'', JString (js i)), (js ''order'', JNumber (NInt order)),
     (js ''weight'', JNumber (NInt weight))]"

lemma sample_normalized:
  "normalizeSnapshotParticipants (JArray [raw_entry ''b'' 0 3, raw_entry ''a'' 1 7]) (JString (js ''weighted_random''))
    = Inr [\<lparr>p_id = js ''a'', p_order = 1, p_weight = 7, p_score = 0\<rparr>,
           \<lparr>p_id = js ''b'', p_order = 0, p_weight = 3, p_score = 0\<rparr>]"
  by code_simp

lemma normalize_order_independent_witness:
  "normalizeSnapshotParticipants (JArray [raw_entry ''a'' 1 7, raw_entry ''b'' 0 3]) (JString (js ''weighted_random''))
    = Inr [\<lparr>p_id = js ''a'', p_order = 1, p_weight = 7, p_score = 0\<rparr>,
           \<lparr>p_id = js ''b'', p_order = 0, p_weight = 3, p_score = 0\<rparr>]"
  using normalize_order_independent [OF sample_normalized, of "[raw_entry ''a'' 1 7, raw_entry ''b'' 0 3]"]
  by (simp add: add_mset_commute order_given_def raw_entry_def prop_of_def js_def)

section \<open>Canonical lines are printable\<close>

definition printable_text :: "jsstr \<Rightarrow> bool" where
  "printable_text s \<longleftrightarrow> (\<forall>c \<in> set s. printable_unit c)"

lemma printable_text_simps [simp]:
  "printable_text []" "printable_text (c # s) \<longleftrightarrow> printable_unit c \<and> printable_text s"
  "printable_text (s @ t) \<longleftrightarrow> printable_text s \<and> printable_text t"
  by (auto simp: printable_text_def)

lemma printable_not_surrogate: "printable_unit c \<Longrightarrow> \<not> high_surrogate c \<and> \<not> low_surrogate c \<and> \<not> c < 32 \<and> unat c < 128"
  by (auto simp: printable_unit_def high_surrogate_def low_surrogate_def word_le_nat_alt word_less_nat_alt)

lemma printable_escape: "printable_unit c \<Longrightarrow> printable_text (json_escape c)"
  using printable_not_surrogate [of c] by (auto simp: json_escape_def) (simp_all add: printable_unit_def)

lemma printable_body: "printable_text s \<Longrightarrow> printable_text (json_body s)"
  using printable_not_surrogate
  by (induction s rule: json_body.induct) (auto simp: printable_escape)

lemma printable_quote: "printable_text s \<Longrightarrow> printable_text (json_quote s)"
  by (simp add: json_quote_def printable_body) (simp add: printable_unit_def)

lemma printable_dec: "printable_text (dec_string n)"
proof -
  have d: "is_digit c \<Longrightarrow> printable_unit c" for c
    by (auto simp: is_digit_def printable_unit_def word_le_nat_alt)
  then have "printable_text (dec_digits m)" for m
    using dec_digits_digits [of m] by (auto simp: printable_text_def)
  then show ?thesis by (simp add: dec_string_def) (simp add: printable_unit_def)
qed

lemma printable_js: "list_all (\<lambda>c. 32 \<le> c \<and> c \<le> 126) (map of_char s :: jsstr) \<Longrightarrow> printable_text (js s)"
  by (auto simp: js_def printable_text_def printable_unit_def)

lemma outcome_id_printable: "outcome_id_ok s \<Longrightarrow> printable_text s \<and> s \<noteq> []"
  by (auto simp: outcome_id_ok_def printable_ascii_def printable_text_def)

lemma printable_members:
  "\<forall>(k, f) \<in> set flds. printable_text k \<and> printable_text (field_text f) \<Longrightarrow> printable_text (members_text flds)"
proof (induction flds rule: members_text.induct)
  case (2 k v)
  then show ?case by (simp add: printable_quote) (simp add: printable_unit_def)
next
  case (3 k v m ms)
  then show ?case by (simp add: printable_quote) (simp add: printable_unit_def)
qed simp

lemma canonical_printable:
  assumes "outcome_id_ok (p_id e)"
  shows "printable_text (stringify_object (canonical_fields e f))"
proof -
  have "printable_text (js ''id'')" "printable_text (js ''order'')" "printable_text (js ''weight'')" "printable_text (js ''score'')"
    by (rule printable_js, code_simp)+
  then have "printable_text (members_text (canonical_fields e f))"
    using outcome_id_printable [OF assms]
    by (intro printable_members) (auto simp: canonical_fields_def field_text_def printable_quote printable_dec)
  then show ?thesis by (simp add: stringify_object_def) (simp add: printable_unit_def)
qed

section \<open>Splitting a file into lines\<close>

lemma printable_not_end: "printable_unit c \<Longrightarrow> \<not> line_end c \<and> c \<noteq> 13 \<and> c \<noteq> 10"
  by (auto simp: printable_unit_def line_end_def)

lemma split_lines_line:
  "printable_text l \<Longrightarrow> split_lines acc (l @ 10 # rest) = (rev acc @ l) # split_lines [] rest"
proof (induction l arbitrary: acc)
  case Nil
  then show ?case by (cases rest) (simp_all add: line_end_def)
next
  case (Cons c l)
  have "split_lines acc (c # (l @ 10 # rest)) = split_lines (c # acc) (l @ 10 # rest)"
    using printable_not_end [of c] Cons.prems by (cases l) auto
  with Cons.IH [of "c # acc"] Cons.prems show ?case by simp
qed

lemma split_lines_concat:
  "\<forall>l \<in> set ls. printable_text l \<Longrightarrow> split_lines [] (concat (map (\<lambda>l. l @ [10]) ls)) = ls @ [[]]"
  by (induction ls) (simp_all add: split_lines_line)

lemma well_formed_ascii: "\<forall>c \<in> set s. unat c < 128 \<Longrightarrow> well_formed_utf16 s"
proof (induction s rule: well_formed_utf16.induct)
  case (2 a)
  then show ?case by (simp add: high_surrogate_def low_surrogate_def)
next
  case (3 a b s)
  then show ?case by (simp add: high_surrogate_def low_surrogate_def)
qed simp

definition canonical_text :: "formula \<Rightarrow> participant list \<Rightarrow> jsstr" where
  "canonical_text f es = concat (map (\<lambda>e. canonicalSnapshotLine e f) es)"

lemma canonical_text_lines:
  "canonical_text f es = concat (map (\<lambda>l. l @ [10]) (map (\<lambda>e. stringify_object (canonical_fields e f)) es))"
  by (simp add: canonical_text_def canonicalSnapshotLine_def comp_def)

lemma canonical_text_ascii:
  assumes "\<forall>e \<in> set es. outcome_id_ok (p_id e)"
  shows "\<forall>c \<in> set (canonical_text f es). unat c < 128"
proof -
  have "unat c < 128" if "e \<in> set es" "c \<in> set (canonicalSnapshotLine e f)" for c e
    using that assms canonical_printable [of e f] printable_not_surrogate [of c]
    by (auto simp: canonicalSnapshotLine_def printable_text_def)
  then show ?thesis by (auto simp: canonical_text_def)
qed

lemma file_lines_canonical:
  assumes "\<forall>e \<in> set es. outcome_id_ok (p_id e)"
  shows "file_lines (utf8_encode (canonical_text f es)) = map (\<lambda>e. stringify_object (canonical_fields e f)) es @ [[]]"
proof -
  have "well_formed_utf16 (canonical_text f es)"
    using canonical_text_ascii [OF assms] by (rule well_formed_ascii)
  then have "file_lines (utf8_encode (canonical_text f es)) = split_lines [] (canonical_text f es)"
    by (simp add: file_lines_def utf8_decode_encode)
  also have "\<dots> = map (\<lambda>e. stringify_object (canonical_fields e f)) es @ [[]]"
    unfolding canonical_text_lines by (rule split_lines_concat) (use assms canonical_printable in auto)
  finally show ?thesis .
qed

section \<open>Reading a line back\<close>

lemma prop_of_rev3:
  "a \<noteq> b \<Longrightarrow> a \<noteq> c \<Longrightarrow> b \<noteq> c \<Longrightarrow> map_of [(c, z), (b, y), (a, x)] a = Some x"
  by simp

lemma canonical_object:
  assumes "participant_ok f e"
  shows "json_parse (stringify_object (canonical_fields e f)) =
    Some (JObject (rev (map (\<lambda>(key, f). (key, field_value f)) (canonical_fields e f))))"
proof (rule json_parse_stringify)
  show "canonical_fields e f \<noteq> []" by (simp add: canonical_fields_def)
  show "\<forall>x \<in> set (canonical_fields e f). field_ok (snd x)"
    using assms by (auto simp: canonical_fields_def field_ok_def small_int_def participant_ok_def bound_defs)
qed

lemma js_trim_object: "js_trim (stringify_object flds) = stringify_object flds"
  by (rule js_trim_id) (simp_all add: stringify_object_def js_space_def)

text \<open>\<^verbatim>\<open>BigInt(score.toString())\<close>\<close>

lemma radix_value_digits:
  "radix_value 10 (dec_digits n) = Some (int n)"
proof -
  have dig: "hex_value c = Some (unat c - 48) \<and> unat c - 48 < 10 \<and> int (unat c - 48) = uint c - 48" if "is_digit c" for c
  proof -
    have "48 \<le> unat c" "unat c \<le> 57" using that by (simp_all add: is_digit_def word_le_nat_alt)
    moreover from this have "hex_value c = Some (unat c - 48)" by (simp add: hex_value_def)
    moreover have "int (unat c - 48) = uint c - 48" using \<open>48 \<le> unat c\<close> by (simp add: of_nat_diff)
    ultimately show ?thesis by simp
  qed
  have "foldl (\<lambda>v c. int 10 * v + (case hex_value c of None \<Rightarrow> 0 | Some d \<Rightarrow> int d)) a ds
      = foldl (\<lambda>v c. 10 * v + (uint c - 48)) a ds" if "\<forall>c \<in> set ds. is_digit c" for a ds
    using that by (induction ds arbitrary: a) (simp_all add: dig)
  from this [OF dec_digits_digits] dec_value_digits [of n]
  have "foldl (\<lambda>v c. int 10 * v + (case hex_value c of None \<Rightarrow> 0 | Some d \<Rightarrow> int d)) 0 (dec_digits n) = int n"
    by (simp add: dec_value_def)
  moreover have "\<forall>c \<in> set (dec_digits n). hex_value c = Some (unat c - 48) \<and> unat c - 48 < 10"
    using dec_digits_digits [of n] dig by blast
  ultimately show ?thesis
    using dec_digits_not_Nil [of n] by (simp add: radix_value_def)
qed

lemma dec_digits_hd_digit: "is_digit (hd (dec_digits n))" "is_digit (last (dec_digits n))"
  using dec_digits_digits [of n] dec_digits_not_Nil [of n] by simp_all

lemma digit_not_space: "is_digit c \<Longrightarrow> \<not> js_space c"
  by (auto simp: is_digit_def js_space_def word_le_nat_alt)

lemma bigint_of_dec: "bigint_of_string (dec_string n) = Some n"
proof -
  have trim: "js_trim (dec_string n) = dec_string n"
  proof (rule js_trim_id)
    show "dec_string n \<noteq> []" by (simp add: dec_string_def dec_digits_not_Nil)
    show "\<not> js_space (hd (dec_string n))"
      using dec_digits_hd_digit(1) digit_not_space by (auto simp: dec_string_def js_space_def)
    show "\<not> js_space (last (dec_string n))"
      using dec_digits_hd_digit(2) digit_not_space dec_digits_not_Nil by (auto simp: dec_string_def)
  qed
  show ?thesis
  proof (cases "n < 0")
    case True
    then show ?thesis
      using trim radix_value_digits [of "nat (- n)"] by (simp add: bigint_of_string_def dec_string_def)
  next
    case False
    define m where "m = nat n"
    obtain c cs where c: "dec_digits m = c # cs" "is_digit c" by (rule dec_digits_Cons)
    have "\<forall>d \<in> set cs. is_digit d" using dec_digits_digits [of m] c by simp
    then have x: "cs \<noteq> [] \<Longrightarrow> hd cs \<notin> {120, 88, 111, 79, 98, 66}" 
      by (cases cs) (auto simp: is_digit_def)
    have "c \<noteq> 45" "c \<noteq> 43" using c(2) by (auto simp: is_digit_def)
    moreover have "dec_string n = c # cs" using False c by (simp add: dec_string_def m_def)
    ultimately show ?thesis
      using trim x radix_value_digits [of m] c False by (auto simp: bigint_of_string_def m_def)
  qed
qed

lemma snapshot_line_canonical:
  assumes "participant_ok f e"
  shows "snapshot_line f (stringify_object (canonical_fields e f)) = Inr (Some e)"
proof -
  define obj where "obj = rev (map (\<lambda>(key, f). (key, field_value f)) (canonical_fields e f))"
  have ne: "stringify_object (canonical_fields e f) \<noteq> []" by (simp add: stringify_object_def)
  have "js ''id'' \<noteq> js ''order''" "js ''id'' \<noteq> js ''weight''" "js ''id'' \<noteq> js ''score''"
    "js ''order'' \<noteq> js ''weight''" "js ''order'' \<noteq> js ''score''" "js ''weight'' \<noteq> js ''score''"
    by (simp_all add: js_def)
  then have props: "prop_of obj ''id'' = JString (p_id e)" "prop_of obj ''order'' = JNumber (NInt (p_order e))"
    "f = Weighted_random \<Longrightarrow> prop_of obj ''weight'' = JNumber (NInt (p_weight e))"
    "f \<noteq> Weighted_random \<Longrightarrow> f \<noteq> First_n \<Longrightarrow> prop_of obj ''score'' = JString (dec_string (p_score e))"
    by (auto simp: obj_def prop_of_def canonical_fields_def field_value_def)
  have "snapshot_line f (stringify_object (canonical_fields e f)) =
     bindE (assertObject (JObject obj)) (\<lambda>o'.
        bindE (validateOutcomeId (prop_of o' ''id'')) (\<lambda>id'.
        bindE (validateOrder (prop_of o' ''order'')) (\<lambda>order.
        if f = Weighted_random then
          bindE (validateWeight (prop_of o' ''weight'')) (\<lambda>weight.
            Inr (Some \<lparr>p_id = id', p_order = order, p_weight = weight, p_score = 0\<rparr>))
        else if f = First_n then Inr (Some \<lparr>p_id = id', p_order = order, p_weight = 1, p_score = 0\<rparr>)
        else
          bindE (snapshot_score (prop_of o' ''score'')) (\<lambda>score.
            Inr (Some \<lparr>p_id = id', p_order = order, p_weight = 1, p_score = score\<rparr>)))))"
    by (simp add: snapshot_line_def js_trim_object ne canonical_object [OF assms] obj_def)
  also have "\<dots> = Inr (Some e)"
    using assms
    by (cases "f = Weighted_random"; cases "f = First_n")
       (simp_all add: props participant_ok_def assertObject_def validateOutcomeId_def validateOrder_def
         validateWeight_def snapshot_score_def bigint_of_dec parseSignedInteger_bigint)
  finally show ?thesis .
qed

lemma for_entries_canonical:
  assumes "\<forall>e \<in> set es. participant_ok f e"
  shows "for_entries f (utf8_encode (canonical_text f es)) body s = foldE body s es"
proof -
  have ids: "\<forall>e \<in> set es. outcome_id_ok (p_id e)" using assms by (auto simp: participant_ok_def)
  let ?step = "\<lambda>st raw. bindE (snapshot_line f raw) (\<lambda>e. case e of None \<Rightarrow> Inr st | Some entry \<Rightarrow> body st entry)"
  have blank: "?step st [] = Inr st" for st
    by (simp add: snapshot_line_def js_trim_def)
  have "foldE ?step s (map (\<lambda>e. stringify_object (canonical_fields e f)) es @ [[]]) = foldE body s es"
    using assms
  proof (induction es arbitrary: s)
    case Nil
    then show ?case using blank by simp
  next
    case (Cons e es)
    then show ?case by (cases "body s e") (simp_all add: snapshot_line_canonical)
  qed
  then show ?thesis
    unfolding for_entries_def file_lines_canonical [OF ids] .
qed

section \<open>The published snapshot passes its own inspection\<close>

lemma inspect_loop:
  assumes "strictly_sorted_ids es" and "\<forall>p. previous = Some p \<longrightarrow> (\<forall>e \<in> set es. compareId p (p_id e) < 0)"
  shows "\<exists>previous'. foldE inspect_step (previous, seen) es = Inr (previous', seen @ es)"
  using assms
proof (induction es arbitrary: previous seen)
  case Nil
  then show ?case by simp
next
  case (Cons e es)
  have "inspect_step (previous, seen) e = Inr (Some (p_id e), seen @ [e])"
    using Cons.prems(2) by (auto simp: inspect_step_def throwIf_def)
  moreover have "\<exists>previous'. foldE inspect_step (Some (p_id e), seen @ [e]) es = Inr (previous', (seen @ [e]) @ es)"
    by (rule Cons.IH) (use Cons.prems(1) in \<open>auto simp: strictly_sorted_ids_def\<close>)
  ultimately show ?case by simp
qed

lemma for_entries_inspect:
  assumes "\<forall>e \<in> set es. participant_ok f e" and "strictly_sorted_ids es"
  shows "\<exists>previous. for_entries f (utf8_encode (canonical_text f es)) inspect_step (None, []) = Inr (previous, es)"
  using inspect_loop [OF assms(2), of None "[]"] by (simp add: for_entries_canonical [OF assms(1)])

definition summary_of :: "formula \<Rightarrow> participant list \<Rightarrow> snapshot_summary" where
  "summary_of f es =
     (let lines = map (\<lambda>e. canonicalSnapshotLine e f) es in
      \<lparr>snapshotHash = sha256 (concat (map utf8_encode lines)), snapshotCount = length es,
       merkleRootOf = merkle_root lines, canonicalSnapshot = canonical_text f es\<rparr>)"

lemma merkle_root_lines: "lines \<noteq> [] \<Longrightarrow> buildMerkleRoot (map hashSnapshotLeafLine lines) = Inr (merkle_root lines)"
  using merkle_builders(2) [of 0 lines] by (simp add: leaf_hashes_def)

lemma length_merkle_root: "lines \<noteq> [] \<Longrightarrow> length (merkle_root lines) = 32"
  unfolding merkle_root_def by (rule last_level_32 [OF _ leaf_hashes_32]) (simp add: leaf_hashes_def)

lemma buildSnapshotHash_D:
  assumes "buildSnapshotHash fv parts = Inr s" and "array_length parts < 4294967296"
  obtains f es where "validateFormula fv = Inr f" and "normalizeSnapshotParticipants parts fv = Inr es"
    and "es \<noteq> []" and "s = summary_of f es" and "\<forall>e \<in> set es. participant_ok f e" and "strictly_sorted_ids es"
proof -
  from assms(1) obtain f es root where f: "validateFormula fv = Inr f"
    and es: "normalizeSnapshotParticipants parts fv = Inr es"
    and root: "buildMerkleRoot (map hashSnapshotLeafLine (map (\<lambda>e. canonicalSnapshotLine e f) es)) = Inr root"
    and s: "s = \<lparr>snapshotHash = sha256 (concat (map utf8_encode (map (\<lambda>e. canonicalSnapshotLine e f) es))),
      snapshotCount = length es, merkleRootOf = root, canonicalSnapshot = concat (map (\<lambda>e. canonicalSnapshotLine e f) es)\<rparr>"
    by (auto simp: buildSnapshotHash_def bindE_Inr_iff Let_def)
  obtain f' where "validateFormula fv = Inr f'" and "\<forall>e \<in> set es. participant_ok f' e" and "strictly_sorted_ids es"
    by (rule normalizeSnapshotParticipants_D [OF es assms(2)]) blast
  moreover have "es \<noteq> []"
    using root by (auto simp: buildMerkleRoot_def buildMerkleLevels_def)
  moreover from this have "s = summary_of f es"
    using root merkle_root_lines [of "map (\<lambda>e. canonicalSnapshotLine e f) es"]
    by (simp add: s summary_of_def Let_def canonical_text_def)
  ultimately show thesis using that f es by simp
qed

lemma check_committed_self:
  assumes "length (merkleRootOf s) = 32"
  shows "check_committed s (Some (to_hex (snapshotHash s))) (Some (int (snapshotCount s))) (JString (to_hex (merkleRootOf s))) = Inr ()"
proof -
  have "map hex_lower (to_hex b) = to_hex b" for b
    using to_hex_chars by (intro map_idI) blast
  then show ?thesis
    using assms by (simp add: check_committed_def)
qed

text \<open>The canonical snapshot that \<^verbatim>\<open>buildSnapshotHash\<close> returns, written to a file, is read back as the
  normalised entries; the inspection of that file against the returned hash, count and Merkle root
  succeeds and computes the same four values.\<close>

theorem canonical_snapshot_inspects:
  assumes "buildSnapshotHash fv parts = Inr s" and "array_length parts < 4294967296"
  shows "inspectSnapshotFile (utf8_encode (canonicalSnapshot s)) fv (Some (to_hex (snapshotHash s)))
      (Some (int (snapshotCount s))) (JString (to_hex (merkleRootOf s))) = Inr s"
proof -
  obtain f es where f: "validateFormula fv = Inr f" and ne: "es \<noteq> []" and s: "s = summary_of f es"
    and ok: "\<forall>e \<in> set es. participant_ok f e" and srt: "strictly_sorted_ids es"
    by (rule buildSnapshotHash_D [OF assms]) blast
  let ?lines = "map (\<lambda>e. canonicalSnapshotLine e f) es"
  have root: "buildMerkleRoot (map hashSnapshotLeafLine ?lines) = Inr (merkleRootOf s)"
    using merkle_root_lines [of ?lines] ne by (simp add: s summary_of_def Let_def)
  obtain previous where read: "for_entries f (utf8_encode (canonicalSnapshot s)) inspect_step (None, []) = Inr (previous, es)"
    using for_entries_inspect [OF ok srt] by (auto simp: s summary_of_def Let_def)
  have sum: "\<lparr>snapshotHash = sha256 (concat (map utf8_encode ?lines)), snapshotCount = length es,
      merkleRootOf = merkleRootOf s, canonicalSnapshot = concat ?lines\<rparr> = s"
    by (simp add: s summary_of_def Let_def canonical_text_def)
  have "length (merkleRootOf s) = 32" using length_merkle_root [of ?lines] ne by (simp add: s summary_of_def Let_def)
  note check = check_committed_self [OF this]
  show ?thesis
    unfolding inspectSnapshotFile_def f read Let_def bindE.simps prod.case root sum check
    using ne by simp
qed

lemma sample_snapshot:
  "\<exists>s. buildSnapshotHash (JString (js ''weighted_random'')) (JArray [raw_entry ''b'' 0 3, raw_entry ''a'' 1 7]) = Inr s"
proof -
  have f: "validateFormula (JString (js ''weighted_random'')) = Inr Weighted_random"
    by (simp add: validateFormula_def)
  show ?thesis
    by (simp add: buildSnapshotHash_def f sample_normalized merkle_root_lines [of "[_, _]", simplified] Let_def)
qed

lemma canonical_snapshot_inspects_witness:
  "\<exists>s. buildSnapshotHash (JString (js ''weighted_random'')) (JArray [raw_entry ''b'' 0 3, raw_entry ''a'' 1 7]) = Inr s
    \<and> inspectSnapshotFile (utf8_encode (canonicalSnapshot s)) (JString (js ''weighted_random''))
        (Some (to_hex (snapshotHash s))) (Some (int (snapshotCount s))) (JString (to_hex (merkleRootOf s))) = Inr s"
proof -
  obtain s where s: "buildSnapshotHash (JString (js ''weighted_random'')) (JArray [raw_entry ''b'' 0 3, raw_entry ''a'' 1 7]) = Inr s"
    using sample_snapshot by blast
  with canonical_snapshot_inspects [OF s] show ?thesis by (auto simp: array_length_def)
qed

section \<open>Proofs built from a file\<close>

lemma last_index_D: "last_index P es = Some i \<Longrightarrow> i < length es \<and> P (es ! i)"
proof -
  assume a: "last_index P es = Some i"
  let ?is = "filter (\<lambda>i. P (es ! i)) [0..<length es]"
  from a have "?is \<noteq> []" "i = last ?is" by (auto simp: last_index_def split: list.splits)
  then have "i \<in> set ?is" using last_in_set by metis
  then show ?thesis by simp
qed

lemma canonical_newline: "ends_with_newline (canonicalSnapshotLine e f)"
  by (simp add: ends_with_newline_def canonicalSnapshotLine_def)

text \<open>Whenever a proof is built from a snapshot file for an identifier the file contains, it is the proof
  of that identifier's entry and verifies its canonical line against the root of the file, which is the
  committed root if one was given.\<close>

theorem file_proof_verifies:
  assumes "buildSnapshotMerkleProofFromFile file fv (JString pid) expectedHash expectedCount expectedRoot = Inr r"
    and "validateFormula fv = Inr f" and "fp_participant r = Some e"
  shows "p_id e = pid
    \<and> verifySnapshotMerkleProof (canonicalSnapshotLine e f) (fp_proof r) (Inl (merkleRootOf (fp_summary r))) = Inr True
    \<and> (\<forall>h. expectedRoot = JString (to_hex h) \<longrightarrow> length h = 32 \<longrightarrow> merkleRootOf (fp_summary r) = h)"
proof -
  let ?lines = "\<lambda>es. map (\<lambda>e. canonicalSnapshotLine e f) es"
  from assms obtain es levels i pf where ne: "es \<noteq> []"
    and levels: "buildMerkleLevels (map hashSnapshotLeafLine (?lines es)) = Inr levels"
    and check: "check_committed (fp_summary r) expectedHash expectedCount expectedRoot = Inr ()"
    and root: "merkleRootOf (fp_summary r) = last levels ! 0"
    and i: "last_index (\<lambda>e. p_id e = pid) es = Some i"
    and pf: "buildMerkleProof levels (int i) = Inr pf" and e: "e = es ! i" and r: "fp_proof r = pf"
    unfolding buildSnapshotMerkleProofFromFile_def Let_def
    by (elim result_elims) (auto simp: result_simps split: option.splits)
  have i: "i < length (?lines es)" "p_id e = pid" using last_index_D [OF i] e by auto
  have "levels = merkle_levels_from (leaf_hashes (?lines es))"
    using levels merkle_builders(1) [OF i(1)] by (simp add: leaf_hashes_def)
  moreover have "merkleRootOf (fp_summary r) = merkle_root (?lines es)"
    using root calculation by (simp add: merkle_root_def)
  moreover have "pf = merkle_proof (?lines es) i"
    using pf merkle_builders(3) [OF i(1)] calculation(1) by simp
  moreover have "verifySnapshotMerkleProof (?lines es ! i) (merkle_proof (?lines es) i) (Inl (merkle_root (?lines es))) = Inr True"
    by (rule honest_proof_verifies [OF i(1)]) (use i(1) in \<open>simp add: canonical_newline\<close>)
  ultimately have "verifySnapshotMerkleProof (canonicalSnapshotLine e f) (fp_proof r) (Inl (merkleRootOf (fp_summary r))) = Inr True"
    using i(1) e r by simp
  moreover have "merkleRootOf (fp_summary r) = h" if h: "expectedRoot = JString (to_hex h)" "length h = 32" for h
  proof -
    have "to_hex h \<noteq> []" using h(2) by (metis length_0_conv length_to_hex mult_eq_0_iff zero_neq_numeral)
    then show ?thesis
      using check h by (auto simp: check_committed_def throwIf_Inr_iff throwIf_def split: if_splits)
  qed
  ultimately show ?thesis using i(2) by blast
qed

lemma proof_from_canonical:
  assumes f: "validateFormula fv = Inr f" and ok: "\<forall>e \<in> set es. participant_ok f e" and srt: "strictly_sorted_ids es"
    and i: "i < length es" and last: "last_index (\<lambda>e. p_id e = p_id (es ! i)) es = Some i"
  shows "\<exists>r. buildSnapshotMerkleProofFromFile (utf8_encode (canonical_text f es)) fv (JString (p_id (es ! i)))
      None None JUndefined = Inr r \<and> fp_participant r = Some (es ! i)"
proof -
  let ?lines = "map (\<lambda>e. canonicalSnapshotLine e f) es"
  obtain previous where read: "for_entries f (utf8_encode (canonical_text f es)) inspect_step (None, []) = Inr (previous, es)"
    using for_entries_inspect [OF ok srt] by blast
  have id: "validateOutcomeId (JString (p_id (es ! i))) = Inr (p_id (es ! i))"
    using ok nth_mem [OF i] by (simp add: validateOutcomeId_Inr_iff participant_ok_def)
  have m: "i < length ?lines" using i by simp
  note b = merkle_builders(1) [OF m, unfolded leaf_hashes_def] merkle_builders(3) [OF m, unfolded leaf_hashes_def]
  have "es \<noteq> []" using i by auto
  then show ?thesis
    unfolding buildSnapshotMerkleProofFromFile_def f id read Let_def bindE.simps prod.case b last
    by (simp add: check_committed_def last b(2) del: map_map)
qed

lemma file_proof_verifies_witness:
  "\<exists>r. buildSnapshotMerkleProofFromFile (utf8_encode (canonical_text First_n
        [\<lparr>p_id = js ''a'', p_order = 1, p_weight = 1, p_score = 0\<rparr>, \<lparr>p_id = js ''b'', p_order = 0, p_weight = 1, p_score = 0\<rparr>]))
      (JString (js ''first_n'')) (JString (js ''b'')) None None JUndefined = Inr r
    \<and> verifySnapshotMerkleProof (canonicalSnapshotLine \<lparr>p_id = js ''b'', p_order = 0, p_weight = 1, p_score = 0\<rparr> First_n)
        (fp_proof r) (Inl (merkleRootOf (fp_summary r))) = Inr True"
proof -
  let ?a = "\<lparr>p_id = js ''a'', p_order = 1, p_weight = 1, p_score = 0\<rparr>"
  let ?b = "\<lparr>p_id = js ''b'', p_order = 0, p_weight = 1, p_score = 0\<rparr>"
  have f: "validateFormula (JString (js ''first_n'')) = Inr First_n" by code_simp
  have ok: "\<forall>e \<in> set [?a, ?b]. participant_ok First_n e"
    by (simp add: participant_ok_def outcome_id_ok_def printable_ascii_def printable_unit_def js_def bound_defs)
  have srt: "strictly_sorted_ids [?a, ?b]"
    by (simp add: strictly_sorted_ids_def compareId_def ascii_bytes_def js_def)
  have last: "last_index (\<lambda>e. p_id e = p_id ([?a, ?b] ! 1)) [?a, ?b] = Some 1"
    by (simp add: last_index_def js_def upt_rec)
  obtain r where r: "buildSnapshotMerkleProofFromFile (utf8_encode (canonical_text First_n [?a, ?b])) (JString (js ''first_n''))
      (JString (js ''b'')) None None JUndefined = Inr r" "fp_participant r = Some ?b"
    using proof_from_canonical [OF f ok srt _ last] by auto
  from file_proof_verifies [OF r(1) f r(2)] r(1) show ?thesis by blast
qed

section \<open>The snapshot hash commits to the entries\<close>

lemma utf8_encode_append_ascii:
  assumes "\<forall>c \<in> set s. unat c < 128" and "\<forall>c \<in> set t. unat c < 128"
  shows "utf8_encode (s @ t) = utf8_encode s @ utf8_encode t"
proof -
  have "\<forall>c \<in> set (s @ t). unat c < 128" using assms by auto
  from utf8_encode_ascii [OF this] show ?thesis
    using utf8_encode_ascii [OF assms(1)] utf8_encode_ascii [OF assms(2)] by simp
qed

lemma utf8_encode_concat_ascii:
  "\<forall>l \<in> set ls. \<forall>c \<in> set l. unat c < 128 \<Longrightarrow> concat (map utf8_encode ls) = utf8_encode (concat ls)"
proof (induction ls)
  case Nil
  show ?case by (simp add: utf8_encode_def)
next
  case (Cons l ls)
  then show ?case using utf8_encode_append_ascii [of l "concat ls"] by auto
qed

lemma canonical_text_inject:
  assumes "\<forall>e \<in> set es. participant_ok f e" and "\<forall>e \<in> set es'. participant_ok f e"
    and "utf8_encode (canonical_text f es) = utf8_encode (canonical_text f es')"
  shows "es = es'"
proof -
  have snoc: "foldE (\<lambda>st e. Inr (st @ [e])) acc xs = Inr (acc @ xs)" for acc and xs :: "participant list"
    by (induction xs arbitrary: acc) auto
  have read: "for_entries f (utf8_encode (canonical_text f xs)) (\<lambda>st e. Inr (st @ [e])) [] = Inr xs"
    if "\<forall>e \<in> set xs. participant_ok f e" for xs
    unfolding for_entries_canonical [OF that] by (simp only: snoc append_Nil)
  have "Inr es = (Inr es' :: participant list result)"
    unfolding read [OF assms(1), symmetric] read [OF assms(2), symmetric] assms(3) ..
  then show ?thesis by simp
qed

lemma summary_hash:
  assumes "\<forall>e \<in> set es. participant_ok f e"
  shows "snapshotHash (summary_of f es) = sha256 (utf8_encode (canonicalSnapshot (summary_of f es)))"
proof -
  have ids: "\<forall>e \<in> set es. outcome_id_ok (p_id e)" using assms by (auto simp: participant_ok_def)
  have "\<forall>l \<in> set (map (\<lambda>e. canonicalSnapshotLine e f) es). \<forall>c \<in> set l. unat c < 128"
    using canonical_text_ascii [OF ids, of f] by (auto simp: canonical_text_def)
  from utf8_encode_concat_ascii [OF this] show ?thesis
    by (simp add: summary_of_def Let_def canonical_text_def)
qed

text \<open>C23: two sets of participants with the same snapshot hash under one formula have the same normalised
  entries, unless their canonical texts are two different byte strings with the same SHA-256.\<close>

theorem snapshot_hash_binding:
  assumes "buildSnapshotHash fv parts = Inr s" and "buildSnapshotHash fv parts' = Inr s'"
    and "snapshotHash s = snapshotHash s'"
    and "array_length parts < 4294967296" and "array_length parts' < 4294967296"
  shows "normalizeSnapshotParticipants parts fv = normalizeSnapshotParticipants parts' fv
    \<or> (let x = utf8_encode (canonicalSnapshot s); y = utf8_encode (canonicalSnapshot s')
       in x \<noteq> y \<and> sha256 x = sha256 y)"
proof -
  obtain f es where f: "validateFormula fv = Inr f" and es: "normalizeSnapshotParticipants parts fv = Inr es"
    and s: "s = summary_of f es" and ok: "\<forall>e \<in> set es. participant_ok f e"
    by (rule buildSnapshotHash_D [OF assms(1,4)]) blast
  obtain f' es' where f': "validateFormula fv = Inr f'" and es': "normalizeSnapshotParticipants parts' fv = Inr es'"
    and s': "s' = summary_of f' es'" and ok': "\<forall>e \<in> set es'. participant_ok f' e"
    by (rule buildSnapshotHash_D [OF assms(2,5)]) blast
  have ff: "f' = f" using f f' by simp
  show ?thesis
  proof (cases "utf8_encode (canonicalSnapshot s) = utf8_encode (canonicalSnapshot s')")
    case True
    then have "es = es'"
      using ok ok' by (intro canonical_text_inject [of es f es']) (simp_all add: s s' ff summary_of_def Let_def)
    with es es' show ?thesis by simp
  next
    case False
    then show ?thesis
      using summary_hash [OF ok] summary_hash [OF ok'] assms(3) by (simp add: s s' Let_def)
  qed
qed

lemma sample_normalized_swapped:
  "normalizeSnapshotParticipants (JArray [raw_entry ''a'' 1 7, raw_entry ''b'' 0 3]) (JString (js ''weighted_random''))
    = Inr [\<lparr>p_id = js ''a'', p_order = 1, p_weight = 7, p_score = 0\<rparr>,
           \<lparr>p_id = js ''b'', p_order = 0, p_weight = 3, p_score = 0\<rparr>]"
  by code_simp

lemma snapshot_hash_binding_witness:
  "normalizeSnapshotParticipants (JArray [raw_entry ''b'' 0 3, raw_entry ''a'' 1 7]) (JString (js ''weighted_random''))
    = normalizeSnapshotParticipants (JArray [raw_entry ''a'' 1 7, raw_entry ''b'' 0 3]) (JString (js ''weighted_random''))"
proof -
  obtain s where s: "buildSnapshotHash (JString (js ''weighted_random'')) (JArray [raw_entry ''b'' 0 3, raw_entry ''a'' 1 7]) = Inr s"
    using sample_snapshot by blast
  then have t: "buildSnapshotHash (JString (js ''weighted_random'')) (JArray [raw_entry ''a'' 1 7, raw_entry ''b'' 0 3]) = Inr s"
    by (simp only: buildSnapshotHash_def sample_normalized sample_normalized_swapped)
  from snapshot_hash_binding [OF s t refl] show ?thesis by (simp add: array_length_def)
qed

end
