(* ===== verification/Snapshot_Artifact.thy ===== *)
theory Snapshot_Artifact
  imports Snapshot_File
begin

text \<open>
  The committed artifacts of \<^verbatim>\<open>sdk/snapshot.ts\<close>: the snapshot artifact (format versions 4, 6 and 7), which
  commits to a snapshot by hash, count, Merkle root and URI, and the compact named-entry artifact
  (version 5), which holds the entries themselves. Each builder is its validation followed by its
  encoder; each parser is a reader of the bytes.

  Lemmas: what a builder returns its parser reads back, and no parser of another version accepts it.
\<close>

unbundle bit_operations_syntax

section \<open>The snapshot artifact\<close>

definition FORMAT_VERSION_V4 :: int where "FORMAT_VERSION_V4 = 4"

definition FORMAT_VERSION_V5 :: int where "FORMAT_VERSION_V5 = 5"

definition FORMAT_VERSION_V1_2_SCALE :: int where "FORMAT_VERSION_V1_2_SCALE = 6"

definition FORMAT_VERSION_V1_2_1_SCALE :: int where "FORMAT_VERSION_V1_2_1_SCALE = 7"

definition MAX_SNAPSHOT_URI_BYTES :: nat where "MAX_SNAPSHOT_URI_BYTES = 512"

definition MAX_COMPILED_ARTIFACT_BYTES :: nat where "MAX_COMPILED_ARTIFACT_BYTES = 8192"

definition V5_ENTRY_BYTES :: nat where "V5_ENTRY_BYTES = 1 + 64 + 4 + 8 + 2"

definition V4_FLAG_HAS_MERKLE_ROOT :: int where "V4_FLAG_HAS_MERKLE_ROOT = 1"

definition W3O1 :: buffer where "W3O1 = [0x57, 0x33, 0x4F, 0x31]"

lemmas format_defs = FORMAT_VERSION_V4_def FORMAT_VERSION_V5_def FORMAT_VERSION_V1_2_SCALE_def
  FORMAT_VERSION_V1_2_1_SCALE_def

text \<open>The configuration after validation.\<close>

record snapshot_config =
  sc_formula :: formula
  sc_input :: int
  sc_payout :: int
  sc_hash :: buffer
  sc_count :: int
  sc_uri :: jsstr
  sc_winners :: int
  sc_target :: int
  sc_root :: "buffer option"

definition validate_target :: "formula \<Rightarrow> jsval \<Rightarrow> int result" where
  "validate_target f target =
     (if f = Closest_to then parseSignedInteger target
      else if target = JUndefined then Inr 0 else parseSignedInteger target)"

definition validate_count :: "jsval \<Rightarrow> int result" where
  "validate_count v =
     (case v of JNumber (NInt n) \<Rightarrow>
        throwIf (n \<le> 0 \<or> MAX_U32 < n) (RangeError ''snapshot_count must be an integer 1..MAX_U32'') (Inr n)
      | _ \<Rightarrow> Inl (RangeError ''snapshot_count must be an integer 1..MAX_U32''))"

definition validate_uri :: "jsval \<Rightarrow> jsstr result" where
  "validate_uri v =
     (case v of JString s \<Rightarrow>
        throwIf (js_trim s = []) (TypeError ''snapshot_uri must be a non-empty string'')
       (throwIf (length (utf8_encode (js_trim s)) > MAX_SNAPSHOT_URI_BYTES)
          (RangeError ''snapshot_uri must be <= 512 bytes'') (Inr (js_trim s)))
      | _ \<Rightarrow> Inl (TypeError ''snapshot_uri must be a non-empty string''))"

definition validateSnapshotConfig :: "(jsstr \<times> jsval) list \<Rightarrow> snapshot_config result" where
  "validateSnapshotConfig config =
     bindE (validateFormula (prop_of config ''formula'')) (\<lambda>f.
     bindE (parsePositiveLamports (prop_of config ''input_lamports'')) (\<lambda>inputLamports.
     bindE (parseOptionalNonNegativeLamports (prop_of config ''payout_lamports'') 3) (\<lambda>payoutLamports.
     bindE (normalizeHex32 (prop_of config ''snapshot_hash'')) (\<lambda>snapshotHash'.
     bindE (validate_count (prop_of config ''snapshot_count'')) (\<lambda>count.
     bindE (validate_uri (prop_of config ''snapshot_uri'')) (\<lambda>uri.
     bindE (validateWinnersCount (prop_of config ''winners_count'') count) (\<lambda>winners.
     bindE (validate_target f (prop_of config ''target'')) (\<lambda>target.
     bindE (if prop_of config ''merkle_root'' = JUndefined then Inr None
            else bindE (normalizeHex32 (prop_of config ''merkle_root'')) (\<lambda>h. Inr (Some (from_hex h)))) (\<lambda>root.
     Inr \<lparr>sc_formula = f, sc_input = inputLamports, sc_payout = payoutLamports, sc_hash = from_hex snapshotHash',
          sc_count = count, sc_uri = uri, sc_winners = winners, sc_target = target, sc_root = root\<rparr>)))))))))"

definition root_flags :: "buffer option \<Rightarrow> int" where
  "root_flags root = (if root = None then 0 else V4_FLAG_HAS_MERKLE_ROOT)"

definition root_bytes :: "buffer option \<Rightarrow> buffer" where
  "root_bytes root = (case root of None \<Rightarrow> [] | Some r \<Rightarrow> r)"

definition encodeSnapshotArtifact :: "snapshot_config \<Rightarrow> int \<Rightarrow> buffer result" where
  "encodeSnapshotArtifact c version = concatE
     [Inr W3O1, u16le version, u64le (sc_input c), u64le (sc_input c), u16le (sc_winners c),
      Inr (byte_of (formula_code (sc_formula c))), Inr (byte_of (root_flags (sc_root c))), Inr (zeros 4),
      i64le (sc_target c), u32le (sc_count c), u64le (sc_payout c), Inr (sc_hash c), Inr (root_bytes (sc_root c)),
      u16le (int (length (utf8_encode (sc_uri c)))), Inr (utf8_encode (sc_uri c))]"

definition buildSnapshotArtifact :: "(jsstr \<times> jsval) list \<Rightarrow> int \<Rightarrow> buffer result" where
  "buildSnapshotArtifact config version =
     bindE (validateSnapshotConfig config) (\<lambda>c. encodeSnapshotArtifact c version)"

definition buildArtifactV4 :: "(jsstr \<times> jsval) list \<Rightarrow> buffer result" where
  "buildArtifactV4 config = buildSnapshotArtifact config FORMAT_VERSION_V4"

definition buildArtifactV12 :: "(jsstr \<times> jsval) list \<Rightarrow> buffer result" where
  "buildArtifactV12 config = buildSnapshotArtifact config FORMAT_VERSION_V1_2_SCALE"

definition buildArtifactV121 :: "(jsstr \<times> jsval) list \<Rightarrow> buffer result" where
  "buildArtifactV121 config = buildSnapshotArtifact config FORMAT_VERSION_V1_2_1_SCALE"

record snapshot_artifact =
  sa_formatVersion :: int
  sa_minInputLamports :: int
  sa_maxInputLamports :: int
  sa_winnersCount :: int
  sa_formulaCode :: int
  sa_targetScore :: int
  sa_snapshotCount :: int
  sa_payoutLamports :: int
  sa_snapshotHash :: buffer
  sa_merkleRoot :: "buffer option"
  sa_snapshotUri :: jsstr

text \<open>\<^verbatim>\<open>blob.subarray(0, 4).toString("ascii") !== "W3O1"\<close>: ASCII decoding drops the top bit of each byte.\<close>

definition magic_ok :: "buffer \<Rightarrow> bool" where
  "magic_ok blob \<longleftrightarrow> ascii_string (subarray blob 0 4) = js ''W3O1''"

definition valid_formula_code :: "int \<Rightarrow> bool" where
  "valid_formula_code code \<longleftrightarrow> code \<in> {1, 2, 3, 4, 5}"

definition invalid_length :: js_error where
  "invalid_length = Error ''Invalid artifact length''"

definition snapshotR :: "int \<Rightarrow> nat \<Rightarrow> snapshot_artifact reader" where
  "snapshotR expectedFormatVersion blobLength =
     bindR readU16LE (\<lambda>version.
     throwIfR (version \<noteq> expectedFormatVersion) (Error ''Unsupported snapshot artifact format version'')
    (bindR readU64LE (\<lambda>minInput.
     bindR readU64LE (\<lambda>maxInput.
     throwIfR (maxInput < minInput) (Error ''Snapshot artifact bounds are invalid'')
    (bindR readU16LE (\<lambda>winners.
     bindR readU8 (\<lambda>code.
     throwIfR (\<not> valid_formula_code code) (Error ''Invalid formula code'')
    (bindR (readBytes invalid_length 1) (\<lambda>flagByte.
     bindR (readBytes invalid_length 4) (\<lambda>reserved.
     let flags = uint (flagByte ! 0) in
     throwIfR (flags AND NOT V4_FLAG_HAS_MERKLE_ROOT \<noteq> 0) (Error ''Unsupported v4 snapshot flags'')
    (throwIfR (reserved \<noteq> zeros 4) (Error ''Reserved header bytes must be zero'')
    (bindR readI64LE (\<lambda>target.
     bindR readU32LE (\<lambda>count.
     bindR readU64LE (\<lambda>payout.
     bindR (readBytes invalid_length 32) (\<lambda>hash.
     bindR (if flags AND V4_FLAG_HAS_MERKLE_ROOT \<noteq> 0
            then bindR (readBytes invalid_length 32) (\<lambda>r. retR (Some r)) else retR None) (\<lambda>root.
     bindR readU16LE (\<lambda>uriLen.
     bindR offsetR (\<lambda>off.
     throwIfR (uriLen = 0 \<or> int MAX_SNAPSHOT_URI_BYTES < uriLen \<or> off + nat uriLen \<noteq> blobLength)
       (Error ''Invalid snapshot_uri length'')
    (bindR (readBytes invalid_length (nat uriLen)) (\<lambda>uriBytes.
     let uri = utf8_decode uriBytes in
     throwIfR (js_trim uri = []) (Error ''snapshot_uri must not be empty'')
    (throwIfR (winners < 1 \<or> count < winners \<or> MAX_WINNERS < winners) (Error ''Invalid winners_count'')
    (throwIfR (count < 1) (Error ''Invalid snapshot_count'')
    (retR \<lparr>sa_formatVersion = expectedFormatVersion, sa_minInputLamports = minInput, sa_maxInputLamports = maxInput,
           sa_winnersCount = winners, sa_formulaCode = code, sa_targetScore = target, sa_snapshotCount = count,
           sa_payoutLamports = payout, sa_snapshotHash = hash, sa_merkleRoot = root, sa_snapshotUri = uri\<rparr>))))))))))))))))))))))))"

definition parseSnapshotArtifact :: "buffer \<Rightarrow> int \<Rightarrow> snapshot_artifact result" where
  "parseSnapshotArtifact blob expectedFormatVersion =
     throwIf (length blob < 84) (Error ''Invalid snapshot artifact length'')
    (throwIf (\<not> magic_ok blob) (Error ''Invalid artifact magic'')
    (runR (snapshotR expectedFormatVersion (length blob)) blob 4))"

definition parseArtifactV4 :: "buffer \<Rightarrow> snapshot_artifact result" where
  "parseArtifactV4 blob = parseSnapshotArtifact blob FORMAT_VERSION_V4"

definition parseArtifactV12 :: "buffer \<Rightarrow> snapshot_artifact result" where
  "parseArtifactV12 blob = parseSnapshotArtifact blob FORMAT_VERSION_V1_2_SCALE"

definition parseArtifactV121 :: "buffer \<Rightarrow> snapshot_artifact result" where
  "parseArtifactV121 blob = parseSnapshotArtifact blob FORMAT_VERSION_V1_2_1_SCALE"

definition formulaCodeToName :: "int \<Rightarrow> formula result" where
  "formulaCodeToName code =
     (if code = 1 then Inr Weighted_random
      else if code = 2 then Inr Rank_desc
      else if code = 3 then Inr Rank_asc
      else if code = 4 then Inr First_n
      else if code = 5 then Inr Closest_to
      else Inl (Error ''Unsupported formula code''))"

section \<open>The compact named-entry artifact\<close>

record compact_config =
  cc_formula :: formula
  cc_entries :: "participant list"
  cc_input :: int
  cc_payout :: int
  cc_winners :: int
  cc_target :: int

definition validateCompactConfig :: "(jsstr \<times> jsval) list \<Rightarrow> compact_config result" where
  "validateCompactConfig config =
     bindE (validateFormula (prop_of config ''formula'')) (\<lambda>f.
     bindE (normalizeCompactNamedEntries (prop_of config ''participants'') (prop_of config ''formula'')) (\<lambda>entries.
     bindE (parsePositiveLamports (prop_of config ''input_lamports'')) (\<lambda>inputLamports.
     bindE (parseOptionalNonNegativeLamports (prop_of config ''payout_lamports'') 3) (\<lambda>payoutLamports.
     bindE (validateWinnersCount (prop_of config ''winners_count'') (int (length entries))) (\<lambda>winners.
     bindE (validate_target f (prop_of config ''target'')) (\<lambda>target.
     Inr \<lparr>cc_formula = f, cc_entries = entries, cc_input = inputLamports, cc_payout = payoutLamports,
          cc_winners = winners, cc_target = target\<rparr>))))))"

text \<open>\<^verbatim>\<open>idBytes.copy(fixed)\<close> into 64 zero bytes.\<close>

definition padded_id :: "jsstr \<Rightarrow> buffer" where
  "padded_id s = take MAX_OUTCOME_ID_BYTES (ascii_bytes s @ zeros (MAX_OUTCOME_ID_BYTES - length s))"

definition encode_v5_entry :: "participant \<Rightarrow> buffer result" where
  "encode_v5_entry e = concatE
     [Inr (byte_of (int (length (p_id e)))), Inr (padded_id (p_id e)), u32le (p_weight e),
      i64le (p_score e), u16le (p_order e)]"

definition encodeArtifactV5 :: "compact_config \<Rightarrow> buffer result" where
  "encodeArtifactV5 c =
     bindE (concatE
       ([Inr W3O1, u16le FORMAT_VERSION_V5, u64le (cc_input c), u64le (cc_input c), u16le (cc_winners c),
         Inr (byte_of (formula_code (cc_formula c))), Inr (zeros 5), i64le (cc_target c),
         u16le (int (length (cc_entries c))), u64le (cc_payout c)]
        @ map encode_v5_entry (cc_entries c))) (\<lambda>blob.
     throwIf (length blob > MAX_COMPILED_ARTIFACT_BYTES)
       (RangeError ''Outcome Standard V1.1 compact artifact is too large; route larger draws to Outcome Standard V1.2'')
       (Inr blob))"

definition buildArtifactV5 :: "(jsstr \<times> jsval) list \<Rightarrow> buffer result" where
  "buildArtifactV5 config = bindE (validateCompactConfig config) encodeArtifactV5"

record compact_artifact =
  ca_minInputLamports :: int
  ca_maxInputLamports :: int
  ca_winnersCount :: int
  ca_formulaCode :: int
  ca_targetScore :: int
  ca_entryCount :: int
  ca_payoutLamports :: int
  ca_entries :: "participant list"

text \<open>One entry of the loop; the state is (previousId, seenOrders, entries).\<close>

type_synonym v5_state = "buffer option \<times> int list \<times> participant list"

definition v5_entryR :: "int \<Rightarrow> v5_state \<Rightarrow> v5_state reader" where
  "v5_entryR entryCount st =
     (case st of (previousId, seenOrders, entries) \<Rightarrow>
      bindR readU8 (\<lambda>idLen.
      throwIfR (idLen < 1 \<or> int MAX_OUTCOME_ID_BYTES < idLen) (Error ''Invalid v5 id length'')
     (bindR (readBytes invalid_length MAX_OUTCOME_ID_BYTES) (\<lambda>idBuffer.
      let canonicalId = take (nat idLen) idBuffer in
      throwIfR (\<not> list_all printable_byte canonicalId) (Error ''v5 id must be printable ASCII'')
     (throwIfR (drop (nat idLen) idBuffer \<noteq> zeros (MAX_OUTCOME_ID_BYTES - nat idLen)) (Error ''v5 id padding must be zero'')
     (throwIfR (\<exists>p. previousId = Some p \<and> 0 \<le> buffer_compare p canonicalId) (Error ''v5 ids must be strictly sorted'')
     (bindR readU32LE (\<lambda>weight.
      throwIfR (weight \<le> 0) (Error ''v5 weight must be positive'')
     (bindR readI64LE (\<lambda>score.
      bindR readU16LE (\<lambda>order.
      throwIfR (entryCount \<le> order \<or> order \<in> set seenOrders) (Error ''v5 order must be unique and in range'')
     (retR (Some canonicalId, order # seenOrders,
            entries @ [\<lparr>p_id = ascii_string canonicalId, p_order = order, p_weight = weight, p_score = score\<rparr>])))))))))))))"

definition artifactV5R :: "nat \<Rightarrow> compact_artifact reader" where
  "artifactV5R blobLength =
     bindR readU16LE (\<lambda>version.
     throwIfR (version \<noteq> FORMAT_VERSION_V5) (Error ''Unsupported compact named-entry artifact format version'')
    (bindR readU64LE (\<lambda>minInput.
     bindR readU64LE (\<lambda>maxInput.
     throwIfR (maxInput < minInput) (Error ''v5 artifact bounds are invalid'')
    (bindR readU16LE (\<lambda>winners.
     bindR readU8 (\<lambda>code.
     throwIfR (\<not> valid_formula_code code) (Error ''Invalid formula code'')
    (bindR (readBytes invalid_length 5) (\<lambda>reserved.
     throwIfR (reserved \<noteq> zeros 5) (Error ''Reserved v5 header bytes must be zero'')
    (bindR readI64LE (\<lambda>target.
     bindR readU16LE (\<lambda>entryCount.
     bindR readU64LE (\<lambda>payout.
     throwIfR (entryCount < 1 \<or> 48 + nat entryCount * V5_ENTRY_BYTES \<noteq> blobLength)
       (Error ''Invalid v5 entry_count or artifact byte size'')
    (throwIfR (winners < 1 \<or> entryCount < winners \<or> MAX_WINNERS < winners) (Error ''Invalid winners_count'')
    (bindR (forR (nat entryCount) 0 (\<lambda>_. v5_entryR entryCount) (None, [], [])) (\<lambda>st.
     bindR offsetR (\<lambda>off.
     throwIfR (off \<noteq> blobLength) (Error ''Unknown trailing bytes in v5 artifact'')
    (retR \<lparr>ca_minInputLamports = minInput, ca_maxInputLamports = maxInput, ca_winnersCount = winners,
           ca_formulaCode = code, ca_targetScore = target, ca_entryCount = entryCount,
           ca_payoutLamports = payout, ca_entries = snd (snd st)\<rparr>))))))))))))))))))"

definition parseArtifactV5 :: "buffer \<Rightarrow> compact_artifact result" where
  "parseArtifactV5 blob =
     throwIf (length blob < 48 \<or> length blob > MAX_COMPILED_ARTIFACT_BYTES) (Error ''Invalid v5 artifact length'')
    (throwIf (\<not> magic_ok blob) (Error ''Invalid artifact magic'')
    (runR (artifactV5R (length blob)) blob 4))"

section \<open>Validated configurations\<close>

definition config_ok :: "snapshot_config \<Rightarrow> bool" where
  "config_ok c \<longleftrightarrow>
     0 < sc_input c \<and> sc_input c \<le> MAX_U64 \<and> 0 \<le> sc_payout c \<and> sc_payout c \<le> MAX_U64 \<and>
     length (sc_hash c) = 32 \<and> 0 < sc_count c \<and> sc_count c \<le> MAX_U32 \<and>
     js_trim (sc_uri c) = sc_uri c \<and> sc_uri c \<noteq> [] \<and> length (utf8_encode (sc_uri c)) \<le> MAX_SNAPSHOT_URI_BYTES \<and>
     0 < sc_winners c \<and> sc_winners c \<le> sc_count c \<and> sc_winners c \<le> MAX_WINNERS \<and>
     MIN_I64 \<le> sc_target c \<and> sc_target c \<le> MAX_I64 \<and> (\<forall>r. sc_root c = Some r \<longrightarrow> length r = 32)"

lemma parsePositiveLamports_range: "parsePositiveLamports v = Inr n \<Longrightarrow> 0 < n \<and> n \<le> MAX_U64"
  by (auto simp: parsePositiveLamports_def throwIf_Inr_iff split: jsval.splits js_number.splits)

lemma parseOptionalNonNegative_range:
  "parseOptionalNonNegativeLamports v d = Inr n \<Longrightarrow> 0 \<le> d \<Longrightarrow> d \<le> MAX_U64 \<Longrightarrow> 0 \<le> n \<and> n \<le> MAX_U64"
  by (auto simp: parseOptionalNonNegativeLamports_def parseNonNegativeLamports_def MAX_U64_def
      dest!: parsePositiveLamports_range split: if_splits)

lemma validateWinnersCount_range:
  "validateWinnersCount v n = Inr w \<Longrightarrow> 0 < w \<and> w \<le> n \<and> w \<le> MAX_WINNERS"
  by (auto simp: validateWinnersCount_def throwIf_Inr_iff split: jsval.splits js_number.splits if_splits)

lemma validate_target_range: "validate_target f v = Inr n \<Longrightarrow> MIN_I64 \<le> n \<and> n \<le> MAX_I64"
  by (auto simp: validate_target_def MIN_I64_def MAX_I64_def dest!: parseSignedInteger_range split: if_splits)

lemma normalizeHex32_length: "normalizeHex32 v = Inr h \<Longrightarrow> length (from_hex h) = 32"
proof -
  assume "normalizeHex32 v = Inr h"
  then obtain s where s: "is_hex64 s" "h = map hex_lower s"
    by (auto simp: normalizeHex32_def throwIf_Inr_iff split: jsval.splits)
  have "hex_value (hex_lower c) \<noteq> None" if "hex_value c \<noteq> None" for c
  proof -
    have u: "unat c \<le> 90 \<Longrightarrow> unat (c + 32) = unat c + 32" by (simp add: unat_plus_if')
    show ?thesis
      using that u by (auto simp: hex_value_def Let_def hex_lower_def word_le_nat_alt split: if_splits)
  qed
  with s have "is_hex64 h" by (auto simp: is_hex64_def)
  then show ?thesis by simp
qed

lemma validate_count_range: "validate_count v = Inr n \<Longrightarrow> 0 < n \<and> n \<le> MAX_U32"
  by (auto simp: validate_count_def throwIf_Inr_iff split: jsval.splits js_number.splits)

lemma validate_uri_ok:
  "validate_uri v = Inr s \<Longrightarrow> js_trim s = s \<and> s \<noteq> [] \<and> length (utf8_encode s) \<le> MAX_SNAPSHOT_URI_BYTES"
  by (auto simp: validate_uri_def throwIf_Inr_iff split: jsval.splits)

lemma validateSnapshotConfig_ok:
  assumes "validateSnapshotConfig config = Inr c"
  shows "config_ok c"
proof -
  from assms obtain h where
    "parsePositiveLamports (prop_of config ''input_lamports'') = Inr (sc_input c)"
    "parseOptionalNonNegativeLamports (prop_of config ''payout_lamports'') 3 = Inr (sc_payout c)"
    "normalizeHex32 (prop_of config ''snapshot_hash'') = Inr h" "sc_hash c = from_hex h"
    "validate_count (prop_of config ''snapshot_count'') = Inr (sc_count c)"
    "validate_uri (prop_of config ''snapshot_uri'') = Inr (sc_uri c)"
    "validateWinnersCount (prop_of config ''winners_count'') (sc_count c) = Inr (sc_winners c)"
    "validate_target (sc_formula c) (prop_of config ''target'') = Inr (sc_target c)"
    "\<forall>r. sc_root c = Some r \<longrightarrow> (\<exists>g. normalizeHex32 (prop_of config ''merkle_root'') = Inr g \<and> r = from_hex g)"
    unfolding validateSnapshotConfig_def
    by (elim result_elims) (auto simp: bindE_Inr_iff split: if_splits)
  moreover have "(0::int) \<le> 3" "3 \<le> MAX_U64" by (simp_all add: MAX_U64_def)
  ultimately show ?thesis
    unfolding config_ok_def
    by (auto dest!: parsePositiveLamports_range parseOptionalNonNegative_range validateWinnersCount_range
        validate_target_range normalizeHex32_length validate_count_range validate_uri_ok)
qed

section \<open>Round trip of the snapshot artifact\<close>

definition snapshot_artifact_of :: "snapshot_config \<Rightarrow> int \<Rightarrow> snapshot_artifact" where
  "snapshot_artifact_of c version =
     \<lparr>sa_formatVersion = version, sa_minInputLamports = sc_input c, sa_maxInputLamports = sc_input c,
      sa_winnersCount = sc_winners c, sa_formulaCode = formula_code (sc_formula c), sa_targetScore = sc_target c,
      sa_snapshotCount = sc_count c, sa_payoutLamports = sc_payout c, sa_snapshotHash = sc_hash c,
      sa_merkleRoot = sc_root c, sa_snapshotUri = sc_uri c\<rparr>"

definition snapshot_bytes :: "snapshot_config \<Rightarrow> int \<Rightarrow> buffer" where
  "snapshot_bytes c version =
     le_bytes 2 version @ le_bytes 8 (sc_input c) @ le_bytes 8 (sc_input c) @ le_bytes 2 (sc_winners c)
     @ byte_of (formula_code (sc_formula c)) @ byte_of (root_flags (sc_root c)) @ zeros 4
     @ le_bytes 8 (sc_target c) @ le_bytes 4 (sc_count c) @ le_bytes 8 (sc_payout c) @ sc_hash c
     @ root_bytes (sc_root c) @ le_bytes 2 (int (length (utf8_encode (sc_uri c)))) @ utf8_encode (sc_uri c) @ []"

lemma formula_code_range [simp]: "0 \<le> formula_code f" "formula_code f < 256" "valid_formula_code (formula_code f)"
  by (cases f; simp add: valid_formula_code_def)+

lemma encodeSnapshotArtifact_bytes:
  assumes "config_ok c" and "0 \<le> version" and "version < 65536"
  shows "encodeSnapshotArtifact c version = Inr (W3O1 @ snapshot_bytes c version)"
  using assms by (simp add: encodeSnapshotArtifact_def snapshot_bytes_def config_ok_def bound_defs MAX_SNAPSHOT_URI_BYTES_def)

lemma runs_root:
  assumes "\<forall>r. root = Some r \<longrightarrow> length r = 32"
  shows "runs off (if root_flags root AND V4_FLAG_HAS_MERKLE_ROOT \<noteq> 0
            then bindR (readBytes invalid_length 32) (\<lambda>r. retR (Some r)) else retR None) (root_bytes root) root"
proof (cases root)
  case None
  then show ?thesis by (simp add: root_flags_def root_bytes_def runs_retR)
next
  case (Some r)
  then have "length r = 32" using assms by simp
  then have "runs off (bindR (readBytes invalid_length 32) (\<lambda>r. retR (Some r))) (r @ []) (Some r)"
    by (rule runs_bindR [OF runs_readBytes, rotated 1, OF runs_retR])
  with Some show ?thesis by (simp add: root_flags_def root_bytes_def V4_FLAG_HAS_MERKLE_ROOT_def)
qed

lemma root_flags_byte [simp]: "uint (byte_of (root_flags root) ! 0) = root_flags root"
  by (simp add: byte_of_def root_flags_def V4_FLAG_HAS_MERKLE_ROOT_def)

lemma root_flags_only [simp]: "root_flags root AND NOT V4_FLAG_HAS_MERKLE_ROOT = 0"
  by (simp add: root_flags_def V4_FLAG_HAS_MERKLE_ROOT_def)

lemma length_snapshot_bytes:
  "config_ok c \<Longrightarrow> length (snapshot_bytes c version) = 80 + length (root_bytes (sc_root c)) + length (utf8_encode (sc_uri c))"
  by (simp add: snapshot_bytes_def config_ok_def)

lemma utf8_encode_not_Nil: "s \<noteq> [] \<Longrightarrow> utf8_encode s \<noteq> []"
proof -
  assume "s \<noteq> []"
  then have "code_points s \<noteq> []" by (cases s rule: code_points.cases) auto
  moreover have "utf8_of cp \<noteq> []" for cp by (simp add: utf8_of_def)
  ultimately show ?thesis by (cases "code_points s") (simp_all add: utf8_encode_def)
qed

lemma snapshotR_runs:
  assumes ok: "config_ok c" and version: "0 \<le> version" "version < 65536" and uri: "well_formed_utf16 (sc_uri c)"
  shows "runs 4 (snapshotR version (4 + length (snapshot_bytes c version))) (snapshot_bytes c version)
    (snapshot_artifact_of c version)"
proof -
  note ok' = ok [unfolded config_ok_def bound_defs MAX_SNAPSHOT_URI_BYTES_def]
  have root: "\<And>off. runs off (if uint (byte_of (root_flags (sc_root c)) ! 0) AND V4_FLAG_HAS_MERKLE_ROOT \<noteq> 0
            then bindR (readBytes invalid_length 32) (\<lambda>r. retR (Some r)) else retR None) (root_bytes (sc_root c)) (sc_root c)"
    unfolding root_flags_byte by (rule runs_root) (use ok' in blast)
  have ne: "utf8_encode (sc_uri c) \<noteq> []" using utf8_encode_not_Nil ok' by blast
  have dec: "utf8_decode (utf8_encode (sc_uri c)) = sc_uri c" using uri by (rule utf8_decode_encode)
  show ?thesis
    unfolding snapshotR_def Let_def length_snapshot_bytes [OF ok]
    unfolding snapshot_bytes_def snapshot_artifact_of_def
    by (rule root runs_retR_eq runs_intros
        | (use ok' version ne dec in \<open>simp add: bound_defs MAX_SNAPSHOT_URI_BYTES_def; fail\<close>))+
qed

lemma magic_ok_W3O1: "magic_ok (W3O1 @ b)"
  by (simp add: magic_ok_def W3O1_def subarray_def ascii_string_def js_def)

lemma snapshotR_other_version:
  assumes "0 \<le> version" and "version < 65536" and "other \<noteq> version"
  shows "fails 4 (snapshotR other n) (snapshot_bytes c version) (Error ''Unsupported snapshot artifact format version'')"
  unfolding snapshotR_def snapshot_bytes_def
  by (rule fails_intros runs_intros | (use assms in \<open>simp; fail\<close>))+

definition snapshot_version :: "int \<Rightarrow> bool" where
  "snapshot_version v \<longleftrightarrow> v = FORMAT_VERSION_V4 \<or> v = FORMAT_VERSION_V1_2_SCALE \<or> v = FORMAT_VERSION_V1_2_1_SCALE"

text \<open>A valid configuration with a URI of well-formed text is built into an artifact that its parser
  reads back field by field, and that the parsers of every other version reject as such; the artifact
  stays below the limit of a committed artifact.\<close>

theorem snapshot_artifact_roundtrip:
  assumes "validateSnapshotConfig config = Inr c" and "well_formed_utf16 (sc_uri c)" and "snapshot_version v"
  shows "\<exists>blob. buildSnapshotArtifact config v = Inr blob
    \<and> parseSnapshotArtifact blob v = Inr (snapshot_artifact_of c v)
    \<and> (\<forall>w. w \<noteq> v \<longrightarrow> parseSnapshotArtifact blob w = Inl (Error ''Unsupported snapshot artifact format version''))
    \<and> length blob \<le> MAX_COMPILED_ARTIFACT_BYTES"
proof -
  have ok: "config_ok c" using assms(1) by (rule validateSnapshotConfig_ok)
  have v: "0 \<le> v" "v < 65536" using assms(3) by (auto simp: snapshot_version_def format_defs)
  let ?blob = "W3O1 @ snapshot_bytes c v"
  have len: "length ?blob = 84 + length (root_bytes (sc_root c)) + length (utf8_encode (sc_uri c))"
    by (simp add: length_snapshot_bytes [OF ok] W3O1_def)
  have four: "length W3O1 = 4" by (simp add: W3O1_def)
  have checks: "parseSnapshotArtifact ?blob w = runR (snapshotR w (length ?blob)) ?blob 4" for w
    using len magic_ok_W3O1 by (simp add: parseSnapshotArtifact_def)
  have len2: "length ?blob = 4 + length (snapshot_bytes c v)" by (simp add: W3O1_def)
  have "parseSnapshotArtifact ?blob v = Inr (snapshot_artifact_of c v)"
    unfolding checks len2 by (rule runs_run [OF snapshotR_runs [OF ok v assms(2)] four])
  moreover have "parseSnapshotArtifact ?blob w = Inl (Error ''Unsupported snapshot artifact format version'')"
    if "w \<noteq> v" for w
    unfolding checks by (rule fails_run [OF snapshotR_other_version [OF v that] four])
  moreover have "length ?blob \<le> MAX_COMPILED_ARTIFACT_BYTES"
    using ok unfolding len by (auto simp: root_bytes_def config_ok_def MAX_SNAPSHOT_URI_BYTES_def
      MAX_COMPILED_ARTIFACT_BYTES_def split: option.splits)
  moreover have "buildSnapshotArtifact config v = Inr ?blob"
    using assms(1) encodeSnapshotArtifact_bytes [OF ok v] by (simp add: buildSnapshotArtifact_def)
  ultimately show ?thesis by blast
qed

definition sample_config :: "(jsstr \<times> jsval) list" where
  "sample_config =
     [(js ''formula'', JString (js ''closest_to'')), (js ''input_lamports'', JNumber (NInt 5)),
      (js ''payout_lamports'', JNumber (NInt 0)), (js ''snapshot_hash'', JString (to_hex (replicate 32 0xAB))),
      (js ''snapshot_count'', JNumber (NInt 10)), (js ''snapshot_uri'', JString (js '' ar://x '')),
      (js ''winners_count'', JNumber (NInt 3)), (js ''target'', JBigInt (-7))]"

definition sample_validated :: snapshot_config where
  "sample_validated = \<lparr>sc_formula = Closest_to, sc_input = 5, sc_payout = 0, sc_hash = replicate 32 0xAB, sc_count = 10,
     sc_uri = js ''ar://x'', sc_winners = 3, sc_target = -7, sc_root = None\<rparr>"

lemma sample_config_validates: "validateSnapshotConfig sample_config = Inr sample_validated"
proof -
  have trim: "js_trim (js '' ar://x '') = js ''ar://x''"
    by (simp add: js_def js_trim_def js_space_def)
  have utf8: "\<not> MAX_SNAPSHOT_URI_BYTES < length (utf8_encode (js ''ar://x''))"
    by (subst utf8_encode_ascii) (simp_all add: js_def MAX_SNAPSHOT_URI_BYTES_def)
  have ne: "js ''ar://x'' \<noteq> []" by (simp add: js_def)
  have props: "prop_of sample_config ''formula'' = JString (js ''closest_to'')"
    "prop_of sample_config ''input_lamports'' = JNumber (NInt 5)"
    "prop_of sample_config ''payout_lamports'' = JNumber (NInt 0)"
    "prop_of sample_config ''snapshot_hash'' = JString (to_hex (replicate 32 0xAB))"
    "prop_of sample_config ''snapshot_count'' = JNumber (NInt 10)"
    "prop_of sample_config ''snapshot_uri'' = JString (js '' ar://x '')"
    "prop_of sample_config ''winners_count'' = JNumber (NInt 3)"
    "prop_of sample_config ''target'' = JBigInt (-7)" "prop_of sample_config ''merkle_root'' = JUndefined"
    by (simp_all add: prop_of_def sample_config_def js_def)
  have f: "validateFormula (JString (js ''closest_to'')) = Inr Closest_to" by code_simp
  show ?thesis
    unfolding validateSnapshotConfig_def props f validate_uri_def jsval.case trim
    by (simp add: sample_validated_def parsePositiveLamports_def is_safe_integer_def parseOptionalNonNegativeLamports_def
        parseNonNegativeLamports_def validate_count_def validateWinnersCount_def validate_target_def
        parseSignedInteger_def bound_defs utf8 ne not_less)
qed

lemma snapshot_artifact_roundtrip_witness:
  "\<exists>blob. buildArtifactV12 sample_config = Inr blob
    \<and> parseArtifactV12 blob = Inr (snapshot_artifact_of sample_validated 6) \<and> \<not> is_ok (parseArtifactV4 blob)"
proof -
  have "well_formed_utf16 (sc_uri sample_validated)"
    by (rule well_formed_ascii) (simp add: sample_validated_def js_def)
  from snapshot_artifact_roundtrip [OF sample_config_validates this, of 6]
  obtain blob where "buildSnapshotArtifact sample_config 6 = Inr blob"
    "parseSnapshotArtifact blob 6 = Inr (snapshot_artifact_of sample_validated 6)"
    "parseSnapshotArtifact blob 4 = Inl (Error ''Unsupported snapshot artifact format version'')"
    by (auto simp: snapshot_version_def format_defs)
  then show ?thesis
    by (simp add: buildArtifactV12_def parseArtifactV12_def parseArtifactV4_def format_defs)
qed

section \<open>Round trip of the compact artifact\<close>

definition entry_ok :: "participant \<Rightarrow> bool" where
  "entry_ok e \<longleftrightarrow>
     outcome_id_ok (p_id e) \<and> 0 \<le> p_order e \<and> p_order e \<le> 65535 \<and> 0 < p_weight e \<and> p_weight e \<le> MAX_U32 \<and>
     MIN_I64 \<le> p_score e \<and> p_score e \<le> MAX_I64"

definition entry_bytes :: "participant \<Rightarrow> buffer" where
  "entry_bytes e =
     byte_of (int (length (p_id e))) @ (ascii_bytes (p_id e) @ zeros (64 - length (p_id e))) @ le_bytes 4 (p_weight e)
     @ le_bytes 8 (p_score e) @ le_bytes 2 (p_order e) @ []"

lemma encode_v5_entry_ok: "entry_ok e \<Longrightarrow> encode_v5_entry e = Inr (entry_bytes e)"
  by (simp add: encode_v5_entry_def entry_bytes_def entry_ok_def bound_defs padded_id_def outcome_id_ok_def)

lemma length_entry_bytes: "entry_ok e \<Longrightarrow> length (entry_bytes e) = V5_ENTRY_BYTES"
  by (simp add: entry_bytes_def entry_ok_def outcome_id_ok_def V5_ENTRY_BYTES_def MAX_OUTCOME_ID_BYTES_def)

lemma printable_bytes:
  assumes "outcome_id_ok s"
  shows "list_all printable_byte (ascii_bytes s)" and "ascii_string (ascii_bytes s) = s"
proof -
  have u: "unat (ucast c :: byte) = unat c \<and> unat c \<le> 126 \<and> 32 \<le> unat c" if "c \<in> set s" for c :: "16 word"
  proof -
    have "32 \<le> unat c" "unat c \<le> 126"
      using that assms by (auto simp: outcome_id_ok_def printable_ascii_def printable_unit_def word_le_nat_alt)
    then show ?thesis by (simp add: unsigned_ucast_eq take_bit_nat_eq_self)
  qed
  then show "list_all printable_byte (ascii_bytes s)"
    by (auto simp: ascii_bytes_def printable_byte_def word_le_nat_alt)
  have "ucast ((ucast c :: byte) AND 127) = c" if "c \<in> set s" for c :: "16 word"
  proof -
    have m: "(127 :: byte) = mask 7" by (simp add: mask_eq_exp_minus_1)
    have "unat ((ucast c :: byte) AND 127) = unat c"
      using u [OF that] unfolding m by (simp add: take_bit_eq_mask [symmetric] unsigned_take_bit_eq take_bit_nat_eq_self)
    then show ?thesis
      using u [OF that] by (intro word_unat_eq_iff [THEN iffD2]) (simp add: unsigned_ucast_eq take_bit_nat_eq_self)
  qed
  then show "ascii_string (ascii_bytes s) = s"
    by (simp add: ascii_string_def ascii_bytes_def) (auto intro: map_idI)
qed

lemma v5_entryR_runs:
  assumes e: "entry_ok e" and order: "p_order e < n" "p_order e \<notin> set seen"
    and prev: "\<forall>p. previous = Some p \<longrightarrow> buffer_compare p (ascii_bytes (p_id e)) < 0"
  shows "runs off (v5_entryR n (previous, seen, acc)) (entry_bytes e)
    (Some (ascii_bytes (p_id e)), p_order e # seen, acc @ [e])"
proof -
  have id: "outcome_id_ok (p_id e)" using e by (simp add: entry_ok_def)
  then have len: "0 < length (p_id e)" "length (p_id e) \<le> 64" by (simp_all add: outcome_id_ok_def MAX_OUTCOME_ID_BYTES_def)
  have p: "\<not> (\<exists>p. previous = Some p \<and> 0 \<le> buffer_compare p (ascii_bytes (p_id e)))" using prev by auto
  show ?thesis
    unfolding v5_entryR_def entry_bytes_def Let_def prod.case
    by (rule runs_retR_eq runs_intros
        | (use e len order p printable_bytes [OF id] in \<open>simp add: entry_ok_def bound_defs del: list_all_set; fail\<close>))+
qed

definition v5_state_at :: "participant list \<Rightarrow> nat \<Rightarrow> v5_state" where
  "v5_state_at es k =
     (if k = 0 then None else Some (ascii_bytes (p_id (es ! (k - 1)))), rev (map p_order (take k es)), take k es)"

definition compact_ok :: "compact_config \<Rightarrow> bool" where
  "compact_ok c \<longleftrightarrow>
     0 < cc_input c \<and> cc_input c \<le> MAX_U64 \<and> 0 \<le> cc_payout c \<and> cc_payout c \<le> MAX_U64 \<and>
     cc_entries c \<noteq> [] \<and> length (cc_entries c) \<le> 65535 \<and>
     0 < cc_winners c \<and> cc_winners c \<le> int (length (cc_entries c)) \<and> cc_winners c \<le> MAX_WINNERS \<and>
     MIN_I64 \<le> cc_target c \<and> cc_target c \<le> MAX_I64 \<and>
     (\<forall>e \<in> set (cc_entries c). entry_ok e \<and> p_order e < int (length (cc_entries c))) \<and>
     distinct (map p_order (cc_entries c)) \<and> strictly_sorted_ids (cc_entries c)"

lemma v5_entries_runs:
  assumes "\<forall>e \<in> set es. entry_ok e \<and> p_order e < int (length es)" and "distinct (map p_order es)"
    and "strictly_sorted_ids es"
  shows "runs off (forR (length es) 0 (\<lambda>_. v5_entryR (int (length es))) (None, [], []))
    (concat (map entry_bytes es)) (v5_state_at es (length es))"
proof -
  have "runs o' (v5_entryR (int (length es)) (v5_state_at es k)) (entry_bytes (es ! k)) (v5_state_at es (Suc k))"
    if k: "k < length es" for k o'
  proof -
    have e: "entry_ok (es ! k)" "p_order (es ! k) < int (length es)" using assms(1) nth_mem [OF k] by blast+
    have "p_order (es ! k) \<notin> set (map p_order (take k es))"
      using assms(2) k by (rule distinct_map_take_nth)
    moreover have "buffer_compare (ascii_bytes (p_id (es ! (k - 1)))) (ascii_bytes (p_id (es ! k))) < 0" if "k \<noteq> 0"
      using assms(3) k that by (auto simp: strictly_sorted_ids_def compareId_def sorted_wrt_iff_nth_less)
    ultimately have "runs o' (v5_entryR (int (length es)) (v5_state_at es k)) (entry_bytes (es ! k))
        (Some (ascii_bytes (p_id (es ! k))), p_order (es ! k) # rev (map p_order (take k es)), take k es @ [es ! k])"
      unfolding v5_state_at_def by (intro v5_entryR_runs e) auto
    then show ?thesis
      using k by (simp add: v5_state_at_def take_Suc_conv_app_nth)
  qed
  from runs_forR [where body = "\<lambda>_. v5_entryR (int (length es))" and st = "v5_state_at es" and enc = entry_bytes
      and xs = es and i = 0, OF this]
  show ?thesis by (simp add: v5_state_at_def)
qed

definition compact_artifact_of :: "compact_config \<Rightarrow> compact_artifact" where
  "compact_artifact_of c =
     \<lparr>ca_minInputLamports = cc_input c, ca_maxInputLamports = cc_input c, ca_winnersCount = cc_winners c,
      ca_formulaCode = formula_code (cc_formula c), ca_targetScore = cc_target c,
      ca_entryCount = int (length (cc_entries c)), ca_payoutLamports = cc_payout c, ca_entries = cc_entries c\<rparr>"

definition compact_bytes :: "compact_config \<Rightarrow> buffer" where
  "compact_bytes c =
     le_bytes 2 5 @ le_bytes 8 (cc_input c) @ le_bytes 8 (cc_input c) @ le_bytes 2 (cc_winners c)
     @ byte_of (formula_code (cc_formula c)) @ zeros 5 @ le_bytes 8 (cc_target c)
     @ le_bytes 2 (int (length (cc_entries c))) @ le_bytes 8 (cc_payout c)
     @ concat (map entry_bytes (cc_entries c)) @ []"

lemma length_compact_bytes:
  assumes "compact_ok c"
  shows "length (compact_bytes c) = 44 + length (cc_entries c) * V5_ENTRY_BYTES"
proof -
  have "length (concat (map entry_bytes (cc_entries c))) = length (cc_entries c) * V5_ENTRY_BYTES"
    using assms by (intro length_concat_const length_entry_bytes) (auto simp: compact_ok_def)
  then show ?thesis by (simp add: compact_bytes_def)
qed

lemma artifactV5R_runs:
  assumes ok: "compact_ok c"
  shows "runs 4 (artifactV5R (4 + length (compact_bytes c))) (compact_bytes c) (compact_artifact_of c)"
proof -
  note ok' = ok [unfolded compact_ok_def bound_defs]
  let ?es = "cc_entries c"
  have loop: "\<And>off. runs off (forR (nat (int (length ?es))) 0 (\<lambda>_. v5_entryR (int (length ?es))) (None, [], []))
      (concat (map entry_bytes ?es)) (v5_state_at ?es (length ?es))"
    unfolding nat_int by (rule v5_entries_runs) (use ok' in blast)+
  have len: "length (concat (map entry_bytes ?es)) = length ?es * V5_ENTRY_BYTES"
    using ok by (intro length_concat_const length_entry_bytes) (auto simp: compact_ok_def)
  have pos: "0 < length ?es" using ok' by auto
  have st: "snd (snd (v5_state_at ?es (length ?es))) = ?es" by (simp add: v5_state_at_def)
  show ?thesis
    unfolding artifactV5R_def length_compact_bytes [OF ok] FORMAT_VERSION_V5_def
    unfolding compact_bytes_def compact_artifact_of_def
    by (rule loop runs_retR_eq runs_intros | (use ok' pos len st in \<open>simp add: bound_defs; fail\<close>))+
qed

lemma encodeArtifactV5_bytes:
  assumes "compact_ok c"
  shows "encodeArtifactV5 c = throwIf (4 + length (compact_bytes c) > MAX_COMPILED_ARTIFACT_BYTES)
       (RangeError ''Outcome Standard V1.1 compact artifact is too large; route larger draws to Outcome Standard V1.2'')
       (Inr (W3O1 @ compact_bytes c))"
proof -
  have "concatE (map encode_v5_entry (cc_entries c)) = Inr (concat (map entry_bytes (cc_entries c)))"
    by (rule concatE_ok) (use assms encode_v5_entry_ok in \<open>auto simp: compact_ok_def\<close>)
  then show ?thesis
    using assms
    by (simp add: encodeArtifactV5_def compact_bytes_def compact_ok_def bound_defs FORMAT_VERSION_V5_def W3O1_def)
qed

section \<open>What the compact validation guarantees\<close>

lemma parsePositive_one: "parseSignedInteger (JNumber (NInt 0)) = Inr 0"
  by (simp add: parseSignedInteger_def is_safe_integer_def bound_defs)

lemma ensureV5_participant_ok:
  assumes "ensureV5FormulaFields f (i, raw) = Inr e"
  shows "participant_ok f e \<and> p_order e \<le> 65535"
proof -
  note u = assms [unfolded ensureV5FormulaFields_def prod.case]
  consider "f = Weighted_random" | "f = First_n" | "f \<noteq> Weighted_random" "f \<noteq> First_n" by blast
  then show ?thesis
  proof cases
    case 1
    from u show ?thesis
      unfolding if_P [OF 1]
      by (elim result_elims) (auto simp: participant_ok_def 1 result_simps bound_defs split: if_splits)
  next
    case 2
    then have ne: "f \<noteq> Weighted_random" by simp
    from u show ?thesis
      unfolding if_not_P [OF ne] if_P [OF 2]
      by (elim result_elims) (auto simp: participant_ok_def 2 result_simps bound_defs split: if_splits)
  next
    case 3
    from u show ?thesis
      unfolding if_not_P [OF 3(1)] if_not_P [OF 3(2)]
      by (elim result_elims)
        (auto simp: participant_ok_def 3 result_simps bound_defs dest!: parseSignedInteger_range split: if_splits)
  qed
qed

lemma ensureV5FormulaFields_ok:
  assumes "ensureV5FormulaFields f (i, raw) = Inr e"
  shows "entry_ok e"
  using ensureV5_participant_ok [OF assms]
  by (auto simp: participant_ok_def entry_ok_def bound_defs split: if_splits)

lemma check_orders_loop:
  "foldE (\<lambda>seen entry.
       throwIf (n \<le> p_order entry) e1 (throwIf (p_order entry \<in> set seen) e2 (Inr (p_order entry # seen)))) seen es = Inr r
    \<Longrightarrow> (\<forall>e \<in> set es. p_order e < n) \<and> distinct (map p_order es) \<and> set seen \<inter> p_order ` set es = {}"
proof (induction es arbitrary: seen)
  case (Cons e es)
  from Cons.prems have "p_order e < n" "p_order e \<notin> set seen"
    and rest: "foldE (\<lambda>seen entry. throwIf (n \<le> p_order entry) e1 (throwIf (p_order entry \<in> set seen) e2
        (Inr (p_order entry # seen)))) (p_order e # seen) es = Inr r"
    by (auto simp: bindE_Inr_iff throwIf_Inr_iff)
  with Cons.IH [OF rest] show ?case by auto
qed simp

lemma validateCompactConfig_ok:
  assumes "validateCompactConfig config = Inr c"
  shows "compact_ok c"
proof -
  from assms obtain f raws es where raws: "participant_array (prop_of config ''participants'') = Inr raws"
    and small: "\<not> 65535 < length raws"
    and es: "mapE (ensureV5FormulaFields f) (enumerate 0 raws) = Inr es"
    and orders: "is_ok (check_orders es)" and entries: "cc_entries c = sort_by_id es"
    and dup: "check_duplicate_ids ''duplicate v5 entry id'' (cc_entries c) = Inr ()"
    and "parsePositiveLamports (prop_of config ''input_lamports'') = Inr (cc_input c)"
    and "parseOptionalNonNegativeLamports (prop_of config ''payout_lamports'') 3 = Inr (cc_payout c)"
    and "validateWinnersCount (prop_of config ''winners_count'') (int (length (cc_entries c))) = Inr (cc_winners c)"
    and "validate_target (cc_formula c) (prop_of config ''target'') = Inr (cc_target c)"
    unfolding validateCompactConfig_def normalizeCompactNamedEntries_def Let_def
    by (elim result_elims) (auto simp: is_ok_iff)
  then have ranges: "0 < cc_input c \<and> cc_input c \<le> MAX_U64" "0 \<le> cc_payout c \<and> cc_payout c \<le> MAX_U64"
    "0 < cc_winners c \<and> cc_winners c \<le> int (length (cc_entries c)) \<and> cc_winners c \<le> MAX_WINNERS"
    "MIN_I64 \<le> cc_target c \<and> cc_target c \<le> MAX_I64"
    by (auto dest!: parsePositiveLamports_range parseOptionalNonNegative_range validateWinnersCount_range
        validate_target_range simp: MAX_U64_def)
  have len: "length es = length raws" using mapE_Inr_length [OF es] by simp
  have ok: "\<forall>e \<in> set es. entry_ok e"
    using mapE_Inr_set [OF es] ensureV5FormulaFields_ok by fastforce
  obtain r where "check_orders es = Inr r" using orders by (auto simp: is_ok_iff)
  from check_orders_loop [OF this [unfolded check_orders_def]]
  have ord: "\<forall>e \<in> set es. p_order e < int (length es)" "distinct (map p_order es)" by auto
  have srt: "strictly_sorted_ids (cc_entries c)"
    unfolding entries by (rule sorted_no_duplicates [OF dup [unfolded entries]]) (use ok in \<open>auto simp: entry_ok_def\<close>)
  have "raws \<noteq> []" using raws by (auto simp: participant_array_def throwIf_Inr_iff split: jsval.splits)
  then have "cc_entries c \<noteq> []" using len by (auto simp: entries sort_by_id_def simp flip: length_greater_0_conv)
  then show ?thesis
    using ranges small len ok ord srt
    by (simp add: compact_ok_def) (auto simp: entries sort_by_id_def)
qed

lemma compact_build_parse:
  assumes "validateCompactConfig config = Inr c"
  shows "(if 48 + length (cc_entries c) * V5_ENTRY_BYTES \<le> MAX_COMPILED_ARTIFACT_BYTES
      then \<exists>blob. buildArtifactV5 config = Inr blob \<and> parseArtifactV5 blob = Inr (compact_artifact_of c)
      else \<not> is_ok (buildArtifactV5 config))"
proof -
  have ok: "compact_ok c" using assms by (rule validateCompactConfig_ok)
  have build: "buildArtifactV5 config = encodeArtifactV5 c" using assms by (simp add: buildArtifactV5_def)
  let ?blob = "W3O1 @ compact_bytes c"
  have len: "length ?blob = 48 + length (cc_entries c) * V5_ENTRY_BYTES"
    "length ?blob = 4 + length (compact_bytes c)"
    by (simp_all add: length_compact_bytes [OF ok] W3O1_def)
  have four: "length W3O1 = 4" by (simp add: W3O1_def)
  show ?thesis
  proof (cases "48 + length (cc_entries c) * V5_ENTRY_BYTES \<le> MAX_COMPILED_ARTIFACT_BYTES")
    case True
    have "parseArtifactV5 ?blob = runR (artifactV5R (length ?blob)) ?blob 4"
      using True len(1) magic_ok_W3O1 by (simp add: parseArtifactV5_def)
    also have "\<dots> = Inr (compact_artifact_of c)"
      unfolding len(2) by (rule runs_run [OF artifactV5R_runs [OF ok] four])
    finally have "parseArtifactV5 ?blob = Inr (compact_artifact_of c)" .
    moreover have "buildArtifactV5 config = Inr ?blob"
      using True by (simp add: build encodeArtifactV5_bytes [OF ok] length_compact_bytes [OF ok])
    ultimately show ?thesis using True by auto
  next
    case False
    then have "\<not> is_ok (buildArtifactV5 config)"
      by (simp add: build encodeArtifactV5_bytes [OF ok] length_compact_bytes [OF ok])
    with False show ?thesis by simp
  qed
qed

text \<open>C24: whatever the compact builder returns, the compact parser reads back as the validated entries, sorted
  by identifier, with the winners, formula, target, payout and limits of the configuration; and it returns
  an artifact exactly when the entries fit in the size of a committed artifact.\<close>

theorem compact_artifact_roundtrip:
  assumes "validateCompactConfig config = Inr c"
  shows "(if 48 + length (cc_entries c) * V5_ENTRY_BYTES \<le> MAX_COMPILED_ARTIFACT_BYTES
      then \<exists>blob. buildArtifactV5 config = Inr blob \<and> parseArtifactV5 blob = Inr (compact_artifact_of c)
      else \<not> is_ok (buildArtifactV5 config))"
  using assms by (rule compact_build_parse)

definition compact_sample :: "(jsstr \<times> jsval) list" where
  "compact_sample =
     [(js ''formula'', JString (js ''rank_desc'')),
      (js ''participants'', JArray
        [JObject [(js ''id'', JString (js ''zoe'')), (js ''score'', JBigInt 5)],
         JObject [(js ''id'', JString (js ''al'')), (js ''score'', JNumber (NInt (-2)))]]),
      (js ''input_lamports'', JNumber (NInt 5))]"

definition compact_validated :: compact_config where
  "compact_validated = \<lparr>cc_formula = Rank_desc,
     cc_entries = [\<lparr>p_id = js ''al'', p_order = 1, p_weight = 1, p_score = -2\<rparr>,
                   \<lparr>p_id = js ''zoe'', p_order = 0, p_weight = 1, p_score = 5\<rparr>],
     cc_input = 5, cc_payout = 3, cc_winners = 1, cc_target = 0\<rparr>"

lemma compact_sample_fields:
  "mapE (ensureV5FormulaFields Rank_desc) (enumerate 0
      [JObject [(js ''id'', JString (js ''zoe'')), (js ''score'', JBigInt 5)],
       JObject [(js ''id'', JString (js ''al'')), (js ''score'', JNumber (NInt (-2)))]])
    = Inr [\<lparr>p_id = js ''zoe'', p_order = 0, p_weight = 1, p_score = 5\<rparr>,
           \<lparr>p_id = js ''al'', p_order = 1, p_weight = 1, p_score = -2\<rparr>]"
  by code_simp

lemma compact_sample_sorted:
  "sort_by_id [\<lparr>p_id = js ''zoe'', p_order = 0, p_weight = 1, p_score = 5\<rparr>,
      \<lparr>p_id = js ''al'', p_order = 1, p_weight = 1, p_score = -2\<rparr>]
    = [\<lparr>p_id = js ''al'', p_order = 1, p_weight = 1, p_score = -2\<rparr>,
       \<lparr>p_id = js ''zoe'', p_order = 0, p_weight = 1, p_score = 5\<rparr>]"
  by code_simp

lemma compact_sample_validates: "validateCompactConfig compact_sample = Inr compact_validated"
proof -
  have props: "prop_of compact_sample ''formula'' = JString (js ''rank_desc'')"
    "prop_of compact_sample ''participants'' = JArray
        [JObject [(js ''id'', JString (js ''zoe'')), (js ''score'', JBigInt 5)],
         JObject [(js ''id'', JString (js ''al'')), (js ''score'', JNumber (NInt (-2)))]]"
    "prop_of compact_sample ''input_lamports'' = JNumber (NInt 5)"
    "prop_of compact_sample ''payout_lamports'' = JUndefined" "prop_of compact_sample ''winners_count'' = JUndefined"
    "prop_of compact_sample ''target'' = JUndefined"
    by (simp_all add: prop_of_def compact_sample_def js_def)
  have f: "validateFormula (JString (js ''rank_desc'')) = Inr Rank_desc" by code_simp
  have ne: "js ''al'' \<noteq> js ''zoe''" by (simp add: js_def)
  show ?thesis
    unfolding validateCompactConfig_def normalizeCompactNamedEntries_def props f participant_array_def
    by (simp add: compact_sample_fields compact_sample_sorted check_orders_def check_duplicate_ids_def ne
        parsePositiveLamports_def is_safe_integer_def parseOptionalNonNegativeLamports_def validateWinnersCount_def
        validate_target_def bound_defs Let_def compact_validated_def del: enumerate_simps)
qed

lemma compact_artifact_roundtrip_witness:
  "\<exists>blob. buildArtifactV5 compact_sample = Inr blob \<and> parseArtifactV5 blob = Inr (compact_artifact_of compact_validated)"
  using compact_artifact_roundtrip [OF compact_sample_validates]
  by (simp add: compact_validated_def V5_ENTRY_BYTES_def MAX_COMPILED_ARTIFACT_BYTES_def)

end
