(* ===== verification/Composite.thy ===== *)
theory Composite
  imports Snapshot_Artifact Slot
begin

text \<open>
  The composite rank draw of \<^verbatim>\<open>sdk/composite_rank_desc.ts\<close> (format version 8, formula code 6): participants
  carry up to sixteen integer fields, each field has a weight in parts per million, and a participant's
  score is the weighted sum of its fields, either raw or normalised to the range of the field.

  The theory follows the file: validation of the scoring fields and participants, the builder, the parser,
  and the replay, which recomputes every contribution and orders the participants.
\<close>

section \<open>Constants and types\<close>

definition FORMAT_VERSION_COMPOSITE_RANK_DESC :: int where "FORMAT_VERSION_COMPOSITE_RANK_DESC = 8"

definition FORMULA_CODE_COMPOSITE_RANK_DESC :: int where "FORMULA_CODE_COMPOSITE_RANK_DESC = 6"

definition COMPOSITE_SCORING_VERSION :: jsstr where "COMPOSITE_SCORING_VERSION = js ''vre_composite_rank_v1''"

definition COMPOSITE_WEIGHT_SCALE :: int where "COMPOSITE_WEIGHT_SCALE = 1000000"

definition COMPOSITE_NORMALIZATION_SCALE :: int where "COMPOSITE_NORMALIZATION_SCALE = 1000000"

definition MAX_COMPOSITE_FIELDS :: nat where "MAX_COMPOSITE_FIELDS = 16"

definition MAX_COMPOSITE_FIELD_KEY_BYTES :: nat where "MAX_COMPOSITE_FIELD_KEY_BYTES = 32"

definition MAX_COMPOSITE_PARTICIPANT_ID_BYTES :: nat where "MAX_COMPOSITE_PARTICIPANT_ID_BYTES = 64"

definition MAX_COMPOSITE_ARTIFACT_BYTES :: nat where "MAX_COMPOSITE_ARTIFACT_BYTES = 8192"

definition HEADER_BYTES :: nat where "HEADER_BYTES = 46"

definition FIELD_SPEC_BYTES :: nat where "FIELD_SPEC_BYTES = 1 + MAX_COMPOSITE_FIELD_KEY_BYTES + 4"

lemmas composite_defs = FORMAT_VERSION_COMPOSITE_RANK_DESC_def FORMULA_CODE_COMPOSITE_RANK_DESC_def
  COMPOSITE_WEIGHT_SCALE_def COMPOSITE_NORMALIZATION_SCALE_def MAX_COMPOSITE_FIELDS_def
  MAX_COMPOSITE_FIELD_KEY_BYTES_def MAX_COMPOSITE_PARTICIPANT_ID_BYTES_def MAX_COMPOSITE_ARTIFACT_BYTES_def
  HEADER_BYTES_def FIELD_SPEC_BYTES_def

datatype normalization_mode = Mode_none | Min_max

record field_spec =
  fs_key :: jsstr
  fs_weightPpm :: int

record composite_participant =
  cp_id :: jsstr
  cp_order :: int
  cp_fieldValues :: "int list"

section \<open>Validation\<close>

text \<open>\<^verbatim>\<open>/^[a-z][a-z0-9_]{0,31}$/\<close>\<close>

definition lower_letter :: "16 word \<Rightarrow> bool" where
  "lower_letter c \<longleftrightarrow> 97 \<le> c \<and> c \<le> 122"

definition field_key_ok :: "jsstr \<Rightarrow> bool" where
  "field_key_ok s \<longleftrightarrow>
     (case s of [] \<Rightarrow> False
      | c # cs \<Rightarrow> lower_letter c \<and> length cs \<le> 31 \<and> list_all (\<lambda>d. lower_letter d \<or> is_digit d \<or> d = 95) cs)"

definition validateCompositeId :: "jsval \<Rightarrow> jsstr result" where
  "validateCompositeId v =
     (case v of JString s \<Rightarrow>
        throwIf (length s = 0 \<or> MAX_COMPOSITE_PARTICIPANT_ID_BYTES < length s \<or> \<not> printable_ascii s)
          (RangeError ''must be printable ASCII <= 64 bytes'') (Inr s)
      | _ \<Rightarrow> Inl (TypeError ''must be a string''))"

definition parseLamports :: "jsval \<Rightarrow> int result" where
  "parseLamports v =
     (case v of
        JBigInt n \<Rightarrow> throwIf (n \<le> 0 \<or> MAX_U64 < n) (RangeError ''must be between 1 and u64::MAX'') (Inr n)
      | JNumber x \<Rightarrow>
          (case x of NInt n \<Rightarrow> throwIf (\<not> is_safe_integer x \<or> n \<le> 0) (RangeError ''must be a positive safe integer'') (Inr n)
           | NFrac \<Rightarrow> Inl (RangeError ''must be a positive safe integer''))
      | _ \<Rightarrow> Inl (TypeError ''must be a bigint or safe integer number''))"

text \<open>\<^verbatim>\<open>/^-?\d+$/\<close> and the \<^verbatim>\<open>BigInt\<close> of what it matches.\<close>

definition i64_text :: "jsstr \<Rightarrow> int option" where
  "i64_text s =
     (let negative = (s \<noteq> [] \<and> hd s = 45); ds = (if negative then tl s else s) in
      if ds \<noteq> [] \<and> list_all is_digit ds then Some (if negative then - dec_value ds else dec_value ds) else None)"

definition in_i64 :: "int \<Rightarrow> int result" where
  "in_i64 n = throwIf (n < MIN_I64 \<or> MAX_I64 < n) (RangeError ''must fit in i64'') (Inr n)"

definition parseSignedI64 :: "jsval \<Rightarrow> int result" where
  "parseSignedI64 v =
     (case v of
        JBigInt n \<Rightarrow> in_i64 n
      | JNumber x \<Rightarrow>
          (case x of NInt n \<Rightarrow> throwIf (\<not> is_safe_integer x) (RangeError ''must be a signed safe integer'') (in_i64 n)
           | NFrac \<Rightarrow> Inl (RangeError ''must be a signed safe integer''))
      | JString s \<Rightarrow>
          (case i64_text s of Some n \<Rightarrow> in_i64 n
           | None \<Rightarrow> Inl (TypeError ''must be an i64-compatible bigint, integer number, or decimal string''))
      | _ \<Rightarrow> Inl (TypeError ''must be an i64-compatible bigint, integer number, or decimal string''))"

definition validateCompositeOrder :: "jsval \<Rightarrow> int result" where
  "validateCompositeOrder v =
     (case v of JNumber (NInt n) \<Rightarrow> throwIf (n < 0 \<or> 65535 < n) (RangeError ''must be a u16-compatible integer'') (Inr n)
      | _ \<Rightarrow> Inl (RangeError ''must be a u16-compatible integer''))"

text \<open>\<^verbatim>\<open>FIELD_KEY_RE.test(value)\<close>, which converts a value that is not a string first: the texts of undefined, null and the
  booleans match, those of numbers and objects do not. The text of an array is that of its elements with commas
  between, where undefined and null are empty; an object with its own \<^verbatim>\<open>toString\<close>, which no JSON value can call,
  cannot be converted.\<close>

fun key_matches :: "jsval \<Rightarrow> bool result" where
  "key_matches (JString s) = Inr (field_key_ok s)"
| "key_matches (JArray vs) =
     bindE (mapE id (map (\<lambda>v. if v = JUndefined \<or> v = JNull then Inr False else key_matches v) vs))
       (\<lambda>ms. Inr (ms = [True]))"
| "key_matches (JObject props) =
     throwIf (js ''toString'' \<in> set (map fst props)) (TypeError ''Cannot convert object to primitive value'') (Inr False)"
| "key_matches (JNumber n) = Inr False"
| "key_matches (JBigInt n) = Inr False"
| "key_matches v = Inr True"

text \<open>\<^verbatim>\<open>Buffer.byteLength\<close> then throws for what is not a string.\<close>

definition field_key :: "jsval \<Rightarrow> jsstr result" where
  "field_key v =
     bindE (key_matches v) (\<lambda>matches.
     throwIf (\<not> matches) (RangeError ''scoring_fields key must match and fit in ASCII'')
       (case v of JString s \<Rightarrow> throwIf (MAX_COMPOSITE_FIELD_KEY_BYTES < length s)
            (RangeError ''scoring_fields key must match and fit in ASCII'') (Inr s)
        | _ \<Rightarrow> Inl (TypeError ''The string argument must be of type string'')))"

definition field_weight :: "jsval \<Rightarrow> int result" where
  "field_weight v =
     (case v of JNumber (NInt n) \<Rightarrow>
        throwIf (n \<le> 0 \<or> MAX_U32 < n) (RangeError ''weight_ppm must be an integer 1..MAX_U32'') (Inr n)
      | _ \<Rightarrow> Inl (RangeError ''weight_ppm must be an integer 1..MAX_U32''))"

text \<open>One scoring field; the state is (seen keys, sum of weights, fields so far).\<close>

definition validate_field ::
  "jsstr list \<times> int \<times> field_spec list \<Rightarrow> jsval \<Rightarrow> (jsstr list \<times> int \<times> field_spec list) result" where
  "validate_field st field =
     (case st of (seen, weightSum, normalized) \<Rightarrow>
      bindE (assertObject field) (\<lambda>o'.
      bindE (field_key (prop_of o' ''key'')) (\<lambda>key.
      bindE (field_weight (prop_of o' ''weight_ppm'')) (\<lambda>weight.
      throwIf (key \<in> set seen) (RangeError ''duplicate scoring field key'')
        (Inr (key # seen, weightSum + weight, normalized @ [\<lparr>fs_key = key, fs_weightPpm = weight\<rparr>]))))))"

definition validateFieldSpecs :: "jsval \<Rightarrow> field_spec list result" where
  "validateFieldSpecs v =
     (case v of JArray fs \<Rightarrow>
        throwIf (fs = []) (RangeError ''scoring_fields must be a non-empty array'')
       (throwIf (MAX_COMPOSITE_FIELDS < length fs) (RangeError ''scoring_fields must contain <= 16 fields'')
       (bindE (foldE validate_field ([], 0, []) fs) (\<lambda>(_, weightSum, normalized).
        throwIf (weightSum \<noteq> COMPOSITE_WEIGHT_SCALE) (RangeError ''sum(weight_ppm) must equal 1000000'') (Inr normalized))))
      | _ \<Rightarrow> Inl (RangeError ''scoring_fields must be a non-empty array''))"

text \<open>\<^verbatim>\<open>Object.keys(obj)\<close>, and \<^verbatim>\<open>obj[key]\<close> for a computed key.\<close>

definition object_keys :: "(jsstr \<times> jsval) list \<Rightarrow> jsstr list" where
  "object_keys o' = remdups (map fst o')"

definition prop_at :: "(jsstr \<times> jsval) list \<Rightarrow> jsstr \<Rightarrow> jsval" where
  "prop_at o' key = (case map_of o' key of None \<Rightarrow> JUndefined | Some v \<Rightarrow> v)"

text \<open>One participant; the state is (seen ids, seen orders, participants so far).\<close>

definition normalize_participant ::
  "jsstr list \<Rightarrow> jsstr list \<times> int list \<times> composite_participant list \<Rightarrow> jsval
    \<Rightarrow> (jsstr list \<times> int list \<times> composite_participant list) result" where
  "normalize_participant fieldKeys st participant =
     (case st of (seenIds, seenOrders, normalized) \<Rightarrow>
      bindE (assertObject participant) (\<lambda>o'.
      bindE (validateCompositeId (prop_of o' ''id'')) (\<lambda>id'.
      throwIf (id' \<in> set seenIds) (RangeError ''duplicate participant id'')
     (bindE (validateCompositeOrder (prop_of o' ''order'')) (\<lambda>order.
      throwIf (order \<in> set seenOrders) (RangeError ''participant order must be unique'')
     (bindE (assertObject (prop_of o' ''fields'')) (\<lambda>values.
      throwIf (length (object_keys values) \<noteq> length fieldKeys) (RangeError ''fields must match scoring_fields exactly'')
     (throwIf (\<exists>k \<in> set (object_keys values). k \<notin> set fieldKeys) (RangeError ''fields contains unsupported field'')
     (bindE (mapE (\<lambda>k. parseSignedI64 (prop_at values k)) fieldKeys) (\<lambda>fieldValues.
      Inr (id' # seenIds, order # seenOrders,
           normalized @ [\<lparr>cp_id = id', cp_order = order, cp_fieldValues = fieldValues\<rparr>]))))))))))) "

definition sort_composite :: "composite_participant list \<Rightarrow> composite_participant list" where
  "sort_composite ps = js_sort (\<lambda>l r. compareId (cp_id l) (cp_id r)) ps"

definition normalizeParticipants :: "jsval \<Rightarrow> field_spec list \<Rightarrow> composite_participant list result" where
  "normalizeParticipants v scoringFields =
     (case v of JArray ps \<Rightarrow>
        throwIf (ps = []) (RangeError ''participants must be a non-empty array'')
       (bindE (foldE (normalize_participant (map fs_key scoringFields)) ([], [], []) ps) (\<lambda>(_, _, unsorted).
        let normalized = sort_composite unsorted in
        throwIf (\<exists>i \<in> set [1..<length normalized]. cp_id (normalized ! (i - 1)) = cp_id (normalized ! i))
          (RangeError ''duplicate participant id'') (Inr normalized)))
      | _ \<Rightarrow> Inl (RangeError ''participants must be a non-empty array''))"

definition normalizationModeCode :: "jsval \<Rightarrow> int result" where
  "normalizationModeCode v =
     (if v = JString (js ''none'') then Inr 0
      else if v = JString (js ''min_max'') then Inr 1
      else Inl (Error ''Unsupported normalization_mode''))"

definition normalizationModeFromCode :: "int \<Rightarrow> normalization_mode result" where
  "normalizationModeFromCode code =
     (if code = 0 then Inr Mode_none else if code = 1 then Inr Min_max
      else Inl (Error ''Unsupported composite normalization mode''))"

definition participantBytesPerEntry :: "nat \<Rightarrow> nat" where
  "participantBytesPerEntry fieldCount = 1 + MAX_COMPOSITE_PARTICIPANT_ID_BYTES + 2 + fieldCount * 8"

definition composite_length :: "nat \<Rightarrow> nat \<Rightarrow> nat" where
  "composite_length fieldCount participantCount =
     HEADER_BYTES + fieldCount * FIELD_SPEC_BYTES + participantCount * participantBytesPerEntry fieldCount"

section \<open>Builder\<close>

record composite_config =
  co_fields :: "field_spec list"
  co_participants :: "composite_participant list"
  co_input :: int
  co_payout :: int
  co_winners :: int
  co_mode :: int

text \<open>\<^verbatim>\<open>value ?? fallback\<close>\<close>

definition nullish_or :: "jsval \<Rightarrow> jsval \<Rightarrow> jsval" where
  "nullish_or v fallback = (if v = JUndefined \<or> v = JNull then fallback else v)"

definition composite_payout :: "jsval \<Rightarrow> int result" where
  "composite_payout v =
     (if v = JUndefined then Inr 3
      else if v = JNumber (NInt 0) \<or> v = JBigInt 0 then Inr 0
      else parseLamports v)"

definition composite_winners :: "jsval \<Rightarrow> nat \<Rightarrow> int result" where
  "composite_winners v participantCount =
     (case nullish_or v (JNumber (NInt 1)) of
        JNumber (NInt n) \<Rightarrow> throwIf (n \<le> 0 \<or> int participantCount < n \<or> MAX_WINNERS < n)
          (RangeError ''winners_count must be an integer in range'') (Inr n)
      | _ \<Rightarrow> Inl (RangeError ''winners_count must be an integer in range''))"

definition validateCompositeConfig :: "(jsstr \<times> jsval) list \<Rightarrow> composite_config result" where
  "validateCompositeConfig config =
     throwIf (prop_of config ''formula'' \<noteq> JString (js ''composite_rank_desc'')) (RangeError ''formula must be composite_rank_desc'')
    (throwIf (nullish_or (prop_of config ''scoring_version'') (JString COMPOSITE_SCORING_VERSION) \<noteq> JString COMPOSITE_SCORING_VERSION)
       (RangeError ''scoring_version must be vre_composite_rank_v1'')
    (bindE (validateFieldSpecs (prop_of config ''scoring_fields'')) (\<lambda>scoringFields.
     bindE (normalizeParticipants (prop_of config ''participants'') scoringFields) (\<lambda>participants.
     bindE (parseLamports (prop_of config ''input_lamports'')) (\<lambda>inputLamports.
     bindE (composite_payout (prop_of config ''payout_lamports'')) (\<lambda>payoutLamports.
     bindE (composite_winners (prop_of config ''winners_count'') (length participants)) (\<lambda>winnersCount.
     throwIf (MAX_COMPOSITE_ARTIFACT_BYTES < composite_length (length scoringFields) (length participants))
       (RangeError ''composite_rank_desc artifact exceeds 8192 bytes'')
    (bindE (normalizationModeCode (prop_of config ''normalization_mode'')) (\<lambda>mode.
     Inr \<lparr>co_fields = scoringFields, co_participants = participants, co_input = inputLamports,
          co_payout = payoutLamports, co_winners = winnersCount, co_mode = mode\<rparr>)))))))))"

definition padded :: "nat \<Rightarrow> jsstr \<Rightarrow> buffer" where
  "padded len s = take len (ascii_bytes s @ zeros (len - length s))"

definition encode_field_spec :: "field_spec \<Rightarrow> buffer result" where
  "encode_field_spec f = concatE
     [Inr (byte_of (int (length (fs_key f)))), Inr (padded MAX_COMPOSITE_FIELD_KEY_BYTES (fs_key f)), u32le (fs_weightPpm f)]"

definition encode_composite_participant :: "composite_participant \<Rightarrow> buffer result" where
  "encode_composite_participant p = concatE
     ([Inr (byte_of (int (length (cp_id p)))), Inr (padded MAX_COMPOSITE_PARTICIPANT_ID_BYTES (cp_id p)), u16le (cp_order p)]
      @ map i64le (cp_fieldValues p))"

definition encodeComposite :: "composite_config \<Rightarrow> buffer result" where
  "encodeComposite c = concatE
     ([Inr W3O1, u16le FORMAT_VERSION_COMPOSITE_RANK_DESC, u64le (co_input c), u64le (co_input c), u16le (co_winners c),
       Inr (byte_of FORMULA_CODE_COMPOSITE_RANK_DESC), Inr (byte_of (co_mode c)), Inr (byte_of (int (length (co_fields c)))),
       Inr (byte_of 0), u32le COMPOSITE_WEIGHT_SCALE, u32le COMPOSITE_NORMALIZATION_SCALE,
       u16le (int (length (co_participants c))), u64le (co_payout c)]
      @ map encode_field_spec (co_fields c) @ map encode_composite_participant (co_participants c))"

definition buildCompositeRankDescArtifact :: "(jsstr \<times> jsval) list \<Rightarrow> buffer result" where
  "buildCompositeRankDescArtifact config = bindE (validateCompositeConfig config) encodeComposite"

section \<open>Parser\<close>

record composite_artifact =
  cx_normalizationMode :: normalization_mode
  cx_minInputLamports :: int
  cx_maxInputLamports :: int
  cx_winnersCount :: int
  cx_participantCount :: int
  cx_payoutLamports :: int
  cx_weightScale :: int
  cx_normalizationScale :: int
  cx_scoringFields :: "field_spec list"
  cx_participants :: "composite_participant list"

definition composite_length_error :: js_error where
  "composite_length_error = Error ''Invalid composite_rank_desc artifact length''"

text \<open>One field; the state is (seen keys, sum of weights, fields so far).\<close>

type_synonym field_state = "jsstr list \<times> int \<times> field_spec list"

definition field_specR :: "field_state \<Rightarrow> field_state reader" where
  "field_specR st =
     (case st of (seen, weightSum, scoringFields) \<Rightarrow>
      bindR readU8 (\<lambda>keyLen.
      throwIfR (keyLen < 1 \<or> int MAX_COMPOSITE_FIELD_KEY_BYTES < keyLen) (Error ''Invalid composite field key length'')
     (bindR (readBytes composite_length_error MAX_COMPOSITE_FIELD_KEY_BYTES) (\<lambda>keyBuffer.
      let keyBytes = take (nat keyLen) keyBuffer in
      throwIfR (drop (nat keyLen) keyBuffer \<noteq> zeros (MAX_COMPOSITE_FIELD_KEY_BYTES - nat keyLen))
        (Error ''Composite field key padding must be zero'')
     (let key = ascii_string keyBytes in
      throwIfR (\<not> field_key_ok key) (Error ''Invalid composite field key'')
     (throwIfR (key \<in> set seen) (Error ''Duplicate composite field key'')
     (bindR readU32LE (\<lambda>weightPpm.
      throwIfR (weightPpm \<le> 0) (Error ''Composite field weight must be positive'')
     (retR (key # seen, weightSum + weightPpm, scoringFields @ [\<lparr>fs_key = key, fs_weightPpm = weightPpm\<rparr>]))))))))))"

text \<open>One participant; the state is (previousId, seen orders, participants so far).\<close>

type_synonym composite_state = "buffer option \<times> int list \<times> composite_participant list"

definition composite_participantR :: "nat \<Rightarrow> composite_state \<Rightarrow> composite_state reader" where
  "composite_participantR fieldCount st =
     (case st of (previousId, seenOrders, participants) \<Rightarrow>
      bindR readU8 (\<lambda>idLen.
      throwIfR (idLen < 1 \<or> int MAX_COMPOSITE_PARTICIPANT_ID_BYTES < idLen) (Error ''Invalid composite participant id length'')
     (bindR (readBytes composite_length_error MAX_COMPOSITE_PARTICIPANT_ID_BYTES) (\<lambda>idBuffer.
      let canonicalId = take (nat idLen) idBuffer in
      throwIfR (\<not> list_all printable_byte canonicalId) (Error ''Composite participant id must be printable ASCII'')
     (throwIfR (drop (nat idLen) idBuffer \<noteq> zeros (MAX_COMPOSITE_PARTICIPANT_ID_BYTES - nat idLen))
        (Error ''Composite participant id padding must be zero'')
     (throwIfR (\<exists>p. previousId = Some p \<and> 0 \<le> buffer_compare p canonicalId)
        (Error ''Composite participant ids must be strictly sorted'')
     (bindR readU16LE (\<lambda>order.
      throwIfR (order \<in> set seenOrders) (Error ''Composite participant order must be unique'')
     (bindR (repeatR fieldCount readI64LE) (\<lambda>fieldValues.
      retR (Some canonicalId, order # seenOrders,
            participants @ [\<lparr>cp_id = ascii_string canonicalId, cp_order = order, cp_fieldValues = fieldValues\<rparr>])))))))))))"

definition compositeR :: "nat \<Rightarrow> composite_artifact reader" where
  "compositeR blobLength =
     bindR readU16LE (\<lambda>formatVersion.
     throwIfR (formatVersion \<noteq> FORMAT_VERSION_COMPOSITE_RANK_DESC) (Error ''Unsupported composite_rank_desc artifact format version'')
    (bindR readU64LE (\<lambda>minInput.
     bindR readU64LE (\<lambda>maxInput.
     throwIfR (maxInput < minInput) (Error ''Composite artifact bounds are invalid'')
    (bindR readU16LE (\<lambda>winners.
     bindR readU8 (\<lambda>formulaCode.
     throwIfR (formulaCode \<noteq> FORMULA_CODE_COMPOSITE_RANK_DESC) (Error ''Invalid composite_rank_desc formula code'')
    (bindR readU8 (\<lambda>modeCode.
     bindR (liftR (normalizationModeFromCode modeCode)) (\<lambda>mode.
     bindR readU8 (\<lambda>fieldCount.
     throwIfR (fieldCount < 1 \<or> int MAX_COMPOSITE_FIELDS < fieldCount) (Error ''Composite field_count must be 1..16'')
    (bindR readU8 (\<lambda>reserved.
     throwIfR (reserved \<noteq> 0) (Error ''Reserved composite header byte must be zero'')
    (bindR readU32LE (\<lambda>weightScale.
     bindR readU32LE (\<lambda>normalizationScale.
     bindR readU16LE (\<lambda>participantCount.
     bindR readU64LE (\<lambda>payout.
     throwIfR (weightScale \<noteq> COMPOSITE_WEIGHT_SCALE) (Error ''Unsupported composite weight_scale'')
    (throwIfR (normalizationScale \<noteq> COMPOSITE_NORMALIZATION_SCALE) (Error ''Unsupported composite normalization_scale'')
    (throwIfR (participantCount < 1) (Error ''Composite participant_count must be > 0'')
    (throwIfR (winners < 1 \<or> participantCount < winners \<or> MAX_WINNERS < winners) (Error ''Invalid winners_count'')
    (throwIfR (composite_length (nat fieldCount) (nat participantCount) \<noteq> blobLength)
       (Error ''Composite artifact byte size does not match header counts'')
    (bindR (forR (nat fieldCount) 0 (\<lambda>_. field_specR) ([], 0, [])) (\<lambda>fst'.
     throwIfR (fst (snd fst') \<noteq> COMPOSITE_WEIGHT_SCALE) (Error ''sum(weight_ppm) must equal 1000000'')
    (bindR (forR (nat participantCount) 0 (\<lambda>_. composite_participantR (nat fieldCount)) (None, [], [])) (\<lambda>pst.
     retR \<lparr>cx_normalizationMode = mode, cx_minInputLamports = minInput, cx_maxInputLamports = maxInput,
           cx_winnersCount = winners, cx_participantCount = participantCount, cx_payoutLamports = payout,
           cx_weightScale = weightScale, cx_normalizationScale = normalizationScale,
           cx_scoringFields = snd (snd fst'), cx_participants = snd (snd pst)\<rparr>))))))))))))))))))))))))))"

definition parseCompositeRankDescArtifact :: "buffer \<Rightarrow> composite_artifact result" where
  "parseCompositeRankDescArtifact blob =
     throwIf (length blob < HEADER_BYTES \<or> MAX_COMPOSITE_ARTIFACT_BYTES < length blob) composite_length_error
    (throwIf (\<not> magic_ok blob) (Error ''Invalid artifact magic'')
    (runR (compositeR (length blob)) blob 4))"

section \<open>Replay\<close>

definition range_step :: "nat \<Rightarrow> int \<times> int \<Rightarrow> composite_participant \<Rightarrow> int \<times> int" where
  "range_step fieldIndex mm p =
     (let v = cp_fieldValues p ! fieldIndex
      in (if v < fst mm then v else fst mm, if v > snd mm then v else snd mm))"

text \<open>\<^verbatim>\<open>participants[0]\<close> of an empty array throws; the parser only returns non-empty arrays.\<close>

definition rangeForField :: "composite_participant list \<Rightarrow> nat \<Rightarrow> (int \<times> int) result" where
  "rangeForField participants fieldIndex =
     (case participants of
        [] \<Rightarrow> Inl (TypeError ''Cannot read properties of undefined'')
      | p # _ \<Rightarrow> Inr (foldl (range_step fieldIndex) (cp_fieldValues p ! fieldIndex, cp_fieldValues p ! fieldIndex) participants))"

definition effectiveValue :: "normalization_mode \<Rightarrow> int \<Rightarrow> int \<Rightarrow> int \<Rightarrow> (int \<times> bool) result" where
  "effectiveValue mode rawValue mn mx =
     (if mode = Mode_none then Inr (rawValue, False)
      else if mx = mn then Inr (0, True)
      else bindE (bigint_div ((rawValue - mn) * COMPOSITE_NORMALIZATION_SCALE) (mx - mn)) (\<lambda>v. Inr (v, False)))"

record field_replay =
  fr_field :: jsstr
  fr_raw_value :: jsstr
  fr_min_value :: jsstr
  fr_max_value :: jsstr
  fr_effective_value :: jsstr
  fr_contribution :: jsstr
  fr_zero_ordering_power :: bool

record replay_entry =
  re_id :: jsstr
  re_order :: int
  re_composite_score :: jsstr
  re_field_replay :: "field_replay list"

record composite_replay =
  cr_ordered_ids :: "jsstr list"
  cr_winner_ids :: "jsstr list"
  cr_winners_count :: int
  cr_total_output_lamports :: jsstr
  cr_participant_replay :: "replay_entry list"

text \<open>One field of one participant; the state is (compositeScore, field replays so far).\<close>

definition replay_field ::
  "normalization_mode \<Rightarrow> composite_participant \<Rightarrow> int \<times> field_replay list \<Rightarrow> nat \<times> field_spec \<times> int \<times> int
    \<Rightarrow> (int \<times> field_replay list) result" where
  "replay_field mode p st ix =
     (case (st, ix) of ((score, replays), (i, field, mn, mx)) \<Rightarrow>
      let rawValue = cp_fieldValues p ! i in
      bindE (effectiveValue mode rawValue mn mx) (\<lambda>(value, zeroPower).
      let contribution = value * fs_weightPpm field in
      Inr (score + contribution, replays @
        [\<lparr>fr_field = fs_key field, fr_raw_value = dec_string rawValue, fr_min_value = dec_string mn,
          fr_max_value = dec_string mx, fr_effective_value = dec_string value,
          fr_contribution = dec_string contribution, fr_zero_ordering_power = zeroPower\<rparr>])))"

definition replay_participant ::
  "normalization_mode \<Rightarrow> field_spec list \<Rightarrow> (int \<times> int) list \<Rightarrow> composite_participant \<Rightarrow> replay_entry result" where
  "replay_participant mode specs ranges p =
     bindE (foldE (replay_field mode p) (0, []) (enumerate 0 (zip specs ranges))) (\<lambda>(score, replays).
       Inr \<lparr>re_id = cp_id p, re_order = cp_order p, re_composite_score = dec_string score, re_field_replay = replays\<rparr>)"

text \<open>\<^verbatim>\<open>BigInt(entry.composite_score)\<close> of a decimal string.\<close>

definition score_of :: "replay_entry \<Rightarrow> int" where
  "score_of e = (case bigint_of_string (re_composite_score e) of Some n \<Rightarrow> n | None \<Rightarrow> 0)"

definition compare_replay :: "replay_entry \<Rightarrow> replay_entry \<Rightarrow> int" where
  "compare_replay left right =
     (let scoreDiff = score_of right - score_of left in
      if scoreDiff \<noteq> 0 then if scoreDiff > 0 then 1 else -1 else re_order left - re_order right)"

definition replay_parsed :: "composite_artifact \<Rightarrow> composite_replay result" where
  "replay_parsed parsed =
     bindE (mapE (rangeForField (cx_participants parsed)) [0..<length (cx_scoringFields parsed)]) (\<lambda>ranges.
     bindE (mapE (replay_participant (cx_normalizationMode parsed) (cx_scoringFields parsed) ranges) (cx_participants parsed))
       (\<lambda>participantReplay.
     let ordered = js_sort compare_replay participantReplay in
     Inr \<lparr>cr_ordered_ids = map re_id ordered,
          cr_winner_ids = map re_id (take (nat (cx_winnersCount parsed)) ordered),
          cr_winners_count = cx_winnersCount parsed,
          cr_total_output_lamports = dec_string (cx_payoutLamports parsed * cx_winnersCount parsed),
          cr_participant_replay = participantReplay\<rparr>))"

definition replayCompositeRankDescArtifact :: "buffer \<Rightarrow> composite_replay result" where
  "replayCompositeRankDescArtifact blob = bindE (parseCompositeRankDescArtifact blob) replay_parsed"

text \<open>The canonical JSON line of a participant, from its id, order and field values.\<close>

definition canonicalCompositeParticipantJsonLine ::
  "jsstr \<Rightarrow> int \<Rightarrow> (jsstr \<times> jsval) list \<Rightarrow> jsstr list \<Rightarrow> jsstr result" where
  "canonicalCompositeParticipantJsonLine id' order values keys =
     bindE (mapE (\<lambda>k. bindE (parseSignedI64 (prop_at values k)) (\<lambda>v.
       Inr (json_quote k @ [58] @ json_quote (dec_string v)))) keys) (\<lambda>fieldPairs.
     Inr (js ''{\"id\":'' @ json_quote id' @ js '',\"order\":'' @ dec_string order @ js '',\"fields\":{''
       @ concat (map (\<lambda>(i, p). if i = 0 then p else 44 # p) (enumerate 0 fieldPairs)) @ js ''}}'' @ [10]))"

end
