(* ===== verification/Artifact.thy ===== *)
theory Artifact
  imports Composite
begin

text \<open>
  \<^verbatim>\<open>sdk/artifact.ts\<close>: the entry point that builds an artifact from a configuration. Raffles, loot tables,
  airdrops and formula draws are validated, normalised to a \<open>w3o1_config\<close> (outcomes sorted by identifier,
  one transfer effect each) and serialised in format version 1, 2 or 3; the other configurations go to the
  builders of the snapshot, compact and composite formats.

  \<^verbatim>\<open>new PublicKey\<close> of \<^verbatim>\<open>@solana/web3.js\<close> is not part of the repository: which strings it accepts is the
  parameter \<open>valid_key\<close> of every definition that validates an address.

  Functions of the file that \<^verbatim>\<open>sdk/snapshot.ts\<close> has too, with the same behaviour, are the ones modelled there;
  those that differ carry the suffix \<open>W3\<close>.
\<close>

section \<open>Constants and types\<close>

definition FORMAT_VERSION_V1 :: int where "FORMAT_VERSION_V1 = 1"

definition FORMAT_VERSION_V2 :: int where "FORMAT_VERSION_V2 = 2"

definition FORMAT_VERSION_V3 :: int where "FORMAT_VERSION_V3 = 3"

definition MAX_U16 :: int where "MAX_U16 = 65535"

definition DEFAULT_PAYOUT_LAMPORTS :: int where "DEFAULT_PAYOUT_LAMPORTS = 3"

definition W3O1_TRANSFER_SOL :: int where "W3O1_TRANSFER_SOL = 1"

lemmas w3_defs = FORMAT_VERSION_V1_def FORMAT_VERSION_V2_def FORMAT_VERSION_V3_def MAX_U16_def
  DEFAULT_PAYOUT_LAMPORTS_def W3O1_TRANSFER_SOL_def

record w3o1_effect =
  ef_type :: jsstr
  ef_amount :: int

record w3o1_outcome =
  oc_id :: jsstr
  oc_weight :: int
  oc_score :: "int option"
  oc_order :: "int option"
  oc_first_effect_index :: int
  oc_effect_count :: int

record w3o1_config =
  wc_format_version :: int
  wc_winners_count :: int
  wc_min_input :: int
  wc_max_input :: int
  wc_formula :: "formula option"
  wc_target :: "int option"
  wc_outcomes :: "w3o1_outcome list"
  wc_effects :: "w3o1_effect list"

text \<open>An entry after validation; score and order are present in formula draws only.\<close>

record w3_entry =
  we_id :: jsstr
  we_weight :: int
  we_payout :: int
  we_score :: "int option"
  we_order :: "int option"

section \<open>Validation\<close>

definition assertArray :: "jsval \<Rightarrow> jsval list result" where
  "assertArray v = (case v of JArray xs \<Rightarrow> Inr xs | _ \<Rightarrow> Inl (TypeError ''must be an array''))"

definition parseLamportsW3 :: "jsval \<Rightarrow> int result" where
  "parseLamportsW3 v =
     (case v of
        JBigInt n \<Rightarrow> throwIf (n \<le> 0 \<or> MAX_U64 < n) (RangeError ''must be between 1 and u64::MAX'') (Inr n)
      | JNumber x \<Rightarrow>
          (case x of NInt n \<Rightarrow>
             throwIf (\<not> is_safe_integer x \<or> n \<le> 0) (RangeError ''must be a positive safe integer'')
            (throwIf (MAX_U64 < n) (RangeError ''must fit in u64'') (Inr n))
           | NFrac \<Rightarrow> Inl (RangeError ''must be a positive safe integer''))
      | _ \<Rightarrow> Inl (TypeError ''must be a bigint or safe integer number''))"

definition parsePayoutLamports :: "jsval \<Rightarrow> int result" where
  "parsePayoutLamports v = (if v = JBigInt 0 \<or> v = JNumber (NInt 0) then Inr 0 else parseLamportsW3 v)"

definition parseOptionalLamportsW3 :: "jsval \<Rightarrow> int result" where
  "parseOptionalLamportsW3 v = (if v = JUndefined then Inr DEFAULT_PAYOUT_LAMPORTS else parsePayoutLamports v)"

definition validateWeightW3 :: "jsval \<Rightarrow> int result" where
  "validateWeightW3 v =
     (case v of JNumber (NInt n) \<Rightarrow>
        throwIf (n \<le> 0 \<or> MAX_U32 < n) (RangeError ''must be > 0 and <= 0xffffffff'') (Inr n)
      | _ \<Rightarrow> Inl (TypeError ''must be an integer''))"

definition validateOutcomeCount :: "nat \<Rightarrow> unit result" where
  "validateOutcomeCount n =
     throwIf (n = 0) (RangeError ''must not be empty'')
    (throwIf (MAX_U16 < int n) (RangeError ''exceeds u16 limit'') (Inr ()))"

definition validateWinnersCountW3 :: "jsval \<Rightarrow> int \<Rightarrow> int result" where
  "validateWinnersCountW3 v outcomeCount =
     (case (if v = JUndefined then JNumber (NInt 1) else v) of
        JNumber (NInt n) \<Rightarrow>
          throwIf (n \<le> 0) (RangeError ''winners_count must be > 0'')
         (throwIf (outcomeCount < n) (RangeError ''winners_count must be <= outcome count'')
         (throwIf (MAX_WINNERS < n) (RangeError ''winners_count must be <= 32'') (Inr n)))
      | _ \<Rightarrow> Inl (TypeError ''winners_count must be an integer''))"

text \<open>\<^verbatim>\<open>/^[1-9A-HJ-NP-Za-km-z]+$/\<close>\<close>

definition base58_unit :: "16 word \<Rightarrow> bool" where
  "base58_unit c \<longleftrightarrow> 49 \<le> c \<and> c \<le> 57 \<or> 65 \<le> c \<and> c \<le> 72 \<or> 74 \<le> c \<and> c \<le> 78 \<or> 80 \<le> c \<and> c \<le> 90
     \<or> 97 \<le> c \<and> c \<le> 107 \<or> 109 \<le> c \<and> c \<le> 122"

definition base58_text :: "jsstr \<Rightarrow> bool" where
  "base58_text s \<longleftrightarrow> s \<noteq> [] \<and> list_all base58_unit s"

definition validateAddress :: "(jsstr \<Rightarrow> bool) \<Rightarrow> jsval \<Rightarrow> jsstr result" where
  "validateAddress valid_key v =
     (case v of JString s \<Rightarrow>
        throwIf (length s < 32 \<or> 44 < length s \<or> \<not> base58_text s) (RangeError ''must be a base58 public key string'')
       (throwIf (\<not> valid_key s) (RangeError ''must be a valid Solana public key'') (Inr s))
      | _ \<Rightarrow> Inl (TypeError ''must be a string''))"

definition validateOrderW3 :: "int \<Rightarrow> int result" where
  "validateOrderW3 order =
     throwIf (order < 0 \<or> MAX_U16 < order) (RangeError ''must be an integer between 0 and 65535'') (Inr order)"

definition fixedAscii :: "jsstr \<Rightarrow> nat \<Rightarrow> buffer result" where
  "fixedAscii s len =
     throwIf (len < length (ascii_bytes s)) (RangeError ''ASCII payload too large'')
       (Inr (ascii_bytes s @ zeros (len - length (ascii_bytes s))))"

section \<open>Outcomes and effects\<close>

definition sortByAsciiId :: "w3_entry list \<Rightarrow> w3_entry list" where
  "sortByAsciiId entries = js_sort (\<lambda>l r. buffer_compare (ascii_bytes (we_id l)) (ascii_bytes (we_id r))) entries"

definition pushOutcomeWithTransferEffect ::
  "w3_entry \<Rightarrow> w3o1_outcome list \<times> w3o1_effect list \<Rightarrow> w3o1_outcome list \<times> w3o1_effect list" where
  "pushOutcomeWithTransferEffect entry st =
     (case st of (outcomes, effects) \<Rightarrow>
       (outcomes @ [\<lparr>oc_id = we_id entry, oc_weight = we_weight entry, oc_score = we_score entry,
          oc_order = we_order entry, oc_first_effect_index = int (length effects), oc_effect_count = 1\<rparr>],
        effects @ [\<lparr>ef_type = js ''transfer_sol'', ef_amount = we_payout entry\<rparr>]))"

definition push_checked ::
  "jsstr option \<times> w3o1_outcome list \<times> w3o1_effect list \<Rightarrow> w3_entry
    \<Rightarrow> (jsstr option \<times> w3o1_outcome list \<times> w3o1_effect list) result" where
  "push_checked st entry =
     (case st of (previousId, out) \<Rightarrow>
       throwIf (previousId = Some (we_id entry)) (Error ''duplicate outcome id'')
         (Inr (Some (we_id entry), pushOutcomeWithTransferEffect entry out)))"

definition buildOutcomesAndEffects :: "w3_entry list \<Rightarrow> (w3o1_outcome list \<times> w3o1_effect list) result" where
  "buildOutcomesAndEffects entries =
     bindE (foldE push_checked (None, [], []) (sortByAsciiId entries)) (\<lambda>(_, outcomes, effects).
     throwIf (MAX_U16 < int (length effects)) (RangeError ''effects exceeds u16 limit'') (Inr (outcomes, effects)))"

definition normalizeEntries :: "w3_entry list \<Rightarrow> int \<Rightarrow> int \<Rightarrow> w3o1_config result" where
  "normalizeEntries entries inputLamports winnersCount =
     bindE (validateOutcomeCount (length entries)) (\<lambda>_.
     bindE (validateWinnersCountW3 (JNumber (NInt winnersCount)) (int (length entries))) (\<lambda>_.
     bindE (buildOutcomesAndEffects entries) (\<lambda>(outcomes, effects).
     Inr \<lparr>wc_format_version = (if 1 < winnersCount then FORMAT_VERSION_V2 else FORMAT_VERSION_V1),
          wc_winners_count = winnersCount, wc_min_input = inputLamports, wc_max_input = inputLamports,
          wc_formula = None, wc_target = None, wc_outcomes = outcomes, wc_effects = effects\<rparr>)))"

definition normalizeFormulaEntries :: "w3_entry list \<Rightarrow> int \<Rightarrow> int \<Rightarrow> formula \<Rightarrow> int \<Rightarrow> w3o1_config result" where
  "normalizeFormulaEntries entries inputLamports winnersCount f targetScore =
     bindE (validateOutcomeCount (length entries)) (\<lambda>_.
     bindE (validateWinnersCountW3 (JNumber (NInt winnersCount)) (int (length entries))) (\<lambda>_.
     bindE (buildOutcomesAndEffects entries) (\<lambda>(outcomes, effects).
     Inr \<lparr>wc_format_version = FORMAT_VERSION_V3,
          wc_winners_count = winnersCount, wc_min_input = inputLamports, wc_max_input = inputLamports,
          wc_formula = Some f, wc_target = Some targetScore, wc_outcomes = outcomes, wc_effects = effects\<rparr>)))"

section \<open>The four configurations\<close>

type_synonym js_object = "(jsstr \<times> jsval) list"

definition address_entry :: "(jsstr \<Rightarrow> bool) \<Rightarrow> int \<Rightarrow> jsval \<Rightarrow> w3_entry result" where
  "address_entry valid_key payoutLamports raw =
     bindE (assertObject raw) (\<lambda>o'.
     bindE (validateAddress valid_key (prop_of o' ''address'')) (\<lambda>id'.
     bindE (validateWeightW3 (prop_of o' ''weight'')) (\<lambda>weight.
     Inr \<lparr>we_id = id', we_weight = weight, we_payout = payoutLamports, we_score = None, we_order = None\<rparr>)))"

definition buildAddressWeightedEntries :: "(jsstr \<Rightarrow> bool) \<Rightarrow> jsval list \<Rightarrow> int \<Rightarrow> w3_entry list result" where
  "buildAddressWeightedEntries valid_key rawEntries payoutLamports =
     mapE (address_entry valid_key payoutLamports) rawEntries"

definition buildRaffleConfig :: "(jsstr \<Rightarrow> bool) \<Rightarrow> js_object \<Rightarrow> w3o1_config result" where
  "buildRaffleConfig valid_key config =
     bindE (assertArray (prop_of config ''participants'')) (\<lambda>participants.
     bindE (validateOutcomeCount (length participants)) (\<lambda>_.
     bindE (parseLamportsW3 (prop_of config ''input_lamports'')) (\<lambda>inputLamports.
     bindE (parseOptionalLamportsW3 (prop_of config ''payout_lamports'')) (\<lambda>payoutLamports.
     bindE (buildAddressWeightedEntries valid_key participants payoutLamports) (\<lambda>entries.
     bindE (validateWinnersCountW3 (prop_of config ''winners_count'') (int (length entries))) (\<lambda>winnersCount.
     normalizeEntries entries inputLamports winnersCount))))))"

definition loot_entry :: "jsval \<Rightarrow> w3_entry result" where
  "loot_entry raw =
     bindE (assertObject raw) (\<lambda>o'.
     bindE (validateOutcomeId (prop_of o' ''id'')) (\<lambda>id'.
     bindE (validateWeightW3 (prop_of o' ''weight'')) (\<lambda>weight.
     bindE (parsePayoutLamports (prop_of o' ''payout_lamports'')) (\<lambda>payoutLamports.
     Inr \<lparr>we_id = id', we_weight = weight, we_payout = payoutLamports, we_score = None, we_order = None\<rparr>))))"

definition buildLootConfig :: "js_object \<Rightarrow> w3o1_config result" where
  "buildLootConfig config =
     bindE (assertArray (prop_of config ''outcomes'')) (\<lambda>outcomes.
     bindE (validateOutcomeCount (length outcomes)) (\<lambda>_.
     bindE (parseLamportsW3 (prop_of config ''input_lamports'')) (\<lambda>inputLamports.
     bindE (mapE loot_entry outcomes) (\<lambda>entries.
     normalizeEntries entries inputLamports 1))))"

definition validate_slots :: "jsval \<Rightarrow> unit result" where
  "validate_slots v =
     (case v of JNumber (NInt n) \<Rightarrow> throwIf (n \<le> 0) (RangeError ''slots must be > 0'') (Inr ())
      | _ \<Rightarrow> Inl (TypeError ''slots must be an integer''))"

definition buildAirdropConfig :: "(jsstr \<Rightarrow> bool) \<Rightarrow> js_object \<Rightarrow> w3o1_config result" where
  "buildAirdropConfig valid_key config =
     bindE (validate_slots (prop_of config ''slots'')) (\<lambda>_.
     bindE (assertArray (prop_of config ''eligible'')) (\<lambda>eligible.
     bindE (validateOutcomeCount (length eligible)) (\<lambda>_.
     bindE (parseLamportsW3 (prop_of config ''input_lamports'')) (\<lambda>inputLamports.
     bindE (parseOptionalLamportsW3 (prop_of config ''payout_lamports'')) (\<lambda>payoutLamports.
     bindE (buildAddressWeightedEntries valid_key eligible payoutLamports) (\<lambda>entries.
     bindE (validateWinnersCountW3 (prop_of config ''winners_count'') (int (length entries))) (\<lambda>winnersCount.
     normalizeEntries entries inputLamports winnersCount)))))))"

definition formula_entry :: "formula \<Rightarrow> int \<Rightarrow> nat \<times> jsval \<Rightarrow> w3_entry result" where
  "formula_entry f payoutLamports ir =
     (case ir of (index, raw) \<Rightarrow>
      bindE (assertObject raw) (\<lambda>o'.
      bindE (validateOutcomeId (prop_of o' ''id'')) (\<lambda>id'.
      bindE (validateOrderW3 (int index)) (\<lambda>order.
      if f = Weighted_random then
        throwIf (prop_of o' ''score'' \<noteq> JUndefined) (TypeError ''score is not supported for weighted_random'')
       (bindE (if prop_of o' ''weight'' = JUndefined then Inr 1 else validateWeightW3 (prop_of o' ''weight'')) (\<lambda>weight.
        Inr \<lparr>we_id = id', we_weight = weight, we_payout = payoutLamports, we_score = Some 0, we_order = Some order\<rparr>))
      else
        throwIf (prop_of o' ''weight'' \<noteq> JUndefined) (TypeError ''weight is only supported for weighted_random'')
       (if f = First_n then
          throwIf (prop_of o' ''score'' \<noteq> JUndefined) (TypeError ''score is not supported for first_n'')
            (Inr \<lparr>we_id = id', we_weight = 1, we_payout = payoutLamports, we_score = Some 0, we_order = Some order\<rparr>)
        else
          bindE (parseSignedInteger (prop_of o' ''score'')) (\<lambda>score.
            Inr \<lparr>we_id = id', we_weight = 1, we_payout = payoutLamports, we_score = Some score,
                 we_order = Some order\<rparr>))))))"

definition buildFormulaDrawConfig :: "js_object \<Rightarrow> w3o1_config result" where
  "buildFormulaDrawConfig config =
     bindE (assertArray (prop_of config ''participants'')) (\<lambda>participants.
     bindE (validateOutcomeCount (length participants)) (\<lambda>_.
     bindE (validateFormula (prop_of config ''formula'')) (\<lambda>f.
     bindE (parseLamportsW3 (prop_of config ''input_lamports'')) (\<lambda>inputLamports.
     bindE (parseOptionalLamportsW3 (prop_of config ''payout_lamports'')) (\<lambda>payoutLamports.
     bindE (validateWinnersCountW3 (prop_of config ''winners_count'') (int (length participants))) (\<lambda>winnersCount.
     bindE (if f = Closest_to then parseSignedInteger (prop_of config ''target'')
            else if prop_of config ''target'' = JUndefined then Inr 0
            else parseSignedInteger (prop_of config ''target'')) (\<lambda>targetScore.
     bindE (mapE (formula_entry f payoutLamports) (enumerate 0 participants)) (\<lambda>entries.
     normalizeFormulaEntries entries inputLamports winnersCount f targetScore))))))))"

definition toW3O1Config :: "(jsstr \<Rightarrow> bool) \<Rightarrow> jsval \<Rightarrow> w3o1_config result" where
  "toW3O1Config valid_key v =
     bindE (assertObject v) (\<lambda>config.
     if prop_of config ''type'' = JString (js ''raffle'') then buildRaffleConfig valid_key config
     else if prop_of config ''type'' = JString (js ''loot'') then buildLootConfig config
     else if prop_of config ''type'' = JString (js ''airdrop'') then buildAirdropConfig valid_key config
     else if prop_of config ''type'' = JString (js ''formula_draw'') then buildFormulaDrawConfig config
     else Inl (TypeError ''unknown artifact config type''))"

section \<open>Serialisation\<close>

definition serialize_header :: "w3o1_config \<Rightarrow> buffer result list" where
  "serialize_header c =
     [Inr W3O1, u16le (wc_format_version c), u64le (wc_min_input c), u64le (wc_max_input c),
      u16le (int (length (wc_outcomes c))), u16le (int (length (wc_effects c)))]
     @ (if wc_format_version c = FORMAT_VERSION_V1 then [Inr (zeros 8)]
        else if wc_format_version c = FORMAT_VERSION_V2 then [u16le (wc_winners_count c), Inr (zeros 6)]
        else [u16le (wc_winners_count c), Inr (byte_of (formula_code (the (wc_formula c)))), Inr (zeros 5),
              i64le (case wc_target c of None \<Rightarrow> 0 | Some t \<Rightarrow> t)])"

definition serialize_outcome :: "int \<Rightarrow> w3o1_outcome \<Rightarrow> buffer result" where
  "serialize_outcome version x = concatE
     ([Inr (byte_of (int (length (ascii_bytes (oc_id x))))), fixedAscii (oc_id x) MAX_OUTCOME_ID_BYTES, u32le (oc_weight x)]
      @ (if version = FORMAT_VERSION_V3 then
           [i64le (case oc_score x of None \<Rightarrow> 0 | Some s \<Rightarrow> s),
            bindE (validateOrderW3 (case oc_order x of None \<Rightarrow> 0 | Some k \<Rightarrow> k)) u16le] else [])
      @ [u16le (oc_first_effect_index x), u16le (oc_effect_count x)])"

definition serialize_effect :: "w3o1_effect \<Rightarrow> buffer result" where
  "serialize_effect x =
     throwIf (ef_type x \<noteq> js ''transfer_sol'') (TypeError ''unsupported effect type'')
       (concatE [Inr (byte_of W3O1_TRANSFER_SOL), Inr (zeros 7), u64le (ef_amount x)])"

definition serializeW3O1 :: "w3o1_config \<Rightarrow> buffer result" where
  "serializeW3O1 c =
     bindE (validateOutcomeCount (length (wc_outcomes c))) (\<lambda>_.
     bindE (validateOutcomeCount (length (wc_effects c))) (\<lambda>_.
     bindE (validateWinnersCountW3 (JNumber (NInt (wc_winners_count c))) (int (length (wc_outcomes c)))) (\<lambda>_.
     throwIf (wc_format_version c \<noteq> FORMAT_VERSION_V1 \<and> wc_format_version c \<noteq> FORMAT_VERSION_V2
         \<and> wc_format_version c \<noteq> FORMAT_VERSION_V3) (RangeError ''format_version must be 1, 2, or 3'')
    (throwIf (wc_format_version c = FORMAT_VERSION_V1 \<and> 1 < wc_winners_count c)
       (RangeError ''winners_count > 1 requires W3O1 format version 2 or 3'')
    (throwIf (wc_format_version c = FORMAT_VERSION_V3 \<and> wc_formula c = None)
       (RangeError ''format_version 3 requires resolution_formula'')
    (concatE (serialize_header c @ map (serialize_outcome (wc_format_version c)) (wc_outcomes c)
       @ map serialize_effect (wc_effects c))))))))"

section \<open>The entry point\<close>

definition isCompositeRankDescConfig :: "jsval \<Rightarrow> bool" where
  "isCompositeRankDescConfig v =
     (case v of JObject config \<Rightarrow> prop_of config ''formula'' = JString (js ''composite_rank_desc'') | _ \<Rightarrow> False)"

definition buildArtifact :: "(jsstr \<Rightarrow> bool) \<Rightarrow> jsval \<Rightarrow> buffer result" where
  "buildArtifact valid_key v =
     (case v of JObject config \<Rightarrow>
        if isCompositeRankDescConfig v then buildCompositeRankDescArtifact config
        else if prop_of config ''type'' = JString (js ''formula_draw_snapshot'') then buildArtifactV4 config
        else if prop_of config ''type'' = JString (js ''outcome_standard_v1_2'') then buildArtifactV12 config
        else if prop_of config ''type'' = JString (js ''outcome_standard_v1_2_1'') then buildArtifactV121 config
        else if prop_of config ''type'' = JString (js ''formula_draw_v5'') then buildArtifactV5 config
        else bindE (toW3O1Config valid_key v) serializeW3O1
      | _ \<Rightarrow> Inl (TypeError ''config must be an object''))"

end
