(* ===== verification/Compiled.thy ===== *)
theory Compiled
  imports Artifact Selection
begin

text \<open>
  The artifact side of \<^verbatim>\<open>sdk/verify.ts\<close>: the parser that reads a committed artifact of any version into one
  \<open>parsed_artifact\<close> (its own code for the versions 1, 2, 3 and 5, \<^verbatim>\<open>composite_rank_desc.ts\<close> for version 8), and the
  selection that replays a draw from it. Here \<^verbatim>\<open>readBytes\<close> is \<^verbatim>\<open>subarray\<close>, which clamps at the end of the buffer
  instead of throwing.
\<close>

section \<open>Types\<close>

record parsed_outcome =
  po_idLen :: int
  po_id :: buffer
  po_weight :: int
  po_score :: int
  po_order :: int
  po_firstEffectIndex :: int
  po_effectCount :: int

datatype runtime_formula = Named formula | Composite_rank_desc

record parsed_artifact =
  pa_formatVersion :: int
  pa_winnersCount :: int
  pa_minInputLamports :: int
  pa_maxInputLamports :: int
  pa_formulaCode :: int
  pa_formulaName :: runtime_formula
  pa_targetScore :: int
  pa_payoutLamports :: int
  pa_entryCount :: "int option"
  pa_standardVersion :: bool
  pa_totalEffectCount :: int
  pa_outcomes :: "parsed_outcome list"
  pa_effects :: "int list"
  pa_effectsOffset :: nat

definition EFFECT_ENTRY_BYTES :: nat where "EFFECT_ENTRY_BYTES = 16"

definition runtimeFormulaName :: "int \<Rightarrow> runtime_formula result" where
  "runtimeFormulaName code =
     (if code = 1 then Inr (Named Weighted_random)
      else if code = 2 then Inr (Named Rank_desc)
      else if code = 3 then Inr (Named Rank_asc)
      else if code = 4 then Inr (Named First_n)
      else if code = 5 then Inr (Named Closest_to)
      else if code = FORMULA_CODE_COMPOSITE_RANK_DESC then Inr Composite_rank_desc
      else Inl (Error ''Unsupported formula code''))"

section \<open>Composite artifacts\<close>

definition score_of_replay :: "composite_replay \<Rightarrow> jsstr \<Rightarrow> int" where
  "score_of_replay r id' =
     (case map_of (rev (map (\<lambda>e. (re_id e, score_of e)) (cr_participant_replay r))) id' of Some v \<Rightarrow> v | None \<Rightarrow> 0)"

definition composite_outcome :: "composite_replay \<Rightarrow> int \<Rightarrow> composite_participant \<Rightarrow> parsed_outcome" where
  "composite_outcome r payoutLamports p =
     \<lparr>po_idLen = int (length (cp_id p)),
      po_id = ascii_bytes (cp_id p) @ zeros (MAX_OUTCOME_ID_BYTES - length (cp_id p)), po_weight = 1,
      po_score = score_of_replay r (cp_id p), po_order = cp_order p, po_firstEffectIndex = 0,
      po_effectCount = (if payoutLamports = 0 then 0 else 1)\<rparr>"

definition parseCompiledComposite :: "buffer \<Rightarrow> parsed_artifact result" where
  "parseCompiledComposite blob =
     bindE (parseCompositeRankDescArtifact blob) (\<lambda>c.
     bindE (replayCompositeRankDescArtifact blob) (\<lambda>r.
     Inr \<lparr>pa_formatVersion = FORMAT_VERSION_COMPOSITE_RANK_DESC, pa_winnersCount = cx_winnersCount c,
          pa_minInputLamports = cx_minInputLamports c, pa_maxInputLamports = cx_maxInputLamports c,
          pa_formulaCode = FORMULA_CODE_COMPOSITE_RANK_DESC, pa_formulaName = Composite_rank_desc, pa_targetScore = 0,
          pa_payoutLamports = cx_payoutLamports c, pa_entryCount = Some (cx_participantCount c),
          pa_standardVersion = False, pa_totalEffectCount = 0,
          pa_outcomes = map (composite_outcome r (cx_payoutLamports c)) (cx_participants c), pa_effects = [],
          pa_effectsOffset = length blob\<rparr>))"

section \<open>The identifier of an outcome\<close>

text \<open>The checks are the same in both tables; the result is the padded identifier and its canonical prefix.\<close>

definition outcome_idR ::
  "js_error \<Rightarrow> js_error \<Rightarrow> js_error \<Rightarrow> js_error \<Rightarrow> buffer option \<Rightarrow> (int \<times> buffer \<times> buffer) reader" where
  "outcome_idR lenE asciiE padE sortE previousId =
     bindR readU8 (\<lambda>idLen.
     throwIfR (idLen < 1 \<or> int MAX_OUTCOME_ID_BYTES < idLen) lenE
    (bindR (readBytesClamped MAX_OUTCOME_ID_BYTES) (\<lambda>outcomeId.
     let canonicalId = take (nat idLen) outcomeId in
     throwIfR (\<not> list_all printable_byte canonicalId) asciiE
    (throwIfR (drop (nat idLen) outcomeId \<noteq> zeros (MAX_OUTCOME_ID_BYTES - nat idLen)) padE
    (throwIfR (\<exists>p. previousId = Some p \<and> 0 \<le> buffer_compare p canonicalId) sortE
    (retR (idLen, outcomeId, canonicalId)))))))"

text \<open>\<^verbatim>\<open>seenOrders[order] = true\<close> for an index in range.\<close>

definition mark :: "int \<Rightarrow> bool list \<Rightarrow> bool list" where
  "mark i flags = flags[nat i := True]"

section \<open>The compact table\<close>

type_synonym compiled_v5_state = "bool list \<times> buffer option \<times> int \<times> parsed_outcome list"

definition compiled_v5_entryR :: "int \<Rightarrow> int \<Rightarrow> compiled_v5_state \<Rightarrow> compiled_v5_state reader" where
  "compiled_v5_entryR entryCount payoutLamports st =
     (case st of (seenOrders, previousId, weightSum, outcomes) \<Rightarrow>
      bindR (outcome_idR (Error ''Invalid v5 id length'') (Error ''v5 id must be printable ASCII'')
         (Error ''v5 id padding must be zero'') (Error ''v5 ids must be strictly sorted'') previousId) (\<lambda>(idLen, outcomeId, canonicalId).
      bindR readU32LE (\<lambda>weight.
      throwIfR (weight \<le> 0) (Error ''v5 weight must be positive'')
     (bindR readI64LE (\<lambda>score.
      bindR readU16LE (\<lambda>order.
      throwIfR (entryCount \<le> order \<or> seenOrders ! nat order) (Error ''v5 order must be unique and in range'')
     (retR (mark order seenOrders, Some canonicalId, weightSum + weight,
        outcomes @ [\<lparr>po_idLen = idLen, po_id = outcomeId, po_weight = weight, po_score = score, po_order = order,
          po_firstEffectIndex = 0, po_effectCount = (if payoutLamports = 0 then 0 else 1)\<rparr>]))))))))"

definition compiledV5R :: "nat \<Rightarrow> parsed_artifact reader" where
  "compiledV5R blobLength =
     bindR readU64LE (\<lambda>minInput.
     bindR readU64LE (\<lambda>maxInput.
     throwIfR (maxInput < minInput) (Error ''v5 artifact bounds are invalid'')
    (bindR readU16LE (\<lambda>winners.
     bindR readU8 (\<lambda>code.
     throwIfR (\<not> valid_formula_code code) (Error ''Invalid formula code'')
    (bindR (readBytesClamped 5) (\<lambda>reserved.
     throwIfR (reserved \<noteq> zeros 5) (Error ''Reserved v5 header bytes must be zero'')
    (bindR readI64LE (\<lambda>target.
     bindR readU16LE (\<lambda>entryCount.
     bindR readU64LE (\<lambda>payout.
     throwIfR (entryCount < 1 \<or> 48 + nat entryCount * V5_ENTRY_BYTES \<noteq> blobLength)
       (Error ''Invalid v5 entry_count or artifact byte size'')
    (throwIfR (winners < 1 \<or> entryCount < winners \<or> MAX_WINNERS < winners) (Error ''Invalid winners_count'')
    (bindR (forR (nat entryCount) 0 (\<lambda>_. compiled_v5_entryR entryCount payout)
        (replicate (nat entryCount) False, None, 0, [])) (\<lambda>(seenOrders, _, weightSum, outcomes).
     bindR offsetR (\<lambda>off.
     throwIfR (off \<noteq> blobLength) (Error ''Unknown trailing bytes in v5 artifact'')
    (throwIfR (weightSum \<le> 0 \<or> \<not> list_all (\<lambda>b. b) seenOrders) (Error ''Invalid v5 entry table'')
    (bindR (liftR (runtimeFormulaName code)) (\<lambda>name.
     retR \<lparr>pa_formatVersion = FORMAT_VERSION_V5, pa_winnersCount = winners, pa_minInputLamports = minInput,
           pa_maxInputLamports = maxInput, pa_formulaCode = code, pa_formulaName = name, pa_targetScore = target,
           pa_payoutLamports = payout, pa_entryCount = Some entryCount, pa_standardVersion = True,
           pa_totalEffectCount = 0, pa_outcomes = outcomes, pa_effects = [], pa_effectsOffset = off\<rparr>))))))))))))))))))"

section \<open>The W3O1 tables\<close>

type_synonym w3_state = "bool list \<times> bool list \<times> buffer option \<times> int \<times> parsed_outcome list"

text \<open>\<^verbatim>\<open>for (effectIndex = first; effectIndex < end; ...)\<close> over the flags of referenced effects.\<close>

definition reference_effect :: "int \<Rightarrow> bool list \<Rightarrow> nat \<Rightarrow> bool list result" where
  "reference_effect version referenced i =
     throwIf (version \<noteq> FORMAT_VERSION_V1 \<and> referenced ! i) (Error ''V2 outcome effect ranges must not overlap'')
       (Inr (referenced[i := True]))"

definition reference_effects :: "int \<Rightarrow> int \<Rightarrow> int \<Rightarrow> bool list \<Rightarrow> bool list result" where
  "reference_effects version first end' referenced =
     foldE (reference_effect version) referenced [nat first..<nat end']"

text \<open>Score and order of an outcome: read in version 3, else 0 and the position in the table.\<close>

definition score_orderR :: "int \<Rightarrow> int \<Rightarrow> nat \<Rightarrow> bool list \<Rightarrow> (int \<times> int \<times> bool list) reader" where
  "score_orderR version outcomeCount index seenOrders =
     (if version = FORMAT_VERSION_V3 then
        bindR readI64LE (\<lambda>score.
        bindR readU16LE (\<lambda>order.
        throwIfR (order < 0 \<or> outcomeCount \<le> order) (Error ''Outcome order is out of bounds'')
       (throwIfR (seenOrders ! nat order) (Error ''Outcome order must be unique'')
       (retR (score, order, mark order seenOrders)))))
      else retR (0, int index, seenOrders))"

definition w3_outcomeR :: "int \<Rightarrow> int \<Rightarrow> int \<Rightarrow> nat \<Rightarrow> w3_state \<Rightarrow> w3_state reader" where
  "w3_outcomeR version outcomeCount totalEffectCount index st =
     (case st of (referenced, seenOrders, previousId, weightSum, outcomes) \<Rightarrow>
      bindR (outcome_idR (Error ''Invalid outcome_id_len'') (Error ''Outcome id must be ASCII'')
         (Error ''Outcome id padding must be zero'') (Error ''Outcome ids must be strictly sorted'') previousId) (\<lambda>(idLen, outcomeId, canonicalId).
      bindR readU32LE (\<lambda>weight.
      throwIfR (weight \<le> 0) (Error ''Outcome weight must be positive'')
     (bindR (score_orderR version outcomeCount index seenOrders) (\<lambda>(score, order, seenOrders').
      bindR readU16LE (\<lambda>first.
      bindR readU16LE (\<lambda>effectCount.
      throwIfR (totalEffectCount < first + effectCount) (Error ''Outcome effect slice is out of bounds'')
     (bindR (liftR (reference_effects version first (first + effectCount) referenced)) (\<lambda>referenced'.
      retR (referenced', seenOrders', Some canonicalId, weightSum + weight,
        outcomes @ [\<lparr>po_idLen = idLen, po_id = outcomeId, po_weight = weight, po_score = score, po_order = order,
          po_firstEffectIndex = first, po_effectCount = effectCount\<rparr>]))))))))))"

definition w3_effectR :: "int reader" where
  "w3_effectR =
     bindR readU8 (\<lambda>effectType.
     throwIfR (effectType \<noteq> W3O1_TRANSFER_SOL) (Error ''Unsupported effect type'')
    (bindR (readBytesClamped 7) (\<lambda>reserved.
     throwIfR (reserved \<noteq> zeros 7) (Error ''Effect reserved bytes must be zero'') readU64LE)))"

text \<open>The part of the header that depends on the version: winners count, formula code and target score.\<close>

definition w3_headR :: "int \<Rightarrow> (int \<times> int \<times> int) reader" where
  "w3_headR version =
     (if version = FORMAT_VERSION_V2 then
        bindR readU16LE (\<lambda>winners.
        bindR (readBytesClamped 6) (\<lambda>reserved.
        throwIfR (reserved \<noteq> zeros 6) (Error ''Reserved header bytes must be zero'') (retR (winners, 1, 0))))
      else if version = FORMAT_VERSION_V3 then
        bindR readU16LE (\<lambda>winners.
        bindR readU8 (\<lambda>code.
        throwIfR (\<not> valid_formula_code code) (Error ''Invalid formula code'')
       (bindR (readBytesClamped 5) (\<lambda>reserved.
        throwIfR (reserved \<noteq> zeros 5) (Error ''Reserved header bytes must be zero'')
       (bindR readI64LE (\<lambda>target. retR (winners, code, target)))))))
      else
        bindR (readBytesClamped 8) (\<lambda>reserved.
        throwIfR (reserved \<noteq> zeros 8) (Error ''Reserved header bytes must be zero'') (retR (1, 1, 0))))"

definition compiledW3R :: "int \<Rightarrow> nat \<Rightarrow> parsed_artifact reader" where
  "compiledW3R version blobLength =
     bindR readU64LE (\<lambda>minInput.
     bindR readU64LE (\<lambda>maxInput.
     throwIfR (maxInput < minInput) (Error ''Artifact bounds are invalid'')
    (bindR readU16LE (\<lambda>outcomeCount.
     bindR readU16LE (\<lambda>totalEffectCount.
     throwIfR (outcomeCount = 0) (Error ''Outcome directory is empty'')
    (bindR (w3_headR version) (\<lambda>(winners, code, target).
     throwIfR (winners < 1 \<or> outcomeCount < winners \<or> MAX_WINNERS < winners) (Error ''Invalid winners_count'')
    (bindR (forR (nat outcomeCount) 0 (w3_outcomeR version outcomeCount totalEffectCount)
        (replicate (nat totalEffectCount) False, replicate (nat outcomeCount) False, None, 0, []))
        (\<lambda>(referenced, seenOrders, _, weightSum, outcomes).
     throwIfR (weightSum \<le> 0) (Error ''Weight sum must be positive'')
    (throwIfR (version = FORMAT_VERSION_V3 \<and> \<not> list_all (\<lambda>b. b) seenOrders)
       (Error ''Outcome order must be contiguous and unique'')
    (bindR offsetR (\<lambda>effectsOffset.
     bindR (repeatR (nat totalEffectCount) w3_effectR) (\<lambda>effects.
     bindR offsetR (\<lambda>off.
     throwIfR (off \<noteq> blobLength) (Error ''Unknown trailing bytes in artifact'')
    (throwIfR (\<not> list_all (\<lambda>b. b) referenced) (Error ''Artifact contains orphan effect entries'')
    (bindR (liftR (runtimeFormulaName code)) (\<lambda>name.
     retR \<lparr>pa_formatVersion = version, pa_winnersCount = winners, pa_minInputLamports = minInput,
           pa_maxInputLamports = maxInput, pa_formulaCode = code, pa_formulaName = name, pa_targetScore = target,
           pa_payoutLamports = 0, pa_entryCount = None, pa_standardVersion = False,
           pa_totalEffectCount = totalEffectCount, pa_outcomes = outcomes, pa_effects = effects,
           pa_effectsOffset = effectsOffset\<rparr>)))))))))))))))))"

section \<open>The parser\<close>

definition compiledR :: "buffer \<Rightarrow> parsed_artifact reader" where
  "compiledR blob =
     bindR readU16LE (\<lambda>version.
     if version = FORMAT_VERSION_COMPOSITE_RANK_DESC then liftR (parseCompiledComposite blob)
     else if version = FORMAT_VERSION_V5 then compiledV5R (length blob)
     else throwIfR (version \<noteq> FORMAT_VERSION_V1 \<and> version \<noteq> FORMAT_VERSION_V2 \<and> version \<noteq> FORMAT_VERSION_V3)
       (Error ''Unsupported format version'') (compiledW3R version (length blob)))"

definition parseCompiledArtifact :: "buffer \<Rightarrow> parsed_artifact result" where
  "parseCompiledArtifact blob =
     throwIf (length blob = 0 \<or> MAX_COMPILED_ARTIFACT_BYTES < length blob \<or> length blob < 34) (Error ''Invalid artifact length'')
    (throwIf (\<not> magic_ok blob) (Error ''Invalid artifact magic'')
    (runR (compiledR blob) blob 4))"

section \<open>Selection\<close>

definition weight_total :: "int list \<Rightarrow> int result" where
  "weight_total weights =
     foldE (\<lambda>t w. throwIf (w \<le> 0) (Error ''Weight must be positive'') (Inr (t + w))) 0 weights"

definition chooseWeightedIndex :: "int list \<Rightarrow> int \<Rightarrow> nat result" where
  "chooseWeightedIndex weights rolled =
     throwIf (weights = []) (Error ''Weights are empty'')
    (bindE (weight_total weights) (\<lambda>t.
     case pick_index (rolled mod t) 0 0 weights of
       None \<Rightarrow> Inl (Error ''Weighted choice failed'')
     | Some i \<Rightarrow> Inr i))"

definition compareFormulaOutcomes :: "parsed_outcome \<Rightarrow> parsed_outcome \<Rightarrow> int \<Rightarrow> int \<Rightarrow> int" where
  "compareFormulaOutcomes left right code targetScore =
     (if code = 2 \<or> code = FORMULA_CODE_COMPOSITE_RANK_DESC then
        if po_score left \<noteq> po_score right then if po_score left > po_score right then -1 else 1
        else po_order left - po_order right
      else if code = 3 then
        if po_score left \<noteq> po_score right then if po_score left < po_score right then -1 else 1
        else po_order left - po_order right
      else if code = 4 then po_order left - po_order right
      else if code = 5 then
        let leftDistance = po_score left - targetScore;
            rightDistance = po_score right - targetScore;
            absLeft = if leftDistance < 0 then - leftDistance else leftDistance;
            absRight = if rightDistance < 0 then - rightDistance else rightDistance
        in if absLeft \<noteq> absRight then if absLeft < absRight then -1 else 1
           else po_order left - po_order right
      else 0)"

record selected_outcome =
  so_totalOutputLamports :: int
  so_outcomeIdLen :: "int option"
  so_outcomeId :: "buffer option"
  so_outcomeIdLens :: "int list"
  so_outcomeIds :: "buffer list"
  so_effectCount :: int
  so_effectsDigest :: buffer

text \<open>\<^verbatim>\<open>xs[0]\<close>, undefined for an empty array.\<close>

definition js_first :: "'a list \<Rightarrow> 'a option" where
  "js_first xs = (case xs of [] \<Rightarrow> None | x # _ \<Rightarrow> Some x)"

text \<open>One round of the weighted selection; the state is (remaining indices, selected indices).\<close>

definition weighted_index_round ::
  "parsed_outcome list \<Rightarrow> buffer \<Rightarrow> nat list \<times> nat list \<Rightarrow> nat \<Rightarrow> (nat list \<times> nat list) result" where
  "weighted_index_round outcomes randomness st round =
     (case st of (remaining, selected) \<Rightarrow>
      bindE (rollForRound randomness round) (\<lambda>roll.
      bindE (chooseWeightedIndex (map (\<lambda>i. po_weight (outcomes ! i)) remaining) roll) (\<lambda>k.
      Inr (splice1 k remaining, selected @ [remaining ! k]))))"

definition selected_indices :: "parsed_artifact \<Rightarrow> buffer \<Rightarrow> nat list result" where
  "selected_indices parsed randomness =
     (if pa_formulaCode parsed = 1 then
        bindE (foldE (weighted_index_round (pa_outcomes parsed) randomness)
          ([0..<length (pa_outcomes parsed)], []) [0..<nat (pa_winnersCount parsed)]) (\<lambda>(_, selected). Inr selected)
      else Inr (take (nat (pa_winnersCount parsed))
        (js_sort (\<lambda>l r. compareFormulaOutcomes (pa_outcomes parsed ! l) (pa_outcomes parsed ! r)
            (pa_formulaCode parsed) (pa_targetScore parsed)) [0..<length (pa_outcomes parsed)])))"

text \<open>The effect bytes, count and lamports of one selected outcome.\<close>

definition outcome_effects :: "buffer \<Rightarrow> parsed_artifact \<Rightarrow> parsed_outcome \<Rightarrow> (buffer \<times> int \<times> int) result" where
  "outcome_effects blob parsed x =
     (if pa_formatVersion parsed = FORMAT_VERSION_V5 \<or> pa_formatVersion parsed = FORMAT_VERSION_COMPOSITE_RANK_DESC then
        if 0 < pa_payoutLamports parsed then
          bindE (u64le (pa_payoutLamports parsed)) (\<lambda>b.
            Inr (byte_of W3O1_TRANSFER_SOL @ zeros 7 @ b, 1, pa_payoutLamports parsed))
        else Inr ([], 0, 0)
      else
        let effectStart = pa_effectsOffset parsed + nat (po_firstEffectIndex x) * EFFECT_ENTRY_BYTES;
            effectEnd = effectStart + nat (po_effectCount x) * EFFECT_ENTRY_BYTES
        in Inr (subarray blob effectStart effectEnd, po_effectCount x,
             sum_list (map (\<lambda>i. pa_effects parsed ! i)
               [nat (po_firstEffectIndex x)..<nat (po_firstEffectIndex x + po_effectCount x)])))"

definition selectOutcomes :: "buffer \<Rightarrow> parsed_artifact \<Rightarrow> buffer \<Rightarrow> int \<Rightarrow> selected_outcome result" where
  "selectOutcomes blob parsed randomness inputLamports =
     throwIf (inputLamports < pa_minInputLamports parsed \<or> pa_maxInputLamports parsed < inputLamports)
       (Error ''Replay input is outside artifact bounds'')
    (bindE (selected_indices parsed randomness) (\<lambda>indices.
     let selected = map (\<lambda>i. pa_outcomes parsed ! i) indices in
     bindE (mapE (outcome_effects blob parsed) selected) (\<lambda>chunks.
     Inr \<lparr>so_totalOutputLamports = sum_list (map (\<lambda>(_, _, t). t) chunks),
          so_outcomeIdLen = js_first (map po_idLen selected), so_outcomeId = js_first (map po_id selected),
          so_outcomeIdLens = map po_idLen selected, so_outcomeIds = map po_id selected,
          so_effectCount = sum_list (map (\<lambda>(_, n, _). n) chunks),
          so_effectsDigest = sha256 (concat (map fst chunks))\<rparr>)))"

end
