(* ===== verification/Selection_Draw.thy ===== *)
theory Selection_Draw
  imports Selection
begin

text \<open>
  The draw over validated entries: the comparator contract of the rank formulas, the arithmetic of the
  weighted pick (which rolls choose which entry), and the equivalence of the streaming draw over a
  snapshot file with the draw over the compact artifact.
\<close>

interpretation formula: comparator "compareFormulaEntries f t" for f t
  by unfold_locales (cases f; auto simp: Let_def split: if_splits)+

lemma compareFormulaEntries_zero:
  "f \<noteq> Weighted_random \<Longrightarrow> compareFormulaEntries f t a b = 0 \<Longrightarrow> p_order a = p_order b"
  by (cases f) (auto simp: Let_def split: if_splits)

section \<open>The weighted pick\<close>

lemma pick_index_range: "pick_index r c i ws = Some k \<Longrightarrow> i \<le> k \<and> k < i + length ws"
  by (induction ws arbitrary: c i) (fastforce simp: Let_def split: if_splits)+

lemma pick_index_shift: "pick_index r c (i + j) ws = map_option (\<lambda>k. k + j) (pick_index r c i ws)"
proof (induction ws arbitrary: c i)
  case (Cons w ws)
  from Cons.IH [of "c + w" "Suc i"] show ?case by (simp add: Let_def)
qed simp

lemma pick_index_iff:
  assumes "\<forall>w \<in> set ws. 0 \<le> w" and "c \<le> r"
  shows "pick_index r c 0 ws = Some k \<longleftrightarrow>
    k < length ws \<and> c + sum_list (take k ws) \<le> r \<and> r < c + sum_list (take (Suc k) ws)"
  using assms
proof (induction ws arbitrary: c k)
  case (Cons w ws)
  have pos: "0 \<le> sum_list (take j ws)" for j
    using Cons.prems(1) by (intro sum_list_nonneg) (auto dest: in_set_takeD)
  have shift: "pick_index r (c + w) (Suc 0) ws = map_option Suc (pick_index r (c + w) 0 ws)"
    using pick_index_shift [of r "c + w" 0 1 ws] by simp
  show ?case
  proof (cases "r < c + w")
    case True
    then show ?thesis using pos Cons.prems by (cases k) (auto simp: Let_def not_le intro: order.strict_trans2)
  next
    case False
    with Cons.IH [of "c + w"] Cons.prems show ?thesis
      by (cases k) (auto simp: Let_def shift add.assoc)
  qed
qed simp

lemma pick_index_some:
  assumes "\<forall>w \<in> set ws. 0 \<le> w" and "c \<le> r" and "r < c + sum_list ws"
  shows "\<exists>k < length ws. pick_index r c 0 ws = Some k"
  using assms
proof (induction ws arbitrary: c)
  case (Cons w ws)
  have shift: "pick_index r (c + w) (Suc 0) ws = map_option Suc (pick_index r (c + w) 0 ws)"
    using pick_index_shift [of r "c + w" 0 1 ws] by simp
  show ?case
  proof (cases "r < c + w")
    case False
    with Cons.IH [of "c + w"] Cons.prems show ?thesis
      by (auto simp: Let_def shift add.assoc)
  qed (simp add: Let_def)
qed simp

lemma pick_index_rolls:
  assumes "\<forall>w \<in> set ws. 0 \<le> w" and "k < length ws"
  shows "{r. 0 \<le> r \<and> r < sum_list ws \<and> pick_index r 0 0 ws = Some k}
    = {sum_list (take k ws) ..< sum_list (take k ws) + ws ! k}"
proof -
  have pos: "0 \<le> sum_list (take j ws)" "0 \<le> sum_list (drop j ws)" for j
    using assms(1) by (auto intro!: sum_list_nonneg dest: in_set_takeD in_set_dropD)
  have split: "sum_list ws = sum_list (take (Suc k) ws) + sum_list (drop (Suc k) ws)"
    by (metis append_take_drop_id sum_list_append)
  have suc: "sum_list (take (Suc k) ws) = sum_list (take k ws) + ws ! k"
    using assms(2) by (simp add: take_Suc_conv_app_nth)
  show ?thesis
    using pos(1) [of k] pos(2) [of "Suc k"] assms suc split by (auto simp: pick_index_iff)
qed

text \<open>How often a residue class is hit below \<open>n\<close>.\<close>

lemma finite_residues [simp]: "finite {x. 0 \<le> x \<and> x < (n :: int) \<and> x mod m \<in> S}"
  by (rule finite_subset [of _ "{0..<n}"]) auto

lemma card_residues_multiple:
  fixes m :: int
  assumes m: "0 < m" and S: "S \<subseteq> {0..<m}"
  shows "card {x \<in> {0..<int q * m}. x mod m \<in> S} = q * card S"
proof (induction q)
  case (Suc q)
  let ?A = "{x \<in> {0..<int q * m}. x mod m \<in> S}"
  have "{x \<in> {0..<int (Suc q) * m}. x mod m \<in> S} = ?A \<union> (\<lambda>s. int q * m + s) ` S"
  proof (intro equalityI subsetI)
    fix x assume x: "x \<in> {x \<in> {0..<int (Suc q) * m}. x mod m \<in> S}"
    show "x \<in> ?A \<union> (\<lambda>s. int q * m + s) ` S"
    proof (cases "x < int q * m")
      case False
      with x have "x - int q * m \<in> {0..<m}" by (auto simp: algebra_simps)
      then have "x mod m = x - int q * m"
        by (metis atLeastLessThan_iff mod_mult_self2 mod_pos_pos_trivial diff_add_cancel mult.commute)
      with x show ?thesis by force
    qed (use x in auto)
  next
    fix x assume x: "x \<in> ?A \<union> (\<lambda>s. int q * m + s) ` S"
    have "int q * m < int (Suc q) * m" using m by (simp add: algebra_simps)
    with x S m show "x \<in> {x \<in> {0..<int (Suc q) * m}. x mod m \<in> S}"
      by (auto simp: algebra_simps subset_iff)
  qed
  moreover have "?A \<inter> (\<lambda>s. int q * m + s) ` S = {}" using S by auto
  moreover have "card ((\<lambda>s. int q * m + s) ` S) = card S" by (rule card_image) (simp add: inj_on_def)
  moreover have "finite S" "finite ?A" using S finite_subset by (simp_all, blast)
  ultimately have "card {x \<in> {0..<int (Suc q) * m}. x mod m \<in> S} = card ?A + card S"
    by (simp only: card_Un_disjoint finite_imageI)
  with Suc show ?case by simp
qed simp

lemma card_residues_bounds:
  fixes m n :: int
  assumes m: "0 < m" and n: "0 \<le> n" and S: "S \<subseteq> {0..<m}"
  shows "nat (n div m) * card S \<le> card {x \<in> {0..<n}. x mod m \<in> S}"
    and "card {x \<in> {0..<n}. x mod m \<in> S} \<le> (nat (n div m) + 1) * card S"
proof -
  define q where "q = nat (n div m)"
  have q: "int q * m \<le> n" "n < int (Suc q) * m"
  proof -
    have iq: "int q = n div m" using m n by (simp add: q_def pos_imp_zdiv_nonneg_iff)
    have e: "n = int q * m + n mod m" by (simp add: iq)
    show "int q * m \<le> n" using e pos_mod_sign [OF m, of n] by linarith
    have "int (Suc q) * m = int q * m + m" by (simp add: algebra_simps)
    then show "n < int (Suc q) * m" using e pos_mod_bound [OF m, of n] by linarith
  qed
  have "card {x \<in> {0..<int q * m}. x mod m \<in> S} \<le> card {x \<in> {0..<n}. x mod m \<in> S}"
    by (rule card_mono) (use q in \<open>simp_all add: subset_iff\<close>)
  then show "nat (n div m) * card S \<le> card {x \<in> {0..<n}. x mod m \<in> S}"
    using card_residues_multiple [OF m S, of q] by (simp add: q_def)
  have "card {x \<in> {0..<n}. x mod m \<in> S} \<le> card {x \<in> {0..<int (Suc q) * m}. x mod m \<in> S}"
    by (rule card_mono) (use q in \<open>simp_all add: subset_iff\<close>)
  then show "card {x \<in> {0..<n}. x mod m \<in> S} \<le> (nat (n div m) + 1) * card S"
    using card_residues_multiple [OF m S, of "Suc q"] by (simp add: q_def)
qed

section \<open>Removing the winner\<close>

lemma splice1_distinct:
  assumes "distinct (map f xs)" and "i < length xs"
  shows "splice1 i xs = filter (\<lambda>x. f x \<noteq> f (xs ! i)) xs"
proof -
  have xs: "xs = take i xs @ xs ! i # drop (Suc i) xs" using assms(2) by (rule id_take_nth_drop)
  have "distinct (map f (take i xs @ xs ! i # drop (Suc i) xs))" using assms(1) xs by simp
  then have "\<forall>x \<in> set (take i xs) \<union> set (drop (Suc i) xs). f x \<noteq> f (xs ! i)"
    by (auto simp: image_iff)
  then have "filter (\<lambda>x. f x \<noteq> f (xs ! i)) (take i xs @ xs ! i # drop (Suc i) xs) = splice1 i xs"
    by (simp add: splice1_def)
  then show ?thesis using xs by simp
qed

definition unselected :: "participant list \<Rightarrow> jsstr list \<Rightarrow> participant list" where
  "unselected es winners = filter (\<lambda>e. p_id e \<notin> set winners) es"

lemma unselected_Nil [simp]: "unselected es [] = es"
  by (simp add: unselected_def)

lemma splice1_unselected:
  assumes "distinct (map p_id es)" and "i < length (unselected es winners)"
  shows "splice1 i (unselected es winners) = unselected es (winners @ [p_id (unselected es winners ! i)])"
proof -
  have "distinct (map p_id (unselected es winners))"
    using assms(1) by (simp add: unselected_def distinct_map_filter)
  from splice1_distinct [OF this assms(2)] show ?thesis
    by (auto simp: unselected_def intro: filter_cong)
qed

section \<open>The file loops on a canonical snapshot\<close>

lemma roll_line_canonical:
  assumes "\<forall>e \<in> set es. participant_ok f e"
  shows "roll_line f winners r c (map (\<lambda>e. stringify_object (canonical_fields e f)) es @ [[]])
    = Inr (map_option (\<lambda>i. p_id (unselected es winners ! i)) (pick_index r c 0 (map p_weight (unselected es winners))))"
  using assms
proof (induction es arbitrary: c)
  case Nil
  have "js_trim [] = []" by (simp add: js_trim_def)
  then show ?case by (simp add: snapshot_line_def unselected_def)
next
  case (Cons e es)
  have line: "snapshot_line f (stringify_object (canonical_fields e f)) = Inr (Some e)"
    using Cons.prems by (intro snapshot_line_canonical) simp
  have shift: "pick_index r c' (Suc 0) ws = map_option Suc (pick_index r c' 0 ws)" for c' ws
    using pick_index_shift [of r c' 0 1 ws] by simp
  show ?case
    using Cons by (auto simp: line unselected_def shift option.map_comp comp_def Let_def)
qed

lemma total_canonical:
  assumes "\<forall>e \<in> set es. participant_ok f e"
  shows "for_entries f (utf8_encode (canonical_text f es))
      (\<lambda>total entry. Inr (if p_id entry \<in> set winners then total else total + p_weight entry)) s
    = Inr (s + sum_list (map p_weight (unselected es winners)))"
proof -
  have "foldE (\<lambda>total entry. Inr (if p_id entry \<in> set winners then total else total + p_weight entry)) s es
    = Inr (s + sum_list (map p_weight (unselected es winners)))"
    by (induction es arbitrary: s) (simp_all add: unselected_def)
  then show ?thesis by (simp add: for_entries_canonical [OF assms])
qed

text \<open>The streaming rank loop keeps the first \<open>n\<close> of the whole sort.\<close>

lemma foldE_pure: "foldE (\<lambda>s x. Inr (g s x)) s xs = Inr (foldl g s xs)"
  by (induction xs arbitrary: s) simp_all

lemma best_canonical:
  assumes "\<forall>e \<in> set es. participant_ok f e"
  shows "best_from_file f (utf8_encode (canonical_text f es)) t n = Inr (take n (js_sort (compareFormulaEntries f t) es))"
proof -
  have "(let best = js_sort (compareFormulaEntries f t) (best @ [entry])
          in if n < length best then take n best else best)
      = take n (js_sort (compareFormulaEntries f t) (best @ [entry]))" for best entry
    by (simp add: Let_def)
  then show ?thesis
    unfolding best_from_file_def for_entries_canonical [OF assms] foldE_pure
    by (simp only: formula.streaming_top_k)
qed

section \<open>The two draws agree\<close>

lemma weighted_round_agree:
  assumes ok: "\<forall>e \<in> set es. participant_ok f e" and dist: "distinct (map p_id es)"
  shows "weighted_file_round f (utf8_encode (canonical_text f es)) randomness winners round = Inr winners'
    \<longleftrightarrow> weighted_v5_round randomness (unselected es winners, winners) round = Inr (unselected es winners', winners')"
    and "weighted_v5_round randomness (unselected es winners, winners) round = Inr (rest, winners')
    \<Longrightarrow> rest = unselected es winners'"
proof -
  have ids: "\<forall>e \<in> set es. outcome_id_ok (p_id e)" using ok by (simp add: participant_ok_def)
  let ?rem = "unselected es winners"
  have ne: "p_id (?rem ! i) \<noteq> []" if "i < length ?rem" for i
  proof -
    have "?rem ! i \<in> set es" using nth_mem [OF that] by (simp add: unselected_def)
    then show ?thesis using ids by (auto simp: outcome_id_ok_def)
  qed
  have step: "i < length ?rem \<and> splice1 i ?rem = unselected es (winners @ [p_id (?rem ! i)])"
    if "pick_index r 0 0 (map p_weight ?rem) = Some i" for r i
    using pick_index_range [OF that] splice1_unselected [OF dist] by simp
  show "weighted_file_round f (utf8_encode (canonical_text f es)) randomness winners round = Inr winners'
    \<longleftrightarrow> weighted_v5_round randomness (unselected es winners, winners) round = Inr (unselected es winners', winners')"
    using step ne
    by (auto simp: weighted_file_round_def weighted_v5_round_def total_canonical [OF ok] file_lines_canonical [OF ids]
        roll_line_canonical [OF ok] Let_def result_simps split: option.splits)
  show "weighted_v5_round randomness (unselected es winners, winners) round = Inr (rest, winners')
    \<Longrightarrow> rest = unselected es winners'"
    using step by (auto simp: weighted_v5_round_def Let_def result_simps split: option.splits)
qed

lemma weighted_rounds_agree:
  assumes ok: "\<forall>e \<in> set es. participant_ok f e" and dist: "distinct (map p_id es)"
  shows "foldE (weighted_file_round f (utf8_encode (canonical_text f es)) randomness) winners rounds = Inr winners'
    \<longleftrightarrow> (\<exists>rest. foldE (weighted_v5_round randomness) (unselected es winners, winners) rounds = Inr (rest, winners'))"
proof (induction rounds arbitrary: winners)
  case (Cons round rounds)
  note agree = weighted_round_agree [OF ok dist, of randomness winners round]
  show ?case
  proof
    assume "foldE (weighted_file_round f (utf8_encode (canonical_text f es)) randomness) winners (round # rounds) = Inr winners'"
    then obtain w where "weighted_file_round f (utf8_encode (canonical_text f es)) randomness winners round = Inr w"
      and "foldE (weighted_file_round f (utf8_encode (canonical_text f es)) randomness) w rounds = Inr winners'"
      by (auto simp: bindE_Inr_iff)
    with agree(1) [of w] Cons.IH [of w]
    show "\<exists>rest. foldE (weighted_v5_round randomness) (unselected es winners, winners) (round # rounds) = Inr (rest, winners')"
      by (auto simp: bindE_Inr_iff)
  next
    assume "\<exists>rest. foldE (weighted_v5_round randomness) (unselected es winners, winners) (round # rounds) = Inr (rest, winners')"
    then obtain rest u w where r: "weighted_v5_round randomness (unselected es winners, winners) round = Inr (u, w)"
      and "foldE (weighted_v5_round randomness) (u, w) rounds = Inr (rest, winners')"
      by (auto simp: bindE_Inr_iff)
    with agree(2) [OF r] agree(1) [of w] Cons.IH [of w]
    show "foldE (weighted_file_round f (utf8_encode (canonical_text f es)) randomness) winners (round # rounds) = Inr winners'"
      by (auto simp: bindE_Inr_iff)
  qed
qed simp

end
