(* ===== verification/Selection_Claims.thy ===== *)
theory Selection_Claims
  imports Selection_Draw
begin

text \<open>
  The properties of a draw: the file route and the compact route give the same claim, a draw over an
  artifact that parses always succeeds, every entry is chosen in proportion to its weight, rank winners
  beat every loser, and the winner-claim hash binds the ordered winners.
\<close>

section \<open>Two routes to the same claim\<close>

lemma normalisations_agree:
  assumes "ensureV5FormulaFields f ir = Inr e" and "normalizeSnapshotParticipant f ir = Inr e'"
  shows "e' = e"
  using assms
  by (cases ir) (auto simp: ensureV5FormulaFields_def normalizeSnapshotParticipant_def result_simps split: if_splits)

lemma mapE_agree:
  assumes "mapE f xs = Inr ys" and "mapE g xs = Inr zs" and "\<And>x y z. f x = Inr y \<Longrightarrow> g x = Inr z \<Longrightarrow> z = y"
  shows "zs = ys"
  using assms(1,2)
  by (induction xs arbitrary: ys zs) (auto simp: bindE_Inr_iff dest: assms(3))

lemma validateCompactConfig_D:
  assumes "validateCompactConfig config = Inr c"
  obtains raws es where "validateFormula (prop_of config ''formula'') = Inr (cc_formula c)"
    and "participant_array (prop_of config ''participants'') = Inr raws"
    and "mapE (ensureV5FormulaFields (cc_formula c)) (enumerate 0 raws) = Inr es"
    and "cc_entries c = sort_by_id es" and "\<forall>e \<in> set es. participant_ok (cc_formula c) e"
    and "validateWinnersCount (prop_of config ''winners_count'') (int (length (cc_entries c))) = Inr (cc_winners c)"
proof -
  from assms obtain raws es where f: "validateFormula (prop_of config ''formula'') = Inr (cc_formula c)"
    and p: "participant_array (prop_of config ''participants'') = Inr raws"
    and es: "mapE (ensureV5FormulaFields (cc_formula c)) (enumerate 0 raws) = Inr es"
    and e: "cc_entries c = sort_by_id es"
    and w: "validateWinnersCount (prop_of config ''winners_count'') (int (length (cc_entries c))) = Inr (cc_winners c)"
    unfolding validateCompactConfig_def normalizeCompactNamedEntries_def Let_def
    by (elim result_elims) auto
  have "\<forall>e \<in> set es. participant_ok (cc_formula c) e"
    using mapE_Inr_set [OF es] ensureV5_participant_ok by fastforce
  with that f p es e w show thesis by blast
qed

lemma winners_count_weaken:
  "validateWinnersCount v n = Inr w \<Longrightarrow> n \<le> m \<Longrightarrow> validateWinnersCount v m = Inr w"
  by (auto simp: validateWinnersCount_def result_simps split: jsval.splits js_number.splits if_splits)

lemma formulaCodeToName_code [simp]: "formulaCodeToName (formula_code f) = Inr f"
  by (cases f) (simp_all add: formulaCodeToName_def)

lemma claims_agree:
  assumes ok: "\<forall>e \<in> set es. participant_ok f e" and dist: "distinct (map p_id es)"
    and fv: "validateFormula fv = Inr f" and w: "validateWinnersCount wv MAX_SAFE_INTEGER = Inr w"
    and a: "formulaCodeToName (ca_formulaCode a) = Inr f" "ca_entries a = es" "ca_winnersCount a = w"
      "ca_payoutLamports a = payout" "ca_targetScore a = target"
  shows "buildSnapshotClaimFromFile (utf8_encode (canonical_text f es)) fv wv randomness payout (Some target) = Inr claim
    \<longleftrightarrow> buildCompactNamedEntryClaimFromArtifactV5 a randomness = Inr claim"
proof (cases "f = Weighted_random")
  case True
  show ?thesis
    using weighted_rounds_agree [OF ok dist, of randomness "[]" "[0..<nat w]"]
    by (auto simp: buildSnapshotClaimFromFile_def buildCompactNamedEntryClaimFromArtifactV5_def fv w a True Let_def
        bindE_Inr_iff)
next
  case False
  then show ?thesis
    by (simp add: buildSnapshotClaimFromFile_def buildCompactNamedEntryClaimFromArtifactV5_def fv w a Let_def
        best_canonical [OF ok] throwIf_Inr_iff)
qed

text \<open>C25: a draw small enough for a compact artifact can also be committed as a snapshot file, and the two
  routes name the same winners: for one configuration, the claim computed by streaming over the canonical
  snapshot file is the claim computed from the compact artifact, for every formula and randomness (and if
  one of them fails, so does the other).\<close>

theorem draw_routes_agree:
  assumes "buildArtifactV5 config = Inr blob"
    and "buildSnapshotHash (prop_of config ''formula'') (prop_of config ''participants'') = Inr s"
  shows "\<exists>a. parseArtifactV5 blob = Inr a \<and>
    (\<forall>randomness claim.
      buildSnapshotClaimFromFile (utf8_encode (canonicalSnapshot s)) (prop_of config ''formula'')
        (prop_of config ''winners_count'') randomness (ca_payoutLamports a) (Some (ca_targetScore a)) = Inr claim
      \<longleftrightarrow> buildCompactNamedEntryClaimFromArtifactV5 a randomness = Inr claim)"
proof -
  from assms(1) obtain c where c: "validateCompactConfig config = Inr c"
    by (auto simp: buildArtifactV5_def bindE_Inr_iff)
  have parse: "parseArtifactV5 blob = Inr (compact_artifact_of c)"
    using compact_build_parse [OF c] assms(1) by (auto split: if_splits)
  from c obtain raws es where f: "validateFormula (prop_of config ''formula'') = Inr (cc_formula c)"
    and raws: "participant_array (prop_of config ''participants'') = Inr raws"
    and es: "mapE (ensureV5FormulaFields (cc_formula c)) (enumerate 0 raws) = Inr es"
    and entries: "cc_entries c = sort_by_id es" and ok: "\<forall>e \<in> set es. participant_ok (cc_formula c) e"
    and w: "validateWinnersCount (prop_of config ''winners_count'') (int (length (cc_entries c))) = Inr (cc_winners c)"
    by (rule validateCompactConfig_D)
  have cok: "compact_ok c" using c by (rule validateCompactConfig_ok)
  then have small: "int (length (cc_entries c)) \<le> MAX_SAFE_INTEGER" and srt: "strictly_sorted_ids (cc_entries c)"
    by (auto simp: compact_ok_def MAX_SAFE_INTEGER_def)
  from assms(2) obtain es' where es': "mapE (normalizeSnapshotParticipant (cc_formula c)) (enumerate 0 raws) = Inr es'"
    and canon: "canonicalSnapshot s = canonical_text (cc_formula c) (sort_by_id es')"
    by (auto simp: buildSnapshotHash_def normalizeSnapshotParticipants_def f raws bindE_Inr_iff Let_def canonical_text_def)
  have "es' = es" by (rule mapE_agree [OF es es']) (rule normalisations_agree)
  then have line_text: "canonicalSnapshot s = canonical_text (cc_formula c) (cc_entries c)"
    using canon by (simp add: entries)
  have "buildSnapshotClaimFromFile (utf8_encode (canonicalSnapshot s)) (prop_of config ''formula'')
        (prop_of config ''winners_count'') randomness (ca_payoutLamports (compact_artifact_of c))
        (Some (ca_targetScore (compact_artifact_of c))) = Inr claim
      \<longleftrightarrow> buildCompactNamedEntryClaimFromArtifactV5 (compact_artifact_of c) randomness = Inr claim" for randomness claim
    unfolding line_text
    by (rule claims_agree [OF _ strictly_sorted_distinct [OF srt] f winners_count_weaken [OF w small]])
       (use ok in \<open>simp_all add: entries sort_by_id_def compact_artifact_of_def\<close>)
  with parse show ?thesis by blast
qed

lemma compact_sample_builds:
  "\<exists>blob. buildArtifactV5 compact_sample = Inr blob \<and> parseArtifactV5 blob = Inr (compact_artifact_of compact_validated)"
  using compact_build_parse [OF compact_sample_validates]
  by (simp add: compact_validated_def V5_ENTRY_BYTES_def MAX_COMPILED_ARTIFACT_BYTES_def)

lemma snapshot_hash_ok:
  assumes "normalizeSnapshotParticipants parts fv = Inr es" and "validateFormula fv = Inr f" and "es \<noteq> []"
  shows "\<exists>s. buildSnapshotHash fv parts = Inr s"
  using merkle_root_lines [of "map (\<lambda>e. canonicalSnapshotLine e f) es"] assms
  by (simp add: buildSnapshotHash_def Let_def)

lemma compact_sample_snapshot:
  "\<exists>s. buildSnapshotHash (prop_of compact_sample ''formula'') (prop_of compact_sample ''participants'') = Inr s"
proof -
  have props: "prop_of compact_sample ''formula'' = JString (js ''rank_desc'')"
    "prop_of compact_sample ''participants'' = JArray
        [JObject [(js ''id'', JString (js ''zoe'')), (js ''score'', JBigInt 5)],
         JObject [(js ''id'', JString (js ''al'')), (js ''score'', JNumber (NInt (-2)))]]"
    by (simp_all add: prop_of_def compact_sample_def js_def)
  have f: "validateFormula (JString (js ''rank_desc'')) = Inr Rank_desc" by code_simp
  have "mapE (normalizeSnapshotParticipant Rank_desc) (enumerate 0
      [JObject [(js ''id'', JString (js ''zoe'')), (js ''score'', JBigInt 5)],
       JObject [(js ''id'', JString (js ''al'')), (js ''score'', JNumber (NInt (-2)))]])
    = Inr [\<lparr>p_id = js ''zoe'', p_order = 0, p_weight = 1, p_score = 5\<rparr>,
           \<lparr>p_id = js ''al'', p_order = 1, p_weight = 1, p_score = -2\<rparr>]"
    by code_simp
  moreover have "js ''al'' \<noteq> js ''zoe''" by (simp add: js_def)
  ultimately have n: "normalizeSnapshotParticipants (prop_of compact_sample ''participants'') (prop_of compact_sample ''formula'')
    = Inr (cc_entries compact_validated)"
    unfolding normalizeSnapshotParticipants_def props f participant_array_def
    by (simp add: compact_sample_sorted check_duplicate_ids_def Let_def compact_validated_def del: enumerate_simps)
  show ?thesis
    by (rule snapshot_hash_ok [OF n, of Rank_desc]) (simp_all add: props f compact_validated_def)
qed

lemma draw_routes_agree_witness:
  "\<exists>blob s a. buildArtifactV5 compact_sample = Inr blob \<and> parseArtifactV5 blob = Inr a \<and>
    buildSnapshotHash (prop_of compact_sample ''formula'') (prop_of compact_sample ''participants'') = Inr s \<and>
    (\<forall>claim. buildSnapshotClaimFromFile (utf8_encode (canonicalSnapshot s)) (prop_of compact_sample ''formula'')
        (prop_of compact_sample ''winners_count'') (replicate 32 7) (ca_payoutLamports a) (Some (ca_targetScore a)) = Inr claim
      \<longleftrightarrow> buildCompactNamedEntryClaimFromArtifactV5 a (replicate 32 7) = Inr claim)"
proof -
  obtain blob where b: "buildArtifactV5 compact_sample = Inr blob" using compact_sample_builds by blast
  obtain s where s: "buildSnapshotHash (prop_of compact_sample ''formula'') (prop_of compact_sample ''participants'') = Inr s"
    using compact_sample_snapshot by blast
  show ?thesis
    by (rule exE [OF draw_routes_agree [OF b s]], intro exI conjI, rule b, erule conjunct1, rule s)
       (elim conjE, erule spec)
qed

section \<open>A draw over a parsed artifact always succeeds\<close>

lemma printable_string:
  assumes "list_all printable_byte b"
  shows "list_all printable_unit (ascii_string b)" and "ascii_bytes (ascii_string b) = b"
proof -
  have u: "unat (ucast (x AND 127) :: 16 word) = unat x \<and> 32 \<le> unat x \<and> unat x \<le> 126" if "x \<in> set b" for x
  proof -
    have x: "32 \<le> unat x" "unat x \<le> 126"
      using that assms by (auto simp: list_all_iff printable_byte_def word_le_nat_alt)
    have m: "(127 :: byte) = mask 7" by (simp add: mask_eq_exp_minus_1)
    have "x AND 127 = x"
      unfolding m by (rule word_unat_eq_iff [THEN iffD2])
        (use x in \<open>simp add: take_bit_eq_mask [symmetric] unsigned_take_bit_eq take_bit_nat_eq_self\<close>)
    with x show ?thesis by (simp add: unsigned_ucast_eq take_bit_nat_eq_self)
  qed
  then show "list_all printable_unit (ascii_string b)"
    by (auto simp: list_all_iff ascii_string_def printable_unit_def word_le_nat_alt)
  have "ucast (ucast (x AND 127) :: 16 word) = x" if "x \<in> set b" for x
  proof -
    define y where "y = (ucast (x AND 127) :: 16 word)"
    have "unat (ucast y :: byte) = unat x"
      using u [OF that, folded y_def] by (simp add: unsigned_ucast_eq take_bit_nat_eq_self)
    then show ?thesis by (simp add: y_def word_unat_eq_iff)
  qed
  then show "ascii_bytes (ascii_string b) = b"
    by (simp add: ascii_bytes_def ascii_string_def) (auto intro: map_idI)
qed

definition compact_wf :: "compact_artifact \<Rightarrow> bool" where
  "compact_wf a \<longleftrightarrow>
     1 \<le> ca_winnersCount a \<and> ca_winnersCount a \<le> int (length (ca_entries a)) \<and> ca_winnersCount a \<le> 32 \<and>
     0 \<le> ca_payoutLamports a \<and> ca_payoutLamports a \<le> MAX_U64 \<and> valid_formula_code (ca_formulaCode a) \<and>
     (\<forall>e \<in> set (ca_entries a). entry_ok e) \<and> strictly_sorted_ids (ca_entries a) \<and> distinct (map p_order (ca_entries a))"

definition v5_inv :: "nat \<Rightarrow> v5_state \<Rightarrow> bool" where
  "v5_inv k st = (case st of (previousId, seen, es) \<Rightarrow>
     length es = k \<and> (\<forall>e \<in> set es. entry_ok e) \<and> strictly_sorted_ids es \<and> distinct (map p_order es) \<and>
     set seen = p_order ` set es \<and> previousId = (if es = [] then None else Some (ascii_bytes (p_id (last es)))))"

lemma strictly_sorted_snoc:
  assumes "strictly_sorted_ids es" and "es \<noteq> [] \<Longrightarrow> compareId (p_id (last es)) (p_id e) < 0"
  shows "strictly_sorted_ids (es @ [e])"
proof -
  have "compareId (p_id x) (p_id e) < 0" if "x \<in> set es" for x
  proof (cases "x = last es")
    case False
    have es: "es = butlast es @ [last es]" using that by (cases es rule: rev_cases) auto
    have "x \<in> set (butlast es)" using that False by (cases es rule: rev_cases) auto
    moreover have "sorted_wrt (\<lambda>l r. compareId (p_id l) (p_id r) < 0) (butlast es @ [last es])"
      using assms(1) es by (simp add: strictly_sorted_ids_def)
    ultimately have "compareId (p_id x) (p_id (last es)) < 0" by (auto simp: sorted_wrt_append)
    moreover have "es \<noteq> []" using that by auto
    ultimately show ?thesis using compareId_less_trans assms(2) by blast
  next
    case True
    moreover have "es \<noteq> []" using that by auto
    ultimately show ?thesis using assms(2) by simp
  qed
  with assms(1) show ?thesis by (simp add: strictly_sorted_ids_def sorted_wrt_append)
qed

lemma v5_entryR_inv:
  assumes inv: "v5_inv k st" and read: "v5_entryR n st buf off = Inr (st', off')"
  shows "v5_inv (Suc k) st'"
proof -
  obtain prev seen es where st: "st = (prev, seen, es)" by (cases st)
  from read obtain canonicalId weight score order o1 o2 o3 o4 idLen idBuffer
    where idLen: "\<not> (idLen < 1 \<or> int MAX_OUTCOME_ID_BYTES < idLen)"
      and id: "readBytes invalid_length MAX_OUTCOME_ID_BYTES buf o1 = Inr (idBuffer, o2)"
      and can: "canonicalId = take (nat idLen) idBuffer" and pr: "list_all printable_byte canonicalId"
      and less: "\<not> (\<exists>p. prev = Some p \<and> 0 \<le> buffer_compare p canonicalId)"
      and weight: "readU32LE buf o2 = Inr (weight, o3)" "\<not> weight \<le> 0"
      and score: "readI64LE buf o3 = Inr (score, o4)" and order: "readU16LE buf o4 = Inr (order, off')"
      and new: "\<not> (n \<le> order \<or> order \<in> set seen)"
      and st': "st' = (Some canonicalId, order # seen,
            es @ [\<lparr>p_id = ascii_string canonicalId, p_order = order, p_weight = weight, p_score = score\<rparr>])"
    unfolding v5_entryR_def st prod.case Let_def by (elim result_elims) (simp; blast)
  define e where "e = \<lparr>p_id = ascii_string canonicalId, p_order = order, p_weight = weight, p_score = score\<rparr>"
  have "length idBuffer = 64" using readBytes_length [OF id] by (simp add: MAX_OUTCOME_ID_BYTES_def)
  then have len: "0 < length canonicalId \<and> length canonicalId \<le> 64"
    using idLen by (auto simp: can MAX_OUTCOME_ID_BYTES_def)
  then have idok: "outcome_id_ok (p_id e)"
    using printable_string(1) [OF pr]
    by (simp add: e_def outcome_id_ok_def printable_ascii_def MAX_OUTCOME_ID_BYTES_def flip: length_greater_0_conv)
  have bytes: "ascii_bytes (p_id e) = canonicalId" using printable_string(2) [OF pr] by (simp add: e_def)
  have "entry_ok e"
    using idok readU32LE_bounds [OF weight(1)] weight(2) readI64LE_bounds [OF score] readU16LE_bounds [OF order]
    by (simp add: entry_ok_def e_def bound_defs)
  moreover have "strictly_sorted_ids (es @ [e])"
    using inv less by (intro strictly_sorted_snoc) (auto simp: v5_inv_def st compareId_def bytes)
  moreover have "st' = (Some canonicalId, order # seen, es @ [e])" "p_order e = order" by (simp_all add: st' e_def)
  ultimately show ?thesis
    using inv new bytes by (simp add: v5_inv_def st)
qed

lemma parseArtifactV5_wf:
  assumes "parseArtifactV5 blob = Inr a"
  shows "compact_wf a"
proof -
  from assms obtain st o1 o2 p0 p1 where loop: "forR (nat (ca_entryCount a)) 0 (\<lambda>_. v5_entryR (ca_entryCount a)) (None, [], []) blob o1 = Inr (st, o2)"
    and entries: "ca_entries a = snd (snd st)" and count: "\<not> (ca_entryCount a < 1 \<or> 48 + nat (ca_entryCount a) * V5_ENTRY_BYTES \<noteq> length blob)"
    and w: "\<not> (ca_winnersCount a < 1 \<or> ca_entryCount a < ca_winnersCount a \<or> MAX_WINNERS < ca_winnersCount a)"
    and code: "valid_formula_code (ca_formulaCode a)"
    and payout: "readU64LE blob p0 = Inr (ca_payoutLamports a, p1)"
    unfolding parseArtifactV5_def artifactV5R_def
    by (elim result_elims) (simp; blast)
  have "v5_inv 0 (None, [], [])" by (simp add: v5_inv_def strictly_sorted_ids_def)
  then have "v5_inv (0 + nat (ca_entryCount a)) st"
    by (rule forR_invariant [OF loop, of "\<lambda>k st _. v5_inv k st"]) (erule (1) v5_entryR_inv)
  then show ?thesis
    using count w code readU64LE_bounds [OF payout]
    by (auto simp: compact_wf_def v5_inv_def entries bound_defs)
qed

text \<open>The loop of a weighted draw, and what every draw hands to the claim.\<close>

lemma rollForRound_ok:
  assumes "8 \<le> length randomness" and "round < 65536"
  shows "\<exists>r. rollForRound randomness round = Inr r \<and> 0 \<le> r \<and> r < 18446744073709551616"
proof -
  have read: "\<exists>r. runR (read_uint 8) b 0 = Inr r \<and> 0 \<le> r \<and> r < 18446744073709551616" if "8 \<le> length b" for b
  proof -
    have "le_uint (take 8 b) < 256 ^ length (take 8 b)" by (rule le_uint_bound)
    with that show ?thesis by (simp add: runR_def read_uint_def)
  qed
  show ?thesis
    using assms read [of randomness] read [of "sha256 (MULTI_WINNER_DOMAIN @ randomness @ le_bytes 2 (int round))"]
    by (simp add: rollForRound_def)
qed

lemma weighted_v5_round_ok:
  assumes "\<forall>e \<in> set rest. entry_ok e" and "rest \<noteq> []" and "8 \<le> length randomness" and "round < 65536"
  shows "\<exists>i < length rest. weighted_v5_round randomness (rest, winners) round = Inr (splice1 i rest, winners @ [p_id (rest ! i)])"
proof -
  obtain r where r: "rollForRound randomness round = Inr r" "0 \<le> r" using rollForRound_ok [OF assms(3,4)] by blast
  let ?T = "sum_list (map p_weight rest)"
  have w: "\<forall>w \<in> set (map p_weight rest). 0 \<le> w" using assms(1) by (auto simp: entry_ok_def)
  have T: "0 < ?T"
    using assms(1,2) sum_list_nonneg [of "map p_weight (tl rest)"]
    by (cases rest) (fastforce simp: entry_ok_def)+
  have "0 \<le> r mod ?T" "r mod ?T < ?T" using T by simp_all
  with pick_index_some [OF w, of 0 "r mod ?T"] obtain k where "k < length rest" "pick_index (r mod ?T) 0 0 (map p_weight rest) = Some k"
    by auto
  with T r show ?thesis by (auto simp: weighted_v5_round_def Let_def throwIf_def)
qed

lemma weighted_v5_rounds_ok:
  assumes "\<forall>e \<in> set es. entry_ok e" and "distinct (map p_id es)" and "n \<le> length es" and "8 \<le> length randomness"
    and "n < 65536"
  shows "\<exists>winners. foldE (weighted_v5_round randomness) (es, []) [0..<n] = Inr (unselected es winners, winners)
    \<and> length winners = n \<and> distinct winners \<and> set winners \<subseteq> p_id ` set es \<and> length (unselected es winners) = length es - n"
  using assms(3,5)
proof (induction n)
  case 0
  then show ?case by simp
next
  case (Suc n)
  then obtain w where w: "foldE (weighted_v5_round randomness) (es, []) [0..<n] = Inr (unselected es w, w)"
      "length w = n" "distinct w" "set w \<subseteq> p_id ` set es" "length (unselected es w) = length es - n"
    by auto
  have "\<forall>e \<in> set (unselected es w). entry_ok e" using assms(1) by (simp add: unselected_def)
  moreover have ne: "unselected es w \<noteq> []" using w(5) Suc.prems by (auto simp flip: length_greater_0_conv)
  ultimately obtain i where i: "i < length (unselected es w)"
    and r: "weighted_v5_round randomness (unselected es w, w) n
      = Inr (splice1 i (unselected es w), w @ [p_id (unselected es w ! i)])"
    using weighted_v5_round_ok [of "unselected es w" randomness n w] assms(4) Suc.prems by auto
  have "unselected es w ! i \<in> set (unselected es w)" using i by simp
  then have e: "p_id (unselected es w ! i) \<notin> set w" "p_id (unselected es w ! i) \<in> p_id ` set es"
    by (auto simp: unselected_def)
  note sp = splice1_unselected [OF assms(2) i]
  have "length (splice1 i (unselected es w)) = length (unselected es w) - 1" using i by (simp add: splice1_def)
  with w r sp e Suc.prems show ?case
    by (intro exI [of _ "w @ [p_id (unselected es w ! i)]"]) (simp add: foldE_append)
qed

lemma concatE_replicate: "concatE (map (\<lambda>_. Inr b) xs) = Inr (concat (map (\<lambda>_. b) xs))"
  by (induction xs) simp_all

lemma winner_id_part_ok:
  "outcome_id_ok w \<Longrightarrow> winner_id_part w = Inr (byte_of (int (length w)) @ ascii_bytes w)"
  by (simp add: winner_id_part_def validateOutcomeIdLength_def Let_def outcome_id_ok_def MAX_OUTCOME_ID_BYTES_def)

lemma winner_claim_preimage_ok:
  assumes "winners \<noteq> []" and "length winners \<le> 32" and "distinct winners" and "\<forall>w \<in> set winners. outcome_id_ok w"
  shows "winner_claim_preimage winners = Inr (WINNER_CLAIM_HASH_DOMAIN @ le_bytes 2 (int (length winners))
    @ concat (map (\<lambda>w. byte_of (int (length w)) @ ascii_bytes w) winners))"
  using assms concatE_ok [of winners winner_id_part "\<lambda>w. byte_of (int (length w)) @ ascii_bytes w"]
  by (simp add: winner_claim_preimage_def winner_id_part_ok bound_defs)

lemma claim_ok:
  assumes "winners \<noteq> []" and "length winners \<le> 32" and "distinct winners" and "\<forall>w \<in> set winners. outcome_id_ok w"
    and "0 \<le> payout" and "payout \<le> MAX_U64"
  shows "\<exists>claim. buildSnapshotClaimFromWinnerIds winners payout = Inr claim \<and> cl_outcomeIds claim = winners
    \<and> cl_winnersCount claim = int (length winners) \<and> cl_totalOutputLamports claim = payout * int (length winners)"
proof -
  have "mapE validateOutcomeIdLength winners = Inr (map (\<lambda>_. ()) winners)"
    by (rule mapE_ok) (use assms(4) in \<open>simp add: validateOutcomeIdLength_def\<close>)
  moreover have "is_ok (buildSyntheticEffects payout (length winners))"
    using assms(5,6) by (simp add: buildSyntheticEffects_def MAX_U64_def concatE_replicate)
  then obtain fx where "buildSyntheticEffects payout (length winners) = Inr fx" by (auto simp: is_ok_iff)
  ultimately show ?thesis
    using assms winner_claim_preimage_ok [OF assms(1-4)]
    by (simp add: buildSnapshotClaimFromWinnerIds_def buildWinnerClaimHash_def Let_def)
qed

lemma compact_winners:
  assumes wf: "compact_wf a" and f: "formulaCodeToName (ca_formulaCode a) = Inr f" and r: "8 \<le> length randomness"
  obtains winners where "length winners = nat (ca_winnersCount a)" and "distinct winners"
    and "set winners \<subseteq> p_id ` set (ca_entries a)"
    and "f \<noteq> Weighted_random \<Longrightarrow> winners = map p_id (take (nat (ca_winnersCount a))
             (js_sort (compareFormulaEntries f (ca_targetScore a)) (ca_entries a)))"
    and "buildCompactNamedEntryClaimFromArtifactV5 a randomness = buildSnapshotClaimFromWinnerIds winners (ca_payoutLamports a)"
proof (cases "f = Weighted_random")
  case True
  have dist: "distinct (map p_id (ca_entries a))" using wf strictly_sorted_distinct by (simp add: compact_wf_def)
  obtain winners where w: "foldE (weighted_v5_round randomness) (ca_entries a, []) [0..<nat (ca_winnersCount a)]
      = Inr (unselected (ca_entries a) winners, winners)"
    "length winners = nat (ca_winnersCount a)" "distinct winners" "set winners \<subseteq> p_id ` set (ca_entries a)"
  proof -
    have "nat (ca_winnersCount a) \<le> length (ca_entries a)" "nat (ca_winnersCount a) < 65536"
      and "\<forall>e \<in> set (ca_entries a). entry_ok e" using wf by (auto simp: compact_wf_def)
    with weighted_v5_rounds_ok [of "ca_entries a" "nat (ca_winnersCount a)" randomness] dist r that
    show thesis by blast
  qed
  show thesis
    by (rule that [OF w(2-4)])
       (simp_all add: True f w(1) buildCompactNamedEntryClaimFromArtifactV5_def)
next
  case False
  define sorted where "sorted = js_sort (compareFormulaEntries f (ca_targetScore a)) (ca_entries a)"
  define n where "n = nat (ca_winnersCount a)"
  have n: "n \<le> length sorted" "int n = ca_winnersCount a" using wf by (auto simp: compact_wf_def n_def sorted_def)
  have "distinct (map p_id sorted)" using wf strictly_sorted_distinct by (simp add: compact_wf_def sorted_def)
  then have d: "distinct (map p_id (take n sorted))" using distinct_take by (simp add: take_map [symmetric])
  have s: "set (map p_id (take n sorted)) \<subseteq> p_id ` set (ca_entries a)"
    using set_take_subset [of n sorted] by (auto simp: sorted_def)
  show thesis
    by (rule that [OF _ d s])
       (use n in \<open>simp_all add: False f buildCompactNamedEntryClaimFromArtifactV5_def n_def [symmetric] sorted_def [symmetric] Let_def\<close>)
qed

lemma compact_claim:
  assumes "parseArtifactV5 blob = Inr a" and "8 \<le> length randomness"
  shows "\<exists>claim. buildCompactNamedEntryClaimFromArtifactV5 a randomness = Inr claim
    \<and> int (length (cl_outcomeIds claim)) = ca_winnersCount a \<and> distinct (cl_outcomeIds claim)
    \<and> set (cl_outcomeIds claim) \<subseteq> p_id ` set (ca_entries a)
    \<and> cl_totalOutputLamports claim = ca_payoutLamports a * ca_winnersCount a"
proof -
  have wf: "compact_wf a" using assms(1) by (rule parseArtifactV5_wf)
  then obtain f where f: "formulaCodeToName (ca_formulaCode a) = Inr f"
    by (auto simp: compact_wf_def valid_formula_code_def formulaCodeToName_def)
  obtain winners where w: "length winners = nat (ca_winnersCount a)" "distinct winners"
    "set winners \<subseteq> p_id ` set (ca_entries a)"
    "buildCompactNamedEntryClaimFromArtifactV5 a randomness = buildSnapshotClaimFromWinnerIds winners (ca_payoutLamports a)"
    by (rule compact_winners [OF wf f assms(2)]) blast
  have "\<forall>w \<in> set winners. outcome_id_ok w" using w(3) wf by (auto simp: compact_wf_def entry_ok_def)
  moreover have "winners \<noteq> []" "length winners \<le> 32" using w(1) wf by (auto simp: compact_wf_def)
  ultimately show ?thesis
    using claim_ok [of winners "ca_payoutLamports a"] w wf by (auto simp: compact_wf_def)
qed

text \<open>A draw over a compact artifact that parses always returns a claim, for every formula and every
  randomness of at least eight bytes: as many distinct winners as the artifact promises, all of them
  entries, and a total output of the payout times their number. No error branch of the draw is reachable.\<close>

theorem compact_draw_total:
  assumes "parseArtifactV5 blob = Inr a" and "8 \<le> length randomness"
  shows "\<exists>claim. buildCompactNamedEntryClaimFromArtifactV5 a randomness = Inr claim
    \<and> int (length (cl_outcomeIds claim)) = ca_winnersCount a \<and> distinct (cl_outcomeIds claim)
    \<and> set (cl_outcomeIds claim) \<subseteq> p_id ` set (ca_entries a)
    \<and> cl_totalOutputLamports claim = ca_payoutLamports a * ca_winnersCount a"
  using assms by (rule compact_claim)

lemma compact_draw_total_witness:
  "\<exists>claim. buildCompactNamedEntryClaimFromArtifactV5 (compact_artifact_of compact_validated) (replicate 32 7) = Inr claim
    \<and> int (length (cl_outcomeIds claim)) = 1 \<and> cl_totalOutputLamports claim = 3"
proof -
  obtain blob where b: "parseArtifactV5 blob = Inr (compact_artifact_of compact_validated)"
    using compact_sample_builds by blast
  from compact_draw_total [OF b, of "replicate 32 7"] show ?thesis
    by (auto simp: compact_artifact_of_def compact_validated_def)
qed

section \<open>Fairness of the weighted pick\<close>

text \<open>C26: among the rolls below the total weight, exactly as many choose an entry as its weight says; and among
  the \<open>2 ^ 64\<close> values of a raw roll, which the code reduces modulo the total weight, the number that choose
  the entry differs from the proportional share by less than the weight itself.\<close>

theorem weighted_pick_fair:
  assumes "\<forall>w \<in> set weights. 0 \<le> w" and "k < length weights" and "0 < sum_list weights"
  shows "card {r. 0 \<le> r \<and> r < sum_list weights \<and> pick_index r 0 0 weights = Some k} = nat (weights ! k)
    \<and> (let chosen = card {roll. 0 \<le> roll \<and> roll < 2 ^ 64 \<and> pick_index (roll mod sum_list weights) 0 0 weights = Some k};
             share = nat (2 ^ 64 div sum_list weights)
         in share * nat (weights ! k) \<le> chosen \<and> chosen \<le> (share + 1) * nat (weights ! k))"
proof (rule conjI)
  let ?T = "sum_list weights"
  define S where "S = {r. 0 \<le> r \<and> r < ?T \<and> pick_index r 0 0 weights = Some k}"
  have card: "card S = nat (weights ! k)" unfolding S_def pick_index_rolls [OF assms(1,2)] by simp
  then show "card {r. 0 \<le> r \<and> r < ?T \<and> pick_index r 0 0 weights = Some k} = nat (weights ! k)"
    by (simp add: S_def)
  have S: "S \<subseteq> {0..<?T}" by (auto simp: S_def)
  have e: "{roll. 0 \<le> roll \<and> roll < 2 ^ 64 \<and> pick_index (roll mod ?T) 0 0 weights = Some k}
    = {x \<in> {0..<2 ^ 64}. x mod ?T \<in> S}"
    using assms(3) by (auto simp: S_def)
  show "let chosen = card {roll. 0 \<le> roll \<and> roll < 2 ^ 64 \<and> pick_index (roll mod ?T) 0 0 weights = Some k};
             share = nat (2 ^ 64 div ?T)
         in share * nat (weights ! k) \<le> chosen \<and> chosen \<le> (share + 1) * nat (weights ! k)"
    unfolding Let_def e card [symmetric]
    using card_residues_bounds [OF assms(3) _ S, of "2 ^ 64"] by simp
qed

lemma weighted_pick_fair_witness:
  "card {r. 0 \<le> r \<and> r < sum_list [2, 1, 4] \<and> pick_index r 0 0 [2, 1, 4] = Some 2} = 4"
  using weighted_pick_fair [of "[2, 1, 4]" 2] by simp

section \<open>Rank winners\<close>

text \<open>What each rank formula promises: the smaller key wins, ties are broken by the order field.\<close>

fun rank_key :: "formula \<Rightarrow> int \<Rightarrow> participant \<Rightarrow> int" where
  "rank_key Rank_desc target e = - p_score e"
| "rank_key Rank_asc target e = p_score e"
| "rank_key Closest_to target e = \<bar>p_score e - target\<bar>"
| "rank_key First_n target e = 0"
| "rank_key Weighted_random target e = 0"

definition ranks_before :: "formula \<Rightarrow> int \<Rightarrow> participant \<Rightarrow> participant \<Rightarrow> bool" where
  "ranks_before f target a b \<longleftrightarrow>
     rank_key f target a < rank_key f target b \<or> rank_key f target a = rank_key f target b \<and> p_order a < p_order b"

lemma compare_ranks_before:
  "f \<noteq> Weighted_random \<Longrightarrow> compareFormulaEntries f target a b < 0 \<longleftrightarrow> ranks_before f target a b"
  by (cases f) (auto simp: ranks_before_def Let_def abs_if)

text \<open>C27: under a rank formula the claim lists the winners from best to worst; every winner strictly precedes
  every entry that did not win, ties of score broken by the order field; and the claim does not depend on how
  the entries are listed.\<close>

theorem rank_winners_best:
  assumes "parseArtifactV5 blob = Inr a" and "formulaCodeToName (ca_formulaCode a) = Inr f" and "f \<noteq> Weighted_random"
    and "buildCompactNamedEntryClaimFromArtifactV5 a randomness = Inr claim" and "mset es = mset (ca_entries a)"
  shows "buildCompactNamedEntryClaimFromArtifactV5 (a\<lparr>ca_entries := es\<rparr>) randomness = Inr claim
    \<and> (\<exists>winners. cl_outcomeIds claim = map p_id winners \<and> set winners \<subseteq> set (ca_entries a)
        \<and> (\<forall>i j. i < j \<longrightarrow> j < length winners \<longrightarrow> ranks_before f (ca_targetScore a) (winners ! i) (winners ! j))
        \<and> (\<forall>w \<in> set winners. \<forall>e \<in> set (ca_entries a) - set winners.
             ranks_before f (ca_targetScore a) w e))"
proof -
  let ?cmp = "compareFormulaEntries f (ca_targetScore a)"
  define sorted where "sorted = js_sort ?cmp (ca_entries a)"
  define n where "n = nat (ca_winnersCount a)"
  have wf: "compact_wf a" using assms(1) by (rule parseArtifactV5_wf)
  then have orders: "distinct (map p_order (ca_entries a))" by (simp add: compact_wf_def)
  have same: "x = y" if "x \<in> set (ca_entries a)" "y \<in> set (ca_entries a)" "?cmp x y = 0" for x y
    using that orders compareFormulaEntries_zero [OF assms(3)] by (auto simp: distinct_map dest: inj_onD)
  have "js_sort ?cmp es = sorted"
    unfolding sorted_def
    by (rule formula.js_sort_mset_eq [symmetric]) (use assms(5) same in auto)
  then have perm: "buildCompactNamedEntryClaimFromArtifactV5 (a\<lparr>ca_entries := es\<rparr>) randomness = Inr claim"
    using assms(2-4) by (simp add: buildCompactNamedEntryClaimFromArtifactV5_def sorted_def)
  have ids: "cl_outcomeIds claim = map p_id (take n sorted)"
    using assms(2-4)
    by (auto simp: buildCompactNamedEntryClaimFromArtifactV5_def sorted_def n_def Let_def throwIf_Inr_iff
        buildSnapshotClaimFromWinnerIds_def bindE_Inr_iff)
  have "distinct (map p_order sorted)" using orders by (simp add: sorted_def)
  then have dist: "distinct sorted" by (simp add: distinct_map)
  have less: "?cmp (sorted ! i) (sorted ! j) < 0" if "i < j" "j < length sorted" for i j
  proof -
    have "?cmp (sorted ! i) (sorted ! j) \<le> 0"
      unfolding sorted_def by (rule formula.sorted_nth_le) (use that in \<open>simp_all add: sorted_def\<close>)
    moreover have "sorted ! i \<noteq> sorted ! j" using that dist by (simp add: nth_eq_iff_index_eq)
    moreover have "sorted ! i \<in> set (ca_entries a)" "sorted ! j \<in> set (ca_entries a)"
      using that nth_mem [of i sorted] nth_mem [of j sorted] by (auto simp: sorted_def)
    ultimately show ?thesis using same by force
  qed
  have "?cmp w e < 0" if w: "w \<in> set (take n sorted)" and e: "e \<in> set (ca_entries a) - set (take n sorted)" for w e
  proof -
    from w obtain i where i: "i < n" "i < length sorted" "sorted ! i = w" by (auto simp: in_set_conv_nth)
    from e have "e \<in> set sorted" by (simp add: sorted_def)
    then obtain j where j: "j < length sorted" "sorted ! j = e" by (auto simp: in_set_conv_nth)
    have "\<not> j < n" using e j by (auto simp: in_set_conv_nth)
    with i j less [of i j] show ?thesis by simp
  qed
  moreover have "set (take n sorted) \<subseteq> set (ca_entries a)" using set_take_subset [of n sorted] by (simp add: sorted_def)
  ultimately show ?thesis using perm ids less unfolding compare_ranks_before [OF assms(3)] by auto
qed

lemma rank_winners_best_witness:
  "\<exists>claim. buildCompactNamedEntryClaimFromArtifactV5 (compact_artifact_of compact_validated) [] = Inr claim
    \<and> (\<exists>winners. cl_outcomeIds claim = map p_id winners
        \<and> (\<forall>w \<in> set winners. \<forall>e \<in> set (cc_entries compact_validated) - set winners. ranks_before Rank_desc 0 w e))"
proof -
  let ?a = "compact_artifact_of compact_validated"
  obtain blob where b: "parseArtifactV5 blob = Inr ?a" using compact_sample_builds by blast
  have f: "formulaCodeToName (ca_formulaCode ?a) = Inr Rank_desc"
    by (simp add: compact_artifact_of_def compact_validated_def formulaCodeToName_def)
  obtain claim where c: "buildCompactNamedEntryClaimFromArtifactV5 ?a (replicate 32 7) = Inr claim"
    using compact_claim [OF b, of "replicate 32 7"] by auto
  then have c': "buildCompactNamedEntryClaimFromArtifactV5 ?a [] = Inr claim"
    using f by (simp add: buildCompactNamedEntryClaimFromArtifactV5_def)
  have e: "ca_entries ?a = cc_entries compact_validated" "ca_targetScore ?a = 0"
    by (simp_all add: compact_artifact_of_def compact_validated_def)
  have "Rank_desc \<noteq> Weighted_random" by simp
  from rank_winners_best [OF b f this c' refl] c' show ?thesis unfolding e by blast
qed

section \<open>The winner-claim hash binds the winners\<close>

lemma winner_claim_preimage_D:
  assumes "winner_claim_preimage winners = Inr b"
  shows "winners \<noteq> [] \<and> length winners \<le> 32 \<and> (\<forall>w \<in> set winners. outcome_id_ok w)
    \<and> b = WINNER_CLAIM_HASH_DOMAIN @ le_bytes 2 (int (length winners))
      @ concat (map (\<lambda>w. byte_of (int (length w)) @ ascii_bytes w) winners)"
proof -
  from assms obtain ids where w: "winners \<noteq> []" "length winners \<le> 32"
    and ids: "concatE (map winner_id_part winners) = Inr ids"
    and b: "b = WINNER_CLAIM_HASH_DOMAIN @ le_bytes 2 (int (length winners)) @ ids"
    by (auto simp: winner_claim_preimage_def result_simps MAX_WINNERS_def)
  have "winner_id_part w = Inr y \<Longrightarrow> y = byte_of (int (length w)) @ ascii_bytes w \<and> outcome_id_ok w" for w y
    by (auto simp: winner_id_part_def validateOutcomeIdLength_def Let_def result_simps)
  with concatE_map_InrD [OF ids, of "\<lambda>w. byte_of (int (length w)) @ ascii_bytes w" outcome_id_ok] w b
  show ?thesis by blast
qed

lemma winner_ids_inject:
  assumes "concat (map (\<lambda>w. byte_of (int (length w)) @ ascii_bytes w) ws)
      = concat (map (\<lambda>w. byte_of (int (length w)) @ ascii_bytes w) vs)"
    and "\<forall>w \<in> set ws \<union> set vs. outcome_id_ok w" and "length ws = length vs"
  shows "ws = vs"
  using assms(3,1,2)
proof (induction ws vs rule: list_induct2)
  case (Cons w ws v vs)
  have small: "0 < length u \<and> length u < 256" if "u \<in> {w, v}" for u
    using that Cons.prems(2) by (auto simp: outcome_id_ok_def MAX_OUTCOME_ID_BYTES_def)
  have "(word_of_int (int (length w)) :: byte) = word_of_int (int (length v))"
    using Cons.prems(1) by (simp add: byte_of_def)
  then have "unat (of_nat (length w) :: byte) = unat (of_nat (length v) :: byte)" by simp
  then have len: "length w = length v"
    using small [of w] small [of v] by (simp add: unat_of_nat)
  with Cons.prems(1) have "ascii_bytes w = ascii_bytes v"
    and rest: "concat (map (\<lambda>w. byte_of (int (length w)) @ ascii_bytes w) ws)
      = concat (map (\<lambda>w. byte_of (int (length w)) @ ascii_bytes w) vs)"
    by (simp_all add: byte_of_def)
  then show ?case using Cons.IH Cons.prems(2) ascii_bytes_inject [of w v] by simp
qed simp

text \<open>The winner-claim hash binds the ordered list of winners: two lists with the same hash are the same
  list, unless their preimages are two different byte strings with one SHA-256 digest.\<close>

theorem winner_claim_binding:
  assumes "buildWinnerClaimHash ws = Inr h" and "buildWinnerClaimHash vs = Inr h"
  shows "ws = vs \<or> (\<exists>x y. winner_claim_preimage ws = Inr x \<and> winner_claim_preimage vs = Inr y \<and> x \<noteq> y \<and> sha256 x = sha256 y)"
proof -
  from assms obtain x y where x: "winner_claim_preimage ws = Inr x" and y: "winner_claim_preimage vs = Inr y"
    and h: "sha256 x = sha256 y"
    by (auto simp: buildWinnerClaimHash_def bindE_Inr_iff)
  note dx = winner_claim_preimage_D [OF x] and dy = winner_claim_preimage_D [OF y]
  have "ws = vs" if "x = y"
  proof -
    have "le_bytes 2 (int (length ws)) = le_bytes 2 (int (length vs))"
      and ids: "concat (map (\<lambda>w. byte_of (int (length w)) @ ascii_bytes w) ws)
        = concat (map (\<lambda>w. byte_of (int (length w)) @ ascii_bytes w) vs)"
      using dx dy that by auto
    then have "le_uint (le_bytes 2 (int (length ws))) = le_uint (le_bytes 2 (int (length vs)))" by simp
    then have "length ws = length vs" using dx dy by (simp add: le_uint_le_bytes)
    with ids show ?thesis using winner_ids_inject dx dy by blast
  qed
  with x y h show ?thesis by blast
qed

lemma winner_claim_binding_witness:
  "\<exists>h. buildWinnerClaimHash [js ''al'', js ''zoe''] = Inr h \<and>
    (\<forall>vs. buildWinnerClaimHash vs = Inr h \<longrightarrow> [js ''al'', js ''zoe''] = vs \<or>
      (\<exists>x y. winner_claim_preimage [js ''al'', js ''zoe''] = Inr x \<and> winner_claim_preimage vs = Inr y \<and> x \<noteq> y \<and> sha256 x = sha256 y))"
proof -
  have "outcome_id_ok (js ''al'')" "outcome_id_ok (js ''zoe'')" by code_simp+
  then obtain h where h: "buildWinnerClaimHash [js ''al'', js ''zoe''] = Inr h"
    using winner_claim_preimage_ok [of "[js ''al'', js ''zoe'']"] by (simp add: buildWinnerClaimHash_def js_def)
  with winner_claim_binding [OF h] show ?thesis by blast
qed

end
