(* ===== verification/Artifact_Valid.thy ===== *)
theory Artifact_Valid
  imports Artifact Selection_Claims
begin

text \<open>
  What the validation of \<^verbatim>\<open>sdk/artifact.ts\<close> guarantees of a normalised configuration: identifiers are strictly
  sorted and printable, weights, payouts, scores and orders are in range, every outcome owns exactly the
  effect at its own position, and the format version follows from the kind of draw and the winners count.
\<close>

section \<open>Entries\<close>

definition w3_entry_ok :: "w3_entry \<Rightarrow> bool" where
  "w3_entry_ok e \<longleftrightarrow>
     outcome_id_ok (we_id e) \<and> 0 < we_weight e \<and> we_weight e \<le> MAX_U32 \<and> 0 \<le> we_payout e \<and> we_payout e \<le> MAX_U64
     \<and> (\<forall>s. we_score e = Some s \<longrightarrow> MIN_I64 \<le> s \<and> s \<le> MAX_I64)"

definition strictly_sorted_w3 :: "w3_entry list \<Rightarrow> bool" where
  "strictly_sorted_w3 es \<longleftrightarrow> sorted_wrt (\<lambda>a b. buffer_compare (ascii_bytes (we_id a)) (ascii_bytes (we_id b)) < 0) es"

text \<open>The orders of a formula draw are the positions of its participants; other draws have none.\<close>

definition w3_orders_ok :: "int \<Rightarrow> w3_entry list \<Rightarrow> bool" where
  "w3_orders_ok version es \<longleftrightarrow>
     (if version = FORMAT_VERSION_V3 then
        (\<forall>e \<in> set es. we_score e \<noteq> None \<and> (\<exists>k. we_order e = Some k \<and> 0 \<le> k \<and> k < int (length es)))
        \<and> distinct (map we_order es)
      else \<forall>e \<in> set es. we_score e = None \<and> we_order e = None)"

definition outcome_of :: "nat \<Rightarrow> w3_entry \<Rightarrow> w3o1_outcome" where
  "outcome_of k e = \<lparr>oc_id = we_id e, oc_weight = we_weight e, oc_score = we_score e, oc_order = we_order e,
     oc_first_effect_index = int k, oc_effect_count = 1\<rparr>"

definition effect_of :: "w3_entry \<Rightarrow> w3o1_effect" where
  "effect_of e = \<lparr>ef_type = js ''transfer_sol'', ef_amount = we_payout e\<rparr>"

definition outcomes_of :: "w3_entry list \<Rightarrow> w3o1_outcome list" where
  "outcomes_of es = map (\<lambda>(k, e). outcome_of k e) (enumerate 0 es)"

text \<open>A normalised configuration, described by its sorted entries.\<close>

definition w3_config_of :: "int \<Rightarrow> int \<Rightarrow> int \<Rightarrow> (formula \<times> int) option \<Rightarrow> w3_entry list \<Rightarrow> w3o1_config" where
  "w3_config_of version winnersCount inputLamports draw es =
     \<lparr>wc_format_version = version, wc_winners_count = winnersCount, wc_min_input = inputLamports,
      wc_max_input = inputLamports, wc_formula = map_option fst draw, wc_target = map_option snd draw,
      wc_outcomes = outcomes_of es, wc_effects = map effect_of es\<rparr>"

definition w3_ok :: "int \<Rightarrow> int \<Rightarrow> int \<Rightarrow> (formula \<times> int) option \<Rightarrow> w3_entry list \<Rightarrow> bool" where
  "w3_ok version winnersCount inputLamports draw es \<longleftrightarrow>
     version = (if draw \<noteq> None then FORMAT_VERSION_V3 else if 1 < winnersCount then FORMAT_VERSION_V2 else FORMAT_VERSION_V1) \<and>
     0 < winnersCount \<and> winnersCount \<le> int (length es) \<and> winnersCount \<le> MAX_WINNERS \<and>
     0 < inputLamports \<and> inputLamports \<le> MAX_U64 \<and> int (length es) \<le> MAX_U16 \<and>
     (\<forall>f t. draw = Some (f, t) \<longrightarrow> MIN_I64 \<le> t \<and> t \<le> MAX_I64) \<and>
     (\<forall>e \<in> set es. w3_entry_ok e) \<and> strictly_sorted_w3 es \<and> w3_orders_ok version es"

lemma outcomes_of_simps [simp]:
  "length (outcomes_of es) = length es"
  "k < length es \<Longrightarrow> outcomes_of es ! k = outcome_of k (es ! k)"
  by (simp_all add: outcomes_of_def nth_enumerate_eq)

lemma outcomes_of_snoc: "outcomes_of (es @ [e]) = outcomes_of es @ [outcome_of (length es) e]"
  by (simp add: outcomes_of_def enumerate_append_eq)

section \<open>Building outcomes and effects\<close>

lemma push_checked_Inr_iff [result_simps]:
  "push_checked (p, out) x = Inr st \<longleftrightarrow> p \<noteq> Some (we_id x) \<and> st = (Some (we_id x), pushOutcomeWithTransferEffect x out)"
  by (auto simp: push_checked_def throwIf_Inr_iff)

lemma push_loop:
  "foldE push_checked (p, outcomes_of es, map effect_of es) xs = Inr (q, out) \<Longrightarrow>
     out = (outcomes_of (es @ xs), map effect_of (es @ xs)) \<and>
     (\<forall>i. Suc i < length xs \<longrightarrow> we_id (xs ! i) \<noteq> we_id (xs ! Suc i)) \<and>
     (xs \<noteq> [] \<longrightarrow> p \<noteq> Some (we_id (hd xs)))"
proof (induction xs arbitrary: p es)
  case (Cons x xs)
  have step: "pushOutcomeWithTransferEffect x (outcomes_of es, map effect_of es)
      = (outcomes_of (es @ [x]), map effect_of (es @ [x]))"
    by (simp add: pushOutcomeWithTransferEffect_def outcomes_of_snoc outcome_of_def effect_of_def)
  from Cons.prems have p: "p \<noteq> Some (we_id x)"
    and rest: "foldE push_checked (Some (we_id x), outcomes_of (es @ [x]), map effect_of (es @ [x])) xs = Inr (q, out)"
    by (auto simp: bindE_Inr_iff push_checked_Inr_iff step)
  from Cons.IH [OF rest] have out: "out = (outcomes_of (es @ x # xs), map effect_of (es @ x # xs))"
    and next': "\<And>i. Suc i < length xs \<Longrightarrow> we_id (xs ! i) \<noteq> we_id (xs ! Suc i)"
    and hd: "xs \<noteq> [] \<Longrightarrow> we_id x \<noteq> we_id (hd xs)"
    by auto
  have "we_id ((x # xs) ! i) \<noteq> we_id ((x # xs) ! Suc i)" if "Suc i < length (x # xs)" for i
    using that next' hd by (cases i) (auto simp: hd_conv_nth)
  with out p show ?case by simp
qed simp

interpretation w3_id: comparator "\<lambda>l r. buffer_compare (ascii_bytes (we_id l)) (ascii_bytes (we_id r))"
  by (rule comparator_map [where f = "\<lambda>e. ascii_bytes (we_id e)"]) (rule bytes.comparator_axioms)

lemma set_sortByAsciiId [simp]: "set (sortByAsciiId es) = set es"
  and length_sortByAsciiId [simp]: "length (sortByAsciiId es) = length es"
  and distinct_sortByAsciiId [simp]: "distinct (map f (sortByAsciiId es)) = distinct (map f es)"
  by (simp_all add: sortByAsciiId_def)

lemma buildOutcomesAndEffects_ok:
  assumes "buildOutcomesAndEffects es = Inr (outcomes, effects)" and "\<forall>e \<in> set es. outcome_id_ok (we_id e)"
  shows "outcomes = outcomes_of (sortByAsciiId es) \<and> effects = map effect_of (sortByAsciiId es)
    \<and> strictly_sorted_w3 (sortByAsciiId es) \<and> int (length es) \<le> MAX_U16"
proof -
  let ?s = "sortByAsciiId es"
  let ?cmp = "\<lambda>l r. buffer_compare (ascii_bytes (we_id l)) (ascii_bytes (we_id r))"
  from assms(1) obtain q out where run: "foldE push_checked (None, outcomes_of [], map effect_of []) ?s = Inr (q, out)"
    and out: "out = (outcomes, effects)" and le: "int (length effects) \<le> MAX_U16"
    by (auto simp: buildOutcomesAndEffects_def result_simps outcomes_of_def)
  from push_loop [OF run] out have eq: "outcomes = outcomes_of ?s" "effects = map effect_of ?s"
    and adj: "\<And>i. Suc i < length ?s \<Longrightarrow> we_id (?s ! i) \<noteq> we_id (?s ! Suc i)"
    by auto
  have srt: "sorted_wrt w3_id.le ?s" unfolding sortByAsciiId_def by (rule w3_id.sorted_js_sort)
  have inj: "we_id a = we_id b" if "?cmp a b = 0" "a \<in> set ?s" "b \<in> set ?s" for a b
    using that assms(2) printable_bytes(2) by (metis buffer_compare_0_iff set_sortByAsciiId)
  have lt: "?cmp (?s ! i) (?s ! j) < 0" if ij: "i < j" "j < length ?s" for i j
  proof -
    have suc: "?cmp (?s ! i) (?s ! Suc i) < 0"
    proof -
      have "w3_id.le (?s ! i) (?s ! Suc i)" using srt ij by (simp add: sorted_wrt_iff_nth_less)
      moreover have "?cmp (?s ! i) (?s ! Suc i) \<noteq> 0"
      proof
        have mem: "?s ! i \<in> set ?s" "?s ! Suc i \<in> set ?s" by (rule nth_mem; use ij in simp)+
        assume "?cmp (?s ! i) (?s ! Suc i) = 0"
        from inj [OF this mem] adj [of i] ij show False by simp
      qed
      ultimately show ?thesis unfolding w3_id.le_def by linarith
    qed
    show ?thesis
    proof (cases "Suc i = j")
      case False
      then have "w3_id.le (?s ! Suc i) (?s ! j)" using srt ij by (simp add: sorted_wrt_iff_nth_less)
      with suc show ?thesis using w3_id.less_le_trans by (simp add: w3_id.le_def)
    qed (use suc in simp)
  qed
  then have "strictly_sorted_w3 ?s" by (simp add: strictly_sorted_w3_def sorted_wrt_iff_nth_less)
  with eq le show ?thesis by simp
qed

lemma validateWinnersCountW3_range:
  "validateWinnersCountW3 v n = Inr w \<Longrightarrow> 0 < w \<and> w \<le> n \<and> w \<le> MAX_WINNERS"
  by (auto simp: validateWinnersCountW3_def throwIf_Inr_iff split: jsval.splits js_number.splits if_splits)

lemma parseLamportsW3_range: "parseLamportsW3 v = Inr n \<Longrightarrow> 0 < n \<and> n \<le> MAX_U64"
  by (auto simp: parseLamportsW3_def throwIf_Inr_iff split: jsval.splits js_number.splits)

lemma parsePayoutLamports_range: "parsePayoutLamports v = Inr n \<Longrightarrow> 0 \<le> n \<and> n \<le> MAX_U64"
  by (auto simp: parsePayoutLamports_def MAX_U64_def dest!: parseLamportsW3_range split: if_splits)

lemma parseOptionalLamportsW3_range: "parseOptionalLamportsW3 v = Inr n \<Longrightarrow> 0 \<le> n \<and> n \<le> MAX_U64"
  by (auto simp: parseOptionalLamportsW3_def w3_defs MAX_U64_def dest!: parsePayoutLamports_range split: if_splits)

lemma validateWeightW3_range: "validateWeightW3 v = Inr n \<Longrightarrow> 0 < n \<and> n \<le> MAX_U32"
  by (auto simp: validateWeightW3_def throwIf_Inr_iff split: jsval.splits js_number.splits)

lemma validateOutcomeId_ok: "validateOutcomeId v = Inr s \<Longrightarrow> outcome_id_ok s"
  by (auto simp: validateOutcomeId_def throwIf_Inr_iff split: jsval.splits)

lemma base58_unit_printable: "base58_unit c \<Longrightarrow> printable_unit c"
  by (auto simp: base58_unit_def printable_unit_def word_le_nat_alt)

lemma validateAddress_ok: "validateAddress valid_key v = Inr s \<Longrightarrow> outcome_id_ok s \<and> 32 \<le> length s \<and> valid_key s"
  by (auto simp: validateAddress_def throwIf_Inr_iff outcome_id_ok_def MAX_OUTCOME_ID_BYTES_def base58_text_def
      printable_ascii_def dest!: base58_unit_printable split: jsval.splits)

lemma validateOrderW3_Inr_iff [result_simps]: "validateOrderW3 k = Inr n \<longleftrightarrow> n = k \<and> 0 \<le> k \<and> k \<le> MAX_U16"
  by (auto simp: validateOrderW3_def throwIf_Inr_iff)

definition plain_entry :: "w3_entry \<Rightarrow> bool" where
  "plain_entry e \<longleftrightarrow> w3_entry_ok e \<and> we_score e = None \<and> we_order e = None"

lemma address_entry_ok:
  "address_entry valid_key payout raw = Inr e \<Longrightarrow> 0 \<le> payout \<Longrightarrow> payout \<le> MAX_U64 \<Longrightarrow> plain_entry e"
  unfolding address_entry_def
  by (elim result_elims) (auto simp: plain_entry_def w3_entry_ok_def dest!: validateAddress_ok validateWeightW3_range)

lemma loot_entry_ok: "loot_entry raw = Inr e \<Longrightarrow> plain_entry e"
  unfolding loot_entry_def
  by (elim result_elims)
    (auto simp: plain_entry_def w3_entry_ok_def dest!: validateOutcomeId_ok validateWeightW3_range parsePayoutLamports_range)

lemma formula_entry_ok:
  assumes "formula_entry f payout (i, raw) = Inr e" and "0 \<le> payout" and "payout \<le> MAX_U64"
  shows "w3_entry_ok e \<and> we_score e \<noteq> None \<and> we_order e = Some (int i)"
proof -
  note u = assms(1) [unfolded formula_entry_def prod.case]
  consider "f = Weighted_random" | "f = First_n" | "f \<noteq> Weighted_random" "f \<noteq> First_n" by blast
  then show ?thesis
  proof cases
    case 1
    from u assms(2,3) show ?thesis
      unfolding if_P [OF 1]
      by (elim result_elims)
        (auto simp: w3_entry_ok_def bound_defs result_simps dest!: validateOutcomeId_ok validateWeightW3_range split: if_splits)
  next
    case 2
    then have ne: "f \<noteq> Weighted_random" by simp
    from u assms(2,3) show ?thesis
      unfolding if_not_P [OF ne] if_P [OF 2]
      by (elim result_elims) (auto simp: w3_entry_ok_def bound_defs result_simps dest!: validateOutcomeId_ok)
  next
    case 3
    from u assms(2,3) show ?thesis
      unfolding if_not_P [OF 3(1)] if_not_P [OF 3(2)]
      by (elim result_elims)
        (auto simp: w3_entry_ok_def bound_defs result_simps dest!: validateOutcomeId_ok parseSignedInteger_range)
  qed
qed

section \<open>Configurations\<close>

lemma validateOutcomeCount_Inr_iff [result_simps]: "validateOutcomeCount n = Inr u \<longleftrightarrow> 0 < n \<and> int n \<le> MAX_U16"
  by (auto simp: validateOutcomeCount_def throwIf_Inr_iff)

lemma normalizeEntries_ok:
  assumes "normalizeEntries es i w = Inr c" and "\<forall>e \<in> set es. plain_entry e" and "0 < i" and "i \<le> MAX_U64"
  shows "\<exists>version. w3_ok version w i None (sortByAsciiId es) \<and> c = w3_config_of version w i None (sortByAsciiId es)"
proof -
  let ?version = "if 1 < w then FORMAT_VERSION_V2 else FORMAT_VERSION_V1"
  from assms(1) obtain outcomes effects w' where
    b: "buildOutcomesAndEffects es = Inr (outcomes, effects)"
    and w: "validateWinnersCountW3 (JNumber (NInt w)) (int (length es)) = Inr w'"
    and c: "c = \<lparr>wc_format_version = ?version, wc_winners_count = w, wc_min_input = i, wc_max_input = i,
        wc_formula = None, wc_target = None, wc_outcomes = outcomes, wc_effects = effects\<rparr>"
    unfolding normalizeEntries_def by (elim result_elims) (auto simp: bindE_Inr_iff)
  have "w' = w" using w by (auto simp: validateWinnersCountW3_def throwIf_Inr_iff)
  with w have wr: "0 < w \<and> w \<le> int (length es) \<and> w \<le> MAX_WINNERS" using validateWinnersCountW3_range by blast
  have "\<forall>e \<in> set es. outcome_id_ok (we_id e)" using assms(2) by (auto simp: plain_entry_def w3_entry_ok_def)
  from buildOutcomesAndEffects_ok [OF b this] have
    "outcomes = outcomes_of (sortByAsciiId es)" "effects = map effect_of (sortByAsciiId es)"
    "strictly_sorted_w3 (sortByAsciiId es)" "int (length es) \<le> MAX_U16" by auto
  with wr assms c show ?thesis
    by (intro exI [of _ ?version])
      (auto simp: w3_ok_def w3_config_of_def w3_orders_ok_def plain_entry_def w3_defs)
qed

lemma normalizeFormulaEntries_ok:
  assumes "normalizeFormulaEntries es i w f t = Inr c" and "0 < i" and "i \<le> MAX_U64" and "MIN_I64 \<le> t" and "t \<le> MAX_I64"
    and ok: "\<forall>e \<in> set es. w3_entry_ok e \<and> we_score e \<noteq> None"
    and orders: "map we_order es = map (\<lambda>k. Some (int k)) [0..<length es]"
  shows "w3_ok FORMAT_VERSION_V3 w i (Some (f, t)) (sortByAsciiId es)
    \<and> c = w3_config_of FORMAT_VERSION_V3 w i (Some (f, t)) (sortByAsciiId es)"
proof -
  from assms(1) obtain outcomes effects w' where
    b: "buildOutcomesAndEffects es = Inr (outcomes, effects)"
    and w: "validateWinnersCountW3 (JNumber (NInt w)) (int (length es)) = Inr w'"
    and c: "c = \<lparr>wc_format_version = FORMAT_VERSION_V3, wc_winners_count = w, wc_min_input = i, wc_max_input = i,
        wc_formula = Some f, wc_target = Some t, wc_outcomes = outcomes, wc_effects = effects\<rparr>"
    unfolding normalizeFormulaEntries_def by (elim result_elims) (auto simp: bindE_Inr_iff)
  have "w' = w" using w by (auto simp: validateWinnersCountW3_def throwIf_Inr_iff)
  with w have wr: "0 < w \<and> w \<le> int (length es) \<and> w \<le> MAX_WINNERS" using validateWinnersCountW3_range by blast
  have "\<forall>e \<in> set es. outcome_id_ok (we_id e)" using ok by (auto simp: w3_entry_ok_def)
  from buildOutcomesAndEffects_ok [OF b this] have built:
    "outcomes = outcomes_of (sortByAsciiId es)" "effects = map effect_of (sortByAsciiId es)"
    "strictly_sorted_w3 (sortByAsciiId es)" "int (length es) \<le> MAX_U16" by auto
  have range: "\<exists>k. we_order e = Some k \<and> 0 \<le> k \<and> k < int (length es)" if "e \<in> set es" for e
  proof -
    have "we_order e \<in> set (map we_order es)" using that by simp
    then show ?thesis unfolding orders by auto
  qed
  have "distinct (map we_order es)" unfolding orders by (simp add: distinct_map inj_on_def)
  with range have "w3_orders_ok FORMAT_VERSION_V3 (sortByAsciiId es)"
    using ok by (simp add: w3_orders_ok_def)
  with wr assms built c show ?thesis
    by (auto simp: w3_ok_def w3_config_of_def)
qed

lemma buildAddressWeightedEntries_ok:
  assumes "buildAddressWeightedEntries valid_key raws payout = Inr es" and "0 \<le> payout \<and> payout \<le> MAX_U64"
  shows "\<forall>e \<in> set es. plain_entry e"
  using assms unfolding buildAddressWeightedEntries_def by (fastforce dest: mapE_Inr_set address_entry_ok)

definition built_config :: "w3o1_config \<Rightarrow> bool" where
  "built_config c \<longleftrightarrow> (\<exists>version w i draw es. w3_ok version w i draw es \<and> c = w3_config_of version w i draw es)"

lemma normalizeEntries_built:
  "normalizeEntries es i w = Inr c \<Longrightarrow> \<forall>e \<in> set es. plain_entry e \<Longrightarrow> 0 < i \<and> i \<le> MAX_U64 \<Longrightarrow> built_config c"
  using normalizeEntries_ok unfolding built_config_def by blast

lemma buildRaffleConfig_built: "buildRaffleConfig valid_key config = Inr c \<Longrightarrow> built_config c"
  unfolding buildRaffleConfig_def
  by (elim result_elims)
    (blast intro: normalizeEntries_built dest: parseLamportsW3_range parseOptionalLamportsW3_range buildAddressWeightedEntries_ok)

lemma buildAirdropConfig_built: "buildAirdropConfig valid_key config = Inr c \<Longrightarrow> built_config c"
  unfolding buildAirdropConfig_def
  by (elim result_elims)
    (blast intro: normalizeEntries_built dest: parseLamportsW3_range parseOptionalLamportsW3_range buildAddressWeightedEntries_ok)

lemma buildLootConfig_built: "buildLootConfig config = Inr c \<Longrightarrow> built_config c"
  unfolding buildLootConfig_def
  by (elim result_elims)
    (blast intro: normalizeEntries_built dest: parseLamportsW3_range mapE_Inr_set loot_entry_ok)

lemma formula_entries_ok:
  assumes "mapE (formula_entry f payout) (enumerate 0 raws) = Inr es" and p: "0 \<le> payout \<and> payout \<le> MAX_U64"
  shows "\<forall>e \<in> set es. w3_entry_ok e \<and> we_score e \<noteq> None"
    and "map we_order es = map (\<lambda>k. Some (int k)) [0..<length es]"
proof -
  have len: "length es = length raws" using mapE_Inr_length [OF assms(1)] by simp
  have nth: "w3_entry_ok (es ! k) \<and> we_score (es ! k) \<noteq> None \<and> we_order (es ! k) = Some (int k)" if k: "k < length es" for k
  proof -
    have "formula_entry f payout (k, raws ! k) = Inr (es ! k)"
      using mapE_Inr_nth [OF assms(1), of k] k len by (simp add: nth_enumerate_eq)
    then show ?thesis by (rule formula_entry_ok) (use p in simp_all)
  qed
  then show "\<forall>e \<in> set es. w3_entry_ok e \<and> we_score e \<noteq> None"
    by (auto simp: in_set_conv_nth)
  show "map we_order es = map (\<lambda>k. Some (int k)) [0..<length es]"
    by (rule nth_equalityI) (use nth in simp_all)
qed

lemma buildFormulaDrawConfig_built:
  assumes "buildFormulaDrawConfig config = Inr c"
  shows "built_config c"
proof -
  from assms obtain f i payout w t raws es where i: "parseLamportsW3 (prop_of config ''input_lamports'') = Inr i"
    and payout: "parseOptionalLamportsW3 (prop_of config ''payout_lamports'') = Inr payout"
    and t: "(if f = Closest_to then parseSignedInteger (prop_of config ''target'')
            else if prop_of config ''target'' = JUndefined then Inr 0
            else parseSignedInteger (prop_of config ''target'')) = Inr t"
    and es: "mapE (formula_entry f payout) (enumerate 0 raws) = Inr es"
    and n: "normalizeFormulaEntries es i w f t = Inr c"
    unfolding buildFormulaDrawConfig_def by (elim result_elims) blast
  have "MIN_I64 \<le> t \<and> t \<le> MAX_I64"
    using t by (auto simp: bound_defs dest!: parseSignedInteger_range split: if_splits)
  with normalizeFormulaEntries_ok [OF n] parseLamportsW3_range [OF i]
    formula_entries_ok [OF es parseOptionalLamportsW3_range [OF payout]]
  show ?thesis unfolding built_config_def by blast
qed

lemma toW3O1Config_built: "toW3O1Config valid_key v = Inr c \<Longrightarrow> built_config c"
  unfolding toW3O1Config_def
  by (elim result_elims)
    (auto dest: buildRaffleConfig_built buildAirdropConfig_built buildLootConfig_built buildFormulaDrawConfig_built
      split: if_splits)

end
