(* ===== verification/Compiled_Codec.thy ===== *)
theory Compiled_Codec
  imports Compiled Artifact_Valid
begin

text \<open>
  The artifact that \<^verbatim>\<open>sdk/artifact.ts\<close> serialises is the one \<^verbatim>\<open>sdk/verify.ts\<close> parses: the round trip of the
  format versions 1, 2 and 3 through two independently written files, outcome by outcome and effect by
  effect. The parser keeps arrays of flags for the orders and effects it has seen; the lemmas about \<open>flags_of\<close>
  relate them to the sets of indices.
\<close>

section \<open>Arrays of flags\<close>

definition flags_of :: "nat \<Rightarrow> int list \<Rightarrow> bool list" where
  "flags_of n seen = map (\<lambda>i. int i \<in> set seen) [0..<n]"

lemma length_flags_of [simp]: "length (flags_of n seen) = n"
  by (simp add: flags_of_def)

lemma flags_of_nth [simp]: "0 \<le> i \<Longrightarrow> i < int n \<Longrightarrow> flags_of n seen ! nat i \<longleftrightarrow> i \<in> set seen"
  by (simp add: flags_of_def nat_less_iff)

lemma flags_of_Nil: "flags_of n [] = replicate n False"
  by (simp add: flags_of_def map_replicate_const)

lemma mark_flags_of: "0 \<le> i \<Longrightarrow> i < int n \<Longrightarrow> mark i (flags_of n seen) = flags_of n (i # seen)"
  by (rule nth_equalityI) (auto simp: mark_def flags_of_def nth_list_update)

lemma flags_of_cong: "set a = set b \<Longrightarrow> flags_of n a = flags_of n b"
  by (simp add: flags_of_def)

lemma flags_of_all:
  assumes "distinct seen" and "length seen = n" and "\<forall>i \<in> set seen. 0 \<le> i \<and> i < int n"
  shows "list_all (\<lambda>b. b) (flags_of n seen)"
proof -
  have "set seen \<subseteq> {0..<int n}" using assms(3) by auto
  moreover have "card (set seen) = card {0..<int n}" using assms(1,2) by (simp add: distinct_card)
  ultimately have "set seen = {0..<int n}" by (intro card_subset_eq) auto
  then show ?thesis by (auto simp: flags_of_def)
qed

section \<open>The bytes of a normalised configuration\<close>

definition id_bytes :: "jsstr \<Rightarrow> buffer" where
  "id_bytes s = byte_of (int (length s)) @ (ascii_bytes s @ zeros (64 - length s)) @ []"

definition score_order_bytes :: "int \<Rightarrow> w3_entry \<Rightarrow> buffer" where
  "score_order_bytes version e =
     (if version = FORMAT_VERSION_V3 then le_bytes 8 (the (we_score e)) @ le_bytes 2 (the (we_order e)) @ [] else [])"

definition outcome_bytes :: "int \<Rightarrow> nat \<Rightarrow> w3_entry \<Rightarrow> buffer" where
  "outcome_bytes version k e =
     id_bytes (we_id e) @ le_bytes 4 (we_weight e) @ score_order_bytes version e @ le_bytes 2 (int k) @ le_bytes 2 1 @ []"

definition effect_bytes :: "w3_entry \<Rightarrow> buffer" where
  "effect_bytes e = byte_of 1 @ zeros 7 @ le_bytes 8 (we_payout e)"

definition head_bytes :: "int \<Rightarrow> int \<Rightarrow> (formula \<times> int) option \<Rightarrow> buffer" where
  "head_bytes version w draw =
     (case draw of
        Some (f, t) \<Rightarrow> le_bytes 2 w @ byte_of (formula_code f) @ zeros 5 @ le_bytes 8 t @ []
      | None \<Rightarrow> if version = FORMAT_VERSION_V2 then le_bytes 2 w @ zeros 6 @ [] else zeros 8 @ [])"

definition outcomes_bytes :: "int \<Rightarrow> w3_entry list \<Rightarrow> buffer" where
  "outcomes_bytes version es = concat (map (\<lambda>(k, e). outcome_bytes version k e) (enumerate 0 es))"

definition w3_bytes :: "int \<Rightarrow> int \<Rightarrow> int \<Rightarrow> (formula \<times> int) option \<Rightarrow> w3_entry list \<Rightarrow> buffer" where
  "w3_bytes version w i draw es =
     le_bytes 2 version @ le_bytes 8 i @ le_bytes 8 i @ le_bytes 2 (int (length es)) @ le_bytes 2 (int (length es))
     @ head_bytes version w draw @ outcomes_bytes version es @ concat (map effect_bytes es) @ []"

text \<open>What the parser makes of it.\<close>

definition parsed_outcome_of :: "int \<Rightarrow> nat \<Rightarrow> w3_entry \<Rightarrow> parsed_outcome" where
  "parsed_outcome_of version k e =
     \<lparr>po_idLen = int (length (we_id e)), po_id = ascii_bytes (we_id e) @ zeros (64 - length (we_id e)),
      po_weight = we_weight e, po_score = (if version = FORMAT_VERSION_V3 then the (we_score e) else 0),
      po_order = (if version = FORMAT_VERSION_V3 then the (we_order e) else int k),
      po_firstEffectIndex = int k, po_effectCount = 1\<rparr>"

definition parsed_outcomes_of :: "int \<Rightarrow> w3_entry list \<Rightarrow> parsed_outcome list" where
  "parsed_outcomes_of version es = map (\<lambda>(k, e). parsed_outcome_of version k e) (enumerate 0 es)"

definition draw_code :: "(formula \<times> int) option \<Rightarrow> int" where
  "draw_code draw = (case draw of Some (f, _) \<Rightarrow> formula_code f | None \<Rightarrow> 1)"

definition draw_formula :: "(formula \<times> int) option \<Rightarrow> formula" where
  "draw_formula draw = (case draw of Some (f, _) \<Rightarrow> f | None \<Rightarrow> Weighted_random)"

definition draw_target :: "(formula \<times> int) option \<Rightarrow> int" where
  "draw_target draw = (case draw of Some (_, t) \<Rightarrow> t | None \<Rightarrow> 0)"

definition w3_parsed_of :: "int \<Rightarrow> int \<Rightarrow> int \<Rightarrow> (formula \<times> int) option \<Rightarrow> w3_entry list \<Rightarrow> parsed_artifact" where
  "w3_parsed_of version w i draw es =
     \<lparr>pa_formatVersion = version, pa_winnersCount = w, pa_minInputLamports = i, pa_maxInputLamports = i,
      pa_formulaCode = draw_code draw, pa_formulaName = Named (draw_formula draw), pa_targetScore = draw_target draw,
      pa_payoutLamports = 0, pa_entryCount = None, pa_standardVersion = False,
      pa_totalEffectCount = int (length es), pa_outcomes = parsed_outcomes_of version es,
      pa_effects = map we_payout es,
      pa_effectsOffset = 26 + length (head_bytes version w draw) + length (outcomes_bytes version es)\<rparr>"

section \<open>The writer\<close>

lemma fixedAscii_ok: "outcome_id_ok s \<Longrightarrow> fixedAscii s 64 = Inr (ascii_bytes s @ zeros (64 - length s))"
  by (simp add: fixedAscii_def outcome_id_ok_def MAX_OUTCOME_ID_BYTES_def)

lemma serialize_outcome_ok:
  assumes ok: "w3_ok version w i draw es" and k: "k < length es"
  shows "serialize_outcome version (outcome_of k (es ! k)) = Inr (outcome_bytes version k (es ! k))"
proof -
  let ?e = "es ! k"
  have mem: "?e \<in> set es" using k by simp
  then have e: "w3_entry_ok ?e" and small: "int k < 65536"
    using ok k by (auto simp: w3_ok_def w3_defs)
  have id: "outcome_id_ok (we_id ?e)" using e by (simp add: w3_entry_ok_def)
  show ?thesis
  proof (cases "version = FORMAT_VERSION_V3")
    case True
    then obtain s j where "we_score ?e = Some s" "we_order ?e = Some j" "0 \<le> j" "j < int (length es)"
      using ok mem by (auto simp: w3_ok_def w3_orders_ok_def)
    moreover from this ok have "j \<le> 65535" by (simp add: w3_ok_def w3_defs)
    ultimately show ?thesis
      using e small True
      by (simp add: serialize_outcome_def outcome_of_def outcome_bytes_def id_bytes_def score_order_bytes_def
          fixedAscii_ok [OF id] w3_entry_ok_def bound_defs validateOrderW3_def MAX_U16_def)
  next
    case False
    with e small show ?thesis
      by (simp add: serialize_outcome_def outcome_of_def outcome_bytes_def id_bytes_def score_order_bytes_def
          fixedAscii_ok [OF id] w3_entry_ok_def bound_defs)
  qed
qed

lemma serialize_effect_ok: "w3_entry_ok e \<Longrightarrow> serialize_effect (effect_of e) = Inr (effect_bytes e)"
  by (simp add: serialize_effect_def effect_of_def effect_bytes_def w3_entry_ok_def bound_defs W3O1_TRANSFER_SOL_def)

lemma validateWinnersCountW3_ok:
  "0 < w \<Longrightarrow> w \<le> n \<Longrightarrow> w \<le> MAX_WINNERS \<Longrightarrow> validateWinnersCountW3 (JNumber (NInt w)) n = Inr w"
  by (simp add: validateWinnersCountW3_def)

lemma serialize_header_ok:
  assumes ok: "w3_ok version w i draw es"
  shows "concatE (serialize_header (w3_config_of version w i draw es))
    = Inr (W3O1 @ le_bytes 2 version @ le_bytes 8 i @ le_bytes 8 i @ le_bytes 2 (int (length es))
        @ le_bytes 2 (int (length es)) @ head_bytes version w draw)"
proof (cases draw)
  case None
  with ok show ?thesis
    by (simp add: serialize_header_def w3_config_of_def w3_ok_def w3_defs bound_defs head_bytes_def)
next
  case (Some ft)
  with ok show ?thesis
    by (cases ft) (simp add: serialize_header_def w3_config_of_def w3_ok_def w3_defs bound_defs head_bytes_def)
qed

lemma serializeW3O1_bytes:
  assumes ok: "w3_ok version w i draw es"
  shows "serializeW3O1 (w3_config_of version w i draw es) = Inr (W3O1 @ w3_bytes version w i draw es)"
proof -
  let ?c = "w3_config_of version w i draw es"
  have outcomes: "concatE (map (serialize_outcome version) (outcomes_of es)) = Inr (outcomes_bytes version es)"
  proof -
    have "concatE (map (\<lambda>(k, e). serialize_outcome version (outcome_of k e)) (enumerate 0 es))
        = Inr (concat (map (\<lambda>(k, e). outcome_bytes version k e) (enumerate 0 es)))"
      by (rule concatE_ok) (use serialize_outcome_ok [OF ok] in \<open>auto simp: in_set_enumerate_eq\<close>)
    then show ?thesis by (simp add: outcomes_of_def outcomes_bytes_def comp_def case_prod_unfold)
  qed
  have effects: "concatE (map serialize_effect (map effect_of es)) = Inr (concat (map effect_bytes es))"
    unfolding map_map comp_def
    by (rule concatE_ok) (use ok serialize_effect_ok in \<open>auto simp: w3_ok_def\<close>)
  have n: "0 < length es" "int (length es) \<le> MAX_U16" using ok by (auto simp: w3_ok_def)
  have w: "validateWinnersCountW3 (JNumber (NInt w)) (int (length es)) = Inr w"
    using ok by (intro validateWinnersCountW3_ok) (auto simp: w3_ok_def)
  have checks: "\<not> (version \<noteq> FORMAT_VERSION_V1 \<and> version \<noteq> FORMAT_VERSION_V2 \<and> version \<noteq> FORMAT_VERSION_V3)"
    "\<not> (version = FORMAT_VERSION_V1 \<and> 1 < w)" "\<not> (version = FORMAT_VERSION_V3 \<and> map_option fst draw = None)"
    using ok by (auto simp: w3_ok_def w3_defs split: if_splits)
  have fields: "wc_outcomes ?c = outcomes_of es" "wc_effects ?c = map effect_of es" "wc_format_version ?c = version"
    "wc_winners_count ?c = w" "wc_formula ?c = map_option fst draw"
    by (simp_all add: w3_config_of_def)
  have m: "validateOutcomeCount (length es) = Inr ()" using n by (simp add: validateOutcomeCount_def)
  have body: "concatE (serialize_header ?c @ map (serialize_outcome version) (outcomes_of es)
       @ map serialize_effect (map effect_of es)) = Inr (W3O1 @ w3_bytes version w i draw es)"
    unfolding concatE_append serialize_header_ok [OF ok] outcomes effects by (simp add: w3_bytes_def)
  show ?thesis
    unfolding serializeW3O1_def fields throwIf_def if_not_P [OF checks(1)] if_not_P [OF checks(2)] if_not_P [OF checks(3)]
    by (simp only: outcomes_of_simps length_map m w body bindE.simps)
qed

section \<open>The reader\<close>

lemma runs_case3: "runs off (f a b c) xs v \<Longrightarrow> runs off (case (a, b, c) of (x, y, z) \<Rightarrow> f x y z) xs v"
  by simp

lemma runs_case5:
  "runs off (f a b c d e) xs v \<Longrightarrow> runs off (case (a, b, c, d, e) of (x, y, z, u, w) \<Rightarrow> f x y z u w) xs v"
  by simp

lemma outcome_idR_runs:
  assumes id: "outcome_id_ok s" and prev: "\<forall>p. previous = Some p \<longrightarrow> buffer_compare p (ascii_bytes s) < 0"
  shows "runs off (outcome_idR e1 e2 e3 e4 previous) (id_bytes s)
    (int (length s), ascii_bytes s @ zeros (64 - length s), ascii_bytes s)"
proof -
  have len: "0 < length s" "length s \<le> 64" using id by (simp_all add: outcome_id_ok_def MAX_OUTCOME_ID_BYTES_def)
  have p: "\<not> (\<exists>p. previous = Some p \<and> 0 \<le> buffer_compare p (ascii_bytes s))" using prev by auto
  show ?thesis
    unfolding outcome_idR_def id_bytes_def Let_def
    by (rule runs_readBytesClamped runs_retR_eq runs_intros
        | (use len p printable_bytes [OF id] in \<open>simp add: MAX_OUTCOME_ID_BYTES_def del: list_all_set; fail\<close>))+
qed

lemma w3_headR_runs:
  assumes ok: "w3_ok version w i draw es"
  shows "runs off (w3_headR version) (head_bytes version w draw) (w, draw_code draw, draw_target draw)"
proof (cases draw)
  case None
  show ?thesis
  proof (cases "1 < w")
    case True
    with None ok have v: "version = FORMAT_VERSION_V2" by (simp add: w3_ok_def)
    have w: "0 \<le> w" "w < 65536" using ok by (auto simp: w3_ok_def bound_defs)
    show ?thesis
      unfolding w3_headR_def v if_P [OF refl] head_bytes_def None option.case draw_code_def draw_target_def
      by (rule runs_readBytesClamped runs_retR_eq runs_intros | (use w in \<open>simp; fail\<close>))+
  next
    case False
    with None ok have v: "version = 1" and w: "w = 1" by (auto simp: w3_ok_def w3_defs)
    show ?thesis
      unfolding w3_headR_def v head_bytes_def None option.case draw_code_def draw_target_def w3_defs
      by (simp, (rule runs_readBytesClamped [where b = "zeros 8" and len = 8, THEN runs_bindR [where ys = "[]", simplified]]
          runs_retR_eq runs_intros | (use w in \<open>simp; fail\<close>))+)
  qed
next
  case (Some ft)
  obtain f t where ft: "ft = (f, t)" by (cases ft)
  with Some ok have v: "version = FORMAT_VERSION_V3" by (simp add: w3_ok_def)
  then have v2: "version \<noteq> FORMAT_VERSION_V2" by (simp add: w3_defs)
  have w: "0 \<le> w" "w < 65536" "MIN_I64 \<le> t" "t \<le> MAX_I64" using ok Some ft by (auto simp: w3_ok_def bound_defs)
  show ?thesis
    unfolding w3_headR_def if_not_P [OF v2] if_P [OF v] head_bytes_def Some ft option.case prod.case draw_code_def draw_target_def
    by (rule runs_readBytesClamped runs_retR_eq runs_intros | (use w in \<open>simp add: bound_defs; fail\<close>))+
qed

definition seen_at :: "int \<Rightarrow> w3_entry list \<Rightarrow> nat \<Rightarrow> bool list" where
  "seen_at version es k =
     (if version = FORMAT_VERSION_V3 then flags_of (length es) (map (\<lambda>e. the (we_order e)) (take k es))
      else replicate (length es) False)"

lemma score_orderR_runs:
  assumes ok: "w3_ok version w i draw es" and k: "k < length es"
  shows "runs off (score_orderR version (int (length es)) k (seen_at version es k)) (score_order_bytes version (es ! k))
    (if version = FORMAT_VERSION_V3 then the (we_score (es ! k)) else 0,
     if version = FORMAT_VERSION_V3 then the (we_order (es ! k)) else int k, seen_at version es (Suc k))"
proof (cases "version = FORMAT_VERSION_V3")
  case True
  then have orders: "\<forall>e \<in> set es. we_score e \<noteq> None \<and> (\<exists>k. we_order e = Some k \<and> 0 \<le> k \<and> k < int (length es))"
    and dist: "distinct (map we_order es)" and le: "int (length es) \<le> 65535"
    and fits: "\<forall>e \<in> set es. w3_entry_ok e"
    using ok by (simp_all add: w3_ok_def w3_orders_ok_def MAX_U16_def)
  obtain s j where e: "we_score (es ! k) = Some s" "we_order (es ! k) = Some j" "0 \<le> j" "j < int (length es)"
    using orders k by (meson not_None_eq nth_mem)
  have s: "MIN_I64 \<le> s" "s \<le> MAX_I64" using fits e k by (auto simp: w3_entry_ok_def dest!: bspec [OF _ nth_mem])
  let ?seen = "map (\<lambda>e. the (we_order e)) (take k es)"
  have new: "j \<notin> set ?seen"
  proof
    assume "j \<in> set ?seen"
    then obtain x where x: "x \<in> set (take k es)" "the (we_order x) = j" by auto
    then have "x \<in> set es" by (auto dest: in_set_takeD)
    then have "we_order x = we_order (es ! k)" using orders x e by auto
    then show False using distinct_map_take_nth [OF dist k] x by (metis image_eqI set_map)
  qed
  have upd: "mark j (flags_of (length es) ?seen) = seen_at version es (Suc k)"
  proof -
    have "seen_at version es (Suc k) = flags_of (length es) (?seen @ [j])"
      using k by (simp add: seen_at_def True take_Suc_conv_app_nth e)
    also have "\<dots> = flags_of (length es) (j # ?seen)" by (rule flags_of_cong) simp
    finally show ?thesis using e by (simp add: mark_flags_of)
  qed
  have fresh: "\<not> flags_of (length es) ?seen ! nat j" using new e by simp
  have seen: "seen_at version es k = flags_of (length es) ?seen" using True by (simp add: seen_at_def)
  show ?thesis
    unfolding score_orderR_def score_order_bytes_def if_P [OF True] seen e option.sel
    by (rule runs_retR_eq runs_intros | (use e(3,4) le s fresh upd in \<open>simp add: bound_defs; fail\<close>))+
next
  case False
  then show ?thesis
    by (simp add: score_orderR_def score_order_bytes_def seen_at_def runs_retR)
qed

definition w3_state_at :: "int \<Rightarrow> w3_entry list \<Rightarrow> nat \<Rightarrow> w3_state" where
  "w3_state_at version es k =
     (flags_of (length es) (map int [0..<k]), seen_at version es k,
      if k = 0 then None else Some (ascii_bytes (we_id (es ! (k - 1)))), sum_list (map we_weight (take k es)),
      take k (parsed_outcomes_of version es))"

lemma parsed_outcomes_of_simps [simp]:
  "length (parsed_outcomes_of version es) = length es"
  "k < length es \<Longrightarrow> parsed_outcomes_of version es ! k = parsed_outcome_of version k (es ! k)"
  by (simp_all add: parsed_outcomes_of_def nth_enumerate_eq)

lemma reference_effects_ok:
  assumes "k < n"
  shows "reference_effects version (int k) (int k + 1) (flags_of n (map int [0..<k])) = Inr (flags_of n (map int [0..<Suc k]))"
proof -
  have r: "[nat (int k)..<nat (int k + 1)] = [k]" by (simp add: nat_add_distrib)
  have "\<not> flags_of n (map int [0..<k]) ! k" using assms by (auto simp: flags_of_def)
  moreover have "(flags_of n (map int [0..<k]))[k := True] = flags_of n (map int [0..<Suc k])"
    by (rule nth_equalityI) (use assms in \<open>auto simp: flags_of_def nth_list_update\<close>)
  ultimately show ?thesis unfolding reference_effects_def r by (simp add: reference_effect_def)
qed

lemma w3_outcomeR_runs:
  assumes ok: "w3_ok version w i draw es" and k: "k < length es"
  shows "runs off (w3_outcomeR version (int (length es)) (int (length es)) k (w3_state_at version es k))
    (outcome_bytes version k (es ! k)) (w3_state_at version es (Suc k))"
proof -
  let ?e = "es ! k"
  have e: "w3_entry_ok ?e" and small: "length es \<le> 65535" using ok k by (simp_all add: w3_ok_def w3_defs)
  have id: "outcome_id_ok (we_id ?e)" using e by (simp add: w3_entry_ok_def)
  have weight: "0 < we_weight ?e" "we_weight ?e < 4294967296" using e by (auto simp: w3_entry_ok_def bound_defs)
  have prev: "\<forall>p. (if k = 0 then None else Some (ascii_bytes (we_id (es ! (k - 1))))) = Some p \<longrightarrow>
      buffer_compare p (ascii_bytes (we_id ?e)) < 0"
    using ok k by (auto simp: w3_ok_def strictly_sorted_w3_def sorted_wrt_iff_nth_less)
  have fin: "(flags_of (length es) (map int [0..<Suc k]), seen_at version es (Suc k), Some (ascii_bytes (we_id ?e)),
        sum_list (map we_weight (take k es)) + we_weight ?e,
        take k (parsed_outcomes_of version es) @ [parsed_outcome_of version k ?e]) = w3_state_at version es (Suc k)"
    using k by (simp add: w3_state_at_def take_Suc_conv_app_nth)
  show ?thesis
    unfolding w3_outcomeR_def outcome_bytes_def w3_state_at_def [of _ _ k] prod.case
    by (rule outcome_idR_runs [OF id prev] score_orderR_runs [OF ok k] runs_case3 runs_intros
        | (use weight small k in \<open>simp; fail\<close>)
        | (simp add: reference_effects_ok [OF k]; fail)
        | (rule runs_retR_eq, simp add: fin [symmetric] parsed_outcome_of_def; fail))+
qed

lemma w3_outcomes_run:
  assumes ok: "w3_ok version w i draw es"
  shows "runs off (forR (length es) 0 (w3_outcomeR version (int (length es)) (int (length es)))
      (replicate (length es) False, replicate (length es) False, None, 0, []))
    (outcomes_bytes version es) (w3_state_at version es (length es))"
proof -
  have start: "w3_state_at version es 0 = (replicate (length es) False, replicate (length es) False, None, 0, [])"
    by (simp add: w3_state_at_def seen_at_def flags_of_Nil)
  have "runs off (forR (length (enumerate 0 es)) 0 (w3_outcomeR version (int (length es)) (int (length es))) (w3_state_at version es 0))
      (concat (map (\<lambda>(k, e). outcome_bytes version k e) (enumerate 0 es))) (w3_state_at version es (length (enumerate 0 es)))"
    by (rule runs_forR) (use w3_outcomeR_runs [OF ok] in \<open>simp add: nth_enumerate_eq\<close>)
  then show ?thesis by (simp add: start outcomes_bytes_def)
qed

lemma w3_effectR_runs: "w3_entry_ok e \<Longrightarrow> runs off w3_effectR (effect_bytes e) (we_payout e)"
  unfolding w3_effectR_def effect_bytes_def W3O1_TRANSFER_SOL_def
  by (rule runs_readBytesClamped runs_intros | (simp add: w3_entry_ok_def bound_defs; fail))+

lemma seen_at_end: "w3_ok version w i draw es \<Longrightarrow> version = FORMAT_VERSION_V3 \<Longrightarrow> list_all (\<lambda>b. b) (seen_at version es (length es))"
proof -
  assume ok: "w3_ok version w i draw es" and v: "version = FORMAT_VERSION_V3"
  then have orders: "\<forall>e \<in> set es. \<exists>k. we_order e = Some k \<and> 0 \<le> k \<and> k < int (length es)"
    and dist: "distinct (map we_order es)"
    by (simp_all add: w3_ok_def w3_orders_ok_def)
  have "map we_order es = map Some (map (\<lambda>e. the (we_order e)) es)" using orders by (auto simp: comp_def)
  then have "distinct (map (\<lambda>e. the (we_order e)) es)" using dist by (metis distinct_map)
  then show ?thesis
    unfolding seen_at_def if_P [OF v] take_all [OF order.refl] by (rule flags_of_all) (use orders in auto)
qed

lemma w3_weights_positive: "w3_ok version w i draw es \<Longrightarrow> 0 < sum_list (map we_weight es)"
proof -
  assume ok: "w3_ok version w i draw es"
  then have pos: "\<forall>x \<in> set (map we_weight es). 0 < x" and "es \<noteq> []" by (auto simp: w3_ok_def w3_entry_ok_def)
  then obtain e es' where es: "es = e # es'" by (cases es) auto
  have "0 \<le> sum_list (map we_weight es')" using pos es by (intro sum_list_nonneg) (auto intro: less_imp_le)
  then show ?thesis using pos es by simp
qed

lemma draw_name: "runtimeFormulaName (draw_code draw) = Inr (Named (draw_formula draw))"
proof (cases draw)
  case (Some ft)
  then show ?thesis
    by (cases ft; cases "fst ft") (simp_all add: draw_code_def draw_formula_def runtimeFormulaName_def)
qed (simp add: draw_code_def draw_formula_def runtimeFormulaName_def)

lemma compiledW3R_runs:
  assumes ok: "w3_ok version w i draw es"
  shows "runs 6 (compiledW3R version (4 + length (w3_bytes version w i draw es)))
     (le_bytes 8 i @ le_bytes 8 i @ le_bytes 2 (int (length es)) @ le_bytes 2 (int (length es))
       @ head_bytes version w draw @ outcomes_bytes version es @ concat (map effect_bytes es) @ [])
     (w3_parsed_of version w i draw es)"
proof -
  note ok' = ok [unfolded w3_ok_def bound_defs w3_defs]
  have n: "0 < length es" "length es \<le> 65535" using ok by (auto simp: w3_ok_def w3_defs)
  have loop: "\<And>off. runs off (forR (nat (int (length es))) 0 (w3_outcomeR version (int (length es)) (int (length es)))
      (replicate (nat (int (length es))) False, replicate (nat (int (length es))) False, None, 0, []))
    (outcomes_bytes version es)
    (flags_of (length es) (map int [0..<length es]), seen_at version es (length es),
      if length es = 0 then None else Some (ascii_bytes (we_id (es ! (length es - 1)))),
      sum_list (map we_weight es), parsed_outcomes_of version es)"
    using w3_outcomes_run [OF ok] by (simp add: w3_state_at_def)
  have effs: "\<And>off. runs off (repeatR (nat (int (length es))) w3_effectR) (concat (map effect_bytes es)) (map we_payout es)"
  proof -
    fix off
    have "runs off (repeatR (length es) w3_effectR) (concat (map effect_bytes es)) (map we_payout es)"
    proof -
      have *: "\<forall>e \<in> set xs. w3_entry_ok e \<Longrightarrow> runs off (repeatR (length xs) w3_effectR) (concat (map effect_bytes xs)) (map we_payout xs)"
        for xs off
      proof (induction xs arbitrary: off)
        case (Cons x xs)
        have "runs o' (bindR (repeatR (length xs) w3_effectR) (\<lambda>ys. retR (we_payout x # ys)))
            (concat (map effect_bytes xs) @ []) (we_payout x # map we_payout xs)" for o'
          by (rule runs_bindR [OF Cons.IH runs_retR]) (use Cons.prems in simp)
        then show ?case using Cons.prems by (auto intro!: runs_bindR w3_effectR_runs)
      qed (simp add: runs_retR)
      show ?thesis by (rule *) (use ok in \<open>simp add: w3_ok_def\<close>)
    qed
    then show "runs off (repeatR (nat (int (length es))) w3_effectR) (concat (map effect_bytes es)) (map we_payout es)" by simp
  qed
  have all: "list_all (\<lambda>b. b) (flags_of (length es) (map int [0..<length es]))"
    by (rule flags_of_all) (auto simp: distinct_map)
  show ?thesis
    unfolding compiledW3R_def w3_parsed_of_def
    by (rule loop effs w3_headR_runs [OF ok] runs_case3 runs_case5 runs_intros
        | (use ok' n in \<open>simp add: MAX_WINNERS_def; fail\<close>)
        | (rule draw_name)
        | (use w3_weights_positive [OF ok] seen_at_end [OF ok] all in \<open>simp del: list_all_set; fail\<close>)
        | (rule runs_retR_eq, simp; fail)
        | (simp add: w3_bytes_def; fail))+
qed

section \<open>The round trip\<close>

text \<open>A parsed artifact says the same as a configuration, outcome by outcome and effect by effect.\<close>

definition same_outcome :: "int \<Rightarrow> nat \<Rightarrow> w3o1_outcome \<Rightarrow> parsed_outcome \<Rightarrow> bool" where
  "same_outcome version k x p \<longleftrightarrow>
     ascii_string (take (nat (po_idLen p)) (po_id p)) = oc_id x \<and> po_idLen p = int (length (oc_id x)) \<and> length (po_id p) = 64 \<and>
     po_weight p = oc_weight x \<and> po_firstEffectIndex p = oc_first_effect_index x \<and> po_effectCount p = oc_effect_count x \<and>
     (if version = FORMAT_VERSION_V3 then Some (po_score p) = oc_score x \<and> Some (po_order p) = oc_order x
      else po_score p = 0 \<and> po_order p = int k)"

definition same_artifact :: "w3o1_config \<Rightarrow> parsed_artifact \<Rightarrow> bool" where
  "same_artifact c p \<longleftrightarrow>
     pa_formatVersion p = wc_format_version c \<and> pa_winnersCount p = wc_winners_count c \<and>
     pa_minInputLamports p = wc_min_input c \<and> pa_maxInputLamports p = wc_max_input c \<and>
     pa_formulaName p = Named (case wc_formula c of None \<Rightarrow> Weighted_random | Some f \<Rightarrow> f) \<and>
     pa_targetScore p = (case wc_target c of None \<Rightarrow> 0 | Some t \<Rightarrow> t) \<and>
     pa_effects p = map ef_amount (wc_effects c) \<and> length (pa_outcomes p) = length (wc_outcomes c) \<and>
     (\<forall>k < length (wc_outcomes c). same_outcome (wc_format_version c) k (wc_outcomes c ! k) (pa_outcomes p ! k))"

lemma same_artifact_of:
  assumes ok: "w3_ok version w i draw es"
  shows "same_artifact (w3_config_of version w i draw es) (w3_parsed_of version w i draw es)"
proof -
  have "same_outcome version k (outcome_of k (es ! k)) (parsed_outcome_of version k (es ! k))" if k: "k < length es" for k
  proof -
    have e: "outcome_id_ok (we_id (es ! k))" using ok k by (simp add: w3_ok_def w3_entry_ok_def)
    then have "length (we_id (es ! k)) \<le> 64" by (simp add: outcome_id_ok_def MAX_OUTCOME_ID_BYTES_def)
    moreover have "version = FORMAT_VERSION_V3 \<Longrightarrow> we_score (es ! k) \<noteq> None \<and> we_order (es ! k) \<noteq> None"
      using ok k by (auto simp: w3_ok_def w3_orders_ok_def dest!: bspec [OF _ nth_mem])
    ultimately show ?thesis
      using printable_bytes(2) [OF e] by (auto simp: same_outcome_def outcome_of_def parsed_outcome_of_def)
  qed
  then show ?thesis
    by (cases draw) (auto simp: same_artifact_def w3_config_of_def w3_parsed_of_def draw_formula_def draw_target_def
        effect_of_def comp_def)
qed

lemma length_outcomes_bytes: "es \<noteq> [] \<Longrightarrow> w3_entry_ok (hd es) \<Longrightarrow> 73 \<le> length (outcomes_bytes version es)"
  by (cases es) (auto simp: outcomes_bytes_def outcome_bytes_def id_bytes_def w3_entry_ok_def outcome_id_ok_def MAX_OUTCOME_ID_BYTES_def)

lemma w3_artifact_parses:
  assumes ok: "w3_ok version w i draw es" and small: "4 + length (w3_bytes version w i draw es) \<le> MAX_COMPILED_ARTIFACT_BYTES"
  shows "parseCompiledArtifact (W3O1 @ w3_bytes version w i draw es) = Inr (w3_parsed_of version w i draw es)"
proof -
  let ?b = "w3_bytes version w i draw es"
  have v: "version = 1 \<or> version = 2 \<or> version = 3" using ok by (auto simp: w3_ok_def w3_defs)
  have ne: "es \<noteq> []" "w3_entry_ok (hd es)" using ok by (cases es; auto simp: w3_ok_def)+
  have four: "length W3O1 = 4" by (simp add: W3O1_def)
  have len: "34 \<le> length (W3O1 @ ?b)" using length_outcomes_bytes [OF ne, of version] by (simp add: w3_bytes_def four)
  have len2: "length (W3O1 @ ?b) = 4 + length ?b" by (simp add: four)
  have v': "version \<noteq> FORMAT_VERSION_COMPOSITE_RANK_DESC" "version \<noteq> FORMAT_VERSION_V5"
    "\<not> (version \<noteq> FORMAT_VERSION_V1 \<and> version \<noteq> FORMAT_VERSION_V2 \<and> version \<noteq> FORMAT_VERSION_V3)"
    using v by (auto simp: composite_defs format_defs w3_defs)
  have body: "runs 6 (compiledW3R version (length (W3O1 @ ?b)))
     (le_bytes 8 i @ le_bytes 8 i @ le_bytes 2 (int (length es)) @ le_bytes 2 (int (length es))
       @ head_bytes version w draw @ outcomes_bytes version es @ concat (map effect_bytes es) @ [])
     (w3_parsed_of version w i draw es)"
    unfolding len2 by (rule compiledW3R_runs [OF ok])
  have "runs 4 (compiledR (W3O1 @ ?b)) ?b (w3_parsed_of version w i draw es)"
    unfolding compiledR_def w3_bytes_def
  proof (rule runs_bindR [OF runs_readU16LE])
    show "0 \<le> version" "version < 65536" using v by auto
    show "runs (4 + length (le_bytes 2 version))
     (if version = FORMAT_VERSION_COMPOSITE_RANK_DESC then liftR (parseCompiledComposite (W3O1 @ le_bytes 2 version @
        le_bytes 8 i @ le_bytes 8 i @ le_bytes 2 (int (length es)) @ le_bytes 2 (int (length es)) @
        head_bytes version w draw @ outcomes_bytes version es @ concat (map effect_bytes es) @ []))
      else if version = FORMAT_VERSION_V5 then compiledV5R (length (W3O1 @ le_bytes 2 version @
        le_bytes 8 i @ le_bytes 8 i @ le_bytes 2 (int (length es)) @ le_bytes 2 (int (length es)) @
        head_bytes version w draw @ outcomes_bytes version es @ concat (map effect_bytes es) @ []))
      else throwIfR (version \<noteq> FORMAT_VERSION_V1 \<and> version \<noteq> FORMAT_VERSION_V2 \<and> version \<noteq> FORMAT_VERSION_V3)
        (Error ''Unsupported format version'') (compiledW3R version (length (W3O1 @ le_bytes 2 version @
        le_bytes 8 i @ le_bytes 8 i @ le_bytes 2 (int (length es)) @ le_bytes 2 (int (length es)) @
        head_bytes version w draw @ outcomes_bytes version es @ concat (map effect_bytes es) @ []))))
     (le_bytes 8 i @ le_bytes 8 i @ le_bytes 2 (int (length es)) @ le_bytes 2 (int (length es))
       @ head_bytes version w draw @ outcomes_bytes version es @ concat (map effect_bytes es) @ [])
     (w3_parsed_of version w i draw es)"
      unfolding if_not_P [OF v'(1)] if_not_P [OF v'(2)]
      using body [unfolded w3_bytes_def] by (intro runs_throwIfR v'(3)) simp
  qed
  from runs_run [OF this four] show ?thesis
    using len small magic_ok_W3O1 [of ?b] four by (simp add: parseCompiledArtifact_def)
qed

text \<open>C28: every raffle, loot table, airdrop and formula draw that passes the validation is serialised without an
  error, into an artifact that the verifier's parser reads back outcome by outcome and effect by effect; the
  parser refuses it only for its size, above 8192 bytes. The format version is 3 for a formula draw, else
  2 or 1 as there is more than one winner or not.\<close>

theorem w3_artifact_roundtrip:
  assumes "toW3O1Config valid_key v = Inr c"
  shows "\<exists>blob. serializeW3O1 c = Inr blob \<and>
    (if length blob \<le> MAX_COMPILED_ARTIFACT_BYTES
     then \<exists>p. parseCompiledArtifact blob = Inr p \<and> same_artifact c p
     else parseCompiledArtifact blob = Inl (Error ''Invalid artifact length'')) \<and>
    wc_format_version c = (if wc_formula c \<noteq> None then 3 else if 1 < wc_winners_count c then 2 else 1)"
proof -
  obtain version w i draw es where ok: "w3_ok version w i draw es" and c: "c = w3_config_of version w i draw es"
    using toW3O1Config_built [OF assms] unfolding built_config_def by blast
  let ?blob = "W3O1 @ w3_bytes version w i draw es"
  have "version = (if draw \<noteq> None then 3 else if 1 < w then 2 else 1)" using ok by (simp add: w3_ok_def w3_defs)
  moreover have "parseCompiledArtifact ?blob = Inl (Error ''Invalid artifact length'')"
    if "\<not> length ?blob \<le> MAX_COMPILED_ARTIFACT_BYTES"
    using that by (simp add: parseCompiledArtifact_def)
  moreover have "length ?blob = 4 + length (w3_bytes version w i draw es)" by (simp add: W3O1_def)
  ultimately show ?thesis
    using serializeW3O1_bytes [OF ok] w3_artifact_parses [OF ok] same_artifact_of [OF ok] unfolding c
    by (intro exI [of _ ?blob]) (auto simp: w3_config_of_def)
qed

definition loot_sample :: jsval where
  "loot_sample = JObject
     [(js ''type'', JString (js ''loot'')), (js ''input_lamports'', JNumber (NInt 5)),
      (js ''outcomes'', JArray
        [JObject [(js ''id'', JString (js ''b'')), (js ''weight'', JNumber (NInt 2)), (js ''payout_lamports'', JNumber (NInt 7))],
         JObject [(js ''id'', JString (js ''a'')), (js ''weight'', JNumber (NInt 1)), (js ''payout_lamports'', JBigInt 0)]])]"

definition loot_built :: w3o1_config where
  "loot_built = \<lparr>wc_format_version = 1, wc_winners_count = 1, wc_min_input = 5, wc_max_input = 5, wc_formula = None, wc_target = None,
     wc_outcomes = [\<lparr>oc_id = js ''a'', oc_weight = 1, oc_score = None, oc_order = None, oc_first_effect_index = 0, oc_effect_count = 1\<rparr>,
       \<lparr>oc_id = js ''b'', oc_weight = 2, oc_score = None, oc_order = None, oc_first_effect_index = 1, oc_effect_count = 1\<rparr>],
     wc_effects = [\<lparr>ef_type = js ''transfer_sol'', ef_amount = 0\<rparr>, \<lparr>ef_type = js ''transfer_sol'', ef_amount = 7\<rparr>]\<rparr>"

lemma loot_sample_builds: "toW3O1Config (\<lambda>_. False) loot_sample = Inr loot_built"
  by code_simp

lemma w3_artifact_roundtrip_witness: "is_ok (bindE (toW3O1Config (\<lambda>_. False) loot_sample) serializeW3O1)"
  using w3_artifact_roundtrip [OF loot_sample_builds] by (auto simp: loot_sample_builds)

end
