(* ===== verification/Composite_Replay.thy ===== *)
theory Composite_Replay
  imports Composite Selection_Claims
begin

text \<open>
  What the composite replay computes: the pure score of a participant, its bounds, the order of the
  participants, and the invariance of the order under a change of unit or origin of a field.
\<close>

section \<open>Ranges and effective values\<close>

definition field_range :: "composite_participant list \<Rightarrow> nat \<Rightarrow> int \<times> int" where
  "field_range ps i = foldl (range_step i) (cp_fieldValues (hd ps) ! i, cp_fieldValues (hd ps) ! i) ps"

definition effective :: "normalization_mode \<Rightarrow> int \<Rightarrow> int \<times> int \<Rightarrow> int" where
  "effective mode v r =
     (if mode = Mode_none then v else if snd r = fst r then 0
      else (v - fst r) * COMPOSITE_NORMALIZATION_SCALE div (snd r - fst r))"

definition pure_score :: "normalization_mode \<Rightarrow> field_spec list \<Rightarrow> composite_participant list \<Rightarrow> composite_participant \<Rightarrow> int" where
  "pure_score mode specs ps p =
     (\<Sum>i \<leftarrow> [0..<length specs]. effective mode (cp_fieldValues p ! i) (field_range ps i) * fs_weightPpm (specs ! i))"

definition compare_scores :: "(composite_participant \<Rightarrow> int) \<Rightarrow> composite_participant \<Rightarrow> composite_participant \<Rightarrow> int" where
  "compare_scores score l r =
     (if score r - score l \<noteq> 0 then if score r - score l > 0 then 1 else -1 else cp_order l - cp_order r)"

interpretation scores: comparator "compare_scores score" for score
  by unfold_locales (auto simp: compare_scores_def split: if_splits)

lemma range_step_fold:
  "foldl (range_step i) (a, b) ps
    = (foldl min a (map (\<lambda>p. cp_fieldValues p ! i) ps), foldl max b (map (\<lambda>p. cp_fieldValues p ! i) ps))"
  by (induction ps arbitrary: a b) (simp_all add: range_step_def Let_def min_def max_def not_less)

lemma foldl_min_le: "foldl min a vs \<le> (a :: int) \<and> (\<forall>v \<in> set vs. foldl min a vs \<le> v)"
  by (induction vs arbitrary: a) (fastforce simp: min_le_iff_disj)+

lemma foldl_max_ge: "(a :: int) \<le> foldl max a vs \<and> (\<forall>v \<in> set vs. v \<le> foldl max a vs)"
  by (induction vs arbitrary: a) (fastforce simp: le_max_iff_disj)+

lemma field_range_bounds:
  assumes "p \<in> set ps"
  shows "fst (field_range ps i) \<le> cp_fieldValues p ! i" and "cp_fieldValues p ! i \<le> snd (field_range ps i)"
  using assms foldl_min_le foldl_max_ge by (auto simp: field_range_def range_step_fold)

lemma rangeForField_ok: "ps \<noteq> [] \<Longrightarrow> rangeForField ps i = Inr (field_range ps i)"
  by (cases ps) (simp_all add: rangeForField_def field_range_def)

lemma bigint_div_nonneg: "0 \<le> a \<Longrightarrow> 0 < b \<Longrightarrow> bigint_div a b = Inr (a div b)"
  by (cases "a = 0") (simp_all add: bigint_div_def)

lemma effectiveValue_ok:
  assumes "p \<in> set ps"
  shows "effectiveValue mode (cp_fieldValues p ! i) (fst (field_range ps i)) (snd (field_range ps i))
    = Inr (effective mode (cp_fieldValues p ! i) (field_range ps i),
           mode \<noteq> Mode_none \<and> snd (field_range ps i) = fst (field_range ps i))"
  using field_range_bounds [OF assms, of i]
  by (auto simp: effectiveValue_def effective_def bigint_div_nonneg COMPOSITE_NORMALIZATION_SCALE_def)

lemma effective_bounds:
  assumes "fst r \<le> v" and "v \<le> snd r"
  shows "0 \<le> effective Min_max v r \<and> effective Min_max v r \<le> COMPOSITE_NORMALIZATION_SCALE"
proof (cases "snd r = fst r")
  case False
  with assms have d: "0 < snd r - fst r" by simp
  have "(v - fst r) * COMPOSITE_NORMALIZATION_SCALE \<le> (snd r - fst r) * COMPOSITE_NORMALIZATION_SCALE"
    using assms by (simp add: COMPOSITE_NORMALIZATION_SCALE_def)
  then have "(v - fst r) * COMPOSITE_NORMALIZATION_SCALE div (snd r - fst r)
      \<le> (snd r - fst r) * COMPOSITE_NORMALIZATION_SCALE div (snd r - fst r)"
    using d by (rule zdiv_mono1)
  moreover have "0 \<le> (v - fst r) * COMPOSITE_NORMALIZATION_SCALE div (snd r - fst r)"
    using assms d by (simp add: COMPOSITE_NORMALIZATION_SCALE_def pos_imp_zdiv_nonneg_iff)
  ultimately show ?thesis using False d by (simp add: effective_def)
qed (simp add: effective_def COMPOSITE_NORMALIZATION_SCALE_def)

lemma effective_mono:
  assumes "v \<le> w" and "fst r \<le> snd r"
  shows "effective mode v r \<le> effective mode w r"
  using assms
  by (auto simp: effective_def COMPOSITE_NORMALIZATION_SCALE_def intro!: zdiv_mono1)

section \<open>The entry of a participant\<close>

definition field_entry :: "normalization_mode \<Rightarrow> field_spec list \<Rightarrow> composite_participant list \<Rightarrow> composite_participant \<Rightarrow> nat \<Rightarrow> field_replay" where
  "field_entry mode specs ps p i =
     (let v = cp_fieldValues p ! i; r = field_range ps i; e = effective mode v r in
      \<lparr>fr_field = fs_key (specs ! i), fr_raw_value = dec_string v, fr_min_value = dec_string (fst r),
       fr_max_value = dec_string (snd r), fr_effective_value = dec_string e,
       fr_contribution = dec_string (e * fs_weightPpm (specs ! i)),
       fr_zero_ordering_power = (mode \<noteq> Mode_none \<and> snd r = fst r)\<rparr>)"

definition entry_of :: "normalization_mode \<Rightarrow> field_spec list \<Rightarrow> composite_participant list \<Rightarrow> composite_participant \<Rightarrow> replay_entry" where
  "entry_of mode specs ps p =
     \<lparr>re_id = cp_id p, re_order = cp_order p, re_composite_score = dec_string (pure_score mode specs ps p),
      re_field_replay = map (field_entry mode specs ps p) [0..<length specs]\<rparr>"

lemma entry_of_simps [simp]:
  "re_id (entry_of mode specs ps p) = cp_id p" "re_order (entry_of mode specs ps p) = cp_order p"
  "score_of (entry_of mode specs ps p) = pure_score mode specs ps p"
  by (simp_all add: entry_of_def score_of_def bigint_of_dec)

lemma compare_entry_of:
  "compare_replay (entry_of mode specs ps p) (entry_of mode specs ps q) = compare_scores (pure_score mode specs ps) p q"
  by (simp add: compare_replay_def compare_scores_def Let_def)

lemma enumerate_zip_map:
  "enumerate 0 (zip specs (map r [0..<length specs])) = map (\<lambda>i. (i, specs ! i, r i)) [0..<length specs]"
  by (rule nth_equalityI) (simp_all add: nth_enumerate_eq)

lemma replay_participant_ok:
  assumes "p \<in> set ps"
  shows "replay_participant mode specs (map (field_range ps) [0..<length specs]) p = Inr (entry_of mode specs ps p)"
proof -
  let ?x = "\<lambda>i. (i, specs ! i, field_range ps i)"
  have "foldE (replay_field mode p) (0, []) (map ?x [0..<n])
    = Inr (\<Sum>i \<leftarrow> [0..<n]. effective mode (cp_fieldValues p ! i) (field_range ps i) * fs_weightPpm (specs ! i),
           map (field_entry mode specs ps p) [0..<n])" for n
  proof (induction n)
    case (Suc n)
    obtain mn mx where r: "field_range ps n = (mn, mx)" by (cases "field_range ps n")
    have "effectiveValue mode (cp_fieldValues p ! n) mn mx
        = Inr (effective mode (cp_fieldValues p ! n) (mn, mx), mode \<noteq> Mode_none \<and> mx = mn)"
      using effectiveValue_ok [OF assms, of mode n] by (simp add: r)
    with Suc show ?case by (simp add: foldE_append replay_field_def r field_entry_def Let_def)
  qed simp
  from this [of "length specs"] show ?thesis
    by (simp add: replay_participant_def enumerate_zip_map entry_of_def pure_score_def)
qed

lemma replay_parsed_ok:
  assumes "cx_participants a \<noteq> []"
  defines "mode \<equiv> cx_normalizationMode a" and "specs \<equiv> cx_scoringFields a" and "ps \<equiv> cx_participants a"
  defines "ordered \<equiv> js_sort (compare_scores (pure_score mode specs ps)) ps"
  shows "replay_parsed a = Inr \<lparr>cr_ordered_ids = map cp_id ordered,
    cr_winner_ids = map cp_id (take (nat (cx_winnersCount a)) ordered), cr_winners_count = cx_winnersCount a,
    cr_total_output_lamports = dec_string (cx_payoutLamports a * cx_winnersCount a),
    cr_participant_replay = map (entry_of mode specs ps) ps\<rparr>"
proof -
  have ranges: "mapE (rangeForField ps) [0..<length specs] = Inr (map (field_range ps) [0..<length specs])"
    by (rule mapE_ok) (use assms(1) in \<open>simp add: rangeForField_ok ps_def\<close>)
  have entries: "mapE (replay_participant mode specs (map (field_range ps) [0..<length specs])) ps = Inr (map (entry_of mode specs ps) ps)"
    by (rule mapE_ok) (rule replay_participant_ok)
  have sorted: "js_sort compare_replay (map (entry_of mode specs ps) ps) = map (entry_of mode specs ps) ordered"
    by (simp add: js_sort_map compare_entry_of ordered_def)
  have "map re_id (map (entry_of mode specs ps) xs) = map cp_id xs" for xs by simp
  with ranges entries sorted show ?thesis
    by (simp add: replay_parsed_def Let_def mode_def [symmetric] specs_def [symmetric] ps_def [symmetric] take_map comp_def)
qed

section \<open>What the parser guarantees\<close>

definition composite_wf :: "composite_artifact \<Rightarrow> bool" where
  "composite_wf a \<longleftrightarrow>
     cx_participants a \<noteq> [] \<and> 1 \<le> cx_winnersCount a \<and> cx_winnersCount a \<le> int (length (cx_participants a)) \<and>
     (\<forall>f \<in> set (cx_scoringFields a). 0 < fs_weightPpm f) \<and>
     (\<Sum>f \<leftarrow> cx_scoringFields a. fs_weightPpm f) = COMPOSITE_WEIGHT_SCALE \<and>
     (\<forall>p \<in> set (cx_participants a). length (cp_fieldValues p) = length (cx_scoringFields a)) \<and>
     distinct (map cp_order (cx_participants a)) \<and> distinct (map cp_id (cx_participants a))"

definition fields_inv :: "nat \<Rightarrow> field_state \<Rightarrow> bool" where
  "fields_inv k st = (case st of (seen, weightSum, fs) \<Rightarrow>
     length fs = k \<and> weightSum = (\<Sum>f \<leftarrow> fs. fs_weightPpm f) \<and> (\<forall>f \<in> set fs. 0 < fs_weightPpm f))"

lemma field_specR_inv:
  assumes "fields_inv k st" and "field_specR st buf off = Inr (st', off')"
  shows "fields_inv (Suc k) st'"
  using assms unfolding field_specR_def Let_def
  by (cases st) (simp only: prod.case, elim result_elims, auto simp: fields_inv_def)

definition participants_inv :: "nat \<Rightarrow> nat \<Rightarrow> composite_state \<Rightarrow> bool" where
  "participants_inv n k st = (case st of (previousId, seen, ps) \<Rightarrow>
     length ps = k \<and> (\<forall>p \<in> set ps. length (cp_fieldValues p) = n) \<and> set seen = cp_order ` set ps \<and>
     distinct (map cp_order ps) \<and> sorted_wrt (\<lambda>l r. buffer_compare (ascii_bytes (cp_id l)) (ascii_bytes (cp_id r)) < 0) ps \<and>
     previousId = (if ps = [] then None else Some (ascii_bytes (cp_id (last ps)))))"

lemma sorted_snoc_trans:
  assumes "sorted_wrt R xs" and "xs \<noteq> [] \<Longrightarrow> R (last xs) x" and "\<And>a b c. R a b \<Longrightarrow> R b c \<Longrightarrow> R a c"
  shows "sorted_wrt R (xs @ [x])"
proof (cases xs rule: rev_cases)
  case (snoc ys y)
  with assms(1,2) have "\<forall>z \<in> set ys. R z y" "R y x" by (simp_all add: sorted_wrt_append)
  with assms(1,3) snoc show ?thesis by (auto simp: sorted_wrt_append)
qed simp

lemma composite_participantR_inv:
  assumes inv: "participants_inv n k st" and read: "composite_participantR n st buf off = Inr (st', off')"
  shows "participants_inv n (Suc k) st'"
proof -
  obtain prev seen ps where st: "st = (prev, seen, ps)" by (cases st)
  from read obtain canonicalId order fieldValues o1 o2
    where pr: "list_all printable_byte canonicalId" and less: "\<not> (\<exists>p. prev = Some p \<and> 0 \<le> buffer_compare p canonicalId)"
      and new: "order \<notin> set seen" and vals: "repeatR n readI64LE buf o1 = Inr (fieldValues, o2)"
      and st': "st' = (Some canonicalId, order # seen,
            ps @ [\<lparr>cp_id = ascii_string canonicalId, cp_order = order, cp_fieldValues = fieldValues\<rparr>])"
    unfolding composite_participantR_def st prod.case Let_def by (elim result_elims) (simp; blast)
  define p where "p = \<lparr>cp_id = ascii_string canonicalId, cp_order = order, cp_fieldValues = fieldValues\<rparr>"
  have len: "length fieldValues = n" using repeatR_Inr_D [OF vals] by simp
  have bytes: "ascii_bytes (cp_id p) = canonicalId" using printable_string(2) [OF pr] by (simp add: p_def)
  have "sorted_wrt (\<lambda>l r. buffer_compare (ascii_bytes (cp_id l)) (ascii_bytes (cp_id r)) < 0) (ps @ [p])"
    by (rule sorted_snoc_trans)
      (use inv less in \<open>auto simp: participants_inv_def st bytes intro: buffer_compare_trans\<close>)
  moreover have "st' = (Some canonicalId, order # seen, ps @ [p])" "cp_order p = order" "length (cp_fieldValues p) = n"
    by (simp_all add: st' p_def len)
  ultimately show ?thesis using inv new bytes by (simp add: participants_inv_def st)
qed

lemma sorted_ids_distinct:
  "sorted_wrt (\<lambda>l r. buffer_compare (ascii_bytes (cp_id l)) (ascii_bytes (cp_id r)) < 0) ps \<Longrightarrow> distinct (map cp_id ps)"
  by (induction ps) auto

lemma parse_composite_wf:
  assumes "parseCompositeRankDescArtifact blob = Inr a"
  shows "composite_wf a"
proof -
  from assms obtain fst' pst n m o1 o2 o3 o4
    where f: "forR n 0 (\<lambda>_. field_specR) ([], 0, []) blob o1 = Inr (fst', o2)"
      and w: "\<not> fst (snd fst') \<noteq> COMPOSITE_WEIGHT_SCALE"
      and p: "forR m 0 (\<lambda>_. composite_participantR n) (None, [], []) blob o3 = Inr (pst, o4)"
      and m: "m = nat (cx_participantCount a)" "\<not> cx_participantCount a < 1"
      and winners: "\<not> (cx_winnersCount a < 1 \<or> cx_participantCount a < cx_winnersCount a \<or> MAX_WINNERS < cx_winnersCount a)"
      and parts: "cx_scoringFields a = snd (snd fst')" "cx_participants a = snd (snd pst)"
    unfolding parseCompositeRankDescArtifact_def compositeR_def
    by (elim result_elims) (simp; blast)
  have "fields_inv 0 ([], 0, [])" by (simp add: fields_inv_def)
  then have "fields_inv (0 + n) fst'"
    by (rule forR_invariant [OF f, of "\<lambda>k st _. fields_inv k st"]) (erule (1) field_specR_inv)
  moreover have "participants_inv n 0 (None, [], [])" by (simp add: participants_inv_def)
  then have "participants_inv n (0 + m) pst"
    by (rule forR_invariant [OF p, of "\<lambda>k st _. participants_inv n k st"]) (erule (1) composite_participantR_inv)
  ultimately have fs: "length (cx_scoringFields a) = n" "\<forall>f \<in> set (cx_scoringFields a). 0 < fs_weightPpm f"
      "(\<Sum>f \<leftarrow> cx_scoringFields a. fs_weightPpm f) = COMPOSITE_WEIGHT_SCALE"
    and ps: "length (cx_participants a) = m" "\<forall>p \<in> set (cx_participants a). length (cp_fieldValues p) = n"
      "distinct (map cp_order (cx_participants a))"
      "sorted_wrt (\<lambda>l r. buffer_compare (ascii_bytes (cp_id l)) (ascii_bytes (cp_id r)) < 0) (cx_participants a)"
    using w by (auto simp: fields_inv_def participants_inv_def parts split: prod.splits)
  have "distinct (map cp_id (cx_participants a))"
    using ps(4) by (rule sorted_ids_distinct)
  then show ?thesis using fs ps m winners by (auto simp: composite_wf_def)
qed

section \<open>Scores\<close>

lemma pure_score_mono:
  assumes "composite_wf a" and "p \<in> set (cx_participants a)" and "q \<in> set (cx_participants a)"
    and "\<forall>i < length (cx_scoringFields a). cp_fieldValues q ! i \<le> cp_fieldValues p ! i"
  shows "pure_score mode (cx_scoringFields a) (cx_participants a) q \<le> pure_score mode (cx_scoringFields a) (cx_participants a) p"
  unfolding pure_score_def
proof (rule sum_list_mono)
  fix i assume "i \<in> set [0..<length (cx_scoringFields a)]"
  then have i: "i < length (cx_scoringFields a)" by simp
  have "fst (field_range (cx_participants a) i) \<le> snd (field_range (cx_participants a) i)"
    using field_range_bounds [OF assms(2), of i] by linarith
  moreover have "0 \<le> fs_weightPpm (cx_scoringFields a ! i)"
    using assms(1) nth_mem [OF i] by (auto simp: composite_wf_def)
  ultimately show "effective mode (cp_fieldValues q ! i) (field_range (cx_participants a) i) * fs_weightPpm (cx_scoringFields a ! i)
    \<le> effective mode (cp_fieldValues p ! i) (field_range (cx_participants a) i) * fs_weightPpm (cx_scoringFields a ! i)"
    using assms(4) i by (intro mult_right_mono effective_mono) auto
qed

lemma map_over_nth: "map (\<lambda>i. f (xs ! i)) [0..<length xs] = map f xs"
  by (rule nth_equalityI) simp_all

lemma pure_score_bounds:
  assumes "composite_wf a" and "p \<in> set (cx_participants a)"
  shows "0 \<le> pure_score Min_max (cx_scoringFields a) (cx_participants a) p
    \<and> pure_score Min_max (cx_scoringFields a) (cx_participants a) p \<le> COMPOSITE_NORMALIZATION_SCALE * COMPOSITE_WEIGHT_SCALE"
proof -
  let ?specs = "cx_scoringFields a" and ?ps = "cx_participants a"
  have e: "0 \<le> effective Min_max (cp_fieldValues p ! i) (field_range ?ps i)"
    "effective Min_max (cp_fieldValues p ! i) (field_range ?ps i) \<le> COMPOSITE_NORMALIZATION_SCALE" for i
    using effective_bounds field_range_bounds [OF assms(2), of i] by blast+
  have w: "0 \<le> fs_weightPpm (?specs ! i)" if "i < length ?specs" for i
    using assms(1) nth_mem [OF that] by (auto simp: composite_wf_def)
  have "pure_score Min_max ?specs ?ps p \<le> (\<Sum>i \<leftarrow> [0..<length ?specs]. COMPOSITE_NORMALIZATION_SCALE * fs_weightPpm (?specs ! i))"
    unfolding pure_score_def by (rule sum_list_mono) (use e w in \<open>auto intro: mult_right_mono\<close>)
  also have "\<dots> = COMPOSITE_NORMALIZATION_SCALE * (\<Sum>f \<leftarrow> ?specs. fs_weightPpm f)"
    by (simp add: sum_list_const_mult map_over_nth [of fs_weightPpm])
  finally show ?thesis
    using assms(1) e w by (auto simp: composite_wf_def pure_score_def intro!: sum_list_nonneg)
qed

definition affine_values :: "(nat \<Rightarrow> int) \<Rightarrow> (nat \<Rightarrow> int) \<Rightarrow> composite_participant \<Rightarrow> composite_participant" where
  "affine_values k t p = p\<lparr>cp_fieldValues := map (\<lambda>i. k i * cp_fieldValues p ! i + t i) [0..<length (cp_fieldValues p)]\<rparr>"

lemma foldl_min_affine: "0 < (k :: int) \<Longrightarrow> foldl min (k * a + t) (map (\<lambda>v. k * v + t) vs) = k * foldl min a vs + t"
  by (induction vs arbitrary: a) (simp_all add: min_def)

lemma foldl_max_affine: "0 < (k :: int) \<Longrightarrow> foldl max (k * a + t) (map (\<lambda>v. k * v + t) vs) = k * foldl max a vs + t"
  by (induction vs arbitrary: a) (simp_all add: max_def)

lemma field_range_affine:
  assumes "ps \<noteq> []" and "\<forall>p \<in> set ps. i < length (cp_fieldValues p)" and "0 < k i"
  shows "field_range (map (affine_values k t) ps) i
    = (k i * fst (field_range ps i) + t i, k i * snd (field_range ps i) + t i)"
proof -
  have "map (\<lambda>p. cp_fieldValues p ! i) (map (affine_values k t) ps) = map (\<lambda>v. k i * v + t i) (map (\<lambda>p. cp_fieldValues p ! i) ps)"
    using assms(2) by (simp add: affine_values_def)
  moreover have "cp_fieldValues (hd (map (affine_values k t) ps)) ! i = k i * (cp_fieldValues (hd ps) ! i) + t i"
    using assms(1,2) by (cases ps) (simp_all add: affine_values_def)
  ultimately show ?thesis
    by (simp only: field_range_def range_step_fold foldl_min_affine [OF assms(3)] foldl_max_affine [OF assms(3)] fst_conv snd_conv)
qed

lemma effective_affine:
  assumes "0 < (k :: int)"
  shows "effective Min_max (k * v + t) (k * a + t, k * b + t) = effective Min_max v (a, b)"
proof -
  have "(k * v + t - (k * a + t)) * COMPOSITE_NORMALIZATION_SCALE div (k * b + t - (k * a + t))
      = k * ((v - a) * COMPOSITE_NORMALIZATION_SCALE) div (k * (b - a))"
    by (simp add: right_diff_distrib left_diff_distrib mult.assoc)
  also have "\<dots> = (v - a) * COMPOSITE_NORMALIZATION_SCALE div (b - a)" using assms by simp
  finally show ?thesis using assms by (simp add: effective_def)
qed

lemma pure_score_affine:
  assumes "ps \<noteq> []" and "\<forall>p \<in> set ps. length (cp_fieldValues p) = length specs" and "\<forall>i < length specs. 0 < k i" and "p \<in> set ps"
  shows "pure_score Min_max specs (map (affine_values k t) ps) (affine_values k t p) = pure_score Min_max specs ps p"
  unfolding pure_score_def
proof (rule arg_cong [where f = sum_list], rule map_cong)
  fix i assume "i \<in> set [0..<length specs]"
  then have i: "i < length specs" by simp
  have "effective Min_max (cp_fieldValues (affine_values k t p) ! i) (field_range (map (affine_values k t) ps) i)
      = effective Min_max (k i * cp_fieldValues p ! i + t i) (k i * fst (field_range ps i) + t i, k i * snd (field_range ps i) + t i)"
    using assms i by (simp add: field_range_affine) (simp add: affine_values_def)
  also have "\<dots> = effective Min_max (cp_fieldValues p ! i) (field_range ps i)"
    using effective_affine [of "k i"] assms(3) i by simp
  finally show "effective Min_max (cp_fieldValues (affine_values k t p) ! i) (field_range (map (affine_values k t) ps) i) * fs_weightPpm (specs ! i)
    = effective Min_max (cp_fieldValues p ! i) (field_range ps i) * fs_weightPpm (specs ! i)" by simp
qed simp

section \<open>The order of the participants\<close>

lemma replay_D:
  assumes "parseCompositeRankDescArtifact blob = Inr a"
  defines "score \<equiv> pure_score (cx_normalizationMode a) (cx_scoringFields a) (cx_participants a)"
  shows "replayCompositeRankDescArtifact blob = Inr \<lparr>cr_ordered_ids = map cp_id (js_sort (compare_scores score) (cx_participants a)),
    cr_winner_ids = map cp_id (take (nat (cx_winnersCount a)) (js_sort (compare_scores score) (cx_participants a))),
    cr_winners_count = cx_winnersCount a,
    cr_total_output_lamports = dec_string (cx_payoutLamports a * cx_winnersCount a),
    cr_participant_replay = map (entry_of (cx_normalizationMode a) (cx_scoringFields a) (cx_participants a)) (cx_participants a)\<rparr>"
  using parse_composite_wf [OF assms(1)] replay_parsed_ok [of a] assms(1)
  by (simp add: replayCompositeRankDescArtifact_def composite_wf_def score_def)

lemma sorted_before:
  assumes "x \<in> set xs" and "y \<in> set xs" and "compare_scores score x y < 0"
  shows "\<exists>i j. i < j \<and> j < length xs \<and> js_sort (compare_scores score) xs ! i = x \<and> js_sort (compare_scores score) xs ! j = y"
proof -
  let ?s = "js_sort (compare_scores score) xs"
  obtain i j where i: "i < length ?s" "?s ! i = x" and j: "j < length ?s" "?s ! j = y"
    using assms(1,2) by (metis in_set_conv_nth set_js_sort)
  have "\<not> j \<le> i"
  proof
    assume "j \<le> i"
    then have "compare_scores score (?s ! j) (?s ! i) \<le> 0"
      by (rule scores.sorted_nth_le) (use i in simp)
    then have "compare_scores score y x \<le> 0" using i j by simp
    then show False using assms(3) by (auto simp: compare_scores_def split: if_splits)
  qed
  with i j show ?thesis by (intro exI [of _ i] exI [of _ j]) simp
qed

end
