(* ===== verification/Compiled_Agree.thy ===== *)
theory Compiled_Agree
  imports Compiled_Codec Composite_Replay
begin

text \<open>
  The repository reads a compact artifact and a composite artifact in two places: in the files that define
  the formats (\<^verbatim>\<open>sdk/snapshot.ts\<close>, \<^verbatim>\<open>sdk/composite_rank_desc.ts\<close>) and in the verifier (\<^verbatim>\<open>sdk/verify.ts\<close>). The two parsers
  accept the same compact artifacts and read the same contents, and a replay by the verifier selects the
  winners, lamports and effects digest of the claim made by the other code.
\<close>

section \<open>Two loops in step\<close>

lemma forR_sim:
  assumes "forR n i body s buf off = Inr (t, off')" and "R i s u"
    and "\<And>k s u o1 s' o2. R k s u \<Longrightarrow> body k s buf o1 = Inr (s', o2) \<Longrightarrow> \<exists>u'. body' k u buf o1 = Inr (u', o2) \<and> R (Suc k) s' u'"
  shows "\<exists>t'. forR n i body' u buf off = Inr (t', off') \<and> R (i + n) t t'"
  using assms(1,2)
proof (induction n arbitrary: i s u off)
  case 0
  then show ?case by (simp add: retR_def)
next
  case (Suc n)
  from Suc.prems(1) obtain s1 o1 where b: "body i s buf off = Inr (s1, o1)"
    and rest: "forR n (Suc i) body s1 buf o1 = Inr (t, off')"
    by (auto simp: bindR_Inr_iff)
  from assms(3) [OF Suc.prems(2) b] obtain u1 where u1: "body' i u buf off = Inr (u1, o1)" "R (Suc i) s1 u1" by blast
  from Suc.IH [OF rest u1(2)] u1(1) show ?case by (auto simp: bindR_def)
qed

section \<open>One entry\<close>

definition parsed_entry :: "int \<Rightarrow> participant \<Rightarrow> parsed_outcome" where
  "parsed_entry payoutLamports e =
     \<lparr>po_idLen = int (length (p_id e)), po_id = ascii_bytes (p_id e) @ zeros (64 - length (p_id e)),
      po_weight = p_weight e, po_score = p_score e, po_order = p_order e, po_firstEffectIndex = 0,
      po_effectCount = (if payoutLamports = 0 then 0 else 1)\<rparr>"

definition entry_rel :: "nat \<Rightarrow> int \<Rightarrow> nat \<Rightarrow> v5_state \<Rightarrow> compiled_v5_state \<Rightarrow> bool" where
  "entry_rel n payout k st u \<longleftrightarrow>
     (case st of (previous, seen, es) \<Rightarrow>
      u = (flags_of n seen, previous, sum_list (map p_weight es), map (parsed_entry payout) es)
      \<and> v5_inv k st \<and> (\<forall>i \<in> set seen. 0 \<le> i \<and> i < int n) \<and> distinct seen \<and> length seen = k)"

lemma read_of_readBytes: "readBytes e len buf off = Inr (b, off') \<Longrightarrow> readBytesClamped len buf off = Inr (b, off')"
  by (auto simp: readBytes_def readBytesClamped_def throwIf_def split: if_splits)

lemma readBytes_of_read:
  "readBytesClamped len buf off = Inr (b, off') \<Longrightarrow> off' \<le> length buf \<Longrightarrow> readBytes e len buf off = Inr (b, off')"
  by (auto simp: readBytes_def readBytesClamped_def throwIf_def subarray_def)

lemma padded_id_split:
  assumes "length b = 64" and "\<not> (idLen < 1 \<or> int MAX_OUTCOME_ID_BYTES < idLen)"
    and "\<not> drop (nat idLen) b \<noteq> zeros (MAX_OUTCOME_ID_BYTES - nat idLen)" and "list_all printable_byte (take (nat idLen) b)"
  shows "b = ascii_bytes (ascii_string (take (nat idLen) b)) @ zeros (64 - length (take (nat idLen) b))"
    and "idLen = int (length (take (nat idLen) b))"
proof -
  have le: "min 64 (nat idLen) = nat idLen" using assms(2) by (auto simp: MAX_OUTCOME_ID_BYTES_def min_def)
  have "b = take (nat idLen) b @ drop (nat idLen) b" by simp
  also have "drop (nat idLen) b = zeros (64 - nat idLen)" using assms(3) by (simp add: MAX_OUTCOME_ID_BYTES_def)
  finally show "b = ascii_bytes (ascii_string (take (nat idLen) b)) @ zeros (64 - length (take (nat idLen) b))"
    unfolding printable_string(2) [OF assms(4)] length_take assms(1) le .
  show "idLen = int (length (take (nat idLen) b))"
    using assms(1,2) by (auto simp: MAX_OUTCOME_ID_BYTES_def min_def)
qed

lemma entry_forward:
  assumes rel: "entry_rel n payout k st u" and read: "v5_entryR (int n) st buf off = Inr (st', off')"
  shows "\<exists>u'. compiled_v5_entryR (int n) payout u buf off = Inr (u', off') \<and> entry_rel n payout (Suc k) st' u'"
proof -
  obtain prev seen es where st: "st = (prev, seen, es)" by (cases st)
  from read obtain weight score order o1 o2 o3 o4 idLen b
    where r1: "readU8 buf off = Inr (idLen, o1)" and idLen: "\<not> (idLen < 1 \<or> int MAX_OUTCOME_ID_BYTES < idLen)"
      and id: "readBytes invalid_length MAX_OUTCOME_ID_BYTES buf o1 = Inr (b, o2)"
      and pr: "list_all printable_byte (take (nat idLen) b)"
      and pad: "\<not> drop (nat idLen) b \<noteq> zeros (MAX_OUTCOME_ID_BYTES - nat idLen)"
      and less: "\<not> (\<exists>p. prev = Some p \<and> 0 \<le> buffer_compare p (take (nat idLen) b))"
      and weight: "readU32LE buf o2 = Inr (weight, o3)" "\<not> weight \<le> 0"
      and score: "readI64LE buf o3 = Inr (score, o4)" and order: "readU16LE buf o4 = Inr (order, off')"
      and new: "\<not> (int n \<le> order \<or> order \<in> set seen)"
      and st': "st' = (Some (take (nat idLen) b), order # seen,
            es @ [\<lparr>p_id = ascii_string (take (nat idLen) b), p_order = order, p_weight = weight, p_score = score\<rparr>])"
    unfolding v5_entryR_def st prod.case Let_def by (elim result_elims) (simp; blast)
  have len: "length b = 64" using readBytes_length [OF id] by (simp add: MAX_OUTCOME_ID_BYTES_def)
  note split = padded_id_split [OF len idLen pad pr]
  have ord: "0 \<le> order" "order < int n" using readU16LE_bounds [OF order] new by auto
  from rel have u: "u = (flags_of n seen, prev, sum_list (map p_weight es), map (parsed_entry payout) es)"
    and inv: "v5_inv k st" and seen: "\<forall>i \<in> set seen. 0 \<le> i \<and> i < int n" "distinct seen" "length seen = k"
    by (auto simp: entry_rel_def st)
  have idR: "outcome_idR e1 e2 e3 e4 prev buf off = Inr ((idLen, b, take (nat idLen) b), o2)" for e1 e2 e3 e4
    unfolding outcome_idR_def Let_def
    using r1 idLen read_of_readBytes [OF id] pr pad less
    by (simp add: bindR_step throwIfR_def throwIf_def retR_def del: list_all_set)
  have fresh: "\<not> (int n \<le> order \<or> flags_of n seen ! nat order)" using ord new by simp
  define e where "e = \<lparr>p_id = ascii_string (take (nat idLen) b), p_order = order, p_weight = weight, p_score = score\<rparr>"
  have pe: "parsed_entry payout e = \<lparr>po_idLen = idLen, po_id = b, po_weight = weight, po_score = score, po_order = order,
       po_firstEffectIndex = 0, po_effectCount = (if payout = 0 then 0 else 1)\<rparr>"
    using split by (simp add: parsed_entry_def e_def)
  have "compiled_v5_entryR (int n) payout u buf off
      = Inr ((flags_of n (order # seen), Some (take (nat idLen) b), sum_list (map p_weight es) + weight,
          map (parsed_entry payout) es @ [parsed_entry payout e]), off')"
    unfolding compiled_v5_entryR_def u prod.case pe
    using fresh weight(2) idR weight(1) score order
    by (simp add: bindR_step throwIfR_def retR_def mark_flags_of [OF ord])
  moreover have "v5_inv (Suc k) st'" by (rule v5_entryR_inv [OF inv read])
  ultimately show ?thesis
    using seen ord new st' by (auto simp: entry_rel_def e_def)
qed

lemma entry_backward:
  assumes rel: "entry_rel n payout k st u" and read: "compiled_v5_entryR (int n) payout u buf off = Inr (u', off')"
  shows "\<exists>st'. v5_entryR (int n) st buf off = Inr (st', off')"
proof -
  obtain prev seen es where st: "st = (prev, seen, es)" by (cases st)
  from rel have u: "u = (flags_of n seen, prev, sum_list (map p_weight es), map (parsed_entry payout) es)"
    by (auto simp: entry_rel_def st)
  from read obtain x weight score order o2 o3 o4
    where idR: "outcome_idR (Error ''Invalid v5 id length'') (Error ''v5 id must be printable ASCII'')
         (Error ''v5 id padding must be zero'') (Error ''v5 ids must be strictly sorted'') prev buf off = Inr (x, o2)"
      and weight: "readU32LE buf o2 = Inr (weight, o3)" "\<not> weight \<le> 0"
      and score: "readI64LE buf o3 = Inr (score, o4)" and order: "readU16LE buf o4 = Inr (order, off')"
      and new: "\<not> (int n \<le> order \<or> flags_of n seen ! nat order)"
    unfolding compiled_v5_entryR_def u prod.case case_prod_unfold by (elim result_elims) (simp; blast)
  from idR obtain idLen b o1 where r1: "readU8 buf off = Inr (idLen, o1)"
      and idLen: "\<not> (idLen < 1 \<or> int MAX_OUTCOME_ID_BYTES < idLen)"
      and id: "readBytesClamped MAX_OUTCOME_ID_BYTES buf o1 = Inr (b, o2)"
      and pr: "list_all printable_byte (take (nat idLen) b)"
      and pad: "\<not> drop (nat idLen) b \<noteq> zeros (MAX_OUTCOME_ID_BYTES - nat idLen)"
      and less: "\<not> (\<exists>p. prev = Some p \<and> 0 \<le> buffer_compare p (take (nat idLen) b))"
    unfolding outcome_idR_def Let_def by (elim result_elims) (simp; blast)
  have "o2 \<le> length buf" using weight(1) by (auto simp: read_defs read_uint_Inr_iff)
  note id' = readBytes_of_read [OF id this]
  have "order \<notin> set seen" "\<not> int n \<le> order" using readU16LE_bounds [OF order] new by auto
  then show ?thesis
    unfolding v5_entryR_def st prod.case Let_def
    using r1 idLen id' pr pad less weight score order
    by (simp add: bindR_step throwIfR_def throwIf_def retR_def del: list_all_set)
qed

section \<open>The whole compact artifact\<close>

definition named_formula :: "int \<Rightarrow> runtime_formula" where
  "named_formula code = (case formulaCodeToName code of Inr f \<Rightarrow> Named f | Inl _ \<Rightarrow> Composite_rank_desc)"

definition compiled_of_v5 :: "nat \<Rightarrow> compact_artifact \<Rightarrow> parsed_artifact" where
  "compiled_of_v5 blobLength a =
     \<lparr>pa_formatVersion = FORMAT_VERSION_V5, pa_winnersCount = ca_winnersCount a,
      pa_minInputLamports = ca_minInputLamports a, pa_maxInputLamports = ca_maxInputLamports a,
      pa_formulaCode = ca_formulaCode a, pa_formulaName = named_formula (ca_formulaCode a),
      pa_targetScore = ca_targetScore a, pa_payoutLamports = ca_payoutLamports a,
      pa_entryCount = Some (ca_entryCount a), pa_standardVersion = True, pa_totalEffectCount = 0,
      pa_outcomes = map (parsed_entry (ca_payoutLamports a)) (ca_entries a), pa_effects = [],
      pa_effectsOffset = blobLength\<rparr>"

lemma runtimeFormulaName_valid: "valid_formula_code code \<Longrightarrow> runtimeFormulaName code = Inr (named_formula code)"
  by (auto simp: valid_formula_code_def runtimeFormulaName_def named_formula_def formulaCodeToName_def)

lemma entry_rel_start: "entry_rel n payout 0 (None, [], []) (replicate n False, None, 0, [])"
  by (simp add: entry_rel_def flags_of_Nil v5_inv_def strictly_sorted_ids_def)

lemma entry_rel_end:
  assumes "entry_rel n payout n st u" and "0 < n"
  shows "\<exists>previous seen es. st = (previous, seen, es) \<and> u = (flags_of n seen, previous, sum_list (map p_weight es), map (parsed_entry payout) es)
    \<and> 0 < sum_list (map p_weight es) \<and> list_all (\<lambda>b. b) (flags_of n seen)"
proof -
  obtain previous seen es where st: "st = (previous, seen, es)" by (cases st)
  with assms have es: "length es = n" "\<forall>e \<in> set es. entry_ok e"
    and seen: "\<forall>i \<in> set seen. 0 \<le> i \<and> i < int n" "distinct seen" "length seen = n"
    by (auto simp: entry_rel_def v5_inv_def)
  have "0 < sum_list (map p_weight es)"
    using es assms(2) sum_list_nonneg [of "map p_weight (tl es)"] by (cases es) (fastforce simp: entry_ok_def)+
  moreover have "list_all (\<lambda>b. b) (flags_of n seen)" by (rule flags_of_all [OF seen(2,3,1)])
  ultimately show ?thesis using assms(1) st by (auto simp: entry_rel_def)
qed

lemma entries_forward:
  assumes "forR n 0 (\<lambda>_. v5_entryR (int n)) (None, [], []) buf off = Inr (st, off')"
  shows "\<exists>u. forR n 0 (\<lambda>_. compiled_v5_entryR (int n) payout) (replicate n False, None, 0, []) buf off = Inr (u, off')
    \<and> entry_rel n payout n st u"
  using forR_sim [where R = "entry_rel n payout" and body' = "\<lambda>_. compiled_v5_entryR (int n) payout",
    OF assms entry_rel_start entry_forward] by simp

lemma entries_backward:
  assumes "forR n 0 (\<lambda>_. compiled_v5_entryR (int n) payout) (replicate n False, None, 0, []) buf off = Inr (u, off')"
  shows "\<exists>st. forR n 0 (\<lambda>_. v5_entryR (int n)) (None, [], []) buf off = Inr (st, off') \<and> entry_rel n payout n st u"
proof -
  have "\<exists>st'. v5_entryR (int n) st buf o1 = Inr (st', o2) \<and> entry_rel n payout (Suc k) st' u'"
    if "entry_rel n payout k st u0" "compiled_v5_entryR (int n) payout u0 buf o1 = Inr (u', o2)" for k st u0 o1 u' o2
  proof -
    from entry_backward [OF that] obtain st' where st': "v5_entryR (int n) st buf o1 = Inr (st', o2)" by blast
    from entry_forward [OF that(1) st'] that(2) show ?thesis using st' by auto
  qed
  from forR_sim [where R = "\<lambda>k u st. entry_rel n payout k st u" and body' = "\<lambda>_. v5_entryR (int n)",
      OF assms entry_rel_start this]
  show ?thesis by simp
qed

lemma v5_forward:
  assumes "parseArtifactV5 blob = Inr a"
  shows "parseCompiledArtifact blob = Inr (compiled_of_v5 (length blob) a)"
proof -
  from assms obtain o1 o2 o3 o4 o5 o6 o7 o8 o9 o10 st
    where len: "\<not> (length blob < 48 \<or> length blob > MAX_COMPILED_ARTIFACT_BYTES)" and magic: "magic_ok blob"
      and version: "readU16LE blob 4 = Inr (FORMAT_VERSION_V5, o1)"
      and mn: "readU64LE blob o1 = Inr (ca_minInputLamports a, o2)"
      and mx: "readU64LE blob o2 = Inr (ca_maxInputLamports a, o3)"
      and bounds: "\<not> ca_maxInputLamports a < ca_minInputLamports a"
      and winners: "readU16LE blob o3 = Inr (ca_winnersCount a, o4)"
      and code: "readU8 blob o4 = Inr (ca_formulaCode a, o5)" "valid_formula_code (ca_formulaCode a)"
      and reserved: "readBytes invalid_length 5 blob o5 = Inr (zeros 5, o6)"
      and target: "readI64LE blob o6 = Inr (ca_targetScore a, o7)"
      and n: "readU16LE blob o7 = Inr (ca_entryCount a, o8)"
      and payout: "readU64LE blob o8 = Inr (ca_payoutLamports a, o9)"
      and size': "\<not> (ca_entryCount a < 1 \<or> 48 + nat (ca_entryCount a) * V5_ENTRY_BYTES \<noteq> length blob)"
      and w: "\<not> (ca_winnersCount a < 1 \<or> ca_entryCount a < ca_winnersCount a \<or> MAX_WINNERS < ca_winnersCount a)"
      and loop: "forR (nat (ca_entryCount a)) 0 (\<lambda>_. v5_entryR (ca_entryCount a)) (None, [], []) blob o9 = Inr (st, o10)"
      and end': "o10 = length blob" and entries: "ca_entries a = snd (snd st)"
    unfolding parseArtifactV5_def artifactV5R_def
    by (elim result_elims) (simp; blast)
  obtain m where m: "ca_entryCount a = int m" using readU16LE_bounds [OF n] nonneg_int_cases by blast
  then have m0: "0 < m" using size' by simp
  from entries_forward [of m blob o9 st o10 "ca_payoutLamports a"] loop obtain u
    where u: "forR m 0 (\<lambda>_. compiled_v5_entryR (int m) (ca_payoutLamports a)) (replicate m False, None, 0, []) blob o9 = Inr (u, o10)"
      "entry_rel m (ca_payoutLamports a) m st u"
    by (auto simp: m)
  from entry_rel_end [OF u(2) m0] obtain previous seen es where st: "st = (previous, seen, es)"
    and u': "u = (flags_of m seen, previous, sum_list (map p_weight es), map (parsed_entry (ca_payoutLamports a)) es)"
    and fin: "\<not> (sum_list (map p_weight es) \<le> 0 \<or> \<not> list_all (\<lambda>b. b) (flags_of m seen))" by auto
  have "compiledV5R (length blob) blob o1 = Inr (compiled_of_v5 (length blob) a, length blob)"
    unfolding compiledV5R_def
    using mn mx bounds winners code read_of_readBytes [OF reserved] target n payout size' w u(1) fin
    by (simp add: bindR_step throwIfR_def throwIf_def m u' end' offsetR_apply runtimeFormulaName_valid liftR_def retR_def
        compiled_of_v5_def entries st del: list_all_set)
  moreover have "FORMAT_VERSION_V5 \<noteq> FORMAT_VERSION_COMPOSITE_RANK_DESC" by (simp add: format_defs composite_defs)
  ultimately show ?thesis
    using len magic version
    by (auto simp: parseCompiledArtifact_def runR_def compiledR_def bindR_step throwIf_def)
qed

lemma v5_backward:
  assumes "parseCompiledArtifact blob = Inr p" and "pa_formatVersion p = FORMAT_VERSION_V5"
  shows "is_ok (parseArtifactV5 blob)"
proof -
  note versions = format_defs composite_defs w3_defs
  from assms(1) obtain version o1 off' where len: "length blob \<le> MAX_COMPILED_ARTIFACT_BYTES" and magic: "magic_ok blob"
    and version: "readU16LE blob 4 = Inr (version, o1)"
    and body: "(if version = FORMAT_VERSION_COMPOSITE_RANK_DESC then liftR (parseCompiledComposite blob)
     else if version = FORMAT_VERSION_V5 then compiledV5R (length blob)
     else throwIfR (version \<noteq> FORMAT_VERSION_V1 \<and> version \<noteq> FORMAT_VERSION_V2 \<and> version \<noteq> FORMAT_VERSION_V3)
       (Error ''Unsupported format version'') (compiledW3R version (length blob))) blob o1 = Inr (p, off')"
    unfolding parseCompiledArtifact_def compiledR_def by (elim result_elims) (simp; blast)
  have not8: "version \<noteq> FORMAT_VERSION_COMPOSITE_RANK_DESC"
    using body assms(2) by (auto simp: liftR_Inr_iff parseCompiledComposite_def bindE_Inr_iff versions)
  have v5: "version = FORMAT_VERSION_V5"
  proof (rule ccontr)
    assume "version \<noteq> FORMAT_VERSION_V5"
    with body not8 have "compiledW3R version (length blob) blob o1 = Inr (p, off')" by (simp add: throwIfR_Inr_iff)
    then have "pa_formatVersion p = version"
      unfolding compiledW3R_def case_prod_unfold by (elim result_elims) simp
    with assms(2) \<open>version \<noteq> FORMAT_VERSION_V5\<close> show False by simp
  qed
  with body not8 have "compiledV5R (length blob) blob o1 = Inr (p, off')" by simp
  then obtain minI maxI winners code target count payout reserved o2 o3 o4 o5 o6 o7 o8 o9 o10 u
    where mn: "readU64LE blob o1 = Inr (minI, o2)"
      and mx: "readU64LE blob o2 = Inr (maxI, o3)" and bounds: "\<not> maxI < minI"
      and winners: "readU16LE blob o3 = Inr (winners, o4)"
      and code: "readU8 blob o4 = Inr (code, o5)" "valid_formula_code code"
      and reserved: "readBytesClamped 5 blob o5 = Inr (reserved, o6)" "\<not> reserved \<noteq> zeros 5"
      and target: "readI64LE blob o6 = Inr (target, o7)"
      and n: "readU16LE blob o7 = Inr (count, o8)"
      and payout: "readU64LE blob o8 = Inr (payout, o9)"
      and size': "\<not> (count < 1 \<or> 48 + nat count * V5_ENTRY_BYTES \<noteq> length blob)"
      and w: "\<not> (winners < 1 \<or> count < winners \<or> MAX_WINNERS < winners)"
      and loop: "forR (nat count) 0 (\<lambda>_. compiled_v5_entryR count payout) (replicate (nat count) False, None, 0, []) blob o9 = Inr (u, o10)"
      and end': "o10 = length blob"
    unfolding compiledV5R_def case_prod_unfold by (elim result_elims) (simp; blast)
  obtain m where m: "count = int m" using readU16LE_bounds [OF n] nonneg_int_cases by blast
  from entries_backward [of m payout blob o9 u o10] loop obtain st
    where st: "forR m 0 (\<lambda>_. v5_entryR (int m)) (None, [], []) blob o9 = Inr (st, o10)" by (auto simp: m)
  have "o6 \<le> length blob" using target by (auto simp: readI64LE_def bindR_Inr_iff read_uint_Inr_iff)
  note reserved' = readBytes_of_read [OF reserved(1) this]
  have "48 \<le> length blob" using size' by simp
  then show ?thesis
    unfolding parseArtifactV5_def runR_def artifactV5R_def
    using len magic version [unfolded v5] mn mx bounds winners code reserved' reserved(2) target n payout size' w st
    by (simp add: bindR_step throwIfR_def throwIf_def m end' offsetR_apply retR_def del: list_all_set)
qed

lemma v5_parsers:
  "parseCompiledArtifact blob = Inr p \<and> pa_formatVersion p = FORMAT_VERSION_V5
    \<longleftrightarrow> (\<exists>a. parseArtifactV5 blob = Inr a \<and> p = compiled_of_v5 (length blob) a)"
proof
  assume p: "parseCompiledArtifact blob = Inr p \<and> pa_formatVersion p = FORMAT_VERSION_V5"
  then obtain a where a: "parseArtifactV5 blob = Inr a" using v5_backward by (auto simp: is_ok_iff)
  with v5_forward [OF a] p show "\<exists>a. parseArtifactV5 blob = Inr a \<and> p = compiled_of_v5 (length blob) a" by auto
next
  assume "\<exists>a. parseArtifactV5 blob = Inr a \<and> p = compiled_of_v5 (length blob) a"
  then show "parseCompiledArtifact blob = Inr p \<and> pa_formatVersion p = FORMAT_VERSION_V5"
    using v5_forward by (auto simp: compiled_of_v5_def)
qed

end
