(* ===== verification/Composite_Codec.thy ===== *)
theory Composite_Codec
  imports Composite_Replay
begin

text \<open>
  The round trip of the composite artifact: what the validation of a configuration guarantees, the bytes
  the builder writes, and the parser reading them back. A sample artifact gives the witnesses.
\<close>

definition field_spec_ok :: "field_spec \<Rightarrow> bool" where
  "field_spec_ok f \<longleftrightarrow> field_key_ok (fs_key f) \<and> 0 < fs_weightPpm f \<and> fs_weightPpm f \<le> MAX_U32"

definition participant_fits :: "nat \<Rightarrow> composite_participant \<Rightarrow> bool" where
  "participant_fits n p \<longleftrightarrow> outcome_id_ok (cp_id p) \<and> 0 \<le> cp_order p \<and> cp_order p \<le> 65535
     \<and> length (cp_fieldValues p) = n \<and> (\<forall>v \<in> set (cp_fieldValues p). MIN_I64 \<le> v \<and> v \<le> MAX_I64)"

definition sorted_composite_ids :: "composite_participant list \<Rightarrow> bool" where
  "sorted_composite_ids ps \<longleftrightarrow> sorted_wrt (\<lambda>l r. compareId (cp_id l) (cp_id r) < 0) ps"

definition composite_ok :: "composite_config \<Rightarrow> bool" where
  "composite_ok c \<longleftrightarrow>
     co_fields c \<noteq> [] \<and> length (co_fields c) \<le> 16 \<and> (\<forall>f \<in> set (co_fields c). field_spec_ok f) \<and>
     distinct (map fs_key (co_fields c)) \<and> (\<Sum>f \<leftarrow> co_fields c. fs_weightPpm f) = COMPOSITE_WEIGHT_SCALE \<and>
     co_participants c \<noteq> [] \<and> (\<forall>p \<in> set (co_participants c). participant_fits (length (co_fields c)) p) \<and>
     distinct (map cp_order (co_participants c)) \<and> sorted_composite_ids (co_participants c) \<and>
     0 < co_input c \<and> co_input c \<le> MAX_U64 \<and> 0 \<le> co_payout c \<and> co_payout c \<le> MAX_U64 \<and>
     0 < co_winners c \<and> co_winners c \<le> int (length (co_participants c)) \<and> co_winners c \<le> 32 \<and>
     co_mode c \<in> {0, 1} \<and>
     composite_length (length (co_fields c)) (length (co_participants c)) \<le> MAX_COMPOSITE_ARTIFACT_BYTES"

section \<open>What the validation guarantees\<close>

lemma field_key_Inr_iff [result_simps]:
  "field_key v = Inr k \<longleftrightarrow> v = JString k \<and> field_key_ok k \<and> length k \<le> MAX_COMPOSITE_FIELD_KEY_BYTES"
  by (cases v) (auto simp: field_key_def throwIf_Inr_iff bindE_Inr_iff)

lemma field_weight_Inr_iff [result_simps]:
  "field_weight v = Inr n \<longleftrightarrow> v = JNumber (NInt n) \<and> 0 < n \<and> n \<le> MAX_U32"
  by (auto simp: field_weight_def throwIf_Inr_iff split: jsval.splits js_number.splits)

lemma validate_field_inv:
  assumes "foldE validate_field (seen, s, fs) raws = Inr (seen', s', fs')"
    and "set seen = fs_key ` set fs" and "distinct (map fs_key fs)" and "\<forall>f \<in> set fs. field_spec_ok f"
    and "s = (\<Sum>f \<leftarrow> fs. fs_weightPpm f)"
  shows "length fs' = length fs + length raws \<and> distinct (map fs_key fs') \<and> (\<forall>f \<in> set fs'. field_spec_ok f)
    \<and> s' = (\<Sum>f \<leftarrow> fs'. fs_weightPpm f)"
  using assms
proof (induction raws arbitrary: seen s fs)
  case (Cons raw raws)
  from Cons.prems(1) obtain st where step: "validate_field (seen, s, fs) raw = Inr st"
    and rest: "foldE validate_field st raws = Inr (seen', s', fs')"
    by (auto simp: bindE_Inr_iff)
  from step obtain o' key weight
    where key: "field_key_ok key" and weight: "0 < weight" "weight \<le> MAX_U32" and new: "key \<notin> set seen"
      and st: "st = (key # seen, s + weight, fs @ [\<lparr>fs_key = key, fs_weightPpm = weight\<rparr>])"
    by (auto simp: validate_field_def result_simps)
  from Cons.IH [OF rest [unfolded st]] Cons.prems(2-5) key weight new show ?case
    by (auto simp: field_spec_ok_def)
qed simp

lemma parseSignedI64_range: "parseSignedI64 v = Inr n \<Longrightarrow> MIN_I64 \<le> n \<and> n \<le> MAX_I64"
  by (auto simp: parseSignedI64_def in_i64_def throwIf_Inr_iff split: jsval.splits js_number.splits option.splits)

lemma normalize_participant_inv:
  assumes "foldE (normalize_participant keys) (ids, orders, ps) raws = Inr (ids', orders', ps')"
    and "set ids = cp_id ` set ps" and "set orders = cp_order ` set ps" and "distinct (map cp_id ps)" and "distinct (map cp_order ps)"
    and "\<forall>p \<in> set ps. participant_fits (length keys) p"
  shows "length ps' = length ps + length raws \<and> distinct (map cp_id ps') \<and> distinct (map cp_order ps')
    \<and> (\<forall>p \<in> set ps'. participant_fits (length keys) p)"
  using assms
proof (induction raws arbitrary: ids orders ps)
  case (Cons raw raws)
  from Cons.prems(1) obtain st where step: "normalize_participant keys (ids, orders, ps) raw = Inr st"
    and rest: "foldE (normalize_participant keys) st raws = Inr (ids', orders', ps')"
    by (auto simp: bindE_Inr_iff)
  from step obtain o' vs id order vals
    where id: "validateCompositeId (prop_of o' ''id'') = Inr id" and order: "validateCompositeOrder (prop_of o' ''order'') = Inr order"
      and new: "id \<notin> set ids" "order \<notin> set orders"
      and vals: "mapE (\<lambda>k. parseSignedI64 (prop_at vs k)) keys = Inr vals"
      and st: "st = (id # ids, order # orders, ps @ [\<lparr>cp_id = id, cp_order = order, cp_fieldValues = vals\<rparr>])"
    by (auto simp: normalize_participant_def result_simps)
  have "outcome_id_ok id"
    using id by (auto simp: validateCompositeId_def result_simps outcome_id_ok_def MAX_COMPOSITE_PARTICIPANT_ID_BYTES_def
        MAX_OUTCOME_ID_BYTES_def split: jsval.splits)
  moreover have "0 \<le> order \<and> order \<le> 65535"
    using order by (auto simp: validateCompositeOrder_def result_simps split: jsval.splits js_number.splits)
  moreover have "length vals = length keys" using mapE_Inr_length [OF vals] by simp
  moreover have "\<forall>v \<in> set vals. MIN_I64 \<le> v \<and> v \<le> MAX_I64"
    using mapE_Inr_set [OF vals] parseSignedI64_range by blast
  ultimately have "participant_fits (length keys) \<lparr>cp_id = id, cp_order = order, cp_fieldValues = vals\<rparr>"
    by (simp add: participant_fits_def)
  with Cons.IH [OF rest [unfolded st]] Cons.prems(2-6) new show ?case by auto
qed simp

lemma parseLamports_range: "parseLamports v = Inr n \<Longrightarrow> 0 < n \<and> n \<le> MAX_U64"
  by (auto simp: parseLamports_def throwIf_Inr_iff is_safe_integer_def MAX_SAFE_INTEGER_def MAX_U64_def
      split: jsval.splits js_number.splits)

interpretation composite_ids: comparator "\<lambda>l r. compareId (cp_id l) (cp_id r)"
  by unfold_locales (simp_all add: compareId_def bytes.flip bytes.le_trans)

lemma sort_composite_sorted:
  assumes "distinct (map cp_id ps)" and "\<forall>p \<in> set ps. outcome_id_ok (cp_id p)"
  shows "sorted_composite_ids (sort_composite ps)"
proof -
  let ?s = "sort_composite ps"
  have d: "distinct (map cp_id ?s)" and ok: "\<forall>p \<in> set ?s. outcome_id_ok (cp_id p)"
    using assms by (simp_all add: sort_composite_def)
  have "compareId (cp_id (?s ! i)) (cp_id (?s ! j)) < 0" if "i < j" "j < length ?s" for i j
  proof -
    have "compareId (cp_id (?s ! i)) (cp_id (?s ! j)) \<le> 0"
      unfolding sort_composite_def by (rule composite_ids.sorted_nth_le) (use that in \<open>simp_all add: sort_composite_def\<close>)
    moreover have "cp_id (?s ! i) \<noteq> cp_id (?s ! j)"
      using that d nth_eq_iff_index_eq [of "map cp_id ?s" i j] by simp
    ultimately show ?thesis
      using compareId_zero [of "cp_id (?s ! i)" "cp_id (?s ! j)"] ok that nth_mem [of i ?s] nth_mem [of j ?s] by force
  qed
  then show ?thesis by (simp add: sorted_composite_ids_def sorted_wrt_iff_nth_less)
qed

lemma validateFieldSpecs_ok:
  assumes "validateFieldSpecs v = Inr fs"
  shows "fs \<noteq> [] \<and> length fs \<le> 16 \<and> (\<forall>f \<in> set fs. field_spec_ok f) \<and> distinct (map fs_key fs)
    \<and> (\<Sum>f \<leftarrow> fs. fs_weightPpm f) = COMPOSITE_WEIGHT_SCALE"
proof -
  from assms obtain raws seen s where "raws \<noteq> []" "length raws \<le> 16"
    and loop: "foldE validate_field ([], 0, []) raws = Inr (seen, s, fs)" and s: "s = COMPOSITE_WEIGHT_SCALE"
    by (auto simp: validateFieldSpecs_def result_simps MAX_COMPOSITE_FIELDS_def split: jsval.splits)
  with validate_field_inv [OF loop] show ?thesis by (auto simp flip: length_greater_0_conv)
qed

lemma normalizeParticipants_ok:
  assumes "normalizeParticipants v fs = Inr ps"
  shows "ps \<noteq> [] \<and> (\<forall>p \<in> set ps. participant_fits (length fs) p) \<and> distinct (map cp_order ps) \<and> sorted_composite_ids ps"
proof -
  from assms obtain raws ids orders us where "raws \<noteq> []"
    and loop: "foldE (normalize_participant (map fs_key fs)) ([], [], []) raws = Inr (ids, orders, us)" and ps: "ps = sort_composite us"
    by (auto simp: normalizeParticipants_def result_simps Let_def split: jsval.splits)
  have us: "length us = length raws" "distinct (map cp_id us)" "distinct (map cp_order us)"
    "\<forall>p \<in> set us. participant_fits (length fs) p"
    using normalize_participant_inv [OF loop] by simp_all
  have "length ps = length us" by (simp add: ps sort_composite_def)
  then have "ps \<noteq> []" using us(1) \<open>raws \<noteq> []\<close> by (auto simp flip: length_greater_0_conv)
  moreover have "sorted_composite_ids ps"
    unfolding ps by (rule sort_composite_sorted) (use us in \<open>auto simp: participant_fits_def\<close>)
  ultimately show ?thesis using us by (auto simp: ps sort_composite_def)
qed

lemma validateCompositeConfig_ok:
  assumes "validateCompositeConfig config = Inr c"
  shows "composite_ok c"
proof -
  from assms have "validateFieldSpecs (prop_of config ''scoring_fields'') = Inr (co_fields c)
    \<and> normalizeParticipants (prop_of config ''participants'') (co_fields c) = Inr (co_participants c)
    \<and> parseLamports (prop_of config ''input_lamports'') = Inr (co_input c)
    \<and> composite_payout (prop_of config ''payout_lamports'') = Inr (co_payout c)
    \<and> normalizationModeCode (prop_of config ''normalization_mode'') = Inr (co_mode c)
    \<and> \<not> MAX_COMPOSITE_ARTIFACT_BYTES < composite_length (length (co_fields c)) (length (co_participants c))
    \<and> composite_winners (prop_of config ''winners_count'') (length (co_participants c)) = Inr (co_winners c)"
    unfolding validateCompositeConfig_def by (elim result_elims) auto
  then have fs: "validateFieldSpecs (prop_of config ''scoring_fields'') = Inr (co_fields c)"
    and ps: "normalizeParticipants (prop_of config ''participants'') (co_fields c) = Inr (co_participants c)"
    and input: "parseLamports (prop_of config ''input_lamports'') = Inr (co_input c)"
    and payout: "composite_payout (prop_of config ''payout_lamports'') = Inr (co_payout c)"
    and mode: "normalizationModeCode (prop_of config ''normalization_mode'') = Inr (co_mode c)"
    and small: "\<not> MAX_COMPOSITE_ARTIFACT_BYTES < composite_length (length (co_fields c)) (length (co_participants c))"
    and w: "composite_winners (prop_of config ''winners_count'') (length (co_participants c)) = Inr (co_winners c)"
    by blast+
  have "0 \<le> co_payout c \<and> co_payout c \<le> MAX_U64"
    using payout by (auto simp: composite_payout_def MAX_U64_def dest: parseLamports_range split: if_splits)
  moreover have "0 < co_winners c \<and> co_winners c \<le> int (length (co_participants c)) \<and> co_winners c \<le> 32"
    using w by (auto simp: composite_winners_def result_simps MAX_WINNERS_def split: jsval.splits js_number.splits)
  moreover have "co_mode c \<in> {0, 1}" using mode by (auto simp: normalizationModeCode_def split: if_splits)
  ultimately show ?thesis
    using validateFieldSpecs_ok [OF fs] normalizeParticipants_ok [OF ps] parseLamports_range [OF input] small
    by (auto simp: composite_ok_def)
qed

section \<open>The bytes of the artifact\<close>

definition field_bytes :: "field_spec \<Rightarrow> buffer" where
  "field_bytes f = byte_of (int (length (fs_key f))) @ (ascii_bytes (fs_key f) @ zeros (32 - length (fs_key f)))
     @ le_bytes 4 (fs_weightPpm f) @ []"

definition participant_bytes :: "composite_participant \<Rightarrow> buffer" where
  "participant_bytes p = byte_of (int (length (cp_id p))) @ (ascii_bytes (cp_id p) @ zeros (64 - length (cp_id p)))
     @ le_bytes 2 (cp_order p) @ concat (map (le_bytes 8) (cp_fieldValues p)) @ []"

definition composite_bytes :: "composite_config \<Rightarrow> buffer" where
  "composite_bytes c =
     le_bytes 2 8 @ le_bytes 8 (co_input c) @ le_bytes 8 (co_input c) @ le_bytes 2 (co_winners c)
     @ byte_of 6 @ byte_of (co_mode c) @ byte_of (int (length (co_fields c))) @ byte_of 0
     @ le_bytes 4 1000000 @ le_bytes 4 1000000 @ le_bytes 2 (int (length (co_participants c))) @ le_bytes 8 (co_payout c)
     @ concat (map field_bytes (co_fields c)) @ concat (map participant_bytes (co_participants c)) @ []"

lemma lower_letter_printable: "lower_letter c \<Longrightarrow> printable_unit c"
  by (simp add: lower_letter_def printable_unit_def word_le_nat_alt)

lemma is_digit_printable: "is_digit c \<Longrightarrow> printable_unit c"
  by (simp add: is_digit_def printable_unit_def word_le_nat_alt)

lemma field_key_outcome_id:
  assumes "field_key_ok s" shows "outcome_id_ok s \<and> 0 < length s \<and> length s \<le> 32"
proof -
  obtain c cs where s: "s = c # cs" and c: "lower_letter c" and len: "length cs \<le> 31"
    and cs: "list_all (\<lambda>d. lower_letter d \<or> is_digit d \<or> d = 95) cs"
    using assms by (auto simp: field_key_ok_def split: list.splits)
  have "printable_unit d" if "d \<in> set cs" for d
  proof -
    have "lower_letter d \<or> is_digit d \<or> d = 95" using cs that by (auto simp: list_all_iff)
    moreover have "printable_unit 95" by (simp add: printable_unit_def)
    ultimately show ?thesis using lower_letter_printable is_digit_printable by blast
  qed
  then show ?thesis
    using s len lower_letter_printable [OF c]
    by (auto simp: outcome_id_ok_def printable_ascii_def list_all_iff MAX_OUTCOME_ID_BYTES_def)
qed

lemma encode_field_spec_ok: "field_spec_ok f \<Longrightarrow> encode_field_spec f = Inr (field_bytes f)"
  using field_key_outcome_id [of "fs_key f"]
  by (simp add: encode_field_spec_def field_bytes_def field_spec_ok_def padded_def composite_defs MAX_U32_def)

lemma concatE_i64: "\<forall>v \<in> set vs. MIN_I64 \<le> v \<and> v \<le> MAX_I64 \<Longrightarrow> concatE (map i64le vs) = Inr (concat (map (le_bytes 8) vs))"
  by (rule concatE_ok) (auto simp: bound_defs)

lemma encode_composite_participant_ok:
  "participant_fits n p \<Longrightarrow> encode_composite_participant p = Inr (participant_bytes p)"
  by (simp add: encode_composite_participant_def participant_bytes_def participant_fits_def padded_def
      composite_defs concatE_i64 outcome_id_ok_def MAX_OUTCOME_ID_BYTES_def)

lemma length_field_bytes: "field_spec_ok f \<Longrightarrow> length (field_bytes f) = FIELD_SPEC_BYTES"
  using field_key_outcome_id [of "fs_key f"] by (simp add: field_bytes_def field_spec_ok_def composite_defs)

lemma length_participant_bytes: "participant_fits n p \<Longrightarrow> length (participant_bytes p) = participantBytesPerEntry n"
  by (simp add: participant_bytes_def participant_fits_def outcome_id_ok_def MAX_OUTCOME_ID_BYTES_def
      participantBytesPerEntry_def composite_defs length_concat_const [of _ "le_bytes 8" 8])

lemma length_composite_bytes:
  assumes "composite_ok c"
  shows "4 + length (composite_bytes c) = composite_length (length (co_fields c)) (length (co_participants c))"
proof -
  have "length (concat (map field_bytes (co_fields c))) = length (co_fields c) * FIELD_SPEC_BYTES"
    by (rule length_concat_const) (use assms length_field_bytes in \<open>auto simp: composite_ok_def\<close>)
  moreover have "length (concat (map participant_bytes (co_participants c)))
      = length (co_participants c) * participantBytesPerEntry (length (co_fields c))"
    by (rule length_concat_const) (use assms length_participant_bytes in \<open>auto simp: composite_ok_def\<close>)
  ultimately show ?thesis by (simp add: composite_bytes_def composite_length_def HEADER_BYTES_def)
qed

section \<open>The parser reads them back\<close>

definition field_state_at :: "field_spec list \<Rightarrow> nat \<Rightarrow> field_state" where
  "field_state_at fs k = (rev (map fs_key (take k fs)), \<Sum>f \<leftarrow> take k fs. fs_weightPpm f, take k fs)"

lemma field_specR_runs:
  assumes f: "field_spec_ok f" and new: "fs_key f \<notin> set seen"
  shows "runs off (field_specR (seen, s, fs)) (field_bytes f) (fs_key f # seen, s + fs_weightPpm f, fs @ [f])"
proof -
  have id: "outcome_id_ok (fs_key f)" "0 < length (fs_key f)" "length (fs_key f) \<le> 32"
    using f field_key_outcome_id by (auto simp: field_spec_ok_def)
  show ?thesis
    unfolding field_specR_def field_bytes_def Let_def prod.case
    by (rule runs_retR_eq runs_intros
        | (use f id new printable_bytes [OF id(1)] in \<open>simp add: field_spec_ok_def composite_defs MAX_U32_def del: list_all_set; fail\<close>))+
qed

lemma field_specs_run:
  assumes "\<forall>f \<in> set fs. field_spec_ok f" and "distinct (map fs_key fs)"
  shows "runs off (forR (length fs) 0 (\<lambda>_. field_specR) ([], 0, [])) (concat (map field_bytes fs)) (field_state_at fs (length fs))"
proof -
  have "runs o' (field_specR (field_state_at fs k)) (field_bytes (fs ! k)) (field_state_at fs (Suc k))" if k: "k < length fs" for k o'
  proof -
    have "field_spec_ok (fs ! k)" using assms(1) nth_mem [OF k] by blast
    moreover have "fs_key (fs ! k) \<notin> set (map fs_key (take k fs))"
      using assms(2) k by (rule distinct_map_take_nth)
    ultimately have "runs o' (field_specR (rev (map fs_key (take k fs)), \<Sum>f \<leftarrow> take k fs. fs_weightPpm f, take k fs)) (field_bytes (fs ! k))
        (fs_key (fs ! k) # rev (map fs_key (take k fs)), (\<Sum>f \<leftarrow> take k fs. fs_weightPpm f) + fs_weightPpm (fs ! k), take k fs @ [fs ! k])"
      by (intro field_specR_runs) auto
    then show ?thesis using k by (simp add: field_state_at_def take_Suc_conv_app_nth)
  qed
  from runs_forR [where body = "\<lambda>_. field_specR" and st = "field_state_at fs" and enc = field_bytes and xs = fs and i = 0, OF this]
  show ?thesis by (simp add: field_state_at_def)
qed

lemma composite_participantR_runs:
  assumes p: "participant_fits n p" and new: "cp_order p \<notin> set seen"
    and prev: "\<forall>q. previous = Some q \<longrightarrow> buffer_compare q (ascii_bytes (cp_id p)) < 0"
  shows "runs off (composite_participantR n (previous, seen, ps)) (participant_bytes p)
    (Some (ascii_bytes (cp_id p)), cp_order p # seen, ps @ [p])"
proof -
  have id: "outcome_id_ok (cp_id p)" "0 < length (cp_id p)" "length (cp_id p) \<le> 64"
    using p by (auto simp: participant_fits_def outcome_id_ok_def MAX_OUTCOME_ID_BYTES_def)
  have prev': "\<not> (\<exists>q. previous = Some q \<and> 0 \<le> buffer_compare q (ascii_bytes (cp_id p)))" using prev by auto
  have vals: "\<And>x o'. x \<in> set (cp_fieldValues p) \<Longrightarrow> runs o' readI64LE (le_bytes 8 x) x"
    by (rule runs_readI64LE) (use p in \<open>auto simp: participant_fits_def bound_defs\<close>)
  have n: "n = length (cp_fieldValues p)" using p by (simp add: participant_fits_def)
  show ?thesis
    unfolding composite_participantR_def participant_bytes_def Let_def prod.case
    by (rule runs_retR_eq runs_bind_repeatR [OF vals n] runs_intros
        | (use p id new prev' printable_bytes [OF id(1)] in \<open>simp add: participant_fits_def composite_defs del: list_all_set; fail\<close>))+
qed

definition participant_state_at :: "composite_participant list \<Rightarrow> nat \<Rightarrow> composite_state" where
  "participant_state_at ps k =
     (if k = 0 then None else Some (ascii_bytes (cp_id (ps ! (k - 1)))), rev (map cp_order (take k ps)), take k ps)"

lemma composite_participants_run:
  assumes "\<forall>p \<in> set ps. participant_fits n p" and "distinct (map cp_order ps)" and "sorted_composite_ids ps"
  shows "runs off (forR (length ps) 0 (\<lambda>_. composite_participantR n) (None, [], [])) (concat (map participant_bytes ps))
    (participant_state_at ps (length ps))"
proof -
  have "runs o' (composite_participantR n (participant_state_at ps k)) (participant_bytes (ps ! k)) (participant_state_at ps (Suc k))"
    if k: "k < length ps" for k o'
  proof -
    have "participant_fits n (ps ! k)" using assms(1) nth_mem [OF k] by blast
    moreover have "cp_order (ps ! k) \<notin> set (map cp_order (take k ps))" using assms(2) k by (rule distinct_map_take_nth)
    moreover have "buffer_compare (ascii_bytes (cp_id (ps ! (k - 1)))) (ascii_bytes (cp_id (ps ! k))) < 0" if "k \<noteq> 0"
      using assms(3) k that by (auto simp: sorted_composite_ids_def compareId_def sorted_wrt_iff_nth_less)
    ultimately have "runs o' (composite_participantR n (participant_state_at ps k)) (participant_bytes (ps ! k))
        (Some (ascii_bytes (cp_id (ps ! k))), cp_order (ps ! k) # rev (map cp_order (take k ps)), take k ps @ [ps ! k])"
      unfolding participant_state_at_def by (intro composite_participantR_runs) auto
    then show ?thesis using k by (simp add: participant_state_at_def take_Suc_conv_app_nth)
  qed
  from runs_forR [where body = "\<lambda>_. composite_participantR n" and st = "participant_state_at ps" and enc = participant_bytes
      and xs = ps and i = 0, OF this]
  show ?thesis by (simp add: participant_state_at_def)
qed

definition composite_artifact_of :: "composite_config \<Rightarrow> composite_artifact" where
  "composite_artifact_of c =
     \<lparr>cx_normalizationMode = (if co_mode c = 0 then Mode_none else Min_max), cx_minInputLamports = co_input c,
      cx_maxInputLamports = co_input c, cx_winnersCount = co_winners c,
      cx_participantCount = int (length (co_participants c)), cx_payoutLamports = co_payout c,
      cx_weightScale = COMPOSITE_WEIGHT_SCALE, cx_normalizationScale = COMPOSITE_NORMALIZATION_SCALE,
      cx_scoringFields = co_fields c, cx_participants = co_participants c\<rparr>"

lemma composite_small:
  assumes "composite_ok c"
  shows "length (co_participants c) < 65536"
proof -
  have "composite_length (length (co_fields c)) (length (co_participants c)) \<le> 8192"
    using assms by (simp add: composite_ok_def composite_defs)
  moreover have "length (co_participants c) \<le> length (co_participants c) * participantBytesPerEntry (length (co_fields c))"
    by (simp add: participantBytesPerEntry_def)
  ultimately show ?thesis unfolding composite_length_def by linarith
qed

lemma compositeR_runs:
  assumes ok: "composite_ok c"
  shows "runs 4 (compositeR (4 + length (composite_bytes c))) (composite_bytes c) (composite_artifact_of c)"
proof -
  note ok' = ok [unfolded composite_ok_def bound_defs]
  let ?fs = "co_fields c" and ?ps = "co_participants c"
  have fs: "\<And>off. runs off (forR (nat (int (length ?fs))) 0 (\<lambda>_. field_specR) ([], 0, []))
      (concat (map field_bytes ?fs)) (field_state_at ?fs (length ?fs))"
    unfolding nat_int by (rule field_specs_run) (use ok' in blast)+
  have ps: "\<And>off. runs off (forR (nat (int (length ?ps))) 0 (\<lambda>_. composite_participantR (nat (int (length ?fs)))) (None, [], []))
      (concat (map participant_bytes ?ps)) (participant_state_at ?ps (length ?ps))"
    unfolding nat_int by (rule composite_participants_run) (use ok' in blast)+
  have mode: "normalizationModeFromCode (co_mode c) = Inr (if co_mode c = 0 then Mode_none else Min_max)"
    using ok' by (auto simp: normalizationModeFromCode_def)
  have byte: "0 \<le> co_mode c" "co_mode c < 256" using ok' by auto
  have st: "snd (snd (field_state_at ?fs (length ?fs))) = ?fs" "fst (snd (field_state_at ?fs (length ?fs))) = COMPOSITE_WEIGHT_SCALE"
    "snd (snd (participant_state_at ?ps (length ?ps))) = ?ps"
    using ok' by (simp_all add: field_state_at_def participant_state_at_def)
  have small: "length ?ps < 65536" "0 < length ?fs" "0 < length ?ps" "length ?fs \<le> 16"
    using ok' composite_small [OF ok] by auto
  have len: "composite_length (nat (int (length ?fs))) (nat (int (length ?ps))) = 4 + length (composite_bytes c)"
    using length_composite_bytes [OF ok] by simp
  show ?thesis
    unfolding compositeR_def composite_defs composite_artifact_of_def
    unfolding length_composite_bytes [OF ok] unfolding composite_bytes_def
    by (rule fs ps runs_retR_eq runs_intros mode
        | (use ok' small st byte len length_composite_bytes [OF ok] in \<open>simp add: composite_defs bound_defs; fail\<close>))+
qed

lemma composite_build_parse:
  assumes "validateCompositeConfig config = Inr c"
  shows "\<exists>blob. buildCompositeRankDescArtifact config = Inr blob \<and> parseCompositeRankDescArtifact blob = Inr (composite_artifact_of c)
    \<and> length blob = composite_length (length (co_fields c)) (length (co_participants c))"
proof -
  have ok: "composite_ok c" using assms by (rule validateCompositeConfig_ok)
  note ok' = ok [unfolded composite_ok_def bound_defs]
  let ?blob = "W3O1 @ composite_bytes c"
  have fs: "concatE (map encode_field_spec (co_fields c)) = Inr (concat (map field_bytes (co_fields c)))"
    by (rule concatE_ok) (use ok' encode_field_spec_ok in blast)
  have ps: "concatE (map encode_composite_participant (co_participants c)) = Inr (concat (map participant_bytes (co_participants c)))"
    by (rule concatE_ok) (use ok' encode_composite_participant_ok in blast)
  have small: "length (co_participants c) < 65536" using ok by (rule composite_small)
  have build: "buildCompositeRankDescArtifact config = Inr ?blob"
    using ok' fs ps small assms
    by (simp add: buildCompositeRankDescArtifact_def encodeComposite_def concatE_append composite_bytes_def composite_defs W3O1_def)
  have four: "length W3O1 = 4" by (simp add: W3O1_def)
  have len: "length ?blob = 4 + length (composite_bytes c)" by (simp add: four)
  have l: "length ?blob = composite_length (length (co_fields c)) (length (co_participants c))"
    unfolding len by (rule length_composite_bytes [OF ok])
  have "46 \<le> length ?blob" unfolding l by (simp add: composite_length_def HEADER_BYTES_def)
  moreover have "length ?blob \<le> MAX_COMPOSITE_ARTIFACT_BYTES" unfolding l using ok' by blast
  ultimately have "parseCompositeRankDescArtifact ?blob = runR (compositeR (length ?blob)) ?blob 4"
    using magic_ok_W3O1 by (simp add: parseCompositeRankDescArtifact_def HEADER_BYTES_def)
  also have "\<dots> = Inr (composite_artifact_of c)"
    unfolding len by (rule runs_run [OF compositeR_runs [OF ok] four])
  finally show ?thesis using build l by blast
qed

text \<open>Whatever the composite builder returns, the composite parser reads back as the validated scoring
  fields and the participants sorted by identifier, with the mode, winners, payout and limits of the
  configuration, and its size is the one computed from the counts; the builder fails only when the
  validation does.\<close>

theorem composite_artifact_roundtrip:
  assumes "validateCompositeConfig config = Inr c"
  shows "\<exists>blob. buildCompositeRankDescArtifact config = Inr blob \<and> parseCompositeRankDescArtifact blob = Inr (composite_artifact_of c)
    \<and> length blob = composite_length (length (co_fields c)) (length (co_participants c))"
  using assms by (rule composite_build_parse)

section \<open>A sample draw\<close>

definition sample_fields :: "jsval" where
  "sample_fields = JArray
     [JObject [(js ''key'', JString (js ''a'')), (js ''weight_ppm'', JNumber (NInt 600000))],
      JObject [(js ''key'', JString (js ''b'')), (js ''weight_ppm'', JNumber (NInt 400000))]]"

definition sample_participants :: "jsval" where
  "sample_participants = JArray
     [JObject [(js ''id'', JString (js ''y'')), (js ''order'', JNumber (NInt 0)),
        (js ''fields'', JObject [(js ''a'', JNumber (NInt 3)), (js ''b'', JString (js ''-4''))])],
      JObject [(js ''id'', JString (js ''x'')), (js ''order'', JNumber (NInt 1)),
        (js ''fields'', JObject [(js ''b'', JNumber (NInt (-9))), (js ''a'', JBigInt 2)])]]"

definition composite_sample :: "(jsstr \<times> jsval) list" where
  "composite_sample =
     [(js ''formula'', JString (js ''composite_rank_desc'')), (js ''scoring_fields'', sample_fields),
      (js ''participants'', sample_participants), (js ''input_lamports'', JNumber (NInt 5)),
      (js ''normalization_mode'', JString (js ''min_max''))]"

definition sample_specs :: "field_spec list" where
  "sample_specs = [\<lparr>fs_key = js ''a'', fs_weightPpm = 600000\<rparr>, \<lparr>fs_key = js ''b'', fs_weightPpm = 400000\<rparr>]"

definition sample_x :: composite_participant where
  "sample_x = \<lparr>cp_id = js ''x'', cp_order = 1, cp_fieldValues = [2, -9]\<rparr>"

definition sample_y :: composite_participant where
  "sample_y = \<lparr>cp_id = js ''y'', cp_order = 0, cp_fieldValues = [3, -4]\<rparr>"

definition composite_validated :: composite_config where
  "composite_validated = \<lparr>co_fields = sample_specs, co_participants = [sample_x, sample_y], co_input = 5,
     co_payout = 3, co_winners = 1, co_mode = 1\<rparr>"

lemma sample_fields_validate: "validateFieldSpecs sample_fields = Inr sample_specs"
proof -
  have k: "field_key (JString (js ''a'')) = Inr (js ''a'')" "field_key (JString (js ''b'')) = Inr (js ''b'')" "js ''a'' \<noteq> js ''b''"
    by code_simp+
  have p: "js ''key'' \<noteq> js ''weight_ppm''" by (simp add: js_def)
  show ?thesis
    by (simp add: validateFieldSpecs_def sample_fields_def validate_field_def assertObject_def prop_of_def k p k(3) [symmetric]
        p [symmetric] field_weight_def MAX_U32_def composite_defs sample_specs_def)
qed

lemma sample_participants_validate: "normalizeParticipants sample_participants sample_specs = Inr [sample_x, sample_y]"
  unfolding sample_specs_def by code_simp

lemma composite_sample_validates: "validateCompositeConfig composite_sample = Inr composite_validated"
proof -
  have props: "prop_of composite_sample ''formula'' = JString (js ''composite_rank_desc'')"
    "prop_of composite_sample ''scoring_version'' = JUndefined" "prop_of composite_sample ''scoring_fields'' = sample_fields"
    "prop_of composite_sample ''participants'' = sample_participants" "prop_of composite_sample ''input_lamports'' = JNumber (NInt 5)"
    "prop_of composite_sample ''payout_lamports'' = JUndefined" "prop_of composite_sample ''winners_count'' = JUndefined"
    "prop_of composite_sample ''normalization_mode'' = JString (js ''min_max'')"
    by (simp_all add: prop_of_def composite_sample_def js_def)
  have mode: "normalizationModeCode (JString (js ''min_max'')) = Inr 1" by code_simp
  show ?thesis
    unfolding validateCompositeConfig_def props sample_fields_validate
    by (simp add: nullish_or_def sample_participants_validate mode parseLamports_def is_safe_integer_def MAX_SAFE_INTEGER_def
        composite_payout_def composite_winners_def MAX_WINNERS_def composite_validated_def)
      (simp add: composite_length_def composite_defs participantBytesPerEntry_def sample_specs_def)
qed

lemma composite_artifact_roundtrip_witness:
  "\<exists>blob. buildCompositeRankDescArtifact composite_sample = Inr blob
    \<and> parseCompositeRankDescArtifact blob = Inr (composite_artifact_of composite_validated) \<and> length blob = 286"
  using composite_artifact_roundtrip [OF composite_sample_validates]
  by (simp add: composite_validated_def sample_specs_def composite_length_def composite_defs participantBytesPerEntry_def)

lemma composite_sample_blob: "\<exists>blob. parseCompositeRankDescArtifact blob = Inr (composite_artifact_of composite_validated)"
  using composite_build_parse [OF composite_sample_validates] by blast

section \<open>The replay\<close>

text \<open>The replay of every composite artifact that parses returns: the ordered identifiers are the
  participants, the winners are their first ones, as many as promised and all distinct; and under min-max
  normalisation every composite score lies between zero and the product of the two scales.\<close>

theorem composite_replay_total:
  assumes "parseCompositeRankDescArtifact blob = Inr a"
  shows "\<exists>r. replayCompositeRankDescArtifact blob = Inr r
    \<and> mset (cr_ordered_ids r) = mset (map cp_id (cx_participants a)) \<and> distinct (cr_ordered_ids r)
    \<and> cr_winner_ids r = take (nat (cx_winnersCount a)) (cr_ordered_ids r)
    \<and> int (length (cr_winner_ids r)) = cx_winnersCount a
    \<and> (cx_normalizationMode a = Min_max \<longrightarrow>
        (\<forall>e \<in> set (cr_participant_replay r). 0 \<le> score_of e
          \<and> score_of e \<le> COMPOSITE_NORMALIZATION_SCALE * COMPOSITE_WEIGHT_SCALE))"
proof -
  have wf: "composite_wf a" using assms by (rule parse_composite_wf)
  define score where "score = pure_score (cx_normalizationMode a) (cx_scoringFields a) (cx_participants a)"
  define ordered where "ordered = js_sort (compare_scores score) (cx_participants a)"
  have "mset (map cp_id ordered) = mset (map cp_id (cx_participants a))" by (simp add: ordered_def)
  moreover have "distinct (map cp_id ordered)" using wf by (simp add: ordered_def composite_wf_def)
  moreover have "length ordered = length (cx_participants a)" by (simp add: ordered_def)
  ultimately show ?thesis
    using wf replay_D [OF assms] pure_score_bounds [OF wf]
    by (auto simp: composite_wf_def ordered_def score_def take_map)
qed

lemma composite_replay_total_witness:
  "\<exists>blob r. replayCompositeRankDescArtifact blob = Inr r \<and> int (length (cr_winner_ids r)) = 1
    \<and> mset (cr_ordered_ids r) = {#js ''x'', js ''y''#}"
proof -
  obtain blob where b: "parseCompositeRankDescArtifact blob = Inr (composite_artifact_of composite_validated)"
    using composite_sample_blob by blast
  from composite_replay_total [OF b] show ?thesis
    by (auto simp: composite_artifact_of_def composite_validated_def sample_x_def sample_y_def)
qed

text \<open>A participant that is at least as good in every field scores at least as much, in both modes; so of
  two such participants the better one, if its order is smaller, comes first in the ranking.\<close>

theorem composite_dominance:
  assumes "parseCompositeRankDescArtifact blob = Inr a" and "replayCompositeRankDescArtifact blob = Inr r"
    and "p \<in> set (cx_participants a)" and "q \<in> set (cx_participants a)"
    and "\<forall>i < length (cx_scoringFields a). cp_fieldValues q ! i \<le> cp_fieldValues p ! i" and "cp_order p < cp_order q"
  shows "\<exists>i j. i < j \<and> j < length (cr_ordered_ids r) \<and> cr_ordered_ids r ! i = cp_id p \<and> cr_ordered_ids r ! j = cp_id q"
proof -
  have wf: "composite_wf a" using assms(1) by (rule parse_composite_wf)
  define score where "score = pure_score (cx_normalizationMode a) (cx_scoringFields a) (cx_participants a)"
  have "score q \<le> score p" using pure_score_mono [OF wf assms(3-5)] by (simp add: score_def)
  then have "compare_scores score p q < 0" using assms(6) by (simp add: compare_scores_def)
  from sorted_before [OF assms(3,4) this] obtain i j where "i < j" "j < length (cx_participants a)"
    "js_sort (compare_scores score) (cx_participants a) ! i = p" "js_sort (compare_scores score) (cx_participants a) ! j = q"
    by blast
  moreover have "cr_ordered_ids r = map cp_id (js_sort (compare_scores score) (cx_participants a))"
    using replay_D [OF assms(1)] assms(2) by (simp add: score_def)
  ultimately show ?thesis by (intro exI [of _ i] exI [of _ j]) simp
qed

lemma composite_dominance_witness:
  "\<exists>blob r. replayCompositeRankDescArtifact blob = Inr r
    \<and> (\<exists>i j. i < j \<and> j < length (cr_ordered_ids r) \<and> cr_ordered_ids r ! i = js ''y'' \<and> cr_ordered_ids r ! j = js ''x'')"
proof -
  let ?a = "composite_artifact_of composite_validated"
  obtain blob where b: "parseCompositeRankDescArtifact blob = Inr ?a" using composite_sample_blob by blast
  obtain r where r: "replayCompositeRankDescArtifact blob = Inr r" using replay_D [OF b] by blast
  have e: "cx_participants ?a = [sample_x, sample_y]" "cx_scoringFields ?a = sample_specs"
    by (simp_all add: composite_artifact_of_def composite_validated_def)
  have "\<forall>i < length (cx_scoringFields ?a). cp_fieldValues sample_x ! i \<le> cp_fieldValues sample_y ! i"
    by (auto simp: e sample_specs_def sample_x_def sample_y_def less_Suc_eq numeral_2_eq_2)
  from composite_dominance [OF b r _ _ this] r show ?thesis
    by (auto simp: e) (auto simp: sample_x_def sample_y_def)
qed

text \<open>Min-max scoring does not depend on the unit or the origin of a field: scaling every value of a field by
  a positive factor and shifting it leaves every effective value, hence the ranking and the winners, unchanged.
  The integer divisions round in the same places.\<close>

theorem composite_affine_invariant:
  assumes "parseCompositeRankDescArtifact blob = Inr a" and "cx_normalizationMode a = Min_max"
    and "replay_parsed a = Inr r" and "\<forall>i < length (cx_scoringFields a). 0 < k i"
  shows "\<exists>r'. replay_parsed (a\<lparr>cx_participants := map (affine_values k t) (cx_participants a)\<rparr>) = Inr r'
    \<and> cr_ordered_ids r' = cr_ordered_ids r \<and> cr_winner_ids r' = cr_winner_ids r
    \<and> map re_composite_score (cr_participant_replay r') = map re_composite_score (cr_participant_replay r)"
proof -
  have wf: "composite_wf a" using assms(1) by (rule parse_composite_wf)
  let ?ps = "cx_participants a" and ?specs = "cx_scoringFields a" and ?f = "affine_values k t"
  have ne: "?ps \<noteq> []" and len: "\<forall>p \<in> set ?ps. length (cp_fieldValues p) = length ?specs"
    using wf by (simp_all add: composite_wf_def)
  have id: "cp_id (?f p) = cp_id p" "cp_order (?f p) = cp_order p" for p by (simp_all add: affine_values_def)
  have score: "pure_score Min_max ?specs (map ?f ?ps) (?f p) = pure_score Min_max ?specs ?ps p" if "p \<in> set ?ps" for p
    by (rule pure_score_affine [OF ne len assms(4) that])
  have "js_sort (compare_scores (pure_score Min_max ?specs (map ?f ?ps))) (map ?f ?ps)
      = map ?f (js_sort (compare_scores (pure_score Min_max ?specs ?ps)) ?ps)"
    unfolding js_sort_map
    by (rule arg_cong [where f = "map ?f"], rule js_sort_cong) (simp add: compare_scores_def score id)
  moreover have "map re_composite_score (map (entry_of Min_max ?specs (map ?f ?ps)) (map ?f ?ps))
      = map re_composite_score (map (entry_of Min_max ?specs ?ps) ?ps)"
    by (simp add: entry_of_def score)
  ultimately show ?thesis
    using replay_parsed_ok [of "a\<lparr>cx_participants := map ?f ?ps\<rparr>"] replay_parsed_ok [of a] ne assms(2,3)
    by (auto simp: take_map comp_def id)
qed

lemma composite_affine_invariant_witness:
  "\<exists>r r'. replay_parsed (composite_artifact_of composite_validated) = Inr r
    \<and> replay_parsed ((composite_artifact_of composite_validated)\<lparr>cx_participants :=
        map (affine_values (\<lambda>i. 100) (\<lambda>i. 7)) [sample_x, sample_y]\<rparr>) = Inr r'
    \<and> cr_winner_ids r' = cr_winner_ids r"
proof -
  let ?a = "composite_artifact_of composite_validated"
  obtain blob where b: "parseCompositeRankDescArtifact blob = Inr ?a" using composite_sample_blob by blast
  have e: "cx_normalizationMode ?a = Min_max" "cx_participants ?a = [sample_x, sample_y]"
    by (simp_all add: composite_artifact_of_def composite_validated_def)
  obtain r where r: "replay_parsed ?a = Inr r" using replay_parsed_ok [of ?a] by (auto simp: e)
  from composite_affine_invariant [OF b e(1) r, of "\<lambda>i. 100" "\<lambda>i. 7"] r show ?thesis
    unfolding e by auto
qed

end
