(* ===== verification/Compiled_Draw.thy ===== *)
theory Compiled_Draw
  imports Compiled_Agree Composite_Codec
begin

text \<open>
  The replay of a draw by \<^verbatim>\<open>sdk/verify.ts\<close>, which works on indices into the parsed outcomes, against the draws
  of \<^verbatim>\<open>sdk/snapshot.ts\<close> and \<^verbatim>\<open>sdk/composite_rank_desc.ts\<close>, which work on the entries themselves.
\<close>

section \<open>The selected identifiers\<close>

text \<open>\<^verbatim>\<open>outcomeId.subarray(0, outcomeIdLen)\<close> of each selected outcome.\<close>

definition selected_id_bytes :: "selected_outcome \<Rightarrow> buffer list" where
  "selected_id_bytes s = map (\<lambda>(n, b). take (nat n) b) (zip (so_outcomeIdLens s) (so_outcomeIds s))"

definition payout_effect :: "int \<Rightarrow> buffer" where
  "payout_effect payout = (if 0 < payout then byte_of 1 @ zeros 7 @ le_bytes 8 payout else [])"

definition synthetic_version :: "int \<Rightarrow> bool" where
  "synthetic_version v \<longleftrightarrow> v = FORMAT_VERSION_V5 \<or> v = FORMAT_VERSION_COMPOSITE_RANK_DESC"

lemma outcome_effects_synthetic:
  assumes "synthetic_version (pa_formatVersion p)" and "0 \<le> pa_payoutLamports p" and "pa_payoutLamports p \<le> MAX_U64"
  shows "outcome_effects blob p x = Inr (payout_effect (pa_payoutLamports p), if 0 < pa_payoutLamports p then 1 else 0, pa_payoutLamports p)"
  using assms by (auto simp: outcome_effects_def synthetic_version_def payout_effect_def bound_defs W3O1_TRANSFER_SOL_def)

lemma sum_list_const: "sum_list (map (\<lambda>x. c :: int) xs) = int (length xs) * c"
  by (induction xs) (simp_all add: algebra_simps)

lemma select_synthetic:
  assumes v: "synthetic_version (pa_formatVersion p)" and pay: "0 \<le> pa_payoutLamports p" "pa_payoutLamports p \<le> MAX_U64"
    and input: "pa_minInputLamports p \<le> input" "input \<le> pa_maxInputLamports p"
    and ix: "selected_indices p randomness = Inr ix"
    and out: "\<forall>i \<in> set ix. take (nat (po_idLen (pa_outcomes p ! i))) (po_id (pa_outcomes p ! i)) = g i"
  shows "\<exists>s. selectOutcomes blob p randomness input = Inr s \<and> selected_id_bytes s = map g ix
    \<and> so_totalOutputLamports s = pa_payoutLamports p * int (length ix)
    \<and> so_effectCount s = (if 0 < pa_payoutLamports p then int (length ix) else 0)
    \<and> so_effectsDigest s = sha256 (concat (map (\<lambda>_. payout_effect (pa_payoutLamports p)) ix))"
proof -
  have fx: "mapE (outcome_effects blob p) xs
      = Inr (map (\<lambda>_. (payout_effect (pa_payoutLamports p), if 0 < pa_payoutLamports p then 1 else 0, pa_payoutLamports p)) xs)" for xs
    by (rule mapE_ok) (rule outcome_effects_synthetic [OF v pay])
  have "selected_id_bytes s = map g ix"
    if "so_outcomeIdLens s = map po_idLen (map ((!) (pa_outcomes p)) ix)" "so_outcomeIds s = map po_id (map ((!) (pa_outcomes p)) ix)" for s
    using out by (simp add: selected_id_bytes_def that zip_map_map zip_same_conv_map comp_def)
  then show ?thesis
    using input by (simp add: selectOutcomes_def ix fx sum_list_const comp_def Let_def)
qed

section \<open>Compact artifacts\<close>

lemma weight_total_ok: "\<forall>w \<in> set ws. 0 < w \<Longrightarrow> weight_total ws = Inr (sum_list ws)"
proof -
  have "\<forall>w \<in> set ws. 0 < w \<Longrightarrow>
      foldE (\<lambda>t w. throwIf (w \<le> 0) (Error ''Weight must be positive'') (Inr (t + w))) s ws = Inr (s + sum_list ws)" for s
    by (induction ws arbitrary: s) (simp_all add: add.assoc)
  then show "\<forall>w \<in> set ws. 0 < w \<Longrightarrow> weight_total ws = Inr (sum_list ws)" by (simp add: weight_total_def)
qed

lemma chooseWeightedIndex_ok:
  "ws \<noteq> [] \<Longrightarrow> \<forall>w \<in> set ws. 0 < w \<Longrightarrow> pick_index (roll mod sum_list ws) 0 0 ws = Some k \<Longrightarrow> chooseWeightedIndex ws roll = Inr k"
  by (simp add: chooseWeightedIndex_def weight_total_ok)

lemma splice1_map: "splice1 k (map f xs) = map f (splice1 k xs)"
  by (simp add: splice1_def take_map drop_map)

lemma set_splice1: "set (splice1 k xs) \<subseteq> set xs"
  unfolding splice1_def using set_take_subset [of k xs] set_drop_subset [of "Suc k" xs] by auto

lemma weighted_index_round_sim:
  assumes round: "weighted_v5_round randomness (map ((!) es) ixs, map (\<lambda>i. p_id (es ! i)) sel) r = Inr st"
    and ok: "\<forall>e \<in> set es. entry_ok e" and ixs: "\<forall>i \<in> set ixs. i < length es"
  shows "\<exists>ixs' sel'. weighted_index_round (map (parsed_entry payout) es) randomness (ixs, sel) r = Inr (ixs', sel')
    \<and> st = (map ((!) es) ixs', map (\<lambda>i. p_id (es ! i)) sel') \<and> set ixs' \<subseteq> set ixs \<and> set sel' \<subseteq> set sel \<union> set ixs
    \<and> length sel' = Suc (length sel)"
proof -
  let ?ws = "map (\<lambda>i. p_weight (es ! i)) ixs"
  from round obtain roll k where pos: "\<not> sum_list ?ws \<le> 0" and roll: "rollForRound randomness r = Inr roll"
    and k: "pick_index (roll mod sum_list ?ws) 0 0 ?ws = Some k"
    and st: "st = (splice1 k (map ((!) es) ixs), map (\<lambda>i. p_id (es ! i)) sel @ [p_id (map ((!) es) ixs ! k)])"
    by (auto simp: weighted_v5_round_def Let_def bindE_Inr_iff throwIf_Inr_iff comp_def split: option.splits)
  have klt: "k < length ixs" using pick_index_range [OF k] by simp
  have ws: "map (\<lambda>i. po_weight (map (parsed_entry payout) es ! i)) ixs = ?ws"
    using ixs by (simp add: parsed_entry_def)
  have "\<forall>w \<in> set ?ws. 0 < w" using ok ixs by (auto simp: entry_ok_def)
  moreover have "?ws \<noteq> []" using pos by auto
  ultimately have "chooseWeightedIndex ?ws roll = Inr k" using k by (intro chooseWeightedIndex_ok)
  then have "weighted_index_round (map (parsed_entry payout) es) randomness (ixs, sel) r = Inr (splice1 k ixs, sel @ [ixs ! k])"
    by (simp add: weighted_index_round_def roll ws)
  then show ?thesis
    using st klt set_splice1 [of k ixs] by (auto simp: splice1_map)
qed

lemma weighted_indices_sim:
  assumes "foldE (weighted_v5_round randomness) (map ((!) es) ixs, map (\<lambda>i. p_id (es ! i)) sel) rs = Inr (rest, winners)"
    and "\<forall>e \<in> set es. entry_ok e" and "\<forall>i \<in> set ixs. i < length es"
  shows "\<exists>ixs' sel'. foldE (weighted_index_round (map (parsed_entry payout) es) randomness) (ixs, sel) rs = Inr (ixs', sel')
    \<and> winners = map (\<lambda>i. p_id (es ! i)) sel' \<and> set sel' \<subseteq> set sel \<union> set ixs \<and> length sel' = length sel + length rs"
  using assms(1,3)
proof (induction rs arbitrary: ixs sel)
  case (Cons r rs)
  from Cons.prems(1) obtain st where st: "weighted_v5_round randomness (map ((!) es) ixs, map (\<lambda>i. p_id (es ! i)) sel) r = Inr st"
    and rest: "foldE (weighted_v5_round randomness) st rs = Inr (rest, winners)" by (auto simp: bindE_Inr_iff)
  from weighted_index_round_sim [OF st assms(2) Cons.prems(2), of payout] obtain ixs1 sel1
    where 1: "weighted_index_round (map (parsed_entry payout) es) randomness (ixs, sel) r = Inr (ixs1, sel1)"
      "st = (map ((!) es) ixs1, map (\<lambda>i. p_id (es ! i)) sel1)" "set ixs1 \<subseteq> set ixs" "set sel1 \<subseteq> set sel \<union> set ixs"
      "length sel1 = Suc (length sel)" by blast
  have "\<forall>i \<in> set ixs1. i < length es" using 1(3) Cons.prems(2) by auto
  from Cons.IH [OF rest [unfolded 1(2)] this] obtain ixs' sel'
    where "foldE (weighted_index_round (map (parsed_entry payout) es) randomness) (ixs1, sel1) rs = Inr (ixs', sel')"
      "winners = map (\<lambda>i. p_id (es ! i)) sel'" "set sel' \<subseteq> set sel1 \<union> set ixs1" "length sel' = length sel1 + length rs" by blast
  with 1 show ?case by (intro exI [of _ ixs'] exI [of _ sel']) auto
qed simp

lemma compare_parsed_entry:
  assumes "formulaCodeToName code = Inr f"
  shows "compareFormulaOutcomes (parsed_entry payout a) (parsed_entry payout b) code t = compareFormulaEntries f t a b"
  using assms
  by (auto simp: formulaCodeToName_def compareFormulaOutcomes_def parsed_entry_def composite_defs Let_def split: if_splits)

text \<open>The indices selected by the verifier are those of the winners of the claim.\<close>

lemma selected_indices_v5:
  assumes wf: "compact_wf a" and claim: "buildCompactNamedEntryClaimFromArtifactV5 a randomness = Inr claim"
  shows "\<exists>ix. selected_indices (compiled_of_v5 n a) randomness = Inr ix \<and> (\<forall>i \<in> set ix. i < length (ca_entries a))
    \<and> buildSnapshotClaimFromWinnerIds (map (\<lambda>i. p_id (ca_entries a ! i)) ix) (ca_payoutLamports a) = Inr claim"
proof -
  let ?es = "ca_entries a" and ?w = "nat (ca_winnersCount a)"
  from wf obtain f where f: "formulaCodeToName (ca_formulaCode a) = Inr f"
    by (auto simp: compact_wf_def valid_formula_code_def formulaCodeToName_def)
  have ok: "\<forall>e \<in> set ?es. entry_ok e" using wf by (simp add: compact_wf_def)
  have code: "pa_formulaCode (compiled_of_v5 n a) = ca_formulaCode a" "pa_winnersCount (compiled_of_v5 n a) = ca_winnersCount a"
    "pa_outcomes (compiled_of_v5 n a) = map (parsed_entry (ca_payoutLamports a)) ?es"
    "pa_targetScore (compiled_of_v5 n a) = ca_targetScore a"
    by (simp_all add: compiled_of_v5_def)
  show ?thesis
  proof (cases "f = Weighted_random")
    case True
    then have c1: "ca_formulaCode a = 1" using f by (auto simp: formulaCodeToName_def split: if_splits)
    from claim obtain rest winners where fold: "foldE (weighted_v5_round randomness) (?es, []) [0..<?w] = Inr (rest, winners)"
      and cl: "buildSnapshotClaimFromWinnerIds winners (ca_payoutLamports a) = Inr claim"
      by (auto simp: buildCompactNamedEntryClaimFromArtifactV5_def f True bindE_Inr_iff)
    have es: "map ((!) ?es) [0..<length ?es] = ?es" by (rule map_nth)
    have "foldE (weighted_v5_round randomness) (map ((!) ?es) [0..<length ?es], map (\<lambda>i. p_id (?es ! i)) []) [0..<?w] = Inr (rest, winners)"
      using fold by (simp add: es)
    from weighted_indices_sim [OF this ok, of "ca_payoutLamports a"] obtain ixs' ix where
      "foldE (weighted_index_round (map (parsed_entry (ca_payoutLamports a)) ?es) randomness) ([0..<length ?es], []) [0..<?w] = Inr (ixs', ix)"
      "winners = map (\<lambda>i. p_id (?es ! i)) ix" "set ix \<subseteq> {0..<length ?es}" by auto
    with cl c1 show ?thesis by (intro exI [of _ ix]) (auto simp: selected_indices_def code)
  next
    case False
    then have c1: "ca_formulaCode a \<noteq> 1" using f by (auto simp: formulaCodeToName_def split: if_splits)
    let ?cmp = "compareFormulaEntries f (ca_targetScore a)"
    let ?ix = "take ?w (js_sort (\<lambda>i j. ?cmp (?es ! i) (?es ! j)) [0..<length ?es])"
    have sorted: "js_sort ?cmp ?es = map ((!) ?es) (js_sort (\<lambda>i j. ?cmp (?es ! i) (?es ! j)) [0..<length ?es])"
      using js_sort_map [of ?cmp "(!) ?es" "[0..<length ?es]"] by (simp add: map_nth)
    have "js_sort (\<lambda>l r. compareFormulaOutcomes (map (parsed_entry (ca_payoutLamports a)) ?es ! l) (map (parsed_entry (ca_payoutLamports a)) ?es ! r)
         (ca_formulaCode a) (ca_targetScore a)) [0..<length ?es] = js_sort (\<lambda>i j. ?cmp (?es ! i) (?es ! j)) [0..<length ?es]"
      by (rule js_sort_cong) (auto simp: compare_parsed_entry [OF f])
    then have "selected_indices (compiled_of_v5 n a) randomness = Inr ?ix"
      using c1 by (simp add: selected_indices_def code)
    moreover have "\<forall>i \<in> set ?ix. i < length ?es" by (auto dest!: in_set_takeD)
    moreover have "buildSnapshotClaimFromWinnerIds (map (\<lambda>i. p_id (?es ! i)) ?ix) (ca_payoutLamports a) = Inr claim"
      using claim False
      by (auto simp: buildCompactNamedEntryClaimFromArtifactV5_def f Let_def throwIf_Inr_iff sorted take_map comp_def)
    ultimately show ?thesis by blast
  qed
qed

lemma claim_D:
  assumes "buildSnapshotClaimFromWinnerIds winners payout = Inr claim" and "0 \<le> payout" and "payout \<le> MAX_U64"
  shows "cl_outcomeIds claim = winners \<and> cl_totalOutputLamports claim = payout * int (length winners)
    \<and> cl_effectCount claim = (if 0 < payout then int (length winners) else 0)
    \<and> cl_effectsDigest claim = sha256 (concat (map (\<lambda>_. payout_effect payout) winners))"
proof -
  from assms(1) obtain fx where fx: "buildSyntheticEffects payout (length winners) = Inr fx" and ne: "winners \<noteq> []"
    and cl: "cl_outcomeIds claim = winners" "cl_totalOutputLamports claim = payout * int (length winners)"
      "cl_effectCount claim = (if payout = 0 then 0 else int (length winners))" "cl_effectsDigest claim = sha256 fx"
    unfolding buildSnapshotClaimFromWinnerIds_def Let_def by (elim result_elims) auto
  have "fx = concat (map (\<lambda>_. payout_effect payout) winners)"
  proof (cases "payout = 0")
    case False
    with assms(2,3) have "u64le payout = Inr (le_bytes 8 payout)" "0 < payout" by (auto simp: bound_defs)
    moreover have "map (\<lambda>_. b) [0..<length winners] = map (\<lambda>_. b) winners" for b :: buffer
      by (simp add: map_replicate_const)
    ultimately show ?thesis
      using fx ne by (simp add: buildSyntheticEffects_def concatE_replicate payout_effect_def EFFECT_TYPE_TRANSFER_SOL_def)
  qed (use fx in \<open>simp add: buildSyntheticEffects_def payout_effect_def\<close>)
  with cl assms(2) show ?thesis by auto
qed

text \<open>C29: the verifier's own parser of the compact format accepts exactly the blobs that the parser of
  \<^verbatim>\<open>sdk/snapshot.ts\<close> accepts, although it is written separately and never checks the length of a byte range it
  reads, and it reads the same limits, formula, target, payout and entries.\<close>

theorem v5_parsers_agree:
  "parseCompiledArtifact blob = Inr p \<and> pa_formatVersion p = FORMAT_VERSION_V5
    \<longleftrightarrow> (\<exists>a. parseArtifactV5 blob = Inr a \<and> p = compiled_of_v5 (length blob) a)"
  by (rule v5_parsers)

lemma v5_selection:
  assumes parse: "parseArtifactV5 blob = Inr a" and r: "8 \<le> length randomness"
    and input: "ca_minInputLamports a \<le> input" "input \<le> ca_maxInputLamports a"
  shows "\<exists>p s claim. parseCompiledArtifact blob = Inr p \<and> selectOutcomes blob p randomness input = Inr s
    \<and> buildCompactNamedEntryClaimFromArtifactV5 a randomness = Inr claim
    \<and> selected_id_bytes s = map ascii_bytes (cl_outcomeIds claim)
    \<and> so_totalOutputLamports s = cl_totalOutputLamports claim \<and> so_effectCount s = cl_effectCount claim
    \<and> so_effectsDigest s = cl_effectsDigest claim"
proof -
  have wf: "compact_wf a" using parse by (rule parseArtifactV5_wf)
  obtain claim where claim: "buildCompactNamedEntryClaimFromArtifactV5 a randomness = Inr claim"
    using compact_claim [OF parse r] by blast
  let ?p = "compiled_of_v5 (length blob) a"
  have pay: "0 \<le> ca_payoutLamports a" "ca_payoutLamports a \<le> MAX_U64" using wf by (simp_all add: compact_wf_def)
  obtain ix where ix: "selected_indices ?p randomness = Inr ix" "\<forall>i \<in> set ix. i < length (ca_entries a)"
    and cl: "buildSnapshotClaimFromWinnerIds (map (\<lambda>i. p_id (ca_entries a ! i)) ix) (ca_payoutLamports a) = Inr claim"
    using selected_indices_v5 [OF wf claim] by blast
  have "take (nat (po_idLen (pa_outcomes ?p ! i))) (po_id (pa_outcomes ?p ! i)) = ascii_bytes (p_id (ca_entries a ! i))"
    if "i \<in> set ix" for i
    using that ix(2) by (simp add: compiled_of_v5_def parsed_entry_def)
  moreover have "synthetic_version (pa_formatVersion ?p)" "pa_payoutLamports ?p = ca_payoutLamports a"
    "pa_minInputLamports ?p = ca_minInputLamports a" "pa_maxInputLamports ?p = ca_maxInputLamports a"
    by (simp_all add: compiled_of_v5_def synthetic_version_def)
  ultimately obtain s where s: "selectOutcomes blob ?p randomness input = Inr s"
    "selected_id_bytes s = map (\<lambda>i. ascii_bytes (p_id (ca_entries a ! i))) ix"
    "so_totalOutputLamports s = ca_payoutLamports a * int (length ix)"
    "so_effectCount s = (if 0 < ca_payoutLamports a then int (length ix) else 0)"
    "so_effectsDigest s = sha256 (concat (map (\<lambda>_. payout_effect (ca_payoutLamports a)) ix))"
    using select_synthetic [of ?p input randomness ix "\<lambda>i. ascii_bytes (p_id (ca_entries a ! i))" blob] pay input ix(1) by auto
  have "cl_outcomeIds claim = map (\<lambda>i. p_id (ca_entries a ! i)) ix"
    "cl_totalOutputLamports claim = ca_payoutLamports a * int (length ix)"
    "cl_effectCount claim = (if 0 < ca_payoutLamports a then int (length ix) else 0)"
    "cl_effectsDigest claim = sha256 (concat (map (\<lambda>_. payout_effect (ca_payoutLamports a)) ix))"
    using claim_D [OF cl pay] by (simp_all add: comp_def)
  with s v5_forward [OF parse] claim show ?thesis by (auto simp: comp_def)
qed

text \<open>C30: replaying a compact draw in the verifier gives what the operator's claim says: for every artifact that
  parses, every randomness and every input within its bounds, the selection succeeds and has the winners in
  the same order, the total output, the effect count and the effects digest of the claim built from the same
  artifact.\<close>

theorem v5_replay_is_claim:
  assumes "parseArtifactV5 blob = Inr a" and "8 \<le> length randomness"
    and "ca_minInputLamports a \<le> input" and "input \<le> ca_maxInputLamports a"
  shows "\<exists>p s claim. parseCompiledArtifact blob = Inr p \<and> selectOutcomes blob p randomness input = Inr s
    \<and> buildCompactNamedEntryClaimFromArtifactV5 a randomness = Inr claim
    \<and> selected_id_bytes s = map ascii_bytes (cl_outcomeIds claim)
    \<and> so_totalOutputLamports s = cl_totalOutputLamports claim \<and> so_effectCount s = cl_effectCount claim
    \<and> so_effectsDigest s = cl_effectsDigest claim"
  by (rule v5_selection [OF assms])

lemma v5_replay_is_claim_witness:
  "\<exists>blob a p s claim. parseArtifactV5 blob = Inr a \<and> parseCompiledArtifact blob = Inr p
    \<and> selectOutcomes blob p (replicate 32 7) 5 = Inr s \<and> buildCompactNamedEntryClaimFromArtifactV5 a (replicate 32 7) = Inr claim
    \<and> selected_id_bytes s = map ascii_bytes (cl_outcomeIds claim)"
proof -
  obtain blob where blob: "parseArtifactV5 blob = Inr (compact_artifact_of compact_validated)"
    using compact_sample_builds by blast
  have "ca_minInputLamports (compact_artifact_of compact_validated) \<le> 5" "5 \<le> ca_maxInputLamports (compact_artifact_of compact_validated)"
    by (simp_all add: compact_artifact_of_def compact_validated_def)
  from v5_replay_is_claim [OF blob _ this, of "replicate 32 7"] blob show ?thesis by fastforce
qed

section \<open>Composite artifacts\<close>

lemma composite_version:
  assumes "parseCompositeRankDescArtifact blob = Inr a"
  shows "\<exists>off. readU16LE blob 4 = Inr (FORMAT_VERSION_COMPOSITE_RANK_DESC, off)" and "magic_ok blob"
    and "46 \<le> length blob" and "length blob \<le> 8192" and "0 \<le> cx_payoutLamports a \<and> cx_payoutLamports a \<le> MAX_U64"
proof -
  from assms obtain o1 o2 o3 where "readU16LE blob 4 = Inr (FORMAT_VERSION_COMPOSITE_RANK_DESC, o1)" "magic_ok blob"
    "\<not> (length blob < HEADER_BYTES \<or> MAX_COMPOSITE_ARTIFACT_BYTES < length blob)"
    "readU64LE blob o2 = Inr (cx_payoutLamports a, o3)"
    unfolding parseCompositeRankDescArtifact_def compositeR_def by (elim result_elims) (simp; blast)
  then show "\<exists>off. readU16LE blob 4 = Inr (FORMAT_VERSION_COMPOSITE_RANK_DESC, off)" and "magic_ok blob"
    and "46 \<le> length blob" and "length blob \<le> 8192" and "0 \<le> cx_payoutLamports a \<and> cx_payoutLamports a \<le> MAX_U64"
    using readU64LE_bounds [of blob o2 "cx_payoutLamports a" o3] by (auto simp: composite_defs bound_defs)
qed

definition replay_score :: "composite_artifact \<Rightarrow> composite_participant \<Rightarrow> int" where
  "replay_score a = pure_score (cx_normalizationMode a) (cx_scoringFields a) (cx_participants a)"

lemma score_of_replay_entry:
  assumes "distinct (map cp_id ps)" and "p \<in> set ps" and "cr_participant_replay r = map (entry_of mode specs qs) ps"
  shows "score_of_replay r (cp_id p) = pure_score mode specs qs p"
proof -
  let ?kv = "map (\<lambda>q. (cp_id q, pure_score mode specs qs q)) ps"
  have "distinct (map fst (rev ?kv))" using assms(1) by (simp add: comp_def rev_map [symmetric])
  moreover have "(cp_id p, pure_score mode specs qs p) \<in> set (rev ?kv)" using assms(2) by auto
  ultimately have "map_of (rev ?kv) (cp_id p) = Some (pure_score mode specs qs p)" by (rule map_of_is_SomeI)
  then show ?thesis by (simp add: score_of_replay_def assms(3) comp_def)
qed

lemma composite_selection:
  assumes parse: "parseCompositeRankDescArtifact blob = Inr a"
    and input: "cx_minInputLamports a \<le> input" "input \<le> cx_maxInputLamports a"
  shows "\<exists>p s r. parseCompiledArtifact blob = Inr p \<and> selectOutcomes blob p randomness input = Inr s
    \<and> replayCompositeRankDescArtifact blob = Inr r
    \<and> selected_id_bytes s = map ascii_bytes (cr_winner_ids r)
    \<and> dec_string (so_totalOutputLamports s) = cr_total_output_lamports r"
proof -
  let ?ps = "cx_participants a" and ?w = "nat (cx_winnersCount a)"
  have wf: "composite_wf a" using parse by (rule parse_composite_wf)
  obtain r where r: "replayCompositeRankDescArtifact blob = Inr r"
    and ids: "cr_winner_ids r = map cp_id (take ?w (js_sort (compare_scores (replay_score a)) ?ps))"
    and tot: "cr_total_output_lamports r = dec_string (cx_payoutLamports a * cx_winnersCount a)"
    and entries: "cr_participant_replay r = map (entry_of (cx_normalizationMode a) (cx_scoringFields a) ?ps) ?ps"
    using replay_D [OF parse] by (simp add: replay_score_def)
  obtain p where p: "parseCompiledComposite blob = Inr p" and v: "pa_formatVersion p = FORMAT_VERSION_COMPOSITE_RANK_DESC"
    and fields: "pa_winnersCount p = cx_winnersCount a" "pa_minInputLamports p = cx_minInputLamports a"
      "pa_maxInputLamports p = cx_maxInputLamports a" "pa_formulaCode p = FORMULA_CODE_COMPOSITE_RANK_DESC"
      "pa_payoutLamports p = cx_payoutLamports a" "pa_outcomes p = map (composite_outcome r (cx_payoutLamports a)) ?ps"
    by (simp add: parseCompiledComposite_def parse r)
  obtain off where "readU16LE blob 4 = Inr (FORMAT_VERSION_COMPOSITE_RANK_DESC, off)" using composite_version(1) [OF parse] by blast
  then have compiled: "parseCompiledArtifact blob = Inr p"
    using composite_version(2-4) [OF parse] p
    by (auto simp: parseCompiledArtifact_def MAX_COMPILED_ARTIFACT_BYTES_def compiledR_def runR_def bindR_step liftR_def throwIf_def)
  let ?cmp = "compare_scores (replay_score a)"
  let ?ix = "take ?w (js_sort (\<lambda>i j. ?cmp (?ps ! i) (?ps ! j)) [0..<length ?ps])"
  have sorted: "js_sort ?cmp ?ps = map ((!) ?ps) (js_sort (\<lambda>i j. ?cmp (?ps ! i) (?ps ! j)) [0..<length ?ps])"
    using js_sort_map [of ?cmp "(!) ?ps" "[0..<length ?ps]"] by (simp add: map_nth)
  have score: "po_score (composite_outcome r pay q) = replay_score a q" if "q \<in> set ?ps" for q pay
    using score_of_replay_entry [OF _ that entries] wf by (simp add: composite_outcome_def composite_wf_def replay_score_def)
  have "compareFormulaOutcomes (composite_outcome r pay x) (composite_outcome r pay y) FORMULA_CODE_COMPOSITE_RANK_DESC t = ?cmp x y"
    if "x \<in> set ?ps" "y \<in> set ?ps" for x y pay t
    unfolding compareFormulaOutcomes_def score [OF that(1)] score [OF that(2)]
    by (simp add: compare_scores_def composite_outcome_def)
  then have "js_sort (\<lambda>l r'. compareFormulaOutcomes (pa_outcomes p ! l) (pa_outcomes p ! r') (pa_formulaCode p) (pa_targetScore p)) [0..<length ?ps]
    = js_sort (\<lambda>i j. ?cmp (?ps ! i) (?ps ! j)) [0..<length ?ps]"
    by (intro js_sort_cong) (simp add: fields)
  then have ix: "selected_indices p randomness = Inr ?ix"
    by (simp add: selected_indices_def fields composite_defs)
  have "\<forall>i \<in> set ?ix. i < length ?ps" by (auto dest!: in_set_takeD)
  then have out: "\<forall>i \<in> set ?ix. take (nat (po_idLen (pa_outcomes p ! i))) (po_id (pa_outcomes p ! i)) = ascii_bytes (cp_id (?ps ! i))"
    by (simp add: fields composite_outcome_def)
  have "synthetic_version (pa_formatVersion p)" by (simp add: v synthetic_version_def)
  from select_synthetic [OF this _ _ _ _ ix out, of input blob] obtain s
    where s: "selectOutcomes blob p randomness input = Inr s" "selected_id_bytes s = map (\<lambda>i. ascii_bytes (cp_id (?ps ! i))) ?ix"
      "so_totalOutputLamports s = cx_payoutLamports a * int (length ?ix)"
    using composite_version(5) [OF parse] input by (auto simp: fields)
  have "int (length ?ix) = cx_winnersCount a" using wf by (auto simp: composite_wf_def)
  then show ?thesis
    using compiled s r tot by (intro exI [of _ p] exI [of _ s] exI [of _ r]) (simp add: ids sorted take_map comp_def)
qed

text \<open>C31: the verifier replays every composite artifact that its format's parser accepts: it reads it through the
  replay's scores, and sorting those selects the replay's winners in the same order and the same total
  output, for every input within the bounds and whatever the randomness.\<close>

theorem composite_verifier_is_replay:
  assumes "parseCompositeRankDescArtifact blob = Inr a" and "cx_minInputLamports a \<le> input" and "input \<le> cx_maxInputLamports a"
  shows "\<exists>p s r. parseCompiledArtifact blob = Inr p \<and> selectOutcomes blob p randomness input = Inr s
    \<and> replayCompositeRankDescArtifact blob = Inr r
    \<and> selected_id_bytes s = map ascii_bytes (cr_winner_ids r)
    \<and> dec_string (so_totalOutputLamports s) = cr_total_output_lamports r"
  by (rule composite_selection [OF assms])

lemma composite_verifier_is_replay_witness:
  "\<exists>blob p s r. parseCompiledArtifact blob = Inr p \<and> selectOutcomes blob p (replicate 32 7) 5 = Inr s
    \<and> replayCompositeRankDescArtifact blob = Inr r \<and> selected_id_bytes s = map ascii_bytes (cr_winner_ids r)"
proof -
  obtain blob where blob: "parseCompositeRankDescArtifact blob = Inr (composite_artifact_of composite_validated)"
    using composite_sample_blob by blast
  have "cx_minInputLamports (composite_artifact_of composite_validated) \<le> 5" "5 \<le> cx_maxInputLamports (composite_artifact_of composite_validated)"
    by (simp_all add: composite_artifact_of_def composite_validated_def)
  from composite_verifier_is_replay [OF blob this, of "replicate 32 7"] show ?thesis by blast
qed

end
