(* ===== verification/Events.thy ===== *)
theory Events
  imports Selection Artifact
begin

text \<open>
  The inputs of a verification in \<^verbatim>\<open>sdk/verify.ts\<close>: the log lines of a transaction and the raw accounts.

  The program emits its events as base64 in lines \<^verbatim>\<open>Program data: ...\<close>; the runtime brackets the lines of each
  invocation with \<^verbatim>\<open>Program <id> invoke [n]\<close> and \<^verbatim>\<open>Program <id> success\<close> or \<^verbatim>\<open>failed: ...\<close>. A scanner keeps the stack of
  running programs to attribute a data line to the program on top of it. The decoders read the Borsh layout of
  an event after its eight-byte discriminator; \<^verbatim>\<open>readBytes\<close> is \<^verbatim>\<open>subarray\<close>, which clamps. A \<^verbatim>\<open>PublicKey\<close> is its bytes,
  except in log lines, where a program is its base58 text.
\<close>

section \<open>Base64\<close>

text \<open>\<^verbatim>\<open>Buffer.from(s, "base64")\<close>: both alphabets, other characters are skipped, \<^verbatim>\<open>=\<close> ends the text.\<close>

definition base64_value :: "16 word \<Rightarrow> nat option" where
  "base64_value c =
     (let n = unat c in
      if 65 \<le> n \<and> n \<le> 90 then Some (n - 65)
      else if 97 \<le> n \<and> n \<le> 122 then Some (n - 71)
      else if 48 \<le> n \<and> n \<le> 57 then Some (n + 4)
      else if n = 43 \<or> n = 45 then Some 62
      else if n = 47 \<or> n = 95 then Some 63 else None)"

fun base64_bytes :: "nat list \<Rightarrow> buffer" where
  "base64_bytes (a # b # c # d # rest) =
     word_of_nat (a * 4 + b div 16) # word_of_nat (b mod 16 * 16 + c div 4) # word_of_nat (c mod 4 * 64 + d) # base64_bytes rest"
| "base64_bytes [a, b, c] = [word_of_nat (a * 4 + b div 16), word_of_nat (b mod 16 * 16 + c div 4)]"
| "base64_bytes [a, b] = [word_of_nat (a * 4 + b div 16)]"
| "base64_bytes _ = []"

definition base64_decode :: "jsstr \<Rightarrow> buffer" where
  "base64_decode s = base64_bytes (List.map_filter base64_value (takeWhile (\<lambda>c. c \<noteq> 61) s))"

section \<open>Log lines\<close>

definition strip_prefix :: "jsstr \<Rightarrow> jsstr \<Rightarrow> jsstr option" where
  "strip_prefix p s = (if take (length p) s = p then Some (drop (length p) s) else None)"

text \<open>The common start of both expressions: \<^verbatim>\<open>^Program ([...]+) \<close>, with the captured identifier and the rest.\<close>

definition program_line :: "jsstr \<Rightarrow> (jsstr \<times> jsstr) option" where
  "program_line line =
     (case strip_prefix (js ''Program '') line of None \<Rightarrow> None
      | Some s \<Rightarrow>
          let p = takeWhile base58_unit s; rest = dropWhile base58_unit s in
          if p = [] then None
          else (case rest of c # cs \<Rightarrow> if c = 32 then Some (p, cs) else None | [] \<Rightarrow> None))"

definition parseProgramInvoke :: "jsstr \<Rightarrow> jsstr option" where
  "parseProgramInvoke line =
     (case program_line line of None \<Rightarrow> None
      | Some (p, rest) \<Rightarrow>
          (case strip_prefix (js ''invoke ['') rest of None \<Rightarrow> None
           | Some t \<Rightarrow> if takeWhile is_digit t \<noteq> [] \<and> dropWhile is_digit t = [93] then Some p else None))"

definition parseProgramFinish :: "jsstr \<Rightarrow> jsstr option" where
  "parseProgramFinish line =
     (case program_line line of None \<Rightarrow> None
      | Some (p, rest) \<Rightarrow>
          if rest = js ''success'' then Some p
          else (case strip_prefix (js ''failed:'') rest of None \<Rightarrow> None
                | Some t \<Rightarrow> if list_all (\<lambda>c. \<not> line_end c) t then Some p else None))"

definition program_data :: "jsstr \<Rightarrow> jsstr option" where
  "program_data line = strip_prefix (js ''Program data: '') line"

section \<open>Discriminators and readers\<close>

definition anchorEventDiscriminator :: "string \<Rightarrow> buffer" where
  "anchorEventDiscriminator name = take 8 (sha256 (utf8_encode (js (''event:'' @ name))))"

definition anchorAccountDiscriminator :: "string \<Rightarrow> buffer" where
  "anchorAccountDiscriminator name = take 8 (sha256 (utf8_encode (js (''account:'' @ name))))"

definition readU128LE :: "int reader" where
  "readU128LE = bindR readU64LE (\<lambda>lo. bindR readU64LE (\<lambda>hi. retR (lo + hi * 2 ^ 64)))"

definition readVecU8 :: "int list reader" where
  "readVecU8 = bindR readU32LE (\<lambda>len. bindR (readBytesClamped (nat len)) (\<lambda>b. retR (map uint b)))"

definition readFixedU64Array :: "nat \<Rightarrow> int list reader" where
  "readFixedU64Array len = repeatR len readU64LE"

definition readFixedHashArray :: "nat \<Rightarrow> buffer list reader" where
  "readFixedHashArray len = repeatR len (readBytesClamped 32)"

definition readVecOutcomeIds :: "buffer list reader" where
  "readVecOutcomeIds = bindR readU32LE (\<lambda>len. repeatR (nat len) (readBytesClamped MAX_OUTCOME_ID_BYTES))"

text \<open>The beginning of every event decoder: a line that is not a data line, or whose discriminator differs, is null.\<close>

definition decode_event :: "string \<Rightarrow> 'a reader \<Rightarrow> jsstr \<Rightarrow> 'a option result" where
  "decode_event name body line =
     (case program_data line of None \<Rightarrow> Inr None
      | Some encoded \<Rightarrow>
          let buf = base64_decode (js_trim encoded) in
          if length buf < 8 \<or> take 8 buf \<noteq> anchorEventDiscriminator name then Inr None
          else bindE (runR body buf 8) (\<lambda>event. Inr (Some event)))"

section \<open>The resolve events\<close>

record resolved_event =
  ev_runtimeId :: buffer
  ev_resolveId :: int
  ev_actor :: buffer
  ev_inputLamports :: int
  ev_totalOutputLamports :: int
  ev_masterSeed :: "buffer option"
  ev_rngVersion :: "int option"
  ev_randomness :: buffer
  ev_compiledArtifactHash :: buffer
  ev_artifactFormatVersion :: int
  ev_winnerCount :: int
  ev_outcomeIdLen :: int
  ev_outcomeId :: buffer
  ev_outcomeIdLens :: "int list"
  ev_outcomeIds :: "buffer list"
  ev_winnerClaimHash :: "buffer option"
  ev_effectCount :: int
  ev_effectsDigest :: buffer
  ev_snapshotHash :: "buffer option"
  ev_resolvedSlots :: "int list option"
  ev_slotHashes :: "buffer list option"
  ev_operatorCommitPresent :: "bool option"
  ev_operatorCommitHash :: "buffer option"
  ev_operatorRevealLen :: "int option"
  ev_operatorReveal :: "buffer option"
  ev_entropySource :: "int option"
  ev_protocolRevision :: "int option"

definition resolvedV1R :: "resolved_event reader" where
  "resolvedV1R =
     bindR (readBytesClamped 16) (\<lambda>runtimeId.
     bindR readU64LE (\<lambda>resolveId.
     bindR (readBytesClamped 32) (\<lambda>actor.
     bindR readU64LE (\<lambda>inputLamports.
     bindR readU64LE (\<lambda>totalOutput.
     bindR (readBytesClamped 32) (\<lambda>masterSeed.
     bindR (readBytesClamped 32) (\<lambda>randomness.
     bindR (readBytesClamped 32) (\<lambda>artifactHash.
     bindR readU8 (\<lambda>idLen.
     bindR (readBytesClamped MAX_OUTCOME_ID_BYTES) (\<lambda>outcomeId.
     bindR readU16LE (\<lambda>effectCount.
     bindR (readBytesClamped 32) (\<lambda>effectsDigest.
     retR \<lparr>ev_runtimeId = runtimeId, ev_resolveId = resolveId, ev_actor = actor, ev_inputLamports = inputLamports,
       ev_totalOutputLamports = totalOutput, ev_masterSeed = Some masterSeed, ev_rngVersion = None,
       ev_randomness = randomness, ev_compiledArtifactHash = artifactHash, ev_artifactFormatVersion = 1,
       ev_winnerCount = 1, ev_outcomeIdLen = idLen, ev_outcomeId = outcomeId, ev_outcomeIdLens = [idLen],
       ev_outcomeIds = [outcomeId], ev_winnerClaimHash = None, ev_effectCount = effectCount,
       ev_effectsDigest = effectsDigest, ev_snapshotHash = None, ev_resolvedSlots = None, ev_slotHashes = None,
       ev_operatorCommitPresent = None, ev_operatorCommitHash = None, ev_operatorRevealLen = None,
       ev_operatorReveal = None, ev_entropySource = None, ev_protocolRevision = None\<rparr>))))))))))))"

definition decodeOutcomeResolvedV1 :: "jsstr \<Rightarrow> resolved_event option result" where
  "decodeOutcomeResolvedV1 line = decode_event ''OutcomeResolvedV1'' resolvedV1R line"

definition resolvedV2R :: "resolved_event reader" where
  "resolvedV2R =
     bindR (readBytesClamped 16) (\<lambda>runtimeId.
     bindR readU64LE (\<lambda>resolveId.
     bindR (readBytesClamped 32) (\<lambda>actor.
     bindR readU64LE (\<lambda>inputLamports.
     bindR readU64LE (\<lambda>totalOutput.
     bindR (readBytesClamped 32) (\<lambda>masterSeed.
     bindR (readBytesClamped 32) (\<lambda>randomness.
     bindR (readBytesClamped 32) (\<lambda>artifactHash.
     bindR readU16LE (\<lambda>version.
     bindR readU16LE (\<lambda>winnerCount.
     bindR readVecU8 (\<lambda>idLens.
     bindR readVecOutcomeIds (\<lambda>ids.
     bindR readU16LE (\<lambda>effectCount.
     bindR (readBytesClamped 32) (\<lambda>effectsDigest.
     retR \<lparr>ev_runtimeId = runtimeId, ev_resolveId = resolveId, ev_actor = actor, ev_inputLamports = inputLamports,
       ev_totalOutputLamports = totalOutput, ev_masterSeed = Some masterSeed, ev_rngVersion = None,
       ev_randomness = randomness, ev_compiledArtifactHash = artifactHash, ev_artifactFormatVersion = version,
       ev_winnerCount = winnerCount, ev_outcomeIdLen = (case idLens of [] \<Rightarrow> 0 | n # _ \<Rightarrow> n),
       ev_outcomeId = (case ids of [] \<Rightarrow> zeros MAX_OUTCOME_ID_BYTES | b # _ \<Rightarrow> b), ev_outcomeIdLens = idLens,
       ev_outcomeIds = ids, ev_winnerClaimHash = None, ev_effectCount = effectCount,
       ev_effectsDigest = effectsDigest, ev_snapshotHash = None, ev_resolvedSlots = None, ev_slotHashes = None,
       ev_operatorCommitPresent = None, ev_operatorCommitHash = None, ev_operatorRevealLen = None,
       ev_operatorReveal = None, ev_entropySource = None, ev_protocolRevision = None\<rparr>))))))))))))))"

definition decodeOutcomeResolvedV2 :: "jsstr \<Rightarrow> resolved_event option result" where
  "decodeOutcomeResolvedV2 line = decode_event ''OutcomeResolvedV2'' resolvedV2R line"

definition resolvedV3R :: "resolved_event reader" where
  "resolvedV3R =
     bindR (readBytesClamped 16) (\<lambda>runtimeId.
     bindR readU64LE (\<lambda>resolveId.
     bindR (readBytesClamped 32) (\<lambda>actor.
     bindR readU64LE (\<lambda>inputLamports.
     bindR readU64LE (\<lambda>totalOutput.
     bindR (readBytesClamped 32) (\<lambda>masterSeed.
     bindR (readBytesClamped 32) (\<lambda>randomness.
     bindR (readBytesClamped 32) (\<lambda>artifactHash.
     bindR readU16LE (\<lambda>version.
     bindR readU16LE (\<lambda>winnerCount.
     bindR (readBytesClamped 32) (\<lambda>claimHash.
     bindR readU8 (\<lambda>idLen.
     bindR (readBytesClamped MAX_OUTCOME_ID_BYTES) (\<lambda>outcomeId.
     bindR readU16LE (\<lambda>effectCount.
     bindR (readBytesClamped 32) (\<lambda>effectsDigest.
     retR \<lparr>ev_runtimeId = runtimeId, ev_resolveId = resolveId, ev_actor = actor, ev_inputLamports = inputLamports,
       ev_totalOutputLamports = totalOutput, ev_masterSeed = Some masterSeed, ev_rngVersion = None,
       ev_randomness = randomness, ev_compiledArtifactHash = artifactHash, ev_artifactFormatVersion = version,
       ev_winnerCount = winnerCount, ev_outcomeIdLen = idLen, ev_outcomeId = outcomeId, ev_outcomeIdLens = [idLen],
       ev_outcomeIds = [outcomeId], ev_winnerClaimHash = Some claimHash, ev_effectCount = effectCount,
       ev_effectsDigest = effectsDigest, ev_snapshotHash = None, ev_resolvedSlots = None, ev_slotHashes = None,
       ev_operatorCommitPresent = None, ev_operatorCommitHash = None, ev_operatorRevealLen = None,
       ev_operatorReveal = None, ev_entropySource = None, ev_protocolRevision = None\<rparr>)))))))))))))))"

definition decodeOutcomeResolvedV3 :: "jsstr \<Rightarrow> resolved_event option result" where
  "decodeOutcomeResolvedV3 line = decode_event ''OutcomeResolvedV3'' resolvedV3R line"

text \<open>The rng_v2 events. The part they share ends with the operator's reveal.\<close>

definition rng_prefixR :: "resolved_event reader" where
  "rng_prefixR =
     bindR (readBytesClamped 16) (\<lambda>runtimeId.
     bindR readU64LE (\<lambda>resolveId.
     bindR (readBytesClamped 32) (\<lambda>actor.
     bindR readU64LE (\<lambda>inputLamports.
     bindR readU64LE (\<lambda>totalOutput.
     bindR readU8 (\<lambda>rngVersion.
     bindR (readBytesClamped 32) (\<lambda>randomness.
     bindR (readBytesClamped 32) (\<lambda>artifactHash.
     bindR readU16LE (\<lambda>version.
     bindR readU16LE (\<lambda>winnerCount.
     bindR (readBytesClamped 32) (\<lambda>claimHash.
     bindR readU8 (\<lambda>idLen.
     bindR (readBytesClamped MAX_OUTCOME_ID_BYTES) (\<lambda>outcomeId.
     bindR readU16LE (\<lambda>effectCount.
     bindR (readBytesClamped 32) (\<lambda>effectsDigest.
     bindR (readBytesClamped 32) (\<lambda>snapshotHash'.
     bindR (readFixedU64Array 3) (\<lambda>resolvedSlots.
     bindR (readFixedHashArray 3) (\<lambda>slotHashes.
     bindR readU8 (\<lambda>commitPresent.
     bindR (readBytesClamped 32) (\<lambda>commitHash.
     bindR readU8 (\<lambda>revealLen.
     bindR (readBytesClamped 32) (\<lambda>reveal.
     retR \<lparr>ev_runtimeId = runtimeId, ev_resolveId = resolveId, ev_actor = actor, ev_inputLamports = inputLamports,
       ev_totalOutputLamports = totalOutput, ev_masterSeed = None, ev_rngVersion = Some rngVersion,
       ev_randomness = randomness, ev_compiledArtifactHash = artifactHash, ev_artifactFormatVersion = version,
       ev_winnerCount = winnerCount, ev_outcomeIdLen = idLen, ev_outcomeId = outcomeId, ev_outcomeIdLens = [idLen],
       ev_outcomeIds = [outcomeId], ev_winnerClaimHash = Some claimHash, ev_effectCount = effectCount,
       ev_effectsDigest = effectsDigest, ev_snapshotHash = Some snapshotHash', ev_resolvedSlots = Some resolvedSlots,
       ev_slotHashes = Some slotHashes, ev_operatorCommitPresent = Some (commitPresent \<noteq> 0),
       ev_operatorCommitHash = Some commitHash, ev_operatorRevealLen = Some revealLen,
       ev_operatorReveal = Some reveal, ev_entropySource = None, ev_protocolRevision = None\<rparr>))))))))))))))))))))))"

text \<open>\<^verbatim>\<open>offset.value < buf.length ? readU8(buf, offset) : undefined\<close>\<close>

definition optionalU8 :: "int option reader" where
  "optionalU8 = (\<lambda>buf off. if off < length buf then bindR readU8 (\<lambda>v. retR (Some v)) buf off else retR None buf off)"

definition resolvedV4R :: "resolved_event reader" where
  "resolvedV4R = bindR rng_prefixR (\<lambda>event. bindR optionalU8 (\<lambda>entropySource. retR (event\<lparr>ev_entropySource := entropySource\<rparr>)))"

definition decodeOutcomeResolvedV4 :: "jsstr \<Rightarrow> resolved_event option result" where
  "decodeOutcomeResolvedV4 line = decode_event ''OutcomeResolvedV4'' resolvedV4R line"

definition resolvedV5R :: "resolved_event reader" where
  "resolvedV5R =
     bindR rng_prefixR (\<lambda>event.
     bindR readU8 (\<lambda>entropySource.
     bindR readU8 (\<lambda>protocolRevision.
     bindR readVecU8 (\<lambda>idLens.
     bindR readVecOutcomeIds (\<lambda>ids.
     retR (event\<lparr>ev_outcomeIdLens := idLens, ev_outcomeIds := ids, ev_entropySource := Some entropySource,
       ev_protocolRevision := Some protocolRevision\<rparr>))))))"

definition decodeOutcomeResolvedV5 :: "jsstr \<Rightarrow> resolved_event option result" where
  "decodeOutcomeResolvedV5 line = decode_event ''OutcomeResolvedV5'' resolvedV5R line"

text \<open>\<^verbatim>\<open>a ?? b\<close> for computations that may throw.\<close>

definition or_null :: "'a option result \<Rightarrow> 'a option result \<Rightarrow> 'a option result" where
  "or_null a b = bindE a (\<lambda>x. case x of None \<Rightarrow> b | Some v \<Rightarrow> Inr (Some v))"

definition decode_resolved :: "jsstr \<Rightarrow> resolved_event option result" where
  "decode_resolved line =
     or_null (decodeOutcomeResolvedV5 line) (or_null (decodeOutcomeResolvedV4 line) (or_null (decodeOutcomeResolvedV3 line)
       (or_null (decodeOutcomeResolvedV2 line) (decodeOutcomeResolvedV1 line))))"

section \<open>The scanner\<close>

text \<open>The stack with its top first: the last occurrence of the finished program is removed.\<close>

definition pop_program :: "jsstr \<Rightarrow> jsstr list \<Rightarrow> jsstr list" where
  "pop_program p stack = remove1 p stack"

record scan_state =
  ss_stack :: "jsstr list"
  ss_sawInvoke :: bool
  ss_sawData :: bool
  ss_mismatch :: "jsstr option"

text \<open>What the loop body does to one line: go on with a new state, or return the event.\<close>

definition scan_line :: "jsstr \<Rightarrow> scan_state \<Rightarrow> jsstr \<Rightarrow> (scan_state + resolved_event) result" where
  "scan_line expected st line =
     (case parseProgramInvoke line of
        Some p \<Rightarrow> Inr (Inl (st\<lparr>ss_stack := p # ss_stack st, ss_sawInvoke := (ss_sawInvoke st \<or> p = expected)\<rparr>))
      | None \<Rightarrow>
     (case parseProgramFinish line of
        Some p \<Rightarrow> Inr (Inl (st\<lparr>ss_stack := pop_program p (ss_stack st)\<rparr>))
      | None \<Rightarrow>
     (case (program_data line, ss_stack st) of
        (Some _, current # _) \<Rightarrow>
          bindE (decode_resolved line) (\<lambda>event.
          if current = expected then
            (case event of Some e \<Rightarrow> Inr (Inr e) | None \<Rightarrow> Inr (Inl (st\<lparr>ss_sawData := True\<rparr>)))
          else if event \<noteq> None \<and> ss_mismatch st = None then Inr (Inl (st\<lparr>ss_mismatch := Some current\<rparr>))
          else Inr (Inl st))
      | _ \<Rightarrow> Inr (Inl st))))"

definition scan_end :: "scan_state \<Rightarrow> resolved_event result" where
  "scan_end st =
     (if ss_mismatch st \<noteq> None then Inl (ReplayMismatch ''ERR_PROGRAM_ID_MISMATCH'')
      else if \<not> ss_sawInvoke st then Inl (ReplayMismatch ''ERR_PROGRAM_ID_MISMATCH'')
      else if ss_sawData st then Inl (ReplayMismatch ''ERR_EVENT_DISCRIMINATOR_MISMATCH'')
      else Inl (ReplayMismatch ''ERR_EVENT_NOT_FOUND_FOR_PROGRAM''))"

primrec scan_lines :: "jsstr \<Rightarrow> scan_state \<Rightarrow> jsstr list \<Rightarrow> resolved_event result" where
  "scan_lines expected st [] = scan_end st"
| "scan_lines expected st (line # rest) =
     bindE (scan_line expected st line) (\<lambda>r. case r of Inl st' \<Rightarrow> scan_lines expected st' rest | Inr event \<Rightarrow> Inr event)"

definition scan_start :: scan_state where
  "scan_start = \<lparr>ss_stack = [], ss_sawInvoke = False, ss_sawData = False, ss_mismatch = None\<rparr>"

definition findOutcomeResolvedEvent :: "jsstr list \<Rightarrow> jsstr \<Rightarrow> resolved_event result" where
  "findOutcomeResolvedEvent logs expectedProgramId = scan_lines expectedProgramId scan_start logs"

text \<open>The scanner of the other two events: the first one of the expected program, or null.\<close>

primrec find_own_event :: "(jsstr \<Rightarrow> 'a option result) \<Rightarrow> jsstr \<Rightarrow> jsstr list \<Rightarrow> jsstr list \<Rightarrow> 'a option result" where
  "find_own_event decode expected stack [] = Inr None"
| "find_own_event decode expected stack (line # rest) =
     (case parseProgramInvoke line of Some p \<Rightarrow> find_own_event decode expected (p # stack) rest
      | None \<Rightarrow>
     (case parseProgramFinish line of Some p \<Rightarrow> find_own_event decode expected (pop_program p stack) rest
      | None \<Rightarrow>
        if program_data line = None \<or> stack = [] \<or> hd stack \<noteq> expected then find_own_event decode expected stack rest
        else bindE (decode line) (\<lambda>event. case event of
               Some e \<Rightarrow> Inr (Some e) | None \<Rightarrow> find_own_event decode expected stack rest)))"

section \<open>Conditions and slot events\<close>

record conditions_event =
  ce_runtimeId :: buffer
  ce_operator :: buffer
  ce_compiledArtifactHash :: buffer
  ce_entrantCount :: int
  ce_winnerCount :: int
  ce_winningScoreSum :: int
  ce_winnersDigest :: buffer
  ce_factsRefRoot :: buffer

definition conditionsResolvedV1R :: "conditions_event reader" where
  "conditionsResolvedV1R =
     bindR (readBytesClamped 16) (\<lambda>runtimeId.
     bindR (readBytesClamped 32) (\<lambda>operator.
     bindR (readBytesClamped 32) (\<lambda>artifactHash.
     bindR readU32LE (\<lambda>entrantCount.
     bindR readU16LE (\<lambda>winnerCount.
     bindR readU128LE (\<lambda>scoreSum.
     bindR (readBytesClamped 32) (\<lambda>digest.
     bindR (readBytesClamped 32) (\<lambda>root.
     retR \<lparr>ce_runtimeId = runtimeId, ce_operator = operator, ce_compiledArtifactHash = artifactHash,
       ce_entrantCount = entrantCount, ce_winnerCount = winnerCount, ce_winningScoreSum = scoreSum,
       ce_winnersDigest = digest, ce_factsRefRoot = root\<rparr>))))))))"

definition decodeConditionsResolvedV1 :: "jsstr \<Rightarrow> conditions_event option result" where
  "decodeConditionsResolvedV1 line = decode_event ''ConditionsResolvedV1'' conditionsResolvedV1R line"

definition findConditionsResolvedEvent :: "jsstr list \<Rightarrow> jsstr \<Rightarrow> conditions_event option result" where
  "findConditionsResolvedEvent logs expected = find_own_event decodeConditionsResolvedV1 expected [] logs"

record slot_event =
  se_runtimeId :: buffer
  se_resolveId :: int
  se_actor :: buffer
  se_inputLamports :: int
  se_payoutLamports :: int
  se_rawWinLamports :: int
  se_compiledArtifactHash :: buffer
  se_randomness :: buffer
  se_reelCount :: "int option"
  se_reelStops :: "int list"
  se_resolvedSlots :: "int list"
  se_slotHashes :: "buffer list"
  se_settledAtSlot :: int

text \<open>\<^verbatim>\<open>buf[offset.value]; offset.value += 1\<close>\<close>

definition indexByteR :: "int option reader" where
  "indexByteR = (\<lambda>buf off. Inr (byte_at buf off, off + 1))"

definition slotSpinResolvedV1R :: "slot_event reader" where
  "slotSpinResolvedV1R =
     bindR (readBytesClamped 16) (\<lambda>runtimeId.
     bindR readU64LE (\<lambda>resolveId.
     bindR (readBytesClamped 32) (\<lambda>actor.
     bindR readU64LE (\<lambda>inputLamports.
     bindR readU64LE (\<lambda>payoutLamports.
     bindR readU64LE (\<lambda>rawWin.
     bindR (readBytesClamped 32) (\<lambda>artifactHash.
     bindR (readBytesClamped 32) (\<lambda>randomness.
     bindR indexByteR (\<lambda>reelCount.
     bindR (repeatR 16 readU16LE) (\<lambda>reelStops.
     bindR (readFixedU64Array 3) (\<lambda>resolvedSlots.
     bindR (readFixedHashArray 3) (\<lambda>slotHashes.
     bindR readU64LE (\<lambda>settledAt.
     retR \<lparr>se_runtimeId = runtimeId, se_resolveId = resolveId, se_actor = actor, se_inputLamports = inputLamports,
       se_payoutLamports = payoutLamports, se_rawWinLamports = rawWin, se_compiledArtifactHash = artifactHash,
       se_randomness = randomness, se_reelCount = reelCount, se_reelStops = reelStops, se_resolvedSlots = resolvedSlots,
       se_slotHashes = slotHashes, se_settledAtSlot = settledAt\<rparr>)))))))))))))"

definition decodeSlotSpinResolvedV1 :: "jsstr \<Rightarrow> slot_event option result" where
  "decodeSlotSpinResolvedV1 line = decode_event ''SlotSpinResolvedV1'' slotSpinResolvedV1R line"

definition findSlotSpinResolvedEvent :: "jsstr list \<Rightarrow> jsstr \<Rightarrow> slot_event option result" where
  "findSlotSpinResolvedEvent logs expected = find_own_event decodeSlotSpinResolvedV1 expected [] logs"

section \<open>Accounts\<close>

record resolution_account =
  ra_runtimeId :: buffer
  ra_resolveId :: int
  ra_actor :: buffer
  ra_inputLamports :: int
  ra_status :: int
  ra_rngVersion :: int
  ra_artifactFormatVersion :: int
  ra_winnerCount :: int
  ra_winnerClaimHash :: buffer
  ra_totalOutputLamports :: int
  ra_compiledArtifactHash :: buffer
  ra_randomness :: buffer
  ra_outcomeIdLen :: int
  ra_outcomeId :: buffer
  ra_effectCount :: int
  ra_effectsDigest :: buffer
  ra_snapshotHash :: buffer
  ra_resolvedSlots :: "int list"
  ra_slotHashes :: "buffer list"
  ra_operatorCommitPresent :: bool
  ra_operatorCommitHash :: buffer
  ra_operatorRevealLen :: int
  ra_operatorReveal :: buffer
  ra_bump :: int
  ra_protocolRevision :: int
  ra_bountyLamports :: int
  ra_reserved :: buffer

definition outcomeResolutionV4R :: "resolution_account reader" where
  "outcomeResolutionV4R =
     bindR (readBytesClamped 16) (\<lambda>runtimeId.
     bindR readU64LE (\<lambda>resolveId.
     bindR (readBytesClamped 32) (\<lambda>actor.
     bindR readU64LE (\<lambda>inputLamports.
     bindR readU8 (\<lambda>status.
     bindR readU8 (\<lambda>rngVersion.
     bindR readU16LE (\<lambda>version.
     bindR readU16LE (\<lambda>winnerCount.
     bindR (readBytesClamped 32) (\<lambda>claimHash.
     bindR readU64LE (\<lambda>totalOutput.
     bindR (readBytesClamped 32) (\<lambda>artifactHash.
     bindR (readBytesClamped 32) (\<lambda>randomness.
     bindR readU8 (\<lambda>idLen.
     bindR (readBytesClamped MAX_OUTCOME_ID_BYTES) (\<lambda>outcomeId.
     bindR readU16LE (\<lambda>effectCount.
     bindR (readBytesClamped 32) (\<lambda>effectsDigest.
     bindR (readBytesClamped 32) (\<lambda>snapshotHash'.
     bindR (readFixedU64Array 3) (\<lambda>resolvedSlots.
     bindR (readFixedHashArray 3) (\<lambda>slotHashes.
     bindR readU8 (\<lambda>commitPresent.
     bindR (readBytesClamped 32) (\<lambda>commitHash.
     bindR readU8 (\<lambda>revealLen.
     bindR (readBytesClamped 32) (\<lambda>reveal.
     bindR readU8 (\<lambda>bump.
     bindR readU8 (\<lambda>revision.
     bindR readU64LE (\<lambda>bounty.
     bindR (readBytesClamped 20) (\<lambda>reserved.
     retR \<lparr>ra_runtimeId = runtimeId, ra_resolveId = resolveId, ra_actor = actor, ra_inputLamports = inputLamports,
       ra_status = status, ra_rngVersion = rngVersion, ra_artifactFormatVersion = version, ra_winnerCount = winnerCount,
       ra_winnerClaimHash = claimHash, ra_totalOutputLamports = totalOutput, ra_compiledArtifactHash = artifactHash,
       ra_randomness = randomness, ra_outcomeIdLen = idLen, ra_outcomeId = outcomeId, ra_effectCount = effectCount,
       ra_effectsDigest = effectsDigest, ra_snapshotHash = snapshotHash', ra_resolvedSlots = resolvedSlots,
       ra_slotHashes = slotHashes, ra_operatorCommitPresent = (commitPresent \<noteq> 0), ra_operatorCommitHash = commitHash,
       ra_operatorRevealLen = revealLen, ra_operatorReveal = reveal, ra_bump = bump, ra_protocolRevision = revision,
       ra_bountyLamports = bounty, ra_reserved = reserved\<rparr>)))))))))))))))))))))))))))"

definition decode_account :: "string \<Rightarrow> js_error \<Rightarrow> 'a reader \<Rightarrow> buffer \<Rightarrow> 'a result" where
  "decode_account name e body data =
     throwIf (length data < 8 \<or> take 8 data \<noteq> anchorAccountDiscriminator name) e (runR body data 8)"

definition decodeOutcomeResolutionV4Account :: "buffer \<Rightarrow> resolution_account result" where
  "decodeOutcomeResolutionV4Account data =
     decode_account ''OutcomeResolutionV4'' (Error ''OutcomeResolutionV4 discriminator mismatch'') outcomeResolutionV4R data"

record rng_v2_state =
  rs_runtimeId :: buffer
  rs_resolveId :: int
  rs_actor :: buffer
  rs_inputLamports :: int
  rs_status :: int
  rs_compiledArtifactHash :: buffer
  rs_artifactFormatVersion :: int
  rs_snapshotHash :: buffer
  rs_targetSlots :: "int list"
  rs_expirySlot :: int
  rs_operatorCommitPresent :: bool
  rs_operatorCommitHash :: buffer
  rs_operatorRevealLen :: int
  rs_operatorReveal :: buffer
  rs_resolvedSlots :: "int list"
  rs_slotHashes :: "buffer list"

definition rngV2StateR :: "rng_v2_state reader" where
  "rngV2StateR =
     bindR (readBytesClamped 16) (\<lambda>runtimeId.
     bindR readU64LE (\<lambda>resolveId.
     bindR (readBytesClamped 32) (\<lambda>actor.
     bindR readU64LE (\<lambda>inputLamports.
     bindR readU8 (\<lambda>status.
     bindR (readBytesClamped 32) (\<lambda>artifactHash.
     bindR readU16LE (\<lambda>version.
     bindR (readBytesClamped 32) (\<lambda>snapshotHash'.
     bindR (readFixedU64Array 3) (\<lambda>targetSlots.
     bindR readU64LE (\<lambda>expirySlot.
     bindR readU8 (\<lambda>commitPresent.
     bindR (readBytesClamped 32) (\<lambda>commitHash.
     bindR readU8 (\<lambda>revealLen.
     bindR (readBytesClamped 32) (\<lambda>reveal.
     bindR (readFixedU64Array 3) (\<lambda>resolvedSlots.
     bindR (readFixedHashArray 3) (\<lambda>slotHashes.
     bindR readU8 (\<lambda>_.
     bindR (readBytesClamped 32) (\<lambda>_.
     retR \<lparr>rs_runtimeId = runtimeId, rs_resolveId = resolveId, rs_actor = actor, rs_inputLamports = inputLamports,
       rs_status = status, rs_compiledArtifactHash = artifactHash, rs_artifactFormatVersion = version,
       rs_snapshotHash = snapshotHash', rs_targetSlots = targetSlots, rs_expirySlot = expirySlot,
       rs_operatorCommitPresent = (commitPresent \<noteq> 0), rs_operatorCommitHash = commitHash,
       rs_operatorRevealLen = revealLen, rs_operatorReveal = reveal, rs_resolvedSlots = resolvedSlots,
       rs_slotHashes = slotHashes\<rparr>))))))))))))))))))"

definition decodeRngV2StateAccount :: "buffer \<Rightarrow> rng_v2_state result" where
  "decodeRngV2StateAccount data =
     decode_account ''RngV2State'' (Error ''RngV2State discriminator mismatch'') rngV2StateR data"

section \<open>The digest of the selected winners\<close>

definition RNG_V2_WINNERS_DOMAIN :: buffer where
  "RNG_V2_WINNERS_DOMAIN = ascii_bytes (js ''VRE_RNG_V2_WINNERS'')"

definition winner_digest_part :: "buffer list \<Rightarrow> nat \<times> int \<Rightarrow> buffer result" where
  "winner_digest_part ids kl =
     (case kl of (k, len) \<Rightarrow>
      throwIf (length ids \<le> k) (TypeError ''Cannot read properties of undefined'')
        (Inr (byte_of len @ take (nat len) (ids ! k))))"

definition winnerClaimDigest :: "int list \<Rightarrow> buffer list \<Rightarrow> buffer result" where
  "winnerClaimDigest outcomeIdLens outcomeIds =
     bindE (u16le (int (length outcomeIdLens))) (\<lambda>count'.
     bindE (concatE (map (winner_digest_part outcomeIds) (enumerate 0 outcomeIdLens))) (\<lambda>parts.
     Inr (sha256 (RNG_V2_WINNERS_DOMAIN @ count' @ parts))))"

end
