(* ===== verification/Events_Scan.thy ===== *)
theory Events_Scan
  imports Events
begin

text \<open>
  Who emitted an event. A transaction runs a tree of invocations; its log brackets the lines of each one, and
  \<open>log_of\<close> writes the log of a tree. The specification of the scanner is then plain: of the data lines in
  execution order, each with the program that wrote it, the first one of the expected program that decodes,
  unless an earlier data line, of whatever program, makes the decoder throw: that error ends the scan, since
  the code decodes a line before it looks at the program that wrote it.
  Log messages are chosen by programs, so it matters that no message can pass for a bracket.
\<close>

section \<open>Invocation trees and their logs\<close>

datatype log_item =
    Data_line jsstr
  | Note_line jsstr
  | Invocation jsstr nat "jsstr option" "log_item list"

definition invoke_line :: "jsstr \<Rightarrow> nat \<Rightarrow> jsstr" where
  "invoke_line p d = js ''Program '' @ p @ js '' invoke ['' @ dec_digits d @ js '']''"

definition finish_line :: "jsstr \<Rightarrow> jsstr option \<Rightarrow> jsstr" where
  "finish_line p failure = js ''Program '' @ p @ (case failure of None \<Rightarrow> js '' success'' | Some m \<Rightarrow> js '' failed:'' @ m)"

definition data_line :: "jsstr \<Rightarrow> jsstr" where
  "data_line t = js ''Program data: '' @ t"

fun log_of :: "log_item \<Rightarrow> jsstr list" where
  "log_of (Data_line t) = [data_line t]"
| "log_of (Note_line t) = [t]"
| "log_of (Invocation p d failure items) = [invoke_line p d] @ concat (map log_of items) @ [finish_line p failure]"

text \<open>A line that is neither a bracket nor data, for instance every \<^verbatim>\<open>Program log: ...\<close>.\<close>

definition plain_line :: "jsstr \<Rightarrow> bool" where
  "plain_line t \<longleftrightarrow> parseProgramInvoke t = None \<and> parseProgramFinish t = None \<and> program_data t = None"

definition program_id_ok :: "jsstr \<Rightarrow> bool" where
  "program_id_ok p \<longleftrightarrow> p \<noteq> [] \<and> list_all base58_unit p"

fun item_ok :: "log_item \<Rightarrow> bool" where
  "item_ok (Data_line t) = True"
| "item_ok (Note_line t) = plain_line t"
| "item_ok (Invocation p d failure items) \<longleftrightarrow>
     program_id_ok p \<and> (\<forall>m. failure = Some m \<longrightarrow> list_all (\<lambda>c. \<not> line_end c) m) \<and> (\<forall>x \<in> set items. item_ok x)"

text \<open>The data lines in execution order, each with the program whose frame it is in.\<close>

fun emitted :: "jsstr \<Rightarrow> log_item \<Rightarrow> (jsstr \<times> jsstr) list" where
  "emitted current (Data_line t) = [(current, data_line t)]"
| "emitted current (Note_line t) = []"
| "emitted current (Invocation p d failure items) = concat (map (emitted p) items)"

fun invoked :: "log_item \<Rightarrow> jsstr set" where
  "invoked (Data_line t) = {}"
| "invoked (Note_line t) = {}"
| "invoked (Invocation p d failure items) = insert p (\<Union>x \<in> set items. invoked x)"

section \<open>Lines\<close>

lemma strip_prefix_append [simp]: "strip_prefix p (p @ s) = Some s"
  by (simp add: strip_prefix_def)

lemma program_line_of:
  assumes "program_id_ok p"
  shows "program_line (js ''Program '' @ p @ 32 # rest) = Some (p, rest)"
proof -
  have sp: "\<not> base58_unit 32" by (simp add: base58_unit_def)
  have p: "\<forall>c \<in> set p. base58_unit c" "p \<noteq> []" using assms by (auto simp: program_id_ok_def)
  have "takeWhile base58_unit (p @ 32 # rest) = p" "dropWhile base58_unit (p @ 32 # rest) = 32 # rest"
    using p sp by (simp_all add: takeWhile_append dropWhile_append)
  with p show ?thesis by (simp add: program_line_def Let_def)
qed

lemma js_cons: "js (c # s) = of_char c # js s" and js_nil: "js [] = []"
  by (simp_all add: js_def)

lemma parse_invoke_line:
  assumes "program_id_ok p"
  shows "parseProgramInvoke (invoke_line p d) = Some p"
proof -
  have line: "invoke_line p d = js ''Program '' @ p @ 32 # (js ''invoke ['' @ dec_digits d @ js '']'')"
    by (simp add: invoke_line_def js_cons js_nil)
  have ds: "\<forall>c \<in> set (dec_digits d). is_digit c" "dec_digits d \<noteq> []" by (rule dec_digits_digits dec_digits_not_Nil)+
  have "\<not> is_digit 93" by (simp add: is_digit_def)
  with ds have "takeWhile is_digit (dec_digits d @ [93]) = dec_digits d" "dropWhile is_digit (dec_digits d @ [93]) = [93]"
    by (simp_all add: takeWhile_append dropWhile_append)
  moreover have "js '']'' = [93]" by (simp add: js_def)
  ultimately show ?thesis
    unfolding parseProgramInvoke_def line program_line_of [OF assms] using ds by simp
qed

lemma parse_finish_line:
  assumes "program_id_ok p" and "\<forall>m. failure = Some m \<longrightarrow> list_all (\<lambda>c. \<not> line_end c) m"
  shows "parseProgramInvoke (finish_line p failure) = None" and "parseProgramFinish (finish_line p failure) = Some p"
proof -
  define rest where "rest = (case failure of None \<Rightarrow> js ''success'' | Some m \<Rightarrow> js ''failed:'' @ m)"
  have line: "finish_line p failure = js ''Program '' @ p @ 32 # rest"
    by (simp add: finish_line_def rest_def js_cons js_nil split: option.splits)
  have inv: "strip_prefix (js ''invoke ['') rest = None"
    by (cases failure) (simp_all add: rest_def strip_prefix_def js_def)
  show "parseProgramInvoke (finish_line p failure) = None"
    unfolding parseProgramInvoke_def line program_line_of [OF assms(1)] by (simp add: inv)
  show "parseProgramFinish (finish_line p failure) = Some p"
  proof (cases failure)
    case None
    then show ?thesis unfolding parseProgramFinish_def line program_line_of [OF assms(1)] by (simp add: rest_def)
  next
    case (Some m)
    have "js ''failed:'' @ m \<noteq> js ''success''" by (simp add: js_def)
    with Some assms(2) show ?thesis
      unfolding parseProgramFinish_def line program_line_of [OF assms(1)] by (simp add: rest_def)
  qed
qed

text \<open>No line \<^verbatim>\<open>Program <word>: ...\<close> with a colon after the word is a bracket.\<close>

lemma colon_line:
  assumes "list_all base58_unit w" and "w \<noteq> []"
  shows "program_line (js ''Program '' @ w @ 58 # t) = None"
proof -
  have sp: "\<not> base58_unit 58" by (simp add: base58_unit_def)
  have w: "\<forall>c \<in> set w. base58_unit c" using assms by simp
  have "takeWhile base58_unit (w @ 58 # t) = w" "dropWhile base58_unit (w @ 58 # t) = 58 # t"
    using w sp by (simp_all add: takeWhile_append dropWhile_append)
  with assms(2) show ?thesis by (simp add: program_line_def Let_def)
qed

lemma data_line_facts:
  "parseProgramInvoke (data_line t) = None" "parseProgramFinish (data_line t) = None" "program_data (data_line t) = Some t"
proof -
  have "data_line t = js ''Program '' @ js ''data'' @ 58 # 32 # t" by (simp add: data_line_def js_def)
  moreover have "list_all base58_unit (js ''data'')" "js ''data'' \<noteq> []" by (simp_all add: js_def base58_unit_def)
  ultimately have "program_line (data_line t) = None" by (simp add: colon_line)
  then show "parseProgramInvoke (data_line t) = None" "parseProgramFinish (data_line t) = None"
    by (simp_all add: parseProgramInvoke_def parseProgramFinish_def)
  show "program_data (data_line t) = Some t" by (simp add: program_data_def data_line_def)
qed

text \<open>Whatever text a program logs, the line is plain.\<close>

lemma log_line_plain: "plain_line (js ''Program log: '' @ t)"
proof -
  have l: "\<not> base58_unit 108" "base58_unit 111" by (simp_all add: base58_unit_def)
  have "program_line (js ''Program log: '' @ t) = None"
    using l by (simp add: program_line_def strip_prefix_def js_def)
  moreover have "program_data (js ''Program log: '' @ t) = None"
    by (simp add: program_data_def strip_prefix_def js_def)
  ultimately show ?thesis by (simp add: plain_line_def parseProgramInvoke_def parseProgramFinish_def)
qed

section \<open>The scanner on a log\<close>

definition event_in :: "jsstr \<Rightarrow> resolved_event option" where
  "event_in line = (case decode_resolved line of Inr (Some e) \<Rightarrow> Some e | _ \<Rightarrow> None)"

text \<open>How the data lines end the scan, if they do: with the expected program's event, or with the error of decoding
  a line of any program.\<close>

fun scan_outcome :: "jsstr \<Rightarrow> (jsstr \<times> jsstr) list \<Rightarrow> resolved_event result option" where
  "scan_outcome expected [] = None"
| "scan_outcome expected ((p, l) # es) =
     (case decode_resolved l of
        Inl error \<Rightarrow> Some (Inl error)
      | Inr (Some e) \<Rightarrow> if p = expected then Some (Inr e) else scan_outcome expected es
      | Inr None \<Rightarrow> scan_outcome expected es)"

definition after_emitted :: "jsstr \<Rightarrow> scan_state \<Rightarrow> (jsstr \<times> jsstr) list \<Rightarrow> scan_state" where
  "after_emitted expected st es = st
     \<lparr>ss_sawData := ss_sawData st \<or> (\<exists>(p, l) \<in> set es. p = expected),
      ss_mismatch := (case ss_mismatch st of Some p \<Rightarrow> Some p
        | None \<Rightarrow> map_option fst (find (\<lambda>(p, l). p \<noteq> expected \<and> event_in l \<noteq> None) es))\<rparr>"

definition saw_invoke :: "jsstr \<Rightarrow> jsstr set \<Rightarrow> scan_state \<Rightarrow> scan_state" where
  "saw_invoke expected ps st = st\<lparr>ss_sawInvoke := ss_sawInvoke st \<or> expected \<in> ps\<rparr>"

lemma find_append: "find P (xs @ ys) = (case find P xs of None \<Rightarrow> find P ys | Some x \<Rightarrow> Some x)"
  by (induction xs) auto

lemma scan_outcome_append:
  "scan_outcome expected (xs @ ys) = (case scan_outcome expected xs of None \<Rightarrow> scan_outcome expected ys | Some r \<Rightarrow> Some r)"
  by (induction expected xs rule: scan_outcome.induct) (simp_all split: sum.splits option.splits)

text \<open>The scan goes on through lines that decode and carry no event of the expected program.\<close>

lemma scan_outcome_passes:
  assumes "\<forall>(p, l) \<in> set es. is_ok (decode_resolved l) \<and> (p = expected \<longrightarrow> event_in l = None)"
  shows "scan_outcome expected es = None"
  using assms
  by (induction expected es rule: scan_outcome.induct) (auto simp: event_in_def split: sum.splits option.splits)

lemma after_emitted_Nil [simp]: "after_emitted expected st [] = st"
  by (simp add: after_emitted_def split: option.splits)

lemma after_emitted_append:
  "after_emitted expected st (xs @ ys) = after_emitted expected (after_emitted expected st xs) ys"
  by (auto simp: after_emitted_def find_append bex_Un split: option.splits)

lemma saw_invoke_simps [simp]:
  "saw_invoke expected {} st = st" "ss_stack (saw_invoke expected ps st) = ss_stack st"
  "saw_invoke expected qs (saw_invoke expected ps st) = saw_invoke expected (ps \<union> qs) st"
  "ss_stack (after_emitted expected st es) = ss_stack st"
  by (auto simp: saw_invoke_def after_emitted_def)

lemma saw_invoke_after:
  "saw_invoke expected ps (after_emitted expected st es) = after_emitted expected (saw_invoke expected ps st) es"
  by (simp add: saw_invoke_def after_emitted_def)

lemma scan_data_line:
  assumes st: "ss_stack st = current # stack"
  shows "scan_lines expected st (data_line t # rest) =
    (case scan_outcome expected [(current, data_line t)] of Some r \<Rightarrow> r
     | None \<Rightarrow> scan_lines expected (after_emitted expected st [(current, data_line t)]) rest)"
proof (cases "decode_resolved (data_line t)")
  case (Inl error)
  then show ?thesis using st by (simp add: scan_line_def data_line_facts)
next
  case (Inr x)
  then show ?thesis
    by (cases st; cases x; cases "ss_mismatch st")
      (use st in \<open>auto simp: scan_line_def data_line_facts event_in_def after_emitted_def\<close>)
qed

text \<open>What scanning an item amounts to, as a property of the item and the frame it is in.\<close>

definition scans_as :: "jsstr \<Rightarrow> jsstr list \<Rightarrow> (jsstr \<times> jsstr) list \<Rightarrow> jsstr set \<Rightarrow> scan_state \<Rightarrow> jsstr list \<Rightarrow> bool" where
  "scans_as expected lines es programs st rest \<longleftrightarrow>
     scan_lines expected st (lines @ rest) =
       (case scan_outcome expected es of Some r \<Rightarrow> r
        | None \<Rightarrow> scan_lines expected (saw_invoke expected programs (after_emitted expected st es)) rest)"

lemma scans_as_append:
  assumes "scans_as expected l1 e1 p1 st (l2 @ rest)"
    and "scans_as expected l2 e2 p2 (saw_invoke expected p1 (after_emitted expected st e1)) rest"
  shows "scans_as expected (l1 @ l2) (e1 @ e2) (p1 \<union> p2) st rest"
  using assms
  by (simp add: scans_as_def scan_outcome_append after_emitted_append saw_invoke_after [symmetric] split: option.splits)

lemma scans_as_Nil: "scans_as expected [] [] {} st rest"
  by (simp add: scans_as_def)

lemma scan_items:
  assumes "\<And>x s tail. x \<in> set xs \<Longrightarrow> ss_stack s = ss_stack st \<Longrightarrow> scans_as expected (log_of x) (emit x) (invoked x) s tail"
  shows "scans_as expected (concat (map log_of xs)) (concat (map emit xs)) (\<Union>x \<in> set xs. invoked x) st rest"
  using assms
proof (induction xs arbitrary: st)
  case Nil
  show ?case by (simp add: scans_as_Nil)
next
  case (Cons x xs)
  have "scans_as expected (log_of x @ concat (map log_of xs)) (emit x @ concat (map emit xs)) (invoked x \<union> (\<Union>x \<in> set xs. invoked x)) st rest"
    by (rule scans_as_append, rule Cons.prems, simp, simp, rule Cons.IH, rule Cons.prems) simp_all
  then show ?case by simp
qed

lemma scan_invocation:
  assumes p: "program_id_ok p" "\<forall>m. failure = Some m \<longrightarrow> list_all (\<lambda>c. \<not> line_end c) m"
    and items: "\<And>x s tail. x \<in> set items \<Longrightarrow> ss_stack s = p # ss_stack st \<Longrightarrow>
      scans_as expected (log_of x) (emitted p x) (invoked x) s tail"
  shows "scans_as expected (log_of (Invocation p d failure items)) (emitted current (Invocation p d failure items))
    (invoked (Invocation p d failure items)) st rest"
proof -
  let ?st = "st\<lparr>ss_stack := p # ss_stack st, ss_sawInvoke := ss_sawInvoke st \<or> p = expected\<rparr>"
  let ?es = "concat (map (emitted p) items)" and ?ps = "\<Union>x \<in> set items. invoked x"
  have start: "scan_lines expected st (log_of (Invocation p d failure items) @ rest)
    = scan_lines expected ?st (concat (map log_of items) @ finish_line p failure # rest)"
    by (simp add: scan_line_def parse_invoke_line [OF p(1)])
  have fin: "scan_lines expected s (finish_line p failure # rest) = scan_lines expected (s\<lparr>ss_stack := pop_program p (ss_stack s)\<rparr>) rest" for s
    by (simp add: scan_line_def parse_finish_line [OF p])
  have same: "(saw_invoke expected ?ps (after_emitted expected ?st ?es))\<lparr>ss_stack := pop_program p (p # ss_stack st)\<rparr>
    = saw_invoke expected (insert p ?ps) (after_emitted expected st ?es)"
    by (cases st) (auto simp: saw_invoke_def after_emitted_def pop_program_def)
  have "scans_as expected (concat (map log_of items)) ?es ?ps ?st (finish_line p failure # rest)"
    by (rule scan_items) (use items in simp)
  then show ?thesis
    unfolding scans_as_def start by (simp add: fin same del: scan_lines.simps split: option.splits)
qed

lemma scan_item:
  assumes "item_ok it" and "ss_stack st = current # stack"
  shows "scans_as expected (log_of it) (emitted current it) (invoked it) st rest"
  using assms
proof (induction it arbitrary: st current stack rest)
  case (Data_line t)
  then show ?case
    by (simp add: scans_as_def scan_data_line del: scan_lines.simps scan_outcome.simps split: option.splits)
next
  case (Note_line t)
  then show ?case by (simp add: scans_as_def plain_line_def scan_line_def)
next
  case (Invocation p d failure items)
  then show ?case by (intro scan_invocation) auto
qed

text \<open>The error of a log that decodes throughout and has no event of the program: the code tells why.\<close>

definition scan_error :: "jsstr \<Rightarrow> (jsstr \<times> jsstr) list \<Rightarrow> jsstr set \<Rightarrow> js_error" where
  "scan_error expected es programs =
     ReplayMismatch (if (\<exists>(p, l) \<in> set es. p \<noteq> expected \<and> event_in l \<noteq> None) \<or> expected \<notin> programs
       then ''ERR_PROGRAM_ID_MISMATCH''
       else if \<exists>(p, l) \<in> set es. p = expected then ''ERR_EVENT_DISCRIMINATOR_MISMATCH''
       else ''ERR_EVENT_NOT_FOUND_FOR_PROGRAM'')"

definition transaction_ok :: "log_item list \<Rightarrow> bool" where
  "transaction_ok calls \<longleftrightarrow> (\<forall>x \<in> set calls. item_ok x \<and> (case x of Invocation p d m items \<Rightarrow> True | _ \<Rightarrow> False))"

definition transaction_log :: "log_item list \<Rightarrow> jsstr list" where
  "transaction_log calls = concat (map log_of calls)"

definition transaction_data :: "log_item list \<Rightarrow> (jsstr \<times> jsstr) list" where
  "transaction_data calls = concat (map (emitted []) calls)"

lemma scan_transaction:
  assumes ok: "transaction_ok calls"
  shows "findOutcomeResolvedEvent (transaction_log calls) expected =
    (case scan_outcome expected (transaction_data calls) of Some r \<Rightarrow> r
     | None \<Rightarrow> Inl (scan_error expected (transaction_data calls) (\<Union>x \<in> set calls. invoked x)))"
proof -
  have "scans_as expected (log_of x) (emitted [] x) (invoked x) s tail" if x: "x \<in> set calls" for x s tail
  proof -
    obtain p d m items where it: "x = Invocation p d m items" "item_ok x"
      using ok x by (cases x) (auto simp: transaction_ok_def)
    then show ?thesis unfolding it(1) by (intro scan_invocation scan_item) auto
  qed
  then have "scans_as expected (transaction_log calls) (transaction_data calls) (\<Union>x \<in> set calls. invoked x) scan_start []"
    unfolding transaction_log_def transaction_data_def by (intro scan_items)
  moreover have "scan_end (saw_invoke expected P (after_emitted expected scan_start es)) = Inl (scan_error expected es P)" for P es
  proof -
    have "find (\<lambda>(p, l). p \<noteq> expected \<and> event_in l \<noteq> None) es \<noteq> None \<longleftrightarrow> (\<exists>(p, l) \<in> set es. p \<noteq> expected \<and> event_in l \<noteq> None)"
      by (auto simp: find_None_iff split: prod.splits) blast
    then show ?thesis
      by (simp add: scan_end_def scan_error_def saw_invoke_def after_emitted_def scan_start_def)
  qed
  ultimately show ?thesis
    by (simp add: scans_as_def findOutcomeResolvedEvent_def split: option.splits)
qed

end
