(* ===== verification/Events_Codec.thy ===== *)
theory Events_Codec
  imports Events_Scan
begin

text \<open>
  The wire format of the rng_v2 resolve event, written down as the bytes the program emits (its Borsh layout
  behind the discriminator, as base64 in a data line), and the proof that the decoder of \<^verbatim>\<open>sdk/verify.ts\<close> reads
  every such event back. With the scanner: the event a program emits is the event the verifier finds.
\<close>

section \<open>Base64\<close>

definition base64_char :: "nat \<Rightarrow> 16 word" where
  "base64_char n =
     (if n < 26 then word_of_nat (65 + n) else if n < 52 then word_of_nat (71 + n)
      else if n < 62 then word_of_nat (n - 4) else if n = 62 then 43 else 47)"

fun base64_encode :: "buffer \<Rightarrow> jsstr" where
  "base64_encode (a # b # c # rest) =
     base64_char (unat a div 4) # base64_char (unat a mod 4 * 16 + unat b div 16)
       # base64_char (unat b mod 16 * 4 + unat c div 64) # base64_char (unat c mod 64) # base64_encode rest"
| "base64_encode [a, b] =
     [base64_char (unat a div 4), base64_char (unat a mod 4 * 16 + unat b div 16), base64_char (unat b mod 16 * 4), 61]"
| "base64_encode [a] = [base64_char (unat a div 4), base64_char (unat a mod 4 * 16), 61, 61]"
| "base64_encode [] = []"

lemma base64_table:
  "list_all (\<lambda>n. base64_value (base64_char n) = Some n \<and> base64_char n \<noteq> 61 \<and> \<not> js_space (base64_char n)) [0..<64]"
  by code_simp

lemma base64_char_facts:
  assumes "n < 64"
  shows "base64_value (base64_char n) = Some n" and "base64_char n \<noteq> 61" and "\<not> js_space (base64_char n)"
  using base64_table assms by (auto simp del: upt_rec_numeral)

lemma base64_byte_facts:
  fixes a b :: byte
  shows "unat a div 4 < 64" and "unat a mod 4 * 16 + unat b div 16 < 64" and "unat b mod 16 * 4 + unat a div 64 < 64"
    and "unat a mod 64 < 64" and "unat a mod 4 * 16 < 64" and "unat a mod 16 * 4 < 64"
  using unat_byte_bound [of a] unat_byte_bound [of b]
  by (simp_all add: div_less_iff_less_mult)

lemma base64_join:
  fixes a b c :: byte
  shows "unat a div 4 * 4 + (unat a mod 4 * 16 + unat b div 16) div 16 = unat a"
    and "(unat a mod 4 * 16 + unat b div 16) mod 16 * 16 + (unat b mod 16 * 4 + unat c div 64) div 4 = unat b"
    and "(unat b mod 16 * 4 + unat c div 64) mod 4 * 64 + unat c mod 64 = unat c"
    and "unat a div 4 * 4 + (unat a mod 4 * 16) div 16 = unat a"
    and "(unat a mod 4 * 16 + unat b div 16) mod 16 * 16 + unat b mod 16 * 4 div 4 = unat b"
proof -
  have b: "unat b div 16 < 16" and c: "unat c div 64 < 4"
    using unat_byte_bound [of b] unat_byte_bound [of c] by auto
  show "unat a div 4 * 4 + (unat a mod 4 * 16 + unat b div 16) div 16 = unat a" using b by simp
  show "(unat a mod 4 * 16 + unat b div 16) mod 16 * 16 + (unat b mod 16 * 4 + unat c div 64) div 4 = unat b" using b c by simp
  show "(unat b mod 16 * 4 + unat c div 64) mod 4 * 64 + unat c mod 64 = unat c" using c by simp
  show "unat a div 4 * 4 + (unat a mod 4 * 16) div 16 = unat a" by simp
  show "(unat a mod 4 * 16 + unat b div 16) mod 16 * 16 + unat b mod 16 * 4 div 4 = unat b" using b by simp
qed

lemma word_of_nat_unat: "word_of_nat (unat (a :: byte)) = a"
  by simp

lemma map_filter_simps [simp]:
  "List.map_filter f [] = []"
  "List.map_filter f (x # xs) = (case f x of None \<Rightarrow> List.map_filter f xs | Some y \<Rightarrow> y # List.map_filter f xs)"
  by (simp_all add: List.map_filter_def split: option.splits)

fun base64_sextets :: "buffer \<Rightarrow> nat list" where
  "base64_sextets (a # b # c # rest) =
     unat a div 4 # (unat a mod 4 * 16 + unat b div 16) # (unat b mod 16 * 4 + unat c div 64) # unat c mod 64 # base64_sextets rest"
| "base64_sextets [a, b] = [unat a div 4, unat a mod 4 * 16 + unat b div 16, unat b mod 16 * 4]"
| "base64_sextets [a] = [unat a div 4, unat a mod 4 * 16]"
| "base64_sextets [] = []"

lemma base64_values: "List.map_filter base64_value (takeWhile (\<lambda>c. c \<noteq> 61) (base64_encode b)) = base64_sextets b"
  by (induction b rule: base64_encode.induct) (simp_all add: base64_char_facts base64_byte_facts)

lemma base64_bytes_sextets: "base64_bytes (base64_sextets b) = b"
proof (induction b rule: base64_sextets.induct)
  case (1 a b c rest)
  show ?case by (simp only: base64_sextets.simps base64_bytes.simps base64_join 1 word_of_nat_unat)
next
  case (2 a b)
  show ?case by (simp only: base64_sextets.simps base64_bytes.simps base64_join word_of_nat_unat)
next
  case (3 a)
  show ?case by (simp only: base64_sextets.simps base64_bytes.simps base64_join word_of_nat_unat)
qed simp

lemma base64_decode_encode: "base64_decode (base64_encode b) = b"
  unfolding base64_decode_def base64_values by (rule base64_bytes_sextets)

lemma base64_no_space: "\<forall>c \<in> set (base64_encode b). \<not> js_space c"
proof -
  have "\<not> js_space 61" by (simp add: js_space_def)
  then show ?thesis
    by (induction b rule: base64_encode.induct) (auto simp: base64_char_facts base64_byte_facts)
qed

lemma base64_trim: "js_trim (base64_encode b) = base64_encode b"
proof (cases "base64_encode b = []")
  case True
  then show ?thesis by (simp add: js_trim_def)
next
  case False
  then show ?thesis using base64_no_space [of b] by (intro js_trim_id) auto
qed

lemma decode_event_ok:
  assumes "\<And>off. runs off body bytes v"
  shows "decode_event name body (data_line (base64_encode (anchorEventDiscriminator name @ bytes))) = Inr (Some v)"
proof -
  have len: "length (anchorEventDiscriminator name) = 8" by (simp add: anchorEventDiscriminator_def)
  have "runR body (anchorEventDiscriminator name @ bytes) 8 = Inr v"
    by (rule runs_run [OF assms len])
  then show ?thesis
    by (simp add: decode_event_def data_line_facts base64_trim base64_decode_encode len Let_def)
qed

section \<open>The event of a compact rng_v2 resolve\<close>

definition u8_ok :: "int \<Rightarrow> bool" where "u8_ok v \<longleftrightarrow> 0 \<le> v \<and> v < 256"

definition u16_ok :: "int \<Rightarrow> bool" where "u16_ok v \<longleftrightarrow> 0 \<le> v \<and> v < 65536"

definition u64_ok :: "int \<Rightarrow> bool" where "u64_ok v \<longleftrightarrow> 0 \<le> v \<and> v < 18446744073709551616"

definition v5_event_ok :: "resolved_event \<Rightarrow> bool" where
  "v5_event_ok e \<longleftrightarrow>
     length (ev_runtimeId e) = 16 \<and> u64_ok (ev_resolveId e) \<and> length (ev_actor e) = 32 \<and> u64_ok (ev_inputLamports e) \<and>
     u64_ok (ev_totalOutputLamports e) \<and> ev_masterSeed e = None \<and> (\<exists>v. ev_rngVersion e = Some v \<and> u8_ok v) \<and>
     length (ev_randomness e) = 32 \<and> length (ev_compiledArtifactHash e) = 32 \<and> u16_ok (ev_artifactFormatVersion e) \<and>
     u16_ok (ev_winnerCount e) \<and> u8_ok (ev_outcomeIdLen e) \<and> length (ev_outcomeId e) = 64 \<and>
     (\<exists>h. ev_winnerClaimHash e = Some h \<and> length h = 32) \<and> u16_ok (ev_effectCount e) \<and> length (ev_effectsDigest e) = 32 \<and>
     (\<exists>h. ev_snapshotHash e = Some h \<and> length h = 32) \<and>
     (\<exists>s. ev_resolvedSlots e = Some s \<and> length s = 3 \<and> (\<forall>x \<in> set s. u64_ok x)) \<and>
     (\<exists>h. ev_slotHashes e = Some h \<and> length h = 3 \<and> (\<forall>x \<in> set h. length x = 32)) \<and>
     ev_operatorCommitPresent e \<noteq> None \<and> (\<exists>h. ev_operatorCommitHash e = Some h \<and> length h = 32) \<and>
     (\<exists>v. ev_operatorRevealLen e = Some v \<and> u8_ok v) \<and> (\<exists>h. ev_operatorReveal e = Some h \<and> length h = 32) \<and>
     (\<exists>v. ev_entropySource e = Some v \<and> u8_ok v) \<and> (\<exists>v. ev_protocolRevision e = Some v \<and> u8_ok v) \<and>
     length (ev_outcomeIdLens e) < 4294967296 \<and> (\<forall>v \<in> set (ev_outcomeIdLens e). u8_ok v) \<and>
     length (ev_outcomeIds e) < 4294967296 \<and> (\<forall>b \<in> set (ev_outcomeIds e). length b = 64)"

definition rng_prefix_bytes :: "resolved_event \<Rightarrow> buffer" where
  "rng_prefix_bytes e =
     ev_runtimeId e @ le_bytes 8 (ev_resolveId e) @ ev_actor e @ le_bytes 8 (ev_inputLamports e)
     @ le_bytes 8 (ev_totalOutputLamports e) @ byte_of (the (ev_rngVersion e)) @ ev_randomness e
     @ ev_compiledArtifactHash e @ le_bytes 2 (ev_artifactFormatVersion e) @ le_bytes 2 (ev_winnerCount e)
     @ the (ev_winnerClaimHash e) @ byte_of (ev_outcomeIdLen e) @ ev_outcomeId e @ le_bytes 2 (ev_effectCount e)
     @ ev_effectsDigest e @ the (ev_snapshotHash e) @ concat (map (le_bytes 8) (the (ev_resolvedSlots e)))
     @ concat (map (\<lambda>h. h) (the (ev_slotHashes e))) @ byte_of (if the (ev_operatorCommitPresent e) then 1 else 0)
     @ the (ev_operatorCommitHash e) @ byte_of (the (ev_operatorRevealLen e)) @ the (ev_operatorReveal e) @ []"

definition v5_event_bytes :: "resolved_event \<Rightarrow> buffer" where
  "v5_event_bytes e =
     rng_prefix_bytes e @ byte_of (the (ev_entropySource e)) @ byte_of (the (ev_protocolRevision e))
     @ (le_bytes 4 (int (length (ev_outcomeIdLens e))) @ concat (map byte_of (ev_outcomeIdLens e)) @ [])
     @ (le_bytes 4 (int (length (ev_outcomeIds e))) @ concat (map (\<lambda>b. b) (ev_outcomeIds e))) @ []"

lemma runs_fixed_u64s:
  assumes "\<forall>x \<in> set xs. u64_ok x" and "length xs = n"
  shows "runs off (readFixedU64Array n) (concat (map (le_bytes 8) xs)) xs"
  unfolding readFixedU64Array_def assms(2) [symmetric]
  by (rule runs_repeatR) (use assms(1) in \<open>auto simp: u64_ok_def intro: runs_readU64LE\<close>)

lemma runs_fixed_hashes:
  assumes "\<forall>x \<in> set xs. length x = 32" and "length xs = n"
  shows "runs off (readFixedHashArray n) (concat (map (\<lambda>h. h) xs)) xs"
  unfolding readFixedHashArray_def assms(2) [symmetric]
  by (rule runs_repeatR) (use assms(1) in \<open>auto intro: runs_readBytesClamped\<close>)

lemma runs_vec_u8:
  assumes "\<forall>x \<in> set xs. u8_ok x" and "length xs < 4294967296"
  shows "runs off readVecU8 (le_bytes 4 (int (length xs)) @ concat (map byte_of xs) @ []) xs"
proof -
  have uint: "map uint (concat (map byte_of xs)) = xs"
    using assms(1) by (induction xs) (simp_all add: byte_of_def u8_ok_def uint_word_of_int)
  have len: "length (concat (map byte_of xs)) = nat (int (length xs))"
    using length_concat_const [of xs byte_of 1] by simp
  show ?thesis
    unfolding readVecU8_def
    by (rule runs_readBytesClamped [OF len] runs_intros runs_retR_eq | (use assms(2) uint in \<open>simp; fail\<close>))+
qed

lemma runs_vec_ids:
  assumes "\<forall>x \<in> set xs. length x = 64" and "length xs < 4294967296"
  shows "runs off readVecOutcomeIds (le_bytes 4 (int (length xs)) @ concat (map (\<lambda>b. b) xs)) xs"
proof -
  have "runs o' (repeatR (length xs) (readBytesClamped MAX_OUTCOME_ID_BYTES)) (concat (map (\<lambda>b. b) xs)) xs" for o'
    by (rule runs_repeatR) (use assms(1) in \<open>auto simp: MAX_OUTCOME_ID_BYTES_def intro: runs_readBytesClamped\<close>)
  then show ?thesis
    unfolding readVecOutcomeIds_def
    by (intro runs_bindR [OF runs_readU32LE]) (use assms(2) in simp_all)
qed

lemma rng_prefix_runs:
  assumes ok: "v5_event_ok e"
  shows "runs off rng_prefixR (rng_prefix_bytes e)
    (e\<lparr>ev_outcomeIdLens := [ev_outcomeIdLen e], ev_outcomeIds := [ev_outcomeId e], ev_entropySource := None, ev_protocolRevision := None\<rparr>)"
proof -
  obtain rv claim sh rs hs present commit rl reveal where some:
    "ev_rngVersion e = Some rv" "ev_winnerClaimHash e = Some claim" "ev_snapshotHash e = Some sh" "ev_resolvedSlots e = Some rs"
    "ev_slotHashes e = Some hs" "ev_operatorCommitPresent e = Some present" "ev_operatorCommitHash e = Some commit"
    "ev_operatorRevealLen e = Some rl" "ev_operatorReveal e = Some reveal" "ev_masterSeed e = None"
    and lens: "length claim = 32" "length sh = 32" "length commit = 32" "length reveal = 32"
    and nums: "u8_ok rv" "u8_ok rl" and rs: "length rs = 3" "\<forall>x \<in> set rs. u64_ok x"
    and hs: "length hs = 3" "\<forall>x \<in> set hs. length x = 32"
    using ok by (auto simp: v5_event_ok_def)
  have more: "length (ev_runtimeId e) = 16" "length (ev_actor e) = 32" "length (ev_randomness e) = 32"
    "length (ev_compiledArtifactHash e) = 32" "length (ev_outcomeId e) = 64" "length (ev_effectsDigest e) = 32"
    and ints: "u64_ok (ev_resolveId e)" "u64_ok (ev_inputLamports e)" "u64_ok (ev_totalOutputLamports e)"
    "u16_ok (ev_artifactFormatVersion e)" "u16_ok (ev_winnerCount e)" "u8_ok (ev_outcomeIdLen e)" "u16_ok (ev_effectCount e)"
    using ok by (simp_all add: v5_event_ok_def)
  note facts = nums [unfolded u8_ok_def] ints [unfolded u64_ok_def u16_ok_def u8_ok_def] lens more MAX_OUTCOME_ID_BYTES_def
  have slots: "\<And>off. runs off (readFixedU64Array 3) (concat (map (le_bytes 8) rs)) rs"
    by (rule runs_fixed_u64s [OF rs(2,1)])
  have hashes: "\<And>off. runs off (readFixedHashArray 3) (concat (map (\<lambda>h. h) hs)) hs"
    by (rule runs_fixed_hashes [OF hs(2,1)])
  have flag: "\<And>off. runs off readU8 (byte_of (if present then 1 else 0)) (if present then 1 else 0)"
    by (rule runs_readU8) auto
  have result: "e\<lparr>ev_outcomeIdLens := [ev_outcomeIdLen e], ev_outcomeIds := [ev_outcomeId e], ev_entropySource := None, ev_protocolRevision := None\<rparr>
    = \<lparr>ev_runtimeId = ev_runtimeId e, ev_resolveId = ev_resolveId e, ev_actor = ev_actor e, ev_inputLamports = ev_inputLamports e,
       ev_totalOutputLamports = ev_totalOutputLamports e, ev_masterSeed = None, ev_rngVersion = Some rv,
       ev_randomness = ev_randomness e, ev_compiledArtifactHash = ev_compiledArtifactHash e,
       ev_artifactFormatVersion = ev_artifactFormatVersion e,
       ev_winnerCount = ev_winnerCount e, ev_outcomeIdLen = ev_outcomeIdLen e, ev_outcomeId = ev_outcomeId e,
       ev_outcomeIdLens = [ev_outcomeIdLen e], ev_outcomeIds = [ev_outcomeId e], ev_winnerClaimHash = Some claim,
       ev_effectCount = ev_effectCount e, ev_effectsDigest = ev_effectsDigest e, ev_snapshotHash = Some sh,
       ev_resolvedSlots = Some rs, ev_slotHashes = Some hs,
       ev_operatorCommitPresent = Some ((if present then 1 else 0 :: int) \<noteq> 0),
       ev_operatorCommitHash = Some commit, ev_operatorRevealLen = Some rl,
       ev_operatorReveal = Some reveal, ev_entropySource = None, ev_protocolRevision = None\<rparr>"
    using some by (cases e) simp
  show ?thesis
    unfolding rng_prefixR_def rng_prefix_bytes_def result some option.sel
    by (rule slots hashes flag runs_readBytesClamped runs_retR runs_intros | (simp add: facts; fail))+
qed

lemma resolvedV5R_runs:
  assumes ok: "v5_event_ok e"
  shows "runs off resolvedV5R (v5_event_bytes e) e"
proof -
  obtain es pr where some: "ev_entropySource e = Some es" "ev_protocolRevision e = Some pr"
    and nums: "0 \<le> es" "es < 256" "0 \<le> pr" "pr < 256"
    using ok by (auto simp: v5_event_ok_def u8_ok_def)
  have lens: "\<And>off. runs off readVecU8 (le_bytes 4 (int (length (ev_outcomeIdLens e))) @ concat (map byte_of (ev_outcomeIdLens e)) @ [])
      (ev_outcomeIdLens e)"
    using ok by (intro runs_vec_u8) (auto simp: v5_event_ok_def)
  have ids: "\<And>off. runs off readVecOutcomeIds (le_bytes 4 (int (length (ev_outcomeIds e))) @ concat (map (\<lambda>b. b) (ev_outcomeIds e)))
      (ev_outcomeIds e)"
    using ok by (intro runs_vec_ids) (auto simp: v5_event_ok_def)
  show ?thesis
    unfolding resolvedV5R_def v5_event_bytes_def some option.sel
    by (rule rng_prefix_runs [OF ok] lens ids runs_bindR runs_readU8
        | (use nums in \<open>simp; fail\<close>) | (rule runs_retR_eq, cases e, use some in \<open>simp; fail\<close>))+
qed

definition v5_event_line :: "resolved_event \<Rightarrow> jsstr" where
  "v5_event_line e = data_line (base64_encode (anchorEventDiscriminator ''OutcomeResolvedV5'' @ v5_event_bytes e))"

lemma decode_v5_event_line: "v5_event_ok e \<Longrightarrow> decode_resolved (v5_event_line e) = Inr (Some e)"
  unfolding v5_event_line_def decode_resolved_def decodeOutcomeResolvedV5_def
  by (simp add: decode_event_ok [OF resolvedV5R_runs] or_null_def)

section \<open>From the emitter to the verifier\<close>

text \<open>C32: on the log of a transaction, the scanner goes through the data lines in execution order, each with the
  program whose invocation wrote it, and returns the first event that decodes among the lines of the expected
  program itself, never one written by a program it calls or is called by; when there is none it fails with an
  error whose code says why. A data line of any program, the expected one or not, that makes the decoder throw
  before that event is found ends the scan with the decoder's error instead: the lines are decoded before the
  program is looked at. The log is that of a complete tree of invocations nested to any depth, each of which
  succeeds or fails: program ids of base58 characters, failure messages without line ends, and other lines
  that are not themselves brackets or data. A line \<^verbatim>\<open>Program log: ...\<close> is such a line whatever the message is, so
  no logged message is taken for the start or end of an invocation or for data. Logs that the runtime has cut
  short are not covered.\<close>

theorem scanner_attribution:
  assumes "transaction_ok calls"
  shows "findOutcomeResolvedEvent (transaction_log calls) expected =
      (case scan_outcome expected (transaction_data calls) of Some r \<Rightarrow> r
       | None \<Rightarrow> Inl (scan_error expected (transaction_data calls) (\<Union>x \<in> set calls. invoked x)))
    \<and> (\<forall>message. plain_line (js ''Program log: '' @ message))"
  using scan_transaction [OF assms] log_line_plain by blast

definition sample_event :: resolved_event where
  "sample_event = \<lparr>ev_runtimeId = replicate 16 1, ev_resolveId = 7, ev_actor = replicate 32 2, ev_inputLamports = 5,
     ev_totalOutputLamports = 3, ev_masterSeed = None, ev_rngVersion = Some 2, ev_randomness = replicate 32 3,
     ev_compiledArtifactHash = replicate 32 4, ev_artifactFormatVersion = 5, ev_winnerCount = 1, ev_outcomeIdLen = 2,
     ev_outcomeId = replicate 64 0, ev_outcomeIdLens = [2], ev_outcomeIds = [replicate 64 0],
     ev_winnerClaimHash = Some (replicate 32 5), ev_effectCount = 1, ev_effectsDigest = replicate 32 6,
     ev_snapshotHash = Some (replicate 32 7), ev_resolvedSlots = Some [10, 11, 12],
     ev_slotHashes = Some (replicate 3 (replicate 32 8)), ev_operatorCommitPresent = Some False,
     ev_operatorCommitHash = Some (replicate 32 0), ev_operatorRevealLen = Some 0, ev_operatorReveal = Some (replicate 32 0),
     ev_entropySource = Some 0, ev_protocolRevision = Some 2\<rparr>"

lemma sample_event_ok: "v5_event_ok sample_event"
  by (simp add: v5_event_ok_def sample_event_def u8_ok_def u16_ok_def u64_ok_def)

text \<open>The program \<open>A\<close> calls \<open>B\<close>, which emits an event of its own and logs a forged bracket; then \<open>A\<close> emits.\<close>

definition sample_calls :: "log_item list" where
  "sample_calls =
     [Invocation (js ''A'') 1 None
        [Invocation (js ''B'') 2 None [Data_line (drop 14 (v5_event_line sample_event)), Note_line (js ''Program log: Program B success'')],
         Data_line (drop 14 (v5_event_line (sample_event\<lparr>ev_resolveId := 8\<rparr>)))]]"

lemma data_line_of_event: "data_line (drop 14 (v5_event_line e)) = v5_event_line e"
  by (simp add: v5_event_line_def data_line_def js_def)

lemma sample_calls_ok: "transaction_ok sample_calls"
  using log_line_plain [of "js ''Program B success''"]
  by (simp add: transaction_ok_def sample_calls_def program_id_ok_def js_def base58_unit_def)

lemma sample_event2_ok: "v5_event_ok (sample_event\<lparr>ev_resolveId := 8\<rparr>)"
  by (simp add: v5_event_ok_def sample_event_def u8_ok_def u16_ok_def u64_ok_def)

lemma sample_data: "transaction_data sample_calls =
    [(js ''B'', v5_event_line sample_event), (js ''A'', v5_event_line (sample_event\<lparr>ev_resolveId := 8\<rparr>))]"
  by (simp add: transaction_data_def sample_calls_def data_line_of_event)

text \<open>The same call of \<open>B\<close>, with a data line \<open>t\<close> of \<open>B\<close> before \<open>A\<close> emits: eight bytes that begin a resolve event
  and nothing behind them do not decode.\<close>

definition cut_short :: jsstr where
  "cut_short = base64_encode (anchorEventDiscriminator ''OutcomeResolvedV5'')"

definition cut_calls :: "log_item list" where
  "cut_calls = [Invocation (js ''A'') 1 None
     [Invocation (js ''B'') 2 None [Data_line cut_short], Data_line (drop 14 (v5_event_line sample_event))]]"

lemma cut_calls_ok: "transaction_ok cut_calls"
  by (simp add: transaction_ok_def cut_calls_def program_id_ok_def js_def base58_unit_def)

lemma cut_data: "transaction_data cut_calls = [(js ''B'', data_line cut_short), (js ''A'', v5_event_line sample_event)]"
  by (simp add: transaction_data_def cut_calls_def data_line_of_event)

lemma cut_short_throws: "\<exists>err. decode_resolved (data_line cut_short) = Inl err"
proof -
  have len: "length (anchorEventDiscriminator ''OutcomeResolvedV5'') = 8" by (simp add: anchorEventDiscriminator_def)
  have "runR resolvedV5R (anchorEventDiscriminator ''OutcomeResolvedV5'') 8 = Inl out_of_range"
    unfolding runR_def resolvedV5R_def rng_prefixR_def
    by (simp add: bindR_def readBytesClamped_def readU64LE_def read_uint_def len)
  then show ?thesis
    by (simp add: decode_resolved_def decodeOutcomeResolvedV5_def decode_event_def data_line_facts cut_short_def base64_trim
        base64_decode_encode len or_null_def)
qed

lemma scanner_attribution_witness:
  "findOutcomeResolvedEvent (transaction_log sample_calls) (js ''A'') = Inr (sample_event\<lparr>ev_resolveId := 8\<rparr>)
    \<and> findOutcomeResolvedEvent (transaction_log sample_calls) (js ''B'') = Inr sample_event
    \<and> findOutcomeResolvedEvent (transaction_log sample_calls) (js ''C'') = Inl (ReplayMismatch ''ERR_PROGRAM_ID_MISMATCH'')
    \<and> (\<exists>err. findOutcomeResolvedEvent (transaction_log cut_calls) (js ''A'') = Inl err)"
proof -
  have ev: "decode_resolved (v5_event_line sample_event) = Inr (Some sample_event)"
    "decode_resolved (v5_event_line (sample_event\<lparr>ev_resolveId := 8\<rparr>)) = Inr (Some (sample_event\<lparr>ev_resolveId := 8\<rparr>))"
    by (simp_all add: decode_v5_event_line sample_event_ok sample_event2_ok)
  have ne: "js ''A'' \<noteq> js ''B''" "js ''A'' \<noteq> js ''C''" "js ''B'' \<noteq> js ''C''" by (simp_all add: js_def)
  note at = scanner_attribution [THEN conjunct1]
  have "\<exists>err. findOutcomeResolvedEvent (transaction_log cut_calls) (js ''A'') = Inl err"
    using cut_short_throws by (auto simp: at [OF cut_calls_ok] cut_data)
  moreover have "findOutcomeResolvedEvent (transaction_log sample_calls) (js ''A'') = Inr (sample_event\<lparr>ev_resolveId := 8\<rparr>)"
    "findOutcomeResolvedEvent (transaction_log sample_calls) (js ''B'') = Inr sample_event"
    "findOutcomeResolvedEvent (transaction_log sample_calls) (js ''C'') = Inl (ReplayMismatch ''ERR_PROGRAM_ID_MISMATCH'')"
    unfolding at [OF sample_calls_ok] sample_data using ev ne ne [symmetric]
    by (simp_all add: event_in_def scan_error_def)
  ultimately show ?thesis by blast
qed

text \<open>C33: the event that a program emits in an rng_v2 resolve is the event the verifier finds: the wire bytes of any
  event whose fields fit their widths, as base64 in a data line anywhere in the program's own frame, decode to
  that event field by field, and the scanner returns it, provided that every data line before it decodes
  without an exception, whichever program wrote it, and that none of those of the program itself is a resolve
  event. Nothing is asked of the lines after it. The log is that of a complete tree of invocations as above.\<close>

theorem emitted_event_found:
  assumes "v5_event_ok e" and "transaction_ok calls"
    and "transaction_data calls = pre @ (program, v5_event_line e) # post"
    and "\<forall>(p, l) \<in> set pre. is_ok (decode_resolved l) \<and> (p = program \<longrightarrow> event_in l = None)"
  shows "findOutcomeResolvedEvent (transaction_log calls) program = Inr e"
proof -
  have "scan_outcome program (transaction_data calls) = Some (Inr e)"
    unfolding assms(3) by (simp add: scan_outcome_append scan_outcome_passes [OF assms(4)] decode_v5_event_line [OF assms(1)])
  then show ?thesis using scan_transaction [OF assms(2)] by simp
qed

text \<open>Here for the second event of the sample, behind the one of the program that is called.\<close>

lemma emitted_event_found_witness:
  "findOutcomeResolvedEvent (transaction_log sample_calls) (js ''A'') = Inr (sample_event\<lparr>ev_resolveId := 8\<rparr>)"
  by (rule emitted_event_found [OF sample_event2_ok sample_calls_ok, of "[(js ''B'', v5_event_line sample_event)]" _ "[]"])
    (simp_all add: sample_data js_def decode_v5_event_line sample_event_ok)

end
