(* ===== verification/Snapshot_Source.thy ===== *)
theory Snapshot_Source
  imports Snapshot_Entries "HOL-Library.Sublist"
begin

text \<open>
  Where a committed snapshot is read from, \<^verbatim>\<open>sdk/snapshot_source.ts\<close>: an explicit local copy, the committed URI
  (through gateways for schemes without a host), then hash-addressed mirrors; the first source whose bytes have
  the committed SHA-256 wins. The network and the file system are the parameter \<open>source_world\<close>: what \<^verbatim>\<open>fetch\<close> answers
  for a URL, whether the timer had fired when a request failed, and what \<^verbatim>\<open>fs\<close> and \<^verbatim>\<open>path\<close> return for a path.
\<close>

section \<open>The outside world\<close>

text \<open>The chunks of the response stream; \<open>hr_broken\<close> says that the stream fails after them. \<open>hr_declared\<close> is the number
  in the content-length header, 0 without one.\<close>

record http_response =
  hr_ok :: bool
  hr_declared :: int
  hr_chunks :: "buffer list option"
  hr_broken :: bool

record source_world =
  sw_fetch :: "jsstr \<Rightarrow> http_response option"
  sw_aborted :: "jsstr \<Rightarrow> int \<Rightarrow> bool"
  sw_fileUrl :: "jsstr \<Rightarrow> jsstr option"
  sw_absolute :: "jsstr \<Rightarrow> bool"
  sw_resolve :: "jsstr \<Rightarrow> jsstr"
  sw_stat :: "jsstr \<Rightarrow> int option"
  sw_read :: "jsstr \<Rightarrow> buffer option"

section \<open>Strings\<close>

definition lower :: "jsstr \<Rightarrow> jsstr" where
  "lower s = map hex_lower s"

text \<open>\<^verbatim>\<open>[...new Set(xs)]\<close> keeps the first of equal elements.\<close>

definition js_unique :: "'a list \<Rightarrow> 'a list" where
  "js_unique xs = rev (remdups (rev xs))"

text \<open>\<^verbatim>\<open>s.replace(/\/+$/, "")\<close>\<close>

definition strip_slashes :: "jsstr \<Rightarrow> jsstr" where
  "strip_slashes s = rev (dropWhile (\<lambda>c. c = 47) (rev s))"

definition letter :: "16 word \<Rightarrow> bool" where
  "letter c \<longleftrightarrow> 97 \<le> hex_lower c \<and> hex_lower c \<le> 122"

definition scheme_unit :: "16 word \<Rightarrow> bool" where
  "scheme_unit c \<longleftrightarrow> letter c \<or> is_digit c \<or> c = 43 \<or> c = 46 \<or> c = 45"

text \<open>\<^verbatim>\<open>/^([a-z][a-z0-9+.-]*:)\/\//i\<close>: the scheme with its colon, and what follows the slashes.\<close>

definition scheme_of :: "jsstr \<Rightarrow> (jsstr \<times> jsstr) option" where
  "scheme_of uri =
     (let name = takeWhile scheme_unit uri; rest = dropWhile scheme_unit uri in
      if name \<noteq> [] \<and> letter (hd name) \<and> take 3 rest = js ''://'' then Some (name @ js '':'', drop 3 rest) else None)"

definition is_http :: "jsstr \<Rightarrow> bool" where
  "is_http s \<longleftrightarrow> lower (take 7 s) = js ''http://'' \<or> lower (take 8 s) = js ''https://''"

definition is_file_url :: "jsstr \<Rightarrow> bool" where
  "is_file_url s \<longleftrightarrow> lower (take 7 s) = js ''file://''"

section \<open>Candidates\<close>

type_synonym gateways = "(jsstr \<times> jsstr list) list"

definition DEFAULT_SNAPSHOT_MIRRORS :: "jsstr list" where
  "DEFAULT_SNAPSHOT_MIRRORS = [js ''https://verifiableoutcome.online'']"

definition SNAPSHOT_URI_GATEWAYS :: gateways where
  "SNAPSHOT_URI_GATEWAYS =
     [(js ''ar:'', [js ''https://arweave.net'', js ''https://turbo-gateway.com'']),
      (js ''irys:'', [js ''https://gateway.irys.xyz'']),
      (js ''irys-devnet:'', [js ''https://devnet.irys.xyz'', js ''https://gateway.irys.xyz''])]"

definition DEFAULT_SNAPSHOT_TIMEOUT_MS :: int where
  "DEFAULT_SNAPSHOT_TIMEOUT_MS = 20000"

definition DEFAULT_SNAPSHOT_MAX_BYTES :: int where
  "DEFAULT_SNAPSHOT_MAX_BYTES = 512 * 1024 * 1024"

definition hostlessSource :: "jsstr \<Rightarrow> gateways \<Rightarrow> jsstr list option" where
  "hostlessSource uri gateways =
     (case scheme_of uri of None \<Rightarrow> None
      | Some (scheme, rest) \<Rightarrow>
          if rest = [] \<or> list_ex line_end rest then None
          else map_option (map (\<lambda>gateway. strip_slashes gateway @ js ''/'' @ rest)) (map_of gateways (lower scheme)))"

definition mirror_source :: "jsstr \<Rightarrow> jsstr \<Rightarrow> jsstr list" where
  "mirror_source hash mirror =
     (let base = strip_slashes (js_trim mirror) in
      if base = [] then [] else [base @ js ''/sha256/'' @ hash @ js ''.jsonl''])"

definition uri_sources :: "jsstr \<Rightarrow> gateways \<Rightarrow> jsstr list" where
  "uri_sources uri gateways =
     (if uri = [] then []
      else if is_http uri \<or> is_file_url uri then [uri]
      else case hostlessSource uri gateways of Some viaGateways \<Rightarrow> viaGateways | None \<Rightarrow> [uri])"

definition snapshotSourceCandidates ::
  "jsstr \<Rightarrow> jsstr \<Rightarrow> jsstr list option \<Rightarrow> gateways option \<Rightarrow> jsstr list" where
  "snapshotSourceCandidates snapshotUri hash mirrors gateways =
     js_unique (uri_sources (js_trim snapshotUri) (case gateways of None \<Rightarrow> SNAPSHOT_URI_GATEWAYS | Some g \<Rightarrow> g)
       @ concat (map (mirror_source (lower hash)) (case mirrors of None \<Rightarrow> [] | Some ms \<Rightarrow> ms)))"

section \<open>Reading a source\<close>

datatype attempt_outcome = Attempt_ok | Hash_mismatch | Http_error | Timeout | Too_large | Unsupported | Attempt_error

record attempt =
  at_source :: jsstr
  at_outcome :: attempt_outcome

text \<open>The loop over the response stream: \<^verbatim>\<open>total\<close> bytes so far.\<close>

fun read_stream :: "int \<Rightarrow> int \<Rightarrow> buffer list \<Rightarrow> (attempt_outcome + buffer) \<Rightarrow> attempt_outcome + buffer" where
  "read_stream maxBytes got [] ending = ending"
| "read_stream maxBytes got (chunk # rest) ending =
     (let got' = got + int (length chunk) in
      if maxBytes < got' then Inl Too_large
      else case read_stream maxBytes got' rest ending of Inl e \<Rightarrow> Inl e | Inr bytes \<Rightarrow> Inr (chunk @ bytes))"

definition readHttp :: "'z source_world_scheme \<Rightarrow> jsstr \<Rightarrow> int \<Rightarrow> int \<Rightarrow> attempt_outcome + buffer" where
  "readHttp w url timeoutMs maxBytes =
     (let failed = Inl (if sw_aborted w url timeoutMs then Timeout else Attempt_error) in
      case sw_fetch w url of None \<Rightarrow> failed
      | Some response \<Rightarrow>
          if \<not> hr_ok response then Inl Http_error
          else if maxBytes < hr_declared response then Inl Too_large
          else (case hr_chunks response of None \<Rightarrow> Inr []
                | Some chunks \<Rightarrow> read_stream maxBytes 0 chunks (if hr_broken response then failed else Inr [])))"

definition readLocal :: "'z source_world_scheme \<Rightarrow> jsstr \<Rightarrow> int \<Rightarrow> attempt_outcome + buffer" where
  "readLocal w source maxBytes =
     (case (if is_file_url source then sw_fileUrl w source
            else if sw_absolute w source then Some source else Some (sw_resolve w source)) of
        None \<Rightarrow> Inl Attempt_error
      | Some filePath \<Rightarrow>
         (case sw_stat w filePath of None \<Rightarrow> Inl Attempt_error
          | Some bytes \<Rightarrow>
              if maxBytes < bytes then Inl Too_large
              else (case sw_read w filePath of None \<Rightarrow> Inl Attempt_error | Some b \<Rightarrow> Inr b)))"

definition read_source :: "'z source_world_scheme \<Rightarrow> int \<Rightarrow> int \<Rightarrow> jsstr \<Rightarrow> attempt_outcome + buffer" where
  "read_source w timeoutMs maxBytes source =
     (if is_http source then readHttp w source timeoutMs maxBytes
      else if scheme_of source \<noteq> None \<and> \<not> is_file_url source then Inl Unsupported
      else readLocal w source maxBytes)"

section \<open>The committed snapshot\<close>

record fetched_snapshot =
  fs_bytes :: buffer
  fs_source :: jsstr
  fs_attempts :: "attempt list"

definition tried_as :: "jsstr \<Rightarrow> attempt_outcome \<Rightarrow> attempt" where
  "tried_as source what = \<lparr>at_source = source, at_outcome = what\<rparr>"

primrec try_sources ::
  "'z source_world_scheme \<Rightarrow> jsstr \<Rightarrow> int \<Rightarrow> int \<Rightarrow> attempt list \<Rightarrow> jsstr list \<Rightarrow> fetched_snapshot result" where
  "try_sources w expected timeoutMs maxBytes attempts [] =
     Inl (SnapshotUnavailable ''No source served the committed snapshot'')"
| "try_sources w expected timeoutMs maxBytes attempts (source # rest) =
     (case read_source w timeoutMs maxBytes source of
        Inl what \<Rightarrow> try_sources w expected timeoutMs maxBytes (attempts @ [tried_as source what]) rest
      | Inr bytes \<Rightarrow>
          if to_hex (sha256 bytes) \<noteq> expected
          then try_sources w expected timeoutMs maxBytes (attempts @ [tried_as source Hash_mismatch]) rest
          else Inr \<lparr>fs_bytes = bytes, fs_source = source, fs_attempts = attempts @ [tried_as source Attempt_ok]\<rparr>)"

record source_opts =
  sp_snapshotUri :: jsstr
  sp_snapshotHash :: jsstr
  sp_mirrors :: "jsstr list option"
  sp_localFile :: "jsstr option"
  sp_gateways :: "gateways option"
  sp_timeoutMs :: "int option"
  sp_maxBytes :: "int option"

definition snapshot_sources :: "source_opts \<Rightarrow> jsstr list" where
  "snapshot_sources opts =
     js_unique ((case sp_localFile opts of Some f \<Rightarrow> if f = [] then [] else [f] | None \<Rightarrow> [])
       @ snapshotSourceCandidates (sp_snapshotUri opts) (lower (sp_snapshotHash opts)) (sp_mirrors opts) (sp_gateways opts))"

definition time_limit :: "source_opts \<Rightarrow> int" where
  "time_limit opts = (case sp_timeoutMs opts of None \<Rightarrow> DEFAULT_SNAPSHOT_TIMEOUT_MS | Some t \<Rightarrow> t)"

definition byte_limit :: "source_opts \<Rightarrow> int" where
  "byte_limit opts = (case sp_maxBytes opts of None \<Rightarrow> DEFAULT_SNAPSHOT_MAX_BYTES | Some n \<Rightarrow> n)"

definition fetchCommittedSnapshot :: "'z source_world_scheme \<Rightarrow> source_opts \<Rightarrow> fetched_snapshot result" where
  "fetchCommittedSnapshot w opts =
     throwIf (\<not> is_hex64 (lower (sp_snapshotHash opts))) (TypeError ''snapshotHash must be 32-byte hex'')
       (try_sources w (lower (sp_snapshotHash opts)) (time_limit opts) (byte_limit opts) [] (snapshot_sources opts))"

section \<open>Which sources are served\<close>

definition serves :: "'z source_world_scheme \<Rightarrow> source_opts \<Rightarrow> jsstr \<Rightarrow> buffer \<Rightarrow> bool" where
  "serves w opts source bytes \<longleftrightarrow>
     read_source w (time_limit opts) (byte_limit opts) source = Inr bytes
     \<and> to_hex (sha256 bytes) = lower (sp_snapshotHash opts)"

lemma set_js_unique [simp]: "set (js_unique xs) = set xs"
  by (simp add: js_unique_def)

lemma distinct_js_unique [simp]: "distinct (js_unique xs)"
  by (simp add: js_unique_def)

lemma try_sources_D:
  assumes "try_sources w expected t m attempts sources = Inr r"
  shows "read_source w t m (fs_source r) = Inr (fs_bytes r)" and "to_hex (sha256 (fs_bytes r)) = expected"
    and "\<exists>tried. prefix tried sources \<and> map at_source (fs_attempts r) = map at_source attempts @ tried
      \<and> last tried = fs_source r \<and> tried \<noteq> []"
  using assms
proof (induction sources arbitrary: attempts)
  case (Cons s rest)
  { case 1 then show ?case using Cons by (auto split: sum.splits if_splits) }
  { case 2 then show ?case using Cons by (auto split: sum.splits if_splits) }
  { case 3
    show ?case
    proof (cases "\<exists>bytes. read_source w t m s = Inr bytes \<and> to_hex (sha256 bytes) = expected")
      case True
      with 3 show ?thesis by (intro exI [of _ "[s]"]) (auto simp: tried_as_def)
    next
      case False
      then obtain what where "try_sources w expected t m (attempts @ [tried_as s what]) rest = Inr r"
        using 3 by (auto split: sum.splits if_splits)
      from Cons.IH(3) [OF this] obtain tried where "prefix tried rest"
        "map at_source (fs_attempts r) = map at_source attempts @ s # tried" "last tried = fs_source r" "tried \<noteq> []"
        by (auto simp: tried_as_def)
      then show ?thesis by (intro exI [of _ "s # tried"]) simp
    qed }
qed simp_all

lemma try_sources_ok:
  assumes "s \<in> set sources" and "read_source w t m s = Inr bytes" and "to_hex (sha256 bytes) = expected"
  shows "\<exists>r. try_sources w expected t m attempts sources = Inr r"
  using assms
proof (induction sources arbitrary: attempts)
  case (Cons x rest)
  then show ?case by (cases "read_source w t m x") auto
qed simp

lemma try_sources_error:
  "try_sources w expected t m attempts sources = Inl e \<Longrightarrow> e = SnapshotUnavailable ''No source served the committed snapshot''"
  by (induction sources arbitrary: attempts) (auto split: sum.splits if_splits)


section \<open>An honest source is enough\<close>

lemma fetchCommittedSnapshot_hash:
  assumes "fetchCommittedSnapshot w opts = Inr r"
  shows "to_hex (sha256 (fs_bytes r)) = lower (sp_snapshotHash opts)" and "fs_source r \<in> set (snapshot_sources opts)"
proof -
  from assms have t: "try_sources w (lower (sp_snapshotHash opts)) (time_limit opts) (byte_limit opts) [] (snapshot_sources opts) = Inr r"
    by (simp add: fetchCommittedSnapshot_def throwIf_Inr_iff)
  then show "to_hex (sha256 (fs_bytes r)) = lower (sp_snapshotHash opts)" by (rule try_sources_D)
  from try_sources_D(3) [OF t] obtain tried where "prefix tried (snapshot_sources opts)" "last tried = fs_source r" "tried \<noteq> []" by blast
  then show "fs_source r \<in> set (snapshot_sources opts)" by (metis last_in_set set_mono_prefix subset_eq)
qed

text \<open>C35: whatever the mirrors, gateways and files of the world answer, a snapshot is returned only if its SHA-256 is
  the committed hash, and one is returned as soon as a single listed source serves such bytes within the limits:
  then the result is these very bytes, unless the source that answered first has a second preimage of the
  committed hash. Otherwise the error is that no source served it.\<close>

theorem committed_snapshot_found:
  assumes "is_hex64 (lower (sp_snapshotHash opts))"
  shows "(\<forall>r. fetchCommittedSnapshot w opts = Inr r \<longrightarrow> serves w opts (fs_source r) (fs_bytes r))
    \<and> (\<forall>source bytes. source \<in> set (snapshot_sources opts) \<and> serves w opts source bytes \<longrightarrow>
         (\<exists>r. fetchCommittedSnapshot w opts = Inr r \<and> (fs_bytes r = bytes \<or> fs_bytes r \<noteq> bytes \<and> sha256 (fs_bytes r) = sha256 bytes)))
    \<and> ((\<forall>source \<in> set (snapshot_sources opts). \<nexists>bytes. serves w opts source bytes) \<longrightarrow>
         fetchCommittedSnapshot w opts = Inl (SnapshotUnavailable ''No source served the committed snapshot''))"
proof (intro conjI allI impI)
  have f: "fetchCommittedSnapshot w opts
    = try_sources w (lower (sp_snapshotHash opts)) (time_limit opts) (byte_limit opts) [] (snapshot_sources opts)"
    using assms by (simp add: fetchCommittedSnapshot_def)
  show s: "serves w opts (fs_source r) (fs_bytes r)" if "fetchCommittedSnapshot w opts = Inr r" for r
    using try_sources_D(1,2) [OF that [unfolded f]] by (simp add: serves_def)
  show "\<exists>r. fetchCommittedSnapshot w opts = Inr r \<and> (fs_bytes r = bytes \<or> fs_bytes r \<noteq> bytes \<and> sha256 (fs_bytes r) = sha256 bytes)"
    if served: "source \<in> set (snapshot_sources opts) \<and> serves w opts source bytes" for source bytes
  proof -
    obtain r where r: "fetchCommittedSnapshot w opts = Inr r"
      using served try_sources_ok unfolding f serves_def by metis
    then have "to_hex (sha256 (fs_bytes r)) = to_hex (sha256 bytes)" using s [OF r] served by (simp add: serves_def)
    then show ?thesis using r by auto
  qed
  show "fetchCommittedSnapshot w opts = Inl (SnapshotUnavailable ''No source served the committed snapshot'')"
    if none: "\<forall>source \<in> set (snapshot_sources opts). \<nexists>bytes. serves w opts source bytes"
  proof (cases "fetchCommittedSnapshot w opts")
    case (Inl e)
    then show ?thesis using try_sources_error unfolding f by metis
  next
    case (Inr r)
    then show ?thesis using none s fetchCommittedSnapshot_hash(2) by blast
  qed
qed

text \<open>A world where the committed URI is served with wrong bytes and the mirror is honest.\<close>

definition sample_sources :: source_world where
  "sample_sources = \<lparr>sw_fetch = (\<lambda>url. if url = js ''https://lying.example/x'' then
        Some \<lparr>hr_ok = True, hr_declared = 0, hr_chunks = Some [[9, 9]], hr_broken = False\<rparr>
      else Some \<lparr>hr_ok = True, hr_declared = 3, hr_chunks = Some [[1], [2, 3]], hr_broken = False\<rparr>),
     sw_aborted = (\<lambda>_ _. False), sw_fileUrl = (\<lambda>_. None), sw_absolute = (\<lambda>_. False), sw_resolve = id,
     sw_stat = (\<lambda>_. None), sw_read = (\<lambda>_. None)\<rparr>"

definition sample_source_opts :: source_opts where
  "sample_source_opts = \<lparr>sp_snapshotUri = js ''https://lying.example/x'', sp_snapshotHash = to_hex (sha256 [1, 2, 3]),
     sp_mirrors = Some [js ''https://m/''], sp_localFile = None, sp_gateways = None, sp_timeoutMs = None, sp_maxBytes = None\<rparr>"

lemma lower_to_hex [simp]: "lower (to_hex b) = to_hex b"
  unfolding lower_def by (rule map_idI) (use to_hex_chars in blast)

lemma mirror_listed: "js ''https://m/sha256/'' @ to_hex (sha256 [1, 2, 3]) @ js ''.jsonl'' \<in> set (snapshot_sources sample_source_opts)"
proof -
  have "strip_slashes (js_trim (js ''https://m/'')) = js ''https://m''"
    by (simp add: strip_slashes_def js_trim_def js_space_def js_def)
  then have "mirror_source h (js ''https://m/'') = [js ''https://m/sha256/'' @ h @ js ''.jsonl'']" for h
    by (simp add: mirror_source_def js_def)
  then show ?thesis
    by (simp add: snapshot_sources_def sample_source_opts_def snapshotSourceCandidates_def)
qed

lemma committed_snapshot_found_witness:
  "\<exists>r. fetchCommittedSnapshot sample_sources sample_source_opts = Inr r \<and> sha256 (fs_bytes r) = sha256 [1, 2, 3]"
proof -
  let ?m = "js ''https://m/sha256/'' @ to_hex (sha256 [1, 2, 3]) @ js ''.jsonl''"
  have "is_http ?m" "?m \<noteq> js ''https://lying.example/x''" by (simp_all add: is_http_def lower_def js_def hex_lower_def)
  then have "serves sample_sources sample_source_opts ?m [1, 2, 3]"
    by (simp add: serves_def read_source_def readHttp_def sample_sources_def sample_source_opts_def byte_limit_def
      DEFAULT_SNAPSHOT_MAX_BYTES_def Let_def)
  moreover have "is_hex64 (lower (sp_snapshotHash sample_source_opts))"
    by (simp add: sample_source_opts_def is_hex64_to_hex length_sha256)
  ultimately show ?thesis
    using committed_snapshot_found [of sample_source_opts sample_sources] mirror_listed by metis
qed

end
