(* ===== verification/Chain.thy ===== *)
theory Chain
  imports Events Snapshot_Source Slot Conditions Compiled
begin

text \<open>
  What a verification reads, and how: the first half of the driver in \<^verbatim>\<open>sdk/verify.ts\<close>. The RPC node, the IDL coder of
  anchor, \<^verbatim>\<open>PublicKey\<close> and the file system are the parameter \<open>world\<close>; a \<^verbatim>\<open>PublicKey\<close> is its 32 bytes and base58 its text.
  Every address is read at most once in a verification, so one answer per address is what the code sees. From the
  source: the seeds of the program-derived addresses, the error code of each missing or undecodable account, and
  the reconstruction of the artifact from its chunks.
\<close>

section \<open>Accounts\<close>

text \<open>The fields that the verifier reads; unsigned fields are \<open>nat\<close>. Of a resolution, fields that only some versions
  have are options, \<open>None\<close> being \<^verbatim>\<open>undefined\<close>.\<close>

record artifact_header =
  ah_compiledArtifactHash :: buffer
  ah_isFinalized :: bool
  ah_status :: nat
  ah_blobLen :: nat
  ah_chunkCount :: nat

record artifact_chunk =
  ac_compiledArtifactHash :: buffer
  ac_chunkIndex :: nat
  ac_writtenLen :: nat
  ac_data :: buffer

datatype resolution_name = OutcomeResolution | OutcomeResolutionV2 | OutcomeResolutionV3 | OutcomeResolutionV4

record resolution =
  rz_runtimeId :: buffer
  rz_resolveId :: int
  rz_inputLamports :: int
  rz_artifactFormatVersion :: "int option"
  rz_winnerCount :: "int option"
  rz_winnerClaimHash :: "buffer option"
  rz_totalOutputLamports :: int
  rz_compiledArtifactHash :: buffer
  rz_randomness :: buffer
  rz_outcomeIdLen :: int
  rz_outcomeId :: buffer
  rz_outcomeIdLens :: "int list option"
  rz_outcomeIds :: "buffer list option"
  rz_effectCount :: int
  rz_effectsDigest :: buffer
  rz_rngVersion :: "int option"
  rz_snapshotHash :: "buffer option"
  rz_resolvedSlots :: "int list option"
  rz_slotHashes :: "buffer list option"
  rz_operatorCommitPresent :: bool
  rz_operatorCommitHash :: "buffer option"
  rz_operatorRevealLen :: "int option"
  rz_operatorReveal :: "buffer option"
  rz_protocolRevision :: "int option"

definition resolution_of :: "resolution_account \<Rightarrow> resolution" where
  "resolution_of a = \<lparr>rz_runtimeId = ra_runtimeId a, rz_resolveId = ra_resolveId a, rz_inputLamports = ra_inputLamports a,
     rz_artifactFormatVersion = Some (ra_artifactFormatVersion a), rz_winnerCount = Some (ra_winnerCount a),
     rz_winnerClaimHash = Some (ra_winnerClaimHash a), rz_totalOutputLamports = ra_totalOutputLamports a,
     rz_compiledArtifactHash = ra_compiledArtifactHash a, rz_randomness = ra_randomness a,
     rz_outcomeIdLen = ra_outcomeIdLen a, rz_outcomeId = ra_outcomeId a, rz_outcomeIdLens = None, rz_outcomeIds = None,
     rz_effectCount = ra_effectCount a, rz_effectsDigest = ra_effectsDigest a, rz_rngVersion = Some (ra_rngVersion a),
     rz_snapshotHash = Some (ra_snapshotHash a), rz_resolvedSlots = Some (ra_resolvedSlots a),
     rz_slotHashes = Some (ra_slotHashes a), rz_operatorCommitPresent = ra_operatorCommitPresent a,
     rz_operatorCommitHash = Some (ra_operatorCommitHash a), rz_operatorRevealLen = Some (ra_operatorRevealLen a),
     rz_operatorReveal = Some (ra_operatorReveal a), rz_protocolRevision = Some (ra_protocolRevision a)\<rparr>"

section \<open>The outside world\<close>

record world = source_world +
  w_publicKey :: "jsstr \<Rightarrow> buffer result"
  w_base58 :: "buffer \<Rightarrow> jsstr"
  w_programAddress :: "buffer list \<Rightarrow> buffer \<Rightarrow> buffer result"
  w_transaction :: "jsstr \<Rightarrow> jsstr list option result"
  w_account :: "buffer \<Rightarrow> buffer option result"
  w_decodeConfig :: "buffer \<Rightarrow> buffer result"
  w_decodeHeader :: "buffer \<Rightarrow> artifact_header result"
  w_decodeChunk :: "buffer \<Rightarrow> artifact_chunk result"
  w_decodeProgramConfig :: "buffer \<Rightarrow> bool result"
  w_decodeResolution :: "resolution_name \<Rightarrow> buffer \<Rightarrow> resolution result"
  w_exists :: "jsstr \<Rightarrow> bool"
  w_environment :: jsstr

text \<open>\<^verbatim>\<open>catch (error) { mismatch(code, ...) }\<close>\<close>

definition mismatch_on_error :: "string \<Rightarrow> 'a result \<Rightarrow> 'a result" where
  "mismatch_on_error code r = (case r of Inl _ \<Rightarrow> Inl (ReplayMismatch code) | Inr x \<Rightarrow> Inr x)"

definition found :: "string \<Rightarrow> 'a option result \<Rightarrow> 'a result" where
  "found code r = bindE r (\<lambda>x. case x of None \<Rightarrow> Inl (ReplayMismatch code) | Some v \<Rightarrow> Inr v)"

section \<open>Addresses\<close>

definition deriveProgramConfigPda :: "world \<Rightarrow> buffer \<Rightarrow> buffer result" where
  "deriveProgramConfigPda w programId = w_programAddress w [utf8_encode (js ''outcome_program_config'')] programId"

definition deriveApprovedArtifactPda :: "world \<Rightarrow> buffer \<Rightarrow> buffer \<Rightarrow> buffer result" where
  "deriveApprovedArtifactPda w programId hash =
     w_programAddress w [utf8_encode (js ''approved_outcome_artifact''), hash] programId"

definition deriveApprovedArtifactChunkPda :: "world \<Rightarrow> buffer \<Rightarrow> buffer \<Rightarrow> nat \<Rightarrow> buffer result" where
  "deriveApprovedArtifactChunkPda w programId hash chunkIndex =
     bindE (u32le (int chunkIndex)) (\<lambda>i.
       w_programAddress w [utf8_encode (js ''approved_outcome_artifact_chunk''), hash, i] programId)"

definition deriveOutcomeConfigPda :: "world \<Rightarrow> buffer \<Rightarrow> buffer \<Rightarrow> buffer result" where
  "deriveOutcomeConfigPda w programId runtimeId = w_programAddress w [utf8_encode (js ''outcome_config''), runtimeId] programId"

definition deriveOutcomeResolutionPda :: "world \<Rightarrow> buffer \<Rightarrow> buffer \<Rightarrow> int \<Rightarrow> buffer result" where
  "deriveOutcomeResolutionPda w programId runtimeId resolveId =
     bindE (u64le resolveId) (\<lambda>i. w_programAddress w [utf8_encode (js ''outcome_resolution''), runtimeId, i] programId)"

definition deriveRngV2StatePda :: "world \<Rightarrow> buffer \<Rightarrow> buffer \<Rightarrow> int \<Rightarrow> buffer result" where
  "deriveRngV2StatePda w programId runtimeId resolveId =
     bindE (u64le resolveId) (\<lambda>i. w_programAddress w [utf8_encode (js ''rng_v2_state''), runtimeId, i] programId)"

section \<open>Fetching\<close>

definition fetchTransactionLogs :: "world \<Rightarrow> jsstr \<Rightarrow> jsstr list result" where
  "fetchTransactionLogs w signature = found ''ERR_TX_NOT_FOUND_OR_NO_LOGS'' (w_transaction w signature)"

definition fetchDecodedAccount ::
  "world \<Rightarrow> (buffer \<Rightarrow> 'a result) \<Rightarrow> buffer \<Rightarrow> string \<Rightarrow> 'a result" where
  "fetchDecodedAccount w decode pubkey notFoundCode =
     bindE (found notFoundCode (w_account w pubkey)) (\<lambda>data. mismatch_on_error notFoundCode (decode data))"

definition fetchDecodedRngV2State :: "world \<Rightarrow> buffer \<Rightarrow> rng_v2_state result" where
  "fetchDecodedRngV2State w pubkey = fetchDecodedAccount w decodeRngV2StateAccount pubkey ''ERR_RNG_V2_STATE_MISMATCH''"

text \<open>\<^verbatim>\<open>try { ... } catch { ... }\<close> with another attempt.\<close>

definition or_try :: "'a result \<Rightarrow> 'a result \<Rightarrow> 'a result" where
  "or_try a b = (case a of Inl _ \<Rightarrow> b | Inr x \<Rightarrow> Inr x)"

definition named_resolution ::
  "world \<Rightarrow> buffer \<Rightarrow> resolution_name \<Rightarrow> (resolution_name \<times> resolution) result" where
  "named_resolution w data name =
     bindE (if name = OutcomeResolutionV4 then bindE (decodeOutcomeResolutionV4Account data) (\<lambda>a. Inr (resolution_of a))
            else w_decodeResolution w name data) (\<lambda>decoded. Inr (name, decoded))"

definition fetchDecodedOutcomeResolution :: "world \<Rightarrow> buffer \<Rightarrow> (resolution_name \<times> resolution) result" where
  "fetchDecodedOutcomeResolution w pubkey =
     bindE (found ''ERR_RESOLUTION_ACCOUNT_NOT_FOUND'' (w_account w pubkey)) (\<lambda>data.
       or_try (named_resolution w data OutcomeResolutionV4)
      (or_try (named_resolution w data OutcomeResolutionV3)
      (or_try (named_resolution w data OutcomeResolutionV2)
      (mismatch_on_error ''ERR_RESOLUTION_ACCOUNT_NOT_FOUND'' (named_resolution w data OutcomeResolution)))))"

section \<open>The artifact\<close>

definition CHUNK_SIZE :: int where "CHUNK_SIZE = 1024"

definition expectedChunkLen :: "nat \<Rightarrow> nat \<Rightarrow> int" where
  "expectedChunkLen blobLen chunkIndex =
     (let chunkBase = int chunkIndex * CHUNK_SIZE in min CHUNK_SIZE (int blobLen - chunkBase))"

abbreviation chunk_missing :: js_error where
  "chunk_missing \<equiv> ReplayMismatch ''ERR_ARTIFACT_CHUNK_MISSING''"

definition fetch_chunk :: "world \<Rightarrow> buffer \<Rightarrow> buffer \<Rightarrow> nat \<Rightarrow> nat \<Rightarrow> buffer result" where
  "fetch_chunk w programId compiledArtifactHash blobLen chunkIndex =
     bindE (deriveApprovedArtifactChunkPda w programId compiledArtifactHash chunkIndex) (\<lambda>chunkPda.
     bindE (found ''ERR_ARTIFACT_CHUNK_MISSING'' (w_account w chunkPda)) (\<lambda>data.
     bindE (mismatch_on_error ''ERR_ARTIFACT_CHUNK_MISSING'' (w_decodeChunk w data)) (\<lambda>decoded.
     throwIf (ac_compiledArtifactHash decoded \<noteq> compiledArtifactHash) chunk_missing
    (throwIf (ac_chunkIndex decoded \<noteq> chunkIndex) chunk_missing
    (throwIf (int (ac_writtenLen decoded) \<noteq> expectedChunkLen blobLen chunkIndex) chunk_missing
    (Inr (take (ac_writtenLen decoded) (ac_data decoded))))))))"

definition reconstructArtifactBlob ::
  "world \<Rightarrow> buffer \<Rightarrow> buffer \<Rightarrow> artifact_header \<Rightarrow> buffer result" where
  "reconstructArtifactBlob w programId compiledArtifactHash header =
     bindE (mapE (fetch_chunk w programId compiledArtifactHash (ah_blobLen header)) [0..<ah_chunkCount header]) (\<lambda>parts.
     let blob = concat parts in
     throwIf (length blob \<noteq> ah_blobLen header) chunk_missing (Inr blob))"

text \<open>What the three replays share: the configuration binds the runtime to the artifact hash of the event, and the
  account of the artifact is finalised.\<close>

definition config_hash :: "world \<Rightarrow> buffer \<Rightarrow> buffer \<Rightarrow> buffer result" where
  "config_hash w programId runtimeId =
     bindE (deriveOutcomeConfigPda w programId runtimeId) (\<lambda>pda.
       fetchDecodedAccount w (w_decodeConfig w) pda ''ERR_OUTCOME_CONFIG_NOT_FOUND'')"

definition artifact_account :: "world \<Rightarrow> buffer \<Rightarrow> buffer \<Rightarrow> artifact_header result" where
  "artifact_account w programId hash =
     bindE (deriveApprovedArtifactPda w programId hash) (\<lambda>pda.
       fetchDecodedAccount w (w_decodeHeader w) pda ''ERR_ARTIFACT_HEADER_NOT_FOUND'')"

definition check_header :: "buffer \<Rightarrow> artifact_header \<Rightarrow> unit result" where
  "check_header hash header =
     throwIf (ah_compiledArtifactHash header \<noteq> hash) (ReplayMismatch ''ERR_ARTIFACT_HASH_MISMATCH'')
    (throwIf (\<not> ah_isFinalized header) (ReplayMismatch ''ERR_ARTIFACT_NOT_FINALIZED'') (Inr ()))"

definition committed_blob :: "world \<Rightarrow> buffer \<Rightarrow> buffer \<Rightarrow> artifact_header \<Rightarrow> buffer result" where
  "committed_blob w programId hash header =
     bindE (reconstructArtifactBlob w programId hash header) (\<lambda>blob.
     throwIf (sha256 blob \<noteq> hash) (ReplayMismatch ''ERR_ARTIFACT_HASH_MISMATCH'') (Inr blob))"

lemma committed_blob_hash: "committed_blob w programId hash header = Inr blob \<Longrightarrow> sha256 blob = hash"
  by (auto simp: committed_blob_def bindE_Inr_iff throwIf_Inr_iff)

end
