(* ===== verification/Verify.thy ===== *)
theory Verify
  imports Chain
begin

text \<open>
  The verification of a resolution, \<^verbatim>\<open>verifyOutcome\<close> of \<^verbatim>\<open>sdk/verify.ts\<close>: find the event of the transaction, read the
  accounts behind it, rebuild the committed artifact, derive the randomness again from the evidence, replay and
  compare. Conditions, slot spins, snapshot draws and compact draws each have their own replay. A failed comparison
  is a \<^verbatim>\<open>ReplayMismatchError\<close> with its code; \<open>verifyOutcome\<close> turns every error into a result with status MISMATCH.
\<close>

section \<open>Results\<close>

datatype verify_status = MATCH | MISMATCH

record outcome_row =
  or_id :: jsstr
  or_weight :: int
  or_score :: "int option"
  or_order :: "int option"

text \<open>An optional field is \<open>None\<close> when the object lacks it.\<close>

record verify_result =
  vr_status :: verify_status
  vr_reason :: string
  vr_outcome_id :: jsstr
  vr_outcome_ids :: "jsstr list option"
  vr_winners_count :: "int option"
  vr_artifact_format_version :: "int option"
  vr_resolution_formula :: "jsstr option"
  vr_target :: "int option"
  vr_snapshot_hash :: "jsstr option"
  vr_rng_version :: "int option"
  vr_target_slots :: "jsstr list option"
  vr_resolved_slots :: "jsstr list option"
  vr_slot_hashes :: "jsstr list option"
  vr_operator_commit_hash :: "jsstr option"
  vr_winner_claim_hash :: "jsstr option"
  vr_entropy_source :: "jsstr option"
  vr_protocol_revision :: "int option"
  vr_snapshot_count :: "int option"
  vr_snapshot_uri :: "jsstr option"
  vr_entry_count :: "int option"
  vr_standard_version :: "jsstr option"
  vr_merkle_root :: "jsstr option"
  vr_outcomes :: "outcome_row list option"
  vr_entrant_count :: "int option"
  vr_actor :: "jsstr option"
  vr_input_lamports :: "jsstr option"
  vr_payout_lamports :: "jsstr option"
  vr_raw_win_lamports :: "jsstr option"
  vr_reel_stops :: "int list option"
  vr_randomness :: "jsstr option"
  vr_settled_at_slot :: "jsstr option"
  vr_winning_score_sum :: "jsstr option"
  vr_winners_digest :: "jsstr option"
  vr_facts_ref_root :: "jsstr option"
  vr_resolve_id :: jsstr
  vr_compiled_artifact_hash :: jsstr
  vr_runtime_id :: jsstr
  vr_program_id :: jsstr

definition mismatchResult :: "string \<Rightarrow> jsstr \<Rightarrow> verify_result" where
  "mismatchResult reason programId = \<lparr>vr_status = MISMATCH, vr_reason = reason, vr_outcome_id = [], vr_outcome_ids = None,
     vr_winners_count = None, vr_artifact_format_version = None, vr_resolution_formula = None, vr_target = None,
     vr_snapshot_hash = None, vr_rng_version = None, vr_target_slots = None, vr_resolved_slots = None,
     vr_slot_hashes = None, vr_operator_commit_hash = None, vr_winner_claim_hash = None, vr_entropy_source = None,
     vr_protocol_revision = None, vr_snapshot_count = None, vr_snapshot_uri = None, vr_entry_count = None,
     vr_standard_version = None, vr_merkle_root = None, vr_outcomes = None, vr_entrant_count = None, vr_actor = None,
     vr_input_lamports = None, vr_payout_lamports = None, vr_raw_win_lamports = None, vr_reel_stops = None,
     vr_randomness = None, vr_settled_at_slot = None, vr_winning_score_sum = None, vr_winners_digest = None,
     vr_facts_ref_root = None, vr_resolve_id = [], vr_compiled_artifact_hash = [], vr_runtime_id = [],
     vr_program_id = programId\<rparr>"

text \<open>The fields of every MATCH, without the optional ones.\<close>

definition match_result :: "jsstr \<Rightarrow> jsstr \<Rightarrow> buffer \<Rightarrow> buffer \<Rightarrow> jsstr \<Rightarrow> verify_result" where
  "match_result outcomeId resolveId hash runtimeId programId =
     (mismatchResult ''OK'' programId)\<lparr>vr_status := MATCH, vr_outcome_id := outcomeId, vr_resolve_id := resolveId,
        vr_compiled_artifact_hash := to_hex hash, vr_runtime_id := to_hex runtimeId\<rparr>"

section \<open>Small helpers\<close>

definition RNG_VERSION_V2 :: int where "RNG_VERSION_V2 = 2"

definition RNG_V2_STATUS_SETTLED :: int where "RNG_V2_STATUS_SETTLED = 2"

definition RNG_V2_DOMAIN :: buffer where
  "RNG_V2_DOMAIN = ascii_bytes (js ''VRE_RNG_V2'')"

definition PROTOCOL_REVISION_V1_3_2 :: int where "PROTOCOL_REVISION_V1_3_2 = 1"

definition standardVersionForRngV2Revision :: "int \<Rightarrow> jsstr" where
  "standardVersionForRngV2Revision revision = (if revision = PROTOCOL_REVISION_V1_3_2 then js ''1.3.2'' else js ''1.2.1'')"

definition signedBigIntToSafeNumber :: "int \<Rightarrow> int result" where
  "signedBigIntToSafeNumber value =
     (let asNumber = bigint_to_number value in
      throwIf (MAX_SAFE_INTEGER < \<bar>asNumber\<bar>) (Error ''exceeds JavaScript safe integer range'') (Inr asNumber))"

definition zero_padded :: "buffer \<Rightarrow> int \<Rightarrow> bool" where
  "zero_padded bytes start = list_all (\<lambda>b. b = 0) (drop (nat start) bytes)"

definition expectZeroPadding :: "buffer \<Rightarrow> int \<Rightarrow> string \<Rightarrow> unit result" where
  "expectZeroPadding bytes start code = throwIf (\<not> zero_padded bytes start) (ReplayMismatch code) (Inr ())"

definition outcomeIdString :: "buffer \<Rightarrow> int \<Rightarrow> jsstr" where
  "outcomeIdString outcomeId len = ascii_string (take (nat len) outcomeId)"

text \<open>\<^verbatim>\<open>xs.some((x, i) => x !== ys[i])\<close>, where an index past the end of \<open>ys\<close> is \<^verbatim>\<open>undefined\<close>.\<close>

definition some_differs :: "'a list \<Rightarrow> 'a list \<Rightarrow> bool" where
  "some_differs xs ys \<longleftrightarrow> list_ex (\<lambda>i. \<not> (i < length ys \<and> ys ! i = xs ! i)) [0..<length xs]"

text \<open>\<^verbatim>\<open>Buffer.from(x)\<close> of an account field that may be undefined.\<close>

definition buffer_from :: "buffer option \<Rightarrow> buffer result" where
  "buffer_from x = (case x of None \<Rightarrow> Inl (TypeError ''ERR_INVALID_ARG_TYPE'') | Some b \<Rightarrow> Inr b)"

section \<open>Randomness from the slot evidence\<close>

definition slot_chunk :: "int list \<Rightarrow> buffer list \<Rightarrow> nat \<Rightarrow> buffer result" where
  "slot_chunk slots hashes i =
     throwIf (length slots \<le> i \<or> length hashes \<le> i) (TypeError ''ERR_INVALID_ARG_TYPE'')
       (bindE (u64le (slots ! i)) (\<lambda>s. Inr (s @ hashes ! i)))"

definition evidence_missing :: js_error where
  "evidence_missing = ReplayMismatch ''ERR_RNG_V2_EVIDENCE_MISSING''"

definition rng_seed_bytes :: "resolved_event \<Rightarrow> buffer \<Rightarrow> buffer result" where
  "rng_seed_bytes event snapshotHash' =
     (case (ev_resolvedSlots event, ev_slotHashes event) of
        (Some slots, Some hashes) \<Rightarrow>
          throwIf (length slots \<noteq> 3 \<or> length hashes \<noteq> 3) evidence_missing
         (bindE (u64le (ev_resolveId event)) (\<lambda>resolveIdBytes.
          bindE (concatE (map (slot_chunk slots hashes) [0..<3])) (\<lambda>evidence.
          bindE (if ev_operatorCommitPresent event = Some True then
                   (case ev_operatorCommitHash event of None \<Rightarrow> Inl evidence_missing | Some h \<Rightarrow> Inr h)
                 else Inr []) (\<lambda>commit.
          Inr (RNG_V2_DOMAIN @ ev_runtimeId event @ resolveIdBytes @ ev_compiledArtifactHash event @ snapshotHash'
            @ evidence @ commit)))))
      | _ \<Rightarrow> Inl evidence_missing)"

definition deriveRngV2Seed :: "resolved_event \<Rightarrow> buffer \<Rightarrow> buffer result" where
  "deriveRngV2Seed event snapshotHash' = bindE (rng_seed_bytes event snapshotHash') (\<lambda>b. Inr (sha256 b))"

definition deriveRngV2Randomness :: "resolved_event \<Rightarrow> buffer \<Rightarrow> buffer result" where
  "deriveRngV2Randomness event snapshotHash' =
     bindE (deriveRngV2Seed event snapshotHash') (\<lambda>seed.
     bindE (u64le (ev_resolveId event)) (\<lambda>resolveIdBytes.
     Inr (sha256 (seed @ ev_runtimeId event @ resolveIdBytes @ ev_actor event))))"

definition slot_seed_bytes :: "slot_event \<Rightarrow> buffer result" where
  "slot_seed_bytes event =
     bindE (u64le (se_resolveId event)) (\<lambda>resolveIdBytes.
     bindE (concatE (map (slot_chunk (se_resolvedSlots event) (se_slotHashes event)) [0..<3])) (\<lambda>evidence.
     Inr (RNG_V2_DOMAIN @ se_runtimeId event @ resolveIdBytes @ se_compiledArtifactHash event @ zeros 32 @ evidence)))"

definition deriveSlotSpinRandomness :: "slot_event \<Rightarrow> buffer result" where
  "deriveSlotSpinRandomness event =
     bindE (slot_seed_bytes event) (\<lambda>chunks.
     bindE (u64le (se_resolveId event)) (\<lambda>resolveIdBytes.
     Inr (sha256 (sha256 chunks @ se_runtimeId event @ resolveIdBytes @ se_actor event))))"

section \<open>Binding the evidence\<close>

definition or_zeros :: "buffer option \<Rightarrow> buffer" where
  "or_zeros x = (case x of None \<Rightarrow> zeros 32 | Some b \<Rightarrow> b)"

definition or_zero :: "int option \<Rightarrow> int" where
  "or_zero x = (case x of None \<Rightarrow> 0 | Some n \<Rightarrow> n)"

definition verifyRngV2StateBinding :: "rng_v2_state \<Rightarrow> resolved_event \<Rightarrow> unit result" where
  "verifyRngV2StateBinding state event =
     (case (ev_snapshotHash event, ev_resolvedSlots event, ev_slotHashes event) of
        (Some snapshot, Some slots, Some hashes) \<Rightarrow>
          throwIf (ev_rngVersion event \<noteq> Some RNG_VERSION_V2) evidence_missing
         (throwIf (rs_status state \<noteq> RNG_V2_STATUS_SETTLED \<or> rs_runtimeId state \<noteq> ev_runtimeId event
            \<or> rs_resolveId state \<noteq> ev_resolveId event \<or> rs_actor state \<noteq> ev_actor event
            \<or> rs_inputLamports state \<noteq> ev_inputLamports event
            \<or> rs_compiledArtifactHash state \<noteq> ev_compiledArtifactHash event
            \<or> rs_artifactFormatVersion state \<noteq> ev_artifactFormatVersion event
            \<or> rs_snapshotHash state \<noteq> snapshot
            \<or> rs_operatorCommitPresent state \<noteq> (ev_operatorCommitPresent event = Some True)
            \<or> rs_operatorCommitHash state \<noteq> or_zeros (ev_operatorCommitHash event)
            \<or> rs_operatorRevealLen state \<noteq> or_zero (ev_operatorRevealLen event)
            \<or> rs_operatorReveal state \<noteq> or_zeros (ev_operatorReveal event)
            \<or> length (rs_resolvedSlots state) \<noteq> length slots \<or> length (rs_slotHashes state) \<noteq> length hashes
            \<or> some_differs (rs_resolvedSlots state) slots \<or> some_differs (rs_slotHashes state) hashes)
           (ReplayMismatch ''ERR_RNG_V2_STATE_MISMATCH'') (Inr ()))
      | _ \<Rightarrow> Inl evidence_missing)"

definition rngV2ResultFields :: "resolved_event \<Rightarrow> rng_v2_state option \<Rightarrow> verify_result \<Rightarrow> verify_result" where
  "rngV2ResultFields event state r =
     (if ev_rngVersion event \<noteq> Some RNG_VERSION_V2 then r
      else r\<lparr>vr_rng_version := Some RNG_VERSION_V2,
             vr_target_slots := (case state of None \<Rightarrow> vr_target_slots r | Some s \<Rightarrow> Some (map dec_string (rs_targetSlots s))),
             vr_resolved_slots := Some (map dec_string (case ev_resolvedSlots event of None \<Rightarrow> [] | Some l \<Rightarrow> l)),
             vr_slot_hashes := Some (map to_hex (case ev_slotHashes event of None \<Rightarrow> [] | Some l \<Rightarrow> l)),
             vr_operator_commit_hash :=
               (case (ev_operatorCommitPresent event, ev_operatorCommitHash event) of
                  (Some True, Some h) \<Rightarrow> Some (to_hex h) | _ \<Rightarrow> vr_operator_commit_hash r)\<rparr>)"

definition resolution_evidence_mismatch :: js_error where
  "resolution_evidence_mismatch = ReplayMismatch ''ERR_RNG_V2_RESOLUTION_MISMATCH''"

definition verifyRngV2ResolutionEvidence :: "resolution_name \<Rightarrow> resolution \<Rightarrow> resolved_event \<Rightarrow> unit result" where
  "verifyRngV2ResolutionEvidence name r event =
     (if ev_rngVersion event \<noteq> Some RNG_VERSION_V2 then Inr ()
      else
        throwIf (name \<noteq> OutcomeResolutionV4) resolution_evidence_mismatch
       (bindE (buffer_from (rz_snapshotHash r)) (\<lambda>snapshot.
        let slots = (case rz_resolvedSlots r of None \<Rightarrow> [] | Some l \<Rightarrow> l);
            hashes = (case rz_slotHashes r of None \<Rightarrow> [] | Some l \<Rightarrow> l);
            eventSlots = (case ev_resolvedSlots event of None \<Rightarrow> [] | Some l \<Rightarrow> l);
            eventHashes = (case ev_slotHashes event of None \<Rightarrow> [] | Some l \<Rightarrow> l) in
        throwIf (rz_rngVersion r \<noteq> Some RNG_VERSION_V2 \<or> ev_snapshotHash event \<noteq> Some snapshot
           \<or> length slots \<noteq> length eventSlots \<or> length hashes \<noteq> length eventHashes
           \<or> some_differs slots eventSlots \<or> some_differs hashes eventHashes) resolution_evidence_mismatch
       (bindE (buffer_from (rz_operatorCommitHash r)) (\<lambda>commitHash.
        bindE (buffer_from (rz_operatorReveal r)) (\<lambda>reveal.
        throwIf (rz_operatorCommitPresent r \<noteq> (ev_operatorCommitPresent event = Some True)
           \<or> commitHash \<noteq> or_zeros (ev_operatorCommitHash event)
           \<or> rz_operatorRevealLen r \<noteq> Some (or_zero (ev_operatorRevealLen event))
           \<or> reveal \<noteq> or_zeros (ev_operatorReveal event))
          (ReplayMismatch ''ERR_RNG_V2_OPERATOR_REVEAL_MISMATCH'') (Inr ())))))))"

section \<open>Conditions\<close>

definition compare_conditions :: "conditions_event \<Rightarrow> conditions_artifact \<Rightarrow> ranked_entrant list \<Rightarrow> (buffer \<times> buffer) result" where
  "compare_conditions event artifact ranked =
     (let winners = filter r_allHit ranked in
      bindE (winnersDigest ranked) (\<lambda>digest.
      bindE (factsRefRoot artifact) (\<lambda>factsRoot.
      throwIf (int (length (entrants artifact)) \<noteq> ce_entrantCount event) (ReplayMismatch ''ERR_CONDITIONS_ENTRANT_COUNT_MISMATCH'')
     (throwIf (int (length winners) \<noteq> ce_winnerCount event) (ReplayMismatch ''ERR_WINNER_COUNT_MISMATCH'')
     (throwIf (winningScoreSum ranked \<noteq> ce_winningScoreSum event) (ReplayMismatch ''ERR_CONDITIONS_SCORE_SUM_MISMATCH'')
     (throwIf (digest \<noteq> ce_winnersDigest event) (ReplayMismatch ''ERR_CONDITIONS_WINNERS_DIGEST_MISMATCH'')
     (throwIf (factsRoot \<noteq> ce_factsRefRoot event) (ReplayMismatch ''ERR_CONDITIONS_FACTS_ROOT_MISMATCH'')
        (Inr (digest, factsRoot)))))))))"

text \<open>The blob that the two dedicated replays read, after their checks of the configuration and the header.\<close>

definition event_blob :: "world \<Rightarrow> buffer \<Rightarrow> buffer \<Rightarrow> buffer \<Rightarrow> buffer result" where
  "event_blob w programId runtimeId hash =
     bindE (config_hash w programId runtimeId) (\<lambda>configHash.
     throwIf (configHash \<noteq> hash) (ReplayMismatch ''ERR_CONFIG_HASH_MISMATCH'')
    (bindE (artifact_account w programId hash) (\<lambda>header.
     bindE (check_header hash header) (\<lambda>_.
     committed_blob w programId hash header))))"

definition verifyConditions :: "world \<Rightarrow> buffer \<Rightarrow> conditions_event \<Rightarrow> verify_result result" where
  "verifyConditions w programId event =
     bindE (event_blob w programId (ce_runtimeId event) (ce_compiledArtifactHash event)) (\<lambda>blob.
     bindE (mismatch_on_error ''ERR_REPLAY_UNHANDLED'' (parseConditionsArtifact blob)) (\<lambda>artifact.
     let ranked = resolveConditionsArtifact artifact; winners = filter r_allHit ranked in
     throwIf (formatVersion artifact \<noteq> FORMAT_VERSION_CONDITIONS \<or> formulaCode artifact \<noteq> FORMULA_CODE_CONDITIONS)
       (ReplayMismatch ''ERR_ARTIFACT_FORMAT_VERSION_MISMATCH'')
    (bindE (compare_conditions event artifact ranked) (\<lambda>(digest, factsRoot).
     Inr ((match_result (case winners of [] \<Rightarrow> [] | r # _ \<Rightarrow> w_base58 w (r_wallet r)) [] (ce_compiledArtifactHash event)
            (ce_runtimeId event) (w_base58 w programId))
          \<lparr>vr_resolution_formula := Some (js ''conditions''), vr_winners_count := Some (int (length winners)),
           vr_entrant_count := Some (int (length (entrants artifact))),
           vr_winning_score_sum := Some (dec_string (winningScoreSum ranked)),
           vr_winners_digest := Some (to_hex digest), vr_facts_ref_root := Some (to_hex factsRoot),
           vr_outcomes := Some []\<rparr>)))))"

section \<open>Slot spins\<close>

definition compare_spin :: "slot_event \<Rightarrow> slot_spec \<Rightarrow> slot_spin_outcome \<Rightarrow> unit result" where
  "compare_spin event spec outcome =
     throwIf (se_reelCount event \<noteq> Some (s_cols spec) \<or> some_differs (reelStops outcome) (se_reelStops event)
        \<or> list_ex (\<lambda>stop. stop \<noteq> 0) (drop (nat (s_cols spec)) (se_reelStops event)))
       (ReplayMismatch ''ERR_SLOT_REEL_STOPS_MISMATCH'')
    (throwIf (totalWinLamports outcome \<noteq> se_rawWinLamports event) (ReplayMismatch ''ERR_SLOT_WIN_MISMATCH'')
    (bindE (maxWinCap (se_inputLamports event) (s_maxWinMultiplier spec)) (\<lambda>cap.
     let expectedPayout = (if totalWinLamports outcome < cap then totalWinLamports outcome else cap) in
     throwIf (expectedPayout \<noteq> se_payoutLamports event) (ReplayMismatch ''ERR_SLOT_PAYOUT_MISMATCH'') (Inr ()))))"

definition verifySlot :: "world \<Rightarrow> buffer \<Rightarrow> slot_event \<Rightarrow> verify_result result" where
  "verifySlot w programId event =
     bindE (event_blob w programId (se_runtimeId event) (se_compiledArtifactHash event)) (\<lambda>blob.
     bindE (mismatch_on_error ''ERR_REPLAY_UNHANDLED'' (parseSlotArtifact blob)) (\<lambda>spec.
     bindE (deriveSlotSpinRandomness event) (\<lambda>recomputed.
     throwIf (recomputed \<noteq> se_randomness event) (ReplayMismatch ''ERR_SLOT_RANDOMNESS_MISMATCH'')
    (bindE (replaySpin spec recomputed (se_inputLamports event)) (\<lambda>outcome.
     bindE (compare_spin event spec outcome) (\<lambda>_.
     Inr ((match_result [] (dec_string (se_resolveId event)) (se_compiledArtifactHash event) (se_runtimeId event)
            (w_base58 w programId))
          \<lparr>vr_resolution_formula := Some (js ''slot''), vr_artifact_format_version := Some FORMAT_VERSION_SLOT,
           vr_actor := Some (w_base58 w (se_actor event)), vr_input_lamports := Some (dec_string (se_inputLamports event)),
           vr_payout_lamports := Some (dec_string (se_payoutLamports event)),
           vr_raw_win_lamports := Some (dec_string (se_rawWinLamports event)), vr_reel_stops := Some (reelStops outcome),
           vr_randomness := Some (to_hex recomputed), vr_settled_at_slot := Some (dec_string (se_settledAtSlot event)),
           vr_rng_version := Some RNG_VERSION_V2, vr_resolved_slots := Some (map dec_string (se_resolvedSlots event)),
           vr_slot_hashes := Some (map to_hex (se_slotHashes event)), vr_outcomes := Some []\<rparr>)))))))"

end
