(* ===== verification/Verify_Outcome.thy ===== *)
theory Verify_Outcome
  imports Verify
begin

text \<open>
  The rest of \<^verbatim>\<open>verifyOutcome\<close>: resolve events, their accounts, and the two replays behind them. A snapshot draw
  (format versions 4, 6 and 7) fetches the committed snapshot and draws again from the file; a compact draw
  replays from the artifact. Then the driver, and \<^verbatim>\<open>fetchSnapshotCommitment\<close>.
\<close>

section \<open>The accounts of a resolve event\<close>

definition STATUS_PENDING :: nat where "STATUS_PENDING = 0"

definition STATUS_APPROVED :: nat where "STATUS_APPROVED = 1"

definition STATUS_DEPRECATED :: nat where "STATUS_DEPRECATED = 3"

record resolve_accounts =
  rv_configHash :: buffer
  rv_name :: resolution_name
  rv_resolution :: resolution
  rv_state :: "rng_v2_state option"
  rv_header :: artifact_header

definition resolve_accounts_of :: "world \<Rightarrow> buffer \<Rightarrow> resolved_event \<Rightarrow> resolve_accounts result" where
  "resolve_accounts_of w programId event =
     bindE (deriveOutcomeConfigPda w programId (ev_runtimeId event)) (\<lambda>configPda.
     bindE (deriveOutcomeResolutionPda w programId (ev_runtimeId event) (ev_resolveId event)) (\<lambda>resolutionPda.
     bindE (if ev_rngVersion event = Some RNG_VERSION_V2
            then bindE (deriveRngV2StatePda w programId (ev_runtimeId event) (ev_resolveId event)) (\<lambda>p. Inr (Some p))
            else Inr None) (\<lambda>statePda.
     bindE (deriveApprovedArtifactPda w programId (ev_compiledArtifactHash event)) (\<lambda>artifactPda.
     bindE (fetchDecodedAccount w (w_decodeConfig w) configPda ''ERR_OUTCOME_CONFIG_NOT_FOUND'') (\<lambda>configHash.
     bindE (fetchDecodedOutcomeResolution w resolutionPda) (\<lambda>(name, r).
     bindE (case statePda of None \<Rightarrow> Inr None | Some p \<Rightarrow> bindE (fetchDecodedRngV2State w p) (\<lambda>s. Inr (Some s))) (\<lambda>state.
     bindE (fetchDecodedAccount w (w_decodeHeader w) artifactPda ''ERR_ARTIFACT_HEADER_NOT_FOUND'') (\<lambda>header.
     Inr \<lparr>rv_configHash = configHash, rv_name = name, rv_resolution = r, rv_state = state, rv_header = header\<rparr>))))))))"

definition unreviewed_allowed :: "world \<Rightarrow> buffer \<Rightarrow> bool result" where
  "unreviewed_allowed w programId =
     bindE (deriveProgramConfigPda w programId) (\<lambda>pda.
     bindE (w_account w pda) (\<lambda>info. case info of None \<Rightarrow> Inr False
       | Some data \<Rightarrow> Inr (case w_decodeProgramConfig w data of Inl _ \<Rightarrow> False | Inr b \<Rightarrow> b)))"

definition check_status :: "world \<Rightarrow> buffer \<Rightarrow> nat \<Rightarrow> unit result" where
  "check_status w programId status =
     bindE (if status = STATUS_PENDING then unreviewed_allowed w programId else Inr False) (\<lambda>allowUnreviewedBinding.
     throwIf (\<not> (status = STATUS_APPROVED \<or> status = STATUS_DEPRECATED \<or> status = STATUS_PENDING \<and> allowUnreviewedBinding))
       (ReplayMismatch ''ERR_ARTIFACT_STATUS_INVALID'') (Inr ()))"

definition check_bindings :: "resolved_event \<Rightarrow> resolve_accounts \<Rightarrow> unit result" where
  "check_bindings event a =
     (let r = rv_resolution a; hash = ev_compiledArtifactHash event in
      throwIf (rv_configHash a \<noteq> hash) (ReplayMismatch ''ERR_CONFIG_HASH_MISMATCH'')
     (throwIf (rz_compiledArtifactHash r \<noteq> hash) (ReplayMismatch ''ERR_RESOLUTION_HASH_MISMATCH'')
     (throwIf (rz_runtimeId r \<noteq> ev_runtimeId event \<or> rz_resolveId r \<noteq> ev_resolveId event)
        (ReplayMismatch ''ERR_RESOLUTION_HASH_MISMATCH'')
     (check_header hash (rv_header a)))))"

definition check_local_artifact :: "world \<Rightarrow> jsstr \<Rightarrow> buffer \<Rightarrow> unit result" where
  "check_local_artifact w artifactPath hash =
     (if artifactPath = [] then Inr ()
      else let resolved = (if sw_absolute w artifactPath then artifactPath else sw_resolve w artifactPath) in
        throwIf (\<not> w_exists w resolved) (ReplayMismatch ''ERR_ARTIFACT_HASH_MISMATCH'')
       (case sw_read w resolved of None \<Rightarrow> Inl (Error ''readFileSync'')
        | Some bytes \<Rightarrow> throwIf (sha256 bytes \<noteq> hash) (ReplayMismatch ''ERR_ARTIFACT_HASH_MISMATCH'') (Inr ())))"

section \<open>The parsed artifact and the randomness\<close>

datatype parsed_blob = Snapshot_blob snapshot_artifact | Compact_blob parsed_artifact

definition parse_blob :: "buffer \<Rightarrow> int \<Rightarrow> parsed_blob result" where
  "parse_blob blob version =
     (if version = FORMAT_VERSION_V4 then bindE (parseArtifactV4 blob) (\<lambda>a. Inr (Snapshot_blob a))
      else if version = FORMAT_VERSION_V1_2_SCALE then bindE (parseArtifactV12 blob) (\<lambda>a. Inr (Snapshot_blob a))
      else if version = FORMAT_VERSION_V1_2_1_SCALE then bindE (parseArtifactV121 blob) (\<lambda>a. Inr (Snapshot_blob a))
      else bindE (parseCompiledArtifact blob) (\<lambda>p. Inr (Compact_blob p)))"

definition expected_snapshot :: "parsed_blob \<Rightarrow> buffer" where
  "expected_snapshot parsed = (case parsed of Snapshot_blob a \<Rightarrow> sa_snapshotHash a | Compact_blob _ \<Rightarrow> zeros 32)"

definition check_reveal :: "resolved_event \<Rightarrow> unit result" where
  "check_reveal event =
     (if ev_operatorCommitPresent event \<noteq> Some True then Inr ()
      else (case (ev_operatorCommitHash event, ev_operatorReveal event, ev_operatorRevealLen event) of
        (Some commit, Some reveal, Some len) \<Rightarrow>
          throwIf (len < 1 \<or> 32 < len \<or> sha256 (take (nat len) reveal) \<noteq> commit)
            (ReplayMismatch ''ERR_RNG_V2_OPERATOR_REVEAL_MISMATCH'') (Inr ())
      | _ \<Rightarrow> Inl (ReplayMismatch ''ERR_RNG_V2_OPERATOR_REVEAL_MISMATCH'')))"

definition recomputed_randomness :: "resolved_event \<Rightarrow> parsed_blob \<Rightarrow> buffer result" where
  "recomputed_randomness event parsed =
     (if ev_rngVersion event = Some RNG_VERSION_V2 then
        throwIf (ev_snapshotHash event \<noteq> Some (expected_snapshot parsed)) (ReplayMismatch ''ERR_RNG_V2_SNAPSHOT_HASH_MISMATCH'')
       (bindE (check_reveal event) (\<lambda>_. deriveRngV2Randomness event (expected_snapshot parsed)))
      else (case ev_masterSeed event of None \<Rightarrow> Inl (ReplayMismatch ''ERR_RANDOMNESS_MISMATCH'')
        | Some seed \<Rightarrow> deriveResolveRandomness seed (ev_runtimeId event) (ev_resolveId event) (ev_actor event)))"

definition check_state :: "rng_v2_state option \<Rightarrow> resolved_event \<Rightarrow> unit result" where
  "check_state state event =
     (if ev_rngVersion event \<noteq> Some RNG_VERSION_V2 then Inr ()
      else case state of None \<Rightarrow> Inl (ReplayMismatch ''ERR_RNG_V2_STATE_MISMATCH'') | Some s \<Rightarrow> verifyRngV2StateBinding s event)"

text \<open>A field that the first version of the account does not have.\<close>

definition from_v2 :: "resolution_name \<Rightarrow> int option \<Rightarrow> int option" where
  "from_v2 name field = (if name = OutcomeResolution then Some 1 else field)"

definition check_inputs :: "resolved_event \<Rightarrow> resolve_accounts \<Rightarrow> int \<Rightarrow> buffer \<Rightarrow> unit result" where
  "check_inputs event a version recomputed =
     (let r = rv_resolution a in
      throwIf (recomputed \<noteq> ev_randomness event \<or> recomputed \<noteq> rz_randomness r) (ReplayMismatch ''ERR_RANDOMNESS_MISMATCH'')
     (throwIf (ev_inputLamports event \<noteq> rz_inputLamports r) (ReplayMismatch ''ERR_INPUT_MISMATCH'')
     (throwIf (from_v2 (rv_name a) (rz_artifactFormatVersion r) \<noteq> Some (ev_artifactFormatVersion event)
         \<or> ev_artifactFormatVersion event \<noteq> version) (ReplayMismatch ''ERR_ARTIFACT_FORMAT_VERSION_MISMATCH'') (Inr ()))))"

section \<open>Comparisons shared by the replays\<close>

abbreviation id_mismatch :: js_error where
  "id_mismatch \<equiv> ReplayMismatch ''ERR_OUTCOME_ID_MISMATCH''"

abbreviation resolution_winner_count :: "resolve_accounts \<Rightarrow> int option" where
  "resolution_winner_count a \<equiv> from_v2 (rv_name a) (rz_winnerCount (rv_resolution a))"

definition resolution_id_lens :: "resolve_accounts \<Rightarrow> int list" where
  "resolution_id_lens a =
     (if rv_name a = OutcomeResolutionV2 then (case rz_outcomeIdLens (rv_resolution a) of None \<Rightarrow> [] | Some l \<Rightarrow> l)
      else [rz_outcomeIdLen (rv_resolution a)])"

definition resolution_ids :: "resolve_accounts \<Rightarrow> buffer list" where
  "resolution_ids a =
     (if rv_name a = OutcomeResolutionV2 then (case rz_outcomeIds (rv_resolution a) of None \<Rightarrow> [] | Some l \<Rightarrow> l)
      else [rz_outcomeId (rv_resolution a)])"

definition check_effects :: "resolved_event \<Rightarrow> resolution \<Rightarrow> int \<Rightarrow> buffer \<Rightarrow> unit result" where
  "check_effects event r effectCount digest =
     throwIf (ev_effectCount event \<noteq> rz_effectCount r \<or> ev_effectCount event \<noteq> effectCount
        \<or> ev_effectsDigest event \<noteq> rz_effectsDigest r \<or> ev_effectsDigest event \<noteq> digest)
       (ReplayMismatch ''ERR_EFFECTS_DIGEST_MISMATCH'') (Inr ())"

definition check_output :: "resolved_event \<Rightarrow> resolution \<Rightarrow> int \<Rightarrow> unit result" where
  "check_output event r output =
     throwIf (ev_totalOutputLamports event \<noteq> rz_totalOutputLamports r \<or> ev_totalOutputLamports event \<noteq> output)
       (ReplayMismatch ''ERR_OUTPUT_MISMATCH'') (Inr ())"

definition check_winner_count :: "resolved_event \<Rightarrow> resolve_accounts \<Rightarrow> int \<Rightarrow> nat \<Rightarrow> unit result" where
  "check_winner_count event a winnersCount selected =
     throwIf (resolution_winner_count a \<noteq> Some (ev_winnerCount event) \<or> ev_winnerCount event \<noteq> winnersCount
        \<or> ev_winnerCount event \<noteq> int selected) (ReplayMismatch ''ERR_WINNER_COUNT_MISMATCH'') (Inr ())"

definition check_claim_hash :: "resolved_event \<Rightarrow> resolution \<Rightarrow> buffer \<Rightarrow> unit result" where
  "check_claim_hash event r expected =
     bindE (buffer_from (rz_winnerClaimHash r)) (\<lambda>resolutionClaim.
     throwIf (ev_winnerClaimHash event \<noteq> Some expected \<or> resolutionClaim \<noteq> expected)
       (ReplayMismatch ''ERR_WINNER_CLAIM_HASH_MISMATCH'') (Inr ()))"

definition check_lengths :: "resolved_event \<Rightarrow> int list \<Rightarrow> buffer list \<Rightarrow> unit result" where
  "check_lengths event lens ids =
     throwIf (int (length (ev_outcomeIdLens event)) \<noteq> ev_winnerCount event \<or> int (length (ev_outcomeIds event)) \<noteq> ev_winnerCount event
        \<or> int (length lens) \<noteq> ev_winnerCount event \<or> int (length ids) \<noteq> ev_winnerCount event) id_mismatch (Inr ())"

text \<open>The first winner, as the event and the account record it.\<close>

definition check_primary :: "resolved_event \<Rightarrow> resolution \<Rightarrow> jsstr list \<Rightarrow> unit result" where
  "check_primary event r winners =
     bindE (expectZeroPadding (ev_outcomeId event) (ev_outcomeIdLen event) ''ERR_OUTCOME_ID_MISMATCH'') (\<lambda>_.
     bindE (expectZeroPadding (rz_outcomeId r) (rz_outcomeIdLen r) ''ERR_OUTCOME_ID_MISMATCH'') (\<lambda>_.
     throwIf (js_first winners \<noteq> Some (outcomeIdString (ev_outcomeId event) (ev_outcomeIdLen event))
        \<or> js_first winners \<noteq> Some (outcomeIdString (rz_outcomeId r) (rz_outcomeIdLen r))) id_mismatch (Inr ())))"

section \<open>Snapshot draws\<close>

record verify_opts =
  no_signature :: jsstr
  no_programId :: jsstr
  no_artifactPath :: jsstr
  no_snapshotMirrors :: "jsstr list"
  no_snapshotFile :: jsstr
  no_snapshotTimeoutMs :: int

definition committed_snapshot :: "world \<Rightarrow> verify_opts \<Rightarrow> snapshot_artifact \<Rightarrow> fetched_snapshot result" where
  "committed_snapshot w opts parsed =
     (case fetchCommittedSnapshot w
        \<lparr>sp_snapshotUri = sa_snapshotUri parsed, sp_snapshotHash = to_hex (sa_snapshotHash parsed),
         sp_mirrors = Some (no_snapshotMirrors opts),
         sp_localFile = (if no_snapshotFile opts = [] then None else Some (no_snapshotFile opts)), sp_gateways = None,
         sp_timeoutMs = Some (no_snapshotTimeoutMs opts), sp_maxBytes = None\<rparr> of
        Inl (SnapshotUnavailable m) \<Rightarrow> Inl (ReplayMismatch ''ERR_SNAPSHOT_UNAVAILABLE'') | r \<Rightarrow> r)"

definition replay_snapshot :: "formula \<Rightarrow> snapshot_artifact \<Rightarrow> buffer \<Rightarrow> buffer \<Rightarrow> (snapshot_summary \<times> snapshot_claim) result" where
  "replay_snapshot f parsed randomness bytes =
     bindE (inspectSnapshotFile bytes (JString (formula_name f)) (Some (to_hex (sa_snapshotHash parsed)))
        (Some (sa_snapshotCount parsed))
        (case sa_merkleRoot parsed of None \<Rightarrow> JUndefined | Some root \<Rightarrow> JString (to_hex root))) (\<lambda>inspected.
     bindE (buildSnapshotClaimFromFile bytes (JString (formula_name f)) (JNumber (NInt (sa_winnersCount parsed))) randomness
        (sa_payoutLamports parsed) (if f = Closest_to then Some (sa_targetScore parsed) else None)) (\<lambda>selected.
     Inr (inspected, selected)))"

text \<open>One winner of the list that the older events and accounts record in full.\<close>

definition snapshot_winner_step ::
  "resolved_event \<Rightarrow> resolve_accounts \<Rightarrow> snapshot_claim \<Rightarrow> jsstr list \<Rightarrow> nat \<Rightarrow> jsstr list result" where
  "snapshot_winner_step event a selected seen index =
     (let expectedId = cl_outcomeIds selected ! index; eventId = ev_outcomeIds event ! index;
          resolutionId = resolution_ids a ! index; eventLen = ev_outcomeIdLens event ! index;
          resolutionLen = resolution_id_lens a ! index in
      bindE (expectZeroPadding eventId eventLen ''ERR_OUTCOME_ID_MISMATCH'') (\<lambda>_.
      bindE (expectZeroPadding resolutionId resolutionLen ''ERR_OUTCOME_ID_MISMATCH'') (\<lambda>_.
      throwIf (outcomeIdString eventId eventLen \<noteq> expectedId \<or> outcomeIdString resolutionId resolutionLen \<noteq> expectedId) id_mismatch
     (throwIf (expectedId \<in> set seen) id_mismatch (Inr (expectedId # seen))))))"

definition compare_snapshot_winners :: "resolved_event \<Rightarrow> resolve_accounts \<Rightarrow> snapshot_artifact \<Rightarrow> snapshot_claim \<Rightarrow> unit result" where
  "compare_snapshot_winners event a parsed selected =
     (if sa_formatVersion parsed = FORMAT_VERSION_V1_2_1_SCALE then
        check_claim_hash event (rv_resolution a) (cl_winnerClaimHash selected)
      else bindE (check_lengths event (resolution_id_lens a) (resolution_ids a)) (\<lambda>_.
        bindE (foldE (snapshot_winner_step event a selected) [] [0..<nat (ev_winnerCount event)]) (\<lambda>_. Inr ())))"

definition compare_snapshot :: "resolved_event \<Rightarrow> resolve_accounts \<Rightarrow> snapshot_artifact \<Rightarrow> snapshot_claim \<Rightarrow> unit result" where
  "compare_snapshot event a parsed selected =
     bindE (check_winner_count event a (sa_winnersCount parsed) (length (cl_outcomeIds selected))) (\<lambda>_.
     bindE (check_output event (rv_resolution a) (cl_totalOutputLamports selected)) (\<lambda>_.
     bindE (compare_snapshot_winners event a parsed selected) (\<lambda>_.
     bindE (check_primary event (rv_resolution a) (cl_outcomeIds selected)) (\<lambda>_.
     check_effects event (rv_resolution a) (cl_effectCount selected) (cl_effectsDigest selected)))))"

definition snapshot_result ::
  "world \<Rightarrow> buffer \<Rightarrow> resolved_event \<Rightarrow> resolve_accounts \<Rightarrow> formula \<Rightarrow> snapshot_artifact \<Rightarrow> snapshot_summary
     \<Rightarrow> snapshot_claim \<Rightarrow> verify_result result" where
  "snapshot_result w programId event a f parsed inspected selected =
     bindE (if f = Closest_to then bindE (signedBigIntToSafeNumber (sa_targetScore parsed)) (\<lambda>t. Inr (Some t)) else Inr None) (\<lambda>target.
     Inr (rngV2ResultFields event (rv_state a)
       ((match_result (hd (cl_outcomeIds selected)) (dec_string (ev_resolveId event)) (ev_compiledArtifactHash event)
           (ev_runtimeId event) (w_base58 w programId))
        \<lparr>vr_outcome_ids := Some (cl_outcomeIds selected), vr_winners_count := Some (cl_winnersCount selected),
         vr_standard_version :=
           (if sa_formatVersion parsed = FORMAT_VERSION_V1_2_1_SCALE
            then Some (standardVersionForRngV2Revision (or_zero (rz_protocolRevision (rv_resolution a))))
            else if sa_formatVersion parsed = FORMAT_VERSION_V1_2_SCALE then Some (js ''1.2'') else None),
         vr_artifact_format_version :=
           (if sa_formatVersion parsed = FORMAT_VERSION_V1_2_1_SCALE \<or> sa_formatVersion parsed = FORMAT_VERSION_V1_2_SCALE
            then None else Some FORMAT_VERSION_V4),
         vr_resolution_formula := Some (formula_name f), vr_target := target,
         vr_snapshot_hash := Some (to_hex (sa_snapshotHash parsed)), vr_snapshot_count := Some (sa_snapshotCount parsed),
         vr_snapshot_uri := Some (sa_snapshotUri parsed),
         vr_merkle_root := Some (to_hex (case sa_merkleRoot parsed of Some root \<Rightarrow> root | None \<Rightarrow> merkleRootOf inspected)),
         vr_outcomes := Some []\<rparr>)))"

definition verify_snapshot ::
  "world \<Rightarrow> verify_opts \<Rightarrow> buffer \<Rightarrow> resolved_event \<Rightarrow> resolve_accounts \<Rightarrow> snapshot_artifact \<Rightarrow> buffer \<Rightarrow> verify_result result" where
  "verify_snapshot w opts programId event a parsed randomness =
     bindE (formulaCodeToName (sa_formulaCode parsed)) (\<lambda>f.
     bindE (verifyRngV2ResolutionEvidence (rv_name a) (rv_resolution a) event) (\<lambda>_.
     bindE (committed_snapshot w opts parsed) (\<lambda>snapshot.
     bindE (replay_snapshot f parsed randomness (fs_bytes snapshot)) (\<lambda>(inspected, selected).
     bindE (compare_snapshot event a parsed selected) (\<lambda>_.
     snapshot_result w programId event a f parsed inspected selected)))))"

section \<open>Compact draws\<close>

definition check_compact_primary :: "resolved_event \<Rightarrow> resolution \<Rightarrow> selected_outcome \<Rightarrow> unit result" where
  "check_compact_primary event r selected =
     bindE (expectZeroPadding (ev_outcomeId event) (ev_outcomeIdLen event) ''ERR_OUTCOME_ID_MISMATCH'') (\<lambda>_.
     bindE (expectZeroPadding (rz_outcomeId r) (rz_outcomeIdLen r) ''ERR_OUTCOME_ID_MISMATCH'') (\<lambda>_.
     throwIf (ev_outcomeIdLen event \<noteq> rz_outcomeIdLen r \<or> so_outcomeIdLen selected \<noteq> Some (ev_outcomeIdLen event)
        \<or> ev_outcomeId event \<noteq> rz_outcomeId r \<or> so_outcomeId selected \<noteq> Some (ev_outcomeId event)) id_mismatch (Inr ())))"

text \<open>The list of winners to compare with: the account's own, or for rng_v2, whose account has a digest of the
  list, the selected one once the digest agrees.\<close>

definition compact_winner_list ::
  "resolved_event \<Rightarrow> resolve_accounts \<Rightarrow> selected_outcome \<Rightarrow> (int list \<times> buffer list) result" where
  "compact_winner_list event a selected =
     (if ev_rngVersion event = Some RNG_VERSION_V2 then
        bindE (verifyRngV2ResolutionEvidence (rv_name a) (rv_resolution a) event) (\<lambda>_.
        bindE (winnerClaimDigest (so_outcomeIdLens selected) (so_outcomeIds selected)) (\<lambda>expected.
        bindE (check_claim_hash event (rv_resolution a) expected) (\<lambda>_.
        Inr (so_outcomeIdLens selected, so_outcomeIds selected))))
      else Inr (resolution_id_lens a, resolution_ids a))"

definition compact_winner_step ::
  "resolved_event \<Rightarrow> int list \<Rightarrow> buffer list \<Rightarrow> selected_outcome \<Rightarrow> jsstr list \<Rightarrow> nat \<Rightarrow> jsstr list result" where
  "compact_winner_step event lens ids selected seen index =
     (let eventId = ev_outcomeIds event ! index; eventLen = ev_outcomeIdLens event ! index;
          selectedId = so_outcomeIds selected ! index; selectedLen = so_outcomeIdLens selected ! index in
      bindE (expectZeroPadding eventId eventLen ''ERR_OUTCOME_ID_MISMATCH'') (\<lambda>_.
      bindE (expectZeroPadding (ids ! index) (lens ! index) ''ERR_OUTCOME_ID_MISMATCH'') (\<lambda>_.
      bindE (expectZeroPadding selectedId selectedLen ''ERR_OUTCOME_ID_MISMATCH'') (\<lambda>_.
      throwIf (eventLen \<noteq> lens ! index \<or> eventLen \<noteq> selectedLen \<or> eventId \<noteq> ids ! index \<or> eventId \<noteq> selectedId) id_mismatch
     (let canonical = outcomeIdString eventId eventLen in
      throwIf (canonical \<in> set seen) id_mismatch (Inr (canonical # seen)))))))"

definition compare_compact :: "resolved_event \<Rightarrow> resolve_accounts \<Rightarrow> parsed_artifact \<Rightarrow> selected_outcome \<Rightarrow> unit result" where
  "compare_compact event a parsed selected =
     bindE (check_output event (rv_resolution a) (so_totalOutputLamports selected)) (\<lambda>_.
     bindE (check_compact_primary event (rv_resolution a) selected) (\<lambda>_.
     throwIf (from_v2 (rv_name a) (rz_artifactFormatVersion (rv_resolution a)) \<noteq> Some (ev_artifactFormatVersion event)
        \<or> ev_artifactFormatVersion event \<noteq> pa_formatVersion parsed) (ReplayMismatch ''ERR_ARTIFACT_FORMAT_VERSION_MISMATCH'')
    (bindE (check_winner_count event a (pa_winnersCount parsed) (length (so_outcomeIds selected))) (\<lambda>_.
     bindE (compact_winner_list event a selected) (\<lambda>(lens, ids).
     bindE (check_lengths event lens ids) (\<lambda>_.
     bindE (foldE (compact_winner_step event lens ids selected) [] [0..<nat (ev_winnerCount event)]) (\<lambda>_.
     check_effects event (rv_resolution a) (so_effectCount selected) (so_effectsDigest selected))))))))"

definition runtime_formula_name :: "runtime_formula \<Rightarrow> jsstr" where
  "runtime_formula_name f = (case f of Named f' \<Rightarrow> formula_name f' | Composite_rank_desc \<Rightarrow> js ''composite_rank_desc'')"

text \<open>\<open>scored\<close>: the versions whose outcomes have a score and an order.\<close>

definition scored :: "parsed_artifact \<Rightarrow> bool" where
  "scored parsed \<longleftrightarrow> pa_formatVersion parsed = FORMAT_VERSION_V3 \<or> pa_formatVersion parsed = FORMAT_VERSION_V5
     \<or> pa_formatVersion parsed = FORMAT_VERSION_COMPOSITE_RANK_DESC"

definition outcome_row_of :: "parsed_artifact \<Rightarrow> parsed_outcome \<Rightarrow> outcome_row result" where
  "outcome_row_of parsed x =
     (let row = \<lparr>or_id = outcomeIdString (po_id x) (po_idLen x), or_weight = po_weight x, or_score = None, or_order = None\<rparr> in
      if scored parsed then bindE (signedBigIntToSafeNumber (po_score x)) (\<lambda>s.
        Inr (row\<lparr>or_score := Some s, or_order := Some (po_order x)\<rparr>))
      else Inr row)"

definition compact_rng_fields :: "resolved_event \<Rightarrow> verify_result \<Rightarrow> verify_result" where
  "compact_rng_fields event r =
     (case (ev_rngVersion event = Some RNG_VERSION_V2, ev_winnerClaimHash event) of
        (True, Some h) \<Rightarrow> r\<lparr>vr_winner_claim_hash := Some (to_hex h),
          vr_entropy_source := Some (if ev_entropySource event = Some 1 then js ''unicorn_g'' else js ''slot_hash''),
          vr_protocol_revision := ev_protocolRevision event\<rparr>
      | _ \<Rightarrow> r)"

definition compact_result ::
  "world \<Rightarrow> buffer \<Rightarrow> resolved_event \<Rightarrow> resolve_accounts \<Rightarrow> parsed_artifact \<Rightarrow> verify_result result" where
  "compact_result w programId event a parsed =
     bindE (if pa_formatVersion parsed = FORMAT_VERSION_V3 \<or> pa_formatVersion parsed = FORMAT_VERSION_V5
        then bindE (signedBigIntToSafeNumber (pa_targetScore parsed)) (\<lambda>t. Inr (Some t)) else Inr None) (\<lambda>target.
     bindE (mapE (outcome_row_of parsed) (pa_outcomes parsed)) (\<lambda>rows.
     Inr (compact_rng_fields event (rngV2ResultFields event (rv_state a)
       ((match_result (outcomeIdString (ev_outcomeId event) (ev_outcomeIdLen event)) (dec_string (ev_resolveId event))
           (ev_compiledArtifactHash event) (ev_runtimeId event) (w_base58 w programId))
        \<lparr>vr_artifact_format_version :=
           (if 1 < ev_winnerCount event \<or> scored parsed then Some (ev_artifactFormatVersion event) else None),
         vr_standard_version :=
           (if pa_formatVersion parsed = FORMAT_VERSION_V5 \<and> pa_standardVersion parsed then Some (js ''Outcome Standard V1.1'') else None),
         vr_entry_count := (if pa_formatVersion parsed = FORMAT_VERSION_V5 then pa_entryCount parsed else None),
         vr_outcome_ids := (if 1 < ev_winnerCount event
           then Some (map2 outcomeIdString (ev_outcomeIds event) (ev_outcomeIdLens event)) else None),
         vr_winners_count := (if 1 < ev_winnerCount event then Some (ev_winnerCount event) else None),
         vr_resolution_formula :=
           Some (if scored parsed then runtime_formula_name (pa_formulaName parsed) else js ''weighted_random''),
         vr_target := target, vr_outcomes := Some rows\<rparr>)))))"

definition verify_compact ::
  "world \<Rightarrow> buffer \<Rightarrow> resolved_event \<Rightarrow> resolve_accounts \<Rightarrow> buffer \<Rightarrow> parsed_artifact \<Rightarrow> buffer \<Rightarrow> verify_result result" where
  "verify_compact w programId event a blob parsed randomness =
     bindE (selectOutcomes blob parsed randomness (ev_inputLamports event)) (\<lambda>selected.
     bindE (compare_compact event a parsed selected) (\<lambda>_.
     compact_result w programId event a parsed))"

section \<open>The driver\<close>

definition verify_resolved :: "world \<Rightarrow> verify_opts \<Rightarrow> buffer \<Rightarrow> resolved_event \<Rightarrow> verify_result result" where
  "verify_resolved w opts programId event =
     bindE (resolve_accounts_of w programId event) (\<lambda>a.
     bindE (check_bindings event a) (\<lambda>_.
     bindE (check_status w programId (ah_status (rv_header a))) (\<lambda>_.
     bindE (committed_blob w programId (ev_compiledArtifactHash event) (rv_header a)) (\<lambda>blob.
     bindE (check_local_artifact w (no_artifactPath opts) (ev_compiledArtifactHash event)) (\<lambda>_.
     bindE (runR readU16LE blob 4) (\<lambda>version.
     bindE (mismatch_on_error ''ERR_REPLAY_UNHANDLED'' (parse_blob blob version)) (\<lambda>parsed.
     bindE (recomputed_randomness event parsed) (\<lambda>randomness.
     bindE (check_state (rv_state a) event) (\<lambda>_.
     bindE (check_inputs event a version randomness) (\<lambda>_.
     case parsed of
       Snapshot_blob s \<Rightarrow> verify_snapshot w opts programId event a s randomness
     | Compact_blob p \<Rightarrow> verify_compact w programId event a blob p randomness))))))))))"

definition verifyOutcomeStrict :: "world \<Rightarrow> verify_opts \<Rightarrow> verify_result result" where
  "verifyOutcomeStrict w opts =
     bindE (w_publicKey w (no_programId opts)) (\<lambda>programId.
     bindE (fetchTransactionLogs w (no_signature opts)) (\<lambda>logs.
     bindE (findConditionsResolvedEvent logs (w_base58 w programId)) (\<lambda>conditionsEvent.
     case conditionsEvent of Some e \<Rightarrow> verifyConditions w programId e
     | None \<Rightarrow>
     bindE (findSlotSpinResolvedEvent logs (w_base58 w programId)) (\<lambda>slotEvent.
     case slotEvent of Some e \<Rightarrow> verifySlot w programId e
     | None \<Rightarrow>
     bindE (findOutcomeResolvedEvent logs (w_base58 w programId)) (\<lambda>event.
     verify_resolved w opts programId event)))))"

definition DEFAULT_PROGRAM_ID :: jsstr where
  "DEFAULT_PROGRAM_ID = js ''6QtLot4uztCfjUuPreoiYPc3e1gH2fg6pq8hKYyvCP6B''"

text \<open>\<^verbatim>\<open>s.split(",")\<close>\<close>

fun js_split :: "16 word \<Rightarrow> jsstr \<Rightarrow> jsstr \<Rightarrow> jsstr list" where
  "js_split sep acc [] = [rev acc]"
| "js_split sep acc (c # cs) = (if c = sep then rev acc # js_split sep [] cs else js_split sep (c # acc) cs)"

record verify_options =
  vo_signature :: jsstr
  vo_rpcUrl :: jsstr
  vo_programId :: "jsstr option"
  vo_artifactPath :: "jsstr option"
  vo_snapshotMirrors :: "jsstr list option"
  vo_snapshotFile :: "jsstr option"
  vo_snapshotTimeoutMs :: "int option"

text \<open>\<^verbatim>\<open>x ?? y\<close>\<close>

definition or_default :: "'a option \<Rightarrow> 'a \<Rightarrow> 'a" where
  "or_default x y = (case x of None \<Rightarrow> y | Some v \<Rightarrow> v)"

definition normalized_options :: "world \<Rightarrow> verify_options \<Rightarrow> verify_opts" where
  "normalized_options w opts =
     (let envMirrors = filter (\<lambda>m. m \<noteq> []) (map js_trim (js_split 44 [] (w_environment w))) in
      \<lparr>no_signature = vo_signature opts, no_programId = or_default (vo_programId opts) DEFAULT_PROGRAM_ID,
       no_artifactPath = or_default (vo_artifactPath opts) [],
       no_snapshotMirrors = or_default (vo_snapshotMirrors opts) (if envMirrors \<noteq> [] then envMirrors else DEFAULT_SNAPSHOT_MIRRORS),
       no_snapshotFile = or_default (vo_snapshotFile opts) [],
       no_snapshotTimeoutMs = or_default (vo_snapshotTimeoutMs opts) DEFAULT_SNAPSHOT_TIMEOUT_MS\<rparr>)"

text \<open>\<open>None\<close> is a value that is not an object.\<close>

definition verifyOutcome :: "world \<Rightarrow> verify_options option \<Rightarrow> verify_result result" where
  "verifyOutcome w options' =
     (case options' of None \<Rightarrow> Inl (TypeError ''verify options must be an object'')
      | Some opts \<Rightarrow>
          throwIf (vo_signature opts = []) (Error ''Provide signature'')
         (throwIf (vo_rpcUrl opts = []) (Error ''Provide rpcUrl'')
         (let normalized = normalized_options w opts in
          case verifyOutcomeStrict w normalized of
            Inr r \<Rightarrow> Inr r
          | Inl (ReplayMismatch code) \<Rightarrow> Inr (mismatchResult code (no_programId normalized))
          | Inl _ \<Rightarrow> Inr (mismatchResult ''ERR_REPLAY_UNHANDLED'' (no_programId normalized)))))"

end
