(* ===== verification/Verify_Accounts.thy ===== *)
theory Verify_Accounts
  imports Verify_Outcome Events_Codec
begin

text \<open>
  The bytes of the two accounts that the SDK decodes without the interface description, as the program lays them
  out, and that they decode to what was written; the artifact, split into chunk accounts, is put together again.
\<close>

section \<open>OutcomeResolutionV4\<close>

definition resolution_ok :: "resolution_account \<Rightarrow> bool" where
  "resolution_ok a \<longleftrightarrow>
     length (ra_runtimeId a) = 16 \<and> u64_ok (ra_resolveId a) \<and> length (ra_actor a) = 32 \<and> u64_ok (ra_inputLamports a) \<and>
     u8_ok (ra_status a) \<and> u8_ok (ra_rngVersion a) \<and> u16_ok (ra_artifactFormatVersion a) \<and> u16_ok (ra_winnerCount a) \<and>
     length (ra_winnerClaimHash a) = 32 \<and> u64_ok (ra_totalOutputLamports a) \<and> length (ra_compiledArtifactHash a) = 32 \<and>
     length (ra_randomness a) = 32 \<and> u8_ok (ra_outcomeIdLen a) \<and> length (ra_outcomeId a) = 64 \<and> u16_ok (ra_effectCount a) \<and>
     length (ra_effectsDigest a) = 32 \<and> length (ra_snapshotHash a) = 32 \<and> length (ra_resolvedSlots a) = 3 \<and>
     (\<forall>x \<in> set (ra_resolvedSlots a). u64_ok x) \<and> length (ra_slotHashes a) = 3 \<and> (\<forall>x \<in> set (ra_slotHashes a). length x = 32) \<and>
     length (ra_operatorCommitHash a) = 32 \<and> u8_ok (ra_operatorRevealLen a) \<and> length (ra_operatorReveal a) = 32 \<and>
     u8_ok (ra_bump a) \<and> u8_ok (ra_protocolRevision a) \<and> u64_ok (ra_bountyLamports a) \<and> length (ra_reserved a) = 20"

definition resolution_bytes :: "resolution_account \<Rightarrow> buffer" where
  "resolution_bytes a =
     ra_runtimeId a @ le_bytes 8 (ra_resolveId a) @ ra_actor a @ le_bytes 8 (ra_inputLamports a) @ byte_of (ra_status a)
     @ byte_of (ra_rngVersion a) @ le_bytes 2 (ra_artifactFormatVersion a) @ le_bytes 2 (ra_winnerCount a) @ ra_winnerClaimHash a
     @ le_bytes 8 (ra_totalOutputLamports a) @ ra_compiledArtifactHash a @ ra_randomness a @ byte_of (ra_outcomeIdLen a)
     @ ra_outcomeId a @ le_bytes 2 (ra_effectCount a) @ ra_effectsDigest a @ ra_snapshotHash a
     @ concat (map (le_bytes 8) (ra_resolvedSlots a)) @ concat (map (\<lambda>h. h) (ra_slotHashes a))
     @ byte_of (if ra_operatorCommitPresent a then 1 else 0) @ ra_operatorCommitHash a @ byte_of (ra_operatorRevealLen a)
     @ ra_operatorReveal a @ byte_of (ra_bump a) @ byte_of (ra_protocolRevision a) @ le_bytes 8 (ra_bountyLamports a)
     @ ra_reserved a @ []"

lemma runs_flag: "runs off readU8 (byte_of (if b then 1 else 0)) (if b then 1 else 0)"
  by (rule runs_readU8) auto

lemma resolution_runs:
  assumes ok: "resolution_ok a"
  shows "runs off outcomeResolutionV4R (resolution_bytes a) a"
proof -
  note facts = ok [unfolded resolution_ok_def u8_ok_def u16_ok_def u64_ok_def] MAX_OUTCOME_ID_BYTES_def
  have slots: "\<And>off. runs off (readFixedU64Array 3) (concat (map (le_bytes 8) (ra_resolvedSlots a))) (ra_resolvedSlots a)"
    by (rule runs_fixed_u64s) (use ok in \<open>simp_all add: resolution_ok_def\<close>)
  have hashes: "\<And>off. runs off (readFixedHashArray 3) (concat (map (\<lambda>h. h) (ra_slotHashes a))) (ra_slotHashes a)"
    by (rule runs_fixed_hashes) (use ok in \<open>simp_all add: resolution_ok_def\<close>)
  show ?thesis
    unfolding outcomeResolutionV4R_def resolution_bytes_def
    by (rule slots hashes runs_flag runs_readBytesClamped runs_intros | (rule runs_retR_eq, cases a, simp; fail) | (use facts in \<open>simp; fail\<close>))+
qed

section \<open>RngV2State\<close>

definition state_ok :: "rng_v2_state \<Rightarrow> bool" where
  "state_ok s \<longleftrightarrow>
     length (rs_runtimeId s) = 16 \<and> u64_ok (rs_resolveId s) \<and> length (rs_actor s) = 32 \<and> u64_ok (rs_inputLamports s) \<and>
     u8_ok (rs_status s) \<and> length (rs_compiledArtifactHash s) = 32 \<and> u16_ok (rs_artifactFormatVersion s) \<and>
     length (rs_snapshotHash s) = 32 \<and> length (rs_targetSlots s) = 3 \<and> (\<forall>x \<in> set (rs_targetSlots s). u64_ok x) \<and>
     u64_ok (rs_expirySlot s) \<and> length (rs_operatorCommitHash s) = 32 \<and> u8_ok (rs_operatorRevealLen s) \<and>
     length (rs_operatorReveal s) = 32 \<and> length (rs_resolvedSlots s) = 3 \<and> (\<forall>x \<in> set (rs_resolvedSlots s). u64_ok x) \<and>
     length (rs_slotHashes s) = 3 \<and> (\<forall>x \<in> set (rs_slotHashes s). length x = 32)"

definition state_bytes :: "rng_v2_state \<Rightarrow> int \<Rightarrow> buffer \<Rightarrow> buffer" where
  "state_bytes s bump reserved =
     rs_runtimeId s @ le_bytes 8 (rs_resolveId s) @ rs_actor s @ le_bytes 8 (rs_inputLamports s) @ byte_of (rs_status s)
     @ rs_compiledArtifactHash s @ le_bytes 2 (rs_artifactFormatVersion s) @ rs_snapshotHash s
     @ concat (map (le_bytes 8) (rs_targetSlots s)) @ le_bytes 8 (rs_expirySlot s)
     @ byte_of (if rs_operatorCommitPresent s then 1 else 0) @ rs_operatorCommitHash s @ byte_of (rs_operatorRevealLen s)
     @ rs_operatorReveal s @ concat (map (le_bytes 8) (rs_resolvedSlots s)) @ concat (map (\<lambda>h. h) (rs_slotHashes s))
     @ byte_of bump @ reserved @ []"

lemma state_runs:
  assumes ok: "state_ok s" and tail: "u8_ok bump" "length reserved = 32"
  shows "runs off rngV2StateR (state_bytes s bump reserved) s"
proof -
  note facts = ok [unfolded state_ok_def u8_ok_def u16_ok_def u64_ok_def] tail [unfolded u8_ok_def]
  have slots: "\<And>off. runs off (readFixedU64Array 3) (concat (map (le_bytes 8) (rs_targetSlots s))) (rs_targetSlots s)"
    "\<And>off. runs off (readFixedU64Array 3) (concat (map (le_bytes 8) (rs_resolvedSlots s))) (rs_resolvedSlots s)"
    by (rule runs_fixed_u64s; use ok in \<open>simp add: state_ok_def\<close>)+
  have hashes: "\<And>off. runs off (readFixedHashArray 3) (concat (map (\<lambda>h. h) (rs_slotHashes s))) (rs_slotHashes s)"
    by (rule runs_fixed_hashes) (use ok in \<open>simp_all add: state_ok_def\<close>)
  show ?thesis
    unfolding rngV2StateR_def state_bytes_def
    by (rule slots hashes runs_flag runs_readBytesClamped runs_intros | (rule runs_retR_eq, cases s, simp; fail) | (use facts in \<open>simp; fail\<close>))+
qed

section \<open>Decoding\<close>

lemma decode_account_ok:
  assumes "\<And>off. runs off body bytes v"
  shows "decode_account name e body (anchorAccountDiscriminator name @ bytes @ rest) = Inr v"
proof -
  have len: "length (anchorAccountDiscriminator name) = 8" by (simp add: anchorAccountDiscriminator_def)
  have "runR body (anchorAccountDiscriminator name @ bytes @ rest) 8 = Inr v"
    using runs_at [of "anchorAccountDiscriminator name" body bytes v rest] assms by (simp add: runR_def len)
  then show ?thesis by (simp add: decode_account_def len)
qed

lemma account_bytes_decode:
  "resolution_ok a \<Longrightarrow> decodeOutcomeResolutionV4Account (anchorAccountDiscriminator ''OutcomeResolutionV4'' @ resolution_bytes a @ rest) = Inr a"
  "state_ok s \<Longrightarrow> u8_ok bump \<Longrightarrow> length reserved = 32 \<Longrightarrow>
    decodeRngV2StateAccount (anchorAccountDiscriminator ''RngV2State'' @ state_bytes s bump reserved @ rest) = Inr s"
  unfolding decodeOutcomeResolutionV4Account_def decodeRngV2StateAccount_def
  by (simp_all add: decode_account_ok resolution_runs state_runs)

section \<open>Chunks\<close>

definition chunk_count :: "buffer \<Rightarrow> nat" where
  "chunk_count blob = (length blob + 1023) div 1024"

definition header_of :: "buffer \<Rightarrow> artifact_header" where
  "header_of blob = \<lparr>ah_compiledArtifactHash = sha256 blob, ah_isFinalized = True, ah_status = STATUS_APPROVED,
     ah_blobLen = length blob, ah_chunkCount = chunk_count blob\<rparr>"

text \<open>A chunk account holds 1024 bytes; the last one is padded.\<close>

definition chunk_of :: "buffer \<Rightarrow> nat \<Rightarrow> artifact_chunk" where
  "chunk_of blob i =
     (let part = take 1024 (drop (i * 1024) blob) in
      \<lparr>ac_compiledArtifactHash = sha256 blob, ac_chunkIndex = i, ac_writtenLen = length part,
       ac_data = part @ zeros (1024 - length part)\<rparr>)"

text \<open>The account at an address exists and decodes to a value.\<close>

definition holds :: "world \<Rightarrow> buffer result \<Rightarrow> (buffer \<Rightarrow> 'a result) \<Rightarrow> 'a \<Rightarrow> bool" where
  "holds w address decode v \<longleftrightarrow> (\<exists>key data. address = Inr key \<and> w_account w key = Inr (Some data) \<and> decode data = Inr v)"

definition published :: "world \<Rightarrow> buffer \<Rightarrow> buffer \<Rightarrow> bool" where
  "published w programId blob \<longleftrightarrow>
     holds w (deriveApprovedArtifactPda w programId (sha256 blob)) (w_decodeHeader w) (header_of blob) \<and>
     (\<forall>i < chunk_count blob.
        holds w (deriveApprovedArtifactChunkPda w programId (sha256 blob) i) (w_decodeChunk w) (chunk_of blob i))"

lemma fetch_holds: "holds w (Inr key) decode v \<Longrightarrow> fetchDecodedAccount w decode key code = Inr v"
  by (auto simp: holds_def fetchDecodedAccount_def found_def mismatch_on_error_def)

lemma fetch_chunk_ok:
  assumes "published w programId blob" and i: "i < chunk_count blob"
  shows "fetch_chunk w programId (sha256 blob) (length blob) i = Inr (take 1024 (drop (i * 1024) blob))"
proof -
  have le: "i * 1024 \<le> length blob" using i by (simp add: chunk_count_def)
  then have "int (ac_writtenLen (chunk_of blob i)) = expectedChunkLen (length blob) i"
    by (auto simp: chunk_of_def expectedChunkLen_def CHUNK_SIZE_def Let_def)
  moreover obtain key data where "deriveApprovedArtifactChunkPda w programId (sha256 blob) i = Inr key"
    "w_account w key = Inr (Some data)" "w_decodeChunk w data = Inr (chunk_of blob i)"
    using assms by (auto simp: published_def holds_def)
  ultimately show ?thesis
    by (simp add: fetch_chunk_def found_def mismatch_on_error_def) (simp add: chunk_of_def Let_def min_def)
qed

lemma concat_pieces: "concat (map (\<lambda>i. take k (drop (i * k) xs)) [0..<n]) = take (n * k) xs"
proof (induction n)
  case (Suc n)
  then show ?case by (simp add: take_add [symmetric] add.commute [of k])
qed simp

lemma committed_blob_ok:
  assumes "published w programId blob"
  shows "committed_blob w programId (sha256 blob) (header_of blob) = Inr blob"
proof -
  have parts: "mapE (fetch_chunk w programId (sha256 blob) (length blob)) [0..<chunk_count blob]
      = Inr (map (\<lambda>i. take 1024 (drop (i * 1024) blob)) [0..<chunk_count blob])"
    by (rule mapE_ok) (use fetch_chunk_ok [OF assms] in auto)
  have "length blob \<le> chunk_count blob * 1024" by (simp add: chunk_count_def)
  then have "concat (map (\<lambda>i. take 1024 (drop (i * 1024) blob)) [0..<chunk_count blob]) = blob"
    by (simp add: concat_pieces)
  then show ?thesis
    by (simp add: committed_blob_def reconstructArtifactBlob_def header_of_def parts)
qed

end
