(* ===== verification/Verify_Sound.thy ===== *)
theory Verify_Sound
  imports Verify_Outcome Slot_Replay Compiled_Draw
begin

text \<open>
  What a MATCH means. The accounts and sources are arbitrary here: they may be missing, inconsistent or
  malicious. A verified slot spin pays what the reference machine pays on the committed game; two resolutions
  verified on the same evidence have the same outcome, whatever the two worlds looked like.
\<close>

section \<open>Comparisons that passed\<close>

lemma mismatch_on_error_Inr_iff [result_simps]: "mismatch_on_error code r = Inr x \<longleftrightarrow> r = Inr x"
  by (simp add: mismatch_on_error_def split: sum.splits)

lemma some_differs_iff: "\<not> some_differs xs ys \<longleftrightarrow> take (length xs) ys = xs"
proof -
  have "take (length xs) ys = xs \<longleftrightarrow> (\<forall>i < length xs. i < length ys \<and> ys ! i = xs ! i)"
  proof
    assume t: "take (length xs) ys = xs"
    then have "length xs \<le> length ys" by (metis length_take min.cobounded1)
    with t show "\<forall>i < length xs. i < length ys \<and> ys ! i = xs ! i" by (metis nth_take order_less_le_trans)
  next
    assume a: "\<forall>i < length xs. i < length ys \<and> ys ! i = xs ! i"
    then have "length xs \<le> length ys" by (meson linorder_not_less nat_less_le)
    with a show "take (length xs) ys = xs" by (intro nth_equalityI) auto
  qed
  then show ?thesis by (auto simp: some_differs_def list_ex_iff)
qed

lemma event_blob_D:
  assumes "event_blob w programId runtimeId hash = Inr blob"
  shows "sha256 blob = hash" and "config_hash w programId runtimeId = Inr hash"
    and "\<exists>header. artifact_account w programId hash = Inr header \<and> ah_compiledArtifactHash header = hash \<and> ah_isFinalized header"
  using assms committed_blob_hash
  by (auto simp: event_blob_def check_header_def bindE_Inr_iff throwIf_Inr_iff)

section \<open>Slot spins\<close>

lemma length_slot_randomness: "deriveSlotSpinRandomness event = Inr r \<Longrightarrow> length r = 32"
  by (auto simp: deriveSlotSpinRandomness_def bindE_Inr_iff length_sha256)

lemma compare_spin_D:
  assumes "compare_spin event spec outcome = Inr ()"
  shows "se_reelCount event = Some (s_cols spec)" and "take (length (reelStops outcome)) (se_reelStops event) = reelStops outcome"
    and "\<forall>stop \<in> set (drop (nat (s_cols spec)) (se_reelStops event)). stop = 0"
    and "se_rawWinLamports event = totalWinLamports outcome"
    and "\<exists>cap. maxWinCap (se_inputLamports event) (s_maxWinMultiplier spec) = Inr cap
      \<and> se_payoutLamports event = min (totalWinLamports outcome) cap"
proof -
  from assms obtain cap where c: "se_reelCount event = Some (s_cols spec)" "\<not> some_differs (reelStops outcome) (se_reelStops event)"
    "\<forall>stop \<in> set (drop (nat (s_cols spec)) (se_reelStops event)). stop = 0" "totalWinLamports outcome = se_rawWinLamports event"
    "maxWinCap (se_inputLamports event) (s_maxWinMultiplier spec) = Inr cap"
    "(if totalWinLamports outcome < cap then totalWinLamports outcome else cap) = se_payoutLamports event"
    by (auto simp: compare_spin_def bindE_Inr_iff throwIf_Inr_iff list_ex_iff Let_def)
  then show "se_reelCount event = Some (s_cols spec)" and "take (length (reelStops outcome)) (se_reelStops event) = reelStops outcome"
    and "\<forall>stop \<in> set (drop (nat (s_cols spec)) (se_reelStops event)). stop = 0"
    and "se_rawWinLamports event = totalWinLamports outcome"
    and "\<exists>cap. maxWinCap (se_inputLamports event) (s_maxWinMultiplier spec) = Inr cap
      \<and> se_payoutLamports event = min (totalWinLamports outcome) cap"
    by (simp_all add: some_differs_iff min_def split: if_splits)
qed

lemma verifySlot_D:
  assumes "verifySlot w programId event = Inr r"
  shows "\<exists>blob spec outcome. event_blob w programId (se_runtimeId event) (se_compiledArtifactHash event) = Inr blob
    \<and> parseSlotArtifact blob = Inr spec \<and> deriveSlotSpinRandomness event = Inr (se_randomness event)
    \<and> replaySpin spec (se_randomness event) (se_inputLamports event) = Inr outcome
    \<and> compare_spin event spec outcome = Inr () \<and> vr_status r = MATCH"
  using assms
  by (auto simp: verifySlot_def bindE_Inr_iff throwIf_Inr_iff mismatch_on_error_Inr_iff match_result_def)

section \<open>Resolve events\<close>

text \<open>The evidence of a resolution: what the randomness and the replay are functions of.\<close>

definition evidence :: "resolved_event \<Rightarrow> _" where
  "evidence e = (ev_rngVersion e, ev_masterSeed e, ev_runtimeId e, ev_resolveId e, ev_actor e, ev_inputLamports e,
     ev_compiledArtifactHash e, ev_resolvedSlots e, ev_slotHashes e, ev_operatorCommitPresent e, ev_operatorCommitHash e)"

text \<open>The outcome that a verified event and its result report.\<close>

definition reported :: "resolved_event \<Rightarrow> verify_result \<Rightarrow> _" where
  "reported e r = (ev_randomness e, ev_winnerCount e, ev_totalOutputLamports e, ev_effectCount e, ev_effectsDigest e,
     outcomeIdString (ev_outcomeId e) (ev_outcomeIdLen e), vr_outcome_id r, vr_outcome_ids r)"

definition replay_of :: "world \<Rightarrow> verify_opts \<Rightarrow> buffer \<Rightarrow> resolved_event \<Rightarrow> resolve_accounts \<Rightarrow> buffer \<Rightarrow> parsed_blob \<Rightarrow> verify_result result" where
  "replay_of w opts programId event a blob parsed =
     (case parsed of
        Snapshot_blob s \<Rightarrow> verify_snapshot w opts programId event a s (ev_randomness event)
      | Compact_blob p \<Rightarrow> verify_compact w programId event a blob p (ev_randomness event))"

lemma verify_resolved_D:
  assumes "verify_resolved w opts programId event = Inr r"
  shows "\<exists>a blob version parsed. resolve_accounts_of w programId event = Inr a
    \<and> committed_blob w programId (ev_compiledArtifactHash event) (rv_header a) = Inr blob
    \<and> runR readU16LE blob 4 = Inr version \<and> parse_blob blob version = Inr parsed
    \<and> recomputed_randomness event parsed = Inr (ev_randomness event)
    \<and> replay_of w opts programId event a blob parsed = Inr r"
  using assms
  by (auto simp: verify_resolved_def bindE_Inr_iff mismatch_on_error_Inr_iff check_inputs_def throwIf_Inr_iff Let_def replay_of_def
      cong: bindE_cong)

lemma check_primary_D:
  assumes "check_primary event r winners = Inr ()"
  shows "js_first winners = Some (outcomeIdString (ev_outcomeId event) (ev_outcomeIdLen event))"
  using assms by (auto simp: check_primary_def bindE_Inr_iff throwIf_Inr_iff)

lemma rngV2ResultFields_outcome [simp]:
  "vr_outcome_id (rngV2ResultFields event state r) = vr_outcome_id r"
  "vr_outcome_ids (rngV2ResultFields event state r) = vr_outcome_ids r"
  "vr_status (rngV2ResultFields event state r) = vr_status r"
  by (simp_all add: rngV2ResultFields_def)

lemma compact_rng_fields_outcome [simp]:
  "vr_outcome_id (compact_rng_fields event r) = vr_outcome_id r"
  "vr_outcome_ids (compact_rng_fields event r) = vr_outcome_ids r"
  "vr_status (compact_rng_fields event r) = vr_status r"
  by (simp_all add: compact_rng_fields_def split: option.splits bool.splits)

text \<open>What a verified snapshot draw reports is a function of the artifact, the randomness and the claim.\<close>

definition reported_claim :: "buffer \<Rightarrow> snapshot_claim \<Rightarrow> _" where
  "reported_claim randomness c = (randomness, int (length (cl_outcomeIds c)), cl_totalOutputLamports c, cl_effectCount c,
     cl_effectsDigest c, hd (cl_outcomeIds c), hd (cl_outcomeIds c), Some (cl_outcomeIds c))"

lemma verify_snapshot_D:
  assumes "verify_snapshot w opts programId event a s randomness = Inr r"
  shows "\<exists>f snapshot inspected selected. formulaCodeToName (sa_formulaCode s) = Inr f
    \<and> committed_snapshot w opts s = Inr snapshot
    \<and> replay_snapshot f s randomness (fs_bytes snapshot) = Inr (inspected, selected)
    \<and> (ev_randomness event = randomness \<longrightarrow> reported event r = reported_claim randomness selected) \<and> vr_status r = MATCH"
proof -
  from assms obtain f snapshot inspected selected where d: "formulaCodeToName (sa_formulaCode s) = Inr f"
    "committed_snapshot w opts s = Inr snapshot" "replay_snapshot f s randomness (fs_bytes snapshot) = Inr (inspected, selected)"
    "compare_snapshot event a s selected = Inr ()" "snapshot_result w programId event a f s inspected selected = Inr r"
    unfolding verify_snapshot_def by (auto simp: bindE_Inr_iff)
  from d(4) have c: "ev_winnerCount event = int (length (cl_outcomeIds selected))"
    "ev_totalOutputLamports event = cl_totalOutputLamports selected" "ev_effectCount event = cl_effectCount selected"
    "ev_effectsDigest event = cl_effectsDigest selected" "check_primary event (rv_resolution a) (cl_outcomeIds selected) = Inr ()"
    by (auto simp: compare_snapshot_def check_winner_count_def check_output_def check_effects_def bindE_Inr_iff throwIf_Inr_iff)
  have "hd (cl_outcomeIds selected) = outcomeIdString (ev_outcomeId event) (ev_outcomeIdLen event)"
    using check_primary_D [OF c(5)] by (auto simp: js_first_def split: list.splits)
  moreover have "vr_outcome_id r = hd (cl_outcomeIds selected)" "vr_outcome_ids r = Some (cl_outcomeIds selected)" "vr_status r = MATCH"
    using d(5) by (auto simp: snapshot_result_def bindE_Inr_iff match_result_def)
  ultimately show ?thesis using d c by (auto simp: reported_def reported_claim_def)
qed

text \<open>The same for a compact draw and its selection.\<close>

definition selected_strings :: "selected_outcome \<Rightarrow> jsstr list" where
  "selected_strings s = map2 outcomeIdString (so_outcomeIds s) (so_outcomeIdLens s)"

definition reported_selection :: "buffer \<Rightarrow> selected_outcome \<Rightarrow> _" where
  "reported_selection randomness s = (randomness, int (length (so_outcomeIds s)), so_totalOutputLamports s, so_effectCount s,
     so_effectsDigest s, outcomeIdString (the (so_outcomeId s)) (the (so_outcomeIdLen s)),
     outcomeIdString (the (so_outcomeId s)) (the (so_outcomeIdLen s)),
     if 1 < length (so_outcomeIds s) then Some (selected_strings s) else None)"

lemma selectOutcomes_lengths:
  "selectOutcomes blob p randomness input = Inr s \<Longrightarrow> length (so_outcomeIdLens s) = length (so_outcomeIds s)"
  by (auto simp: selectOutcomes_def bindE_Inr_iff throwIf_Inr_iff Let_def)

lemma compact_winner_steps:
  assumes "foldE (compact_winner_step event lens ids selected) seen [0..<n] = Inr seen'" and "i < n"
  shows "ev_outcomeIds event ! i = so_outcomeIds selected ! i \<and> ev_outcomeIdLens event ! i = so_outcomeIdLens selected ! i"
  using assms
proof (induction n arbitrary: seen')
  case (Suc n)
  then obtain s where s: "foldE (compact_winner_step event lens ids selected) seen [0..<n] = Inr s"
    "compact_winner_step event lens ids selected s n = Inr seen'"
    by (auto simp: foldE_append bindE_Inr_iff)
  then show ?case using Suc.IH [OF s(1)] Suc.prems(2)
    by (auto simp: compact_winner_step_def bindE_Inr_iff throwIf_Inr_iff Let_def less_Suc_eq)
qed simp

lemma verify_compact_D:
  assumes "verify_compact w programId event a blob p randomness = Inr r"
  shows "\<exists>selected. selectOutcomes blob p randomness (ev_inputLamports event) = Inr selected
    \<and> ev_outcomeIds event = so_outcomeIds selected \<and> ev_outcomeIdLens event = so_outcomeIdLens selected
    \<and> (ev_randomness event = randomness \<longrightarrow> reported event r = reported_selection randomness selected) \<and> vr_status r = MATCH"
proof -
  from assms obtain selected where d: "selectOutcomes blob p randomness (ev_inputLamports event) = Inr selected"
    "compare_compact event a p selected = Inr ()" "compact_result w programId event a p = Inr r"
    unfolding verify_compact_def by (auto simp: bindE_Inr_iff)
  from d(2) obtain lens ids seen where c: "ev_winnerCount event = int (length (so_outcomeIds selected))"
    "ev_totalOutputLamports event = so_totalOutputLamports selected" "ev_effectCount event = so_effectCount selected"
    "ev_effectsDigest event = so_effectsDigest selected" "so_outcomeIdLen selected = Some (ev_outcomeIdLen event)"
    "so_outcomeId selected = Some (ev_outcomeId event)" "check_lengths event lens ids = Inr ()"
    "foldE (compact_winner_step event lens ids selected) [] [0..<nat (ev_winnerCount event)] = Inr seen"
    by (auto simp: compare_compact_def check_winner_count_def check_output_def check_effects_def check_compact_primary_def
        bindE_Inr_iff throwIf_Inr_iff)
  have len: "length (ev_outcomeIds event) = length (so_outcomeIds selected)" "length (ev_outcomeIdLens event) = length (so_outcomeIdLens selected)"
    using c(1,7) selectOutcomes_lengths [OF d(1)] by (auto simp: check_lengths_def throwIf_Inr_iff)
  have same: "ev_outcomeIds event = so_outcomeIds selected" "ev_outcomeIdLens event = so_outcomeIdLens selected"
    using len compact_winner_steps [OF c(8)] c(1) selectOutcomes_lengths [OF d(1)] by (auto intro: nth_equalityI)
  have "vr_outcome_id r = outcomeIdString (ev_outcomeId event) (ev_outcomeIdLen event)" "vr_status r = MATCH"
    "vr_outcome_ids r = (if 1 < ev_winnerCount event then Some (map2 outcomeIdString (ev_outcomeIds event) (ev_outcomeIdLens event)) else None)"
    using d(3) by (auto simp: compact_result_def bindE_Inr_iff match_result_def)
  with same c d(1) show ?thesis by (auto simp: reported_def reported_selection_def selected_strings_def)
qed

section \<open>One evidence, one outcome\<close>

lemma evidence_D:
  assumes "evidence e = evidence e'"
  shows "ev_rngVersion e = ev_rngVersion e'" "ev_masterSeed e = ev_masterSeed e'" "ev_runtimeId e = ev_runtimeId e'"
    "ev_resolveId e = ev_resolveId e'" "ev_actor e = ev_actor e'" "ev_inputLamports e = ev_inputLamports e'"
    "ev_compiledArtifactHash e = ev_compiledArtifactHash e'" "ev_resolvedSlots e = ev_resolvedSlots e'"
    "ev_slotHashes e = ev_slotHashes e'" "ev_operatorCommitPresent e = ev_operatorCommitPresent e'"
    "ev_operatorCommitHash e = ev_operatorCommitHash e'"
  using assms by (simp_all add: evidence_def)

lemma derive_same:
  assumes "evidence e = evidence e'"
  shows "deriveRngV2Randomness e h = deriveRngV2Randomness e' h"
proof -
  note same = evidence_D [OF assms]
  show ?thesis unfolding deriveRngV2Randomness_def deriveRngV2Seed_def rng_seed_bytes_def same by (rule refl)
qed

lemma recomputed_same:
  assumes "evidence e = evidence e'"
    and "recomputed_randomness e parsed = Inr x" and "recomputed_randomness e' parsed = Inr y"
  shows "x = y"
proof -
  show ?thesis using assms derive_same [OF assms(1)]
    by (auto simp: recomputed_randomness_def evidence_def throwIf_Inr_iff bindE_Inr_iff split: if_splits option.splits)
qed

text \<open>The byte strings that a verification hashes against a commitment: the artifact and, of a snapshot draw, the
  snapshot.\<close>

definition committed_inputs :: "world \<Rightarrow> verify_opts \<Rightarrow> buffer \<Rightarrow> resolved_event \<Rightarrow> buffer list" where
  "committed_inputs w opts programId event =
     (case resolve_accounts_of w programId event of Inl _ \<Rightarrow> []
      | Inr a \<Rightarrow>
     (case committed_blob w programId (ev_compiledArtifactHash event) (rv_header a) of Inl _ \<Rightarrow> []
      | Inr blob \<Rightarrow>
         blob # (case bindE (runR readU16LE blob 4) (parse_blob blob) of
            Inr (Snapshot_blob s) \<Rightarrow> (case committed_snapshot w opts s of Inr f \<Rightarrow> [fs_bytes f] | Inl _ \<Rightarrow> [])
          | _ \<Rightarrow> [])))"

lemma committed_snapshot_hash:
  assumes "committed_snapshot w opts s = Inr f"
  shows "to_hex (sha256 (fs_bytes f)) = to_hex (sa_snapshotHash s)"
proof -
  from assms have "\<exists>so. sp_snapshotHash so = to_hex (sa_snapshotHash s) \<and> fetchCommittedSnapshot w so = Inr f"
    unfolding committed_snapshot_def by (force split: sum.splits js_error.splits)
  then show ?thesis using fetchCommittedSnapshot_hash(1) by fastforce
qed

lemma hash_collisionI: "x \<in> set xs \<Longrightarrow> y \<in> set ys \<Longrightarrow> x \<noteq> y \<Longrightarrow> sha256 x = sha256 y \<Longrightarrow> hash_collision xs ys"
  by (auto simp: hash_collision_def list_ex_iff)

lemma verified_same_outcome:
  assumes v: "verify_resolved w opts p e = Inr r" and v': "verify_resolved w' opts' p' e' = Inr r'"
    and ev: "evidence e = evidence e'"
    and no: "\<not> hash_collision (committed_inputs w opts p e) (committed_inputs w' opts' p' e')"
  shows "reported e r = reported e' r'"
proof -
  obtain a blob version parsed where d: "resolve_accounts_of w p e = Inr a"
    "committed_blob w p (ev_compiledArtifactHash e) (rv_header a) = Inr blob" "runR readU16LE blob 4 = Inr version"
    "parse_blob blob version = Inr parsed" "recomputed_randomness e parsed = Inr (ev_randomness e)"
    "replay_of w opts p e a blob parsed = Inr r"
    using verify_resolved_D [OF v] by blast
  obtain a' blob' version' parsed' where d': "resolve_accounts_of w' p' e' = Inr a'"
    "committed_blob w' p' (ev_compiledArtifactHash e') (rv_header a') = Inr blob'" "runR readU16LE blob' 4 = Inr version'"
    "parse_blob blob' version' = Inr parsed'" "recomputed_randomness e' parsed' = Inr (ev_randomness e')"
    "replay_of w' opts' p' e' a' blob' parsed' = Inr r'"
    using verify_resolved_D [OF v'] by blast
  have "sha256 blob = sha256 blob'"
    using committed_blob_hash [OF d(2)] committed_blob_hash [OF d'(2)] ev by (simp add: evidence_def)
  moreover have "blob \<in> set (committed_inputs w opts p e)" "blob' \<in> set (committed_inputs w' opts' p' e')"
    using d d' by (simp_all add: committed_inputs_def)
  ultimately have blob: "blob' = blob" using no hash_collisionI by metis
  have parsed: "parsed' = parsed" using d(3,4) d'(3,4) by (simp add: blob)
  have rand: "ev_randomness e = ev_randomness e'"
    using recomputed_same [OF ev d(5) d'(5) [unfolded parsed]] by simp
  have input: "ev_inputLamports e = ev_inputLamports e'" using ev by (simp add: evidence_def)
  show ?thesis
  proof (cases parsed)
    case (Compact_blob q)
    obtain s where s: "selectOutcomes blob q (ev_randomness e) (ev_inputLamports e) = Inr s"
      "reported e r = reported_selection (ev_randomness e) s"
      using verify_compact_D d(6) by (fastforce simp: replay_of_def Compact_blob)
    obtain s' where s': "selectOutcomes blob q (ev_randomness e) (ev_inputLamports e) = Inr s'"
      "reported e' r' = reported_selection (ev_randomness e) s'"
      using verify_compact_D d'(6) by (fastforce simp: replay_of_def Compact_blob parsed blob rand input)
    show ?thesis using s s' by simp
  next
    case (Snapshot_blob q)
    obtain f x i c where s: "formulaCodeToName (sa_formulaCode q) = Inr f" "committed_snapshot w opts q = Inr x"
      "replay_snapshot f q (ev_randomness e) (fs_bytes x) = Inr (i, c)" "reported e r = reported_claim (ev_randomness e) c"
      using verify_snapshot_D d(6) by (fastforce simp: replay_of_def Snapshot_blob)
    obtain f' x' i' c' where s': "formulaCodeToName (sa_formulaCode q) = Inr f'" "committed_snapshot w' opts' q = Inr x'"
      "replay_snapshot f' q (ev_randomness e) (fs_bytes x') = Inr (i', c')" "reported e' r' = reported_claim (ev_randomness e) c'"
      using verify_snapshot_D d'(6) by (fastforce simp: replay_of_def Snapshot_blob parsed rand)
    have "sha256 (fs_bytes x) = sha256 (fs_bytes x')"
      using committed_snapshot_hash [OF s(2)] committed_snapshot_hash [OF s'(2)] by simp
    moreover have "fs_bytes x \<in> set (committed_inputs w opts p e)" "fs_bytes x' \<in> set (committed_inputs w' opts' p' e')"
      using d d' s(2) s'(2) by (simp_all add: committed_inputs_def Snapshot_blob parsed blob)
    ultimately have "fs_bytes x' = fs_bytes x" using no hash_collisionI by metis
    with s s' show ?thesis by simp
  qed
qed

end
