(* ===== verification/Verify_Honest.thy ===== *)
theory Verify_Honest
  imports Verify_Accounts Verify_Sound
begin

text \<open>
  The other direction: a resolution that was settled honestly verifies. The operator publishes a compact artifact,
  the program draws with the rng_v2 randomness and records the winners of the operator's claim; then, with the
  accounts in place, the verification returns MATCH.
\<close>

section \<open>The selection names the claim's winners\<close>

lemma v5_selected_ids:
  assumes parse: "parseArtifactV5 blob = Inr a" and claim: "buildCompactNamedEntryClaimFromArtifactV5 a randomness = Inr claim"
    and sel: "selectOutcomes blob (compiled_of_v5 n a) randomness input = Inr s"
  shows "so_outcomeIds s = map padded_id (cl_outcomeIds claim)" and "so_outcomeIdLens s = map (\<lambda>x. int (length x)) (cl_outcomeIds claim)"
    and "so_outcomeId s = js_first (so_outcomeIds s)" and "so_outcomeIdLen s = js_first (so_outcomeIdLens s)"
proof -
  have wf: "compact_wf a" using parse by (rule parseArtifactV5_wf)
  obtain ix where ix: "selected_indices (compiled_of_v5 n a) randomness = Inr ix" "\<forall>i \<in> set ix. i < length (ca_entries a)"
    and cl: "buildSnapshotClaimFromWinnerIds (map (\<lambda>i. p_id (ca_entries a ! i)) ix) (ca_payoutLamports a) = Inr claim"
    using selected_indices_v5 [OF wf claim] by blast
  have ids: "cl_outcomeIds claim = map (\<lambda>i. p_id (ca_entries a ! i)) ix"
    using claim_D [OF cl] wf by (simp add: compact_wf_def)
  from sel ix(1) have s: "so_outcomeIds s = map po_id (map (\<lambda>i. pa_outcomes (compiled_of_v5 n a) ! i) ix)"
    "so_outcomeIdLens s = map po_idLen (map (\<lambda>i. pa_outcomes (compiled_of_v5 n a) ! i) ix)"
    "so_outcomeId s = js_first (so_outcomeIds s)" "so_outcomeIdLen s = js_first (so_outcomeIdLens s)"
    by (auto simp: selectOutcomes_def bindE_Inr_iff throwIf_Inr_iff Let_def)
  have out: "po_id (pa_outcomes (compiled_of_v5 n a) ! i) = padded_id (p_id (ca_entries a ! i))
      \<and> po_idLen (pa_outcomes (compiled_of_v5 n a) ! i) = int (length (p_id (ca_entries a ! i)))" if "i \<in> set ix" for i
  proof -
    have "ca_entries a ! i \<in> set (ca_entries a)" using ix(2) that by simp
    then have "length (p_id (ca_entries a ! i)) \<le> 64" using wf
      by (auto simp: compact_wf_def entry_ok_def outcome_id_ok_def MAX_OUTCOME_ID_BYTES_def)
    then show ?thesis using ix(2) that by (simp add: compiled_of_v5_def parsed_entry_def padded_id_def MAX_OUTCOME_ID_BYTES_def)
  qed
  show "so_outcomeIds s = map padded_id (cl_outcomeIds claim)" "so_outcomeIdLens s = map (\<lambda>x. int (length x)) (cl_outcomeIds claim)"
    using out by (simp_all add: s ids)
  show "so_outcomeId s = js_first (so_outcomeIds s)" "so_outcomeIdLen s = js_first (so_outcomeIdLens s)" by (rule s)+
qed

lemma v5_claim_ids:
  assumes "parseArtifactV5 blob = Inr a" and "8 \<le> length randomness"
    and "buildCompactNamedEntryClaimFromArtifactV5 a randomness = Inr claim"
  shows "\<forall>x \<in> set (cl_outcomeIds claim). outcome_id_ok x" and "distinct (cl_outcomeIds claim)"
    and "int (length (cl_outcomeIds claim)) = ca_winnersCount a" and "cl_outcomeIds claim \<noteq> []"
    and "length (cl_outcomeIds claim) \<le> 32"
proof -
  have wf: "compact_wf a" using assms(1) by (rule parseArtifactV5_wf)
  from compact_claim [OF assms(1,2)] assms(3)
  have c: "int (length (cl_outcomeIds claim)) = ca_winnersCount a" "distinct (cl_outcomeIds claim)"
    "set (cl_outcomeIds claim) \<subseteq> p_id ` set (ca_entries a)" by auto
  show "\<forall>x \<in> set (cl_outcomeIds claim). outcome_id_ok x" using c(3) wf by (auto simp: compact_wf_def entry_ok_def)
  show "distinct (cl_outcomeIds claim)" "int (length (cl_outcomeIds claim)) = ca_winnersCount a" by (rule c)+
  show "cl_outcomeIds claim \<noteq> []" "length (cl_outcomeIds claim) \<le> 32" using c(1) wf by (auto simp: compact_wf_def)
qed

lemma padded_id_facts:
  assumes "outcome_id_ok x"
  shows "length (padded_id x) = 64" and "take (length x) (padded_id x) = ascii_bytes x"
    and "zero_padded (padded_id x) (int (length x))" and "outcomeIdString (padded_id x) (int (length x)) = x"
proof -
  have len: "length x \<le> 64" using assms by (simp add: outcome_id_ok_def MAX_OUTCOME_ID_BYTES_def)
  then have p: "padded_id x = ascii_bytes x @ zeros (64 - length x)" by (simp add: padded_id_def MAX_OUTCOME_ID_BYTES_def)
  show "length (padded_id x) = 64" "take (length x) (padded_id x) = ascii_bytes x" using len by (simp_all add: p)
  show "zero_padded (padded_id x) (int (length x))" by (simp add: p zero_padded_def zeros_def)
  show "outcomeIdString (padded_id x) (int (length x)) = x"
    using printable_bytes(2) [OF assms] by (simp add: p outcomeIdString_def)
qed

section \<open>An honest settlement\<close>

text \<open>What the program emits for a compact draw of an artifact: the evidence, the randomness derived from it, and the
  winners, output and effects of the claim for that randomness.\<close>

definition honest_event :: "buffer \<Rightarrow> compact_artifact \<Rightarrow> snapshot_claim \<Rightarrow> resolved_event \<Rightarrow> bool" where
  "honest_event blob a claim e \<longleftrightarrow>
     (let ids = map padded_id (cl_outcomeIds claim); lens = map (\<lambda>x. int (length x)) (cl_outcomeIds claim) in
      ev_rngVersion e = Some RNG_VERSION_V2 \<and> ev_compiledArtifactHash e = sha256 blob \<and> ev_artifactFormatVersion e = FORMAT_VERSION_V5 \<and>
      ev_snapshotHash e = Some (zeros 32) \<and> check_reveal e = Inr () \<and> deriveRngV2Randomness e (zeros 32) = Inr (ev_randomness e) \<and>
      ca_minInputLamports a \<le> ev_inputLamports e \<and> ev_inputLamports e \<le> ca_maxInputLamports a \<and>
      buildCompactNamedEntryClaimFromArtifactV5 a (ev_randomness e) = Inr claim \<and>
      ev_winnerCount e = int (length ids) \<and> ev_outcomeIds e = ids \<and> ev_outcomeIdLens e = lens \<and>
      ev_outcomeId e = hd ids \<and> ev_outcomeIdLen e = hd lens \<and>
      (\<exists>h. winnerClaimDigest lens ids = Inr h \<and> ev_winnerClaimHash e = Some h) \<and>
      ev_totalOutputLamports e = cl_totalOutputLamports claim \<and> ev_effectCount e = cl_effectCount claim \<and>
      ev_effectsDigest e = cl_effectsDigest claim)"

text \<open>The resolution account and the settled state repeat the event.\<close>

definition records_event :: "resolved_event \<Rightarrow> resolution_account \<Rightarrow> bool" where
  "records_event e r \<longleftrightarrow>
     ra_runtimeId r = ev_runtimeId e \<and> ra_resolveId r = ev_resolveId e \<and> ra_inputLamports r = ev_inputLamports e \<and>
     ra_rngVersion r = RNG_VERSION_V2 \<and> ra_artifactFormatVersion r = ev_artifactFormatVersion e \<and>
     ra_winnerCount r = ev_winnerCount e \<and> Some (ra_winnerClaimHash r) = ev_winnerClaimHash e \<and>
     ra_totalOutputLamports r = ev_totalOutputLamports e \<and> ra_compiledArtifactHash r = ev_compiledArtifactHash e \<and>
     ra_randomness r = ev_randomness e \<and> ra_outcomeIdLen r = ev_outcomeIdLen e \<and> ra_outcomeId r = ev_outcomeId e \<and>
     ra_effectCount r = ev_effectCount e \<and> ra_effectsDigest r = ev_effectsDigest e \<and>
     Some (ra_snapshotHash r) = ev_snapshotHash e \<and> Some (ra_resolvedSlots r) = ev_resolvedSlots e \<and>
     Some (ra_slotHashes r) = ev_slotHashes e \<and> ra_operatorCommitPresent r = (ev_operatorCommitPresent e = Some True) \<and>
     ra_operatorCommitHash r = or_zeros (ev_operatorCommitHash e) \<and> ra_operatorRevealLen r = or_zero (ev_operatorRevealLen e) \<and>
     ra_operatorReveal r = or_zeros (ev_operatorReveal e)"

definition settles_event :: "resolved_event \<Rightarrow> rng_v2_state \<Rightarrow> bool" where
  "settles_event e s \<longleftrightarrow>
     rs_status s = RNG_V2_STATUS_SETTLED \<and> rs_runtimeId s = ev_runtimeId e \<and> rs_resolveId s = ev_resolveId e \<and>
     rs_actor s = ev_actor e \<and> rs_inputLamports s = ev_inputLamports e \<and>
     rs_compiledArtifactHash s = ev_compiledArtifactHash e \<and> rs_artifactFormatVersion s = ev_artifactFormatVersion e \<and>
     Some (rs_snapshotHash s) = ev_snapshotHash e \<and> rs_operatorCommitPresent s = (ev_operatorCommitPresent e = Some True) \<and>
     rs_operatorCommitHash s = or_zeros (ev_operatorCommitHash e) \<and> rs_operatorRevealLen s = or_zero (ev_operatorRevealLen e) \<and>
     rs_operatorReveal s = or_zeros (ev_operatorReveal e) \<and> Some (rs_resolvedSlots s) = ev_resolvedSlots e \<and>
     Some (rs_slotHashes s) = ev_slotHashes e"

definition settled_world :: "world \<Rightarrow> buffer \<Rightarrow> buffer \<Rightarrow> resolved_event \<Rightarrow> resolution_account \<Rightarrow> rng_v2_state \<Rightarrow> bool" where
  "settled_world w programId blob e r s \<longleftrightarrow>
     published w programId blob \<and> records_event e r \<and> settles_event e s \<and>
     holds w (deriveOutcomeConfigPda w programId (ev_runtimeId e)) (w_decodeConfig w) (sha256 blob) \<and>
     holds w (deriveOutcomeResolutionPda w programId (ev_runtimeId e) (ev_resolveId e)) decodeOutcomeResolutionV4Account r \<and>
     holds w (deriveRngV2StatePda w programId (ev_runtimeId e) (ev_resolveId e)) decodeRngV2StateAccount s"

text \<open>Scores and target that a result can show as numbers.\<close>

definition safe_scores :: "compact_artifact \<Rightarrow> bool" where
  "safe_scores a \<longleftrightarrow> \<bar>ca_targetScore a\<bar> \<le> MAX_SAFE_INTEGER \<and> (\<forall>x \<in> set (ca_entries a). \<bar>p_score x\<bar> \<le> MAX_SAFE_INTEGER)"

lemma some_differs_same [simp]: "\<not> some_differs xs xs"
  by (simp add: some_differs_iff)

lemma settled_accounts:
  assumes w: "settled_world w programId blob e r s" and e: "ev_rngVersion e = Some RNG_VERSION_V2" "ev_compiledArtifactHash e = sha256 blob"
  shows "resolve_accounts_of w programId e = Inr \<lparr>rv_configHash = sha256 blob, rv_name = OutcomeResolutionV4,
    rv_resolution = resolution_of r, rv_state = Some s, rv_header = header_of blob\<rparr>"
proof -
  from w obtain k1 k2 k3 k4 where keys: "deriveOutcomeConfigPda w programId (ev_runtimeId e) = Inr k1"
    "deriveOutcomeResolutionPda w programId (ev_runtimeId e) (ev_resolveId e) = Inr k2"
    "deriveRngV2StatePda w programId (ev_runtimeId e) (ev_resolveId e) = Inr k3"
    "deriveApprovedArtifactPda w programId (sha256 blob) = Inr k4"
    by (auto simp: settled_world_def published_def holds_def)
  with w have h: "holds w (Inr k1) (w_decodeConfig w) (sha256 blob)" "holds w (Inr k2) decodeOutcomeResolutionV4Account r"
    "holds w (Inr k3) decodeRngV2StateAccount s" "holds w (Inr k4) (w_decodeHeader w) (header_of blob)"
    by (simp_all add: settled_world_def published_def)
  have "fetchDecodedOutcomeResolution w k2 = Inr (OutcomeResolutionV4, resolution_of r)"
    using h(2) by (auto simp: holds_def fetchDecodedOutcomeResolution_def found_def named_resolution_def or_try_def)
  then show ?thesis
    by (simp add: resolve_accounts_of_def keys e fetch_holds [OF h(1)] fetch_holds [OF h(4)] fetchDecodedRngV2State_def fetch_holds [OF h(3)])
qed

lemma settled_checks:
  assumes e: "honest_event blob a claim e" and r: "records_event e r" and s: "settles_event e s"
  shows "verifyRngV2StateBinding s e = Inr ()" and "verifyRngV2ResolutionEvidence OutcomeResolutionV4 (resolution_of r) e = Inr ()"
proof -
  have ev: "ev_resolvedSlots e = Some (ra_resolvedSlots r)" "ev_slotHashes e = Some (ra_slotHashes r)"
    "ev_snapshotHash e = Some (ra_snapshotHash r)" "ev_rngVersion e = Some RNG_VERSION_V2"
    using e r by (simp_all add: honest_event_def records_event_def Let_def)
  with s have st: "rs_resolvedSlots s = ra_resolvedSlots r" "rs_slotHashes s = ra_slotHashes r" "rs_snapshotHash s = ra_snapshotHash r"
    by (simp_all add: settles_event_def)
  show "verifyRngV2StateBinding s e = Inr ()"
    using s ev st by (simp add: verifyRngV2StateBinding_def settles_event_def)
  show "verifyRngV2ResolutionEvidence OutcomeResolutionV4 (resolution_of r) e = Inr ()"
    using r ev by (simp add: verifyRngV2ResolutionEvidence_def records_event_def resolution_of_def buffer_from_def)
qed

lemma honest_compact_winners:
  assumes parse: "parseArtifactV5 blob = Inr a" and e: "honest_event blob a claim e" and r: "records_event e r"
    and sel: "selectOutcomes blob (compiled_of_v5 (length blob) a) (ev_randomness e) (ev_inputLamports e) = Inr s"
    and rand: "8 \<le> length (ev_randomness e)"
  shows "foldE (compact_winner_step e (so_outcomeIdLens s) (so_outcomeIds s) s) [] [0..<nat (ev_winnerCount e)]
    = Inr (rev (cl_outcomeIds claim))"
proof -
  let ?ids = "cl_outcomeIds claim"
  have claim: "buildCompactNamedEntryClaimFromArtifactV5 a (ev_randomness e) = Inr claim"
    and ev: "ev_outcomeIds e = map padded_id ?ids" "ev_outcomeIdLens e = map (\<lambda>x. int (length x)) ?ids" "ev_winnerCount e = int (length ?ids)"
    using e by (simp_all add: honest_event_def Let_def)
  note ids = v5_claim_ids [OF parse rand claim] and so = v5_selected_ids [OF parse claim sel]
  have "n \<le> length ?ids \<Longrightarrow> foldE (compact_winner_step e (so_outcomeIdLens s) (so_outcomeIds s) s) [] [0..<n] = Inr (rev (take n ?ids))" for n
  proof (induction n)
    case (Suc n)
    then have n: "n < length ?ids" by simp
    with ids(1) have ok: "outcome_id_ok (?ids ! n)" by simp
    have new: "?ids ! n \<notin> set (rev (take n ?ids))"
      using ids(2) n by (auto simp: in_set_conv_nth nth_eq_iff_index_eq)
    have "compact_winner_step e (so_outcomeIdLens s) (so_outcomeIds s) s (rev (take n ?ids)) n = Inr (?ids ! n # rev (take n ?ids))"
      using new n padded_id_facts [OF ok] by (simp add: compact_winner_step_def ev so(1,2) expectZeroPadding_def)
    with Suc n show ?case by (simp add: foldE_append take_Suc_conv_app_nth)
  qed simp
  from this [of "length ?ids"] show ?thesis by (simp add: ev)
qed

lemma js_first_hd: "xs \<noteq> [] \<Longrightarrow> js_first xs = Some (hd xs)"
  by (cases xs) (simp_all add: js_first_def)

lemma honest_compare:
  assumes parse: "parseArtifactV5 blob = Inr a" and e: "honest_event blob a claim e" and r: "records_event e r" and st: "settles_event e st"
    and sel: "selectOutcomes blob (compiled_of_v5 (length blob) a) (ev_randomness e) (ev_inputLamports e) = Inr s"
    and same: "so_totalOutputLamports s = cl_totalOutputLamports claim" "so_effectCount s = cl_effectCount claim"
      "so_effectsDigest s = cl_effectsDigest claim"
    and rand: "8 \<le> length (ev_randomness e)"
    and acc: "rv_name acc = OutcomeResolutionV4" "rv_resolution acc = resolution_of r"
  shows "compare_compact e acc (compiled_of_v5 (length blob) a) s = Inr ()"
proof -
  let ?ids = "cl_outcomeIds claim" and ?p = "compiled_of_v5 (length blob) a"
  have claim: "buildCompactNamedEntryClaimFromArtifactV5 a (ev_randomness e) = Inr claim"
    and ev: "ev_outcomeIds e = map padded_id ?ids" "ev_outcomeIdLens e = map (\<lambda>x. int (length x)) ?ids" "ev_winnerCount e = int (length ?ids)"
      "ev_outcomeId e = hd (map padded_id ?ids)" "ev_outcomeIdLen e = hd (map (\<lambda>x. int (length x)) ?ids)"
    and tot: "ev_totalOutputLamports e = cl_totalOutputLamports claim" "ev_effectCount e = cl_effectCount claim" "ev_effectsDigest e = cl_effectsDigest claim"
    and v: "ev_artifactFormatVersion e = FORMAT_VERSION_V5" "ev_rngVersion e = Some RNG_VERSION_V2"
    using e by (simp_all add: honest_event_def Let_def)
  obtain h where h: "winnerClaimDigest (map (\<lambda>x. int (length x)) ?ids) (map padded_id ?ids) = Inr h" "ev_winnerClaimHash e = Some h"
    using e by (auto simp: honest_event_def Let_def)
  note ids = v5_claim_ids [OF parse rand claim] and so = v5_selected_ids [OF parse claim sel]
  have hd: "outcome_id_ok (hd ?ids)" using ids(1,4) by simp
  have ne: "?ids \<noteq> []" by (rule ids(4))
  have o: "check_output e (resolution_of r) (so_totalOutputLamports s) = Inr ()"
    using r by (simp add: check_output_def records_event_def resolution_of_def tot same)
  have p: "check_compact_primary e (resolution_of r) s = Inr ()"
    using r padded_id_facts [OF hd] ne
    by (simp add: check_compact_primary_def records_event_def resolution_of_def ev so expectZeroPadding_def js_first_hd hd_map)
  have n: "check_winner_count e acc (pa_winnersCount ?p) (length (so_outcomeIds s)) = Inr ()"
    using r ids(3) by (simp add: check_winner_count_def records_event_def resolution_of_def ev so(1) acc from_v2_def compiled_of_v5_def)
  have c: "check_claim_hash e (resolution_of r) h = Inr ()"
    using r h(2) by (simp add: check_claim_hash_def records_event_def resolution_of_def buffer_from_def)
  have l: "compact_winner_list e acc s = Inr (so_outcomeIdLens s, so_outcomeIds s)"
    using settled_checks(2) [OF e r st] h(1) c by (simp add: compact_winner_list_def v acc so)
  have k: "check_lengths e (so_outcomeIdLens s) (so_outcomeIds s) = Inr ()"
    by (simp add: check_lengths_def ev so(1,2))
  have f: "check_effects e (resolution_of r) (so_effectCount s) (so_effectsDigest s) = Inr ()"
    using r by (simp add: check_effects_def records_event_def resolution_of_def tot same)
  have "from_v2 (rv_name acc) (rz_artifactFormatVersion (rv_resolution acc)) = Some (ev_artifactFormatVersion e)"
    "ev_artifactFormatVersion e = pa_formatVersion ?p"
    using r by (simp_all add: from_v2_def acc records_event_def resolution_of_def v compiled_of_v5_def)
  then show ?thesis
    using honest_compact_winners [OF parse e r sel rand] by (simp add: compare_compact_def acc o p n l k f)
qed

section \<open>The result\<close>

lemma safe_number: "\<bar>v\<bar> \<le> MAX_SAFE_INTEGER \<Longrightarrow> signedBigIntToSafeNumber v = Inr v"
  by (simp add: signedBigIntToSafeNumber_def bigint_to_number_exact MAX_SAFE_INTEGER_def)

lemma v5_version:
  assumes "parseArtifactV5 blob = Inr a"
  shows "runR readU16LE blob 4 = Inr FORMAT_VERSION_V5"
proof -
  from assms obtain off where "readU16LE blob 4 = Inr (FORMAT_VERSION_V5, off)"
    unfolding parseArtifactV5_def artifactV5R_def by (elim result_elims) (simp; blast)
  then show ?thesis by (auto simp: runR_Inr_iff)
qed

lemma v5_parse_blob: "parseArtifactV5 blob = Inr a \<Longrightarrow> parse_blob blob FORMAT_VERSION_V5 = Inr (Compact_blob (compiled_of_v5 (length blob) a))"
  by (simp add: parse_blob_def v5_forward FORMAT_VERSION_V4_def FORMAT_VERSION_V5_def FORMAT_VERSION_V1_2_SCALE_def
    FORMAT_VERSION_V1_2_1_SCALE_def)

lemma safe_rows:
  assumes "safe_scores a"
  shows "\<exists>rows. mapE (outcome_row_of (compiled_of_v5 n a)) (pa_outcomes (compiled_of_v5 n a)) = Inr rows"
proof -
  have "is_ok (outcome_row_of (compiled_of_v5 n a) x)" if "x \<in> set (pa_outcomes (compiled_of_v5 n a))" for x
  proof -
    have "\<bar>po_score x\<bar> \<le> MAX_SAFE_INTEGER" using that assms by (auto simp: compiled_of_v5_def parsed_entry_def safe_scores_def)
    then show ?thesis by (simp add: outcome_row_of_def safe_number Let_def)
  qed
  then have "\<forall>x \<in> set (pa_outcomes (compiled_of_v5 n a)). \<exists>y. outcome_row_of (compiled_of_v5 n a) x = Inr y" by (simp add: is_ok_iff)
  then obtain f where "\<forall>x \<in> set (pa_outcomes (compiled_of_v5 n a)). outcome_row_of (compiled_of_v5 n a) x = Inr (f x)" by metis
  then show ?thesis using mapE_ok by metis
qed

lemma honest_randomness_length: "deriveRngV2Randomness e h = Inr r \<Longrightarrow> length r = 32"
  by (auto simp: deriveRngV2Randomness_def bindE_Inr_iff length_sha256)

definition settled_accounts_of :: "buffer \<Rightarrow> resolution_account \<Rightarrow> rng_v2_state \<Rightarrow> resolve_accounts" where
  "settled_accounts_of blob r s = \<lparr>rv_configHash = sha256 blob, rv_name = OutcomeResolutionV4, rv_resolution = resolution_of r,
     rv_state = Some s, rv_header = header_of blob\<rparr>"

text \<open>Every comparison passes; what is left is to build the result.\<close>

lemma honest_event_resolved:
  assumes parse: "parseArtifactV5 blob = Inr a" and e: "honest_event blob a claim e"
    and w: "settled_world w programId blob e r s" and local: "no_artifactPath opts = []"
  shows "verify_resolved w opts programId e = compact_result w programId e (settled_accounts_of blob r s) (compiled_of_v5 (length blob) a)"
proof -
  let ?p = "compiled_of_v5 (length blob) a" and ?acc = "settled_accounts_of blob r s"
  have ev: "ev_rngVersion e = Some RNG_VERSION_V2" "ev_compiledArtifactHash e = sha256 blob" "ev_artifactFormatVersion e = FORMAT_VERSION_V5"
    "ev_snapshotHash e = Some (zeros 32)" "check_reveal e = Inr ()" "deriveRngV2Randomness e (zeros 32) = Inr (ev_randomness e)"
    and input: "ca_minInputLamports a \<le> ev_inputLamports e" "ev_inputLamports e \<le> ca_maxInputLamports a"
    and claim: "buildCompactNamedEntryClaimFromArtifactV5 a (ev_randomness e) = Inr claim"
    using e by (simp_all add: honest_event_def Let_def)
  have rand: "8 \<le> length (ev_randomness e)" using honest_randomness_length [OF ev(6)] by simp
  have rec: "records_event e r" and st: "settles_event e s" and pub: "published w programId blob" using w by (simp_all add: settled_world_def)
  have acc: "resolve_accounts_of w programId e = Inr ?acc"
    unfolding settled_accounts_of_def by (rule settled_accounts [OF w ev(1,2)])
  have bind: "check_bindings e ?acc = Inr ()"
    using rec by (simp add: check_bindings_def settled_accounts_of_def ev check_header_def header_of_def records_event_def resolution_of_def)
  have header: "rv_header ?acc = header_of blob" "rv_state ?acc = Some s" by (simp_all add: settled_accounts_of_def)
  have status: "check_status w programId (ah_status (header_of blob)) = Inr ()"
    by (simp add: check_status_def header_of_def STATUS_APPROVED_def STATUS_PENDING_def)
  have inputs: "check_inputs e ?acc FORMAT_VERSION_V5 (ev_randomness e) = Inr ()"
    using rec by (simp add: check_inputs_def settled_accounts_of_def records_event_def resolution_of_def ev from_v2_def)
  have state: "check_state (Some s) e = Inr ()"
    using settled_checks(1) [OF e rec st] by (simp add: check_state_def ev)
  have random: "recomputed_randomness e (Compact_blob ?p) = Inr (ev_randomness e)"
    by (simp add: recomputed_randomness_def ev expected_snapshot_def)
  obtain sel where sel: "selectOutcomes blob ?p (ev_randomness e) (ev_inputLamports e) = Inr sel"
    and same: "so_totalOutputLamports sel = cl_totalOutputLamports claim" "so_effectCount sel = cl_effectCount claim"
      "so_effectsDigest sel = cl_effectsDigest claim"
    using v5_selection [OF parse rand input] v5_forward [OF parse] claim by auto
  have cmp: "compare_compact e ?acc ?p sel = Inr ()"
    by (rule honest_compare [OF parse e rec st sel same rand]) (simp_all add: settled_accounts_of_def)
  show ?thesis
    using bind status inputs state random committed_blob_ok [OF pub] v5_version [OF parse] v5_parse_blob [OF parse] sel cmp local
    by (simp add: verify_resolved_def acc header ev check_local_artifact_def mismatch_on_error_def verify_compact_def)
qed

lemma honest_event_verifies:
  assumes parse: "parseArtifactV5 blob = Inr a" and safe: "safe_scores a" and e: "honest_event blob a claim e"
    and w: "settled_world w programId blob e r s" and local: "no_artifactPath opts = []"
  shows "\<exists>result. verify_resolved w opts programId e = Inr result \<and> vr_status result = MATCH
    \<and> vr_outcome_id result = hd (cl_outcomeIds claim)
    \<and> vr_outcome_ids result = (if 1 < length (cl_outcomeIds claim) then Some (cl_outcomeIds claim) else None)"
proof -
  let ?p = "compiled_of_v5 (length blob) a" and ?ids = "cl_outcomeIds claim" and ?acc = "settled_accounts_of blob r s"
  have claim: "buildCompactNamedEntryClaimFromArtifactV5 a (ev_randomness e) = Inr claim"
    and ids: "ev_outcomeIds e = map padded_id ?ids" "ev_outcomeIdLens e = map (\<lambda>x. int (length x)) ?ids" "ev_winnerCount e = int (length ?ids)"
      "ev_outcomeId e = hd (map padded_id ?ids)" "ev_outcomeIdLen e = hd (map (\<lambda>x. int (length x)) ?ids)"
    and "deriveRngV2Randomness e (zeros 32) = Inr (ev_randomness e)"
    using e by (simp_all add: honest_event_def Let_def)
  then have rand: "8 \<le> length (ev_randomness e)" using honest_randomness_length by simp
  obtain rows where rows: "mapE (outcome_row_of ?p) (pa_outcomes ?p) = Inr rows" using safe_rows [OF safe] by blast
  have "pa_formatVersion ?p = FORMAT_VERSION_V5" "signedBigIntToSafeNumber (pa_targetScore ?p) = Inr (ca_targetScore a)"
    using safe by (simp_all add: compiled_of_v5_def safe_number safe_scores_def)
  then obtain result where result: "compact_result w programId e ?acc ?p = Inr result"
    using rows by (auto simp: compact_result_def)
  then have "verify_resolved w opts programId e = Inr result"
    using honest_event_resolved [OF parse e w local] by simp
  moreover have "vr_status result = MATCH" "vr_outcome_id result = outcomeIdString (ev_outcomeId e) (ev_outcomeIdLen e)"
    "vr_outcome_ids result = (if 1 < ev_winnerCount e then Some (map2 outcomeIdString (ev_outcomeIds e) (ev_outcomeIdLens e)) else None)"
    using result by (auto simp: compact_result_def bindE_Inr_iff match_result_def)
  moreover have "map2 outcomeIdString (map padded_id ?ids) (map (\<lambda>x. int (length x)) ?ids) = ?ids"
    using v5_claim_ids(1) [OF parse rand claim] by (auto simp: zip_map_map zip_same_conv_map padded_id_facts intro: map_idI)
  moreover have "outcomeIdString (hd (map padded_id ?ids)) (hd (map (\<lambda>x. int (length x)) ?ids)) = hd ?ids"
    using v5_claim_ids(1,4) [OF parse rand claim] by (simp add: hd_map padded_id_facts)
  ultimately show ?thesis by (intro exI [of _ result]) (simp add: ids)
qed

section \<open>Scores that a result cannot show\<close>

lemma unsafe_number: "MAX_SAFE_INTEGER < \<bar>v\<bar> \<Longrightarrow> signedBigIntToSafeNumber v = Inl (Error ''exceeds JavaScript safe integer range'')"
proof -
  assume v: "MAX_SAFE_INTEGER < \<bar>v\<bar>"
  have "MAX_SAFE_INTEGER < \<bar>bigint_to_number v\<bar>"
  proof (cases "\<bar>v\<bar> \<le> 9007199254740992")
    case False
    then have "9007199254740992 \<le> \<bar>bigint_to_number v\<bar>" by (intro bigint_to_number_large) simp
    then show ?thesis by (simp add: MAX_SAFE_INTEGER_def)
  qed (use v in simp)
  then show ?thesis by (simp add: signedBigIntToSafeNumber_def Let_def)
qed

lemma mapE_fails:
  assumes "\<And>y e'. f y = Inl e' \<Longrightarrow> e' = e"
  shows "x \<in> set xs \<Longrightarrow> f x = Inl e \<Longrightarrow> mapE f xs = Inl e"
proof (induction xs)
  case (Cons y xs)
  show ?case
  proof (cases "f y")
    case (Inl e')
    with assms show ?thesis by simp
  next
    case (Inr v)
    with Cons.prems have "x \<in> set xs" by auto
    then have "mapE f xs = Inl e" using Cons by blast
    with Inr show ?thesis by simp
  qed
qed simp

lemma outcome_row_error:
  "outcome_row_of p x = Inl e \<Longrightarrow> e = Error ''exceeds JavaScript safe integer range''"
  by (auto simp: outcome_row_of_def signedBigIntToSafeNumber_def bindE_Inl_iff throwIf_def Let_def split: if_splits)

lemma unsafe_result:
  assumes "\<not> safe_scores a"
  shows "compact_result w programId e acc (compiled_of_v5 n a) = Inl (Error ''exceeds JavaScript safe integer range'')"
proof (cases "MAX_SAFE_INTEGER < \<bar>ca_targetScore a\<bar>")
  case True
  then show ?thesis by (simp add: compact_result_def compiled_of_v5_def unsafe_number)
next
  case False
  let ?p = "compiled_of_v5 n a"
  from False assms obtain x where x: "x \<in> set (ca_entries a)" "MAX_SAFE_INTEGER < \<bar>p_score x\<bar>" by (auto simp: safe_scores_def)
  then have "parsed_entry (ca_payoutLamports a) x \<in> set (pa_outcomes ?p)"
    "outcome_row_of ?p (parsed_entry (ca_payoutLamports a) x) = Inl (Error ''exceeds JavaScript safe integer range'')"
    by (simp_all add: compiled_of_v5_def outcome_row_of_def scored_def parsed_entry_def unsafe_number Let_def)
  then have "mapE (outcome_row_of ?p) (pa_outcomes ?p) = Inl (Error ''exceeds JavaScript safe integer range'')"
    by (rule mapE_fails [where f = "outcome_row_of ?p", rotated]) (rule outcome_row_error)
  with False show ?thesis by (simp add: compact_result_def compiled_of_v5_def safe_number)
qed

end
