(* ===== verification/Verify_Claims.thy ===== *)
theory Verify_Claims
  imports Verify_Honest
begin

text \<open>
  The properties of the verification driver, and a world in which they apply: one artifact, published in chunks,
  with the accounts of a settled resolution.
\<close>

section \<open>A settled world\<close>

text \<open>Addresses are their seeds; the two accounts with a hand-written decoder hold bytes, the others are decoded by
  functions of the address.\<close>

definition sample_world :: "buffer \<Rightarrow> buffer \<Rightarrow> buffer \<Rightarrow> world" where
  "sample_world blob resolutionData stateData =
     \<lparr>sw_fetch = (\<lambda>_. None), sw_aborted = (\<lambda>_ _. False), sw_fileUrl = (\<lambda>_. None), sw_absolute = (\<lambda>_. False),
      sw_resolve = id, sw_stat = (\<lambda>_. None), sw_read = (\<lambda>_. None),
      w_publicKey = (\<lambda>_. Inr []), w_base58 = (\<lambda>_. []), w_programAddress = (\<lambda>seeds _. Inr (concat seeds)),
      w_transaction = (\<lambda>_. Inr None),
      w_account = (\<lambda>key. Inr (Some (if take 18 key = utf8_encode (js ''outcome_resolution'') then resolutionData
                     else if take 12 key = utf8_encode (js ''rng_v2_state'') then stateData else key))),
      w_decodeConfig = (\<lambda>_. Inr (sha256 blob)), w_decodeHeader = (\<lambda>_. Inr (header_of blob)),
      w_decodeChunk = (\<lambda>data. Inr (chunk_of blob (nat (le_uint (drop 63 data))))), w_decodeProgramConfig = (\<lambda>_. Inr False),
      w_decodeResolution = (\<lambda>_ _. Inl (Error ''no such account'')), w_exists = (\<lambda>_. False), w_environment = []\<rparr>"

lemma sample_seeds:
  "utf8_encode (js ''outcome_resolution'') = ascii_bytes (js ''outcome_resolution'')"
  "utf8_encode (js ''rng_v2_state'') = ascii_bytes (js ''rng_v2_state'')"
  "utf8_encode (js ''outcome_config'') = ascii_bytes (js ''outcome_config'')"
  "utf8_encode (js ''approved_outcome_artifact_chunk'') = ascii_bytes (js ''approved_outcome_artifact_chunk'')"
  "utf8_encode (js ''approved_outcome_artifact'') = ascii_bytes (js ''approved_outcome_artifact'')"
  by (simp_all add: utf8_encode_ascii js_def ascii_bytes_def)

lemmas sample_seed_bytes = sample_seeds [simplified js_def ascii_bytes_def, simplified]

lemma sample_published:
  assumes "length blob < 4294967296"
  shows "published (sample_world blob rd st) p blob"
proof -
  have "holds (sample_world blob rd st) (deriveApprovedArtifactChunkPda (sample_world blob rd st) p (sha256 blob) i)
      (w_decodeChunk (sample_world blob rd st)) (chunk_of blob i)" if "i < chunk_count blob" for i
  proof -
    have "i < 4294967296" using that assms by (simp add: chunk_count_def)
    then show ?thesis
      by (simp add: holds_def deriveApprovedArtifactChunkPda_def sample_world_def js_def sample_seed_bytes length_sha256)
  qed
  then show ?thesis
    by (simp add: published_def holds_def deriveApprovedArtifactPda_def sample_world_def)
qed

lemma sample_config: "config_hash (sample_world blob rd st) p runtimeId = Inr (sha256 blob)"
  by (simp add: config_hash_def deriveOutcomeConfigPda_def fetchDecodedAccount_def found_def mismatch_on_error_def sample_world_def)

lemma sample_event_blob:
  assumes "length blob < 4294967296"
  shows "event_blob (sample_world blob rd st) p runtimeId (sha256 blob) = Inr blob"
proof -
  have "artifact_account (sample_world blob rd st) p (sha256 blob) = Inr (header_of blob)"
    by (simp add: artifact_account_def deriveApprovedArtifactPda_def fetchDecodedAccount_def found_def mismatch_on_error_def sample_world_def)
  then show ?thesis
    using committed_blob_ok [OF sample_published [OF assms], of rd st p]
    by (simp add: event_blob_def sample_config check_header_def header_of_def)
qed

section \<open>Slot spins\<close>

text \<open>C34: a slot spin that verifies was played on the game whose bytes hash to the event's artifact hash, which the
  runtime's configuration binds; its randomness is the hash of the slot evidence, its reel stops are those of
  the 64-bit reference generator (and zero beyond the last reel), its raw win is the replay's, and it paid
  that win up to the cap of the artifact.\<close>

theorem slot_match_sound:
  assumes "verifySlot w programId event = Inr r"
  shows "\<exists>blob spec outcome cap. sha256 blob = se_compiledArtifactHash event
    \<and> config_hash w programId (se_runtimeId event) = Inr (se_compiledArtifactHash event)
    \<and> parseSlotArtifact blob = Inr spec \<and> deriveSlotSpinRandomness event = Inr (se_randomness event)
    \<and> take (nat (s_cols spec)) (se_reelStops event)
        = map (ref_stop spec (word_of_int (le_uint (take 8 (se_randomness event))))) [0..<nat (s_cols spec)]
    \<and> (\<forall>stop \<in> set (drop (nat (s_cols spec)) (se_reelStops event)). stop = 0)
    \<and> replaySpin spec (se_randomness event) (se_inputLamports event) = Inr outcome
    \<and> se_rawWinLamports event = totalWinLamports outcome
    \<and> maxWinCap (se_inputLamports event) (s_maxWinMultiplier spec) = Inr cap
    \<and> se_payoutLamports event = min (totalWinLamports outcome) cap \<and> vr_status r = MATCH"
proof -
  obtain blob spec outcome where v: "event_blob w programId (se_runtimeId event) (se_compiledArtifactHash event) = Inr blob"
    "parseSlotArtifact blob = Inr spec" "deriveSlotSpinRandomness event = Inr (se_randomness event)"
    "replaySpin spec (se_randomness event) (se_inputLamports event) = Inr outcome"
    "compare_spin event spec outcome = Inr ()" "vr_status r = MATCH"
    using verifySlot_D [OF assms] by blast
  have "length (se_randomness event) = 32" using v(3) by (rule length_slot_randomness)
  then have stops: "reelStops outcome = map (ref_stop spec (word_of_int (le_uint (take 8 (se_randomness event))))) [0..<nat (s_cols spec)]"
    using slot_replay_facts [OF v(2), of "se_randomness event" "se_inputLamports event"] v(4) by auto
  then have "length (reelStops outcome) = nat (s_cols spec)" by simp
  with compare_spin_D [OF v(5)] stops event_blob_D(1,2) [OF v(1)] v show ?thesis by metis
qed


lemma sample_game_length: "length sample_game_bytes < 4294967296"
  by (simp add: sample_game_bytes_def slot_bytes_def sample_game_def SLOT_MAGIC_def reel_bytes_def paytable_row_bytes_def)

lemma sample_cols:
  "s_cols (slot_spec_of sample_game sample_game_bytes) = 3" "s_maxWinMultiplier (slot_spec_of sample_game sample_game_bytes) = 500000"
  by (simp_all add: slot_spec_of_def sample_game_def Let_def)

definition sample_spin :: "buffer \<Rightarrow> slot_spin_outcome \<Rightarrow> slot_event" where
  "sample_spin randomness outcome = \<lparr>se_runtimeId = replicate 16 1, se_resolveId = 7, se_actor = replicate 32 2, se_inputLamports = 1000,
     se_payoutLamports = min (totalWinLamports outcome) 50000, se_rawWinLamports = totalWinLamports outcome,
     se_compiledArtifactHash = sha256 sample_game_bytes, se_randomness = randomness, se_reelCount = Some 3,
     se_reelStops = reelStops outcome @ [0, 0], se_resolvedSlots = [10, 11, 12], se_slotHashes = replicate 3 (replicate 32 8),
     se_settledAtSlot = 13\<rparr>"

lemma sample_spin_verifies:
  "\<exists>event r. verifySlot (sample_world sample_game_bytes [] []) [] event = Inr r"
proof -
  let ?spec = "slot_spec_of sample_game sample_game_bytes"
  have rand: "\<exists>r. deriveSlotSpinRandomness (sample_spin x out) = Inr r \<and> length r = 32" for x out
    by (simp add: deriveSlotSpinRandomness_def slot_seed_bytes_def slot_chunk_def sample_spin_def length_sha256 upt_rec)
  have same: "deriveSlotSpinRandomness (sample_spin x out) = deriveSlotSpinRandomness (sample_spin [] undefined)" for x out
    by (simp add: deriveSlotSpinRandomness_def slot_seed_bytes_def sample_spin_def)
  obtain x where x: "deriveSlotSpinRandomness (sample_spin [] undefined) = Inr x" "length x = 32" using rand by metis
  obtain out where out: "replaySpin ?spec x 1000 = Inr out" "length (reelStops out) = 3"
    using slot_replay_facts [OF sample_game_parses x(2), of 1000] sample_cols by fastforce
  have cap: "maxWinCap 1000 (s_maxWinMultiplier ?spec) = Inr 50000"
    by (simp add: maxWinCap_def bigint_div_def SLOT_MULTIPLIER_SCALE_def sample_cols)
  have "\<not> some_differs (reelStops out) (reelStops out @ [0, 0])" by (simp add: some_differs_iff)
  then have "compare_spin (sample_spin x out) ?spec out = Inr ()"
    using out(2) cap by (simp add: compare_spin_def sample_spin_def sample_cols min_def Let_def)
  moreover have "event_blob (sample_world sample_game_bytes [] []) [] (se_runtimeId (sample_spin x out)) (se_compiledArtifactHash (sample_spin x out)) = Inr sample_game_bytes"
    using sample_event_blob [of sample_game_bytes] by (simp add: sample_spin_def sample_game_length)
  moreover have "se_randomness (sample_spin x out) = x" "se_inputLamports (sample_spin x out) = 1000" by (simp_all add: sample_spin_def)
  ultimately have "\<exists>r. verifySlot (sample_world sample_game_bytes [] []) [] (sample_spin x out) = Inr r"
    using out(1) x(1) same [of x out] by (simp add: verifySlot_def sample_game_parses mismatch_on_error_def)
  then show ?thesis by blast
qed

lemma slot_match_sound_witness:
  "\<exists>event r. verifySlot (sample_world sample_game_bytes [] []) [] event = Inr r \<and> vr_status r = MATCH"
  using sample_spin_verifies slot_match_sound by meson

section \<open>Honest draws\<close>

text \<open>The evidence of a draw, and the event that the program emits for it.\<close>

definition sample_evidence :: "buffer \<Rightarrow> resolved_event" where
  "sample_evidence blob = sample_event\<lparr>ev_compiledArtifactHash := sha256 blob, ev_snapshotHash := Some (zeros 32),
     ev_operatorCommitPresent := Some False\<rparr>"

definition sample_settlement :: "buffer \<Rightarrow> buffer \<Rightarrow> snapshot_claim \<Rightarrow> buffer \<Rightarrow> resolved_event" where
  "sample_settlement blob randomness claim digest =
     (let ids = map padded_id (cl_outcomeIds claim); lens = map (\<lambda>x. int (length x)) (cl_outcomeIds claim) in
      (sample_evidence blob)\<lparr>ev_randomness := randomness, ev_winnerCount := int (length ids), ev_outcomeIds := ids,
        ev_outcomeIdLens := lens, ev_outcomeId := hd ids, ev_outcomeIdLen := hd lens, ev_winnerClaimHash := Some digest,
        ev_totalOutputLamports := cl_totalOutputLamports claim, ev_effectCount := cl_effectCount claim,
        ev_effectsDigest := cl_effectsDigest claim\<rparr>)"

definition sample_resolution :: "resolved_event \<Rightarrow> resolution_account" where
  "sample_resolution e = \<lparr>ra_runtimeId = ev_runtimeId e, ra_resolveId = ev_resolveId e, ra_actor = ev_actor e,
     ra_inputLamports = ev_inputLamports e, ra_status = 1, ra_rngVersion = 2, ra_artifactFormatVersion = ev_artifactFormatVersion e,
     ra_winnerCount = ev_winnerCount e, ra_winnerClaimHash = the (ev_winnerClaimHash e),
     ra_totalOutputLamports = ev_totalOutputLamports e, ra_compiledArtifactHash = ev_compiledArtifactHash e,
     ra_randomness = ev_randomness e, ra_outcomeIdLen = ev_outcomeIdLen e, ra_outcomeId = ev_outcomeId e,
     ra_effectCount = ev_effectCount e, ra_effectsDigest = ev_effectsDigest e, ra_snapshotHash = the (ev_snapshotHash e),
     ra_resolvedSlots = the (ev_resolvedSlots e), ra_slotHashes = the (ev_slotHashes e), ra_operatorCommitPresent = False,
     ra_operatorCommitHash = zeros 32, ra_operatorRevealLen = 0, ra_operatorReveal = zeros 32, ra_bump = 1,
     ra_protocolRevision = 1, ra_bountyLamports = 0, ra_reserved = zeros 20\<rparr>"

definition sample_state :: "resolved_event \<Rightarrow> rng_v2_state" where
  "sample_state e = \<lparr>rs_runtimeId = ev_runtimeId e, rs_resolveId = ev_resolveId e, rs_actor = ev_actor e,
     rs_inputLamports = ev_inputLamports e, rs_status = RNG_V2_STATUS_SETTLED, rs_compiledArtifactHash = ev_compiledArtifactHash e,
     rs_artifactFormatVersion = ev_artifactFormatVersion e, rs_snapshotHash = the (ev_snapshotHash e),
     rs_targetSlots = [10, 11, 12], rs_expirySlot = 99, rs_operatorCommitPresent = False, rs_operatorCommitHash = zeros 32,
     rs_operatorRevealLen = 0, rs_operatorReveal = zeros 32, rs_resolvedSlots = the (ev_resolvedSlots e),
     rs_slotHashes = the (ev_slotHashes e)\<rparr>"

lemma winner_digest_ok:
  assumes "length lens = length ids" and "length ids \<le> 32"
  shows "\<exists>h. winnerClaimDigest lens ids = Inr h \<and> length h = 32"
proof -
  have "concatE (map (winner_digest_part ids) (enumerate 0 lens))
      = Inr (concat (map (\<lambda>(k, len). byte_of len @ take (nat len) (ids ! k)) (enumerate 0 lens)))"
    by (rule concatE_ok) (use assms in \<open>auto simp: winner_digest_part_def in_set_enumerate_eq\<close>)
  then show ?thesis using assms by (simp add: winnerClaimDigest_def length_sha256)
qed

lemma sample_draw:
  assumes parse: "parseArtifactV5 blob = Inr a" and a: "a = compact_artifact_of compact_validated"
  shows "\<exists>e claim. e = sample_settlement blob (ev_randomness e) claim (the (ev_winnerClaimHash e)) \<and> honest_event blob a claim e
    \<and> length (the (ev_winnerClaimHash e)) = 32 \<and> length (ev_randomness e) = 32"
proof -
  have rand: "\<exists>x. deriveRngV2Randomness (sample_evidence blob) (zeros 32) = Inr x"
    by (simp add: deriveRngV2Randomness_def deriveRngV2Seed_def rng_seed_bytes_def slot_chunk_def sample_evidence_def sample_event_def
        upt_rec)
  then obtain x where x: "deriveRngV2Randomness (sample_evidence blob) (zeros 32) = Inr x" by blast
  then have len: "length x = 32" by (rule honest_randomness_length)
  obtain claim where claim: "buildCompactNamedEntryClaimFromArtifactV5 a x = Inr claim"
    using compact_claim [OF parse, of x] len by auto
  let ?ids = "map padded_id (cl_outcomeIds claim)" and ?lens = "map (\<lambda>x. int (length x)) (cl_outcomeIds claim)"
  have "length ?ids \<le> 32" using v5_claim_ids(5) [OF parse _ claim] len by simp
  then obtain h where h: "winnerClaimDigest ?lens ?ids = Inr h" "length h = 32"
    using winner_digest_ok [of ?lens ?ids] by auto
  let ?e = "sample_settlement blob x claim h"
  have same: "deriveRngV2Randomness ?e (zeros 32) = Inr x"
    using x derive_same [of ?e "sample_evidence blob"] by (simp add: evidence_def sample_settlement_def Let_def)
  have "honest_event blob a claim ?e"
    using same claim h(1)
    by (simp add: honest_event_def sample_settlement_def sample_evidence_def sample_event_def Let_def RNG_VERSION_V2_def
        FORMAT_VERSION_V5_def check_reveal_def a compact_artifact_of_def compact_validated_def)
  moreover have "ev_randomness ?e = x" "ev_winnerClaimHash ?e = Some h" by (simp_all add: sample_settlement_def Let_def)
  ultimately show ?thesis using h(2) len by (metis option.sel)
qed

lemma v5_small:
  assumes "parseArtifactV5 blob = Inr a"
  shows "length blob \<le> 8192"
proof -
  from assms obtain x where "\<not> (length blob < 48 \<or> length blob > MAX_COMPILED_ARTIFACT_BYTES)"
    unfolding parseArtifactV5_def artifactV5R_def by (elim result_elims) (simp; blast)
  then show ?thesis by (simp add: MAX_COMPILED_ARTIFACT_BYTES_def)
qed

lemma sample_claim_sizes:
  assumes parse: "parseArtifactV5 blob = Inr a" and a: "a = compact_artifact_of compact_validated"
    and claim: "buildCompactNamedEntryClaimFromArtifactV5 a x = Inr claim" and x: "length x = 32"
  shows "cl_totalOutputLamports claim = 3" and "cl_effectCount claim = 1" and "length (cl_effectsDigest claim) = 32"
    and "length (cl_outcomeIds claim) = 1"
proof -
  have sizes: "ca_payoutLamports a = 3" "ca_winnersCount a = 1" by (simp_all add: a compact_artifact_of_def compact_validated_def)
  obtain winners where "buildSnapshotClaimFromWinnerIds winners 3 = Inr claim"
    using selected_indices_v5 [OF parseArtifactV5_wf [OF parse] claim] sizes by auto
  from claim_D [OF this] have c: "cl_outcomeIds claim = winners" "cl_effectCount claim = int (length winners)"
    "cl_totalOutputLamports claim = 3 * int (length winners)" "length (cl_effectsDigest claim) = 32"
    by (simp_all add: MAX_U64_def length_sha256)
  moreover have "int (length (cl_outcomeIds claim)) = 1" using v5_claim_ids(3) [OF parse _ claim] x sizes by simp
  ultimately show "cl_totalOutputLamports claim = 3" "cl_effectCount claim = 1" "length (cl_effectsDigest claim) = 32"
    "length (cl_outcomeIds claim) = 1" by simp_all
qed

definition draw_world :: "buffer \<Rightarrow> resolved_event \<Rightarrow> world" where
  "draw_world blob e =
     sample_world blob (anchorAccountDiscriminator ''OutcomeResolutionV4'' @ resolution_bytes (sample_resolution e))
       (anchorAccountDiscriminator ''RngV2State'' @ state_bytes (sample_state e) 1 (zeros 32))"

lemma sample_settled:
  assumes parse: "parseArtifactV5 blob = Inr a" and a: "a = compact_artifact_of compact_validated"
    and e: "e = sample_settlement blob (ev_randomness e) claim (the (ev_winnerClaimHash e))" and honest: "honest_event blob a claim e"
    and len: "length (the (ev_winnerClaimHash e)) = 32" "length (ev_randomness e) = 32"
  shows "settled_world (draw_world blob e) p blob e (sample_resolution e) (sample_state e)"
proof -
  have claim: "buildCompactNamedEntryClaimFromArtifactV5 a (ev_randomness e) = Inr claim" and h: "\<exists>h. ev_winnerClaimHash e = Some h"
    using honest by (auto simp: honest_event_def Let_def)
  note sizes = sample_claim_sizes [OF parse a claim len(2)]
  obtain i where i: "cl_outcomeIds claim = [i]" using sizes(4) by (cases "cl_outcomeIds claim") auto
  then have "outcome_id_ok i" using v5_claim_ids(1) [OF parse _ claim] len by simp
  then have id: "length (padded_id i) = 64" "length i \<le> 64"
    by (simp_all add: padded_id_facts outcome_id_ok_def MAX_OUTCOME_ID_BYTES_def)
  have f: "ev_runtimeId e = replicate 16 1" "ev_resolveId e = 7" "ev_actor e = replicate 32 2" "ev_inputLamports e = 5"
    "ev_artifactFormatVersion e = 5" "ev_winnerCount e = 1" "ev_totalOutputLamports e = 3" "ev_compiledArtifactHash e = sha256 blob"
    "ev_outcomeIdLen e = int (length i)" "ev_outcomeId e = padded_id i" "ev_effectCount e = 1" "length (ev_effectsDigest e) = 32"
    "ev_snapshotHash e = Some (zeros 32)" "ev_resolvedSlots e = Some [10, 11, 12]"
    "ev_slotHashes e = Some (replicate 3 (replicate 32 8))" "ev_operatorCommitPresent e = Some False"
    "ev_operatorCommitHash e = Some (replicate 32 0)" "ev_operatorRevealLen e = Some 0" "ev_operatorReveal e = Some (replicate 32 0)"
    using sizes by (subst e, simp add: sample_settlement_def sample_evidence_def sample_event_def Let_def i)+
  have ok: "resolution_ok (sample_resolution e)" "state_ok (sample_state e)"
    using len id by (simp_all add: resolution_ok_def state_ok_def sample_resolution_def sample_state_def f u8_ok_def u16_ok_def u64_ok_def
      length_sha256 RNG_V2_STATUS_SETTLED_def)
  have "length blob < 4294967296"
    using v5_small [OF parse] by simp
  then have "published (draw_world blob e) p blob" unfolding draw_world_def by (rule sample_published)
  moreover have "holds (draw_world blob e) (deriveOutcomeConfigPda (draw_world blob e) p (ev_runtimeId e)) (w_decodeConfig (draw_world blob e)) (sha256 blob)"
    by (simp add: holds_def deriveOutcomeConfigPda_def draw_world_def sample_world_def)
  moreover have "holds (draw_world blob e) (deriveOutcomeResolutionPda (draw_world blob e) p (ev_runtimeId e) (ev_resolveId e))
      decodeOutcomeResolutionV4Account (sample_resolution e)"
    using account_bytes_decode(1) [OF ok(1), of "[]"]
    by (simp add: holds_def deriveOutcomeResolutionPda_def draw_world_def sample_world_def js_def sample_seed_bytes f)
  moreover have "holds (draw_world blob e) (deriveRngV2StatePda (draw_world blob e) p (ev_runtimeId e) (ev_resolveId e))
      decodeRngV2StateAccount (sample_state e)"
    using account_bytes_decode(2) [OF ok(2), of 1 "zeros 32" "[]"]
    by (simp add: holds_def deriveRngV2StatePda_def draw_world_def sample_world_def js_def sample_seed_bytes f u8_ok_def)
  moreover have "records_event e (sample_resolution e)" "settles_event e (sample_state e)"
    using h by (auto simp: records_event_def settles_event_def sample_resolution_def sample_state_def f RNG_VERSION_V2_def or_zeros_def
        or_zero_def zeros_def)
  ultimately show ?thesis by (simp add: settled_world_def)
qed

lemma settled_inputs:
  assumes parse: "parseArtifactV5 blob = Inr a" and honest: "honest_event blob a claim e"
    and w: "settled_world w p blob e r s"
  shows "committed_inputs w opts p e = [blob]"
proof -
  have ev: "ev_rngVersion e = Some RNG_VERSION_V2" "ev_compiledArtifactHash e = sha256 blob"
    using honest by (simp_all add: honest_event_def Let_def)
  have "published w p blob" using w by (simp add: settled_world_def)
  then show ?thesis
    using committed_blob_ok v5_version [OF parse] v5_parse_blob [OF parse]
    by (simp add: committed_inputs_def settled_accounts [OF w ev] ev)
qed

lemma sample_draw_settled:
  "\<exists>blob e claim. parseArtifactV5 blob = Inr (compact_artifact_of compact_validated)
    \<and> honest_event blob (compact_artifact_of compact_validated) claim e
    \<and> (\<forall>p. settled_world (draw_world blob e) p blob e (sample_resolution e) (sample_state e))"
proof -
  obtain blob where parse: "parseArtifactV5 blob = Inr (compact_artifact_of compact_validated)" using compact_sample_builds by blast
  obtain e claim where e: "e = sample_settlement blob (ev_randomness e) claim (the (ev_winnerClaimHash e))"
    "honest_event blob (compact_artifact_of compact_validated) claim e" "length (the (ev_winnerClaimHash e)) = 32" "length (ev_randomness e) = 32"
    using sample_draw [OF parse refl] by blast
  have "settled_world (draw_world blob e) p blob e (sample_resolution e) (sample_state e)" for p
    by (rule sample_settled [OF parse refl e])
  with parse e(2) show ?thesis by blast
qed

lemma sample_scores_safe: "safe_scores (compact_artifact_of compact_validated)"
  by (simp add: safe_scores_def compact_artifact_of_def compact_validated_def MAX_SAFE_INTEGER_def)

text \<open>C3: an honest settlement of a compact draw verifies. The artifact is one of format 5, the compact kind, that the
  verifier's parser accepts; it is published in full and approved, the configuration binds it, and the program recorded,
  in its event, its resolution account and its settled state, the winners of the operator's claim for the rng_v2
  randomness of the evidence; the operator's reveal fits its commitment, the input is within the artifact's bounds and
  no snapshot is used. Then the replay of the default verification, without a local artifact, ends in MATCH and
  reports exactly the winners of the claim. The one exception: if a score or the target of the artifact is beyond the safe
  integers of JavaScript, which the format and the draw admit, the same honest settlement ends in an error, which the
  caller reports as MISMATCH. Settlements of the other formats are not covered: the draws over snapshots are the
  subject of C2, and a composite artifact is not settled here.\<close>

theorem honest_draw_verifies:
  assumes "parseArtifactV5 blob = Inr a" and "honest_event blob a claim e" and "settled_world w programId blob e r s"
    and "no_artifactPath opts = []"
  shows "(safe_scores a \<longrightarrow>
      (\<exists>result. verify_resolved w opts programId e = Inr result \<and> vr_status result = MATCH
        \<and> vr_outcome_id result = hd (cl_outcomeIds claim)
        \<and> vr_outcome_ids result = (if 1 < length (cl_outcomeIds claim) then Some (cl_outcomeIds claim) else None)))
    \<and> (\<not> safe_scores a \<longrightarrow>
      verify_resolved w opts programId e = Inl (Error ''exceeds JavaScript safe integer range''))"
  using honest_event_verifies [OF assms(1) _ assms(2-4)] honest_event_resolved [OF assms] unsafe_result by simp

definition sample_opts :: verify_opts where
  "sample_opts = \<lparr>no_signature = js ''s'', no_programId = [], no_artifactPath = [], no_snapshotMirrors = [], no_snapshotFile = [],
     no_snapshotTimeoutMs = 1\<rparr>"

lemma honest_draw_verifies_witness:
  "\<exists>blob e result. verify_resolved (draw_world blob e) sample_opts [] e = Inr result \<and> vr_status result = MATCH"
proof -
  obtain blob e claim where d: "parseArtifactV5 blob = Inr (compact_artifact_of compact_validated)"
    "honest_event blob (compact_artifact_of compact_validated) claim e"
    "settled_world (draw_world blob e) [] blob e (sample_resolution e) (sample_state e)"
    using sample_draw_settled by blast
  then show ?thesis
    using honest_draw_verifies [OF d, of sample_opts] sample_scores_safe by (auto simp: sample_opts_def)
qed

text \<open>C1: one evidence, one outcome. If two verifications of resolutions with the same evidence both end in MATCH, they
  report the same randomness, winners, output and effects, whatever the accounts, sources, options and program
  of the two were, unless the inputs they committed to contain a collision of SHA-256. An operator cannot show
  two verifiers different winners of one draw.\<close>

theorem verified_outcome_unique:
  assumes "verify_resolved w opts p e = Inr r" and "verify_resolved w' opts' p' e' = Inr r'" and "evidence e = evidence e'"
  shows "reported e r = reported e' r' \<or> hash_collision (committed_inputs w opts p e) (committed_inputs w' opts' p' e')"
  using verified_same_outcome [OF assms] by blast

lemma verified_outcome_unique_witness:
  "\<exists>blob e r r'. verify_resolved (draw_world blob e) sample_opts [] e = Inr r \<and> verify_resolved (draw_world blob e) sample_opts [1] e = Inr r'
    \<and> reported e r = reported e r'"
proof -
  obtain blob e claim where d: "parseArtifactV5 blob = Inr (compact_artifact_of compact_validated)"
    "honest_event blob (compact_artifact_of compact_validated) claim e"
    "\<And>p. settled_world (draw_world blob e) p blob e (sample_resolution e) (sample_state e)"
    using sample_draw_settled by blast
  have opts: "no_artifactPath sample_opts = []" by (simp add: sample_opts_def)
  obtain r r' where r: "verify_resolved (draw_world blob e) sample_opts [] e = Inr r"
    "verify_resolved (draw_world blob e) sample_opts [1] e = Inr r'"
    using honest_event_verifies [OF d(1) sample_scores_safe d(2,3) opts] by meson
  have "\<not> hash_collision (committed_inputs (draw_world blob e) sample_opts [] e) (committed_inputs (draw_world blob e) sample_opts [1] e)"
    by (simp add: settled_inputs [OF d] hash_collision_def)
  with verified_outcome_unique [OF r refl] r show ?thesis by blast
qed

end
