(* ===== verification/Confirm.thy ===== *)
theory Confirm
  imports VRE_Prelude
begin

text \<open>
  Sending and confirming, \<^verbatim>\<open>sdk/confirm.ts\<close>. The RPC node, the clock and the signer are observed: per turn of the polling
  loop, the time, whether the websocket has notified and what the two status calls answer; per attempt, the
  blockhash and the answer to the send call. An error value is the truth value of the JavaScript one. The loop is
  a partial function: that it returns is a property of the clock.
\<close>

section \<open>Observations\<close>

datatype confirmation = Processed | Confirmed | Finalized

record signature_status =
  ss_err :: bool
  ss_confirmation :: "confirmation option"

text \<open>One turn: \<^verbatim>\<open>Date.now()\<close> at its head, the notification that has arrived when the wait is over, and the answers of
  \<^verbatim>\<open>getSignatureStatuses\<close> (\<open>None\<close> is \<^verbatim>\<open>null\<close>) and \<^verbatim>\<open>getBlockHeight\<close>.\<close>

record turn =
  tn_now :: int
  tn_notified :: "bool option"
  tn_status :: "signature_status option result"
  tn_height :: "int result"

section \<open>The polling loop\<close>

definition SEND_ATTEMPTS :: nat where "SEND_ATTEMPTS = 3"

definition POLL_INTERVAL_MS :: int where "POLL_INTERVAL_MS = 2000"

definition POLL_DEADLINE_MS :: int where "POLL_DEADLINE_MS = 90000"

abbreviation transaction_failed :: js_error where
  "transaction_failed \<equiv> Error ''Transaction failed''"

abbreviation not_confirmed :: js_error where
  "not_confirmed \<equiv> Error ''Transaction was not confirmed''"

text \<open>The end of the loop body: \<open>None\<close> goes on.\<close>

definition judge :: "bool \<Rightarrow> bool \<Rightarrow> int option \<Rightarrow> int \<Rightarrow> unit result option" where
  "judge err ready blockHeight lastValidBlockHeight =
     (if err then Some (Inl transaction_failed)
      else if ready then Some (Inr ())
      else case blockHeight of
          Some h \<Rightarrow> if lastValidBlockHeight < h then Some (Inl BlockhashExpired) else None
        | None \<Rightarrow> None)"

definition status_err :: "signature_status option \<Rightarrow> bool" where
  "status_err status = (case status of None \<Rightarrow> False | Some s \<Rightarrow> ss_err s)"

definition status_done :: "signature_status option \<Rightarrow> bool" where
  "status_done status =
     (case status of None \<Rightarrow> False
      | Some s \<Rightarrow> ss_err s \<or> ss_confirmation s = Some Confirmed \<or> ss_confirmation s = Some Finalized)"

definition poll_turn :: "turn \<Rightarrow> int \<Rightarrow> nat \<Rightarrow> unit result option" where
  "poll_turn t lastValidBlockHeight tick =
     (case tn_notified t of
        Some err \<Rightarrow> judge err True None lastValidBlockHeight
      | None \<Rightarrow>
         (case tn_status t of
            Inl _ \<Rightarrow> None
          | Inr status \<Rightarrow>
              if \<not> status_done status \<and> tick mod 5 = 0
              then (case tn_height t of
                      Inl _ \<Rightarrow> None
                    | Inr h \<Rightarrow> judge (status_err status) (status_done status) (Some h) lastValidBlockHeight)
              else judge (status_err status) (status_done status) None lastValidBlockHeight))"

partial_function (option) poll_loop :: "(nat \<Rightarrow> turn) \<Rightarrow> int \<Rightarrow> int \<Rightarrow> nat \<Rightarrow> unit result option" where
  "poll_loop obs deadline lastValidBlockHeight tick =
     (if deadline \<le> tn_now (obs tick) then Some (Inl not_confirmed)
      else (case poll_turn (obs tick) lastValidBlockHeight tick of
          Some r \<Rightarrow> Some r
        | None \<Rightarrow> poll_loop obs deadline lastValidBlockHeight (tick + 1)))"

definition pollSignature :: "int \<Rightarrow> (nat \<Rightarrow> turn) \<Rightarrow> int \<Rightarrow> unit result option" where
  "pollSignature start obs lastValidBlockHeight = poll_loop obs (start + POLL_DEADLINE_MS) lastValidBlockHeight 1"

section \<open>Sending\<close>

text \<open>One attempt: the answers of \<^verbatim>\<open>getLatestBlockhash\<close> and \<^verbatim>\<open>sendRawTransaction\<close>, the time at which the polling starts,
  and its turns.\<close>

record attempt_obs =
  ao_blockhash :: "(jsstr \<times> int) result"
  ao_send :: "buffer \<Rightarrow> jsstr result"
  ao_start :: int
  ao_turns :: "nat \<Rightarrow> turn"

text \<open>The signatures that the node accepted, oldest first, and how the call ended; \<open>None\<close> is a call that never ends.\<close>

type_synonym send_outcome = "(jsstr list \<times> jsstr result) option"

definition send_once :: "(jsstr \<Rightarrow> buffer result) \<Rightarrow> attempt_obs \<Rightarrow> (int \<times> jsstr) result" where
  "send_once sign a =
     bindE (ao_blockhash a) (\<lambda>(blockhash, lastValidBlockHeight).
     bindE (sign blockhash) (\<lambda>signed.
     bindE (ao_send a signed) (\<lambda>signature.
     Inr (lastValidBlockHeight, signature))))"

function send_attempts :: "(jsstr \<Rightarrow> buffer result) \<Rightarrow> (nat \<Rightarrow> attempt_obs) \<Rightarrow> jsstr list \<Rightarrow> nat \<Rightarrow> send_outcome" where
  "send_attempts sign obs sent attempt =
     (case send_once sign (obs attempt) of
        Inl e \<Rightarrow> Some (sent, Inl e)
      | Inr (lastValidBlockHeight, signature) \<Rightarrow>
          (case pollSignature (ao_start (obs attempt)) (ao_turns (obs attempt)) lastValidBlockHeight of
             None \<Rightarrow> None
           | Some (Inr _) \<Rightarrow> Some (sent @ [signature], Inr signature)
           | Some (Inl e) \<Rightarrow>
               if SEND_ATTEMPTS \<le> attempt \<or> e \<noteq> BlockhashExpired then Some (sent @ [signature], Inl e)
               else send_attempts sign obs (sent @ [signature]) (attempt + 1)))"
  by pat_completeness auto

termination
  by (relation "measure (\<lambda>(_, _, _, attempt). SEND_ATTEMPTS - attempt)") auto

declare send_attempts.simps [simp del]

definition sendAndConfirmSigned :: "(jsstr \<Rightarrow> buffer result) \<Rightarrow> (nat \<Rightarrow> attempt_obs) \<Rightarrow> send_outcome" where
  "sendAndConfirmSigned sign obs = send_attempts sign obs [] 1"

section \<open>The loop as a state machine\<close>

text \<open>The loop has two kinds of states: at the head of a turn, and left with a result.\<close>

datatype poll_state = Polling nat | Ended "unit result"

inductive poll_step :: "(nat \<Rightarrow> turn) \<Rightarrow> int \<Rightarrow> int \<Rightarrow> poll_state \<Rightarrow> poll_state \<Rightarrow> bool"
  for obs deadline lastValidBlockHeight where
  Out_of_time: "deadline \<le> tn_now (obs tick) \<Longrightarrow>
    poll_step obs deadline lastValidBlockHeight (Polling tick) (Ended (Inl not_confirmed))"
| Decided: "tn_now (obs tick) < deadline \<Longrightarrow> poll_turn (obs tick) lastValidBlockHeight tick = Some r \<Longrightarrow>
    poll_step obs deadline lastValidBlockHeight (Polling tick) (Ended r)"
| Again: "tn_now (obs tick) < deadline \<Longrightarrow> poll_turn (obs tick) lastValidBlockHeight tick = None \<Longrightarrow>
    poll_step obs deadline lastValidBlockHeight (Polling tick) (Polling (tick + 1))"

inductive_simps poll_step_Polling: "poll_step obs deadline lastValidBlockHeight (Polling tick) c"
inductive_cases poll_step_EndedE [elim!]: "poll_step obs deadline lastValidBlockHeight (Ended r) c"

lemma ended_stays: "(poll_step obs d v)\<^sup>*\<^sup>* (Ended r) c \<Longrightarrow> c = Ended r"
  by (erule converse_rtranclpE) auto

lemma loop_runs:
  assumes "poll_loop obs d v tick = Some r"
  shows "(poll_step obs d v)\<^sup>*\<^sup>* (Polling tick) (Ended r)"
  using assms
proof (induction rule: poll_loop.raw_induct [rotated 1, consumes 1, case_names step])
  case (step loop obs d v tick r)
  show ?case
  proof (cases "d \<le> tn_now (obs tick)")
    case True
    then show ?thesis using step(2) by (auto intro: poll_step.Out_of_time)
  next
    case False
    show ?thesis
    proof (cases "poll_turn (obs tick) v tick")
      case None
      with False step have "(poll_step obs d v)\<^sup>*\<^sup>* (Polling (tick + 1)) (Ended r)" by simp
      moreover have "poll_step obs d v (Polling tick) (Polling (tick + 1))" using False None by (simp add: poll_step_Polling)
      ultimately show ?thesis by (rule converse_rtranclp_into_rtranclp [rotated])
    next
      case (Some x)
      with False step(2) have "poll_step obs d v (Polling tick) (Ended r)" by (simp add: poll_step_Polling)
      then show ?thesis by (rule r_into_rtranclp)
    qed
  qed
qed

lemma runs_loop:
  "(poll_step obs d v)\<^sup>*\<^sup>* c (Ended r) \<Longrightarrow> c = Polling tick \<Longrightarrow> poll_loop obs d v tick = Some r"
proof (induction arbitrary: tick rule: converse_rtranclp_induct)
  case (step c c')
  from step.hyps(1) [unfolded step.prems] show ?case
  proof (cases rule: poll_step.cases)
    case Again
    then show ?thesis using step.IH by (simp add: poll_loop.simps [of obs d v tick])
  qed (use step.hyps(2) in \<open>auto dest: ended_stays simp: poll_loop.simps [of obs d v tick]\<close>)
qed simp

theorem poll_refines_machine:
  "poll_loop obs d v tick = Some r \<longleftrightarrow> (poll_step obs d v)\<^sup>*\<^sup>* (Polling tick) (Ended r)"
  using loop_runs runs_loop by blast

section \<open>What a result means\<close>

text \<open>The node said that the transaction is confirmed.\<close>

definition confirmed_at :: "turn \<Rightarrow> bool" where
  "confirmed_at t \<longleftrightarrow> tn_notified t = Some False
     \<or> tn_notified t = None \<and> (\<exists>s. tn_status t = Inr (Some s) \<and> \<not> ss_err s
          \<and> (ss_confirmation s = Some Confirmed \<or> ss_confirmation s = Some Finalized))"

text \<open>The node said that it does not know the transaction as confirmed, and then that its blockhash is too old.\<close>

definition expired_at :: "turn \<Rightarrow> int \<Rightarrow> bool" where
  "expired_at t v \<longleftrightarrow> tn_notified t = None \<and> (\<exists>status h. tn_status t = Inr status \<and> \<not> status_done status
     \<and> tn_height t = Inr h \<and> v < h)"

lemma judge_Some:
  "judge err ready h v = Some (Inr u) \<longleftrightarrow> \<not> err \<and> ready"
  "judge err ready h v = Some (Inl BlockhashExpired) \<longleftrightarrow> \<not> err \<and> \<not> ready \<and> (\<exists>x. h = Some x \<and> v < x)"
  by (auto simp: judge_def split: option.splits)

lemma poll_turn_confirmed: "poll_turn t v k = Some (Inr u) \<Longrightarrow> confirmed_at t"
  by (auto simp: poll_turn_def judge_Some status_done_def status_err_def confirmed_at_def split: option.splits sum.splits if_splits)

lemma poll_turn_expired: "poll_turn t v k = Some (Inl BlockhashExpired) \<Longrightarrow> expired_at t v"
  by (auto simp: poll_turn_def judge_Some expired_at_def split: option.splits sum.splits if_splits)

lemma machine_result:
  "(poll_step obs d v)\<^sup>*\<^sup>* c (Ended r) \<Longrightarrow> c = Polling k \<Longrightarrow>
    r = Inl not_confirmed \<or> (\<exists>n \<ge> k. tn_now (obs n) < d \<and> poll_turn (obs n) v n = Some r)"
proof (induction arbitrary: k rule: converse_rtranclp_induct)
  case (step c c')
  from step.hyps(1) [unfolded step.prems] show ?case
  proof (cases rule: poll_step.cases)
    case Again
    with step.IH [of "k + 1"] show ?thesis by (auto dest: Suc_leD)
  qed (use step.hyps(2) in \<open>auto dest: ended_stays\<close>)
qed simp

lemma pollSignature_D:
  assumes "pollSignature start obs v = Some r"
  shows "r = Inr u \<Longrightarrow> \<exists>n. confirmed_at (obs n)" and "r = Inl BlockhashExpired \<Longrightarrow> \<exists>n. expired_at (obs n) v"
  using machine_result [OF loop_runs [OF assms [unfolded pollSignature_def]] refl] poll_turn_confirmed poll_turn_expired by blast+

section \<open>The clock ends the loop\<close>

text \<open>The timer of a turn without a notification resolves after \<open>POLL_INTERVAL_MS\<close> or later.\<close>

definition paced :: "int \<Rightarrow> (nat \<Rightarrow> turn) \<Rightarrow> bool" where
  "paced start obs \<longleftrightarrow> start \<le> tn_now (obs 1)
     \<and> (\<forall>k \<ge> 1. tn_notified (obs k) = None \<longrightarrow> tn_now (obs k) + POLL_INTERVAL_MS \<le> tn_now (obs (k + 1)))"

lemma poll_turn_notified: "tn_notified t \<noteq> None \<Longrightarrow> poll_turn t v k \<noteq> None"
  by (auto simp: poll_turn_def judge_def split: if_splits)

lemma paced_loop_ends:
  assumes "\<forall>j \<ge> k. tn_notified (obs j) = None \<longrightarrow> tn_now (obs j) + POLL_INTERVAL_MS \<le> tn_now (obs (j + 1))"
    and "d \<le> tn_now (obs k) + int m * POLL_INTERVAL_MS"
  shows "\<exists>r n. (poll_step obs d v)\<^sup>*\<^sup>* (Polling k) (Polling n) \<and> poll_step obs d v (Polling n) (Ended r) \<and> n \<le> k + m"
  using assms
proof (induction m arbitrary: k)
  case 0
  then have "poll_step obs d v (Polling k) (Ended (Inl not_confirmed))" by (simp add: poll_step_Polling)
  then show ?case by auto
next
  case (Suc m)
  show ?case
  proof (cases "d \<le> tn_now (obs k) \<or> poll_turn (obs k) v k \<noteq> None")
    case True
    then have "\<exists>r. poll_step obs d v (Polling k) (Ended r)" by (cases "d \<le> tn_now (obs k)") (auto simp: poll_step_Polling)
    then show ?thesis by force
  next
    case False
    then have again: "poll_step obs d v (Polling k) (Polling (k + 1))" by (simp add: poll_step_Polling)
    have "tn_now (obs k) + POLL_INTERVAL_MS \<le> tn_now (obs (k + 1))"
      using False Suc.prems(1) poll_turn_notified by blast
    then have "d \<le> tn_now (obs (k + 1)) + int m * POLL_INTERVAL_MS"
      using Suc.prems(2) by (simp add: POLL_INTERVAL_MS_def)
    then obtain r n where "(poll_step obs d v)\<^sup>*\<^sup>* (Polling (k + 1)) (Polling n)" "poll_step obs d v (Polling n) (Ended r)" "n \<le> k + 1 + m"
      using Suc.IH [of "k + 1"] Suc.prems(1) by auto
    with again show ?thesis by (intro exI [of _ r] exI [of _ n]) (auto intro: converse_rtranclp_into_rtranclp)
  qed
qed

lemma poll_ends:
  assumes "paced start obs"
  shows "\<exists>r n. pollSignature start obs v = Some r \<and> n \<le> 46
    \<and> (poll_step obs (start + POLL_DEADLINE_MS) v)\<^sup>*\<^sup>* (Polling 1) (Polling n)
    \<and> poll_step obs (start + POLL_DEADLINE_MS) v (Polling n) (Ended r)"
proof -
  have "start + POLL_DEADLINE_MS \<le> tn_now (obs 1) + int 45 * POLL_INTERVAL_MS"
    using assms by (simp add: paced_def POLL_DEADLINE_MS_def POLL_INTERVAL_MS_def)
  then obtain r n where r: "(poll_step obs (start + POLL_DEADLINE_MS) v)\<^sup>*\<^sup>* (Polling 1) (Polling n)"
    "poll_step obs (start + POLL_DEADLINE_MS) v (Polling n) (Ended r)" "n \<le> 1 + 45"
    using paced_loop_ends [of 1 obs "start + POLL_DEADLINE_MS" 45 v] assms by (auto simp: paced_def)
  have "pollSignature start obs v = Some r"
    unfolding pollSignature_def by (rule runs_loop [OF rtranclp.rtrancl_into_rtrancl [OF r(1,2)] refl])
  with r show ?thesis by auto
qed

section \<open>Sending again\<close>

text \<open>What the attempts have in common: each signature was accepted for a transaction signed for the blockhash of its
  attempt, and all but the last had expired.\<close>

definition attempted :: "(jsstr \<Rightarrow> buffer result) \<Rightarrow> attempt_obs \<Rightarrow> jsstr \<Rightarrow> int \<Rightarrow> bool" where
  "attempted sign a signature v \<longleftrightarrow>
     (\<exists>blockhash signed. ao_blockhash a = Inr (blockhash, v) \<and> sign blockhash = Inr signed \<and> ao_send a signed = Inr signature)"

definition expired_attempt :: "(jsstr \<Rightarrow> buffer result) \<Rightarrow> attempt_obs \<Rightarrow> jsstr \<Rightarrow> bool" where
  "expired_attempt sign a signature \<longleftrightarrow> (\<exists>v n. attempted sign a signature v \<and> expired_at (ao_turns a n) v)"

lemma send_once_Inr: "send_once sign a = Inr (v, signature) \<longleftrightarrow> attempted sign a signature v"
  by (auto simp: send_once_def attempted_def bindE_Inr_iff)

lemma send_attempts_facts:
  assumes "send_attempts sign obs sent k = Some (sent', r)" and "1 \<le> k" and "k \<le> SEND_ATTEMPTS" and "length sent = k - 1"
  shows "\<exists>new. sent' = sent @ new \<and> length sent' \<le> SEND_ATTEMPTS
    \<and> (\<forall>i. Suc i < length sent' \<longrightarrow> length sent \<le> i \<longrightarrow> expired_attempt sign (obs (i + 1)) (sent' ! i))
    \<and> (\<forall>i. i < length sent' \<longrightarrow> length sent \<le> i \<longrightarrow> (\<exists>v. attempted sign (obs (i + 1)) (sent' ! i) v))
    \<and> (\<forall>signature. r = Inr signature \<longrightarrow> new \<noteq> [] \<and> last new = signature
         \<and> (\<exists>n. confirmed_at (ao_turns (obs (length sent')) n)))"
  using assms
proof (induction sign obs sent k rule: send_attempts.induct)
  case (1 sign obs sent k)
  show ?case
  proof (cases "send_once sign (obs k)")
    case (Inl e)
    with 1(2,4,5) show ?thesis by (auto simp: send_attempts.simps [of sign obs sent k])
  next
    case (Inr p)
    obtain v sg where p: "send_once sign (obs k) = Inr (v, sg)" using Inr by (cases p) auto
    note att = p [unfolded send_once_Inr]
    have k: "k = length sent + 1" using 1(3,5) by simp
    obtain x where x: "pollSignature (ao_start (obs k)) (ao_turns (obs k)) v = Some x"
      using 1(2) p by (cases "pollSignature (ao_start (obs k)) (ao_turns (obs k)) v") (auto simp: send_attempts.simps [of sign obs sent k])
    show ?thesis
    proof (cases "x = Inl BlockhashExpired \<and> k < SEND_ATTEMPTS")
      case False
      then have r: "sent' = sent @ [sg]" "(\<exists>u. x = Inr u \<and> r = Inr sg) \<or> (\<exists>e. r = Inl e)"
        using 1(2) p x by (auto simp: send_attempts.simps [of sign obs sent k] split: sum.splits if_splits)
      then show ?thesis using 1(4) k att pollSignature_D(1) [OF x]
        by (auto simp: nth_append le_less_Suc_eq)
    next
      case True
      have next': "send_attempts sign obs (sent @ [sg]) (k + 1) = Some (sent', r)"
        using 1(2) p x True by (simp add: send_attempts.simps [of sign obs sent k])
      have e: "x = Inl BlockhashExpired" "\<not> (SEND_ATTEMPTS \<le> k \<or> BlockhashExpired \<noteq> BlockhashExpired)" using True by auto
      have b: "1 \<le> k + 1" "k + 1 \<le> SEND_ATTEMPTS" "length (sent @ [sg]) = k + 1 - 1" using True k by auto
      obtain new where new: "sent' = (sent @ [sg]) @ new" "length sent' \<le> SEND_ATTEMPTS"
        "\<forall>i. Suc i < length sent' \<longrightarrow> length (sent @ [sg]) \<le> i \<longrightarrow> expired_attempt sign (obs (i + 1)) (sent' ! i)"
        "\<forall>i. i < length sent' \<longrightarrow> length (sent @ [sg]) \<le> i \<longrightarrow> (\<exists>v. attempted sign (obs (i + 1)) (sent' ! i) v)"
        "\<forall>signature. r = Inr signature \<longrightarrow> new \<noteq> [] \<and> last new = signature \<and> (\<exists>n. confirmed_at (ao_turns (obs (length sent')) n))"
        using 1(1) [OF p refl x e next' b] by blast
      have here: "sent' ! length sent = sg" using new(1) by (simp add: nth_append)
      have "expired_attempt sign (obs (length sent + 1)) sg"
        using att pollSignature_D(2) [OF x] True by (auto simp: expired_attempt_def k)
      with new att here show ?thesis unfolding k
        by (intro exI [of _ "sg # new"]) (auto simp: Suc_le_eq order_le_less)
    qed
  qed
qed

lemma send_attempts_end:
  assumes "\<forall>i. paced (ao_start (obs i)) (ao_turns (obs i))"
  shows "send_attempts sign obs sent k \<noteq> None"
proof (induction sign obs\<equiv>obs sent k rule: send_attempts.induct)
  case (1 sign sent k)
  show ?case
  proof (cases "send_once sign (obs k)")
    case (Inr p)
    obtain v sg where p: "p = (v, sg)" by (cases p)
    obtain x where x: "pollSignature (ao_start (obs k)) (ao_turns (obs k)) v = Some x"
      using poll_ends assms by blast
    show ?thesis
    proof (cases x)
      case (Inl e)
      with 1 [OF Inr p [symmetric] x] show ?thesis by (simp add: send_attempts.simps [of sign obs sent k] Inr p x)
    qed (simp add: send_attempts.simps [of sign obs sent k] Inr p x)
  qed (simp add: send_attempts.simps [of sign obs sent k])
qed

section \<open>Examples\<close>

definition quiet_turn :: "int \<Rightarrow> int \<Rightarrow> turn" where
  "quiet_turn now height = \<lparr>tn_now = now, tn_notified = None, tn_status = Inr None, tn_height = Inr height\<rparr>"

text \<open>The node sees height 99 at the status call of the fifth turn and 101 at the height call after it; from then on
  it knows the transaction.\<close>

definition racing_turns :: "nat \<Rightarrow> turn" where
  "racing_turns k =
     (quiet_turn (2000 * (int k - 1)) (if k < 5 then 99 else 101))
       \<lparr>tn_status := Inr (if 5 < k then Some \<lparr>ss_err = False, ss_confirmation = Some Confirmed\<rparr> else None)\<rparr>"

definition notified_turns :: "nat \<Rightarrow> turn" where
  "notified_turns k = (quiet_turn (2000 * int k) 103)\<lparr>tn_notified := Some False\<rparr>"

definition racing_attempts :: "nat \<Rightarrow> attempt_obs" where
  "racing_attempts k = \<lparr>ao_blockhash = Inr (js (if k = 1 then ''h1'' else ''h2''), if k = 1 then 100 else 250),
     ao_send = (\<lambda>_. Inr (js (if k = 1 then ''s1'' else ''s2''))), ao_start = 0,
     ao_turns = (if k = 1 then racing_turns else notified_turns)\<rparr>"

lemma racing_poll: "pollSignature 0 racing_turns 100 = Some (Inl BlockhashExpired)"
  by (simp add: pollSignature_def POLL_DEADLINE_MS_def poll_loop.simps [of racing_turns] poll_turn_def racing_turns_def quiet_turn_def
      status_done_def status_err_def judge_def)

lemma racing_send: "sendAndConfirmSigned (\<lambda>h. Inr []) racing_attempts = Some ([js ''s1'', js ''s2''], Inr (js ''s2''))"
proof -
  have "pollSignature 0 notified_turns 250 = Some (Inr ())"
    by (simp add: pollSignature_def POLL_DEADLINE_MS_def poll_loop.simps [of notified_turns] poll_turn_def notified_turns_def
        quiet_turn_def judge_def)
  then show ?thesis
    by (simp add: sendAndConfirmSigned_def send_attempts.simps send_once_def racing_attempts_def racing_poll SEND_ATTEMPTS_def)
qed

lemma racing_paced: "paced (ao_start (racing_attempts i)) (ao_turns (racing_attempts i))"
  by (simp add: paced_def racing_attempts_def racing_turns_def notified_turns_def quiet_turn_def POLL_INTERVAL_MS_def)

section \<open>The properties\<close>

text \<open>C37: sending submits at most three transactions, each signed for the blockhash of its attempt; a transaction is
  only replaced after the node reported it unconfirmed and its blockhash as too old; and the signature that is
  returned is the last one submitted, which the node has confirmed.\<close>

theorem send_replaces_expired_only:
  assumes "sendAndConfirmSigned sign obs = Some (sent, r)"
  shows "length sent \<le> 3
    \<and> (\<forall>i < length sent. \<exists>v. attempted sign (obs (i + 1)) (sent ! i) v)
    \<and> (\<forall>i. i + 1 < length sent \<longrightarrow> expired_attempt sign (obs (i + 1)) (sent ! i))
    \<and> (\<forall>signature. r = Inr signature \<longrightarrow>
         sent \<noteq> [] \<and> last sent = signature \<and> (\<exists>n. confirmed_at (ao_turns (obs (length sent)) n)))"
  using send_attempts_facts [OF assms [unfolded sendAndConfirmSigned_def]] by (auto simp: SEND_ATTEMPTS_def)

lemma send_replaces_expired_only_witness:
  "expired_attempt (\<lambda>h. Inr []) (racing_attempts 1) (js ''s1'') \<and> (\<exists>n. confirmed_at (ao_turns (racing_attempts 2) n))"
  using send_replaces_expired_only [OF racing_send] by (auto simp: numeral_2_eq_2)

text \<open>C38: on a clock that respects its timers, sending ends, whatever the node answers: each polling loop takes at most
  46 turns, and at most three attempts are made.\<close>

theorem send_ends:
  assumes "\<forall>i. paced (ao_start (obs i)) (ao_turns (obs i))"
  shows "(\<exists>sent r. sendAndConfirmSigned sign obs = Some (sent, r))
    \<and> (\<forall>i v. \<exists>r n. pollSignature (ao_start (obs i)) (ao_turns (obs i)) v = Some r \<and> n \<le> 46
         \<and> (poll_step (ao_turns (obs i)) (ao_start (obs i) + POLL_DEADLINE_MS) v)\<^sup>*\<^sup>* (Polling 1) (Polling n)
         \<and> poll_step (ao_turns (obs i)) (ao_start (obs i) + POLL_DEADLINE_MS) v (Polling n) (Ended r))"
  using send_attempts_end [OF assms] poll_ends assms by (auto simp: sendAndConfirmSigned_def)

lemma send_ends_witness: "\<exists>sent r. sendAndConfirmSigned (\<lambda>h. Inr []) racing_attempts = Some (sent, r)"
  using send_ends [of racing_attempts "\<lambda>h. Inr []"] racing_paced by blast

text \<open>What a node answers about a transaction that landed in the block of height \<open>landed\<close>, when its chain has height
  \<open>at_status k\<close> at the status call of turn \<open>k\<close> and \<open>at_height k\<close> at the height call after it.\<close>

definition lands_at :: "(nat \<Rightarrow> turn) \<Rightarrow> int \<Rightarrow> (nat \<Rightarrow> int) \<Rightarrow> (nat \<Rightarrow> int) \<Rightarrow> bool" where
  "lands_at turns landed at_status at_height \<longleftrightarrow>
     (\<forall>k. at_status k \<le> at_height k \<and> at_height k \<le> at_status (k + 1)
        \<and> (tn_notified (turns k) = None \<longrightarrow> tn_height (turns k) = Inr (at_height k)
             \<and> tn_status (turns k) = Inr (if landed \<le> at_status k then Some \<lparr>ss_err = False, ss_confirmation = Some Confirmed\<rparr> else None)))"

text \<open>A transaction that landed in time is given up as expired only when, within one turn, the chain passes both
  the block it landed in and its last valid height between the status call and the height call. This
  happens: in the witness the first transaction lands, and a second one is signed and sent for it.\<close>

theorem expiry_of_landed:
  assumes "lands_at turns landed at_status at_height" and "landed \<le> v" and "pollSignature start turns v = Some (Inl BlockhashExpired)"
  shows "\<exists>k. at_status k < landed \<and> landed \<le> v \<and> v < at_height k"
proof -
  obtain n where n: "expired_at (turns n) v" using pollSignature_D(2) [OF assms(3)] by blast
  then have "tn_height (turns n) = Inr (at_height n)"
    "tn_status (turns n) = Inr (if landed \<le> at_status n then Some \<lparr>ss_err = False, ss_confirmation = Some Confirmed\<rparr> else None)"
    using assms(1) by (simp_all add: lands_at_def expired_at_def)
  with n have "at_status n < landed \<and> v < at_height n"
    by (auto simp: expired_at_def status_done_def split: if_splits)
  with assms(2) show ?thesis by blast
qed

lemma expiry_of_landed_witness:
  "(\<exists>k. (if k \<le> 5 then 99 else 101 :: int) < 100 \<and> (100 :: int) < (if k < (5 :: nat) then 99 else 101))
    \<and> sendAndConfirmSigned (\<lambda>h. Inr []) racing_attempts = Some ([js ''s1'', js ''s2''], Inr (js ''s2''))"
proof -
  have "lands_at racing_turns 100 (\<lambda>k. if k \<le> 5 then 99 else 101) (\<lambda>k. if k < 5 then 99 else 101)"
    by (simp add: lands_at_def racing_turns_def quiet_turn_def)
  from expiry_of_landed [OF this _ racing_poll] racing_send show ?thesis by auto
qed

end
