(* ===== verification/Sortition.thy ===== *)
theory Sortition
  imports Chain Confirm
begin

text \<open>
  Sortition by claim, \<^verbatim>\<open>sdk/sortition.ts\<close>: tickets that win when a hash is below a threshold, the thresholds of
  probabilities, the eight instructions of the protocol, and the four calls that send one. From outside come, in
  \<open>sortition_world\<close>, the addresses of two system programs, the interface description of the program (its
  instructions with their discriminators) and, as in \<open>Confirm\<close>, the signer and the node. A \<^verbatim>\<open>Buffer | Uint8Array | number[]\<close>
  is an \<open>int list\<close>, numbers being integers; a \<^verbatim>\<open>PublicKey | string\<close> is a \<open>key_arg\<close>.
\<close>

section \<open>Outside\<close>

record sortition_world = world +
  so_systemProgram :: buffer
  so_slotHashes :: buffer
  so_idl :: "(string \<times> int list option) list option"

datatype key_arg = Key buffer | Key_text jsstr

datatype amount = Amount_bigint int | Amount_number js_number

definition discriminatorFor :: "sortition_world \<Rightarrow> string \<Rightarrow> buffer result" where
  "discriminatorFor w name =
     (case so_idl w of None \<Rightarrow> Inl (Error ''Unable to locate outcome IDL'')
      | Some instructions \<Rightarrow>
         (case find (\<lambda>entry. fst entry = name) instructions of
            Some (_, Some discriminator) \<Rightarrow> Inr (map word_of_int discriminator)
          | _ \<Rightarrow> Inl (Error ''Outcome IDL is missing discriminator'')))"

section \<open>Byte helpers\<close>

definition toBuf :: "int list \<Rightarrow> nat \<Rightarrow> buffer result" where
  "toBuf value expectedLen =
     (let buf = map word_of_int value in
      throwIf (length buf \<noteq> expectedLen) (Error ''must have the expected number of bytes'') (Inr buf))"

definition u64le_of :: "amount \<Rightarrow> buffer result" where
  "u64le_of value =
     bindE (case value of Amount_bigint n \<Rightarrow> Inr n | Amount_number (NInt n) \<Rightarrow> Inr n
            | Amount_number NFrac \<Rightarrow> Inl (RangeError ''The number cannot be converted to a BigInt'')) u64le"

section \<open>Addresses\<close>

definition deriveSortitionDrawPda :: "sortition_world \<Rightarrow> buffer \<Rightarrow> buffer \<Rightarrow> buffer result" where
  "deriveSortitionDrawPda w programId drawId = w_programAddress w [utf8_encode (js ''sortition_draw''), drawId] programId"

definition deriveSortitionTicketPda :: "sortition_world \<Rightarrow> buffer \<Rightarrow> buffer \<Rightarrow> buffer \<Rightarrow> buffer result" where
  "deriveSortitionTicketPda w programId drawId ticketId =
     w_programAddress w [utf8_encode (js ''sortition_ticket''), drawId, ticketId] programId"

definition sortitionConfigPda :: "sortition_world \<Rightarrow> buffer \<Rightarrow> buffer result" where
  "sortitionConfigPda w programId = w_programAddress w [utf8_encode (js ''outcome_program_config'')] programId"

section \<open>Tickets\<close>

definition sortitionCommitment :: "buffer \<Rightarrow> buffer \<Rightarrow> buffer \<Rightarrow> buffer" where
  "sortitionCommitment secret ticketId drawId = sha256 (secret @ ticketId @ drawId)"

text \<open>\<^verbatim>\<open>a[i] < b[i]\<close>, which is false when an index is out of range.\<close>

definition js_less :: "buffer \<Rightarrow> buffer \<Rightarrow> nat \<Rightarrow> bool" where
  "js_less a b i \<longleftrightarrow> i < length a \<and> i < length b \<and> a ! i < b ! i"

fun wins_loop :: "buffer \<Rightarrow> buffer \<Rightarrow> nat list \<Rightarrow> bool" where
  "wins_loop digest limit [] = False"
| "wins_loop digest limit (i # rest) =
     (if js_less digest limit i then True
      else if js_less limit digest i then False
      else wins_loop digest limit rest)"

definition sortitionWins :: "buffer \<Rightarrow> buffer \<Rightarrow> buffer \<Rightarrow> bool" where
  "sortitionWins secret omega limit = wins_loop (sha256 (secret @ omega)) limit [0..<32]"

definition threshold_step :: "buffer \<times> int \<Rightarrow> nat \<Rightarrow> buffer \<times> int" where
  "threshold_step s i = (case s of (out, cursor) \<Rightarrow> (out[i := word_of_int (and cursor 255)], cursor div 256))"

definition sortitionThresholdFromProbability :: "int \<Rightarrow> int \<Rightarrow> buffer result" where
  "sortitionThresholdFromProbability numerator denominator =
     throwIf (denominator \<le> 0) (Error ''denominator must be positive'')
       (let n = 2 ^ 256 * numerator; value = sgn n * (\<bar>n\<bar> div denominator) in
        Inr (fst (foldl threshold_step (zeros 32, value) (rev [0..<32]))))"

section \<open>Instructions\<close>

record account_meta =
  am_pubkey :: buffer
  am_isSigner :: bool
  am_isWritable :: bool

record instruction =
  ix_programId :: buffer
  ix_keys :: "account_meta list"
  ix_data :: buffer

definition meta :: "buffer \<Rightarrow> bool \<Rightarrow> bool \<Rightarrow> account_meta" where
  "meta pubkey signer writable = \<lparr>am_pubkey = pubkey, am_isSigner = signer, am_isWritable = writable\<rparr>"

definition asPublicKey :: "sortition_world \<Rightarrow> key_arg \<Rightarrow> buffer result" where
  "asPublicKey w value = (case value of Key k \<Rightarrow> Inr k | Key_text s \<Rightarrow> w_publicKey w s)"

definition SORTITION_PROGRAM_ID :: jsstr where
  "SORTITION_PROGRAM_ID = js ''6QtLot4uztCfjUuPreoiYPc3e1gH2fg6pq8hKYyvCP6B''"

definition programId_of :: "sortition_world \<Rightarrow> key_arg option \<Rightarrow> buffer result" where
  "programId_of w programId = asPublicKey w (case programId of None \<Rightarrow> Key_text SORTITION_PROGRAM_ID | Some k \<Rightarrow> k)"

definition instruction_of :: "sortition_world \<Rightarrow> buffer \<Rightarrow> string \<Rightarrow> buffer \<Rightarrow> account_meta list \<Rightarrow> instruction result" where
  "instruction_of w programId name argsData keys =
     bindE (discriminatorFor w name) (\<lambda>d. Inr \<lparr>ix_programId = programId, ix_keys = keys, ix_data = d @ argsData\<rparr>)"

record create_draw_params =
  cd_programId :: "key_arg option"
  cd_authority :: key_arg
  cd_drawId :: "int list"
  cd_threshold :: "int list"
  cd_registrationDurationSlots :: amount
  cd_claimDurationSlots :: amount
  cd_unclaimedRule :: "int option"

definition buildCreateSortitionDrawInstruction :: "sortition_world \<Rightarrow> create_draw_params \<Rightarrow> instruction result" where
  "buildCreateSortitionDrawInstruction w params =
     bindE (programId_of w (cd_programId params)) (\<lambda>programId.
     bindE (asPublicKey w (cd_authority params)) (\<lambda>authority.
     bindE (toBuf (cd_drawId params) 16) (\<lambda>drawId.
     bindE (toBuf (cd_threshold params) 32) (\<lambda>limit.
     bindE (u64le_of (cd_registrationDurationSlots params)) (\<lambda>registration.
     bindE (u64le_of (cd_claimDurationSlots params)) (\<lambda>claim.
     bindE (deriveSortitionDrawPda w programId drawId) (\<lambda>drawPda.
     instruction_of w programId ''create_sortition_draw''
       (drawId @ limit @ registration @ claim @ byte_of (case cd_unclaimedRule params of None \<Rightarrow> 0 | Some r \<Rightarrow> r))
       [meta authority True True, meta drawPda False True, meta (so_systemProgram w) False False])))))))"

record ticket_params =
  tp_programId :: "key_arg option"
  tp_participant :: key_arg
  tp_drawId :: "int list"
  tp_ticketId :: "int list"

record register_params = ticket_params +
  tp_commitment :: "int list"

record register_paid_params = register_params +
  tp_treasury :: key_arg

record claim_params = ticket_params +
  tp_secret :: "int list"

definition buildRegisterSortitionTicketInstruction :: "sortition_world \<Rightarrow> register_params \<Rightarrow> instruction result" where
  "buildRegisterSortitionTicketInstruction w params =
     bindE (programId_of w (tp_programId params)) (\<lambda>programId.
     bindE (asPublicKey w (tp_participant params)) (\<lambda>participant.
     bindE (toBuf (tp_drawId params) 16) (\<lambda>drawId.
     bindE (toBuf (tp_ticketId params) 16) (\<lambda>ticketId.
     bindE (toBuf (tp_commitment params) 32) (\<lambda>commitment.
     bindE (deriveSortitionDrawPda w programId drawId) (\<lambda>drawPda.
     bindE (deriveSortitionTicketPda w programId drawId ticketId) (\<lambda>ticketPda.
     instruction_of w programId ''register_sortition_ticket'' (drawId @ ticketId @ commitment)
       [meta participant True True, meta drawPda False True, meta ticketPda False True,
        meta (so_systemProgram w) False False])))))))"

definition buildRegisterSortitionTicketPaidInstruction :: "sortition_world \<Rightarrow> register_paid_params \<Rightarrow> instruction result" where
  "buildRegisterSortitionTicketPaidInstruction w params =
     bindE (programId_of w (tp_programId params)) (\<lambda>programId.
     bindE (asPublicKey w (tp_participant params)) (\<lambda>participant.
     bindE (asPublicKey w (tp_treasury params)) (\<lambda>treasury.
     bindE (toBuf (tp_drawId params) 16) (\<lambda>drawId.
     bindE (toBuf (tp_ticketId params) 16) (\<lambda>ticketId.
     bindE (toBuf (tp_commitment params) 32) (\<lambda>commitment.
     bindE (deriveSortitionDrawPda w programId drawId) (\<lambda>drawPda.
     bindE (deriveSortitionTicketPda w programId drawId ticketId) (\<lambda>ticketPda.
     bindE (sortitionConfigPda w programId) (\<lambda>configPda.
     instruction_of w programId ''register_sortition_ticket_paid'' (drawId @ ticketId @ commitment)
       [meta participant True True, meta drawPda False True, meta ticketPda False True, meta configPda False False,
        meta treasury False True, meta (so_systemProgram w) False False])))))))))"

record seal_params =
  sl_programId :: "key_arg option"
  sl_sealer :: key_arg
  sl_drawId :: "int list"

definition buildSealSortitionDrawInstruction :: "sortition_world \<Rightarrow> seal_params \<Rightarrow> instruction result" where
  "buildSealSortitionDrawInstruction w params =
     bindE (programId_of w (sl_programId params)) (\<lambda>programId.
     bindE (asPublicKey w (sl_sealer params)) (\<lambda>sealer.
     bindE (toBuf (sl_drawId params) 16) (\<lambda>drawId.
     bindE (deriveSortitionDrawPda w programId drawId) (\<lambda>drawPda.
     instruction_of w programId ''seal_sortition_draw'' drawId
       [meta sealer True True, meta drawPda False True, meta (so_slotHashes w) False False]))))"

definition buildClaimSortitionTicketInstruction :: "sortition_world \<Rightarrow> claim_params \<Rightarrow> instruction result" where
  "buildClaimSortitionTicketInstruction w params =
     bindE (programId_of w (tp_programId params)) (\<lambda>programId.
     bindE (asPublicKey w (tp_participant params)) (\<lambda>participant.
     bindE (toBuf (tp_drawId params) 16) (\<lambda>drawId.
     bindE (toBuf (tp_ticketId params) 16) (\<lambda>ticketId.
     bindE (toBuf (tp_secret params) 32) (\<lambda>secret.
     bindE (deriveSortitionDrawPda w programId drawId) (\<lambda>drawPda.
     bindE (deriveSortitionTicketPda w programId drawId ticketId) (\<lambda>ticketPda.
     instruction_of w programId ''claim_sortition_ticket'' (drawId @ ticketId @ secret)
       [meta participant True True, meta drawPda False True, meta ticketPda False True])))))))"

record sweep_params =
  sw_programId :: "key_arg option"
  sw_caller :: key_arg
  sw_treasury :: key_arg
  sw_drawId :: "int list"

record close_params = sweep_params +
  sw_owner :: key_arg
  sw_ticketId :: "int list"

definition buildCloseSortitionTicketInstruction :: "sortition_world \<Rightarrow> close_params \<Rightarrow> instruction result" where
  "buildCloseSortitionTicketInstruction w params =
     bindE (programId_of w (sw_programId params)) (\<lambda>programId.
     bindE (asPublicKey w (sw_caller params)) (\<lambda>caller.
     bindE (asPublicKey w (sw_owner params)) (\<lambda>owner.
     bindE (asPublicKey w (sw_treasury params)) (\<lambda>treasury.
     bindE (toBuf (sw_drawId params) 16) (\<lambda>drawId.
     bindE (toBuf (sw_ticketId params) 16) (\<lambda>ticketId.
     bindE (deriveSortitionDrawPda w programId drawId) (\<lambda>drawPda.
     bindE (deriveSortitionTicketPda w programId drawId ticketId) (\<lambda>ticketPda.
     bindE (sortitionConfigPda w programId) (\<lambda>configPda.
     instruction_of w programId ''close_sortition_ticket'' (drawId @ ticketId)
       [meta caller True True, meta drawPda False False, meta ticketPda False True, meta owner False True,
        meta configPda False False, meta treasury False True])))))))))"

definition buildSweepSortitionTicketsInstruction :: "sortition_world \<Rightarrow> sweep_params \<Rightarrow> instruction result" where
  "buildSweepSortitionTicketsInstruction w params =
     bindE (programId_of w (sw_programId params)) (\<lambda>programId.
     bindE (asPublicKey w (sw_caller params)) (\<lambda>caller.
     bindE (asPublicKey w (sw_treasury params)) (\<lambda>treasury.
     bindE (toBuf (sw_drawId params) 16) (\<lambda>drawId.
     bindE (deriveSortitionDrawPda w programId drawId) (\<lambda>drawPda.
     bindE (sortitionConfigPda w programId) (\<lambda>configPda.
     instruction_of w programId ''sweep_sortition_tickets'' drawId
       [meta caller True True, meta drawPda False False, meta configPda False False, meta treasury False True]))))))"

record economics_params =
  ec_programId :: "key_arg option"
  ec_authority :: key_arg
  ec_drawId :: "int list"
  ec_feeMode :: int
  ec_entryFeeLamports :: amount
  ec_closeSkimBps :: int

definition buildInitSortitionEconomicsInstruction :: "sortition_world \<Rightarrow> economics_params \<Rightarrow> instruction result" where
  "buildInitSortitionEconomicsInstruction w params =
     bindE (programId_of w (ec_programId params)) (\<lambda>programId.
     bindE (asPublicKey w (ec_authority params)) (\<lambda>authority.
     bindE (toBuf (ec_drawId params) 16) (\<lambda>drawId.
     bindE (u64le_of (ec_entryFeeLamports params)) (\<lambda>fee.
     bindE (u16le (ec_closeSkimBps params)) (\<lambda>skim.
     bindE (deriveSortitionDrawPda w programId drawId) (\<lambda>drawPda.
     instruction_of w programId ''init_sortition_economics''
       (drawId @ byte_of (and (ec_feeMode params) 255) @ fee @ skim)
       [meta authority True False, meta drawPda False True]))))))"

section \<open>Calls\<close>

text \<open>A client has the program, the key of the payer, and signs the transaction of an instruction for a blockhash.\<close>

record sortition_client =
  sc_programId :: buffer
  sc_payer :: buffer
  sc_sign :: "instruction \<Rightarrow> jsstr \<Rightarrow> buffer result"

record inline_result =
  il_signature :: jsstr
  il_pda :: "jsstr option"

type_synonym inline_outcome = "(jsstr list \<times> inline_result result) option"

definition sendInstruction :: "sortition_client \<Rightarrow> (nat \<Rightarrow> attempt_obs) \<Rightarrow> instruction \<Rightarrow> send_outcome" where
  "sendInstruction client obs ix = sendAndConfirmSigned (sc_sign client ix) obs"

definition inline_call ::
  "sortition_client \<Rightarrow> (nat \<Rightarrow> attempt_obs) \<Rightarrow> instruction result \<Rightarrow> (jsstr \<Rightarrow> inline_result result) \<Rightarrow> inline_outcome" where
  "inline_call client obs ix finish =
     (case ix of Inl e \<Rightarrow> Some ([], Inl e)
      | Inr i \<Rightarrow> map_option (\<lambda>(sent, r). (sent, bindE r finish)) (sendInstruction client obs i))"

definition with_pda :: "sortition_world \<Rightarrow> buffer result \<Rightarrow> jsstr \<Rightarrow> inline_result result" where
  "with_pda w pda signature = bindE pda (\<lambda>k. Inr \<lparr>il_signature = signature, il_pda = Some (w_base58 w k)\<rparr>)"

definition signature_only :: "jsstr \<Rightarrow> inline_result result" where
  "signature_only signature = Inr \<lparr>il_signature = signature, il_pda = None\<rparr>"

definition sortitionCreateDrawInline ::
  "sortition_world \<Rightarrow> sortition_client \<Rightarrow> (nat \<Rightarrow> attempt_obs) \<Rightarrow> create_draw_params \<Rightarrow> inline_outcome" where
  "sortitionCreateDrawInline w client obs params =
     (case toBuf (cd_drawId params) 16 of Inl e \<Rightarrow> Some ([], Inl e)
      | Inr drawId \<Rightarrow>
          inline_call client obs
            (buildCreateSortitionDrawInstruction w
               (params\<lparr>cd_programId := Some (Key (sc_programId client)), cd_authority := Key (sc_payer client)\<rparr>))
            (with_pda w (deriveSortitionDrawPda w (sc_programId client) drawId)))"

definition sortitionRegisterTicketInline ::
  "sortition_world \<Rightarrow> sortition_client \<Rightarrow> (nat \<Rightarrow> attempt_obs) \<Rightarrow> register_params \<Rightarrow> inline_outcome" where
  "sortitionRegisterTicketInline w client obs params =
     (case bindE (toBuf (tp_drawId params) 16) (\<lambda>d. bindE (toBuf (tp_ticketId params) 16) (\<lambda>t. Inr (d, t))) of
        Inl e \<Rightarrow> Some ([], Inl e)
      | Inr (drawId, ticketId) \<Rightarrow>
          inline_call client obs
            (buildRegisterSortitionTicketInstruction w
               (params\<lparr>tp_programId := Some (Key (sc_programId client)), tp_participant := Key (sc_payer client)\<rparr>))
            (with_pda w (deriveSortitionTicketPda w (sc_programId client) drawId ticketId)))"

definition sortitionSealDrawInline ::
  "sortition_world \<Rightarrow> sortition_client \<Rightarrow> (nat \<Rightarrow> attempt_obs) \<Rightarrow> seal_params \<Rightarrow> inline_outcome" where
  "sortitionSealDrawInline w client obs params =
     inline_call client obs
       (buildSealSortitionDrawInstruction w
          (params\<lparr>sl_programId := Some (Key (sc_programId client)), sl_sealer := Key (sc_payer client)\<rparr>))
       signature_only"

definition sortitionClaimTicketInline ::
  "sortition_world \<Rightarrow> sortition_client \<Rightarrow> (nat \<Rightarrow> attempt_obs) \<Rightarrow> claim_params \<Rightarrow> inline_outcome" where
  "sortitionClaimTicketInline w client obs params =
     inline_call client obs
       (buildClaimSortitionTicketInstruction w
          (params\<lparr>tp_programId := Some (Key (sc_programId client)), tp_participant := Key (sc_payer client)\<rparr>))
       signature_only"

end
