(* ===== verification/Sortition_Claims.thy ===== *)
theory Sortition_Claims
  imports Sortition
begin

text \<open>
  What the sortition builders promise: a threshold stands for a probability, except for certainty; an instruction names
  the draw whose account it touches and asks for one signature; arguments of a wrong size never reach the network.
\<close>

section \<open>Big-endian comparison\<close>

definition be_uint :: "buffer \<Rightarrow> int" where
  "be_uint bs = le_uint (rev bs)"

lemma le_uint_append: "le_uint (xs @ ys) = le_uint xs + 256 ^ length xs * le_uint ys"
  by (induction xs) (simp_all add: algebra_simps)

lemma be_uint_Cons: "be_uint (b # bs) = uint b * 256 ^ length bs + be_uint bs"
  by (simp add: be_uint_def le_uint_append)

lemma be_uint_bound: "0 \<le> be_uint bs" "be_uint bs < 256 ^ length bs"
  using le_uint_bound [of "rev bs"] by (simp_all add: be_uint_def)

lemma be_uint_less_Cons:
  assumes "length xs = length ys"
  shows "be_uint (a # xs) < be_uint (b # ys) \<longleftrightarrow> a < b \<or> a = b \<and> be_uint xs < be_uint ys"
proof -
  have below: "uint c * 256 ^ length xs + be_uint us < uint d * 256 ^ length xs + be_uint vs"
    if "uint c < uint d" "length us = length xs" for c d :: byte and us vs
  proof -
    have "(uint c + 1) * 256 ^ length xs \<le> uint d * 256 ^ length xs" using that(1) by (intro mult_right_mono) simp_all
    then show ?thesis using be_uint_bound(2) [of us] be_uint_bound(1) [of vs] that(2) by (simp add: algebra_simps)
  qed
  show ?thesis
  proof (cases "uint a" "uint b" rule: linorder_cases)
    case less
    with below [of a b xs ys] assms show ?thesis by (simp add: be_uint_Cons word_less_def)
  next
    case equal
    then have "a = b" by (simp add: word_uint_eq_iff)
    with assms show ?thesis by (simp add: be_uint_Cons)
  next
    case greater
    with below [of b a ys xs] assms show ?thesis by (auto simp: be_uint_Cons word_less_def)
  qed
qed

lemma wins_loop_drop:
  assumes "length d = length t"
  shows "k \<le> length d \<Longrightarrow> wins_loop d t [k..<length d] \<longleftrightarrow> be_uint (drop k d) < be_uint (drop k t)"
proof (induction "length d - k" arbitrary: k)
  case 0
  then show ?case using assms by simp
next
  case (Suc m)
  then have k: "k < length d" by simp
  have "drop k d = d ! k # drop (Suc k) d" "drop k t = t ! k # drop (Suc k) t"
    using k assms by (simp_all add: Cons_nth_drop_Suc)
  moreover have "[k..<length d] = k # [Suc k..<length d]" using k by (rule upt_conv_Cons)
  moreover have "wins_loop d t [Suc k..<length d] \<longleftrightarrow> be_uint (drop (Suc k) d) < be_uint (drop (Suc k) t)"
    using Suc by (intro Suc.hyps(1)) auto
  ultimately show ?case using k assms by (auto simp: js_less_def be_uint_less_Cons)
qed

lemma wins_iff:
  assumes "length t = 32"
  shows "sortitionWins secret omega t \<longleftrightarrow> be_uint (sha256 (secret @ omega)) < be_uint t"
  using wins_loop_drop [of "sha256 (secret @ omega)" t 0] assms by (simp add: sortitionWins_def length_sha256)

section \<open>Thresholds\<close>

lemma threshold_bytes:
  assumes "n \<le> length out"
  shows "foldl threshold_step (out, v) (rev [0..<n]) = (rev (le_bytes n v) @ drop n out, v div 256 ^ n)"
  using assms
proof (induction n arbitrary: out v)
  case (Suc n)
  have "and v 255 = v mod 256" using take_bit_eq_mask [of 8 v] by (simp add: take_bit_eq_mod mask_eq_exp_minus_1)
  then have "(word_of_int (and v 255) :: byte) = word_of_int v"
    by (simp add: word_of_int_eq_iff take_bit_eq_mod)
  then have step: "threshold_step (out, v) n = (out[n := word_of_int v], v div 256)" by (simp add: threshold_step_def)
  have "drop n (out[n := word_of_int v]) = word_of_int v # drop (Suc n) out"
    using Suc.prems by (simp add: Cons_nth_drop_Suc [symmetric])
  then show ?case using Suc.IH [of "out[n := word_of_int v]" "v div 256"] Suc.prems
    by (simp add: step zdiv_zmult2_eq)
qed simp

lemma threshold_value:
  assumes "0 < d" and "0 \<le> n"
  shows "\<exists>t. sortitionThresholdFromProbability n d = Inr t \<and> length t = 32 \<and> be_uint t = 2 ^ 256 * n div d mod 2 ^ 256"
proof -
  have pos: "sgn m * (\<bar>m\<bar> div d) = m div d" if "0 \<le> m" for m :: int
    using that by (cases "m = 0") simp_all
  have "sgn (2 ^ 256 * n) * (\<bar>2 ^ 256 * n\<bar> div d) = 2 ^ 256 * n div d"
    using assms(2) by (intro pos) simp
  moreover have "fst (foldl threshold_step (zeros 32, v) (rev [0..<32])) = rev (le_bytes 32 v)" for v
    using threshold_bytes [of 32 "zeros 32" v] by simp
  ultimately have "sortitionThresholdFromProbability n d = Inr (rev (le_bytes 32 (2 ^ 256 * n div d)))"
    using assms(1) unfolding sortitionThresholdFromProbability_def Let_def by (simp only: throwIf_def) (simp only: not_le if_not_P)
  then show ?thesis by (simp add: be_uint_def le_uint_le_bytes_mod)
qed

lemma quotient_less:
  assumes "n < d" and "0 < d" and "0 < (p :: int)"
  shows "p * n div d < p"
proof -
  have "p * n div d * d + p * n mod d = p * n" by (rule div_mult_mod_eq)
  then have "p * n div d * d \<le> p * n" using pos_mod_sign [OF assms(2), of "p * n"] by linarith
  also have "p * n < p * d" using assms by simp
  finally show ?thesis using assms(2) by simp
qed

section \<open>Instructions\<close>

datatype sortition_request =
    Create create_draw_params | Register register_params | Register_paid register_paid_params | Seal seal_params
  | Claim claim_params | Close close_params | Sweep sweep_params | Economics economics_params

fun build :: "sortition_world \<Rightarrow> sortition_request \<Rightarrow> instruction result" where
  "build w (Create p) = buildCreateSortitionDrawInstruction w p"
| "build w (Register p) = buildRegisterSortitionTicketInstruction w p"
| "build w (Register_paid p) = buildRegisterSortitionTicketPaidInstruction w p"
| "build w (Seal p) = buildSealSortitionDrawInstruction w p"
| "build w (Claim p) = buildClaimSortitionTicketInstruction w p"
| "build w (Close p) = buildCloseSortitionTicketInstruction w p"
| "build w (Sweep p) = buildSweepSortitionTicketsInstruction w p"
| "build w (Economics p) = buildInitSortitionEconomicsInstruction w p"

text \<open>The name, the size of the arguments, whether they go on with a ticket, and how many accounts there are.\<close>

fun shape :: "sortition_request \<Rightarrow> string \<times> nat \<times> bool \<times> nat" where
  "shape (Create _) = (''create_sortition_draw'', 65, False, 3)"
| "shape (Register _) = (''register_sortition_ticket'', 64, True, 4)"
| "shape (Register_paid _) = (''register_sortition_ticket_paid'', 64, True, 6)"
| "shape (Seal _) = (''seal_sortition_draw'', 16, False, 3)"
| "shape (Claim _) = (''claim_sortition_ticket'', 64, True, 3)"
| "shape (Close _) = (''close_sortition_ticket'', 32, True, 6)"
| "shape (Sweep _) = (''sweep_sortition_tickets'', 16, False, 4)"
| "shape (Economics _) = (''init_sortition_economics'', 27, False, 2)"

definition well_typed :: "sortition_world \<Rightarrow> string \<times> nat \<times> bool \<times> nat \<Rightarrow> instruction \<Rightarrow> bool" where
  "well_typed w s ix \<longleftrightarrow>
     (case s of (name, size', ticket, accounts) \<Rightarrow>
        \<exists>d args. discriminatorFor w name = Inr d \<and> ix_data ix = d @ args \<and> length args = size' \<and> length (ix_keys ix) = accounts
          \<and> am_isSigner (ix_keys ix ! 0) \<and> list_all (\<lambda>k. \<not> am_isSigner k) (tl (ix_keys ix))
          \<and> deriveSortitionDrawPda w (ix_programId ix) (take 16 args) = Inr (am_pubkey (ix_keys ix ! 1))
          \<and> (ticket \<longrightarrow> deriveSortitionTicketPda w (ix_programId ix) (take 16 args) (take 16 (drop 16 args))
               = Inr (am_pubkey (ix_keys ix ! 2))))"

lemma toBuf_Inr_iff: "toBuf v n = Inr b \<longleftrightarrow> length v = n \<and> b = map word_of_int v"
  by (auto simp: toBuf_def throwIf_Inr_iff Let_def)

lemma u64le_of_length: "u64le_of a = Inr b \<Longrightarrow> length b = 8"
  by (auto simp: u64le_of_def bindE_Inr_iff u64le_Inr_iff)

lemma instruction_of_Inr_iff:
  "instruction_of w programId name args keys = Inr ix \<longleftrightarrow>
    (\<exists>d. discriminatorFor w name = Inr d \<and> ix = \<lparr>ix_programId = programId, ix_keys = keys, ix_data = d @ args\<rparr>)"
  by (auto simp: instruction_of_def bindE_Inr_iff)

lemmas build_defs = buildCreateSortitionDrawInstruction_def buildRegisterSortitionTicketInstruction_def
  buildRegisterSortitionTicketPaidInstruction_def buildSealSortitionDrawInstruction_def buildClaimSortitionTicketInstruction_def
  buildCloseSortitionTicketInstruction_def buildSweepSortitionTicketsInstruction_def buildInitSortitionEconomicsInstruction_def

lemma build_typed: "build w r = Inr ix \<Longrightarrow> well_typed w (shape r) ix"
  by (cases r)
    (auto simp: build_defs well_typed_def bindE_Inr_iff toBuf_Inr_iff instruction_of_Inr_iff meta_def u16le_Inr_iff
      dest!: u64le_of_length)

section \<open>Calls\<close>

text \<open>The sizes that a call asks for.\<close>

definition create_ok :: "create_draw_params \<Rightarrow> bool" where
  "create_ok p \<longleftrightarrow> length (cd_drawId p) = 16 \<and> length (cd_threshold p) = 32"

definition register_ok :: "register_params \<Rightarrow> bool" where
  "register_ok p \<longleftrightarrow> length (tp_drawId p) = 16 \<and> length (tp_ticketId p) = 16 \<and> length (tp_commitment p) = 32"

definition claim_sizes_ok :: "claim_params \<Rightarrow> bool" where
  "claim_sizes_ok p \<longleftrightarrow> length (tp_drawId p) = 16 \<and> length (tp_ticketId p) = 16 \<and> length (tp_secret p) = 32"

abbreviation size_error :: js_error where
  "size_error \<equiv> Error ''must have the expected number of bytes''"

lemma toBuf_cases: "toBuf v n = (if length v = n then Inr (map word_of_int v) else Inl size_error)"
  by (simp add: toBuf_def throwIf_def)

lemma bad_sizes:
  "\<not> create_ok p \<Longrightarrow> sortitionCreateDrawInline w client obs p = Some ([], Inl size_error)"
  "\<not> register_ok q \<Longrightarrow> sortitionRegisterTicketInline w client obs q = Some ([], Inl size_error)"
  "length (sl_drawId r) \<noteq> 16 \<Longrightarrow> sortitionSealDrawInline w client obs r = Some ([], Inl size_error)"
  "\<not> claim_sizes_ok c \<Longrightarrow> sortitionClaimTicketInline w client obs c = Some ([], Inl size_error)"
  by (auto simp: sortitionCreateDrawInline_def sortitionRegisterTicketInline_def sortitionSealDrawInline_def
      sortitionClaimTicketInline_def inline_call_def build_defs programId_of_def asPublicKey_def toBuf_cases create_ok_def
      register_ok_def claim_sizes_ok_def)

section \<open>The properties\<close>

definition sample_sortition :: sortition_world where
  "sample_sortition = \<lparr>sw_fetch = (\<lambda>_. None), sw_aborted = (\<lambda>_ _. False), sw_fileUrl = (\<lambda>_. None), sw_absolute = (\<lambda>_. False),
     sw_resolve = id, sw_stat = (\<lambda>_. None), sw_read = (\<lambda>_. None), w_publicKey = (\<lambda>_. Inr (zeros 32)), w_base58 = (\<lambda>_. []),
     w_programAddress = (\<lambda>seeds _. Inr (concat seeds)), w_transaction = (\<lambda>_. Inr None), w_account = (\<lambda>_. Inr None),
     w_decodeConfig = Inr, w_decodeHeader = (\<lambda>_. Inl BlockhashExpired), w_decodeChunk = (\<lambda>_. Inl BlockhashExpired),
     w_decodeProgramConfig = (\<lambda>_. Inr False), w_decodeResolution = (\<lambda>_ _. Inl BlockhashExpired), w_exists = (\<lambda>_. False),
     w_environment = [], so_systemProgram = zeros 32, so_slotHashes = replicate 32 1,
     so_idl = Some [(''claim_sortition_ticket'', Some [1, 2, 3, 4, 5, 6, 7, 8])]\<rparr>"

text \<open>C39: the threshold of a probability \<open>n / d\<close> has 32 bytes, and a ticket wins with it exactly when its digest, read as
  a 256-bit number, is below \<open>floor(2^256 * n / d)\<close>, so that just that many of the \<open>2^256\<close> digests win, for every
  probability below one. At probability one the threshold wraps around to zero and no ticket ever wins.\<close>

theorem sortition_wins_probability:
  assumes "0 < d" and "0 \<le> n"
  shows "\<exists>t. sortitionThresholdFromProbability n d = Inr t \<and> length t = 32
    \<and> (n < d \<longrightarrow> (\<forall>secret omega. sortitionWins secret omega t \<longleftrightarrow> be_uint (sha256 (secret @ omega)) < 2 ^ 256 * n div d))
    \<and> (n = d \<longrightarrow> (\<forall>secret omega. \<not> sortitionWins secret omega t))"
proof -
  obtain t where t: "sortitionThresholdFromProbability n d = Inr t" "length t = 32" "be_uint t = 2 ^ 256 * n div d mod 2 ^ 256"
    using threshold_value [OF assms] by blast
  have "2 ^ 256 * n div d < 2 ^ 256" if "n < d"
    using that assms(1) by (intro quotient_less) simp_all
  moreover have "0 \<le> 2 ^ 256 * n div d" using assms by (simp add: pos_imp_zdiv_nonneg_iff)
  ultimately have "be_uint t = 2 ^ 256 * n div d" if "n < d" using that t(3) mod_pos_pos_trivial by metis
  moreover have "\<not> be_uint (sha256 x) < be_uint t" if "n = d" for x
    using be_uint_bound(1) [of "sha256 x"] t(3) that assms(1) by simp
  ultimately show ?thesis using t(1,2) wins_iff [OF t(2)] by (intro exI [of _ t]) simp
qed

lemma sortition_wins_probability_witness:
  "(\<exists>t. sortitionThresholdFromProbability 1 3 = Inr t
      \<and> (sortitionWins [1] [2] t \<longleftrightarrow> be_uint (sha256 [1, 2]) < 2 ^ 256 div 3))
    \<and> (\<exists>t. sortitionThresholdFromProbability 1 1 = Inr t \<and> \<not> sortitionWins [1] [2] t)"
  using sortition_wins_probability [of 3 1] sortition_wins_probability [of 1 1] by force

text \<open>C40: every instruction that a builder returns is well typed: the discriminator of its name, arguments of the
  fixed size of that instruction, the accounts in their number with the first as the only signer, and, as second and
  third account, the addresses of the very draw and ticket that the arguments name.\<close>

theorem sortition_instruction_typed:
  assumes "build w request = Inr ix"
  shows "well_typed w (shape request) ix"
  using assms by (rule build_typed)

lemma sortition_instruction_typed_witness:
  "\<exists>ix. build sample_sortition (Claim \<lparr>tp_programId = None, tp_participant = Key (zeros 32), tp_drawId = replicate 16 1,
      tp_ticketId = replicate 16 2, tp_secret = replicate 32 3\<rparr>) = Inr ix
    \<and> well_typed sample_sortition (''claim_sortition_ticket'', 64, True, 3) ix"
proof -
  let ?r = "Claim \<lparr>tp_programId = None, tp_participant = Key (zeros 32), tp_drawId = replicate 16 1,
      tp_ticketId = replicate 16 2, tp_secret = replicate 32 3\<rparr>"
  have "\<exists>ix. build sample_sortition ?r = Inr ix"
    by (simp add: build_defs programId_of_def asPublicKey_def toBuf_cases deriveSortitionDrawPda_def deriveSortitionTicketPda_def
        instruction_of_def discriminatorFor_def sample_sortition_def)
  then show ?thesis using sortition_instruction_typed [of sample_sortition ?r] by auto
qed

text \<open>A draw identifier, ticket identifier, threshold, commitment or secret of a wrong size is refused by each of the four
  calls before anything is signed or sent, whatever the node would have answered.\<close>

theorem sortition_bad_size_sends_nothing:
  assumes "\<not> create_ok p" and "\<not> register_ok q" and "length (sl_drawId r) \<noteq> 16" and "\<not> claim_sizes_ok c"
  shows "sortitionCreateDrawInline w client obs p = Some ([], Inl size_error)
    \<and> sortitionRegisterTicketInline w client obs q = Some ([], Inl size_error)
    \<and> sortitionSealDrawInline w client obs r = Some ([], Inl size_error)
    \<and> sortitionClaimTicketInline w client obs c = Some ([], Inl size_error)"
  using bad_sizes assms by simp

lemma sortition_bad_size_sends_nothing_witness:
  "sortitionClaimTicketInline sample_sortition \<lparr>sc_programId = [], sc_payer = [], sc_sign = (\<lambda>_ _. Inr [])\<rparr> racing_attempts
     \<lparr>tp_programId = None, tp_participant = Key [], tp_drawId = replicate 16 0, tp_ticketId = replicate 16 0, tp_secret = replicate 31 0\<rparr>
   = Some ([], Inl size_error)"
proof -
  have c: "\<not> create_ok \<lparr>cd_programId = None, cd_authority = Key [], cd_drawId = [], cd_threshold = [],
      cd_registrationDurationSlots = Amount_bigint 1, cd_claimDurationSlots = Amount_bigint 1, cd_unclaimedRule = None\<rparr>"
    "\<not> register_ok \<lparr>tp_programId = None, tp_participant = Key [], tp_drawId = [], tp_ticketId = [], tp_commitment = []\<rparr>"
    "length (sl_drawId \<lparr>sl_programId = None, sl_sealer = Key [], sl_drawId = []\<rparr>) \<noteq> 16"
    "\<not> claim_sizes_ok \<lparr>tp_programId = None, tp_participant = Key [], tp_drawId = replicate 16 0, tp_ticketId = replicate 16 0,
      tp_secret = replicate 31 0\<rparr>"
    by (simp_all add: create_ok_def register_ok_def claim_sizes_ok_def)
  from sortition_bad_size_sends_nothing [OF c] show ?thesis by blast
qed

end
