(* ===== verification/Effects.thy ===== *)
theory Effects
  imports VRE_Prelude
begin

text \<open>
  Routines that change a state and may throw: \<open>'s \<Rightarrow> 'a result \<times> 's\<close>. An error keeps what was done before it. \<open>doS\<close>
  sequences two of them, \<open>forS\<close> is a loop over a list. \<open>keeps I m\<close> says that \<open>m\<close> preserves \<open>I\<close> whether it returns or
  throws, \<open>achieves P m Q\<close> that from a state with \<open>P\<close> it returns with \<open>Q\<close>.
\<close>

type_synonym ('s, 'a) routine = "'s \<Rightarrow> 'a result \<times> 's"

definition retS :: "'a \<Rightarrow> ('s, 'a) routine" where
  "retS x s = (Inr x, s)"

definition throwS :: "js_error \<Rightarrow> ('s, 'a) routine" where
  "throwS e s = (Inl e, s)"

definition readS :: "('s \<Rightarrow> 'a) \<Rightarrow> ('s, 'a) routine" where
  "readS f s = (Inr (f s), s)"

definition liftS :: "'a result \<Rightarrow> ('s, 'a) routine" where
  "liftS r s = (r, s)"

definition doS :: "('s, 'a) routine \<Rightarrow> ('a \<Rightarrow> ('s, 'b) routine) \<Rightarrow> ('s, 'b) routine" where
  "doS m k s = (case m s of (Inl e, s') \<Rightarrow> (Inl e, s') | (Inr x, s') \<Rightarrow> k x s')"

primrec forS :: "'a list \<Rightarrow> ('a \<Rightarrow> ('s, unit) routine) \<Rightarrow> ('s, unit) routine" where
  "forS [] f = retS ()"
| "forS (x # xs) f = doS (f x) (\<lambda>_. forS xs f)"

lemma doS_liftS [simp]: "doS (liftS (Inr x)) k = k x"
  by (simp add: doS_def liftS_def fun_eq_iff)

section \<open>Preservation\<close>

definition keeps :: "('s \<Rightarrow> bool) \<Rightarrow> ('s, 'a) routine \<Rightarrow> bool" where
  "keeps I m \<longleftrightarrow> (\<forall>s. I s \<longrightarrow> I (snd (m s)))"

lemma keepsD: "keeps I m \<Longrightarrow> I s \<Longrightarrow> m s = (r, s') \<Longrightarrow> I s'"
  by (metis keeps_def snd_conv)

named_theorems keeps_intros \<open>preservation of a state invariant\<close>

lemma keeps_basic [keeps_intros]: "keeps I (retS x)" "keeps I (throwS e)" "keeps I (readS f)" "keeps I (liftS r)"
  by (simp_all add: keeps_def retS_def throwS_def readS_def liftS_def)

lemma keeps_doS [keeps_intros]: "keeps I m \<Longrightarrow> (\<And>x. keeps I (k x)) \<Longrightarrow> keeps I (doS m k)"
  by (auto simp: keeps_def doS_def split: prod.split sum.split; metis snd_conv)

lemma keeps_forS [keeps_intros]: "(\<And>x. x \<in> set xs \<Longrightarrow> keeps I (f x)) \<Longrightarrow> keeps I (forS xs f)"
  by (induction xs) (auto intro!: keeps_basic keeps_doS)

lemma keeps_if [keeps_intros]: "(b \<Longrightarrow> keeps I m) \<Longrightarrow> (\<not> b \<Longrightarrow> keeps I m') \<Longrightarrow> keeps I (if b then m else m')"
  by simp

lemma keeps_known: "(\<And>s. I s \<Longrightarrow> C) \<Longrightarrow> (C \<Longrightarrow> keeps I m) \<Longrightarrow> keeps I m"
  unfolding keeps_def by blast

section \<open>Success\<close>

definition achieves :: "('s \<Rightarrow> bool) \<Rightarrow> ('s, 'a) routine \<Rightarrow> ('a \<Rightarrow> 's \<Rightarrow> bool) \<Rightarrow> bool" where
  "achieves P m Q \<longleftrightarrow> (\<forall>s. P s \<longrightarrow> (\<exists>x s'. m s = (Inr x, s') \<and> Q x s'))"

lemma achieves_retS: "(\<And>s. P s \<Longrightarrow> Q x s) \<Longrightarrow> achieves P (retS x) Q"
  by (simp add: achieves_def retS_def)

lemma achieves_readS: "(\<And>s. P s \<Longrightarrow> Q (f s) s) \<Longrightarrow> achieves P (readS f) Q"
  by (simp add: achieves_def readS_def)

lemma achieves_doS: "achieves P m R \<Longrightarrow> (\<And>x. achieves (R x) (k x) Q) \<Longrightarrow> achieves P (doS m k) Q"
  by (fastforce simp: achieves_def doS_def)

lemma achieves_doS_const: "achieves P m (\<lambda>_. R) \<Longrightarrow> (\<And>x. achieves R (k x) Q) \<Longrightarrow> achieves P (doS m k) Q"
  by (rule achieves_doS)

lemma achieves_weaken: "achieves P m Q \<Longrightarrow> (\<And>s. P' s \<Longrightarrow> P s) \<Longrightarrow> (\<And>x s. Q x s \<Longrightarrow> Q' x s) \<Longrightarrow> achieves P' m Q'"
  by (fastforce simp: achieves_def)

lemma achieves_known: "(\<And>s. P s \<Longrightarrow> C) \<Longrightarrow> (C \<Longrightarrow> achieves P m Q) \<Longrightarrow> achieves P m Q"
  unfolding achieves_def by blast

lemma achieves_if: "(c \<Longrightarrow> achieves P m Q) \<Longrightarrow> (\<not> c \<Longrightarrow> achieves P m' Q) \<Longrightarrow> achieves P (if c then m else m') Q"
  by simp

lemma achieves_forS:
  assumes "\<And>i. i < length xs \<Longrightarrow> achieves (P i) (f (xs ! i)) (\<lambda>_. P (Suc i))"
  shows "achieves (P 0) (forS xs f) (\<lambda>_. P (length xs))"
  using assms
proof (induction xs arbitrary: P)
  case Nil
  then show ?case by (auto intro: achieves_retS)
next
  case (Cons x xs)
  have "achieves (P 0) (f x) (\<lambda>_. P 1)" using Cons.prems [of 0] by simp
  moreover have "achieves (P (Suc 0)) (forS xs f) (\<lambda>_. P (Suc (length xs)))"
    using Cons.prems by (intro Cons.IH [of "\<lambda>i. P (Suc i)"]) fastforce
  ultimately show ?case by (simp add: achieves_doS)
qed

end
