(* ===== verification/Operator_Upload.thy ===== *)
theory Operator_Upload
  imports Effects Verify_Accounts
begin

text \<open>
  The upload of an artifact, \<^verbatim>\<open>submitApprovedArtifact\<close> of \<^verbatim>\<open>sdk/operator.ts\<close>, against the program that receives it
  (\<^verbatim>\<open>programs/outcome/src/instructions\<close>): submit, write the chunks, finalize, review. A process may die and a request may
  be lost at any point; the next call goes on from what the chain holds. The client is written against \<open>chain_api\<close>;
  the locale \<open>upload_laws\<close> is the contract it relies on, and the program is an interpretation of it.

  An artifact account is named by its hash and a chunk account by hash and index: their addresses are derived from
  these, and the program checks the derivation. Timestamps, rent and the audit hash are left out, and so is the copy
  of the artifact that the client writes to a local file.
\<close>

section \<open>Instructions and transactions\<close>

datatype program_ix =
    Submit buffer int nat
  | Init_chunk buffer nat
  | Write_chunk buffer nat nat buffer
  | Finalize buffer "nat list"
  | Review buffer nat buffer

text \<open>What the client sees of the chain: executing an instruction (\<open>None\<close> is a refusal), the flags of an artifact account
  and the written length of a chunk account, if they exist.\<close>

record 's chain_api =
  cn_execute :: "program_ix \<Rightarrow> 's \<Rightarrow> 's option"
  cn_artifact :: "buffer \<Rightarrow> 's \<Rightarrow> (bool \<times> nat) option"
  cn_written :: "buffer \<Rightarrow> nat \<Rightarrow> 's \<Rightarrow> nat option"

text \<open>What happens to a request: it is served, it is lost, or it is executed and its answer is lost.\<close>

datatype fate = Served | Lost | Unseen

type_synonym ('s, 'a) client_routine = "('s \<times> nat, 'a) routine"

text \<open>The requests of a run are numbered; \<open>fates\<close> says what happens to each.\<close>

definition ask :: "(nat \<Rightarrow> fate) \<Rightarrow> ('s \<Rightarrow> 'a) \<Rightarrow> ('s, 'a) client_routine" where
  "ask fates f s = (if fates (snd s) = Served then Inr (f (fst s)) else Inl (Error ''request failed''), (fst s, snd s + 1))"

primrec execute_all :: "(program_ix \<Rightarrow> 's \<Rightarrow> 's option) \<Rightarrow> program_ix list \<Rightarrow> 's \<Rightarrow> 's option" where
  "execute_all execute [] s = Some s"
| "execute_all execute (ix # ixs) s = (case execute ix s of None \<Rightarrow> None | Some s' \<Rightarrow> execute_all execute ixs s')"

definition sendOperatorInstructions :: "'s chain_api \<Rightarrow> (nat \<Rightarrow> fate) \<Rightarrow> program_ix list \<Rightarrow> ('s, unit) client_routine" where
  "sendOperatorInstructions api fates ixs s =
     (if ixs = [] then (Inl (Error ''No operator instructions to send''), s)
      else case fates (snd s) of
        Lost \<Rightarrow> (Inl (Error ''request failed''), (fst s, snd s + 1))
      | Served \<Rightarrow>
          (case execute_all (cn_execute api) ixs (fst s) of
             None \<Rightarrow> (Inl (Error ''Transaction failed''), (fst s, snd s + 1))
           | Some st \<Rightarrow> (Inr (), (st, snd s + 1)))
      | Unseen \<Rightarrow>
          (Inl (Error ''request failed''),
           (case execute_all (cn_execute api) ixs (fst s) of None \<Rightarrow> fst s | Some st \<Rightarrow> st, snd s + 1)))"

section \<open>The client\<close>

definition CHUNK_WRITE_BYTES :: nat where "CHUNK_WRITE_BYTES = 900"

definition artifactFormatVersion :: "buffer \<Rightarrow> int result" where
  "artifactFormatVersion blob =
     throwIf (length blob < 6 \<or> \<not> magic_ok blob) (Error ''Invalid W3O1 artifact header'') (runR readU16LE blob 4)"

text \<open>\<^verbatim>\<open>for (let offset = writtenLen; offset < length; offset += CHUNK_WRITE_BYTES)\<close>\<close>

function write_offsets :: "nat \<Rightarrow> nat \<Rightarrow> nat list" where
  "write_offsets offset len = (if offset < len then offset # write_offsets (offset + CHUNK_WRITE_BYTES) len else [])"
  by pat_completeness auto

termination
  by (relation "measure (\<lambda>(offset, len). len - offset)") (auto simp: CHUNK_WRITE_BYTES_def)

declare write_offsets.simps [simp del]

lemma write_offsets_end [simp]: "len \<le> offset \<Longrightarrow> write_offsets offset len = []"
  by (simp add: write_offsets.simps)

definition chunk_part :: "buffer \<Rightarrow> nat \<Rightarrow> buffer" where
  "chunk_part blob chunkIndex = take 1024 (drop (chunkIndex * 1024) blob)"

definition write_chunk :: "'s chain_api \<Rightarrow> (nat \<Rightarrow> fate) \<Rightarrow> buffer \<Rightarrow> buffer \<Rightarrow> nat \<Rightarrow> ('s, unit) client_routine" where
  "write_chunk api fates hash blob i =
     doS (ask fates (\<lambda>st. cn_written api hash i st \<noteq> None)) (\<lambda>exists.
     doS (if \<not> exists then doS (sendOperatorInstructions api fates [Init_chunk hash i]) (\<lambda>_. retS 0)
          else doS (ask fates (cn_written api hash i)) (\<lambda>w.
            case w of None \<Rightarrow> throwS (Error ''Account does not exist'') | Some n \<Rightarrow> retS n)) (\<lambda>writtenLen.
     let chunkBytes = chunk_part blob i in
     forS (write_offsets writtenLen (length chunkBytes)) (\<lambda>offset.
       sendOperatorInstructions api fates
         [Write_chunk hash i offset (take CHUNK_WRITE_BYTES (drop offset chunkBytes))])))"

definition writeArtifactChunks :: "'s chain_api \<Rightarrow> (nat \<Rightarrow> fate) \<Rightarrow> buffer \<Rightarrow> buffer \<Rightarrow> ('s, nat list) client_routine" where
  "writeArtifactChunks api fates hash blob =
     (let chunkIndexes = [0..<chunk_count blob] in
      doS (forS chunkIndexes (write_chunk api fates hash blob)) (\<lambda>_. retS chunkIndexes))"

definition finalize_review :: "'s chain_api \<Rightarrow> (nat \<Rightarrow> fate) \<Rightarrow> buffer \<Rightarrow> nat list \<Rightarrow> buffer \<Rightarrow> ('s, unit) client_routine" where
  "finalize_review api fates hash chunks uri =
     doS (sendOperatorInstructions api fates [Finalize hash chunks]) (\<lambda>_.
     sendOperatorInstructions api fates [Review hash STATUS_APPROVED uri])"

definition submitApprovedArtifact ::
  "'s chain_api \<Rightarrow> (nat \<Rightarrow> fate) \<Rightarrow> buffer \<Rightarrow> buffer \<Rightarrow> ('s, buffer \<times> nat list) client_routine" where
  "submitApprovedArtifact api fates blob uri =
     (let hash = sha256 blob; chunks = [0..<chunk_count blob] in
      doS (ask fates (\<lambda>st. cn_artifact api hash st \<noteq> None)) (\<lambda>existing.
      if existing then
        doS (ask fates (cn_artifact api hash)) (\<lambda>account.
        case account of None \<Rightarrow> throwS (Error ''Account does not exist'')
        | Some (isFinalized, status) \<Rightarrow>
            doS (if \<not> isFinalized
                 then doS (writeArtifactChunks api fates hash blob) (\<lambda>_.
                      sendOperatorInstructions api fates [Finalize hash chunks])
                 else retS ()) (\<lambda>_.
            doS (if status \<noteq> STATUS_APPROVED then sendOperatorInstructions api fates [Review hash STATUS_APPROVED uri]
                 else retS ()) (\<lambda>_. retS (hash, chunks))))
      else
        doS (liftS (artifactFormatVersion blob)) (\<lambda>version.
        doS (sendOperatorInstructions api fates [Submit hash version (length blob)]) (\<lambda>_.
        doS (writeArtifactChunks api fates hash blob) (\<lambda>written.
        doS (finalize_review api fates hash written uri) (\<lambda>_. retS (hash, written)))))))"

section \<open>The program\<close>

record program_artifact =
  fa_publisher :: buffer
  fa_status :: nat
  fa_finalized :: bool
  fa_version :: int
  fa_blobLen :: nat
  fa_chunkCount :: nat

record program_chunk =
  fc_written :: nat
  fc_data :: buffer

record store =
  st_artifacts :: "buffer \<Rightarrow> program_artifact option"
  st_chunks :: "buffer \<times> nat \<Rightarrow> program_chunk option"

text \<open>Who signs, who is the admin, and the structural checks of a format version, which are other parts of the program.\<close>

record program_env =
  pe_signer :: buffer
  pe_admin :: buffer
  pe_accepts :: "int \<Rightarrow> buffer \<Rightarrow> bool"

definition expected_len :: "program_artifact \<Rightarrow> nat \<Rightarrow> nat option" where
  "expected_len a i = (if i * 1024 < fa_blobLen a then Some (min 1024 (fa_blobLen a - i * 1024)) else None)"

text \<open>The checks that init, write and finalize share.\<close>

definition open_artifact :: "program_env \<Rightarrow> buffer \<Rightarrow> store \<Rightarrow> program_artifact option" where
  "open_artifact env hash st =
     (case st_artifacts st hash of None \<Rightarrow> None
      | Some a \<Rightarrow> if fa_status a = STATUS_PENDING \<and> \<not> fa_finalized a \<and> fa_publisher a = pe_signer env then Some a else None)"

definition load_chunk :: "program_artifact \<Rightarrow> buffer \<Rightarrow> store \<Rightarrow> nat \<Rightarrow> buffer option" where
  "load_chunk a hash st i =
     (case (st_chunks st (hash, i), expected_len a i) of
        (Some c, Some n) \<Rightarrow> if fc_written c = n then Some (take n (fc_data c)) else None
      | _ \<Rightarrow> None)"

definition load_blob :: "program_artifact \<Rightarrow> buffer \<Rightarrow> store \<Rightarrow> nat list \<Rightarrow> buffer option" where
  "load_blob a hash st remaining =
     (if fa_chunkCount a = 0 \<or> remaining \<noteq> [0..<fa_chunkCount a] then None
      else if list_ex (\<lambda>i. load_chunk a hash st i = None) remaining then None
      else let blob = concat (map (\<lambda>i. the (load_chunk a hash st i)) remaining) in
        if length blob = fa_blobLen a then Some blob else None)"

definition known_version :: "int \<Rightarrow> bool" where
  "known_version v \<longleftrightarrow> v \<in> {1, 2, 3, 4, 5, 6, 7, 8, 9, 10}"

text \<open>The handlers; \<open>None\<close> is an error, which leaves the accounts as they were.\<close>

definition submit_compiled_artifact :: "program_env \<Rightarrow> buffer \<Rightarrow> int \<Rightarrow> nat \<Rightarrow> store \<Rightarrow> store option" where
  "submit_compiled_artifact env hash version blobLen st =
     (if st_artifacts st hash \<noteq> None \<or> \<not> known_version version \<or> MAX_COMPILED_ARTIFACT_BYTES < blobLen \<or> blobLen = 0
         \<or> 8 < (blobLen + 1023) div 1024 then None
      else Some (st\<lparr>st_artifacts := (st_artifacts st)(hash \<mapsto>
        \<lparr>fa_publisher = pe_signer env, fa_status = STATUS_PENDING, fa_finalized = False, fa_version = version,
         fa_blobLen = blobLen, fa_chunkCount = (blobLen + 1023) div 1024\<rparr>)\<rparr>))"

definition init_compiled_artifact_chunk :: "program_env \<Rightarrow> buffer \<Rightarrow> nat \<Rightarrow> store \<Rightarrow> store option" where
  "init_compiled_artifact_chunk env hash i st =
     (case open_artifact env hash st of None \<Rightarrow> None
      | Some a \<Rightarrow>
          if fa_chunkCount a \<le> i \<or> st_chunks st (hash, i) \<noteq> None then None
          else Some (st\<lparr>st_chunks := (st_chunks st)((hash, i) \<mapsto> \<lparr>fc_written = 0, fc_data = zeros 1024\<rparr>)\<rparr>))"

definition write_compiled_artifact_chunk ::
  "program_env \<Rightarrow> buffer \<Rightarrow> nat \<Rightarrow> nat \<Rightarrow> buffer \<Rightarrow> store \<Rightarrow> store option" where
  "write_compiled_artifact_chunk env hash i offset data st =
     (case open_artifact env hash st of None \<Rightarrow> None
      | Some a \<Rightarrow>
          if data = [] \<or> 900 < length data \<or> fa_chunkCount a \<le> i then None
          else (case (st_chunks st (hash, i), expected_len a i) of
              (Some c, Some n) \<Rightarrow>
                if n < offset + length data \<or> fc_written c \<noteq> offset then None
                else Some (st\<lparr>st_chunks := (st_chunks st)((hash, i) \<mapsto>
                  \<lparr>fc_written = offset + length data,
                   fc_data = take offset (fc_data c) @ data @ drop (offset + length data) (fc_data c)\<rparr>)\<rparr>)
            | _ \<Rightarrow> None))"

definition finalize_compiled_artifact :: "program_env \<Rightarrow> buffer \<Rightarrow> nat list \<Rightarrow> store \<Rightarrow> store option" where
  "finalize_compiled_artifact env hash remaining st =
     (case open_artifact env hash st of None \<Rightarrow> None
      | Some a \<Rightarrow>
         (case load_blob a hash st remaining of None \<Rightarrow> None
          | Some blob \<Rightarrow>
              if sha256 blob \<noteq> hash \<or> \<not> pe_accepts env (fa_version a) blob then None
              else Some (st\<lparr>st_artifacts := (st_artifacts st)(hash \<mapsto> a\<lparr>fa_finalized := True\<rparr>)\<rparr>)))"

definition review_compiled_artifact :: "program_env \<Rightarrow> buffer \<Rightarrow> nat \<Rightarrow> buffer \<Rightarrow> store \<Rightarrow> store option" where
  "review_compiled_artifact env hash status uri st =
     (case st_artifacts st hash of None \<Rightarrow> None
      | Some a \<Rightarrow>
          if pe_signer env \<noteq> pe_admin env \<or> status \<notin> {1, 2, 3} \<or> 200 < length uri
             \<or> status \<in> {STATUS_APPROVED, STATUS_DEPRECATED} \<and> \<not> fa_finalized a
             \<or> status = STATUS_APPROVED \<and> fa_status a \<noteq> STATUS_PENDING then None
          else Some (st\<lparr>st_artifacts := (st_artifacts st)(hash \<mapsto> a\<lparr>fa_status := status\<rparr>)\<rparr>))"

lemmas handler_defs [simp] =
  submit_compiled_artifact_def init_compiled_artifact_chunk_def write_compiled_artifact_chunk_def
  finalize_compiled_artifact_def review_compiled_artifact_def

fun program_execute :: "program_env \<Rightarrow> program_ix \<Rightarrow> store \<Rightarrow> store option" where
  "program_execute env (Submit hash version blobLen) st = submit_compiled_artifact env hash version blobLen st"
| "program_execute env (Init_chunk hash i) st = init_compiled_artifact_chunk env hash i st"
| "program_execute env (Write_chunk hash i offset data) st = write_compiled_artifact_chunk env hash i offset data st"
| "program_execute env (Finalize hash remaining) st = finalize_compiled_artifact env hash remaining st"
| "program_execute env (Review hash status uri) st = review_compiled_artifact env hash status uri st"

definition program_api :: "program_env \<Rightarrow> store chain_api" where
  "program_api env = \<lparr>cn_execute = program_execute env,
     cn_artifact = (\<lambda>hash st. map_option (\<lambda>a. (fa_finalized a, fa_status a)) (st_artifacts st hash)),
     cn_written = (\<lambda>hash i st. map_option fc_written (st_chunks st (hash, i)))\<rparr>"

end
