(* ===== verification/Operator_Resume.thy ===== *)
theory Operator_Resume
  imports Operator_Upload
begin

text \<open>
  An upload can be resumed. The locale \<open>upload_laws\<close> states what a client needs of the program: instructions about the
  blob preserve an invariant, and each step of the protocol is accepted in its turn. From it follows that a run that
  fails anywhere leaves the chain in a state from which a run whose requests are served completes the upload. The
  program is an interpretation.
\<close>

lemma take_length_take: "take (length (take n xs)) xs = take n xs"
  by (cases "n \<le> length xs") simp_all

lemma pending_approved: "STATUS_PENDING \<noteq> STATUS_APPROVED"
  by (simp add: STATUS_PENDING_def STATUS_APPROVED_def)

section \<open>The contract\<close>

text \<open>The instructions that a client sends for a blob.\<close>

fun about :: "buffer \<Rightarrow> int \<Rightarrow> buffer \<Rightarrow> program_ix \<Rightarrow> bool" where
  "about blob version uri (Submit h v n) \<longleftrightarrow> h = sha256 blob \<and> v = version \<and> n = length blob"
| "about blob version uri (Init_chunk h i) \<longleftrightarrow> h = sha256 blob"
| "about blob version uri (Write_chunk h i offset data) \<longleftrightarrow>
     h = sha256 blob \<and> data = take (length data) (drop offset (chunk_part blob i))"
| "about blob version uri (Finalize h chunks) \<longleftrightarrow> h = sha256 blob"
| "about blob version uri (Review h status u) \<longleftrightarrow> h = sha256 blob \<and> status = STATUS_APPROVED \<and> u = uri"

locale upload_laws =
  fixes api :: "'s chain_api" and blob :: buffer and uri :: buffer and version :: int and ok :: "'s \<Rightarrow> bool"
  assumes law_version: "ok s \<Longrightarrow> artifactFormatVersion blob = Inr version"
    and law_kept: "ok s \<Longrightarrow> about blob version uri ix \<Longrightarrow> cn_execute api ix s = Some s' \<Longrightarrow> ok s'"
    and law_flags: "ok s \<Longrightarrow> cn_artifact api (sha256 blob) s = Some (fin, status) \<Longrightarrow>
      status = STATUS_PENDING \<or> status = STATUS_APPROVED \<and> fin"
    and law_fresh: "ok s \<Longrightarrow> cn_artifact api (sha256 blob) s = None \<Longrightarrow>
      \<exists>s'. cn_execute api (Submit (sha256 blob) version (length blob)) s = Some s'
        \<and> cn_artifact api (sha256 blob) s' = Some (False, STATUS_PENDING)"
    and law_init: "ok s \<Longrightarrow> cn_artifact api (sha256 blob) s = Some (False, STATUS_PENDING) \<Longrightarrow> i < chunk_count blob \<Longrightarrow>
      cn_written api (sha256 blob) i s = None \<Longrightarrow>
      \<exists>s'. cn_execute api (Init_chunk (sha256 blob) i) s = Some s'
        \<and> cn_artifact api (sha256 blob) s' = Some (False, STATUS_PENDING)
        \<and> (\<forall>j. cn_written api (sha256 blob) j s' = (if j = i then Some 0 else cn_written api (sha256 blob) j s))"
    and law_write: "ok s \<Longrightarrow> cn_artifact api (sha256 blob) s = Some (False, STATUS_PENDING) \<Longrightarrow> i < chunk_count blob \<Longrightarrow>
      cn_written api (sha256 blob) i s = Some offset \<Longrightarrow> data \<noteq> [] \<Longrightarrow> length data \<le> CHUNK_WRITE_BYTES \<Longrightarrow>
      offset + length data \<le> length (chunk_part blob i) \<Longrightarrow>
      \<exists>s'. cn_execute api (Write_chunk (sha256 blob) i offset data) s = Some s'
        \<and> cn_artifact api (sha256 blob) s' = Some (False, STATUS_PENDING)
        \<and> (\<forall>j. cn_written api (sha256 blob) j s' = (if j = i then Some (offset + length data) else cn_written api (sha256 blob) j s))"
    and law_bound: "ok s \<Longrightarrow> cn_written api (sha256 blob) i s = Some n \<Longrightarrow> n \<le> length (chunk_part blob i)"
    and law_finalize: "ok s \<Longrightarrow> cn_artifact api (sha256 blob) s = Some (False, STATUS_PENDING) \<Longrightarrow>
      (\<forall>i < chunk_count blob. cn_written api (sha256 blob) i s = Some (length (chunk_part blob i))) \<Longrightarrow>
      \<exists>s'. cn_execute api (Finalize (sha256 blob) [0..<chunk_count blob]) s = Some s'
        \<and> cn_artifact api (sha256 blob) s' = Some (True, STATUS_PENDING)"
    and law_review: "ok s \<Longrightarrow> cn_artifact api (sha256 blob) s = Some (True, STATUS_PENDING) \<Longrightarrow>
      \<exists>s'. cn_execute api (Review (sha256 blob) STATUS_APPROVED uri) s = Some s'
        \<and> cn_artifact api (sha256 blob) s' = Some (True, STATUS_APPROVED)"
begin

abbreviation I :: "'s \<times> nat \<Rightarrow> bool" where
  "I s \<equiv> ok (fst s)"

subsection \<open>Every run preserves the invariant\<close>

lemma keeps_ask: "keeps I (ask fates f)"
  by (simp add: keeps_def ask_def)

lemma about_write: "about blob version uri
    (Write_chunk (sha256 blob) i offset (take CHUNK_WRITE_BYTES (drop offset (chunk_part blob i))))"
  by (simp only: about.simps take_length_take simp_thms)

lemma keeps_send: "about blob version uri ix \<Longrightarrow> keeps I (sendOperatorInstructions api fates [ix])"
  using law_kept by (auto simp: keeps_def sendOperatorInstructions_def split: fate.split option.split)

lemma keeps_chunk: "keeps I (write_chunk api fates (sha256 blob) blob i)"
  unfolding write_chunk_def Let_def
  by (intro keeps_intros keeps_ask) (auto intro!: keeps_intros keeps_ask keeps_send about_write simp del: about.simps(3) split: option.split)

lemma keeps_chunks: "keeps I (writeArtifactChunks api fates (sha256 blob) blob)"
  unfolding writeArtifactChunks_def Let_def by (intro keeps_intros keeps_chunk)

lemma keeps_submit: "keeps I (submitApprovedArtifact api fates blob uri)"
proof (rule keeps_known)
  show "artifactFormatVersion blob = Inr version" if "I s" for s using that by (rule law_version)
next
  assume version: "artifactFormatVersion blob = Inr version"
  have "keeps I (finalize_review api fates (sha256 blob) chunks uri)" for chunks
    unfolding finalize_review_def by (intro keeps_intros keeps_send) simp_all
  then show "keeps I (submitApprovedArtifact api fates blob uri)"
    unfolding submitApprovedArtifact_def Let_def version doS_liftS
    by (intro keeps_intros keeps_ask)
      (auto intro!: keeps_intros keeps_ask keeps_send keeps_chunks split: option.split prod.split)
qed

subsection \<open>A served run completes\<close>

definition served :: "(nat \<Rightarrow> fate) \<Rightarrow> ('s \<Rightarrow> bool) \<Rightarrow> 's \<times> nat \<Rightarrow> bool" where
  "served fates P s \<longleftrightarrow> ok (fst s) \<and> P (fst s) \<and> (\<forall>n \<ge> snd s. fates n = Served)"

abbreviation art :: "'s \<Rightarrow> (bool \<times> nat) option" where
  "art \<equiv> cn_artifact api (sha256 blob)"

abbreviation len_at :: "'s \<Rightarrow> nat \<Rightarrow> nat option" where
  "len_at s i \<equiv> cn_written api (sha256 blob) i s"

text \<open>Chunks below \<open>k\<close> are complete and the artifact is open.\<close>

definition written_upto :: "nat \<Rightarrow> 's \<Rightarrow> bool" where
  "written_upto k s \<longleftrightarrow> art s = Some (False, STATUS_PENDING) \<and> (\<forall>i < k. len_at s i = Some (length (chunk_part blob i)))"

lemma ask_ok: "achieves (served fates P) (ask fates f) (\<lambda>x. served fates (\<lambda>s. P s \<and> x = f s))"
  by (auto simp: achieves_def ask_def served_def)

lemma send_ok:
  assumes "about blob version uri ix" and "\<And>s. ok s \<Longrightarrow> P s \<Longrightarrow> \<exists>s'. cn_execute api ix s = Some s' \<and> Q s'"
  shows "achieves (served fates P) (sendOperatorInstructions api fates [ix]) (\<lambda>_. served fates Q)"
  unfolding achieves_def
proof (intro allI impI)
  fix s
  assume s: "served fates P s"
  then obtain s' where s': "cn_execute api ix (fst s) = Some s'" "Q s'" using assms(2) by (auto simp: served_def)
  moreover have "ok s'" using law_kept [OF _ assms(1) s'(1)] s by (simp add: served_def)
  ultimately show "\<exists>x s'. sendOperatorInstructions api fates [ix] s = (Inr x, s') \<and> served fates Q s'"
    using s by (simp add: sendOperatorInstructions_def served_def)
qed

lemma write_ok:
  assumes "offset < length (chunk_part blob i)" and "i < chunk_count blob"
  shows "achieves (served fates (\<lambda>s. written_upto i s \<and> len_at s i = Some offset))
    (sendOperatorInstructions api fates [Write_chunk (sha256 blob) i offset (take CHUNK_WRITE_BYTES (drop offset (chunk_part blob i)))])
    (\<lambda>_. served fates (\<lambda>s. written_upto i s \<and> len_at s i = Some (min (offset + CHUNK_WRITE_BYTES) (length (chunk_part blob i)))))"
proof (rule send_ok)
  let ?data = "take CHUNK_WRITE_BYTES (drop offset (chunk_part blob i))"
  show "about blob version uri (Write_chunk (sha256 blob) i offset ?data)" by (rule about_write)
  have d: "?data \<noteq> []" "length ?data \<le> CHUNK_WRITE_BYTES" "offset + length ?data \<le> length (chunk_part blob i)"
    "offset + length ?data = min (offset + CHUNK_WRITE_BYTES) (length (chunk_part blob i))"
    using assms(1) by (auto simp: CHUNK_WRITE_BYTES_def)
  show "\<exists>s'. cn_execute api (Write_chunk (sha256 blob) i offset ?data) s = Some s'
      \<and> written_upto i s' \<and> len_at s' i = Some (min (offset + CHUNK_WRITE_BYTES) (length (chunk_part blob i)))"
    if "ok s" "written_upto i s \<and> len_at s i = Some offset" for s
    using law_write [OF that(1) _ assms(2) _ d(1-3)] that(2) d(4) by (auto simp: written_upto_def)
qed

lemma writes_ok:
  assumes "i < chunk_count blob"
  shows "offset \<le> length (chunk_part blob i) \<Longrightarrow>
    achieves (served fates (\<lambda>s. written_upto i s \<and> len_at s i = Some offset))
      (forS (write_offsets offset (length (chunk_part blob i))) (\<lambda>offset.
        sendOperatorInstructions api fates [Write_chunk (sha256 blob) i offset (take CHUNK_WRITE_BYTES (drop offset (chunk_part blob i)))]))
      (\<lambda>_. served fates (written_upto (Suc i)))"
proof (induction "length (chunk_part blob i) - offset" arbitrary: offset rule: less_induct)
  case less
  show ?case
  proof (cases "offset < length (chunk_part blob i)")
    case True
    let ?next = "offset + CHUNK_WRITE_BYTES"
    have rest: "achieves (served fates (\<lambda>s. written_upto i s \<and> len_at s i = Some (min ?next (length (chunk_part blob i)))))
      (forS (write_offsets ?next (length (chunk_part blob i))) (\<lambda>offset.
        sendOperatorInstructions api fates [Write_chunk (sha256 blob) i offset (take CHUNK_WRITE_BYTES (drop offset (chunk_part blob i)))]))
      (\<lambda>_. served fates (written_upto (Suc i)))"
    proof (cases "?next \<le> length (chunk_part blob i)")
      case le: True
      then show ?thesis using True less(1) [of ?next] by (simp add: CHUNK_WRITE_BYTES_def)
    next
      case False
      then show ?thesis
        by (auto simp: written_upto_def less_Suc_eq served_def min_def intro!: achieves_retS)
    qed
    show ?thesis
      unfolding write_offsets.simps [of offset] if_P [OF True] forS.simps
      by (rule achieves_doS_const [OF write_ok [OF True assms] rest])
  next
    case False
    with less(2) show ?thesis
      by (auto simp: written_upto_def less_Suc_eq served_def intro!: achieves_retS)
  qed
qed

lemma init_ok:
  assumes "i < chunk_count blob"
  shows "achieves (served fates (\<lambda>s. written_upto i s \<and> len_at s i = None))
    (sendOperatorInstructions api fates [Init_chunk (sha256 blob) i])
    (\<lambda>_. served fates (\<lambda>s. written_upto i s \<and> len_at s i = Some 0))"
proof (rule send_ok)
  show "\<exists>s'. cn_execute api (Init_chunk (sha256 blob) i) s = Some s' \<and> written_upto i s' \<and> len_at s' i = Some 0"
    if "ok s" "written_upto i s \<and> len_at s i = None" for s
    using law_init [OF that(1) _ assms] that(2) by (auto simp: written_upto_def)
qed simp

text \<open>A chunk that was started goes on from its written length.\<close>

definition started :: "nat \<Rightarrow> nat \<Rightarrow> 's \<Rightarrow> bool" where
  "started i n s \<longleftrightarrow> written_upto i s \<and> len_at s i = Some n"

lemma started_le: "ok s \<Longrightarrow> started i n s \<Longrightarrow> n \<le> length (chunk_part blob i)"
  by (auto simp: started_def law_bound)

lemma chunk_ok:
  assumes "i < chunk_count blob"
  shows "achieves (served fates (written_upto i)) (write_chunk api fates (sha256 blob) blob i)
    (\<lambda>_. served fates (written_upto (Suc i)))"
proof -
  have writes: "achieves (served fates (started i n))
      (forS (write_offsets n (length (chunk_part blob i))) (\<lambda>offset.
        sendOperatorInstructions api fates [Write_chunk (sha256 blob) i offset (take CHUNK_WRITE_BYTES (drop offset (chunk_part blob i)))]))
      (\<lambda>_. served fates (written_upto (Suc i)))" for n
  proof (cases "n \<le> length (chunk_part blob i)")
    case True
    then show ?thesis unfolding started_def [abs_def] by (rule writes_ok [OF assms])
  next
    case False
    then show ?thesis using started_le by (fastforce simp: achieves_def served_def)
  qed
  have init: "achieves (served fates (\<lambda>s. written_upto i s \<and> len_at s i = None))
      (doS (sendOperatorInstructions api fates [Init_chunk (sha256 blob) i]) (\<lambda>_. retS 0)) (\<lambda>n. served fates (started i n))"
    by (rule achieves_doS_const [OF init_ok [OF assms]]) (auto intro!: achieves_retS simp: started_def served_def)
  have read: "achieves (served fates (\<lambda>s. written_upto i s \<and> len_at s i \<noteq> None))
      (doS (ask fates (cn_written api (sha256 blob) i)) (\<lambda>w.
         case w of None \<Rightarrow> throwS (Error ''Account does not exist'') | Some n \<Rightarrow> retS n)) (\<lambda>n. served fates (started i n))"
    by (rule achieves_doS [OF ask_ok]) (auto simp: achieves_def retS_def served_def started_def split: option.split)
  show ?thesis
    unfolding write_chunk_def Let_def
    apply (rule achieves_doS [OF ask_ok])
    apply (rule achieves_doS [where R = "\<lambda>n. served fates (started i n)"])
     apply (case_tac x)
      apply (simp, rule achieves_weaken [OF read], simp add: served_def, assumption)
     apply (simp, rule achieves_weaken [OF init], simp add: served_def, assumption)
    apply (rule writes)
    done
qed

lemma chunks_ok: "achieves (served fates (written_upto 0)) (writeArtifactChunks api fates (sha256 blob) blob)
    (\<lambda>ks. served fates (\<lambda>s. written_upto (chunk_count blob) s \<and> ks = [0..<chunk_count blob]))"
proof -
  have "achieves (served fates (written_upto 0)) (forS [0..<chunk_count blob] (write_chunk api fates (sha256 blob) blob))
      (\<lambda>_. served fates (written_upto (length [0..<chunk_count blob])))"
    by (rule achieves_forS) (simp add: chunk_ok)
  then show ?thesis
    unfolding writeArtifactChunks_def Let_def
    by (rule achieves_doS_const) (auto intro!: achieves_retS simp: served_def)
qed

lemma finalize_ok: "achieves (served fates (written_upto (chunk_count blob)))
    (sendOperatorInstructions api fates [Finalize (sha256 blob) [0..<chunk_count blob]])
    (\<lambda>_. served fates (\<lambda>s. art s = Some (True, STATUS_PENDING)))"
  by (rule send_ok) (auto simp: written_upto_def law_finalize)

lemma review_ok: "achieves (served fates (\<lambda>s. art s = Some (True, STATUS_PENDING)))
    (sendOperatorInstructions api fates [Review (sha256 blob) STATUS_APPROVED uri])
    (\<lambda>_. served fates (\<lambda>s. art s = Some (True, STATUS_APPROVED)))"
  by (rule send_ok) (auto simp: law_review)

lemma fresh_ok: "achieves (served fates (\<lambda>s. art s = None))
    (sendOperatorInstructions api fates [Submit (sha256 blob) version (length blob)])
    (\<lambda>_. served fates (written_upto 0))"
  by (rule send_ok) (auto simp: written_upto_def law_fresh)

abbreviation live :: "(nat \<Rightarrow> fate) \<Rightarrow> 's \<times> nat \<Rightarrow> bool" where
  "live fates \<equiv> served fates (\<lambda>s. art s = Some (True, STATUS_APPROVED))"

lemma written_finalize_ok: "achieves (served fates (written_upto 0))
    (doS (writeArtifactChunks api fates (sha256 blob) blob) (\<lambda>_.
       sendOperatorInstructions api fates [Finalize (sha256 blob) [0..<chunk_count blob]]))
    (\<lambda>_. served fates (\<lambda>s. art s = Some (True, STATUS_PENDING)))"
  by (rule achieves_doS [OF chunks_ok], rule achieves_weaken [OF finalize_ok]) (auto simp: served_def)

lemma resume_ok: "achieves (served fates (\<lambda>s. art s = Some (fin, status)))
    (doS (if \<not> fin
          then doS (writeArtifactChunks api fates (sha256 blob) blob) (\<lambda>_.
               sendOperatorInstructions api fates [Finalize (sha256 blob) [0..<chunk_count blob]])
          else retS ()) (\<lambda>_.
     doS (if status \<noteq> STATUS_APPROVED then sendOperatorInstructions api fates [Review (sha256 blob) STATUS_APPROVED uri]
          else retS ()) (\<lambda>_. retS r)))
    (\<lambda>x s. live fates s \<and> x = r)"
proof (rule achieves_known)
  show "status = STATUS_PENDING \<or> status = STATUS_APPROVED \<and> fin" if "served fates (\<lambda>s. art s = Some (fin, status)) s" for s
    using that law_flags by (auto simp: served_def)
next
  have ret: "achieves (live fates) (retS r) (\<lambda>x s. live fates s \<and> x = r)" by (rule achieves_retS) simp
  assume "status = STATUS_PENDING \<or> status = STATUS_APPROVED \<and> fin"
  then consider (open_pending) "\<not> fin" "status = STATUS_PENDING" | (pending) fin "status = STATUS_PENDING"
    | (approved) fin "status = STATUS_APPROVED" by blast
  then show ?thesis
  proof cases
    case open_pending
    have "achieves (served fates (\<lambda>s. art s = Some (False, STATUS_PENDING)))
      (doS (writeArtifactChunks api fates (sha256 blob) blob) (\<lambda>_.
         sendOperatorInstructions api fates [Finalize (sha256 blob) [0..<chunk_count blob]]))
      (\<lambda>_. served fates (\<lambda>s. art s = Some (True, STATUS_PENDING)))"
      by (rule achieves_weaken [OF written_finalize_ok]) (auto simp: served_def written_upto_def)
    then show ?thesis
      using open_pending by (auto simp: pending_approved intro!: achieves_doS_const [OF _ achieves_doS_const [OF review_ok ret]])
  next
    case pending
    have "achieves (served fates (\<lambda>s. art s = Some (True, STATUS_PENDING))) (retS ())
      (\<lambda>_. served fates (\<lambda>s. art s = Some (True, STATUS_PENDING)))" by (rule achieves_retS)
    then show ?thesis
      using pending by (auto simp: pending_approved intro!: achieves_doS_const [OF _ achieves_doS_const [OF review_ok ret]])
  next
    case approved
    have "achieves (live fates) (retS ()) (\<lambda>_. live fates)" by (rule achieves_retS)
    then show ?thesis
      using approved by (auto intro!: achieves_doS_const [OF _ achieves_doS_const [OF _ ret]])
  qed
qed

lemma submit_ok: "achieves (served fates (\<lambda>_. True)) (submitApprovedArtifact api fates blob uri)
    (\<lambda>x s. live fates s \<and> x = (sha256 blob, [0..<chunk_count blob]))"
proof (rule achieves_known)
  show "artifactFormatVersion blob = Inr version" if "served fates (\<lambda>_. True) s" for s
    using that by (auto simp: served_def intro: law_version)
next
  assume version: "artifactFormatVersion blob = Inr version"
  have fresh: "achieves (served fates (\<lambda>s. art s = None))
      (doS (sendOperatorInstructions api fates [Submit (sha256 blob) version (length blob)]) (\<lambda>_.
       doS (writeArtifactChunks api fates (sha256 blob) blob) (\<lambda>written.
       doS (finalize_review api fates (sha256 blob) written uri) (\<lambda>_. retS (sha256 blob, written)))))
      (\<lambda>x s. live fates s \<and> x = (sha256 blob, [0..<chunk_count blob]))"
    unfolding finalize_review_def
    apply (rule achieves_doS_const [OF fresh_ok], rule achieves_doS [OF chunks_ok])
    apply (rule achieves_known [where C = "x = [0..<chunk_count blob]" for x])
     apply (simp add: served_def)
    apply simp
    apply (rule achieves_doS_const)
     apply (rule achieves_doS_const [OF achieves_weaken [OF finalize_ok] review_ok], simp add: served_def, assumption)
    apply (rule achieves_retS, simp)
    done
  show "achieves (served fates (\<lambda>_. True)) (submitApprovedArtifact api fates blob uri)
    (\<lambda>x s. live fates s \<and> x = (sha256 blob, [0..<chunk_count blob]))"
    unfolding submitApprovedArtifact_def Let_def version doS_liftS
    apply (rule achieves_doS [OF ask_ok], rule achieves_if)
     apply (rule achieves_doS [OF ask_ok], case_tac xa)
      apply (fastforce simp: achieves_def served_def)
     apply (case_tac a, simp only: option.case prod.case, rule achieves_weaken [OF resume_ok], simp add: served_def, simp)
    apply (rule achieves_weaken [OF fresh])
     apply (simp add: served_def del: not_None_eq split_paired_All)
    apply assumption
    done
qed

end

end
