(* ===== verification/Operator_Program.thy ===== *)
theory Operator_Program
  imports Operator_Resume Slot_Replay
begin

text \<open>
  The program keeps the contract of an upload: the accounts of a blob stay a prefix of it, whatever the client sends
  about it. With it the client's lemmas hold of the program, and a finished upload leaves the accounts that the
  verifier reads (\<open>published\<close>).
\<close>

section \<open>The accounts of a blob\<close>

definition chunk_consistent :: "buffer \<Rightarrow> store \<Rightarrow> nat \<Rightarrow> bool" where
  "chunk_consistent blob st i \<longleftrightarrow>
     (case st_chunks st (sha256 blob, i) of None \<Rightarrow> True
      | Some c \<Rightarrow> i < chunk_count blob \<and> fc_written c \<le> length (chunk_part blob i) \<and>
          fc_data c = take (fc_written c) (chunk_part blob i) @ zeros (1024 - fc_written c))"

definition chunk_complete :: "buffer \<Rightarrow> store \<Rightarrow> nat \<Rightarrow> bool" where
  "chunk_complete blob st i \<longleftrightarrow>
     st_chunks st (sha256 blob, i) =
       Some \<lparr>fc_written = length (chunk_part blob i),
             fc_data = chunk_part blob i @ zeros (1024 - length (chunk_part blob i))\<rparr>"

text \<open>The header that the submission of a blob makes, finalized only when all chunks are there, approved only then.\<close>

definition header_consistent :: "program_env \<Rightarrow> buffer \<Rightarrow> int \<Rightarrow> store \<Rightarrow> bool" where
  "header_consistent env blob version st \<longleftrightarrow>
     (case st_artifacts st (sha256 blob) of None \<Rightarrow> \<forall>i. st_chunks st (sha256 blob, i) = None
      | Some a \<Rightarrow> fa_publisher a = pe_signer env \<and> fa_version a = version \<and> fa_blobLen a = length blob
          \<and> fa_chunkCount a = chunk_count blob
          \<and> (fa_status a = STATUS_PENDING \<or> fa_status a = STATUS_APPROVED \<and> fa_finalized a)
          \<and> (fa_finalized a \<longrightarrow> (\<forall>i < chunk_count blob. chunk_complete blob st i)))"

definition consistent :: "program_env \<Rightarrow> buffer \<Rightarrow> int \<Rightarrow> store \<Rightarrow> bool" where
  "consistent env blob version st \<longleftrightarrow> header_consistent env blob version st \<and> (\<forall>i. chunk_consistent blob st i)"

text \<open>What is asked of a blob, its URI and its uploader for the program to take them.\<close>

definition acceptable :: "program_env \<Rightarrow> buffer \<Rightarrow> buffer \<Rightarrow> int \<Rightarrow> bool" where
  "acceptable env blob uri version \<longleftrightarrow>
     artifactFormatVersion blob = Inr version \<and> known_version version \<and> blob \<noteq> []
     \<and> length blob \<le> MAX_COMPILED_ARTIFACT_BYTES \<and> length uri \<le> 200
     \<and> pe_signer env = pe_admin env \<and> pe_accepts env version blob"

section \<open>Parts of a blob\<close>

lemma length_chunk_part: "length (chunk_part blob i) = min 1024 (length blob - i * 1024)"
  by (simp add: chunk_part_def)

lemma chunk_part_nonempty: "i < chunk_count blob \<Longrightarrow> 0 < length (chunk_part blob i)"
  by (auto simp: chunk_part_def chunk_count_def)

lemma expected_len_part:
  "fa_blobLen a = length blob \<Longrightarrow> i < chunk_count blob \<Longrightarrow> expected_len a i = Some (length (chunk_part blob i))"
  by (auto simp: expected_len_def length_chunk_part chunk_count_def)

lemma concat_parts: "concat (map (chunk_part blob) [0..<chunk_count blob]) = blob"
proof -
  have "length blob \<le> chunk_count blob * 1024" by (simp add: chunk_count_def)
  then show ?thesis by (simp add: chunk_part_def [abs_def] concat_pieces)
qed

lemma chunk_count_bound: "length blob \<le> MAX_COMPILED_ARTIFACT_BYTES \<Longrightarrow> chunk_count blob \<le> 8"
  by (simp add: chunk_count_def MAX_COMPILED_ARTIFACT_BYTES_def)

lemma written_data:
  assumes "w \<le> length part" "length part \<le> 1024" "w + length data \<le> length part" "data = take (length data) (drop w part)"
  shows "take w (take w part @ zeros (1024 - w)) @ data @ drop (w + length data) (take w part @ zeros (1024 - w))
    = take (w + length data) part @ zeros (1024 - (w + length data))"
proof -
  have "take (w + length data) part = take w part @ data" using assms(4) by (metis take_add)
  moreover have "drop (w + length data) (take w part @ zeros (1024 - w)) = zeros (1024 - (w + length data))"
    using assms(1,3) by (simp add: zeros_def)
  ultimately show ?thesis using assms(1) by simp
qed

section \<open>Each instruction\<close>

lemma chunk_complete_written:
  "chunk_consistent blob st i \<Longrightarrow> st_chunks st (sha256 blob, i) = Some c \<Longrightarrow> fc_written c = length (chunk_part blob i) \<Longrightarrow>
    chunk_complete blob st i"
  by (cases c) (simp add: chunk_consistent_def chunk_complete_def)

lemma load_chunk_complete:
  assumes "fa_blobLen a = length blob" "i < chunk_count blob" "chunk_complete blob st i"
  shows "load_chunk a (sha256 blob) st i = Some (chunk_part blob i)"
  using assms by (simp add: load_chunk_def chunk_complete_def expected_len_part)

lemma load_blob_complete:
  assumes "fa_blobLen a = length blob" "fa_chunkCount a = chunk_count blob" "blob \<noteq> []"
    "\<And>i. i < chunk_count blob \<Longrightarrow> chunk_complete blob st i"
  shows "load_blob a (sha256 blob) st [0..<chunk_count blob] = Some blob"
proof -
  have "concat (map (\<lambda>i. the (load_chunk a (sha256 blob) st i)) [0..<chunk_count blob])
      = concat (map (chunk_part blob) [0..<chunk_count blob])"
    using assms by (intro arg_cong [where f = concat]) (simp add: load_chunk_complete)
  moreover have "chunk_count blob \<noteq> 0" using assms(3) by (cases blob) (simp_all add: chunk_count_def)
  ultimately show ?thesis
    using assms by (simp add: load_blob_def list_ex_iff load_chunk_complete concat_parts Let_def)
qed

lemma load_chunk_written:
  "load_chunk a hash st i \<noteq> None \<Longrightarrow> \<exists>c n. st_chunks st (hash, i) = Some c \<and> expected_len a i = Some n \<and> fc_written c = n"
  by (auto simp: load_chunk_def split: option.splits if_splits)

lemma load_blob_written:
  assumes "load_blob a hash st remaining = Some b" "i < fa_chunkCount a"
  shows "\<exists>c n. st_chunks st (hash, i) = Some c \<and> expected_len a i = Some n \<and> fc_written c = n"
  using assms by (intro load_chunk_written) (auto simp: load_blob_def list_ex_iff split: if_splits)

text \<open>An accepted instruction about the blob keeps its accounts consistent.\<close>

lemma kept_submit:
  "consistent env blob version st \<Longrightarrow> program_execute env (Submit (sha256 blob) version (length blob)) st = Some st' \<Longrightarrow>
    consistent env blob version st'"
  by (auto simp: consistent_def header_consistent_def chunk_consistent_def chunk_count_def split: if_splits)

lemma kept_init:
  assumes "consistent env blob version st" "program_execute env (Init_chunk (sha256 blob) i) st = Some st'"
  shows "consistent env blob version st'"
  using assms
  by (auto simp: consistent_def header_consistent_def chunk_consistent_def open_artifact_def
      split: if_splits option.splits)

lemma kept_write:
  assumes st: "consistent env blob version st" and data: "data = take (length data) (drop offset (chunk_part blob i))"
    and step: "program_execute env (Write_chunk (sha256 blob) i offset data) st = Some st'"
  shows "consistent env blob version st'"
proof -
  obtain a c n where a: "open_artifact env (sha256 blob) st = Some a" "i < fa_chunkCount a"
    and c: "st_chunks st (sha256 blob, i) = Some c" "expected_len a i = Some n" "offset + length data \<le> n" "fc_written c = offset"
    and st': "st' = st\<lparr>st_chunks := (st_chunks st)((sha256 blob, i) \<mapsto>
      \<lparr>fc_written = offset + length data, fc_data = take offset (fc_data c) @ data @ drop (offset + length data) (fc_data c)\<rparr>)\<rparr>"
    using step by (auto split: option.splits if_splits)
  have art: "st_artifacts st (sha256 blob) = Some a" "\<not> fa_finalized a" "fa_blobLen a = length blob" "fa_chunkCount a = chunk_count blob"
    using a(1) st by (auto simp: open_artifact_def consistent_def header_consistent_def split: option.splits if_splits)
  have n: "n = length (chunk_part blob i)" using c(2) art a(2) by (simp add: expected_len_part)
  have w: "offset \<le> length (chunk_part blob i)" "fc_data c = take offset (chunk_part blob i) @ zeros (1024 - offset)"
    using st c(1,4) by (auto simp: consistent_def chunk_consistent_def dest!: spec [of _ i])
  have "chunk_consistent blob st' j" for j
  proof (cases "j = i")
    case True
    have "offset + length data \<le> length (chunk_part blob i)" "length (chunk_part blob i) \<le> 1024"
      using c(3) n by (simp_all add: length_chunk_part)
    with written_data [OF w(1) _ _ data] show ?thesis
      using True a(2) art(4) w(2) by (simp add: chunk_consistent_def st')
  next
    case False
    then show ?thesis using st by (auto simp: consistent_def chunk_consistent_def st')
  qed
  moreover have "header_consistent env blob version st'"
    using st art by (simp add: consistent_def header_consistent_def st')
  ultimately show ?thesis by (simp add: consistent_def)
qed

lemma kept_finalize:
  assumes st: "consistent env blob version st" and step: "program_execute env (Finalize (sha256 blob) chunks) st = Some st'"
  shows "consistent env blob version st'"
proof -
  obtain a b where a: "open_artifact env (sha256 blob) st = Some a" and b: "load_blob a (sha256 blob) st chunks = Some b"
    and st': "st' = st\<lparr>st_artifacts := (st_artifacts st)(sha256 blob \<mapsto> a\<lparr>fa_finalized := True\<rparr>)\<rparr>"
    using step by (auto split: option.splits if_splits)
  have art: "st_artifacts st (sha256 blob) = Some a" "fa_blobLen a = length blob" "fa_chunkCount a = chunk_count blob"
    using a st by (auto simp: open_artifact_def consistent_def header_consistent_def split: option.splits if_splits)
  have "chunk_complete blob st i" if "i < chunk_count blob" for i
    using load_blob_written [OF b, of i] that art st chunk_complete_written
    by (auto simp: expected_len_part consistent_def)
  then show ?thesis
    using st art by (auto simp: consistent_def header_consistent_def chunk_consistent_def chunk_complete_def st')
qed

lemma kept_review:
  assumes "consistent env blob version st" "program_execute env (Review (sha256 blob) STATUS_APPROVED uri) st = Some st'"
  shows "consistent env blob version st'"
  using assms
  by (auto simp: consistent_def header_consistent_def chunk_consistent_def chunk_complete_def split: option.splits if_splits)

lemma kept_about:
  assumes "consistent env blob version st" "about blob version uri ix" "program_execute env ix st = Some st'"
  shows "consistent env blob version st'"
  using assms
  by (cases ix) (auto simp del: program_execute.simps intro: kept_submit kept_init kept_write kept_finalize kept_review)

section \<open>Reachable states\<close>

definition fresh_store :: store where
  "fresh_store = \<lparr>st_artifacts = \<lambda>_. None, st_chunks = \<lambda>_. None\<rparr>"

text \<open>The states of the program under any instructions of any signers; \<open>accepts\<close> are the checks of the formats.\<close>

inductive program_reach :: "(int \<Rightarrow> buffer \<Rightarrow> bool) \<Rightarrow> store \<Rightarrow> bool" for accepts where
  fresh: "program_reach accepts fresh_store"
| execute: "program_reach accepts st \<Longrightarrow> pe_accepts env = accepts \<Longrightarrow> program_execute env ix st = Some st' \<Longrightarrow>
    program_reach accepts st'"

section \<open>The program keeps the contract\<close>

abbreviation uploadable :: "program_env \<Rightarrow> buffer \<Rightarrow> buffer \<Rightarrow> int \<Rightarrow> store \<Rightarrow> bool" where
  "uploadable env blob uri version st \<equiv>
     acceptable env blob uri version \<and> consistent env blob version st \<and> program_reach (pe_accepts env) st"

lemmas contract_defs =
  program_api_def consistent_def header_consistent_def open_artifact_def acceptable_def pending_approved

lemma open_artifact_here:
  assumes "consistent env blob version st" "st_artifacts st (sha256 blob) = Some a" "\<not> fa_finalized a" "fa_status a = STATUS_PENDING"
  shows "open_artifact env (sha256 blob) st = Some a" "fa_blobLen a = length blob" "fa_chunkCount a = chunk_count blob"
    "fa_version a = version"
  using assms by (simp_all add: open_artifact_def consistent_def header_consistent_def)

interpretation upload: upload_laws "program_api env" blob uri version "uploadable env blob uri version"
proof (unfold_locales, goal_cases)
  case (1 s)
  then show ?case by (simp add: acceptable_def)
next
  case (2 s ix s')
  then show ?case by (auto simp: program_api_def simp del: program_execute.simps intro: kept_about program_reach.execute)
next
  case (3 s fin status)
  then show ?case by (auto simp: contract_defs)
next
  case (4 s)
  then show ?case
    using chunk_count_bound [of blob] by (auto simp: contract_defs chunk_count_def)
next
  case (5 s i)
  then show ?case
    by (auto simp: program_api_def open_artifact_here)
next
  case (6 s i offset data)
  then show ?case
    by (auto simp: program_api_def open_artifact_here expected_len_part CHUNK_WRITE_BYTES_def)
next
  case (7 s i n)
  then show ?case
    by (auto simp: program_api_def consistent_def chunk_consistent_def dest!: spec [of _ i])
next
  case (8 s)
  then obtain a where a: "st_artifacts s (sha256 blob) = Some a" "\<not> fa_finalized a" "fa_status a = STATUS_PENDING"
    by (auto simp: program_api_def)
  note here = open_artifact_here [OF conjunct1 [OF conjunct2 [OF 8(1)]] a]
  have "chunk_complete blob s i" if "i < chunk_count blob" for i
    using 8 that by (auto simp: program_api_def consistent_def intro: chunk_complete_written)
  then have "load_blob a (sha256 blob) s [0..<chunk_count blob] = Some blob"
    using here 8(1) by (intro load_blob_complete) (auto simp: acceptable_def)
  then show ?case
    using here a 8(1) by (simp add: program_api_def acceptable_def)
next
  case (9 s)
  then show ?case by (auto simp: contract_defs STATUS_PENDING_def STATUS_APPROVED_def STATUS_DEPRECATED_def)
qed

section \<open>Runs\<close>

text \<open>The state after a number of runs, each with its fates, whatever they return.\<close>

primrec after_runs :: "'s chain_api \<Rightarrow> (nat \<Rightarrow> fate) list \<Rightarrow> buffer \<Rightarrow> buffer \<Rightarrow> 's \<Rightarrow> 's" where
  "after_runs api [] blob uri st = st"
| "after_runs api (fates # tries) blob uri st =
     after_runs api tries blob uri (fst (snd (submitApprovedArtifact api fates blob uri (st, 0))))"

text \<open>The accounts as the verifier decodes them.\<close>

definition stored_header :: "store \<Rightarrow> buffer \<Rightarrow> artifact_header option" where
  "stored_header st hash = map_option (\<lambda>a. \<lparr>ah_compiledArtifactHash = hash, ah_isFinalized = fa_finalized a,
     ah_status = fa_status a, ah_blobLen = fa_blobLen a, ah_chunkCount = fa_chunkCount a\<rparr>) (st_artifacts st hash)"

definition stored_chunk :: "store \<Rightarrow> buffer \<Rightarrow> nat \<Rightarrow> artifact_chunk option" where
  "stored_chunk st hash i = map_option (\<lambda>c. \<lparr>ac_compiledArtifactHash = hash, ac_chunkIndex = i,
     ac_writtenLen = fc_written c, ac_data = fc_data c\<rparr>) (st_chunks st (hash, i))"

text \<open>A world, as the verifier sees it, in which the accounts of a store are.\<close>

definition shows_store :: "world \<Rightarrow> buffer \<Rightarrow> store \<Rightarrow> bool" where
  "shows_store w programId st \<longleftrightarrow>
     (\<forall>hash h. stored_header st hash = Some h \<longrightarrow>
        holds w (deriveApprovedArtifactPda w programId hash) (w_decodeHeader w) h) \<and>
     (\<forall>hash i c. stored_chunk st hash i = Some c \<longrightarrow>
        holds w (deriveApprovedArtifactChunkPda w programId hash i) (w_decodeChunk w) c)"

lemma after_runs_uploadable:
  "uploadable env blob uri version st \<Longrightarrow> uploadable env blob uri version (after_runs (program_api env) tries blob uri st)"
proof (induction tries arbitrary: st)
  case (Cons fates tries)
  show ?case
    using upload.keeps_submit [of env blob uri version fates] Cons by (simp add: keeps_def)
qed simp

lemma stored_published:
  assumes "consistent env blob version st" and "cn_artifact (program_api env) (sha256 blob) st = Some (True, STATUS_APPROVED)"
  shows "stored_header st (sha256 blob) = Some (header_of blob)"
    "i < chunk_count blob \<Longrightarrow> stored_chunk st (sha256 blob) i = Some (chunk_of blob i)"
  using assms
  by (auto simp: program_api_def consistent_def header_consistent_def chunk_complete_def stored_header_def stored_chunk_def
      header_of_def chunk_of_def chunk_part_def Let_def)

lemma shown_published:
  assumes "consistent env blob version st" "cn_artifact (program_api env) (sha256 blob) st = Some (True, STATUS_APPROVED)"
    "shows_store w programId st"
  shows "published w programId blob"
  using stored_published [OF assms(1,2)] assms(3) by (auto simp: published_def shows_store_def)

lemma submit_served:
  assumes "uploadable env blob uri version st"
  shows "\<exists>st' k. submitApprovedArtifact (program_api env) (\<lambda>_. Served) blob uri (st, 0)
      = (Inr (sha256 blob, [0..<chunk_count blob]), st', k)
    \<and> uploadable env blob uri version st' \<and> cn_artifact (program_api env) (sha256 blob) st' = Some (True, STATUS_APPROVED)"
proof -
  note served = upload.submit_ok [of env blob uri version "\<lambda>_. Served", unfolded achieves_def upload.served_def]
  from served [THEN spec, of "(st, 0)"] assms show ?thesis by auto
qed

lemma fresh_store_consistent: "consistent env blob version fresh_store"
  by (simp add: fresh_store_def consistent_def header_consistent_def chunk_consistent_def)

text \<open>C4: an upload can be resumed. From a fresh chain, after any number of runs of the upload that fail at any
  request (before or after it is executed), a run whose requests are served returns the hash and the chunks of the
  blob; the chain then holds the approved header and every chunk, and whoever reads these accounts reconstructs the
  blob.\<close>

theorem upload_resumes:
  assumes "acceptable env blob uri version"
  shows "\<exists>st k. submitApprovedArtifact (program_api env) (\<lambda>_. Served) blob uri
        (after_runs (program_api env) tries blob uri fresh_store, 0)
      = (Inr (sha256 blob, [0..<chunk_count blob]), st, k)
    \<and> stored_header st (sha256 blob) = Some (header_of blob)
    \<and> (\<forall>w programId. shows_store w programId st \<longrightarrow>
         committed_blob w programId (sha256 blob) (header_of blob) = Inr blob)"
proof -
  have "uploadable env blob uri version (after_runs (program_api env) tries blob uri fresh_store)"
    using assms by (intro after_runs_uploadable) (simp add: fresh_store_consistent program_reach.fresh)
  from submit_served [OF this] show ?thesis
    by (metis stored_published(1) shown_published committed_blob_ok)
qed

definition sample_env :: program_env where
  "sample_env = \<lparr>pe_signer = zeros 32, pe_admin = zeros 32,
     pe_accepts = \<lambda>version blob. version = FORMAT_VERSION_SLOT \<and> is_ok (parseSlotArtifact blob)\<rparr>"

lemma sample_version: "artifactFormatVersion sample_game_bytes = Inr FORMAT_VERSION_SLOT"
  by code_simp

lemma sample_acceptable: "acceptable sample_env sample_game_bytes [] FORMAT_VERSION_SLOT"
proof -
  have "sample_game_bytes \<noteq> []" "length sample_game_bytes \<le> MAX_COMPILED_ARTIFACT_BYTES"
    by (simp_all add: sample_game_bytes_def SLOT_MAGIC_def slot_bytes_def MAX_COMPILED_ARTIFACT_BYTES_def sample_game_def
        reel_bytes_def paytable_row_bytes_def)
  then show ?thesis
    by (simp add: acceptable_def sample_env_def sample_game_parses sample_version known_version_def FORMAT_VERSION_SLOT_def)
qed

text \<open>One run dies at its first request, one loses the answer of its second; the third completes the upload.\<close>

lemma upload_resumes_witness:
  "\<exists>st k. submitApprovedArtifact (program_api sample_env) (\<lambda>_. Served) sample_game_bytes []
        (after_runs (program_api sample_env) [\<lambda>_. Lost, \<lambda>n. if n = 1 then Unseen else Served] sample_game_bytes [] fresh_store, 0)
      = (Inr (sha256 sample_game_bytes, [0..<chunk_count sample_game_bytes]), st, k)
    \<and> stored_header st (sha256 sample_game_bytes) = Some (header_of sample_game_bytes)"
  using upload_resumes [OF sample_acceptable, of "[\<lambda>_. Lost, \<lambda>n. if n = 1 then Unseen else Served]"] by blast

section \<open>What is approved\<close>

definition sealed :: "(int \<Rightarrow> buffer \<Rightarrow> bool) \<Rightarrow> store \<Rightarrow> buffer \<Rightarrow> program_artifact \<Rightarrow> bool" where
  "sealed accepts st hash a \<longleftrightarrow>
     (\<exists>blob. load_blob a hash st [0..<fa_chunkCount a] = Some blob \<and> sha256 blob = hash \<and> accepts (fa_version a) blob)"

definition well_sealed :: "(int \<Rightarrow> buffer \<Rightarrow> bool) \<Rightarrow> store \<Rightarrow> bool" where
  "well_sealed accepts st \<longleftrightarrow>
     (\<forall>hash a. st_artifacts st hash = Some a \<longrightarrow>
        (fa_status a = STATUS_APPROVED \<longrightarrow> fa_finalized a) \<and> (fa_finalized a \<longrightarrow> sealed accepts st hash a))"

lemma sealed_same:
  assumes "fa_blobLen a' = fa_blobLen a" "fa_chunkCount a' = fa_chunkCount a" "fa_version a' = fa_version a"
    "\<And>i. st_chunks st' (hash, i) = st_chunks st (hash, i)"
  shows "sealed accepts st' hash a' = sealed accepts st hash a"
proof -
  have "expected_len a' = expected_len a" by (simp add: fun_eq_iff expected_len_def assms)
  then have "load_chunk a' hash st' = load_chunk a hash st" by (simp add: fun_eq_iff load_chunk_def assms)
  then show ?thesis by (simp add: sealed_def load_blob_def assms)
qed

lemma well_sealed_submit:
  assumes "well_sealed accepts st" "program_execute env (Submit hash version n) st = Some st'"
  shows "well_sealed accepts st'"
proof -
  define a where "a = \<lparr>fa_publisher = pe_signer env, fa_status = STATUS_PENDING, fa_finalized = False, fa_version = version,
    fa_blobLen = n, fa_chunkCount = (n + 1023) div 1024\<rparr>"
  then have a: "fa_status a = STATUS_PENDING" "\<not> fa_finalized a" by simp_all
  have st': "st' = st\<lparr>st_artifacts := (st_artifacts st)(hash \<mapsto> a)\<rparr>"
    using assms(2) by (simp add: a_def split: if_splits)
  have "sealed accepts st' h b = sealed accepts st h b" for h b by (rule sealed_same) (simp_all add: st')
  with assms(1) a pending_approved show ?thesis by (auto simp: well_sealed_def st')
qed

text \<open>Chunks change only while their artifact is open.\<close>

lemma well_sealed_chunk:
  assumes "well_sealed accepts st" "open_artifact env hash st = Some a"
  shows "well_sealed accepts (st\<lparr>st_chunks := (st_chunks st)((hash, i) \<mapsto> c)\<rparr>)"
proof -
  let ?st = "st\<lparr>st_chunks := (st_chunks st)((hash, i) \<mapsto> c)\<rparr>"
  have "sealed accepts ?st h b = sealed accepts st h b" if "h \<noteq> hash" for h b
    by (rule sealed_same) (use that in auto)
  moreover have "st_artifacts st hash = Some a" "\<not> fa_finalized a" "fa_status a \<noteq> STATUS_APPROVED"
    using assms(2) pending_approved by (auto simp: open_artifact_def split: option.splits if_splits)
  moreover have "st_artifacts ?st = st_artifacts st" by simp
  ultimately show ?thesis
    using assms(1) unfolding well_sealed_def by (metis option.inject)
qed

lemma well_sealed_finalize:
  assumes "well_sealed accepts st" "pe_accepts env = accepts" "program_execute env (Finalize hash remaining) st = Some st'"
  shows "well_sealed accepts st'"
proof -
  obtain a b where a: "open_artifact env hash st = Some a" "load_blob a hash st remaining = Some b"
    "sha256 b = hash" "accepts (fa_version a) b"
    and st': "st' = st\<lparr>st_artifacts := (st_artifacts st)(hash \<mapsto> a\<lparr>fa_finalized := True\<rparr>)\<rparr>"
    using assms(2,3) by (auto split: option.splits if_splits)
  have "remaining = [0..<fa_chunkCount a]" using a(2) by (auto simp: load_blob_def split: if_splits)
  then have "sealed accepts st hash a" using a by (auto simp: sealed_def)
  moreover have "sealed accepts st' h b = sealed accepts st h b" for h b by (rule sealed_same) (simp_all add: st')
  moreover have "sealed accepts st' hash (a\<lparr>fa_finalized := True\<rparr>) = sealed accepts st hash a"
    by (rule sealed_same) (simp_all add: st')
  ultimately show ?thesis using assms(1) by (auto simp: well_sealed_def st')
qed

lemma well_sealed_review:
  assumes "well_sealed accepts st" "program_execute env (Review hash status uri) st = Some st'"
  shows "well_sealed accepts st'"
proof -
  obtain a where a: "st_artifacts st hash = Some a" "status = STATUS_APPROVED \<longrightarrow> fa_finalized a"
    and st': "st' = st\<lparr>st_artifacts := (st_artifacts st)(hash \<mapsto> a\<lparr>fa_status := status\<rparr>)\<rparr>"
    using assms(2) by (auto split: option.splits if_splits)
  have "sealed accepts st' h b = sealed accepts st h b" for h b by (rule sealed_same) (simp_all add: st')
  moreover have "sealed accepts st' hash (a\<lparr>fa_status := status\<rparr>) = sealed accepts st hash a"
    by (rule sealed_same) (simp_all add: st')
  ultimately show ?thesis using assms(1) a by (auto simp: well_sealed_def st')
qed

lemma well_sealed_execute:
  assumes "well_sealed accepts st" "pe_accepts env = accepts" "program_execute env ix st = Some st'"
  shows "well_sealed accepts st'"
proof (cases ix)
  case (Init_chunk hash i)
  with assms show ?thesis by (auto intro!: well_sealed_chunk split: option.splits if_splits)
next
  case (Write_chunk hash i offset data)
  with assms show ?thesis by (auto intro!: well_sealed_chunk split: option.splits if_splits)
qed (use assms in \<open>auto simp del: program_execute.simps intro: well_sealed_submit well_sealed_finalize well_sealed_review\<close>)

lemma reach_well_sealed: "program_reach accepts st \<Longrightarrow> well_sealed accepts st"
proof (induction rule: program_reach.induct)
  case fresh
  show ?case by (simp add: well_sealed_def fresh_store_def)
qed (rule well_sealed_execute)

text \<open>C5: in every state that the program can reach, an approved artifact is finalized, its chunks are complete, and
  the bytes they hold have the hash it is named by and were accepted by the checks of its format.\<close>

theorem approved_artifact_is_its_hash:
  assumes "program_reach accepts st" and "st_artifacts st hash = Some a" and "fa_status a = STATUS_APPROVED"
  shows "\<exists>blob. load_blob a hash st [0..<fa_chunkCount a] = Some blob \<and> sha256 blob = hash \<and> accepts (fa_version a) blob"
  using reach_well_sealed [OF assms(1)] assms(2,3) by (auto simp: well_sealed_def sealed_def)

lemma approved_artifact_is_its_hash_witness:
  "\<exists>st a blob. st_artifacts st (sha256 sample_game_bytes) = Some a
    \<and> load_blob a (sha256 sample_game_bytes) st [0..<fa_chunkCount a] = Some blob
    \<and> sha256 blob = sha256 sample_game_bytes \<and> pe_accepts sample_env (fa_version a) blob"
proof -
  have "uploadable sample_env sample_game_bytes [] FORMAT_VERSION_SLOT fresh_store"
    by (simp add: sample_acceptable fresh_store_consistent program_reach.fresh)
  from submit_served [OF this] obtain st where reach: "program_reach (pe_accepts sample_env) st"
    and "cn_artifact (program_api sample_env) (sha256 sample_game_bytes) st = Some (True, STATUS_APPROVED)" by blast
  then obtain a where "st_artifacts st (sha256 sample_game_bytes) = Some a" "fa_status a = STATUS_APPROVED"
    by (auto simp: program_api_def)
  with approved_artifact_is_its_hash [OF reach] show ?thesis by blast
qed

end
