(* ===== verification/Slot_Evidence.thy ===== *)
theory Slot_Evidence
  imports Verify
begin

text \<open>
  The slots whose hashes make the randomness of a draw: \<^verbatim>\<open>resolveSlotEvidence\<close> of \<^verbatim>\<open>sdk/operator.ts\<close>, which the client
  reads off the SlotHashes account to claim the winners of a snapshot draw, and \<^verbatim>\<open>resolve_slot_hashes\<close> of
  \<^verbatim>\<open>math/rng_v2.rs\<close>, by which the program settles it. Both take, for each target in turn, the least slot at or after it
  and after the previous one; on a well-formed account they agree, and new slots do not change what they found.
\<close>

section \<open>The client\<close>

type_synonym slot_entry = "int \<times> buffer"

definition entry_start :: "nat \<Rightarrow> nat" where
  "entry_start index = 8 + index * 40"

text \<open>The scan of the entries from \<open>index\<close> on; \<open>selected\<close> is the pair of \<^verbatim>\<open>selectedSlot\<close> and \<^verbatim>\<open>selectedHash\<close>.\<close>

function scan_entries ::
  "buffer \<Rightarrow> nat \<Rightarrow> int \<Rightarrow> int \<Rightarrow> nat \<Rightarrow> slot_entry option \<Rightarrow> slot_entry option result" where
  "scan_entries data entryCount previous target index selected =
     (if index < entryCount then
        (case runR readU64LE data (entry_start index) of Inl e \<Rightarrow> Inl e
         | Inr slot \<Rightarrow>
             if slot \<le> previous then scan_entries data entryCount previous target (Suc index) selected
             else if slot = target \<or> target < slot \<and> (case selected of None \<Rightarrow> True | Some (s, _) \<Rightarrow> slot < s) then
               (let hash = subarray data (entry_start index + 8) (entry_start index + 40) in
                if slot = target then Inr (Some (slot, hash))
                else scan_entries data entryCount previous target (Suc index) (Some (slot, hash)))
             else scan_entries data entryCount previous target (Suc index) selected)
      else Inr selected)"
  by pat_completeness auto

termination
  by (relation "measure (\<lambda>(data, entryCount, previous, target, index, selected). entryCount - index)") auto

declare scan_entries.simps [simp del]

text \<open>The message also names the target.\<close>

definition no_slot_entry :: js_error where
  "no_slot_entry = Error ''no SlotHashes entry at or after slot''"

primrec resolve_targets :: "buffer \<Rightarrow> nat \<Rightarrow> int \<Rightarrow> int list \<Rightarrow> slot_entry list result" where
  "resolve_targets data entryCount previous [] = Inr []"
| "resolve_targets data entryCount previous (target # targets) =
     bindE (scan_entries data entryCount previous target 0 None) (\<lambda>selected.
     case selected of None \<Rightarrow> Inl no_slot_entry
     | Some entry \<Rightarrow>
         bindE (resolve_targets data entryCount (fst entry) targets) (\<lambda>rest. Inr (entry # rest)))"

definition resolveSlotEvidence :: "buffer option \<Rightarrow> int list \<Rightarrow> (int list \<times> buffer list) result" where
  "resolveSlotEvidence account targetSlots =
     (case account of None \<Rightarrow> Inl (Error ''SlotHashes sysvar not found'')
      | Some data \<Rightarrow>
          bindE (runR readU64LE data 0) (\<lambda>entryCount.
          bindE (resolve_targets data (nat entryCount) 0 targetSlots) (\<lambda>entries.
          Inr (map fst entries, map snd entries))))"

section \<open>The program\<close>

definition u64_MAX :: int where "u64_MAX = 18446744073709551615"

definition read_slot_hash_entry :: "buffer \<Rightarrow> nat \<Rightarrow> slot_entry option" where
  "read_slot_hash_entry data index =
     (if entry_start index + 40 \<le> length data then
        Some (le_uint (take 8 (drop (entry_start index) data)), take 32 (drop (entry_start index + 8) data))
      else None)"

text \<open>The sentinel of the program is the largest slot.\<close>

function select_entry :: "buffer \<Rightarrow> nat \<Rightarrow> int \<Rightarrow> int \<Rightarrow> nat \<Rightarrow> slot_entry \<Rightarrow> slot_entry option" where
  "select_entry data len previous_resolved_slot target_slot entry_index selected =
     (if entry_index < len then
        (case read_slot_hash_entry data entry_index of None \<Rightarrow> None
         | Some (slot, hash) \<Rightarrow>
             if slot \<le> previous_resolved_slot then select_entry data len previous_resolved_slot target_slot (Suc entry_index) selected
             else if slot = target_slot then Some (slot, hash)
             else if target_slot < slot \<and> slot < fst selected
             then select_entry data len previous_resolved_slot target_slot (Suc entry_index) (slot, hash)
             else select_entry data len previous_resolved_slot target_slot (Suc entry_index) selected)
      else Some selected)"
  by pat_completeness auto

termination
  by (relation "measure (\<lambda>(data, len, previous, target, index, selected). len - index)") auto

declare select_entry.simps [simp del]

primrec select_targets :: "buffer \<Rightarrow> nat \<Rightarrow> int \<Rightarrow> int list \<Rightarrow> slot_entry list option" where
  "select_targets data len previous [] = Some []"
| "select_targets data len previous (target # targets) =
     (case select_entry data len previous target 0 (u64_MAX, zeros 32) of None \<Rightarrow> None
      | Some selected \<Rightarrow>
          if fst selected = u64_MAX then None
          else map_option ((#) selected) (select_targets data len (fst selected) targets))"

definition resolve_slot_hashes :: "buffer \<Rightarrow> int list \<Rightarrow> (int list \<times> buffer list) option" where
  "resolve_slot_hashes data target_slots =
     (if length data < 8 then None
      else map_option (\<lambda>entries. (map fst entries, map snd entries))
        (select_targets data (nat (le_uint (take 8 data))) 0 target_slots))"

section \<open>The entries of a well-formed account\<close>

definition slot_entry_ok :: "slot_entry \<Rightarrow> bool" where
  "slot_entry_ok e \<longleftrightarrow> 0 \<le> fst e \<and> fst e < u64_MAX \<and> length (snd e) = 32"

definition slot_hashes_data :: "slot_entry list \<Rightarrow> buffer" where
  "slot_hashes_data entries = le_bytes 8 (int (length entries)) @ concat (map (\<lambda>e. le_bytes 8 (fst e) @ snd e) entries)"

text \<open>The scan, read off the list of entries.\<close>

definition closer :: "slot_entry \<Rightarrow> slot_entry option \<Rightarrow> bool" where
  "closer e selected \<longleftrightarrow> (\<forall>s. selected = Some s \<longrightarrow> fst e < fst s)"

lemma closer_simps: "closer e None" "closer e (Some s) \<longleftrightarrow> fst e < fst s"
  by (simp_all add: closer_def)

primrec pick :: "int \<Rightarrow> int \<Rightarrow> slot_entry list \<Rightarrow> slot_entry option \<Rightarrow> slot_entry option" where
  "pick previous target [] selected = selected"
| "pick previous target (e # entries) selected =
     (if fst e \<le> previous then pick previous target entries selected
      else if fst e = target then Some e
      else if target < fst e \<and> closer e selected then pick previous target entries (Some e)
      else pick previous target entries selected)"

primrec pick_all :: "slot_entry list \<Rightarrow> int \<Rightarrow> int list \<Rightarrow> slot_entry list result" where
  "pick_all entries previous [] = Inr []"
| "pick_all entries previous (target # targets) =
     (case pick previous target entries None of None \<Rightarrow> Inl no_slot_entry
      | Some e \<Rightarrow> bindE (pick_all entries (fst e) targets) (\<lambda>rest. Inr (e # rest)))"

lemma drop_blocks: "(\<And>b. b \<in> set bs \<Longrightarrow> length b = k) \<Longrightarrow> drop (i * k) (concat bs) = concat (drop i bs)"
proof (induction bs arbitrary: i)
  case (Cons b bs)
  then show ?case by (cases i) simp_all
qed simp

lemma drop_entry:
  assumes "list_all slot_entry_ok entries" and "i < length entries"
  shows "drop (entry_start i) (slot_hashes_data entries)
    = le_bytes 8 (fst (entries ! i)) @ snd (entries ! i) @ concat (map (\<lambda>e. le_bytes 8 (fst e) @ snd e) (drop (Suc i) entries))"
proof -
  have len: "length b = 40" if "b \<in> set (map (\<lambda>e. le_bytes 8 (fst e) @ snd e) entries)" for b
    using that assms(1) by (auto simp: list_all_iff slot_entry_ok_def)
  have "drop (entry_start i) (slot_hashes_data entries) = drop (i * 40) (concat (map (\<lambda>e. le_bytes 8 (fst e) @ snd e) entries))"
    by (simp add: entry_start_def slot_hashes_data_def)
  also have "\<dots> = concat (drop i (map (\<lambda>e. le_bytes 8 (fst e) @ snd e) entries))" by (rule drop_blocks [OF len])
  finally show ?thesis using assms(2) by (simp add: drop_map flip: Cons_nth_drop_Suc)
qed

lemma length_slot_hashes_data: "list_all slot_entry_ok entries \<Longrightarrow> length (slot_hashes_data entries) = entry_start (length entries)"
proof -
  assume "list_all slot_entry_ok entries"
  then have "length (concat (map (\<lambda>e. le_bytes 8 (fst e) @ snd e) entries)) = length entries * 40"
    by (induction entries) (simp_all add: slot_entry_ok_def)
  then show ?thesis by (simp add: slot_hashes_data_def entry_start_def)
qed

lemma entry_fields:
  assumes "list_all slot_entry_ok entries" and "i < length entries"
  shows "entry_start i + 40 \<le> length (slot_hashes_data entries)"
    and "le_uint (take 8 (drop (entry_start i) (slot_hashes_data entries))) = fst (entries ! i)"
    and "take 32 (drop (entry_start i + 8) (slot_hashes_data entries)) = snd (entries ! i)"
proof -
  have ok: "slot_entry_ok (entries ! i)" using assms by (simp add: list_all_length)
  show "entry_start i + 40 \<le> length (slot_hashes_data entries)"
    using assms by (simp add: length_slot_hashes_data entry_start_def)
  show "le_uint (take 8 (drop (entry_start i) (slot_hashes_data entries))) = fst (entries ! i)"
    using ok by (simp add: drop_entry [OF assms] slot_entry_ok_def u64_MAX_def)
  have "drop (entry_start i + 8) (slot_hashes_data entries) = drop 8 (drop (entry_start i) (slot_hashes_data entries))"
    by (simp add: add.commute)
  then show "take 32 (drop (entry_start i + 8) (slot_hashes_data entries)) = snd (entries ! i)"
    using ok by (simp add: drop_entry [OF assms] slot_entry_ok_def)
qed

lemma scan_pick:
  assumes "list_all slot_entry_ok entries"
  shows "i \<le> length entries \<Longrightarrow> scan_entries (slot_hashes_data entries) (length entries) previous target i selected
    = Inr (pick previous target (drop i entries) selected)"
proof (induction "length entries - i" arbitrary: i selected)
  case 0
  then show ?case by (simp add: scan_entries.simps)
next
  case (Suc n)
  then have i: "i < length entries" by simp
  obtain slot hash where e: "entries ! i = (slot, hash)" by (cases "entries ! i")
  have "runR readU64LE (slot_hashes_data entries) (entry_start i) = Inr slot"
    "subarray (slot_hashes_data entries) (entry_start i + 8) (entry_start i + 40) = hash"
    using entry_fields [OF assms i] e by (simp_all add: runR_def readU64LE_def read_uint_def throwIf_def subarray_def)
  then show ?case
    using Suc i e by (cases selected; subst scan_entries.simps)
      (auto simp: Let_def closer_simps simp flip: Cons_nth_drop_Suc)
qed

definition or_sentinel :: "slot_entry option \<Rightarrow> slot_entry" where
  "or_sentinel selected = (case selected of None \<Rightarrow> (u64_MAX, zeros 32) | Some e \<Rightarrow> e)"

lemma select_pick:
  assumes "list_all slot_entry_ok entries"
  shows "i \<le> length entries \<Longrightarrow> select_entry (slot_hashes_data entries) (length entries) previous target i (or_sentinel selected)
    = Some (or_sentinel (pick previous target (drop i entries) selected))"
proof (induction "length entries - i" arbitrary: i selected)
  case 0
  then show ?case by (simp add: select_entry.simps)
next
  case (Suc n)
  then have i: "i < length entries" by simp
  obtain slot hash where e: "entries ! i = (slot, hash)" by (cases "entries ! i")
  have read: "read_slot_hash_entry (slot_hashes_data entries) i = Some (slot, hash)"
    using entry_fields [OF assms i] e by (simp add: read_slot_hash_entry_def)
  have "slot < u64_MAX" using assms i e by (metis fst_conv list_all_length slot_entry_ok_def)
  then have less: "closer (slot, hash) selected \<longleftrightarrow> slot < fst (or_sentinel selected)"
    by (cases selected) (simp_all add: or_sentinel_def closer_simps)
  have some: "(slot, hash) = or_sentinel (Some (slot, hash))" by (simp add: or_sentinel_def)
  have step: "select_entry (slot_hashes_data entries) (length entries) previous target (Suc i) (or_sentinel x)
      = Some (or_sentinel (pick previous target (drop (Suc i) entries) x))" for x
    using Suc i by simp
  show ?case
    using i e step [of selected] step [of "Some (slot, hash)"] less
    by (subst select_entry.simps) (auto simp: read or_sentinel_def [of "Some _"] simp flip: Cons_nth_drop_Suc)
qed

text \<open>What \<open>pick\<close> finds: the least candidate.\<close>

definition candidate :: "int \<Rightarrow> int \<Rightarrow> slot_entry \<Rightarrow> bool" where
  "candidate previous target e \<longleftrightarrow> previous < fst e \<and> target \<le> fst e"

lemma pick_some:
  assumes "pick previous target entries selected = Some e" and "\<And>s. selected = Some s \<Longrightarrow> candidate previous target s"
  shows "candidate previous target e \<and> (e \<in> set entries \<or> selected = Some e)
    \<and> (\<forall>x \<in> set entries. candidate previous target x \<longrightarrow> fst e \<le> fst x) \<and> (\<forall>s. selected = Some s \<longrightarrow> fst e \<le> fst s)"
  using assms
proof (induction entries arbitrary: selected)
  case (Cons x entries)
  consider (early) "fst x \<le> previous" | (hit) "previous < fst x" "fst x = target"
    | (closer) "previous < fst x" "fst x \<noteq> target" "target < fst x" "closer x selected"
    | (keep) "previous < fst x" "fst x \<noteq> target" "\<not> (target < fst x \<and> closer x selected)"
    by linarith
  then show ?case
  proof cases
    case early
    then have "pick previous target entries selected = Some e" using Cons.prems(1) by simp
    from Cons.IH [OF this Cons.prems(2)] early show ?thesis by (auto simp: candidate_def)
  next
    case hit
    then have "e = x" using Cons.prems(1) by simp
    with hit Cons.prems(2) show ?thesis by (auto simp: candidate_def)
  next
    case closer
    then have "pick previous target entries (Some x) = Some e" using Cons.prems(1) by simp
    moreover have "candidate previous target x" using closer by (simp add: candidate_def)
    ultimately have "candidate previous target e \<and> e \<in> set (x # entries) \<and> fst e \<le> fst x
        \<and> (\<forall>y \<in> set entries. candidate previous target y \<longrightarrow> fst e \<le> fst y)"
      using Cons.IH [of "Some x"] by auto
    with closer show ?thesis by (cases selected) (auto simp: closer_simps)
  next
    case keep
    then have "pick previous target entries selected = Some e" using Cons.prems(1) by (auto split: if_splits)
    note rest = Cons.IH [OF this Cons.prems(2)]
    have "fst e \<le> fst x" if "candidate previous target x"
      using that keep rest by (cases selected) (auto simp: candidate_def closer_simps)
    with rest show ?thesis by auto
  qed
qed simp

lemma pick_none: "pick previous target entries selected = None \<longleftrightarrow>
    selected = None \<and> (\<forall>e \<in> set entries. \<not> candidate previous target e)"
  by (induction entries arbitrary: selected) (auto simp: candidate_def closer_def)

lemma resolve_pick:
  assumes "list_all slot_entry_ok entries"
  shows "resolve_targets (slot_hashes_data entries) (length entries) previous targets = pick_all entries previous targets"
  by (induction targets arbitrary: previous) (auto simp: scan_pick [OF assms, of 0, simplified] split: option.split)

definition or_none :: "'a result \<Rightarrow> 'a option" where
  "or_none r = (case r of Inl e \<Rightarrow> None | Inr x \<Rightarrow> Some x)"

lemma or_none_bindE: "or_none (bindE r f) = Option.bind (or_none r) (\<lambda>x. or_none (f x))"
  by (cases r) (simp_all add: or_none_def)

lemma select_pick_all:
  assumes ok: "list_all slot_entry_ok entries"
  shows "select_targets (slot_hashes_data entries) (length entries) previous targets = or_none (pick_all entries previous targets)"
proof (induction targets arbitrary: previous)
  case (Cons target targets)
  have sel: "select_entry (slot_hashes_data entries) (length entries) previous target 0 (u64_MAX, zeros 32)
      = Some (or_sentinel (pick previous target entries None))"
    using select_pick [OF ok, of 0 previous target None] by (simp add: or_sentinel_def)
  show ?case
  proof (cases "pick previous target entries None")
    case None
    then show ?thesis by (simp add: sel or_sentinel_def or_none_def)
  next
    case (Some e)
    then have "e \<in> set entries" using pick_some [OF Some] by simp
    then have "fst e \<noteq> u64_MAX" using ok by (auto simp: list_all_iff slot_entry_ok_def)
    with Some Cons show ?thesis
      by (simp add: sel or_sentinel_def or_none_bindE or_none_def split: sum.split)
  qed
qed (simp add: or_none_def)

section \<open>The evidence\<close>

definition account_ok :: "slot_entry list \<Rightarrow> bool" where
  "account_ok entries \<longleftrightarrow> list_all slot_entry_ok entries \<and> length entries < 2 ^ 64"

lemma evidence_entries:
  assumes "account_ok entries"
  shows "resolveSlotEvidence (Some (slot_hashes_data entries)) targets
    = bindE (pick_all entries 0 targets) (\<lambda>r. Inr (map fst r, map snd r))"
proof -
  have "runR readU64LE (slot_hashes_data entries) 0 = Inr (int (length entries))"
    using assms by (simp add: slot_hashes_data_def runR_def readU64LE_def read_uint_def throwIf_def account_ok_def)
  then show ?thesis
    using resolve_pick [of entries 0 targets] assms by (simp add: resolveSlotEvidence_def account_ok_def)
qed

lemma program_entries:
  assumes "account_ok entries"
  shows "resolve_slot_hashes (slot_hashes_data entries) targets
    = map_option (\<lambda>r. (map fst r, map snd r)) (or_none (pick_all entries 0 targets))"
proof -
  have "\<not> length (slot_hashes_data entries) < 8" "nat (le_uint (take 8 (slot_hashes_data entries))) = length entries"
    using assms by (simp_all add: slot_hashes_data_def account_ok_def)
  then show ?thesis using assms by (simp add: resolve_slot_hashes_def select_pick_all account_ok_def)
qed

lemma or_none_map: "or_none (bindE r (\<lambda>x. Inr (f x))) = map_option f (or_none r)"
  by (cases r) (simp_all add: or_none_def)

text \<open>C6: on a well-formed SlotHashes account the client resolves the target slots exactly as the program does, with
  the same slots and hashes, and fails on the same accounts.\<close>

theorem slot_evidence_agrees:
  assumes "account_ok entries"
  shows "or_none (resolveSlotEvidence (Some (slot_hashes_data entries)) targets)
    = resolve_slot_hashes (slot_hashes_data entries) targets"
  by (simp add: evidence_entries [OF assms] program_entries [OF assms] or_none_map)

lemma slot_evidence_agrees_witness:
  "or_none (resolveSlotEvidence (Some (slot_hashes_data [(9, zeros 32), (7, zeros 32)])) [8, 9])
    = resolve_slot_hashes (slot_hashes_data [(9, zeros 32), (7, zeros 32)]) [8, 9]"
  by (rule slot_evidence_agrees) (simp add: account_ok_def slot_entry_ok_def u64_MAX_def)

text \<open>The account of a later moment: newer slots in front, some of the oldest dropped.\<close>

definition newest_first :: "slot_entry list \<Rightarrow> bool" where
  "newest_first entries \<longleftrightarrow> sorted_wrt (\<lambda>x y. fst y < fst x) entries"

lemma newest_first_unique:
  "newest_first es \<Longrightarrow> x \<in> set es \<Longrightarrow> y \<in> set es \<Longrightarrow> fst x = fst y \<Longrightarrow> x = y"
  by (induction es) (auto simp: newest_first_def)

lemma pick_later:
  assumes "newest_first (newer @ kept)" and "pick previous target (kept @ dropped) None = Some e" and "e \<in> set kept"
  shows "pick previous target (newer @ kept) None = Some e"
proof -
  note e = pick_some [OF assms(2)]
  have cand: "candidate previous target e" using e by simp
  then obtain e' where e': "pick previous target (newer @ kept) None = Some e'"
    using pick_none [of previous target "newer @ kept" None] assms(3) by fastforce
  note least = pick_some [OF e']
  have "fst e' \<le> fst e" using least cand assms(3) by auto
  moreover have "fst e \<le> fst e'"
  proof (cases "e' \<in> set kept")
    case True
    then show ?thesis using e least by auto
  next
    case False
    then have "e' \<in> set newer" using least by auto
    then show ?thesis using assms(1,3) by (force simp: newest_first_def sorted_wrt_append)
  qed
  ultimately have "e' = e" using newest_first_unique [OF assms(1), of e' e] least assms(3) by auto
  with e' show ?thesis by simp
qed

lemma pick_all_later:
  "newest_first (newer @ kept) \<Longrightarrow> newest_first (kept @ dropped) \<Longrightarrow> pick_all (kept @ dropped) previous targets = Inr r \<Longrightarrow>
    fst ` set r \<subseteq> fst ` set kept \<Longrightarrow> pick_all (newer @ kept) previous targets = Inr r"
proof (induction targets arbitrary: previous r)
  case (Cons target targets)
  obtain e rest where e: "pick previous target (kept @ dropped) None = Some e"
    and rest: "pick_all (kept @ dropped) (fst e) targets = Inr rest" and r: "r = e # rest"
    using Cons.prems(3) by (auto simp: bindE_Inr_iff split: option.splits)
  have "e \<in> set (kept @ dropped)" using pick_some [OF e] by simp
  moreover obtain k where "k \<in> set kept" "fst k = fst e" using Cons.prems(4) r by force
  ultimately have "e \<in> set kept" using newest_first_unique [OF Cons.prems(2), of k e] by auto
  with pick_later [OF Cons.prems(1) e] Cons.IH [OF Cons.prems(1,2) rest] Cons.prems(4) r show ?case by simp
qed simp

text \<open>The evidence does not change while the chain goes on. What was found on an account is found on every later
  one, with any number of newer slots, for as long as the slots that were found have not dropped out of it; so a claim
  made from an earlier reading is the one the program checks.\<close>

theorem slot_evidence_stable:
  assumes "account_ok (kept @ dropped)" "account_ok (newer @ kept)" "newest_first (newer @ kept @ dropped)"
    and "resolveSlotEvidence (Some (slot_hashes_data (kept @ dropped))) targets = Inr (slots, hashes)"
    and "set slots \<subseteq> fst ` set kept"
  shows "resolveSlotEvidence (Some (slot_hashes_data (newer @ kept))) targets = Inr (slots, hashes)"
proof -
  obtain r where r: "pick_all (kept @ dropped) 0 targets = Inr r" and slots: "slots = map fst r" and hashes: "hashes = map snd r"
    using assms(4) by (auto simp: evidence_entries [OF assms(1)] bindE_Inr_iff)
  have "newest_first (newer @ kept)" "newest_first (kept @ dropped)"
    using assms(3) by (auto simp: newest_first_def sorted_wrt_append)
  from pick_all_later [OF this r] have "pick_all (newer @ kept) 0 targets = Inr r" using assms(5) slots by simp
  then show ?thesis by (simp add: evidence_entries [OF assms(2)] slots hashes)
qed

lemma slot_evidence_stable_witness:
  "resolveSlotEvidence (Some (slot_hashes_data ([(12, zeros 32)] @ [(9, zeros 32), (7, replicate 32 1)]))) [6, 8]
    = Inr ([7, 9], [replicate 32 1, zeros 32])"
proof (rule slot_evidence_stable [where dropped = "[(5, zeros 32)]"])
  have "account_ok [(9, zeros 32), (7, replicate 32 1), (5, zeros 32)]"
    by (simp add: account_ok_def slot_entry_ok_def u64_MAX_def)
  then show "resolveSlotEvidence (Some (slot_hashes_data ([(9, zeros 32), (7, replicate 32 1)] @ [(5, zeros 32)]))) [6, 8]
      = Inr ([7, 9], [replicate 32 1, zeros 32])"
    by (simp add: evidence_entries closer_simps)
qed (simp_all add: account_ok_def slot_entry_ok_def u64_MAX_def newest_first_def)

lemma pick_all_least:
  "pick_all entries previous targets = Inr r \<Longrightarrow> length r = length targets \<and> (\<forall>i < length targets.
     r ! i \<in> set entries \<and> candidate ((previous # map fst r) ! i) (targets ! i) (r ! i) \<and>
     (\<forall>e \<in> set entries. candidate ((previous # map fst r) ! i) (targets ! i) e \<longrightarrow> fst (r ! i) \<le> fst e))"
proof (induction targets arbitrary: previous r)
  case (Cons target targets)
  obtain e rest where e: "pick previous target entries None = Some e"
    and rest: "pick_all entries (fst e) targets = Inr rest" and r: "r = e # rest"
    using Cons.prems by (auto simp: bindE_Inr_iff split: option.splits)
  show ?case
    using Cons.IH [OF rest] pick_some [OF e] by (auto simp: r nth_Cons split: nat.split)
qed simp

text \<open>The resolved slot of a target is the least slot of the account at or after the target and after the slot
  resolved before it.\<close>

theorem slot_evidence_least:
  assumes "account_ok entries" and "resolveSlotEvidence (Some (slot_hashes_data entries)) targets = Inr (slots, hashes)"
    and "i < length targets"
  shows "(slots ! i, hashes ! i) \<in> set entries \<and> targets ! i \<le> slots ! i \<and> (0 # slots) ! i < slots ! i
    \<and> (\<forall>e \<in> set entries. targets ! i \<le> fst e \<and> (0 # slots) ! i < fst e \<longrightarrow> slots ! i \<le> fst e)"
proof -
  obtain r where r: "pick_all entries 0 targets = Inr r" and slots: "slots = map fst r" and hashes: "hashes = map snd r"
    using assms(2) by (auto simp: evidence_entries [OF assms(1)] bindE_Inr_iff)
  with pick_all_least [OF r] assms(3) show ?thesis by (auto simp: candidate_def)
qed

lemma slot_evidence_least_witness:
  "(0 # [7, 9]) ! 1 < (9 :: int)"
proof -
  let ?entries = "[(9, zeros 32), (7, replicate 32 1), (5, zeros 32)]"
  have ok: "account_ok ?entries" by (simp add: account_ok_def slot_entry_ok_def u64_MAX_def)
  then have "resolveSlotEvidence (Some (slot_hashes_data ?entries)) [6, 8] = Inr ([7, 9], [replicate 32 1, zeros 32])"
    by (simp add: evidence_entries closer_simps)
  from slot_evidence_least [OF ok this, of 1] show ?thesis by simp
qed

end
