(* ===== verification/Snapshot_Program.thy ===== *)
theory Snapshot_Program
  imports Snapshot_Artifact Slot_Evidence
begin

text \<open>
  How the program reads the artifact of a snapshot draw: \<^verbatim>\<open>parse_snapshot_v4\<close> and the scale case of \<^verbatim>\<open>parse_for_rng_v2\<close> in
  \<^verbatim>\<open>programs/outcome/src/math/compiled_outcome_v1.rs\<close>. The errors are not told apart. The program keeps the bytes of the
  URI, which it does not use; here they are shown as the text that the client decodes. What the program accepts, the
  client's parser reads in the same way, unless the URI is blank; what the client builds, the program accepts, unless it
  pays out or its URI has control characters.
\<close>

section \<open>The parser of the program\<close>

definition ascii_control :: "byte \<Rightarrow> bool" where
  "ascii_control b \<longleftrightarrow> b < 32 \<or> b = 127"

definition program_snapshotR :: "nat \<Rightarrow> snapshot_artifact reader" where
  "program_snapshotR blobLength =
     bindR readU16LE (\<lambda>version.
     throwIfR (\<not> snapshot_version version) invalid_length
    (bindR readU64LE (\<lambda>minInput.
     bindR readU64LE (\<lambda>maxInput.
     throwIfR (maxInput < minInput) invalid_length
    (bindR readU16LE (\<lambda>winners.
     bindR readU8 (\<lambda>code.
     throwIfR (\<not> valid_formula_code code) invalid_length
    (bindR readU8 (\<lambda>flags.
     throwIfR (flags AND NOT V4_FLAG_HAS_MERKLE_ROOT \<noteq> 0) invalid_length
    (bindR (readBytes invalid_length 4) (\<lambda>reserved.
     throwIfR (reserved \<noteq> zeros 4) invalid_length
    (bindR readI64LE (\<lambda>target.
     bindR readU32LE (\<lambda>count.
     bindR readU64LE (\<lambda>payout.
     throwIfR (count \<le> 0) invalid_length
    (throwIfR (winners \<le> 0 \<or> count < winners \<or> MAX_WINNERS < winners) invalid_length
    (bindR (readBytes invalid_length 32) (\<lambda>hash.
     bindR (if flags AND V4_FLAG_HAS_MERKLE_ROOT \<noteq> 0
            then bindR (readBytes invalid_length 32) (\<lambda>r. retR (Some r)) else retR None) (\<lambda>root.
     bindR readU16LE (\<lambda>uriLen.
     throwIfR (uriLen \<le> 0 \<or> int MAX_SNAPSHOT_URI_BYTES < uriLen) invalid_length
    (bindR offsetR (\<lambda>off.
     throwIfR (off + nat uriLen \<noteq> blobLength) invalid_length
    (bindR (readBytes invalid_length (nat uriLen)) (\<lambda>uriBytes.
     throwIfR (list_ex ascii_control uriBytes) invalid_length
    (retR \<lparr>sa_formatVersion = version, sa_minInputLamports = minInput, sa_maxInputLamports = maxInput,
           sa_winnersCount = winners, sa_formulaCode = code, sa_targetScore = target, sa_snapshotCount = count,
           sa_payoutLamports = payout, sa_snapshotHash = hash, sa_merkleRoot = root,
           sa_snapshotUri = utf8_decode uriBytes\<rparr>)))))))))))))))))))))))))"

definition parse_snapshot_v4 :: "buffer \<Rightarrow> snapshot_artifact option" where
  "parse_snapshot_v4 blob =
     (if blob = [] \<or> MAX_COMPILED_ARTIFACT_BYTES < length blob \<or> length blob < 84 \<or> take 4 blob \<noteq> W3O1 then None
      else or_none (runR (program_snapshotR (length blob)) blob 4))"

definition read_format_version :: "buffer \<Rightarrow> int option" where
  "read_format_version blob =
     (if length blob < 6 \<or> take 4 blob \<noteq> W3O1 then None else or_none (runR readU16LE blob 4))"

text \<open>\<^verbatim>\<open>RngV2Artifact::Scale\<close>. The artifacts of the other formats are compact ones, or refused; both are \<open>None\<close> here.\<close>

definition parse_scale_for_rng_v2 :: "buffer \<Rightarrow> snapshot_artifact option" where
  "parse_scale_for_rng_v2 blob =
     (if read_format_version blob \<noteq> Some FORMAT_VERSION_V1_2_1_SCALE then None
      else (case parse_snapshot_v4 blob of None \<Rightarrow> None
        | Some a \<Rightarrow> if sa_payoutLamports a \<noteq> 0 then None else Some a))"

section \<open>The same reading\<close>

lemma or_none_Some [simp]: "or_none r = Some x \<longleftrightarrow> r = Inr x"
  by (cases r) (simp_all add: or_none_def)

lemma magic_of_W3O1: "take 4 blob = W3O1 \<Longrightarrow> magic_ok blob"
  by (simp add: magic_ok_def subarray_def W3O1_def ascii_string_def js_def)

lemma readBytes_of_readU8:
  assumes "readU8 buf off = Inr (v, off')"
  shows "readBytes e 1 buf off = Inr ([buf ! off], off')" and "uint (buf ! off) = v"
proof -
  have "off < length buf" "v = le_uint (take 1 (drop off buf))" "off' = off + 1"
    using assms by (auto simp: readU8_def read_uint_Inr_iff)
  moreover from this have one: "take 1 (drop off buf) = [buf ! off]"
    by (simp add: take_Suc hd_drop_conv_nth drop_eq_Nil)
  ultimately show "readBytes e 1 buf off = Inr ([buf ! off], off')" "uint (buf ! off) = v"
    by (simp_all add: readBytes_def throwIf_def subarray_def)
qed

lemma program_reads_version:
  "parse_snapshot_v4 blob = Some a \<Longrightarrow> runR readU16LE blob 4 = Inr (sa_formatVersion a)"
proof -
  assume "parse_snapshot_v4 blob = Some a"
  then have "runR (program_snapshotR (length blob)) blob 4 = Inr a" by (auto simp: parse_snapshot_v4_def split: if_splits)
  then obtain off where "readU16LE blob 4 = Inr (sa_formatVersion a, off)"
    unfolding program_snapshotR_def by (elim result_elims) (simp; blast)
  then show ?thesis by (auto simp: runR_Inr_iff)
qed

lemma snapshot_parsers:
  assumes "parse_snapshot_v4 blob = Some a"
  shows "parseSnapshotArtifact blob (sa_formatVersion a) =
    (if js_trim (sa_snapshotUri a) = [] then Inl (Error ''snapshot_uri must not be empty'') else Inr a)"
proof -
  have len: "\<not> length blob < 84" and magic: "magic_ok blob" and run: "runR (program_snapshotR (length blob)) blob 4 = Inr a"
    using assms magic_of_W3O1 by (auto simp: parse_snapshot_v4_def split: if_splits)
  from run obtain version minI maxI winners code flags reserved target count payout hash root uriLen uri o1 o2 o3 o4 o5 o6 o7 o8 o9 o10 o11 o12 o13 o14 where
    version: "readU16LE blob 4 = Inr (version, o1)"
    and mn: "readU64LE blob o1 = Inr (minI, o2)" and mx: "readU64LE blob o2 = Inr (maxI, o3)" and bounds: "\<not> maxI < minI"
    and winners: "readU16LE blob o3 = Inr (winners, o4)"
    and code: "readU8 blob o4 = Inr (code, o5)" "valid_formula_code code"
    and flags: "readU8 blob o5 = Inr (flags, o6)" "flags AND NOT V4_FLAG_HAS_MERKLE_ROOT = 0"
    and reserved: "readBytes invalid_length 4 blob o6 = Inr (reserved, o7)" "reserved = zeros 4"
    and target: "readI64LE blob o7 = Inr (target, o8)"
    and count: "readU32LE blob o8 = Inr (count, o9)" and payout: "readU64LE blob o9 = Inr (payout, o10)"
    and sizes: "\<not> count \<le> 0" "\<not> (winners \<le> 0 \<or> count < winners \<or> MAX_WINNERS < winners)"
    and hash: "readBytes invalid_length 32 blob o10 = Inr (hash, o11)"
    and root: "(if flags AND V4_FLAG_HAS_MERKLE_ROOT \<noteq> 0
            then bindR (readBytes invalid_length 32) (\<lambda>r. retR (Some r)) else retR None) blob o11 = Inr (root, o12)"
    and uriLen: "readU16LE blob o12 = Inr (uriLen, o13)" "\<not> (uriLen \<le> 0 \<or> int MAX_SNAPSHOT_URI_BYTES < uriLen)"
      "o13 + nat uriLen = length blob"
    and uri: "readBytes invalid_length (nat uriLen) blob o13 = Inr (uri, o14)"
    and a: "a = \<lparr>sa_formatVersion = version, sa_minInputLamports = minI, sa_maxInputLamports = maxI, sa_winnersCount = winners,
           sa_formulaCode = code, sa_targetScore = target, sa_snapshotCount = count, sa_payoutLamports = payout,
           sa_snapshotHash = hash, sa_merkleRoot = root, sa_snapshotUri = utf8_decode uri\<rparr>"
    unfolding program_snapshotR_def by (elim result_elims) (simp; blast)
  note flagByte = readBytes_of_readU8(1) [OF flags(1), of invalid_length] readBytes_of_readU8(2) [OF flags(1)]
  have w: "\<not> (winners < 1 \<or> count < winners \<or> MAX_WINNERS < winners)" "\<not> count < 1"
    "\<not> (uriLen = 0 \<or> int MAX_SNAPSHOT_URI_BYTES < uriLen \<or> o13 + nat uriLen \<noteq> length blob)"
    using sizes uriLen(2,3) by auto
  show ?thesis
    unfolding parseSnapshotArtifact_def runR_def snapshotR_def a
    using len magic version mn mx bounds winners code flagByte flags(2) reserved target count payout hash root uriLen(1) uri w
    by (simp add: bindR_step throwIfR_def throwIf_def offsetR_apply retR_def Let_def)
qed

text \<open>An artifact of a scale draw as the program and the verifier read it.\<close>

lemma scale_parsed:
  assumes "parse_scale_for_rng_v2 blob = Some a"
  shows "parse_snapshot_v4 blob = Some a" and "sa_formatVersion a = FORMAT_VERSION_V1_2_1_SCALE" and "sa_payoutLamports a = 0"
    and "runR readU16LE blob 4 = Inr FORMAT_VERSION_V1_2_1_SCALE"
    and "parseArtifactV121 blob = (if js_trim (sa_snapshotUri a) = [] then Inl (Error ''snapshot_uri must not be empty'') else Inr a)"
proof -
  have v: "read_format_version blob = Some FORMAT_VERSION_V1_2_1_SCALE" using assms
    by (auto simp: parse_scale_for_rng_v2_def split: if_splits)
  then show run: "runR readU16LE blob 4 = Inr FORMAT_VERSION_V1_2_1_SCALE"
    by (auto simp: read_format_version_def split: if_splits)
  show p: "parse_snapshot_v4 blob = Some a" and "sa_payoutLamports a = 0"
    using assms by (auto simp: parse_scale_for_rng_v2_def split: if_splits option.splits)
  show f: "sa_formatVersion a = FORMAT_VERSION_V1_2_1_SCALE" using program_reads_version [OF p] run by simp
  show "parseArtifactV121 blob = (if js_trim (sa_snapshotUri a) = [] then Inl (Error ''snapshot_uri must not be empty'') else Inr a)"
    using snapshot_parsers [OF p] by (simp add: parseArtifactV121_def f)
qed

section \<open>What the client builds\<close>

lemma program_runs:
  assumes ok: "config_ok c" and v: "snapshot_version version" and uri: "well_formed_utf16 (sc_uri c)"
    and plain: "\<not> list_ex ascii_control (utf8_encode (sc_uri c))"
  shows "runs 4 (program_snapshotR (4 + length (snapshot_bytes c version))) (snapshot_bytes c version)
    (snapshot_artifact_of c version)"
proof -
  note ok' = ok [unfolded config_ok_def bound_defs MAX_SNAPSHOT_URI_BYTES_def]
  have version: "0 \<le> version" "version < 65536" using v by (auto simp: snapshot_version_def format_defs)
  have flags: "root_flags (sc_root c) < 256" "0 \<le> root_flags (sc_root c)" by (simp_all add: root_flags_def V4_FLAG_HAS_MERKLE_ROOT_def)
  have root: "\<And>off. runs off (if root_flags (sc_root c) AND V4_FLAG_HAS_MERKLE_ROOT \<noteq> 0
            then bindR (readBytes invalid_length 32) (\<lambda>r. retR (Some r)) else retR None) (root_bytes (sc_root c)) (sc_root c)"
    by (rule runs_root) (use ok' in blast)
  have ne: "utf8_encode (sc_uri c) \<noteq> []" using utf8_encode_not_Nil ok' by blast
  have dec: "utf8_decode (utf8_encode (sc_uri c)) = sc_uri c" using uri by (rule utf8_decode_encode)
  show ?thesis
    unfolding program_snapshotR_def length_snapshot_bytes [OF ok]
    unfolding snapshot_bytes_def snapshot_artifact_of_def
    by (rule root runs_retR_eq runs_intros
        | (use ok' version v flags ne dec plain in \<open>simp add: bound_defs MAX_SNAPSHOT_URI_BYTES_def; fail\<close>))+
qed

lemma built_for_program:
  assumes ok: "config_ok c" and payout: "sc_payout c = 0" and uri: "well_formed_utf16 (sc_uri c)"
    and plain: "\<not> list_ex ascii_control (utf8_encode (sc_uri c))"
  shows "parse_scale_for_rng_v2 (W3O1 @ snapshot_bytes c FORMAT_VERSION_V1_2_1_SCALE)
    = Some (snapshot_artifact_of c FORMAT_VERSION_V1_2_1_SCALE)"
proof -
  let ?v = FORMAT_VERSION_V1_2_1_SCALE
  let ?blob = "W3O1 @ snapshot_bytes c ?v"
  have v: "snapshot_version ?v" by (simp add: snapshot_version_def)
  have four: "length W3O1 = 4" by (simp add: W3O1_def)
  have len: "length ?blob = 84 + length (root_bytes (sc_root c)) + length (utf8_encode (sc_uri c))"
    by (simp add: length_snapshot_bytes [OF ok] W3O1_def)
  have "length ?blob = 4 + length (snapshot_bytes c ?v)" by (simp add: W3O1_def)
  then have "runR (program_snapshotR (length ?blob)) ?blob 4 = Inr (snapshot_artifact_of c ?v)"
    using runs_run [OF program_runs [OF ok v uri plain] four] by simp
  moreover have "length ?blob \<le> MAX_COMPILED_ARTIFACT_BYTES"
    using ok unfolding len by (auto simp: root_bytes_def config_ok_def MAX_SNAPSHOT_URI_BYTES_def
      MAX_COMPILED_ARTIFACT_BYTES_def split: option.splits)
  ultimately have p: "parse_snapshot_v4 ?blob = Some (snapshot_artifact_of c ?v)"
    using len by (simp add: parse_snapshot_v4_def four [symmetric] del: length_append) (simp add: W3O1_def)
  have "runR readU16LE ?blob 4 = Inr ?v"
    using program_reads_version [OF p] by (simp add: snapshot_artifact_of_def)
  then have "read_format_version ?blob = Some ?v"
    using len by (simp add: read_format_version_def or_none_def W3O1_def del: length_append)
  then show ?thesis using p payout by (simp add: parse_scale_for_rng_v2_def snapshot_artifact_of_def)
qed

end
