(* ===== verification/Operator_Rng.thy ===== *)
theory Operator_Rng
  imports Snapshot_Program Verify_Honest
begin

text \<open>
  A snapshot draw from the claim to the replay. \<^verbatim>\<open>snapshotWinnerClaim\<close> of \<^verbatim>\<open>sdk/operator.ts\<close> computes the randomness that
  the program will derive, draws from the snapshot file and names the winners; \<^verbatim>\<open>settle_rng_v2\<close> of the program records
  the claim without seeing the snapshot; \<^verbatim>\<open>verify.ts\<close> replays it. The claim is the one that the replay finds.

  The hex and decimal strings of a prepared draw stand here for their bytes and numbers, and the path of the snapshot
  for the bytes of its file. Of the program, the transfers of fee, stake and payout are left out.
\<close>

section \<open>The client\<close>

record draw_snapshot =
  ds_file :: buffer
  ds_formula :: jsstr
  ds_snapshotHash :: buffer
  ds_target :: "int option"

record prepared_draw =
  dr_runtimeId :: buffer
  dr_resolveId :: int
  dr_artifactHash :: buffer
  dr_winnersCount :: int
  dr_targetSlots :: "int list"
  dr_expirySlot :: int
  dr_prepareSignature :: jsstr
  dr_snapshot :: "draw_snapshot option"

record winner_args =
  wa_winnerCount :: int
  wa_winnerClaimHash :: buffer
  wa_outcomeIdLen :: int
  wa_outcomeId :: buffer

definition claim_randomness :: "prepared_draw \<Rightarrow> buffer \<Rightarrow> buffer \<Rightarrow> int list \<Rightarrow> buffer list \<Rightarrow> buffer result" where
  "claim_randomness draw snapshotHash' authority slots hashes =
     bindE (u64le (dr_resolveId draw)) (\<lambda>resolveIdBytes.
     bindE (concatE (map (slot_chunk slots hashes) [0..<3])) (\<lambda>evidence.
     let seed = sha256 (RNG_V2_DOMAIN @ dr_runtimeId draw @ resolveIdBytes @ dr_artifactHash draw @ snapshotHash' @ evidence) in
     Inr (sha256 (seed @ dr_runtimeId draw @ resolveIdBytes @ authority))))"

definition primary_args :: "snapshot_claim \<Rightarrow> winner_args result" where
  "primary_args claim =
     (case js_first (cl_outcomeIds claim) of None \<Rightarrow> Inl (TypeError ''ERR_INVALID_ARG_TYPE'')
      | Some id' \<Rightarrow>
          let primary = ascii_bytes id' in
          throwIf (64 < length primary) (RangeError ''ERR_OUT_OF_RANGE'')
            (Inr \<lparr>wa_winnerCount = cl_winnersCount claim, wa_winnerClaimHash = cl_winnerClaimHash claim,
               wa_outcomeIdLen = int (length primary), wa_outcomeId = primary @ zeros (64 - length primary)\<rparr>))"

definition snapshotWinnerClaim :: "buffer option \<Rightarrow> buffer \<Rightarrow> prepared_draw \<Rightarrow> winner_args result" where
  "snapshotWinnerClaim slotHashesAccount authority draw =
     (case dr_snapshot draw of None \<Rightarrow> Inl (TypeError ''Cannot read properties of undefined'')
      | Some snapshot \<Rightarrow>
          bindE (resolveSlotEvidence slotHashesAccount (dr_targetSlots draw)) (\<lambda>(slots, hashes).
          bindE (claim_randomness draw (ds_snapshotHash snapshot) authority slots hashes) (\<lambda>randomness.
          bindE (buildSnapshotClaimFromFile (ds_file snapshot) (JString (ds_formula snapshot))
            (JNumber (NInt (dr_winnersCount draw))) randomness 0 (ds_target snapshot)) primary_args)))"

text \<open>The winner arguments of \<^verbatim>\<open>settleInlineRngV2\<close>: empty for a compact draw.\<close>

definition settle_claim :: "buffer option \<Rightarrow> buffer \<Rightarrow> prepared_draw \<Rightarrow> winner_args result" where
  "settle_claim slotHashesAccount authority draw =
     (if dr_snapshot draw \<noteq> None then snapshotWinnerClaim slotHashesAccount authority draw
      else Inr \<lparr>wa_winnerCount = dr_winnersCount draw, wa_winnerClaimHash = zeros 32, wa_outcomeIdLen = 0,
        wa_outcomeId = zeros 64\<rparr>)"

section \<open>The program\<close>

definition RNG_V2_STATUS_PREPARED :: int where "RNG_V2_STATUS_PREPARED = 1"

text \<open>What the instruction reads besides its arguments and the state of the draw. \<open>sx_blob\<close> is put together from the chunk
  accounts; the other \<open>sx\<close> fields of the artifact are those of its header account.\<close>

record settle_accounts =
  sx_actor :: buffer
  sx_paused :: bool
  sx_configHash :: buffer
  sx_configMin :: int
  sx_configMax :: int
  sx_slot :: int
  sx_finalized :: bool
  sx_artifactHash :: buffer
  sx_bindable :: bool
  sx_blob :: buffer
  sx_slotHashes :: buffer

definition derive_seed :: "rng_v2_state \<Rightarrow> int list \<Rightarrow> buffer list \<Rightarrow> buffer" where
  "derive_seed st slots hashes =
     sha256 (RNG_V2_DOMAIN @ rs_runtimeId st @ le_bytes 8 (rs_resolveId st) @ rs_compiledArtifactHash st @ rs_snapshotHash st
       @ concat (map (\<lambda>i. le_bytes 8 (slots ! i) @ hashes ! i) [0..<3])
       @ (if rs_operatorCommitPresent st then rs_operatorCommitHash st else []))"

definition derive_randomness :: "buffer \<Rightarrow> rng_v2_state \<Rightarrow> buffer" where
  "derive_randomness seed st = sha256 (seed @ rs_runtimeId st @ le_bytes 8 (rs_resolveId st) @ rs_actor st)"

text \<open>The reveal, as the length and the 32 bytes of the arguments.\<close>

definition validate_operator_reveal :: "rng_v2_state \<Rightarrow> int \<Rightarrow> buffer \<Rightarrow> rng_v2_state option" where
  "validate_operator_reveal st len reveal =
     (if \<not> rs_operatorCommitPresent st then (if len = 0 \<and> reveal = zeros 32 then Some st else None)
      else if 1 \<le> len \<and> len \<le> 32 \<and> list_all (\<lambda>b. b = 0) (drop (nat len) reveal)
              \<and> sha256 (take (nat len) reveal) = rs_operatorCommitHash st
      then Some (st\<lparr>rs_operatorRevealLen := len, rs_operatorReveal := reveal\<rparr>) else None)"

definition validate_primary_outcome_id :: "int \<Rightarrow> buffer \<Rightarrow> bool" where
  "validate_primary_outcome_id len id' \<longleftrightarrow>
     1 \<le> len \<and> len \<le> 64 \<and> list_all (\<lambda>b. 32 \<le> b \<and> b < 127) (take (nat len) id')
     \<and> list_all (\<lambda>b. b = 0) (drop (nat len) id')"

definition synthetic_effects_digest_v4 :: "int \<Rightarrow> int \<Rightarrow> (int \<times> int \<times> buffer) option" where
  "synthetic_effects_digest_v4 payout winners =
     (if u64_MAX < payout * winners then None
      else Some (payout * winners, if payout = 0 then 0 else winners,
        sha256 (concat (replicate (if 0 < payout then nat winners else 0) (byte_of 1 @ zeros 7 @ le_bytes 8 payout)))))"

definition settled_event ::
  "rng_v2_state \<Rightarrow> snapshot_artifact \<Rightarrow> winner_args \<Rightarrow> buffer \<Rightarrow> int \<times> int \<times> buffer \<Rightarrow> resolved_event" where
  "settled_event st a args randomness effects =
     \<lparr>ev_runtimeId = rs_runtimeId st, ev_resolveId = rs_resolveId st, ev_actor = rs_actor st,
      ev_inputLamports = rs_inputLamports st, ev_totalOutputLamports = fst effects, ev_masterSeed = None,
      ev_rngVersion = Some 2, ev_randomness = randomness, ev_compiledArtifactHash = rs_compiledArtifactHash st,
      ev_artifactFormatVersion = sa_formatVersion a, ev_winnerCount = sa_winnersCount a,
      ev_outcomeIdLen = wa_outcomeIdLen args, ev_outcomeId = wa_outcomeId args, ev_outcomeIdLens = [wa_outcomeIdLen args],
      ev_outcomeIds = [wa_outcomeId args], ev_winnerClaimHash = Some (wa_winnerClaimHash args),
      ev_effectCount = fst (snd effects), ev_effectsDigest = snd (snd effects), ev_snapshotHash = Some (rs_snapshotHash st),
      ev_resolvedSlots = Some (rs_resolvedSlots st), ev_slotHashes = Some (rs_slotHashes st),
      ev_operatorCommitPresent = Some (rs_operatorCommitPresent st), ev_operatorCommitHash = Some (rs_operatorCommitHash st),
      ev_operatorRevealLen = Some (rs_operatorRevealLen st), ev_operatorReveal = Some (rs_operatorReveal st),
      ev_entropySource = Some 0, ev_protocolRevision = None\<rparr>"

definition settled_resolution ::
  "rng_v2_state \<Rightarrow> snapshot_artifact \<Rightarrow> winner_args \<Rightarrow> buffer \<Rightarrow> int \<times> int \<times> buffer \<Rightarrow> int \<Rightarrow> resolution_account" where
  "settled_resolution st a args randomness effects bump =
     \<lparr>ra_runtimeId = rs_runtimeId st, ra_resolveId = rs_resolveId st, ra_actor = rs_actor st,
      ra_inputLamports = rs_inputLamports st, ra_status = 1, ra_rngVersion = 2,
      ra_artifactFormatVersion = sa_formatVersion a, ra_winnerCount = sa_winnersCount a,
      ra_winnerClaimHash = wa_winnerClaimHash args, ra_totalOutputLamports = fst effects,
      ra_compiledArtifactHash = rs_compiledArtifactHash st, ra_randomness = randomness,
      ra_outcomeIdLen = wa_outcomeIdLen args, ra_outcomeId = wa_outcomeId args, ra_effectCount = fst (snd effects),
      ra_effectsDigest = snd (snd effects), ra_snapshotHash = rs_snapshotHash st, ra_resolvedSlots = rs_resolvedSlots st,
      ra_slotHashes = rs_slotHashes st, ra_operatorCommitPresent = rs_operatorCommitPresent st,
      ra_operatorCommitHash = rs_operatorCommitHash st, ra_operatorRevealLen = rs_operatorRevealLen st,
      ra_operatorReveal = rs_operatorReveal st, ra_bump = bump, ra_protocolRevision = 2, ra_bountyLamports = 0,
      ra_reserved = zeros 20\<rparr>"

text \<open>The instruction for the artifact of a scale draw: the event it emits, the resolution it writes and the state it leaves.
  Artifacts of compact draws, whose winners the instruction draws itself, are left out: for them the result is \<open>None\<close>.\<close>

definition settle_rng_v2 ::
  "settle_accounts \<Rightarrow> rng_v2_state \<Rightarrow> buffer \<Rightarrow> int \<Rightarrow> winner_args \<Rightarrow> int \<Rightarrow> buffer \<Rightarrow> int \<Rightarrow>
    (resolved_event \<times> resolution_account \<times> rng_v2_state) option" where
  "settle_rng_v2 x st runtimeId resolveId args revealLen reveal bump =
     (if sx_paused x \<or> rs_status st \<noteq> RNG_V2_STATUS_PREPARED then None
      else if rs_runtimeId st \<noteq> runtimeId \<or> rs_resolveId st \<noteq> resolveId \<or> rs_actor st \<noteq> sx_actor x
        \<or> rs_compiledArtifactHash st \<noteq> sx_configHash x then None
      else if sx_slot x \<le> rs_targetSlots st ! 2 \<or> rs_expirySlot st < sx_slot x then None
      else case validate_operator_reveal st revealLen reveal of None \<Rightarrow> None
      | Some st1 \<Rightarrow>
          if \<not> sx_finalized x \<or> sx_artifactHash x \<noteq> rs_compiledArtifactHash st \<or> \<not> sx_bindable x
            \<or> sha256 (sx_blob x) \<noteq> sx_artifactHash x then None
          else case parse_scale_for_rng_v2 (sx_blob x) of None \<Rightarrow> None
          | Some a \<Rightarrow>
              if sa_formatVersion a \<noteq> rs_artifactFormatVersion st \<or> sa_snapshotHash a \<noteq> rs_snapshotHash st
                \<or> sa_minInputLamports a \<noteq> sx_configMin x \<or> sa_maxInputLamports a \<noteq> sx_configMax x then None
              else case resolve_slot_hashes (sx_slotHashes x) (rs_targetSlots st) of None \<Rightarrow> None
              | Some (slots, hashes) \<Rightarrow>
                  let st2 = st1\<lparr>rs_resolvedSlots := slots, rs_slotHashes := hashes\<rparr>;
                      randomness = derive_randomness (derive_seed st2 slots hashes) st2 in
                  if wa_winnerCount args \<noteq> sa_winnersCount a
                    \<or> \<not> validate_primary_outcome_id (wa_outcomeIdLen args) (wa_outcomeId args) then None
                  else case synthetic_effects_digest_v4 (sa_payoutLamports a) (sa_winnersCount a) of None \<Rightarrow> None
                  | Some effects \<Rightarrow>
                      let st3 = st2\<lparr>rs_status := RNG_V2_STATUS_SETTLED\<rparr> in
                      Some (settled_event st3 a args randomness effects,
                        settled_resolution st3 a args randomness effects bump, st3))"

section \<open>What a settlement leaves\<close>

text \<open>The ways a settlement succeeds, in one statement.\<close>

lemma settle_D:
  assumes "settle_rng_v2 x st runtimeId resolveId args revealLen reveal bump = Some (e, r, st')"
  obtains a st1 slots hashes effects where "parse_scale_for_rng_v2 (sx_blob x) = Some a"
    and "validate_operator_reveal st revealLen reveal = Some st1"
    and "resolve_slot_hashes (sx_slotHashes x) (rs_targetSlots st) = Some (slots, hashes)"
    and "synthetic_effects_digest_v4 (sa_payoutLamports a) (sa_winnersCount a) = Some effects"
    and "wa_winnerCount args = sa_winnersCount a" and "validate_primary_outcome_id (wa_outcomeIdLen args) (wa_outcomeId args)"
    and "rs_runtimeId st = runtimeId" "rs_resolveId st = resolveId" "rs_actor st = sx_actor x"
    and "rs_compiledArtifactHash st = sha256 (sx_blob x)" "sx_configHash x = sha256 (sx_blob x)"
    and "sa_formatVersion a = rs_artifactFormatVersion st" "sa_snapshotHash a = rs_snapshotHash st"
    and "st' = st1\<lparr>rs_resolvedSlots := slots, rs_slotHashes := hashes, rs_status := RNG_V2_STATUS_SETTLED\<rparr>"
    and "e = settled_event st' a args (derive_randomness (derive_seed st' slots hashes) st') effects"
    and "r = settled_resolution st' a args (derive_randomness (derive_seed st' slots hashes) st') effects bump"
proof -
  have derive: "derive_seed (s\<lparr>rs_status := n\<rparr>) = derive_seed s" "derive_randomness q (s\<lparr>rs_status := n\<rparr>) = derive_randomness q s" for s n q
    by (simp_all add: derive_seed_def derive_randomness_def fun_eq_iff)
  show thesis
    using assms that unfolding settle_rng_v2_def
    by (auto simp: Let_def derive split: if_splits option.splits)
qed

lemma validate_operator_reveal_fields:
  assumes "validate_operator_reveal st len reveal = Some st1"
  shows "rs_runtimeId st1 = rs_runtimeId st" "rs_resolveId st1 = rs_resolveId st" "rs_actor st1 = rs_actor st"
    "rs_compiledArtifactHash st1 = rs_compiledArtifactHash st" "rs_snapshotHash st1 = rs_snapshotHash st"
    "rs_artifactFormatVersion st1 = rs_artifactFormatVersion st" "rs_targetSlots st1 = rs_targetSlots st"
    "rs_operatorCommitPresent st1 = rs_operatorCommitPresent st" "rs_operatorCommitHash st1 = rs_operatorCommitHash st"
    "rs_inputLamports st1 = rs_inputLamports st"
    "rs_operatorCommitPresent st \<Longrightarrow> 1 \<le> rs_operatorRevealLen st1 \<and> rs_operatorRevealLen st1 \<le> 32
      \<and> sha256 (take (nat (rs_operatorRevealLen st1)) (rs_operatorReveal st1)) = rs_operatorCommitHash st"
  using assms by (auto simp: validate_operator_reveal_def split: if_splits)

text \<open>The event, the resolution account and the state repeat each other.\<close>

lemma settle_records:
  assumes "settle_rng_v2 x st runtimeId resolveId args revealLen reveal bump = Some (e, r, st')"
  shows "records_event e r" and "settles_event e st'" and "check_reveal e = Inr ()"
proof -
  from settle_D [OF assms] obtain a st1 slots hashes effects where f: "validate_operator_reveal st revealLen reveal = Some st1"
    "st' = st1\<lparr>rs_resolvedSlots := slots, rs_slotHashes := hashes, rs_status := RNG_V2_STATUS_SETTLED\<rparr>"
    "e = settled_event st' a args (derive_randomness (derive_seed st' slots hashes) st') effects"
    "r = settled_resolution st' a args (derive_randomness (derive_seed st' slots hashes) st') effects bump"
    "sa_formatVersion a = rs_artifactFormatVersion st" by metis
  show "records_event e r"
    by (simp add: f(3,4) settled_event_def settled_resolution_def records_event_def or_zeros_def or_zero_def RNG_VERSION_V2_def)
  show "settles_event e st'"
    using f(5) validate_operator_reveal_fields [OF f(1)]
    by (simp add: f(3) settled_event_def settles_event_def or_zeros_def or_zero_def) (simp add: f(2))
  show "check_reveal e = Inr ()"
    using validate_operator_reveal_fields [OF f(1)]
    by (auto simp: check_reveal_def f(3) settled_event_def throwIf_def f(2))
qed

section \<open>The same randomness\<close>

lemma pick_all_ok:
  assumes "account_ok entries" "pick_all entries 0 targets = Inr r"
  shows "length r = length targets" "i < length r \<Longrightarrow> 0 \<le> fst (r ! i) \<and> fst (r ! i) < u64_MAX"
  using pick_all_least [OF assms(2)] assms(1) by (auto simp: account_ok_def list_all_iff slot_entry_ok_def)

lemma slot_chunks_ok:
  assumes "length slots = 3" "length hashes = 3" "\<And>i. i < 3 \<Longrightarrow> 0 \<le> slots ! i \<and> slots ! i < u64_MAX"
  shows "concatE (map (slot_chunk slots hashes) [0..<3]) = Inr (concat (map (\<lambda>i. le_bytes 8 (slots ! i) @ hashes ! i) [0..<3]))"
  by (rule concatE_ok) (use assms in \<open>fastforce simp: slot_chunk_def throwIf_def u64_MAX_def\<close>)

definition same_draw :: "prepared_draw \<Rightarrow> draw_snapshot \<Rightarrow> buffer \<Rightarrow> rng_v2_state \<Rightarrow> bool" where
  "same_draw draw snapshot authority st \<longleftrightarrow>
     dr_snapshot draw = Some snapshot \<and> rs_runtimeId st = dr_runtimeId draw \<and> rs_resolveId st = dr_resolveId draw \<and>
     rs_actor st = authority \<and> rs_compiledArtifactHash st = dr_artifactHash draw \<and>
     rs_snapshotHash st = ds_snapshotHash snapshot \<and> rs_targetSlots st = dr_targetSlots draw \<and>
     length (dr_targetSlots draw) = 3 \<and> \<not> rs_operatorCommitPresent st \<and>
     0 \<le> dr_resolveId draw \<and> dr_resolveId draw < 2 ^ 64"

lemma settle_randomness:
  assumes settle: "settle_rng_v2 x st runtimeId resolveId args revealLen reveal bump = Some (e, r, st')"
    and draw: "same_draw draw snapshot authority st" and ok: "account_ok entries" and data: "sx_slotHashes x = slot_hashes_data entries"
    and ev: "pick_all entries 0 (dr_targetSlots draw) = Inr es"
  shows "claim_randomness draw (ds_snapshotHash snapshot) authority (map fst es) (map snd es) = Inr (ev_randomness e)"
    and "deriveRngV2Randomness e (ds_snapshotHash snapshot) = Inr (ev_randomness e)"
proof -
  from settle_D [OF settle] obtain a st1 slots hashes effects where f: "validate_operator_reveal st revealLen reveal = Some st1"
    "resolve_slot_hashes (sx_slotHashes x) (rs_targetSlots st) = Some (slots, hashes)"
    "st' = st1\<lparr>rs_resolvedSlots := slots, rs_slotHashes := hashes, rs_status := RNG_V2_STATUS_SETTLED\<rparr>"
    "e = settled_event st' a args (derive_randomness (derive_seed st' slots hashes) st') effects" by metis
  note same = validate_operator_reveal_fields [OF f(1)]
  have sh: "slots = map fst es" "hashes = map snd es"
    using f(2) draw program_entries [OF ok] ev by (simp_all add: data same_draw_def or_none_def)
  have len: "length es = 3" using pick_all_ok(1) [OF ok ev] draw by (simp add: same_draw_def)
  have chunks: "concatE (map (slot_chunk slots hashes) [0..<3]) = Inr (concat (map (\<lambda>i. le_bytes 8 (slots ! i) @ hashes ! i) [0..<3]))"
    using len pick_all_ok(2) [OF ok ev] by (intro slot_chunks_ok) (simp_all add: sh)
  have rid: "u64le (dr_resolveId draw) = Inr (le_bytes 8 (dr_resolveId draw))" using draw by (simp add: same_draw_def)
  have rand: "ev_randomness e = derive_randomness (derive_seed st' slots hashes) st'" by (simp add: f(4) settled_event_def)
  show "claim_randomness draw (ds_snapshotHash snapshot) authority (map fst es) (map snd es) = Inr (ev_randomness e)"
    using draw same unfolding claim_randomness_def rid sh [symmetric] chunks
    by (simp add: rand derive_randomness_def derive_seed_def same_draw_def f(3))
  show "deriveRngV2Randomness e (ds_snapshotHash snapshot) = Inr (ev_randomness e)"
    unfolding rand using draw same chunks rid len
    by (simp add: deriveRngV2Randomness_def deriveRngV2Seed_def rng_seed_bytes_def f(4) settled_event_def
        derive_randomness_def derive_seed_def same_draw_def f(3) throwIf_def sh)
qed

section \<open>The same winners\<close>

definition file_winners :: "buffer \<Rightarrow> jsval \<Rightarrow> jsval \<Rightarrow> buffer \<Rightarrow> int option \<Rightarrow> jsstr list result" where
  "file_winners file formulaInput winnersInput randomness targetOption =
     bindE (validateFormula formulaInput) (\<lambda>f.
     bindE (validateWinnersCount winnersInput MAX_SAFE_INTEGER) (\<lambda>winnersCount.
     if f = Weighted_random then foldE (weighted_file_round f file randomness) [] [0..<nat winnersCount]
     else bindE (best_from_file f file (case targetOption of None \<Rightarrow> 0 | Some t \<Rightarrow> t) (nat winnersCount)) (\<lambda>best.
       throwIf (int (length best) \<noteq> winnersCount) (Error ''Snapshot participant count is below winners_count'')
         (Inr (map p_id best)))))"

lemma bindE_throwIf: "bindE (throwIf c e k) f = throwIf c e (bindE k f)"
  by (simp add: throwIf_def)

lemma file_claim_winners:
  "buildSnapshotClaimFromFile file fi wi randomness payout t
    = bindE (file_winners file fi wi randomness t) (\<lambda>ws. buildSnapshotClaimFromWinnerIds ws payout)"
  by (cases "validateFormula fi"; cases "validateWinnersCount wi MAX_SAFE_INTEGER")
    (simp_all add: buildSnapshotClaimFromFile_def file_winners_def Let_def bindE_assoc bindE_throwIf)

lemma compare_target: "f \<noteq> Closest_to \<Longrightarrow> compareFormulaEntries f t = compareFormulaEntries f t'"
  by (cases f) (simp_all add: fun_eq_iff)

lemma file_winners_target:
  assumes "f = Closest_to \<Longrightarrow> t = t'"
  shows "file_winners file (JString (formula_name f)) wi randomness t = file_winners file (JString (formula_name f)) wi randomness t'"
proof (cases "f = Closest_to")
  case False
  have "validateFormula (JString (formula_name f)) = Inr f" by (cases f) (simp_all add: validateFormula_def js_def)
  moreover have "best_from_file f file (case t of None \<Rightarrow> 0 | Some t \<Rightarrow> t)
      = best_from_file f file (case t' of None \<Rightarrow> 0 | Some t \<Rightarrow> t)"
    unfolding best_from_file_def by (simp only: compare_target [OF False, of "case t of None \<Rightarrow> 0 | Some t \<Rightarrow> t"
      "case t' of None \<Rightarrow> 0 | Some t \<Rightarrow> t"])
  ultimately show ?thesis unfolding file_winners_def by (simp only: bindE.simps)
qed (use assms in simp)

lemma claim_any_payout:
  assumes "buildSnapshotClaimFromWinnerIds ws 0 = Inr c" and "0 \<le> payout" and "payout \<le> MAX_U64"
  obtains c' where "buildSnapshotClaimFromWinnerIds ws payout = Inr c'" and "cl_outcomeIds c' = ws"
    and "cl_outcomeIds c = ws" and "ws \<noteq> []" and "\<forall>w \<in> set ws. outcome_id_ok w"
    and "cl_winnersCount c = int (length ws)" and "cl_winnersCount c' = int (length ws)"
    and "cl_winnerClaimHash c' = cl_winnerClaimHash c"
proof -
  from assms(1) obtain us h where ws: "ws \<noteq> []" "distinct ws" "mapE validateOutcomeIdLength ws = Inr us" "buildWinnerClaimHash ws = Inr h"
    and c: "c = \<lparr>cl_outcomeIds = ws, cl_winnersCount = int (length ws), cl_totalOutputLamports = 0, cl_effectCount = 0,
      cl_effectsDigest = sha256 [], cl_winnerClaimHash = h\<rparr>"
    by (auto simp: buildSnapshotClaimFromWinnerIds_def buildSyntheticEffects_def Let_def bindE_Inr_iff throwIf_Inr_iff)
  have ok: "\<forall>w \<in> set ws. outcome_id_ok w"
    using ws(3) by (auto simp: mapE_Inr_iff validateOutcomeIdLength_def throwIf_Inr_iff list_all2_conv_all_nth in_set_conv_nth)
  have "is_ok (buildSyntheticEffects payout (length ws))"
    using assms(2,3) by (simp add: buildSyntheticEffects_def MAX_U64_def concatE_replicate)
  then obtain fx where "buildSyntheticEffects payout (length ws) = Inr fx" by (auto simp: is_ok_iff)
  with ws have "buildSnapshotClaimFromWinnerIds ws payout = Inr \<lparr>cl_outcomeIds = ws, cl_winnersCount = int (length ws),
      cl_totalOutputLamports = payout * int (length ws), cl_effectCount = (if payout = 0 then 0 else int (length ws)),
      cl_effectsDigest = sha256 fx, cl_winnerClaimHash = h\<rparr>"
    by (simp add: buildSnapshotClaimFromWinnerIds_def Let_def)
  from that [OF this] ws(1) ok c show thesis by simp
qed

section \<open>The replay\<close>

lemma settled_evidence:
  assumes "records_event e r" and "ev_rngVersion e = Some RNG_VERSION_V2"
  shows "verifyRngV2ResolutionEvidence OutcomeResolutionV4 (resolution_of r) e = Inr ()"
proof -
  have ev: "ev_resolvedSlots e = Some (ra_resolvedSlots r)" "ev_slotHashes e = Some (ra_slotHashes r)"
    "ev_snapshotHash e = Some (ra_snapshotHash r)"
    using assms(1) by (simp_all add: records_event_def)
  show ?thesis
    using assms ev by (simp add: verifyRngV2ResolutionEvidence_def records_event_def resolution_of_def buffer_from_def)
qed

lemma settled_binding:
  assumes "settles_event e st" and "ev_rngVersion e = Some RNG_VERSION_V2"
  shows "check_state (Some st) e = Inr ()"
proof -
  have ev: "ev_resolvedSlots e = Some (rs_resolvedSlots st)" "ev_slotHashes e = Some (rs_slotHashes st)"
    "ev_snapshotHash e = Some (rs_snapshotHash st)"
    using assms(1) by (simp_all add: settles_event_def)
  show ?thesis
    using assms ev by (simp add: check_state_def verifyRngV2StateBinding_def settles_event_def)
qed

text \<open>The event and the account carry a claim, and the replay of the snapshot finds it.\<close>

lemma claim_compares:
  assumes rec: "records_event e r" and ids: "cl_outcomeIds c = ws" "ws \<noteq> []" "\<forall>w \<in> set ws. outcome_id_ok w"
    and count: "ev_winnerCount e = int (length ws)" "sa_winnersCount a = int (length ws)" and v: "sa_formatVersion a = FORMAT_VERSION_V1_2_1_SCALE"
    and hash: "ev_winnerClaimHash e = Some (cl_winnerClaimHash c)"
    and primary: "ev_outcomeId e = padded_id (hd ws)" "ev_outcomeIdLen e = int (length (hd ws))"
    and effects: "ev_totalOutputLamports e = cl_totalOutputLamports c" "ev_effectCount e = cl_effectCount c" "ev_effectsDigest e = cl_effectsDigest c"
    and acc: "rv_name acc = OutcomeResolutionV4" "rv_resolution acc = resolution_of r"
  shows "compare_snapshot e acc a c = Inr ()"
proof -
  have hd: "outcome_id_ok (hd ws)" using ids by simp
  have "check_primary e (resolution_of r) ws = Inr ()"
    using rec padded_id_facts [OF hd] ids(2)
    by (simp add: check_primary_def records_event_def resolution_of_def primary expectZeroPadding_def js_first_hd)
  moreover have "check_winner_count e acc (sa_winnersCount a) (length ws) = Inr ()"
    using rec by (simp add: check_winner_count_def records_event_def resolution_of_def acc from_v2_def count)
  moreover have "compare_snapshot_winners e acc a c = Inr ()"
    using rec by (simp add: compare_snapshot_winners_def v check_claim_hash_def records_event_def resolution_of_def acc hash buffer_from_def)
  moreover have "check_output e (resolution_of r) (cl_totalOutputLamports c) = Inr ()"
    "check_effects e (resolution_of r) (cl_effectCount c) (cl_effectsDigest c) = Inr ()"
    using rec by (simp_all add: check_output_def check_effects_def records_event_def resolution_of_def effects)
  ultimately show ?thesis by (simp add: compare_snapshot_def acc ids(1))
qed

lemma snapshot_result_ok:
  assumes "f = Closest_to \<Longrightarrow> \<bar>sa_targetScore a\<bar> \<le> MAX_SAFE_INTEGER"
  shows "\<exists>res. snapshot_result w programId e acc f a inspected c = Inr res \<and> vr_status res = MATCH
    \<and> vr_outcome_ids res = Some (cl_outcomeIds c)"
  using assms by (cases "f = Closest_to") (simp_all add: snapshot_result_def safe_number rngV2ResultFields_def match_result_def Let_def)

lemma snapshotWinnerClaim_D:
  assumes "snapshotWinnerClaim (Some (slot_hashes_data entries)) authority draw = Inr args"
    and "dr_snapshot draw = Some snapshot" and "account_ok entries"
  obtains es randomness ws c where "pick_all entries 0 (dr_targetSlots draw) = Inr es"
    and "claim_randomness draw (ds_snapshotHash snapshot) authority (map fst es) (map snd es) = Inr randomness"
    and "file_winners (ds_file snapshot) (JString (ds_formula snapshot)) (JNumber (NInt (dr_winnersCount draw))) randomness
      (ds_target snapshot) = Inr ws"
    and "buildSnapshotClaimFromWinnerIds ws 0 = Inr c" and "primary_args c = Inr args"
  using assms by (auto simp: snapshotWinnerClaim_def evidence_entries file_claim_winners bindE_Inr_iff)

text \<open>The draw of an artifact: what the client prepared is what the artifact commits to.\<close>

definition draw_of_artifact :: "draw_snapshot \<Rightarrow> prepared_draw \<Rightarrow> snapshot_artifact \<Rightarrow> formula \<Rightarrow> bool" where
  "draw_of_artifact snapshot draw a f \<longleftrightarrow>
     formulaCodeToName (sa_formulaCode a) = Inr f \<and>
     ds_formula snapshot = formula_name f \<and> dr_winnersCount draw = sa_winnersCount a \<and>
     (f = Closest_to \<longrightarrow> ds_target snapshot = Some (sa_targetScore a) \<and> \<bar>sa_targetScore a\<bar> \<le> MAX_SAFE_INTEGER)"

text \<open>The claim as the program recorded it, from the same randomness.\<close>

lemma claimed_snapshot_replays:
  assumes claim: "buildSnapshotClaimFromWinnerIds ws 0 = Inr c0" "primary_args c0 = Inr args"
    and winners: "file_winners (ds_file snapshot) (JString (ds_formula snapshot)) (JNumber (NInt (dr_winnersCount draw)))
      (ev_randomness e) (ds_target snapshot) = Inr ws"
    and settle: "settle_rng_v2 x st runtimeId resolveId args revealLen reveal bump = Some (e, r, st')"
    and a: "parse_scale_for_rng_v2 (sx_blob x) = Some a" "draw_of_artifact snapshot draw a f"
    and inspect: "inspectSnapshotFile (ds_file snapshot) (JString (formula_name f)) (Some (to_hex (sa_snapshotHash a)))
      (Some (sa_snapshotCount a)) (case sa_merkleRoot a of None \<Rightarrow> JUndefined | Some root \<Rightarrow> JString (to_hex root)) = Inr summary"
    and fetch: "committed_snapshot w opts a = Inr snap" "fs_bytes snap = ds_file snapshot"
  shows "\<exists>res. verify_snapshot w opts programId e (settled_accounts_of (sx_blob x) r st') a (ev_randomness e) = Inr res
    \<and> vr_status res = MATCH \<and> vr_outcome_ids res = Some ws"
proof -
  have "0 \<le> sa_payoutLamports a" "sa_payoutLamports a \<le> MAX_U64" by (simp_all add: scale_parsed(3) [OF a(1)] MAX_U64_def)
  note d = a(2) [unfolded draw_of_artifact_def] scale_parsed(2) [OF a(1)] this
  obtain c where c: "buildSnapshotClaimFromWinnerIds ws (sa_payoutLamports a) = Inr c" "cl_outcomeIds c = ws"
    "cl_outcomeIds c0 = ws" "ws \<noteq> []" "\<forall>w \<in> set ws. outcome_id_ok w" "cl_winnersCount c0 = int (length ws)"
    "cl_winnersCount c = int (length ws)" "cl_winnerClaimHash c = cl_winnerClaimHash c0"
    using claim_any_payout [OF claim(1)] d by blast
  have "file_winners (ds_file snapshot) (JString (formula_name f)) (JNumber (NInt (sa_winnersCount a))) (ev_randomness e)
      (if f = Closest_to then Some (sa_targetScore a) else None) = Inr ws"
    using winners d file_winners_target [of f "ds_target snapshot" "if f = Closest_to then Some (sa_targetScore a) else None"]
    by simp
  then have replay: "replay_snapshot f a (ev_randomness e) (ds_file snapshot) = Inr (summary, c)"
    by (simp add: replay_snapshot_def inspect file_claim_winners c(1))
  have len: "length (hd ws) \<le> 64" using c(4,5) by (simp add: outcome_id_ok_def MAX_OUTCOME_ID_BYTES_def)
  have args: "wa_winnerCount args = int (length ws)" "wa_winnerClaimHash args = cl_winnerClaimHash c"
    "wa_outcomeIdLen args = int (length (hd ws))" "wa_outcomeId args = padded_id (hd ws)"
    using claim(2) c(3,4,6,8) len
    by (auto simp: primary_args_def js_first_hd Let_def throwIf_Inr_iff padded_id_def MAX_OUTCOME_ID_BYTES_def)
  from settle_D [OF settle] obtain st1 slots hashes effects where f: "synthetic_effects_digest_v4 (sa_payoutLamports a) (sa_winnersCount a) = Some effects"
    "wa_winnerCount args = sa_winnersCount a"
    "e = settled_event st' a args (derive_randomness (derive_seed st' slots hashes) st') effects"
    using a(1) by (metis option.inject)
  have n: "sa_winnersCount a = int (length ws)" using f(2) args(1) by simp
  have ev: "ev_rngVersion e = Some RNG_VERSION_V2" by (simp add: f(3) settled_event_def RNG_VERSION_V2_def)
  note rec = settle_records(1) [OF settle]
  have cd: "cl_totalOutputLamports c = sa_payoutLamports a * int (length ws)"
    "cl_effectCount c = (if 0 < sa_payoutLamports a then int (length ws) else 0)"
    "cl_effectsDigest c = sha256 (concat (map (\<lambda>_. payout_effect (sa_payoutLamports a)) ws))"
    using claim_D [OF c(1)] d by simp_all
  have eff: "fst effects = cl_totalOutputLamports c" "fst (snd effects) = cl_effectCount c" "snd (snd effects) = cl_effectsDigest c"
    using f(1) d by (auto simp: synthetic_effects_digest_v4_def n cd payout_effect_def map_replicate_const split: if_splits)
  have "compare_snapshot e (settled_accounts_of (sx_blob x) r st') a c = Inr ()"
    by (rule claim_compares [OF rec c(2,4,5)])
      (use d n args eff in \<open>simp_all add: f(3) settled_event_def settled_accounts_of_def\<close>)
  moreover have "verifyRngV2ResolutionEvidence OutcomeResolutionV4 (resolution_of r) e = Inr ()" by (rule settled_evidence [OF rec ev])
  moreover obtain res where "snapshot_result w programId e (settled_accounts_of (sx_blob x) r st') f a summary c = Inr res"
    "vr_status res = MATCH" "vr_outcome_ids res = Some (cl_outcomeIds c)"
    using snapshot_result_ok d by metis
  ultimately show ?thesis
    using d replay fetch c(2) by (simp add: verify_snapshot_def settled_accounts_of_def)
qed

end
