(* ===== verification/Operator_Claims.thy ===== *)
theory Operator_Claims
  imports Operator_Rng Verify_Claims
begin

text \<open>
  The claim of a snapshot draw, from the client through the program to the verifier.
\<close>

section \<open>From the claim to the replay\<close>

lemma kept_evidence:
  assumes "pick_all (kept @ dropped) previous targets = Inr es" and "\<forall>d \<in> set dropped. \<forall>t \<in> set targets. fst d < t"
  shows "fst ` set es \<subseteq> fst ` set kept"
proof
  fix s
  assume "s \<in> fst ` set es"
  then obtain i where i: "i < length es" "s = fst (es ! i)" by (auto simp: in_set_conv_nth)
  then have m: "es ! i \<in> set (kept @ dropped)" "targets ! i \<le> fst (es ! i)" "targets ! i \<in> set targets"
    using pick_all_least [OF assms(1)] by (auto simp: candidate_def)
  then have "es ! i \<notin> set dropped" using assms(2) by force
  with m(1) i(2) show "s \<in> fst ` set kept" by auto
qed

text \<open>What is left of a verification once the accounts are read and the checks before the replay have passed.\<close>

lemma scale_resolved:
  assumes a: "parse_scale_for_rng_v2 blob = Some a" "js_trim (sa_snapshotUri a) \<noteq> []"
    and w: "settled_world w programId blob e r s" and local: "no_artifactPath opts = []"
    and e: "ev_rngVersion e = Some RNG_VERSION_V2" "ev_compiledArtifactHash e = sha256 blob"
      "ev_artifactFormatVersion e = FORMAT_VERSION_V1_2_1_SCALE"
    and random: "recomputed_randomness e (Snapshot_blob a) = Inr (ev_randomness e)"
  shows "verify_resolved w opts programId e = verify_snapshot w opts programId e (settled_accounts_of blob r s) a (ev_randomness e)"
proof -
  let ?acc = "settled_accounts_of blob r s"
  have rec: "records_event e r" and st: "settles_event e s" and pub: "published w programId blob" using w by (simp_all add: settled_world_def)
  have acc: "resolve_accounts_of w programId e = Inr ?acc"
    unfolding settled_accounts_of_def by (rule settled_accounts [OF w e(1,2)])
  have bind: "check_bindings e ?acc = Inr ()"
    using rec by (simp add: check_bindings_def settled_accounts_of_def e check_header_def header_of_def records_event_def resolution_of_def)
  have header: "rv_header ?acc = header_of blob" "rv_state ?acc = Some s" by (simp_all add: settled_accounts_of_def)
  have status: "check_status w programId (ah_status (header_of blob)) = Inr ()"
    by (simp add: check_status_def header_of_def STATUS_APPROVED_def STATUS_PENDING_def)
  have inputs: "check_inputs e ?acc FORMAT_VERSION_V1_2_1_SCALE (ev_randomness e) = Inr ()"
    using rec by (simp add: check_inputs_def settled_accounts_of_def records_event_def resolution_of_def e from_v2_def)
  have state: "check_state (Some s) e = Inr ()" using settled_binding [OF st e(1)] .
  have "parse_blob blob FORMAT_VERSION_V1_2_1_SCALE = Inr (Snapshot_blob a)"
    using scale_parsed(5) [OF a(1)] a(2)
    by (simp add: parse_blob_def FORMAT_VERSION_V4_def FORMAT_VERSION_V1_2_SCALE_def FORMAT_VERSION_V1_2_1_SCALE_def)
  then show ?thesis
    using bind status inputs state random committed_blob_ok [OF pub] scale_parsed(4) [OF a(1)] local
    by (simp add: verify_resolved_def acc header e check_local_artifact_def mismatch_on_error_def)
qed

text \<open>C2: a claim that the client makes for a scale draw ends in MATCH. The client reads the slot hashes at one time and claims
  winners; the program settles at a later time, when there are newer slots and old ones have dropped out; of the old slots
  it is only asked that none at or after a target has dropped out, and both readings are well-formed accounts with the newest
  slot first. The state that the program prepared is that of the client's draw: runtime, resolve id, actor, hashes and the
  three target slots. The artifact is what the program parses from the blob it
  loads, of format 7, with a URI that is not blank; the draw that the client prepared has its formula, its number of winners and, for the formula
  closest_to, its target, a safe integer, and no operator commitment; the snapshot file has the committed hash, count and root. Then, for
  a verifier without a local artifact, to whom the artifact is published in full and approved, the configuration, the
  resolution and the state are shown as the settlement bound and left them, and the snapshot is served, the verification of the
  event that the settlement emitted returns MATCH with winners whose hash is the claim.\<close>

theorem claimed_draw_verifies:
  assumes draw: "same_draw draw snapshot authority st" and a: "parse_scale_for_rng_v2 (sx_blob x) = Some a"
      "draw_of_artifact snapshot draw a f" and uri: "js_trim (sa_snapshotUri a) \<noteq> []"
    and times: "account_ok (kept @ dropped)" "account_ok (newer @ kept)" "newest_first (newer @ kept @ dropped)"
      "\<forall>d \<in> set dropped. \<forall>t \<in> set (dr_targetSlots draw). fst d < t"
    and claim: "snapshotWinnerClaim (Some (slot_hashes_data (kept @ dropped))) authority draw = Inr args"
    and data: "sx_slotHashes x = slot_hashes_data (newer @ kept)"
    and settle: "settle_rng_v2 x st (dr_runtimeId draw) (dr_resolveId draw) args 0 (zeros 32) bump = Some (e, r, st')"
    and inspect: "inspectSnapshotFile (ds_file snapshot) (JString (formula_name f)) (Some (to_hex (sa_snapshotHash a)))
      (Some (sa_snapshotCount a)) (case sa_merkleRoot a of None \<Rightarrow> JUndefined | Some root \<Rightarrow> JString (to_hex root)) = Inr summary"
    and fetch: "committed_snapshot w opts a = Inr snap" "fs_bytes snap = ds_file snapshot"
    and accounts: "published w programId (sx_blob x)"
      "holds w (deriveOutcomeConfigPda w programId (dr_runtimeId draw)) (w_decodeConfig w) (sx_configHash x)"
      "holds w (deriveOutcomeResolutionPda w programId (dr_runtimeId draw) (dr_resolveId draw)) decodeOutcomeResolutionV4Account r"
      "holds w (deriveRngV2StatePda w programId (dr_runtimeId draw) (dr_resolveId draw)) decodeRngV2StateAccount st'"
    and local: "no_artifactPath opts = []"
  shows "\<exists>res winners. verify_resolved w opts programId e = Inr res \<and> vr_status res = MATCH
    \<and> vr_outcome_ids res = Some winners \<and> buildWinnerClaimHash winners = Inr (wa_winnerClaimHash args)"
proof -
  obtain es randomness ws c where es: "pick_all (kept @ dropped) 0 (dr_targetSlots draw) = Inr es"
    and rand: "claim_randomness draw (ds_snapshotHash snapshot) authority (map fst es) (map snd es) = Inr randomness"
    and winners: "file_winners (ds_file snapshot) (JString (ds_formula snapshot)) (JNumber (NInt (dr_winnersCount draw))) randomness
      (ds_target snapshot) = Inr ws"
    and c: "buildSnapshotClaimFromWinnerIds ws 0 = Inr c" "primary_args c = Inr args"
    using snapshotWinnerClaim_D [OF claim _ times(1)] draw unfolding same_draw_def by metis
  have "newest_first (newer @ kept)" "newest_first (kept @ dropped)"
    using times(3) by (auto simp: newest_first_def sorted_wrt_append)
  from pick_all_later [OF this es kept_evidence [OF es times(4)]]
  have later: "pick_all (newer @ kept) 0 (dr_targetSlots draw) = Inr es" .
  note same = settle_randomness [OF settle draw times(2) data later]
  have r: "randomness = ev_randomness e" using rand same(1) by simp
  from settle_D [OF settle] obtain st1 slots hashes effects where e:
    "e = settled_event st' a args (derive_randomness (derive_seed st' slots hashes) st') effects"
    "validate_operator_reveal st 0 (zeros 32) = Some st1" "sa_snapshotHash a = rs_snapshotHash st"
    "rs_compiledArtifactHash st = sha256 (sx_blob x)" "sx_configHash x = sha256 (sx_blob x)"
    "st' = st1\<lparr>rs_resolvedSlots := slots, rs_slotHashes := hashes, rs_status := RNG_V2_STATUS_SETTLED\<rparr>"
    using a(1) by (metis option.inject)
  have ids: "ev_runtimeId e = dr_runtimeId draw" "ev_resolveId e = dr_resolveId draw" "ev_compiledArtifactHash e = sha256 (sx_blob x)"
    using e draw validate_operator_reveal_fields [OF e(2)] by (simp_all add: settled_event_def same_draw_def)
  have ev: "ev_rngVersion e = Some RNG_VERSION_V2" by (simp add: e(1) settled_event_def RNG_VERSION_V2_def)
  have version: "ev_artifactFormatVersion e = FORMAT_VERSION_V1_2_1_SCALE"
    using scale_parsed(2) [OF a(1)] by (simp add: e(1) settled_event_def)
  have snap: "ev_snapshotHash e = Some (sa_snapshotHash a)" "sa_snapshotHash a = ds_snapshotHash snapshot"
    using e draw validate_operator_reveal_fields [OF e(2)] by (simp_all add: settled_event_def same_draw_def)
  have random: "recomputed_randomness e (Snapshot_blob a) = Inr (ev_randomness e)"
    using same(2) settle_records(3) [OF settle] snap by (simp add: recomputed_randomness_def ev expected_snapshot_def)
  have world: "settled_world w programId (sx_blob x) e r st'"
    using accounts settle_records [OF settle] by (simp add: settled_world_def ids e(5))
  obtain res where "verify_snapshot w opts programId e (settled_accounts_of (sx_blob x) r st') a (ev_randomness e) = Inr res"
    "vr_status res = MATCH" "vr_outcome_ids res = Some ws"
    using claimed_snapshot_replays [OF c winners [unfolded r] settle a inspect fetch] by blast
  moreover have "buildWinnerClaimHash ws = Inr (wa_winnerClaimHash args)"
    using c by (auto simp: buildSnapshotClaimFromWinnerIds_def primary_args_def bindE_Inr_iff throwIf_Inr_iff Let_def
        split: option.splits)
  ultimately show ?thesis
    using scale_resolved [OF a(1) uri world local ev ids(3) version random] by simp
qed

section \<open>A draw from a file of one line\<close>

definition one_entry :: participant where
  "one_entry = \<lparr>p_id = js ''a'', p_order = 0, p_weight = 1, p_score = 0\<rparr>"

definition one_file :: buffer where
  "one_file = utf8_encode (canonical_text First_n [one_entry])"

definition one_config :: snapshot_config where
  "one_config = \<lparr>sc_formula = First_n, sc_input = 5, sc_payout = 0, sc_hash = sha256 one_file, sc_count = 1,
     sc_uri = js ''f'', sc_winners = 1, sc_target = 0, sc_root = None\<rparr>"

definition one_blob :: buffer where
  "one_blob = W3O1 @ snapshot_bytes one_config FORMAT_VERSION_V1_2_1_SCALE"

definition one_artifact :: snapshot_artifact where
  "one_artifact = snapshot_artifact_of one_config FORMAT_VERSION_V1_2_1_SCALE"

definition one_snapshot :: draw_snapshot where
  "one_snapshot = \<lparr>ds_file = one_file, ds_formula = js ''first_n'', ds_snapshotHash = sha256 one_file, ds_target = None\<rparr>"

definition one_draw :: prepared_draw where
  "one_draw = \<lparr>dr_runtimeId = zeros 16, dr_resolveId = 3, dr_artifactHash = sha256 one_blob, dr_winnersCount = 1,
     dr_targetSlots = [6, 8, 10], dr_expirySlot = 99, dr_prepareSignature = [], dr_snapshot = Some one_snapshot\<rparr>"

definition one_state :: rng_v2_state where
  "one_state = \<lparr>rs_runtimeId = zeros 16, rs_resolveId = 3, rs_actor = zeros 32, rs_inputLamports = 5, rs_status = 1,
     rs_compiledArtifactHash = sha256 one_blob, rs_artifactFormatVersion = 7, rs_snapshotHash = sha256 one_file,
     rs_targetSlots = [6, 8, 10], rs_expirySlot = 99, rs_operatorCommitPresent = False, rs_operatorCommitHash = zeros 32,
     rs_operatorRevealLen = 0, rs_operatorReveal = zeros 32, rs_resolvedSlots = [0, 0, 0],
     rs_slotHashes = [zeros 32, zeros 32, zeros 32]\<rparr>"

definition early_slots :: "slot_entry list" where
  "early_slots = [(11, zeros 32), (9, replicate 32 7), (7, replicate 32 1)]"

definition one_accounts :: settle_accounts where
  "one_accounts = \<lparr>sx_actor = zeros 32, sx_paused = False, sx_configHash = sha256 one_blob, sx_configMin = 5, sx_configMax = 5,
     sx_slot = 14, sx_finalized = True, sx_artifactHash = sha256 one_blob, sx_bindable = True, sx_blob = one_blob,
     sx_slotHashes = slot_hashes_data ([(13, zeros 32)] @ early_slots)\<rparr>"

text \<open>A world with the accounts that the settlement leaves, and a disk whose only file is the snapshot.\<close>

definition one_world :: "resolution_account \<Rightarrow> rng_v2_state \<Rightarrow> world" where
  "one_world r st = (sample_world one_blob (anchorAccountDiscriminator ''OutcomeResolutionV4'' @ resolution_bytes r)
     (anchorAccountDiscriminator ''RngV2State'' @ state_bytes st 1 (zeros 32)))
     \<lparr>sw_absolute := \<lambda>_. True, sw_stat := \<lambda>_. Some 21, sw_read := \<lambda>_. Some one_file\<rparr>"

definition one_opts :: verify_opts where
  "one_opts = sample_opts\<lparr>no_snapshotFile := js ''f''\<rparr>"

lemma one_ok: "\<forall>e \<in> set [one_entry]. participant_ok First_n e"
  by (simp add: one_entry_def participant_ok_def outcome_id_ok_def printable_ascii_def printable_unit_def js_def bound_defs)

lemma one_fields [simp]:
  "sa_formatVersion one_artifact = 7" "sa_minInputLamports one_artifact = 5" "sa_maxInputLamports one_artifact = 5"
  "sa_winnersCount one_artifact = 1" "sa_formulaCode one_artifact = formula_code First_n" "sa_snapshotCount one_artifact = 1"
  "sa_payoutLamports one_artifact = 0" "sa_snapshotHash one_artifact = sha256 one_file" "sa_merkleRoot one_artifact = None"
  "sa_snapshotUri one_artifact = js ''f''"
  by (simp_all add: one_artifact_def snapshot_artifact_of_def one_config_def FORMAT_VERSION_V1_2_1_SCALE_def)

lemma one_parsed: "parse_scale_for_rng_v2 one_blob = Some one_artifact" "length one_blob < 4294967296"
proof -
  have uri: "utf8_encode (js ''f'') = [102]" by (simp add: utf8_encode_ascii js_def)
  have ok: "config_ok one_config"
    by (simp add: config_ok_def one_config_def length_sha256 bound_defs MAX_SNAPSHOT_URI_BYTES_def uri)
      (simp add: js_def js_trim_def js_space_def)
  have "well_formed_utf16 (sc_uri one_config)" by (simp add: one_config_def js_def high_surrogate_def low_surrogate_def)
  with ok show "parse_scale_for_rng_v2 one_blob = Some one_artifact"
    unfolding one_blob_def one_artifact_def
    by (intro built_for_program) (simp_all add: one_config_def uri ascii_control_def)
  show "length one_blob < 4294967296"
    using length_snapshot_bytes [OF ok] by (simp add: one_blob_def W3O1_def) (simp add: one_config_def root_bytes_def uri)
qed

lemma one_slots:
  "account_ok (early_slots @ [(5, zeros 32)])" "account_ok ([(13, zeros 32)] @ early_slots)"
  "newest_first ([(13, zeros 32)] @ early_slots @ [(5, zeros 32)])"
  "pick_all (early_slots @ [(5, zeros 32)]) 0 [6, 8, 10] = Inr [(7, replicate 32 1), (9, replicate 32 7), (11, zeros 32)]"
  "pick_all ([(13, zeros 32)] @ early_slots) 0 [6, 8, 10] = Inr [(7, replicate 32 1), (9, replicate 32 7), (11, zeros 32)]"
  by (simp_all add: early_slots_def account_ok_def slot_entry_ok_def u64_MAX_def newest_first_def closer_simps)

lemma one_winners: "file_winners one_file (JString (js ''first_n'')) (JNumber (NInt 1)) randomness t = Inr [js ''a'']"
proof -
  have f: "validateFormula (JString (js ''first_n'')) = Inr First_n" by code_simp
  have "js_sort (compareFormulaEntries First_n u) [one_entry] = [one_entry]" for u by (simp add: js_sort_def)
  then show ?thesis
    using best_canonical [OF one_ok]
    by (simp add: file_winners_def f validateWinnersCount_def bound_defs one_file_def) (simp add: one_entry_def)
qed

lemma one_claim:
  obtains c args where "buildSnapshotClaimFromWinnerIds [js ''a''] 0 = Inr c" "primary_args c = Inr args"
    "wa_winnerCount args = 1" "wa_outcomeIdLen args = 1" "wa_outcomeId args = 97 # zeros 63"
    "snapshotWinnerClaim (Some (slot_hashes_data (early_slots @ [(5, zeros 32)]))) (zeros 32) one_draw = Inr args"
proof -
  have "outcome_id_ok (js ''a'')" using one_ok by (simp add: participant_ok_def one_entry_def)
  then obtain c where c: "buildSnapshotClaimFromWinnerIds [js ''a''] 0 = Inr c" "cl_outcomeIds c = [js ''a'']" "cl_winnersCount c = 1"
    using claim_ok [of "[js ''a'']" 0] by (auto simp: bound_defs)
  then obtain args where args: "primary_args c = Inr args" "wa_winnerCount args = 1" "wa_outcomeIdLen args = 1" "wa_outcomeId args = 97 # zeros 63"
    by (simp add: primary_args_def js_first_def Let_def js_def ascii_bytes_def)
  have "\<exists>r. claim_randomness one_draw (sha256 one_file) (zeros 32) [7, 9, 11] [replicate 32 1, replicate 32 7, zeros 32] = Inr r"
    by (simp add: claim_randomness_def one_draw_def slot_chunks_ok u64_MAX_def Let_def nth_Cons' upt_rec slot_chunk_def)
  moreover have "resolveSlotEvidence (Some (slot_hashes_data (early_slots @ [(5, zeros 32)]))) [6, 8, 10]
      = Inr ([7, 9, 11], [replicate 32 1, replicate 32 7, zeros 32])"
    unfolding evidence_entries [OF one_slots(1)] one_slots(4) by simp
  moreover have "dr_snapshot one_draw = Some one_snapshot" "dr_targetSlots one_draw = [6, 8, 10]" "dr_winnersCount one_draw = 1"
    "ds_file one_snapshot = one_file" "ds_formula one_snapshot = js ''first_n''" "ds_snapshotHash one_snapshot = sha256 one_file"
    by (simp_all add: one_draw_def one_snapshot_def)
  ultimately have "snapshotWinnerClaim (Some (slot_hashes_data (early_slots @ [(5, zeros 32)]))) (zeros 32) one_draw = Inr args"
    using c(1) args(1) by (auto simp: snapshotWinnerClaim_def file_claim_winners one_winners)
  with c(1) args that show thesis by blast
qed

lemma one_settles:
  assumes "wa_winnerCount args = 1" "wa_outcomeIdLen args = 1" "wa_outcomeId args = 97 # zeros 63"
  shows "\<exists>e r st'. settle_rng_v2 one_accounts one_state (zeros 16) 3 args 0 (zeros 32) 255 = Some (e, r, st')"
proof -
  have "resolve_slot_hashes (sx_slotHashes one_accounts) [6, 8, 10]
      = Some ([7, 9, 11], [replicate 32 1, replicate 32 7, zeros 32])"
    using program_entries [OF one_slots(2), of "[6, 8, 10]"] one_slots(5) by (simp add: one_accounts_def or_none_def)
  moreover have "rs_targetSlots one_state = [6, 8, 10]" "parse_scale_for_rng_v2 (sx_blob one_accounts) = Some one_artifact"
    by (simp_all add: one_state_def one_accounts_def one_parsed)
  moreover have "validate_operator_reveal one_state 0 (zeros 32) = Some one_state"
    by (simp add: validate_operator_reveal_def one_state_def)
  moreover have "synthetic_effects_digest_v4 (sa_payoutLamports one_artifact) (sa_winnersCount one_artifact) = Some (0, 0, sha256 [])"
    by (simp add: synthetic_effects_digest_v4_def u64_MAX_def)
  moreover have "validate_primary_outcome_id (wa_outcomeIdLen args) (wa_outcomeId args)"
    using assms by (simp add: validate_primary_outcome_id_def zeros_def list_all_iff)
  ultimately show ?thesis
    using assms unfolding settle_rng_v2_def Let_def
    by (simp add: one_accounts_def one_state_def RNG_V2_STATUS_PREPARED_def)
qed

lemma one_inspects: "\<exists>summary. inspectSnapshotFile one_file (JString (formula_name First_n)) (Some (to_hex (sa_snapshotHash one_artifact)))
      (Some (sa_snapshotCount one_artifact)) JUndefined = Inr summary"
proof -
  let ?line = "canonicalSnapshotLine one_entry First_n"
  have f: "validateFormula (JString (formula_name First_n)) = Inr First_n" by code_simp
  have srt: "strictly_sorted_ids [one_entry]" by (simp add: strictly_sorted_ids_def)
  obtain previous where read: "for_entries First_n one_file inspect_step (None, []) = Inr (previous, [one_entry])"
    using for_entries_inspect [OF one_ok srt] unfolding one_file_def by blast
  have root: "buildMerkleRoot (map hashSnapshotLeafLine [?line]) = Inr (merkle_root [?line])" by (rule merkle_root_lines) simp
  have "map hex_lower (to_hex b) = to_hex b" for b using to_hex_chars by (intro map_idI) blast
  moreover have "concat (map utf8_encode [?line]) = one_file" by (simp add: one_file_def canonical_text_def)
  ultimately have check: "check_committed \<lparr>snapshotHash = sha256 (concat (map utf8_encode [?line])), snapshotCount = length [one_entry],
      merkleRootOf = merkle_root [?line], canonicalSnapshot = concat [?line]\<rparr> (Some (to_hex (sa_snapshotHash one_artifact)))
      (Some (sa_snapshotCount one_artifact)) JUndefined = Inr ()"
    by (simp add: check_committed_def)
  show ?thesis
    using check root unfolding inspectSnapshotFile_def f by (simp add: read del: map_map)
qed

lemma one_served: "\<exists>snap. committed_snapshot (one_world r st) one_opts one_artifact = Inr snap \<and> fs_bytes snap = one_file"
proof -
  have "snapshot_sources \<lparr>sp_snapshotUri = js ''f'', sp_snapshotHash = to_hex (sha256 one_file), sp_mirrors = Some [], sp_localFile = Some (js ''f''),
      sp_gateways = None, sp_timeoutMs = Some 1, sp_maxBytes = None\<rparr> = [js ''f'']"
    by (simp add: snapshot_sources_def snapshotSourceCandidates_def uri_sources_def js_trim_def js_unique_def js_def js_space_def
      is_http_def is_file_url_def hostlessSource_def scheme_of_def lower_def hex_lower_def scheme_unit_def letter_def is_digit_def)
  moreover have "read_source (one_world r st) 1 DEFAULT_SNAPSHOT_MAX_BYTES (js ''f'') = Inr one_file"
    by (simp add: read_source_def is_http_def is_file_url_def scheme_of_def readLocal_def one_world_def js_def lower_def
      hex_lower_def DEFAULT_SNAPSHOT_MAX_BYTES_def)
  ultimately show ?thesis
    by (simp add: committed_snapshot_def one_opts_def sample_opts_def fetchCommittedSnapshot_def is_hex64_to_hex
        length_sha256 time_limit_def byte_limit_def js_def)
qed

text \<open>The accounts that this settlement leaves decode to what it wrote.\<close>

lemma one_accounts_hold:
  assumes settle: "settle_rng_v2 one_accounts one_state (zeros 16) 3 args 0 (zeros 32) 255 = Some (e, r, st')"
    and args: "wa_winnerCount args = 1" "wa_outcomeIdLen args = 1" "wa_outcomeId args = 97 # zeros 63" "length (wa_winnerClaimHash args) = 32"
  shows "published (one_world r st') p one_blob"
    and "holds (one_world r st') (deriveOutcomeConfigPda (one_world r st') p (zeros 16)) (w_decodeConfig (one_world r st')) (sha256 one_blob)"
    and "holds (one_world r st') (deriveOutcomeResolutionPda (one_world r st') p (zeros 16) 3) decodeOutcomeResolutionV4Account r"
    and "holds (one_world r st') (deriveRngV2StatePda (one_world r st') p (zeros 16) 3) decodeRngV2StateAccount st'"
proof -
  let ?w = "one_world r st'"
  have slots: "resolve_slot_hashes (sx_slotHashes one_accounts) [6, 8, 10] = Some ([7, 9, 11], [replicate 32 1, replicate 32 7, zeros 32])"
    using program_entries [OF one_slots(2), of "[6, 8, 10]"] one_slots(5) by (simp add: one_accounts_def or_none_def)
  from settle_D [OF settle] obtain a st1 ss hs effects where a: "parse_scale_for_rng_v2 (sx_blob one_accounts) = Some a"
    and st1: "validate_operator_reveal one_state 0 (zeros 32) = Some st1"
    and ev: "resolve_slot_hashes (sx_slotHashes one_accounts) (rs_targetSlots one_state) = Some (ss, hs)"
    and fx: "synthetic_effects_digest_v4 (sa_payoutLamports a) (sa_winnersCount a) = Some effects"
    and st': "st' = st1\<lparr>rs_resolvedSlots := ss, rs_slotHashes := hs, rs_status := RNG_V2_STATUS_SETTLED\<rparr>"
    and r: "r = settled_resolution st' a args (derive_randomness (derive_seed st' ss hs) st') effects 255" by metis
  have a1: "a = one_artifact" using a by (simp add: one_accounts_def one_parsed)
  have s1: "st1 = one_state" using st1 by (simp add: validate_operator_reveal_def one_state_def)
  have sh: "ss = [7, 9, 11]" "hs = [replicate 32 1, replicate 32 7, zeros 32]" using ev slots by (simp_all add: one_state_def)
  have fx1: "effects = (0, 0, sha256 [])" using fx by (simp add: a1 synthetic_effects_digest_v4_def u64_MAX_def)
  have ok: "resolution_ok r" "state_ok st'"
    by (simp_all add: r st' s1 sh fx1 a1 resolution_ok_def state_ok_def settled_resolution_def one_state_def args derive_randomness_def
        u8_ok_def u16_ok_def u64_ok_def length_sha256 RNG_V2_STATUS_SETTLED_def)
  have same: "published ?w p b = published (sample_world one_blob (anchorAccountDiscriminator ''OutcomeResolutionV4'' @ resolution_bytes r)
     (anchorAccountDiscriminator ''RngV2State'' @ state_bytes st' 1 (zeros 32))) p b" for b
    by (simp add: published_def holds_def one_world_def deriveApprovedArtifactPda_def deriveApprovedArtifactChunkPda_def)
  show "published ?w p one_blob" unfolding same by (rule sample_published [OF one_parsed(2)])
  show "holds ?w (deriveOutcomeConfigPda ?w p (zeros 16)) (w_decodeConfig ?w) (sha256 one_blob)"
    by (simp add: holds_def deriveOutcomeConfigPda_def one_world_def sample_world_def)
  show "holds ?w (deriveOutcomeResolutionPda ?w p (zeros 16) 3) decodeOutcomeResolutionV4Account r"
    using account_bytes_decode(1) [OF ok(1), of "[]"]
    by (simp add: holds_def deriveOutcomeResolutionPda_def one_world_def sample_world_def js_def sample_seed_bytes)
  show "holds ?w (deriveRngV2StatePda ?w p (zeros 16) 3) decodeRngV2StateAccount st'"
    using account_bytes_decode(2) [OF ok(2), of 1 "zeros 32" "[]"]
    by (simp add: holds_def deriveRngV2StatePda_def one_world_def sample_world_def js_def sample_seed_bytes u8_ok_def)
qed

lemma claim_hash_length: "snapshotWinnerClaim acc authority draw = Inr args \<Longrightarrow> length (wa_winnerClaimHash args) = 32"
  by (auto simp: snapshotWinnerClaim_def file_claim_winners primary_args_def buildSnapshotClaimFromWinnerIds_def buildWinnerClaimHash_def
      bindE_Inr_iff throwIf_Inr_iff Let_def length_sha256 split: option.splits)

lemma claimed_draw_verifies_witness:
  "\<exists>args e r st' res winners. settle_rng_v2 one_accounts one_state (zeros 16) 3 args 0 (zeros 32) 255 = Some (e, r, st')
    \<and> verify_resolved (one_world r st') one_opts [] e = Inr res
    \<and> vr_status res = MATCH \<and> vr_outcome_ids res = Some winners \<and> buildWinnerClaimHash winners = Inr (wa_winnerClaimHash args)"
proof -
  obtain args where args: "wa_winnerCount args = 1" "wa_outcomeIdLen args = 1" "wa_outcomeId args = 97 # zeros 63"
    and claim: "snapshotWinnerClaim (Some (slot_hashes_data (early_slots @ [(5, zeros 32)]))) (zeros 32) one_draw = Inr args"
    using one_claim by metis
  have draw: "same_draw one_draw one_snapshot (zeros 32) one_state"
    by (simp add: same_draw_def one_draw_def one_snapshot_def one_state_def)
  have a: "parse_scale_for_rng_v2 (sx_blob one_accounts) = Some one_artifact" "draw_of_artifact one_snapshot one_draw one_artifact First_n"
    by (simp_all add: one_accounts_def one_parsed draw_of_artifact_def one_snapshot_def one_draw_def formulaCodeToName_def)
  have uri: "js_trim (sa_snapshotUri one_artifact) \<noteq> []" by (simp add: js_def js_trim_def js_space_def)
  have old: "\<forall>d \<in> set [(5, zeros 32)]. \<forall>t \<in> set (dr_targetSlots one_draw). fst d < t" by (simp add: one_draw_def)
  have data: "sx_slotHashes one_accounts = slot_hashes_data ([(13, zeros 32)] @ early_slots)" by (simp add: one_accounts_def)
  have ids: "dr_runtimeId one_draw = zeros 16" "dr_resolveId one_draw = 3" by (simp_all add: one_draw_def)
  obtain e r st' where settle: "settle_rng_v2 one_accounts one_state (zeros 16) 3 args 0 (zeros 32) 255 = Some (e, r, st')"
    using one_settles [OF args] by auto
  note hold = one_accounts_hold [OF settle args claim_hash_length [OF claim], where p = "[]"]
  have root: "(case sa_merkleRoot one_artifact of None \<Rightarrow> JUndefined | Some root \<Rightarrow> JString (to_hex root)) = JUndefined"
    and ds: "ds_file one_snapshot = one_file" by (simp_all add: one_snapshot_def)
  obtain summary snap where inspect: "inspectSnapshotFile (ds_file one_snapshot) (JString (formula_name First_n)) (Some (to_hex (sa_snapshotHash one_artifact)))
      (Some (sa_snapshotCount one_artifact)) (case sa_merkleRoot one_artifact of None \<Rightarrow> JUndefined | Some root \<Rightarrow> JString (to_hex root)) = Inr summary"
    and fetch: "committed_snapshot (one_world r st') one_opts one_artifact = Inr snap" "fs_bytes snap = ds_file one_snapshot"
    using one_inspects one_served unfolding root ds by blast
  have blob: "sx_blob one_accounts = one_blob" "sx_configHash one_accounts = sha256 one_blob" by (simp_all add: one_accounts_def)
  have local: "no_artifactPath one_opts = []" by (simp add: one_opts_def sample_opts_def)
  note verified = claimed_draw_verifies [OF draw a uri one_slots(1-3) old claim data settle [folded ids] inspect fetch
      hold(1) [folded blob(1)] hold(2) [folded blob(2) ids(1)] hold(3) [folded ids] hold(4) [folded ids] local]
  with settle show ?thesis by metis
qed

end
