(* ===== verification/Operator_Retry.thy ===== *)
theory Operator_Retry
  imports Operator_Rng
begin

text \<open>
  The loops around the settlement of a draw in \<^verbatim>\<open>sdk/operator.ts\<close>: waiting for the target slots, settling again after a
  failure that may pass, verifying again what may not be visible yet. The chain is what it answers to the successive
  requests: the slot of each poll, the outcome of each settlement, the result of each verification.
\<close>

section \<open>Messages\<close>

text \<open>\<^verbatim>\<open>/a|b/.test(s)\<close> for literal alternatives; with the flag \<^verbatim>\<open>i\<close> both sides are compared in lower case.\<close>

definition js_contains :: "jsstr \<Rightarrow> jsstr \<Rightarrow> bool" where
  "js_contains s p \<longleftrightarrow> list_ex (\<lambda>i. take (length p) (drop i s) = p) [0..<Suc (length s)]"

definition ascii_lower :: "16 word \<Rightarrow> 16 word" where
  "ascii_lower c = (if 65 \<le> c \<and> c \<le> 90 then c + 32 else c)"

definition SETTLE_RETRYABLE :: "jsstr list" where
  "SETTLE_RETRYABLE = map (\<lambda>s. map ascii_lower (js s))
     [''RngV2TargetSlotNotReady'', ''RngV2SlotHashNotFound'', ''no SlotHashes entry'', ''429'', ''blockhash'']"

definition retryable :: "jsstr \<Rightarrow> bool" where
  "retryable message \<longleftrightarrow> list_ex (js_contains (map ascii_lower message)) SETTLE_RETRYABLE"

definition unseen_yet :: "jsstr \<Rightarrow> bool" where
  "unseen_yet reason \<longleftrightarrow> js_contains reason (js ''TX_NOT_FOUND'') \<or> js_contains reason (js ''REPLAY_UNHANDLED'')"

section \<open>Verifying after the settlement\<close>

text \<open>A verification that matched, or the reason why it did not; \<open>verified k\<close> is the result of the \<open>k\<close>-th.\<close>

type_synonym 'r checked = "jsstr + 'r"

function verify_again :: "(nat \<Rightarrow> 'r checked) \<Rightarrow> nat \<Rightarrow> 'r checked \<Rightarrow> 'r checked" where
  "verify_again verified attempt current =
     (if attempt < 4 then
        (case current of Inr r \<Rightarrow> Inr r
         | Inl reason \<Rightarrow> if \<not> unseen_yet reason then Inl reason else verify_again verified (attempt + 1) (verified (attempt + 1)))
      else current)"
  by pat_completeness auto

termination
  by (relation "measure (\<lambda>(_, attempt, _). 4 - attempt)") auto

declare verify_again.simps [simp del]

definition settle_and_verify :: "jsstr + jsstr \<Rightarrow> (nat \<Rightarrow> 'r checked) \<Rightarrow> jsstr + (jsstr \<times> 'r)" where
  "settle_and_verify sent verified =
     (case sent of Inl e \<Rightarrow> Inl e
      | Inr signature \<Rightarrow>
          (case verify_again verified 0 (verified 0) of
             Inl reason \<Rightarrow> Inl (js ''rng_v2 replay failed after settle: '' @ reason)
           | Inr r \<Rightarrow> Inr (signature, r)))"

section \<open>Waiting for a slot\<close>

definition sleep_ms :: "int \<Rightarrow> int \<Rightarrow> int" where
  "sleep_ms targetSlot slot = (let slotsLeft = targetSlot - slot + 1 in min 8000 (max 800 (slotsLeft * 400)))"

definition window_passed :: jsstr where
  "window_passed = js ''rng_v2 settle window passed before the target slots matured''"

text \<open>\<open>slots k\<close> is the answer to the \<open>k\<close>-th request for the slot, or the error with which \<^verbatim>\<open>connection.getSlot\<close> rejects, which
  ends the wait (so does one of opening the connection); the result comes with the number of the next request.\<close>

type_synonym slot_answers = "nat \<Rightarrow> jsstr + int"

partial_function (option) waitForSlotAfter :: "slot_answers \<Rightarrow> int \<Rightarrow> int \<Rightarrow> nat \<Rightarrow> ((jsstr + unit) \<times> nat) option" where
  "waitForSlotAfter slots targetSlot expirySlot k =
     (case slots k of
        Inl e \<Rightarrow> Some (Inl e, k + 1)
      | Inr slot \<Rightarrow>
          if expirySlot < slot then Some (Inl window_passed, k + 1)
          else if targetSlot < slot then Some (Inr (), k + 1)
          else waitForSlotAfter slots targetSlot expirySlot (k + 1))"

section \<open>Settling again\<close>

definition settle_failed :: "jsstr \<Rightarrow> jsstr \<Rightarrow> jsstr" where
  "settle_failed prepareSignature reason = js ''rng_v2 settle failed after prepare '' @ prepareSignature @ js '': '' @ reason"

text \<open>\<open>settle i\<close> is the outcome of the \<open>i\<close>-th settlement. The wait stands outside the \<^verbatim>\<open>try\<close>: its error ends the loop.\<close>

function settle_attempts ::
  "slot_answers \<Rightarrow> (nat \<Rightarrow> jsstr + 'r) \<Rightarrow> prepared_draw \<Rightarrow> int \<Rightarrow> nat \<Rightarrow> nat \<Rightarrow> (jsstr + 'r) option" where
  "settle_attempts slots settle draw lastTarget attempt k =
     (case waitForSlotAfter slots (lastTarget + int (attempt * 2)) (dr_expirySlot draw) k of
        None \<Rightarrow> None
      | Some (Inl e, _) \<Rightarrow> Some (Inl e)
      | Some (Inr _, k') \<Rightarrow>
          (case settle attempt of
             Inr r \<Rightarrow> Some (Inr r)
           | Inl e \<Rightarrow>
               if retryable e \<and> attempt + 1 < 4 then settle_attempts slots settle draw lastTarget (attempt + 1) k'
               else Some (Inl (settle_failed (dr_prepareSignature draw) e))))"
  by pat_completeness auto

termination
  by (relation "measure (\<lambda>(_, _, _, _, attempt, _). 4 - attempt)") auto

declare settle_attempts.simps [simp del]

definition resolveInlineRngV2 :: "slot_answers \<Rightarrow> (nat \<Rightarrow> jsstr + 'r) \<Rightarrow> prepared_draw \<Rightarrow> (jsstr + 'r) option" where
  "resolveInlineRngV2 slots settle draw = settle_attempts slots settle draw (last (dr_targetSlots draw)) 0 0"

section \<open>What the waiting ensures\<close>

text \<open>How a wait can end with the answer to the \<open>n\<close>-th request: that request failed, the slot is past the expiry, which is
  looked at first, or it is past the target.\<close>

inductive wait_ends_with :: "jsstr + int \<Rightarrow> int \<Rightarrow> int \<Rightarrow> jsstr + unit \<Rightarrow> bool" for answer target expiry where
  failed: "answer = Inl e \<Longrightarrow> wait_ends_with answer target expiry (Inl e)"
| passed: "answer = Inr slot \<Longrightarrow> expiry < slot \<Longrightarrow> wait_ends_with answer target expiry (Inl window_passed)"
| reached: "answer = Inr slot \<Longrightarrow> target < slot \<Longrightarrow> slot \<le> expiry \<Longrightarrow> wait_ends_with answer target expiry (Inr ())"

inductive_cases waited_Inl: "wait_ends_with answer target expiry (Inl e)"
inductive_cases waited_Inr: "wait_ends_with answer target expiry (Inr u)"

lemma wait_D:
  assumes "waitForSlotAfter slots target expiry k = Some res"
  shows "\<exists>n \<ge> k. snd res = n + 1 \<and> wait_ends_with (slots n) target expiry (fst res)"
  using assms
proof (induction rule: waitForSlotAfter.raw_induct [rotated 1, consumes 1, case_names step])
  case (step wait slots target expiry k res)
  consider e where "slots k = Inl e" | slot where "slots k = Inr slot" "expiry < slot"
    | slot where "slots k = Inr slot" "slot \<le> expiry" "target < slot"
    | slot where "slots k = Inr slot" "slot \<le> expiry" "slot \<le> target" by (cases "slots k") force+
  then show ?case
  proof cases
    case 4
    then have "wait slots target expiry (k + 1) = Some res" using step(2) by simp
    from step(1) [OF this] obtain n where "k + 1 \<le> n" "snd res = n + 1" "wait_ends_with (slots n) target expiry (fst res)" by auto
    then show ?thesis by (intro exI [of _ n]) simp
  qed (use step(2) in \<open>auto intro!: exI [of _ k] intro: wait_ends_with.failed wait_ends_with.passed wait_ends_with.reached [OF refl]\<close>)
qed

lemma wait_ends:
  assumes "\<forall>slot. slots (k + m) = Inr slot \<longrightarrow> expiry < slot"
  shows "\<exists>res. waitForSlotAfter slots target expiry k = Some res"
  using assms
proof (induction m arbitrary: k)
  case 0
  then show ?case by (auto simp: waitForSlotAfter.simps [of slots target expiry k] split: sum.split)
next
  case (Suc m)
  show ?case
    using Suc.IH [of "k + 1"] Suc.prems by (auto simp: waitForSlotAfter.simps [of slots target expiry k] split: sum.split)
qed

text \<open>The clock of the cluster passes every slot, again and again, unless a request for the slot fails.\<close>

definition clock_runs :: "slot_answers \<Rightarrow> bool" where
  "clock_runs slots \<longleftrightarrow> (\<forall>n k. \<exists>m. \<forall>slot. slots (k + m) = Inr slot \<longrightarrow> n < slot)"

text \<open>How a call can end after the attempts from \<open>i\<close> on.\<close>

definition attempts_end ::
  "slot_answers \<Rightarrow> (nat \<Rightarrow> jsstr + 'r) \<Rightarrow> prepared_draw \<Rightarrow> int \<Rightarrow> nat \<Rightarrow> jsstr + 'r \<Rightarrow> bool" where
  "attempts_end slots settle draw lastTarget i r \<longleftrightarrow>
     (\<exists>a < 4. i \<le> a \<and> (\<forall>j. i \<le> j \<and> j < a \<longrightarrow> (\<exists>e. settle j = Inl e \<and> retryable e)) \<and>
       ((\<exists>n slot. slots n = Inr slot \<and> lastTarget + 2 * int a < slot \<and> slot \<le> dr_expirySlot draw) \<and>
          (r = settle a \<and> (\<exists>x. r = Inr x) \<or>
           (\<exists>e. settle a = Inl e \<and> (a = 3 \<or> \<not> retryable e) \<and> r = Inl (settle_failed (dr_prepareSignature draw) e))) \<or>
        r = Inl window_passed \<and> (\<exists>n slot. slots n = Inr slot \<and> dr_expirySlot draw < slot) \<or>
        (\<exists>n e. slots n = Inl e \<and> r = Inl e)))"

lemma attempts_end_later:
  assumes "attempts_end slots settle draw lastTarget (Suc i) r" and "settle i = Inl e" and "retryable e"
  shows "attempts_end slots settle draw lastTarget i r"
proof -
  from assms(1) obtain a where a: "a < 4" "Suc i \<le> a" "\<forall>j. Suc i \<le> j \<and> j < a \<longrightarrow> (\<exists>e. settle j = Inl e \<and> retryable e)"
    and rest: "(\<exists>n slot. slots n = Inr slot \<and> lastTarget + 2 * int a < slot \<and> slot \<le> dr_expirySlot draw) \<and>
          (r = settle a \<and> (\<exists>x. r = Inr x) \<or>
           (\<exists>e. settle a = Inl e \<and> (a = 3 \<or> \<not> retryable e) \<and> r = Inl (settle_failed (dr_prepareSignature draw) e))) \<or>
        r = Inl window_passed \<and> (\<exists>n slot. slots n = Inr slot \<and> dr_expirySlot draw < slot) \<or>
        (\<exists>n e. slots n = Inl e \<and> r = Inl e)"
    unfolding attempts_end_def by blast
  have "\<forall>j. i \<le> j \<and> j < a \<longrightarrow> (\<exists>e. settle j = Inl e \<and> retryable e)"
    using a(3) assms(2,3) by (metis Suc_leI le_neq_implies_less)
  with a rest show ?thesis unfolding attempts_end_def by (intro exI [of _ a]) simp
qed

lemma settle_attempts_end:
  assumes "clock_runs slots" and "i < 4"
  shows "\<exists>r. settle_attempts slots settle draw lastTarget i k = Some r \<and> attempts_end slots settle draw lastTarget i r"
  using assms(2)
proof (induction "4 - i" arbitrary: i k)
  case (Suc d)
  let ?wait = "waitForSlotAfter slots (lastTarget + int (i * 2)) (dr_expirySlot draw) k"
  obtain m where "\<forall>slot. slots (k + m) = Inr slot \<longrightarrow> dr_expirySlot draw < slot" using assms(1) unfolding clock_runs_def by meson
  then obtain res where res: "?wait = Some res" using wait_ends by blast
  from wait_D [OF res] obtain n where n: "snd res = n + 1"
    "wait_ends_with (slots n) (lastTarget + int (i * 2)) (dr_expirySlot draw) (fst res)" by blast
  show ?case
  proof (cases "fst res")
    case (Inl e)
    with res have run: "settle_attempts slots settle draw lastTarget i k = Some (Inl e)"
      by (cases res) (simp add: settle_attempts.simps [of _ _ _ _ i])
    from n(2) [unfolded Inl] show ?thesis
      by (rule waited_Inl) (use run Suc.prems in \<open>auto simp: attempts_end_def\<close>)
  next
    case (Inr u)
    from n(2) [unfolded Inr] obtain slot where slot: "slots n = Inr slot" "lastTarget + 2 * int i < slot" "slot \<le> dr_expirySlot draw"
      by (rule waited_Inr) simp
    have go: "settle_attempts slots settle draw lastTarget i k = (case settle i of Inr r \<Rightarrow> Some (Inr r)
        | Inl e \<Rightarrow> if retryable e \<and> i + 1 < 4 then settle_attempts slots settle draw lastTarget (Suc i) (Suc n)
            else Some (Inl (settle_failed (dr_prepareSignature draw) e)))"
      using res n(1) Inr by (cases res) (simp add: settle_attempts.simps [of _ _ _ _ i] split: sum.split)
    show ?thesis
    proof (cases "\<exists>e. settle i = Inl e \<and> retryable e \<and> i + 1 < 4")
      case True
      then obtain e where e: "settle i = Inl e" "retryable e" "i + 1 < 4" by blast
      have "d = 4 - Suc i" "Suc i < 4" using Suc.hyps(2) e(3) by linarith+
      from Suc.hyps(1) [OF this, of "Suc n"] obtain r where "settle_attempts slots settle draw lastTarget (Suc i) (Suc n) = Some r"
        "attempts_end slots settle draw lastTarget (Suc i) r" by blast
      with go e attempts_end_later show ?thesis by fastforce
    next
      case False
      then have "i = 3 \<or> \<not> retryable e" if "settle i = Inl e" for e using that Suc.prems by auto
      then show ?thesis
        using go slot Suc.prems False unfolding attempts_end_def
        by (cases "settle i") (fastforce intro!: exI [of _ i])+
    qed
  qed
qed simp

lemma resolve_ends:
  assumes "clock_runs slots"
  shows "\<exists>r. resolveInlineRngV2 slots settle draw = Some r
    \<and> attempts_end slots settle draw (last (dr_targetSlots draw)) 0 r"
  unfolding resolveInlineRngV2_def by (rule settle_attempts_end [OF assms]) simp

text \<open>C36: once its draw is prepared the one-call draw ends, and it ends in one of four ways. If the clock of the cluster goes
  on or a request for the slot fails, and every settlement it sends returns, the call returns after at most four of them. It
  returns the result of a settlement that was sent after a slot was answered past its target, which is the last target and
  two slots more for each attempt before, and within the window, all settlements before it having failed in a way that may
  pass; or it reports a failure of such a settlement, the fourth one or one that cannot pass; or it reports that the window
  has passed, which then it has; or a request for the slot fails while the call waits, and the call fails with that error,
  because the wait stands outside the \<^verbatim>\<open>try\<close>.\<close>

theorem resolve_inline_ends:
  assumes "clock_runs slots"
  shows "\<exists>r. resolveInlineRngV2 slots settle draw = Some r
    \<and> attempts_end slots settle draw (last (dr_targetSlots draw)) 0 r"
  by (rule resolve_ends [OF assms])

text \<open>A cluster that produces two slots per poll from slot 8 on and does not answer from the 40th request on. The first
  settlement comes too early for the SlotHashes account, the second is accepted.\<close>

lemma resolve_inline_ends_witness:
  "\<exists>r. resolveInlineRngV2 (\<lambda>k. if k < 40 then Inr (8 + 2 * int k) else Inl (js ''429'')) (\<lambda>i. if i = 0 then Inl (js ''RngV2SlotHashNotFound'') else Inr (js ''ok''))
      (\<lparr>dr_runtimeId = [], dr_resolveId = 0, dr_artifactHash = [], dr_winnersCount = 1, dr_targetSlots = [6, 8, 10],
        dr_expirySlot = 99, dr_prepareSignature = [], dr_snapshot = None\<rparr>) = Some r"
proof -
  have "clock_runs (\<lambda>k. if k < 40 then Inr (8 + 2 * int k) else Inl (js ''429''))"
    by (auto simp: clock_runs_def intro!: exI [of _ "40 :: nat"])
  from resolve_inline_ends [OF this] show ?thesis by blast
qed

text \<open>A request for the slot that fails before the first settlement fails the call, though the window is open and the message
  is one that a settlement would be repeated for.\<close>

lemma failed_poll_ends:
  assumes "slots 0 = Inl e"
  shows "resolveInlineRngV2 slots settle draw = Some (Inl e)"
  using assms by (simp add: resolveInlineRngV2_def settle_attempts.simps [of _ _ _ _ 0] waitForSlotAfter.simps [of _ _ _ 0])

text \<open>When the window passes while the client waits to settle again, the error of the settlement that failed is lost, and
  with it the signature of the preparation: the report says that the target slots had not matured, though they had.\<close>

lemma failed_settlement_forgotten:
  assumes "slots 0 = Inr slot" "slot \<le> dr_expirySlot draw" "last (dr_targetSlots draw) < slot"
    and "slots 1 = Inr later" "dr_expirySlot draw < later"
    and "settle 0 = Inl e" "retryable e"
  shows "resolveInlineRngV2 slots settle draw = Some (Inl window_passed)"
  using assms
  by (simp add: resolveInlineRngV2_def settle_attempts.simps [of _ _ _ _ 0] settle_attempts.simps [of _ _ _ _ "Suc 0"]
      waitForSlotAfter.simps [of _ _ _ 0] waitForSlotAfter.simps [of _ _ _ "Suc 0"])

section \<open>Verifying until it is seen\<close>

text \<open>At most five verifications; the last one decides unless an earlier one matched or failed for good.\<close>

lemma verify_again_D:
  "attempt \<le> 4 \<Longrightarrow> verify_again verified attempt (verified attempt) = r \<Longrightarrow>
    \<exists>k. attempt \<le> k \<and> k \<le> 4 \<and> r = verified k \<and> (\<forall>j. attempt \<le> j \<and> j < k \<longrightarrow> (\<exists>reason. verified j = Inl reason \<and> unseen_yet reason))
      \<and> (k = 4 \<or> (\<exists>x. verified k = Inr x) \<or> (\<exists>reason. verified k = Inl reason \<and> \<not> unseen_yet reason))"
proof (induction "4 - attempt" arbitrary: attempt)
  case 0
  then show ?case by (intro exI [of _ 4]) (auto simp: verify_again.simps [of _ 4])
next
  case (Suc n)
  show ?case
  proof (cases "\<exists>reason. verified attempt = Inl reason \<and> unseen_yet reason")
    case True
    then obtain reason where reason: "verified attempt = Inl reason" "unseen_yet reason" by blast
    have "attempt < 4" using Suc.hyps(2) by linarith
    with Suc.prems reason have "verify_again verified (Suc attempt) (verified (Suc attempt)) = r"
      by (simp add: verify_again.simps [of _ attempt])
    moreover have "n = 4 - Suc attempt" "Suc attempt \<le> 4" using Suc.hyps(2) by linarith+
    ultimately obtain k where k: "Suc attempt \<le> k" "k \<le> 4" "r = verified k"
      "\<forall>j. Suc attempt \<le> j \<and> j < k \<longrightarrow> (\<exists>reason. verified j = Inl reason \<and> unseen_yet reason)"
      "k = 4 \<or> (\<exists>x. verified k = Inr x) \<or> (\<exists>reason. verified k = Inl reason \<and> \<not> unseen_yet reason)"
      using Suc.hyps(1) [of "Suc attempt"] by blast
    have "\<forall>j. attempt \<le> j \<and> j < k \<longrightarrow> (\<exists>reason. verified j = Inl reason \<and> unseen_yet reason)"
      using k(4) reason by (metis Suc_leI le_neq_implies_less)
    with k show ?thesis by (intro exI [of _ k]) simp
  next
    case False
    with Suc.prems Suc.hyps(2) have "r = verified attempt"
      by (cases "verified attempt") (auto simp: verify_again.simps [of _ attempt])
    with False Suc.hyps(2) show ?thesis by (intro exI [of _ attempt]) (cases "verified attempt"; auto)
  qed
qed

lemma returned_verified:
  assumes "resolveInlineRngV2 slots (\<lambda>i. settle_and_verify (sent i) (verified i)) draw = Some (Inr (signature, r))"
    and "clock_runs slots"
  shows "\<exists>i < 4. sent i = Inr signature \<and> (\<exists>k \<le> 4. verified i k = Inr r)"
proof -
  obtain r' where r': "resolveInlineRngV2 slots (\<lambda>i. settle_and_verify (sent i) (verified i)) draw = Some r'"
    "attempts_end slots (\<lambda>i. settle_and_verify (sent i) (verified i)) draw (last (dr_targetSlots draw)) 0 r'"
    using resolve_ends [OF assms(2)] by blast
  with assms(1) obtain i where i: "i < 4" "settle_and_verify (sent i) (verified i) = Inr (signature, r)"
    by (auto simp: attempts_end_def)
  then have v: "sent i = Inr signature" "verify_again (verified i) 0 (verified i 0) = Inr r"
    by (auto simp: settle_and_verify_def split: sum.splits)
  from verify_again_D [OF _ v(2)] obtain k where "k \<le> 4" "Inr r = verified i k" by blast
  with i(1) v(1) show ?thesis by metis
qed

end
