(* ===== verification/Partner_Request.thy ===== *)
theory Partner_Request
  imports Artifact Snapshot_File
begin

text \<open>
  The requests of the partner API in \<^verbatim>\<open>web/server.mjs\<close>: the checks of participants, formula, number of winners and
  target, and the configurations that the server hands to the SDK. A reply is an HTTP error with its status, an
  exception, or a value. The values of a request are those of its JSON body. The key of a partner, in the header of a
  request, is looked up before the body is read.
\<close>

section \<open>Replies\<close>

datatype http_error = Http int string | Thrown js_error

type_synonym 'a reply = "http_error + 'a"

definition thrown :: "'a result \<Rightarrow> 'a reply" where
  "thrown r = map_sum Thrown id r"

lemma thrown_simps [simp]: "thrown (Inr x) = Inr x" "thrown (Inl e) = Inl (Thrown e)"
  by (simp_all add: thrown_def)

lemma thrown_Inr_iff [result_simps]: "thrown r = Inr x \<longleftrightarrow> r = Inr x"
  by (cases r) simp_all

section \<open>Partners\<close>

record partner =
  pn_key :: jsstr
  pn_draw_enabled :: bool

definition requirePartnerApiKey :: "(jsstr \<rightharpoonup> partner) option \<Rightarrow> jsstr \<Rightarrow> partner reply" where
  "requirePartnerApiKey partnerConfig key =
     (case partnerConfig of None \<Rightarrow> Inl (Http 503 ''Partner API not configured'')
      | Some partnersByKey \<Rightarrow>
          (case partnersByKey (js_trim key) of None \<Rightarrow> Inl (Http 401 ''Invalid or missing API key'')
           | Some p \<Rightarrow> Inr p))"

section \<open>Text of a value\<close>

fun joined_text :: "jsstr list \<Rightarrow> jsstr" where
  "joined_text [] = []"
| "joined_text [s] = s"
| "joined_text (s # t # ss) = s @ [44] @ joined_text (t # ss)"

text \<open>The text of a list is that of its elements; the first one that has none throws.\<close>

definition joined :: "jsstr reply list \<Rightarrow> jsstr reply" where
  "joined texts = bindE (mapE id texts) (\<lambda>ss. Inr (joined_text ss))"

text \<open>\<^verbatim>\<open>String(value)\<close>; \<open>shown\<close> is the text of a number that is not printed as a plain integer. The members of an object of a
  JSON body are never functions, so one that is named \<^verbatim>\<open>toString\<close> leaves the object without a conversion; without it the
  one of \<^verbatim>\<open>Object.prototype\<close> is called.\<close>

fun js_text :: "(js_number \<Rightarrow> jsstr) \<Rightarrow> jsval \<Rightarrow> jsstr reply" where
  "js_text shown JUndefined = Inr (js ''undefined'')"
| "js_text shown JNull = Inr (js ''null'')"
| "js_text shown (JBool b) = Inr (if b then js ''true'' else js ''false'')"
| "js_text shown (JNumber x) =
     Inr (case x of NInt n \<Rightarrow> if \<bar>n\<bar> < 10 ^ 21 then dec_string n else shown x | NFrac \<Rightarrow> shown x)"
| "js_text shown (JBigInt n) = Inr (dec_string n)"
| "js_text shown (JString s) = Inr s"
| "js_text shown (JArray xs) =
     joined (map (\<lambda>x. if x = JUndefined \<or> x = JNull then Inr [] else js_text shown x) xs)"
| "js_text shown (JObject props) =
     (if js ''toString'' \<in> set (map fst props) then Inl (Thrown (TypeError ''Cannot convert object to primitive value''))
      else Inr (js ''[object Object]''))"

text \<open>\<^verbatim>\<open>value || ""\<close> and \<^verbatim>\<open>value ?? ""\<close>\<close>

definition or_empty :: "jsval \<Rightarrow> jsval" where
  "or_empty v = (if v \<in> {JUndefined, JNull, JBool False, JNumber (NInt 0), JBigInt 0} then JString [] else v)"

definition nullish_empty :: "jsval \<Rightarrow> jsval" where
  "nullish_empty v = (if v \<in> {JUndefined, JNull} then JString [] else v)"

text \<open>\<^verbatim>\<open>body.key\<close> for the value of a JSON body.\<close>

definition body_fields :: "jsval \<Rightarrow> (jsstr \<times> jsval) list reply" where
  "body_fields body =
     (case body of JObject props \<Rightarrow> Inr props
      | JNull \<Rightarrow> Inl (Thrown (TypeError ''Cannot read properties of null''))
      | _ \<Rightarrow> Inr [])"

section \<open>Participants\<close>

definition MAX_PARTNER_PARTICIPANT_ID_BYTES :: nat where "MAX_PARTNER_PARTICIPANT_ID_BYTES = 64"

definition partner_id :: "string \<Rightarrow> string \<Rightarrow> (js_number \<Rightarrow> jsstr) \<Rightarrow> jsval \<Rightarrow> jsstr reply" where
  "partner_id missing unprintable shown value =
     bindE (js_text shown (nullish_empty value)) (\<lambda>s.
     let participantId = js_trim s in
     throwIf (participantId = []) (Http 400 missing)
    (throwIf (length participantId = 0 \<or> MAX_PARTNER_PARTICIPANT_ID_BYTES < length participantId
         \<or> \<not> printable_ascii participantId) (Http 400 unprintable)
       (Inr participantId)))"

definition validatePartnerParticipantId :: "(js_number \<Rightarrow> jsstr) \<Rightarrow> jsval \<Rightarrow> jsstr reply" where
  "validatePartnerParticipantId =
     partner_id ''participant must be a non-empty string'' ''participant must be printable ASCII <= 64 bytes''"

definition validateSnapshotProofAddress :: "(js_number \<Rightarrow> jsstr) \<Rightarrow> jsval \<Rightarrow> jsstr reply" where
  "validateSnapshotProofAddress =
     partner_id ''address is required'' ''address must be printable ASCII <= 64 bytes''"

definition PARTNER_DRAW_FORMULAS :: "jsstr list" where
  "PARTNER_DRAW_FORMULAS =
     [js ''weighted_random'', js ''rank_desc'', js ''rank_asc'', js ''first_n'', js ''closest_to'']"

definition validatePartnerFormula :: "(js_number \<Rightarrow> jsstr) \<Rightarrow> jsval \<Rightarrow> jsstr reply" where
  "validatePartnerFormula shown value =
     bindE (js_text shown (or_empty value)) (\<lambda>s.
     let formula = js_trim s in
     throwIf (formula \<notin> set PARTNER_DRAW_FORMULAS)
       (Http 400 ''formula must be weighted_random, rank_desc, rank_asc, first_n, or closest_to'')
       (Inr formula))"

definition parsePartnerSignedSafeInteger :: "jsval \<Rightarrow> int reply" where
  "parsePartnerSignedSafeInteger value =
     (case value of JNumber (NInt n) \<Rightarrow>
        throwIf (\<not> is_safe_integer (NInt n)) (Http 400 ''must be a signed safe integer'') (Inr n)
      | _ \<Rightarrow> Inl (Http 400 ''must be a signed safe integer''))"

definition validatePartnerWeight :: "jsval \<Rightarrow> int reply" where
  "validatePartnerWeight value =
     (case value of JNumber (NInt n) \<Rightarrow>
        throwIf (n \<le> 0 \<or> 0xffffffff < n) (Http 400 ''must be an integer 1-4294967295'') (Inr n)
      | _ \<Rightarrow> Inl (Http 400 ''must be an integer 1-4294967295''))"

record partner_participant =
  pp_id :: jsstr
  pp_weight :: "int option"
  pp_score :: "int option"

text \<open>\<^verbatim>\<open>value !== undefined\<close> followed by its check, as an optional property.\<close>

definition optional_of :: "(jsval \<Rightarrow> 'a reply) \<Rightarrow> jsval \<Rightarrow> 'a option reply" where
  "optional_of check v = (if v = JUndefined then Inr None else bindE (check v) (\<lambda>x. Inr (Some x)))"

definition participant_object :: "jsval \<Rightarrow> (jsstr \<times> jsval) list reply" where
  "participant_object v =
     (case v of JObject props \<Rightarrow> Inr props | _ \<Rightarrow> Inl (Http 400 ''participant must be an object''))"

text \<open>The function mapped over the participants of \<^verbatim>\<open>handlePartnerDraw\<close>.\<close>

definition draw_participant :: "(js_number \<Rightarrow> jsstr) \<Rightarrow> jsstr \<Rightarrow> jsval \<Rightarrow> partner_participant reply" where
  "draw_participant shown formula value =
     bindE (participant_object value) (\<lambda>props.
     bindE (validatePartnerParticipantId shown (prop_of props ''id'')) (\<lambda>id'.
     if formula = js ''weighted_random'' then
       throwIf (prop_of props ''score'' \<noteq> JUndefined) (Http 400 ''score is not supported for weighted_random'')
      (bindE (optional_of validatePartnerWeight (prop_of props ''weight'')) (\<lambda>weight.
       Inr \<lparr>pp_id = id', pp_weight = weight, pp_score = None\<rparr>))
     else
       throwIf (prop_of props ''weight'' \<noteq> JUndefined) (Http 400 ''weight is only supported for weighted_random'')
      (if formula = js ''first_n'' then
         throwIf (prop_of props ''score'' \<noteq> JUndefined) (Http 400 ''score is not supported for first_n'')
           (Inr \<lparr>pp_id = id', pp_weight = None, pp_score = None\<rparr>)
       else
         throwIf (prop_of props ''score'' = JUndefined) (Http 400 ''score is required'')
        (bindE (parsePartnerSignedSafeInteger (prop_of props ''score'')) (\<lambda>score.
         Inr \<lparr>pp_id = id', pp_weight = None, pp_score = Some score\<rparr>)))))"

text \<open>A participant of an uploaded chunk may have a weight and a score; the formula comes later.\<close>

definition validateSnapshotChunkParticipant :: "(js_number \<Rightarrow> jsstr) \<Rightarrow> jsval \<Rightarrow> partner_participant reply" where
  "validateSnapshotChunkParticipant shown value =
     bindE (participant_object value) (\<lambda>props.
     bindE (validatePartnerParticipantId shown (prop_of props ''id'')) (\<lambda>id'.
     bindE (optional_of validatePartnerWeight (prop_of props ''weight'')) (\<lambda>weight.
     bindE (optional_of parsePartnerSignedSafeInteger (prop_of props ''score'')) (\<lambda>score.
     Inr \<lparr>pp_id = id', pp_weight = weight, pp_score = score\<rparr>))))"

definition optional_number :: "string \<Rightarrow> int option \<Rightarrow> (jsstr \<times> jsval) list" where
  "optional_number key v = (case v of None \<Rightarrow> [] | Some n \<Rightarrow> [(js key, JNumber (NInt n))])"

definition partner_fields :: "partner_participant \<Rightarrow> (jsstr \<times> jsval) list" where
  "partner_fields p = (js ''id'', JString (pp_id p)) # optional_number ''weight'' (pp_weight p) @ optional_number ''score'' (pp_score p)"

section \<open>Winners and target\<close>

definition partner_winners :: "int \<Rightarrow> jsval \<Rightarrow> int reply" where
  "partner_winners most v =
     (case (if v = JUndefined then JNumber (NInt 1) else v) of
        JNumber (NInt n) \<Rightarrow> throwIf (n < 1 \<or> most < n) (Http 400 ''winners_count must be an integer'') (Inr n)
      | _ \<Rightarrow> Inl (Http 400 ''winners_count must be an integer''))"

definition partner_target :: "jsstr \<Rightarrow> jsval \<Rightarrow> int option reply" where
  "partner_target formula v =
     (if formula = js ''closest_to'' then
        throwIf (v = JUndefined) (Http 400 ''target is required for closest_to'')
          (bindE (parsePartnerSignedSafeInteger v) (\<lambda>n. Inr (Some n)))
      else throwIf (v \<noteq> JUndefined) (Http 400 ''target is only supported for closest_to'') (Inr None))"

definition use_case_check :: "jsval \<Rightarrow> unit reply" where
  "use_case_check v =
     throwIf (v \<noteq> JUndefined \<and> v \<notin> {JString (js ''raffle''), JString (js ''airdrop''), JString (js ''competition'')})
       (Http 400 ''use_case must be raffle, airdrop, or competition'') (Inr ())"

section \<open>A compact draw\<close>

record partner_draw =
  pd_participants :: "partner_participant list"
  pd_winnersCount :: int
  pd_formula :: jsstr
  pd_target :: "int option"

definition wantsScale :: "(jsstr \<times> jsval) list \<Rightarrow> bool" where
  "wantsScale body \<longleftrightarrow> prop_of body ''mode'' = JString (js ''scale'') \<or> prop_of body ''scale'' = JBool True
     \<or> prop_of body ''public_proof'' = JBool True \<or> prop_of body ''standard_version'' = JString (js ''1.2'')"

text \<open>The checks of \<^verbatim>\<open>handlePartnerDraw\<close> up to the rate limit.\<close>

definition partner_draw_request :: "(js_number \<Rightarrow> jsstr) \<Rightarrow> jsval \<Rightarrow> partner_draw reply" where
  "partner_draw_request shown value =
     bindE (body_fields value) (\<lambda>body.
     bindE (validatePartnerFormula shown (prop_of body ''formula'')) (\<lambda>formula.
     bindE (case prop_of body ''participants'' of JArray xs \<Rightarrow> Inr xs
            | _ \<Rightarrow> Inl (Http 400 ''participants must be an array'')) (\<lambda>raws.
     throwIf (length raws < 2) (Http 400 ''participants must contain at least 2 entries'')
    (bindE (mapE (draw_participant shown formula) raws) (\<lambda>participants.
     throwIf (length (remdups (map pp_id participants)) \<noteq> length participants) (Http 400 ''duplicate participants not allowed'')
    (bindE (partner_winners 10 (prop_of body ''winners_count'')) (\<lambda>winnersCount.
     throwIf (int (length participants) < winnersCount) (Http 400 ''winners_count must be <= participants length'')
    (bindE (partner_target formula (prop_of body ''target'')) (\<lambda>target.
     bindE (use_case_check (prop_of body ''use_case'')) (\<lambda>_.
     throwIf (wantsScale body) (Http 409 ''This draw requires the Outcome Standard V1.2 snapshot flow'')
       (Inr \<lparr>pd_participants = participants, pd_winnersCount = winnersCount, pd_formula = formula,
             pd_target = target\<rparr>)))))))))))"

definition PARTNER_DRAW_BASE_INPUT_LAMPORTS :: int where "PARTNER_DRAW_BASE_INPUT_LAMPORTS = 10"

definition PARTNER_DRAW_PAYOUT_LAMPORTS :: int where "PARTNER_DRAW_PAYOUT_LAMPORTS = 0"

definition buildPartnerDrawConfig :: "partner_draw \<Rightarrow> (jsstr \<times> jsval) list" where
  "buildPartnerDrawConfig d =
     [(js ''type'', JString (js ''formula_draw_v5'')), (js ''formula'', JString (pd_formula d)),
      (js ''input_lamports'', JNumber (NInt (max PARTNER_DRAW_BASE_INPUT_LAMPORTS (pd_winnersCount d * PARTNER_DRAW_PAYOUT_LAMPORTS)))),
      (js ''payout_lamports'', JNumber (NInt PARTNER_DRAW_PAYOUT_LAMPORTS)),
      (js ''winners_count'', JNumber (NInt (pd_winnersCount d)))]
     @ optional_number ''target'' (pd_target d)
     @ [(js ''participants'', JArray (map (\<lambda>p. JObject (partner_fields p)) (pd_participants d)))]"

text \<open>The reply to an artifact that cannot be built: 413 for one that is too large, otherwise the exception.\<close>

definition too_large :: js_error where
  "too_large =
     RangeError ''Outcome Standard V1.1 compact artifact is too large; route larger draws to Outcome Standard V1.2''"

definition partner_artifact :: "(jsstr \<Rightarrow> bool) \<Rightarrow> partner_draw \<Rightarrow> buffer reply" where
  "partner_artifact valid_key d =
     (case buildArtifact valid_key (JObject (buildPartnerDrawConfig d)) of
        Inr blob \<Rightarrow> Inr blob
      | Inl e \<Rightarrow> if e = too_large then Inl (Http 413 ''Compact Outcome Standard V1.1 artifact exceeds byte limits'')
                 else Inl (Thrown e))"

end
