(* ===== verification/Partner_Draw.thy ===== *)
theory Partner_Draw
  imports Partner_Request
begin

text \<open>
  What the checks of the partner API are good for: a draw that they accept is one that the artifact builder accepts,
  unless it is too large.
\<close>

section \<open>Participants as objects\<close>

definition optional_value :: "int option \<Rightarrow> jsval" where
  "optional_value v = (case v of None \<Rightarrow> JUndefined | Some n \<Rightarrow> JNumber (NInt n))"

lemma optional_value_simps [simp]:
  "optional_value None = JUndefined" "optional_value (Some n) = JNumber (NInt n)"
  by (simp_all add: optional_value_def)

lemma partner_props:
  "prop_of (partner_fields p) ''id'' = JString (pp_id p)"
  "prop_of (partner_fields p) ''weight'' = optional_value (pp_weight p)"
  "prop_of (partner_fields p) ''score'' = optional_value (pp_score p)"
  "prop_of (partner_fields p) ''order'' = JUndefined"
  by (auto simp: prop_of_def partner_fields_def optional_number_def js_def split: option.splits)

text \<open>A participant of a draw with the formula \<open>f\<close>.\<close>

definition draw_ok :: "formula \<Rightarrow> partner_participant \<Rightarrow> bool" where
  "draw_ok f p \<longleftrightarrow> outcome_id_ok (pp_id p) \<and>
     (if f = Weighted_random then pp_score p = None \<and> (\<forall>w. pp_weight p = Some w \<longrightarrow> 0 < w \<and> w \<le> MAX_U32)
      else pp_weight p = None \<and>
        (if f = First_n then pp_score p = None
         else \<exists>n. pp_score p = Some n \<and> \<bar>n\<bar> \<le> MAX_SAFE_INTEGER))"

definition drawn_entry :: "nat \<Rightarrow> partner_participant \<Rightarrow> participant" where
  "drawn_entry i p = \<lparr>p_id = pp_id p, p_order = int i, p_weight = (case pp_weight p of None \<Rightarrow> 1 | Some w \<Rightarrow> w),
     p_score = (case pp_score p of None \<Rightarrow> 0 | Some n \<Rightarrow> n)\<rparr>"

lemma drawn_entry_sel [simp]: "p_id (drawn_entry i p) = pp_id p" "p_order (drawn_entry i p) = int i"
  by (simp_all add: drawn_entry_def)

lemma ensureV5_draw:
  assumes "draw_ok f p" and "i \<le> 65535"
  shows "ensureV5FormulaFields f (i, JObject (partner_fields p)) = Inr (drawn_entry i p)"
  using assms
  by (cases "f = Weighted_random"; cases "pp_weight p")
     (auto simp: ensureV5FormulaFields_def assertObject_def partner_props validateOutcomeId_def draw_ok_def drawn_entry_def
       validateWeight_def parseSignedInteger_def is_safe_integer_def bound_defs throwIf_def)

lemma partner_id_ok: "partner_id a b shown v = Inr s \<Longrightarrow> outcome_id_ok s"
  by (auto simp: partner_id_def Let_def result_simps outcome_id_ok_def MAX_PARTNER_PARTICIPANT_ID_BYTES_def
      MAX_OUTCOME_ID_BYTES_def)

lemma draw_participant_ok:
  assumes "draw_participant shown (formula_name f) v = Inr p"
  shows "draw_ok f p"
proof -
  have names: "formula_name f = js ''weighted_random'' \<longleftrightarrow> f = Weighted_random" "formula_name f = js ''first_n'' \<longleftrightarrow> f = First_n"
    by (cases f; simp add: js_def)+
  from assms show ?thesis
    by (auto simp: draw_participant_def names result_simps draw_ok_def optional_of_def validatePartnerWeight_def
        validatePartnerParticipantId_def parsePartnerSignedSafeInteger_def is_safe_integer_def MAX_U32_def
        dest!: partner_id_ok split: if_splits jsval.splits js_number.splits)
qed

lemma partner_formula_name: "formula \<in> set PARTNER_DRAW_FORMULAS \<Longrightarrow> \<exists>f. formula = formula_name f"
  unfolding PARTNER_DRAW_FORMULAS_def
  by (auto intro: exI [of _ Weighted_random] exI [of _ Rank_desc] exI [of _ Rank_asc] exI [of _ First_n] exI [of _ Closest_to])

lemma validateFormula_name: "validateFormula (JString (formula_name f)) = Inr f"
  by (cases f) (simp_all add: validateFormula_def js_def)

section \<open>Orders and identifiers\<close>

lemma check_orders_enumerated:
  assumes "\<forall>i < length es. p_order (es ! i) = int i"
  shows "is_ok (check_orders es)"
proof -
  have "is_ok (foldE (\<lambda>seen entry. throwIf (int n \<le> p_order entry) e1 (throwIf (p_order entry \<in> set seen) e2
      (Inr (p_order entry # seen)))) (rev (map int [0..<k])) (drop k es))"
    if "k \<le> length es" "n = length es" for k n e1 e2
    using that
  proof (induction "length es - k" arbitrary: k)
    case 0
    then show ?case by simp
  next
    case (Suc m)
    then have k: "k < length es" by simp
    then have "drop k es = es ! k # drop (Suc k) es" by (rule Cons_nth_drop_Suc [symmetric])
    moreover have "p_order (es ! k) = int k" using assms k by simp
    moreover have "is_ok (foldE (\<lambda>seen entry. throwIf (int n \<le> p_order entry) e1 (throwIf (p_order entry \<in> set seen) e2
      (Inr (p_order entry # seen)))) (rev (map int [0..<Suc k])) (drop (Suc k) es))"
      by (rule Suc.hyps(1)) (use Suc.hyps(2) Suc.prems k in auto)
    ultimately show ?case using Suc.prems k by (auto simp: throwIf_def)
  qed
  from this [of 0 "length es"] show ?thesis by (simp add: check_orders_def)
qed

lemma distinct_no_duplicates:
  assumes "distinct (map p_id es)"
  shows "check_duplicate_ids m (sort_by_id es) = Inr ()"
proof -
  have "distinct (map p_id (sort_by_id es))" using assms by (simp add: sort_by_id_def)
  then show ?thesis by (auto simp: check_duplicate_ids_iff distinct_conv_nth)
qed

section \<open>The accepted draw\<close>

definition accepted :: "formula \<Rightarrow> partner_draw \<Rightarrow> bool" where
  "accepted f d \<longleftrightarrow> pd_formula d = formula_name f \<and> 2 \<le> length (pd_participants d)
     \<and> (\<forall>p \<in> set (pd_participants d). draw_ok f p) \<and> distinct (map pp_id (pd_participants d))
     \<and> 1 \<le> pd_winnersCount d \<and> pd_winnersCount d \<le> 10 \<and> pd_winnersCount d \<le> int (length (pd_participants d))
     \<and> (if f = Closest_to then \<exists>n. pd_target d = Some n \<and> \<bar>n\<bar> \<le> MAX_SAFE_INTEGER else pd_target d = None)"

lemma partner_draw_accepted:
  assumes "partner_draw_request shown v = Inr d"
  shows "\<exists>f. accepted f d"
proof -
  from assms obtain formula participants winnersCount target body raws where
    formula: "validatePartnerFormula shown (prop_of body ''formula'') = Inr formula"
    and parts: "mapE (draw_participant shown formula) raws = Inr participants" and two: "\<not> length raws < 2"
    and dup: "\<not> length (remdups (map pp_id participants)) \<noteq> length participants"
    and win: "partner_winners 10 (prop_of body ''winners_count'') = Inr winnersCount"
    and le: "\<not> int (length participants) < winnersCount"
    and target: "partner_target formula (prop_of body ''target'') = Inr target"
    and d: "d = \<lparr>pd_participants = participants, pd_winnersCount = winnersCount, pd_formula = formula, pd_target = target\<rparr>"
    unfolding partner_draw_request_def by (elim result_elims) auto
  obtain f where f: "formula = formula_name f"
    using formula partner_formula_name by (auto simp: validatePartnerFormula_def Let_def result_simps)
  have closest: "formula_name f = js ''closest_to'' \<longleftrightarrow> f = Closest_to" by (cases f) (simp_all add: js_def)
  have "\<forall>p \<in> set participants. draw_ok f p"
    using mapE_Inr_set [OF parts] draw_participant_ok unfolding f by blast
  moreover have "distinct (map pp_id participants)"
    using dup by (metis length_map length_remdups_eq remdups_id_iff_distinct)
  moreover have "1 \<le> winnersCount \<and> winnersCount \<le> 10"
    using win by (auto simp: partner_winners_def throwIf_Inr_iff split: jsval.splits js_number.splits)
  moreover have "if f = Closest_to then \<exists>n. target = Some n \<and> \<bar>n\<bar> \<le> MAX_SAFE_INTEGER else target = None"
    using target
    by (auto simp: partner_target_def f closest result_simps parsePartnerSignedSafeInteger_def is_safe_integer_def
        split: jsval.splits js_number.splits)
  ultimately have "accepted f d"
    using two le mapE_Inr_length [OF parts] by (simp add: accepted_def d f)
  then show ?thesis ..
qed

definition draw_config :: "formula \<Rightarrow> partner_draw \<Rightarrow> compact_config" where
  "draw_config f d = \<lparr>cc_formula = f,
     cc_entries = sort_by_id (map (\<lambda>(i, p). drawn_entry i p) (enumerate 0 (pd_participants d))),
     cc_input = 10, cc_payout = 0, cc_winners = pd_winnersCount d,
     cc_target = (case pd_target d of None \<Rightarrow> 0 | Some n \<Rightarrow> n)\<rparr>"

lemma draw_config_props:
  "prop_of (buildPartnerDrawConfig d) ''type'' = JString (js ''formula_draw_v5'')"
  "prop_of (buildPartnerDrawConfig d) ''formula'' = JString (pd_formula d)"
  "prop_of (buildPartnerDrawConfig d) ''input_lamports'' = JNumber (NInt 10)"
  "prop_of (buildPartnerDrawConfig d) ''payout_lamports'' = JNumber (NInt 0)"
  "prop_of (buildPartnerDrawConfig d) ''winners_count'' = JNumber (NInt (pd_winnersCount d))"
  "prop_of (buildPartnerDrawConfig d) ''target'' = optional_value (pd_target d)"
  "prop_of (buildPartnerDrawConfig d) ''participants'' = JArray (map (\<lambda>p. JObject (partner_fields p)) (pd_participants d))"
  by (auto simp: prop_of_def buildPartnerDrawConfig_def optional_number_def js_def PARTNER_DRAW_BASE_INPUT_LAMPORTS_def
      PARTNER_DRAW_PAYOUT_LAMPORTS_def split: option.splits)

lemma accepted_validates:
  assumes "accepted f d" and small: "length (pd_participants d) \<le> 65535"
  shows "validateCompactConfig (buildPartnerDrawConfig d) = Inr (draw_config f d)"
proof -
  let ?raws = "map (\<lambda>p. JObject (partner_fields p)) (pd_participants d)"
  let ?es = "map (\<lambda>(i, p). drawn_entry i p) (enumerate 0 (pd_participants d))"
  have len: "length ?es = length (pd_participants d)" by simp
  have "mapE (ensureV5FormulaFields f) (enumerate 0 ?raws) = Inr ?es"
    unfolding mapE_Inr_iff
    by (rule list_all2_all_nthI) (use assms in \<open>auto simp: nth_enumerate_eq accepted_def intro!: ensureV5_draw\<close>)
  moreover have "is_ok (check_orders ?es)"
    by (rule check_orders_enumerated) (simp add: nth_enumerate_eq)
  then obtain r where "check_orders ?es = Inr r" by (auto simp: is_ok_iff)
  moreover have "map p_id ?es = map pp_id (pd_participants d)"
    by (rule nth_equalityI) (simp_all add: nth_enumerate_eq)
  then have "check_duplicate_ids ''duplicate v5 entry id'' (sort_by_id ?es) = Inr ()"
    using assms(1) by (intro distinct_no_duplicates) (simp add: accepted_def)
  moreover have "participant_array (JArray ?raws) = Inr ?raws"
    using assms(1) by (cases "pd_participants d") (auto simp: participant_array_def accepted_def)
  moreover have "prop_of (buildPartnerDrawConfig d) ''formula'' = JString (formula_name f)"
    using assms(1) by (simp add: draw_config_props accepted_def)
  ultimately have "normalizeCompactNamedEntries (prop_of (buildPartnerDrawConfig d) ''participants'')
      (prop_of (buildPartnerDrawConfig d) ''formula'') = Inr (cc_entries (draw_config f d))"
    using small
    by (simp add: normalizeCompactNamedEntries_def validateFormula_name draw_config_props Let_def draw_config_def)
  moreover have "validateWinnersCount (JNumber (NInt (pd_winnersCount d))) (int (length (cc_entries (draw_config f d))))
      = Inr (pd_winnersCount d)"
    using assms(1)
    by (simp add: validateWinnersCount_def accepted_def draw_config_def sort_by_id_def MAX_WINNERS_def)
  moreover have "validate_target f (optional_value (pd_target d)) = Inr (case pd_target d of None \<Rightarrow> 0 | Some n \<Rightarrow> n)"
    using assms(1)
    by (auto simp: validate_target_def accepted_def parseSignedInteger_def is_safe_integer_def bound_defs throwIf_def
        split: if_splits)
  ultimately show ?thesis
    using assms(1)
    by (simp add: validateCompactConfig_def draw_config_props validateFormula_name accepted_def)
       (simp add: draw_config_def parsePositiveLamports_def parseOptionalNonNegativeLamports_def
         parseNonNegativeLamports_def is_safe_integer_def bound_defs throwIf_def)
qed

lemma build_compact:
  assumes "validateCompactConfig config = Inr c"
  shows "buildArtifactV5 config = (if 48 + length (cc_entries c) * V5_ENTRY_BYTES \<le> MAX_COMPILED_ARTIFACT_BYTES
      then Inr (W3O1 @ compact_bytes c) else Inl too_large)"
proof -
  have ok: "compact_ok c" using assms by (rule validateCompactConfig_ok)
  show ?thesis
    using assms by (simp add: buildArtifactV5_def encodeArtifactV5_bytes [OF ok] length_compact_bytes [OF ok] too_large_def)
qed

text \<open>C17: a draw that the partner API accepts is refused by the artifact builder only for its size, which the server
  answers with 413; otherwise the artifact holds exactly the participants of the request, each once, and its winners,
  formula and target.\<close>

theorem partner_draw_builds:
  assumes "partner_draw_request shown body = Inr d" and "length (pd_participants d) \<le> 65535"
  shows "\<exists>f c. pd_formula d = formula_name f \<and> cc_formula c = f \<and> cc_winners c = pd_winnersCount d
    \<and> cc_payout c = 0 \<and> (\<forall>t. pd_target d = Some t \<longrightarrow> cc_target c = t)
    \<and> mset (cc_entries c) = mset (map (\<lambda>(i, p). drawn_entry i p) (enumerate 0 (pd_participants d)))
    \<and> partner_artifact valid_key d =
        (if 48 + length (pd_participants d) * V5_ENTRY_BYTES \<le> MAX_COMPILED_ARTIFACT_BYTES
         then Inr (W3O1 @ compact_bytes c)
         else Inl (Http 413 ''Compact Outcome Standard V1.1 artifact exceeds byte limits''))"
proof -
  obtain f where f: "accepted f d" using partner_draw_accepted [OF assms(1)] ..
  let ?c = "draw_config f d"
  have v: "validateCompactConfig (buildPartnerDrawConfig d) = Inr ?c"
    using f assms(2) by (rule accepted_validates)
  have len: "length (cc_entries ?c) = length (pd_participants d)"
    by (simp add: draw_config_def sort_by_id_def)
  have "formula_name f \<noteq> js ''composite_rank_desc''" by (cases f) (simp_all add: js_def)
  then have "buildArtifact valid_key (JObject (buildPartnerDrawConfig d)) = buildArtifactV5 (buildPartnerDrawConfig d)"
    using f by (simp add: buildArtifact_def isCompositeRankDescConfig_def draw_config_props accepted_def) (simp add: js_def)
  then have "partner_artifact valid_key d =
        (if 48 + length (pd_participants d) * V5_ENTRY_BYTES \<le> MAX_COMPILED_ARTIFACT_BYTES
         then Inr (W3O1 @ compact_bytes ?c)
         else Inl (Http 413 ''Compact Outcome Standard V1.1 artifact exceeds byte limits''))"
    by (simp add: partner_artifact_def build_compact [OF v] len)
  then show ?thesis
    using f by (intro exI [of _ f] exI [of _ ?c]) (simp add: accepted_def draw_config_def sort_by_id_def)
qed

definition draw_sample :: jsval where
  "draw_sample = JObject
     [(js ''formula'', JString (js '' closest_to '')), (js ''target'', JNumber (NInt 7)),
      (js ''winners_count'', JNumber (NInt 2)),
      (js ''participants'', JArray
        [JObject [(js ''id'', JString (js ''zoe'')), (js ''score'', JNumber (NInt 5))],
         JObject [(js ''id'', JString (js ''al'')), (js ''score'', JNumber (NInt (-2)))]])]"

definition draw_checked :: partner_draw where
  "draw_checked = \<lparr>pd_participants = [\<lparr>pp_id = js ''zoe'', pp_weight = None, pp_score = Some 5\<rparr>,
       \<lparr>pp_id = js ''al'', pp_weight = None, pp_score = Some (-2)\<rparr>],
     pd_winnersCount = 2, pd_formula = js ''closest_to'', pd_target = Some 7\<rparr>"

lemma draw_sample_checked: "partner_draw_request (\<lambda>_. []) draw_sample = Inr draw_checked"
  by code_simp

lemma partner_draw_builds_witness:
  "\<exists>c. cc_winners c = 2 \<and> cc_target c = 7 \<and> length (cc_entries c) = 2
    \<and> partner_artifact (\<lambda>_. True) draw_checked = Inr (W3O1 @ compact_bytes c)"
proof -
  have "length (pd_participants draw_checked) = 2" by (simp add: draw_checked_def)
  with partner_draw_builds [OF draw_sample_checked, of "\<lambda>_. True"] obtain c where c:
    "cc_winners c = pd_winnersCount draw_checked" "\<forall>t. pd_target draw_checked = Some t \<longrightarrow> cc_target c = t"
    "mset (cc_entries c) = mset (map (\<lambda>(i, p). drawn_entry i p) (enumerate 0 (pd_participants draw_checked)))"
    "partner_artifact (\<lambda>_. True) draw_checked = Inr (W3O1 @ compact_bytes c)"
    by (auto simp: V5_ENTRY_BYTES_def MAX_COMPILED_ARTIFACT_BYTES_def)
  from c(3) have "length (cc_entries c) = 2" by (metis length_map length_enumerate size_mset \<open>length (pd_participants draw_checked) = 2\<close>)
  with c show ?thesis by (auto simp: draw_checked_def intro!: exI [of _ c])
qed

end
