(* ===== verification/Partner_Snapshot.thy ===== *)
theory Partner_Snapshot
  imports Partner_Request
begin

text \<open>
  How \<^verbatim>\<open>web/server.mjs\<close> makes one canonical snapshot of the chunks that a partner has uploaded: in memory with
  \<^verbatim>\<open>buildSnapshotHash\<close> when they are few, otherwise chunk by chunk into a file that the program \<^verbatim>\<open>sort\<close> orders and
  \<^verbatim>\<open>inspectSnapshotFile\<close> checks. A session directory is the list of its chunk files with what they hold; \<^verbatim>\<open>sort\<close> is a
  parameter, from the bytes of its input to those of its output.
\<close>

section \<open>The size of a snapshot\<close>

record threshold_env =
  te_simpleMax :: js_number
  te_mediumMax :: js_number
  te_streamingMin :: js_number

definition snapshotThresholds :: "threshold_env \<Rightarrow> (int \<times> int \<times> int) reply" where
  "snapshotThresholds env =
     (case (te_simpleMax env, te_mediumMax env, te_streamingMin env) of
        (NInt simpleMax, NInt mediumMax, NInt streamingMin) \<Rightarrow>
          throwIf (simpleMax < 1 \<or> mediumMax \<le> simpleMax \<or> streamingMin \<le> mediumMax)
            (Thrown (Error ''Invalid snapshot threshold configuration''))
            (Inr (simpleMax, mediumMax, streamingMin))
      | _ \<Rightarrow> Inl (Thrown (Error ''Invalid snapshot threshold configuration'')))"

datatype snapshot_mode = Simple | Medium | Streaming | Bulk

definition classifySnapshotMode :: "threshold_env \<Rightarrow> int \<Rightarrow> snapshot_mode reply" where
  "classifySnapshotMode env participants =
     bindE (snapshotThresholds env) (\<lambda>(simpleMax, mediumMax, streamingMin).
     Inr (if participants \<le> simpleMax then Simple
          else if participants \<le> mediumMax then Medium
          else if streamingMin \<le> participants then Streaming
          else Bulk))"

section \<open>Chunk files\<close>

type_synonym chunk_files = "(jsstr \<times> partner_participant list) list"

definition snapshotChunkName :: "nat \<Rightarrow> jsstr" where
  "snapshotChunkName chunkIndex =
     js ''chunk_'' @ replicate (6 - length (dec_digits chunkIndex)) 48 @ dec_digits chunkIndex @ js ''.json''"

text \<open>\<^verbatim>\<open>/^chunk_(\d{6})\.json$/\<close> and \<^verbatim>\<open>Number(match[1])\<close>\<close>

definition chunk_number :: "jsstr \<Rightarrow> nat option" where
  "chunk_number name =
     (let digits = take 6 (drop 6 name) in
      if take 6 name = js ''chunk_'' \<and> length digits = 6 \<and> list_all is_digit digits \<and> drop 12 name = js ''.json''
      then Some (nat (dec_value digits)) else None)"

definition listSnapshotChunkIndexes :: "chunk_files \<Rightarrow> nat list" where
  "listSnapshotChunkIndexes files = sort (List.map_filter (\<lambda>f. chunk_number (fst f)) files)"

definition read_chunk :: "chunk_files \<Rightarrow> nat \<Rightarrow> partner_participant list reply" where
  "read_chunk files chunkIndex =
     (case map_of files (snapshotChunkName chunkIndex) of None \<Rightarrow> Inl (Thrown (Error ''ENOENT''))
      | Some participants \<Rightarrow> Inr participants)"

section \<open>The canonical snapshot\<close>

text \<open>\<^verbatim>\<open>{ ...participant, order }\<close>\<close>

definition ordered_object :: "nat \<times> partner_participant \<Rightarrow> jsval" where
  "ordered_object ip = JObject (partner_fields (snd ip) @ [(js ''order'', JNumber (NInt (int (fst ip))))])"

definition ordered_objects :: "nat \<Rightarrow> partner_participant list \<Rightarrow> jsval list" where
  "ordered_objects globalOrder participants = map ordered_object (enumerate globalOrder participants)"

definition collected_snapshot :: "jsstr \<Rightarrow> partner_participant list list \<Rightarrow> (snapshot_summary \<times> buffer) result" where
  "collected_snapshot formula chunks =
     bindE (buildSnapshotHash (JString formula) (JArray (ordered_objects 0 (concat chunks)))) (\<lambda>built.
     Inr (built, utf8_encode (canonicalSnapshot built)))"

text \<open>The loop that writes the unsorted file; the state is (globalOrder, what was written).\<close>

definition unsorted_step ::
  "jsstr \<Rightarrow> nat \<times> buffer \<Rightarrow> partner_participant list \<Rightarrow> (nat \<times> buffer) result" where
  "unsorted_step formula st chunkParticipants =
     (case st of (globalOrder, written) \<Rightarrow>
      bindE (normalizeSnapshotParticipants (JArray (ordered_objects globalOrder chunkParticipants)) (JString formula)) (\<lambda>normalized.
      bindE (validateFormula (JString formula)) (\<lambda>f.
      Inr (globalOrder + length chunkParticipants,
           written @ concat (map (\<lambda>entry. utf8_encode (canonicalSnapshotLine entry f)) normalized)))))"

definition sorted_snapshot ::
  "(buffer \<Rightarrow> buffer option) \<Rightarrow> jsstr \<Rightarrow> partner_participant list list \<Rightarrow> int \<Rightarrow> (snapshot_summary \<times> buffer) result" where
  "sorted_snapshot run_sort formula chunks participantCount =
     bindE (foldE (unsorted_step formula) (0, []) chunks) (\<lambda>(_, unsorted).
     case run_sort unsorted of None \<Rightarrow> Inl (Error ''sort exited with an error'')
     | Some file \<Rightarrow>
         bindE (inspectSnapshotFile file (JString formula) None (Some participantCount) JUndefined) (\<lambda>inspected.
         Inr (inspected, file)))"

section \<open>The manifest\<close>

text \<open>The constant members, the time of creation, the URL of a proof manifest and the publication error are left out.\<close>

record snapshot_manifest =
  mf_snapshot_hash :: jsstr
  mf_snapshot_count :: int
  mf_formula :: formula
  mf_winners_count :: int
  mf_snapshot_uri :: jsstr
  mf_merkle_root :: jsstr
  mf_publication_status :: jsstr
  mf_publication_url :: "jsstr option"
  mf_proof_status :: jsstr
  mf_payout_lamports :: "int option"
  mf_target :: "int option"
  mf_threshold_mode :: "snapshot_mode option"

record manifest_options =
  mo_snapshotHash :: jsval
  mo_snapshotCount :: int
  mo_formula :: jsval
  mo_winnersCount :: jsval
  mo_snapshotUri :: jsstr
  mo_merkleRoot :: jsval
  mo_payoutLamports :: "int option"
  mo_targetScore :: "int option"
  mo_thresholdMode :: "snapshot_mode option"
  mo_publicationStatus :: "jsstr option"
  mo_publicationUrl :: "jsstr option"
  mo_proofStatus :: "jsstr option"

definition or_default :: "'a option \<Rightarrow> 'a \<Rightarrow> 'a" where
  "or_default x d = (case x of None \<Rightarrow> d | Some y \<Rightarrow> y)"

definition buildOutcomeStandardV12SnapshotManifest :: "manifest_options \<Rightarrow> snapshot_manifest result" where
  "buildOutcomeStandardV12SnapshotManifest opts =
     bindE (normalizeHex32 (mo_snapshotHash opts)) (\<lambda>hash.
     bindE (normalizeHex32 (mo_merkleRoot opts)) (\<lambda>root.
     bindE (validateFormula (mo_formula opts)) (\<lambda>f.
     bindE (validateWinnersCount (mo_winnersCount opts) (mo_snapshotCount opts)) (\<lambda>winners.
     Inr \<lparr>mf_snapshot_hash = hash, mf_snapshot_count = mo_snapshotCount opts, mf_formula = f, mf_winners_count = winners,
          mf_snapshot_uri = mo_snapshotUri opts, mf_merkle_root = root,
          mf_publication_status = or_default (mo_publicationStatus opts) (js ''pending''),
          mf_publication_url = mo_publicationUrl opts,
          mf_proof_status = or_default (mo_proofStatus opts) (js ''pending''),
          mf_payout_lamports = mo_payoutLamports opts, mf_target = mo_targetScore opts,
          mf_threshold_mode = mo_thresholdMode opts\<rparr>))))"

definition PARTNER_SNAPSHOT_PAYOUT_LAMPORTS :: int where "PARTNER_SNAPSHOT_PAYOUT_LAMPORTS = 0"

definition PARTNER_SNAPSHOT_BASE_INPUT_LAMPORTS :: int where "PARTNER_SNAPSHOT_BASE_INPUT_LAMPORTS = 10"

record finalized_snapshot =
  fz_mode :: snapshot_mode
  fz_summary :: snapshot_summary
  fz_file :: buffer
  fz_manifest :: snapshot_manifest

definition finalized_manifest ::
  "snapshot_mode \<Rightarrow> snapshot_summary \<Rightarrow> jsstr \<Rightarrow> int \<Rightarrow> int option \<Rightarrow> jsstr \<Rightarrow> snapshot_manifest result" where
  "finalized_manifest mode summary formula winnersCount target canonicalPath =
     buildOutcomeStandardV12SnapshotManifest
       \<lparr>mo_snapshotHash = JString (to_hex (snapshotHash summary)), mo_snapshotCount = int (snapshotCount summary),
        mo_formula = JString formula, mo_winnersCount = JNumber (NInt winnersCount), mo_snapshotUri = canonicalPath,
        mo_merkleRoot = JString (to_hex (merkleRootOf summary)), mo_payoutLamports = Some PARTNER_SNAPSHOT_PAYOUT_LAMPORTS,
        mo_targetScore = target, mo_thresholdMode = Some mode, mo_publicationStatus = Some (js ''pending''),
        mo_publicationUrl = None, mo_proofStatus = Some (js ''pending'')\<rparr>"

section \<open>Finalizing a session\<close>

definition contiguous :: "nat list \<Rightarrow> bool" where
  "contiguous chunkIndexes \<longleftrightarrow> list_all (\<lambda>i. chunkIndexes ! i = i) [0..<length chunkIndexes]"

definition finalizeSnapshotSession ::
  "threshold_env \<Rightarrow> (buffer \<Rightarrow> buffer option) \<Rightarrow> jsstr \<Rightarrow> chunk_files \<Rightarrow> int \<Rightarrow> jsstr \<Rightarrow> int \<Rightarrow> int option
    \<Rightarrow> finalized_snapshot reply" where
  "finalizeSnapshotSession env run_sort canonicalPath files participantCount formula winnersCount target =
     (let chunkIndexes = listSnapshotChunkIndexes files in
      throwIf (chunkIndexes = []) (Http 400 ''snapshot session has no chunks'')
     (throwIf (\<not> contiguous chunkIndexes) (Http 400 ''snapshot chunk indexes must be contiguous and start at 0'')
     (throwIf (participantCount < 2) (Http 400 ''snapshot session must contain at least 2 participants'')
     (throwIf (participantCount < winnersCount) (Http 400 ''winners_count must be <= participants length'')
     (bindE (classifySnapshotMode env participantCount) (\<lambda>mode.
      bindE (mapE (read_chunk files) chunkIndexes) (\<lambda>chunks.
      bindE (thrown (if mode \<in> {Simple, Medium} then collected_snapshot formula chunks
                     else sorted_snapshot run_sort formula chunks participantCount)) (\<lambda>(summary, file').
      bindE (thrown (finalized_manifest mode summary formula winnersCount target canonicalPath)) (\<lambda>manifest.
      Inr \<lparr>fz_mode = mode, fz_summary = summary, fz_file = file', fz_manifest = manifest\<rparr>)))))))))"

text \<open>What the draw commits to.\<close>

definition buildPartnerSnapshotConfig ::
  "jsstr \<Rightarrow> jsstr \<Rightarrow> int \<Rightarrow> jsstr \<Rightarrow> jsstr \<Rightarrow> int \<Rightarrow> int option \<Rightarrow> (jsstr \<times> jsval) list" where
  "buildPartnerSnapshotConfig formula hash count' uri root winnersCount target =
     [(js ''type'', JString (js ''outcome_standard_v1_2_1'')), (js ''formula'', JString formula),
      (js ''input_lamports'', JNumber (NInt (max PARTNER_SNAPSHOT_BASE_INPUT_LAMPORTS (winnersCount * PARTNER_SNAPSHOT_PAYOUT_LAMPORTS)))),
      (js ''payout_lamports'', JNumber (NInt PARTNER_SNAPSHOT_PAYOUT_LAMPORTS)),
      (js ''winners_count'', JNumber (NInt winnersCount)), (js ''snapshot_hash'', JString hash),
      (js ''snapshot_count'', JNumber (NInt count')), (js ''snapshot_uri'', JString uri),
      (js ''merkle_root'', JString root)]
     @ optional_number ''target'' target"

end
