(* ===== verification/Partner_Session.thy ===== *)
theory Partner_Session
  imports Partner_Snapshot Snapshot_Source
begin

text \<open>
  The sessions of the partner API in \<^verbatim>\<open>web/server.mjs\<close>: a partner opens a session, uploads chunks, finalizes it, and a
  background job builds the snapshot, publishes it, and draws. The server is what is on its disk (session directories,
  mirror copies, the index by signature), what is in its memory (the running jobs, lost in a restart), and the record of
  the draws it has started, which the code does not keep: it is what the properties are about.

  A request handler runs without interruption once its body is read; a job is interrupted where it awaits, so it is a
  sequence of steps. Directories are found by their exact name, as on a file system that tells upper from lower case.
  The fields \<^verbatim>\<open>chunk_index\<close> and \<^verbatim>\<open>session_id\<close> of a chunk have been converted by \<^verbatim>\<open>Number\<close> and \<^verbatim>\<open>String\<close>, before
  which the handler changes nothing; labels, times of finalization and file locations are left out.
\<close>

section \<open>Partners that may draw\<close>

definition enabled_partner :: "(jsstr \<rightharpoonup> partner) option \<Rightarrow> jsstr \<Rightarrow> partner reply" where
  "enabled_partner partnerConfig key =
     bindE (requirePartnerApiKey partnerConfig key) (\<lambda>p.
     throwIf (\<not> pn_draw_enabled p) (Http 403 ''draw not enabled for this partner'') (Inr p))"

section \<open>The state\<close>

datatype session_status = S_open | S_finalizing | S_failed | S_finalized

datatype finalize_stage = Building | Publishing | Committing | Settled

record session_result =
  sr_formula :: jsstr
  sr_winnersCount :: int
  sr_target :: "int option"
  sr_summary :: snapshot_summary
  sr_uri :: jsstr
  sr_signature :: jsstr
  sr_outcomeIds :: "jsstr list"

record session_meta =
  sm_partner_key :: jsstr
  sm_created_at_ms :: int
  sm_chunks_received :: nat
  sm_participant_count :: int
  sm_chunk_indexes :: "nat list"
  sm_status :: session_status
  sm_stage :: "finalize_stage option"
  sm_result :: "session_result option"

record session_dir =
  sd_meta :: session_meta
  sd_files :: chunk_files

text \<open>A job: its own copy of the session's metadata, the request, and how far it is.\<close>

record finalize_job =
  jb_meta :: session_meta
  jb_formula :: jsstr
  jb_winnersCount :: int
  jb_target :: "int option"
  jb_finalized :: "finalized_snapshot option"
  jb_uri :: "jsstr option"
  jb_drawing :: bool

record draw_call =
  dc_session :: jsstr
  dc_formula :: jsstr
  dc_winnersCount :: int
  dc_target :: "int option"
  dc_finalized :: finalized_snapshot
  dc_config :: "(jsstr \<times> jsval) list"

record server =
  sv_dirs :: "jsstr \<Rightarrow> session_dir option"
  sv_mirror :: "jsstr \<Rightarrow> buffer option"
  sv_index :: "jsstr \<Rightarrow> jsstr option"
  sv_jobs :: "jsstr \<Rightarrow> finalize_job option"
  sv_draws :: "draw_call list"
  sv_issued :: "jsstr list"

record server_env =
  se_partners :: "(jsstr \<rightharpoonup> partner) option"
  se_thresholds :: threshold_env
  se_ttl :: int
  se_chunkMax :: int
  se_maxWinners :: int
  se_shown :: "js_number \<Rightarrow> jsstr"
  se_sort :: "buffer \<Rightarrow> buffer option"
  se_canonicalPath :: "jsstr \<Rightarrow> jsstr"

definition empty_server :: server where
  "empty_server = \<lparr>sv_dirs = (\<lambda>_. None), sv_mirror = (\<lambda>_. None), sv_index = (\<lambda>_. None), sv_jobs = (\<lambda>_. None),
     sv_draws = [], sv_issued = []\<rparr>"

section \<open>Session directories\<close>

text \<open>\<^verbatim>\<open>/^[0-9a-f]{8}-[0-9a-f]{4}-[0-9a-f]{4}-[0-9a-f]{4}-[0-9a-f]{12}$/i\<close>\<close>

definition is_uuid :: "jsstr \<Rightarrow> bool" where
  "is_uuid s \<longleftrightarrow> length s = 36 \<and>
     list_all (\<lambda>i. if i \<in> {8, 13, 18, 23} then s ! i = 45 else hex_value (s ! i) \<noteq> None) [0..<36]"

definition snapshotSessionDir :: "server \<Rightarrow> jsstr \<Rightarrow> session_dir option reply" where
  "snapshotSessionDir s sessionId =
     throwIf (\<not> is_uuid sessionId) (Http 400 ''session_id must be a snapshot session id'') (Inr (sv_dirs s sessionId))"

definition owned_session :: "server \<Rightarrow> jsstr \<Rightarrow> jsstr \<Rightarrow> session_dir reply" where
  "owned_session s sessionId partnerKey =
     bindE (snapshotSessionDir s sessionId) (\<lambda>dir.
     case dir of None \<Rightarrow> Inl (Http 404 ''snapshot session not found'')
     | Some d \<Rightarrow>
         throwIf (sm_partner_key (sd_meta d) \<noteq> partnerKey) (Http 403 ''snapshot session belongs to another partner'')
           (Inr d))"

definition loadSnapshotSession :: "server_env \<Rightarrow> int \<Rightarrow> server \<Rightarrow> jsstr \<Rightarrow> jsstr \<Rightarrow> session_dir reply" where
  "loadSnapshotSession env now s sessionId partnerKey =
     bindE (owned_session s sessionId partnerKey) (\<lambda>d.
     throwIf (sm_status (sd_meta d) \<noteq> S_open) (Http 409 ''snapshot session is not open'')
    (throwIf (se_ttl env < now - sm_created_at_ms (sd_meta d)) (Http 410 ''snapshot session expired'') (Inr d)))"

definition RETRYABLE_STAGES :: "finalize_stage set" where
  "RETRYABLE_STAGES = {Building, Publishing}"

definition retryable_stage :: "finalize_stage option \<Rightarrow> bool" where
  "retryable_stage stage = (case stage of None \<Rightarrow> False | Some x \<Rightarrow> x \<in> RETRYABLE_STAGES)"

definition loadSnapshotSessionForFinalize :: "server \<Rightarrow> jsstr \<Rightarrow> jsstr \<Rightarrow> session_dir reply" where
  "loadSnapshotSessionForFinalize s sessionId partnerKey =
     bindE (owned_session s sessionId partnerKey) (\<lambda>d.
     let meta = sd_meta d in
     throwIf (sm_status meta = S_finalizing \<and> sv_jobs s sessionId \<noteq> None) (Http 409 ''snapshot session is already finalizing'')
    (if sm_status meta = S_finalizing \<or> sm_status meta = S_failed then
       throwIf (\<not> retryable_stage (sm_stage meta)) (Http 409 ''snapshot session stopped; start a new session'') (Inr d)
     else throwIf (sm_status meta \<noteq> S_open) (Http 409 ''snapshot session is finalized'') (Inr d)))"

text \<open>\<^verbatim>\<open>fs.writeFileSync\<close> into a directory that is no longer there throws.\<close>

definition saveSnapshotSession :: "jsstr \<Rightarrow> session_meta \<Rightarrow> server \<Rightarrow> server option" where
  "saveSnapshotSession sessionId meta s =
     (case sv_dirs s sessionId of None \<Rightarrow> None
      | Some d \<Rightarrow> Some (s\<lparr>sv_dirs := (sv_dirs s)(sessionId := Some (d\<lparr>sd_meta := meta\<rparr>))\<rparr>))"

definition expired :: "server_env \<Rightarrow> int \<Rightarrow> session_meta \<Rightarrow> bool" where
  "expired env now meta \<longleftrightarrow> sm_status meta \<noteq> S_finalized \<and> 0 < sm_created_at_ms meta
     \<and> se_ttl env < now - sm_created_at_ms meta"

definition cleanupExpiredSnapshotSessions :: "server_env \<Rightarrow> int \<Rightarrow> server \<Rightarrow> server" where
  "cleanupExpiredSnapshotSessions env now s =
     s\<lparr>sv_dirs := (\<lambda>sessionId. case sv_dirs s sessionId of None \<Rightarrow> None
        | Some d \<Rightarrow> if expired env now (sd_meta d) then None else Some d)\<rparr>"

section \<open>Requests\<close>

text \<open>\<^verbatim>\<open>crypto.randomUUID()\<close> is the argument \<open>sessionId\<close>; that it was not issued before is a premise of the step.\<close>

definition createSnapshotSession :: "server_env \<Rightarrow> int \<Rightarrow> jsstr \<Rightarrow> jsstr \<Rightarrow> server \<Rightarrow> server" where
  "createSnapshotSession env now sessionId partnerKey s =
     (let s' = cleanupExpiredSnapshotSessions env now s;
          meta = \<lparr>sm_partner_key = partnerKey, sm_created_at_ms = now, sm_chunks_received = 0, sm_participant_count = 0,
                  sm_chunk_indexes = [], sm_status = S_open, sm_stage = None, sm_result = None\<rparr> in
      s'\<lparr>sv_dirs := (sv_dirs s')(sessionId := Some \<lparr>sd_meta = meta, sd_files = []\<rparr>), sv_issued := sessionId # sv_issued s\<rparr>)"

definition handlePartnerSnapshotInit ::
  "server_env \<Rightarrow> int \<Rightarrow> jsstr \<Rightarrow> jsstr \<Rightarrow> jsval \<Rightarrow> server \<Rightarrow> (int \<times> int \<times> int) reply \<times> server" where
  "handlePartnerSnapshotInit env now sessionId key body s =
     (case bindE (enabled_partner (se_partners env) key) (\<lambda>p. bindE (body_fields body) (\<lambda>props.
           bindE (use_case_check (prop_of props ''use_case'')) (\<lambda>_. Inr p))) of
        Inl e \<Rightarrow> (Inl e, s)
      | Inr p \<Rightarrow> (snapshotThresholds (se_thresholds env), createSnapshotSession env now sessionId (pn_key p) s))"

text \<open>The body of a chunk: \<^verbatim>\<open>String(body.session_id || "").trim()\<close>, \<^verbatim>\<open>Number(body.chunk_index)\<close> and the participants.\<close>

record chunk_request =
  cr_session_id :: jsstr
  cr_chunk_index :: js_number
  cr_participants :: jsval

definition checked_chunk :: "server_env \<Rightarrow> int \<Rightarrow> partner \<Rightarrow> chunk_request \<Rightarrow> server
    \<Rightarrow> (nat \<times> session_dir \<times> partner_participant list) reply" where
  "checked_chunk env now p body s =
     throwIf (cr_session_id body = []) (Http 400 ''session_id is required'')
    (case cr_chunk_index body of
       NFrac \<Rightarrow> Inl (Http 400 ''chunk_index must be a non-negative integer'')
     | NInt i \<Rightarrow>
         throwIf (i < 0) (Http 400 ''chunk_index must be a non-negative integer'')
        (case cr_participants body of
           JArray raws \<Rightarrow>
             throwIf (raws = [] \<or> se_chunkMax env < int (length raws)) (Http 400 ''participants must contain 1-5000 entries'')
            (bindE (loadSnapshotSession env now s (cr_session_id body) (pn_key p)) (\<lambda>d.
             throwIf (nat i \<in> set (sm_chunk_indexes (sd_meta d))) (Http 409 ''chunk_index already uploaded'')
            (bindE (mapE (validateSnapshotChunkParticipant (se_shown env)) raws) (\<lambda>participants.
             Inr (nat i, d, participants)))))
         | _ \<Rightarrow> Inl (Http 400 ''participants must be an array'')))"

definition with_chunk :: "nat \<Rightarrow> partner_participant list \<Rightarrow> session_dir \<Rightarrow> session_dir" where
  "with_chunk i participants d =
     (let meta = sd_meta d; indexes = sort (sm_chunk_indexes meta @ [i]); name = snapshotChunkName i in
      \<lparr>sd_meta = meta\<lparr>sm_chunk_indexes := indexes, sm_chunks_received := length indexes,
          sm_participant_count := sm_participant_count meta + int (length participants)\<rparr>,
       sd_files = (name, participants) # filter (\<lambda>f. fst f \<noteq> name) (sd_files d)\<rparr>)"

definition handlePartnerSnapshotChunk ::
  "server_env \<Rightarrow> int \<Rightarrow> jsstr \<Rightarrow> chunk_request \<Rightarrow> server \<Rightarrow> (int \<times> snapshot_mode) reply \<times> server" where
  "handlePartnerSnapshotChunk env now key body s =
     (case bindE (enabled_partner (se_partners env) key) (\<lambda>p. checked_chunk env now p body s) of
        Inl e \<Rightarrow> (Inl e, s)
      | Inr (i, d, participants) \<Rightarrow>
          let d' = with_chunk i participants d; count' = sm_participant_count (sd_meta d') in
          (bindE (classifySnapshotMode (se_thresholds env) count') (\<lambda>mode. Inr (count', mode)),
           s\<lparr>sv_dirs := (sv_dirs s)(cr_session_id body := Some d')\<rparr>))"

end
