(* ===== verification/Partner_Job.thy ===== *)
theory Partner_Job
  imports Partner_Session
begin

text \<open>
  Finalizing a session in \<^verbatim>\<open>web/server.mjs\<close>: the request, the background job with its stages, the status that a partner
  can ask for, and the steps of the server, restarts included. The job awaits inside \<^verbatim>\<open>finalizeSnapshotSession\<close> too; no
  request changes the chunks of a session that is finalizing, and a directory that expires meanwhile is missed when the
  stage is saved, so this part is one step.
\<close>

section \<open>The request\<close>

definition session_id_of :: "server_env \<Rightarrow> (jsstr \<times> jsval) list \<Rightarrow> jsstr reply" where
  "session_id_of env props =
     bindE (js_text (se_shown env) (or_empty (prop_of props ''session_id''))) (\<lambda>s. Inr (js_trim s))"

text \<open>\<open>configured\<close> is what \<^verbatim>\<open>resolveSnapshotRpcUrl\<close> and \<^verbatim>\<open>resolveSnapshotProgramId\<close> make of the environment.\<close>

definition checked_finalize ::
  "server_env \<Rightarrow> unit reply \<Rightarrow> partner \<Rightarrow> jsval \<Rightarrow> server \<Rightarrow> (jsstr \<times> session_dir \<times> finalize_job) reply" where
  "checked_finalize env configured p body s =
     bindE (body_fields body) (\<lambda>props.
     bindE (session_id_of env props) (\<lambda>sessionId.
     throwIf (sessionId = []) (Http 400 ''session_id is required'')
    (bindE (validatePartnerFormula (se_shown env) (prop_of props ''formula'')) (\<lambda>formula.
     bindE (partner_winners (se_maxWinners env) (prop_of props ''winners_count'')) (\<lambda>winnersCount.
     bindE (partner_target formula (prop_of props ''target'')) (\<lambda>target.
     bindE configured (\<lambda>_.
     bindE (loadSnapshotSessionForFinalize s sessionId (pn_key p)) (\<lambda>d.
     let meta = (sd_meta d)\<lparr>sm_status := S_finalizing, sm_stage := Some Building\<rparr> in
     Inr (sessionId, d, \<lparr>jb_meta = meta, jb_formula = formula, jb_winnersCount = winnersCount, jb_target = target,
       jb_finalized = None, jb_uri = None, jb_drawing = False\<rparr>)))))))))"

definition handlePartnerSnapshotFinalize ::
  "server_env \<Rightarrow> unit reply \<Rightarrow> jsstr \<Rightarrow> jsval \<Rightarrow> server \<Rightarrow> jsstr reply \<times> server" where
  "handlePartnerSnapshotFinalize env configured key body s =
     (case bindE (enabled_partner (se_partners env) key) (\<lambda>p. checked_finalize env configured p body s) of
        Inl e \<Rightarrow> (Inl e, s)
      | Inr (sessionId, d, job) \<Rightarrow>
          (Inr sessionId, s\<lparr>sv_dirs := (sv_dirs s)(sessionId := Some (d\<lparr>sd_meta := jb_meta job\<rparr>)),
             sv_jobs := (sv_jobs s)(sessionId := Some job)\<rparr>))"

section \<open>The job\<close>

definition put_job :: "jsstr \<Rightarrow> finalize_job option \<Rightarrow> server \<Rightarrow> server" where
  "put_job sessionId j s = s\<lparr>sv_jobs := (sv_jobs s)(sessionId := j)\<rparr>"

text \<open>The job ends with an error; the session on disk, if it is still there, is marked failed.\<close>

definition markSnapshotFinalizeFailed :: "jsstr \<Rightarrow> server \<Rightarrow> server" where
  "markSnapshotFinalizeFailed sessionId s =
     (case sv_dirs s sessionId of None \<Rightarrow> s
      | Some d \<Rightarrow> s\<lparr>sv_dirs := (sv_dirs s)(sessionId := Some (d\<lparr>sd_meta := (sd_meta d)\<lparr>sm_status := S_failed\<rparr>\<rparr>))\<rparr>)"

definition fail_job :: "jsstr \<Rightarrow> server \<Rightarrow> server" where
  "fail_job sessionId s = put_job sessionId None (markSnapshotFinalizeFailed sessionId s)"

text \<open>\<^verbatim>\<open>meta.finalize_stage = stage; saveSnapshotSession(meta)\<close>, failing the job when the directory is gone.\<close>

definition set_stage :: "finalize_stage \<Rightarrow> jsstr \<Rightarrow> finalize_job \<Rightarrow> server \<Rightarrow> server" where
  "set_stage stage sessionId j s =
     (let meta = (jb_meta j)\<lparr>sm_stage := Some stage\<rparr> in
      case saveSnapshotSession sessionId meta s of None \<Rightarrow> fail_job sessionId s
      | Some s' \<Rightarrow> put_job sessionId (Some (j\<lparr>jb_meta := meta\<rparr>)) s')"

text \<open>A copy named by its hash; what is there already stays.\<close>

definition storeMirrorCopy :: "jsstr \<Rightarrow> buffer \<Rightarrow> (jsstr \<Rightarrow> buffer option) \<Rightarrow> (jsstr \<Rightarrow> buffer option) option" where
  "storeMirrorCopy hash bytes store =
     (if to_hex (sha256 bytes) \<noteq> hash then None
      else Some (case store hash of None \<Rightarrow> store(hash := Some bytes) | Some _ \<Rightarrow> store))"

definition committed_hash :: "finalized_snapshot \<Rightarrow> jsstr" where
  "committed_hash fz = to_hex (snapshotHash (fz_summary fz))"

definition session_finalized :: "server_env \<Rightarrow> jsstr \<Rightarrow> finalize_job \<Rightarrow> session_dir \<Rightarrow> finalized_snapshot reply" where
  "session_finalized env sessionId j d =
     finalizeSnapshotSession (se_thresholds env) (se_sort env) (se_canonicalPath env sessionId) (sd_files d)
       (sm_participant_count (jb_meta j)) (jb_formula j) (jb_winnersCount j) (jb_target j)"

text \<open>From the start to the call of \<^verbatim>\<open>storage.publish\<close>.\<close>

definition job_build :: "server_env \<Rightarrow> jsstr \<Rightarrow> finalize_job \<Rightarrow> server \<Rightarrow> server" where
  "job_build env sessionId j s =
     (case sv_dirs s sessionId of None \<Rightarrow> fail_job sessionId s
      | Some d \<Rightarrow>
         (case session_finalized env sessionId j d of Inl e \<Rightarrow> fail_job sessionId s
          | Inr fz \<Rightarrow>
              let s' = set_stage Publishing sessionId (j\<lparr>jb_finalized := Some fz\<rparr>) s in
              (case storeMirrorCopy (committed_hash fz) (fz_file fz) (sv_mirror s') of
                 None \<Rightarrow> fail_job sessionId s'
               | Some store \<Rightarrow> s'\<lparr>sv_mirror := store\<rparr>)))"

text \<open>The published copy is read back, at most four times, each time from the world as it is then.\<close>

definition read_back :: "source_world list \<Rightarrow> jsstr \<Rightarrow> jsstr \<Rightarrow> bool" where
  "read_back worlds uri hash \<longleftrightarrow> list_ex (\<lambda>w. is_ok (fetchCommittedSnapshot w
     \<lparr>sp_snapshotUri = uri, sp_snapshotHash = hash, sp_mirrors = Some [], sp_localFile = None, sp_gateways = None,
      sp_timeoutMs = Some 15000, sp_maxBytes = None\<rparr>)) (take 4 worlds)"

text \<open>From the answer of \<^verbatim>\<open>storage.publish\<close> to the call of \<^verbatim>\<open>resolveInlineRngV2\<close>; writing the manifest needs the directory.\<close>

definition job_publish :: "jsstr option \<Rightarrow> source_world list \<Rightarrow> jsstr \<Rightarrow> finalize_job \<Rightarrow> server \<Rightarrow> server" where
  "job_publish published worlds sessionId j s =
     (case (jb_finalized j, published) of
        (Some fz, Some uri) \<Rightarrow>
          if \<not> read_back worlds uri (committed_hash fz) \<or> sv_dirs s sessionId = None then fail_job sessionId s
          else set_stage Committing sessionId (j\<lparr>jb_uri := Some uri\<rparr>) s
      | _ \<Rightarrow> fail_job sessionId s)"

definition draw_call_of :: "jsstr \<Rightarrow> finalize_job \<Rightarrow> finalized_snapshot \<Rightarrow> jsstr \<Rightarrow> draw_call" where
  "draw_call_of sessionId j fz uri =
     \<lparr>dc_session = sessionId, dc_formula = jb_formula j, dc_winnersCount = jb_winnersCount j, dc_target = jb_target j,
      dc_finalized = fz,
      dc_config = buildPartnerSnapshotConfig (jb_formula j) (committed_hash fz) (int (snapshotCount (fz_summary fz))) uri
        (to_hex (merkleRootOf (fz_summary fz))) (jb_winnersCount j) (jb_target j)\<rparr>"

definition job_draw :: "jsstr \<Rightarrow> finalize_job \<Rightarrow> server \<Rightarrow> server" where
  "job_draw sessionId j s =
     (case (jb_finalized j, jb_uri j) of
        (Some fz, Some uri) \<Rightarrow>
          put_job sessionId (Some (j\<lparr>jb_drawing := True\<rparr>)) (s\<lparr>sv_draws := draw_call_of sessionId j fz uri # sv_draws s\<rparr>)
      | _ \<Rightarrow> fail_job sessionId s)"

text \<open>The draw has returned: the result is written into the session, if the directory is still there. \<open>indexed\<close> says whether
  \<^verbatim>\<open>writeSnapshotSignatureIndex\<close>, which comes after, can write its file; if it cannot, the job fails, and the session that
  was saved as settled is marked failed.\<close>

definition settled_meta :: "finalize_job \<Rightarrow> finalized_snapshot \<Rightarrow> jsstr \<Rightarrow> jsstr \<Rightarrow> jsstr list \<Rightarrow> session_meta" where
  "settled_meta j fz uri signature outcomeIds =
     (jb_meta j)\<lparr>sm_status := S_finalized, sm_stage := Some Settled,
       sm_result := Some \<lparr>sr_formula = jb_formula j, sr_winnersCount = jb_winnersCount j, sr_target = jb_target j,
         sr_summary = fz_summary fz, sr_uri = uri, sr_signature = signature, sr_outcomeIds = outcomeIds\<rparr>\<rparr>"

definition job_settle :: "bool \<Rightarrow> jsstr \<Rightarrow> jsstr list \<Rightarrow> jsstr \<Rightarrow> finalize_job \<Rightarrow> server \<Rightarrow> server" where
  "job_settle indexed signature outcomeIds sessionId j s =
     (case (jb_finalized j, jb_uri j) of
        (Some fz, Some uri) \<Rightarrow>
          (case saveSnapshotSession sessionId (settled_meta j fz uri signature outcomeIds) s of
             None \<Rightarrow> fail_job sessionId s
           | Some s' \<Rightarrow>
               if indexed then put_job sessionId None (s'\<lparr>sv_index := (sv_index s')(signature := Some sessionId)\<rparr>)
               else fail_job sessionId s')
      | _ \<Rightarrow> fail_job sessionId s)"

section \<open>The status of a session\<close>

record status_reply =
  st_status :: session_status
  st_stage :: "finalize_stage option"
  st_participant_count :: int
  st_chunks_received :: nat
  st_result :: "session_result option"
  st_retryable :: "bool option"

text \<open>A session that is finalizing on disk without a job in memory was interrupted by a restart.\<close>

definition handlePartnerSnapshotStatus :: "server_env \<Rightarrow> jsstr \<Rightarrow> jsstr \<Rightarrow> server \<Rightarrow> status_reply reply" where
  "handlePartnerSnapshotStatus env key sessionId s =
     bindE (requirePartnerApiKey (se_partners env) key) (\<lambda>p.
     throwIf (sessionId = []) (Http 400 ''session_id is required'')
    (bindE (owned_session s sessionId (pn_key p)) (\<lambda>d.
     let meta = sd_meta d;
         status = (if sm_status meta = S_finalizing \<and> sv_jobs s sessionId = None then S_failed else sm_status meta) in
     Inr \<lparr>st_status = status, st_stage = sm_stage meta, st_participant_count = sm_participant_count meta,
          st_chunks_received = sm_chunks_received meta,
          st_result = (if status = S_finalized then sm_result meta else None),
          st_retryable = (if status = S_failed then Some (retryable_stage (sm_stage meta)) else None)\<rparr>)))"

section \<open>Steps\<close>

definition job_stage :: "finalize_job \<Rightarrow> finalize_stage option" where
  "job_stage j = sm_stage (jb_meta j)"

inductive server_step :: "server_env \<Rightarrow> server \<Rightarrow> server \<Rightarrow> bool" for env where
  step_open: "sessionId \<notin> set (sv_issued s) \<Longrightarrow>
    server_step env s (snd (handlePartnerSnapshotInit env now sessionId key body s))"
| step_chunk: "server_step env s (snd (handlePartnerSnapshotChunk env now key request s))"
| step_finalize: "server_step env s (snd (handlePartnerSnapshotFinalize env configured key value s))"
| step_build: "sv_jobs s sessionId = Some j \<Longrightarrow> job_stage j = Some Building \<Longrightarrow>
    server_step env s (job_build env sessionId j s)"
| step_publish: "sv_jobs s sessionId = Some j \<Longrightarrow> job_stage j = Some Publishing \<Longrightarrow>
    server_step env s (job_publish published worlds sessionId j s)"
| step_draw: "sv_jobs s sessionId = Some j \<Longrightarrow> job_stage j = Some Committing \<Longrightarrow> \<not> jb_drawing j \<Longrightarrow>
    server_step env s (job_draw sessionId j s)"
| step_settle: "sv_jobs s sessionId = Some j \<Longrightarrow> jb_drawing j \<Longrightarrow>
    server_step env s (job_settle indexed signature outcomeIds sessionId j s)"
| step_fail: "sv_jobs s sessionId = Some j \<Longrightarrow> server_step env s (fail_job sessionId s)"
| step_cleanup: "server_step env s (cleanupExpiredSnapshotSessions env now s)"
| step_restart: "server_step env s (s\<lparr>sv_jobs := (\<lambda>_. None)\<rparr>)"

inductive server_reach :: "server_env \<Rightarrow> server \<Rightarrow> bool" for env where
  reach_start: "server_reach env empty_server"
| reach_step: "server_reach env s \<Longrightarrow> server_step env s s' \<Longrightarrow> server_reach env s'"

end
