(* ===== verification/Partner_Modes.thy ===== *)
theory Partner_Modes
  imports Partner_Snapshot
begin

text \<open>
  The two ways to a canonical snapshot agree. What \<^verbatim>\<open>sort\<close> is relied upon for is \<open>sorts_lines\<close>: when it succeeds on
  complete lines, it returns the same lines in the order of their bytes.
\<close>

section \<open>Lines of a file\<close>

definition unlines :: "buffer list \<Rightarrow> buffer" where
  "unlines ls = concat (map (\<lambda>l. l @ [10]) ls)"

definition sorts_lines :: "(buffer \<Rightarrow> buffer option) \<Rightarrow> bool" where
  "sorts_lines run_sort \<longleftrightarrow>
     (\<forall>ls out. (\<forall>l \<in> set ls. 10 \<notin> set l) \<longrightarrow> run_sort (unlines ls) = Some out \<longrightarrow>
       (\<exists>ls'. out = unlines ls' \<and> mset ls' = mset ls \<and> sorted_wrt (\<lambda>a b. buffer_compare a b \<le> 0) ls'))"

definition line_bytes :: "formula \<Rightarrow> participant \<Rightarrow> buffer" where
  "line_bytes f e = map ucast (stringify_object (canonical_fields e f))"

lemma line_ascii:
  assumes "participant_ok f e" and "c \<in> set (stringify_object (canonical_fields e f))"
  shows "unat c < 128 \<and> (ucast c :: byte) \<noteq> 10"
proof -
  have p: "printable_unit c"
    using canonical_printable [of e f] assms by (auto simp: participant_ok_def printable_text_def)
  then have u: "unat c < 128" using printable_not_surrogate by blast
  moreover have "unat c \<ge> 32" using p by (simp add: printable_unit_def word_le_nat_alt)
  moreover have "unat (ucast c :: byte) = unat c" using u by (simp add: unsigned_ucast_eq take_bit_nat_eq_self)
  moreover have "unat (10 :: byte) = 10" by simp
  ultimately have "unat (ucast c :: byte) \<noteq> unat (10 :: byte)" by linarith
  with u show ?thesis by metis
qed

lemma utf8_line:
  assumes "participant_ok f e"
  shows "utf8_encode (canonicalSnapshotLine e f) = line_bytes f e @ [10]"
proof -
  have "\<forall>c \<in> set (canonicalSnapshotLine e f). unat c < 128"
    using line_ascii [OF assms] by (auto simp: canonicalSnapshotLine_def)
  from utf8_encode_ascii [OF this] show ?thesis by (simp add: canonicalSnapshotLine_def line_bytes_def)
qed

lemma utf8_lines:
  "\<forall>e \<in> set es. participant_ok f e \<Longrightarrow>
    concat (map (\<lambda>e. utf8_encode (canonicalSnapshotLine e f)) es) = unlines (map (line_bytes f) es)"
  by (induction es) (simp_all add: unlines_def utf8_line)

lemma utf8_text:
  assumes "\<forall>e \<in> set es. participant_ok f e"
  shows "utf8_encode (canonical_text f es) = unlines (map (line_bytes f) es)"
proof -
  have "\<forall>l \<in> set (map (\<lambda>e. canonicalSnapshotLine e f) es). \<forall>c \<in> set l. unat c < 128"
    using assms line_ascii by (auto simp: canonicalSnapshotLine_def)
  from utf8_encode_concat_ascii [OF this] utf8_lines [OF assms] show ?thesis
    by (simp add: canonical_text_def comp_def)
qed

lemma line_no_newline: "participant_ok f e \<Longrightarrow> 10 \<notin> set (line_bytes f e)"
  using line_ascii [of f e] by (auto simp: line_bytes_def)

lemma mset_map_lift:
  "mset ys = mset (map g xs) \<Longrightarrow> \<exists>xs'. mset xs' = mset xs \<and> map g xs' = ys"
proof (induction ys arbitrary: xs)
  case (Cons y ys)
  have "y \<in> set (map g xs)" using mset_eq_setD [OF Cons.prems] by auto
  then obtain x where x: "x \<in> set xs" "g x = y" by auto
  from split_list [OF x(1)] obtain us vs where xs: "xs = us @ x # vs" by blast
  have "mset ys = mset (map g (us @ vs))" using Cons.prems x(2) by (simp add: xs)
  from Cons.IH [OF this] obtain xs' where xs': "mset xs' = mset (us @ vs)" "map g xs' = ys" by blast
  have "mset (x # xs') = mset xs" using xs'(1) by (simp add: xs)
  moreover have "map g (x # xs') = y # ys" using xs'(2) x(2) by simp
  ultimately show ?case by (intro exI [of _ "x # xs'"] conjI)
qed simp

text \<open>What \<^verbatim>\<open>sort\<close> makes of the lines of entries are the lines of the same entries in some order.\<close>

lemma sorted_lines:
  assumes "sorts_lines run_sort" and "\<forall>e \<in> set es. participant_ok f e"
    and "run_sort (unlines (map (line_bytes f) es)) = Some out"
  obtains es' where "mset es' = mset es" and "out = utf8_encode (canonical_text f es')"
    and "sorted_wrt (\<lambda>a b. buffer_compare (line_bytes f a) (line_bytes f b) \<le> 0) es'"
proof -
  have "\<forall>l \<in> set (map (line_bytes f) es). 10 \<notin> set l" using assms(2) line_no_newline by auto
  with assms(1,3) obtain ls' where ls': "out = unlines ls'" "mset ls' = mset (map (line_bytes f) es)"
    and srt: "sorted_wrt (\<lambda>a b. buffer_compare a b \<le> 0) ls'"
    unfolding sorts_lines_def by blast
  from mset_map_lift [OF ls'(2)] obtain es' where es': "mset es' = mset es" "map (line_bytes f) es' = ls'" by blast
  have "\<forall>e \<in> set es'. participant_ok f e" using assms(2) es'(1) by (metis mset_eq_setD)
  from utf8_text [OF this] es'(2) ls'(1) have "out = utf8_encode (canonical_text f es')" by simp
  moreover have "sorted_wrt (\<lambda>a b. buffer_compare (line_bytes f a) (line_bytes f b) \<le> 0) es'"
    using srt by (simp add: sorted_wrt_map flip: es'(2))
  ultimately show thesis using es'(1) that by blast
qed

section \<open>The inspection\<close>

lemma inspect_loop_D:
  "foldE inspect_step (previous, seen) es = Inr (previous', out) \<Longrightarrow>
    out = seen @ es \<and> strictly_sorted_ids es \<and> (\<forall>p. previous = Some p \<longrightarrow> (\<forall>e \<in> set es. compareId p (p_id e) < 0))"
proof (induction es arbitrary: previous seen)
  case Nil
  then show ?case by (simp add: strictly_sorted_ids_def)
next
  case (Cons e es)
  have step: "inspect_step (previous, seen) e = Inr st \<longleftrightarrow>
      (\<forall>p. previous = Some p \<longrightarrow> compareId p (p_id e) < 0) \<and> st = (Some (p_id e), seen @ [e])" for st
    by (auto simp: inspect_step_def throwIf_Inr_iff not_le)
  from Cons.prems have rest: "foldE inspect_step (Some (p_id e), seen @ [e]) es = Inr (previous', out)"
    and e: "\<forall>p. previous = Some p \<longrightarrow> compareId p (p_id e) < 0"
    by (auto simp: bindE_Inr_iff step)
  from Cons.IH [OF rest] e show ?case by (auto simp: strictly_sorted_ids_def intro: compareId_less_trans)
qed

lemma inspect_text:
  assumes ok: "\<forall>e \<in> set es. participant_ok f e" and f: "validateFormula fv = Inr f"
  shows "inspectSnapshotFile (utf8_encode (canonical_text f es)) fv None (Some n) JUndefined = Inr s \<longleftrightarrow>
    strictly_sorted_ids es \<and> es \<noteq> [] \<and> int (length es) = n \<and> s = summary_of f es"
proof (cases "strictly_sorted_ids es")
  case True
  obtain previous where "for_entries f (utf8_encode (canonical_text f es)) inspect_step (None, []) = Inr (previous, es)"
    using for_entries_inspect [OF ok True] ..
  moreover have "es \<noteq> [] \<Longrightarrow> buildMerkleRoot (map hashSnapshotLeafLine (map (\<lambda>e. canonicalSnapshotLine e f) es))
      = Inr (merkle_root (map (\<lambda>e. canonicalSnapshotLine e f) es))"
    by (rule merkle_root_lines) simp
  ultimately show ?thesis
    using True by (auto simp: inspectSnapshotFile_def f Let_def check_committed_def throwIf_def summary_of_def canonical_text_def
        simp del: map_map)
next
  case False
  have "\<not> is_ok (for_entries f (utf8_encode (canonical_text f es)) inspect_step (None, []))"
    using False inspect_loop_D [of None "[]" es] by (auto simp: for_entries_canonical [OF ok] is_ok_iff)
  then show ?thesis
    using False by (auto simp: inspectSnapshotFile_def f is_ok_iff bindE_Inr_iff)
qed

section \<open>Participants with their orders\<close>

lemma ordered_objects_append:
  "ordered_objects n (ps @ qs) = ordered_objects n ps @ ordered_objects (n + length ps) qs"
  by (simp add: ordered_objects_def enumerate_append_eq)

lemma ordered_given: "raw \<in> set (ordered_objects n ps) \<Longrightarrow> order_given raw"
proof -
  assume "raw \<in> set (ordered_objects n ps)"
  then obtain i p where raw: "raw = JObject (partner_fields p @ [(js ''order'', JNumber (NInt (int i)))])"
    by (auto simp: ordered_objects_def ordered_object_def)
  have "prop_of (partner_fields p @ [(js ''order'', JNumber (NInt (int i)))]) ''order'' = JNumber (NInt (int i))"
    by (auto simp: prop_of_def partner_fields_def optional_number_def js_def split: option.splits)
  then show ?thesis by (simp add: raw order_given_def)
qed

abbreviation norm_entry :: "formula \<Rightarrow> jsval \<Rightarrow> participant result" where
  "norm_entry f raw \<equiv> normalizeSnapshotParticipant f (0, raw)"

lemma ordered_enum:
  "mapE (normalizeSnapshotParticipant f) (enumerate 0 (ordered_objects n ps)) = mapE (norm_entry f) (ordered_objects n ps)"
  by (rule mapE_enumerate) (use ordered_given order_given_index in blast)

lemma normalize_ordered:
  assumes "validateFormula fv = Inr f"
  shows "normalizeSnapshotParticipants (JArray (ordered_objects n ps)) fv = Inr es \<longleftrightarrow>
    ps \<noteq> [] \<and> (\<exists>es0. mapE (norm_entry f) (ordered_objects n ps) = Inr es0 \<and> es = sort_by_id es0
      \<and> check_duplicate_ids ''duplicate participant id'' es = Inr ())"
proof -
  have "ordered_objects n ps = [] \<longleftrightarrow> ps = []" by (simp add: ordered_objects_def flip: length_0_conv)
  then show ?thesis
    by (auto simp: normalizeSnapshotParticipants_def assms participant_array_def throwIf_def ordered_enum bindE_Inr_iff Let_def
        simp del: mapE.simps)
qed

lemma norm_entries_ok: "mapE (norm_entry f) raws = Inr es \<Longrightarrow> \<forall>e \<in> set es. participant_ok f e"
  by (auto simp: MAX_SAFE_INTEGER_def dest!: mapE_Inr_set normalizeSnapshotParticipant_ok)

section \<open>The file of unsorted lines\<close>

lemma unsorted_step_Inr_iff:
  assumes "validateFormula (JString fn) = Inr f"
  shows "unsorted_step fn (n, w) c = Inr st \<longleftrightarrow>
    (\<exists>es. normalizeSnapshotParticipants (JArray (ordered_objects n c)) (JString fn) = Inr es
      \<and> st = (n + length c, w @ concat (map (\<lambda>e. utf8_encode (canonicalSnapshotLine e f)) es)))"
  by (auto simp: unsorted_step_def assms bindE_Inr_iff)

lemma unsorted_loop:
  assumes "foldE (unsorted_step fn) (n, w) chunks = Inr (m, w')" and f: "validateFormula (JString fn) = Inr f"
  obtains es es0 where "w' = w @ unlines (map (line_bytes f) es)" and "mset es = mset es0"
    and "mapE (norm_entry f) (ordered_objects n (concat chunks)) = Inr es0"
  using assms(1)
proof (induction chunks arbitrary: n w thesis)
  case Nil
  then show ?case by (simp add: ordered_objects_def unlines_def)
next
  case (Cons c chunks)
  from Cons.prems(2) obtain ces where ces: "normalizeSnapshotParticipants (JArray (ordered_objects n c)) (JString fn) = Inr ces"
    and rest: "foldE (unsorted_step fn)
      (n + length c, w @ concat (map (\<lambda>e. utf8_encode (canonicalSnapshotLine e f)) ces)) chunks = Inr (m, w')"
    using that by (auto simp: bindE_Inr_iff unsorted_step_Inr_iff [OF f])
  from ces obtain ces0 where ces0: "mapE (norm_entry f) (ordered_objects n c) = Inr ces0" and srt: "ces = sort_by_id ces0"
    by (auto simp: normalize_ordered [OF f])
  have ok: "\<forall>e \<in> set ces. participant_ok f e" using norm_entries_ok [OF ces0] by (simp add: srt sort_by_id_def)
  from Cons.IH [OF _ rest] obtain es es0 where
    es: "w' = (w @ concat (map (\<lambda>e. utf8_encode (canonicalSnapshotLine e f)) ces)) @ unlines (map (line_bytes f) es)"
      "mset es = mset es0" "mapE (norm_entry f) (ordered_objects (n + length c) (concat chunks)) = Inr es0" by blast
  have "w' = w @ unlines (map (line_bytes f) (ces @ es))"
    using es(1) utf8_lines [OF ok] by (simp add: unlines_def)
  moreover have "mset (ces @ es) = mset (ces0 @ es0)" using es(2) by (simp add: srt sort_by_id_def)
  moreover have "mapE (norm_entry f) (ordered_objects n (concat (c # chunks))) = Inr (ces0 @ es0)"
    using ces0 es(3) by (simp add: ordered_objects_append mapE_append)
  ultimately show ?case by (rule Cons.prems(1))
qed

lemma sorted_by_id:
  assumes "strictly_sorted_ids es'" and "mset es' = mset es"
  shows "sort_by_id es = es'"
proof -
  have "sorted_wrt ids.le es'"
    using assms(1) unfolding strictly_sorted_ids_def
    by (rule sorted_wrt_mono_rel [rotated]) (simp add: ids.le_def)
  then have "sort_by_id es' = es'" unfolding sort_by_id_def by (rule ids.js_sort_id)
  with sort_by_id_perm [of es' es] assms show ?thesis by simp
qed

lemma collected_value:
  assumes f: "validateFormula (JString fn) = Inr f" and es0: "mapE (norm_entry f) (ordered_objects 0 (concat chunks)) = Inr es0"
    and ne: "es0 \<noteq> []" and srt: "strictly_sorted_ids (sort_by_id es0)"
  shows "collected_snapshot fn chunks = Inr (summary_of f (sort_by_id es0), utf8_encode (canonical_text f (sort_by_id es0)))"
proof -
  have "length es0 = length (concat chunks)"
    using mapE_Inr_length [OF es0] by (simp add: ordered_objects_def)
  then have "concat chunks \<noteq> []" using ne by (metis length_0_conv)
  moreover have "check_duplicate_ids ''duplicate participant id'' (sort_by_id es0) = Inr ()"
    using strictly_sorted_distinct [OF srt] by (auto simp: check_duplicate_ids_iff distinct_conv_nth)
  ultimately have n: "normalizeSnapshotParticipants (JArray (ordered_objects 0 (concat chunks))) (JString fn) = Inr (sort_by_id es0)"
    using es0 by (simp add: normalize_ordered [OF f])
  have "sort_by_id es0 \<noteq> []" using ne by (metis sort_by_id_def length_js_sort length_0_conv)
  then have "buildSnapshotHash (JString fn) (JArray (ordered_objects 0 (concat chunks))) = Inr (summary_of f (sort_by_id es0))"
    using merkle_root_lines [of "map (\<lambda>e. canonicalSnapshotLine e f) (sort_by_id es0)"]
    by (simp add: buildSnapshotHash_def f n Let_def summary_of_def canonical_text_def del: map_map)
  then show ?thesis by (simp add: collected_snapshot_def summary_of_def Let_def)
qed

lemma sorted_snapshot_D:
  assumes "sorts_lines run_sort" and "sorted_snapshot run_sort fn chunks n = Inr r"
  obtains f es0 where "validateFormula (JString fn) = Inr f" and "mapE (norm_entry f) (ordered_objects 0 (concat chunks)) = Inr es0"
    and "es0 \<noteq> []" and "int (length es0) = n" and "strictly_sorted_ids (sort_by_id es0)"
    and "r = (summary_of f (sort_by_id es0), utf8_encode (canonical_text f (sort_by_id es0)))"
    and "sorted_wrt (\<lambda>a b. buffer_compare (line_bytes f a) (line_bytes f b) \<le> 0) (sort_by_id es0)"
proof -
  from assms(2) obtain m unsorted out s where loop: "foldE (unsorted_step fn) (0, []) chunks = Inr (m, unsorted)"
    and out: "run_sort unsorted = Some out"
    and insp: "inspectSnapshotFile out (JString fn) None (Some n) JUndefined = Inr s" and r: "r = (s, out)"
    by (auto simp: sorted_snapshot_def result_simps split: option.splits)
  from insp obtain f where f: "validateFormula (JString fn) = Inr f"
    by (auto simp: inspectSnapshotFile_def bindE_Inr_iff)
  from unsorted_loop [OF loop f] obtain es es0 where un: "unsorted = unlines (map (line_bytes f) es)"
    and perm: "mset es = mset es0" and es0: "mapE (norm_entry f) (ordered_objects 0 (concat chunks)) = Inr es0" by auto
  have ok: "\<forall>e \<in> set es. participant_ok f e"
    using norm_entries_ok [OF es0] mset_eq_setD [OF perm] by simp
  obtain es' where es': "mset es' = mset es" and content: "out = utf8_encode (canonical_text f es')"
    and lines: "sorted_wrt (\<lambda>a b. buffer_compare (line_bytes f a) (line_bytes f b) \<le> 0) es'"
    by (rule sorted_lines [OF assms(1) ok out [unfolded un]])
  have ok': "\<forall>e \<in> set es'. participant_ok f e" using ok mset_eq_setD [OF es'] by simp
  from insp have srt: "strictly_sorted_ids es'" and ne: "es' \<noteq> []" and len: "int (length es') = n" and s: "s = summary_of f es'"
    by (simp_all add: content inspect_text [OF ok' f])
  have "sort_by_id es0 = es'" using es' perm by (intro sorted_by_id [OF srt]) simp
  moreover have "es0 \<noteq> []" using ne es' perm by auto
  moreover have "int (length es0) = n" using len size_mset [of es'] size_mset [of es0] es' perm by simp
  ultimately show thesis using srt lines by (intro that [OF f es0]) (simp_all add: r s content)
qed

lemma sorted_is_collected:
  assumes "sorts_lines run_sort" and "sorted_snapshot run_sort fn chunks n = Inr r"
  shows "collected_snapshot fn chunks = Inr r \<and> int (length (concat chunks)) = n"
proof -
  obtain f es0 where f: "validateFormula (JString fn) = Inr f" and es0: "mapE (norm_entry f) (ordered_objects 0 (concat chunks)) = Inr es0"
    and "es0 \<noteq> []" and len: "int (length es0) = n" and "strictly_sorted_ids (sort_by_id es0)"
    and r: "r = (summary_of f (sort_by_id es0), utf8_encode (canonical_text f (sort_by_id es0)))"
    by (rule sorted_snapshot_D [OF assms])
  then have "collected_snapshot fn chunks = Inr r" using collected_value [OF f es0] by simp
  moreover have "length es0 = length (concat chunks)" using mapE_Inr_length [OF es0] by (simp add: ordered_objects_def)
  ultimately show ?thesis using len by simp
qed

section \<open>Identifiers that sort as their lines do\<close>

text \<open>A space, an exclamation mark and a quotation mark come before or at the quotation mark that ends an identifier.\<close>

definition sort_safe :: "jsstr \<Rightarrow> bool" where
  "sort_safe s \<longleftrightarrow> (\<forall>c \<in> set s. 35 \<le> c \<and> c \<le> 126)"

lemma json_body_Cons:
  "\<not> high_surrogate c \<Longrightarrow> json_body (c # s) = json_escape c @ json_body s"
  by (cases s) auto

lemma safe_char:
  assumes "35 \<le> c" and "c \<le> (126 :: 16 word)"
  shows "json_escape c = (if c = 92 then [92, 92] else [c])" and "\<not> high_surrogate c"
    and "unat (ucast c :: byte) = unat c" and "35 \<le> unat c"
proof -
  have r: "35 \<le> unat c" "unat c \<le> 126" using assms by (simp_all add: word_le_nat_alt)
  then show "unat (ucast c :: byte) = unat c" "35 \<le> unat c" by (simp_all add: unsigned_ucast_eq take_bit_nat_eq_self)
  show "\<not> high_surrogate c" using r by (simp add: high_surrogate_def word_le_nat_alt)
  moreover have "\<not> low_surrogate c" using r by (simp add: low_surrogate_def word_le_nat_alt)
  moreover have "c \<noteq> 34" "c \<noteq> 8" "c \<noteq> 9" "c \<noteq> 10" "c \<noteq> 12" "c \<noteq> 13" "\<not> c < 32" using r by (auto simp: word_less_nat_alt)
  ultimately show "json_escape c = (if c = 92 then [92, 92] else [c])" by (simp add: json_escape_def)
qed

lemma body_compare:
  assumes "sort_safe s" and "sort_safe t" and "s \<noteq> t"
  shows "buffer_compare (map ucast (json_body s) @ 34 # x) (map ucast (json_body t) @ 34 # y)
    = buffer_compare (ascii_bytes s) (ascii_bytes t)"
  using assms
proof (induction s arbitrary: t)
  case Nil
  then obtain d t' where t: "t = d # t'" by (cases t) auto
  with Nil have d: "35 \<le> d" "d \<le> 126" by (auto simp: sort_safe_def)
  have "(34 :: byte) < ucast d" using safe_char(3,4) [OF d] by (simp add: word_less_nat_alt)
  then show ?case using safe_char(1,2) [OF d] by (simp add: t json_body_Cons ascii_bytes_def)
next
  case (Cons c s)
  then have c: "35 \<le> c" "c \<le> 126" by (auto simp: sort_safe_def)
  show ?case
  proof (cases t)
    case Nil
    have "(34 :: byte) < ucast c" using safe_char(3,4) [OF c] by (simp add: word_less_nat_alt)
    then show ?thesis using safe_char(1,2) [OF c] by (auto simp: Nil json_body_Cons ascii_bytes_def)
  next
    case t: (Cons d t')
    with Cons.prems have d: "35 \<le> d" "d \<le> 126" by (auto simp: sort_safe_def)
    show ?thesis
    proof (cases "c = d")
      case True
      have "buffer_compare (map ucast (json_body s) @ 34 # x) (map ucast (json_body t') @ 34 # y)
          = buffer_compare (ascii_bytes s) (ascii_bytes t')"
        by (rule Cons.IH) (use Cons.prems True in \<open>auto simp: t sort_safe_def\<close>)
      then show ?thesis using safe_char(1,2) [OF c] True by (simp add: t json_body_Cons ascii_bytes_def)
    next
      case False
      have "(ucast c :: byte) \<noteq> ucast d"
        using safe_char(3) [OF c] safe_char(3) [OF d] False by (metis word_unat_eq_iff)
      then show ?thesis using safe_char(1,2) [OF c] safe_char(1,2) [OF d]
        by (simp add: t json_body_Cons ascii_bytes_def)
    qed
  qed
qed

lemma buffer_compare_prefix [simp]: "buffer_compare (p @ a) (p @ b) = buffer_compare a b"
  by (induction p) simp_all

lemma line_compare:
  assumes "sort_safe (p_id a)" and "sort_safe (p_id b)" and "p_id a \<noteq> p_id b"
  shows "buffer_compare (line_bytes f a) (line_bytes f b) = compareId (p_id a) (p_id b)"
proof -
  have "\<exists>rest. line_bytes f e = map ucast (123 # json_quote (js ''id'') @ [58, 34]) @ map ucast (json_body (p_id e)) @ 34 # rest" for e
    by (simp add: line_bytes_def stringify_object_def canonical_fields_def field_text_def json_quote_def)
  from this [of a] this [of b] show ?thesis
    using body_compare [OF assms] by (auto simp: compareId_def simp del: list.map map_append)
qed

lemma ordered_props:
  "prop_of (partner_fields p @ [(js ''order'', JNumber (NInt n))]) ''id'' = JString (pp_id p)"
  "prop_of (partner_fields p @ [(js ''order'', JNumber (NInt n))]) ''order'' = JNumber (NInt n)"
  by (auto simp: prop_of_def partner_fields_def optional_number_def js_def split: option.splits)

lemma norm_entry_id: "norm_entry f (ordered_object (i, p)) = Inr e \<Longrightarrow> p_id e = pp_id p \<and> p_order e = int i"
  by (auto simp: normalizeSnapshotParticipant_def ordered_object_def assertObject_def ordered_props result_simps
      split: if_splits)

lemma norm_entries_ids:
  assumes "mapE (norm_entry f) (ordered_objects n ps) = Inr es"
  shows "map p_id es = map pp_id ps"
proof (rule nth_equalityI)
  have len: "length es = length ps" using mapE_Inr_length [OF assms] by (simp add: ordered_objects_def)
  then show "length (map p_id es) = length (map pp_id ps)" by simp
  fix i assume "i < length (map p_id es)"
  with len mapE_Inr_nth [OF assms, of i] show "map p_id es ! i = map pp_id ps ! i"
    by (auto simp: ordered_objects_def nth_enumerate_eq dest: norm_entry_id)
qed

lemma unsorted_loop_ok:
  assumes f: "validateFormula (JString fn) = Inr f"
    and "mapE (norm_entry f) (ordered_objects n (concat chunks)) = Inr es0" and "distinct (map p_id es0)" and "[] \<notin> set chunks"
  shows "\<exists>m es. foldE (unsorted_step fn) (n, w) chunks = Inr (m, w @ unlines (map (line_bytes f) es)) \<and> mset es = mset es0"
  using assms(2-)
proof (induction chunks arbitrary: n w es0)
  case Nil
  then show ?case by (simp add: ordered_objects_def unlines_def)
next
  case (Cons c chunks)
  from Cons.prems(1) obtain ces rest where ces: "mapE (norm_entry f) (ordered_objects n c) = Inr ces"
    and rest: "mapE (norm_entry f) (ordered_objects (n + length c) (concat chunks)) = Inr rest" and es0: "es0 = ces @ rest"
    by (auto simp: ordered_objects_append mapE_append bindE_Inr_iff)
  have d: "distinct (map p_id (sort_by_id ces))" using Cons.prems(2) by (simp add: es0 sort_by_id_def)
  have ok: "\<forall>e \<in> set (sort_by_id ces). participant_ok f e" using norm_entries_ok [OF ces] by (simp add: sort_by_id_def)
  have "normalizeSnapshotParticipants (JArray (ordered_objects n c)) (JString fn) = Inr (sort_by_id ces)"
    using ces d Cons.prems(3) by (auto simp: normalize_ordered [OF f] check_duplicate_ids_iff distinct_conv_nth)
  then have step: "unsorted_step fn (n, w) c = Inr (n + length c, w @ unlines (map (line_bytes f) (sort_by_id ces)))"
    using utf8_lines [OF ok] by (simp add: unsorted_step_Inr_iff [OF f])
  have distinct_rest: "distinct (map p_id rest)" using Cons.prems(2) by (simp add: es0)
  have ne_rest: "[] \<notin> set chunks" using Cons.prems(3) by simp
  obtain m es where IH: "foldE (unsorted_step fn) (n + length c, w @ unlines (map (line_bytes f) (sort_by_id ces))) chunks
      = Inr (m, (w @ unlines (map (line_bytes f) (sort_by_id ces))) @ unlines (map (line_bytes f) es))" "mset es = mset rest"
    using Cons.IH [OF rest distinct_rest ne_rest] by blast
  then have "foldE (unsorted_step fn) (n, w) (c # chunks) = Inr (m, w @ unlines (map (line_bytes f) (sort_by_id ces @ es)))"
    by (simp add: step unlines_def)
  moreover have "mset (sort_by_id ces @ es) = mset es0" using IH(2) by (simp add: es0 sort_by_id_def)
  ultimately show ?case by blast
qed

lemma collected_D:
  assumes "collected_snapshot fn chunks = Inr r" and "length (concat chunks) < 4294967296"
  obtains f es0 where "validateFormula (JString fn) = Inr f" and "mapE (norm_entry f) (ordered_objects 0 (concat chunks)) = Inr es0"
    and "es0 \<noteq> []" and "strictly_sorted_ids (sort_by_id es0)"
    and "r = (summary_of f (sort_by_id es0), utf8_encode (canonical_text f (sort_by_id es0)))"
proof -
  from assms(1) obtain s where s: "buildSnapshotHash (JString fn) (JArray (ordered_objects 0 (concat chunks))) = Inr s"
    and r: "r = (s, utf8_encode (canonicalSnapshot s))"
    by (auto simp: collected_snapshot_def bindE_Inr_iff)
  have len: "array_length (JArray (ordered_objects 0 (concat chunks))) < 4294967296"
    using assms(2) by (simp add: array_length_def ordered_objects_def)
  obtain f es where f: "validateFormula (JString fn) = Inr f"
    and es: "normalizeSnapshotParticipants (JArray (ordered_objects 0 (concat chunks))) (JString fn) = Inr es"
    and "es \<noteq> []" "s = summary_of f es" "strictly_sorted_ids es"
    by (rule buildSnapshotHash_D [OF s len]) blast
  moreover from es obtain es0 where "mapE (norm_entry f) (ordered_objects 0 (concat chunks)) = Inr es0" "es = sort_by_id es0"
    by (auto simp: normalize_ordered [OF f])
  moreover have "es0 \<noteq> []" using calculation by (auto simp: sort_by_id_def)
  ultimately show thesis by (intro that) (simp_all add: r summary_of_def Let_def)
qed

lemma collected_is_sorted:
  assumes run: "sorts_lines run_sort" "\<forall>b. run_sort b \<noteq> None" and c: "collected_snapshot fn chunks = Inr r"
    and len: "length (concat chunks) < 4294967296" and ne: "[] \<notin> set chunks"
    and safe: "\<forall>p \<in> set (concat chunks). sort_safe (pp_id p)"
  shows "sorted_snapshot run_sort fn chunks (int (length (concat chunks))) = Inr r"
proof -
  obtain f es0 where f: "validateFormula (JString fn) = Inr f" and es0: "mapE (norm_entry f) (ordered_objects 0 (concat chunks)) = Inr es0"
    and ne0: "es0 \<noteq> []" and srt: "strictly_sorted_ids (sort_by_id es0)"
    and r: "r = (summary_of f (sort_by_id es0), utf8_encode (canonical_text f (sort_by_id es0)))"
    by (rule collected_D [OF c len])
  have d: "distinct (map p_id es0)" using strictly_sorted_distinct [OF srt] by (simp add: sort_by_id_def)
  obtain m es where loop: "foldE (unsorted_step fn) (0, []) chunks = Inr (m, unlines (map (line_bytes f) es))" and perm: "mset es = mset es0"
    using unsorted_loop_ok [OF f es0 d ne, of "[]"] by auto
  obtain out where out: "run_sort (unlines (map (line_bytes f) es)) = Some out" using run(2) by blast
  have ok: "\<forall>e \<in> set es. participant_ok f e" using norm_entries_ok [OF es0] mset_eq_setD [OF perm] by simp
  obtain es' where es': "mset es' = mset es" and content: "out = utf8_encode (canonical_text f es')"
    and lines: "sorted_wrt (\<lambda>a b. buffer_compare (line_bytes f a) (line_bytes f b) \<le> 0) es'"
    by (rule sorted_lines [OF run(1) ok out])
  have ok': "\<forall>e \<in> set es'. participant_ok f e" using ok mset_eq_setD [OF es'] by simp
  have "mset (map p_id es') = mset (map p_id es0)" using es' perm by simp
  then have d': "distinct (map p_id es')" using d by (metis mset_eq_imp_distinct_iff)
  have "p_id ` set es0 = pp_id ` set (concat chunks)" using norm_entries_ids [OF es0] by (metis set_map)
  then have safe': "\<forall>e \<in> set es'. sort_safe (p_id e)"
    using safe mset_eq_setD [OF es'] mset_eq_setD [OF perm] by (metis image_iff)
  have "strictly_sorted_ids es'"
    unfolding strictly_sorted_ids_def sorted_wrt_iff_nth_less
  proof (intro allI impI)
    fix i j assume ij: "i < j" "j < length es'"
    have "p_id (es' ! i) \<noteq> p_id (es' ! j)" using d' ij by (auto simp: distinct_conv_nth)
    moreover from ij lines have "buffer_compare (line_bytes f (es' ! i)) (line_bytes f (es' ! j)) \<le> 0"
      by (simp add: sorted_wrt_iff_nth_less)
    ultimately show "compareId (p_id (es' ! i)) (p_id (es' ! j)) < 0"
      using line_compare [of "es' ! i" "es' ! j" f] compareId_zero [of "p_id (es' ! i)" "p_id (es' ! j)"] safe' ok' ij
      by (force simp: participant_ok_def)
  qed
  moreover from this have eq: "sort_by_id es0 = es'" using es' perm by (intro sorted_by_id) simp_all
  moreover have len': "length es' = length (concat chunks)"
    using mapE_Inr_length [OF es0] size_mset [of es'] size_mset [of es0] es' perm by (simp add: ordered_objects_def)
  moreover have "es' \<noteq> []" using ne0 es' perm by auto
  ultimately have "inspectSnapshotFile out (JString fn) None (Some (int (length (concat chunks)))) JUndefined = Inr (summary_of f es')"
    by (simp add: content inspect_text [OF ok' f])
  then show ?thesis by (simp add: sorted_snapshot_def loop out r eq content)
qed

section \<open>The two modes\<close>

text \<open>C16: the snapshot of a large upload, written chunk by chunk and ordered by \<^verbatim>\<open>sort\<close>, is the snapshot that a small
  upload of the same chunks gets in memory: the same file, hash, count and root, and of all uploaded participants.
  Conversely what succeeds in memory succeeds through \<^verbatim>\<open>sort\<close>, if no identifier has a space, an exclamation mark or a
  quotation mark.\<close>

theorem snapshot_modes_agree:
  assumes "sorts_lines run_sort" and "length (concat chunks) < 4294967296"
  shows "(\<forall>r n. sorted_snapshot run_sort formula chunks n = Inr r \<longrightarrow>
        collected_snapshot formula chunks = Inr r \<and> n = int (length (concat chunks)))
    \<and> ((\<forall>b. run_sort b \<noteq> None) \<longrightarrow> [] \<notin> set chunks \<longrightarrow> (\<forall>p \<in> set (concat chunks). sort_safe (pp_id p)) \<longrightarrow>
        (\<forall>r. collected_snapshot formula chunks = Inr r \<longrightarrow>
          sorted_snapshot run_sort formula chunks (int (length (concat chunks))) = Inr r))"
  using sorted_is_collected [OF assms(1)] collected_is_sorted [OF assms(1) _ _ assms(2)] by blast

text \<open>The lines of a file in the order of their bytes, as \<^verbatim>\<open>LC_ALL=C sort\<close> returns them.\<close>

fun lines_of :: "buffer \<Rightarrow> buffer \<Rightarrow> buffer list" where
  "lines_of acc [] = (if acc = [] then [] else [rev acc])"
| "lines_of acc (b # bs) = (if b = 10 then rev acc # lines_of [] bs else lines_of (b # acc) bs)"

definition c_sort :: "buffer \<Rightarrow> buffer option" where
  "c_sort b = Some (unlines (js_sort buffer_compare (lines_of [] b)))"

lemma lines_of_line: "10 \<notin> set l \<Longrightarrow> lines_of acc (l @ 10 # rest) = (rev acc @ l) # lines_of [] rest"
  by (induction l arbitrary: acc) auto

lemma lines_of_unlines: "\<forall>l \<in> set ls. 10 \<notin> set l \<Longrightarrow> lines_of [] (unlines ls) = ls"
  by (induction ls) (simp_all add: unlines_def lines_of_line)

lemma c_sort_sorts: "sorts_lines c_sort"
  unfolding sorts_lines_def
proof (intro allI impI)
  fix ls out assume "\<forall>l \<in> set ls. (10 :: byte) \<notin> set l" and "c_sort (unlines ls) = Some out"
  then have "out = unlines (js_sort buffer_compare ls)" by (simp add: c_sort_def lines_of_unlines)
  moreover have "sorted_wrt (\<lambda>a b. buffer_compare a b \<le> 0) (js_sort buffer_compare ls)"
    using bytes.sorted_js_sort [of ls] by (simp add: bytes.le_def [abs_def])
  ultimately show "\<exists>ls'. out = unlines ls' \<and> mset ls' = mset ls \<and> sorted_wrt (\<lambda>a b. buffer_compare a b \<le> 0) ls'"
    by (intro exI [of _ "js_sort buffer_compare ls"]) simp
qed

definition chunk_sample :: "partner_participant list list" where
  "chunk_sample = [[\<lparr>pp_id = js ''zoe'', pp_weight = None, pp_score = None\<rparr>],
     [\<lparr>pp_id = js ''al'', pp_weight = None, pp_score = None\<rparr>]]"

lemma chunk_sample_collected: "\<exists>r. collected_snapshot (js ''first_n'') chunk_sample = Inr r"
proof -
  have f: "validateFormula (JString (js ''first_n'')) = Inr First_n" by code_simp
  have es: "mapE (norm_entry First_n) (ordered_objects 0 (concat chunk_sample)) =
      Inr [\<lparr>p_id = js ''zoe'', p_order = 0, p_weight = 1, p_score = 0\<rparr>, \<lparr>p_id = js ''al'', p_order = 1, p_weight = 1, p_score = 0\<rparr>]"
    by code_simp
  have "strictly_sorted_ids (sort_by_id
      [\<lparr>p_id = js ''zoe'', p_order = 0, p_weight = 1, p_score = 0\<rparr>, \<lparr>p_id = js ''al'', p_order = 1, p_weight = 1, p_score = 0\<rparr>])"
    by code_simp
  from collected_value [OF f es _ this] show ?thesis by simp
qed

lemma snapshot_modes_agree_witness:
  "\<exists>r. collected_snapshot (js ''first_n'') chunk_sample = Inr r
    \<and> sorted_snapshot c_sort (js ''first_n'') chunk_sample 2 = Inr r"
proof -
  obtain r where r: "collected_snapshot (js ''first_n'') chunk_sample = Inr r" using chunk_sample_collected ..
  have "length (concat chunk_sample) = 2" by (simp add: chunk_sample_def)
  moreover have "[] \<notin> set chunk_sample" "\<forall>p \<in> set (concat chunk_sample). sort_safe (pp_id p)" by code_simp+
  ultimately show ?thesis
    using snapshot_modes_agree [OF c_sort_sorts, of chunk_sample "js ''first_n''"] r by (auto simp: c_sort_def)
qed

text \<open>With a space in an identifier the lines are not in the order of the identifiers: of \<open>a\<close> and \<open>a b\<close> the second
  line is the smaller one.\<close>

definition spaced_sample :: "partner_participant list list" where
  "spaced_sample = [[\<lparr>pp_id = js ''a'', pp_weight = None, pp_score = None\<rparr>,
     \<lparr>pp_id = js ''a b'', pp_weight = None, pp_score = None\<rparr>]]"

lemma spaced_sample_fails:
  assumes "sorts_lines run_sort"
  shows "\<not> is_ok (sorted_snapshot run_sort (js ''first_n'') spaced_sample 2)"
proof
  let ?es = "[\<lparr>p_id = js ''a'', p_order = 0, p_weight = 1, p_score = 0\<rparr>, \<lparr>p_id = js ''a b'', p_order = 1, p_weight = 1, p_score = 0\<rparr>]"
  assume "is_ok (sorted_snapshot run_sort (js ''first_n'') spaced_sample 2)"
  then obtain r where r: "sorted_snapshot run_sort (js ''first_n'') spaced_sample 2 = Inr r" by (auto simp: is_ok_iff)
  obtain f es0 where f: "validateFormula (JString (js ''first_n'')) = Inr f"
    and es0: "mapE (norm_entry f) (ordered_objects 0 (concat spaced_sample)) = Inr es0"
    and lines: "sorted_wrt (\<lambda>a b. buffer_compare (line_bytes f a) (line_bytes f b) \<le> 0) (sort_by_id es0)"
    by (rule sorted_snapshot_D [OF assms r])
  have "validateFormula (JString (js ''first_n'')) = Inr First_n" by code_simp
  with f have f1: "f = First_n" by simp
  have "mapE (norm_entry First_n) (ordered_objects 0 (concat spaced_sample)) = Inr ?es" by code_simp
  with es0 have "es0 = ?es" by (simp add: f1)
  moreover have "sort_by_id ?es = ?es" by code_simp
  moreover have "\<not> buffer_compare (line_bytes First_n (?es ! 0)) (line_bytes First_n (?es ! 1)) \<le> 0"
    by (simp add: line_bytes_def stringify_object_def canonical_fields_def field_text_def json_quote_def js_def
        json_escape_def high_surrogate_def low_surrogate_def)
  ultimately show False using lines by (simp add: f1)
qed

end
