(* ===== verification/Partner_Safety.thy ===== *)
theory Partner_Safety
  imports Partner_Job Partner_Modes
begin

text \<open>
  An invariant of the reachable states of the partner server, kept session by session, and what it means: a session is
  drawn at most once, whatever the order of requests, failures and restarts, and what is drawn is the snapshot of the
  participants that were uploaded.
\<close>

section \<open>Uploads\<close>

text \<open>What the metadata of a session says of its chunk files.\<close>

definition upload_ok :: "session_dir \<Rightarrow> bool" where
  "upload_ok d \<longleftrightarrow>
     (let meta = sd_meta d in
      distinct (sm_chunk_indexes meta) \<and> sorted (sm_chunk_indexes meta)
      \<and> sm_chunks_received meta = length (sm_chunk_indexes meta)
      \<and> mset (map fst (sd_files d)) = mset (map snapshotChunkName (sm_chunk_indexes meta))
      \<and> sm_participant_count meta = int (sum_list (map (\<lambda>f. length (snd f)) (sd_files d)))
      \<and> (\<forall>f \<in> set (sd_files d). snd f \<noteq> []))"

section \<open>The invariant of one session\<close>

definition finalized_as :: "server_env \<Rightarrow> jsstr \<Rightarrow> session_dir \<Rightarrow> draw_call \<Rightarrow> bool" where
  "finalized_as env sessionId d c \<longleftrightarrow>
     finalizeSnapshotSession (se_thresholds env) (se_sort env) (se_canonicalPath env sessionId) (sd_files d)
       (sm_participant_count (sd_meta d)) (dc_formula c) (dc_winnersCount c) (dc_target c) = Inr (dc_finalized c)"

definition dir_ok :: "server_env \<Rightarrow> jsstr \<Rightarrow> session_dir \<Rightarrow> finalize_job option \<Rightarrow> draw_call list \<Rightarrow> bool" where
  "dir_ok env sessionId d job draws \<longleftrightarrow> upload_ok d
     \<and> (sm_status (sd_meta d) = S_open \<longrightarrow> job = None \<and> sm_stage (sd_meta d) = None)
     \<and> (sm_stage (sd_meta d) \<notin> {Some Committing, Some Settled} \<longrightarrow> draws = [])
     \<and> (\<forall>c \<in> set draws. finalized_as env sessionId d c)"

definition job_ok :: "server_env \<Rightarrow> jsstr \<Rightarrow> finalize_job \<Rightarrow> session_dir option \<Rightarrow> draw_call list \<Rightarrow> bool" where
  "job_ok env sessionId j dir draws \<longleftrightarrow> sm_status (jb_meta j) = S_finalizing
     \<and> (\<forall>d. dir = Some d \<longrightarrow> sd_meta d = jb_meta j
          \<and> (\<forall>fz. jb_finalized j = Some fz \<longrightarrow> session_finalized env sessionId j d = Inr fz))
     \<and> (if jb_drawing j then job_stage j = Some Committing else draws = [])"

definition session_ok ::
  "server_env \<Rightarrow> jsstr \<Rightarrow> bool \<Rightarrow> session_dir option \<Rightarrow> finalize_job option \<Rightarrow> draw_call list \<Rightarrow> bool" where
  "session_ok env sessionId issued dir job draws \<longleftrightarrow>
     (\<not> issued \<longrightarrow> dir = None \<and> job = None \<and> draws = []) \<and> length draws \<le> 1
     \<and> (\<forall>d. dir = Some d \<longrightarrow> dir_ok env sessionId d job draws)
     \<and> (\<forall>j. job = Some j \<longrightarrow> job_ok env sessionId j dir draws)"

definition draws_of :: "jsstr \<Rightarrow> server \<Rightarrow> draw_call list" where
  "draws_of sessionId s = filter (\<lambda>c. dc_session c = sessionId) (sv_draws s)"

abbreviation session_at :: "server_env \<Rightarrow> server \<Rightarrow> jsstr \<Rightarrow> bool" where
  "session_at env s i \<equiv> session_ok env i (i \<in> set (sv_issued s)) (sv_dirs s i) (sv_jobs s i) (draws_of i s)"

definition server_inv :: "server_env \<Rightarrow> server \<Rightarrow> bool" where
  "server_inv env s \<longleftrightarrow> (\<forall>i. session_at env s i)"

text \<open>A step about one session leaves the others as they are.\<close>

lemma server_inv_step:
  assumes "server_inv env s" and "session_at env s' sessionId"
    and "\<And>i. i \<noteq> sessionId \<Longrightarrow> (i \<in> set (sv_issued s')) = (i \<in> set (sv_issued s)) \<and> sv_dirs s' i = sv_dirs s i
      \<and> sv_jobs s' i = sv_jobs s i \<and> draws_of i s' = draws_of i s"
  shows "server_inv env s'"
  unfolding server_inv_def
proof
  fix i show "session_at env s' i"
    using assms by (cases "i = sessionId") (simp_all add: server_inv_def)
qed

lemma server_invD: "server_inv env s \<Longrightarrow> session_at env s i"
  by (simp add: server_inv_def)

lemmas local_defs = session_ok_def dir_ok_def job_ok_def

lemma draws_of_simps [simp]:
  "draws_of i (s\<lparr>sv_dirs := a\<rparr>) = draws_of i s" "draws_of i (s\<lparr>sv_jobs := b\<rparr>) = draws_of i s"
  "draws_of i (s\<lparr>sv_mirror := c\<rparr>) = draws_of i s" "draws_of i (s\<lparr>sv_index := e\<rparr>) = draws_of i s"
  "draws_of i (s\<lparr>sv_issued := f\<rparr>) = draws_of i s"
  by (simp_all add: draws_of_def)

section \<open>Failure, expiry, restart\<close>

lemma upload_ok_meta:
  "upload_ok d \<Longrightarrow> sm_chunk_indexes m = sm_chunk_indexes (sd_meta d) \<Longrightarrow>
    sm_chunks_received m = sm_chunks_received (sd_meta d) \<Longrightarrow>
    sm_participant_count m = sm_participant_count (sd_meta d) \<Longrightarrow> upload_ok (d\<lparr>sd_meta := m\<rparr>)"
  by (simp add: upload_ok_def Let_def)

lemma fail_job_inv:
  assumes "server_inv env s" and "sv_jobs s sessionId \<noteq> None"
  shows "server_inv env (fail_job sessionId s)"
proof (rule server_inv_step [OF assms(1)])
  have at: "session_at env s sessionId" using assms(1) by (rule server_invD)
  show "session_at env (fail_job sessionId s) sessionId"
  proof (cases "sv_dirs s sessionId")
    case None
    then show ?thesis
      using at by (simp add: fail_job_def put_job_def markSnapshotFinalizeFailed_def session_ok_def)
  next
    case (Some d)
    have "upload_ok (d\<lparr>sd_meta := (sd_meta d)\<lparr>sm_status := S_failed\<rparr>\<rparr>)"
      by (rule upload_ok_meta) (use at Some in \<open>simp_all add: session_ok_def dir_ok_def\<close>)
    then show ?thesis
      using at Some
      by (auto simp: fail_job_def put_job_def markSnapshotFinalizeFailed_def session_ok_def dir_ok_def finalized_as_def)
  qed
qed (simp_all add: fail_job_def put_job_def markSnapshotFinalizeFailed_def split: option.splits)

lemma session_ok_expired: "session_ok env i b dir job draws \<Longrightarrow> session_ok env i b None job draws"
  by (simp add: session_ok_def job_ok_def)

lemma cleanup_inv:
  assumes "server_inv env s"
  shows "server_inv env (cleanupExpiredSnapshotSessions env now s)"
  unfolding server_inv_def
proof
  fix i
  let ?s' = "cleanupExpiredSnapshotSessions env now s"
  have "sv_dirs ?s' i = sv_dirs s i \<or> sv_dirs ?s' i = None"
    by (simp add: cleanupExpiredSnapshotSessions_def split: option.splits)
  moreover have "sv_jobs ?s' = sv_jobs s" "sv_issued ?s' = sv_issued s" "draws_of i ?s' = draws_of i s"
    by (simp_all add: cleanupExpiredSnapshotSessions_def)
  ultimately show "session_at env ?s' i"
    using server_invD [OF assms, of i] session_ok_expired by metis
qed

lemma restart_inv: "server_inv env s \<Longrightarrow> server_inv env (s\<lparr>sv_jobs := (\<lambda>_. None)\<rparr>)"
  unfolding server_inv_def by (auto simp: session_ok_def dir_ok_def)

section \<open>Names of chunk files\<close>

lemma dec_value_zeros: "dec_value (replicate k 48 @ ds) = dec_value ds"
  by (induction k) (simp_all add: dec_value_def)

lemma snapshotChunkName_inject: "snapshotChunkName i = snapshotChunkName k \<longleftrightarrow> i = k"
proof
  assume "snapshotChunkName i = snapshotChunkName k"
  then have "replicate (6 - length (dec_digits i)) 48 @ dec_digits i = replicate (6 - length (dec_digits k)) 48 @ dec_digits k"
    by (simp add: snapshotChunkName_def)
  then have "dec_value (dec_digits i) = dec_value (dec_digits k)" by (metis dec_value_zeros)
  then show "i = k" by (simp add: dec_value_digits)
qed simp

section \<open>Requests\<close>

lemma create_inv:
  assumes "server_inv env s" and "sessionId \<notin> set (sv_issued s)"
  shows "server_inv env (createSnapshotSession env now sessionId key s)"
proof (rule server_inv_step [OF cleanup_inv [OF assms(1), of now], where sessionId = sessionId])
  have "session_at env s sessionId" using assms(1) by (rule server_invD)
  then have "sv_jobs s sessionId = None" "draws_of sessionId s = []" using assms(2) by (simp_all add: session_ok_def)
  then show "session_at env (createSnapshotSession env now sessionId key s) sessionId"
    by (simp add: createSnapshotSession_def cleanupExpiredSnapshotSessions_def Let_def session_ok_def dir_ok_def upload_ok_def)
qed (simp_all add: createSnapshotSession_def cleanupExpiredSnapshotSessions_def Let_def)

lemma init_inv:
  assumes "server_inv env s" and "sessionId \<notin> set (sv_issued s)"
  shows "server_inv env (snd (handlePartnerSnapshotInit env now sessionId key body s))"
  using assms create_inv by (simp add: handlePartnerSnapshotInit_def split: sum.split)

lemma with_chunk_ok:
  assumes "upload_ok d" and "i \<notin> set (sm_chunk_indexes (sd_meta d))" and "participants \<noteq> []"
  shows "upload_ok (with_chunk i participants d)"
proof -
  have m: "mset (map fst (sd_files d)) = mset (map snapshotChunkName (sm_chunk_indexes (sd_meta d)))"
    using assms(1) by (simp add: upload_ok_def Let_def)
  note names = mset_eq_setD [OF m]
  have "snapshotChunkName i \<notin> set (map fst (sd_files d))"
    unfolding names using assms(2) by (auto simp: snapshotChunkName_inject)
  then have "filter (\<lambda>f. fst f \<noteq> snapshotChunkName i) (sd_files d) = sd_files d"
    by (metis (mono_tags, lifting) filter_True image_eqI list.set_map)
  then show ?thesis using assms by (simp add: upload_ok_def with_chunk_def Let_def)
qed

lemma owned_session_D:
  "owned_session s sessionId key = Inr d \<Longrightarrow> sv_dirs s sessionId = Some d \<and> sm_partner_key (sd_meta d) = key"
  by (auto simp: owned_session_def snapshotSessionDir_def result_simps split: option.splits)

lemma checked_chunk_D:
  assumes "checked_chunk env now p body s = Inr (i, d, participants)"
  shows "sv_dirs s (cr_session_id body) = Some d \<and> sm_status (sd_meta d) = S_open
    \<and> i \<notin> set (sm_chunk_indexes (sd_meta d)) \<and> participants \<noteq> []"
  using assms
  by (auto simp: checked_chunk_def loadSnapshotSession_def result_simps split: js_number.splits jsval.splits
      dest!: owned_session_D dest: mapE_Inr_length)

lemma chunk_inv:
  assumes "server_inv env s"
  shows "server_inv env (snd (handlePartnerSnapshotChunk env now key body s))"
proof (cases "bindE (enabled_partner (se_partners env) key) (\<lambda>p. checked_chunk env now p body s)")
  case (Inl e)
  then show ?thesis using assms by (simp add: handlePartnerSnapshotChunk_def)
next
  case (Inr x)
  obtain i d participants where x: "x = (i, d, participants)" by (cases x)
  let ?sid = "cr_session_id body"
  from Inr obtain p where "checked_chunk env now p body s = Inr (i, d, participants)"
    by (auto simp: x bindE_Inr_iff)
  from checked_chunk_D [OF this] have d: "sv_dirs s ?sid = Some d" and st: "sm_status (sd_meta d) = S_open"
    and i: "i \<notin> set (sm_chunk_indexes (sd_meta d))" "participants \<noteq> []" by auto
  have ok: "dir_ok env ?sid d (sv_jobs s ?sid) (draws_of ?sid s)" and iss: "?sid \<in> set (sv_issued s)"
    using server_invD [OF assms, of ?sid] d by (auto simp: session_ok_def)
  then have "sv_jobs s ?sid = None" "draws_of ?sid s = []" "sm_stage (sd_meta d) = None" "upload_ok d"
    using st by (auto simp: dir_ok_def)
  then have "session_at env (s\<lparr>sv_dirs := (sv_dirs s)(?sid := Some (with_chunk i participants d))\<rparr>) ?sid"
    using with_chunk_ok [OF _ i] iss by (simp add: session_ok_def dir_ok_def) (simp add: with_chunk_def Let_def)
  with server_inv_step [OF assms this] show ?thesis
    by (simp add: handlePartnerSnapshotChunk_def Inr x Let_def)
qed

lemma checked_finalize_D:
  assumes "checked_finalize env configured p body s = Inr (sessionId, d, job)"
  shows "sv_dirs s sessionId = Some d \<and> jb_meta job = (sd_meta d)\<lparr>sm_status := S_finalizing, sm_stage := Some Building\<rparr>
    \<and> jb_finalized job = None \<and> \<not> jb_drawing job
    \<and> (sm_status (sd_meta d) = S_open \<or> sm_stage (sd_meta d) \<in> {Some Building, Some Publishing})"
  using assms
  by (auto simp: checked_finalize_def loadSnapshotSessionForFinalize_def result_simps Let_def retryable_stage_def
      RETRYABLE_STAGES_def dest!: owned_session_D split: if_splits option.splits)

lemma finalize_inv:
  assumes "server_inv env s"
  shows "server_inv env (snd (handlePartnerSnapshotFinalize env configured key body s))"
proof (cases "bindE (enabled_partner (se_partners env) key) (\<lambda>p. checked_finalize env configured p body s)")
  case (Inl e)
  then show ?thesis using assms by (simp add: handlePartnerSnapshotFinalize_def)
next
  case (Inr x)
  obtain sid d job where x: "x = (sid, d, job)" by (cases x)
  from Inr obtain p where "checked_finalize env configured p body s = Inr (sid, d, job)"
    by (auto simp: x bindE_Inr_iff)
  note D = checked_finalize_D [OF this]
  have ok: "dir_ok env sid d (sv_jobs s sid) (draws_of sid s)" and iss: "sid \<in> set (sv_issued s)"
    using server_invD [OF assms, of sid] D by (auto simp: session_ok_def)
  then have none: "draws_of sid s = []" and up: "upload_ok d" using D by (auto simp: dir_ok_def)
  have "upload_ok (d\<lparr>sd_meta := jb_meta job\<rparr>)" by (rule upload_ok_meta [OF up]) (use D in simp_all)
  then have "session_at env (s\<lparr>sv_dirs := (sv_dirs s)(sid := Some (d\<lparr>sd_meta := jb_meta job\<rparr>)),
      sv_jobs := (sv_jobs s)(sid := Some job)\<rparr>) sid"
    using D none iss by (simp add: session_ok_def dir_ok_def job_ok_def)
  with server_inv_step [OF assms this] show ?thesis
    by (simp add: handlePartnerSnapshotFinalize_def Inr x)
qed

section \<open>The job\<close>

text \<open>A job that has not begun to draw: its session has not been drawn.\<close>

lemma waiting_job:
  assumes "server_inv env s" and "sv_jobs s sessionId = Some j" and "\<not> jb_drawing j"
  shows "draws_of sessionId s = [] \<and> sm_status (jb_meta j) = S_finalizing
    \<and> (\<forall>d. sv_dirs s sessionId = Some d \<longrightarrow> sd_meta d = jb_meta j \<and> upload_ok d
        \<and> (\<forall>fz. jb_finalized j = Some fz \<longrightarrow> session_finalized env sessionId j d = Inr fz))"
  using server_invD [OF assms(1), of sessionId] assms(2,3) by (simp add: session_ok_def job_ok_def dir_ok_def)

lemma set_stage_inv:
  assumes inv: "server_inv env s" and j: "sv_jobs s sessionId = Some j" and w: "\<not> jb_drawing j"
    and same: "jb_meta j' = jb_meta j" "jb_formula j' = jb_formula j" "jb_winnersCount j' = jb_winnersCount j"
      "jb_target j' = jb_target j" "\<not> jb_drawing j'"
    and fz: "\<And>d fz. sv_dirs s sessionId = Some d \<Longrightarrow> jb_finalized j' = Some fz \<Longrightarrow> session_finalized env sessionId j d = Inr fz"
  shows "server_inv env (set_stage stage sessionId j' s)"
proof (cases "sv_dirs s sessionId")
  case None
  then show ?thesis using fail_job_inv [OF inv, of sessionId] j by (simp add: set_stage_def saveSnapshotSession_def Let_def)
next
  case (Some d)
  let ?meta = "(jb_meta j)\<lparr>sm_stage := Some stage\<rparr>"
  note W = waiting_job [OF inv j w]
  then have meta: "sd_meta d = jb_meta j" and up: "upload_ok d" using Some by auto
  have up': "upload_ok (d\<lparr>sd_meta := ?meta\<rparr>)" by (rule upload_ok_meta [OF up]) (simp_all add: meta)
  have iss: "sessionId \<in> set (sv_issued s)" using server_invD [OF inv, of sessionId] j by (auto simp: session_ok_def)
  have "session_finalized env sessionId (j'\<lparr>jb_meta := ?meta\<rparr>) (d\<lparr>sd_meta := ?meta\<rparr>) = session_finalized env sessionId j d"
    by (simp add: session_finalized_def same)
  then have "session_at env (set_stage stage sessionId j' s) sessionId"
    using W up' iss fz [OF Some] same(5) Some
    by (simp add: set_stage_def saveSnapshotSession_def put_job_def session_ok_def dir_ok_def job_ok_def same(1) Let_def)
  moreover have "sv_issued (set_stage stage sessionId j' s) = sv_issued s \<and> draws_of i (set_stage stage sessionId j' s) = draws_of i s
      \<and> (i \<noteq> sessionId \<longrightarrow> sv_dirs (set_stage stage sessionId j' s) i = sv_dirs s i
        \<and> sv_jobs (set_stage stage sessionId j' s) i = sv_jobs s i)" for i
    using Some by (simp add: set_stage_def saveSnapshotSession_def put_job_def Let_def)
  ultimately show ?thesis by (intro server_inv_step [OF inv]) auto
qed

lemma set_stage_jobs:
  "sv_dirs s sessionId \<noteq> None \<Longrightarrow> sv_jobs (set_stage stage sessionId j s) sessionId \<noteq> None"
  by (auto simp: set_stage_def saveSnapshotSession_def put_job_def Let_def)

lemma mirror_inv: "server_inv env s \<Longrightarrow> server_inv env (s\<lparr>sv_mirror := m\<rparr>)"
  by (simp add: server_inv_def)

lemma not_drawing:
  assumes "server_inv env s" and "sv_jobs s sessionId = Some j" and "job_stage j \<noteq> Some Committing"
  shows "\<not> jb_drawing j"
  using server_invD [OF assms(1), of sessionId] assms(2,3) by (auto simp: session_ok_def job_ok_def)

lemma build_inv:
  assumes inv: "server_inv env s" and j: "sv_jobs s sessionId = Some j" and st: "job_stage j = Some Building"
  shows "server_inv env (job_build env sessionId j s)"
proof -
  have w: "\<not> jb_drawing j" using not_drawing [OF inv j] st by simp
  have fail: "server_inv env (fail_job sessionId s)" using fail_job_inv [OF inv] j by simp
  show ?thesis
  proof (cases "sv_dirs s sessionId")
    case None
    then show ?thesis using fail by (simp add: job_build_def)
  next
    case (Some d)
    show ?thesis
    proof (cases "session_finalized env sessionId j d")
      case (Inl e)
      then show ?thesis using fail Some by (simp add: job_build_def)
    next
      case (Inr fz)
      let ?s = "set_stage Publishing sessionId (j\<lparr>jb_finalized := Some fz\<rparr>) s"
      have "server_inv env ?s" by (rule set_stage_inv [OF inv j w]) (use w Inr Some in auto)
      then show ?thesis
        using fail_job_inv [of env ?s sessionId] set_stage_jobs [of s sessionId] Some Inr
        by (auto simp: job_build_def Let_def mirror_inv split: option.split)
    qed
  qed
qed

lemma publish_inv:
  assumes inv: "server_inv env s" and j: "sv_jobs s sessionId = Some j" and st: "job_stage j = Some Publishing"
  shows "server_inv env (job_publish published worlds sessionId j s)"
proof -
  have w: "\<not> jb_drawing j" using not_drawing [OF inv j] st by simp
  have fail: "server_inv env (fail_job sessionId s)" using fail_job_inv [OF inv] j by simp
  have "server_inv env (set_stage Committing sessionId (j\<lparr>jb_uri := Some uri\<rparr>) s)" for uri
    by (rule set_stage_inv [OF inv j w]) (use w waiting_job [OF inv j w] in auto)
  then show ?thesis using fail by (simp add: job_publish_def split: option.split)
qed

lemma draw_inv:
  assumes inv: "server_inv env s" and j: "sv_jobs s sessionId = Some j" and st: "job_stage j = Some Committing"
    and w: "\<not> jb_drawing j"
  shows "server_inv env (job_draw sessionId j s)"
proof (cases "\<exists>fz uri. jb_finalized j = Some fz \<and> jb_uri j = Some uri")
  case True
  then obtain fz uri where fz: "jb_finalized j = Some fz" "jb_uri j = Some uri" by auto
  let ?c = "draw_call_of sessionId j fz uri"
  note W = waiting_job [OF inv j w]
  have "finalized_as env sessionId d ?c" if "sv_dirs s sessionId = Some d" for d
    using W that fz by (auto simp: finalized_as_def draw_call_of_def session_finalized_def)
  moreover have "draws_of sessionId (job_draw sessionId j s) = [?c]"
    using W fz by (simp add: job_draw_def put_job_def draws_of_def draw_call_of_def)
  ultimately have "session_at env (job_draw sessionId j s) sessionId"
    using server_invD [OF inv, of sessionId] j fz st W
    by (auto simp: job_draw_def put_job_def session_ok_def dir_ok_def job_ok_def job_stage_def session_finalized_def)
  then show ?thesis
    by (rule server_inv_step [OF inv]) (simp_all add: fz job_draw_def put_job_def draws_of_def draw_call_of_def)
next
  case False
  then have "job_draw sessionId j s = fail_job sessionId s" by (auto simp: job_draw_def split: option.split)
  then show ?thesis using fail_job_inv [OF inv] j by simp
qed

lemma settle_inv:
  assumes inv: "server_inv env s" and j: "sv_jobs s sessionId = Some j" and w: "jb_drawing j"
  shows "server_inv env (job_settle indexed signature outcomeIds sessionId j s)"
proof (cases "\<exists>fz uri d. jb_finalized j = Some fz \<and> jb_uri j = Some uri \<and> sv_dirs s sessionId = Some d")
  case True
  then obtain fz uri d where fz: "jb_finalized j = Some fz" "jb_uri j = Some uri" and d: "sv_dirs s sessionId = Some d" by auto
  let ?meta = "settled_meta j fz uri signature outcomeIds"
  have at: "session_at env s sessionId" by (rule server_invD [OF inv])
  then have meta: "sd_meta d = jb_meta j" and up: "upload_ok d" using d j by (auto simp: session_ok_def job_ok_def dir_ok_def)
  have up': "upload_ok (d\<lparr>sd_meta := m\<rparr>)" if "sm_chunk_indexes m = sm_chunk_indexes (jb_meta j)"
      "sm_chunks_received m = sm_chunks_received (jb_meta j)" "sm_participant_count m = sm_participant_count (jb_meta j)" for m
    by (rule upload_ok_meta [OF up]) (simp_all add: meta that)
  have "session_at env (job_settle indexed signature outcomeIds sessionId j s) sessionId"
    using at d j fz meta
    by (auto simp: job_settle_def saveSnapshotSession_def put_job_def session_ok_def dir_ok_def finalized_as_def
        settled_meta_def fail_job_def markSnapshotFinalizeFailed_def up')
  then show ?thesis
    by (rule server_inv_step [OF inv]) (simp_all add: fz d job_settle_def saveSnapshotSession_def put_job_def fail_job_def markSnapshotFinalizeFailed_def)
next
  case False
  then have "job_settle indexed signature outcomeIds sessionId j s = fail_job sessionId s"
    by (auto simp: job_settle_def saveSnapshotSession_def split: option.split)
  then show ?thesis using fail_job_inv [OF inv] j by simp
qed

section \<open>Reachable states\<close>

lemma server_step_inv: "server_step env s s' \<Longrightarrow> server_inv env s \<Longrightarrow> server_inv env s'"
  by (induction rule: server_step.induct)
     (simp_all add: init_inv chunk_inv finalize_inv build_inv publish_inv draw_inv settle_inv fail_job_inv cleanup_inv restart_inv)

lemma reach_inv: "server_reach env s \<Longrightarrow> server_inv env s"
proof (induction rule: server_reach.induct)
  case reach_start
  show ?case by (simp add: server_inv_def empty_server_def session_ok_def draws_of_def)
next
  case (reach_step s s')
  then show ?case by (blast intro: server_step_inv)
qed

end
