(* ===== verification/Partner_Claims.thy ===== *)
theory Partner_Claims
  imports Partner_Safety
begin

text \<open>
  The properties of the partner server: one draw for a session, of the participants that were uploaded, whose snapshot
  stays on the mirror.
\<close>

section \<open>One draw\<close>

lemma distinct_filter: "(\<And>x. length (filter (\<lambda>c. f c = x) xs) \<le> 1) \<Longrightarrow> distinct (map f xs)"
proof (induction xs)
  case (Cons c xs)
  have "filter (\<lambda>d. f d = f c) xs = []" using Cons.prems [of "f c"] by simp
  moreover have "length (filter (\<lambda>d. f d = x) xs) \<le> 1" for x using Cons.prems [of x] by (simp split: if_splits)
  ultimately show ?case using Cons.IH by (auto simp: filter_empty_conv)
qed simp

lemma reach_one_draw: "server_reach env s \<Longrightarrow> distinct (map dc_session (sv_draws s))"
  by (rule distinct_filter)
     (use server_invD [OF reach_inv] in \<open>auto simp: session_ok_def draws_of_def\<close>)

section \<open>The chunks of a session\<close>

lemma dec_digits_length: "0 < k \<Longrightarrow> length (dec_digits n) \<le> k \<longleftrightarrow> n < 10 ^ k"
proof (induction k arbitrary: n)
  case (Suc k)
  show ?case
  proof (cases "k = 0")
    case True
    have "length (dec_digits n) \<le> 1 \<longleftrightarrow> n < 10"
      using dec_digits_not_Nil [of "n div 10"] by (auto simp: dec_digits.simps [of n])
    then show ?thesis by (simp add: True)
  next
    case False
    show ?thesis
    proof (cases "n < 10")
      case True
      then have "n < 10 ^ Suc k" by (metis power_Suc one_le_numeral one_le_power mult_le_mono2 mult.right_neutral order_less_le_trans)
      with True show ?thesis by (simp add: dec_digits.simps [of n])
    next
      case big: False
      have "n < 10 * 10 ^ k \<longleftrightarrow> n div 10 < 10 ^ k" by (simp add: div_less_iff_less_mult mult.commute)
      then show ?thesis using Suc.IH [of "n div 10"] False big by (simp add: dec_digits.simps [of n])
    qed
  qed
qed simp

lemma chunk_number_name: "chunk_number (snapshotChunkName i) = (if i < 1000000 then Some i else None)"
proof -
  have six: "take 6 (js ''chunk_'' @ t) = js ''chunk_''" "drop 6 (js ''chunk_'' @ t) = t"
    "drop 12 (js ''chunk_'' @ t) = drop 6 t" for t by (simp_all add: js_def)
  show ?thesis
  proof (cases "i < 1000000")
    case True
    let ?ds = "replicate (6 - length (dec_digits i)) 48 @ dec_digits i"
    have "length (dec_digits i) \<le> 6" using True by (simp add: dec_digits_length)
    then have len: "length ?ds = 6" by simp
    have "list_all is_digit ?ds" using dec_digits_digits [of i] by (auto simp: list_all_iff is_digit_def)
    moreover have "nat (dec_value ?ds) = i" by (simp add: dec_value_zeros dec_value_digits)
    moreover have name: "snapshotChunkName i = js ''chunk_'' @ ?ds @ js ''.json''" by (simp add: snapshotChunkName_def)
    ultimately show ?thesis
      using True len unfolding chunk_number_def name six by (simp only: Let_def take_append drop_append) simp
  next
    case False
    then have "6 < length (dec_digits i)" using dec_digits_length [of 6 i] by simp
    then have len: "length (drop 12 (snapshotChunkName i)) \<noteq> 5" by (simp add: snapshotChunkName_def)
    have "drop 12 (snapshotChunkName i) \<noteq> js ''.json''"
    proof
      assume "drop 12 (snapshotChunkName i) = js ''.json''"
      then have "length (drop 12 (snapshotChunkName i)) = length (js ''.json'')" by (rule arg_cong)
      with len show False by simp
    qed
    then show ?thesis using False by (simp add: chunk_number_def Let_def)
  qed
qed

lemma mset_map_filter: "mset (List.map_filter g xs) = image_mset (\<lambda>x. the (g x)) (filter_mset (\<lambda>x. g x \<noteq> None) (mset xs))"
  by (simp add: List.map_filter_def comp_def)

lemma listed_indexes:
  assumes "upload_ok d"
  shows "listSnapshotChunkIndexes (sd_files d) = filter (\<lambda>i. i < 1000000) (sm_chunk_indexes (sd_meta d))"
  unfolding listSnapshotChunkIndexes_def
proof (rule properties_for_sort)
  let ?idx = "sm_chunk_indexes (sd_meta d)"
  have names: "mset (map fst (sd_files d)) = mset (map snapshotChunkName ?idx)" and srt: "sorted ?idx"
    using assms by (simp_all add: upload_ok_def Let_def)
  have "List.map_filter (\<lambda>f. chunk_number (fst f)) (sd_files d) = List.map_filter chunk_number (map fst (sd_files d))"
    by (simp add: List.map_filter_def filter_map comp_def)
  moreover have "mset (List.map_filter chunk_number (map fst (sd_files d))) = mset (List.map_filter chunk_number (map snapshotChunkName ?idx))"
    unfolding mset_map_filter names ..
  moreover have "List.map_filter chunk_number (map snapshotChunkName is) = filter (\<lambda>i. i < 1000000) is" for "is"
    by (induction "is") (simp_all add: List.map_filter_def chunk_number_name)
  ultimately show "mset (filter (\<lambda>i. i < 1000000) ?idx) = mset (List.map_filter (\<lambda>f. chunk_number (fst f)) (sd_files d))"
    by simp
  show "sorted (filter (\<lambda>i. i < 1000000) ?idx)" using srt by (rule sorted_filter [of "\<lambda>x. x", simplified])
qed

lemma map_of_keys:
  assumes "distinct (map fst xs)"
  shows "map (\<lambda>k. the (map_of xs k)) (map fst xs) = map snd xs"
proof -
  have "the (map_of xs (fst x)) = snd x" if "x \<in> set xs" for x
    using map_of_is_SomeI [OF assms, of "fst x" "snd x"] that by simp
  then show ?thesis by simp
qed

definition chunk_at :: "session_dir \<Rightarrow> nat \<Rightarrow> partner_participant list" where
  "chunk_at d i = the (map_of (sd_files d) (snapshotChunkName i))"

lemma chunk_names_distinct:
  assumes "upload_ok d"
  shows "distinct (map fst (sd_files d))"
proof -
  have "distinct (map snapshotChunkName (sm_chunk_indexes (sd_meta d)))"
    using assms by (auto simp: upload_ok_def Let_def distinct_map inj_on_def snapshotChunkName_inject)
  moreover have "mset (map fst (sd_files d)) = mset (map snapshotChunkName (sm_chunk_indexes (sd_meta d)))"
    using assms by (simp add: upload_ok_def Let_def)
  ultimately show ?thesis by (metis mset_eq_imp_distinct_iff)
qed

lemma chunks_are_files:
  assumes "upload_ok d"
  shows "mset (map (chunk_at d) (sm_chunk_indexes (sd_meta d))) = mset (map snd (sd_files d))"
proof -
  let ?g = "\<lambda>k. the (map_of (sd_files d) k)"
  have "mset (map snapshotChunkName (sm_chunk_indexes (sd_meta d))) = mset (map fst (sd_files d))"
    using assms by (simp add: upload_ok_def Let_def)
  then have "image_mset ?g (mset (map snapshotChunkName (sm_chunk_indexes (sd_meta d)))) = image_mset ?g (mset (map fst (sd_files d)))"
    by simp
  also have "\<dots> = mset (map snd (sd_files d))"
    using map_of_keys [OF chunk_names_distinct [OF assms]] by (metis mset_map)
  finally show ?thesis by (simp add: chunk_at_def [abs_def] image_mset.compositionality comp_def)
qed

lemma read_chunks:
  assumes "upload_ok d" and "set is \<subseteq> set (sm_chunk_indexes (sd_meta d))"
  shows "mapE (read_chunk (sd_files d)) is = Inr (map (chunk_at d) is)"
proof (rule mapE_ok)
  fix i assume "i \<in> set is"
  then have "snapshotChunkName i \<in> set (map snapshotChunkName (sm_chunk_indexes (sd_meta d)))" using assms(2) by auto
  moreover have "mset (map fst (sd_files d)) = mset (map snapshotChunkName (sm_chunk_indexes (sd_meta d)))"
    using assms(1) by (simp add: upload_ok_def Let_def)
  ultimately have "snapshotChunkName i \<in> fst ` set (sd_files d)" by (metis list.set_map mset_eq_setD)
  then have "map_of (sd_files d) (snapshotChunkName i) \<noteq> None" by (simp add: map_of_eq_None_iff)
  then show "read_chunk (sd_files d) i = Inr (chunk_at d i)" by (auto simp: read_chunk_def chunk_at_def)
qed

lemma contiguous_upt: "contiguous is \<longleftrightarrow> is = [0..<length is]"
  by (auto simp: contiguous_def list_all_iff list_eq_iff_nth_eq [of "is" "[0..<length is]"])

lemma chunk_sizes:
  assumes "upload_ok d"
  shows "sm_participant_count (sd_meta d)
    = int (sum_list (map length (map (chunk_at d) (sm_chunk_indexes (sd_meta d)))))"
proof -
  have "sum_list (map length xs) = sum_list (map length ys)" if "mset xs = mset ys" for xs ys :: "partner_participant list list"
    using that by (metis mset_map sum_mset_sum_list)
  from this [OF chunks_are_files [OF assms]] show ?thesis
    using assms by (simp add: upload_ok_def Let_def comp_def)
qed

section \<open>What is drawn\<close>

lemma finalized_D:
  assumes fin: "finalizeSnapshotSession th run_sort path (sd_files d) (sm_participant_count (sd_meta d)) formula winnersCount target = Inr fz"
    and up: "upload_ok d" and sorts: "sorts_lines run_sort"
  obtains k where "filter (\<lambda>i. i < 1000000) (sm_chunk_indexes (sd_meta d)) = [0..<k]"
    and "collected_snapshot formula (map (chunk_at d) [0..<k]) = Inr (fz_summary fz, fz_file fz)"
proof -
  let ?is = "filter (\<lambda>i. i < 1000000) (sm_chunk_indexes (sd_meta d))"
  from fin obtain mode chunks summary out where con: "contiguous ?is" and chunks: "mapE (read_chunk (sd_files d)) ?is = Inr chunks"
    and snap: "(if mode \<in> {Simple, Medium} then collected_snapshot formula chunks
                else sorted_snapshot run_sort formula chunks (sm_participant_count (sd_meta d))) = Inr (summary, out)"
    and fz: "fz_summary fz = summary" "fz_file fz = out"
    unfolding finalizeSnapshotSession_def Let_def listed_indexes [OF up]
    by (auto simp: throwIf_Inr_iff bindE_Inr_iff thrown_Inr_iff simp del: filter_eq_Cons_iff)
  have "collected_snapshot formula chunks = Inr (summary, out)"
    using snap sorted_is_collected [OF sorts] by (auto split: if_splits)
  moreover have "chunks = map (chunk_at d) ?is" using chunks read_chunks [OF up, of ?is] by simp
  moreover have "?is = [0..<length ?is]" using con contiguous_upt by blast
  ultimately show thesis using that [of "length ?is"] fz by metis
qed

lemma collected_count:
  assumes "collected_snapshot formula chunks = Inr r" and "length (concat chunks) < 4294967296"
  shows "snapshotCount (fst r) = length (concat chunks)"
proof -
  obtain f es0 where es0: "mapE (norm_entry f) (ordered_objects 0 (concat chunks)) = Inr es0"
    and r: "r = (summary_of f (sort_by_id es0), utf8_encode (canonical_text f (sort_by_id es0)))"
    by (rule collected_D [OF assms])
  then show ?thesis
    using mapE_Inr_length [OF es0] by (simp add: summary_of_def Let_def sort_by_id_def ordered_objects_def)
qed

text \<open>C12: in every state the server can reach, a session is drawn at most once, whatever requests, failures, expiries
  and restarts came in between.\<close>

theorem one_draw_per_session:
  assumes "server_reach env s"
  shows "distinct (map dc_session (sv_draws s))"
  using assms by (rule reach_one_draw)

text \<open>C13: the snapshot a session was drawn with is the one computed in memory from the chunks that were uploaded, in the
  order of their indexes; only chunks with an index of a million or more are missing, and without such chunks it has all
  the participants that were counted.\<close>

theorem drawn_snapshot_is_upload:
  assumes "server_reach env s" and "c \<in> set (sv_draws s)" and "sv_dirs s (dc_session c) = Some d"
    and "sorts_lines (se_sort env)" and "sm_participant_count (sd_meta d) < 4294967296"
  shows "\<exists>k. filter (\<lambda>i. i < 1000000) (sm_chunk_indexes (sd_meta d)) = [0..<k]
    \<and> collected_snapshot (dc_formula c) (map (chunk_at d) [0..<k]) = Inr (fz_summary (dc_finalized c), fz_file (dc_finalized c))
    \<and> ((\<forall>i \<in> set (sm_chunk_indexes (sd_meta d)). i < 1000000) \<longrightarrow>
        mset (map (chunk_at d) [0..<k]) = mset (map snd (sd_files d))
        \<and> int (snapshotCount (fz_summary (dc_finalized c))) = sm_participant_count (sd_meta d))"
proof -
  have "session_at env s (dc_session c)" using reach_inv [OF assms(1)] by (rule server_invD)
  then have "dir_ok env (dc_session c) d (sv_jobs s (dc_session c)) (draws_of (dc_session c) s)"
    using assms(3) by (simp add: session_ok_def)
  moreover have "c \<in> set (draws_of (dc_session c) s)" using assms(2) by (simp add: draws_of_def)
  ultimately have up: "upload_ok d" and fin: "finalized_as env (dc_session c) d c" by (auto simp: dir_ok_def)
  obtain k where k: "filter (\<lambda>i. i < 1000000) (sm_chunk_indexes (sd_meta d)) = [0..<k]"
    and coll: "collected_snapshot (dc_formula c) (map (chunk_at d) [0..<k]) = Inr (fz_summary (dc_finalized c), fz_file (dc_finalized c))"
    by (rule finalized_D [OF fin [unfolded finalized_as_def] up assms(4)])
  have all: "mset (map (chunk_at d) [0..<k]) = mset (map snd (sd_files d))
      \<and> int (snapshotCount (fz_summary (dc_finalized c))) = sm_participant_count (sd_meta d)"
    if small: "\<forall>i \<in> set (sm_chunk_indexes (sd_meta d)). i < 1000000"
  proof -
    have idx: "sm_chunk_indexes (sd_meta d) = [0..<k]" using k small by simp
    have len: "int (length (concat (map (chunk_at d) [0..<k]))) = sm_participant_count (sd_meta d)"
      using chunk_sizes [OF up] by (simp add: idx length_concat comp_def)
    then show ?thesis
      using chunks_are_files [OF up] collected_count [OF coll] assms(5) by (simp add: idx)
  qed
  show ?thesis using k coll all by blast
qed

end
