(* ===== verification/Partner_Live.thy ===== *)
theory Partner_Live
  imports Partner_Claims
begin

text \<open>
  The copies that the server keeps of what it has drawn, and the run of a finalized session to its end.
\<close>

section \<open>The mirror\<close>

definition mirrored :: "server \<Rightarrow> finalized_snapshot \<Rightarrow> bool" where
  "mirrored s fz \<longleftrightarrow> (\<exists>bytes. sv_mirror s (committed_hash fz) = Some bytes)"

definition mirror_ok :: "server \<Rightarrow> bool" where
  "mirror_ok s \<longleftrightarrow> (\<forall>hash bytes. sv_mirror s hash = Some bytes \<longrightarrow> to_hex (sha256 bytes) = hash)
     \<and> (\<forall>c \<in> set (sv_draws s). mirrored s (dc_finalized c))
     \<and> (\<forall>i j fz. sv_jobs s i = Some j \<longrightarrow> jb_finalized j = Some fz \<longrightarrow> mirrored s fz)"

lemma mirror_hash: "mirror_ok s \<Longrightarrow> sv_mirror s hash = Some bytes \<Longrightarrow> to_hex (sha256 bytes) = hash"
  by (simp add: mirror_ok_def)

lemma mirror_ok_change:
  assumes "mirror_ok s" and "sv_mirror s' = sv_mirror s" and "set (sv_draws s') \<subseteq> set (sv_draws s)"
    and "\<And>i j fz. sv_jobs s' i = Some j \<Longrightarrow> jb_finalized j = Some fz \<Longrightarrow> mirrored s fz"
  shows "mirror_ok s'"
  using assms by (auto simp: mirror_ok_def mirrored_def)

lemma fail_mirror: "mirror_ok s \<Longrightarrow> mirror_ok (fail_job sessionId s)"
  by (rule mirror_ok_change [of s])
     (auto simp: fail_job_def put_job_def markSnapshotFinalizeFailed_def mirror_ok_def split: option.splits if_splits)

lemma set_stage_mirror:
  assumes "mirror_ok s" and "\<And>fz. jb_finalized j = Some fz \<Longrightarrow> mirrored s fz"
  shows "mirror_ok (set_stage stage sessionId j s)"
proof (cases "sv_dirs s sessionId")
  case None
  then show ?thesis using fail_mirror [OF assms(1)] by (simp add: set_stage_def saveSnapshotSession_def Let_def)
next
  case (Some d)
  then show ?thesis
    by (intro mirror_ok_change [OF assms(1)])
       (use assms in \<open>auto simp: set_stage_def saveSnapshotSession_def put_job_def Let_def mirror_ok_def split: if_splits\<close>)
qed

lemma store_mirror:
  assumes "storeMirrorCopy hash bytes store = Some store'"
  shows "store' hash \<noteq> None" and "store h \<noteq> None \<Longrightarrow> store' h = store h"
    and "(\<forall>h b. store h = Some b \<longrightarrow> to_hex (sha256 b) = h) \<Longrightarrow> store' h = Some b \<Longrightarrow> to_hex (sha256 b) = h"
  using assms by (auto simp: storeMirrorCopy_def split: if_splits option.splits)

lemma build_mirror:
  assumes "mirror_ok s" and "sv_jobs s sessionId = Some j"
  shows "mirror_ok (job_build env sessionId j s)"
proof (cases "\<exists>d fz. sv_dirs s sessionId = Some d \<and> session_finalized env sessionId j d = Inr fz")
  case False
  then have "job_build env sessionId j s = fail_job sessionId s"
    by (auto simp: job_build_def split: option.split sum.split)
  then show ?thesis using fail_mirror [OF assms(1)] by simp
next
  case True
  then obtain d fz where d: "sv_dirs s sessionId = Some d" and fz: "session_finalized env sessionId j d = Inr fz" by auto
  let ?s = "set_stage Publishing sessionId (j\<lparr>jb_finalized := Some fz\<rparr>) s"
  have same: "sv_mirror ?s = sv_mirror s" "sv_draws ?s = sv_draws s" "i \<noteq> sessionId \<Longrightarrow> sv_jobs ?s i = sv_jobs s i"
    "sv_jobs ?s sessionId = Some x \<Longrightarrow> jb_finalized x = Some fz" for i x
    using d by (auto simp: set_stage_def saveSnapshotSession_def put_job_def Let_def)
  show ?thesis
  proof (cases "storeMirrorCopy (committed_hash fz) (fz_file fz) (sv_mirror s)")
    case None
    have "mirror_ok (fail_job sessionId ?s)"
      by (rule mirror_ok_change [OF assms(1)])
         (use same assms(1) in \<open>auto simp: fail_job_def put_job_def markSnapshotFinalizeFailed_def mirror_ok_def
           split: option.splits if_splits\<close>)
    then show ?thesis using None by (simp add: job_build_def d fz Let_def same(1))
  next
    case (Some store)
    have keep: "mirrored s x \<Longrightarrow> \<exists>b. store (committed_hash x) = Some b" for x
      using store_mirror(2) [OF Some, of "committed_hash x"] by (auto simp: mirrored_def)
    have new: "\<exists>b. store (committed_hash fz) = Some b" using store_mirror(1) [OF Some] by simp
    have "mirror_ok (?s\<lparr>sv_mirror := store\<rparr>)"
      unfolding mirror_ok_def mirrored_def
    proof (intro conjI allI ballI impI)
      fix h b assume "sv_mirror (?s\<lparr>sv_mirror := store\<rparr>) h = Some b"
      then have h: "store h = Some b" by simp
      have "\<forall>h b. sv_mirror s h = Some b \<longrightarrow> to_hex (sha256 b) = h" using assms(1) unfolding mirror_ok_def by blast
      then show "to_hex (sha256 b) = h" using h by (rule store_mirror(3) [OF Some])
    next
      fix c assume "c \<in> set (sv_draws (?s\<lparr>sv_mirror := store\<rparr>))"
      then show "\<exists>b. sv_mirror (?s\<lparr>sv_mirror := store\<rparr>) (committed_hash (dc_finalized c)) = Some b"
        using keep assms(1) same(2) by (simp add: mirror_ok_def)
    next
      fix i x y assume x: "sv_jobs (?s\<lparr>sv_mirror := store\<rparr>) i = Some x" "jb_finalized x = Some y"
      show "\<exists>b. sv_mirror (?s\<lparr>sv_mirror := store\<rparr>) (committed_hash y) = Some b"
      proof (cases "i = sessionId")
        case True
        then have "y = fz" using x same(4) [of x] by simp
        then show ?thesis using new by simp
      next
        case False
        then have "sv_jobs s i = Some x" using x(1) same(3) by simp
        then have "mirrored s y" using x(2) assms(1) by (auto simp: mirror_ok_def)
        then show ?thesis using keep by simp
      qed
    qed
    then show ?thesis using Some by (simp add: job_build_def d fz Let_def same(1))
  qed
qed

lemma job_mirror:
  assumes "mirror_ok s" and "sv_jobs s sessionId = Some j"
  shows "mirror_ok (job_publish published worlds sessionId j s)" and "mirror_ok (job_draw sessionId j s)"
    and "mirror_ok (job_settle indexed signature outcomeIds sessionId j s)"
proof -
  have fz: "mirrored s fz" if "jb_finalized j = Some fz" for fz using assms that by (auto simp: mirror_ok_def)
  have "mirror_ok (set_stage Committing sessionId (j\<lparr>jb_uri := Some uri\<rparr>) s)" for uri
    by (rule set_stage_mirror [OF assms(1)]) (simp add: fz)
  then show "mirror_ok (job_publish published worlds sessionId j s)"
    using fail_mirror [OF assms(1)] by (simp add: job_publish_def split: option.split)
  show "mirror_ok (job_draw sessionId j s)"
  proof (cases "jb_finalized j = None \<or> jb_uri j = None")
    case True
    then show ?thesis using fail_mirror [OF assms(1)] by (auto simp: job_draw_def split: option.split)
  next
    case False
    then show ?thesis
      using assms fz
      by (auto simp: job_draw_def put_job_def mirror_ok_def mirrored_def draw_call_of_def split: if_splits)
  qed
  have "mirror_ok (put_job sessionId None (s'\<lparr>sv_index := x\<rparr>))" if "saveSnapshotSession sessionId m s = Some s'" for s' m x
    by (rule mirror_ok_change [OF assms(1)])
       (use assms(1) that in \<open>auto simp: saveSnapshotSession_def put_job_def mirror_ok_def split: option.splits if_splits\<close>)
  moreover have "mirror_ok s'" if "saveSnapshotSession sessionId m s = Some s'" for s' m
    by (rule mirror_ok_change [OF assms(1)])
       (use assms(1) that in \<open>auto simp: saveSnapshotSession_def mirror_ok_def split: option.splits if_splits\<close>)
  ultimately show "mirror_ok (job_settle indexed signature outcomeIds sessionId j s)"
    using fail_mirror by (simp add: job_settle_def assms(1) split: option.split)
qed

lemma request_mirror:
  assumes "mirror_ok s"
  shows "mirror_ok (snd (handlePartnerSnapshotInit env now sessionId key body s))"
    and "mirror_ok (snd (handlePartnerSnapshotChunk env now key request s))"
    and "mirror_ok (snd (handlePartnerSnapshotFinalize env configured key value s))"
    and "mirror_ok (cleanupExpiredSnapshotSessions env now s)"
proof -
  show "mirror_ok (cleanupExpiredSnapshotSessions env now s)"
    by (rule mirror_ok_change [OF assms]) (use assms in \<open>auto simp: cleanupExpiredSnapshotSessions_def mirror_ok_def\<close>)
  show "mirror_ok (snd (handlePartnerSnapshotInit env now sessionId key body s))"
    by (rule mirror_ok_change [OF assms])
       (use assms in \<open>auto simp: handlePartnerSnapshotInit_def createSnapshotSession_def cleanupExpiredSnapshotSessions_def
          Let_def mirror_ok_def split: sum.splits\<close>)
  show "mirror_ok (snd (handlePartnerSnapshotChunk env now key request s))"
    by (rule mirror_ok_change [OF assms])
       (use assms in \<open>auto simp: handlePartnerSnapshotChunk_def Let_def mirror_ok_def split: sum.splits\<close>)
  show "mirror_ok (snd (handlePartnerSnapshotFinalize env configured key value s))"
  proof (rule mirror_ok_change [OF assms])
    fix i j fz
    assume "sv_jobs (snd (handlePartnerSnapshotFinalize env configured key value s)) i = Some j" and "jb_finalized j = Some fz"
    then show "mirrored s fz"
      using assms
      by (auto simp: handlePartnerSnapshotFinalize_def mirror_ok_def bindE_Inr_iff dest!: checked_finalize_D
          split: sum.splits if_splits)
  qed (simp_all add: handlePartnerSnapshotFinalize_def split: sum.split)
qed

lemma step_mirror: "server_step env s s' \<Longrightarrow> mirror_ok s \<Longrightarrow> mirror_ok s'"
proof (induction rule: server_step.induct)
  case (step_restart s)
  then show ?case by (auto simp: mirror_ok_def mirrored_def)
qed (simp_all add: request_mirror build_mirror job_mirror fail_mirror)

lemma reach_mirror: "server_reach env s \<Longrightarrow> mirror_ok s"
proof (induction rule: server_reach.induct)
  case reach_start
  show ?case by (simp add: mirror_ok_def empty_server_def)
next
  case (reach_step s s')
  then show ?case by (blast intro: step_mirror)
qed

section \<open>The run of a job\<close>

lemma collected_hash:
  assumes "collected_snapshot formula chunks = Inr r" and "length (concat chunks) < 4294967296"
  shows "snapshotHash (fst r) = sha256 (snd r)"
proof -
  obtain f es0 where es0: "mapE (norm_entry f) (ordered_objects 0 (concat chunks)) = Inr es0"
    and r: "r = (summary_of f (sort_by_id es0), utf8_encode (canonical_text f (sort_by_id es0)))"
    by (rule collected_D [OF assms])
  have "\<forall>e \<in> set (sort_by_id es0). participant_ok f e" using norm_entries_ok [OF es0] by (simp add: sort_by_id_def)
  from summary_hash [OF this] show ?thesis by (simp add: r summary_of_def Let_def)
qed

lemma finalized_hash:
  assumes fin: "session_finalized env sessionId j d = Inr fz" and meta: "sd_meta d = jb_meta j" and up: "upload_ok d"
    and sorts: "sorts_lines (se_sort env)" and small: "sm_participant_count (sd_meta d) < 4294967296"
  shows "to_hex (sha256 (fz_file fz)) = committed_hash fz"
proof -
  let ?idx = "sm_chunk_indexes (sd_meta d)"
  obtain k where k: "filter (\<lambda>i. i < 1000000) ?idx = [0..<k]"
    and coll: "collected_snapshot (jb_formula j) (map (chunk_at d) [0..<k]) = Inr (fz_summary fz, fz_file fz)"
    using finalized_D [OF fin [unfolded session_finalized_def meta [symmetric]] up sorts] by metis
  have "sum_list (map (\<lambda>i. length (chunk_at d i)) [0..<k]) \<le> sum_list (map (\<lambda>i. length (chunk_at d i)) ?idx)"
    unfolding k [symmetric] by (rule sum_list_filter_le_nat)
  then have "length (concat (map (chunk_at d) [0..<k])) < 4294967296"
    using small chunk_sizes [OF up] by (simp add: length_concat comp_def)
  from collected_hash [OF coll this] show ?thesis by (simp add: committed_hash_def)
qed

lemma build_result:
  assumes "sv_dirs s sessionId = Some d" and "session_finalized env sessionId j d = Inr fz"
    and "to_hex (sha256 (fz_file fz)) = committed_hash fz"
  shows "\<exists>store. job_build env sessionId j s = s\<lparr>
      sv_dirs := (sv_dirs s)(sessionId := Some (d\<lparr>sd_meta := (jb_meta j)\<lparr>sm_stage := Some Publishing\<rparr>\<rparr>)),
      sv_jobs := (sv_jobs s)(sessionId := Some (j\<lparr>jb_finalized := Some fz, jb_meta := (jb_meta j)\<lparr>sm_stage := Some Publishing\<rparr>\<rparr>)),
      sv_mirror := store\<rparr>"
  using assms
  by (auto simp: job_build_def set_stage_def saveSnapshotSession_def put_job_def storeMirrorCopy_def Let_def)

lemma publish_result:
  assumes "sv_dirs s sessionId = Some d" and "jb_finalized j = Some fz" and "read_back worlds uri (committed_hash fz)"
  shows "job_publish (Some uri) worlds sessionId j s = s\<lparr>
      sv_dirs := (sv_dirs s)(sessionId := Some (d\<lparr>sd_meta := (jb_meta j)\<lparr>sm_stage := Some Committing\<rparr>\<rparr>)),
      sv_jobs := (sv_jobs s)(sessionId := Some (j\<lparr>jb_uri := Some uri, jb_meta := (jb_meta j)\<lparr>sm_stage := Some Committing\<rparr>\<rparr>))\<rparr>"
  using assms by (simp add: job_publish_def set_stage_def saveSnapshotSession_def put_job_def Let_def)

text \<open>The states of a run without failures.\<close>

definition next_job :: "jsstr \<Rightarrow> (jsstr \<Rightarrow> finalize_job \<Rightarrow> server \<Rightarrow> server) \<Rightarrow> server \<Rightarrow> server" where
  "next_job sessionId f s = (case sv_jobs s sessionId of None \<Rightarrow> s | Some j \<Rightarrow> f sessionId j s)"

definition run_to_draw :: "server_env \<Rightarrow> jsstr \<Rightarrow> source_world list \<Rightarrow> jsstr \<Rightarrow> server \<Rightarrow> server" where
  "run_to_draw env uri worlds sessionId s =
     next_job sessionId job_draw (next_job sessionId (job_publish (Some uri) worlds) (next_job sessionId (job_build env) s))"

definition run_to_end :: "server_env \<Rightarrow> jsstr \<Rightarrow> source_world list \<Rightarrow> jsstr \<Rightarrow> jsstr list \<Rightarrow> jsstr \<Rightarrow> server \<Rightarrow> server" where
  "run_to_end env uri worlds signature outcomeIds sessionId s =
     next_job sessionId (job_settle True signature outcomeIds) (run_to_draw env uri worlds sessionId s)"

lemma run_states:
  assumes reach: "server_reach env s" and j: "sv_jobs s sessionId = Some j" and st: "job_stage j = Some Building"
    and d: "sv_dirs s sessionId = Some d" and fz: "session_finalized env sessionId j d = Inr fz"
    and sorts: "sorts_lines (se_sort env)" and small: "sm_participant_count (sd_meta d) < 4294967296"
    and readable: "read_back worlds uri (committed_hash fz)"
  shows "server_reach env (run_to_draw env uri worlds sessionId s)"
    and "server_reach env (run_to_end env uri worlds signature outcomeIds sessionId s)"
    and "sv_draws (run_to_draw env uri worlds sessionId s) = draw_call_of sessionId j fz uri # sv_draws s"
    and "\<exists>d'. sv_dirs (run_to_draw env uri worlds sessionId s) sessionId = Some d' \<and> sd_files d' = sd_files d
      \<and> sm_chunk_indexes (sd_meta d') = sm_chunk_indexes (sd_meta d)
      \<and> sm_participant_count (sd_meta d') = sm_participant_count (sd_meta d)"
    and "sv_draws (run_to_end env uri worlds signature outcomeIds sessionId s) = draw_call_of sessionId j fz uri # sv_draws s"
    and "sv_dirs (run_to_end env uri worlds signature outcomeIds sessionId s) sessionId
      = Some (d\<lparr>sd_meta := settled_meta j fz uri signature outcomeIds\<rparr>)"
    and "sv_index (run_to_end env uri worlds signature outcomeIds sessionId s) signature = Some sessionId"
proof -
  note inv = reach_inv [OF reach]
  have w: "\<not> jb_drawing j" using not_drawing [OF inv j] st by simp
  have meta: "sd_meta d = jb_meta j" and up: "upload_ok d" using waiting_job [OF inv j w] d by auto
  note hash = finalized_hash [OF fz meta up sorts small]
  let ?m = "\<lambda>x. (jb_meta j)\<lparr>sm_stage := Some x\<rparr>"
  let ?j1 = "j\<lparr>jb_finalized := Some fz, jb_meta := ?m Publishing\<rparr>"
  let ?j2 = "?j1\<lparr>jb_uri := Some uri, jb_meta := ?m Committing\<rparr>"
  obtain store where s1: "job_build env sessionId j s = s\<lparr>
      sv_dirs := (sv_dirs s)(sessionId := Some (d\<lparr>sd_meta := ?m Publishing\<rparr>)),
      sv_jobs := (sv_jobs s)(sessionId := Some ?j1), sv_mirror := store\<rparr>" (is "_ = ?s1")
    using build_result [OF d fz hash] by blast
  have r1: "server_reach env ?s1" using reach_step [OF reach step_build [OF j st]] by (simp add: s1)
  have s2: "job_publish (Some uri) worlds sessionId ?j1 ?s1 = ?s1\<lparr>
      sv_dirs := (sv_dirs ?s1)(sessionId := Some (d\<lparr>sd_meta := ?m Committing\<rparr>)),
      sv_jobs := (sv_jobs ?s1)(sessionId := Some ?j2)\<rparr>" (is "_ = ?s2")
    using publish_result [of ?s1 sessionId "d\<lparr>sd_meta := ?m Publishing\<rparr>" ?j1 fz worlds uri] readable by simp
  have r2: "server_reach env ?s2"
    using reach_step [OF r1 step_publish [of ?s1 sessionId ?j1 env "Some uri" worlds]] by (simp add: s2 job_stage_def)
  let ?s3 = "job_draw sessionId ?j2 ?s2"
  have r3: "server_reach env ?s3"
    using reach_step [OF r2 step_draw [of ?s2 sessionId ?j2 env]] w by (simp add: job_stage_def)
  have run3: "run_to_draw env uri worlds sessionId s = ?s3"
    by (simp add: run_to_draw_def next_job_def j s1 s2)
  show "server_reach env (run_to_draw env uri worlds sessionId s)" unfolding run3 by (rule r3)
  have j3: "sv_jobs ?s3 sessionId = Some (?j2\<lparr>jb_drawing := True\<rparr>)" by (simp add: job_draw_def put_job_def)
  have d3: "sv_dirs ?s3 sessionId = Some (d\<lparr>sd_meta := ?m Committing\<rparr>)" by (simp add: job_draw_def put_job_def)
  have draws3: "sv_draws ?s3 = draw_call_of sessionId j fz uri # sv_draws s"
    by (simp add: job_draw_def put_job_def draw_call_of_def)
  show "sv_draws (run_to_draw env uri worlds sessionId s) = draw_call_of sessionId j fz uri # sv_draws s"
    unfolding run3 by (rule draws3)
  show "\<exists>d'. sv_dirs (run_to_draw env uri worlds sessionId s) sessionId = Some d' \<and> sd_files d' = sd_files d
      \<and> sm_chunk_indexes (sd_meta d') = sm_chunk_indexes (sd_meta d)
      \<and> sm_participant_count (sd_meta d') = sm_participant_count (sd_meta d)"
    unfolding run3 d3 by (simp add: meta)
  let ?s4 = "job_settle True signature outcomeIds sessionId (?j2\<lparr>jb_drawing := True\<rparr>) ?s3"
  have run4: "run_to_end env uri worlds signature outcomeIds sessionId s = ?s4"
    unfolding run_to_end_def run3 next_job_def j3 by simp
  have "server_reach env ?s4" by (rule reach_step [OF r3 step_settle [OF j3]]) simp
  then show "server_reach env (run_to_end env uri worlds signature outcomeIds sessionId s)" by (simp add: run4)
  have s4: "?s4 = put_job sessionId None (?s3\<lparr>
      sv_dirs := (sv_dirs ?s3)(sessionId := Some (d\<lparr>sd_meta := settled_meta (?j2\<lparr>jb_drawing := True\<rparr>) fz uri signature outcomeIds\<rparr>)),
      sv_index := (sv_index ?s3)(signature := Some sessionId)\<rparr>)"
    unfolding job_settle_def saveSnapshotSession_def d3 by simp
  show "sv_draws (run_to_end env uri worlds signature outcomeIds sessionId s) = draw_call_of sessionId j fz uri # sv_draws s"
    unfolding run4 s4 by (simp add: put_job_def job_draw_def draw_call_of_def)
  show "sv_dirs (run_to_end env uri worlds signature outcomeIds sessionId s) sessionId
      = Some (d\<lparr>sd_meta := settled_meta j fz uri signature outcomeIds\<rparr>)"
    unfolding run4 s4 by (simp add: put_job_def settled_meta_def)
  show "sv_index (run_to_end env uri worlds signature outcomeIds sessionId s) signature = Some sessionId"
    unfolding run4 s4 by (simp add: put_job_def)
qed

text \<open>When the index cannot be written after the result was saved, the session is marked failed with the stage settled and with
  its result, so the draw can neither be repeated nor proved, and the cleanup deletes the directory in the end.\<close>

lemma unindexed_settlement:
  assumes "jb_finalized j = Some fz" and "jb_uri j = Some uri" and "sv_dirs s sessionId = Some d"
  shows "\<exists>d'. sv_dirs (job_settle False signature outcomeIds sessionId j s) sessionId = Some d' \<and> sm_status (sd_meta d') = S_failed
    \<and> sm_stage (sd_meta d') = Some Settled \<and> sm_result (sd_meta d') \<noteq> None"
  using assms
  by (simp add: job_settle_def saveSnapshotSession_def fail_job_def put_job_def markSnapshotFinalizeFailed_def settled_meta_def)

section \<open>The properties of a run\<close>

text \<open>What an accepted finalization leaves.\<close>

lemma accepted_finalize:
  assumes "handlePartnerSnapshotFinalize env configured key body s = (Inr sessionId, s')"
  obtains p d j where "enabled_partner (se_partners env) key = Inr p" and "owned_session s sessionId (pn_key p) = Inr d"
    and "sv_jobs s' sessionId = Some j" and "job_stage j = Some Building"
    and "jb_meta j = (sd_meta d)\<lparr>sm_status := S_finalizing, sm_stage := Some Building\<rparr>"
    and "sv_dirs s' sessionId = Some (d\<lparr>sd_meta := jb_meta j\<rparr>)" and "sv_draws s' = sv_draws s" and "sessionId \<noteq> []"
  using assms
  by (auto simp: handlePartnerSnapshotFinalize_def checked_finalize_def loadSnapshotSessionForFinalize_def result_simps Let_def
      job_stage_def split: sum.splits if_splits)

lemma run_status:
  assumes own: "owned_session s sessionId key = Inr d" and key: "requirePartnerApiKey (se_partners env) k = Inr p" "pn_key p = key"
    and dir: "sv_dirs e sessionId = Some d'" and meta: "sd_meta d' = settled_meta j fz uri signature outcomeIds"
    and same: "sm_partner_key (jb_meta j) = key" and named: "sessionId \<noteq> []"
  shows "handlePartnerSnapshotStatus env k sessionId e = Inr \<lparr>st_status = S_finalized, st_stage = Some Settled,
    st_participant_count = sm_participant_count (jb_meta j), st_chunks_received = sm_chunks_received (jb_meta j),
    st_result = Some \<lparr>sr_formula = jb_formula j, sr_winnersCount = jb_winnersCount j, sr_target = jb_target j,
      sr_summary = fz_summary fz, sr_uri = uri, sr_signature = signature, sr_outcomeIds = outcomeIds\<rparr>, st_retryable = None\<rparr>"
proof -
  have "is_uuid sessionId" using own by (simp add: owned_session_def snapshotSessionDir_def result_simps)
  then have "owned_session e sessionId key = Inr d'"
    using dir meta same by (simp add: owned_session_def snapshotSessionDir_def result_simps settled_meta_def)
  then show ?thesis
    using key meta named by (simp add: handlePartnerSnapshotStatus_def result_simps Let_def settled_meta_def)
qed

text \<open>C14: the run of an accepted finalization. Suppose that the snapshot can be built, from fewer than 2^32 participants and with
  a \<^verbatim>\<open>sort\<close> that orders lines, that it is published and can be read back within four attempts, that the draw returns, that every
  file can be written, and that nothing else happens on the server meanwhile: no other request, no expiry of the session, no
  restart. Then the state in which the job ends is reachable, the server has made one draw, of this snapshot, and the partner
  that asks for the status sees the session finalized with its result. A draw that throws, a failing write, an expiry or a
  restart leave it failed or gone instead.\<close>

theorem finalize_completes:
  assumes reach: "server_reach env s"
    and req: "handlePartnerSnapshotFinalize env configured key body s = (Inr sessionId, s')"
    and j: "sv_jobs s' sessionId = Some j" and d: "sv_dirs s' sessionId = Some d"
    and fz: "session_finalized env sessionId j d = Inr fz"
    and sorts: "sorts_lines (se_sort env)" and small: "sm_participant_count (sd_meta d) < 4294967296"
    and readable: "read_back worlds uri (committed_hash fz)"
  shows "let e = run_to_end env uri worlds signature outcomeIds sessionId s' in
    server_reach env e \<and> sv_draws e = draw_call_of sessionId j fz uri # sv_draws s \<and> sv_index e signature = Some sessionId
    \<and> handlePartnerSnapshotStatus env key sessionId e = Inr \<lparr>st_status = S_finalized, st_stage = Some Settled,
        st_participant_count = sm_participant_count (sd_meta d), st_chunks_received = sm_chunks_received (sd_meta d),
        st_result = Some \<lparr>sr_formula = jb_formula j, sr_winnersCount = jb_winnersCount j, sr_target = jb_target j,
          sr_summary = fz_summary fz, sr_uri = uri, sr_signature = signature, sr_outcomeIds = outcomeIds\<rparr>,
        st_retryable = None\<rparr>"
proof -
  let ?e = "run_to_end env uri worlds signature outcomeIds sessionId s'"
  obtain p d0 where p: "enabled_partner (se_partners env) key = Inr p" and own: "owned_session s sessionId (pn_key p) = Inr d0"
    and st: "job_stage j = Some Building" and jm: "jb_meta j = (sd_meta d0)\<lparr>sm_status := S_finalizing, sm_stage := Some Building\<rparr>"
    and d1: "sv_dirs s' sessionId = Some (d0\<lparr>sd_meta := jb_meta j\<rparr>)" and same: "sv_draws s' = sv_draws s" and named: "sessionId \<noteq> []"
    using accepted_finalize [OF req] j by (metis option.inject)
  have reach': "server_reach env s'" using reach_step [OF reach step_finalize [of env s configured key body]] req by simp
  note run = run_states [OF reach' j st d fz sorts small readable]
  have "requirePartnerApiKey (se_partners env) key = Inr p" using p by (auto simp: enabled_partner_def result_simps)
  moreover have "sm_partner_key (jb_meta j) = pn_key p" using owned_session_D [OF own] jm by simp
  ultimately have "handlePartnerSnapshotStatus env key sessionId ?e = Inr \<lparr>st_status = S_finalized, st_stage = Some Settled,
    st_participant_count = sm_participant_count (jb_meta j), st_chunks_received = sm_chunks_received (jb_meta j),
    st_result = Some \<lparr>sr_formula = jb_formula j, sr_winnersCount = jb_winnersCount j, sr_target = jb_target j,
      sr_summary = fz_summary fz, sr_uri = uri, sr_signature = signature, sr_outcomeIds = outcomeIds\<rparr>, st_retryable = None\<rparr>"
    using run_status [OF own _ refl run(6) _ _ named] by simp
  moreover have "sd_meta d = jb_meta j" using d d1 by auto
  ultimately show ?thesis unfolding Let_def using run(2,5,7) same by simp
qed

text \<open>The server keeps a copy of every snapshot it has drawn, under the hash that the draw commits to, and the copy has
  that hash.\<close>

theorem drawn_snapshot_kept:
  assumes "server_reach env s" and "c \<in> set (sv_draws s)"
  shows "\<exists>bytes. sv_mirror s (committed_hash (dc_finalized c)) = Some bytes
    \<and> to_hex (sha256 bytes) = committed_hash (dc_finalized c)"
proof -
  note m = reach_mirror [OF assms(1)]
  obtain bytes where b: "sv_mirror s (committed_hash (dc_finalized c)) = Some bytes"
    using m assms(2) unfolding mirror_ok_def mirrored_def by blast
  have "to_hex (sha256 bytes) = committed_hash (dc_finalized c)"
    by (rule mirror_hash [OF m b])
  with b show ?thesis by (intro exI conjI)
qed

end
