(* ===== verification/Partner_Proof.thy ===== *)
theory Partner_Proof
  imports Partner_Live
begin

text \<open>
  The proofs that \<^verbatim>\<open>web/server.mjs\<close> hands out for a drawn session: for an address, whether it took part, its leaf of the
  Merkle tree that the draw commits to, and whether it won. The hash of the leaf, URLs and file locations are left out
  of the reply.
\<close>

section \<open>The session of a signature\<close>

text \<open>\<^verbatim>\<open>/^[1-9A-HJ-NP-Za-km-z]{87,88}$/\<close>\<close>

definition validateSignature :: "jsstr \<Rightarrow> jsstr reply" where
  "validateSignature value =
     (let signature = js_trim value in
      throwIf (length signature \<notin> {87, 88} \<or> \<not> list_all base58_unit signature)
        (Http 400 ''signature must be a base58 transaction signature'') (Inr signature))"

definition signature_of :: "session_dir \<Rightarrow> jsstr option" where
  "signature_of d = map_option sr_signature (sm_result (sd_meta d))"

text \<open>Without an entry in the index, or without the directory it names, the directories are searched in the order
  in which \<^verbatim>\<open>readdirSync\<close> lists them, and the index is written again.\<close>

definition loadSnapshotSessionBySignature ::
  "server_env \<Rightarrow> int \<Rightarrow> jsstr list \<Rightarrow> jsstr \<Rightarrow> server \<Rightarrow> session_dir reply \<times> server" where
  "loadSnapshotSessionBySignature env now listing signature s =
     (case (case sv_index s signature of None \<Rightarrow> Inr None | Some sessionId \<Rightarrow> snapshotSessionDir s sessionId) of
        Inl e \<Rightarrow> (Inl e, s)
      | Inr (Some d) \<Rightarrow> (Inr d, s)
      | Inr None \<Rightarrow>
          let s' = cleanupExpiredSnapshotSessions env now s in
          case find (\<lambda>i. Option.bind (sv_dirs s' i) signature_of = Some signature) listing of
            None \<Rightarrow> (Inl (Http 404 ''snapshot draw proof not found''), s')
          | Some i \<Rightarrow> (case sv_dirs s' i of None \<Rightarrow> (Inl (Http 404 ''snapshot draw proof not found''), s')
                       | Some d \<Rightarrow> (Inr d, s'\<lparr>sv_index := (sv_index s')(signature := Some i)\<rparr>)))"

section \<open>The reply\<close>

record draw_proof =
  dp_signature :: jsstr
  dp_snapshotHash :: jsstr
  dp_snapshotCount :: nat
  dp_snapshotUri :: jsstr
  dp_merkleRoot :: jsstr
  dp_address :: jsstr
  dp_participant :: jsval
  dp_proof :: "proof_node list"
  dp_included :: bool
  dp_winner :: bool
  dp_outcomeIds :: "jsstr list"
  dp_formula :: jsstr
  dp_target :: "int option"

definition participant_shown :: "jsstr \<Rightarrow> participant \<Rightarrow> jsval" where
  "participant_shown formula e =
     JObject ([(js ''id'', JString (p_id e)), (js ''order'', JNumber (NInt (p_order e)))]
       @ (if p_weight e \<noteq> 1 then [(js ''weight'', JNumber (NInt (p_weight e)))] else [])
       @ (if formula = js ''weighted_random'' then [] else [(js ''score'', JString (dec_string (p_score e)))]))"

definition proof_of_session :: "server_env \<Rightarrow> jsstr \<Rightarrow> server \<Rightarrow> session_dir \<Rightarrow> draw_proof reply" where
  "proof_of_session env address s d =
     throwIf (sm_status (sd_meta d) \<noteq> S_finalized) (Http 409 ''snapshot draw proof is not finalized'')
    (case sm_result (sd_meta d) of None \<Rightarrow> bindE (validatePartnerFormula (se_shown env) JUndefined) (\<lambda>_. Inl (Thrown (Error ''ENOENT'')))
     | Some r \<Rightarrow>
         bindE (validatePartnerFormula (se_shown env) (JString (sr_formula r))) (\<lambda>formula.
         let summary = sr_summary r; hash = to_hex (snapshotHash summary) in
         case sv_mirror s hash of None \<Rightarrow> Inl (Thrown (Error ''ENOENT''))
         | Some bytes \<Rightarrow>
             bindE (thrown (buildSnapshotMerkleProofFromFile bytes (JString formula) (JString address) (Some hash)
                (Some (int (snapshotCount summary))) (JString (to_hex (merkleRootOf summary))))) (\<lambda>pf.
             Inr \<lparr>dp_signature = sr_signature r, dp_snapshotHash = to_hex (snapshotHash (fp_summary pf)),
                  dp_snapshotCount = snapshotCount (fp_summary pf), dp_snapshotUri = sr_uri r,
                  dp_merkleRoot = to_hex (merkleRootOf (fp_summary pf)), dp_address = address,
                  dp_participant = (case fp_participant pf of None \<Rightarrow> JNull | Some e \<Rightarrow> participant_shown formula e),
                  dp_proof = fp_proof pf, dp_included = (fp_participant pf \<noteq> None),
                  dp_winner = (fp_participant pf \<noteq> None \<and> address \<in> set (sr_outcomeIds r)),
                  dp_outcomeIds = sr_outcomeIds r, dp_formula = formula, dp_target = sr_target r\<rparr>)))"

definition handlePartnerDrawProof ::
  "server_env \<Rightarrow> int \<Rightarrow> jsstr list \<Rightarrow> jsstr \<Rightarrow> jsstr \<Rightarrow> server \<Rightarrow> draw_proof reply \<times> server" where
  "handlePartnerDrawProof env now listing address signature s =
     (case bindE (validateSnapshotProofAddress (se_shown env) (JString address)) (\<lambda>a.
           bindE (validateSignature signature) (\<lambda>sig. Inr (a, sig))) of
        Inl e \<Rightarrow> (Inl e, s)
      | Inr (a, sig) \<Rightarrow>
         (case loadSnapshotSessionBySignature env now listing sig s of
            (Inl e, s') \<Rightarrow> (Inl e, s')
          | (Inr d, s') \<Rightarrow> (proof_of_session env a s' d, s')))"

section \<open>Sessions that are finalized\<close>

text \<open>A finalized session has the result of its draw; a job that is drawing has its draw.\<close>

definition drawn_as :: "server \<Rightarrow> jsstr \<Rightarrow> jsstr \<Rightarrow> finalized_snapshot \<Rightarrow> bool" where
  "drawn_as s i formula fz \<longleftrightarrow> is_uuid i \<and> (\<exists>c \<in> set (sv_draws s). dc_session c = i \<and> dc_formula c = formula \<and> dc_finalized c = fz)"

lemma drawn_as_simps [simp]:
  "drawn_as (s\<lparr>sv_dirs := a\<rparr>) i f fz = drawn_as s i f fz" "drawn_as (s\<lparr>sv_jobs := b\<rparr>) i f fz = drawn_as s i f fz"
  "drawn_as (s\<lparr>sv_index := e\<rparr>) i f fz = drawn_as s i f fz"
  by (simp_all add: drawn_as_def)

lemma checked_finalize_job:
  "checked_finalize env configured p body s = Inr (i, d, job) \<Longrightarrow>
    is_uuid i \<and> sm_status (jb_meta job) = S_finalizing \<and> \<not> jb_drawing job"
  by (auto simp: checked_finalize_def loadSnapshotSessionForFinalize_def owned_session_def snapshotSessionDir_def result_simps Let_def)

definition results_ok :: "server \<Rightarrow> bool" where
  "results_ok s \<longleftrightarrow>
     (\<forall>i d. sv_dirs s i = Some d \<longrightarrow> sm_status (sd_meta d) = S_finalized \<longrightarrow>
        (\<exists>r fz. sm_result (sd_meta d) = Some r \<and> sr_summary r = fz_summary fz \<and> drawn_as s i (sr_formula r) fz))
     \<and> (\<forall>i j fz. sv_jobs s i = Some j \<longrightarrow> jb_drawing j \<longrightarrow> jb_finalized j = Some fz \<longrightarrow> drawn_as s i (jb_formula j) fz)
     \<and> (\<forall>i j. sv_jobs s i = Some j \<longrightarrow> sm_status (jb_meta j) = S_finalizing \<and> is_uuid i)"

lemma results_ok_change:
  assumes "results_ok s" and "set (sv_draws s) \<subseteq> set (sv_draws s')"
    and "\<And>i d. sv_dirs s' i = Some d \<Longrightarrow> sm_status (sd_meta d) = S_finalized \<Longrightarrow> sv_dirs s i = Some d
      \<or> (\<exists>r fz. sm_result (sd_meta d) = Some r \<and> sr_summary r = fz_summary fz \<and> drawn_as s' i (sr_formula r) fz)"
    and "\<And>i j fz. sv_jobs s' i = Some j \<Longrightarrow> jb_drawing j \<Longrightarrow> jb_finalized j = Some fz \<Longrightarrow>
      sv_jobs s i = Some j \<or> drawn_as s' i (jb_formula j) fz"
    and "\<And>i j. sv_jobs s' i = Some j \<Longrightarrow> sv_jobs s i = Some j \<or> sm_status (jb_meta j) = S_finalizing \<and> is_uuid i"
  shows "results_ok s'"
proof -
  have mono: "drawn_as s i f fz \<Longrightarrow> drawn_as s' i f fz" for i f fz using assms(2) by (auto simp: drawn_as_def)
  show ?thesis
    unfolding results_ok_def
  proof (intro conjI allI impI)
    fix i d assume "sv_dirs s' i = Some d" "sm_status (sd_meta d) = S_finalized"
    with assms(3) [OF this] assms(1) mono
    show "\<exists>r fz. sm_result (sd_meta d) = Some r \<and> sr_summary r = fz_summary fz \<and> drawn_as s' i (sr_formula r) fz"
      unfolding results_ok_def by metis
  next
    fix i j fz assume "sv_jobs s' i = Some j" "jb_drawing j" "jb_finalized j = Some fz"
    with assms(4) [OF this] assms(1) mono show "drawn_as s' i (jb_formula j) fz" unfolding results_ok_def by blast
  next
    fix i j assume "sv_jobs s' i = Some j"
    then have "sm_status (jb_meta j) = S_finalizing \<and> is_uuid i" using assms(5) assms(1) unfolding results_ok_def by blast
    then show "sm_status (jb_meta j) = S_finalizing" and "is_uuid i" by simp_all
  qed
qed

lemma fail_results: "results_ok s \<Longrightarrow> results_ok (fail_job sessionId s)"
  by (rule results_ok_change [of s])
     (auto simp: fail_job_def put_job_def markSnapshotFinalizeFailed_def split: option.splits if_splits)

lemma set_stage_results:
  assumes "results_ok s" and "sm_status (jb_meta j) = S_finalizing" and "\<not> jb_drawing j" and "is_uuid sessionId"
  shows "results_ok (set_stage stage sessionId j s)"
proof (cases "sv_dirs s sessionId")
  case None
  then show ?thesis using fail_results [OF assms(1)] by (simp add: set_stage_def saveSnapshotSession_def Let_def)
next
  case (Some d)
  then show ?thesis
    by (intro results_ok_change [OF assms(1)])
       (use assms(2-4) in \<open>auto simp: set_stage_def saveSnapshotSession_def put_job_def Let_def split: if_splits\<close>)
qed

lemma results_mirror: "results_ok s \<Longrightarrow> results_ok (s\<lparr>sv_mirror := store\<rparr>)"
  by (rule results_ok_change [of s]) auto

lemma job_results:
  assumes "results_ok s" and "sv_jobs s sessionId = Some j"
  shows "\<not> jb_drawing j \<Longrightarrow> results_ok (job_build env sessionId j s)"
    and "\<not> jb_drawing j \<Longrightarrow> results_ok (job_publish published worlds sessionId j s)"
    and "results_ok (job_draw sessionId j s)"
    and "jb_drawing j \<Longrightarrow> results_ok (job_settle indexed signature outcomeIds sessionId j s)"
proof -
  have st: "sm_status (jb_meta j) = S_finalizing" and u: "is_uuid sessionId" using assms unfolding results_ok_def by blast+
  note fail = fail_results [OF assms(1)]
  show "results_ok (job_build env sessionId j s)" if "\<not> jb_drawing j"
    unfolding job_build_def Let_def
    by (auto split: option.split sum.split intro!: fail fail_results results_mirror set_stage_results assms(1) simp: st u that)
  show "results_ok (job_publish published worlds sessionId j s)" if "\<not> jb_drawing j"
    unfolding job_publish_def by (auto split: option.split intro!: fail set_stage_results assms(1) simp: st u that)
  show "results_ok (job_draw sessionId j s)"
  proof (cases "jb_finalized j = None \<or> jb_uri j = None")
    case True
    then show ?thesis using fail by (auto simp: job_draw_def split: option.split)
  next
    case False
    then show ?thesis
      using assms(2) st u
      by (intro results_ok_change [OF assms(1)])
         (auto simp: job_draw_def put_job_def drawn_as_def draw_call_of_def split: if_splits)
  qed
  show "results_ok (job_settle indexed signature outcomeIds sessionId j s)" if "jb_drawing j"
  proof (cases "jb_finalized j = None \<or> jb_uri j = None \<or> sv_dirs s sessionId = None")
    case True
    then show ?thesis using fail by (auto simp: job_settle_def saveSnapshotSession_def split: option.split)
  next
    case False
    then obtain fz uri d where fz: "jb_finalized j = Some fz" "jb_uri j = Some uri" "sv_dirs s sessionId = Some d" by auto
    have "drawn_as s sessionId (jb_formula j) fz" using assms that fz(1) unfolding results_ok_def by blast
    then show ?thesis
      using fz by (intro results_ok_change [OF assms(1)])
        (auto simp: job_settle_def saveSnapshotSession_def put_job_def settled_meta_def fail_job_def markSnapshotFinalizeFailed_def
          split: if_splits intro: exI [of _ fz])
  qed
qed

lemma request_results:
  assumes "results_ok s"
  shows "results_ok (snd (handlePartnerSnapshotInit env now sessionId key body s))"
    and "results_ok (snd (handlePartnerSnapshotChunk env now key request s))"
    and "results_ok (snd (handlePartnerSnapshotFinalize env configured key value s))"
    and "results_ok (cleanupExpiredSnapshotSessions env now s)"
proof -
  show "results_ok (cleanupExpiredSnapshotSessions env now s)"
    by (rule results_ok_change [OF assms]) (auto simp: cleanupExpiredSnapshotSessions_def split: option.splits if_splits)
  show "results_ok (snd (handlePartnerSnapshotInit env now sessionId key body s))"
    by (rule results_ok_change [OF assms])
       (auto simp: handlePartnerSnapshotInit_def createSnapshotSession_def cleanupExpiredSnapshotSessions_def Let_def
          split: sum.splits option.splits if_splits)
  show "results_ok (snd (handlePartnerSnapshotChunk env now key request s))"
    by (rule results_ok_change [OF assms])
       (auto simp: handlePartnerSnapshotChunk_def with_chunk_def Let_def bindE_Inr_iff split: sum.splits if_splits dest!: checked_chunk_D)
  show "results_ok (snd (handlePartnerSnapshotFinalize env configured key value s))"
    by (rule results_ok_change [OF assms])
       (auto simp: handlePartnerSnapshotFinalize_def bindE_Inr_iff split: sum.splits if_splits
          dest!: checked_finalize_job)
qed

lemma step_results: "server_step env s s' \<Longrightarrow> server_inv env s \<Longrightarrow> results_ok s \<Longrightarrow> results_ok s'"
proof (induction rule: server_step.induct)
  case (step_restart s)
  then show ?case by (auto intro: results_ok_change [of s])
qed (simp_all add: request_results job_results fail_results not_drawing)

lemma reach_results: "server_reach env s \<Longrightarrow> results_ok s"
proof (induction rule: server_reach.induct)
  case reach_start
  show ?case by (simp add: results_ok_def empty_server_def)
next
  case (reach_step s s')
  then show ?case using reach_inv step_results by blast
qed

section \<open>What a draw commits to\<close>

lemma step_draws:
  "server_step env s s' \<Longrightarrow> sv_draws s' = sv_draws s \<or> (\<exists>i j fz uri. sv_draws s' = draw_call_of i j fz uri # sv_draws s)"
  by (induction rule: server_step.induct)
     (auto simp: handlePartnerSnapshotInit_def createSnapshotSession_def cleanupExpiredSnapshotSessions_def
        handlePartnerSnapshotChunk_def handlePartnerSnapshotFinalize_def job_build_def job_publish_def job_draw_def job_settle_def
        set_stage_def fail_job_def put_job_def markSnapshotFinalizeFailed_def saveSnapshotSession_def Let_def
        split: sum.splits option.splits)

lemma drawn_root:
  "server_reach env s \<Longrightarrow> c \<in> set (sv_draws s) \<Longrightarrow>
    prop_of (dc_config c) ''merkle_root'' = JString (to_hex (merkleRootOf (fz_summary (dc_finalized c))))"
proof (induction arbitrary: c rule: server_reach.induct)
  case reach_start
  then show ?case by (simp add: empty_server_def)
next
  case (reach_step s s')
  have "prop_of (dc_config (draw_call_of i j fz uri)) ''merkle_root'' = JString (to_hex (merkleRootOf (fz_summary fz)))"
    and "dc_finalized (draw_call_of i j fz uri) = fz" for i j fz uri
    by (simp_all add: draw_call_of_def buildPartnerSnapshotConfig_def prop_of_def optional_number_def js_def split: option.split)
  with step_draws [OF reach_step(2)] reach_step(3,4) show ?case by auto
qed

section \<open>Proofs\<close>

lemma last_index_distinct:
  assumes "distinct (map g es)" and "i < length es"
  shows "last_index (\<lambda>e. g e = g (es ! i)) es = Some i"
proof -
  have "filter (\<lambda>k. g (es ! k) = g (es ! i)) [0..<length es] = filter (\<lambda>k. k = i) [0..<length es]"
    by (rule filter_cong) (use assms in \<open>auto simp: distinct_conv_nth\<close>)
  also have "\<dots> = [i]" using assms(2) by (induction es rule: rev_induct) (auto simp: nth_append)
  finally show ?thesis by (simp add: last_index_def)
qed

lemma file_proof_of:
  assumes f: "validateFormula fv = Inr f" and ok: "\<forall>e \<in> set es. participant_ok f e" and srt: "strictly_sorted_ids es"
    and e: "e \<in> set es"
  defines "s \<equiv> summary_of f es"
  shows "\<exists>r. buildSnapshotMerkleProofFromFile (utf8_encode (canonical_text f es)) fv (JString (p_id e))
      (Some (to_hex (snapshotHash s))) (Some (int (snapshotCount s))) (JString (to_hex (merkleRootOf s))) = Inr r
    \<and> fp_participant r = Some e \<and> fp_summary r = s
    \<and> verifySnapshotMerkleProof (canonicalSnapshotLine e f) (fp_proof r) (Inl (merkleRootOf s)) = Inr True"
proof -
  obtain i where i: "i < length es" "es ! i = e" using e by (meson in_set_conv_nth)
  let ?lines = "map (\<lambda>e. canonicalSnapshotLine e f) es"
  obtain previous where read: "for_entries f (utf8_encode (canonical_text f es)) inspect_step (None, []) = Inr (previous, es)"
    using for_entries_inspect [OF ok srt] by blast
  have id: "validateOutcomeId (JString (p_id e)) = Inr (p_id e)"
    using ok e by (simp add: validateOutcomeId_Inr_iff participant_ok_def)
  have m: "i < length ?lines" using i by simp
  note b = merkle_builders(1) [OF m, unfolded leaf_hashes_def] merkle_builders(3) [OF m, unfolded leaf_hashes_def]
  have ne: "es \<noteq> []" using i by auto
  have root: "length (merkleRootOf s) = 32"
    using length_merkle_root [of ?lines] ne by (simp add: s_def summary_of_def Let_def)
  have last: "last_index (\<lambda>x. p_id x = p_id e) es = Some i"
    using last_index_distinct [OF strictly_sorted_distinct [OF srt] i(1)] i(2) by simp
  have s: "\<lparr>snapshotHash = sha256 (concat (map utf8_encode ?lines)), snapshotCount = length es,
      merkleRootOf = last (merkle_levels_from (map hashSnapshotLeafLine ?lines)) ! 0, canonicalSnapshot = concat ?lines\<rparr> = s"
    by (simp add: s_def summary_of_def Let_def merkle_root_def leaf_hashes_def canonical_text_def)
  have "buildSnapshotMerkleProofFromFile (utf8_encode (canonical_text f es)) fv (JString (p_id e))
      (Some (to_hex (snapshotHash s))) (Some (int (snapshotCount s))) (JString (to_hex (merkleRootOf s)))
    = Inr \<lparr>fp_summary = s, fp_participant = Some e, fp_proof = merkle_proof ?lines i\<rparr>"
    unfolding buildSnapshotMerkleProofFromFile_def f id read Let_def bindE.simps prod.case b(1) s check_committed_self [OF root] last
    using ne b(2) i(2) by (simp del: map_map)
  moreover have "verifySnapshotMerkleProof (?lines ! i) (merkle_proof ?lines i) (Inl (merkle_root ?lines)) = Inr True"
    by (rule honest_proof_verifies [OF m]) (use i in \<open>simp add: canonical_newline\<close>)
  ultimately show ?thesis using i by (simp add: s_def summary_of_def Let_def)
qed

lemma formula_again:
  assumes "validateFormula (JString fn) = Inr f"
  shows "validatePartnerFormula shown (JString fn) = Inr fn"
proof -
  have trims: "\<forall>x \<in> set PARTNER_DRAW_FORMULAS. js_trim x = x" by code_simp
  have fn: "fn \<in> set PARTNER_DRAW_FORMULAS"
    using assms by (auto simp: validateFormula_def PARTNER_DRAW_FORMULAS_def split: if_splits)
  with trims have "js_trim fn = fn" by blast
  with fn show ?thesis by (simp add: validatePartnerFormula_def or_empty_def)
qed

text \<open>The snapshot of a finalized session, as its normalised entries.\<close>

lemma finalized_entries:
  assumes reach: "server_reach env s" and d: "sv_dirs s i = Some d" and st: "sm_status (sd_meta d) = S_finalized"
    and sorts: "sorts_lines (se_sort env)" and small: "sm_participant_count (sd_meta d) < 4294967296"
    and plain: "\<forall>k \<in> set (sm_chunk_indexes (sd_meta d)). k < 1000000"
  obtains c r f es where "c \<in> set (sv_draws s)" and "dc_session c = i" and "sm_result (sd_meta d) = Some r"
    and "is_uuid i" and "sr_formula r = dc_formula c" and "sr_summary r = fz_summary (dc_finalized c)"
    and "validateFormula (JString (dc_formula c)) = Inr f" and "\<forall>e \<in> set es. participant_ok f e" and "strictly_sorted_ids es"
    and "fz_summary (dc_finalized c) = summary_of f es" and "fz_file (dc_finalized c) = utf8_encode (canonical_text f es)"
    and "p_id ` set es = pp_id ` set (concat (map snd (sd_files d)))"
proof -
  obtain r fz where r: "sm_result (sd_meta d) = Some r" "sr_summary r = fz_summary fz" "drawn_as s i (sr_formula r) fz"
    using reach_results [OF reach] d st unfolding results_ok_def by metis
  then obtain c where u: "is_uuid i" and c: "c \<in> set (sv_draws s)" "dc_session c = i" "dc_formula c = sr_formula r" "dc_finalized c = fz"
    unfolding drawn_as_def by blast
  have "session_at env s i" using reach_inv [OF reach] by (rule server_invD)
  then have "dir_ok env i d (sv_jobs s i) (draws_of i s)" using d by (simp add: session_ok_def)
  moreover have "c \<in> set (draws_of i s)" using c by (simp add: draws_of_def)
  ultimately have up: "upload_ok d" and fin: "finalized_as env i d c" by (auto simp: dir_ok_def)
  obtain k where k: "filter (\<lambda>x. x < 1000000) (sm_chunk_indexes (sd_meta d)) = [0..<k]"
    and coll: "collected_snapshot (dc_formula c) (map (chunk_at d) [0..<k]) = Inr (fz_summary fz, fz_file fz)"
    using finalized_D [OF fin [unfolded finalized_as_def] up sorts] c(4) by metis
  have idx: "sm_chunk_indexes (sd_meta d) = [0..<k]" using k plain by simp
  have len: "length (concat (map (chunk_at d) [0..<k])) < 4294967296"
    using chunk_sizes [OF up] small by (simp add: idx length_concat comp_def)
  obtain f es0 where f: "validateFormula (JString (dc_formula c)) = Inr f"
    and es0: "mapE (norm_entry f) (ordered_objects 0 (concat (map (chunk_at d) [0..<k]))) = Inr es0"
    and srt: "strictly_sorted_ids (sort_by_id es0)"
    and sum: "(fz_summary fz, fz_file fz) = (summary_of f (sort_by_id es0), utf8_encode (canonical_text f (sort_by_id es0)))"
    by (rule collected_D [OF coll len]) blast
  have "p_id ` set (sort_by_id es0) = set (map p_id es0)" by (simp add: sort_by_id_def)
  also have "\<dots> = pp_id ` set (concat (map (chunk_at d) [0..<k]))" by (simp add: norm_entries_ids [OF es0] del: set_concat)
  also have "set (concat (map (chunk_at d) [0..<k])) = set (concat (map snd (sd_files d)))"
    using mset_eq_setD [OF chunks_are_files [OF up]] by (simp add: idx)
  finally have ids: "p_id ` set (sort_by_id es0) = pp_id ` set (concat (map snd (sd_files d)))" .
  show thesis
    by (rule that [OF c(1,2) r(1) u _ _ f _ srt _ _ ids]) (use c r(2) sum norm_entries_ok [OF es0] in \<open>simp_all add: sort_by_id_def\<close>)
qed

text \<open>C15: every participant that was uploaded to a finalized session whose chunks all have indexes below a million can have
  its proof: the server finds the session by the signature of its draw, the reply says that the address took part, and
  its proof verifies the canonical line of the participant against the Merkle root that the draw commits to. Only
  another file with the hash of the snapshot, found in the place of the copy, could prevent this. The state is one the
  server reaches, the signature is one it accepts and finds in its index, the session counts fewer than \<open>2 ^ 32\<close>
  participants, \<^verbatim>\<open>sort\<close> orders lines, and the address is asked for in a form that names the participant. A chunk with an
  index of a million or more is accepted but not drawn in the simple and medium modes; for its participants the reply
  says that they did not take part.\<close>

theorem drawn_participant_proves:
  assumes reach: "server_reach env s" and sig: "validateSignature signature = Inr sig" and idx: "sv_index s sig = Some i"
    and d: "sv_dirs s i = Some d" and st: "sm_status (sd_meta d) = S_finalized"
    and sorts: "sorts_lines (se_sort env)" and small: "sm_participant_count (sd_meta d) < 4294967296"
    and plain: "\<forall>k \<in> set (sm_chunk_indexes (sd_meta d)). k < 1000000"
    and p: "p \<in> set (concat (map snd (sd_files d)))"
    and address: "validateSnapshotProofAddress (se_shown env) (JString address) = Inr (pp_id p)"
  shows "\<exists>c \<in> set (sv_draws s). dc_session c = i \<and>
    ((\<exists>r f e root. handlePartnerDrawProof env now listing address signature s = (Inr r, s) \<and> dp_included r
        \<and> validateFormula (JString (dc_formula c)) = Inr f \<and> p_id e = pp_id p
        \<and> dp_participant r = participant_shown (dc_formula c) e
        \<and> prop_of (dc_config c) ''merkle_root'' = JString (to_hex root) \<and> dp_merkleRoot r = to_hex root
        \<and> verifySnapshotMerkleProof (canonicalSnapshotLine e f) (dp_proof r) (Inl root) = Inr True)
     \<or> (\<exists>bytes. sv_mirror s (committed_hash (dc_finalized c)) = Some bytes
        \<and> bytes \<noteq> fz_file (dc_finalized c) \<and> sha256 bytes = sha256 (fz_file (dc_finalized c))))"
proof -
  obtain c r f es where c: "c \<in> set (sv_draws s)" "dc_session c = i" and r: "sm_result (sd_meta d) = Some r"
    and u: "is_uuid i" and rc: "sr_formula r = dc_formula c" "sr_summary r = fz_summary (dc_finalized c)"
    and f: "validateFormula (JString (dc_formula c)) = Inr f" and ok: "\<forall>e \<in> set es. participant_ok f e"
    and srt: "strictly_sorted_ids es" and sum: "fz_summary (dc_finalized c) = summary_of f es"
    and out: "fz_file (dc_finalized c) = utf8_encode (canonical_text f es)"
    and ids: "p_id ` set es = pp_id ` set (concat (map snd (sd_files d)))"
    by (rule finalized_entries [OF reach d st sorts small plain])
  have "pp_id p \<in> p_id ` set es" unfolding ids using p by (rule imageI)
  then obtain e where e: "e \<in> set es" "p_id e = pp_id p" by (auto simp: image_iff)
  have "mirrored s (dc_finalized c)" using reach_mirror [OF reach] c(1) by (simp add: mirror_ok_def)
  then obtain bytes where bytes: "sv_mirror s (committed_hash (dc_finalized c)) = Some bytes" by (auto simp: mirrored_def)
  have "to_hex (sha256 bytes) = committed_hash (dc_finalized c)" by (rule mirror_hash [OF reach_mirror [OF reach] bytes])
  moreover have "snapshotHash (fz_summary (dc_finalized c)) = sha256 (fz_file (dc_finalized c))"
    using summary_hash [OF ok] by (simp add: sum out summary_of_def Let_def)
  ultimately have same: "sha256 bytes = sha256 (fz_file (dc_finalized c))" by (simp add: committed_hash_def)
  show ?thesis
  proof (cases "bytes = fz_file (dc_finalized c)")
    case False
    with c bytes same show ?thesis by blast
  next
    case True
    obtain pf where pf: "buildSnapshotMerkleProofFromFile bytes (JString (dc_formula c)) (JString (pp_id p))
        (Some (committed_hash (dc_finalized c))) (Some (int (snapshotCount (summary_of f es))))
        (JString (to_hex (merkleRootOf (summary_of f es)))) = Inr pf"
      and part: "fp_participant pf = Some e" "fp_summary pf = summary_of f es"
      and ver: "verifySnapshotMerkleProof (canonicalSnapshotLine e f) (fp_proof pf) (Inl (merkleRootOf (summary_of f es))) = Inr True"
      using file_proof_of [OF f ok srt e(1)] by (auto simp: True out e(2) committed_hash_def sum)
    obtain reply where reply: "proof_of_session env (pp_id p) s d = Inr reply" "dp_included reply"
      "dp_participant reply = participant_shown (dc_formula c) e" "dp_proof reply = fp_proof pf"
      "dp_merkleRoot reply = to_hex (merkleRootOf (summary_of f es))"
      using pf part bytes unfolding committed_hash_def
      by (simp add: proof_of_session_def st r rc formula_again [OF f] sum Let_def)
    have "loadSnapshotSessionBySignature env now listing sig s = (Inr d, s)"
      by (simp add: loadSnapshotSessionBySignature_def idx snapshotSessionDir_def u d)
    then have "handlePartnerDrawProof env now listing address signature s = (Inr reply, s)"
      using reply(1) by (simp add: handlePartnerDrawProof_def address sig)
    with c reply(2-) f e ver drawn_root [OF reach c(1)] show ?thesis by (auto simp: sum)
  qed
qed

end
