(* ===== verification/Partner_Sample.thy ===== *)
theory Partner_Sample
  imports Partner_Proof
begin

text \<open>
  One session from its opening to its draw: two participants in two chunks, the formula \<open>first_n\<close>, a partner with one
  key, and a storage that publishes to a path of the local disk. The witnesses of the properties of the server.
\<close>

definition sample_partner :: partner where
  "sample_partner = \<lparr>pn_key = js ''k'', pn_draw_enabled = True\<rparr>"

definition sample_server_env :: server_env where
  "sample_server_env = \<lparr>se_partners = Some (\<lambda>k. if k = js ''k'' then Some sample_partner else None),
     se_thresholds = \<lparr>te_simpleMax = NInt 1000, te_mediumMax = NInt 10000, te_streamingMin = NInt 100000\<rparr>,
     se_ttl = 86400000, se_chunkMax = 5000, se_maxWinners = 10, se_shown = (\<lambda>_. []), se_sort = c_sort,
     se_canonicalPath = (\<lambda>i. js ''/snapshots/'' @ i)\<rparr>"

definition sample_session :: jsstr where
  "sample_session = js ''00000000-0000-4000-8000-00000000000a''"

definition sample_chunk :: "int \<Rightarrow> string \<Rightarrow> chunk_request" where
  "sample_chunk i name = \<lparr>cr_session_id = sample_session, cr_chunk_index = NInt i,
     cr_participants = JArray [JObject [(js ''id'', JString (js name))]]\<rparr>"

definition sample_finalize :: jsval where
  "sample_finalize = JObject [(js ''session_id'', JString sample_session), (js ''formula'', JString (js ''first_n''))]"

definition opened_server :: server where
  "opened_server = snd (handlePartnerSnapshotInit sample_server_env 1000 sample_session (js ''k'') (JObject []) empty_server)"

definition uploaded_server :: server where
  "uploaded_server = snd (handlePartnerSnapshotChunk sample_server_env 3000 (js ''k'') (sample_chunk 1 ''al'')
     (snd (handlePartnerSnapshotChunk sample_server_env 2000 (js ''k'') (sample_chunk 0 ''zoe'') opened_server)))"

definition finalizing_server :: server where
  "finalizing_server = snd (handlePartnerSnapshotFinalize sample_server_env (Inr ()) (js ''k'') sample_finalize uploaded_server)"

definition sample_meta :: "nat list \<Rightarrow> session_meta" where
  "sample_meta indexes = \<lparr>sm_partner_key = js ''k'', sm_created_at_ms = 1000, sm_chunks_received = length indexes,
     sm_participant_count = int (length indexes), sm_chunk_indexes = indexes, sm_status = S_open, sm_stage = None,
     sm_result = None\<rparr>"

definition sample_file :: "nat \<Rightarrow> string \<Rightarrow> jsstr \<times> partner_participant list" where
  "sample_file i name = (snapshotChunkName i, [\<lparr>pp_id = js name, pp_weight = None, pp_score = None\<rparr>])"

definition sample_state :: "session_dir \<Rightarrow> server" where
  "sample_state d = \<lparr>sv_dirs = (\<lambda>i. if i = sample_session then Some d else None), sv_mirror = (\<lambda>_. None),
     sv_index = (\<lambda>_. None), sv_jobs = (\<lambda>_. None), sv_draws = [], sv_issued = [sample_session]\<rparr>"

section \<open>The requests\<close>

lemma sample_enabled: "enabled_partner (se_partners sample_server_env) (js ''k'') = Inr sample_partner"
  by code_simp

lemma sample_uuid: "is_uuid sample_session" "sample_session \<noteq> []"
  by code_simp+

lemma sample_participant:
  "validateSnapshotChunkParticipant (\<lambda>_. []) (JObject [(js ''id'', JString (js ''zoe''))])
    = Inr \<lparr>pp_id = js ''zoe'', pp_weight = None, pp_score = None\<rparr>"
  "validateSnapshotChunkParticipant (\<lambda>_. []) (JObject [(js ''id'', JString (js ''al''))])
    = Inr \<lparr>pp_id = js ''al'', pp_weight = None, pp_score = None\<rparr>"
  by code_simp+

lemma opened_state: "opened_server = sample_state \<lparr>sd_meta = sample_meta [], sd_files = []\<rparr>"
proof -
  have "snapshotThresholds (se_thresholds sample_server_env) = Inr (1000, 10000, 100000)" by code_simp
  then show ?thesis
    by (simp add: opened_server_def handlePartnerSnapshotInit_def sample_enabled body_fields_def use_case_check_def
        createSnapshotSession_def cleanupExpiredSnapshotSessions_def empty_server_def Let_def sample_state_def sample_meta_def
        prop_of_def sample_partner_def fun_eq_iff)
qed

lemma chunk_state:
  assumes "validateSnapshotChunkParticipant (\<lambda>_. []) (JObject [(js ''id'', JString (js name))]) = Inr p"
    and "int i \<in> {0, 1}" and "i \<notin> set indexes" and "now \<le> 3000" and "\<forall>f \<in> set files. fst f \<noteq> snapshotChunkName i"
  shows "snd (handlePartnerSnapshotChunk sample_server_env now (js ''k'') (sample_chunk (int i) name)
      (sample_state \<lparr>sd_meta = sample_meta indexes, sd_files = files\<rparr>))
    = sample_state \<lparr>sd_meta = sample_meta (sort (indexes @ [i])), sd_files = (snapshotChunkName i, [p]) # files\<rparr>"
proof -
  let ?s = "sample_state \<lparr>sd_meta = sample_meta indexes, sd_files = files\<rparr>"
  have own: "owned_session ?s sample_session (js ''k'') = Inr \<lparr>sd_meta = sample_meta indexes, sd_files = files\<rparr>"
    by (simp add: owned_session_def snapshotSessionDir_def sample_uuid sample_state_def sample_meta_def)
  have "checked_chunk sample_server_env now sample_partner (sample_chunk (int i) name) ?s
      = Inr (i, \<lparr>sd_meta = sample_meta indexes, sd_files = files\<rparr>, [p])"
    using assms(1,3,4) own
    by (simp add: checked_chunk_def sample_chunk_def sample_uuid loadSnapshotSession_def sample_meta_def sample_server_env_def
        sample_partner_def)
  moreover have "filter (\<lambda>f. fst f \<noteq> snapshotChunkName i) files = files" using assms(5) by (simp add: filter_id_conv)
  ultimately show ?thesis
    by (simp add: handlePartnerSnapshotChunk_def sample_enabled with_chunk_def Let_def sample_state_def sample_meta_def
        sample_chunk_def fun_eq_iff)
qed

lemma uploaded_state: "uploaded_server = sample_state \<lparr>sd_meta = sample_meta [0, 1],
    sd_files = [sample_file 1 ''al'', sample_file 0 ''zoe'']\<rparr>"
  using chunk_state [OF sample_participant(1), of 0 "[]" 2000 "[]"]
    chunk_state [OF sample_participant(2), of 1 "[0]" 3000 "[sample_file 0 ''zoe'']"]
  by (simp add: uploaded_server_def opened_state sample_file_def snapshotChunkName_inject)

lemma finalizing_state:
  obtains j where "finalizing_server = (sample_state \<lparr>sd_meta = jb_meta j, sd_files = [sample_file 1 ''al'', sample_file 0 ''zoe'']\<rparr>)
      \<lparr>sv_jobs := (\<lambda>i. if i = sample_session then Some j else None)\<rparr>"
    and "handlePartnerSnapshotFinalize sample_server_env (Inr ()) (js ''k'') sample_finalize uploaded_server
      = (Inr sample_session, finalizing_server)"
    and "jb_meta j = (sample_meta [0, 1])\<lparr>sm_status := S_finalizing, sm_stage := Some Building\<rparr>"
    and "jb_formula j = js ''first_n''" and "jb_winnersCount j = 1" and "jb_target j = None"
proof -
  let ?j = "\<lparr>jb_meta = (sample_meta [0, 1])\<lparr>sm_status := S_finalizing, sm_stage := Some Building\<rparr>, jb_formula = js ''first_n'',
    jb_winnersCount = 1, jb_target = None, jb_finalized = None, jb_uri = None, jb_drawing = False\<rparr>"
  let ?d = "\<lparr>sd_meta = sample_meta [0, 1], sd_files = [sample_file 1 ''al'', sample_file 0 ''zoe'']\<rparr>"
  have sid: "session_id_of sample_server_env [(js ''session_id'', JString sample_session), (js ''formula'', JString (js ''first_n''))]
    = Inr sample_session" by code_simp
  have f: "validatePartnerFormula (se_shown sample_server_env) (prop_of [(js ''session_id'', JString sample_session),
    (js ''formula'', JString (js ''first_n''))] ''formula'') = Inr (js ''first_n'')" by code_simp
  have n: "partner_winners (se_maxWinners sample_server_env) (prop_of [(js ''session_id'', JString sample_session),
    (js ''formula'', JString (js ''first_n''))] ''winners_count'') = Inr 1" by code_simp
  have t: "partner_target (js ''first_n'') (prop_of [(js ''session_id'', JString sample_session),
    (js ''formula'', JString (js ''first_n''))] ''target'') = Inr None" by code_simp
  have own: "owned_session uploaded_server sample_session (js ''k'') = Inr ?d"
    by (simp add: uploaded_state owned_session_def snapshotSessionDir_def sample_uuid sample_state_def sample_meta_def)
  have "loadSnapshotSessionForFinalize uploaded_server sample_session (js ''k'') = Inr ?d"
    unfolding loadSnapshotSessionForFinalize_def own by (simp add: Let_def sample_meta_def)
  then have "checked_finalize sample_server_env (Inr ()) sample_partner sample_finalize uploaded_server
      = Inr (sample_session, ?d, ?j)"
    using sid f n t by (simp add: checked_finalize_def sample_finalize_def body_fields_def sample_uuid Let_def sample_partner_def)
  then have step: "handlePartnerSnapshotFinalize sample_server_env (Inr ()) (js ''k'') sample_finalize uploaded_server
      = (Inr sample_session, uploaded_server\<lparr>sv_dirs := (sv_dirs uploaded_server)(sample_session := Some (?d\<lparr>sd_meta := jb_meta ?j\<rparr>)),
          sv_jobs := (sv_jobs uploaded_server)(sample_session := Some ?j)\<rparr>)"
    by (simp add: handlePartnerSnapshotFinalize_def sample_enabled)
  show thesis
    by (rule that [of ?j]) (use step in \<open>simp_all add: finalizing_server_def uploaded_state sample_state_def fun_eq_iff\<close>)
qed

lemma sample_reach: "server_reach sample_server_env uploaded_server" "server_reach sample_server_env finalizing_server"
proof -
  have "server_reach sample_server_env opened_server"
    unfolding opened_server_def by (rule reach_step [OF reach_start step_open]) (simp add: empty_server_def)
  then show "server_reach sample_server_env uploaded_server"
    unfolding uploaded_server_def by (intro reach_step [OF reach_step [OF _ step_chunk] step_chunk])
  then show "server_reach sample_server_env finalizing_server"
    unfolding finalizing_server_def by (rule reach_step [OF _ step_finalize])
qed

section \<open>The snapshot\<close>

lemma sample_finalized:
  assumes "sd_meta d = (sample_meta [0, 1])\<lparr>sm_status := S_finalizing, sm_stage := Some Building\<rparr>" and "jb_meta j = sd_meta d"
    and "sd_files d = [sample_file 1 ''al'', sample_file 0 ''zoe'']" and "upload_ok d"
    and "jb_formula j = js ''first_n''" and "jb_winnersCount j = 1" and "jb_target j = None"
  obtains fz where "session_finalized sample_server_env sample_session j d = Inr fz" and "length (fz_file fz) = 45"
proof -
  have listed: "listSnapshotChunkIndexes (sd_files d) = [0, 1]"
    using listed_indexes [OF assms(4)] by (simp add: assms(1) sample_meta_def)
  have chunks: "mapE (read_chunk (sd_files d)) [0, 1] = Inr chunk_sample"
    by (simp add: assms(3) read_chunk_def sample_file_def snapshotChunkName_inject chunk_sample_def)
  have mode: "classifySnapshotMode (se_thresholds sample_server_env) 2 = Inr Simple" by code_simp
  obtain r where r: "collected_snapshot (js ''first_n'') chunk_sample = Inr r" using chunk_sample_collected ..
  obtain f es0 where f: "validateFormula (JString (js ''first_n'')) = Inr f"
    and es0: "mapE (norm_entry f) (ordered_objects 0 (concat chunk_sample)) = Inr es0" and ne: "es0 \<noteq> []"
    and rs: "r = (summary_of f (sort_by_id es0), utf8_encode (canonical_text f (sort_by_id es0)))"
    by (rule collected_D [OF r]) (simp add: chunk_sample_def)
  have "validateFormula (JString (js ''first_n'')) = Inr First_n" by code_simp
  with f have f1: "f = First_n" by simp
  let ?al = "\<lparr>p_id = js ''al'', p_order = 1, p_weight = 1, p_score = 0\<rparr>"
  let ?zoe = "\<lparr>p_id = js ''zoe'', p_order = 0, p_weight = 1, p_score = 0\<rparr>"
  have "mapE (norm_entry First_n) (ordered_objects 0 (concat chunk_sample)) = Inr [?zoe, ?al]" by code_simp
  then have "es0 = [?zoe, ?al]" using es0 by (simp add: f1)
  moreover have "sort_by_id [?zoe, ?al] = [?al, ?zoe]" by code_simp
  ultimately have es: "sort_by_id es0 = [?al, ?zoe]" by simp
  have "utf8_encode (canonical_text First_n [?al, ?zoe]) = unlines (map (line_bytes First_n) [?al, ?zoe])"
    using norm_entries_ok [OF es0] \<open>es0 = _\<close> by (intro utf8_text) (auto simp: f1)
  moreover have "length (unlines (map (line_bytes First_n) [?al, ?zoe])) = 45"
    by (simp add: unlines_def line_bytes_def stringify_object_def canonical_fields_def field_text_def json_quote_def js_def
        json_escape_def high_surrogate_def low_surrogate_def dec_string_def dec_digits.simps)
  ultimately have len: "length (snd r) = 45" by (simp add: rs es f1)
  have root: "length (merkleRootOf (fst r)) = 32" and hash: "length (snapshotHash (fst r)) = 32"
    using length_merkle_root [of "map (\<lambda>e. canonicalSnapshotLine e f) (sort_by_id es0)"]
    by (simp_all add: rs es summary_of_def Let_def length_sha256)
  have "snapshotCount (fst r) = 2" by (simp add: rs es summary_of_def Let_def)
  then obtain m where "finalized_manifest Simple (fst r) (js ''first_n'') 1 None (se_canonicalPath sample_server_env sample_session) = Inr m"
    using root hash f f1
    by (simp add: finalized_manifest_def buildOutcomeStandardV12SnapshotManifest_def validateWinnersCount_def MAX_WINNERS_def)
  then have "session_finalized sample_server_env sample_session j d
      = Inr \<lparr>fz_mode = Simple, fz_summary = fst r, fz_file = snd r, fz_manifest = m\<rparr>"
    using r mode
    unfolding session_finalized_def finalizeSnapshotSession_def Let_def listed chunks assms(2,5,6,7) assms(1)
    by (cases r) (simp add: sample_meta_def contiguous_def chunks)
  then show thesis using that len by simp
qed

section \<open>The witnesses\<close>

text \<open>A disk whose only file is the snapshot.\<close>

definition sample_disk :: "buffer \<Rightarrow> source_world" where
  "sample_disk bytes = \<lparr>sw_fetch = (\<lambda>_. None), sw_aborted = (\<lambda>_ _. False), sw_fileUrl = (\<lambda>_. None),
     sw_absolute = (\<lambda>_. True), sw_resolve = id, sw_stat = (\<lambda>_. Some (int (length bytes))), sw_read = (\<lambda>_. Some bytes)\<rparr>"

lemma sample_read_back:
  assumes "to_hex (sha256 bytes) = hash" and "length bytes = 45"
  shows "read_back [sample_disk bytes] (js ''/f'') hash"
proof -
  let ?opts = "\<lparr>sp_snapshotUri = js ''/f'', sp_snapshotHash = hash, sp_mirrors = Some [], sp_localFile = None, sp_gateways = None,
    sp_timeoutMs = Some 15000, sp_maxBytes = None\<rparr>"
  have "snapshot_sources ?opts = [js ''/f'']"
    by (simp add: snapshot_sources_def snapshotSourceCandidates_def uri_sources_def js_trim_def js_unique_def js_def js_space_def
      is_http_def is_file_url_def hostlessSource_def scheme_of_def lower_def hex_lower_def scheme_unit_def letter_def is_digit_def)
  moreover have "read_source (sample_disk bytes) 15000 DEFAULT_SNAPSHOT_MAX_BYTES (js ''/f'') = Inr bytes"
    using assms(2) by (simp add: read_source_def is_http_def is_file_url_def scheme_of_def readLocal_def sample_disk_def js_def lower_def
      hex_lower_def DEFAULT_SNAPSHOT_MAX_BYTES_def scheme_unit_def letter_def is_digit_def)
  ultimately show ?thesis
    by (simp add: read_back_def fetchCommittedSnapshot_def assms(1) [symmetric] is_hex64_to_hex length_sha256 time_limit_def
        byte_limit_def is_ok_def)
qed

lemma sample_run:
  obtains j d fz where "sv_jobs finalizing_server sample_session = Some j" and "sv_dirs finalizing_server sample_session = Some d"
    and "session_finalized sample_server_env sample_session j d = Inr fz" and "job_stage j = Some Building"
    and "sm_participant_count (sd_meta d) = 2" and "sm_chunk_indexes (sd_meta d) = [0, 1]"
    and "sd_files d = [sample_file 1 ''al'', sample_file 0 ''zoe'']" and "jb_meta j = sd_meta d"
    and "read_back [sample_disk (fz_file fz)] (js ''/f'') (committed_hash fz)"
    and "handlePartnerSnapshotFinalize sample_server_env (Inr ()) (js ''k'') sample_finalize uploaded_server
      = (Inr sample_session, finalizing_server)" and "sv_draws uploaded_server = []" and "sv_draws finalizing_server = []"
proof -
  obtain j where s: "finalizing_server = (sample_state \<lparr>sd_meta = jb_meta j, sd_files = [sample_file 1 ''al'', sample_file 0 ''zoe'']\<rparr>)
      \<lparr>sv_jobs := (\<lambda>i. if i = sample_session then Some j else None)\<rparr>"
    and req: "handlePartnerSnapshotFinalize sample_server_env (Inr ()) (js ''k'') sample_finalize uploaded_server
      = (Inr sample_session, finalizing_server)"
    and m: "jb_meta j = (sample_meta [0, 1])\<lparr>sm_status := S_finalizing, sm_stage := Some Building\<rparr>"
    and rest: "jb_formula j = js ''first_n''" "jb_winnersCount j = 1" "jb_target j = None"
    by (rule finalizing_state)
  let ?d = "\<lparr>sd_meta = jb_meta j, sd_files = [sample_file 1 ''al'', sample_file 0 ''zoe'']\<rparr>"
  have j: "sv_jobs finalizing_server sample_session = Some j" and d: "sv_dirs finalizing_server sample_session = Some ?d"
    by (simp_all add: s sample_state_def)
  have up: "upload_ok ?d"
    using server_invD [OF reach_inv [OF sample_reach(2)], of sample_session] d by (simp add: session_ok_def dir_ok_def)
  obtain fz where fz: "session_finalized sample_server_env sample_session j ?d = Inr fz" and len: "length (fz_file fz) = 45"
    by (rule sample_finalized [of ?d j]) (use m rest up in simp_all)
  have "sorts_lines (se_sort sample_server_env)" using c_sort_sorts by (simp add: sample_server_env_def)
  then have "to_hex (sha256 (fz_file fz)) = committed_hash fz"
    by (intro finalized_hash [OF fz _ up]) (simp_all add: m sample_meta_def)
  from sample_read_back [OF this len] have "read_back [sample_disk (fz_file fz)] (js ''/f'') (committed_hash fz)" .
  then show thesis
    by (intro that [OF j d fz _ _ _ _ _ _ req]) (simp_all add: m sample_meta_def job_stage_def uploaded_state s sample_state_def)
qed

lemma sample_sorts: "sorts_lines (se_sort sample_server_env)"
  using c_sort_sorts by (simp add: sample_server_env_def)

lemma sample_drawn:
  obtains s c d where "server_reach sample_server_env s" and "sv_draws s = [c]" and "sv_dirs s (dc_session c) = Some d"
    and "sm_participant_count (sd_meta d) = 2" and "sm_chunk_indexes (sd_meta d) = [0, 1]"
proof -
  obtain j d fz where j: "sv_jobs finalizing_server sample_session = Some j" "sv_dirs finalizing_server sample_session = Some d"
    "session_finalized sample_server_env sample_session j d = Inr fz" "job_stage j = Some Building"
    and d: "sm_participant_count (sd_meta d) = 2" "sm_chunk_indexes (sd_meta d) = [0, 1]"
    and readable: "read_back [sample_disk (fz_file fz)] (js ''/f'') (committed_hash fz)" and none: "sv_draws finalizing_server = []"
    by (rule sample_run)
  have small: "sm_participant_count (sd_meta d) < 4294967296" using d by simp
  note run = run_states [OF sample_reach(2) j(1) j(4) j(2) j(3) sample_sorts small readable]
  obtain d' where "sv_dirs (run_to_draw sample_server_env (js ''/f'') [sample_disk (fz_file fz)] sample_session finalizing_server)
      sample_session = Some d'" and "sm_participant_count (sd_meta d') = 2" and "sm_chunk_indexes (sd_meta d') = [0, 1]"
    using run(4) d by auto
  then show thesis by (intro that [OF run(1), of "draw_call_of sample_session j fz (js ''/f'')" d'])
      (simp_all add: run(3) none draw_call_of_def)
qed

lemma one_draw_per_session_witness:
  "\<exists>s :: server. length (sv_draws s) = 1 \<and> distinct (map dc_session (sv_draws s))"
proof -
  obtain s c d where s: "server_reach sample_server_env s" "sv_draws s = [c]" by (rule sample_drawn)
  from one_draw_per_session [OF s(1)] s(2) show ?thesis by (intro exI [of _ s]) simp
qed

lemma drawn_snapshot_is_upload_witness:
  "\<exists>(c :: draw_call) (d :: session_dir). collected_snapshot (dc_formula c) (map (chunk_at d) [0, 1]) = Inr (fz_summary (dc_finalized c), fz_file (dc_finalized c))
    \<and> snapshotCount (fz_summary (dc_finalized c)) = 2"
proof -
  obtain s c d where s: "server_reach sample_server_env s" "sv_draws s = [c]" "sv_dirs s (dc_session c) = Some d"
    and d: "sm_participant_count (sd_meta d) = 2" "sm_chunk_indexes (sd_meta d) = [0, 1]" by (rule sample_drawn)
  have "c \<in> set (sv_draws s)" "sm_participant_count (sd_meta d) < 4294967296" using s d by simp_all
  from drawn_snapshot_is_upload [OF s(1) this(1) s(3) sample_sorts this(2)] obtain k where
    k: "[0, 1] = [0..<k]" "collected_snapshot (dc_formula c) (map (chunk_at d) [0..<k])
      = Inr (fz_summary (dc_finalized c), fz_file (dc_finalized c))" "int (snapshotCount (fz_summary (dc_finalized c))) = 2"
    by (auto simp: d)
  then show ?thesis by (intro exI [of _ c] exI [of _ d]) simp
qed

lemma drawn_snapshot_kept_witness:
  "\<exists>(s :: server) c bytes. c \<in> set (sv_draws s) \<and> sv_mirror s (committed_hash (dc_finalized c)) = Some bytes"
proof -
  obtain s c d where s: "server_reach sample_server_env s" "sv_draws s = [c]" by (rule sample_drawn)
  have c: "c \<in> set (sv_draws s)" using s by simp
  obtain bytes where "sv_mirror s (committed_hash (dc_finalized c)) = Some bytes"
    using drawn_snapshot_kept [OF s(1) c] by (elim exE conjE)
  with c show ?thesis by (intro exI conjI)
qed

lemma finalize_completes_witness:
  "\<exists>uri worlds j fz. let e = run_to_end sample_server_env uri worlds (js ''sig'') [js ''o''] sample_session finalizing_server in
     server_reach sample_server_env e \<and> sv_draws e = [draw_call_of sample_session j fz uri] \<and> sv_index e (js ''sig'') = Some sample_session"
proof -
  obtain j d fz where j: "sv_jobs finalizing_server sample_session = Some j" "sv_dirs finalizing_server sample_session = Some d"
    "session_finalized sample_server_env sample_session j d = Inr fz"
    and d: "sm_participant_count (sd_meta d) = 2"
    and readable: "read_back [sample_disk (fz_file fz)] (js ''/f'') (committed_hash fz)" and none: "sv_draws uploaded_server = []"
    and req: "handlePartnerSnapshotFinalize sample_server_env (Inr ()) (js ''k'') sample_finalize uploaded_server
      = (Inr sample_session, finalizing_server)"
    by (rule sample_run)
  have "sm_participant_count (sd_meta d) < 4294967296" using d by simp
  from finalize_completes [OF sample_reach(1) req j sample_sorts this readable, of "js ''sig''" "[js ''o'']"] show ?thesis
    unfolding Let_def none by (elim conjE) (intro exI conjI)
qed

text \<open>A participant of the finished session asks for its proof.\<close>

definition sample_signature :: jsstr where
  "sample_signature = replicate 87 49"

lemma drawn_participant_proves_witness:
  "\<exists>(s :: server) c. c \<in> set (sv_draws s) \<and>
    ((\<exists>r f e root. fst (handlePartnerDrawProof sample_server_env 9000 [] (js ''zoe'') sample_signature s) = Inr r \<and> dp_included r
        \<and> p_id e = js ''zoe'' \<and> prop_of (dc_config c) ''merkle_root'' = JString (to_hex root)
        \<and> verifySnapshotMerkleProof (canonicalSnapshotLine e f) (dp_proof r) (Inl root) = Inr True)
     \<or> (\<exists>bytes. bytes \<noteq> fz_file (dc_finalized c) \<and> sha256 bytes = sha256 (fz_file (dc_finalized c))))"
proof -
  obtain j d fz where j: "sv_jobs finalizing_server sample_session = Some j" "sv_dirs finalizing_server sample_session = Some d"
    "session_finalized sample_server_env sample_session j d = Inr fz" "job_stage j = Some Building"
    and d: "sm_participant_count (sd_meta d) = 2" "sm_chunk_indexes (sd_meta d) = [0, 1]"
    and files: "sd_files d = [sample_file 1 ''al'', sample_file 0 ''zoe'']" "jb_meta j = sd_meta d"
    and readable: "read_back [sample_disk (fz_file fz)] (js ''/f'') (committed_hash fz)"
    by (rule sample_run)
  have small: "sm_participant_count (sd_meta d) < 4294967296" using d by simp
  note run = run_states [OF sample_reach(2) j(1) j(4) j(2) j(3) sample_sorts small readable]
  let ?d = "d\<lparr>sd_meta := settled_meta j fz (js ''/f'') sample_signature [js ''zoe'']\<rparr>"
  have st: "sm_status (sd_meta ?d) = S_finalized" "sm_participant_count (sd_meta ?d) < 4294967296"
    "\<forall>k \<in> set (sm_chunk_indexes (sd_meta ?d)). k < 1000000"
    using d by (simp_all add: settled_meta_def files)
  have sig: "validateSignature sample_signature = Inr sample_signature" by code_simp
  have address: "validateSnapshotProofAddress (se_shown sample_server_env) (JString (js ''zoe''))
      = Inr (pp_id \<lparr>pp_id = js ''zoe'', pp_weight = None, pp_score = None\<rparr>)" by code_simp
  have p: "\<lparr>pp_id = js ''zoe'', pp_weight = None, pp_score = None\<rparr> \<in> set (concat (map snd (sd_files ?d)))"
    by (simp add: files sample_file_def)
  from drawn_participant_proves [OF run(2) sig run(7) run(6) st(1) sample_sorts st(2,3) p address, of 9000 "[]"]
  show ?thesis by fastforce
qed

end
