(* ===== verification/Conditions_Written.thy ===== *)
theory Conditions_Written
  imports Conditions_Codec
begin

text \<open>
  What the writers of \<^verbatim>\<open>sdk/conditions.ts\<close> make of numbers that do not fit their fields. A 64-bit amount out of
  range throws; the other numbers are reduced first (\<^verbatim>\<open>v >>> 0\<close>, \<^verbatim>\<open>v | 0\<close>, \<^verbatim>\<open>Buffer.from([v])\<close>), so a round
  whose threshold is 4294967301 is written as one whose threshold is 5. The bytes determine the values as they
  are written, and nothing more; the rules of a round are what its artifact says.
\<close>

section \<open>Values as they are written\<close>

definition written_leg :: "leg_commit \<Rightarrow> leg_commit" where
  "written_leg l =
     \<lparr>termKind = termKind l mod 256, statKeyA = to_uint32 (statKeyA l), statKeyB = to_uint32 (statKeyB l), legOp = legOp l mod 256,
      comparison = comparison l mod 256, threshold = to_int32 (threshold l), lineX2 = to_int32 (lineX2 l), oddsMilli = oddsMilli l\<rparr>"

definition written_entrant :: "conditions_entrant \<Rightarrow> conditions_entrant" where
  "written_entrant e = e\<lparr>e_legs := map written_leg (e_legs e), e_fixtureIndex := map to_uint32 (e_fixtureIndex e)\<rparr>"

text \<open>A JavaScript array has fewer than \<open>2 ^ 32\<close> elements.\<close>

definition is_array :: "'a list \<Rightarrow> bool" where
  "is_array xs \<longleftrightarrow> length xs < 4294967296"

definition entrant_arrays :: "conditions_entrant \<Rightarrow> bool" where
  "entrant_arrays e \<longleftrightarrow> is_array (e_legs e) \<and> is_array (e_fixtureIndex e)"

lemma written_leg_fits: "leg_fits l \<Longrightarrow> written_leg l = l"
  by (cases l) (simp add: written_leg_def leg_fits_def to_uint32_def)

lemma written_entrant_fits: "entrant_fits e \<Longrightarrow> written_entrant e = e"
proof -
  assume e: "entrant_fits e"
  then have "map written_leg (e_legs e) = e_legs e" "map to_uint32 (e_fixtureIndex e) = e_fixtureIndex e"
    by (auto simp: entrant_fits_def list_fits_def list_all_iff index_fits_def to_uint32_def written_leg_fits intro!: map_idI)
  then show ?thesis by (simp add: written_entrant_def)
qed

section \<open>Bytes determine what is written\<close>

text \<open>A writer whose output tells where it ends and, up to \<open>view\<close>, what was written.\<close>

locale determined =
  fixes enc :: "'a \<Rightarrow> buffer result" and view :: "'a \<Rightarrow> 'b" and sound :: "'a \<Rightarrow> bool"
  assumes determines: "sound x \<Longrightarrow> sound y \<Longrightarrow> enc x = Inr a \<Longrightarrow> enc y = Inr b \<Longrightarrow> a @ r = b @ s \<Longrightarrow> view x = view y \<and> r = s"
begin

lemma list_determines:
  assumes "concatE (map enc xs) = Inr a" and "concatE (map enc ys) = Inr b" and "length xs = length ys" and "a @ r = b @ s"
    and "\<forall>x \<in> set xs. sound x" and "\<forall>y \<in> set ys. sound y"
  shows "map view xs = map view ys \<and> r = s"
  using assms
proof (induction xs arbitrary: ys a b)
  case (Cons x xs)
  obtain y ys' where ys: "ys = y # ys'" using Cons.prems(3) by (cases ys) auto
  obtain a1 a2 where a: "enc x = Inr a1" "concatE (map enc xs) = Inr a2" "a = a1 @ a2"
    using Cons.prems(1) by (auto simp: bindE_Inr_iff)
  obtain b1 b2 where b: "enc y = Inr b1" "concatE (map enc ys') = Inr b2" "b = b1 @ b2"
    using Cons.prems(2) by (auto simp: ys bindE_Inr_iff)
  have "view x = view y \<and> a2 @ r = b2 @ s"
    using a b Cons.prems by (intro determines [OF _ _ a(1) b(1)]) (simp_all add: ys)
  with Cons.IH [OF a(2) b(2)] Cons.prems show ?case by (simp add: ys)
qed simp

lemma vec_determines:
  assumes "vec enc xs = Inr a" and "vec enc ys = Inr b" and "a @ r = b @ s" and "is_array xs" "is_array ys"
    and "\<forall>x \<in> set xs. sound x" and "\<forall>y \<in> set ys. sound y"
  shows "map view xs = map view ys \<and> r = s"
proof -
  obtain a' where a: "concatE (map enc xs) = Inr a'" "a = le_bytes 4 (int (length xs)) @ a'"
    using assms(1,4) by (auto simp: vec_def is_array_def bindE_Inr_iff)
  obtain b' where b: "concatE (map enc ys) = Inr b'" "b = le_bytes 4 (int (length ys)) @ b'"
    using assms(2,5) by (auto simp: vec_def is_array_def bindE_Inr_iff)
  have "le_bytes 4 (int (length xs)) = le_bytes 4 (int (length ys))" "a' @ r = b' @ s"
    using assms(3) by (simp_all add: a(2) b(2))
  then have "length xs = length ys" using assms(4,5) by (simp add: is_array_def le_bytes_inject)
  then show ?thesis using list_determines [OF a(1) b(1) _ \<open>a' @ r = b' @ s\<close> assms(6,7)] by blast
qed

end

lemma le_bytes_written: "le_bytes n v = le_bytes n w \<Longrightarrow> v mod 256 ^ n = w mod 256 ^ n"
  by (metis le_uint_le_bytes_mod)

lemma u32_Inr: "u32 v = Inr b \<longleftrightarrow> b = le_bytes 4 (to_uint32 v)"
proof -
  have "0 \<le> to_uint32 v" "to_uint32 v < 4294967296" by (simp_all add: to_uint32_def)
  then show ?thesis by (auto simp: u32_def write_uint_def throwIf_def)
qed

lemma u32_written: "u32 v = Inr (le_bytes 4 (to_uint32 v))"
  by (simp add: u32_Inr)

lemma byte_of_written: "byte_of v = byte_of w \<longleftrightarrow> v mod 256 = w mod 256"
  by (simp add: byte_of_def word_of_int_eq_iff take_bit_eq_mod)

lemma to_int32_mod: "to_int32 v mod 4294967296 = v mod 4294967296"
  by (simp add: to_int32_def to_signed_def)

lemma to_int32_written: "le_bytes 4 (to_int32 v) = le_bytes 4 (to_int32 w) \<Longrightarrow> to_int32 v = to_int32 w"
  by (drule le_bytes_written) (simp add: to_int32_mod, simp add: to_int32_def)

lemma to_uint32_written: "le_bytes 4 (to_uint32 v) = le_bytes 4 (to_uint32 w) \<Longrightarrow> to_uint32 v = to_uint32 w"
  by (drule le_bytes_written) (simp add: to_uint32_def)

lemma u64le_written: "u64le v = Inr a \<Longrightarrow> u64le w = Inr b \<Longrightarrow> a = b \<longleftrightarrow> v = w"
  by (auto simp: u64le_def write_uint_def throwIf_def le_bytes_inject split: if_splits)

lemma u16_written: "u16 v = Inr a \<Longrightarrow> u16 w = Inr b \<Longrightarrow> a = b \<longleftrightarrow> to_uint32 v = to_uint32 w"
  by (auto simp: u16_def write_uint_def throwIf_def le_bytes_inject split: if_splits)

lemma i64le_written: "i64le v = Inr a \<Longrightarrow> i64le w = Inr b \<Longrightarrow> a = b \<longleftrightarrow> v = w"
  by (auto simp: i64le_def throwIf_def split: if_splits dest: arg_cong [of _ _ "\<lambda>bs. to_signed 8 (le_uint bs)"]
      simp: to_signed_le_bytes)

lemma u16_length: "u16 v = Inr a \<Longrightarrow> length a = 2"
  by (auto simp: u16_def write_uint_def throwIf_def split: if_splits)

lemma u64le_length: "u64le v = Inr a \<Longrightarrow> length a = 8"
  by (auto simp: u64le_def write_uint_def throwIf_def split: if_splits)

lemma i64le_length: "i64le v = Inr a \<Longrightarrow> length a = 8"
  by (auto simp: i64le_def throwIf_def split: if_splits)

interpretation index_bytes: determined u16 to_uint32 "\<lambda>_. True"
proof
  fix x y a b r s
  assume e: "u16 x = Inr a" "u16 y = Inr b" and eq: "a @ r = b @ s"
  have "length a = length b" using e by (simp add: u16_length)
  with eq have "a = b" "r = s" by simp_all
  with e show "to_uint32 x = to_uint32 y \<and> r = s" using u16_written by blast
qed

interpretation leg_bytes: determined encodeLeg written_leg "\<lambda>_. True"
proof
  fix x y a b r s
  assume x: "encodeLeg x = Inr a" and y: "encodeLeg y = Inr b" and eq: "a @ r = b @ s"
  obtain ox where ox: "u64le (oddsMilli x) = Inr ox" "a = byte_of (termKind x) @ le_bytes 4 (to_uint32 (statKeyA x))
      @ le_bytes 4 (to_uint32 (statKeyB x)) @ byte_of (legOp x) @ byte_of (comparison x) @ le_bytes 4 (to_int32 (threshold x))
      @ le_bytes 4 (to_int32 (lineX2 x)) @ ox"
    using x by (auto simp: encodeLeg_def bindE_Inr_iff u32_Inr i32_def)
  obtain oy where oy: "u64le (oddsMilli y) = Inr oy" "b = byte_of (termKind y) @ le_bytes 4 (to_uint32 (statKeyA y))
      @ le_bytes 4 (to_uint32 (statKeyB y)) @ byte_of (legOp y) @ byte_of (comparison y) @ le_bytes 4 (to_int32 (threshold y))
      @ le_bytes 4 (to_int32 (lineX2 y)) @ oy"
    using y by (auto simp: encodeLeg_def bindE_Inr_iff u32_Inr i32_def)
  have len: "length ox = 8" "length oy = 8" "\<And>v. length (byte_of v) = 1" using ox oy by (simp_all add: u64le_length byte_of_def)
  have parts: "byte_of (termKind x) = byte_of (termKind y)" "le_bytes 4 (to_uint32 (statKeyA x)) = le_bytes 4 (to_uint32 (statKeyA y))"
    "le_bytes 4 (to_uint32 (statKeyB x)) = le_bytes 4 (to_uint32 (statKeyB y))" "byte_of (legOp x) = byte_of (legOp y)"
    "byte_of (comparison x) = byte_of (comparison y)" "le_bytes 4 (to_int32 (threshold x)) = le_bytes 4 (to_int32 (threshold y))"
    "le_bytes 4 (to_int32 (lineX2 x)) = le_bytes 4 (to_int32 (lineX2 y))" "ox = oy" "r = s"
    using eq by (simp_all add: ox(2) oy(2) len)
  then show "written_leg x = written_leg y \<and> r = s"
    unfolding written_leg_def
    using parts(1,4,5) [unfolded byte_of_written] parts(2,3) [THEN to_uint32_written] parts(6,7) [THEN to_int32_written]
      parts(8) [unfolded u64le_written [OF ox(1) oy(1)]] by simp
qed

interpretation entrant_bytes: determined encodeEntrant written_entrant entrant_arrays
proof
  fix x y a b r s
  assume arrays: "entrant_arrays x" "entrant_arrays y" and x: "encodeEntrant x = Inr a" and y: "encodeEntrant y = Inr b"
    and eq: "a @ r = b @ s"
  obtain tx ex lx ix where ax: "length (e_wallet x) = 32" "u64le (e_tier x) = Inr tx" "i64le (e_enteredAt x) = Inr ex"
      "vec encodeLeg (e_legs x) = Inr lx" "vec u16 (e_fixtureIndex x) = Inr ix" "a = e_wallet x @ tx @ ex @ lx @ ix"
    using x by (auto simp: encodeEntrant_def bindE_Inr_iff fixed32_def throwIf_def split: if_splits)
  obtain ty ey ly iy where ay: "length (e_wallet y) = 32" "u64le (e_tier y) = Inr ty" "i64le (e_enteredAt y) = Inr ey"
      "vec encodeLeg (e_legs y) = Inr ly" "vec u16 (e_fixtureIndex y) = Inr iy" "b = e_wallet y @ ty @ ey @ ly @ iy"
    using y by (auto simp: encodeEntrant_def bindE_Inr_iff fixed32_def throwIf_def split: if_splits)
  have parts: "e_wallet x = e_wallet y" "tx = ty" "ex = ey" "lx @ (ix @ r) = ly @ (iy @ s)"
    using eq ax(1) ay(1) u64le_length [OF ax(2)] u64le_length [OF ay(2)] i64le_length [OF ax(3)] i64le_length [OF ay(3)]
    by (simp_all add: ax(6) ay(6))
  have nums: "e_tier x = e_tier y" "e_enteredAt x = e_enteredAt y"
    using u64le_written [OF ax(2) ay(2)] i64le_written [OF ax(3) ay(3)] parts by simp_all
  have legs: "map written_leg (e_legs x) = map written_leg (e_legs y) \<and> ix @ r = iy @ s"
    using arrays by (intro leg_bytes.vec_determines [OF ax(4) ay(4) parts(4)]) (simp_all add: entrant_arrays_def)
  have "map to_uint32 (e_fixtureIndex x) = map to_uint32 (e_fixtureIndex y) \<and> r = s"
    using arrays legs by (intro index_bytes.vec_determines [OF ax(5) ay(5)]) (simp_all add: entrant_arrays_def)
  with legs parts nums show "written_entrant x = written_entrant y \<and> r = s"
    by (intro conjI conditions_entrant.equality) (simp_all add: written_entrant_def)
qed

section \<open>The writers see only the written values\<close>

lemma to_uint32_idem [simp]: "to_uint32 (to_uint32 v) = to_uint32 v"
  by (simp add: to_uint32_def)

lemma to_int32_idem [simp]: "to_int32 (to_int32 v) = to_int32 v"
  unfolding to_int32_def [of "to_int32 v"] to_int32_mod by (simp add: to_int32_def)

lemma encodeLeg_written: "encodeLeg (written_leg l) = encodeLeg l"
proof -
  have "byte_of (v mod 256) = byte_of v" for v by (simp add: byte_of_written)
  then show ?thesis by (simp add: encodeLeg_def written_leg_def u32_def i32_def)
qed

lemma vec_map: "vec enc (map f xs) = vec (enc \<circ> f) xs"
  by (simp add: vec_def)

lemma encodeEntrant_written: "encodeEntrant (written_entrant e) = encodeEntrant e"
proof -
  have "encodeLeg \<circ> written_leg = encodeLeg" "u16 \<circ> to_uint32 = u16"
    by (simp_all add: fun_eq_iff encodeLeg_written u16_def)
  then show ?thesis by (simp add: encodeEntrant_def written_entrant_def vec_map)
qed

lemma build_written: "buildConditionsArtifact fs (map written_entrant es) = buildConditionsArtifact fs es"
proof -
  have "encodeEntrant \<circ> written_entrant = encodeEntrant" by (simp add: fun_eq_iff encodeEntrant_written)
  then show ?thesis by (simp add: buildConditionsArtifact_def vec_map)
qed

text \<open>A threshold is written modulo \<open>2 ^ 32\<close>.\<close>

lemma threshold_wraps:
  "buildConditionsArtifact fs [sample_entrant\<lparr>e_legs := [sample_leg\<lparr>threshold := 4294967301\<rparr>]\<rparr>]
     = buildConditionsArtifact fs [sample_entrant\<lparr>e_legs := [sample_leg\<lparr>threshold := 5\<rparr>]\<rparr>]"
proof -
  have "written_leg (sample_leg\<lparr>threshold := 4294967301\<rparr>) = written_leg (sample_leg\<lparr>threshold := 5\<rparr>)"
    by (simp add: written_leg_def to_int32_def)
  then have "map written_entrant [sample_entrant\<lparr>e_legs := [sample_leg\<lparr>threshold := 4294967301\<rparr>]\<rparr>]
      = map written_entrant [sample_entrant\<lparr>e_legs := [sample_leg\<lparr>threshold := 5\<rparr>]\<rparr>]"
    by (simp add: written_entrant_def)
  then show ?thesis by (metis build_written)
qed

end
