(* ===== verification/Conditions_Program.thy ===== *)
theory Conditions_Program
  imports Operator_Program Conditions_Score
begin

text \<open>
  The \<open>conditions\<close> mode of the program: \<^verbatim>\<open>programs/outcome/src/math/conditions.rs\<close> and the handler
  \<^verbatim>\<open>resolve_conditions\<close>. Numbers are 32-bit integers with saturating arithmetic, products are checked at 128 bits, a
  reader stops at the end of the bytes. The client's scorer in \<^verbatim>\<open>sdk/conditions.ts\<close> does not saturate: the two agree
  when the committed facts are small, and then every round that the program resolves verifies.
\<close>

section \<open>Scoring\<close>

definition saturate :: "int \<Rightarrow> int \<Rightarrow> int \<Rightarrow> int" where
  "saturate low high v = max low (min high v)"

definition sat_i32 :: "int \<Rightarrow> int" where
  "sat_i32 = saturate (- 2147483648) 2147483647"

definition stat_value :: "score_stat list \<Rightarrow> int \<Rightarrow> int option" where
  "stat_value facts key = map_option statVal (find (\<lambda>x. statKey x = key) facts)"

text \<open>The value of a leg; \<open>Inl\<close> is an early return.\<close>

definition program_leg_value :: "leg_commit \<Rightarrow> score_stat list \<Rightarrow> leg_result + int" where
  "program_leg_value leg facts =
     (if termKind leg = TERM_SINGLE then
        (case stat_value facts (statKeyA leg) of Some v \<Rightarrow> Inr v | None \<Rightarrow> Inl Pending)
      else
        (case stat_value facts (statKeyA leg) of None \<Rightarrow> Inl Pending
         | Some a \<Rightarrow>
            (case stat_value facts (statKeyB leg) of None \<Rightarrow> Inl Pending
             | Some b \<Rightarrow>
                 if legOp leg = OP_ADD then Inr (sat_i32 (a + b))
                 else if legOp leg = OP_SUBTRACT then Inr (sat_i32 (a - b)) else Inl Miss)))"

definition eval_leg :: "leg_commit \<Rightarrow> score_stat list \<Rightarrow> leg_result" where
  "eval_leg leg facts =
     (case program_leg_value leg facts of Inl r \<Rightarrow> r | Inr value \<Rightarrow>
      if lineX2 leg = NO_LINE then
        (if (if comparison leg = CMP_GT then value > threshold leg
             else if comparison leg = CMP_LT then value < threshold leg
             else if comparison leg = CMP_EQ then value = threshold leg else False)
         then Hit else Miss)
      else
        (let total2 = sat_i32 (value * 2) in
         if lineX2 leg mod 2 = 0 \<and> total2 = lineX2 leg then Void
         else if (if comparison leg = CMP_GT then total2 > lineX2 leg
                  else if comparison leg = CMP_LT then total2 < lineX2 leg else False)
         then Hit else Miss))"

definition checked_u128 :: "int \<Rightarrow> int option" where
  "checked_u128 v = (if v > U128_MAX then None else Some v)"

primrec checked_products :: "int list \<Rightarrow> int \<Rightarrow> int \<Rightarrow> (int \<times> int) option" where
  "checked_products [] product denom = Some (product, denom)"
| "checked_products (odds # rest) product denom =
     (if odds < MIN_ODDS_MILLI \<or> MAX_ODDS_MILLI < odds then None
      else case (checked_u128 (product * odds), checked_u128 (denom * ODDS_SCALE)) of
        (Some p, Some d) \<Rightarrow> checked_products rest p d
      | _ \<Rightarrow> None)"

definition coefficient_fixed :: "int list \<Rightarrow> int option" where
  "coefficient_fixed odds =
     (if length odds > MAX_LEGS then None
      else case checked_products odds 1 1 of None \<Rightarrow> None
      | Some (product, denom) \<Rightarrow>
          Option.bind (checked_u128 (product * FIXED_SCALE)) (\<lambda>scaled.
          Option.bind (checked_u128 (scaled + denom div 2)) (\<lambda>numerator.
          let s = numerator div denom in if s > U64_MAX then None else Some s)))"

text \<open>The state of the loop of \<^verbatim>\<open>score_slip\<close>: (settled, all_hit, void_count, effective).\<close>

definition slip_step ::
  "bool \<times> bool \<times> int \<times> int list \<Rightarrow> leg_commit \<times> score_stat list \<Rightarrow> bool \<times> bool \<times> int \<times> int list" where
  "slip_step st lf =
     (case st of (sett, hit, voids, effective) \<Rightarrow>
      case eval_leg (fst lf) (snd lf) of
        Pending \<Rightarrow> (False, hit, voids, effective)
      | Void \<Rightarrow> (sett, hit, voids + 1, effective)
      | Hit \<Rightarrow> (sett, hit, voids, effective @ [oddsMilli (fst lf)])
      | Miss \<Rightarrow> (sett, False, voids, effective @ [oddsMilli (fst lf)]))"

definition score_slip :: "leg_commit list \<Rightarrow> score_stat list list \<Rightarrow> slip_score" where
  "score_slip legs facts_by_leg =
     (case foldl slip_step (True, True, 0, []) (zip legs facts_by_leg) of
        (sett, hit, voids, effective) \<Rightarrow>
        let settled_all_hit = sett \<and> hit in
        \<lparr>settled = sett, allHit = settled_all_hit, voidCount = voids,
         scoreFixed = (if settled_all_hit then (case coefficient_fixed effective of None \<Rightarrow> 0 | Some s \<Rightarrow> s) else 0)\<rparr>)"

text \<open>\<^verbatim>\<open>sort_by\<close> is stable and its comparison is a chain of \<^verbatim>\<open>cmp\<close>; wallets are arrays of bytes.\<close>

definition cmp_ranked :: "ranked_entrant \<Rightarrow> ranked_entrant \<Rightarrow> int" where
  "cmp_ranked a b =
     or_else (cmp_int (bool_number (r_allHit b)) (bool_number (r_allHit a)))
    (or_else (cmp_int (r_scoreFixed b) (r_scoreFixed a))
    (or_else (cmp_int (r_enteredAt a) (r_enteredAt b))
             (buffer_compare (r_wallet a) (r_wallet b))))"

definition rank_round :: "ranked_entrant list \<Rightarrow> ranked_entrant list" where
  "rank_round es = js_sort cmp_ranked es"

definition program_stats :: "conditions_fixture list \<Rightarrow> int \<Rightarrow> score_stat list" where
  "program_stats fs fi = (if 0 \<le> fi \<and> nat fi < length fs then fixtureStats (fs ! nat fi) else [])"

definition ranked_of :: "conditions_fixture list \<Rightarrow> conditions_entrant \<Rightarrow> ranked_entrant" where
  "ranked_of fs e =
     (let score = score_slip (e_legs e) (map (program_stats fs) (e_fixtureIndex e)) in
      \<lparr>r_wallet = e_wallet e, r_enteredAt = e_enteredAt e, r_scoreFixed = scoreFixed score,
       r_allHit = allHit score, r_voidCount = voidCount score, r_settled = settled score\<rparr>)"

definition resolve_conditions_artifact :: "conditions_artifact \<Rightarrow> ranked_entrant list" where
  "resolve_conditions_artifact a = rank_round (map (ranked_of (fixtures a)) (entrants a))"

section \<open>Agreement of the scorers\<close>

definition small_stats :: "score_stat list \<Rightarrow> bool" where
  "small_stats facts \<longleftrightarrow> (\<forall>s \<in> set facts. \<bar>statVal s\<bar> < 2 ^ 29)"

lemma stat_value_same: "stat_value = statValue"
  by (simp add: fun_eq_iff stat_value_def statValue_def)

lemma small_value: "small_stats facts \<Longrightarrow> statValue facts key = Some v \<Longrightarrow> \<bar>v\<bar> < 2 ^ 29"
  by (auto simp: small_stats_def statValue_def find_Some_iff)

lemma sat_small: "\<bar>v\<bar> < 2 ^ 31 \<Longrightarrow> sat_i32 v = v"
  by (simp add: sat_i32_def saturate_def)

lemma leg_values:
  assumes "small_stats facts"
  shows "program_leg_value leg facts = legValue leg facts"
    and "legValue leg facts = Inr v \<Longrightarrow> \<bar>v\<bar> < 2 ^ 30"
proof -
  have s: "sat_i32 (a + b) = a + b" "sat_i32 (a - b) = a - b" "\<bar>a + b\<bar> < 2 ^ 30" "\<bar>a - b\<bar> < 2 ^ 30"
    if "statValue facts k = Some a" "statValue facts l = Some b" for a b k l
    using small_value [OF assms that(1)] small_value [OF assms that(2)] by (auto intro!: sat_small)
  then show "program_leg_value leg facts = legValue leg facts"
    by (auto simp: program_leg_value_def legValue_def stat_value_same split: option.split)
  show "\<bar>v\<bar> < 2 ^ 30" if "legValue leg facts = Inr v"
  proof (cases "termKind leg = TERM_SINGLE")
    case True
    then show ?thesis using that small_value [OF assms] by (fastforce simp: legValue_def split: option.splits)
  next
    case False
    then show ?thesis using that s(3,4) by (auto simp: legValue_def split: option.splits if_splits)
  qed
qed

lemma eval_leg_agrees: "small_stats facts \<Longrightarrow> eval_leg leg facts = evalLeg leg facts"
  using leg_values [of facts leg]
  by (auto simp: eval_leg_def evalLeg_def Let_def sat_small split: sum.split)

lemma checked_products_iff:
  assumes "1 \<le> p" and "1 \<le> d" and "length odds \<le> k" and "d * ODDS_SCALE ^ k \<le> U128_MAX"
  shows "checked_products odds p d =
    (if odds_ok odds \<and> (odds = [] \<or> p * prod_list odds \<le> U128_MAX)
     then Some (p * prod_list odds, d * ODDS_SCALE ^ length odds) else None)"
  using assms
proof (induction odds arbitrary: p d k)
  case Nil
  then show ?case by (simp add: odds_ok_def)
next
  case (Cons o' os)
  from Cons.prems(3) obtain k' where k: "k = Suc k'" "length os \<le> k'" by (cases k) auto
  have d: "1 \<le> d * ODDS_SCALE" "d * ODDS_SCALE * ODDS_SCALE ^ k' \<le> U128_MAX"
    using Cons.prems(2,4) by (simp_all add: k ODDS_SCALE_def mult.assoc)
  have "d * ODDS_SCALE * 1 \<le> d * ODDS_SCALE * ODDS_SCALE ^ k'"
    by (rule mult_left_mono) (use d(1) in \<open>simp_all add: ODDS_SCALE_def\<close>)
  then have dok: "checked_u128 (d * ODDS_SCALE) = Some (d * ODDS_SCALE)" using d(2) by (simp add: checked_u128_def)
  show ?case
  proof (cases "MIN_ODDS_MILLI \<le> o' \<and> o' \<le> MAX_ODDS_MILLI")
    case False
    then show ?thesis by (auto simp: odds_ok_def)
  next
    case True
    then have o': "1 \<le> o'" by (simp add: MIN_ODDS_MILLI_def)
    have p: "1 \<le> p * o'" using Cons.prems(1) o' mult_mono [of 1 p 1 o'] by simp
    have grow: "p * o' \<le> p * o' * prod_list os" if "odds_ok os"
      using prod_odds_pos [OF that] p mult_left_mono [of 1 "prod_list os" "p * o'"] by simp
    have ok: "odds_ok (o' # os) = odds_ok os" using True by (simp add: odds_ok_def)
    show ?thesis
    proof (cases "p * o' \<le> U128_MAX")
      case False
      then show ?thesis using grow ok by (auto simp: checked_u128_def algebra_simps)
    next
      case small: True
      have "checked_products (o' # os) p d = checked_products os (p * o') (d * ODDS_SCALE)"
        using True small dok by (auto simp: checked_u128_def)
      then show ?thesis
        using Cons.IH [OF p d(1) k(2) d(2)] ok small by (auto simp: algebra_simps)
    qed
  qed
qed

lemma coefficient_fixed_agrees: "coefficient_fixed odds = coefficientFixed odds"
proof (cases "length odds \<le> MAX_LEGS")
  case False
  then show ?thesis by (simp add: coefficient_fixed_def coefficientFixed_def)
next
  case True
  have b: "1 * ODDS_SCALE ^ MAX_LEGS \<le> U128_MAX" by (simp add: ODDS_SCALE_def MAX_LEGS_def U128_MAX_def)
  have one: "odds = [] \<Longrightarrow> prod_list odds \<le> U128_MAX" by (simp add: U128_MAX_def)
  let ?p = "prod_list odds" and ?d = "ODDS_SCALE ^ length odds"
  have c: "checked_products odds 1 1 = (if odds_ok odds \<and> ?p \<le> U128_MAX then Some (?p, ?d) else None)"
    using checked_products_iff [OF _ _ True b] one by auto
  have "0 \<le> ?d div 2" by (simp add: ODDS_SCALE_def)
  then have "?p * FIXED_SCALE + ?d div 2 \<le> U128_MAX \<Longrightarrow> ?p * FIXED_SCALE \<le> U128_MAX" by linarith
  then show ?thesis
    using True by (auto simp: coefficient_fixed_def coefficientFixed_def c coefficient_loop_iff checked_u128_def Let_def)
qed

lemma facts_zip: "length factsByLeg = length legs \<Longrightarrow> facts_of_legs legs factsByLeg = zip legs factsByLeg"
  by (rule nth_equalityI) (simp_all add: facts_of_legs_def)

lemma score_slip_agrees:
  assumes "length facts_by_leg = length legs" and "\<forall>facts \<in> set facts_by_leg. small_stats facts"
  shows "score_slip legs facts_by_leg = scoreSlip legs facts_by_leg"
proof -
  have "foldl slip_step st lfs = foldl score_step st lfs" if "\<forall>lf \<in> set lfs. small_stats (snd lf)" for lfs st
    using that by (induction lfs arbitrary: st) (simp_all add: slip_step_def score_step_def eval_leg_agrees)
  moreover have "\<forall>lf \<in> set (zip legs facts_by_leg). small_stats (snd lf)"
    using assms(2) by (auto dest: set_zip_rightD)
  ultimately have "foldl slip_step (True, True, 0, []) (zip legs facts_by_leg) = foldl score_step (True, True, 0, []) (zip legs facts_by_leg)"
    by blast
  then show ?thesis
    by (auto simp: score_slip_def scoreSlip_def facts_zip [OF assms(1)] coefficient_fixed_agrees Let_def split: prod.split)
qed

lemma rank_round_agrees: "rank_round = rankRound"
proof -
  have "cmp_ranked = compare_ranked"
    by (auto simp: fun_eq_iff cmp_ranked_def compare_ranked_def cmp_int_def bool_number_def or_else_def)
  then show ?thesis by (intro ext) (simp only: rank_round_def rankRound_def)
qed

section \<open>The hash of a slip\<close>

text \<open>The key of \<^verbatim>\<open>sort_by_key\<close> is the tuple of these fields.\<close>

definition cmp_legs :: "leg_commit \<Rightarrow> leg_commit \<Rightarrow> int" where
  "cmp_legs a b =
     or_else (cmp_int (statKeyA a) (statKeyA b))
    (or_else (cmp_int (statKeyB a) (statKeyB b))
    (or_else (cmp_int (legOp a) (legOp b))
    (or_else (cmp_int (comparison a) (comparison b))
    (or_else (cmp_int (threshold a) (threshold b))
    (or_else (cmp_int (lineX2 a) (lineX2 b)) (cmp_int (oddsMilli a) (oddsMilli b)))))))"

definition sort_legs :: "leg_commit list \<Rightarrow> leg_commit list" where
  "sort_legs legs = js_sort cmp_legs legs"

definition leg_borsh :: "leg_commit \<Rightarrow> buffer" where
  "leg_borsh l = byte_of (termKind l) @ le_bytes 4 (statKeyA l) @ le_bytes 4 (statKeyB l) @ byte_of (legOp l)
     @ byte_of (comparison l) @ le_bytes 4 (threshold l) @ le_bytes 4 (lineX2 l) @ le_bytes 8 (oddsMilli l)"

definition slip_hash :: "buffer \<Rightarrow> int \<Rightarrow> leg_commit list \<Rightarrow> buffer" where
  "slip_hash wallet tier legs =
     (let sorted_legs = sort_legs legs in
      sha256 (wallet @ le_bytes 8 tier @ le_bytes 4 (int (length sorted_legs)) @ concat (map leg_borsh sorted_legs)))"

section \<open>Validation\<close>

definition validate_leg :: "leg_commit \<Rightarrow> bool" where
  "validate_leg leg \<longleftrightarrow>
     (termKind leg = TERM_SINGLE \<or> termKind leg = TERM_BINARY)
     \<and> legOp leg \<in> {OP_NONE, OP_ADD, OP_SUBTRACT} \<and> comparison leg \<in> {CMP_GT, CMP_LT, CMP_EQ}
     \<and> (termKind leg \<noteq> TERM_SINGLE \<or> legOp leg = OP_NONE \<and> statKeyB leg = 0)
     \<and> (termKind leg \<noteq> TERM_BINARY \<or> legOp leg \<noteq> OP_NONE)
     \<and> MIN_ODDS_MILLI \<le> oddsMilli leg \<and> oddsMilli leg \<le> MAX_ODDS_MILLI"

definition conditions_validate :: "conditions_artifact \<Rightarrow> bool" where
  "conditions_validate a \<longleftrightarrow>
     list_all (\<lambda>e. length (e_legs e) = length (e_fixtureIndex e) \<and> length (e_legs e) \<le> MAX_LEGS
        \<and> list_all (\<lambda>i. nat i < length (fixtures a)) (e_fixtureIndex e)
        \<and> list_all validate_leg (e_legs e)
        \<and> coefficient_fixed (map oddsMilli (e_legs e)) \<noteq> None) (entrants a)"

section \<open>Parsing\<close>

text \<open>The derived \<^verbatim>\<open>deserialize\<close>: the fields in order, a vector after its length; bytes may be left.\<close>

definition borsh_bytes :: "nat \<Rightarrow> buffer reader" where
  "borsh_bytes n = readBytes out_of_range n"

definition borsh_signed :: "nat \<Rightarrow> int reader" where
  "borsh_signed n = bindR (read_uint n) (\<lambda>u. retR (to_signed n u))"

definition borsh_vec :: "'a reader \<Rightarrow> 'a list reader" where
  "borsh_vec item = bindR (read_uint 4) (\<lambda>n. repeatR (nat n) item)"

definition borsh_stat :: "score_stat reader" where
  "borsh_stat = bindR (read_uint 4) (\<lambda>key. bindR (borsh_signed 4) (\<lambda>v. retR \<lparr>statKey = key, statVal = v\<rparr>))"

definition borsh_fixture :: "conditions_fixture reader" where
  "borsh_fixture =
     bindR (read_uint 4) (\<lambda>fid. bindR (borsh_bytes 32) (\<lambda>root. bindR (borsh_vec borsh_stat) (\<lambda>stats.
     retR \<lparr>fixtureId = fid, eventStatRoot = root, fixtureStats = stats\<rparr>)))"

definition borsh_leg :: "leg_commit reader" where
  "borsh_leg =
     bindR (read_uint 1) (\<lambda>kind. bindR (read_uint 4) (\<lambda>a. bindR (read_uint 4) (\<lambda>b.
     bindR (read_uint 1) (\<lambda>op. bindR (read_uint 1) (\<lambda>cmp. bindR (borsh_signed 4) (\<lambda>thr. bindR (borsh_signed 4) (\<lambda>line.
     bindR (read_uint 8) (\<lambda>odds.
     retR \<lparr>termKind = kind, statKeyA = a, statKeyB = b, legOp = op, comparison = cmp, threshold = thr, lineX2 = line,
           oddsMilli = odds\<rparr>))))))))"

definition borsh_entrant :: "conditions_entrant reader" where
  "borsh_entrant =
     bindR (borsh_bytes 32) (\<lambda>wallet. bindR (read_uint 8) (\<lambda>tier. bindR (borsh_signed 8) (\<lambda>at.
     bindR (borsh_vec borsh_leg) (\<lambda>legs. bindR (borsh_vec (read_uint 2)) (\<lambda>idx.
     retR \<lparr>e_wallet = wallet, e_tier = tier, e_enteredAt = at, e_legs = legs, e_fixtureIndex = idx\<rparr>)))))"

definition borsh_artifact :: "(buffer \<times> conditions_artifact) reader" where
  "borsh_artifact =
     bindR (borsh_bytes 4) (\<lambda>magic. bindR (read_uint 2) (\<lambda>version. bindR (read_uint 1) (\<lambda>formula. bindR (read_uint 1) (\<lambda>mode.
     bindR (borsh_vec borsh_fixture) (\<lambda>fs. bindR (borsh_vec borsh_entrant) (\<lambda>es.
     retR (magic, \<lparr>formatVersion = version, formulaCode = formula, winnersMode = mode, fixtures = fs, entrants = es\<rparr>)))))))"

definition conditions_from_bytes :: "buffer \<Rightarrow> conditions_artifact option" where
  "conditions_from_bytes bytes =
     (case runR borsh_artifact bytes 0 of Inl _ \<Rightarrow> None
      | Inr (magic, a) \<Rightarrow>
          if magic = MAGIC \<and> formatVersion a = FORMAT_VERSION_CONDITIONS \<and> formulaCode a = FORMULA_CODE_CONDITIONS
          then Some a else None)"

section \<open>The handler\<close>

record conditions_config =
  cg_authority :: buffer
  cg_attester :: buffer
  cg_hash :: buffer

text \<open>The loop over the winners: (winner_count, score_sum, the bytes hashed).\<close>

definition winner_step :: "int \<times> int \<times> buffer \<Rightarrow> ranked_entrant \<Rightarrow> int \<times> int \<times> buffer" where
  "winner_step st r =
     (case st of (winners, score_sum, hashed) \<Rightarrow>
       (saturate 0 65535 (winners + 1), saturate 0 U128_MAX (score_sum + r_scoreFixed r),
        hashed @ r_wallet r @ le_bytes 8 (r_scoreFixed r)))"

definition conditions_attestation :: "buffer \<Rightarrow> buffer \<Rightarrow> buffer \<Rightarrow> conditions_artifact \<Rightarrow> conditions_event" where
  "conditions_attestation actor runtimeId hash a =
     (case foldl winner_step (0, 0, []) (filter r_allHit (resolve_conditions_artifact a)) of
        (winners, score_sum, hashed) \<Rightarrow>
        \<lparr>ce_runtimeId = runtimeId, ce_operator = actor, ce_compiledArtifactHash = hash,
         ce_entrantCount = int (length (entrants a)) mod 4294967296, ce_winnerCount = winners,
         ce_winningScoreSum = score_sum, ce_winnersDigest = sha256 hashed,
         ce_factsRefRoot = sha256 (concat (map eventStatRoot (fixtures a)))\<rparr>)"

definition resolve_conditions ::
  "buffer \<Rightarrow> buffer \<Rightarrow> conditions_config \<Rightarrow> nat list \<Rightarrow> store \<Rightarrow> conditions_event option" where
  "resolve_conditions actor runtimeId cfg remaining st =
     (case st_artifacts st (cg_hash cfg) of None \<Rightarrow> None
      | Some a \<Rightarrow>
          if actor \<noteq> cg_authority cfg \<and> \<not> (cg_attester cfg \<noteq> zeros 32 \<and> actor = cg_attester cfg) then None
          else (case load_blob a (cg_hash cfg) st remaining of None \<Rightarrow> None
            | Some blob \<Rightarrow>
               (case conditions_from_bytes blob of None \<Rightarrow> None
                | Some artifact \<Rightarrow>
                    if \<not> conditions_validate artifact then None
                    else Some (conditions_attestation actor runtimeId (cg_hash cfg) artifact))))"

section \<open>Agreement of the parsers\<close>

text \<open>Whatever the first reader reads, the second reads as \<open>g\<close> of it and stops at the same place.\<close>

definition reads_as :: "('a \<Rightarrow> 'b) \<Rightarrow> 'a reader \<Rightarrow> 'b reader \<Rightarrow> bool" where
  "reads_as g p q \<longleftrightarrow> (\<forall>buf off v off'. p buf off = Inr (v, off') \<longrightarrow> q buf off = Inr (g v, off'))"

lemma reads_asD: "reads_as g p q \<Longrightarrow> p buf off = Inr (v, off') \<Longrightarrow> q buf off = Inr (g v, off')"
  by (simp add: reads_as_def)

lemma reads_ret: "w = g v \<Longrightarrow> reads_as g (retR v) (retR w)"
  by (simp add: reads_as_def retR_def)

lemma reads_bind: "reads_as h p q \<Longrightarrow> (\<And>v. reads_as g (k v) (l (h v))) \<Longrightarrow> reads_as g (bindR p k) (bindR q l)"
  by (fastforce simp: reads_as_def bindR_Inr_iff)

lemma reads_uint: "reads_as (\<lambda>v. v) (read_uint n) (takeUint n)"
  by (auto simp: reads_as_def takeUint_def result_simps subarray_def read_uint_def throwIf_def min_def)

lemma reads_signed: "reads_as (\<lambda>v. v) (borsh_signed 4) takeI32" "reads_as (\<lambda>v. v) (borsh_signed 8) takeI64"
  unfolding borsh_signed_def takeI32_def takeI64_def by (rule reads_bind [OF reads_uint], rule reads_ret, simp)+

lemma reads_bytes: "reads_as (\<lambda>v. v) (borsh_bytes n) (readBytesClamped n)"
  by (auto simp: reads_as_def borsh_bytes_def result_simps)

lemma reads_u8: "reads_as Some (read_uint 1) takeU8"
  unfolding reads_as_def takeU8_def
  by (auto simp: result_simps subarray_def byte_at_def take_Suc_conv_app_nth hd_drop_conv_nth)

lemma reads_repeat: "reads_as g p q \<Longrightarrow> reads_as (map g) (repeatR n p) (repeatR n q)"
proof (induction n)
  case 0
  show ?case by (simp add: reads_ret)
next
  case (Suc n)
  show ?case
    unfolding repeatR.simps
    by (rule reads_bind [OF Suc.prems], rule reads_bind [OF Suc.IH [OF Suc.prems]], rule reads_ret, simp)
qed

lemma reads_vec: "reads_as g p q \<Longrightarrow> reads_as (map g) (borsh_vec p) (vecR q)"
  unfolding borsh_vec_def vecR_def takeU32_def by (rule reads_bind [OF reads_uint], rule reads_repeat)

definition number_leg :: "leg_commit \<Rightarrow> leg_commit" where
  "number_leg l = l\<lparr>oddsMilli := bigint_to_number (oddsMilli l)\<rparr>"

definition number_entrant :: "conditions_entrant \<Rightarrow> conditions_entrant" where
  "number_entrant e = e\<lparr>e_legs := map number_leg (e_legs e)\<rparr>"

lemma reads_stat: "reads_as (\<lambda>v. v) borsh_stat statR"
  unfolding borsh_stat_def statR_def takeU32_def
  by (rule reads_bind [OF reads_uint], rule reads_bind [OF reads_signed(1)], rule reads_ret, simp)

lemma reads_fixture: "reads_as (\<lambda>v. v) borsh_fixture fixtureR"
  unfolding borsh_fixture_def fixtureR_def takeU32_def
  by (rule reads_bind [OF reads_uint], rule reads_bind [OF reads_bytes], rule reads_bind [OF reads_vec [OF reads_stat]],
      rule reads_ret, simp)

lemma reads_leg: "reads_as number_leg borsh_leg legR"
  unfolding borsh_leg_def legR_def takeU32_def takeU64_def
  by (rule reads_bind [OF reads_u8], rule reads_bind [OF reads_uint], rule reads_bind [OF reads_uint],
      rule reads_bind [OF reads_u8], rule reads_bind [OF reads_u8], rule reads_bind [OF reads_signed(1)],
      rule reads_bind [OF reads_signed(1)], rule reads_bind [OF reads_uint], rule reads_ret)
     (simp add: number_leg_def tag_of_def)

lemma reads_entrant: "reads_as number_entrant borsh_entrant entrantR"
  unfolding borsh_entrant_def entrantR_def takeU64_def takeU16_def
  by (rule reads_bind [OF reads_bytes], rule reads_bind [OF reads_uint], rule reads_bind [OF reads_signed(2)],
      rule reads_bind [OF reads_vec [OF reads_leg]], rule reads_bind [OF reads_vec [OF reads_uint]], rule reads_ret)
     (simp add: number_entrant_def)

lemma validated_odds: "conditions_validate a \<Longrightarrow> map number_entrant (entrants a) = entrants a"
proof (rule map_idI)
  fix e assume "conditions_validate a" and "e \<in> set (entrants a)"
  then have "\<forall>l \<in> set (e_legs e). MIN_ODDS_MILLI \<le> oddsMilli l \<and> oddsMilli l \<le> MAX_ODDS_MILLI"
    by (auto simp: conditions_validate_def validate_leg_def list_all_iff)
  then have "map number_leg (e_legs e) = e_legs e"
    by (intro map_idI) (auto simp: number_leg_def MIN_ODDS_MILLI_def MAX_ODDS_MILLI_def)
  then show "number_entrant e = e" by (simp add: number_entrant_def)
qed

lemma parsers_agree:
  assumes "conditions_from_bytes blob = Some a" and "conditions_validate a"
  shows "parseConditionsArtifact blob = Inr a"
proof -
  obtain magic off where p: "borsh_artifact blob 0 = Inr ((magic, a), off)" and magic: "magic = MAGIC"
    and ver: "formatVersion a = FORMAT_VERSION_CONDITIONS" and code: "formulaCode a = FORMULA_CODE_CONDITIONS"
    using assms(1) by (auto simp: conditions_from_bytes_def result_simps split: sum.splits if_splits)
  obtain o1 version o2 formula o3 mode o4 fs o5 es where
    r: "borsh_bytes 4 blob 0 = Inr (magic, o1)" "read_uint 2 blob o1 = Inr (version, o2)"
      "read_uint 1 blob o2 = Inr (formula, o3)" "read_uint 1 blob o3 = Inr (mode, o4)"
      "borsh_vec borsh_fixture blob o4 = Inr (fs, o5)" "borsh_vec borsh_entrant blob o5 = Inr (es, off)"
    and a: "a = \<lparr>formatVersion = version, formulaCode = formula, winnersMode = mode, fixtures = fs, entrants = es\<rparr>"
    using p unfolding borsh_artifact_def by (elim result_elims) auto
  have es: "map number_entrant es = es" using validated_odds [OF assms(2)] by (simp add: a)
  note q = reads_asD [OF reads_bytes r(1)] reads_asD [OF reads_uint r(2)] reads_asD [OF reads_u8 r(3)]
    reads_asD [OF reads_u8 r(4)] reads_asD [OF reads_vec [OF reads_fixture] r(5)] reads_asD [OF reads_vec [OF reads_entrant] r(6)]
  have "conditionsR blob 0 = Inr (a, off)"
    unfolding conditionsR_def takeU16_def
    using magic ver code by (simp add: bindR_def q es throwIfR_def a retR_def tag_of_def)
  then show ?thesis by (simp add: parseConditionsArtifact_def runR_def)
qed

section \<open>How much a reader consumes\<close>

definition steps :: "nat \<Rightarrow> 'a reader \<Rightarrow> bool" where
  "steps k p \<longleftrightarrow> (\<forall>buf off v off'. p buf off = Inr (v, off') \<longrightarrow> off \<le> length buf \<longrightarrow> off + k \<le> off' \<and> off' \<le> length buf)"

lemma steps_basic: "steps 0 (retR v)" "steps n (read_uint n)" "steps n (borsh_bytes n)"
  by (auto simp: steps_def retR_def result_simps borsh_bytes_def)

lemma steps_bind: "steps j p \<Longrightarrow> (\<And>v. steps k (f v)) \<Longrightarrow> steps (j + k) (bindR p f)"
  by (fastforce simp: steps_def bindR_Inr_iff)

lemma steps_less: "steps k p \<Longrightarrow> j \<le> k \<Longrightarrow> steps j p"
  by (fastforce simp: steps_def)

lemma steps_repeat: "steps k p \<Longrightarrow> steps (n * k) (repeatR n p)"
proof (induction n)
  case 0
  show ?case by (simp add: steps_basic)
next
  case (Suc n)
  have "steps (k + (n * k + 0)) (repeatR (Suc n) p)"
    unfolding repeatR.simps by (rule steps_bind [OF Suc.prems], rule steps_bind [OF Suc.IH [OF Suc.prems]], rule steps_basic)
  then show ?case by simp
qed

lemma steps_uint: "steps 0 (read_uint n)"
  by (rule steps_less [OF steps_basic(2)]) simp

lemma steps_bind0: "steps 0 p \<Longrightarrow> (\<And>v. steps 0 (f v)) \<Longrightarrow> steps 0 (bindR p f)"
  using steps_bind [of 0 p 0 f] by simp

lemma steps_vec: "steps k p \<Longrightarrow> steps 0 (borsh_vec p)"
  unfolding borsh_vec_def by (intro steps_bind0 steps_uint) (rule steps_less [OF steps_repeat], assumption, simp)

lemma steps_signed: "steps 0 (borsh_signed n)"
  unfolding borsh_signed_def by (intro steps_bind0 steps_uint steps_basic(1))

lemma steps_stat: "steps 0 borsh_stat"
  unfolding borsh_stat_def by (intro steps_bind0 steps_uint steps_signed steps_basic(1))

lemma steps_leg: "steps 0 borsh_leg"
  unfolding borsh_leg_def
  by (intro steps_bind0 steps_uint steps_signed steps_basic(1))

lemma steps_fixture: "steps 0 borsh_fixture"
  unfolding borsh_fixture_def
  by (intro steps_bind0 steps_uint steps_vec [OF steps_stat] steps_basic(1) steps_less [OF steps_basic(3)]) simp

lemma steps_entrant: "steps 1 borsh_entrant"
proof -
  have "steps (32 + 0) borsh_entrant"
    unfolding borsh_entrant_def
    by (rule steps_bind [OF steps_basic(3)])
       (intro steps_bind0 steps_uint steps_signed steps_vec [OF steps_leg] steps_vec [OF steps_uint] steps_basic(1))
  then show ?thesis by (rule steps_less) simp
qed

text \<open>An artifact has fewer entrants than bytes, and its roots and wallets have 32 bytes.\<close>

lemma artifact_size:
  assumes "conditions_from_bytes blob = Some a"
  shows "length (entrants a) \<le> length blob" and "\<forall>f \<in> set (fixtures a). length (eventStatRoot f) = 32"
    and "\<forall>e \<in> set (entrants a). length (e_wallet e) = 32"
proof -
  obtain magic off where p: "borsh_artifact blob 0 = Inr ((magic, a), off)"
    using assms by (auto simp: conditions_from_bytes_def result_simps split: sum.splits if_splits)
  obtain o1 version o2 formula o3 mode o4 fs o5 es where
    r: "borsh_bytes 4 blob 0 = Inr (magic, o1)" "read_uint 2 blob o1 = Inr (version, o2)"
      "read_uint 1 blob o2 = Inr (formula, o3)" "read_uint 1 blob o3 = Inr (mode, o4)"
      "borsh_vec borsh_fixture blob o4 = Inr (fs, o5)" "borsh_vec borsh_entrant blob o5 = Inr (es, off)"
    and a: "a = \<lparr>formatVersion = version, formulaCode = formula, winnersMode = mode, fixtures = fs, entrants = es\<rparr>"
    using p unfolding borsh_artifact_def by (elim result_elims) auto
  have "o1 \<le> length blob" "o2 \<le> length blob" "o3 \<le> length blob" "o4 \<le> length blob"
    using r(1-4) by (auto simp: borsh_bytes_def result_simps)
  then have o5: "o5 \<le> length blob" using steps_vec [OF steps_fixture] r(5) unfolding steps_def by blast
  obtain n off1 where n: "read_uint 4 blob o5 = Inr (n, off1)" and es: "repeatR (nat n) borsh_entrant blob off1 = Inr (es, off)"
    using r(6) by (auto simp: borsh_vec_def result_simps)
  have "off1 \<le> length blob" using n by (auto simp: result_simps)
  then have "off1 + nat n * 1 \<le> off \<and> off \<le> length blob"
    using steps_repeat [OF steps_entrant, of "nat n"] es unfolding steps_def by blast
  then show "length (entrants a) \<le> length blob" using repeatR_Inr_D [OF es] by (simp add: a)
  have w: "length (e_wallet e) = 32" if "borsh_entrant blob p1 = Inr (e, p2)" for e p1 p2
    using that unfolding borsh_entrant_def borsh_bytes_def by (elim result_elims) (auto dest: readBytes_length)
  then show "\<forall>e \<in> set (entrants a). length (e_wallet e) = 32" using repeatR_Inr_D [OF es] a by auto
  obtain m off2 where fs: "repeatR m borsh_fixture blob off2 = Inr (fs, o5)"
    using r(5) by (auto simp: borsh_vec_def result_simps)
  have f: "length (eventStatRoot x) = 32" if "borsh_fixture blob p1 = Inr (x, p2)" for x p1 p2
    using that unfolding borsh_fixture_def borsh_bytes_def by (elim result_elims) (auto dest: readBytes_length)
  then show "\<forall>f \<in> set (fixtures a). length (eventStatRoot f) = 32" using repeatR_Inr_D [OF fs] a by auto
qed

end
