(* ===== verification/Conditions_Resolved.thy ===== *)
theory Conditions_Resolved
  imports Conditions_Program Conditions_Rank Verify_Claims
begin

text \<open>
  From the program to the verifier: a round that \<^verbatim>\<open>resolve_conditions\<close> of the program resolves, in any state it can
  reach, is what \<^verbatim>\<open>sdk/conditions.ts\<close> computes from the same bytes, and the verifier, which reads the same accounts,
  answers MATCH. The facts must be small: a saturated sum or difference is scored differently on the two sides.
\<close>

section \<open>The two scorers\<close>

lemma program_stats_same: "program_stats = stats_at"
  by (simp add: fun_eq_iff program_stats_def stats_at_def)

definition small_facts :: "conditions_artifact \<Rightarrow> bool" where
  "small_facts a \<longleftrightarrow> list_all (\<lambda>f. list_all (\<lambda>s. \<bar>statVal s\<bar> < 536870912) (fixtureStats f)) (fixtures a)"

lemma small_factsD: "small_facts a \<Longrightarrow> small_stats (stats_at (fixtures a) i)"
  by (auto simp: small_facts_def small_stats_def stats_at_def list_all_iff)

lemma resolve_agrees:
  assumes "conditions_validate a" and "small_facts a"
  shows "resolve_conditions_artifact a = resolveConditionsArtifact a"
proof -
  have "ranked_of (fixtures a) e = resolveEntrant (fixtures a) e" if "e \<in> set (entrants a)" for e
  proof -
    have "length (e_fixtureIndex e) = length (e_legs e)"
      using assms(1) that by (auto simp: conditions_validate_def list_all_iff)
    then have "score_slip (e_legs e) (map (stats_at (fixtures a)) (e_fixtureIndex e))
        = scoreSlip (e_legs e) (map (stats_at (fixtures a)) (e_fixtureIndex e))"
      using small_factsD [OF assms(2)] by (intro score_slip_agrees) auto
    then show ?thesis by (simp add: ranked_of_def resolveEntrant_def program_stats_same)
  qed
  then show ?thesis by (simp add: resolve_conditions_artifact_def resolveConditionsArtifact_def rank_round_agrees cong: map_cong)
qed

lemma winner_fold:
  assumes "\<forall>r \<in> set rs. 0 \<le> r_scoreFixed r \<and> r_scoreFixed r \<le> U64_MAX"
    and "0 \<le> n" "n + int (length rs) \<le> 65535" "0 \<le> s" "s + int (length rs) * U64_MAX \<le> U128_MAX"
  shows "foldl winner_step (n, s, h) rs = (n + int (length rs), foldl (\<lambda>s r. s + r_scoreFixed r) s rs,
    h @ concat (map (\<lambda>r. r_wallet r @ le_bytes 8 (r_scoreFixed r)) rs))"
  using assms
proof (induction rs arbitrary: n s h)
  case (Cons r rs)
  have r: "0 \<le> r_scoreFixed r" "r_scoreFixed r \<le> U64_MAX" using Cons.prems(1) by auto
  have e: "int (length (r # rs)) * U64_MAX = U64_MAX + int (length rs) * U64_MAX" by (simp add: algebra_simps)
  have pos: "0 \<le> int (length rs) * U64_MAX" by (simp add: U64_MAX_def)
  have s: "s + r_scoreFixed r + int (length rs) * U64_MAX \<le> U128_MAX" using Cons.prems(5) r(2) unfolding e by linarith
  then have s': "s + r_scoreFixed r \<le> U128_MAX" using pos by linarith
  have "winner_step (n, s, h) r = (n + 1, s + r_scoreFixed r, h @ r_wallet r @ le_bytes 8 (r_scoreFixed r))"
    using Cons.prems r s' by (simp add: winner_step_def saturate_def)
  then show ?case using Cons.IH [of "n + 1" "s + r_scoreFixed r"] Cons.prems r s by simp
qed simp

text \<open>The attestation states what the client computes from the artifact.\<close>

definition attests :: "conditions_event \<Rightarrow> conditions_artifact \<Rightarrow> bool" where
  "attests event a \<longleftrightarrow>
     (let ranked = resolveConditionsArtifact a in
      ce_entrantCount event = int (length (entrants a)) \<and> ce_winnerCount event = int (length (filter r_allHit ranked))
      \<and> ce_winningScoreSum event = winningScoreSum ranked \<and> winnersDigest ranked = Inr (ce_winnersDigest event)
      \<and> factsRefRoot a = Inr (ce_factsRefRoot event))"

lemma attestation_attests:
  assumes parse: "conditions_from_bytes blob = Some a" and valid: "conditions_validate a" and small: "small_facts a"
    and len: "length blob \<le> MAX_COMPILED_ARTIFACT_BYTES"
  shows "attests (conditions_attestation actor runtimeId hash a) a"
proof -
  let ?rs = "filter r_allHit (resolveConditionsArtifact a)"
  have n: "length (entrants a) \<le> 8192"
    using artifact_size(1) [OF parse] len by (simp add: MAX_COMPILED_ARTIFACT_BYTES_def)
  have "length ?rs \<le> length (resolveConditionsArtifact a)" by (rule length_filter_le)
  moreover have "length (resolveConditionsArtifact a) = length (entrants a)"
    by (simp add: resolveConditionsArtifact_def rankRound_def)
  ultimately have k: "length ?rs \<le> 8192" using n by simp
  then have "int (length ?rs) * U64_MAX \<le> 8192 * U64_MAX" by (intro mult_right_mono) (simp_all add: U64_MAX_def)
  then have sum: "int (length ?rs) * U64_MAX \<le> U128_MAX" by (simp add: U64_MAX_def U128_MAX_def)
  have "0 \<le> r_scoreFixed r \<and> r_scoreFixed r \<le> U64_MAX" if r: "r \<in> set (resolveConditionsArtifact a)" for r
  proof -
    from r obtain e where r: "r = resolveEntrant (fixtures a) e"
      by (auto simp: resolveConditionsArtifact_def rankRound_def)
    show ?thesis
      using score_range [of "e_legs e" "map (stats_at (fixtures a)) (e_fixtureIndex e)"]
      by (simp add: r resolveEntrant_def Let_def U64_MAX_def)
  qed
  then have "\<forall>r \<in> set ?rs. 0 \<le> r_scoreFixed r \<and> r_scoreFixed r \<le> U64_MAX" by simp
  note fold = winner_fold [OF this, of 0 0 "[]"]
  show ?thesis
    using fold k sum n conditions_digests_total [OF parsers_agree [OF parse valid]]
    by (simp add: attests_def conditions_attestation_def resolve_agrees [OF valid small] winningScoreSum_def Let_def)
qed

section \<open>What the verifier reads\<close>

text \<open>The sizes that \<^verbatim>\<open>submit_compiled_artifact\<close> and \<^verbatim>\<open>init_compiled_artifact_chunk\<close> check hold in every
  reachable state.\<close>

definition well_sized :: "store \<Rightarrow> bool" where
  "well_sized st \<longleftrightarrow>
     (\<forall>hash a. st_artifacts st hash = Some a \<longrightarrow> fa_blobLen a \<le> MAX_COMPILED_ARTIFACT_BYTES \<and> fa_chunkCount a \<le> 8) \<and>
     (\<forall>hash i c. st_chunks st (hash, i) = Some c \<longrightarrow> i < 8)"

lemma well_sized_execute:
  assumes "well_sized st" and "program_execute env ix st = Some st'"
  shows "well_sized st'"
  using assms
  by (cases ix) (fastforce simp: well_sized_def open_artifact_def split: if_splits option.splits)+

lemma reach_well_sized: "program_reach accepts st \<Longrightarrow> well_sized st"
proof (induction rule: program_reach.induct)
  case fresh
  show ?case by (simp add: well_sized_def fresh_store_def)
qed (rule well_sized_execute)

lemma shown_chunk:
  assumes "shows_store w programId st" and "load_chunk a hash st i = Some part"
  shows "fetch_chunk w programId hash (fa_blobLen a) i = Inr part"
proof -
  from assms(2) obtain c where c: "st_chunks st (hash, i) = Some c" "expected_len a i = Some (fc_written c)"
    "part = take (fc_written c) (fc_data c)"
    by (auto simp: load_chunk_def split: option.splits if_splits)
  then have "stored_chunk st hash i = Some \<lparr>ac_compiledArtifactHash = hash, ac_chunkIndex = i,
      ac_writtenLen = fc_written c, ac_data = fc_data c\<rparr>"
    by (simp add: stored_chunk_def)
  then obtain key data where "deriveApprovedArtifactChunkPda w programId hash i = Inr key"
    "w_account w key = Inr (Some data)"
    "w_decodeChunk w data = Inr \<lparr>ac_compiledArtifactHash = hash, ac_chunkIndex = i, ac_writtenLen = fc_written c, ac_data = fc_data c\<rparr>"
    using assms(1) by (fastforce simp: shows_store_def holds_def)
  moreover have "int (fc_written c) = expectedChunkLen (fa_blobLen a) i"
    using c(2) by (auto simp: expected_len_def expectedChunkLen_def CHUNK_SIZE_def Let_def split: if_splits)
  ultimately show ?thesis by (simp add: fetch_chunk_def found_def mismatch_on_error_def c(3))
qed

text \<open>Whoever reads the accounts of a reachable state under a finalized header gets the bytes that the program loads.\<close>

lemma shown_blob:
  assumes reach: "program_reach accepts st" and a: "st_artifacts st hash = Some a" "fa_finalized a"
    and shows_st: "shows_store w programId st" and load: "load_blob a hash st remaining = Some blob"
    and config: "config_hash w programId runtimeId = Inr hash"
  shows "event_blob w programId runtimeId hash = Inr blob" "length blob \<le> MAX_COMPILED_ARTIFACT_BYTES"
proof -
  let ?is = "[0..<fa_chunkCount a]"
  let ?h = "\<lparr>ah_compiledArtifactHash = hash, ah_isFinalized = fa_finalized a, ah_status = fa_status a,
     ah_blobLen = fa_blobLen a, ah_chunkCount = fa_chunkCount a\<rparr>"
  have rest: "remaining = ?is" and parts: "\<And>i. i \<in> set ?is \<Longrightarrow> load_chunk a hash st i \<noteq> None"
    and blob: "blob = concat (map (\<lambda>i. the (load_chunk a hash st i)) ?is)" "length blob = fa_blobLen a"
    using load by (auto simp: load_blob_def list_ex_iff Let_def split: if_splits)
  have "mapE (fetch_chunk w programId hash (fa_blobLen a)) ?is = Inr (map (\<lambda>i. the (load_chunk a hash st i)) ?is)"
    by (rule mapE_ok) (use parts shown_chunk [OF shows_st] in auto)
  then have re: "reconstructArtifactBlob w programId hash ?h = Inr blob"
    using blob by (simp add: reconstructArtifactBlob_def)
  have "sealed accepts st hash a" using reach_well_sealed [OF reach] a unfolding well_sealed_def by blast
  then have "sha256 blob = hash" using load unfolding rest sealed_def by force
  then have committed: "committed_blob w programId hash ?h = Inr blob" by (simp add: committed_blob_def re)
  have "holds w (deriveApprovedArtifactPda w programId hash) (w_decodeHeader w) ?h"
    using shows_st a(1) by (simp add: shows_store_def stored_header_def)
  then have "artifact_account w programId hash = Inr ?h"
    by (auto simp: artifact_account_def holds_def fetchDecodedAccount_def found_def mismatch_on_error_def)
  then show "event_blob w programId runtimeId hash = Inr blob"
    using committed a(2) by (simp add: event_blob_def config check_header_def)
  show "length blob \<le> MAX_COMPILED_ARTIFACT_BYTES"
    using reach_well_sized [OF reach] a(1) blob(2) by (simp add: well_sized_def)
qed

lemma resolve_D:
  assumes "resolve_conditions actor runtimeId cfg remaining st = Some event"
  shows "\<exists>acc blob a. st_artifacts st (cg_hash cfg) = Some acc \<and> load_blob acc (cg_hash cfg) st remaining = Some blob
    \<and> conditions_from_bytes blob = Some a \<and> conditions_validate a
    \<and> event = conditions_attestation actor runtimeId (cg_hash cfg) a"
  using assms by (auto simp: resolve_conditions_def split: option.splits if_splits)

lemma attested_matches:
  assumes "event_blob w programId (ce_runtimeId event) (ce_compiledArtifactHash event) = Inr blob"
    and "parseConditionsArtifact blob = Inr a" and "attests event a"
    and "formatVersion a = FORMAT_VERSION_CONDITIONS" "formulaCode a = FORMULA_CODE_CONDITIONS"
  shows "\<exists>r. verifyConditions w programId event = Inr r \<and> vr_status r = MATCH"
  using assms
  by (simp add: verifyConditions_def mismatch_on_error_def attests_def Let_def compare_conditions_def match_result_def)

section \<open>Resolved rounds verify\<close>

text \<open>C8: a round that the program resolves verifies. In every state that the program can reach, when the handler
  accepts a finalized artifact whose facts are below 2 ^ 29, the event it emits matches the verifier's replay of the
  accounts: the same entrants, winners, sum of scores and digests.\<close>

theorem resolved_round_verifies:
  assumes "program_reach accepts st" and "shows_store w programId st"
    and "resolve_conditions actor runtimeId cfg remaining st = Some event"
    and "config_hash w programId runtimeId = Inr (cg_hash cfg)"
    and "st_artifacts st (cg_hash cfg) = Some acc" and "fa_finalized acc"
    and "\<And>blob a. load_blob acc (cg_hash cfg) st remaining = Some blob \<Longrightarrow> conditions_from_bytes blob = Some a \<Longrightarrow> small_facts a"
  shows "\<exists>blob a r. sha256 blob = cg_hash cfg \<and> parseConditionsArtifact blob = Inr a \<and> attests event a
    \<and> verifyConditions w programId event = Inr r \<and> vr_status r = MATCH"
proof -
  obtain blob a where load: "load_blob acc (cg_hash cfg) st remaining = Some blob"
    and a: "conditions_from_bytes blob = Some a" "conditions_validate a"
    and event: "event = conditions_attestation actor runtimeId (cg_hash cfg) a"
    using resolve_D [OF assms(3)] assms(5) by auto
  note shown = shown_blob [OF assms(1,5,6,2) load assms(4)]
  have parse: "parseConditionsArtifact blob = Inr a" using a by (rule parsers_agree)
  have attests: "attests event a"
    unfolding event using a assms(7) [OF load a(1)] shown(2) by (rule attestation_attests)
  have "ce_runtimeId event = runtimeId" "ce_compiledArtifactHash event = cg_hash cfg"
    by (simp_all add: event conditions_attestation_def split: prod.split)
  then have here: "event_blob w programId (ce_runtimeId event) (ce_compiledArtifactHash event) = Inr blob"
    using shown(1) by simp
  have "formatVersion a = FORMAT_VERSION_CONDITIONS" "formulaCode a = FORMULA_CODE_CONDITIONS"
    using a(1) by (auto simp: conditions_from_bytes_def split: sum.splits if_splits)
  with attested_matches [OF here parse attests] event_blob_D(1) [OF here] parse attests show ?thesis
    using \<open>ce_compiledArtifactHash event = cg_hash cfg\<close> by auto
qed

section \<open>A chain that holds a round\<close>

text \<open>The accounts of a store at addresses that are their seeds.\<close>

definition store_world :: "buffer \<Rightarrow> store \<Rightarrow> world" where
  "store_world configured st =
     (sample_world configured [] [])
       \<lparr>w_decodeHeader := (\<lambda>data. case stored_header st (drop 25 data) of None \<Rightarrow> Inl (Error ''header'') | Some h \<Rightarrow> Inr h),
        w_decodeChunk := (\<lambda>data.
          case stored_chunk st (take (length data - 35) (drop 31 data)) (nat (le_uint (drop (length data - 4) data))) of
            None \<Rightarrow> Inl (Error ''chunk'') | Some c \<Rightarrow> Inr c)\<rparr>"

lemma chunk_address_parts:
  assumes "length p = 31" and "i < 8"
  shows "take (length (p @ hash @ le_bytes 4 (int i)) - 35) (drop 31 (p @ hash @ le_bytes 4 (int i))) = hash"
    "nat (le_uint (drop (length (p @ hash @ le_bytes 4 (int i)) - 4) (p @ hash @ le_bytes 4 (int i)))) = i"
  using assms by simp_all

lemma store_world_shows:
  assumes "program_reach accepts st"
  shows "shows_store (store_world configured st) programId st"
proof -
  let ?w = "store_world configured st"
  have "holds ?w (deriveApprovedArtifactChunkPda ?w programId hash i) (w_decodeChunk ?w) c"
    if c: "stored_chunk st hash i = Some c" for hash i c
  proof -
    from c obtain z where "st_chunks st (hash, i) = Some z" by (auto simp: stored_chunk_def)
    with reach_well_sized [OF assms] have "i < 8" unfolding well_sized_def by blast
    then show ?thesis
      using c chunk_address_parts [of "utf8_encode (js ''approved_outcome_artifact_chunk'')" i hash]
      by (simp add: holds_def deriveApprovedArtifactChunkPda_def store_world_def sample_world_def js_def sample_seed_bytes)
  qed
  then show ?thesis
    by (simp add: shows_store_def holds_def deriveApprovedArtifactPda_def store_world_def sample_world_def js_def sample_seed_bytes)
qed

lemma store_world_config: "config_hash (store_world blob st) p runtimeId = Inr (sha256 blob)"
  by (simp add: config_hash_def deriveOutcomeConfigPda_def fetchDecodedAccount_def found_def mismatch_on_error_def
      store_world_def sample_world_def)

definition conditions_env :: program_env where
  "conditions_env = \<lparr>pe_signer = zeros 32, pe_admin = zeros 32,
     pe_accepts = \<lambda>version blob. version = 9 \<and>
       (case conditions_from_bytes blob of None \<Rightarrow> False | Some a \<Rightarrow> conditions_validate a)\<rparr>"

definition config_for :: "buffer \<Rightarrow> conditions_config" where
  "config_for blob = \<lparr>cg_authority = replicate 32 4, cg_attester = zeros 32, cg_hash = sha256 blob\<rparr>"

text \<open>Uploaded, approved and bound, an artifact is resolved.\<close>

lemma round_resolved:
  assumes "acceptable conditions_env blob [] 9" and "conditions_from_bytes blob = Some a"
  shows "\<exists>st acc remaining. program_reach (pe_accepts conditions_env) st \<and> st_artifacts st (sha256 blob) = Some acc
    \<and> fa_finalized acc \<and> load_blob acc (sha256 blob) st remaining = Some blob
    \<and> resolve_conditions (replicate 32 4) runtimeId (config_for blob) remaining st
        = Some (conditions_attestation (replicate 32 4) runtimeId (sha256 blob) a)"
proof -
  have "uploadable conditions_env blob [] 9 fresh_store"
    using assms(1) by (simp add: fresh_store_consistent program_reach.fresh)
  from submit_served [OF this] obtain st where st: "program_reach (pe_accepts conditions_env) st" "consistent conditions_env blob 9 st"
    "cn_artifact (program_api conditions_env) (sha256 blob) st = Some (True, STATUS_APPROVED)" by blast
  then obtain acc where acc: "st_artifacts st (sha256 blob) = Some acc" "fa_finalized acc"
    by (auto simp: program_api_def)
  have "conditions_validate a" using assms by (simp add: acceptable_def conditions_env_def)
  moreover have "load_blob acc (sha256 blob) st [0..<chunk_count blob] = Some blob"
    using st(2) acc assms(1)
    by (intro load_blob_complete) (auto simp: consistent_def header_consistent_def acceptable_def)
  moreover have "resolve_conditions (replicate 32 4) runtimeId (config_for blob) [0..<chunk_count blob] st
      = Some (conditions_attestation (replicate 32 4) runtimeId (sha256 blob) a)"
    using calculation acc assms(2) by (simp add: resolve_conditions_def config_for_def)
  ultimately show ?thesis using st(1) acc by blast
qed

definition round_blob :: "conditions_fixture list \<Rightarrow> conditions_entrant list \<Rightarrow> buffer" where
  "round_blob fs es = (case buildConditionsArtifact fs es of Inr b \<Rightarrow> b | Inl _ \<Rightarrow> [])"

abbreviation sample_round_artifact :: conditions_artifact where
  "sample_round_artifact \<equiv> built_artifact [sample_fixture] [sample_entrant]"

abbreviation sample_round_blob :: buffer where
  "sample_round_blob \<equiv> round_blob [sample_fixture] [sample_entrant]"

lemma sample_round:
  "conditions_from_bytes sample_round_blob = Some sample_round_artifact"
  "artifactFormatVersion sample_round_blob = Inr 9"
  "length sample_round_blob \<le> 8192 \<and> sample_round_blob \<noteq> []"
  "conditions_validate sample_round_artifact" "small_facts sample_round_artifact"
  "length (filter r_allHit (resolveConditionsArtifact sample_round_artifact)) = 1"
  by code_simp+

lemma acceptable_round:
  assumes "conditions_from_bytes blob = Some a" "artifactFormatVersion blob = Inr 9" "length blob \<le> 8192 \<and> blob \<noteq> []"
    "conditions_validate a"
  shows "acceptable conditions_env blob [] 9"
  using assms by (simp add: acceptable_def conditions_env_def known_version_def MAX_COMPILED_ARTIFACT_BYTES_def)

lemma resolved_round_verifies_witness:
  "\<exists>w programId event r. ce_compiledArtifactHash event = sha256 sample_round_blob \<and> ce_winnerCount event = 1
    \<and> verifyConditions w programId event = Inr r \<and> vr_status r = MATCH"
proof -
  let ?h = "sha256 sample_round_blob" and ?cfg = "config_for sample_round_blob" and ?id = "replicate 16 (1 :: byte)"
  obtain st acc remaining event where st: "program_reach (pe_accepts conditions_env) st" "st_artifacts st ?h = Some acc"
      "fa_finalized acc" "load_blob acc ?h st remaining = Some sample_round_blob"
    and event: "event = conditions_attestation (replicate 32 4) ?id ?h sample_round_artifact"
    and resolved: "resolve_conditions (replicate 32 4) ?id ?cfg remaining st = Some event"
    using round_resolved [OF acceptable_round [OF sample_round(1-4)] sample_round(1), of ?id] by blast
  let ?w = "store_world sample_round_blob st"
  have cfg: "cg_hash ?cfg = ?h" by (simp add: config_for_def)
  have small: "small_facts a" if "load_blob acc (cg_hash ?cfg) st remaining = Some b" "conditions_from_bytes b = Some a" for b a
    using that st(4) sample_round(1,5) by (simp add: cfg)
  have "\<exists>blob a r. sha256 blob = cg_hash ?cfg \<and> parseConditionsArtifact blob = Inr a \<and> attests event a
      \<and> verifyConditions ?w [] event = Inr r \<and> vr_status r = MATCH"
    by (rule resolved_round_verifies [OF st(1) store_world_shows [OF st(1)] resolved _ _ st(3)])
       (use st(2) small in \<open>auto simp: cfg store_world_config\<close>)
  then obtain r where r: "verifyConditions ?w [] event = Inr r" "vr_status r = MATCH" by blast
  have "attests event sample_round_artifact"
    unfolding event MAX_COMPILED_ARTIFACT_BYTES_def
    by (rule attestation_attests [OF sample_round(1,4,5), unfolded MAX_COMPILED_ARTIFACT_BYTES_def])
       (rule conjunct1 [OF sample_round(3)])
  then have "ce_winnerCount event = 1" using sample_round(6) by (simp add: attests_def Let_def)
  moreover have "ce_compiledArtifactHash event = ?h" by (simp add: event conditions_attestation_def split: prod.split)
  ultimately show ?thesis using r by blast
qed

section \<open>Where they differ\<close>

text \<open>Two readings that add up to more than 32 bits, and a leg that bets on the largest number.\<close>

definition large_fixture :: conditions_fixture where
  "large_fixture = sample_fixture\<lparr>fixtureStats := [\<lparr>statKey = 1, statVal = 2147483647\<rparr>, \<lparr>statKey = 2, statVal = 1\<rparr>]\<rparr>"

definition large_entrant :: conditions_entrant where
  "large_entrant = sample_entrant\<lparr>e_legs := [sample_leg\<lparr>comparison := 2, threshold := 2147483647, lineX2 := NO_LINE\<rparr>]\<rparr>"

abbreviation large_artifact :: conditions_artifact where
  "large_artifact \<equiv> built_artifact [large_fixture] [large_entrant]"

abbreviation large_blob :: buffer where
  "large_blob \<equiv> round_blob [large_fixture] [large_entrant]"

lemma large_round:
  "conditions_from_bytes large_blob = Some large_artifact"
  "artifactFormatVersion large_blob = Inr 9"
  "length large_blob \<le> 8192 \<and> large_blob \<noteq> []"
  "conditions_validate large_artifact"
  "map r_allHit (resolveConditionsArtifact large_artifact) = [False]"
  "map r_allHit (resolve_conditions_artifact large_artifact) = [True]"
  by code_simp+

text \<open>Without the bound on the facts a round that the program resolves need not verify: the program saturates a sum
  that the client computes exactly, and the verifier counts other winners.\<close>

theorem saturated_round_mismatch:
  "\<exists>st w programId actor runtimeId cfg remaining event.
     program_reach (pe_accepts conditions_env) st \<and> shows_store w programId st
     \<and> config_hash w programId runtimeId = Inr (cg_hash cfg)
     \<and> resolve_conditions actor runtimeId cfg remaining st = Some event
     \<and> verifyConditions w programId event = Inl (ReplayMismatch ''ERR_WINNER_COUNT_MISMATCH'')"
proof -
  let ?h = "sha256 large_blob" and ?cfg = "config_for large_blob" and ?id = "replicate 16 (1 :: byte)"
  let ?event = "conditions_attestation (replicate 32 4) ?id ?h large_artifact"
  obtain st acc remaining where st: "program_reach (pe_accepts conditions_env) st" "st_artifacts st ?h = Some acc"
      "fa_finalized acc" "load_blob acc ?h st remaining = Some large_blob"
    and resolved: "resolve_conditions (replicate 32 4) ?id ?cfg remaining st = Some ?event"
    using round_resolved [OF acceptable_round [OF large_round(1-4)] large_round(1), of ?id] by blast
  let ?w = "store_world large_blob st"
  have cfg: "cg_hash ?cfg = ?h" by (simp add: config_for_def)
  have parse: "parseConditionsArtifact large_blob = Inr large_artifact" using large_round(1,4) by (rule parsers_agree)
  have winners: "filter r_allHit (resolveConditionsArtifact large_artifact) = []"
    using large_round(5) by (auto simp: Cons_eq_map_conv map_eq_Cons_conv)
  obtain r where "filter r_allHit (resolve_conditions_artifact large_artifact) = [r]"
    using large_round(6) by (auto simp: map_eq_Cons_conv)
  then have event: "ce_winnerCount ?event = 1" "ce_entrantCount ?event = 1" "ce_runtimeId ?event = ?id"
    "ce_compiledArtifactHash ?event = ?h"
    by (simp_all add: conditions_attestation_def winner_step_def saturate_def built_artifact_def)
  have "event_blob ?w [] ?id ?h = Inr large_blob"
    using shown_blob(1) [OF st(1,2,3) store_world_shows [OF st(1)] st(4), of large_blob "[]"] by (simp add: store_world_config)
  then have "verifyConditions ?w [] ?event = Inl (ReplayMismatch ''ERR_WINNER_COUNT_MISMATCH'')"
    using conditions_digests_total [OF parse] winners event
    by (simp add: verifyConditions_def parse mismatch_on_error_def compare_conditions_def Let_def throwIf_def
        built_artifact_def)
  with st(1) store_world_shows [OF st(1)] resolved store_world_config [of large_blob st "[]" ?id] show ?thesis
    unfolding cfg [symmetric] by blast
qed

end
