(* ===== verification/Conditions_Operator.thy ===== *)
theory Conditions_Operator
  imports Conditions_Resolved
begin

text \<open>
  \<^verbatim>\<open>sdk/conditions_operator.ts\<close>: committing the rules of a round and resolving it, with requests that may be lost, against
  the program that uploads, binds and resolves. The chain is the accounts of \<open>store\<close>, the runtime configurations and
  the events emitted so far. Signatures of transactions are reduced to whether one was sent.
\<close>

section \<open>The program\<close>

record round_chain =
  rc_store :: store
  rc_configs :: "buffer \<Rightarrow> conditions_config option"
  rc_events :: "conditions_event list"

text \<open>The flag of the program configuration, and the checks of the other formats, which are other parts of the program.\<close>

record binding_env =
  be_allowUnreviewed :: bool
  be_binds :: "int \<Rightarrow> buffer \<Rightarrow> int \<Rightarrow> int \<Rightarrow> bool"

definition STATUS_REJECTED :: nat where "STATUS_REJECTED = 2"

definition status_allows_binding :: "bool \<Rightarrow> nat \<Rightarrow> bool" where
  "status_allows_binding allow status =
     (if allow then status = STATUS_APPROVED \<or> status = STATUS_PENDING \<or> status = STATUS_DEPRECATED
      else status = STATUS_APPROVED \<or> status = STATUS_DEPRECATED)"

definition binds_blob :: "binding_env \<Rightarrow> int \<Rightarrow> buffer \<Rightarrow> int \<Rightarrow> int \<Rightarrow> bool" where
  "binds_blob be version blob minInput maxInput =
     (if version = FORMAT_VERSION_CONDITIONS then
        (case conditions_from_bytes blob of None \<Rightarrow> False
         | Some parsed \<Rightarrow> conditions_validate parsed \<and> minInput = 0 \<and> maxInput = 0)
      else be_binds be version blob minInput maxInput)"

definition initialize_outcome_config ::
  "program_env \<Rightarrow> binding_env \<Rightarrow> buffer \<Rightarrow> int \<Rightarrow> int \<Rightarrow> buffer \<Rightarrow> nat list \<Rightarrow> round_chain \<Rightarrow> round_chain option" where
  "initialize_outcome_config env be runtimeId minInput maxInput hash remaining c =
     (case st_artifacts (rc_store c) hash of None \<Rightarrow> None
      | Some artifact \<Rightarrow>
          if rc_configs c runtimeId \<noteq> None \<or> maxInput < minInput \<or> \<not> fa_finalized artifact
             \<or> \<not> status_allows_binding (be_allowUnreviewed be) (fa_status artifact) \<or> fa_status artifact = STATUS_REJECTED then None
          else (case load_blob artifact hash (rc_store c) remaining of None \<Rightarrow> None
            | Some blob \<Rightarrow>
                if \<not> binds_blob be (fa_version artifact) blob minInput maxInput then None
                else Some (c\<lparr>rc_configs := (rc_configs c)(runtimeId \<mapsto>
                  \<lparr>cg_authority = pe_signer env, cg_attester = zeros 32, cg_hash = hash\<rparr>)\<rparr>)))"

definition resolve_round :: "program_env \<Rightarrow> buffer \<Rightarrow> nat list \<Rightarrow> round_chain \<Rightarrow> round_chain option" where
  "resolve_round env runtimeId remaining c =
     (case rc_configs c runtimeId of None \<Rightarrow> None
      | Some cfg \<Rightarrow>
         (case resolve_conditions (pe_signer env) runtimeId cfg remaining (rc_store c) of None \<Rightarrow> None
          | Some event \<Rightarrow> Some (c\<lparr>rc_events := rc_events c @ [event]\<rparr>)))"

definition conditions_api :: "program_env \<Rightarrow> round_chain chain_api" where
  "conditions_api env = \<lparr>cn_execute = (\<lambda>ix c. map_option (\<lambda>st. c\<lparr>rc_store := st\<rparr>) (program_execute env ix (rc_store c))),
     cn_artifact = (\<lambda>hash c. cn_artifact (program_api env) hash (rc_store c)),
     cn_written = (\<lambda>hash i c. cn_written (program_api env) hash i (rc_store c))\<rparr>"

section \<open>The client\<close>

text \<open>One transaction with an instruction that is not about an upload.\<close>

definition sendTx :: "(nat \<Rightarrow> fate) \<Rightarrow> ('s \<Rightarrow> 's option) \<Rightarrow> ('s, unit) client_routine" where
  "sendTx fates execute s =
     (let after = execute (fst s) in
      case fates (snd s) of
        Lost \<Rightarrow> (Inl (Error ''request failed''), (fst s, snd s + 1))
      | Served \<Rightarrow>
          (case after of None \<Rightarrow> (Inl (Error ''Transaction failed''), (fst s, snd s + 1))
           | Some st \<Rightarrow> (Inr (), (st, snd s + 1)))
      | Unseen \<Rightarrow>
          (Inl (Error ''request failed''), (case after of None \<Rightarrow> fst s | Some st \<Rightarrow> st, snd s + 1)))"

definition fetch_artifact :: "'s chain_api \<Rightarrow> (nat \<Rightarrow> fate) \<Rightarrow> buffer \<Rightarrow> ('s, bool \<times> nat) client_routine" where
  "fetch_artifact api fates hash =
     doS (ask fates (cn_artifact api hash)) (\<lambda>account.
     case account of None \<Rightarrow> throwS (Error ''Account does not exist'') | Some a \<Rightarrow> retS a)"

definition round_uri :: buffer where
  "round_uri = ascii_bytes (js ''oddsol-conditions'')"

text \<open>The result is (hash, chunks, whether it was finalized by this call).\<close>

definition submitArtifact ::
  "'s chain_api \<Rightarrow> (nat \<Rightarrow> fate) \<Rightarrow> buffer \<Rightarrow> bool \<Rightarrow> ('s, buffer \<times> nat list \<times> bool) client_routine" where
  "submitArtifact api fates blob review =
     (let hash = sha256 blob; chunks = [0..<chunk_count blob] in
      doS (ask fates (\<lambda>st. cn_artifact api hash st \<noteq> None)) (\<lambda>existing.
      doS (if existing then doS (fetch_artifact api fates hash) (\<lambda>a. retS (fst a))
           else doS (liftS (runR readU16LE blob 4)) (\<lambda>version.
                doS (sendOperatorInstructions api fates [Submit hash version (length blob)]) (\<lambda>_. retS False))) (\<lambda>finalized.
      doS (if \<not> finalized
           then doS (writeArtifactChunks api fates hash blob) (\<lambda>_.
                doS (sendOperatorInstructions api fates [Finalize hash chunks]) (\<lambda>_. retS True))
           else retS False) (\<lambda>sent.
      doS (if review
           then doS (fetch_artifact api fates hash) (\<lambda>acc.
                if snd acc \<noteq> STATUS_APPROVED then sendOperatorInstructions api fates [Review hash STATUS_APPROVED round_uri]
                else retS ())
           else retS ()) (\<lambda>_. retS (hash, chunks, sent))))))"

definition rule_of :: "conditions_fixture \<Rightarrow> conditions_fixture" where
  "rule_of f = f\<lparr>eventStatRoot := zeros 32, fixtureStats := []\<rparr>"

definition rulesBlob :: "conditions_fixture list \<Rightarrow> conditions_entrant list \<Rightarrow> buffer result" where
  "rulesBlob fs es = buildConditionsArtifact (map rule_of fs) es"

record commitment =
  cm_commitmentRef :: jsstr
  cm_conditionsHash :: jsstr
  cm_sent :: bool
  cm_committedAtSlot :: nat

definition commitConditions ::
  "'s chain_api \<Rightarrow> ('s \<Rightarrow> nat) \<Rightarrow> (nat \<Rightarrow> fate) \<Rightarrow> conditions_fixture list \<Rightarrow> conditions_entrant list \<Rightarrow> ('s, commitment) client_routine" where
  "commitConditions api slot fates fs es =
     doS (liftS (rulesBlob fs es)) (\<lambda>blob.
     doS (submitArtifact api fates blob False) (\<lambda>(hash, chunks, sent).
     doS (ask fates slot) (\<lambda>committedAtSlot.
     retS \<lparr>cm_commitmentRef = to_hex hash, cm_conditionsHash = to_hex hash, cm_sent = sent, cm_committedAtSlot = committedAtSlot\<rparr>)))"

record round_place =
  pl_wallet :: jsstr
  pl_allHit :: bool
  pl_scoreFixed :: jsstr
  pl_voidCount :: int
  pl_slipHash :: jsstr

record round_report =
  rr_runtimeId :: jsstr
  rr_artifactHash :: jsstr
  rr_artifactHex :: jsstr
  rr_artifactBytes :: nat
  rr_winnersCount :: nat
  rr_winningScoreSum :: jsstr
  rr_winnersDigest :: jsstr
  rr_factsRefRoot :: jsstr
  rr_winners :: "jsstr list"
  rr_ranking :: "round_place list"

text \<open>An entrant of the reply: the ranked fields and the hash of the slip, which the order does not look at. The rank is
  the position in the list.\<close>

definition replied_entrant :: "conditions_fixture list \<Rightarrow> conditions_entrant \<Rightarrow> (ranked_entrant \<times> jsstr) result" where
  "replied_entrant fs e =
     bindE (slipHash (e_wallet e) (e_tier e) (e_legs e)) (\<lambda>h. Inr (resolveEntrant fs e, to_hex h))"

definition place_of :: "(buffer \<Rightarrow> jsstr) \<Rightarrow> ranked_entrant \<times> jsstr \<Rightarrow> round_place" where
  "place_of base58 r =
     \<lparr>pl_wallet = base58 (r_wallet (fst r)), pl_allHit = r_allHit (fst r), pl_scoreFixed = dec_string (r_scoreFixed (fst r)),
      pl_voidCount = r_voidCount (fst r), pl_slipHash = snd r\<rparr>"

definition round_reply ::
  "(buffer \<Rightarrow> jsstr) \<Rightarrow> buffer \<Rightarrow> buffer \<Rightarrow> buffer \<Rightarrow> conditions_fixture list \<Rightarrow> conditions_entrant list \<Rightarrow> round_report result" where
  "round_reply base58 runtimeId hash blob fs es =
     bindE (mapE (replied_entrant fs) es) (\<lambda>replied.
     let ranked = js_sort (\<lambda>a b. compare_ranked (fst a) (fst b)) replied; winners = filter (\<lambda>r. r_allHit (fst r)) ranked in
     bindE (parseConditionsArtifact blob) (\<lambda>artifact.
     bindE (winnersDigest (map fst ranked)) (\<lambda>digest.
     bindE (factsRefRoot artifact) (\<lambda>factsRoot.
     Inr \<lparr>rr_runtimeId = to_hex runtimeId, rr_artifactHash = to_hex hash, rr_artifactHex = to_hex blob,
          rr_artifactBytes = length blob, rr_winnersCount = length winners,
          rr_winningScoreSum = dec_string (winningScoreSum (map fst ranked)), rr_winnersDigest = to_hex digest,
          rr_factsRefRoot = to_hex factsRoot, rr_winners = map (\<lambda>r. base58 (r_wallet (fst r))) winners,
          rr_ranking = map (place_of base58) ranked\<rparr>))))"

definition round_runtime :: "buffer \<Rightarrow> int \<Rightarrow> buffer" where
  "round_runtime hash now = take 16 (sha256 (utf8_encode (js ''oddsol-'' @ to_hex hash @ js ''-'' @ dec_string now)))"

definition check_commitment ::
  "jsstr option \<Rightarrow> conditions_fixture list \<Rightarrow> conditions_entrant list \<Rightarrow> unit result" where
  "check_commitment commitmentRef fs es =
     (case commitmentRef of None \<Rightarrow> Inr ()
      | Some ref \<Rightarrow>
          if ref = [] then Inr ()
          else bindE (rulesBlob fs es) (\<lambda>blob.
            throwIf (to_hex (sha256 blob) \<noteq> ref)
              (Error ''conditions do not match commitment_ref (rules changed since commit)'') (Inr ())))"

definition resolveConditionsRound ::
  "program_env \<Rightarrow> binding_env \<Rightarrow> (buffer \<Rightarrow> jsstr) \<Rightarrow> int \<Rightarrow> (nat \<Rightarrow> fate) \<Rightarrow> conditions_fixture list \<Rightarrow> conditions_entrant list
     \<Rightarrow> jsstr option \<Rightarrow> (round_chain, round_report) client_routine" where
  "resolveConditionsRound env be base58 now fates fs es commitmentRef =
     doS (liftS (check_commitment commitmentRef fs es)) (\<lambda>_.
     doS (liftS (buildConditionsArtifact fs es)) (\<lambda>blob.
     doS (submitArtifact (conditions_api env) fates blob True) (\<lambda>(hash, chunks, sent).
     let runtimeId = round_runtime hash now in
     doS (sendTx fates (initialize_outcome_config env be runtimeId 0 0 hash chunks)) (\<lambda>_.
     doS (sendTx fates (resolve_round env runtimeId chunks)) (\<lambda>_.
     liftS (round_reply base58 runtimeId hash blob fs es))))))"

end
