(* ===== verification/Conditions_Parity.thy ===== *)
theory Conditions_Parity
  imports Conditions_Operator
begin

text \<open>
  The program reads what the client builds: each record of the format is an instance of the \<open>codec\<close> contract with the
  client's encoder and the program's derived deserializer. The reply of the operator for a round that is built.
\<close>

section \<open>The program's readers\<close>

lemma runs_borsh_bytes [runs_intros]: "length b = n \<Longrightarrow> runs off (borsh_bytes n) b b"
  unfolding borsh_bytes_def by (rule runs_readBytes)

lemmas runs_borsh_uint [runs_intros] =
  runs_readU8 [unfolded readU8_def] runs_readU16LE [unfolded readU16LE_def]
  runs_readU32LE [unfolded readU32LE_def] runs_readU64LE [unfolded readU64LE_def]

lemma runs_borsh_signed:
  assumes "to_signed n (le_uint (le_bytes n v)) = v"
  shows "runs off (borsh_signed n) (le_bytes n v) v"
proof -
  let ?u = "le_uint (le_bytes n v)"
  have "runs off (read_uint n) (le_bytes n ?u) ?u"
    using le_uint_bound [of "le_bytes n v"] by (intro runs_read_uint) auto
  then have "runs off (read_uint n) (le_bytes n v) ?u" using le_bytes_le_uint [of "le_bytes n v"] by simp
  then have "runs off (borsh_signed n) (le_bytes n v @ []) (to_signed n ?u)"
    unfolding borsh_signed_def by (rule runs_bindR) (rule runs_retR)
  with assms show ?thesis by simp
qed

lemma runs_borsh_i32 [runs_intros]: "- 2147483648 \<le> v \<Longrightarrow> v < 2147483648 \<Longrightarrow> runs off (borsh_signed 4) (le_bytes 4 v) v"
  by (rule runs_borsh_signed) (rule to_signed_4_le_bytes)

lemma runs_borsh_i64 [runs_intros]:
  "- 9223372036854775808 \<le> v \<Longrightarrow> v < 9223372036854775808 \<Longrightarrow> runs off (borsh_signed 8) (le_bytes 8 v) v"
  by (rule runs_borsh_signed) (simp add: to_signed_le_bytes)

context codec begin

lemma borsh_encodes:
  assumes "list_fits valid xs"
  shows "encodes (vec enc) (borsh_vec dec) xs"
proof -
  have l: "length xs < 4294967296" and v: "\<forall>x \<in> set xs. valid x"
    using assms by (auto simp: list_fits_def)
  obtain bs where bs: "concatE (map enc xs) = Inr bs" and run: "\<And>off. runs off (repeatR (length xs) dec) bs xs"
    using list_encodes [OF v refl] unfolding encodes_def by blast
  have "runs off (borsh_vec dec) (le_bytes 4 (int (length xs)) @ bs) xs" for off
    unfolding borsh_vec_def by (rule runs_intros | (use l run in \<open>simp; fail\<close>))+
  then show ?thesis
    by (intro encodesI [where b = "le_bytes 4 (int (length xs)) @ bs"]) (use l bs in \<open>simp_all add: vec_def\<close>)
qed

end

interpretation program_stat: codec encodeStat borsh_stat stat_fits
proof
  fix s
  assume "stat_fits s"
  then show "encodes encodeStat borsh_stat s"
    by (intro encodesI [where b = "le_bytes 4 (statKey s) @ le_bytes 4 (statVal s) @ []"])
       (simp add: encodeStat_def stat_fits_def,
        unfold borsh_stat_def, (rule runs_retR_eq runs_intros | (simp add: stat_fits_def; fail))+)
qed

interpretation program_index: codec u16 "read_uint 2" index_fits
proof
  fix i
  assume "index_fits i"
  then show "encodes u16 (read_uint 2) i"
    by (intro encodesI [where b = "le_bytes 2 i"] runs_borsh_uint) (simp_all add: index_fits_def)
qed

interpretation program_leg: codec encodeLeg borsh_leg leg_fits
proof
  fix l
  assume l: "leg_fits l"
  show "encodes encodeLeg borsh_leg l"
  proof (rule encodesI)
    show "encodeLeg l = Inr (byte_of (termKind l) @ le_bytes 4 (statKeyA l) @ le_bytes 4 (statKeyB l)
        @ byte_of (legOp l) @ byte_of (comparison l) @ le_bytes 4 (threshold l) @ le_bytes 4 (lineX2 l)
        @ le_bytes 8 (oddsMilli l) @ [])"
      using l by (simp add: encodeLeg_def leg_fits_def)
    show "runs off borsh_leg (byte_of (termKind l) @ le_bytes 4 (statKeyA l) @ le_bytes 4 (statKeyB l)
        @ byte_of (legOp l) @ byte_of (comparison l) @ le_bytes 4 (threshold l) @ le_bytes 4 (lineX2 l)
        @ le_bytes 8 (oddsMilli l) @ []) l" for off
      unfolding borsh_leg_def
      by (rule runs_retR_eq runs_intros | (use l in \<open>simp add: leg_fits_def; fail\<close>))+
  qed
qed

interpretation program_fixture: codec encodeFixture borsh_fixture fixture_fits
proof
  fix f
  assume f: "fixture_fits f"
  then obtain bs where bs: "vec encodeStat (fixtureStats f) = Inr bs"
    and run: "\<And>off. runs off (borsh_vec borsh_stat) bs (fixtureStats f)"
    using program_stat.borsh_encodes [of "fixtureStats f"] unfolding encodes_def fixture_fits_def by blast
  show "encodes encodeFixture borsh_fixture f"
  proof (rule encodesI)
    show "encodeFixture f = Inr (le_bytes 4 (fixtureId f) @ eventStatRoot f @ bs @ [])"
      using f bs by (simp add: encodeFixture_def fixture_fits_def)
    show "runs off borsh_fixture (le_bytes 4 (fixtureId f) @ eventStatRoot f @ bs @ []) f" for off
      unfolding borsh_fixture_def
      by (rule run runs_retR_eq runs_intros | (use f in \<open>simp add: fixture_fits_def; fail\<close>))+
  qed
qed

interpretation program_entrant: codec encodeEntrant borsh_entrant entrant_fits
proof
  fix e
  assume e: "entrant_fits e"
  then obtain ls where ls: "vec encodeLeg (e_legs e) = Inr ls"
    and run1: "\<And>off. runs off (borsh_vec borsh_leg) ls (e_legs e)"
    using program_leg.borsh_encodes [of "e_legs e"] unfolding encodes_def entrant_fits_def by blast
  from e obtain ix where ix: "vec u16 (e_fixtureIndex e) = Inr ix"
    and run2: "\<And>off. runs off (borsh_vec (read_uint 2)) ix (e_fixtureIndex e)"
    using program_index.borsh_encodes [of "e_fixtureIndex e"] unfolding encodes_def entrant_fits_def by blast
  show "encodes encodeEntrant borsh_entrant e"
  proof (rule encodesI)
    show "encodeEntrant e = Inr (e_wallet e @ le_bytes 8 (e_tier e) @ le_bytes 8 (e_enteredAt e) @ ls @ ix @ [])"
      using e ls ix by (simp add: encodeEntrant_def entrant_fits_def)
    show "runs off borsh_entrant (e_wallet e @ le_bytes 8 (e_tier e) @ le_bytes 8 (e_enteredAt e) @ ls @ ix @ []) e" for off
      unfolding borsh_entrant_def
      by (rule run1 run2 runs_retR_eq runs_intros | (use e in \<open>simp add: entrant_fits_def; fail\<close>))+
  qed
qed

text \<open>The program parses the artifact that the client builds.\<close>

lemma program_reads_built:
  assumes "list_fits fixture_fits fs" and "list_fits entrant_fits es" and built: "buildConditionsArtifact fs es = Inr blob"
  shows "conditions_from_bytes blob = Some (built_artifact fs es)"
    and "artifactFormatVersion blob = Inr FORMAT_VERSION_CONDITIONS" and "blob \<noteq> []"
proof -
  obtain fb where fb: "vec encodeFixture fs = Inr fb" and run1: "\<And>off. runs off (borsh_vec borsh_fixture) fb fs"
    using program_fixture.borsh_encodes [OF assms(1)] unfolding encodes_def by blast
  obtain eb where eb: "vec encodeEntrant es = Inr eb" and run2: "\<And>off. runs off (borsh_vec borsh_entrant) eb es"
    using program_entrant.borsh_encodes [OF assms(2)] unfolding encodes_def by blast
  let ?bytes = "MAGIC @ le_bytes 2 9 @ byte_of 7 @ byte_of 0 @ fb @ eb @ []"
  have blob: "blob = ?bytes"
    using fb eb built by (simp add: buildConditionsArtifact_def FORMAT_VERSION_CONDITIONS_def
      FORMULA_CODE_CONDITIONS_def WINNERS_MODE_ALL_HIT_PRORATA_def)
  have "runs 0 borsh_artifact ?bytes (MAGIC, built_artifact fs es)"
    unfolding borsh_artifact_def
    by (rule run1 run2 runs_retR_eq runs_intros
        | (simp add: MAGIC_def FORMAT_VERSION_CONDITIONS_def FORMULA_CODE_CONDITIONS_def built_artifact_def
             WINNERS_MODE_ALL_HIT_PRORATA_def; fail))+
  from runsD [OF this, of blob "[]"] show "conditions_from_bytes blob = Some (built_artifact fs es)"
    by (simp add: conditions_from_bytes_def runR_def blob built_artifact_def)
  show "blob \<noteq> []" by (simp add: blob MAGIC_def)
  have "drop 4 blob = le_bytes 2 9 @ byte_of 7 @ byte_of 0 @ fb @ eb" by (simp add: blob MAGIC_def)
  then have "readU16LE blob 4 = Inr (9, 6)"
    using runsD [OF runs_readU16LE [of 9 4], of blob] by (simp add: blob MAGIC_def)
  moreover have "subarray blob 0 4 = MAGIC" by (simp add: blob subarray_def MAGIC_def)
  moreover have "ascii_string MAGIC = js ''W3O1''" by code_simp
  ultimately show "artifactFormatVersion blob = Inr FORMAT_VERSION_CONDITIONS"
    by (simp add: artifactFormatVersion_def runR_def magic_ok_def FORMAT_VERSION_CONDITIONS_def)
       (simp add: blob MAGIC_def throwIf_def)
qed

section \<open>The reply\<close>

lemma slip_hash_total:
  assumes "entrant_fits e"
  shows "\<exists>h. slipHash (e_wallet e) (e_tier e) (e_legs e) = Inr h"
proof -
  have "list_fits leg_fits (sortLegs (e_legs e))"
    using assms by (simp add: entrant_fits_def list_fits_def sortLegs_def list_all_iff)
  then obtain ls where "vec encodeLeg (sortLegs (e_legs e)) = Inr ls"
    using leg.vec_encodes unfolding encodes_def by blast
  then show ?thesis using assms by (simp add: slipHash_def slip_preimage_def entrant_fits_def)
qed

text \<open>The program hashes the same bytes: it compares keys where the client subtracts them, which has the same sign.\<close>

lemma js_sort_sign:
  assumes "\<And>x y. sgn (cmp x y) = sgn (cmp' x y)"
  shows "js_sort cmp xs = js_sort cmp' xs"
proof -
  have "cmp x y \<le> 0 \<longleftrightarrow> cmp' x y \<le> 0" for x y using assms [of x y] by (auto simp: sgn_if split: if_splits)
  then have "sort_insert cmp x ys = sort_insert cmp' x ys" for x ys by (induction ys) simp_all
  then show ?thesis by (induction xs) simp_all
qed

lemma or_else_sign: "sgn a = sgn a' \<Longrightarrow> sgn b = sgn b' \<Longrightarrow> sgn (or_else a b) = sgn (or_else a' b')"
  by (auto simp: or_else_def sgn_if split: if_splits)

lemma cmp_int_sign: "sgn (cmp_int a b) = sgn (a - b)"
  by (simp add: cmp_int_def)

lemma sort_legs_same: "sort_legs legs = sortLegs legs"
  unfolding sort_legs_def sortLegs_def
  by (rule js_sort_sign) (unfold cmp_legs_def compare_legs_def, intro or_else_sign cmp_int_sign)

theorem slip_hashes_agree:
  assumes "length wallet = 32" and "0 \<le> tier" "tier < 18446744073709551616" and "list_fits leg_fits legs"
  shows "slipHash wallet tier legs = Inr (slip_hash wallet tier legs)"
proof -
  have "encodeLeg l = Inr (leg_borsh l)" if "l \<in> set (sortLegs legs)" for l
    using assms(4) that
    by (auto simp: list_fits_def list_all_iff sortLegs_def encodeLeg_def leg_fits_def leg_borsh_def)
  then have "concatE (map encodeLeg (sortLegs legs)) = Inr (concat (map leg_borsh (sortLegs legs)))"
    by (intro concatE_ok)
  moreover have "length (sortLegs legs) < 4294967296" using assms(4) by (simp add: list_fits_def sortLegs_def)
  ultimately show ?thesis
    using assms(1-3) by (simp add: slipHash_def slip_preimage_def vec_def slip_hash_def sort_legs_same Let_def)
qed

text \<open>What the reply says of the artifact.\<close>

definition reports :: "(buffer \<Rightarrow> jsstr) \<Rightarrow> round_report \<Rightarrow> conditions_artifact \<Rightarrow> bool" where
  "reports base58 report a \<longleftrightarrow>
     (let ranked = resolveConditionsArtifact a; winners = filter r_allHit ranked in
      \<exists>digest factsRoot. winnersDigest ranked = Inr digest \<and> factsRefRoot a = Inr factsRoot
      \<and> rr_winnersCount report = length winners \<and> rr_winningScoreSum report = dec_string (winningScoreSum ranked)
      \<and> rr_winnersDigest report = to_hex digest \<and> rr_factsRefRoot report = to_hex factsRoot
      \<and> rr_winners report = map (\<lambda>r. base58 (r_wallet r)) winners
      \<and> map pl_wallet (rr_ranking report) = map (\<lambda>r. base58 (r_wallet r)) ranked)"

lemma reply_reports:
  assumes "list_fits entrant_fits es" and parse: "parseConditionsArtifact blob = Inr (built_artifact fs es)"
  shows "\<exists>report. round_reply base58 runtimeId hash blob fs es = Inr report \<and> reports base58 report (built_artifact fs es)"
proof -
  let ?a = "built_artifact fs es"
  have "\<forall>e \<in> set es. \<exists>h. slipHash (e_wallet e) (e_tier e) (e_legs e) = Inr h"
    using assms(1) slip_hash_total by (auto simp: list_fits_def list_all_iff)
  then obtain g where g: "\<forall>e \<in> set es. slipHash (e_wallet e) (e_tier e) (e_legs e) = Inr (g e)" by metis
  let ?replied = "map (\<lambda>e. (resolveEntrant fs e, to_hex (g e))) es"
  have replied: "mapE (replied_entrant fs) es = Inr ?replied"
    by (rule mapE_ok) (use g in \<open>auto simp: replied_entrant_def\<close>)
  let ?ranked = "js_sort (\<lambda>a b. compare_ranked (fst a) (fst b)) ?replied"
  have "map fst ?ranked = js_sort compare_ranked (map fst ?replied)" by (simp only: js_sort_map)
  then have ranked: "map fst ?ranked = resolveConditionsArtifact ?a"
    by (simp add: resolveConditionsArtifact_def rankRound_def built_artifact_def comp_def)
  have winners: "map (\<lambda>r. base58 (r_wallet (fst r))) (filter (\<lambda>r. r_allHit (fst r)) rs)
      = map (\<lambda>r. base58 (r_wallet r)) (filter r_allHit (map fst rs))"
    "length (filter (\<lambda>r. r_allHit (fst r)) rs) = length (filter r_allHit (map fst rs))"
    "map pl_wallet (map (place_of base58) rs) = map (\<lambda>r. base58 (r_wallet r)) (map fst rs)"
    for rs :: "(ranked_entrant \<times> jsstr) list"
    by (induction rs) (simp_all add: place_of_def)
  show ?thesis
    using conditions_digests_total [OF parse]
    by (simp add: round_reply_def replied ranked parse reports_def Let_def winners [of ?ranked, unfolded ranked] comp_def
        del: map_map filter_map)
qed

end
