(* ===== verification/Conditions_Round.thy ===== *)
theory Conditions_Round
  imports Conditions_Written Conditions_Parity
begin

text \<open>
  What the operator of a conditions round gets: an upload can be interrupted and is completed by the next call, a
  resolved round reports what the verifier will establish from the chain, and a commitment binds the rules.
\<close>

section \<open>The program keeps the contract of uploads\<close>

text \<open>Uploading leaves the configurations, the events and the accounts of other artifacts alone.\<close>

definition same_elsewhere :: "buffer \<Rightarrow> store \<Rightarrow> store \<Rightarrow> bool" where
  "same_elsewhere hash st st' \<longleftrightarrow>
     (\<forall>h. h \<noteq> hash \<longrightarrow> st_artifacts st' h = st_artifacts st h \<and> (\<forall>i. st_chunks st' (h, i) = st_chunks st (h, i)))"

lemma same_elsewhere_refl [simp]: "same_elsewhere hash st st"
  by (simp add: same_elsewhere_def)

lemma same_elsewhere_trans: "same_elsewhere hash st st' \<Longrightarrow> same_elsewhere hash st' st'' \<Longrightarrow> same_elsewhere hash st st''"
  by (simp add: same_elsewhere_def)

lemma elsewhere_execute:
  assumes "about blob version uri ix" and "program_execute env ix st = Some st'"
  shows "same_elsewhere (sha256 blob) st st'"
  using assms by (cases ix) (auto simp: same_elsewhere_def split: if_splits option.splits)

lemma consistent_elsewhere:
  assumes "same_elsewhere hash st st'" and "sha256 blob \<noteq> hash" and "consistent env blob version st"
  shows "consistent env blob version st'"
proof -
  have "st_artifacts st' (sha256 blob) = st_artifacts st (sha256 blob)" "\<And>i. st_chunks st' (sha256 blob, i) = st_chunks st (sha256 blob, i)"
    using assms(1,2) by (simp_all add: same_elsewhere_def)
  then show ?thesis
    using assms(3) unfolding consistent_def header_consistent_def chunk_consistent_def chunk_complete_def
    by (simp cong: option.case_cong)
qed

abbreviation round_ok :: "program_env \<Rightarrow> buffer \<Rightarrow> int \<Rightarrow> round_chain \<Rightarrow> round_chain \<Rightarrow> bool" where
  "round_ok env blob version start c \<equiv> uploadable env blob round_uri version (rc_store c)
     \<and> rc_configs c = rc_configs start \<and> rc_events c = rc_events start
     \<and> same_elsewhere (sha256 blob) (rc_store start) (rc_store c)"

interpretation rounds: upload_laws "conditions_api env" blob round_uri version "round_ok env blob version start"
proof (unfold_locales, goal_cases)
  case (1 s)
  then show ?case using upload.law_version by blast
next
  case (2 s ix s')
  then obtain st where st: "cn_execute (program_api env) ix (rc_store s) = Some st" "s' = s\<lparr>rc_store := st\<rparr>"
    by (auto simp: conditions_api_def program_api_def)
  moreover have "program_execute env ix (rc_store s) = Some st" using st(1) by (simp add: program_api_def)
  then have "same_elsewhere (sha256 blob) (rc_store s) st" using 2(2) by (rule elsewhere_execute [rotated])
  ultimately show ?case
    using upload.law_kept [OF conjunct1 [OF 2(1)] 2(2) st(1)] 2(1) by (auto intro: same_elsewhere_trans)
next
  case (3 s fin status)
  then show ?case using upload.law_flags [OF conjunct1 [OF 3(1)]] 3(2) by (simp add: conditions_api_def)
next
  case (4 s)
  then show ?case using upload.law_fresh [OF conjunct1 [OF 4(1)]] by (auto simp: conditions_api_def program_api_def simp del: program_execute.simps)
next
  case (5 s i)
  then show ?case
    using upload.law_init [OF conjunct1 [OF 5(1)] _ 5(3)] by (fastforce simp: conditions_api_def program_api_def simp del: program_execute.simps)
next
  case (6 s i offset data)
  then show ?case
    using upload.law_write [OF conjunct1 [OF 6(1)] _ 6(3) _ 6(5-7)]
    by (fastforce simp: conditions_api_def program_api_def simp del: program_execute.simps)
next
  case (7 s i n)
  then show ?case using upload.law_bound [OF conjunct1 [OF 7(1)]] 7(2) by (simp add: conditions_api_def)
next
  case (8 s)
  then show ?case
    using upload.law_finalize [OF conjunct1 [OF 8(1)]] by (fastforce simp: conditions_api_def program_api_def simp del: program_execute.simps)
next
  case (9 s)
  then show ?case
    using upload.law_review [OF conjunct1 [OF 9(1)]] by (fastforce simp: conditions_api_def program_api_def simp del: program_execute.simps)
qed

section \<open>Uploads of the operator\<close>

context upload_laws
begin

lemma version_read: "ok s \<Longrightarrow> runR readU16LE blob 4 = Inr version"
  using law_version [of s] by (auto simp: artifactFormatVersion_def throwIf_def split: if_splits)

lemma keeps_fetch: "keeps I (fetch_artifact api fates (sha256 blob))"
  unfolding fetch_artifact_def by (intro keeps_intros keeps_ask) (auto intro: keeps_intros split: option.split)

lemma keeps_operator_submit:
  assumes "uri = round_uri"
  shows "keeps I (submitArtifact api fates blob review)"
proof (rule keeps_known)
  show "runR readU16LE blob 4 = Inr version" if "I s" for s using that by (rule version_read)
next
  assume version: "runR readU16LE blob 4 = Inr version"
  show "keeps I (submitArtifact api fates blob review)"
    unfolding submitArtifact_def Let_def version doS_liftS
    by (intro keeps_intros keeps_ask keeps_fetch keeps_chunks keeps_send) (simp_all add: assms)
qed

lemma fetch_ok: "achieves (served fates (\<lambda>s. P s \<and> art s \<noteq> None)) (fetch_artifact api fates (sha256 blob))
    (\<lambda>a. served fates (\<lambda>s. P s \<and> art s = Some a))"
  unfolding fetch_artifact_def
  by (rule achieves_doS [OF ask_ok]) (auto simp: achieves_def retS_def served_def split: option.split)

text \<open>After the first step the artifact exists, finalized or open.\<close>

definition begun :: "bool \<Rightarrow> 's \<Rightarrow> bool" where
  "begun finalized s \<longleftrightarrow> (\<exists>status. art s = Some (finalized, status))"

lemma begun_open: "ok s \<Longrightarrow> begun False s \<Longrightarrow> written_upto 0 s"
  using law_flags by (auto simp: begun_def written_upto_def)

lemma begin_ok: "achieves (served fates (\<lambda>_. True))
    (doS (ask fates (\<lambda>st. art st \<noteq> None)) (\<lambda>existing.
     if existing then doS (fetch_artifact api fates (sha256 blob)) (\<lambda>a. retS (fst a))
     else doS (sendOperatorInstructions api fates [Submit (sha256 blob) version (length blob)]) (\<lambda>_. retS False)))
    (\<lambda>finalized. served fates (begun finalized))"
proof (rule achieves_doS [OF ask_ok], rule achieves_if)
  fix existing
  assume existing: existing
  have "achieves (served fates (\<lambda>s. True \<and> art s \<noteq> None))
    (doS (fetch_artifact api fates (sha256 blob)) (\<lambda>a. retS (fst a))) (\<lambda>finalized. served fates (begun finalized))"
    by (rule achieves_doS [OF fetch_ok], rule achieves_retS) (auto simp: served_def begun_def intro: exI)
  then show "achieves (served fates (\<lambda>s. True \<and> existing = (art s \<noteq> None)))
    (doS (fetch_artifact api fates (sha256 blob)) (\<lambda>a. retS (fst a))) (\<lambda>finalized. served fates (begun finalized))"
    using existing by (simp only:) (rule achieves_weaken, assumption, simp_all add: served_def)
next
  fix existing
  assume fresh: "\<not> existing"
  have "achieves (served fates (\<lambda>s. art s = None))
    (doS (sendOperatorInstructions api fates [Submit (sha256 blob) version (length blob)]) (\<lambda>_. retS False))
    (\<lambda>finalized. served fates (begun finalized))"
    by (rule achieves_doS_const [OF fresh_ok], rule achieves_retS) (auto simp: served_def begun_def written_upto_def)
  then show "achieves (served fates (\<lambda>s. True \<and> existing = (art s \<noteq> None)))
    (doS (sendOperatorInstructions api fates [Submit (sha256 blob) version (length blob)]) (\<lambda>_. retS False))
    (\<lambda>finalized. served fates (begun finalized))"
    by (rule achieves_weaken) (use fresh in \<open>simp_all add: served_def not_None_eq del: not_None_eq split_paired_All\<close>)
qed

lemma finish_ok: "achieves (served fates (begun finalized))
    (if \<not> finalized
     then doS (writeArtifactChunks api fates (sha256 blob) blob) (\<lambda>_.
          doS (sendOperatorInstructions api fates [Finalize (sha256 blob) [0..<chunk_count blob]]) (\<lambda>_. retS True))
     else retS False) (\<lambda>_. served fates (\<lambda>s. begun True s))"
proof (rule achieves_if)
  assume "\<not> finalized"
  show "achieves (served fates (begun finalized))
    (doS (writeArtifactChunks api fates (sha256 blob) blob) (\<lambda>_.
     doS (sendOperatorInstructions api fates [Finalize (sha256 blob) [0..<chunk_count blob]]) (\<lambda>_. retS True)))
    (\<lambda>_. served fates (\<lambda>s. begun True s))"
  proof (rule achieves_doS)
    show "achieves (served fates (begun finalized)) (writeArtifactChunks api fates (sha256 blob) blob)
        (\<lambda>_. served fates (written_upto (chunk_count blob)))"
      by (rule achieves_weaken [OF chunks_ok]) (use \<open>\<not> finalized\<close> in \<open>auto simp: served_def intro: begun_open\<close>)
    show "achieves (served fates (written_upto (chunk_count blob)))
        (doS (sendOperatorInstructions api fates [Finalize (sha256 blob) [0..<chunk_count blob]]) (\<lambda>_. retS True))
        (\<lambda>_. served fates (\<lambda>s. begun True s))" for x
      by (rule achieves_doS_const [OF finalize_ok], rule achieves_retS) (auto simp: served_def begun_def)
  qed
next
  assume "\<not> \<not> finalized"
  then show "achieves (served fates (begun finalized)) (retS False) (\<lambda>_. served fates (\<lambda>s. begun True s))"
    by (auto intro!: achieves_retS)
qed

text \<open>What a completed call leaves: a finalized artifact, approved if a review was asked for.\<close>

definition settled_as :: "bool \<Rightarrow> 's \<Rightarrow> bool" where
  "settled_as review s \<longleftrightarrow> begun True s \<and> (review \<longrightarrow> art s = Some (True, STATUS_APPROVED))"

lemma reviewed_ok:
  assumes "uri = round_uri"
  shows "achieves (served fates (begun True))
    (if review
     then doS (fetch_artifact api fates (sha256 blob)) (\<lambda>acc.
          if snd acc \<noteq> STATUS_APPROVED then sendOperatorInstructions api fates [Review (sha256 blob) STATUS_APPROVED round_uri]
          else retS ())
     else retS ()) (\<lambda>_. served fates (settled_as review))"
proof (rule achieves_if)
  assume review: review
  have fetch: "achieves (served fates (begun True)) (fetch_artifact api fates (sha256 blob))
      (\<lambda>a. served fates (\<lambda>s. begun True s \<and> art s = Some a))"
    by (rule achieves_weaken [OF fetch_ok [where P = "begun True"]]) (auto simp: served_def begun_def)
  show "achieves (served fates (begun True)) (doS (fetch_artifact api fates (sha256 blob)) (\<lambda>acc.
      if snd acc \<noteq> STATUS_APPROVED then sendOperatorInstructions api fates [Review (sha256 blob) STATUS_APPROVED round_uri]
      else retS ())) (\<lambda>_. served fates (settled_as review))"
  proof (rule achieves_doS [OF fetch], rule achieves_if)
    fix a :: "bool \<times> nat"
    assume "snd a \<noteq> STATUS_APPROVED"
    then show "achieves (served fates (\<lambda>s. begun True s \<and> art s = Some a))
        (sendOperatorInstructions api fates [Review (sha256 blob) STATUS_APPROVED round_uri]) (\<lambda>_. served fates (settled_as review))"
      by (intro achieves_weaken [OF review_ok [unfolded assms]])
         (auto simp: served_def begun_def settled_as_def dest: law_flags)
  next
    fix a :: "bool \<times> nat"
    assume "\<not> snd a \<noteq> STATUS_APPROVED"
    then show "achieves (served fates (\<lambda>s. begun True s \<and> art s = Some a)) (retS ()) (\<lambda>_. served fates (settled_as review))"
      by (intro achieves_retS) (auto simp: served_def begun_def settled_as_def)
  qed
next
  assume "\<not> review"
  then show "achieves (served fates (begun True)) (retS ()) (\<lambda>_. served fates (settled_as review))"
    by (intro achieves_retS) (simp add: served_def settled_as_def)
qed

lemma operator_submit_ok:
  assumes "uri = round_uri"
  shows "achieves (served fates (\<lambda>_. True)) (submitArtifact api fates blob review)
    (\<lambda>x s. served fates (settled_as review) s \<and> fst x = sha256 blob \<and> fst (snd x) = [0..<chunk_count blob])"
proof (rule achieves_known)
  show "runR readU16LE blob 4 = Inr version" if "served fates (\<lambda>_. True) s" for s
    using that by (auto simp: served_def intro: version_read)
next
  have assoc: "doS (doS m k) l = doS m (\<lambda>x. doS (k x) l)" for m :: "('s \<times> nat, 'x) routine" and k l
    by (auto simp: fun_eq_iff doS_def split: prod.split sum.split)
  assume version: "runR readU16LE blob 4 = Inr version"
  show "achieves (served fates (\<lambda>_. True)) (submitArtifact api fates blob review)
    (\<lambda>x s. served fates (settled_as review) s \<and> fst x = sha256 blob \<and> fst (snd x) = [0..<chunk_count blob])"
    unfolding submitArtifact_def Let_def version doS_liftS
    apply (subst assoc [symmetric])
    apply (rule achieves_doS [OF begin_ok], rule achieves_doS [OF finish_ok])
    apply (rule achieves_doS_const [OF reviewed_ok [OF assms]], rule achieves_retS, simp)
    done
qed

end

section \<open>A round is resolved\<close>

lemma round_submitted:
  assumes "uploadable env blob round_uri version (rc_store c)" and "\<forall>n \<ge> k. fates n = Served"
  shows "\<exists>sent c' k'. submitArtifact (conditions_api env) fates blob True (c, k)
      = (Inr (sha256 blob, [0..<chunk_count blob], sent), c', k')
    \<and> uploadable env blob round_uri version (rc_store c') \<and> rc_configs c' = rc_configs c \<and> rc_events c' = rc_events c
    \<and> cn_artifact (program_api env) (sha256 blob) (rc_store c') = Some (True, STATUS_APPROVED) \<and> (\<forall>n \<ge> k'. fates n = Served)"
proof -
  note submitted = rounds.operator_submit_ok [OF refl, of env blob version c fates True, unfolded achieves_def rounds.served_def]
  obtain x s' where "submitArtifact (conditions_api env) fates blob True (c, k) = (Inr x, s')"
      "round_ok env blob version c (fst s')" "rounds.settled_as env blob True (fst s')" "\<forall>n \<ge> snd s'. fates n = Served"
      "fst x = sha256 blob" "fst (snd x) = [0..<chunk_count blob]"
    using submitted [THEN spec, of "(c, k)"] assms by auto
  moreover have "cn_artifact (program_api env) (sha256 blob) (rc_store (fst s')) = Some (True, STATUS_APPROVED)"
    using calculation(3) unfolding rounds.settled_as_def by (simp add: conditions_api_def)
  moreover have "x = (sha256 blob, [0..<chunk_count blob], snd (snd x))"
    by (rule prod_eqI, simp add: calculation, rule prod_eqI) (simp_all add: calculation)
  ultimately show ?thesis by (metis prod.collapse)
qed

lemma configured:
  assumes "uploadable env blob round_uri FORMAT_VERSION_CONDITIONS (rc_store c)"
    and "cn_artifact (program_api env) (sha256 blob) (rc_store c) = Some (True, STATUS_APPROVED)"
    and "conditions_from_bytes blob = Some a" "conditions_validate a" and "rc_configs c runtimeId = None"
  shows "\<exists>acc. st_artifacts (rc_store c) (sha256 blob) = Some acc \<and> fa_finalized acc
    \<and> load_blob acc (sha256 blob) (rc_store c) [0..<chunk_count blob] = Some blob
    \<and> initialize_outcome_config env be runtimeId 0 0 (sha256 blob) [0..<chunk_count blob] c
      = Some (c\<lparr>rc_configs := (rc_configs c)(runtimeId \<mapsto>
          \<lparr>cg_authority = pe_signer env, cg_attester = zeros 32, cg_hash = sha256 blob\<rparr>)\<rparr>)"
proof -
  obtain acc where acc: "st_artifacts (rc_store c) (sha256 blob) = Some acc" "fa_finalized acc" "fa_status acc = STATUS_APPROVED"
    using assms(2) by (auto simp: program_api_def)
  have here: "fa_version acc = FORMAT_VERSION_CONDITIONS" "fa_blobLen acc = length blob" "fa_chunkCount acc = chunk_count blob"
    using assms(1) acc by (auto simp: consistent_def header_consistent_def)
  have load: "load_blob acc (sha256 blob) (rc_store c) [0..<chunk_count blob] = Some blob"
    by (rule load_blob_complete) (use assms(1) acc here in \<open>auto simp: consistent_def header_consistent_def acceptable_def\<close>)
  then show ?thesis
    using acc here assms(3-5)
    by (simp add: initialize_outcome_config_def status_allows_binding_def binds_blob_def STATUS_APPROVED_def STATUS_REJECTED_def
        STATUS_PENDING_def)
qed

text \<open>A world in which the accounts of a chain are, the configurations included.\<close>

definition shows_chain :: "world \<Rightarrow> buffer \<Rightarrow> round_chain \<Rightarrow> bool" where
  "shows_chain w programId c \<longleftrightarrow> shows_store w programId (rc_store c) \<and>
     (\<forall>runtimeId cfg. rc_configs c runtimeId = Some cfg \<longrightarrow> config_hash w programId runtimeId = Inr (cg_hash cfg))"

text \<open>What the verifier answers is what the operator was told.\<close>

definition agrees_with :: "verify_result \<Rightarrow> round_report \<Rightarrow> bool" where
  "agrees_with r report \<longleftrightarrow>
     vr_status r = MATCH \<and> vr_winners_count r = Some (int (rr_winnersCount report))
     \<and> vr_winning_score_sum r = Some (rr_winningScoreSum report) \<and> vr_winners_digest r = Some (rr_winnersDigest report)
     \<and> vr_facts_ref_root r = Some (rr_factsRefRoot report) \<and> vr_runtime_id r = rr_runtimeId report
     \<and> vr_compiled_artifact_hash r = rr_artifactHash report"

lemma attested_agrees:
  assumes "event_blob w programId (ce_runtimeId event) (ce_compiledArtifactHash event) = Inr blob"
    and "parseConditionsArtifact blob = Inr a" and "attests event a" and "reports base58 report a"
    and "formatVersion a = FORMAT_VERSION_CONDITIONS" "formulaCode a = FORMULA_CODE_CONDITIONS"
    and "rr_runtimeId report = to_hex (ce_runtimeId event)" "rr_artifactHash report = to_hex (ce_compiledArtifactHash event)"
  shows "\<exists>r. verifyConditions w programId event = Inr r \<and> agrees_with r report"
  using assms
  by (auto simp: verifyConditions_def mismatch_on_error_def attests_def reports_def agrees_with_def Let_def
      compare_conditions_def match_result_def)

section \<open>Interrupted rounds\<close>

lemma keeps_upload:
  "keeps (\<lambda>s. uploadable env blob round_uri version (rc_store (fst s))) (submitArtifact (conditions_api env) fates blob review)"
  unfolding keeps_def
proof (intro allI impI)
  fix s :: "round_chain \<times> nat"
  assume s: "uploadable env blob round_uri version (rc_store (fst s))"
  show "uploadable env blob round_uri version (rc_store (fst (snd (submitArtifact (conditions_api env) fates blob review s))))"
    using rounds.keeps_operator_submit [OF refl, of env blob version "fst s" fates review] s
    unfolding keeps_def by (elim allE [of _ s]) simp
qed

lemma keeps_sendTx:
  assumes "\<And>c c'. execute c = Some c' \<Longrightarrow> rc_store c' = rc_store c"
  shows "keeps (\<lambda>s. P (rc_store (fst s))) (sendTx fates execute)"
  using assms by (auto simp: keeps_def sendTx_def Let_def split: fate.split option.split)

lemma handlers_keep_store:
  "initialize_outcome_config env be runtimeId lo hi hash remaining c = Some c' \<Longrightarrow> rc_store c' = rc_store c"
  "resolve_round env runtimeId remaining c = Some c' \<Longrightarrow> rc_store c' = rc_store c"
  by (auto simp: initialize_outcome_config_def resolve_round_def split: option.splits if_splits)

lemma keeps_round:
  assumes "buildConditionsArtifact fs es = Inr blob"
  shows "keeps (\<lambda>s. uploadable env blob round_uri version (rc_store (fst s)))
    (resolveConditionsRound env be base58 now fates fs es commitmentRef)"
  unfolding resolveConditionsRound_def assms doS_liftS Let_def
  by (intro keeps_intros keeps_upload keeps_sendTx handlers_keep_store | assumption
      | (clarsimp split: prod.split, intro keeps_intros keeps_sendTx, auto dest: handlers_keep_store; fail))+

text \<open>The chain after a number of calls, each at its time and with its fates, whatever they return.\<close>

primrec after_rounds ::
  "program_env \<Rightarrow> binding_env \<Rightarrow> (buffer \<Rightarrow> jsstr) \<Rightarrow> (int \<times> (nat \<Rightarrow> fate)) list \<Rightarrow> conditions_fixture list \<Rightarrow> conditions_entrant list
     \<Rightarrow> jsstr option \<Rightarrow> round_chain \<Rightarrow> round_chain" where
  "after_rounds env be base58 [] fs es commitmentRef c = c"
| "after_rounds env be base58 (t # tries) fs es commitmentRef c =
     after_rounds env be base58 tries fs es commitmentRef
       (fst (snd (resolveConditionsRound env be base58 (fst t) (snd t) fs es commitmentRef (c, 0))))"

lemma after_rounds_uploadable:
  assumes "buildConditionsArtifact fs es = Inr blob"
  shows "uploadable env blob round_uri version (rc_store c) \<Longrightarrow>
    uploadable env blob round_uri version (rc_store (after_rounds env be base58 tries fs es commitmentRef c))"
proof (induction tries arbitrary: c)
  case (Cons t tries)
  show ?case
    using keeps_round [OF assms, of env version be base58 "fst t" "snd t" commitmentRef] Cons
    by (simp add: keeps_def)
qed simp

definition new_chain :: round_chain where
  "new_chain = \<lparr>rc_store = fresh_store, rc_configs = (\<lambda>_. None), rc_events = []\<rparr>"

lemma round_served:
  assumes fits: "list_fits fixture_fits fs" "list_fits entrant_fits es" and built: "buildConditionsArtifact fs es = Inr blob"
    and valid: "conditions_validate (built_artifact fs es)" and small: "small_facts (built_artifact fs es)"
    and commitment: "check_commitment commitmentRef fs es = Inr ()"
    and ready: "uploadable env blob round_uri FORMAT_VERSION_CONDITIONS (rc_store c)"
    and unused: "rc_configs c (round_runtime (sha256 blob) now) = None"
  shows "\<exists>report c' k event. resolveConditionsRound env be base58 now (\<lambda>_. Served) fs es commitmentRef (c, 0) = (Inr report, c', k)
    \<and> rc_events c' = rc_events c @ [event] \<and> reports base58 report (built_artifact fs es)
    \<and> (\<forall>w programId. shows_chain w programId c' \<longrightarrow>
         (\<exists>r. verifyConditions w programId event = Inr r \<and> agrees_with r report))"
proof -
  let ?a = "built_artifact fs es" and ?h = "sha256 blob" and ?chunks = "[0..<chunk_count blob]"
  let ?id = "round_runtime ?h now"
  let ?cfg = "\<lparr>cg_authority = pe_signer env, cg_attester = zeros 32, cg_hash = ?h\<rparr>"
  note program = program_reads_built [OF fits built]
  have parse: "parseConditionsArtifact blob = Inr ?a" using program(1) valid by (rule parsers_agree)
  have size: "length blob \<le> MAX_COMPILED_ARTIFACT_BYTES" using ready by (simp add: acceptable_def)
  from round_submitted [OF ready, of 0 "\<lambda>_. Served"] obtain sent c1 k1 where
    sub: "submitArtifact (conditions_api env) (\<lambda>_. Served) blob True (c, 0) = (Inr (?h, ?chunks, sent), c1, k1)"
    and up: "uploadable env blob round_uri FORMAT_VERSION_CONDITIONS (rc_store c1)"
    and same: "rc_configs c1 = rc_configs c" "rc_events c1 = rc_events c"
    and approved: "cn_artifact (program_api env) ?h (rc_store c1) = Some (True, STATUS_APPROVED)" by auto
  from configured [OF up approved program(1) valid, of ?id be] unused same obtain acc where
    acc: "st_artifacts (rc_store c1) ?h = Some acc" "fa_finalized acc" "load_blob acc ?h (rc_store c1) ?chunks = Some blob"
    and conf: "initialize_outcome_config env be ?id 0 0 ?h ?chunks c1 = Some (c1\<lparr>rc_configs := (rc_configs c1)(?id \<mapsto> ?cfg)\<rparr>)"
    by auto
  let ?event = "conditions_attestation (pe_signer env) ?id ?h ?a"
  let ?c3 = "c1\<lparr>rc_configs := (rc_configs c1)(?id \<mapsto> ?cfg), rc_events := rc_events c1 @ [?event]\<rparr>"
  have res: "resolve_round env ?id ?chunks (c1\<lparr>rc_configs := (rc_configs c1)(?id \<mapsto> ?cfg)\<rparr>) = Some ?c3"
    using acc program(1) valid by (simp add: resolve_round_def resolve_conditions_def)
  obtain report where report: "round_reply base58 ?id ?h blob fs es = Inr report" "reports base58 report ?a"
    using reply_reports [OF fits(2) parse] by blast
  have "resolveConditionsRound env be base58 now (\<lambda>_. Served) fs es commitmentRef (c, 0) = (Inr report, ?c3, k1 + 2)"
    by (simp add: resolveConditionsRound_def commitment built doS_def sub sendTx_def conf res report(1) liftS_def Let_def)
  moreover have "\<exists>r. verifyConditions w programId ?event = Inr r \<and> agrees_with r report" if shown: "shows_chain w programId ?c3" for w programId
  proof (rule attested_agrees [OF _ parse _ report(2)])
    have names: "ce_runtimeId ?event = ?id" "ce_compiledArtifactHash ?event = ?h"
      by (simp_all add: conditions_attestation_def split: prod.split)
    have "config_hash w programId ?id = Inr ?h" using shown by (simp add: shows_chain_def)
    moreover have "shows_store w programId (rc_store c1)" using shown by (simp add: shows_chain_def)
    ultimately show "event_blob w programId (ce_runtimeId ?event) (ce_compiledArtifactHash ?event) = Inr blob"
      unfolding names using up acc by (intro shown_blob(1)) auto
    show "attests ?event ?a" using program(1) valid small size by (rule attestation_attests)
    show "rr_runtimeId report = to_hex (ce_runtimeId ?event)" "rr_artifactHash report = to_hex (ce_compiledArtifactHash ?event)"
      unfolding names using report(1) by (auto simp: round_reply_def result_simps Let_def)
  qed (simp_all add: built_artifact_def)
  ultimately show ?thesis using report(2) same(2) by fastforce
qed

lemma round_completes:
  assumes fits: "list_fits fixture_fits fs" "list_fits entrant_fits es" and built: "buildConditionsArtifact fs es = Inr blob"
    and size: "length blob \<le> MAX_COMPILED_ARTIFACT_BYTES" and valid: "conditions_validate (built_artifact fs es)"
    and small: "small_facts (built_artifact fs es)" and admin: "pe_signer env = pe_admin env"
    and checks: "pe_accepts env FORMAT_VERSION_CONDITIONS blob" and commitment: "check_commitment commitmentRef fs es = Inr ()"
    and before: "c = after_rounds env be base58 tries fs es commitmentRef new_chain"
    and unused: "rc_configs c (round_runtime (sha256 blob) now) = None"
  shows "\<exists>report c' k event. resolveConditionsRound env be base58 now (\<lambda>_. Served) fs es commitmentRef (c, 0) = (Inr report, c', k)
    \<and> rc_events c' = rc_events c @ [event] \<and> reports base58 report (built_artifact fs es)
    \<and> (\<forall>w programId. shows_chain w programId c' \<longrightarrow>
         (\<exists>r. verifyConditions w programId event = Inr r \<and> agrees_with r report))"
proof -
  note program = program_reads_built [OF fits built]
  have "acceptable env blob round_uri FORMAT_VERSION_CONDITIONS"
    using size admin checks program(2,3)
    by (simp add: acceptable_def known_version_def FORMAT_VERSION_CONDITIONS_def round_uri_def js_def ascii_bytes_def)
  then have "uploadable env blob round_uri FORMAT_VERSION_CONDITIONS (rc_store c)"
    unfolding before
    by (intro after_rounds_uploadable [OF built]) (simp add: new_chain_def fresh_store_consistent program_reach.fresh)
  from round_served [OF fits built valid small commitment this unused] show ?thesis .
qed

text \<open>C7: a conditions round can be retried and its report is true. The round has fixtures and entrants whose numbers fit
  their fields and all of whose facts are below \<open>2 ^ 29\<close> in absolute value; they make a validated artifact of at most
  8192 bytes that the program accepts; a commitment reference, if there is one, is the hash of its rules; and the
  signer is the admin of the program. On a chain that was new before the earlier calls for this same round, any
  number of them, each interrupted or not and at its own time, and that nothing else has touched, a further call whose
  requests are all served returns a report, provided that the runtime id it derives from its time is not taken. The
  program emits one event for it, and whoever verifies that event from the accounts of that chain gets MATCH with the
  winners, the sum of scores and the digests of the report. With larger facts the program accepts the round and the
  verifier can answer MISMATCH (\<open>saturated_round_mismatch\<close>).\<close>

theorem conditions_round_completes:
  assumes fits: "list_fits fixture_fits fs" "list_fits entrant_fits es" and built: "buildConditionsArtifact fs es = Inr blob"
    and size: "length blob \<le> MAX_COMPILED_ARTIFACT_BYTES" and valid: "conditions_validate (built_artifact fs es)"
    and small: "small_facts (built_artifact fs es)" and admin: "pe_signer env = pe_admin env"
    and checks: "pe_accepts env FORMAT_VERSION_CONDITIONS blob" and commitment: "check_commitment commitmentRef fs es = Inr ()"
    and before: "c = after_rounds env be base58 tries fs es commitmentRef new_chain"
    and unused: "rc_configs c (round_runtime (sha256 blob) now) = None"
  shows "\<exists>report c' k event. resolveConditionsRound env be base58 now (\<lambda>_. Served) fs es commitmentRef (c, 0) = (Inr report, c', k)
    \<and> rc_events c' = rc_events c @ [event] \<and> reports base58 report (built_artifact fs es)
    \<and> (\<forall>w programId. shows_chain w programId c' \<longrightarrow>
         (\<exists>r. verifyConditions w programId event = Inr r \<and> agrees_with r report))"
  by (rule round_completes [OF fits built size valid small admin checks commitment before unused])

lemma sample_built: "buildConditionsArtifact [sample_fixture] [sample_entrant] = Inr sample_round_blob"
  using conditions_build_parse [OF sample_conditions_fits] by (auto simp: round_blob_def)

definition sample_binding :: binding_env where
  "sample_binding = \<lparr>be_allowUnreviewed = False, be_binds = (\<lambda>_ _ _ _. False)\<rparr>"

lemma sample_checks: "pe_accepts conditions_env FORMAT_VERSION_CONDITIONS sample_round_blob" "pe_signer conditions_env = pe_admin conditions_env"
  using sample_round by (simp_all add: conditions_env_def FORMAT_VERSION_CONDITIONS_def)

lemma sample_size: "length sample_round_blob \<le> MAX_COMPILED_ARTIFACT_BYTES"
  using sample_round(3) by (simp add: MAX_COMPILED_ARTIFACT_BYTES_def)

lemma sample_lost:
  "after_rounds conditions_env sample_binding (\<lambda>_. []) [(0, \<lambda>_. Lost)] [sample_fixture] [sample_entrant] None new_chain = new_chain"
  by (simp add: resolveConditionsRound_def check_commitment_def sample_built doS_liftS doS_def submitArtifact_def Let_def ask_def)

lemma conditions_round_completes_witness:
  "\<exists>report c' k event. resolveConditionsRound conditions_env sample_binding (\<lambda>_. []) 5 (\<lambda>_. Served) [sample_fixture] [sample_entrant] None
      (after_rounds conditions_env sample_binding (\<lambda>_. []) [(0, \<lambda>_. Lost)] [sample_fixture] [sample_entrant] None new_chain, 0)
      = (Inr report, c', k)
    \<and> rc_events c' = [event] \<and> rr_winnersCount report = 1"
proof -
  let ?c = "after_rounds conditions_env sample_binding (\<lambda>_. []) [(0, \<lambda>_. Lost)] [sample_fixture] [sample_entrant] None new_chain"
  have c: "check_commitment None [sample_fixture] [sample_entrant] = Inr ()" by (simp add: check_commitment_def)
  have none: "rc_configs ?c (round_runtime (sha256 sample_round_blob) 5) = None" "rc_events ?c = []"
    unfolding sample_lost by (simp_all add: new_chain_def)
  obtain report c' k event where r: "resolveConditionsRound conditions_env sample_binding (\<lambda>_. []) 5 (\<lambda>_. Served)
      [sample_fixture] [sample_entrant] None (?c, 0) = (Inr report, c', k)" "rc_events c' = rc_events ?c @ [event]"
    "reports (\<lambda>_. []) report sample_round_artifact"
    using conditions_round_completes [OF sample_conditions_fits sample_built sample_size sample_round(4,5) sample_checks(2,1) c refl none(1)]
    by blast
  have "rr_winnersCount report = 1" using r(3) sample_round(6) by (auto simp: reports_def Let_def)
  with r none show ?thesis by auto
qed

section \<open>A commitment binds the rules\<close>

lemma check_commitment_E:
  assumes "check_commitment (Some ref) fs es = Inr ()" and "ref \<noteq> []"
  obtains blob where "rulesBlob fs es = Inr blob" "to_hex (sha256 blob) = ref"
  using assms by (auto simp: check_commitment_def result_simps)

lemma doS_Inr_E:
  assumes "doS m k s = (Inr y, s')"
  obtains x s1 where "m s = (Inr x, s1)" "k x s1 = (Inr y, s')"
  using assms by (auto simp: doS_def split: prod.splits sum.splits)

lemma doS_value: "doS m k s = (Inr y, s') \<Longrightarrow> (\<And>x s1. k x s1 = (Inr y, s') \<Longrightarrow> P) \<Longrightarrow> P"
  by (elim doS_Inr_E)

lemma submitted_hash: "submitArtifact api fates blob review s = (Inr r, s') \<Longrightarrow> fst r = sha256 blob"
  unfolding submitArtifact_def Let_def by (elim doS_value) (auto simp: retS_def)

lemma commit_E:
  assumes "commitConditions api slot fates fs es s = (Inr cm, s')"
  obtains blob where "rulesBlob fs es = Inr blob" "cm_commitmentRef cm = to_hex (sha256 blob)"
proof -
  from assms obtain blob s1 where blob: "liftS (rulesBlob fs es) s = (Inr blob, s1)"
    and rest: "doS (submitArtifact api fates blob False) (\<lambda>(hash, chunks, sent). doS (ask fates slot) (\<lambda>committedAtSlot.
      retS \<lparr>cm_commitmentRef = to_hex hash, cm_conditionsHash = to_hex hash, cm_sent = sent, cm_committedAtSlot = committedAtSlot\<rparr>)) s1
      = (Inr cm, s')"
    unfolding commitConditions_def by (rule doS_Inr_E)
  from rest obtain r s2 where sub: "submitArtifact api fates blob False s1 = (Inr r, s2)"
    and last: "(case r of (hash, chunks, sent) \<Rightarrow> doS (ask fates slot) (\<lambda>committedAtSlot.
      retS \<lparr>cm_commitmentRef = to_hex hash, cm_conditionsHash = to_hex hash, cm_sent = sent, cm_committedAtSlot = committedAtSlot\<rparr>)) s2
      = (Inr cm, s')"
    by (rule doS_Inr_E)
  have "cm_commitmentRef cm = to_hex (fst r)" using last by (cases r) (auto elim!: doS_value simp: retS_def)
  then show thesis using that blob submitted_hash [OF sub] by (simp add: liftS_def)
qed

lemma resolve_checks:
  "resolveConditionsRound env be base58 now fates fs es commitmentRef s = (Inr report, s') \<Longrightarrow> check_commitment commitmentRef fs es = Inr ()"
  unfolding resolveConditionsRound_def by (erule doS_Inr_E) (simp add: liftS_def)

interpretation rule_bytes: determined "encodeFixture \<circ> rule_of" "to_uint32 \<circ> fixtureId" "\<lambda>_. True"
proof
  fix x y a b r s
  assume x: "(encodeFixture \<circ> rule_of) x = Inr a" and y: "(encodeFixture \<circ> rule_of) y = Inr b" and eq: "a @ r = b @ s"
  have enc: "(encodeFixture \<circ> rule_of) f = Inr (le_bytes 4 (to_uint32 (fixtureId f)) @ zeros 32 @ le_bytes 4 0)" for f
    by (simp add: encodeFixture_def rule_of_def vec_def u32_written)
  have ab: "a = le_bytes 4 (to_uint32 (fixtureId x)) @ zeros 32 @ le_bytes 4 0" "b = le_bytes 4 (to_uint32 (fixtureId y)) @ zeros 32 @ le_bytes 4 0"
    using x y unfolding enc by (simp_all only: sum.inject)
  have "le_bytes 4 (to_uint32 (fixtureId x)) = le_bytes 4 (to_uint32 (fixtureId y)) \<and> r = s"
    using eq unfolding ab by (simp only: append_eq_append_conv length_append length_le_bytes append_assoc simp_thms)
  then show "(to_uint32 \<circ> fixtureId) x = (to_uint32 \<circ> fixtureId) y \<and> r = s"
    by (auto dest: to_uint32_written)
qed

lemma rules_determined:
  assumes "rulesBlob fs es = Inr b" "rulesBlob fs' es' = Inr b" and arrays: "is_array fs" "is_array es" "is_array fs'" "is_array es'"
    and entrants: "\<forall>e \<in> set es \<union> set es'. entrant_arrays e"
  shows "map (to_uint32 \<circ> fixtureId) fs = map (to_uint32 \<circ> fixtureId) fs' \<and> map written_entrant es = map written_entrant es'"
proof -
  obtain h x y where x: "vec (encodeFixture \<circ> rule_of) fs = Inr x" and y: "vec encodeEntrant es = Inr y" and b: "b = h @ x @ y"
    and h: "h = MAGIC @ le_bytes 2 9 @ byte_of 7 @ byte_of 0"
    using assms(1) by (auto simp: rulesBlob_def buildConditionsArtifact_def vec_map bindE_Inr_iff FORMAT_VERSION_CONDITIONS_def
        FORMULA_CODE_CONDITIONS_def WINNERS_MODE_ALL_HIT_PRORATA_def)
  obtain x' y' where x': "vec (encodeFixture \<circ> rule_of) fs' = Inr x'" and y': "vec encodeEntrant es' = Inr y'" and b': "b = h @ x' @ y'"
    using assms(2) by (auto simp: h rulesBlob_def buildConditionsArtifact_def vec_map bindE_Inr_iff FORMAT_VERSION_CONDITIONS_def
        FORMULA_CODE_CONDITIONS_def WINNERS_MODE_ALL_HIT_PRORATA_def)
  have "map (to_uint32 \<circ> fixtureId) fs = map (to_uint32 \<circ> fixtureId) fs' \<and> y = y'"
    using b b' by (intro rule_bytes.vec_determines [OF x x' _ arrays(1,3)]) simp_all
  moreover have "map written_entrant es = map written_entrant es'" if "y = y'"
    using entrant_bytes.vec_determines [OF y y' _ arrays(2,4), of "[]" "[]"] entrants that by simp
  ultimately show ?thesis by blast
qed

lemma written_rules:
  assumes "list_fits fixture_fits fs" and "list_fits entrant_fits es"
  shows "map (to_uint32 \<circ> fixtureId) fs = map fixtureId fs" and "map written_entrant es = es"
  using assms by (auto simp: list_fits_def list_all_iff fixture_fits_def to_uint32_def written_entrant_fits intro!: map_idI)

text \<open>C9: a commitment binds the rules: when a round that is resolved under the reference that an earlier commitment returned
  returns its report, its entrants and the ids of its fixtures are written as those of that commitment are, entrant by
  entrant and leg by leg, the odds included, and the artifact it is played on is the one of its fixtures with the
  committed entrants; or two rule artifacts have the same SHA-256. Written means as in the bytes: the writers reduce
  fixture ids, stat keys and fixture indexes modulo \<open>2 ^ 32\<close>, thresholds and lines to signed 32 bits, kinds, operations
  and comparisons modulo \<open>256\<close>, without an error (\<open>threshold_wraps\<close>), so requests that differ by such multiples are the
  same rules; where all numbers of both requests fit their fields, the fixture ids and the entrants themselves are
  equal. The lists have fewer than \<open>2 ^ 32\<close> elements, as every JavaScript array.\<close>

theorem commitment_binds_rules:
  assumes "commitConditions api slot fates fs0 es0 s0 = (Inr cm, s1)"
    and "resolveConditionsRound env be base58 now fates' fs es (Some (cm_commitmentRef cm)) s = (Inr report, s')"
    and "is_array fs" "is_array es" "is_array fs0" "is_array es0" and "\<forall>e \<in> set es \<union> set es0. entrant_arrays e"
  shows "map (to_uint32 \<circ> fixtureId) fs = map (to_uint32 \<circ> fixtureId) fs0 \<and> map written_entrant es = map written_entrant es0
      \<and> buildConditionsArtifact fs es = buildConditionsArtifact fs es0
      \<and> (list_fits fixture_fits fs \<and> list_fits entrant_fits es \<and> list_fits fixture_fits fs0 \<and> list_fits entrant_fits es0 \<longrightarrow>
           map fixtureId fs = map fixtureId fs0 \<and> es = es0)
    \<or> (\<exists>x y. rulesBlob fs es = Inr x \<and> rulesBlob fs0 es0 = Inr y \<and> x \<noteq> y \<and> sha256 x = sha256 y)"
proof -
  obtain y where y: "rulesBlob fs0 es0 = Inr y" "cm_commitmentRef cm = to_hex (sha256 y)" using assms(1) by (rule commit_E)
  have "to_hex (sha256 y) \<noteq> []" by (simp add: length_0_conv [symmetric] length_sha256 del: length_0_conv)
  from resolve_checks [OF assms(2), unfolded y(2)] this
  obtain x where x: "rulesBlob fs es = Inr x" "to_hex (sha256 x) = to_hex (sha256 y)"
    by (rule check_commitment_E)
  show ?thesis
  proof (cases "x = y")
    case True
    then have rules: "map (to_uint32 \<circ> fixtureId) fs = map (to_uint32 \<circ> fixtureId) fs0" "map written_entrant es = map written_entrant es0"
      using rules_determined [OF x(1) _ assms(3-7)] y(1) by simp_all
    moreover have "buildConditionsArtifact fs es = buildConditionsArtifact fs es0"
      using build_written [of fs es] build_written [of fs es0] rules(2) by simp
    moreover have "map fixtureId fs = map fixtureId fs0 \<and> es = es0"
      if "list_fits fixture_fits fs" "list_fits entrant_fits es" "list_fits fixture_fits fs0" "list_fits entrant_fits es0"
      using rules unfolding written_rules [OF that(1,2)] written_rules [OF that(3,4)] by blast
    ultimately show ?thesis by blast
  next
    case False
    moreover have "sha256 x = sha256 y" using x(2) by (simp only: to_hex_inject)
    ultimately show ?thesis using x(1) y(1) by blast
  qed
qed

text \<open>A served commitment returns the hash of the rules, and other artifacts can be uploaded as before.\<close>

lemma commit_served:
  assumes "rulesBlob fs es = Inr blob" and "uploadable env blob round_uri version (rc_store c)"
  shows "\<exists>cm c' k. commitConditions (conditions_api env) slot (\<lambda>_. Served) fs es (c, 0) = (Inr cm, c', k)
    \<and> cm_commitmentRef cm = to_hex (sha256 blob) \<and> rc_configs c' = rc_configs c \<and> rc_events c' = rc_events c
    \<and> uploadable env blob round_uri version (rc_store c')
    \<and> (\<forall>other v. sha256 other \<noteq> sha256 blob \<longrightarrow> uploadable env other round_uri v (rc_store c) \<longrightarrow>
         uploadable env other round_uri v (rc_store c'))"
proof -
  note submitted = rounds.operator_submit_ok [OF refl, of env blob version c "\<lambda>_. Served" False, unfolded achieves_def rounds.served_def]
  obtain x s' where sub: "submitArtifact (conditions_api env) (\<lambda>_. Served) blob False (c, 0) = (Inr x, s')" "fst x = sha256 blob"
    and kept: "round_ok env blob version c (fst s')"
    using submitted [THEN spec, of "(c, 0)"] assms(2) by auto
  have "uploadable env other round_uri v (rc_store (fst s'))"
    if "sha256 other \<noteq> sha256 blob" "uploadable env other round_uri v (rc_store c)" for other v
    using consistent_elsewhere [of "sha256 blob" "rc_store c" "rc_store (fst s')" other env v] that kept by blast
  moreover have "\<exists>cm. commitConditions (conditions_api env) slot (\<lambda>_. Served) fs es (c, 0) = (Inr cm, fst s', snd s' + 1)
      \<and> cm_commitmentRef cm = to_hex (sha256 blob)"
    using assms(1) sub by (cases x; cases s') (simp add: commitConditions_def doS_liftS, simp add: doS_def ask_def retS_def)
  ultimately show ?thesis using kept by blast
qed

abbreviation sample_rules :: buffer where
  "sample_rules \<equiv> round_blob [rule_of sample_fixture] [sample_entrant]"

lemma sample_rules_built: "rulesBlob [sample_fixture] [sample_entrant] = Inr sample_rules"
proof -
  have "list_fits fixture_fits [rule_of sample_fixture]"
    by (simp add: list_fits_def fixture_fits_def rule_of_def sample_fixture_def)
  from conditions_build_parse [OF this sample_conditions_fits(2)] show ?thesis
    by (auto simp: rulesBlob_def round_blob_def)
qed

lemma sample_rules_checked:
  "conditions_from_bytes sample_rules = Some (built_artifact [rule_of sample_fixture] [sample_entrant])"
  "artifactFormatVersion sample_rules = Inr 9" "length sample_rules \<le> 8192 \<and> sample_rules \<noteq> []"
  "conditions_validate (built_artifact [rule_of sample_fixture] [sample_entrant])"
  by code_simp+

lemma commitment_binds_rules_witness:
  "\<exists>cm report. (\<exists>s1. commitConditions (conditions_api conditions_env) (\<lambda>_. 7) (\<lambda>_. Served) [sample_fixture] [sample_entrant] (new_chain, 0)
        = (Inr cm, s1))
    \<and> (\<exists>s'. resolveConditionsRound conditions_env sample_binding (\<lambda>_. []) 5 (\<lambda>_. Served) [sample_fixture] [sample_entrant]
        (Some (cm_commitmentRef cm)) (new_chain, 0) = (Inr report, s'))
    \<and> (map fixtureId [sample_fixture] = map fixtureId [sample_fixture] \<and> [sample_entrant] = [sample_entrant]
       \<or> (\<exists>x y. rulesBlob [sample_fixture] [sample_entrant] = Inr x \<and> rulesBlob [sample_fixture] [sample_entrant] = Inr y
            \<and> x \<noteq> y \<and> sha256 x = sha256 y))"
proof -
  have "acceptable conditions_env sample_rules round_uri 9"
    using acceptable_round [OF sample_rules_checked] by (simp add: acceptable_def round_uri_def js_def ascii_bytes_def)
  then have "uploadable conditions_env sample_rules round_uri 9 (rc_store new_chain)"
    by (simp add: new_chain_def fresh_store_consistent program_reach.fresh)
  from commit_served [OF sample_rules_built this] obtain cm s1 where
    cm: "commitConditions (conditions_api conditions_env) (\<lambda>_. 7) (\<lambda>_. Served) [sample_fixture] [sample_entrant] (new_chain, 0) = (Inr cm, s1)"
      "cm_commitmentRef cm = to_hex (sha256 sample_rules)" by blast
  have c: "check_commitment (Some (cm_commitmentRef cm)) [sample_fixture] [sample_entrant] = Inr ()"
    unfolding cm(2) by (simp add: check_commitment_def sample_rules_built throwIf_def)
  have none: "rc_configs new_chain (round_runtime (sha256 sample_round_blob) 5) = None" by (simp add: new_chain_def)
  have "new_chain = after_rounds conditions_env sample_binding (\<lambda>_. []) [] [sample_fixture] [sample_entrant]
      (Some (cm_commitmentRef cm)) new_chain" by simp
  from round_completes [OF sample_conditions_fits sample_built sample_size sample_round(4,5) sample_checks(2,1) c this none]
  obtain report s' where r: "resolveConditionsRound conditions_env sample_binding (\<lambda>_. []) 5 (\<lambda>_. Served) [sample_fixture] [sample_entrant]
      (Some (cm_commitmentRef cm)) (new_chain, 0) = (Inr report, s')" by blast
  have "is_array [sample_fixture]" "is_array [sample_entrant]" "\<forall>e \<in> set [sample_entrant] \<union> set [sample_entrant]. entrant_arrays e"
    by (simp_all add: is_array_def entrant_arrays_def sample_entrant_def)
  from commitment_binds_rules [OF cm(1) r this(1,2,1,2,3)] sample_conditions_fits cm(1) r show ?thesis
    by blast
qed

end
