(* ===== verification/Partner_Conditions.thy ===== *)
theory Partner_Conditions
  imports Conditions_Round Partner_Request
begin

text \<open>
  The conditions endpoints of the partner API in \<^verbatim>\<open>web/server.mjs\<close>: a round is committed under an identifier, its
  request is kept in a file, and when the facts are known the stored rules and the revealed facts are resolved. Both need
  the key of a partner, and the wallet of the operator. The
  numbers of a body are integers, as \<^verbatim>\<open>Number\<close> and \<^verbatim>\<open>BigInt\<close> return them; what a field may be instead of a number, a
  wallet or a root is as in the body. The file of commitments is a map from the identifiers of rounds, which are not
  names that every JavaScript object has.
\<close>

section \<open>Bodies\<close>

text \<open>\<^verbatim>\<open>fixture_id\<close> may be absent, \<^verbatim>\<open>null\<close> or a number. \<^verbatim>\<open>f.fixture_id ?? i\<close> takes the position for the first two, but
  \<^verbatim>\<open>Number(f.fixture_id)\<close> is \<^verbatim>\<open>NaN\<close> for the first and zero for the second.\<close>

datatype id_field = Id_absent | Id_null | Id_number int

fun id_or :: "id_field \<Rightarrow> int \<Rightarrow> int" where
  "id_or (Id_number n) i = n"
| "id_or Id_absent i = i"
| "id_or Id_null i = i"

fun id_as_number :: "id_field \<Rightarrow> int option" where
  "id_as_number (Id_number n) = Some n"
| "id_as_number Id_absent = None"
| "id_as_number Id_null = Some 0"

record fixture_body =
  fb_fixture_id :: id_field
  fb_event_stat_root :: jsval
  fb_stats :: "score_stat list option"

record leg_body =
  lb_term_kind :: "int option"
  lb_stat_key_a :: int
  lb_stat_key_b :: "int option"
  lb_op :: int
  lb_comparison :: int
  lb_threshold :: "int option"
  lb_line_x2 :: "int option"
  lb_odds_milli :: int

record entrant_body =
  eb_wallet :: jsval
  eb_tier :: "int option"
  eb_entered_at :: "int option"
  eb_legs :: "leg_body list option"
  eb_fixture_index :: "int list option"

text \<open>\<open>None\<close> is a field that is not an array.\<close>

record round_body =
  rb_round_id :: jsval
  rb_fixtures :: "fixture_body list option"
  rb_entrants :: "entrant_body list option"

text \<open>\<open>publicKey\<close> is \<^verbatim>\<open>new PublicKey(s).toBuffer()\<close>, \<open>shown\<close> the text of a number. The conversion to text stands inside the
  \<^verbatim>\<open>try\<close>.\<close>

definition conditionsWalletBytes :: "(jsstr \<Rightarrow> buffer option) \<Rightarrow> (js_number \<Rightarrow> jsstr) \<Rightarrow> jsval \<Rightarrow> buffer reply" where
  "conditionsWalletBytes publicKey shown value =
     (let other = (case js_text shown value of
          Inl _ \<Rightarrow> Inl (Http 400 ''must be a base58 pubkey or 32-byte hex'')
        | Inr s \<Rightarrow> (case publicKey s of Some b \<Rightarrow> Inr b
            | None \<Rightarrow> Inl (Http 400 ''must be a base58 pubkey or 32-byte hex''))) in
      case value of JString s \<Rightarrow> if is_hex64 s then Inr (from_hex s) else other | _ \<Rightarrow> other)"

definition conditionsRoot32 :: "jsval \<Rightarrow> buffer reply" where
  "conditionsRoot32 value =
     (if value = JUndefined \<or> value = JNull then Inr (zeros 32)
      else case value of
        JString s \<Rightarrow> if is_hex64 s then Inr (from_hex s) else Inl (Http 400 ''event_stat_root must be 32-byte hex'')
      | _ \<Rightarrow> Inl (Http 400 ''event_stat_root must be 32-byte hex''))"

definition fixture_from :: "bool \<Rightarrow> fixture_body \<times> nat \<Rightarrow> conditions_fixture reply" where
  "fixture_from requireStats fi =
     (case fi of (f, i) \<Rightarrow>
      bindE (conditionsRoot32 (fb_event_stat_root f)) (\<lambda>root.
      Inr \<lparr>fixtureId = id_or (fb_fixture_id f) (int i), eventStatRoot = root,
           fixtureStats = (if requireStats then or_default (fb_stats f) [] else [])\<rparr>))"

definition conditionsFixturesFromBody :: "fixture_body list option \<Rightarrow> bool \<Rightarrow> conditions_fixture list reply" where
  "conditionsFixturesFromBody fs requireStats =
     (case fs of None \<Rightarrow> Inl (Http 400 ''fixtures must be an array'')
      | Some fs \<Rightarrow> mapE (fixture_from requireStats) (zip fs [0..<length fs]))"

definition CONDITIONS_NO_LINE :: int where "CONDITIONS_NO_LINE = -2147483648"

definition leg_from :: "leg_body \<Rightarrow> leg_commit" where
  "leg_from l =
     \<lparr>termKind = or_default (lb_term_kind l) 1, statKeyA = lb_stat_key_a l, statKeyB = or_default (lb_stat_key_b l) 0,
      legOp = lb_op l, comparison = lb_comparison l, threshold = or_default (lb_threshold l) 0,
      lineX2 = or_default (lb_line_x2 l) CONDITIONS_NO_LINE, oddsMilli = lb_odds_milli l\<rparr>"

definition entrant_from ::
  "(jsstr \<Rightarrow> buffer option) \<Rightarrow> (js_number \<Rightarrow> jsstr) \<Rightarrow> entrant_body \<Rightarrow> conditions_entrant reply" where
  "entrant_from publicKey shown e =
     bindE (conditionsWalletBytes publicKey shown (eb_wallet e)) (\<lambda>wallet.
     Inr \<lparr>e_wallet = wallet, e_tier = or_default (eb_tier e) 0, e_enteredAt = or_default (eb_entered_at e) 0,
          e_legs = map leg_from (or_default (eb_legs e) []), e_fixtureIndex = or_default (eb_fixture_index e) []\<rparr>)"

definition conditionsEntrantsFromBody ::
  "(jsstr \<Rightarrow> buffer option) \<Rightarrow> (js_number \<Rightarrow> jsstr) \<Rightarrow> entrant_body list option \<Rightarrow> conditions_entrant list reply" where
  "conditionsEntrantsFromBody publicKey shown es =
     (case es of None \<Rightarrow> Inl (Http 400 ''entrants must be an array'')
      | Some es \<Rightarrow> mapE (entrant_from publicKey shown) es)"

section \<open>The server\<close>

record stored_round =
  sr_commitment_ref :: jsstr
  sr_fixtures :: "fixture_body list option"
  sr_entrants :: "entrant_body list option"
  sr_committed_at_slot :: nat

record conditions_server =
  cs_chain :: round_chain
  cs_commits :: "jsstr \<Rightarrow> stored_round option"

text \<open>What a handler takes from its surroundings: the partners, the wallet of the operator (empty when neither variable of the
  environment names one) and what becomes of loading it, the program, the key parser, the printing of numbers and
  addresses, the current slot.\<close>

record conditions_setting =
  ct_partners :: "(jsstr \<rightharpoonup> partner) option"
  ct_walletPath :: jsstr
  ct_created :: "unit reply"
  ct_env :: program_env
  ct_binding :: binding_env
  ct_publicKey :: "jsstr \<Rightarrow> buffer option"
  ct_shown :: "js_number \<Rightarrow> jsstr"
  ct_base58 :: "buffer \<Rightarrow> jsstr"
  ct_slot :: "round_chain \<Rightarrow> nat"

text \<open>\<open>ct_created\<close> is what comes after the check of the wallet: reading the interface description, \<^verbatim>\<open>resolveRpcUrl\<close> and
  \<^verbatim>\<open>createConditionsOperator\<close>, which reads the key.\<close>

definition loadConditionsOperator :: "conditions_setting \<Rightarrow> unit reply" where
  "loadConditionsOperator ct =
     throwIf (ct_walletPath ct = []) (Http 503 ''Conditions operator not configured (set CONDITIONS_OPERATOR_WALLET)'')
       (ct_created ct)"

definition round_id_of :: "conditions_setting \<Rightarrow> round_body \<Rightarrow> jsstr reply" where
  "round_id_of ct body = bindE (js_text (ct_shown ct) (or_empty (rb_round_id body))) (\<lambda>s. Inr (js_trim s))"

definition commit_request ::
  "conditions_setting \<Rightarrow> round_body \<Rightarrow> (jsstr \<times> conditions_fixture list \<times> conditions_entrant list) reply" where
  "commit_request ct body =
     bindE (round_id_of ct body) (\<lambda>roundId.
     throwIf (roundId = []) (Http 400 ''round_id is required'')
    (bindE (conditionsFixturesFromBody (rb_fixtures body) False) (\<lambda>fixtures.
     bindE (conditionsEntrantsFromBody (ct_publicKey ct) (ct_shown ct) (rb_entrants body)) (\<lambda>entrants.
     Inr (roundId, fixtures, entrants)))))"

definition handlePartnerConditionsCommit ::
  "conditions_setting \<Rightarrow> jsstr \<Rightarrow> (nat \<Rightarrow> fate) \<Rightarrow> round_body \<Rightarrow> conditions_server
     \<Rightarrow> commitment reply \<times> conditions_server" where
  "handlePartnerConditionsCommit ct key fates body s =
     (case bindE (requirePartnerApiKey (ct_partners ct) key) (\<lambda>_. bindE (commit_request ct body) (\<lambda>request.
           bindE (loadConditionsOperator ct) (\<lambda>_. Inr request))) of
        Inl e \<Rightarrow> (Inl e, s)
      | Inr (roundId, fs, es) \<Rightarrow>
         (case commitConditions (conditions_api (ct_env ct)) (ct_slot ct) fates fs es (cs_chain s, 0) of
            (Inl e, c, _) \<Rightarrow> (Inl (Thrown e), s\<lparr>cs_chain := c\<rparr>)
          | (Inr result, c, _) \<Rightarrow>
              (Inr result, s\<lparr>cs_chain := c, cs_commits := (cs_commits s)(roundId \<mapsto>
                 \<lparr>sr_commitment_ref = cm_commitmentRef result, sr_fixtures = rb_fixtures body, sr_entrants = rb_entrants body,
                  sr_committed_at_slot = cm_committedAtSlot result\<rparr>)\<rparr>)))"

text \<open>\<^verbatim>\<open>revealed.set(Number(f.fixture_id), f)\<close>: the last one of an identifier counts. One without an identifier has the key
  \<^verbatim>\<open>NaN\<close>, which is never asked for; one with the identifier \<^verbatim>\<open>null\<close> has the key zero.\<close>

definition revealed_of :: "fixture_body list \<Rightarrow> int \<Rightarrow> fixture_body option" where
  "revealed_of fs = foldl (\<lambda>m f. case id_as_number (fb_fixture_id f) of None \<Rightarrow> m | Some n \<Rightarrow> m(n \<mapsto> f)) (\<lambda>_. None) fs"

definition merged_fixture :: "(int \<Rightarrow> fixture_body option) \<Rightarrow> fixture_body \<times> nat \<Rightarrow> fixture_body" where
  "merged_fixture revealed fi =
     (case fi of (f, i) \<Rightarrow>
      let n = id_or (fb_fixture_id f) (int i) in
      (case revealed n of
         None \<Rightarrow> \<lparr>fb_fixture_id = Id_number n, fb_event_stat_root = fb_event_stat_root f, fb_stats = Some []\<rparr>
       | Some rf \<Rightarrow>
           \<lparr>fb_fixture_id = Id_number n,
            fb_event_stat_root = (if fb_event_stat_root rf = JUndefined \<or> fb_event_stat_root rf = JNull
                                  then fb_event_stat_root f else fb_event_stat_root rf),
            fb_stats = Some (or_default (fb_stats rf) [])\<rparr>))"

definition merged_fixtures :: "fixture_body list option \<Rightarrow> fixture_body list option \<Rightarrow> fixture_body list" where
  "merged_fixtures revealed committed =
     (let fs = or_default committed [] in
      map (merged_fixture (revealed_of (or_default revealed []))) (zip fs [0..<length fs]))"

definition resolve_request ::
  "conditions_setting \<Rightarrow> round_body \<Rightarrow> (jsstr \<Rightarrow> stored_round option)
     \<Rightarrow> (stored_round \<times> conditions_fixture list \<times> conditions_entrant list) reply" where
  "resolve_request ct body commits =
     bindE (round_id_of ct body) (\<lambda>roundId.
     case (if roundId = [] then None else commits roundId) of
       None \<Rightarrow> Inl (Http 404 ''unknown round_id'')
     | Some stored \<Rightarrow>
         bindE (conditionsFixturesFromBody (Some (merged_fixtures (rb_fixtures body) (sr_fixtures stored))) True) (\<lambda>fixtures.
         bindE (conditionsEntrantsFromBody (ct_publicKey ct) (ct_shown ct) (sr_entrants stored)) (\<lambda>entrants.
         Inr (stored, fixtures, entrants))))"

definition handlePartnerConditionsResolve ::
  "conditions_setting \<Rightarrow> jsstr \<Rightarrow> int \<Rightarrow> (nat \<Rightarrow> fate) \<Rightarrow> round_body \<Rightarrow> conditions_server
     \<Rightarrow> round_report reply \<times> conditions_server" where
  "handlePartnerConditionsResolve ct key now fates body s =
     (case bindE (requirePartnerApiKey (ct_partners ct) key) (\<lambda>_. bindE (resolve_request ct body (cs_commits s)) (\<lambda>request.
           bindE (loadConditionsOperator ct) (\<lambda>_. Inr request))) of
        Inl e \<Rightarrow> (Inl e, s)
      | Inr (stored, fs, es) \<Rightarrow>
         (case resolveConditionsRound (ct_env ct) (ct_binding ct) (ct_base58 ct) now fates fs es (Some (sr_commitment_ref stored))
            (cs_chain s, 0) of
            (Inl e, c, _) \<Rightarrow> (Inl (Thrown e), s\<lparr>cs_chain := c\<rparr>)
          | (Inr report, c, _) \<Rightarrow> (Inr report, s\<lparr>cs_chain := c\<rparr>)))"

end
