(* ===== verification/Partner_Rounds.thy ===== *)
theory Partner_Rounds
  imports Partner_Conditions
begin

text \<open>
  What the conditions endpoints promise: whatever requests came before, a round is resolved under the rules that its
  last commitment anchored, and a committed round can be resolved.
\<close>

section \<open>Merging the facts keeps the rules\<close>

lemma fixture_rule:
  assumes "fixture_from False (f, i) = Inr x" and "fixture_from True (merged_fixture revealed (f, i), j) = Inr y"
  shows "rule_of y = rule_of x"
  using assms by (auto simp: fixture_from_def merged_fixture_def rule_of_def bindE_Inr_iff Let_def split: option.splits)

lemma merged_rules:
  assumes "conditionsFixturesFromBody committed False = Inr fs0"
    and "conditionsFixturesFromBody (Some (merged_fixtures revealed committed)) True = Inr fs"
  shows "map rule_of fs = map rule_of fs0"
proof -
  obtain bs where bs: "committed = Some bs" using assms(1) by (cases committed) (simp_all add: conditionsFixturesFromBody_def)
  let ?rev = "revealed_of (or_default revealed [])"
  let ?ms = "map (merged_fixture ?rev) (zip bs [0..<length bs])"
  have a: "mapE (fixture_from False) (zip bs [0..<length bs]) = Inr fs0"
    and b: "mapE (fixture_from True) (zip ?ms [0..<length ?ms]) = Inr fs"
    using assms by (simp_all add: bs conditionsFixturesFromBody_def merged_fixtures_def or_default_def Let_def)
  have "length fs = length fs0" using mapE_Inr_length [OF a] mapE_Inr_length [OF b] by simp
  moreover have "rule_of (fs ! i) = rule_of (fs0 ! i)" if "i < length fs0" for i
  proof -
    have i: "i < length bs" using that mapE_Inr_length [OF a] by simp
    then have "fixture_from False (bs ! i, i) = Inr (fs0 ! i)" "fixture_from True (merged_fixture ?rev (bs ! i, i), i) = Inr (fs ! i)"
      using mapE_Inr_nth [OF a, of i] mapE_Inr_nth [OF b, of i] by simp_all
    then show ?thesis by (rule fixture_rule)
  qed
  ultimately show ?thesis by (auto intro: nth_equalityI)
qed

section \<open>Runs of the server\<close>

inductive server_reach :: "conditions_setting \<Rightarrow> conditions_server \<Rightarrow> bool" for ct where
  start: "server_reach ct \<lparr>cs_chain = c, cs_commits = (\<lambda>_. None)\<rparr>"
| commit: "server_reach ct s \<Longrightarrow> handlePartnerConditionsCommit ct key fates body s = (r, s') \<Longrightarrow> server_reach ct s'"
| resolve: "server_reach ct s \<Longrightarrow> handlePartnerConditionsResolve ct key now fates body s = (r, s') \<Longrightarrow> server_reach ct s'"

text \<open>A stored round can be read again, and its reference is the hash of its rules.\<close>

definition anchored :: "conditions_setting \<Rightarrow> stored_round \<Rightarrow> bool" where
  "anchored ct r \<longleftrightarrow>
     (\<exists>fs es blob. conditionsFixturesFromBody (sr_fixtures r) False = Inr fs
        \<and> conditionsEntrantsFromBody (ct_publicKey ct) (ct_shown ct) (sr_entrants r) = Inr es
        \<and> rulesBlob fs es = Inr blob \<and> sr_commitment_ref r = to_hex (sha256 blob))"

lemma commit_request_D:
  assumes "commit_request ct body = Inr (roundId, fs, es)"
  shows "roundId \<noteq> []" "conditionsFixturesFromBody (rb_fixtures body) False = Inr fs"
    "conditionsEntrantsFromBody (ct_publicKey ct) (ct_shown ct) (rb_entrants body) = Inr es"
    "round_id_of ct body = Inr roundId"
  using assms by (auto simp: commit_request_def result_simps)

text \<open>What a handler does before it turns to the program: the key, the body, the wallet.\<close>

lemma admitted_D:
  assumes "bindE (requirePartnerApiKey ps key) (\<lambda>_. bindE request (\<lambda>r. bindE loaded (\<lambda>_. Inr r))) = Inr x"
  shows "request = Inr x"
  using assms by (auto simp: result_simps)

lemma commit_commits:
  assumes "handlePartnerConditionsCommit ct key fates body s = (r, s')"
  shows "cs_commits s' = cs_commits s \<or> (\<exists>roundId stored. cs_commits s' = (cs_commits s)(roundId \<mapsto> stored) \<and> anchored ct stored)"
proof -
  let ?admitted = "bindE (requirePartnerApiKey (ct_partners ct) key) (\<lambda>_. bindE (commit_request ct body) (\<lambda>request.
    bindE (loadConditionsOperator ct) (\<lambda>_. Inr request)))"
  show ?thesis
  proof (cases ?admitted)
    case (Inl e)
    then show ?thesis using assms by (simp add: handlePartnerConditionsCommit_def)
  next
    case (Inr x)
    obtain roundId fs es where x: "x = (roundId, fs, es)" by (metis prod_cases3)
    have req: "commit_request ct body = Inr (roundId, fs, es)" using admitted_D [OF Inr] by (simp add: x)
    obtain q c k where run: "commitConditions (conditions_api (ct_env ct)) (ct_slot ct) fates fs es (cs_chain s, 0) = (q, c, k)"
      by (metis prod_cases3)
    show ?thesis
    proof (cases q)
      case (Inl e)
      then show ?thesis using assms by (auto simp: handlePartnerConditionsCommit_def Inr x run)
    next
      case cm: (Inr cm)
      let ?stored = "\<lparr>sr_commitment_ref = cm_commitmentRef cm, sr_fixtures = rb_fixtures body, sr_entrants = rb_entrants body,
                    sr_committed_at_slot = cm_committedAtSlot cm\<rparr>"
      obtain blob where "rulesBlob fs es = Inr blob" "cm_commitmentRef cm = to_hex (sha256 blob)"
        using run unfolding cm by (rule commit_E)
      then have "anchored ct ?stored" using commit_request_D(2,3) [OF req] by (simp add: anchored_def)
      moreover have "cs_commits s' = (cs_commits s)(roundId \<mapsto> ?stored)"
        using assms by (auto simp: handlePartnerConditionsCommit_def Inr x run cm)
      ultimately show ?thesis by blast
    qed
  qed
qed

lemma resolve_commits: "handlePartnerConditionsResolve ct key now fates body s = (r, s') \<Longrightarrow> cs_commits s' = cs_commits s"
  by (auto simp: handlePartnerConditionsResolve_def split: sum.splits prod.splits)

lemma reach_anchored: "server_reach ct s \<Longrightarrow> \<forall>roundId r. cs_commits s roundId = Some r \<longrightarrow> anchored ct r"
proof (induction rule: server_reach.induct)
  case (commit s key fates body r s')
  then show ?case using commit_commits [OF commit(2)] by (auto split: if_splits)
next
  case (resolve s key now fates body r s')
  then show ?case using resolve_commits by metis
qed simp

lemma resolve_request_D:
  assumes "resolve_request ct body commits = Inr (stored, fs, es)"
  shows "\<exists>roundId. round_id_of ct body = Inr roundId \<and> commits roundId = Some stored"
    "conditionsFixturesFromBody (Some (merged_fixtures (rb_fixtures body) (sr_fixtures stored))) True = Inr fs"
    "conditionsEntrantsFromBody (ct_publicKey ct) (ct_shown ct) (sr_entrants stored) = Inr es"
  using assms by (auto simp: resolve_request_def result_simps split: option.splits if_splits)

lemma rulesBlob_rules: "map rule_of fs = map rule_of fs0 \<Longrightarrow> rulesBlob fs es = rulesBlob fs0 es"
  by (simp add: rulesBlob_def)

lemma anchored_check:
  assumes "anchored ct stored" and "conditionsFixturesFromBody (Some (merged_fixtures revealed (sr_fixtures stored))) True = Inr fs"
    and "conditionsEntrantsFromBody (ct_publicKey ct) (ct_shown ct) (sr_entrants stored) = Inr es"
  shows "\<exists>fs0. conditionsFixturesFromBody (sr_fixtures stored) False = Inr fs0 \<and> map rule_of fs = map rule_of fs0
    \<and> check_commitment (Some (sr_commitment_ref stored)) fs es = Inr ()"
proof -
  obtain fs0 es0 blob where st: "conditionsFixturesFromBody (sr_fixtures stored) False = Inr fs0"
    "conditionsEntrantsFromBody (ct_publicKey ct) (ct_shown ct) (sr_entrants stored) = Inr es0"
    "rulesBlob fs0 es0 = Inr blob" "sr_commitment_ref stored = to_hex (sha256 blob)"
    using assms(1) by (auto simp: anchored_def)
  have rules: "map rule_of fs = map rule_of fs0" using st(1) assms(2) by (rule merged_rules)
  have "rulesBlob fs es = Inr blob" using rulesBlob_rules [OF rules] st(2,3) assms(3) by simp
  then have "check_commitment (Some (sr_commitment_ref stored)) fs es = Inr ()"
    by (simp add: check_commitment_def st(4) throwIf_def)
  with st(1) rules show ?thesis by blast
qed

text \<open>C11: in every state that the server can reach, whatever requests came before and whatever facts a request reveals, the
  round that it hands to the operator has the fixtures and entrants of the commitment stored under its identifier, and
  passes the operator's check against the commitment.\<close>

theorem committed_rules_resolve:
  assumes "server_reach ct s" and "resolve_request ct body (cs_commits s) = Inr (stored, fs, es)"
  shows "\<exists>fs0. conditionsFixturesFromBody (sr_fixtures stored) False = Inr fs0 \<and> map rule_of fs = map rule_of fs0
    \<and> conditionsEntrantsFromBody (ct_publicKey ct) (ct_shown ct) (sr_entrants stored) = Inr es
    \<and> check_commitment (Some (sr_commitment_ref stored)) fs es = Inr ()"
proof -
  note request = resolve_request_D [OF assms(2)]
  have "anchored ct stored" using reach_anchored [OF assms(1)] request(1) by blast
  from anchored_check [OF this request(2,3)] request(3) show ?thesis by blast
qed

section \<open>A committed round can be resolved\<close>

lemma commit_handled:
  assumes "requirePartnerApiKey (ct_partners ct) key = Inr p" and "loadConditionsOperator ct = Inr ()"
    and "commit_request ct body = Inr (roundId, fs, es)"
    and "commitConditions (conditions_api (ct_env ct)) (ct_slot ct) fates fs es (cs_chain s, 0) = (Inr cm, c, k)"
  shows "handlePartnerConditionsCommit ct key fates body s = (Inr cm, s\<lparr>cs_chain := c, cs_commits := (cs_commits s)(roundId \<mapsto>
     \<lparr>sr_commitment_ref = cm_commitmentRef cm, sr_fixtures = rb_fixtures body, sr_entrants = rb_entrants body,
      sr_committed_at_slot = cm_committedAtSlot cm\<rparr>)\<rparr>)"
  using assms by (simp add: handlePartnerConditionsCommit_def)

lemma resolve_handled:
  assumes "requirePartnerApiKey (ct_partners ct) key = Inr p" and "loadConditionsOperator ct = Inr ()"
    and "resolve_request ct body (cs_commits s) = Inr (stored, fs, es)"
    and "resolveConditionsRound (ct_env ct) (ct_binding ct) (ct_base58 ct) now fates fs es (Some (sr_commitment_ref stored)) (cs_chain s, 0)
      = (Inr report, c, k)"
  shows "handlePartnerConditionsResolve ct key now fates body s = (Inr report, s\<lparr>cs_chain := c\<rparr>)"
  using assms by (simp add: handlePartnerConditionsResolve_def)

text \<open>C10: a round that is committed can be resolved, under these conditions. Both requests carry keys of partners and the
  operator is configured. The program can accept the rules and the resolved artifact from its wallet, which is the admin: at
  most 8192 bytes each, checked by the program, with no conflicting upload in the state from which the server starts; the
  configuration that the resolution creates is not there yet. The numbers fit their fields, the resolved artifact is valid,
  and every fact is below 2^29. The resolution follows the commitment with no request in between, and all requests to the
  program are served. Then both are answered, the program emits one event, and whoever verifies it from the accounts gets
  MATCH with the winners, the sum of scores and the digests of the reply, unless the rules and the resolved artifact are two
  byte strings with the same SHA-256.\<close>

theorem committed_round_resolves:
  assumes keys: "requirePartnerApiKey (ct_partners ct) key = Inr p" "requirePartnerApiKey (ct_partners ct) key' = Inr p'"
    and operator: "loadConditionsOperator ct = Inr ()"
    and committed: "commit_request ct body = Inr (roundId, fs0, es)" "rulesBlob fs0 es = Inr rules"
      "uploadable (ct_env ct) rules round_uri FORMAT_VERSION_CONDITIONS (rc_store (cs_chain s))"
    and revealed: "rb_round_id reveal = rb_round_id body"
      "conditionsFixturesFromBody (Some (merged_fixtures (rb_fixtures reveal) (rb_fixtures body))) True = Inr fs"
    and fits: "list_fits fixture_fits fs" "list_fits entrant_fits es" and built: "buildConditionsArtifact fs es = Inr blob"
    and accepted: "uploadable (ct_env ct) blob round_uri FORMAT_VERSION_CONDITIONS (rc_store (cs_chain s))"
    and free: "rc_configs (cs_chain s) (round_runtime (sha256 blob) now) = None"
    and valid: "conditions_validate (built_artifact fs es)" and small: "small_facts (built_artifact fs es)"
  shows "(\<exists>cm s1 report s2 event. handlePartnerConditionsCommit ct key (\<lambda>_. Served) body s = (Inr cm, s1)
      \<and> handlePartnerConditionsResolve ct key' now (\<lambda>_. Served) reveal s1 = (Inr report, s2)
      \<and> rc_events (cs_chain s2) = rc_events (cs_chain s) @ [event] \<and> reports (ct_base58 ct) report (built_artifact fs es)
      \<and> (\<forall>w programId. shows_chain w programId (cs_chain s2) \<longrightarrow>
           (\<exists>r. verifyConditions w programId event = Inr r \<and> agrees_with r report)))
    \<or> rules \<noteq> blob \<and> sha256 rules = sha256 blob"
proof (cases "rules \<noteq> blob \<and> sha256 rules = sha256 blob")
  case True
  then show ?thesis by blast
next
  case False
  from commit_served [OF committed(2,3), of "ct_slot ct"] obtain cm c1 k where
    run: "commitConditions (conditions_api (ct_env ct)) (ct_slot ct) (\<lambda>_. Served) fs0 es (cs_chain s, 0) = (Inr cm, c1, k)"
    and ref: "cm_commitmentRef cm = to_hex (sha256 rules)" and c1: "rc_configs c1 = rc_configs (cs_chain s)"
      "rc_events c1 = rc_events (cs_chain s)"
      "uploadable (ct_env ct) rules round_uri FORMAT_VERSION_CONDITIONS (rc_store c1)"
      "\<forall>other v. sha256 other \<noteq> sha256 rules \<longrightarrow> uploadable (ct_env ct) other round_uri v (rc_store (cs_chain s)) \<longrightarrow>
         uploadable (ct_env ct) other round_uri v (rc_store c1)" by blast
  have ready: "uploadable (ct_env ct) blob round_uri FORMAT_VERSION_CONDITIONS (rc_store c1)"
  proof (cases "sha256 blob = sha256 rules")
    case True
    then have "blob = rules" using False by simp
    then show ?thesis using c1(3) by simp
  next
    case other: False
    then show ?thesis using c1(4) accepted by blast
  qed
  let ?stored = "\<lparr>sr_commitment_ref = cm_commitmentRef cm, sr_fixtures = rb_fixtures body, sr_entrants = rb_entrants body,
      sr_committed_at_slot = cm_committedAtSlot cm\<rparr>"
  let ?s1 = "s\<lparr>cs_chain := c1, cs_commits := (cs_commits s)(roundId \<mapsto> ?stored)\<rparr>"
  note request = commit_request_D [OF committed(1)]
  have commit: "handlePartnerConditionsCommit ct key (\<lambda>_. Served) body s = (Inr cm, ?s1)"
    using keys(1) operator committed(1) run by (rule commit_handled)
  have "round_id_of ct reveal = Inr roundId" using request(4) revealed(1) by (simp add: round_id_of_def)
  then have resolving: "resolve_request ct reveal (cs_commits ?s1) = Inr (?stored, fs, es)"
    using request revealed(2) by (simp add: resolve_request_def)
  have "anchored ct ?stored" using request(2,3) committed(2) ref by (simp add: anchored_def)
  from anchored_check [OF this, of "rb_fixtures reveal" fs es] revealed(2) request(3)
  have check: "check_commitment (Some (cm_commitmentRef cm)) fs es = Inr ()" by auto
  have unused: "rc_configs c1 (round_runtime (sha256 blob) now) = None" using c1(1) free by simp
  from round_served [OF fits built valid small check ready unused, of "ct_binding ct" "ct_base58 ct"] obtain report c2 k2 event where
    res: "resolveConditionsRound (ct_env ct) (ct_binding ct) (ct_base58 ct) now (\<lambda>_. Served) fs es (Some (cm_commitmentRef cm)) (c1, 0)
      = (Inr report, c2, k2)" "rc_events c2 = rc_events c1 @ [event]" "reports (ct_base58 ct) report (built_artifact fs es)"
      "\<forall>w programId. shows_chain w programId c2 \<longrightarrow> (\<exists>r. verifyConditions w programId event = Inr r \<and> agrees_with r report)" by blast
  have "handlePartnerConditionsResolve ct key' now (\<lambda>_. Served) reveal ?s1 = (Inr report, ?s1\<lparr>cs_chain := c2\<rparr>)"
    by (rule resolve_handled [OF keys(2) operator resolving]) (use res(1) in simp)
  moreover have "rc_events c2 = rc_events (cs_chain s) @ [event]" using res(2) c1(2) by simp
  ultimately show ?thesis
    using commit res(3,4) by (intro disjI1 exI [of _ cm] exI [of _ ?s1] exI [of _ report] exI [of _ "?s1\<lparr>cs_chain := c2\<rparr>"] exI [of _ event]) simp
qed

section \<open>A sample round\<close>

definition new_server :: conditions_server where
  "new_server = \<lparr>cs_chain = new_chain, cs_commits = (\<lambda>_. None)\<rparr>"

definition sample_setting :: conditions_setting where
  "sample_setting = \<lparr>ct_partners = Some [js ''k'' \<mapsto> \<lparr>pn_key = js ''k'', pn_draw_enabled = False\<rparr>],
     ct_walletPath = js ''/w'', ct_created = Inr (), ct_env = conditions_env, ct_binding = sample_binding, ct_publicKey = (\<lambda>_. None), ct_shown = (\<lambda>_. []),
     ct_base58 = (\<lambda>_. []), ct_slot = (\<lambda>_. 7)\<rparr>"

definition sample_commit :: round_body where
  "sample_commit = \<lparr>rb_round_id = JString (js ''r1''),
     rb_fixtures = Some [\<lparr>fb_fixture_id = Id_number 7, fb_event_stat_root = JUndefined, fb_stats = None\<rparr>],
     rb_entrants = Some [\<lparr>eb_wallet = JString (to_hex (replicate 32 9)), eb_tier = Some 100, eb_entered_at = Some (-1),
       eb_legs = Some [\<lparr>lb_term_kind = None, lb_stat_key_a = 1, lb_stat_key_b = Some 2, lb_op = 1, lb_comparison = 0,
         lb_threshold = None, lb_line_x2 = Some 5, lb_odds_milli = 1900\<rparr>],
       eb_fixture_index = Some [0]\<rparr>]\<rparr>"

definition sample_reveal :: round_body where
  "sample_reveal = \<lparr>rb_round_id = JString (js ''r1''),
     rb_fixtures = Some [\<lparr>fb_fixture_id = Id_number 7, fb_event_stat_root = JString (to_hex (replicate 32 5)),
       fb_stats = Some [\<lparr>statKey = 1, statVal = 2\<rparr>, \<lparr>statKey = 2, statVal = 1\<rparr>]\<rparr>],
     rb_entrants = None\<rparr>"

lemma sample_root: "conditionsRoot32 (JString (to_hex (replicate 32 5))) = Inr (replicate 32 5)"
  by (simp add: conditionsRoot32_def)

lemma sample_entrants:
  "conditionsEntrantsFromBody (ct_publicKey sample_setting) (ct_shown sample_setting) (rb_entrants sample_commit) = Inr [sample_entrant]"
  by (simp add: conditionsEntrantsFromBody_def sample_commit_def entrant_from_def conditionsWalletBytes_def or_default_def
      leg_from_def sample_conditions)

lemma sample_fixtures:
  "conditionsFixturesFromBody (rb_fixtures sample_commit) False = Inr [rule_of sample_fixture]"
  "conditionsFixturesFromBody (Some (merged_fixtures (rb_fixtures sample_reveal) (rb_fixtures sample_commit))) True = Inr [sample_fixture]"
  by (simp_all add: conditionsFixturesFromBody_def merged_fixtures_def merged_fixture_def revealed_of_def fixture_from_def
      sample_commit_def sample_reveal_def or_default_def sample_root sample_fixture_def rule_of_def Let_def)
     (simp_all add: conditionsRoot32_def)

lemma sample_id: "round_id_of sample_setting sample_commit = Inr (js ''r1'')"
  by (simp add: round_id_of_def sample_commit_def or_empty_def) code_simp

lemma sample_admitted:
  "requirePartnerApiKey (ct_partners sample_setting) (js ''k'') = Inr \<lparr>pn_key = js ''k'', pn_draw_enabled = False\<rparr>"
  "loadConditionsOperator sample_setting = Inr ()"
  by (simp_all add: requirePartnerApiKey_def loadConditionsOperator_def sample_setting_def js_def js_trim_def js_space_def)

lemma sample_request: "commit_request sample_setting sample_commit = Inr (js ''r1'', [rule_of sample_fixture], [sample_entrant])"
  unfolding commit_request_def sample_id sample_fixtures(1) sample_entrants by (simp add: js_def)

lemma sample_committed_rules: "rulesBlob [rule_of sample_fixture] [sample_entrant] = Inr sample_rules"
  using rulesBlob_rules [of "[rule_of sample_fixture]" "[sample_fixture]" "[sample_entrant]"] sample_rules_built
  by (simp add: rule_of_def)

lemma sample_uploadable:
  "uploadable (ct_env sample_setting) sample_rules round_uri FORMAT_VERSION_CONDITIONS (rc_store (cs_chain new_server))"
  "uploadable (ct_env sample_setting) sample_round_blob round_uri FORMAT_VERSION_CONDITIONS (rc_store (cs_chain new_server))"
  using acceptable_round [OF sample_rules_checked] acceptable_round [OF sample_round(1-4)]
  by (simp_all add: acceptable_def round_uri_def js_def ascii_bytes_def sample_setting_def FORMAT_VERSION_CONDITIONS_def
      new_server_def new_chain_def fresh_store_consistent program_reach.fresh)

lemma committed_round_resolves_witness:
  "(\<exists>cm s1 report s2 event. handlePartnerConditionsCommit sample_setting (js ''k'') (\<lambda>_. Served) sample_commit new_server = (Inr cm, s1)
      \<and> handlePartnerConditionsResolve sample_setting (js ''k'') 5 (\<lambda>_. Served) sample_reveal s1 = (Inr report, s2)
      \<and> rc_events (cs_chain s2) = [event] \<and> rr_winnersCount report = 1)
    \<or> sample_rules \<noteq> sample_round_blob \<and> sha256 sample_rules = sha256 sample_round_blob"
proof -
  have id: "rb_round_id sample_reveal = rb_round_id sample_commit" by (simp add: sample_commit_def sample_reveal_def)
  have new: "rc_configs (cs_chain new_server) r = None" "rc_events (cs_chain new_server) = []" for r
    by (simp_all add: new_server_def new_chain_def)
  have "rr_winnersCount report = 1" if "reports b report sample_round_artifact" for report b
    using that sample_round(6) by (auto simp: reports_def Let_def)
  with committed_round_resolves [OF sample_admitted(1) sample_admitted(1) sample_admitted(2) sample_request sample_committed_rules
      sample_uploadable(1) id sample_fixtures(2) sample_conditions_fits sample_built sample_uploadable(2) new(1) sample_round(4,5), of 5]
  show ?thesis unfolding new(2) append_Nil by blast
qed

lemma committed_rules_resolve_witness:
  "\<exists>s stored. server_reach sample_setting s \<and> resolve_request sample_setting sample_reveal (cs_commits s) = Inr (stored, [sample_fixture], [sample_entrant])
    \<and> check_commitment (Some (sr_commitment_ref stored)) [sample_fixture] [sample_entrant] = Inr ()"
proof -
  from commit_served [OF sample_committed_rules sample_uploadable(1), of "ct_slot sample_setting"] obtain cm c k where
    "commitConditions (conditions_api (ct_env sample_setting)) (ct_slot sample_setting) (\<lambda>_. Served) [rule_of sample_fixture] [sample_entrant]
      (cs_chain new_server, 0) = (Inr cm, c, k)" by blast
  note handled = commit_handled [OF sample_admitted sample_request this]
  let ?stored = "\<lparr>sr_commitment_ref = cm_commitmentRef cm, sr_fixtures = rb_fixtures sample_commit,
      sr_entrants = rb_entrants sample_commit, sr_committed_at_slot = cm_committedAtSlot cm\<rparr>"
  let ?s = "new_server\<lparr>cs_chain := c, cs_commits := (cs_commits new_server)(js ''r1'' \<mapsto> ?stored)\<rparr>"
  have "server_reach sample_setting new_server" unfolding new_server_def by (rule server_reach.start)
  then have reach: "server_reach sample_setting ?s" using handled by (rule server_reach.commit)
  have id: "round_id_of sample_setting sample_reveal = Inr (js ''r1'')"
    using sample_id by (simp add: round_id_of_def sample_commit_def sample_reveal_def)
  have req: "resolve_request sample_setting sample_reveal (cs_commits ?s) = Inr (?stored, [sample_fixture], [sample_entrant])"
    using sample_fixtures(2) sample_entrants unfolding resolve_request_def id by (simp add: js_def)
  from committed_rules_resolve [OF reach req] reach req show ?thesis by blast
qed

end
