(* ===== verification/Spec2Isabelle.thy ===== *)
theory Spec2Isabelle
  imports Slot_Replay Conditions_Rank Compiled_Draw Events_Codec Verify_Claims Sortition_Claims Operator_Program
    Operator_Claims Operator_Retry Partner_Draw Partner_Sample Partner_Rounds
begin

text \<open>
  \<^bold>\<open>The outcome SDK\<close>

  The repository is a verifiable outcome engine: an operator commits to an \<^emph>\<open>artifact\<close> (the byte description
  of a draw, a slot game or a prediction round), an on-chain program resolves it with randomness fixed
  before, and anybody can replay the resolution. This development models the TypeScript SDK under
  \<^verbatim>\<open>src/sdk\<close>: everything that turns a configuration into bytes, bytes into a draw, and a draw into winners,
  digests and payouts, the verifier, and the operator's side of an upload and of a draw together with the handlers of
  the Rust program (\<^verbatim>\<open>src/programs/outcome\<close>) that answer it.

  \<^bold>\<open>Parts of the program and their theories\<close>

  \<^item> \<open>VRE_Prelude\<close>: errors as values (\<open>js_error\<close>, \<open>result\<close>), the loops that stop at the first \<^verbatim>\<open>throw\<close>, readers of a
    buffer with an offset, and the relation \<open>runs p xs v\<close> (wherever it meets \<open>xs\<close>, the reader \<open>p\<close> consumes it and
    returns \<open>v\<close>) with the collections \<open>runs_intros\<close>, \<open>result_simps\<close> and \<open>result_elims\<close> on which all codec proofs rest.
  \<^item> \<open>Bytes\<close>, \<open>Sha256\<close>, \<open>Utf8\<close>, \<open>Js_Values\<close>, \<open>Js_Sort\<close>, \<open>Json\<close>: what the SDK uses of the language and its library:
    \<^verbatim>\<open>Buffer\<close> readers and writers with their range errors, \<^verbatim>\<open>crypto.createHash("sha256")\<close>, UTF-16 strings and UTF-8,
    configuration values, \<^verbatim>\<open>Number\<close> and \<^verbatim>\<open>BigInt\<close> conversions, the stable \<^verbatim>\<open>Array.prototype.sort\<close>, and the JSON that
    canonical snapshot lines are written in and parsed from. The locale \<open>comparator\<close> is the contract between a
    comparison function and the sort; each comparator of the SDK interprets it.
  \<^item> \<open>Codec\<close>: the locale \<open>codec\<close>, the contract between a writer and a reader of one record.
  \<^item> \<open>Slot\<close> (\<^verbatim>\<open>slot.ts\<close>): \<open>slot_game_spec\<close>, \<open>encodeSlotArtifact\<close>, \<open>parseSlotArtifact\<close>, the xorshift64* generator, \<open>replaySpin\<close>,
    \<open>maxWinCap\<close>. \<open>Slot_Codec\<close> proves the round trip, \<open>Slot_Replay\<close> that spin and line wins are those of a reference
    definition on 64-bit words and that a replay always returns.
  \<^item> \<open>Conditions\<close> (\<^verbatim>\<open>conditions.ts\<close>): prediction slips, their fixtures, scoring in fixed point, ranking, hashes and
    validation; \<open>Conditions_Codec\<close>, \<open>Conditions_Score\<close>, \<open>Conditions_Rank\<close> hold its lemmas.
  \<^item> \<open>Merkle\<close>, \<open>Snapshot_Entries\<close>, \<open>Snapshot_File\<close>, \<open>Snapshot_Artifact\<close>, \<open>Selection\<close> (\<^verbatim>\<open>snapshot.ts\<close>): Merkle proofs, the
    normalisation of participants, canonical files and their streaming readers, the snapshot and compact
    artifacts (format versions 4 to 7), and the draw, streaming over a file or over a compact artifact.
    \<open>Selection_Draw\<close> and \<open>Selection_Claims\<close> prove that both draws make the same claim, that the weighted pick is
    fair, and what a claim binds.
  \<^item> \<open>Composite\<close> (\<^verbatim>\<open>composite_rank_desc.ts\<close>): the weighted multi-field ranking (format version 8);
    \<open>Composite_Replay\<close> and \<open>Composite_Codec\<close> hold its lemmas.
  \<^item> \<open>Artifact\<close> (\<^verbatim>\<open>artifact.ts\<close>): the entry point \<open>buildArtifact\<close>, with raffles, loot tables, airdrops and formula draws
    serialised in format versions 1 to 3; \<open>Artifact_Valid\<close> proves what its validation guarantees.
  \<^item> \<open>Compiled\<close> (\<^verbatim>\<open>verify.ts\<close>): the verifier's parser of every artifact version and its selection. \<open>Compiled_Codec\<close> is
    the round trip from \<^verbatim>\<open>artifact.ts\<close> to \<^verbatim>\<open>verify.ts\<close>, \<open>Compiled_Agree\<close> the agreement of the two parsers of compact
    artifacts, \<open>Compiled_Draw\<close> the refinement: the verifier's selection is the operator's claim.
  \<^item> \<open>Events\<close> (\<^verbatim>\<open>verify.ts\<close>): base64, the log lines of a transaction, the decoders of the events and of two accounts.
    \<open>Events_Scan\<close> and \<open>Events_Codec\<close> prove that the scanner of resolve events returns an event only where its own
    program emitted it, unless an earlier data line of whatever program makes the decoder throw.
  \<^item> \<open>Snapshot_Source\<close> (\<^verbatim>\<open>snapshot_source.ts\<close>): where a committed snapshot may be read, and the search for a source with
    the committed hash.
  \<^item> \<open>Chain\<close>, \<open>Verify\<close>, \<open>Verify_Outcome\<close> (\<^verbatim>\<open>verify.ts\<close>): the accounts behind a resolution, their addresses, the artifact put
    together from its chunks, and \<open>verifyOutcome\<close> with its four replays: conditions, slot spins, snapshot draws and
    compact draws. \<open>Verify_Sound\<close> proves what a MATCH means in any world, \<open>Verify_Accounts\<close> the layout of the accounts,
    \<open>Verify_Honest\<close> that an honest settlement matches; \<open>Verify_Claims\<close> holds the properties and their samples.
  \<^item> \<open>Confirm\<close> (\<^verbatim>\<open>confirm.ts\<close>): sending a transaction, polling for its confirmation and sending again after an expired
    blockhash, as functions over observations and as a step relation.
  \<^item> \<open>Sortition\<close> (\<^verbatim>\<open>sortition.ts\<close>): tickets, thresholds, the eight instructions and the calls that send them through
    \<open>Confirm\<close>; \<open>Sortition_Claims\<close> holds the properties.
  \<^item> \<open>Effects\<close>: routines that change a state and may throw, with a small calculus: \<open>keeps\<close> for invariants, \<open>achieves\<close> for
    results.
  \<^item> \<open>Operator_Upload\<close> (\<^verbatim>\<open>operator.ts\<close>, \<^verbatim>\<open>instructions/*.rs\<close>): \<open>submitApprovedArtifact\<close> with every request executed, rejected or
    executed with the answer lost, as the \<open>fate\<close>s say, and the five handlers of the program behind it.
    \<open>Operator_Resume\<close> states what the client relies on as the locale \<open>upload_laws\<close> and proves there that an upload that
    stopped anywhere can be resumed; \<open>Operator_Program\<close> interprets it on the handlers, and proves an invariant of the
    states that any client can reach (\<open>program_reach\<close>).
  \<^item> \<open>Slot_Evidence\<close> (\<^verbatim>\<open>operator.ts\<close>, \<^verbatim>\<open>math/rng_v2.rs\<close>): the slots and hashes that randomness is made of, as client and
    program read them from the sysvar.
  \<^item> \<open>Snapshot_Program\<close> (\<^verbatim>\<open>math/compiled_outcome_v1.rs\<close>): the program's parser of snapshot artifacts, and that the SDK reads what
    it accepts.
  \<^item> \<open>Operator_Rng\<close> (\<^verbatim>\<open>operator.ts\<close>, \<^verbatim>\<open>settle_rng_v2\<close>): the winner claim of a snapshot draw and its settlement from the blob
    that the program loads and parses; \<open>Operator_Claims\<close> proves that \<open>verify_resolved\<close> returns MATCH on what was claimed and
    settled.
  \<^item> \<open>Operator_Retry\<close> (\<^verbatim>\<open>operator.ts\<close>): waiting for the target slots with requests that may fail, settling and verifying
    again.
  \<^item> \<open>Conditions_Program\<close> (\<^verbatim>\<open>math/conditions.rs\<close>, \<^verbatim>\<open>resolve_conditions\<close>): the program's scorer, with saturating 32-bit and
    checked 128-bit arithmetic, its parser and its attestation, and where they agree with the client's.
    \<open>Conditions_Resolved\<close> proves that what the program resolves in a reachable state verifies, and that this fails for
    facts that saturate. \<open>Conditions_Written\<close> is what the writers make of numbers that do not fit, as the locale
    \<open>determined\<close> of writers whose bytes determine what was written. \<open>Conditions_Operator\<close>
    (\<^verbatim>\<open>conditions_operator.ts\<close>, \<^verbatim>\<open>initialize_outcome_config\<close>): committing the rules and resolving a round; \<open>Conditions_Parity\<close> proves that the program reads what the client builds,
    \<open>Conditions_Round\<close> interprets \<open>upload_laws\<close> on the chain of rounds and proves that a round can be retried, that its
    report is what a verification establishes, and that a commitment binds the rules.
  \<^item> \<open>Partner_Request\<close> (\<^verbatim>\<open>web/server.mjs\<close>): keys, the conversion of JSON values and the checks of the partner API;
    \<open>Partner_Draw\<close> proves that an accepted draw is one that the artifact builder accepts.
  \<^item> \<open>Partner_Snapshot\<close> (\<^verbatim>\<open>web/server.mjs\<close>): the canonical snapshot of an uploaded session, in memory or through the
    program \<^verbatim>\<open>sort\<close>; \<open>Partner_Modes\<close> proves that the two agree.
  \<^item> \<open>Partner_Session\<close>, \<open>Partner_Job\<close> (\<^verbatim>\<open>web/server.mjs\<close>, \<^verbatim>\<open>web/snapshot-storage.mjs\<close>): the sessions of the partner API as a
    state machine. The state is what is on the disk, the jobs in memory, and the draws that were started, a ghost of the
    network; the steps are the handlers, the stages of a job, failures, expiry and restarts. A step that opens a session
    has an identifier that was not issued before. \<open>Partner_Safety\<close> keeps an invariant session by session,
    \<open>Partner_Claims\<close> draws its consequences, \<open>Partner_Live\<close> follows a job to its end and the mirror copies,
    \<open>Partner_Proof\<close> models the Merkle proofs that a drawn session serves and proves that its participants get them,
    \<open>Partner_Sample\<close> is one session from its opening to its draw.
  \<^item> \<open>Partner_Conditions\<close> (\<^verbatim>\<open>web/server.mjs\<close>): committing and resolving a conditions round over HTTP, with the check of
    the key and the loading of the operator; \<open>Partner_Rounds\<close>
    proves that what is resolved has the rules of the stored commitment and that a committed round can be resolved.

  \<^bold>\<open>How state and operations correspond\<close>

  An object of the source is a record, a discriminated union a datatype, a \<^verbatim>\<open>bigint\<close> or an integer number an \<open>int\<close>
  (numbers are compared with the bounds the source checks), a \<^verbatim>\<open>Buffer\<close> a list of bytes. A loop that mutates local
  variables is a fold over the tuple of these variables, with the guards in the order of the source; a loop
  over a parsed count is \<open>forR\<close> or \<open>repeatR\<close>. Every \<^verbatim>\<open>throw\<close> is an \<open>Inl\<close> value; its message is the constant part of
  the source's message. \<^verbatim>\<open>artifact.ts\<close> asks \<^verbatim>\<open>@solana/web3.js\<close> whether a string is a public key: that predicate is a
  parameter. The driver of a verification reads accounts, files and the network through a record of functions,
  \<open>world\<close>, which extends \<open>source_world\<close> and is extended by \<open>sortition_world\<close>: one answer per address, path or URL, which
  is all that one verification asks for. The theorems about MATCH hold in every world; those that promise a MATCH
  say which accounts the world holds. The polling loop observes the node turn by turn; that its clock respects the
  timers is the hypothesis \<open>paced\<close>, and what a node says of a transaction that landed is \<open>lands_at\<close>.

  \<^bold>\<open>Bounds and termination\<close>

  No definition uses fuel. Loops over bytes are bounded by counts read from the artifact, the Merkle loop by the
  length of its level, decimal printing and \<open>bit_length\<close> by division, the attempts to send by their number; the
  termination proofs are by measure. The polling loop is a \<^verbatim>\<open>partial_function\<close>, since only the clock ends it: under \<open>paced\<close>
  it takes at most 46 turns. Likewise \<open>waitForSlotAfter\<close>, which ends when the node's slots pass the target or a request fails
  (\<open>clock_runs\<close>); a settlement is
  tried at most four times. That a routine returns a value and not an error is stated as such, for instance for
  spins, draws, replays and honest settlements.

  \<^bold>\<open>Not modelled\<close>

  Of \<^verbatim>\<open>operator.ts\<close> the wallet, the creation of runtimes and the older resolve calls, which build
  instructions with anchor and send them one after the other; the command line, the scripts and the rest of the web site
  are input and output around the SDK. Of the verifier, the temporary copy
  of a snapshot and the detail texts of errors and attempts are left out, of \<^verbatim>\<open>confirm.ts\<close> the logs in an error message
  and the removal of the listener, of \<^verbatim>\<open>sortition.ts\<close> the reading of the wallet and of the interface description. Case
  folding is that of ASCII. Of the Rust program only the handlers named above
  are modelled, without rent, transfers, timestamps and the audit hash; the circuits and the generated interface
  description are outside the SDK. SHA-256 is computed, not assumed collision-free: a theorem that depends on it says so in its statement.
\<close>

end
